(* ===== verification/Ordered_Map.thy ===== *)
theory Ordered_Map
  imports Prelude
begin

text \<open>
  \<open>BTreeMap\<close> of the Rust library, as an association list kept in increasing key order, so
  that a loop over its entries meets them in the order the source meets them. Lookup is
  \<open>map_of\<close>. The locale \<open>keyed_store\<close> states the laws the components use, and proves
  once what they derive from them; it is interpreted on the operations below.
\<close>

section \<open>Operations\<close>

type_synonym ('k, 'v) omap = "('k \<times> 'v) list"

fun om_put :: "'k::linorder \<Rightarrow> 'v \<Rightarrow> ('k, 'v) omap \<Rightarrow> ('k, 'v) omap" where
  "om_put k v [] = [(k, v)]"
| "om_put k v ((k', v') # m) =
     (if k < k' then (k, v) # (k', v') # m
      else if k = k' then (k, v) # m
      else (k', v') # om_put k v m)"

definition om_del :: "'k \<Rightarrow> ('k, 'v) omap \<Rightarrow> ('k, 'v) omap" where
  "om_del k m = filter (\<lambda>e. fst e \<noteq> k) m"

definition om_retain :: "('k \<Rightarrow> 'v \<Rightarrow> bool) \<Rightarrow> ('k, 'v) omap \<Rightarrow> ('k, 'v) omap" where
  "om_retain p m = filter (\<lambda>e. p (fst e) (snd e)) m"

text \<open>\<open>get_mut\<close> followed by an assignment through the reference; every value in turn is
  \<open>values_mut\<close>.\<close>

definition om_upd :: "'k \<Rightarrow> ('v \<Rightarrow> 'v) \<Rightarrow> ('k, 'v) omap \<Rightarrow> ('k, 'v) omap" where
  "om_upd k f m = map (\<lambda>e. if fst e = k then (fst e, f (snd e)) else e) m"

definition om_mapv :: "('v \<Rightarrow> 'v) \<Rightarrow> ('k, 'v) omap \<Rightarrow> ('k, 'v) omap" where
  "om_mapv f m = map (\<lambda>e. (fst e, f (snd e))) m"

definition om_vals :: "('k, 'v) omap \<Rightarrow> 'v list" where
  "om_vals m = map snd m"

definition om_keys :: "('k, 'v) omap \<Rightarrow> 'k list" where
  "om_keys m = map fst m"

definition om_ok :: "('k::linorder, 'v) omap \<Rightarrow> bool" where
  "om_ok m = sorted_wrt (<) (map fst m)"

section \<open>Laws\<close>

lemma map_of_om_put [simp]: "map_of (om_put k v m) = (map_of m)(k \<mapsto> v)"
  by (induction k v m rule: om_put.induct) (auto simp: fun_eq_iff)

lemma map_of_om_del [simp]: "map_of (om_del k m) = (map_of m)(k := None)"
  by (induction m) (auto simp: om_del_def fun_eq_iff)

lemma map_of_om_upd [simp]:
  "map_of (om_upd k f m) = (map_of m)(k := map_option f (map_of m k))"
  by (induction m) (auto simp: om_upd_def fun_eq_iff)

lemma map_of_om_mapv [simp]: "map_of (om_mapv f m) k = map_option f (map_of m k)"
  by (induction m) (auto simp: om_mapv_def)

lemma set_om_put: "set (om_put k v m) \<subseteq> insert (k, v) (set m)"
  by (induction k v m rule: om_put.induct) auto

lemma keys_om_put [simp]: "fst ` set (om_put k v m) = insert k (fst ` set m)"
  by (induction k v m rule: om_put.induct) auto

lemma om_ok_Nil [simp]: "om_ok []"
  by (simp add: om_ok_def)

lemma om_ok_Cons: "om_ok ((k, v) # m) \<longleftrightarrow> (\<forall>k' \<in> fst ` set m. k < k') \<and> om_ok m"
  by (auto simp: om_ok_def)

lemma om_ok_put [simp]: "om_ok m \<Longrightarrow> om_ok (om_put k v m)"
proof (induction k v m rule: om_put.induct)
  case (1 k v)
  then show ?case by (simp add: om_ok_def)
next
  case (2 k v k' v' m)
  then show ?case by (auto simp: om_ok_Cons less_le_trans)
qed

lemma om_ok_distinct: "om_ok m \<Longrightarrow> distinct (map fst m)"
  by (simp add: om_ok_def strict_sorted_iff)

lemma om_ok_filter: "om_ok m \<Longrightarrow> om_ok (filter p m)"
  by (induction m) (auto simp: om_ok_Cons)

lemma om_ok_del [simp]: "om_ok m \<Longrightarrow> om_ok (om_del k m)"
  by (simp add: om_del_def om_ok_filter)

lemma om_ok_retain [simp]: "om_ok m \<Longrightarrow> om_ok (om_retain p m)"
  by (simp add: om_retain_def om_ok_filter)

lemma om_keys_upd [simp]: "map fst (om_upd k f m) = map fst m"
  by (induction m) (auto simp: om_upd_def)

lemma om_keys_mapv [simp]: "map fst (om_mapv f m) = map fst m"
  by (induction m) (auto simp: om_mapv_def)

lemma om_ok_upd [simp]: "om_ok (om_upd k f m) = om_ok m"
  by (simp add: om_ok_def)

lemma om_ok_mapv [simp]: "om_ok (om_mapv f m) = om_ok m"
  by (simp add: om_ok_def)

lemma map_of_filter_distinct:
  "distinct (map fst m) \<Longrightarrow>
     map_of (filter p m) k =
       (case map_of m k of None \<Rightarrow> None | Some v \<Rightarrow> if p (k, v) then Some v else None)"
proof (induction m)
  case Nil
  then show ?case by simp
next
  case (Cons e m)
  then show ?case
    by (cases e) (auto simp: map_of_eq_None_iff image_iff split: option.splits dest: map_of_SomeD)
qed

lemma map_of_om_retain:
  "om_ok m \<Longrightarrow>
     map_of (om_retain p m) k =
       (case map_of m k of None \<Rightarrow> None | Some v \<Rightarrow> if p k v then Some v else None)"
  by (simp add: om_retain_def map_of_filter_distinct om_ok_distinct cong: option.case_cong)

lemma map_of_om_retain_Some [res_simps]:
  "om_ok m \<Longrightarrow> map_of (om_retain p m) k = Some v \<longleftrightarrow> map_of m k = Some v \<and> p k v"
  by (auto simp: map_of_om_retain split: option.splits)

lemma in_om_vals_iff: "om_ok m \<Longrightarrow> v \<in> set (om_vals m) \<longleftrightarrow> (\<exists>k. map_of m k = Some v)"
  by (force simp: om_vals_def om_ok_distinct)

lemma in_om_valsI: "map_of m k = Some v \<Longrightarrow> v \<in> set (om_vals m)"
  by (metis om_vals_def image_eqI list.set_map map_of_SomeD snd_conv)

lemma in_om_keys_iff: "k \<in> set (om_keys m) \<longleftrightarrow> map_of m k \<noteq> None"
  by (induction m) (auto simp: om_keys_def)

lemma length_om_mapv [simp]: "length (om_mapv f m) = length m"
  by (simp add: om_mapv_def)

lemma length_om_upd [simp]: "length (om_upd k f m) = length m"
  by (simp add: om_upd_def)

lemma length_om_put_le: "length (om_put k v m) \<le> Suc (length m)"
  by (induction k v m rule: om_put.induct) auto

lemma length_om_retain_le: "length (om_retain p m) \<le> length m"
  by (simp add: om_retain_def)

lemma om_vals_mapv: "om_vals (om_mapv f m) = map f (om_vals m)"
  by (simp add: om_vals_def om_mapv_def)

section \<open>The store interface\<close>

text \<open>
  What a client of a keyed store relies on: a lookup after a write, a removal, and an
  update in place. Writing one value under several keys in turn (how physical claims are
  taken) and updating several entries in turn (how incumbents are fenced) follow.
\<close>

locale keyed_store =
  fixes get :: "'m \<Rightarrow> 'k \<Rightarrow> 'v option"
    and put :: "'k \<Rightarrow> 'v \<Rightarrow> 'm \<Rightarrow> 'm"
    and upd :: "'k \<Rightarrow> ('v \<Rightarrow> 'v) \<Rightarrow> 'm \<Rightarrow> 'm"
    and ok :: "'m \<Rightarrow> bool"
  assumes get_put: "get (put k v m) = (get m)(k \<mapsto> v)"
    and get_upd: "get (upd k f m) = (get m)(k := map_option f (get m k))"
    and ok_put: "ok m \<Longrightarrow> ok (put k v m)"
    and ok_upd: "ok m \<Longrightarrow> ok (upd k f m)"
begin

lemma put_all_get:
  "get (fold (\<lambda>k. put k v) ks m) k = (if k \<in> set ks then Some v else get m k)"
  by (induction ks arbitrary: m) (auto simp: get_put)

lemma put_all_ok: "ok m \<Longrightarrow> ok (fold (\<lambda>k. put k v) ks m)"
  by (induction ks arbitrary: m) (auto simp: ok_put)

lemma upd_all_get:
  "distinct ks \<Longrightarrow>
     get (fold (\<lambda>k. upd k f) ks m) k =
       (if k \<in> set ks then map_option f (get m k) else get m k)"
  by (induction ks arbitrary: m) (auto simp: get_upd)

lemma upd_all_ok: "ok m \<Longrightarrow> ok (fold (\<lambda>k. upd k f) ks m)"
  by (induction ks arbitrary: m) (auto simp: ok_upd)

lemma upd_all_dom: "get (fold (\<lambda>k. upd k f) ks m) k = None \<longleftrightarrow> get m k = None"
  by (induction ks arbitrary: m) (auto simp: get_upd)

end

interpretation om: keyed_store map_of om_put om_upd om_ok
  by unfold_locales auto

end
