(* ===== verification/Runtime_Types.thy ===== *)
theory Runtime_Types
  imports Ordered_Map "HOL-Library.Word"
begin

text \<open>
  The durable data of the runtime (\<open>crates/rack_ai_runtime/src/types.rs\<close>, \<open>config.rs\<close>,
  \<open>reservation.rs\<close>, \<open>work_payload.rs\<close>, \<open>workspace_scope.rs\<close>, \<open>protocol.rs\<close>,
  \<open>launch_config.rs\<close>, \<open>capacity.rs\<close> and the request documents of
  \<open>rack_ai_application\<close>): one record per struct, with the struct's fields in its order
  under a prefix, and one datatype per enum. A \<open>PathBuf\<close> is its text.

  \<open>json\<close> has the constructors of \<open>serde_json::Value\<close>; a number is a \<open>u64\<close>, a
  negative \<open>i64\<close>, or the bit pattern of an \<open>f64\<close>, the three cases of its representation.
\<close>

section \<open>Values of the wire format\<close>

datatype json =
    JNull
  | JBool bool
  | JPosInt nat
  | JNegInt int
  | JFloat "64 word"
  | JString string
  | JArray "json list"
  | JObject "(string \<times> json) list"

definition json_get :: "json \<Rightarrow> string \<Rightarrow> json option" where
  "json_get v k = (case v of JObject m \<Rightarrow> map_of m k | _ \<Rightarrow> None)"

definition json_as_str :: "json \<Rightarrow> string option" where
  "json_as_str v = (case v of JString s \<Rightarrow> Some s | _ \<Rightarrow> None)"

definition json_as_array :: "json \<Rightarrow> json list option" where
  "json_as_array v = (case v of JArray xs \<Rightarrow> Some xs | _ \<Rightarrow> None)"

definition json_as_u64 :: "json \<Rightarrow> nat option" where
  "json_as_u64 v = (case v of JPosInt n \<Rightarrow> Some n | _ \<Rightarrow> None)"

section \<open>Enumerations\<close>

datatype capability = Reasoning | Coding | Visual | Audio

datatype priority = Low | Medium | High | Paramount

fun priority_rank :: "priority \<Rightarrow> nat" where
  "priority_rank Low = 0"
| "priority_rank Medium = 1"
| "priority_rank High = 2"
| "priority_rank Paramount = 3"

text \<open>\<open>derive(PartialOrd, Ord)\<close>: the order of declaration.\<close>

instantiation priority :: linorder
begin

definition less_eq_priority :: "priority \<Rightarrow> priority \<Rightarrow> bool" where
  "less_eq_priority a b \<longleftrightarrow> priority_rank a \<le> priority_rank b"

definition less_priority :: "priority \<Rightarrow> priority \<Rightarrow> bool" where
  "less_priority a b \<longleftrightarrow> priority_rank a < priority_rank b"

instance
proof
  fix a b :: priority
  show "a \<le> b \<Longrightarrow> b \<le> a \<Longrightarrow> a = b"
    by (cases a; cases b) (simp_all add: less_eq_priority_def)
qed (auto simp: less_eq_priority_def less_priority_def)

end

datatype complexity = Small | MediumWork | Large

datatype backend = Vllm | LlamaCpp | Strata | Comfyui | Chatterbox | Ninfer

datatype driver = Systemd | Docker | Fixture

datatype input_token_counter = NativeMultimodal

datatype image_mime = Png | Jpeg | Webp | Gif | Bmp

datatype protocol = ChatCompletions | Responses | Speech

datatype media_mode = ModeClosed | ModeInteractive | ModeManaged

datatype demand_state =
    Unavailable
  | Preparing
  | Ready
  | Preempting
  | Preempted
  | Releasing
  | Released
  | Cancelled
  | Expired
  | RecoveryRequired

datatype invocation_state =
    Queued
  | Running
  | Completed
  | CancelledCall
  | Failed
  | ExpiredCall
  | Uncertain

datatype warm_state = Resident | Evicting | WarmRecoveryRequired

datatype historical_outcome = StartOutcomeUnknown | RecoveryOutcomeUnknown

datatype current_effect = ProvenAbsent

datatype child_effect =
    Terminal
  | ConfinedToDemandBackend
  | UnresolvedActive
  | IndependentUnproven

section \<open>Configuration\<close>

record file_pin =
  fp_path :: string
  fp_sha256 :: string

record launch =
  l_working_directory :: "string option"
  l_environment :: "(string, string) omap"
  l_cpu_affinity :: "nat list"
  l_file_pins :: "file_pin list"
  l_file_pin_verifier :: "string option"

record profile =
  p_tag :: string
  p_version :: string
  p_model :: string
  p_backend :: backend
  p_driver :: driver
  p_qualified :: bool
  p_evidence :: "string list"
  p_capabilities :: "capability list"
  p_context_tokens :: nat
  p_context_reserve_tokens :: nat
  p_launch :: "launch option"
  p_max_input_tokens :: nat
  p_protocols :: "protocol list"
  p_streaming :: bool
  p_input_token_preflight :: bool
  p_input_token_counter :: "input_token_counter option"
  p_enforce_input_limits :: bool
  p_max_images_per_request :: nat
  p_max_image_bytes :: nat
  p_max_image_pixels :: nat
  p_image_mime_types :: "image_mime list option"
  p_max_output_tokens :: nat
  p_resources :: "string list"
  p_device_mib :: "(string, nat) omap"
  p_host_mib :: nat
  p_cpu_percent :: nat
  p_endpoint :: string
  p_executable :: string
  p_container_image :: "string option"
  p_container_mounts :: "(string, string) omap"
  p_executable_sha256 :: string
  p_args :: "string list"
  p_media_config :: "string option"
  p_media_config_sha256 :: "string option"
  p_media_mode :: "media_mode option"
  p_artifact :: "string option"
  p_artifact_sha256 :: "string option"
  p_artifact_verify_seconds :: nat
  p_startup_seconds :: nat
  p_drain_seconds :: nat
  p_stop_seconds :: nat
  p_inference_seconds :: nat

record source =
  src_source :: string
  src_token_sha256 :: string
  src_qualification :: bool

record device =
  dev_uuid :: string
  dev_capacity_mib :: nat

record limits =
  max_pending :: nat
  max_pending_per_reservation :: nat
  legacy_max_calls_per_reservation :: "nat option"
  max_dispatch_workers :: nat
  max_transition_workers :: nat
  max_gateway_waiters :: nat
  max_wait_seconds :: nat
  max_response_bytes :: nat
  retention_admission_bytes :: nat
  terminal_evidence_bytes :: nat

record workspace_config =
  wc_registry_root :: string
  wc_state_root :: string

text \<open>\<open>Config\<close>, less its \<open>interaction_diagnostics\<close> limits, which no modelled
  operation reads.\<close>

record config =
  c_workspace :: "workspace_config option"
  c_schema :: string
  c_listen :: string
  c_authority_root :: string
  c_fixture_mode :: bool
  c_max_ttl_seconds :: nat
  c_idle_timeout_seconds :: nat
  c_limits :: limits
  c_devices :: "(string, device) omap"
  c_host_capacity_mib :: nat
  c_sources :: "source list"
  c_profiles :: "profile list"

end
