(* ===== verification/Images.thy ===== *)
theory Images
  imports Runtime_Types
begin

text \<open>
  The byte level of \<open>protocol.rs\<close>: which image format a payload has, and how many pixels its header
  announces. Bytes are \<open>8 word\<close>, and what \<open>from_be_bytes\<close> and \<open>from_le_bytes\<close> build
  keeps its width. A slice out of range is \<open>None\<close>, as \<open>slice::get\<close> gives it.
\<close>

unbundle bit_operations_syntax

type_synonym bytes = "8 word list"

definition slice :: "bytes \<Rightarrow> nat \<Rightarrow> nat \<Rightarrow> bytes option" where
  "slice b offset n = (if offset + n \<le> length b then Some (take n (drop offset b)) else None)"

text \<open>The value of a byte string, most significant byte first.\<close>

definition value_be :: "bytes \<Rightarrow> nat" where
  "value_be b = foldl (\<lambda>v x. v * 256 + unat x) 0 b"

definition u16_be :: "bytes \<Rightarrow> nat \<Rightarrow> 16 word option" where
  "u16_be b offset = map_option (\<lambda>x. word_of_nat (value_be x)) (slice b offset 2)"

definition u16_le :: "bytes \<Rightarrow> nat \<Rightarrow> 16 word option" where
  "u16_le b offset = map_option (\<lambda>x. word_of_nat (value_be (rev x))) (slice b offset 2)"

definition u24_le :: "bytes \<Rightarrow> nat \<Rightarrow> 32 word option" where
  "u24_le b offset =
     map_option (\<lambda>x. ucast (x ! 0) OR push_bit 8 (ucast (x ! 1)) OR push_bit 16 (ucast (x ! 2)))
       (slice b offset 3)"

definition u32_be :: "bytes \<Rightarrow> nat \<Rightarrow> 32 word option" where
  "u32_be b offset = map_option (\<lambda>x. word_of_nat (value_be x)) (slice b offset 4)"

definition u32_le :: "bytes \<Rightarrow> nat \<Rightarrow> 32 word option" where
  "u32_le b offset = map_option (\<lambda>x. word_of_nat (value_be (rev x))) (slice b offset 4)"

text \<open>\<open>i32::unsigned_abs\<close>: the magnitude of the signed reading, which always fits.\<close>

definition unsigned_abs :: "32 word \<Rightarrow> 32 word" where
  "unsigned_abs w = word_of_int \<bar>sint w\<bar>"

definition ascii :: "string \<Rightarrow> bytes" where
  "ascii s = map of_char s"

definition bytes_start :: "bytes \<Rightarrow> bytes \<Rightarrow> bool" where
  "bytes_start b p \<longleftrightarrow> take (length p) b = p"

definition png_magic :: bytes where
  "png_magic = [0x89, 0x50, 0x4E, 0x47, 0x0D, 0x0A, 0x1A, 0x0A]"

definition detected_image_format :: "bytes \<Rightarrow> image_mime option" where
  "detected_image_format b =
     (if bytes_start b png_magic then Some Png
      else if bytes_start b [0xFF, 0xD8] then Some Jpeg
      else if bytes_start b (ascii ''GIF87a'') \<or> bytes_start b (ascii ''GIF89a'') then Some Gif
      else if length b \<ge> 12 \<and> bytes_start b (ascii ''RIFF'') \<and> take 4 (drop 8 b) = ascii ''WEBP''
      then Some Webp
      else if bytes_start b (ascii ''BM'') then Some Bmp
      else None)"

section \<open>Dimensions\<close>

type_synonym dimensions = "32 word \<times> 32 word"

definition png_dimensions :: "bytes \<Rightarrow> dimensions option" where
  "png_dimensions b =
     (if length b < 33 \<or> take 4 (drop 12 b) \<noteq> ascii ''IHDR'' then None
      else case u32_be b 8 of None \<Rightarrow> None
      | Some n \<Rightarrow>
          if n \<noteq> 13 then None
          else case u32_be b 16 of None \<Rightarrow> None
          | Some w \<Rightarrow> map_option (Pair w) (u32_be b 20))"

text \<open>The fill bytes before a marker.\<close>

function skip_fill :: "bytes \<Rightarrow> nat \<Rightarrow> nat" where
  "skip_fill b index =
     (if index < length b \<and> b ! index = 0xFF then skip_fill b (index + 1) else index)"
  by pat_completeness auto

termination
  by (relation "measure (\<lambda>(b, index). length b - index)") auto

declare skip_fill.simps [simp del]

lemma skip_fill_ge: "index \<le> skip_fill b index"
proof (induction b index rule: skip_fill.induct)
  case (1 b index)
  then show ?case by (subst skip_fill.simps) auto
qed

definition frame_marker :: "8 word \<Rightarrow> bool" where
  "frame_marker m \<longleftrightarrow>
     (0xC0 \<le> m \<and> m \<le> 0xC3) \<or> (0xC5 \<le> m \<and> m \<le> 0xC7) \<or> (0xC9 \<le> m \<and> m \<le> 0xCB) \<or>
     (0xCD \<le> m \<and> m \<le> 0xCF)"

text \<open>The loop over the segments. Each turn moves the index forward by at least the two bytes of
  a segment length, so it ends.\<close>

function jpeg_segments :: "bytes \<Rightarrow> nat \<Rightarrow> dimensions option" where
  "jpeg_segments b index =
     (if \<not> index + 9 < length b then None
      else if b ! index \<noteq> 0xFF then None
      else
        (let m = skip_fill b index in
         if \<not> m < length b then None
         else
           (let marker = b ! m; index' = m + 1 in
            if marker = 0xD9 \<or> marker = 0xDA then None
            else case u16_be b index' of None \<Rightarrow> None
            | Some w \<Rightarrow>
                if unat w < 2 \<or> index' + unat w > length b then None
                else if frame_marker marker then
                  (case u16_be b (index' + 3) of None \<Rightarrow> None
                   | Some height \<Rightarrow>
                       map_option (\<lambda>width. (ucast width, ucast height)) (u16_be b (index' + 5)))
                else jpeg_segments b (index' + unat w))))"
  by pat_completeness auto

termination
proof (relation "measure (\<lambda>(b, index). length b - index)", goal_cases)
  case (2 b index m marker index' w)
  then show ?case using skip_fill_ge[of index b] by simp
qed simp

declare jpeg_segments.simps [simp del]

definition jpeg_dimensions :: "bytes \<Rightarrow> dimensions option" where
  "jpeg_dimensions b = jpeg_segments b 2"

definition webp_dimensions :: "bytes \<Rightarrow> dimensions option" where
  "webp_dimensions b =
     (if length b < 30 then None
      else
        (let kind = take 4 (drop 12 b) in
         if kind = ascii ''VP8X'' then
           (case u24_le b 24 of None \<Rightarrow> None
            | Some w \<Rightarrow> map_option (\<lambda>h. (w + 1, h + 1)) (u24_le b 27))
         else if kind = ascii ''VP8L'' \<and> b ! 20 = 0x2F then
           map_option (\<lambda>v. ((v AND 0x3FFF) + 1, (drop_bit 14 v AND 0x3FFF) + 1)) (u32_le b 21)
         else if kind = ascii ''VP8 '' \<and> take 3 (drop 23 b) = [0x9D, 0x01, 0x2A] then
           (case u16_le b 26 of None \<Rightarrow> None
            | Some w \<Rightarrow> map_option (\<lambda>h. (ucast (w AND 0x3FFF), ucast (h AND 0x3FFF))) (u16_le b 28))
         else None))"

definition little_dimensions :: "bytes \<Rightarrow> nat \<Rightarrow> dimensions option" where
  "little_dimensions b offset =
     (case u16_le b offset of None \<Rightarrow> None
      | Some w \<Rightarrow> map_option (\<lambda>h. (ucast w, ucast h)) (u16_le b (offset + 2)))"

definition bmp_dimensions :: "bytes \<Rightarrow> dimensions option" where
  "bmp_dimensions b =
     (if length b < 26 then None
      else case u32_le b 14 of None \<Rightarrow> None
      | Some dib \<Rightarrow>
          if dib = 12 then little_dimensions b 18
          else if dib \<ge> 40 then
            (case u32_le b 18 of None \<Rightarrow> None
             | Some w \<Rightarrow> map_option (\<lambda>h. (unsigned_abs w, unsigned_abs h)) (u32_le b 22))
          else None)"

text \<open>The product is taken in 64 bits.\<close>

definition image_pixels :: "bytes \<Rightarrow> image_mime \<Rightarrow> 64 word res" where
  "image_pixels b format =
     res_bind (ok_or (case format of
         Png \<Rightarrow> png_dimensions b
       | Jpeg \<Rightarrow> jpeg_dimensions b
       | Webp \<Rightarrow> webp_dimensions b
       | Gif \<Rightarrow> little_dimensions b 6
       | Bmp \<Rightarrow> bmp_dimensions b) ''invalid_image_payload'') (\<lambda>(w, h).
       Inr (ucast w * ucast h))"

section \<open>Lemmas\<close>

text \<open>The 64-bit product of two 32-bit sides does not wrap.\<close>

lemma product_exact: "unat (ucast (w :: 32 word) * ucast (h :: 32 word) :: 64 word) = unat w * unat h"
proof -
  have "unat (x :: 32 word) < 2 ^ LENGTH(32)" for x by (rule unsigned_less)
  then have l: "unat (x :: 32 word) < 2 ^ 32" for x by simp
  have "unat w * unat h < 2 ^ 32 * 2 ^ 32" using l by (intro mult_strict_mono) auto
  moreover have "take_bit 64 (unat (x :: 32 word)) = unat x" for x
    using l[of x] by (simp add: take_bit_nat_eq_self)
  ultimately show ?thesis by (simp add: unat_word_ariths unsigned_ucast_eq)
qed

lemma value_be_snoc: "value_be (b @ [x]) = value_be b * 256 + unat x"
  by (simp add: value_be_def)

lemma value_be_bound: "value_be b < 256 ^ length b"
proof (induction b rule: rev_induct)
  case Nil
  then show ?case by (simp add: value_be_def)
next
  case (snoc x b)
  have "unat x < 2 ^ LENGTH(8)" by (rule unsigned_less)
  then show ?case using snoc by (simp add: value_be_snoc)
qed

lemma slice_length: "slice b offset n = Some x \<Longrightarrow> length x = n"
  by (auto simp: slice_def split: if_splits)

text \<open>Reading four bytes loses nothing.\<close>

lemma u32_be_exact:
  assumes "u32_be b offset = Some w"
  shows "unat w = value_be (take 4 (drop offset b))" and "offset + 4 \<le> length b"
proof -
  have s: "slice b offset 4 = Some (take 4 (drop offset b))" "offset + 4 \<le> length b"
    using assms by (auto simp: u32_be_def slice_def split: if_splits)
  then show "offset + 4 \<le> length b" by simp
  have "value_be (take 4 (drop offset b)) < 2 ^ 32"
    using value_be_bound[of "take 4 (drop offset b)"] slice_length[OF s(1)] by simp
  then show "unat w = value_be (take 4 (drop offset b))"
    using assms s(1) by (auto simp: u32_be_def unsigned_of_nat take_bit_nat_eq_self)
qed

end
