(* ===== verification/Runtime_State.thy ===== *)
theory Runtime_State
  imports Runtime_Types
begin

text \<open>
  The authority document: demands (ownership claims of a client on a profile's devices),
  invocations (calls submitted under a demand), workspace scopes, warm residencies, the
  cache of negative admission decisions, and the claim of each physical resource.
  \<open>AuthorityDocument<State>\<close> is one record: its claims and the fields of \<open>State\<close>.
\<close>

section \<open>Requests\<close>

definition VERSION :: string where
  "VERSION = ''rack-ai/runtime/v1''"

record acquire =
  a_schema :: string
  a_source_system :: string
  a_work_id :: string
  a_acquisition_id :: string
  a_tag :: string
  a_priority :: "priority option"
  a_capabilities :: "capability list"
  a_context_tokens :: nat
  a_ttl_seconds :: nat
  a_qualification :: bool

record reserve =
  r_acquisition_id :: string
  r_work_id :: string
  r_services :: "string list"
  r_priority :: priority
  r_ttl_seconds :: nat
  r_retained_model_interactions :: bool

record repository_document =
  rd_id :: string
  rd_registered_root :: "string option"
  rd_root :: "string option"
  rd_base_ref :: string
  rd_base_sha :: "string option"

record acceptance_document =
  ad_commands :: "string list list"
  ad_required_artifacts :: "string list"

record limits_document =
  ld_max_implementation_attempts :: nat
  ld_timeout_seconds :: nat
  ld_network :: string

record workspace_requirements =
  wr_complexity :: complexity
  wr_requires_large_context :: bool

record workspace =
  w_repository :: repository_document
  w_objective :: string
  w_allowed_paths :: "string list"
  w_acceptance :: acceptance_document
  w_requirements :: workspace_requirements
  w_environment_resources :: "string list"
  w_limits :: limits_document

datatype work_payload =
    InferenceWork string nat nat \<comment> \<open>prompt, max_tokens, timeout_seconds\<close>
  | WorkspaceWork workspace

record work =
  wk_reservation_id :: string
  wk_service :: string
  wk_work_id :: string
  wk_payload :: work_payload
  wk_wait_seconds :: "nat option"

record protocol_payload =
  pp_protocol :: protocol
  pp_body :: json

record inference =
  q_work :: "work option"
  q_schema :: string
  q_submission_id :: string
  q_reservation_id :: string
  q_generation :: string
  q_profile_hash :: string
  q_prompt :: string
  q_payload :: "protocol_payload option"
  q_max_tokens :: nat
  q_timeout_seconds :: nat
  q_wait_seconds :: "nat option"
  q_workspace_scope :: "string option"

section \<open>Recovery evidence\<close>

record process =
  pr_pid :: nat
  pr_boot :: string
  pr_start :: string
  pr_activation :: string
  pr_unit :: "string option"
  pr_container :: "string option"
  pr_invocation :: "string option"

record absence_checks =
  ac_reservation_inactive :: bool
  ac_active_invocations_absent :: bool
  ac_recorded_process_absent :: bool
  ac_systemd_activation_absent :: bool
  ac_gpu_allocation_absent :: bool
  ac_media_session_absent :: bool
  ac_lifecycle_transition_absent :: bool
  ac_ownership_fence_intact :: bool

record recovery_reconciliation =
  rr_historical_outcome :: historical_outcome
  rr_current_effect :: current_effect
  rr_reconciled_at :: nat
  rr_checks :: absence_checks
  rr_cleanup_process :: "process option"

record recovery_child =
  rc_invocation_id :: string
  rc_state :: invocation_state
  rc_error :: "string option"
  rc_workspace_scope :: "string option"
  rc_reservation_id :: string
  rc_request_generation :: string
  rc_request_profile_hash :: string
  rc_invocation_activation :: "string option"
  rc_demand_backend_activation :: "string option"
  rc_physical_effect :: child_effect
  rc_started :: "nat option"
  rc_execution_deadline :: "nat option"
  rc_cancellation_requested_at :: "nat option"
  rc_result_present :: bool
  rc_late_result_present :: bool

record recovery_checks =
  rk_retained_terminal_packet :: bool
  rk_scoped_children_terminal :: bool
  rk_scoped_children_physically_recoverable :: bool
  rk_workspace_scope_closed_or_expired :: bool
  rk_packet_under_state_root :: bool
  rk_ownership_fence_intact :: bool

record recovery_analysis =
  ra_invocation_id :: string
  ra_diagnosed_at :: nat
  ra_parent_error :: "string option"
  ra_work_id :: "string option"
  ra_repository_id :: "string option"
  ra_repository_root :: "string option"
  ra_packet_path :: string
  ra_packet_status :: string
  ra_packet_acceptance_verdict :: "string option"
  ra_packet_last_error :: "string option"
  ra_scoped_children :: "recovery_child list"
  ra_checks :: recovery_checks

section \<open>Demands\<close>

record demand =
  d_reservation_id :: "string option"
  d_services :: "(string, string) omap"
  d_reserve_request :: "reserve option"
  d_reserve_result :: "json option"
  d_reservation_closed :: "demand_state option"
  d_recovery_reconciliation :: "recovery_reconciliation option"
  d_recovery_error :: "string option"
  d_workspace_recovery_analyses :: "(string, recovery_analysis) omap"
  d_id :: string
  d_owner :: string
  d_request :: acquire
  d_priority :: priority
  d_profile :: profile
  d_profile_hash :: string
  d_state :: demand_state
  d_reason :: "string option"
  d_retry_after :: "nat option"
  d_preempted_by :: "string option"
  d_ready_checked :: bool
  d_accepted_calls :: nat
  d_generation :: string
  d_access_key :: string
  d_backend_activation :: "string option"
  d_created :: nat
  d_last_activity_at :: "nat option"
  d_order :: nat
  d_deadline :: nat
  d_transition_deadline :: nat
  d_victims :: "string list"
  d_process :: "process option"
  d_effect_started :: bool
  d_preflight_done :: bool
  d_released :: bool

definition backend_activation :: "demand \<Rightarrow> string" where
  "backend_activation d = unwrap_or (d_backend_activation d) (d_generation d)"

record warm_residency =
  wm_id :: string
  wm_profile_hash :: string
  wm_profile :: profile
  wm_backend :: backend
  wm_driver :: driver
  wm_model :: string
  wm_resources :: "string list"
  wm_endpoint :: string
  wm_process :: process
  wm_cached_at :: nat
  wm_last_ready_at :: nat
  wm_state :: warm_state

section \<open>Invocations\<close>

record payload_ref =
  ref_sha256 :: string
  ref_bytes :: nat
  ref_path :: string

text \<open>\<open>CancellationIntent\<close> has one field, the time of the request.\<close>

record invocation =
  i_scope_access_hash :: "string option"
  i_id :: string
  i_owner :: string
  i_request :: inference
  i_request_digest :: "string option"
  i_request_bytes :: "nat option"
  i_work_digest :: "string option"
  i_work_bytes :: "nat option"
  i_request_ref :: "payload_ref option"
  i_state :: invocation_state
  i_queue_order :: nat
  i_created :: nat
  i_waiting_deadline :: nat
  i_execution_deadline :: "nat option"
  i_response_bytes :: nat
  i_cancellation :: "nat option"
  i_late_result :: "json option"
  i_result_digest :: "string option"
  i_late_result_digest :: "string option"
  i_result_ref :: "payload_ref option"
  i_late_result_ref :: "payload_ref option"
  i_started :: "nat option"
  i_completed :: "nat option"
  i_activation :: "string option"
  i_result :: "json option"
  i_error :: "string option"

definition work_workspace :: "work \<Rightarrow> workspace option" where
  "work_workspace w = (case wk_payload w of WorkspaceWork ws \<Rightarrow> Some ws | _ \<Rightarrow> None)"

definition is_workspace :: "invocation \<Rightarrow> bool" where
  "is_workspace i = is_some_and (q_work (i_request i)) (\<lambda>w. work_workspace w \<noteq> None)"

record workspace_scope =
  s_invocation_id :: "string option"
  s_owner :: string
  s_reservation_id :: string
  s_deadline_ms :: nat
  s_closed_at_ms :: "nat option"
  s_authorization_hash :: string

record acquisition_decision =
  ad_owner :: string
  ad_environment :: string
  ad_reason :: string
  ad_retry_after :: nat
  ad_expires_at :: nat

section \<open>The document\<close>

record document =
  claims :: "(string, string) omap"
  placement_hash :: "string option"
  gateway_port :: "nat option"
  demands :: "(string, demand) omap"
  invocations :: "(string, invocation) omap"
  next_invocation_order :: nat
  acquisition_decisions :: "(string, acquisition_decision) omap"
  workspace_scopes :: "(string, workspace_scope) omap"
  warm_residencies :: "(string, warm_residency) omap"

definition empty_document :: document where
  "empty_document = \<lparr>claims = [], placement_hash = None, gateway_port = None, demands = [],
     invocations = [], next_invocation_order = 0, acquisition_decisions = [],
     workspace_scopes = [], warm_residencies = []\<rparr>"

abbreviation get_demand :: "document \<Rightarrow> string \<Rightarrow> demand option" where
  "get_demand s k \<equiv> map_of (demands s) k"

abbreviation get_call :: "document \<Rightarrow> string \<Rightarrow> invocation option" where
  "get_call s k \<equiv> map_of (invocations s) k"

abbreviation get_claim :: "document \<Rightarrow> string \<Rightarrow> string option" where
  "get_claim s r \<equiv> map_of (claims s) r"

definition put_demand :: "demand \<Rightarrow> document \<Rightarrow> document" where
  "put_demand d s = s\<lparr>demands := om_put (d_id d) d (demands s)\<rparr>"

definition upd_demand :: "string \<Rightarrow> (demand \<Rightarrow> demand) \<Rightarrow> document \<Rightarrow> document" where
  "upd_demand k f s = s\<lparr>demands := om_upd k f (demands s)\<rparr>"

definition upd_call :: "string \<Rightarrow> (invocation \<Rightarrow> invocation) \<Rightarrow> document \<Rightarrow> document" where
  "upd_call k f s = s\<lparr>invocations := om_upd k f (invocations s)\<rparr>"

definition drop_claims_of :: "string \<Rightarrow> document \<Rightarrow> document" where
  "drop_claims_of k s = s\<lparr>claims := om_retain (\<lambda>_ owner. owner \<noteq> k) (claims s)\<rparr>"

section \<open>The environment of an operation\<close>

text \<open>
  What an operation reads besides the document. \<open>now\<close> and \<open>now_ms\<close> are the clock: an
  operation under the authority lock reads it several times and gets one value here.
  \<open>fresh\<close> gives the results of \<open>identity()\<close>, which reads 16 bytes of \<open>/dev/urandom\<close>
  and may fail; it is indexed by the call site, so that no two calls of an operation are
  assumed equal. \<open>sha256\<close> is the hex digest of the \<open>sha2\<close> crate. The \<open>enc_\<close>
  functions are \<open>serde_json::to_vec\<close> at each type it is used at; \<open>enc_len\<close> is the
  length of the encoded document.
\<close>

record env =
  now :: nat
  now_ms :: nat
  fresh :: "string list \<Rightarrow> string res"
  sha256 :: "string \<Rightarrow> string"
  enc_profile :: "profile \<Rightarrow> string res"
  enc_inference :: "inference \<Rightarrow> string res"
  enc_work :: "work \<Rightarrow> string res"
  enc_value :: "json \<Rightarrow> string res"
  enc_len :: "document \<Rightarrow> nat res"

text \<open>\<open>valid_id\<close>: 1 to 128 bytes of letters, digits, \<open>-\<close>, \<open>_\<close> and \<open>.\<close>.\<close>

definition ascii_alphanumeric :: "char \<Rightarrow> bool" where
  "ascii_alphanumeric c \<longleftrightarrow>
     (let n = of_char c :: nat in
      (48 \<le> n \<and> n \<le> 57) \<or> (65 \<le> n \<and> n \<le> 90) \<or> (97 \<le> n \<and> n \<le> 122))"

definition valid_id :: "string \<Rightarrow> bool" where
  "valid_id s \<longleftrightarrow> s \<noteq> [] \<and> length s \<le> 128 \<and>
     (\<forall>c \<in> set s. ascii_alphanumeric c \<or> c \<in> set ''-_.'')"

end
