(* ===== verification/Demand_Service.thy ===== *)
theory Demand_Service
  imports Runtime_State
begin

text \<open>
  \<open>service.rs\<close>: who may see a demand, when it is active, when it owns its devices, when one of
  its backend calls is still in flight, and the pass over the document at start-up; and the two
  ways a call is cancelled (\<open>impl Invocation\<close> in \<open>types.rs\<close>).
\<close>

section \<open>Demands\<close>

definition owned :: "document \<Rightarrow> string \<Rightarrow> string \<Rightarrow> demand res" where
  "owned s owner k =
     (case get_demand s k of
        Some d \<Rightarrow> if d_owner d = owner then Inr d else Inl ''not_found''
      | None \<Rightarrow> Inl ''not_found'')"

definition active :: "nat \<Rightarrow> demand \<Rightarrow> bool" where
  "active t d \<longleftrightarrow> \<not> d_released d \<and> d_deadline d > t"

definition owns :: "document \<Rightarrow> demand \<Rightarrow> bool" where
  "owns s d \<longleftrightarrow> (\<forall>r \<in> set (p_resources (d_profile d)). get_claim s r = Some (d_id d))"

definition inflight :: "document \<Rightarrow> string \<Rightarrow> bool" where
  "inflight s k \<longleftrightarrow>
     (\<exists>i \<in> set (om_vals (invocations s)).
        q_reservation_id (i_request i) = k \<and> \<not> is_workspace i \<and>
        i_state i \<in> {Running, Uncertain})"

text \<open>\<open>Service::inspect\<close> and \<open>Service::result\<close>. The archive of retired records and the payload
  store are asked through \<open>archived\<close> and \<open>hydrate\<close>.\<close>

definition inspect ::
  "(string \<Rightarrow> string \<Rightarrow> demand option res) \<Rightarrow> document \<Rightarrow> string \<Rightarrow> string \<Rightarrow> demand res" where
  "inspect archived s owner k =
     (case owned s owner k of
        Inr d \<Rightarrow> Inr d
      | Inl e \<Rightarrow>
          if e = ''not_found'' then res_bind (archived owner k) (\<lambda>d. ok_or d e) else Inl e)"

definition invocation_result ::
  "(invocation \<Rightarrow> invocation res) \<Rightarrow> (string \<Rightarrow> string \<Rightarrow> invocation option res) \<Rightarrow> document \<Rightarrow>
     string \<Rightarrow> string \<Rightarrow> invocation res" where
  "invocation_result hydrate archived s owner k =
     (case get_call s k of
        Some i \<Rightarrow>
          if i_owner i = owner then hydrate i
          else res_bind (archived owner k) (\<lambda>x. ok_or x ''not_found'')
      | None \<Rightarrow> res_bind (archived owner k) (\<lambda>x. ok_or x ''not_found''))"

section \<open>Calls\<close>

definition get_or_insert :: "'a option \<Rightarrow> 'a \<Rightarrow> 'a option" where
  "get_or_insert x v = (case x of None \<Rightarrow> Some v | Some _ \<Rightarrow> x)"

lemma get_or_insert_simps [simp]:
  "get_or_insert None v = Some v" "get_or_insert (Some w) v = Some w"
  by (simp_all add: get_or_insert_def)

lemma get_or_insert_not_None [simp]: "get_or_insert x v \<noteq> None"
  by (cases x) auto

definition cancel :: "nat \<Rightarrow> invocation \<Rightarrow> invocation" where
  "cancel t i =
     (if i_state i \<in> {Queued, Running, Uncertain} then
        (let i = i\<lparr>i_cancellation := get_or_insert (i_cancellation i) t\<rparr> in
         if i_state i = Queued
         then i\<lparr>i_state := CancelledCall, i_completed := get_or_insert (i_completed i) t\<rparr>
         else i)
      else i)"

definition cancel_queued_as_superseded :: "nat \<Rightarrow> invocation \<Rightarrow> invocation" where
  "cancel_queued_as_superseded t i =
     (if i_state i = Queued
      then i\<lparr>i_state := CancelledCall, i_completed := get_or_insert (i_completed i) t,
             i_error := Some ''reservation_superseded_by_higher_priority''\<rparr>
      else i)"

text \<open>What cancelling leaves of a call: only a queued call changes its state.\<close>

lemma cancel_keeps [simp]:
  "i_id (cancel t i) = i_id i" "i_request (cancel t i) = i_request i"
  "i_owner (cancel t i) = i_owner i" "is_workspace (cancel t i) = is_workspace i"
  "i_queue_order (cancel t i) = i_queue_order i"
  "i_response_bytes (cancel t i) = i_response_bytes i"
  "i_execution_deadline (cancel t i) = i_execution_deadline i"
  "i_result (cancel t i) = i_result i"
  by (simp_all add: cancel_def is_workspace_def Let_def)

lemma cancel_state: "i_state (cancel t i) = (if i_state i = Queued then CancelledCall else i_state i)"
  by (auto simp: cancel_def Let_def)

lemma superseded_keeps [simp]:
  "i_id (cancel_queued_as_superseded t i) = i_id i"
  "i_request (cancel_queued_as_superseded t i) = i_request i"
  "i_owner (cancel_queued_as_superseded t i) = i_owner i"
  "is_workspace (cancel_queued_as_superseded t i) = is_workspace i"
  "i_queue_order (cancel_queued_as_superseded t i) = i_queue_order i"
  "i_response_bytes (cancel_queued_as_superseded t i) = i_response_bytes i"
  by (simp_all add: cancel_queued_as_superseded_def is_workspace_def)

lemma superseded_state:
  "i_state (cancel_queued_as_superseded t i) =
     (if i_state i = Queued then CancelledCall else i_state i)"
  by (simp add: cancel_queued_as_superseded_def)

section \<open>The start-up pass\<close>

definition restart_call :: "invocation \<Rightarrow> invocation" where
  "restart_call i =
     (if i_state i = Running
      then i\<lparr>i_state := Uncertain,
             i_error := Some ''receiver_restart_after_dispatch_intent; never automatically replay''\<rparr>
      else i)"

definition restart_demand :: "demand \<Rightarrow> demand" where
  "restart_demand d =
     (if d_effect_started d \<and> d_process d = None \<and> d_state d \<noteq> RecoveryRequired
      then d\<lparr>d_state := RecoveryRequired,
             d_reason := Some ''interrupted_start_requires_owned_process_reconciliation''\<rparr>
      else d)"

text \<open>The transaction of \<open>Service::recover\<close>: \<open>devices_bytes\<close> is the encoding of the configured
  devices and \<open>port\<close> the parsed port of the listen address.\<close>

definition recover ::
  "env \<Rightarrow> string res \<Rightarrow> nat res \<Rightarrow> document \<Rightarrow> (unit \<times> document) res" where
  "recover e devices_bytes port s =
     res_bind devices_bytes (\<lambda>bytes.
     let placement = sha256 e bytes in
     if is_some_and (placement_hash s) (\<lambda>h. h \<noteq> placement)
     then Inl ''physical_map_requires_migration''
     else res_bind port (\<lambda>p.
       Inr ((), s\<lparr>placement_hash := Some placement, gateway_port := Some p,
                  invocations := om_mapv restart_call (invocations s),
                  demands := om_mapv restart_demand (demands s)\<rparr>)))"

section \<open>Lemmas\<close>

lemma owned_eq_Inr [res_simps]:
  "owned s owner k = Inr d \<longleftrightarrow> get_demand s k = Some d \<and> d_owner d = owner"
  by (auto simp: owned_def split: option.splits)

lemma owned_eq_Inl: "owned s owner k = Inl e \<Longrightarrow> e = ''not_found''"
  by (auto simp: owned_def split: option.splits if_splits)

lemma owns_claim: "owns s d \<Longrightarrow> r \<in> set (p_resources (d_profile d)) \<Longrightarrow> get_claim s r = Some (d_id d)"
  by (simp add: owns_def)

lemma owns_cong:
  "claims s = claims t \<Longrightarrow> d_id d = d_id d' \<Longrightarrow> d_profile d = d_profile d' \<Longrightarrow> owns s d = owns t d'"
  by (simp add: owns_def)

lemma put_demand_sel [simp]:
  "claims (put_demand d s) = claims s" "invocations (put_demand d s) = invocations s"
  "demands (put_demand d s) = om_put (d_id d) d (demands s)"
  "workspace_scopes (put_demand d s) = workspace_scopes s"
  "warm_residencies (put_demand d s) = warm_residencies s"
  "acquisition_decisions (put_demand d s) = acquisition_decisions s"
  "next_invocation_order (put_demand d s) = next_invocation_order s"
  by (simp_all add: put_demand_def)

lemma upd_demand_sel [simp]:
  "claims (upd_demand k f s) = claims s" "invocations (upd_demand k f s) = invocations s"
  "demands (upd_demand k f s) = om_upd k f (demands s)"
  "workspace_scopes (upd_demand k f s) = workspace_scopes s"
  "warm_residencies (upd_demand k f s) = warm_residencies s"
  "acquisition_decisions (upd_demand k f s) = acquisition_decisions s"
  "next_invocation_order (upd_demand k f s) = next_invocation_order s"
  by (simp_all add: upd_demand_def)

lemma upd_call_sel [simp]:
  "claims (upd_call k g s) = claims s" "demands (upd_call k g s) = demands s"
  "invocations (upd_call k g s) = om_upd k g (invocations s)"
  "workspace_scopes (upd_call k g s) = workspace_scopes s"
  "warm_residencies (upd_call k g s) = warm_residencies s"
  "acquisition_decisions (upd_call k g s) = acquisition_decisions s"
  "next_invocation_order (upd_call k g s) = next_invocation_order s"
  by (simp_all add: upd_call_def)

lemma drop_claims_of_sel [simp]:
  "demands (drop_claims_of k s) = demands s" "invocations (drop_claims_of k s) = invocations s"
  "workspace_scopes (drop_claims_of k s) = workspace_scopes s"
  "warm_residencies (drop_claims_of k s) = warm_residencies s"
  by (simp_all add: drop_claims_of_def)

lemma drop_claims_of_get:
  "om_ok (claims s) \<Longrightarrow>
     get_claim (drop_claims_of k s) r = Some k' \<longleftrightarrow> get_claim s r = Some k' \<and> k' \<noteq> k"
  by (simp add: drop_claims_of_def map_of_om_retain_Some)

lemma restart_demand_keeps [simp]:
  "d_id (restart_demand d) = d_id d" "d_profile (restart_demand d) = d_profile d"
  "d_effect_started (restart_demand d) = d_effect_started d"
  "d_process (restart_demand d) = d_process d"
  "d_ready_checked (restart_demand d) = d_ready_checked d"
  "d_priority (restart_demand d) = d_priority d"
  "d_released (restart_demand d) = d_released d"
  by (simp_all add: restart_demand_def)

lemma restart_call_keeps [simp]:
  "i_id (restart_call i) = i_id i" "i_request (restart_call i) = i_request i"
  "is_workspace (restart_call i) = is_workspace i"
  by (simp_all add: restart_call_def is_workspace_def)

end
