(* ===== verification/Authority.thy ===== *)
theory Authority
  imports Prelude
begin

text \<open>
  The authority file: \<open>managed_authority.rs\<close> and \<open>atomic_write\<close> of \<open>durable_file.rs\<close>.
  Every durable change of the runtime is one \<open>ManagedAuthority::update\<close>: take the lock,
  load the document, run an action on it, and write the encoding back when it changed. The
  locale \<open>authority_op\<close> turns an invariant kept by an action on documents into an invariant of
  the file; the components interpret it on their operations.
\<close>

definition MAX_AUTHORITY_BYTES :: nat where
  "MAX_AUTHORITY_BYTES = 33554432"

text \<open>
  What the operating system answers in one transaction: whether the lock is taken within its
  time limit, whether the file opens and reads, and where \<open>atomic_write\<close> fails. The target file
  changes in one step, the rename, so a failure is before it or after it (the synchronisation
  of the directory).
\<close>

datatype write_fault = NoFault | BeforeRename string | AfterRename string

record io =
  io_lock :: "unit res"
  io_read :: "unit res"
  io_write :: write_fault

text \<open>\<open>serde_json\<close> at the type of the document. Its round trip is \<open>codec_ok\<close>: an encoding is
  never empty, and decodes to the document it came from.\<close>

record 'd codec =
  enc :: "'d \<Rightarrow> string res"
  dec :: "string \<Rightarrow> 'd res"
  dflt :: 'd

definition codec_ok :: "'d codec \<Rightarrow> bool" where
  "codec_ok c \<longleftrightarrow> (\<forall>d raw. enc c d = Inr raw \<longrightarrow> raw \<noteq> [] \<and> dec c raw = Inr d)"

section \<open>Operations\<close>

definition atomic_write :: "write_fault \<Rightarrow> string \<Rightarrow> string option \<Rightarrow> unit res \<times> string option" where
  "atomic_write w contents disk =
     (case w of
        BeforeRename e \<Rightarrow> (Inl e, disk)
      | AfterRename e \<Rightarrow> (Inl e, Some contents)
      | NoFault \<Rightarrow> (Inr (), Some contents))"

text \<open>\<open>load\<close>: a missing file is the default document with no bytes.\<close>

definition load :: "io \<Rightarrow> 'd codec \<Rightarrow> string option \<Rightarrow> ('d \<times> string) res" where
  "load io c disk =
     (case disk of
        None \<Rightarrow> Inr (dflt c, [])
      | Some raw \<Rightarrow>
          (case io_read io of
             Inl e \<Rightarrow> Inl e
           | Inr _ \<Rightarrow>
               if length raw > MAX_AUTHORITY_BYTES
               then Inl ''managed authority exceeds storage bound''
               else (case dec c raw of
                       Inl e \<Rightarrow> Inl (''managed authority corrupt: '' @ e)
                     | Inr d \<Rightarrow> Inr (d, raw))))"

definition read_authority ::
  "io \<Rightarrow> 'd codec \<Rightarrow> ('d \<Rightarrow> 'r res) \<Rightarrow> string option \<Rightarrow> 'r res" where
  "read_authority io c action disk =
     res_bind (load io c disk) (\<lambda>(d, _). action d)"

definition update_authority ::
  "io \<Rightarrow> 'd codec \<Rightarrow> ('d \<Rightarrow> ('r \<times> 'd) res) \<Rightarrow> string option \<Rightarrow> 'r res \<times> string option" where
  "update_authority io c action disk =
     (case io_lock io of
        Inl e \<Rightarrow> (Inl e, disk)
      | Inr _ \<Rightarrow>
          (case load io c disk of
             Inl e \<Rightarrow> (Inl e, disk)
           | Inr (d, before) \<Rightarrow>
               (case action d of
                  Inl e \<Rightarrow> (Inl e, disk)
                | Inr (r, d') \<Rightarrow>
                    (case enc c d' of
                       Inl e \<Rightarrow> (Inl e, disk)
                     | Inr encoded \<Rightarrow>
                         if length encoded > MAX_AUTHORITY_BYTES
                         then (Inl ''managed authority retention full'', disk)
                         else if encoded \<noteq> before
                         then (case atomic_write (io_write io) encoded disk of
                                 (Inl e, disk') \<Rightarrow> (Inl e, disk')
                               | (Inr _, disk') \<Rightarrow> (Inr r, disk'))
                         else (Inr r, disk)))))"

section \<open>What the disk holds\<close>

text \<open>The document a file stands for, and the invariant of a file.\<close>

definition stored :: "'d codec \<Rightarrow> string option \<Rightarrow> 'd res" where
  "stored c disk = (case disk of None \<Rightarrow> Inr (dflt c) | Some raw \<Rightarrow> dec c raw)"

definition file_inv :: "'d codec \<Rightarrow> ('d \<Rightarrow> bool) \<Rightarrow> string option \<Rightarrow> bool" where
  "file_inv c Inv disk = (case stored c disk of Inl _ \<Rightarrow> True | Inr d \<Rightarrow> Inv d)"

lemma load_stored: "load io c disk = Inr (d, raw) \<Longrightarrow> stored c disk = Inr d"
  by (auto simp: load_def stored_def split: option.splits sum.splits if_splits)

lemma load_raw: "load io c disk = Inr (d, raw) \<Longrightarrow> disk = None \<and> raw = [] \<or> disk = Some raw"
  by (auto simp: load_def split: option.splits sum.splits if_splits)

text \<open>The ways a transaction ends.\<close>

lemma update_authority_cases:
  obtains (unchanged) e where "update_authority io c action disk = (Inl e, disk)"
  | (uncertain) d before r d' encoded e where
      "load io c disk = Inr (d, before)" "action d = Inr (r, d')"
      "enc c d' = Inr encoded" "length encoded \<le> MAX_AUTHORITY_BYTES"
      "io_write io = AfterRename e"
      "update_authority io c action disk = (Inl e, Some encoded)"
  | (committed) d before r d' encoded disk' where
      "load io c disk = Inr (d, before)" "action d = Inr (r, d')"
      "enc c d' = Inr encoded" "length encoded \<le> MAX_AUTHORITY_BYTES"
      "disk' = Some encoded \<or> (encoded = before \<and> disk' = disk)"
      "update_authority io c action disk = (Inr r, disk')"
proof -
  show thesis
  proof (cases "io_lock io")
    case (Inl e)
    then show thesis by (intro unchanged) (simp add: update_authority_def)
  next
    case lock: (Inr u)
    show thesis
    proof (cases "load io c disk")
      case (Inl e)
      then show thesis using lock by (intro unchanged) (simp add: update_authority_def)
    next
      case (Inr db)
      then obtain d before where ld: "load io c disk = Inr (d, before)" by (cases db) auto
      show thesis
      proof (cases "action d")
        case (Inl e)
        then show thesis using lock ld by (intro unchanged) (simp add: update_authority_def)
      next
        case (Inr rd)
        then obtain r d' where ac: "action d = Inr (r, d')" by (cases rd) auto
        show thesis
        proof (cases "enc c d'")
          case (Inl e)
          then show thesis using lock ld ac by (intro unchanged) (simp add: update_authority_def)
        next
          case en: (Inr encoded)
          note u = update_authority_def lock ld ac en
          show thesis
          proof (cases "length encoded > MAX_AUTHORITY_BYTES")
            case True
            then show thesis by (intro unchanged) (simp add: u)
          next
            case fits: False
            show thesis
            proof (cases "encoded = before")
              case True
              then show thesis using fits ld ac en
                by (intro committed[of d before r d' encoded disk]) (simp_all add: u)
            next
              case False
              note v = u atomic_write_def
              show thesis
              proof (cases "io_write io")
                case NoFault
                then show thesis using False fits ld ac en
                  by (intro committed[of d before r d' encoded "Some encoded"]) (simp_all add: v)
              next
                case (BeforeRename e)
                then show thesis using False fits by (intro unchanged) (simp add: v)
              next
                case (AfterRename e)
                then show thesis using False fits ld ac en
                  by (intro uncertain[of d before r d' encoded e]) (simp_all add: v)
              qed
            qed
          qed
        qed
      qed
    qed
  qed
qed

section \<open>Operations under the authority\<close>

text \<open>
  An action on the document that keeps an invariant, on documents that meet its precondition
  (for the operations that draw random identities: that these are new). Whatever the operating system answers, a
  transaction with it keeps the invariant of the file, and its result speaks of the document
  that the file then holds.
\<close>

locale authority_op =
  fixes Inv :: "'d \<Rightarrow> bool"
    and Pre :: "'d \<Rightarrow> bool"
    and action :: "'d \<Rightarrow> ('r \<times> 'd) res"
  assumes keeps: "Inv d \<Longrightarrow> Pre d \<Longrightarrow> action d = Inr (r, d') \<Longrightarrow> Inv d'"
begin

lemma file_inv_update:
  assumes "codec_ok c" and "file_inv c Inv disk" and "file_inv c Pre disk"
  shows "file_inv c Inv (snd (update_authority io c action disk))"
proof (rule update_authority_cases[of io c action disk])
  fix e
  assume "update_authority io c action disk = (Inl e, disk)"
  then show ?thesis using assms by simp
next
  fix d before r d' encoded e
  assume ld: "load io c disk = Inr (d, before)" and ac: "action d = Inr (r, d')"
    and en: "enc c d' = Inr encoded"
    and up: "update_authority io c action disk = (Inl e, Some encoded)"
  have "Inv d" "Pre d" using assms(2,3) load_stored[OF ld] by (simp_all add: file_inv_def)
  then show ?thesis
    using keeps ac en assms(1) up by (auto simp: file_inv_def stored_def codec_ok_def)
next
  fix d before r d' encoded disk'
  assume ld: "load io c disk = Inr (d, before)" and ac: "action d = Inr (r, d')"
    and en: "enc c d' = Inr encoded" and f: "disk' = Some encoded \<or> encoded = before \<and> disk' = disk"
    and up: "update_authority io c action disk = (Inr r, disk')"
  have "Inv d" "Pre d" using assms(2,3) load_stored[OF ld] by (simp_all add: file_inv_def)
  then show ?thesis
    using keeps ac en f assms(1,2) up by (auto simp: file_inv_def stored_def codec_ok_def)
qed

end

text \<open>C3: the authority is transactional. If the codec round-trips, a transaction that
  reports success leaves a file holding exactly the document the action produced from the
  document the file held; one that reports an error leaves the file as it was, or, only when
  the failure came after the rename, holding the complete new document. No other content can
  appear.\<close>

theorem update_authority_transactional:
  assumes "codec_ok c"
  shows "case update_authority io c action disk of
      (Inr r, disk') \<Rightarrow>
        (\<exists>d d'. stored c disk = Inr d \<and> action d = Inr (r, d') \<and> stored c disk' = Inr d')
    | (Inl e, disk') \<Rightarrow>
        disk' = disk \<or>
        (io_write io = AfterRename e \<and>
         (\<exists>d r d'. stored c disk = Inr d \<and> action d = Inr (r, d') \<and> stored c disk' = Inr d'))"
proof (rule update_authority_cases[of io c action disk])
  fix e
  assume "update_authority io c action disk = (Inl e, disk)"
  then show ?thesis by simp
next
  fix d before r d' encoded e
  assume ld: "load io c disk = Inr (d, before)" and ac: "action d = Inr (r, d')"
    and en: "enc c d' = Inr encoded" and w: "io_write io = AfterRename e"
    and up: "update_authority io c action disk = (Inl e, Some encoded)"
  have "stored c (Some encoded) = Inr d'"
    using assms en by (simp add: stored_def codec_ok_def)
  then show ?thesis using up w ac load_stored[OF ld] by auto
next
  fix d before r d' encoded disk'
  assume ld: "load io c disk = Inr (d, before)" and ac: "action d = Inr (r, d')"
    and en: "enc c d' = Inr encoded" and f: "disk' = Some encoded \<or> encoded = before \<and> disk' = disk"
    and up: "update_authority io c action disk = (Inr r, disk')"
  have "disk' = Some encoded"
    using f load_raw[OF ld] en assms by (auto simp: codec_ok_def)
  then have "stored c disk' = Inr d'"
    using assms en by (simp add: stored_def codec_ok_def)
  then show ?thesis using up ac load_stored[OF ld] by auto
qed

end
