(* ===== verification/Ownership.thy ===== *)
theory Ownership
  imports Demand_Service Authority
begin

text \<open>
  What the runtime promises about physical devices, as an invariant of the authority document,
  and the laws by which its operations keep it. A claim belongs to a known demand that still
  holds devices; a demand whose backend has been started owns every device of its profile; no
  refused (\<open>Unavailable\<close>) demand is kept; a demand offered to clients (\<open>Ready\<close>, or \<open>Preempting\<close> while it drains) has a started backend.
\<close>

section \<open>The invariant\<close>

definition holding :: "demand_state set" where
  "holding = {Preparing, Ready, Preempting, Releasing, RecoveryRequired}"

lemma holding_simps [simp]:
  "Preparing \<in> holding" "Ready \<in> holding" "Preempting \<in> holding" "Releasing \<in> holding"
  "RecoveryRequired \<in> holding" "Unavailable \<notin> holding" "Preempted \<notin> holding"
  "Released \<notin> holding" "Cancelled \<notin> holding" "Expired \<notin> holding"
  by (simp_all add: holding_def)

definition live_ok :: "demand \<Rightarrow> bool" where
  "live_ok d \<longleftrightarrow> d_state d \<noteq> Unavailable \<and>
     (d_state d \<in> {Ready, Preempting} \<longrightarrow> d_effect_started d \<and> d_process d \<noteq> None) \<and>
     (d_state d = Preparing \<and> d_ready_checked d \<longrightarrow> d_effect_started d \<and> d_process d \<noteq> None)"

definition maps_ok :: "document \<Rightarrow> bool" where
  "maps_ok s \<longleftrightarrow> om_ok (claims s) \<and> om_ok (demands s) \<and> om_ok (invocations s) \<and>
     om_ok (acquisition_decisions s) \<and> om_ok (workspace_scopes s) \<and> om_ok (warm_residencies s)"

definition doc_inv :: "document \<Rightarrow> bool" where
  "doc_inv s \<longleftrightarrow> maps_ok s \<and>
     (\<forall>k d. get_demand s k = Some d \<longrightarrow>
        d_id d = k \<and> live_ok d \<and> (d_effect_started d \<longrightarrow> owns s d \<and> d_state d \<in> holding)) \<and>
     (\<forall>k i. get_call s k = Some i \<longrightarrow> i_id i = k) \<and>
     (\<forall>r k. get_claim s r = Some k \<longrightarrow>
        (\<exists>d. get_demand s k = Some d \<and> r \<in> set (p_resources (d_profile d)) \<and>
             d_state d \<in> holding))"

lemma doc_inv_maps: "doc_inv s \<Longrightarrow> maps_ok s"
  by (simp add: doc_inv_def)

lemma doc_inv_id: "doc_inv s \<Longrightarrow> get_demand s k = Some d \<Longrightarrow> d_id d = k"
  by (simp add: doc_inv_def)

lemma doc_inv_call_id: "doc_inv s \<Longrightarrow> get_call s k = Some i \<Longrightarrow> i_id i = k"
  by (simp add: doc_inv_def)

lemma doc_inv_live: "doc_inv s \<Longrightarrow> get_demand s k = Some d \<Longrightarrow> live_ok d"
  by (simp add: doc_inv_def)

lemma doc_inv_effect:
  "doc_inv s \<Longrightarrow> get_demand s k = Some d \<Longrightarrow> d_effect_started d \<Longrightarrow> owns s d \<and> d_state d \<in> holding"
  by (simp add: doc_inv_def)

lemma doc_inv_claim:
  "doc_inv s \<Longrightarrow> get_claim s r = Some k \<Longrightarrow>
     \<exists>d. get_demand s k = Some d \<and> r \<in> set (p_resources (d_profile d)) \<and> d_state d \<in> holding"
  by (simp add: doc_inv_def)

lemma doc_inv_empty: "doc_inv empty_document"
  by (simp add: doc_inv_def maps_ok_def empty_document_def)

text \<open>Two demands with started backends share no device.\<close>

lemma doc_inv_exclusive:
  assumes "doc_inv s" "get_demand s k = Some d" "get_demand s k' = Some d'" "k \<noteq> k'"
    and "d_effect_started d" "d_effect_started d'"
  shows "set (p_resources (d_profile d)) \<inter> set (p_resources (d_profile d')) = {}"
proof -
  have o: "owns s d" "owns s d'" "d_id d = k" "d_id d' = k'"
    using assms by (auto dest: doc_inv_effect doc_inv_id)
  then show ?thesis
    using assms(4) by (auto simp: owns_def)
qed

lemma live_ok_started: "live_ok d \<Longrightarrow> d_state d \<in> {Ready, Preempting} \<Longrightarrow> d_effect_started d"
  by (auto simp: live_ok_def)

section \<open>Steps that leave the claims alone\<close>

text \<open>
  A change of one demand that a step may make without touching a claim: identity and profile
  stay, a holder goes on holding, and a backend is marked started only for an owner.
\<close>

definition demand_step :: "document \<Rightarrow> demand \<Rightarrow> demand \<Rightarrow> bool" where
  "demand_step s d d' \<longleftrightarrow>
     d_id d' = d_id d \<and> d_profile d' = d_profile d \<and> live_ok d' \<and>
     (d_state d \<in> holding \<longrightarrow> d_state d' \<in> holding) \<and>
     (d_effect_started d' \<longrightarrow> d_state d' \<in> holding \<and> (d_effect_started d \<or> owns s d))"

definition calls_ok :: "document \<Rightarrow> bool" where
  "calls_ok t \<longleftrightarrow> (\<forall>k i. get_call t k = Some i \<longrightarrow> i_id i = k)"

definition claims_kept :: "document \<Rightarrow> document \<Rightarrow> bool" where
  "claims_kept s t \<longleftrightarrow> claims t = claims s \<and> maps_ok t \<and> calls_ok t \<and>
     (\<forall>k. case get_demand s k of
        None \<Rightarrow> get_demand t k = None
      | Some d \<Rightarrow> (\<exists>d'. get_demand t k = Some d' \<and> demand_step s d d'))"

lemma claims_kept_None: "claims_kept s t \<Longrightarrow> get_demand s k = None \<Longrightarrow> get_demand t k = None"
  unfolding claims_kept_def by (elim conjE, drule spec[of _ k]) simp

lemma claims_kept_Some:
  "claims_kept s t \<Longrightarrow> get_demand s k = Some d \<Longrightarrow> \<exists>d'. get_demand t k = Some d' \<and> demand_step s d d'"
  unfolding claims_kept_def by (elim conjE, drule spec[of _ k]) simp

lemma claims_kept_back:
  "claims_kept s t \<Longrightarrow> get_demand t k = Some d' \<Longrightarrow> \<exists>d. get_demand s k = Some d \<and> demand_step s d d'"
  by (cases "get_demand s k") (auto dest: claims_kept_None claims_kept_Some)

lemma doc_inv_calls_ok: "doc_inv s \<Longrightarrow> calls_ok s"
  by (simp add: doc_inv_def calls_ok_def)

lemma demand_step_refl:
  "doc_inv s \<Longrightarrow> get_demand s k = Some d \<Longrightarrow> demand_step s d d"
  by (auto simp: demand_step_def doc_inv_def)

text \<open>A change of no field the invariant speaks of.\<close>

lemma demand_step_same:
  assumes "doc_inv s" and "get_demand s k = Some d"
    and "d_id d' = d_id d" "d_profile d' = d_profile d" "d_state d' = d_state d"
      "d_effect_started d' = d_effect_started d" "d_process d' = d_process d"
      "d_ready_checked d' = d_ready_checked d"
  shows "demand_step s d d'"
  using doc_inv_live[OF assms(1,2)] doc_inv_effect[OF assms(1,2)] assms(3-)
  by (auto simp: demand_step_def live_ok_def)

lemma claims_kept_doc_inv:
  assumes inv: "doc_inv s" and step: "claims_kept s t"
  shows "doc_inv t"
proof -
  have cl: "claims t = claims s" and m: "maps_ok t" and c: "calls_ok t"
    using step by (simp_all add: claims_kept_def)
  have ow: "owns t d' = owns s d" if "demand_step s d d'" for d d'
    using that cl by (simp add: demand_step_def owns_def)
  have one: "d_id d' = k \<and> live_ok d' \<and> (d_effect_started d' \<longrightarrow> owns t d' \<and> d_state d' \<in> holding)"
    if g: "get_demand t k = Some d'" for k d'
  proof -
    obtain d where d: "get_demand s k = Some d" "demand_step s d d'"
      using claims_kept_back[OF step g] by auto
    then show ?thesis
      using ow[OF d(2)] inv by (auto simp: demand_step_def doc_inv_def)
  qed
  have two: "\<exists>d'. get_demand t k = Some d' \<and> r \<in> set (p_resources (d_profile d')) \<and> d_state d' \<in> holding"
    if g: "get_claim t r = Some k" for r k
  proof -
    obtain d where d: "get_demand s k = Some d" "r \<in> set (p_resources (d_profile d))" "d_state d \<in> holding"
      using doc_inv_claim[OF inv] g cl by metis
    then show ?thesis
      using claims_kept_Some[OF step d(1)] by (auto simp: demand_step_def)
  qed
  show ?thesis
    unfolding doc_inv_def using m c one two by (auto simp: calls_ok_def)
qed

lemma claims_kept_upd_demand:
  assumes "doc_inv s" and "\<And>d. get_demand s k = Some d \<Longrightarrow> demand_step s d (f d)"
  shows "claims_kept s (upd_demand k f s)"
  using assms demand_step_refl[OF assms(1)] doc_inv_calls_ok[OF assms(1)]
  by (auto simp: claims_kept_def maps_ok_def doc_inv_def calls_ok_def upd_demand_def split: option.splits)

lemma upd_demand_same_inv:
  assumes "doc_inv s"
    and "\<And>d. d_id (f d) = d_id d \<and> d_profile (f d) = d_profile d \<and> d_state (f d) = d_state d \<and>
      d_effect_started (f d) = d_effect_started d \<and> d_process (f d) = d_process d \<and>
      d_ready_checked (f d) = d_ready_checked d"
  shows "doc_inv (upd_demand k f s)"
  by (rule claims_kept_doc_inv[OF assms(1) claims_kept_upd_demand[OF assms(1)]])
    (rule demand_step_same[OF assms(1)]; simp add: assms(2))

lemma claims_kept_mapv:
  assumes "doc_inv s" and "\<And>k d. get_demand s k = Some d \<Longrightarrow> demand_step s d (f d)"
  shows "claims_kept s (s\<lparr>demands := om_mapv f (demands s)\<rparr>)"
  using assms doc_inv_calls_ok[OF assms(1)]
  by (auto simp: claims_kept_def maps_ok_def doc_inv_def calls_ok_def split: option.splits)

text \<open>Steps that touch no demand and no claim.\<close>

definition demands_kept :: "document \<Rightarrow> document \<Rightarrow> bool" where
  "demands_kept s t \<longleftrightarrow> claims t = claims s \<and> demands t = demands s \<and> maps_ok t \<and> calls_ok t"

lemma demands_kept_claims_kept: "doc_inv s \<Longrightarrow> demands_kept s t \<Longrightarrow> claims_kept s t"
  using demand_step_refl by (fastforce simp: demands_kept_def claims_kept_def split: option.splits)

lemma demands_kept_doc_inv: "doc_inv s \<Longrightarrow> demands_kept s t \<Longrightarrow> doc_inv t"
  using claims_kept_doc_inv demands_kept_claims_kept by blast

lemma demands_kept_refl: "doc_inv s \<Longrightarrow> demands_kept s s"
  by (simp add: demands_kept_def doc_inv_maps doc_inv_calls_ok)

lemma demands_kept_trans: "demands_kept s t \<Longrightarrow> demands_kept t u \<Longrightarrow> demands_kept s u"
  by (simp add: demands_kept_def)

lemma demands_kept_upd_call:
  assumes "doc_inv s" and "\<And>i. i_id (f i) = i_id i"
  shows "demands_kept s (upd_call k f s)"
  using assms by (auto simp: demands_kept_def doc_inv_def maps_ok_def calls_ok_def upd_call_def)

lemma demands_kept_map_calls:
  assumes "doc_inv s" and "\<And>i. i_id (f i) = i_id i"
  shows "demands_kept s (s\<lparr>invocations := om_mapv f (invocations s)\<rparr>)"
  using assms by (auto simp: demands_kept_def doc_inv_def maps_ok_def calls_ok_def)

section \<open>Steps that give devices back\<close>

lemma doc_inv_drop:
  assumes inv: "doc_inv s"
    and f: "\<And>d. get_demand s k = Some d \<Longrightarrow>
              d_id (f d) = d_id d \<and> live_ok (f d) \<and> \<not> d_effect_started (f d)"
  shows "doc_inv (drop_claims_of k (upd_demand k f s))"
proof -
  let ?t = "drop_claims_of k (upd_demand k f s)"
  have ok: "om_ok (claims (upd_demand k f s))"
    using inv by (simp add: doc_inv_def maps_ok_def)
  have cl: "get_claim ?t r = Some k' \<longleftrightarrow> get_claim s r = Some k' \<and> k' \<noteq> k" for r k'
    using drop_claims_of_get[OF ok] by simp
  have ow: "owns ?t d" if "owns s d" "d_id d \<noteq> k" for d
    using that cl by (auto simp: owns_def)
  have "maps_ok ?t"
    using inv by (auto simp: doc_inv_def maps_ok_def drop_claims_of_def upd_demand_def)
  moreover have "d_id d' = k' \<and> live_ok d' \<and> (d_effect_started d' \<longrightarrow> owns ?t d' \<and> d_state d' \<in> holding)"
    if g: "get_demand ?t k' = Some d'" for k' d'
  proof (cases "k' = k")
    case True
    then obtain d where "get_demand s k = Some d" "d' = f d"
      using g by (auto split: if_splits)
    then show ?thesis using f[of d] inv True by (auto simp: doc_inv_def)
  next
    case False
    then have "get_demand s k' = Some d'" using g by simp
    then show ?thesis
      using inv False ow by (auto simp: doc_inv_def)
  qed
  moreover have "\<exists>d. get_demand ?t k' = Some d \<and> r \<in> set (p_resources (d_profile d)) \<and> d_state d \<in> holding"
    if "get_claim ?t r = Some k'" for r k'
    using that cl inv by (auto simp: doc_inv_def)
  ultimately show ?thesis
    using inv unfolding doc_inv_def by (auto simp: drop_claims_of_def upd_demand_def)
qed

section \<open>Steps that take devices\<close>

definition claim_all :: "string \<Rightarrow> string list \<Rightarrow> document \<Rightarrow> document" where
  "claim_all k rs s = s\<lparr>claims := fold (\<lambda>r. om_put r k) rs (claims s)\<rparr>"

lemma claim_all_get [simp]:
  "get_claim (claim_all k rs s) r = (if r \<in> set rs then Some k else get_claim s r)"
  by (simp add: claim_all_def om.put_all_get)

lemma claim_all_sel [simp]:
  "demands (claim_all k rs s) = demands s" "invocations (claim_all k rs s) = invocations s"
  "workspace_scopes (claim_all k rs s) = workspace_scopes s"
  "warm_residencies (claim_all k rs s) = warm_residencies s"
  "acquisition_decisions (claim_all k rs s) = acquisition_decisions s"
  by (simp_all add: claim_all_def)

lemma maps_ok_claim_all [simp]: "maps_ok s \<Longrightarrow> maps_ok (claim_all k rs s)"
  by (simp add: maps_ok_def claim_all_def om.put_all_ok)

text \<open>A demand of the document takes the devices of its profile, each free or already its own.\<close>

lemma doc_inv_claim_all:
  assumes inv: "doc_inv s" and d: "get_demand s k = Some d" "d_state d \<in> holding"
    and free: "\<And>r. r \<in> set (p_resources (d_profile d)) \<Longrightarrow> get_claim s r = None \<or> get_claim s r = Some k"
  shows "doc_inv (claim_all k (p_resources (d_profile d)) s)"
proof -
  let ?t = "claim_all k (p_resources (d_profile d)) s"
  have ow: "owns ?t d'" if "owns s d'" "get_demand s k' = Some d'" for k' d'
    using that free doc_inv_id[OF inv] by (fastforce simp: owns_def)
  show ?thesis
    using inv d ow unfolding doc_inv_def by (auto split: if_splits)
qed

end
