(* ===== verification/Samples.thy ===== *)
theory Samples
  imports Ownership
begin

text \<open>
  Concrete inputs: an environment, a profile with one device, a demand, a call and limits. The
  witnesses of the properties apply them at these values.
\<close>

text \<open>Random identities that differ between call sites: the characters of a site's parts, each
  behind a \<open>c\<close>, with an \<open>e\<close> after each part.\<close>

fun part_name :: "string \<Rightarrow> string" where
  "part_name [] = ''e''"
| "part_name (x # xs) = CHR ''c'' # x # part_name xs"

fun site_name :: "string list \<Rightarrow> string" where
  "site_name [] = []"
| "site_name (p # ps) = part_name p @ site_name ps"

lemma part_name_inj: "part_name p @ r = part_name q @ r' \<longleftrightarrow> p = q \<and> r = r'"
  by (induction p arbitrary: q; case_tac q) auto

lemma site_name_inj: "site_name ps = site_name qs \<longleftrightarrow> ps = qs"
proof (induction ps arbitrary: qs)
  case Nil
  show ?case
  proof (cases qs)
    case (Cons q qs')
    then show ?thesis by (cases q) auto
  qed simp
next
  case (Cons p ps)
  show ?case
  proof (cases qs)
    case Nil
    then show ?thesis by (cases p) auto
  next
    case (Cons q qs')
    then show ?thesis using Cons.IH by (simp add: part_name_inj)
  qed
qed

lemma site_name_head: "site_name ps \<noteq> CHR ''d'' # xs" "site_name ps \<noteq> CHR ''i'' # xs"
  by (cases ps; case_tac "hd ps"; simp)+

definition sample_env :: env where
  "sample_env = \<lparr>now = 100, now_ms = 100000, fresh = (\<lambda>site. Inr (site_name site)),
     sha256 = (\<lambda>x. replicate 64 CHR ''a''), enc_profile = (\<lambda>p. Inr (p_tag p)),
     enc_inference = (\<lambda>q. Inr (q_prompt q)), enc_work = (\<lambda>w. Inr (wk_work_id w)),
     enc_value = (\<lambda>v. Inr ''v''), enc_len = (\<lambda>s. Inr (length (demands s)))\<rparr>"

definition sample_profile :: "string \<Rightarrow> string list \<Rightarrow> profile" where
  "sample_profile tag rs = \<lparr>p_tag = tag, p_version = ''1'', p_model = ''m'', p_backend = LlamaCpp,
     p_driver = Systemd, p_qualified = True, p_evidence = [], p_capabilities = [Coding],
     p_context_tokens = 4096, p_context_reserve_tokens = 0, p_launch = None,
     p_max_input_tokens = 4096, p_protocols = [ChatCompletions], p_streaming = True,
     p_input_token_preflight = False, p_input_token_counter = None,
     p_enforce_input_limits = False, p_max_images_per_request = 0, p_max_image_bytes = 0,
     p_max_image_pixels = 0, p_image_mime_types = None, p_max_output_tokens = 512,
     p_resources = rs, p_device_mib = [], p_host_mib = 64, p_cpu_percent = 0,
     p_endpoint = ''http://127.0.0.1:9000'', p_executable = ''/bin/server'',
     p_container_image = None, p_container_mounts = [], p_executable_sha256 = ''x'', p_args = [],
     p_media_config = None, p_media_config_sha256 = None, p_media_mode = None,
     p_artifact = None, p_artifact_sha256 = None, p_artifact_verify_seconds = 0,
     p_startup_seconds = 60, p_drain_seconds = 30, p_stop_seconds = 20,
     p_inference_seconds = 120\<rparr>"

definition sample_acquire :: "string \<Rightarrow> string \<Rightarrow> priority \<Rightarrow> acquire" where
  "sample_acquire k tag p = \<lparr>a_schema = VERSION, a_source_system = ''app'', a_work_id = ''w'',
     a_acquisition_id = k, a_tag = tag, a_priority = Some p, a_capabilities = [Coding],
     a_context_tokens = 1024, a_ttl_seconds = 600, a_qualification = False\<rparr>"

definition sample_process :: process where
  "sample_process = \<lparr>pr_pid = 7, pr_boot = ''b'', pr_start = ''s'', pr_activation = ''act'',
     pr_unit = None, pr_container = None, pr_invocation = None\<rparr>"

definition sample_demand :: "string \<Rightarrow> demand_state \<Rightarrow> priority \<Rightarrow> profile \<Rightarrow> demand" where
  "sample_demand k st p prof = \<lparr>d_reservation_id = None, d_services = [],
     d_reserve_request = None, d_reserve_result = None, d_reservation_closed = None,
     d_recovery_reconciliation = None, d_recovery_error = None,
     d_workspace_recovery_analyses = [], d_id = k, d_owner = ''app'',
     d_request = sample_acquire k (p_tag prof) p, d_priority = p, d_profile = prof,
     d_profile_hash = ''h'', d_state = st, d_reason = None, d_retry_after = None,
     d_preempted_by = None, d_ready_checked = True, d_accepted_calls = 0, d_generation = k @ ''g'',
     d_access_key = k @ ''k'', d_backend_activation = None, d_created = 10,
     d_last_activity_at = None, d_order = 0, d_deadline = 700, d_transition_deadline = 0,
     d_victims = [], d_process = Some sample_process, d_effect_started = True,
     d_preflight_done = True, d_released = False\<rparr>"

text \<open>The fields the witnesses read.\<close>

lemma sample_demand_sel:
  "d_id (sample_demand k st p prof) = k" "d_state (sample_demand k st p prof) = st"
  "d_profile (sample_demand k st p prof) = prof" "d_priority (sample_demand k st p prof) = p"
  "d_owner (sample_demand k st p prof) = ''app''" "d_generation (sample_demand k st p prof) = k @ ''g''"
  "d_reservation_id (sample_demand k st p prof) = None" "d_services (sample_demand k st p prof) = []"
  "d_reserve_request (sample_demand k st p prof) = None"
  "d_reservation_closed (sample_demand k st p prof) = None"
  "d_recovery_reconciliation (sample_demand k st p prof) = None"
  "d_recovery_error (sample_demand k st p prof) = None" "d_reason (sample_demand k st p prof) = None"
  "d_preempted_by (sample_demand k st p prof) = None" "d_ready_checked (sample_demand k st p prof)"
  "d_deadline (sample_demand k st p prof) = 700" "d_transition_deadline (sample_demand k st p prof) = 0"
  "d_victims (sample_demand k st p prof) = []" "d_process (sample_demand k st p prof) = Some sample_process"
  "d_effect_started (sample_demand k st p prof)" "\<not> d_released (sample_demand k st p prof)"
  "d_created (sample_demand k st p prof) = 10" "d_last_activity_at (sample_demand k st p prof) = None"
  "d_profile_hash (sample_demand k st p prof) = ''h''"
  by (simp_all add: sample_demand_def)

definition sample_request :: "string \<Rightarrow> inference" where
  "sample_request k = \<lparr>q_work = None, q_schema = VERSION, q_submission_id = ''s'',
     q_reservation_id = k, q_generation = k @ ''g'', q_profile_hash = ''h'', q_prompt = ''hello'',
     q_payload = None, q_max_tokens = 16, q_timeout_seconds = 30, q_wait_seconds = None,
     q_workspace_scope = None\<rparr>"

definition sample_call :: "string \<Rightarrow> string \<Rightarrow> invocation_state \<Rightarrow> invocation" where
  "sample_call k d st = \<lparr>i_scope_access_hash = None, i_id = k, i_owner = ''app'',
     i_request = sample_request d, i_request_digest = None, i_request_bytes = None,
     i_work_digest = None, i_work_bytes = None, i_request_ref = None, i_state = st,
     i_queue_order = 0, i_created = 50, i_waiting_deadline = 400, i_execution_deadline = None,
     i_response_bytes = 1000, i_cancellation = None, i_late_result = None,
     i_result_digest = None, i_late_result_digest = None, i_result_ref = None,
     i_late_result_ref = None, i_started = None, i_completed = None, i_activation = None,
     i_result = None, i_error = None\<rparr>"

definition sample_limits :: limits where
  "sample_limits = \<lparr>max_pending = 32, max_pending_per_reservation = 16,
     legacy_max_calls_per_reservation = None, max_dispatch_workers = 4,
     max_transition_workers = 8, max_gateway_waiters = 32, max_wait_seconds = 300,
     max_response_bytes = 3145728, retention_admission_bytes = 31457280,
     terminal_evidence_bytes = 8388608\<rparr>"

definition sample_config :: config where
  "sample_config = \<lparr>c_workspace = None, c_schema = VERSION, c_listen = ''127.0.0.1:8080'',
     c_authority_root = ''/var/rack'', c_fixture_mode = False, c_max_ttl_seconds = 3600,
     c_idle_timeout_seconds = 300, c_limits = sample_limits, c_devices = [],
     c_host_capacity_mib = 65536, c_sources = [],
     c_profiles = [sample_profile ''coder'' [''gpu0''], sample_profile ''vision'' [''gpu1'']]\<rparr>"

text \<open>A document in which one ready demand holds \<open>gpu0\<close>, with one queued call.\<close>

definition sample_document :: document where
  "sample_document = \<lparr>claims = [(''gpu0'', ''d1'')], placement_hash = None, gateway_port = None,
     demands = [(''d1'', sample_demand ''d1'' Ready Low (sample_profile ''coder'' [''gpu0'']))],
     invocations = [(''i1'', sample_call ''i1'' ''d1'' Queued)], next_invocation_order = 1,
     acquisition_decisions = [], workspace_scopes = [], warm_residencies = []\<rparr>"

text \<open>A document in which a group of two services is prepared and not yet published.\<close>

definition sample_reserve :: reserve where
  "sample_reserve = \<lparr>r_acquisition_id = ''r1'', r_work_id = ''w'', r_services = [''coder'', ''vision''],
     r_priority = Medium, r_ttl_seconds = 600, r_retained_model_interactions = False\<rparr>"

definition sample_member :: "string \<Rightarrow> demand_state \<Rightarrow> profile \<Rightarrow> demand" where
  "sample_member k st prof = (sample_demand k st Medium prof)\<lparr>d_reservation_id := Some ''m1'',
     d_services := (if k = ''m1'' then [(''coder'', ''m1''), (''vision'', ''m2'')] else []),
     d_reserve_request := (if k = ''m1'' then Some sample_reserve else None)\<rparr>"

definition sample_group :: document where
  "sample_group = sample_document\<lparr>claims := [(''gpu0'', ''m1''), (''gpu1'', ''m2'')],
     demands := [(''m1'', sample_member ''m1'' Preparing (sample_profile ''coder'' [''gpu0''])),
                 (''m2'', sample_member ''m2'' Preparing (sample_profile ''vision'' [''gpu1'']))],
     invocations := []\<rparr>"

lemma sample_group_inv: "doc_inv sample_group"
  by (auto simp: doc_inv_def maps_ok_def sample_group_def sample_document_def sample_member_def
      sample_demand_def sample_profile_def live_ok_def owns_def om_ok_def split: if_splits)

lemma sample_document_inv: "doc_inv sample_document"
  by (auto simp: doc_inv_def maps_ok_def sample_document_def sample_demand_def sample_call_def
      sample_profile_def live_ok_def owns_def om_ok_def split: if_splits)

lemma sample_env_sel [simp]:
  "now sample_env = 100" "now_ms sample_env = 100000" "fresh sample_env site = Inr (site_name site)"
  "sha256 sample_env x = replicate 64 CHR ''a''" "enc_profile sample_env p = Inr (p_tag p)"
  "enc_inference sample_env q = Inr (q_prompt q)" "enc_work sample_env w = Inr (wk_work_id w)"
  "enc_value sample_env v = Inr ''v''" "enc_len sample_env s = Inr (length (demands s))"
  by (simp_all add: sample_env_def)

section \<open>A codec of documents\<close>

text \<open>It encodes the empty document and the sample, and fails on every other.\<close>

definition sample_codec :: "document codec" where
  "sample_codec = \<lparr>enc = (\<lambda>d. if d = empty_document then Inr ''{}''
       else if d = sample_document then Inr ''{1}'' else Inl ''unsupported''),
     dec = (\<lambda>raw. if raw = ''{}'' then Inr empty_document
       else if raw = ''{1}'' then Inr sample_document else Inl ''syntax''),
     dflt = empty_document\<rparr>"

definition sample_io :: io where
  "sample_io = \<lparr>io_lock = Inr (), io_read = Inr (), io_write = NoFault\<rparr>"

lemma sample_document_not_empty: "sample_document \<noteq> empty_document"
  by (simp add: sample_document_def empty_document_def)

lemma sample_codec_ok: "codec_ok sample_codec"
  using sample_document_not_empty by (auto simp: codec_ok_def sample_codec_def split: if_splits)

theorem update_authority_transactional_witness:
  "fst (update_authority sample_io sample_codec (\<lambda>d. Inr (1 :: nat, sample_document)) None) = Inr 1 \<and>
   (case update_authority sample_io sample_codec (\<lambda>d. Inr (1 :: nat, sample_document)) None of
      (Inr r, disk') \<Rightarrow>
        (\<exists>d d'. stored sample_codec None = Inr d \<and> Inr (1 :: nat, sample_document) = (Inr (r, d') :: (nat \<times> document) res) \<and>
           stored sample_codec disk' = Inr d')
    | (Inl e, disk') \<Rightarrow> False)"
proof -
  have run: "update_authority sample_io sample_codec (\<lambda>d. Inr (1 :: nat, sample_document)) None =
      (Inr 1, Some ''{1}'')"
    using sample_document_not_empty
    by (simp add: update_authority_def sample_io_def load_def sample_codec_def atomic_write_def
        MAX_AUTHORITY_BYTES_def)
  show ?thesis
    using update_authority_transactional[OF sample_codec_ok, where io = sample_io
        and action = "\<lambda>d. Inr (1 :: nat, sample_document)" and disk = None] run
    by auto
qed

end
