(* ===== verification/Payload_Store.thy ===== *)
theory Payload_Store
  imports Samples
begin

text \<open>
  \<open>payload_store.rs\<close>: request and result bodies live in files beside the authority document,
  which keeps a digest, a length and a relative path. The files are a map from the components
  of a path under the authority root to contents; \<open>serde_json\<close> decoding is an argument of the
  reads.
\<close>

datatype payload_slot = SlotRequest | SlotResult | SlotLateResult

fun slot_name :: "payload_slot \<Rightarrow> string" where
  "slot_name SlotRequest = ''request''"
| "slot_name SlotResult = ''result''"
| "slot_name SlotLateResult = ''late_result''"

type_synonym files = "string list \<Rightarrow> string option"

section \<open>Paths\<close>

text \<open>\<open>Path::components\<close>: the parts between separators, empty parts and inner dots left out.\<close>

fun split_on :: "char \<Rightarrow> string \<Rightarrow> string list" where
  "split_on c [] = [[]]"
| "split_on c (x # xs) =
     (if x = c then [] # split_on c xs
      else (case split_on c xs of [] \<Rightarrow> [[x]] | p # ps \<Rightarrow> (x # p) # ps))"

definition path_parts :: "string \<Rightarrow> string list" where
  "path_parts p =
     (case split_on CHR ''/'' p of
        [] \<Rightarrow> []
      | q # qs \<Rightarrow> filter (\<lambda>x. x \<noteq> []) (q # filter (\<lambda>x. x \<noteq> ''.'') qs))"

definition reference_path :: "payload_ref \<Rightarrow> string list res" where
  "reference_path r =
     (let p = ref_path r in
      if starts_with p ''/'' \<or> (\<exists>c \<in> set (path_parts p). c = ''..'' \<or> c = ''.'')
      then Inl ''invalid_payload_reference'' else Inr (path_parts p))"

definition relative_path :: "env \<Rightarrow> string \<Rightarrow> string \<Rightarrow> payload_slot \<Rightarrow> string list res" where
  "relative_path e owner k slot =
     (if \<not> valid_id k then Inl ''invalid_payload_identity''
      else Inr [''payloads'', ''owners'', sha256 e owner, ''invocations'', sha256 e k,
                slot_name slot @ ''.json''])"

fun join_parts :: "string list \<Rightarrow> string" where
  "join_parts [] = []"
| "join_parts [p] = p"
| "join_parts (p # q # ps) = p @ ''/'' @ join_parts (q # ps)"

section \<open>Storing and reading\<close>

text \<open>\<open>store\<close>: \<open>wr\<close> is what the file system does with the write.\<close>

definition store_payload ::
  "env \<Rightarrow> write_fault \<Rightarrow> string \<Rightarrow> string \<Rightarrow> payload_slot \<Rightarrow> string res \<Rightarrow> files
     \<Rightarrow> payload_ref res \<times> files" where
  "store_payload e wr owner k slot encoded fs =
     (case encoded of
        Inl err \<Rightarrow> (Inl err, fs)
      | Inr bytes \<Rightarrow>
          (case relative_path e owner k slot of
             Inl err \<Rightarrow> (Inl err, fs)
           | Inr path \<Rightarrow>
               (case atomic_write wr bytes (fs path) of
                  (Inl err, c) \<Rightarrow> (Inl err, fs(path := c))
                | (Inr _, c) \<Rightarrow>
                    (Inr \<lparr>ref_sha256 = sha256 e bytes, ref_bytes = length bytes,
                          ref_path = join_parts path\<rparr>, fs(path := c)))))"

text \<open>\<open>read\<close>: at most one byte more than the recorded length is read.\<close>

definition read_payload :: "env \<Rightarrow> (string \<Rightarrow> 'a res) \<Rightarrow> files \<Rightarrow> payload_ref \<Rightarrow> 'a res" where
  "read_payload e decode fs r =
     res_bind (reference_path r) (\<lambda>path.
     res_bind (ok_or (fs path) ''payload_unavailable'') (\<lambda>raw.
       let bytes = take (sat_add (ref_bytes r) 1) raw in
       if length bytes \<noteq> ref_bytes r \<or> sha256 e bytes \<noteq> ref_sha256 r
       then Inl ''payload_integrity_failure''
       else (case decode bytes of Inl _ \<Rightarrow> Inl ''payload_decode_failure'' | Inr v \<Rightarrow> Inr v)))"

section \<open>Requests and results\<close>

definition compact_work :: "work \<Rightarrow> work" where
  "compact_work w =
     w\<lparr>wk_payload :=
         (case wk_payload w of
            InferenceWork prompt mt ts \<Rightarrow> InferenceWork [] mt ts
          | WorkspaceWork ws \<Rightarrow> WorkspaceWork (ws\<lparr>w_objective := []\<rparr>))\<rparr>"

definition compact_request :: "inference \<Rightarrow> inference" where
  "compact_request q =
     q\<lparr>q_prompt := [], q_payload := None, q_work := map_option compact_work (q_work q)\<rparr>"

definition compacted :: "inference \<Rightarrow> bool" where
  "compacted q \<longleftrightarrow> q_prompt q = [] \<and> q_payload q = None"

definition store_request ::
  "env \<Rightarrow> write_fault \<Rightarrow> invocation \<Rightarrow> files \<Rightarrow> invocation res \<times> files" where
  "store_request e wr i fs =
     (case store_payload e wr (i_owner i) (i_id i) SlotRequest (enc_inference e (i_request i)) fs of
        (Inl err, fs') \<Rightarrow> (Inl err, fs')
      | (Inr r, fs') \<Rightarrow>
          (let j = i\<lparr>i_request_digest := get_or_insert (i_request_digest i) (ref_sha256 r),
                     i_request_bytes := get_or_insert (i_request_bytes i) (ref_bytes r)\<rparr>;
               fin = (\<lambda>j. j\<lparr>i_request_ref := Some r, i_request := compact_request (i_request i)\<rparr>)
           in (case q_work (i_request i) of
                 None \<Rightarrow> (Inr (fin j), fs')
               | Some w \<Rightarrow>
                   (case enc_work e w of
                      Inl err \<Rightarrow> (Inl err, fs')
                    | Inr bytes \<Rightarrow>
                        (Inr (fin (j\<lparr>i_work_digest := get_or_insert (i_work_digest j) (sha256 e bytes),
                                     i_work_bytes := get_or_insert (i_work_bytes j) (length bytes)\<rparr>)),
                         fs')))))"

definition store_result ::
  "env \<Rightarrow> write_fault \<Rightarrow> invocation \<Rightarrow> json \<Rightarrow> files \<Rightarrow> invocation res \<times> files" where
  "store_result e wr i v fs =
     (case store_payload e wr (i_owner i) (i_id i) SlotResult (enc_value e v) fs of
        (Inl err, fs') \<Rightarrow> (Inl err, fs')
      | (Inr r, fs') \<Rightarrow>
          (Inr (i\<lparr>i_result_digest := Some (ref_sha256 r), i_result_ref := Some r,
                  i_result := None\<rparr>), fs'))"

definition store_late_result ::
  "env \<Rightarrow> write_fault \<Rightarrow> invocation \<Rightarrow> json \<Rightarrow> files \<Rightarrow> invocation res \<times> files" where
  "store_late_result e wr i v fs =
     (case store_payload e wr (i_owner i) (i_id i) SlotLateResult (enc_value e v) fs of
        (Inl err, fs') \<Rightarrow> (Inl err, fs')
      | (Inr r, fs') \<Rightarrow>
          (Inr (i\<lparr>i_late_result_digest := Some (ref_sha256 r), i_late_result_ref := Some r,
                  i_late_result := None\<rparr>), fs'))"

definition full_request ::
  "env \<Rightarrow> (string \<Rightarrow> inference res) \<Rightarrow> files \<Rightarrow> invocation \<Rightarrow> inference res" where
  "full_request e decode fs i =
     (if \<not> compacted (i_request i) then Inr (i_request i)
      else (case i_request_ref i of
              Some r \<Rightarrow> read_payload e decode fs r
            | None \<Rightarrow> Inr (i_request i)))"

definition hydrate_invocation ::
  "env \<Rightarrow> (string \<Rightarrow> inference res) \<Rightarrow> (string \<Rightarrow> json res) \<Rightarrow> files \<Rightarrow> invocation \<Rightarrow> invocation res" where
  "hydrate_invocation e decode_q decode_v fs i =
     res_bind (if i_request_ref i \<noteq> None
               then res_bind (full_request e decode_q fs i) (\<lambda>q. Inr (i\<lparr>i_request := q\<rparr>))
               else Inr i) (\<lambda>i.
     res_bind (case i_result_ref i of
                 None \<Rightarrow> Inr i
               | Some r \<Rightarrow> res_bind (read_payload e decode_v fs r) (\<lambda>v. Inr (i\<lparr>i_result := Some v\<rparr>))) (\<lambda>i.
     (case i_late_result_ref i of
        None \<Rightarrow> Inr i
      | Some r \<Rightarrow> res_bind (read_payload e decode_v fs r) (\<lambda>v. Inr (i\<lparr>i_late_result := Some v\<rparr>)))))"

text \<open>\<open>remove_reference\<close>: a missing file is no error; \<open>fault\<close> is any other error of the
  removal.\<close>

definition remove_reference :: "string option \<Rightarrow> payload_ref \<Rightarrow> files \<Rightarrow> unit res \<times> files" where
  "remove_reference fault r fs =
     (case reference_path r of
        Inl err \<Rightarrow> (Inl err, fs)
      | Inr path \<Rightarrow>
          (case fault of
             None \<Rightarrow> (Inr (), fs(path := None))
           | Some err \<Rightarrow> (Inl err, fs)))"

definition remove_references ::
  "string option \<Rightarrow> payload_ref list \<Rightarrow> files \<Rightarrow> unit res \<times> files" where
  "remove_references fault rs fs =
     foldl (\<lambda>(r, fs) p. case r of Inl err \<Rightarrow> (Inl err, fs) | Inr _ \<Rightarrow> remove_reference fault p fs)
       (Inr (), fs) rs"

definition opt_list :: "'a option \<Rightarrow> 'a list" where
  "opt_list x = (case x of None \<Rightarrow> [] | Some v \<Rightarrow> [v])"

definition remove_invocation_payloads ::
  "string option \<Rightarrow> invocation \<Rightarrow> files \<Rightarrow> unit res \<times> files" where
  "remove_invocation_payloads fault i =
     remove_references fault
       (opt_list (i_request_ref i) @ opt_list (i_result_ref i) @ opt_list (i_late_result_ref i))"

definition remove_uncommitted_result_payloads ::
  "string option \<Rightarrow> invocation \<Rightarrow> payload_ref option \<Rightarrow> payload_ref option \<Rightarrow> files
     \<Rightarrow> unit res \<times> files" where
  "remove_uncommitted_result_payloads fault i previous previous_late =
     remove_references fault
       (filter (\<lambda>r. previous \<noteq> Some r) (opt_list (i_result_ref i)) @
        filter (\<lambda>r. previous_late \<noteq> Some r) (opt_list (i_late_result_ref i)))"

section \<open>Commitments\<close>

definition response_storage_bound :: "nat \<Rightarrow> nat" where
  "response_storage_bound n = sat_add (sat_mul n 2) 4096"

definition response_storage_commitment :: "invocation \<Rightarrow> nat" where
  "response_storage_commitment i =
     max (response_storage_bound (i_response_bytes i))
       (sat_add (unwrap_or (map_option ref_bytes (i_result_ref i)) 0)
                (unwrap_or (map_option ref_bytes (i_late_result_ref i)) 0))"

definition request_bytes :: "env \<Rightarrow> invocation \<Rightarrow> nat" where
  "request_bytes e i =
     (case opt_or (map_option ref_bytes (i_request_ref i)) (i_request_bytes i) of
        Some n \<Rightarrow> n
      | None \<Rightarrow> (case enc_inference e (i_request i) of Inl _ \<Rightarrow> 0 | Inr bytes \<Rightarrow> length bytes))"

definition active_payload_commitment :: "env \<Rightarrow> invocation \<Rightarrow> nat" where
  "active_payload_commitment e i = sat_add (request_bytes e i) (response_storage_commitment i)"

section \<open>What is stored is read back\<close>

text \<open>The digests of \<open>sha2\<close> are 64 hexadecimal digits.\<close>

definition digest_ok :: "env \<Rightarrow> bool" where
  "digest_ok e \<longleftrightarrow>
     (\<forall>x. length (sha256 e x) = 64 \<and> set (sha256 e x) \<subseteq> set ''0123456789abcdef'')"

lemma split_on_join:
  "c \<notin> set p \<Longrightarrow> split_on c (p @ c # xs) = p # split_on c xs"
  by (induction p) auto

lemma split_on_single: "c \<notin> set p \<Longrightarrow> split_on c p = [p]"
  by (induction p) auto

lemma split_join_parts:
  "ps \<noteq> [] \<Longrightarrow> (\<And>p. p \<in> set ps \<Longrightarrow> CHR ''/'' \<notin> set p) \<Longrightarrow> split_on CHR ''/'' (join_parts ps) = ps"
proof (induction ps rule: join_parts.induct)
  case (3 p q ps)
  have "split_on CHR ''/'' (p @ CHR ''/'' # join_parts (q # ps)) =
        p # split_on CHR ''/'' (join_parts (q # ps))"
    by (rule split_on_join) (use 3 in auto)
  then show ?case using 3 by auto
qed (auto simp: split_on_single)

lemma path_parts_join:
  assumes "ps \<noteq> []" and "\<And>p. p \<in> set ps \<Longrightarrow> CHR ''/'' \<notin> set p \<and> p \<noteq> [] \<and> p \<noteq> ''.''"
  shows "path_parts (join_parts ps) = ps"
proof -
  obtain q qs where ps: "ps = q # qs" using assms(1) by (cases ps) auto
  have "filter (\<lambda>x. x \<noteq> ''.'') qs = qs" "filter (\<lambda>x. x \<noteq> []) (q # qs) = q # qs"
    using assms(2) ps by (auto simp: filter_id_conv)
  then show ?thesis
    using split_join_parts[of ps] assms ps by (simp add: path_parts_def)
qed

lemma digest_ok_part:
  assumes "digest_ok e"
  shows "CHR ''/'' \<notin> set (sha256 e x)" "sha256 e x \<noteq> []" "sha256 e x \<noteq> ''.''" "sha256 e x \<noteq> ''..''"
proof -
  have l: "length (sha256 e x) = 64" and s: "set (sha256 e x) \<subseteq> set ''0123456789abcdef''"
    using assms by (auto simp: digest_ok_def)
  show "CHR ''/'' \<notin> set (sha256 e x)" using s by auto
  show "sha256 e x \<noteq> []" "sha256 e x \<noteq> ''.''" "sha256 e x \<noteq> ''..''" using l by auto
qed

lemma reference_path_relative:
  assumes "digest_ok e" and p: "relative_path e owner k slot = Inr path"
  shows "reference_path \<lparr>ref_sha256 = h, ref_bytes = n, ref_path = join_parts path\<rparr> = Inr path"
proof -
  have path: "path = [''payloads'', ''owners'', sha256 e owner, ''invocations'', sha256 e k,
                slot_name slot @ ''.json'']"
    using p by (simp add: relative_path_def split: if_splits)
  have slot: "CHR ''/'' \<notin> set (slot_name slot @ ''.json'')" "slot_name slot @ ''.json'' \<noteq> ''..''"
      "slot_name slot @ ''.json'' \<noteq> ''.''"
    by (cases slot; simp)+
  have "path_parts (join_parts path) = path"
    by (rule path_parts_join) (use path slot digest_ok_part[OF assms(1)] in auto)
  moreover have "\<not> starts_with (join_parts path) ''/''"
    by (simp add: path)
  ultimately show ?thesis
    using path slot digest_ok_part[OF assms(1)] by (auto simp: reference_path_def)
qed

lemma read_store_payload:
  assumes "digest_ok e" and "store_payload e wr owner k slot (Inr bytes) fs = (Inr r, fs')"
    and "length bytes < u64_max" and "decode bytes = Inr v"
  shows "read_payload e decode fs' r = Inr v"
proof -
  obtain path where p: "relative_path e owner k slot = Inr path"
    using assms(2) by (auto simp: store_payload_def split: sum.splits)
  have r: "r = \<lparr>ref_sha256 = sha256 e bytes, ref_bytes = length bytes, ref_path = join_parts path\<rparr>"
    and c: "fs' path = Some bytes"
    using assms(2) p
    by (auto simp: store_payload_def atomic_write_def split: write_fault.splits)
  have "reference_path r = Inr path"
    using reference_path_relative[OF assms(1) p] r by simp
  then show ?thesis
    using r c assms(3,4) by (simp add: read_payload_def sat_add_def)
qed

lemma store_request_parts:
  assumes "store_request e wr i fs = (Inr j, fs')"
  obtains bytes r where "enc_inference e (i_request i) = Inr bytes"
    "store_payload e wr (i_owner i) (i_id i) SlotRequest (Inr bytes) fs = (Inr r, fs')"
    "i_request_ref j = Some r" "i_request j = compact_request (i_request i)"
    "i_id j = i_id i" "i_owner j = i_owner i" "i_state j = i_state i"
proof -
  obtain r where st: "store_payload e wr (i_owner i) (i_id i) SlotRequest
      (enc_inference e (i_request i)) fs = (Inr r, fs')"
    using assms by (auto simp: store_request_def Let_def split: prod.splits sum.splits option.splits)
  obtain bytes where en: "enc_inference e (i_request i) = Inr bytes"
    using st by (auto simp: store_payload_def split: sum.splits)
  show thesis
    using assms st en
    by (intro that[of bytes r])
      (auto simp: store_request_def Let_def split: sum.splits option.splits)
qed

text \<open>A stored request is read back in full. After \<open>store_request\<close> succeeds the
  record keeps only a compacted request, and \<open>full_request\<close> on the files it left returns the request that
  was stored, whatever that request was, if decoding inverts encoding.\<close>

theorem full_request_after_store:
  assumes "digest_ok e" and "\<And>q bytes. enc_inference e q = Inr bytes \<Longrightarrow> decode bytes = Inr q"
    and "\<And>q bytes. enc_inference e q = Inr bytes \<Longrightarrow> length bytes < u64_max"
    and "store_request e wr i fs = (Inr j, fs')"
  shows "compacted (i_request j) \<and> full_request e decode fs' j = Inr (i_request i)"
proof -
  obtain bytes r where p: "enc_inference e (i_request i) = Inr bytes"
    "store_payload e wr (i_owner i) (i_id i) SlotRequest (Inr bytes) fs = (Inr r, fs')"
    "i_request_ref j = Some r" "i_request j = compact_request (i_request i)"
    using assms(4) by (rule store_request_parts)
  have "read_payload e decode fs' r = Inr (i_request i)"
    by (rule read_store_payload[OF assms(1) p(2)]) (use assms(2,3) p(1) in auto)
  moreover have "compacted (i_request j)"
    by (simp add: p(4) compacted_def compact_request_def)
  ultimately show ?thesis by (simp add: full_request_def p(3))
qed

theorem full_request_after_store_witness:
  "let e = sample_env\<lparr>enc_inference := (\<lambda>q. if q = sample_request ''d1'' then Inr ''q'' else Inl ''unsupported'')\<rparr>;
       i = sample_call ''i1'' ''d1'' Queued;
       out = store_request e NoFault i (\<lambda>_. None) in
   (\<exists>j. fst out = Inr j \<and> compacted (i_request j) \<and>
      full_request e (\<lambda>_. Inr (sample_request ''d1'')) (snd out) j = Inr (i_request i))"
proof -
  let ?e = "sample_env\<lparr>enc_inference := (\<lambda>q. if q = sample_request ''d1'' then Inr ''q'' else Inl ''unsupported'')\<rparr>"
  let ?i = "sample_call ''i1'' ''d1'' Queued"
  have ok: "digest_ok ?e" by (simp add: digest_ok_def sample_env_def)
  have v: "valid_id ''i1''" by (simp add: valid_id_def ascii_alphanumeric_def Let_def)
  have "\<exists>j fs'. store_request ?e NoFault ?i (\<lambda>_. None) = (Inr j, fs')"
    using v by (simp add: store_request_def store_payload_def sample_call_def relative_path_def
        atomic_write_def Let_def sample_request_def)
  then obtain j fs' where st: "store_request ?e NoFault ?i (\<lambda>_. None) = (Inr j, fs')" by blast
  have "compacted (i_request j) \<and>
      full_request ?e (\<lambda>_. Inr (sample_request ''d1'')) fs' j = Inr (i_request ?i)"
    by (rule full_request_after_store[OF ok _ _ st]) (auto simp: u64_max_def split: if_splits)
  then show ?thesis by (simp add: st Let_def)
qed

end
