(* ===== verification/Capacity.thy ===== *)
theory Capacity
  imports Payload_Store "HOL-Library.Product_Lexorder"
begin

text \<open>
  \<open>capacity.rs\<close>: the bounds on waiting work, and the compaction that turns the bodies of finished
  calls into digests before they can take the room that admission needs.
\<close>

definition API_REQUEST_BODY_BYTES :: nat where
  "API_REQUEST_BODY_BYTES = 1048576"

definition COMPLETION_HEADROOM_BYTES :: nat where
  "COMPLETION_HEADROOM_BYTES = 65536"

section \<open>Limits\<close>

definition default_limits :: limits where
  "default_limits = \<lparr>max_pending = 32, max_pending_per_reservation = 16,
     legacy_max_calls_per_reservation = None, max_dispatch_workers = 4,
     max_transition_workers = 8, max_gateway_waiters = 32, max_wait_seconds = 300,
     max_response_bytes = 3 * 1024 * 1024, retention_admission_bytes = 30 * 1024 * 1024,
     terminal_evidence_bytes = 8 * 1024 * 1024\<rparr>"

definition validate_limits :: "limits \<Rightarrow> unit res" where
  "validate_limits l =
     (if max_pending l = 0 \<or> max_pending l > 1024 \<or> max_pending_per_reservation l = 0
         \<or> max_pending_per_reservation l > max_pending l
         \<or> max_dispatch_workers l = 0 \<or> max_dispatch_workers l > 64
         \<or> max_transition_workers l = 0 \<or> max_transition_workers l > 64
         \<or> max_gateway_waiters l = 0 \<or> max_gateway_waiters l > 128
         \<or> max_wait_seconds l = 0 \<or> max_wait_seconds l > 86400
         \<or> \<not> (1024 \<le> max_response_bytes l \<and> max_response_bytes l \<le> 4 * 1024 * 1024)
         \<or> \<not> (256 * 1024 \<le> retention_admission_bytes l
               \<and> retention_admission_bytes l \<le> 30 * 1024 * 1024)
         \<or> \<not> (64 * 1024 \<le> terminal_evidence_bytes l
               \<and> terminal_evidence_bytes l \<le> 30 * 1024 * 1024)
      then Inl ''invalid_runtime_capacity_limits'' else Inr ())"

definition waiting :: "document \<Rightarrow> invocation list" where
  "waiting s = filter (\<lambda>i. i_state i \<in> {Queued, Running}) (om_vals (invocations s))"

definition pending :: "limits \<Rightarrow> document \<Rightarrow> string \<Rightarrow> unit res" where
  "pending l s reservation =
     (if length (waiting s) \<ge> max_pending l then Inl ''capacity_pending_global''
      else if length (filter (\<lambda>i. q_reservation_id (i_request i) = reservation) (waiting s))
                \<ge> max_pending_per_reservation l
      then Inl ''capacity_pending_reservation''
      else res_bind (ok_or (get_demand s reservation) ''missing_reservation'') (\<lambda>_. Inr ()))"

section \<open>Compaction of finished calls\<close>

definition terminal_call :: "invocation \<Rightarrow> bool" where
  "terminal_call i \<longleftrightarrow> i_state i \<notin> {Queued, Running, Uncertain}"

definition compact_terminal_request :: "env \<Rightarrow> invocation \<Rightarrow> invocation res" where
  "compact_terminal_request e i =
     res_bind (enc_inference e (i_request i)) (\<lambda>original.
     let small = compact_request (i_request i) in
     res_bind (enc_inference e small) (\<lambda>bytes.
     if length bytes \<ge> length original then Inr i
     else
       (let j = i\<lparr>i_request_digest := get_or_insert (i_request_digest i) (sha256 e original),
                  i_request_bytes := get_or_insert (i_request_bytes i) (length original)\<rparr> in
        case q_work (i_request i) of
          None \<Rightarrow> Inr (j\<lparr>i_request := small\<rparr>)
        | Some w \<Rightarrow>
            res_bind (enc_work e w) (\<lambda>wb.
              Inr (j\<lparr>i_work_digest := get_or_insert (i_work_digest j) (sha256 e wb),
                     i_work_bytes := get_or_insert (i_work_bytes j) (length wb),
                     i_request := small\<rparr>)))))"

definition compact_terminal_requests :: "env \<Rightarrow> document \<Rightarrow> document res" where
  "compact_terminal_requests e s =
     (case map_res (\<lambda>(k, i).
          if terminal_call i then res_bind (compact_terminal_request e i) (\<lambda>j. Inr (k, j))
          else Inr (k, i)) (invocations s) of
        Inl err \<Rightarrow> Inl err
      | Inr m \<Rightarrow> Inr (s\<lparr>invocations := m\<rparr>))"

definition serialized_bytes :: "env \<Rightarrow> json \<Rightarrow> nat res" where
  "serialized_bytes e v = res_bind (enc_value e v) (\<lambda>b. Inr (length b))"

definition body_bytes :: "env \<Rightarrow> json option \<Rightarrow> nat res" where
  "body_bytes e v = (case v of None \<Rightarrow> Inr 0 | Some v \<Rightarrow> serialized_bytes e v)"

definition terminal_entries :: "env \<Rightarrow> document \<Rightarrow> (nat \<times> string \<times> nat) list res" where
  "terminal_entries e s =
     map_res (\<lambda>(k, i).
         res_bind (body_bytes e (i_result i)) (\<lambda>r.
         res_bind (body_bytes e (i_late_result i)) (\<lambda>l.
           Inr (unwrap_or (i_started i) 0, k, r + l))))
       (filter (\<lambda>(k, i). terminal_call i) (invocations s))"

text \<open>One turn of the loop: the result goes first, and the late result only while the total is
  still over the limit.\<close>

definition take_result :: "env \<Rightarrow> nat \<times> invocation \<Rightarrow> (nat \<times> invocation) res" where
  "take_result e x =
     (case i_result (snd x) of
        None \<Rightarrow> Inr x
      | Some v \<Rightarrow>
          res_bind (enc_value e v) (\<lambda>b.
            Inr (fst x - length b,
                 (snd x)\<lparr>i_result := None, i_result_digest := Some (sha256 e b)\<rparr>)))"

definition take_late_result :: "env \<Rightarrow> nat \<times> invocation \<Rightarrow> (nat \<times> invocation) res" where
  "take_late_result e x =
     (case i_late_result (snd x) of
        None \<Rightarrow> Inr x
      | Some v \<Rightarrow>
          res_bind (enc_value e v) (\<lambda>b.
            Inr (fst x - length b,
                 (snd x)\<lparr>i_late_result := None, i_late_result_digest := Some (sha256 e b)\<rparr>)))"

fun compact_loop :: "env \<Rightarrow> nat \<Rightarrow> string list \<Rightarrow> nat \<Rightarrow> document \<Rightarrow> (nat \<times> document) res" where
  "compact_loop e limit [] tot s = Inr (tot, s)"
| "compact_loop e limit (k # ks) tot s =
     (if tot \<le> limit then Inr (tot, s)
      else
        case get_call s k of
          None \<Rightarrow> Inl ''missing_invocation''
        | Some i \<Rightarrow>
            (case take_result e (tot, i) of
               Inl err \<Rightarrow> Inl err
             | Inr (tot, i) \<Rightarrow>
                 if tot \<le> limit then Inr (tot, upd_call k (\<lambda>_. i) s)
                 else
                   (case take_late_result e (tot, i) of
                      Inl err \<Rightarrow> Inl err
                    | Inr (tot, i) \<Rightarrow> compact_loop e limit ks tot (upd_call k (\<lambda>_. i) s))))"

definition compact_terminal_payloads :: "env \<Rightarrow> nat \<Rightarrow> document \<Rightarrow> document res" where
  "compact_terminal_payloads e limit s =
     res_bind (terminal_entries e s) (\<lambda>entries.
     let tot = sum_list (map (\<lambda>(_, _, n). n) entries) in
     if tot \<le> limit then Inr s
     else
       res_bind (compact_loop e limit
           (map (\<lambda>(_, k, _). k) (sort_key (\<lambda>(started, k, _). (started, k)) entries)) tot s)
         (\<lambda>(_, t). Inr t))"

definition active_payload_capacity :: "limits \<Rightarrow> nat" where
  "active_payload_capacity l =
     sat_add (sat_mul (max_pending l)
                (sat_add API_REQUEST_BODY_BYTES (response_storage_bound (max_response_bytes l))))
       (max_dispatch_workers l * COMPLETION_HEADROOM_BYTES)"

definition retention :: "env \<Rightarrow> limits \<Rightarrow> document \<Rightarrow> document res" where
  "retention e l s =
     res_bind (compact_terminal_requests e s) (\<lambda>s.
     res_bind (compact_terminal_payloads e
         (min (terminal_evidence_bytes l) (retention_admission_bytes l div 2)) s) (\<lambda>s.
     res_bind (enc_len e s) (\<lambda>control_reserved.
     if sat_add control_reserved COMPLETION_HEADROOM_BYTES > retention_admission_bytes l
     then Inl ''capacity_active_control''
     else if sat_add (sum_list (map (active_payload_commitment e) (waiting s)))
               COMPLETION_HEADROOM_BYTES > active_payload_capacity l
     then Inl ''capacity_active_payload''
     else Inr s)))"

text \<open>\<open>diagnostic\<close> cuts a message at 2048 bytes, or before them at the last boundary of a
  UTF-8 character: a byte that is not a continuation byte.\<close>

definition char_boundary :: "string \<Rightarrow> nat \<Rightarrow> bool" where
  "char_boundary s n \<longleftrightarrow>
     n = 0 \<or> n = length s \<or>
     (n < length s \<and> \<not> (128 \<le> (of_char (s ! n) :: nat) \<and> (of_char (s ! n) :: nat) < 192))"

fun floor_boundary :: "string \<Rightarrow> nat \<Rightarrow> nat" where
  "floor_boundary s 0 = 0"
| "floor_boundary s (Suc n) = (if char_boundary s (Suc n) then Suc n else floor_boundary s n)"

definition diagnostic :: "string \<Rightarrow> string" where
  "diagnostic msg = take (floor_boundary msg (min (length msg) 2048)) msg"

section \<open>What compaction keeps\<close>

text \<open>Everything by which the runtime steers a call survives; a call that is not finished is not
  touched at all.\<close>

definition compacts :: "invocation \<Rightarrow> invocation \<Rightarrow> bool" where
  "compacts i j \<longleftrightarrow>
     i_id j = i_id i \<and> i_owner j = i_owner i \<and> i_state j = i_state i \<and>
     i_queue_order j = i_queue_order i \<and> i_response_bytes j = i_response_bytes i \<and>
     i_error j = i_error i \<and> i_cancellation j = i_cancellation i \<and>
     i_started j = i_started i \<and> i_completed j = i_completed i \<and>
     i_execution_deadline j = i_execution_deadline i \<and>
     q_reservation_id (i_request j) = q_reservation_id (i_request i) \<and>
     q_submission_id (i_request j) = q_submission_id (i_request i) \<and>
     q_workspace_scope (i_request j) = q_workspace_scope (i_request i) \<and>
     map_option wk_work_id (q_work (i_request j)) = map_option wk_work_id (q_work (i_request i)) \<and>
     is_workspace j = is_workspace i \<and>
     (\<not> terminal_call i \<longrightarrow> j = i)"

definition calls_compacted :: "document \<Rightarrow> document \<Rightarrow> bool" where
  "calls_compacted s t \<longleftrightarrow>
     t = s\<lparr>invocations := invocations t\<rparr> \<and>
     list_all2 (\<lambda>x y. fst y = fst x \<and> compacts (snd x) (snd y)) (invocations s) (invocations t)"

lemma compacts_refl [simp]: "compacts i i"
  by (simp add: compacts_def)

lemma compacts_terminal: "compacts i j \<Longrightarrow> terminal_call j = terminal_call i"
  by (simp add: compacts_def terminal_call_def)

lemma compacts_trans: "compacts i j \<Longrightarrow> compacts j k \<Longrightarrow> compacts i k"
  using compacts_terminal[of i j] by (simp add: compacts_def)

lemma calls_compacted_refl [simp]: "calls_compacted s s"
  by (simp add: calls_compacted_def list.rel_refl)

lemma calls_compacted_trans:
  assumes "calls_compacted s t" "calls_compacted t u"
  shows "calls_compacted s u"
proof -
  let ?R = "\<lambda>x y. fst y = fst x \<and> compacts (snd x) (snd y)"
  have "list_all2 ?R (invocations s) (invocations u)"
  proof (rule list_all2_trans[of ?R ?R ?R "invocations s" "invocations t" "invocations u"])
    show "?R x y \<Longrightarrow> ?R y z \<Longrightarrow> ?R x z" for x y z :: "string \<times> invocation"
      by (auto intro: compacts_trans)
  qed (use assms in \<open>simp_all add: calls_compacted_def\<close>)
  moreover have "u = s\<lparr>invocations := invocations u\<rparr>"
  proof -
    have "t = s\<lparr>invocations := invocations t\<rparr>" "u = t\<lparr>invocations := invocations u\<rparr>"
      using assms by (simp_all add: calls_compacted_def)
    then show ?thesis by (metis document.surjective document.update_convs(5))
  qed
  ultimately show ?thesis by (simp add: calls_compacted_def)
qed

lemma calls_compacted_sel:
  assumes "calls_compacted s t"
  shows "claims t = claims s" "demands t = demands s" "placement_hash t = placement_hash s"
    "gateway_port t = gateway_port s" "next_invocation_order t = next_invocation_order s"
    "acquisition_decisions t = acquisition_decisions s"
    "workspace_scopes t = workspace_scopes s" "warm_residencies t = warm_residencies s"
proof -
  have "t = s\<lparr>invocations := invocations t\<rparr>" using assms by (simp add: calls_compacted_def)
  then obtain m where t: "t = s\<lparr>invocations := m\<rparr>" by blast
  show "claims t = claims s" "demands t = demands s" "placement_hash t = placement_hash s"
    "gateway_port t = gateway_port s" "next_invocation_order t = next_invocation_order s"
    "acquisition_decisions t = acquisition_decisions s"
    "workspace_scopes t = workspace_scopes s" "warm_residencies t = warm_residencies s"
    by (simp_all add: t)
qed

lemma list_all2_same_keys:
  "list_all2 (\<lambda>x y. fst y = fst x \<and> P (snd x) (snd y)) m n \<Longrightarrow> map fst n = map fst m"
  by (induction m n rule: list_all2_induct) auto

lemma list_all2_lookup:
  "list_all2 (\<lambda>x y. fst y = fst x \<and> P (snd x) (snd y)) m n \<Longrightarrow> rel_option P (map_of m k) (map_of n k)"
  by (induction m n rule: list_all2_induct) (auto split: prod.splits)

lemma calls_compacted_call:
  "calls_compacted s t \<Longrightarrow> rel_option compacts (get_call s k) (get_call t k)"
  by (auto simp: calls_compacted_def dest: list_all2_lookup)

lemma calls_compacted_maps_ok: "calls_compacted s t \<Longrightarrow> maps_ok s \<Longrightarrow> maps_ok t"
  using list_all2_same_keys[of compacts "invocations s" "invocations t"] calls_compacted_sel[of s t]
  by (simp add: maps_ok_def om_ok_def calls_compacted_def)

lemma compacts_id: "compacts i j \<Longrightarrow> i_id j = i_id i"
  by (simp add: compacts_def)

lemma calls_compacted_demands_kept:
  assumes "calls_compacted s t" "doc_inv s"
  shows "demands_kept s t"
proof -
  have "i_id j = k" if "get_call t k = Some j" for k j
    using calls_compacted_call[OF assms(1), of k] that doc_inv_call_id[OF assms(2)] compacts_id
    by (fastforce simp: option_rel_Some2)
  then show ?thesis
    using assms calls_compacted_sel[OF assms(1)] calls_compacted_maps_ok[OF assms(1)] doc_inv_maps
    by (simp add: demands_kept_def calls_ok_def)
qed

lemma workspace_compact_request [simp]:
  "is_some_and (q_work (compact_request q)) (\<lambda>w. \<exists>y. work_workspace w = Some y) =
   is_some_and (q_work q) (\<lambda>w. \<exists>y. work_workspace w = Some y)"
  by (auto simp: compact_request_def is_some_and_def work_workspace_def
      compact_work_def split: option.splits work_payload.splits)

lemma work_id_compact_request [simp]:
  "map_option wk_work_id (q_work (compact_request q)) = map_option wk_work_id (q_work q)"
  by (cases "q_work q") (simp_all add: compact_request_def compact_work_def)

lemma compact_terminal_request_compacts:
  assumes "compact_terminal_request e i = Inr j" "terminal_call i"
  shows "compacts i j"
proof -
  have ws: "is_workspace (x\<lparr>i_request := compact_request (i_request i)\<rparr>) = is_workspace i" for x
    by (simp add: is_workspace_def)
  have "q_reservation_id (compact_request q) = q_reservation_id q"
    "q_submission_id (compact_request q) = q_submission_id q"
    "q_workspace_scope (compact_request q) = q_workspace_scope q" for q
    by (simp_all add: compact_request_def)
  then show ?thesis
    using assms ws work_id_compact_request[of "i_request i"]
    by (auto simp: compact_terminal_request_def Let_def compacts_def res_simps
        simp del: work_id_compact_request split: if_splits option.splits)
qed

lemma compact_terminal_requests_kept:
  assumes "compact_terminal_requests e s = Inr t"
  shows "calls_compacted s t"
proof -
  obtain m where m: "map_res (\<lambda>(k, i).
        if terminal_call i then res_bind (compact_terminal_request e i) (\<lambda>j. Inr (k, j))
        else Inr (k, i)) (invocations s) = Inr m" and t: "t = s\<lparr>invocations := m\<rparr>"
    using assms by (auto simp: compact_terminal_requests_def split: sum.splits)
  have "list_all2 (\<lambda>x y. fst y = fst x \<and> compacts (snd x) (snd y)) (invocations s) m"
    using m unfolding map_res_Inr_iff
    by (rule list_all2_mono)
      (auto simp: res_simps dest: compact_terminal_request_compacts split: if_splits)
  then show ?thesis by (simp add: calls_compacted_def t)
qed

lemma take_result_compacts:
  "take_result e (n, i) = Inr (n', j) \<Longrightarrow> terminal_call i \<Longrightarrow> compacts i j"
  by (auto simp: take_result_def res_simps compacts_def is_workspace_def split: option.splits)

lemma take_late_result_compacts:
  "take_late_result e (n, i) = Inr (n', j) \<Longrightarrow> terminal_call i \<Longrightarrow> compacts i j"
  by (auto simp: take_late_result_def res_simps compacts_def is_workspace_def split: option.splits)

lemma calls_compacted_upd_call:
  assumes "om_ok (invocations s)" "get_call s k = Some i" "compacts i j"
  shows "calls_compacted s (upd_call k (\<lambda>_. j) s)"
proof -
  have "compacts (snd x) (snd (if fst x = k then (fst x, j) else x))" if "x \<in> set (invocations s)" for x
  proof (cases "fst x = k")
    case True
    then have "map_of (invocations s) k = Some (snd x)"
      using that om_ok_distinct[OF assms(1)] by (metis map_of_eq_Some_iff prod.collapse)
    then show ?thesis using assms True by simp
  qed simp
  then have "list_all2 (\<lambda>x y. fst y = fst x \<and> compacts (snd x) (snd y)) (invocations s)
      (om_upd k (\<lambda>_. j) (invocations s))"
    by (auto simp: om_upd_def list_all2_map2 list_all2_same)
  then show ?thesis by (simp add: calls_compacted_def upd_call_def)
qed

lemma upd_call_id: "om_ok (invocations (upd_call k f s)) = om_ok (invocations s)"
  by simp

lemma compact_loop_kept:
  assumes "compact_loop e limit ks n s = Inr (n', t)" "om_ok (invocations s)"
    and "\<And>k i. k \<in> set ks \<Longrightarrow> get_call s k = Some i \<Longrightarrow> terminal_call i"
  shows "calls_compacted s t"
  using assms
proof (induction e limit ks n s rule: compact_loop.induct)
  case (1 e limit n s)
  then show ?case by simp
next
  case (2 e limit k ks n s)
  show ?case
  proof (cases "n \<le> limit")
    case True
    then show ?thesis using 2 by simp
  next
    case False
    obtain i where i: "get_call s k = Some i" using 2(2) False by (auto split: option.splits)
    obtain n1 i1 where t1: "take_result e (n, i) = Inr (n1, i1)"
      using 2(2) False i by (auto split: sum.splits)
    have ti: "terminal_call i" by (rule 2(4)[OF _ i]) simp
    have c1: "compacts i i1" by (rule take_result_compacts[OF t1 ti])
    show ?thesis
    proof (cases "n1 \<le> limit")
      case True
      then have "t = upd_call k (\<lambda>_. i1) s" using 2(2) False i t1 by simp
      then show ?thesis using calls_compacted_upd_call[OF 2(3) i c1] by simp
    next
      case over: False
      obtain n2 i2 where t2: "take_late_result e (n1, i1) = Inr (n2, i2)"
        using 2(2) False i t1 over by (auto split: sum.splits)
      have "terminal_call i1" using compacts_terminal[OF c1] ti by simp
      then have c2: "compacts i i2"
        using compacts_trans[OF c1 take_late_result_compacts[OF t2]] by simp
      let ?s = "upd_call k (\<lambda>_. i2) s"
      have s1: "calls_compacted s ?s" using calls_compacted_upd_call[OF 2(3) i c2] .
      have trm: "terminal_call j" if "k' \<in> set ks" "get_call ?s k' = Some j" for k' j
        using that 2(4) ti compacts_terminal[OF c2] by (auto split: if_splits)
      have "calls_compacted ?s t"
        by (rule "2.IH"[OF False i t1 refl over t2 refl])
          (use 2(2) False i t1 over t2 2(3) trm in auto)
      then show ?thesis by (rule calls_compacted_trans[OF s1])
    qed
  qed
qed

lemma terminal_entries_keys:
  assumes "terminal_entries e s = Inr entries" "om_ok (invocations s)"
    and "k \<in> (\<lambda>(_, k, _). k) ` set entries" "get_call s k = Some i"
  shows "terminal_call i"
proof -
  obtain x where x: "x \<in> set entries" "k = (\<lambda>(_, k, _). k) x" using assms(3) by auto
  obtain y where y: "y \<in> set (filter (\<lambda>(k, i). terminal_call i) (invocations s))"
      "(\<lambda>(k, i). res_bind (body_bytes e (i_result i)) (\<lambda>r.
         res_bind (body_bytes e (i_late_result i)) (\<lambda>l.
           Inr (unwrap_or (i_started i) 0, k, r + l)))) y = Inr x"
    using map_res_set[OF assms(1)[unfolded terminal_entries_def] x(1)] by blast
  then have "fst y = k" using x(2) by (auto simp: res_simps)
  then show ?thesis
    using y(1) assms(2,4) by (cases y) (auto dest: om_ok_distinct)
qed

lemma compact_terminal_payloads_kept:
  assumes "compact_terminal_payloads e limit s = Inr t" "om_ok (invocations s)"
  shows "calls_compacted s t"
proof -
  obtain entries where en: "terminal_entries e s = Inr entries"
    using assms(1) by (auto simp: compact_terminal_payloads_def res_simps)
  let ?ks = "map (\<lambda>(_, k, _). k) (sort_key (\<lambda>(started, k, _). (started, k)) entries)"
  have "terminal_call i" if "k \<in> set ?ks" "get_call s k = Some i" for k i
    using terminal_entries_keys[OF en assms(2) _ that(2)] that(1) by auto
  then show ?thesis
    using assms en compact_loop_kept[of e limit ?ks _ s]
    by (auto simp: compact_terminal_payloads_def Let_def res_simps split: if_splits)
qed

lemma retention_kept:
  assumes "retention e l s = Inr t" "om_ok (invocations s)"
  shows "calls_compacted s t"
proof -
  obtain u where u: "compact_terminal_requests e s = Inr u"
    and t: "compact_terminal_payloads e
         (min (terminal_evidence_bytes l) (retention_admission_bytes l div 2)) u = Inr t"
    using assms(1) by (auto simp: retention_def res_simps split: if_splits)
  have su: "calls_compacted s u" by (rule compact_terminal_requests_kept[OF u])
  have "om_ok (invocations u)"
    using list_all2_same_keys[of compacts "invocations s" "invocations u"] su assms(2)
    by (simp add: calls_compacted_def om_ok_def)
  then show ?thesis
    using calls_compacted_trans[OF su compact_terminal_payloads_kept[OF t]] by simp
qed

lemma retention_demands_kept:
  "retention e l s = Inr t \<Longrightarrow> doc_inv s \<Longrightarrow> demands_kept s t"
  using retention_kept calls_compacted_demands_kept doc_inv_maps by (metis maps_ok_def)

section \<open>The bound on finished evidence\<close>

definition body_length :: "env \<Rightarrow> json option \<Rightarrow> nat" where
  "body_length e v =
     (case v of None \<Rightarrow> 0
      | Some v \<Rightarrow> (case enc_value e v of Inl _ \<Rightarrow> 0 | Inr b \<Rightarrow> length b))"

definition call_evidence :: "env \<Rightarrow> invocation \<Rightarrow> nat" where
  "call_evidence e i =
     (if terminal_call i then body_length e (i_result i) + body_length e (i_late_result i) else 0)"

definition evidence :: "env \<Rightarrow> document \<Rightarrow> nat" where
  "evidence e s = sum_list (map (call_evidence e \<circ> snd) (invocations s))"

lemma body_bytes_length: "body_bytes e v = Inr n \<Longrightarrow> n = body_length e v"
  by (auto simp: body_bytes_def serialized_bytes_def body_length_def res_simps split: option.splits)

lemma evidence_upd:
  assumes "distinct (map fst m)" "map_of m k = Some i"
  shows "sum_list (map (call_evidence e \<circ> snd) (om_upd k (\<lambda>_. j) m)) + call_evidence e i =
         sum_list (map (call_evidence e \<circ> snd) m) + call_evidence e j"
  using assms
proof (induction m)
  case Nil
  then show ?case by simp
next
  case (Cons x m)
  show ?case
  proof (cases "fst x = k")
    case True
    then have "k \<notin> fst ` set m" using Cons.prems(1) by auto
    then have "om_upd k (\<lambda>_. j) m = m"
      by (force simp: om_upd_def intro: map_idI)
    then show ?thesis using True Cons.prems by (cases x) (auto simp: om_upd_def)
  next
    case False
    then have "map_of m k = Some i" using Cons.prems(2) by (cases x) auto
    then show ?thesis
      using Cons.IH Cons.prems(1) False by (cases x) (auto simp: om_upd_def)
  qed
qed

lemma terminal_entries_sum:
  assumes "terminal_entries e s = Inr entries"
  shows "sum_list (map (\<lambda>(_, _, n). n) entries) = evidence e s"
proof -
  have *: "map_res (\<lambda>(k, i).
         res_bind (body_bytes e (i_result i)) (\<lambda>r.
         res_bind (body_bytes e (i_late_result i)) (\<lambda>l.
           Inr (unwrap_or (i_started i) 0, k, r + l))))
       (filter (\<lambda>(k, i). terminal_call i) m) = Inr es \<Longrightarrow>
      sum_list (map (\<lambda>(_, _, n). n) es) = sum_list (map (call_evidence e \<circ> snd) m)" for m es
  proof (induction m arbitrary: es)
    case Nil
    then show ?case by simp
  next
    case (Cons x m)
    then show ?case
      by (cases x) (auto simp: call_evidence_def res_simps dest!: body_bytes_length
          split: sum.splits if_splits)
  qed
  show ?thesis
    using *[OF assms[unfolded terminal_entries_def]] by (simp add: evidence_def)
qed

lemma take_result_evidence:
  assumes "take_result e (n, i) = Inr (n1, j)" "terminal_call i"
  shows "call_evidence e j + body_length e (i_result i) = call_evidence e i"
    "n1 = n - body_length e (i_result i)" "i_result j = None" "i_late_result j = i_late_result i"
  using assms
  by (auto simp: take_result_def res_simps call_evidence_def body_length_def terminal_call_def
      split: option.splits sum.splits)

lemma take_late_result_evidence:
  assumes "take_late_result e (n, i) = Inr (n1, j)" "terminal_call i"
  shows "call_evidence e j + body_length e (i_late_result i) = call_evidence e i"
    "n1 = n - body_length e (i_late_result i)" "i_late_result j = None" "i_result j = i_result i"
  using assms
  by (auto simp: take_late_result_def res_simps call_evidence_def body_length_def terminal_call_def
      split: option.splits sum.splits)

lemma evidence_upd_call:
  "om_ok (invocations s) \<Longrightarrow> get_call s k = Some i \<Longrightarrow>
     evidence e (upd_call k (\<lambda>_. j) s) + call_evidence e i = evidence e s + call_evidence e j"
  unfolding evidence_def upd_call_sel by (rule evidence_upd[OF om_ok_distinct])

lemma evidence_none:
  assumes "om_ok (invocations s)"
    and "\<And>k i. get_call s k = Some i \<Longrightarrow> terminal_call i \<Longrightarrow> i_result i = None \<and> i_late_result i = None"
  shows "evidence e s = 0"
proof -
  have "call_evidence e (snd x) = 0" if "x \<in> set (invocations s)" for x
  proof -
    have "get_call s (fst x) = Some (snd x)"
      using that om_ok_distinct[OF assms(1)] by simp
    then show ?thesis using assms(2) by (auto simp: call_evidence_def body_length_def)
  qed
  then show ?thesis by (simp add: evidence_def)
qed

lemma compact_loop_bound:
  assumes "compact_loop e limit ks n s = Inr (n', t)" "om_ok (invocations s)" "n = evidence e s"
    and "\<And>k i. k \<in> set ks \<Longrightarrow> get_call s k = Some i \<Longrightarrow> terminal_call i"
    and "\<And>k i. k \<notin> set ks \<Longrightarrow> get_call s k = Some i \<Longrightarrow> terminal_call i \<Longrightarrow>
           i_result i = None \<and> i_late_result i = None"
  shows "evidence e t \<le> limit"
  using assms
proof (induction e limit ks n s rule: compact_loop.induct)
  case (1 e limit n s)
  then show ?case using evidence_none[of s e] by simp
next
  case (2 e limit k ks n s)
  show ?case
  proof (cases "n \<le> limit")
    case True
    then show ?thesis using 2 by simp
  next
    case False
    obtain i where i: "get_call s k = Some i" using 2(2) False by (auto split: option.splits)
    obtain n1 i1 where t1: "take_result e (n, i) = Inr (n1, i1)"
      using 2(2) False i by (auto split: sum.splits)
    have ti: "terminal_call i" by (rule 2(5)[OF _ i]) simp
    have c1: "compacts i i1" by (rule take_result_compacts[OF t1 ti])
    note e1 = take_result_evidence[OF t1 ti]
    show ?thesis
    proof (cases "n1 \<le> limit")
      case True
      then have "t = upd_call k (\<lambda>_. i1) s" using 2(2) False i t1 by simp
      then show ?thesis
        using evidence_upd_call[OF 2(3) i, of e i1] e1 True 2(4) by simp
    next
      case over: False
      obtain n2 i2 where t2: "take_late_result e (n1, i1) = Inr (n2, i2)"
        using 2(2) False i t1 over by (auto split: sum.splits)
      have ti1: "terminal_call i1" using compacts_terminal[OF c1] ti by simp
      note e2 = take_late_result_evidence[OF t2 ti1]
      have ti2: "terminal_call i2"
        using compacts_terminal[OF take_late_result_compacts[OF t2 ti1]] ti1 by simp
      let ?s = "upd_call k (\<lambda>_. i2) s"
      have n2: "n2 = evidence e ?s"
        using evidence_upd_call[OF 2(3) i, of e i2] e1 e2 2(4) by simp
      have in_ks: "terminal_call j" if "k' \<in> set ks" "get_call ?s k' = Some j" for k' j
        using that 2(5) ti2 by (auto split: if_splits)
      have spent: "i_result j = None \<and> i_late_result j = None"
        if "k' \<notin> set ks" "get_call ?s k' = Some j" "terminal_call j" for k' j
        using that 2(6) e1(3) e2(3,4) by (auto split: if_splits)
      show ?thesis
        by (rule "2.IH"[OF False i t1 refl over t2 refl])
          (use 2(2) False i t1 over t2 2(3) n2 in_ks spent in auto)
    qed
  qed
qed

lemma terminal_entries_cover:
  assumes "terminal_entries e s = Inr entries" "get_call s k = Some i" "terminal_call i"
  shows "k \<in> (\<lambda>(_, k, _). k) ` set entries"
proof -
  have "(k, i) \<in> set (filter (\<lambda>(k, i). terminal_call i) (invocations s))"
    using assms(2,3) by (auto dest: map_of_SomeD)
  then obtain x where "x \<in> set entries" "(\<lambda>(k, i). res_bind (body_bytes e (i_result i)) (\<lambda>r.
         res_bind (body_bytes e (i_late_result i)) (\<lambda>l.
           Inr (unwrap_or (i_started i) 0, k, r + l)))) (k, i) = Inr x"
    using map_res_image[OF assms(1)[unfolded terminal_entries_def]] by blast
  then show ?thesis by (force simp: res_simps)
qed

text \<open>Finished evidence is bounded. When compaction succeeds, the encoded
  result and late-result bodies that finished calls still keep in the document together fit the
  limit, however many calls there are; and every call that is queued, running or uncertain is
  exactly as it was.\<close>

theorem compact_terminal_payloads_bound:
  assumes "om_ok (invocations s)" and "compact_terminal_payloads e limit s = Inr t"
  shows "evidence e t \<le> limit \<and>
    (\<forall>k. case get_call s k of
       None \<Rightarrow> get_call t k = None
     | Some i \<Rightarrow> (\<exists>j. get_call t k = Some j \<and> compacts i j))"
proof -
  obtain entries where en: "terminal_entries e s = Inr entries"
    using assms(2) by (auto simp: compact_terminal_payloads_def res_simps)
  let ?ks = "map (\<lambda>(_, k, _). k) (sort_key (\<lambda>(started, k, _). (started, k)) entries)"
  have "set ?ks = (\<lambda>(_, k, _). k) ` set entries" by simp
  then have "evidence e t \<le> limit"
    using assms en terminal_entries_sum[OF en] terminal_entries_keys[OF en assms(1)]
      terminal_entries_cover[OF en] compact_loop_bound[of e limit ?ks _ s]
    by (auto simp: compact_terminal_payloads_def Let_def res_simps split: if_splits)
  moreover have "case get_call s k of None \<Rightarrow> get_call t k = None
     | Some i \<Rightarrow> (\<exists>j. get_call t k = Some j \<and> compacts i j)" for k
    using calls_compacted_call[OF compact_terminal_payloads_kept[OF assms(2,1)], of k]
    by (auto simp: option_rel_Some1 split: option.splits)
  ultimately show ?thesis by blast
qed

theorem compact_terminal_payloads_bound_witness:
  "let s = sample_document\<lparr>invocations := [(''i1'', (sample_call ''i1'' ''d1'' Completed)\<lparr>i_result := Some JNull\<rparr>)]\<rparr> in
   evidence sample_env s = 1 \<and>
   (\<exists>t. compact_terminal_payloads sample_env 0 s = Inr t \<and> evidence sample_env t \<le> 0)"
proof -
  let ?s = "sample_document\<lparr>invocations := [(''i1'', (sample_call ''i1'' ''d1'' Completed)\<lparr>i_result := Some JNull\<rparr>)]\<rparr>"
  have ok: "om_ok (invocations ?s)" by (simp add: om_ok_def)
  have "\<exists>t. compact_terminal_payloads sample_env 0 ?s = Inr t"
    by (simp add: compact_terminal_payloads_def terminal_entries_def terminal_call_def sample_call_def
        body_bytes_def serialized_bytes_def Let_def take_result_def take_late_result_def)
  then obtain t where t: "compact_terminal_payloads sample_env 0 ?s = Inr t" by blast
  have "evidence sample_env t \<le> 0"
    using compact_terminal_payloads_bound[OF ok t] by simp
  then show ?thesis
    using t by (simp add: Let_def evidence_def call_evidence_def terminal_call_def sample_call_def
        body_length_def)
qed

lemma sample_retention:
  assumes "invocations s = invocations sample_document" "length (demands s) \<le> 10"
  shows "\<exists>t. retention sample_env sample_limits s = Inr t"
  using assms
  by (simp add: retention_def compact_terminal_requests_def sample_document_def terminal_call_def
      sample_call_def compact_terminal_payloads_def terminal_entries_def waiting_def
      om_vals_def active_payload_commitment_def request_bytes_def response_storage_commitment_def
      response_storage_bound_def active_payload_capacity_def sample_limits_def sat_add_def sat_mul_def
      u64_max_def COMPLETION_HEADROOM_BYTES_def API_REQUEST_BODY_BYTES_def sample_request_def)

end
