(* ===== verification/Reservation.thy ===== *)
theory Reservation
  imports Capacity
begin

text \<open>
  \<open>reservation.rs\<close>: one public reservation groups several demands under the demand of its first
  service, the root. \<open>members\<close> lists the group, \<open>select\<close> finds the member that serves a tag,
  and \<open>commit_ready\<close> publishes a group only as a whole.
\<close>

definition root :: "document \<Rightarrow> demand \<Rightarrow> demand res" where
  "root s d = (case d_reservation_id d of Some k \<Rightarrow> owned s (d_owner d) k | None \<Rightarrow> Inr d)"

definition members :: "document \<Rightarrow> demand \<Rightarrow> string list res" where
  "members s d =
     res_bind (root s d) (\<lambda>parent.
       Inr (if d_services parent = [] then [d_id parent] else om_vals (d_services parent)))"

definition ready :: "nat \<Rightarrow> document \<Rightarrow> demand \<Rightarrow> bool" where
  "ready t s d \<longleftrightarrow> d_state d = Ready \<and> active t d \<and> owns s d"

definition select :: "document \<Rightarrow> string \<Rightarrow> string \<Rightarrow> string \<Rightarrow> demand res" where
  "select s owner k tag =
     res_bind (owned s owner k) (\<lambda>parent.
     if is_some_and (d_reservation_id parent) (\<lambda>r. r \<noteq> k) then Inl ''reservation_id_required''
     else if d_services parent = [] then
       (if p_tag (d_profile parent) = tag then Inr parent else Inl ''service_not_reserved'')
     else
       res_bind (ok_or (map_of (d_services parent) tag) ''service_not_reserved'')
         (\<lambda>m. owned s owner m))"

definition prepared_member :: "nat \<Rightarrow> document \<Rightarrow> string \<Rightarrow> bool" where
  "prepared_member t s k =
     is_some_and (get_demand s k) (\<lambda>m.
       d_state m = Preparing \<and> d_ready_checked m \<and> d_process m \<noteq> None \<and> active t m \<and> owns s m)"

definition publish_member :: "string \<Rightarrow> document \<Rightarrow> document res" where
  "publish_member k s =
     (case get_demand s k of
        None \<Rightarrow> Inl ''missing_reservation_member''
      | Some m \<Rightarrow>
          Inr (if d_state m = Preparing \<and> d_ready_checked m
               then upd_demand k (\<lambda>m. m\<lparr>d_state := Ready\<rparr>) s else s))"

definition atomic_group :: "demand \<Rightarrow> bool" where
  "atomic_group rt = is_some_and (d_reserve_request rt) (\<lambda>r. length (r_services r) > 1)"

definition commit_ready :: "nat \<Rightarrow> demand \<Rightarrow> document \<Rightarrow> document res" where
  "commit_ready t d s =
     res_bind (root s d) (\<lambda>rt.
     res_bind (members s rt) (\<lambda>ids.
       if atomic_group rt \<and> \<not> (\<forall>k \<in> set ids. prepared_member t s k) then Inr s
       else fold_res publish_member ids s))"

section \<open>Lemmas\<close>

lemma publish_member_kept:
  assumes "publish_member k s = Inr t" "doc_inv s"
  shows "claims_kept s t"
proof -
  obtain m where m: "get_demand s k = Some m"
    using assms(1) by (auto simp: publish_member_def split: option.splits)
  have "demand_step s m (m\<lparr>d_state := Ready\<rparr>)"
    if "d_state m = Preparing" "d_ready_checked m"
    using that m assms(2) by (auto simp: demand_step_def live_ok_def doc_inv_def)
  then show ?thesis
    using assms m demands_kept_claims_kept[OF assms(2) demands_kept_refl]
    by (auto simp: publish_member_def intro!: claims_kept_upd_demand split: if_splits)
qed

lemma publish_members_inv:
  "fold_res publish_member ids s = Inr t \<Longrightarrow> doc_inv s \<Longrightarrow> doc_inv t"
  by (rule fold_res_invariant[where I = doc_inv])
    (auto dest: publish_member_kept claims_kept_doc_inv)

lemma commit_ready_inv: "commit_ready t d s = Inr s' \<Longrightarrow> doc_inv s \<Longrightarrow> doc_inv s'"
  by (auto simp: commit_ready_def res_simps split: if_splits dest: publish_members_inv)

lemma publish_member_get:
  assumes "publish_member k s = Inr t"
  shows "get_demand t k' =
    (if k' = k then map_option (\<lambda>m. if d_state m = Preparing \<and> d_ready_checked m
                                    then m\<lparr>d_state := Ready\<rparr> else m) (get_demand s k)
     else get_demand s k')" "claims t = claims s" "invocations t = invocations s"
  using assms by (auto simp: publish_member_def split: option.splits if_splits)

text \<open>A demand after publication is as it was, or went from \<open>Preparing\<close> to \<open>Ready\<close>.\<close>

lemma publish_members_get:
  assumes "fold_res publish_member ids s = Inr t"
  shows "claims t = claims s \<and> (\<forall>k. get_demand t k =
    (if k \<in> set ids then map_option (\<lambda>m. if d_state m = Preparing \<and> d_ready_checked m
                                    then m\<lparr>d_state := Ready\<rparr> else m) (get_demand s k)
     else get_demand s k))"
  using assms
proof (induction ids arbitrary: s)
  case Nil
  then show ?case by simp
next
  case (Cons k ks)
  then obtain u where u: "publish_member k s = Inr u" "fold_res publish_member ks u = Inr t"
    by (auto split: sum.splits)
  show ?case
    using Cons.IH[OF u(2)] publish_member_get[OF u(1)]
    by (auto simp: option.map_comp fun_eq_iff split: if_splits intro!: map_option_cong)
qed

text \<open>C7: a group becomes usable all at once or not at all. A successful
  \<open>commit_ready\<close> of a reservation of several services either changes nothing, or finds every
  member prepared (started, checked, active, owner of all its devices) and leaves every
  member \<open>Ready\<close>; no demand outside the group changes and no claim moves.\<close>

theorem commit_ready_all_or_nothing:
  assumes "commit_ready t d s = Inr s'" and "root s d = Inr rt" and "members s rt = Inr ids"
    and "atomic_group rt"
  shows "s' = s \<or>
    ((\<forall>k \<in> set ids. \<exists>m m'. get_demand s k = Some m \<and> prepared_member t s k \<and>
        get_demand s' k = Some m' \<and> m' = m\<lparr>d_state := Ready\<rparr> \<and> ready t s' m') \<and>
     (\<forall>k. k \<notin> set ids \<longrightarrow> get_demand s' k = get_demand s k) \<and> claims s' = claims s)"
proof (cases "\<forall>k \<in> set ids. prepared_member t s k")
  case False
  then show ?thesis using assms by (simp add: commit_ready_def)
next
  case True
  then have "fold_res publish_member ids s = Inr s'" using assms by (simp add: commit_ready_def)
  then have cl: "claims s' = claims s" and g: "\<And>k. get_demand s' k =
    (if k \<in> set ids then map_option (\<lambda>m. if d_state m = Preparing \<and> d_ready_checked m
                                    then m\<lparr>d_state := Ready\<rparr> else m) (get_demand s k)
     else get_demand s k)"
    using publish_members_get by auto
  have "\<exists>m m'. get_demand s k = Some m \<and> prepared_member t s k \<and>
        get_demand s' k = Some m' \<and> m' = m\<lparr>d_state := Ready\<rparr> \<and> ready t s' m'"
    if k: "k \<in> set ids" for k
  proof -
    have p: "prepared_member t s k" using True k by blast
    then obtain m where m: "get_demand s k = Some m" "d_state m = Preparing" "d_ready_checked m"
        "active t m" "owns s m"
      by (auto simp: prepared_member_def is_some_and_iff)
    have "ready t s' (m\<lparr>d_state := Ready\<rparr>)"
      using m(4,5) by (simp add: ready_def active_def owns_def cl)
    then show ?thesis using m p g[of k] k by simp
  qed
  then show ?thesis using cl g by simp
qed

theorem commit_ready_all_or_nothing_witness:
  "\<exists>s' rt m'. root sample_group (sample_member ''m1'' Preparing (sample_profile ''coder'' [''gpu0''])) = Inr rt \<and>
     commit_ready 100 (sample_member ''m1'' Preparing (sample_profile ''coder'' [''gpu0''])) sample_group = Inr s' \<and>
     get_demand s' ''m2'' = Some m' \<and> ready 100 s' m'"
proof -
  let ?d = "sample_member ''m1'' Preparing (sample_profile ''coder'' [''gpu0''])"
  have rt: "root sample_group ?d = Inr ?d"
    by (simp add: root_def owned_def sample_group_def sample_member_def sample_demand_def)
  have ms: "members sample_group ?d = Inr [''m1'', ''m2'']"
    using rt by (simp add: members_def) (simp add: sample_member_def om_vals_def)
  have at: "atomic_group ?d" by (simp add: atomic_group_def sample_member_def sample_reserve_def)
  have "\<exists>s'. commit_ready 100 ?d sample_group = Inr s' \<and> s' \<noteq> sample_group"
    by (simp add: commit_ready_def rt ms at)
      (simp add: prepared_member_def publish_member_def upd_demand_def om_upd_def sample_group_def
        sample_document_def sample_member_def sample_demand_def active_def owns_def sample_profile_def)
  then obtain s' where s': "commit_ready 100 ?d sample_group = Inr s'" "s' \<noteq> sample_group" by blast
  have "\<forall>k \<in> set [''m1'', ''m2'']. \<exists>m'. get_demand s' k = Some m' \<and> ready 100 s' m'"
    using commit_ready_all_or_nothing[OF s'(1) rt ms at] s'(2) by blast
  then show ?thesis using rt s'(1) by auto
qed

end
