(* ===== verification/Request_Body.thy ===== *)
theory Request_Body
  imports Images Text Samples Capacity Reservation
begin

text \<open>
  \<open>protocol.rs\<close>, \<open>protocol/messages.rs\<close>, \<open>protocol/sampling.rs\<close>,
  \<open>protocol/template.rs\<close> and \<open>speech.rs\<close>: what a request body must be before the
  runtime takes it, and what the backend's answer must be before it counts as one. The decoder of
  the \<open>base64\<close> crate is the argument \<open>b64\<close>, the parser of \<open>serde_json\<close> the argument
  \<open>parse\<close>.
\<close>

section \<open>Values\<close>

definition json_is_string :: "json \<Rightarrow> bool" where
  "json_is_string v = (case v of JString _ \<Rightarrow> True | _ \<Rightarrow> False)"

definition json_as_bool :: "json \<Rightarrow> bool option" where
  "json_as_bool v = (case v of JBool b \<Rightarrow> Some b | _ \<Rightarrow> None)"

definition json_as_object :: "json \<Rightarrow> (string \<times> json) list option" where
  "json_as_object v = (case v of JObject m \<Rightarrow> Some m | _ \<Rightarrow> None)"

definition get_str :: "json \<Rightarrow> string \<Rightarrow> string option" where
  "get_str v k = Option.bind (json_get v k) json_as_str"

definition get_array :: "json \<Rightarrow> string \<Rightarrow> json list option" where
  "get_array v k = Option.bind (json_get v k) json_as_array"

text \<open>\<open>serde\<close>'s derived reading of a struct without unknown fields whose fields are all required:
  an object with exactly these keys, or an array of exactly these values.\<close>

definition struct_fields :: "string list \<Rightarrow> json \<Rightarrow> json list option" where
  "struct_fields names v =
     (case v of
        JObject m \<Rightarrow>
          if set (map fst m) = set names then Some (map (\<lambda>n. the (map_of m n)) names) else None
      | JArray xs \<Rightarrow> if length xs = length names then Some xs else None
      | _ \<Rightarrow> None)"

text \<open>\<open>as_f64\<close> between 0 and 1, both included. A \<open>u64\<close> is at most 1, a negative integer is
  not, and of the finite floating point numbers those whose bits are at most the bits of 1.0, or
  the bits of the negative zero.\<close>

definition json_unit_interval :: "json \<Rightarrow> bool" where
  "json_unit_interval v =
     (case v of
        JPosInt n \<Rightarrow> n \<le> 1
      | JFloat w \<Rightarrow> w \<le> 0x3FF0000000000000 \<or> w = 0x8000000000000000
      | _ \<Rightarrow> False)"

section \<open>Tool messages\<close>

definition tool_call_id :: "json \<Rightarrow> string option" where
  "tool_call_id call =
     (case struct_fields [''id'', ''type'', ''function''] call of
        Some [JString k, JString kind, f] \<Rightarrow>
          (case struct_fields [''name'', ''arguments''] f of
             Some [JString name, JString arguments] \<Rightarrow>
               if kind \<noteq> ''function'' \<or> trim k = [] \<or> trim name = [] then None else Some k
           | _ \<Rightarrow> None)
      | _ \<Rightarrow> None)"

fun tool_calls_ok :: "string set \<Rightarrow> json list \<Rightarrow> bool" where
  "tool_calls_ok ids [] = True"
| "tool_calls_ok ids (call # calls) =
     (case tool_call_id call of
        None \<Rightarrow> False
      | Some k \<Rightarrow> k \<notin> ids \<and> tool_calls_ok (insert k ids) calls)"

definition validate_message :: "json \<Rightarrow> bool res" where
  "validate_message m =
     (if get_str m ''role'' = Some ''tool'' \<and>
         is_none_or (get_str m ''tool_call_id'') (\<lambda>k. trim k = [])
      then Inl ''invalid_protocol_tool_message''
      else
        (case json_get m ''tool_calls'' of
           None \<Rightarrow> Inr False
         | Some JNull \<Rightarrow> Inr False
         | Some calls \<Rightarrow>
             if get_str m ''role'' \<noteq> Some ''assistant'' then Inl ''invalid_protocol_tool_calls''
             else
               res_bind (ok_or (json_as_array calls) ''invalid_protocol_tool_calls'') (\<lambda>calls.
                 if tool_calls_ok {} calls then Inr (calls \<noteq> [])
                 else Inl ''invalid_protocol_tool_calls'')))"

definition text_message :: "json \<Rightarrow> bool" where
  "text_message m \<longleftrightarrow>
     (case m of JObject _ \<Rightarrow> True | _ \<Rightarrow> False) \<and>
     is_some_and (json_get m ''role'') json_is_string \<and>
     (case validate_message m of
        Inl _ \<Rightarrow> False
      | Inr tool_calls \<Rightarrow>
          is_some_and (json_get m ''content'') json_is_string \<or>
          (tool_calls \<and> is_none_or (json_get m ''content'') (\<lambda>c. c = JNull)))"

section \<open>Options of the sampler and of the chat template\<close>

definition i32_max :: nat where
  "i32_max = 2147483647"

definition validate_sampling :: "protocol_payload \<Rightarrow> backend \<Rightarrow> unit res" where
  "validate_sampling p b =
     (let body = pp_body p in
      if json_get body ''top_k'' = None \<and> json_get body ''min_p'' = None then Inr ()
      else if pp_protocol p \<noteq> ChatCompletions \<or> b \<notin> {LlamaCpp, Strata}
      then Inl ''sampler_options_unqualified''
      else if is_some_and (json_get body ''top_k'') (\<lambda>v. is_none_or (json_as_u64 v) (\<lambda>n. n > i32_max)) \<or>
              is_some_and (json_get body ''min_p'') (\<lambda>v. \<not> json_unit_interval v)
      then Inl ''invalid_sampler_options''
      else Inr ())"

text \<open>A reasoning effort is a variant's name, or an object with that one key and no value.\<close>

definition reasoning_effort :: "json \<Rightarrow> bool" where
  "reasoning_effort v =
     (case v of
        JString s \<Rightarrow> s \<in> {''none'', ''low'', ''medium'', ''high''}
      | JObject [(s, JNull)] \<Rightarrow> s \<in> {''none'', ''low'', ''medium'', ''high''}
      | _ \<Rightarrow> False)"

text \<open>The two optional fields, each with whether it is present, if the value has their shape.\<close>

definition template_options :: "json \<Rightarrow> (bool \<times> bool) option" where
  "template_options v =
     (let both = (\<lambda>thinking effort.
            if is_none_or thinking (\<lambda>x. json_as_bool x \<noteq> None) \<and> is_none_or effort reasoning_effort
            then Some (thinking \<noteq> None, effort \<noteq> None) else None) in
      case v of
        JObject m \<Rightarrow>
          if set (map fst m) \<subseteq> {''enable_thinking'', ''reasoning_effort''}
          then both (map_of m ''enable_thinking'') (map_of m ''reasoning_effort'') else None
      | JArray [] \<Rightarrow> both None None
      | JArray [x] \<Rightarrow> both (Some x) None
      | JArray [x, y] \<Rightarrow> both (Some x) (Some y)
      | _ \<Rightarrow> None)"

definition validate_template :: "protocol_payload \<Rightarrow> backend \<Rightarrow> unit res" where
  "validate_template p b =
     (case json_get (pp_body p) ''chat_template_kwargs'' of
        None \<Rightarrow> Inr ()
      | Some options \<Rightarrow>
          if pp_protocol p \<noteq> ChatCompletions \<or> b \<notin> {LlamaCpp, Strata}
          then Inl ''chat_template_kwargs_unqualified''
          else
            res_bind (ok_or (template_options options) ''invalid_chat_template_kwargs'')
              (\<lambda>(thinking, effort).
                if \<not> thinking \<and> \<not> effort then Inl ''invalid_chat_template_kwargs''
                else if b = Strata \<and> effort then Inl ''chat_template_kwargs_unqualified''
                else Inr ()))"

section \<open>Images\<close>

definition effective_image_mime_types :: "profile \<Rightarrow> image_mime list" where
  "effective_image_mime_types p = unwrap_or (p_image_mime_types p) [Png, Jpeg, Webp, Gif, Bmp]"

definition base64_upper_bound :: "string \<Rightarrow> nat" where
  "base64_upper_bound s =
     ((length s + 3) div 4) * 3 - min (length (takeWhile (\<lambda>c. c = CHR ''='') (rev s))) 2"

definition declared_image_format :: "string \<Rightarrow> image_mime option" where
  "declared_image_format m =
     (if m = ''image/png'' then Some Png
      else if m = ''image/jpeg'' then Some Jpeg
      else if m = ''image/webp'' then Some Webp
      else if m = ''image/gif'' then Some Gif
      else if m = ''image/bmp'' then Some Bmp
      else None)"

text \<open>The check of one image, after the count: the data URL, the declared and the actual format,
  and the two sizes.\<close>

definition image_data :: "(string \<Rightarrow> bytes option) \<Rightarrow> profile \<Rightarrow> string \<Rightarrow> unit res" where
  "image_data b64 p url =
     (case strip_prefix ''data:'' url of
        None \<Rightarrow> Inl ''image_url_unqualified''
      | Some data \<Rightarrow>
     (case split_once (CHR '','') data of
        None \<Rightarrow> Inl ''invalid_image_payload''
      | Some (metadata, encoded) \<Rightarrow>
     (case strip_suffix '';base64'' metadata of
        None \<Rightarrow> Inl ''invalid_image_payload''
      | Some mime \<Rightarrow>
     (case declared_image_format mime of
        None \<Rightarrow> Inl ''unsupported_image_type''
      | Some declared \<Rightarrow>
          if declared \<notin> set (effective_image_mime_types p) then Inl ''unsupported_image_type''
          else if base64_upper_bound encoded > p_max_image_bytes p then Inl ''image_bytes_exceeded''
          else
            res_bind (ok_or (b64 encoded) ''invalid_image_payload'') (\<lambda>b.
            if b = [] then Inl ''invalid_image_payload''
            else if length b > p_max_image_bytes p then Inl ''image_bytes_exceeded''
            else
              res_bind (ok_or (detected_image_format b) ''invalid_image_payload'') (\<lambda>actual.
              if actual \<notin> set (effective_image_mime_types p) then Inl ''unsupported_image_type''
              else if actual \<noteq> declared then Inl ''image_format_mismatch''
              else
                res_bind (image_pixels b actual) (\<lambda>pixels.
                if pixels = 0 \<or> unat pixels > p_max_image_pixels p
                then Inl ''image_pixels_exceeded''
                else Inr ())))))))"

text \<open>The count is the state of the walk over the parts.\<close>

definition validate_image_url ::
  "(string \<Rightarrow> bytes option) \<Rightarrow> profile \<Rightarrow> string \<Rightarrow> nat \<Rightarrow> nat res" where
  "validate_image_url b64 p url count =
     (if Visual \<notin> set (p_capabilities p) \<or> p_max_images_per_request p = 0 \<or>
         p_max_image_bytes p = 0 \<or> p_max_image_pixels p = 0
      then Inl ''image_input_unqualified''
      else if count + 1 > p_max_images_per_request p then Inl ''image_count_exceeded''
      else res_bind (image_data b64 p url) (\<lambda>_. Inr (count + 1)))"

definition image_url_of :: "json \<Rightarrow> string option" where
  "image_url_of part =
     Option.bind (json_get part ''image_url'') (\<lambda>image.
       opt_or (get_str image ''url'') (json_as_str image))"

definition validate_content_part ::
  "(string \<Rightarrow> bytes option) \<Rightarrow> protocol \<Rightarrow> profile \<Rightarrow> json \<Rightarrow> nat \<Rightarrow> nat res" where
  "validate_content_part b64 pr p part count =
     (case get_str part ''type'' of
        None \<Rightarrow> Inl ''non_text_input_unqualified''
      | Some t \<Rightarrow>
          if t \<in> {''text'', ''input_text'', ''output_text''} then
            (if get_str part ''text'' = None then Inl ''invalid_protocol_content'' else Inr count)
          else if t = ''image_url'' \<and> pr = ChatCompletions then
            res_bind (ok_or (image_url_of part) ''invalid_image_payload'') (\<lambda>url.
              validate_image_url b64 p url count)
          else if t \<in> {''image_url'', ''input_image''} then Inl ''image_input_unqualified''
          else Inl ''non_text_input_unqualified'')"

definition validate_content_message ::
  "(string \<Rightarrow> bytes option) \<Rightarrow> protocol \<Rightarrow> profile \<Rightarrow> json \<Rightarrow> nat \<Rightarrow> nat res" where
  "validate_content_message b64 pr p m count =
     res_bind (validate_message m) (\<lambda>tool_calls.
       case get_array m ''content'' of
         Some parts \<Rightarrow> fold_res (validate_content_part b64 pr p) parts count
       | None \<Rightarrow>
           if is_some_and (json_get m ''content'')
                (\<lambda>c. \<not> json_is_string c \<and> \<not> (tool_calls \<and> c = JNull))
           then Inl ''invalid_protocol_content'' else Inr count)"

text \<open>The messages of a body, in the order of the walk.\<close>

definition body_messages :: "json \<Rightarrow> json list" where
  "body_messages body = unwrap_or (get_array body ''messages'') [] @ unwrap_or (get_array body ''input'') []"

definition validate_content ::
  "(string \<Rightarrow> bytes option) \<Rightarrow> json \<Rightarrow> protocol \<Rightarrow> profile \<Rightarrow> unit res" where
  "validate_content b64 body pr p =
     (if is_some_and (get_array body ''tools'')
          (\<lambda>tools. \<exists>tool \<in> set tools. get_str tool ''type'' \<noteq> Some ''function'')
      then Inl ''hosted_tools_unqualified''
      else res_bind (fold_res (validate_content_message b64 pr p) (body_messages body) 0) (\<lambda>_. Inr ()))"

section \<open>Speech\<close>

definition MAX_WAV_BYTES :: nat where "MAX_WAV_BYTES = 2880044"
definition MAX_TEXT_BYTES :: nat where "MAX_TEXT_BYTES = 4096"
definition MAX_TEXT_CHARS :: nat where "MAX_TEXT_CHARS = 1000"
definition MAX_SECONDS :: nat where "MAX_SECONDS = 60"
definition RETAINED_AUDIO_BYTES :: nat where "RETAINED_AUDIO_BYTES = 256 * 1024 * 1024"

definition speech_request :: "json \<Rightarrow> (string \<times> string) option" where
  "speech_request v =
     (case struct_fields [''text'', ''voice''] v of
        Some [JString t, JString voice] \<Rightarrow> Some (t, voice)
      | _ \<Rightarrow> None)"

definition validate_speech :: "protocol_payload \<Rightarrow> demand \<Rightarrow> nat res" where
  "validate_speech p d =
     res_bind (ok_or (speech_request (pp_body p)) ''invalid_speech_request'') (\<lambda>(t, voice).
     if p_backend (d_profile d) \<noteq> Chatterbox \<or> Speech \<notin> set (p_protocols (d_profile d))
     then Inl ''speech_unqualified''
     else if \<not> valid_id voice \<or> contains_text ''..'' voice then Inl ''invalid_voice_id''
     else if trim t = [] \<or> length t > MAX_TEXT_BYTES \<or> char_count t > MAX_TEXT_CHARS \<or>
             char_of (0 :: nat) \<in> set t
     then Inl ''speech_text_bounds''
     else Inr 1)"

definition speech_profile :: "profile \<Rightarrow> unit res" where
  "speech_profile p =
     (if p_backend p \<noteq> Chatterbox
      then (if Speech \<in> set (p_protocols p) then Inl ''speech_backend_required'' else Inr ())
      else if p_capabilities p \<noteq> [Audio] \<or> p_protocols p \<noteq> [Speech] \<or> p_streaming p \<or>
              p_resources p \<noteq> [''gpu-2060''] \<or> p_inference_seconds p > MAX_SECONDS \<or>
              p_artifact p = None \<or> is_none_or (p_artifact_sha256 p) (\<lambda>h. length h \<noteq> 64)
      then Inl ''invalid_chatterbox_profile''
      else Inr ())"

definition pending_speech :: "invocation \<Rightarrow> bool" where
  "pending_speech i \<longleftrightarrow>
     is_some_and (q_payload (i_request i)) (\<lambda>p. pp_protocol p = Speech) \<and>
     i_state i \<in> {Queued, Running, Uncertain}"

definition speech_admit :: "document \<Rightarrow> demand \<Rightarrow> inference \<Rightarrow> unit res" where
  "speech_admit s d q =
     (if length (filter pending_speech (om_vals (invocations s))) * MAX_WAV_BYTES + MAX_WAV_BYTES
           > RETAINED_AUDIO_BYTES
      then Inl ''capacity_speech_retention''
      else if d_state d \<noteq> Ready \<or> \<not> owns s d then Inl ''reservation_not_dispatchable''
      else
        res_bind (ok_or (q_payload q) ''use_speech_interface'') (\<lambda>p.
        if pp_protocol p \<noteq> Speech then Inl ''use_speech_interface''
        else
          res_bind (validate_speech p d) (\<lambda>_.
          ensure (\<not> (\<exists>i \<in> set (om_vals (invocations s)).
              q_reservation_id (i_request i) = d_id d \<and> i_state i \<in> {Queued, Running, Uncertain}))
            ''capacity_speech_active'')))"

section \<open>The whole body\<close>

definition allowed_fields :: "protocol \<Rightarrow> string list" where
  "allowed_fields pr =
     (case pr of
        ChatCompletions \<Rightarrow>
          [''model'', ''messages'', ''stream'', ''max_tokens'', ''max_completion_tokens'',
           ''temperature'', ''top_p'', ''top_k'', ''min_p'', ''tools'', ''tool_choice'',
           ''response_format'', ''chat_template_kwargs'', ''parallel_tool_calls'',
           ''reasoning_effort'', ''stream_options'', ''stop'', ''seed'', ''frequency_penalty'',
           ''presence_penalty'']
      | Speech \<Rightarrow> []
      | Responses \<Rightarrow>
          [''model'', ''input'', ''instructions'', ''max_output_tokens'', ''temperature'',
           ''top_p'', ''tools'', ''tool_choice'', ''parallel_tool_calls'', ''reasoning'',
           ''text'', ''stream'', ''store''])"

definition output_bound :: "protocol \<Rightarrow> json \<Rightarrow> nat res" where
  "output_bound pr body =
     res_bind (case pr of
         ChatCompletions \<Rightarrow> Inr ''max_tokens''
       | Responses \<Rightarrow> Inr ''max_output_tokens''
       | Speech \<Rightarrow> Inl ''use_speech_interface'') (\<lambda>field.
     res_bind (ok_or (Option.bind (opt_or (json_get body field) (json_get body ''max_completion_tokens''))
         json_as_u64) ''explicit_output_bound_required'') (\<lambda>tokens.
       if tokens < 2 ^ 32 then Inr tokens else Inl ''invalid_output_bound''))"

definition validate_payload ::
  "(string \<Rightarrow> bytes option) \<Rightarrow> protocol_payload \<Rightarrow> demand \<Rightarrow> nat res" where
  "validate_payload b64 p d =
     (if pp_protocol p = Speech then validate_speech p d
      else if p_backend (d_profile d) = Chatterbox then Inl ''use_speech_interface''
      else
        res_bind (ok_or (json_as_object (pp_body p)) ''invalid_protocol_body'') (\<lambda>body.
        res_bind (validate_template p (p_backend (d_profile d))) (\<lambda>_.
        res_bind (validate_sampling p (p_backend (d_profile d))) (\<lambda>_.
        if (\<exists>k \<in> set (map fst body). k \<notin> set (allowed_fields (pp_protocol p))) \<or>
           pp_protocol p \<notin> set (p_protocols (d_profile d)) \<or>
           get_str (pp_body p) ''model'' \<noteq> Some (p_model (d_profile d)) \<or>
           is_some_and (map_of body ''store'') (\<lambda>v. v \<noteq> JBool False) \<or>
           (Option.bind (map_of body ''stream'') json_as_bool = Some True \<and> \<not> p_streaming (d_profile d))
        then Inl ''protocol_or_model_unqualified''
        else
          res_bind (validate_content b64 (pp_body p) (pp_protocol p) (d_profile d)) (\<lambda>_.
          if map_of body ''max_tokens'' \<noteq> None \<and> map_of body ''max_completion_tokens'' \<noteq> None
          then Inl ''ambiguous_output_bound''
          else output_bound (pp_protocol p) (pp_body p))))))"

section \<open>The backend's answer\<close>

definition observed_limit :: "json \<Rightarrow> protocol_payload \<Rightarrow> unit res" where
  "observed_limit v p =
     (let bound = (\<lambda>k. Option.bind (json_get (pp_body p) k) json_as_u64) in
      res_bind (ok_or (opt_or (bound ''max_tokens'')
          (opt_or (bound ''max_completion_tokens'') (bound ''max_output_tokens'')))
        ''missing_output_limit'') (\<lambda>limit.
      case json_get v ''usage'' of
        None \<Rightarrow> Inr ()
      | Some usage \<Rightarrow>
          if is_some_and (Option.bind (opt_or (json_get usage ''completion_tokens'')
               (json_get usage ''output_tokens'')) json_as_u64) (\<lambda>tokens. tokens > limit)
          then Inl ''backend_output_limit_exceeded'' else Inr ()))"

definition wrapped_answer :: "string \<Rightarrow> string \<Rightarrow> json" where
  "wrapped_answer kind body =
     JObject [(''rack_protocol_response'',
       JObject [(''content_type'', JString kind), (''body'', JString body)])]"

definition stream_event :: "(string \<Rightarrow> json res) \<Rightarrow> protocol_payload \<Rightarrow> string \<Rightarrow> bool \<Rightarrow> bool res" where
  "stream_event parse p data seen =
     (if data = ''[DONE]'' then Inr seen
      else
        res_bind (case parse data of Inl _ \<Rightarrow> Inl ''invalid_stream_event'' | Inr v \<Rightarrow> Inr v) (\<lambda>event.
        let v = unwrap_or (json_get event ''response'') event in
        if json_get v ''model'' \<noteq> None \<and> json_get v ''model'' \<noteq> json_get (pp_body p) ''model''
        then Inl ''response_model_mismatch''
        else res_bind (observed_limit v p) (\<lambda>_. Inr (seen \<or> json_get v ''model'' \<noteq> None))))"

definition stream_finished :: "protocol \<Rightarrow> string \<Rightarrow> bool res" where
  "stream_finished pr body =
     (case pr of
        ChatCompletions \<Rightarrow> Inr (\<exists>l \<in> set (text_lines body). trim l = ''data: [DONE]'')
      | Speech \<Rightarrow> Inl ''use_speech_interface''
      | Responses \<Rightarrow> Inr (\<exists>l \<in> set (text_lines body). trim l = ''event: response.completed''))"

definition answer_complete :: "protocol \<Rightarrow> json \<Rightarrow> bool res" where
  "answer_complete pr v =
     (case pr of
        ChatCompletions \<Rightarrow> Inr (is_some_and (get_array v ''choices'') (\<lambda>xs. xs \<noteq> []))
      | Speech \<Rightarrow> Inl ''use_speech_interface''
      | Responses \<Rightarrow>
          Inr (get_str v ''status'' = Some ''completed'' \<and> get_array v ''output'' \<noteq> None))"

definition raw_result ::
  "(string \<Rightarrow> json res) \<Rightarrow> string \<Rightarrow> protocol_payload \<Rightarrow> json res" where
  "raw_result parse body p =
     (if Option.bind (json_get (pp_body p) ''stream'') json_as_bool = Some True then
        res_bind (stream_finished (pp_protocol p) body) (\<lambda>finished.
        if \<not> finished then Inl ''stream_completion_uncertain''
        else
          res_bind (fold_res (stream_event parse p)
              (List.map_filter (strip_prefix ''data: '') (text_lines body)) False) (\<lambda>seen.
          if \<not> seen then Inl ''stream_model_unproven''
          else Inr (wrapped_answer ''text/event-stream'' body)))
      else
        res_bind (case parse body of Inl _ \<Rightarrow> Inl ''invalid_backend_json'' | Inr v \<Rightarrow> Inr v) (\<lambda>v.
        res_bind (answer_complete (pp_protocol p) v) (\<lambda>complete.
        res_bind (observed_limit v p) (\<lambda>_.
        if \<not> complete \<or> json_get v ''model'' \<noteq> json_get (pp_body p) ''model''
        then Inl ''response_model_mismatch''
        else Inr (wrapped_answer ''application/json'' body)))))"

section \<open>What an accepted body holds\<close>

definition message_parts :: "json \<Rightarrow> json list" where
  "message_parts m = unwrap_or (get_array m ''content'') []"

definition content_parts :: "json \<Rightarrow> json list" where
  "content_parts body = concat (map message_parts (body_messages body))"

definition image_part :: "json \<Rightarrow> bool" where
  "image_part part \<longleftrightarrow> get_str part ''type'' = Some ''image_url''"

definition text_part :: "json \<Rightarrow> bool" where
  "text_part part \<longleftrightarrow>
     get_str part ''type'' \<in> {Some ''text'', Some ''input_text'', Some ''output_text''} \<and>
     get_str part ''text'' \<noteq> None"

text \<open>An image as the profile allows it: a base64 data URL that declares the format its bytes
  have, an allowed one, within the limits on bytes and pixels.\<close>

definition image_within :: "(string \<Rightarrow> bytes option) \<Rightarrow> profile \<Rightarrow> json \<Rightarrow> bool" where
  "image_within b64 p part \<longleftrightarrow>
     (\<exists>mime encoded b format pixels.
        image_url_of part = Some (''data:'' @ mime @ '';base64,'' @ encoded) \<and>
        declared_image_format mime = Some format \<and> b64 encoded = Some b \<and>
        detected_image_format b = Some format \<and> format \<in> set (effective_image_mime_types p) \<and>
        b \<noteq> [] \<and> length b \<le> p_max_image_bytes p \<and> image_pixels b format = Inr pixels \<and>
        0 < unat pixels \<and> unat pixels \<le> p_max_image_pixels p)"

lemma strip_suffix_Some: "strip_suffix p s = Some r \<longleftrightarrow> s = r @ p"
proof
  assume "strip_suffix p s = Some r"
  then have "rev s = rev p @ rev r" by (auto simp: strip_suffix_def strip_prefix_Some)
  then have "rev (rev s) = rev (rev p @ rev r)" by (rule arg_cong)
  then show "s = r @ p" by simp
next
  assume "s = r @ p"
  then have "strip_prefix (rev p) (rev s) = Some (rev r)" by (simp add: strip_prefix_Some)
  then show "strip_suffix p s = Some r" by (simp add: strip_suffix_def)
qed

lemma image_data_within:
  assumes "image_data b64 p url = Inr u" and "image_url_of part = Some url"
  shows "image_within b64 p part"
proof -
  obtain data where d: "strip_prefix ''data:'' url = Some data"
    using assms(1) by (auto simp: image_data_def split: option.splits)
  note a = assms(1)[unfolded image_data_def d option.case]
  obtain metadata encoded where m: "split_once (CHR '','') data = Some (metadata, encoded)"
    using a by (cases "split_once (CHR '','') data") auto
  note a = a[unfolded m option.case prod.case]
  obtain mime where i: "strip_suffix '';base64'' metadata = Some mime"
    using a by (cases "strip_suffix '';base64'' metadata") auto
  note a = a[unfolded i option.case]
  obtain declared where f: "declared_image_format mime = Some declared"
    using a by (cases "declared_image_format mime") auto
  note a = a[unfolded f option.case]
  obtain b actual pixels where r: "b64 encoded = Some b" "b \<noteq> []" "length b \<le> p_max_image_bytes p"
      "detected_image_format b = Some actual" "actual \<in> set (effective_image_mime_types p)"
      "actual = declared" "image_pixels b actual = Inr pixels" "pixels \<noteq> 0"
      "unat pixels \<le> p_max_image_pixels p"
    using a by (auto simp: res_simps split: if_splits)
  have "url = ''data:'' @ metadata @ CHR '','' # encoded" "metadata = mime @ '';base64''"
    using d split_once_Some[OF m] i by (simp_all add: strip_prefix_Some strip_suffix_Some)
  then have "url = ''data:'' @ mime @ '';base64,'' @ encoded" by simp
  moreover have "0 < unat pixels" using r(8) by (simp add: unat_gt_0)
  ultimately show ?thesis
    unfolding image_within_def using assms(2) f r by blast
qed

lemma validate_content_part_cases:
  assumes "validate_content_part b64 pr p part n = Inr m"
  shows "(text_part part \<and> \<not> image_part part \<and> m = n) \<or>
    (image_part part \<and> image_within b64 p part \<and> m = Suc n \<and> Suc n \<le> p_max_images_per_request p)"
proof (cases "get_str part ''type''")
  case None
  then show ?thesis using assms by (simp add: validate_content_part_def)
next
  case (Some t)
  consider "t \<in> {''text'', ''input_text'', ''output_text''}"
    | "t \<notin> {''text'', ''input_text'', ''output_text''}" "t = ''image_url''" "pr = ChatCompletions"
    using assms Some by (auto simp: validate_content_part_def split: if_splits)
  then show ?thesis
  proof cases
    case 1
    then show ?thesis
      using assms Some by (auto simp: validate_content_part_def text_part_def image_part_def split: if_splits)
  next
    case 2
    then obtain url u where u: "image_url_of part = Some url" "image_data b64 p url = Inr u"
        "m = n + 1" "n + 1 \<le> p_max_images_per_request p"
      using assms Some
      by (auto simp: validate_content_part_def validate_image_url_def res_simps split: if_splits)
    then show ?thesis
      using image_data_within[OF u(2,1)] Some 2(2) by (simp add: image_part_def)
  qed
qed

definition parts_ok :: "(string \<Rightarrow> bytes option) \<Rightarrow> profile \<Rightarrow> json list \<Rightarrow> bool" where
  "parts_ok b64 p parts \<longleftrightarrow>
     (\<forall>part \<in> set parts. text_part part \<and> \<not> image_part part \<or> image_part part \<and> image_within b64 p part)"

lemma validate_parts:
  assumes "fold_res (validate_content_part b64 pr p) parts n = Inr m"
  shows "parts_ok b64 p parts \<and> m = n + length (filter image_part parts) \<and>
    (n \<le> p_max_images_per_request p \<longrightarrow> m \<le> p_max_images_per_request p)"
  using assms
proof (induction parts arbitrary: n)
  case Nil
  then show ?case by (simp add: parts_ok_def)
next
  case (Cons part parts)
  then obtain k where k: "validate_content_part b64 pr p part n = Inr k"
      "fold_res (validate_content_part b64 pr p) parts k = Inr m"
    by (auto split: sum.splits)
  show ?case
    using validate_content_part_cases[OF k(1)] Cons.IH[OF k(2)] by (auto simp: parts_ok_def)
qed

lemma validate_content_message_parts:
  assumes "validate_content_message b64 pr p m n = Inr k"
  shows "parts_ok b64 p (message_parts m) \<and> k = n + length (filter image_part (message_parts m)) \<and>
    (n \<le> p_max_images_per_request p \<longrightarrow> k \<le> p_max_images_per_request p)"
proof (cases "get_array m ''content''")
  case None
  then show ?thesis
    using assms by (auto simp: validate_content_message_def message_parts_def res_simps parts_ok_def
        split: if_splits)
next
  case (Some parts)
  then have "fold_res (validate_content_part b64 pr p) parts n = Inr k"
    using assms by (auto simp: validate_content_message_def res_simps)
  then show ?thesis using validate_parts Some by (simp add: message_parts_def)
qed

lemma validate_messages:
  assumes "fold_res (validate_content_message b64 pr p) ms n = Inr k"
  shows "parts_ok b64 p (concat (map message_parts ms)) \<and>
    k = n + length (filter image_part (concat (map message_parts ms))) \<and>
    (n \<le> p_max_images_per_request p \<longrightarrow> k \<le> p_max_images_per_request p)"
  using assms
proof (induction ms arbitrary: n)
  case Nil
  then show ?case by (simp add: parts_ok_def)
next
  case (Cons m ms)
  then obtain j where j: "validate_content_message b64 pr p m n = Inr j"
      "fold_res (validate_content_message b64 pr p) ms j = Inr k"
    by (auto split: sum.splits)
  show ?case
    using validate_content_message_parts[OF j(1)] Cons.IH[OF j(2)] by (auto simp: parts_ok_def)
qed

lemma json_as_u64_Some: "json_as_u64 v = Some n \<longleftrightarrow> v = JPosInt n"
  by (cases v) (auto simp: json_as_u64_def)

lemma output_bound_Inr:
  "output_bound pr body = Inr n \<Longrightarrow> n < 2 ^ 32 \<and>
     (\<exists>k \<in> {''max_tokens'', ''max_output_tokens'', ''max_completion_tokens''}. json_get body k = Some (JPosInt n))"
  by (auto simp: output_bound_def res_simps json_as_u64_Some opt_or_def bind_eq_Some_conv
      split: protocol.splits option.splits if_splits)

section \<open>Properties\<close>

text \<open>C33: an accepted body is bounded. A chat or responses body that \<open>validate_payload\<close> takes
  names the profile's own model and one explicit output bound that fits 32 bits; every content part
  of every message is text, or an image whose bytes have the declared and allowed format and stay
  within the profile's limits on bytes and pixels; and there are at most as many images as the
  profile allows in one request, however they are spread over messages.\<close>

theorem accepted_body_bounded:
  assumes "validate_payload b64 p d = Inr n" and "pp_protocol p \<noteq> Speech"
  shows "n < 2 ^ 32 \<and> get_str (pp_body p) ''model'' = Some (p_model (d_profile d)) \<and>
    (\<exists>k \<in> {''max_tokens'', ''max_output_tokens'', ''max_completion_tokens''}.
       json_get (pp_body p) k = Some (JPosInt n)) \<and>
    (\<forall>part \<in> set (content_parts (pp_body p)).
       text_part part \<and> \<not> image_part part \<or>
       image_part part \<and> image_within b64 (d_profile d) part) \<and>
    length (filter image_part (content_parts (pp_body p))) \<le> p_max_images_per_request (d_profile d)"
proof -
  have c: "validate_content b64 (pp_body p) (pp_protocol p) (d_profile d) = Inr ()"
    and o: "output_bound (pp_protocol p) (pp_body p) = Inr n"
    and m: "get_str (pp_body p) ''model'' = Some (p_model (d_profile d))"
    using assms by (auto simp: validate_payload_def res_simps split: if_splits)
  obtain k where k: "fold_res (validate_content_message b64 (pp_protocol p) (d_profile d))
      (body_messages (pp_body p)) 0 = Inr k"
    using c by (auto simp: validate_content_def res_simps split: if_splits)
  show ?thesis
    using validate_messages[OF k] output_bound_Inr[OF o] m
    by (simp add: content_parts_def parts_ok_def)
qed

definition sample_gif :: bytes where
  "sample_gif = ascii ''GIF87a'' @ [3, 0, 5, 0]"

definition sample_image :: json where
  "sample_image = JObject [(''type'', JString ''image_url''),
     (''image_url'', JObject [(''url'', JString ''data:image/gif;base64,R0lG'')])]"

definition sample_body :: protocol_payload where
  "sample_body = \<lparr>pp_protocol = ChatCompletions, pp_body = JObject
     [(''model'', JString ''m''), (''max_tokens'', JPosInt 16),
      (''messages'', JArray [JObject [(''role'', JString ''user''),
        (''content'', JArray [sample_image, JObject [(''type'', JString ''text''), (''text'', JString ''?'')]])]])]\<rparr>"

definition sample_visual :: profile where
  "sample_visual = (sample_profile ''coder'' [''gpu0''])
     \<lparr>p_capabilities := [Visual], p_max_images_per_request := 1, p_max_image_bytes := 100,
      p_max_image_pixels := 100\<rparr>"

lemma sample_body_accepted:
  "validate_payload (\<lambda>_. Some sample_gif) sample_body (sample_demand ''d1'' Ready Low sample_visual) = Inr 16"
proof -
  have pr: "p_model sample_visual = ''m''" "p_backend sample_visual = LlamaCpp"
      "p_protocols sample_visual = [ChatCompletions]" "p_capabilities sample_visual = [Visual]"
      "p_max_images_per_request sample_visual = 1" "p_max_image_bytes sample_visual = 100"
      "p_max_image_pixels sample_visual = 100" "p_image_mime_types sample_visual = None"
      "d_profile (sample_demand ''d1'' Ready Low sample_visual) = sample_visual"
    by (simp_all add: sample_visual_def sample_profile_def sample_demand_sel)
  have f: "detected_image_format sample_gif = Some Gif"
    by (simp add: detected_image_format_def bytes_start_def png_magic_def sample_gif_def ascii_def)
  have x: "image_pixels sample_gif Gif = Inr 15"
    by (simp add: image_pixels_def little_dimensions_def u16_le_def slice_def value_be_def sample_gif_def ascii_def)
  have "image_data (\<lambda>_. Some sample_gif) sample_visual ''data:image/gif;base64,R0lG'' = Inr ()"
    by (simp add: image_data_def strip_prefix_def strip_suffix_def split_once_def declared_image_format_def
        effective_image_mime_types_def base64_upper_bound_def pr f x)
      (simp add: sample_gif_def ascii_def)
  then have "validate_content_part (\<lambda>_. Some sample_gif) ChatCompletions sample_visual sample_image 0 = Inr 1"
    by (simp add: validate_content_part_def sample_image_def get_str_def json_get_def json_as_str_def
        image_url_of_def validate_image_url_def pr)
  then show ?thesis
    by (simp add: validate_payload_def sample_body_def pr json_as_object_def validate_template_def
        validate_sampling_def json_get_def allowed_fields_def get_str_def json_as_str_def
        validate_content_def get_array_def json_as_array_def body_messages_def
        validate_content_message_def validate_message_def output_bound_def json_as_u64_def
        validate_content_part_def[of _ _ _ "JObject [(''type'', JString ''text''), (''text'', JString ''?'')]"])
qed

theorem accepted_body_bounded_witness:
  "validate_payload (\<lambda>_. Some sample_gif) sample_body (sample_demand ''d1'' Ready Low sample_visual) = Inr 16 \<and>
   length (filter image_part (content_parts (pp_body sample_body))) \<le> p_max_images_per_request sample_visual"
  using accepted_body_bounded[OF sample_body_accepted] sample_body_accepted
  by (simp add: sample_body_def sample_demand_sel)

text \<open>Only a complete and identified answer is recorded as one. If \<open>raw_result\<close> takes a
  streamed answer, a line of it announces the end of the stream, every event that carries data parses, names no other
  model than the one asked for and reports no more output tokens than the bound of the request, and at least one
  event names that model; if it takes a plain answer, the answer parses, is complete, names that
  model and stays within the bound. The recorded value carries the body unchanged.\<close>

theorem raw_result_proven:
  assumes "raw_result parse body p = Inr v"
  shows "(\<exists>kind. v = wrapped_answer kind body) \<and>
    (if Option.bind (json_get (pp_body p) ''stream'') json_as_bool = Some True then
       stream_finished (pp_protocol p) body = Inr True \<and>
       (\<forall>data \<in> set (List.map_filter (strip_prefix ''data: '') (text_lines body)). data \<noteq> ''[DONE]'' \<longrightarrow>
          (\<exists>event. parse data = Inr event \<and>
             (let x = unwrap_or (json_get event ''response'') event in
              json_get x ''model'' \<in> {None, json_get (pp_body p) ''model''} \<and> observed_limit x p = Inr ()))) \<and>
       (\<exists>data \<in> set (List.map_filter (strip_prefix ''data: '') (text_lines body)). \<exists>event. parse data = Inr event \<and>
          json_get (unwrap_or (json_get event ''response'') event) ''model'' = json_get (pp_body p) ''model'')
     else
       (\<exists>x. parse body = Inr x \<and> answer_complete (pp_protocol p) x = Inr True \<and>
          json_get x ''model'' = json_get (pp_body p) ''model'' \<and> observed_limit x p = Inr ()))"
proof -
  let ?ds = "List.map_filter (strip_prefix ''data: '') (text_lines body)"
  have events: "(\<forall>data \<in> set ds. data \<noteq> ''[DONE]'' \<longrightarrow>
          (\<exists>event. parse data = Inr event \<and>
             (let x = unwrap_or (json_get event ''response'') event in
              json_get x ''model'' \<in> {None, json_get (pp_body p) ''model''} \<and> observed_limit x p = Inr ()))) \<and>
      (seen' \<longrightarrow> seen \<or> (\<exists>data \<in> set ds. \<exists>event. parse data = Inr event \<and>
          json_get (unwrap_or (json_get event ''response'') event) ''model'' = json_get (pp_body p) ''model''))"
    if "fold_res (stream_event parse p) ds seen = Inr seen'" for ds seen seen'
    using that
  proof (induction ds arbitrary: seen)
    case Nil
    then show ?case by simp
  next
    case (Cons data ds)
    then obtain mid where mid: "stream_event parse p data seen = Inr mid"
        "fold_res (stream_event parse p) ds mid = Inr seen'"
      by (auto split: sum.splits)
    show ?case
      using Cons.IH[OF mid(2)] mid(1)
      by (auto simp: stream_event_def res_simps Let_def split: if_splits sum.splits)
  qed
  show ?thesis
  proof (cases "Option.bind (json_get (pp_body p) ''stream'') json_as_bool = Some True")
    case True
    then have f: "stream_finished (pp_protocol p) body = Inr True"
      and l: "fold_res (stream_event parse p) ?ds False = Inr True"
      and v: "v = wrapped_answer ''text/event-stream'' body"
      using assms by (auto simp: raw_result_def res_simps split: if_splits)
    obtain data event where d: "data \<in> set ?ds" "parse data = Inr event"
        "json_get (unwrap_or (json_get event ''response'') event) ''model'' = json_get (pp_body p) ''model''"
      using events[OF l] by blast
    then show ?thesis using True f v events[OF l] d by auto
  next
    case False
    then show ?thesis
      using assms by (auto simp: raw_result_def res_simps split: if_splits sum.splits)
  qed
qed

theorem raw_result_proven_witness:
  "\<exists>v kind. raw_result (\<lambda>_. Inr (JObject [(''model'', JString ''m''), (''choices'', JArray [JNull])]))
       ''answer'' sample_body = Inr v \<and> v = wrapped_answer kind ''answer''"
proof -
  let ?parse = "\<lambda>_. Inr (JObject [(''model'', JString ''m''), (''choices'', JArray [JNull])])"
  have "\<exists>v. raw_result ?parse ''answer'' sample_body = Inr v"
    by (simp add: raw_result_def sample_body_def json_get_def answer_complete_def get_array_def
        json_as_array_def observed_limit_def json_as_u64_def)
  then obtain v where v: "raw_result ?parse ''answer'' sample_body = Inr v" by blast
  from raw_result_proven[OF this] v show ?thesis by blast
qed

end
