(* ===== verification/Workspace_Scopes.thy ===== *)
theory Workspace_Scopes
  imports Reservation
begin

text \<open>
  \<open>workspace_scope.rs\<close>: a scope is a durable fence around the calls of one workspace run. It is
  opened with a deadline, is never reopened or extended, and once it is closed or past its deadline
  its calls are cancelled and no new one is admitted.
\<close>

datatype scope_control = Open nat "string option" | Close

record scope_access =
  sa_reservation :: string
  sa_capability :: string
  sa_namespace :: string

section \<open>Operations\<close>

definition scope_key :: "env \<Rightarrow> string \<Rightarrow> string \<Rightarrow> string" where
  "scope_key e reservation namespace = sha256 e (reservation @ ''/'' @ namespace)"

definition parent_open :: "nat \<Rightarrow> invocation \<Rightarrow> bool" where
  "parent_open t i \<longleftrightarrow>
     is_workspace i \<and> i_state i = Running \<and> i_cancellation i = None \<and>
     is_some_and (i_execution_deadline i) (\<lambda>deadline. deadline > t)"

definition scope_parent_open :: "nat \<Rightarrow> document \<Rightarrow> workspace_scope \<Rightarrow> bool" where
  "scope_parent_open t s sc \<longleftrightarrow>
     is_none_or (s_invocation_id sc) (\<lambda>k. is_some_and (get_call s k) (parent_open t))"

definition permits :: "env \<Rightarrow> document \<Rightarrow> inference \<Rightarrow> bool" where
  "permits e s q \<longleftrightarrow>
     is_none_or (q_workspace_scope q) (\<lambda>k.
       is_some_and (map_of (workspace_scopes s) k) (\<lambda>sc.
         scope_parent_open (now e) s sc \<and> s_reservation_id sc = q_reservation_id q \<and>
         s_closed_at_ms sc = None \<and> s_deadline_ms sc > now_ms e))"

definition needs_cancel :: "env \<Rightarrow> document \<Rightarrow> invocation \<Rightarrow> bool" where
  "needs_cancel e s i \<longleftrightarrow>
     i_cancellation i = None \<and> i_state i \<in> {Queued, Running, Uncertain} \<and>
     \<not> permits e s (i_request i)"

definition cancel_closed :: "env \<Rightarrow> document \<Rightarrow> document" where
  "cancel_closed e s =
     fold (\<lambda>k. upd_call k (cancel (now e)))
       (map i_id (filter (needs_cancel e s) (om_vals (invocations s)))) s"

definition authorizes :: "env \<Rightarrow> document \<Rightarrow> string \<Rightarrow> string \<Rightarrow> string option \<Rightarrow> bool" where
  "authorizes e s reservation capability namespace =
     (case namespace of
        None \<Rightarrow> False
      | Some n \<Rightarrow>
          is_some_and (map_of (workspace_scopes s) (scope_key e reservation n)) (\<lambda>sc.
            s_reservation_id sc = reservation \<and> s_closed_at_ms sc = None \<and>
            s_deadline_ms sc > now_ms e \<and> scope_parent_open (now e) s sc \<and>
            s_authorization_hash sc = sha256 e capability))"

definition accepted_runner :: "env \<Rightarrow> document \<Rightarrow> demand \<Rightarrow> string \<Rightarrow> string option \<Rightarrow> bool" where
  "accepted_runner e s d hash invocation_id =
     is_some_and invocation_id (\<lambda>k. is_some_and (get_call s k) (\<lambda>i.
       parent_open (now e) i \<and> q_reservation_id (i_request i) = d_id d \<and>
       i_owner i = d_owner d \<and> i_scope_access_hash i = Some hash))"

definition open_scope ::
  "env \<Rightarrow> limits \<Rightarrow> scope_access \<Rightarrow> nat \<Rightarrow> string option \<Rightarrow> document \<Rightarrow> document res" where
  "open_scope e l access deadline_ms invocation_id s =
     (let k = scope_key e (sa_reservation access) (sa_namespace access);
          hash = sha256 e (sa_capability access) in
      res_bind (ok_or (get_demand s (sa_reservation access)) ''invalid_scoped_capability'') (\<lambda>d.
      let current_key = (d_access_key d = sa_capability access);
          runner = accepted_runner e s d hash invocation_id in
      if \<not> active (now e) d \<or> (\<not> current_key \<and> \<not> runner) \<or> (invocation_id \<noteq> None \<and> \<not> runner)
      then Inl ''invalid_scoped_capability''
      else
        case map_of (workspace_scopes s) k of
          Some sc \<Rightarrow>
            if s_deadline_ms sc = deadline_ms \<and> s_authorization_hash sc = hash \<and>
               s_invocation_id sc = invocation_id
            then Inr s else Inl ''workspace_scope_identity_conflict''
        | None \<Rightarrow>
            if deadline_ms \<le> now_ms e \<or> deadline_ms > sat_add (now_ms e) (4294967295 * 1000)
            then Inl ''workspace_scope_deadline_limits''
            else retention e l (s\<lparr>workspace_scopes := om_put k
                   \<lparr>s_invocation_id = invocation_id, s_owner = d_owner d, s_reservation_id = d_id d,
                    s_deadline_ms = deadline_ms, s_closed_at_ms = None,
                    s_authorization_hash = hash\<rparr> (workspace_scopes s)\<rparr>)))"

definition close_scope :: "env \<Rightarrow> scope_access \<Rightarrow> document \<Rightarrow> document res" where
  "close_scope e access s =
     (let k = scope_key e (sa_reservation access) (sa_namespace access) in
      res_bind (ok_or (map_of (workspace_scopes s) k) ''unknown_workspace_scope'') (\<lambda>sc.
      if s_authorization_hash sc \<noteq> sha256 e (sa_capability access)
      then Inl ''invalid_scoped_capability''
      else Inr (cancel_closed e (s\<lparr>workspace_scopes := om_upd k
             (\<lambda>sc. sc\<lparr>s_closed_at_ms := get_or_insert (s_closed_at_ms sc) (now_ms e)\<rparr>)
             (workspace_scopes s)\<rparr>))))"

definition scope_control_op ::
  "env \<Rightarrow> limits \<Rightarrow> scope_access \<Rightarrow> scope_control \<Rightarrow> document \<Rightarrow> (unit \<times> document) res" where
  "scope_control_op e l access operation s =
     (if \<not> valid_id (sa_namespace access) then Inl ''invalid_call_namespace''
      else
        res_bind (case operation of
            Open deadline_ms invocation_id \<Rightarrow> open_scope e l access deadline_ms invocation_id s
          | Close \<Rightarrow> close_scope e access s) (\<lambda>s. Inr ((), s)))"

section \<open>Cancelling in bulk\<close>

lemma fold_upd_call_sel:
  "demands (fold (\<lambda>k. upd_call k f) ks s) = demands s"
  "claims (fold (\<lambda>k. upd_call k f) ks s) = claims s"
  "workspace_scopes (fold (\<lambda>k. upd_call k f) ks s) = workspace_scopes s"
  "warm_residencies (fold (\<lambda>k. upd_call k f) ks s) = warm_residencies s"
  "acquisition_decisions (fold (\<lambda>k. upd_call k f) ks s) = acquisition_decisions s"
  "next_invocation_order (fold (\<lambda>k. upd_call k f) ks s) = next_invocation_order s"
  "invocations (fold (\<lambda>k. upd_call k f) ks s) = fold (\<lambda>k. om_upd k f) ks (invocations s)"
  by (induction ks arbitrary: s) simp_all

lemma needs_cancel_ids:
  assumes "doc_inv s"
  shows "k \<in> set (map i_id (filter (needs_cancel e s) (om_vals (invocations s)))) \<longleftrightarrow>
    (\<exists>i. get_call s k = Some i \<and> needs_cancel e s i)"
proof -
  have "om_ok (invocations s)" using assms by (simp add: doc_inv_def maps_ok_def)
  then show ?thesis
    using doc_inv_call_id[OF assms] by (auto simp: in_om_vals_iff image_iff)
qed

lemma needs_cancel_ids_distinct:
  assumes "doc_inv s"
  shows "distinct (map i_id (filter p (om_vals (invocations s))))"
proof -
  have d: "distinct (map fst (invocations s))"
    using assms by (simp add: doc_inv_def maps_ok_def om_ok_distinct)
  have "i_id (snd x) = fst x" if "x \<in> set (invocations s)" for x
    using that d doc_inv_call_id[OF assms, of "fst x" "snd x"] by simp
  then have "map i_id (om_vals (invocations s)) = map fst (invocations s)"
    by (simp add: om_vals_def)
  then have "distinct (map i_id (om_vals (invocations s)))" using d by simp
  then show ?thesis by (rule distinct_map_filter)
qed

text \<open>After the pass each call that had to be cancelled is cancelled, and no other changed.\<close>

lemma cancel_closed_call:
  assumes "doc_inv s"
  shows "get_call (cancel_closed e s) k =
    map_option (\<lambda>i. if needs_cancel e s i then cancel (now e) i else i) (get_call s k)"
proof -
  let ?ks = "map i_id (filter (needs_cancel e s) (om_vals (invocations s)))"
  have "get_call (cancel_closed e s) k =
      (if k \<in> set ?ks then map_option (cancel (now e)) (get_call s k) else get_call s k)"
    unfolding cancel_closed_def fold_upd_call_sel
    by (rule om.upd_all_get) (rule needs_cancel_ids_distinct[OF assms])
  then show ?thesis
    unfolding needs_cancel_ids[OF assms] by (cases "get_call s k") auto
qed

lemma cancel_closed_sel [simp]:
  "demands (cancel_closed e s) = demands s" "claims (cancel_closed e s) = claims s"
  "workspace_scopes (cancel_closed e s) = workspace_scopes s"
  "warm_residencies (cancel_closed e s) = warm_residencies s"
  "acquisition_decisions (cancel_closed e s) = acquisition_decisions s"
  "next_invocation_order (cancel_closed e s) = next_invocation_order s"
  by (simp_all add: cancel_closed_def fold_upd_call_sel)

lemma cancel_closed_kept:
  assumes "doc_inv s"
  shows "demands_kept s (cancel_closed e s)"
proof -
  have "i_id j = k" if "get_call (cancel_closed e s) k = Some j" for k j
    using that doc_inv_call_id[OF assms] by (auto simp: cancel_closed_call[OF assms] split: if_splits)
  moreover have "om_ok (invocations (cancel_closed e s))"
    using assms unfolding cancel_closed_def fold_upd_call_sel
    by (simp add: om.upd_all_ok doc_inv_def maps_ok_def)
  ultimately show ?thesis
    using assms by (simp add: demands_kept_def maps_ok_def calls_ok_def doc_inv_def)
qed

section \<open>The invariant is kept\<close>

lemma open_scope_cases:
  assumes "open_scope e l access dl parent s = Inr t"
  obtains (same) "t = s"
  | (opened) sc where
      "map_of (workspace_scopes s) (scope_key e (sa_reservation access) (sa_namespace access)) = None"
      "retention e l (s\<lparr>workspace_scopes := om_put
         (scope_key e (sa_reservation access) (sa_namespace access)) sc (workspace_scopes s)\<rparr>) = Inr t"
proof -
  let ?k = "scope_key e (sa_reservation access) (sa_namespace access)"
  show thesis
  proof (cases "map_of (workspace_scopes s) ?k")
    case None
    then obtain sc where "retention e l (s\<lparr>workspace_scopes := om_put ?k sc (workspace_scopes s)\<rparr>) = Inr t"
      using assms by (auto simp: open_scope_def Let_def res_simps split: if_splits)
    then show thesis using None by (intro opened) auto
  next
    case (Some sc)
    then show thesis
      using assms by (intro same) (auto simp: open_scope_def Let_def res_simps split: if_splits)
  qed
qed

lemma demands_kept_scopes:
  "doc_inv s \<Longrightarrow> om_ok m \<Longrightarrow> demands_kept s (s\<lparr>workspace_scopes := m\<rparr>)"
  by (simp add: demands_kept_def doc_inv_def maps_ok_def calls_ok_def)

lemma open_scope_kept:
  assumes "open_scope e l access dl parent s = Inr t" "doc_inv s"
  shows "demands_kept s t"
  using assms(1)
proof (cases rule: open_scope_cases)
  case same
  then show ?thesis using demands_kept_refl[OF assms(2)] by simp
next
  case (opened sc)
  have "demands_kept s (s\<lparr>workspace_scopes := om_put
         (scope_key e (sa_reservation access) (sa_namespace access)) sc (workspace_scopes s)\<rparr>)"
    using assms(2) by (intro demands_kept_scopes) (simp_all add: doc_inv_def maps_ok_def)
  then show ?thesis
    using retention_demands_kept[OF opened(2)] demands_kept_doc_inv[OF assms(2)] demands_kept_trans
    by blast
qed

lemma close_scope_kept:
  assumes "close_scope e access s = Inr t" "doc_inv s"
  shows "demands_kept s t"
proof -
  have *: "demands_kept s (s\<lparr>workspace_scopes := om_upd k f (workspace_scopes s)\<rparr>)" for k f
    using assms(2) by (intro demands_kept_scopes) (simp_all add: doc_inv_def maps_ok_def)
  show ?thesis
    using assms(1) demands_kept_trans[OF * cancel_closed_kept[OF demands_kept_doc_inv[OF assms(2) *]]]
    by (auto simp: close_scope_def Let_def res_simps split: if_splits)
qed

lemma scope_control_inv:
  "scope_control_op e l access op s = Inr (u, t) \<Longrightarrow> doc_inv s \<Longrightarrow> doc_inv t"
  by (auto simp: scope_control_op_def res_simps split: if_splits scope_control.splits
      dest: open_scope_kept close_scope_kept demands_kept_doc_inv)

interpretation scope_control_op: authority_op doc_inv "\<lambda>_. True" "scope_control_op e l access operation"
  for e l access operation
  by unfold_locales (rule scope_control_inv)

section \<open>A scope is never reopened, and a closed one lets nothing through\<close>

definition scope_continues :: "workspace_scope \<Rightarrow> workspace_scope \<Rightarrow> bool" where
  "scope_continues sc sc' \<longleftrightarrow>
     s_deadline_ms sc' = s_deadline_ms sc \<and> s_owner sc' = s_owner sc \<and>
     s_reservation_id sc' = s_reservation_id sc \<and> s_invocation_id sc' = s_invocation_id sc \<and>
     s_authorization_hash sc' = s_authorization_hash sc \<and>
     (s_closed_at_ms sc \<noteq> None \<longrightarrow> s_closed_at_ms sc' = s_closed_at_ms sc)"

lemma scope_continues_refl [simp]: "scope_continues sc sc"
  by (simp add: scope_continues_def)

lemma open_scope_scopes:
  assumes "open_scope e l access dl parent s = Inr t" "om_ok (invocations s)"
    and "map_of (workspace_scopes s) k = Some sc"
  shows "map_of (workspace_scopes t) k = Some sc"
  using assms(1)
proof (cases rule: open_scope_cases)
  case same
  then show ?thesis using assms(3) by simp
next
  case (opened sc')
  then show ?thesis
    using calls_compacted_sel(7)[OF retention_kept[OF opened(2)]] assms(2,3) by auto
qed

text \<open>A scope is a fence that only closes. Whatever scope request succeeds, every
  scope that existed still exists with the same deadline, owner, reservation, parent call and
  authorization, and a closed scope stays closed with the time it was first closed.\<close>

theorem scope_never_reopened:
  assumes "doc_inv s" and "scope_control_op e l access operation s = Inr (u, t)"
    and "map_of (workspace_scopes s) k = Some sc"
  shows "\<exists>sc'. map_of (workspace_scopes t) k = Some sc' \<and> scope_continues sc sc'"
proof (cases operation)
  case (Open dl parent)
  then have "open_scope e l access dl parent s = Inr t"
    using assms(2) by (auto simp: scope_control_op_def res_simps split: if_splits)
  moreover have "om_ok (invocations s)" using assms(1) by (simp add: doc_inv_def maps_ok_def)
  ultimately show ?thesis using open_scope_scopes assms(3) by fastforce
next
  case Close
  then have "close_scope e access s = Inr t"
    using assms(2) by (auto simp: scope_control_op_def res_simps split: if_splits)
  then show ?thesis
    using assms(3)
    by (auto simp: close_scope_def Let_def res_simps scope_continues_def split: if_splits)
qed

text \<open>C29: closing a scope fences its calls. After a successful close no request under the
  scope is permitted, and every call under it that is still queued, running or uncertain has a
  recorded cancellation.\<close>

theorem close_scope_fences:
  assumes "doc_inv s" and "valid_id (sa_namespace access)"
    and "scope_control_op e l access Close s = Inr (u, t)"
    and "k = scope_key e (sa_reservation access) (sa_namespace access)"
  shows "(\<forall>q. q_workspace_scope q = Some k \<longrightarrow> \<not> permits e t q) \<and>
    (\<forall>j i. get_call t j = Some i \<longrightarrow> q_workspace_scope (i_request i) = Some k \<longrightarrow>
       i_state i \<in> {Queued, Running, Uncertain} \<longrightarrow> i_cancellation i \<noteq> None)"
proof -
  let ?s = "s\<lparr>workspace_scopes := om_upd k
      (\<lambda>sc. sc\<lparr>s_closed_at_ms := get_or_insert (s_closed_at_ms sc) (now_ms e)\<rparr>) (workspace_scopes s)\<rparr>"
  obtain sc where sc: "map_of (workspace_scopes s) k = Some sc" and t: "t = cancel_closed e ?s"
    using assms(3,4)
    by (auto simp: scope_control_op_def close_scope_def Let_def res_simps split: if_splits)
  have inv: "doc_inv ?s"
    by (rule demands_kept_doc_inv[OF assms(1) demands_kept_scopes[OF assms(1)]])
      (use assms(1) in \<open>simp add: doc_inv_def maps_ok_def\<close>)
  have shut: "\<not> permits e x q" if "workspace_scopes x = workspace_scopes ?s" "q_workspace_scope q = Some k" for x q
    using sc that by (simp add: permits_def)
  show ?thesis
  proof (intro conjI allI impI)
    fix q :: inference
    assume "q_workspace_scope q = Some k"
    then show "\<not> permits e t q" using shut[of t q] t by simp
  next
    fix j i
    assume i: "get_call t j = Some i" and q: "q_workspace_scope (i_request i) = Some k"
      and st: "i_state i \<in> {Queued, Running, Uncertain}"
    obtain i0 where i0: "get_call ?s j = Some i0"
        "i = (if needs_cancel e ?s i0 then cancel (now e) i0 else i0)"
      using i t by (auto simp: cancel_closed_call[OF inv])
    have "i_request i0 = i_request i" using i0(2) by (auto split: if_splits)
    then have np: "\<not> permits e ?s (i_request i0)" using shut[of ?s] q by simp
    show "i_cancellation i \<noteq> None"
      using i0(2) np st by (auto simp: needs_cancel_def cancel_def Let_def split: if_splits)
  qed
qed

text \<open>A document with one open scope, and the request that closes it.\<close>

definition sample_access :: scope_access where
  "sample_access = \<lparr>sa_reservation = ''d1'', sa_capability = ''d1k'', sa_namespace = ''run''\<rparr>"

definition sample_scope :: workspace_scope where
  "sample_scope = \<lparr>s_invocation_id = None, s_owner = ''app'', s_reservation_id = ''d1'',
     s_deadline_ms = 200000, s_closed_at_ms = None, s_authorization_hash = replicate 64 CHR ''a''\<rparr>"

definition sample_scoped :: document where
  "sample_scoped = sample_document\<lparr>workspace_scopes := [(replicate 64 CHR ''a'', sample_scope)],
     invocations := [(''i1'', (sample_call ''i1'' ''d1'' Queued)\<lparr>i_request :=
        (sample_request ''d1'')\<lparr>q_workspace_scope := Some (replicate 64 CHR ''a'')\<rparr>\<rparr>)]\<rparr>"

lemma sample_scoped_inv: "doc_inv sample_scoped"
  by (auto simp: doc_inv_def maps_ok_def sample_scoped_def sample_document_def sample_demand_def
      sample_call_def sample_profile_def live_ok_def owns_def om_ok_def split: if_splits)

lemma sample_close:
  "\<exists>t. scope_control_op sample_env sample_limits sample_access Close sample_scoped = Inr ((), t)"
  by (simp add: scope_control_op_def close_scope_def scope_key_def sample_access_def valid_id_def
      ascii_alphanumeric_def sample_scoped_def sample_scope_def Let_def)

theorem scope_never_reopened_witness:
  "\<exists>t sc'. scope_control_op sample_env sample_limits sample_access Close sample_scoped = Inr ((), t) \<and>
     map_of (workspace_scopes t) (replicate 64 CHR ''a'') = Some sc' \<and> scope_continues sample_scope sc'"
proof -
  obtain t where t: "scope_control_op sample_env sample_limits sample_access Close sample_scoped = Inr ((), t)"
    using sample_close by blast
  have "map_of (workspace_scopes sample_scoped) (replicate 64 CHR ''a'') = Some sample_scope"
    by (simp add: sample_scoped_def)
  then show ?thesis using scope_never_reopened[OF sample_scoped_inv t] t by blast
qed

theorem close_scope_fences_witness:
  "\<exists>t. scope_control_op sample_env sample_limits sample_access Close sample_scoped = Inr ((), t) \<and>
     \<not> permits sample_env t ((sample_request ''d1'')\<lparr>q_workspace_scope := Some (replicate 64 CHR ''a'')\<rparr>)"
proof -
  obtain t where t: "scope_control_op sample_env sample_limits sample_access Close sample_scoped = Inr ((), t)"
    using sample_close by blast
  have v: "valid_id (sa_namespace sample_access)"
    by (simp add: sample_access_def valid_id_def ascii_alphanumeric_def Let_def)
  show ?thesis
    using close_scope_fences[OF sample_scoped_inv v t refl] t by (simp add: scope_key_def)
qed

end
