(* ===== verification/Residency.thy ===== *)
theory Residency
  imports Workspace_Scopes
begin

text \<open>
  \<open>residency.rs\<close>: a released container that is still healthy may stay loaded (\<open>warm\<close>), owned by no
  demand, until a demand for the same profile adopts it or a demand for its devices evicts it. The
  probes of the backend (\<open>BackendAccess::ready\<close>, \<open>Hosting::stop\<close>) happen between the
  transactions modelled here; \<open>current\<close> is the stale-callback guard of \<open>transition.rs\<close>.
\<close>

definition current :: "document \<Rightarrow> demand \<Rightarrow> demand res" where
  "current s d =
     res_bind (ok_or (get_demand s (d_id d)) ''missing_transition'') (\<lambda>saved.
       if d_generation saved \<noteq> d_generation d then Inl ''stale_transition_callback'' else Inr saved)"

lemma current_eq_Inr [res_simps]:
  "current s d = Inr saved \<longleftrightarrow>
     get_demand s (d_id d) = Some saved \<and> d_generation saved = d_generation d"
  by (auto simp: current_def res_simps split: if_splits)

definition supported :: "profile \<Rightarrow> bool" where
  "supported p \<longleftrightarrow> p_backend p = Vllm \<and> p_driver p = Docker"

definition compatible :: "warm_residency \<Rightarrow> demand \<Rightarrow> bool" where
  "compatible w d \<longleftrightarrow>
     wm_state w = Resident \<and> wm_profile_hash w = d_profile_hash d \<and>
     pr_activation (wm_process w) = wm_id w \<and> wm_resources w = p_resources (d_profile d)"

definition overlaps :: "warm_residency \<Rightarrow> demand \<Rightarrow> bool" where
  "overlaps w d \<longleftrightarrow> (\<exists>r \<in> set (wm_resources w). r \<in> set (p_resources (d_profile d)))"

definition disjoint :: "warm_residency \<Rightarrow> demand \<Rightarrow> bool" where
  "disjoint w d \<longleftrightarrow> \<not> overlaps w d"

definition backend_activation_for :: "env \<Rightarrow> string list \<Rightarrow> document \<Rightarrow> demand \<Rightarrow> string res" where
  "backend_activation_for e site s d =
     (if \<not> supported (d_profile d) then Inr (d_generation d)
      else (case List.find (\<lambda>w. compatible w d) (om_vals (warm_residencies s)) of
              Some w \<Rightarrow> Inr (wm_id w)
            | None \<Rightarrow> fresh e (site @ [''backend_activation''])))"

definition retained_host_mib :: "document \<Rightarrow> demand \<Rightarrow> nat" where
  "retained_host_mib s d =
     sum_list (map (\<lambda>w. p_host_mib (wm_profile w))
       (filter (\<lambda>w. wm_state w = Resident \<and> disjoint w d) (om_vals (warm_residencies s))))"

definition matching_processes :: "document \<Rightarrow> demand \<Rightarrow> process list" where
  "matching_processes s d =
     map wm_process (filter (\<lambda>w. compatible w d) (om_vals (warm_residencies s)))"

section \<open>Eviction\<close>

text \<open>The fence shared by the transactions on behalf of a preparing demand.\<close>

definition preparing_owner :: "document \<Rightarrow> demand \<Rightarrow> demand \<Rightarrow> bool" where
  "preparing_owner s d saved \<longleftrightarrow>
     d_generation saved = d_generation d \<and> d_state saved = Preparing \<and> owns s saved"

definition evict_begin :: "demand \<Rightarrow> document \<Rightarrow> (warm_residency list \<times> document) res" where
  "evict_begin d s =
     res_bind (ok_or (get_demand s (d_id d)) ''missing_transition'') (\<lambda>saved.
     if \<not> preparing_owner s d saved then Inr ([], s)
     else
       (let ids = map fst (filter (\<lambda>x. wm_state (snd x) = Resident \<and> overlaps (snd x) saved
                                       \<and> \<not> compatible (snd x) saved) (warm_residencies s));
            t = s\<lparr>warm_residencies :=
                  fold (\<lambda>k. om_upd k (\<lambda>w. w\<lparr>wm_state := Evicting\<rparr>)) ids (warm_residencies s)\<rparr> in
        res_bind (map_res (\<lambda>k. ok_or (map_of (warm_residencies t) k) ''warm_residency_missing'') ids)
          (\<lambda>records. Inr (records, t))))"

definition remove_if_unchanged :: "warm_residency \<Rightarrow> document \<Rightarrow> document" where
  "remove_if_unchanged w s =
     (if is_some_and (map_of (warm_residencies s) (wm_id w)) (\<lambda>x. wm_process x = wm_process w)
      then s\<lparr>warm_residencies := om_del (wm_id w) (warm_residencies s)\<rparr> else s)"

definition mark_evicting :: "warm_residency \<Rightarrow> document \<Rightarrow> document" where
  "mark_evicting w s =
     s\<lparr>warm_residencies := om_upd (wm_id w)
        (\<lambda>x. if wm_process x = wm_process w then x\<lparr>wm_state := Evicting\<rparr> else x)
        (warm_residencies s)\<rparr>"

text \<open>The start-up check of a resident found healthy, and the lookup of its profile.\<close>

definition refresh_resident :: "env \<Rightarrow> warm_residency \<Rightarrow> document \<Rightarrow> document" where
  "refresh_resident e w s =
     s\<lparr>warm_residencies := om_upd (wm_id w)
        (\<lambda>x. if wm_process x = wm_process w \<and> wm_state x = Resident
             then x\<lparr>wm_last_ready_at := now e\<rparr> else x) (warm_residencies s)\<rparr>"

definition current_profile :: "env \<Rightarrow> config \<Rightarrow> warm_residency \<Rightarrow> profile res" where
  "current_profile e c w =
     res_bind (ok_or (List.find (\<lambda>p. p_tag p = p_tag (wm_profile w)) (c_profiles c))
        ''warm_residency_profile_missing'') (\<lambda>p.
     res_bind (enc_profile e p) (\<lambda>bytes.
       if sha256 e bytes \<noteq> wm_profile_hash w then Inl ''warm_residency_profile_changed''
       else Inr p))"

section \<open>Adoption\<close>

definition adopt_read :: "demand \<Rightarrow> document \<Rightarrow> warm_residency option res" where
  "adopt_read d s =
     res_bind (ok_or (get_demand s (d_id d)) ''missing_transition'') (\<lambda>saved.
     if \<not> preparing_owner s d saved then Inr None
     else Inr (case map_of (warm_residencies s) (backend_activation saved) of
                 Some w \<Rightarrow> if wm_state w = Resident then Some w else None
               | None \<Rightarrow> None))"

definition adopted :: "warm_residency \<Rightarrow> demand \<Rightarrow> demand" where
  "adopted w saved =
     saved\<lparr>d_backend_activation := Some (wm_id w), d_process := Some (wm_process w),
           d_effect_started := True\<rparr>"

definition adopt_commit :: "demand \<Rightarrow> warm_residency \<Rightarrow> document \<Rightarrow> (bool \<times> document) res" where
  "adopt_commit d w s =
     (case map_of (warm_residencies s) (wm_id w) of
        None \<Rightarrow> Inr (False, s)
      | Some live \<Rightarrow>
          if wm_state live \<noteq> Resident \<or> wm_process live \<noteq> wm_process w \<or> \<not> compatible live d
          then Inr (False, s)
          else
            res_bind (ok_or (get_demand s (d_id d)) ''missing_transition'') (\<lambda>saved.
            if \<not> preparing_owner s d saved then Inr (False, s)
            else Inr (True, upd_demand (d_id d) (adopted w)
                   (s\<lparr>warm_residencies := om_del (wm_id w) (warm_residencies s)\<rparr>))))"

section \<open>Caching a released backend\<close>

definition IDLE_TIMEOUT :: string where
  "IDLE_TIMEOUT = ''idle_timeout''"

definition terminal_state :: "nat \<Rightarrow> demand \<Rightarrow> demand_state" where
  "terminal_state t d =
     (if d_reason d = Some ''cancelled'' then Cancelled
      else if d_reason d = Some ''preempted_by_higher_priority'' then Preempted
      else if d_reason d = Some IDLE_TIMEOUT then Expired
      else if d_deadline d \<le> t then Expired
      else Released)"

definition cache_candidate :: "demand \<Rightarrow> bool" where
  "cache_candidate d \<longleftrightarrow>
     supported (d_profile d) \<and> d_process d \<noteq> None \<and> d_effect_started d \<and>
     d_state d = Releasing \<and>
     d_reason d \<noteq> Some ''cancelled'' \<and> d_reason d \<noteq> Some ''preempted_by_higher_priority''"

definition warm_record :: "env \<Rightarrow> demand \<Rightarrow> process \<Rightarrow> warm_residency" where
  "warm_record e d p = \<lparr>wm_id = pr_activation p, wm_profile_hash = d_profile_hash d,
     wm_profile = d_profile d, wm_backend = p_backend (d_profile d),
     wm_driver = p_driver (d_profile d), wm_model = p_model (d_profile d),
     wm_resources = p_resources (d_profile d), wm_endpoint = p_endpoint (d_profile d),
     wm_process = p, wm_cached_at = now e, wm_last_ready_at = now e, wm_state = Resident\<rparr>"

definition retired_demand :: "env \<Rightarrow> demand \<Rightarrow> demand" where
  "retired_demand e saved =
     saved\<lparr>d_process := None, d_effect_started := False, d_released := True,
           d_state := terminal_state (now e) saved\<rparr>"

definition cache_commit :: "env \<Rightarrow> demand \<Rightarrow> warm_residency \<Rightarrow> document \<Rightarrow> (bool \<times> document) res" where
  "cache_commit e d w s =
     res_bind (ok_or (get_demand s (d_id d)) ''missing_transition'') (\<lambda>saved.
     if d_generation saved \<noteq> d_generation d \<or> d_process saved \<noteq> Some (wm_process w)
        \<or> \<not> cache_candidate saved \<or> backend_activation saved \<noteq> wm_id w
     then Inr (False, s)
     else if \<exists>x \<in> set (om_vals (warm_residencies s)). wm_id x \<noteq> wm_id w \<and> overlaps x saved
     then Inl ''warm_residency_overlap''
     else Inr (True, drop_claims_of (d_id d) (upd_demand (d_id d) (retired_demand e)
            (s\<lparr>warm_residencies := om_put (wm_id w) w (warm_residencies s)\<rparr>))))"

text \<open>\<open>cache_after_release\<close> with \<open>ready\<close> the answer of the backend probe. The caller reads an
  error as \<open>False\<close>.\<close>

definition cache_after_release :: "env \<Rightarrow> unit res \<Rightarrow> demand \<Rightarrow> document \<Rightarrow> (bool \<times> document) res" where
  "cache_after_release e probe d s =
     (if \<not> cache_candidate d then Inr (False, s)
      else res_bind probe (\<lambda>_.
           res_bind (ok_or (d_process d) ''warm_process_missing'') (\<lambda>p.
             cache_commit e d (warm_record e d p) s)))"

section \<open>The invariant is kept\<close>

lemma demands_kept_warm:
  "doc_inv s \<Longrightarrow> om_ok m \<Longrightarrow> demands_kept s (s\<lparr>warm_residencies := m\<rparr>)"
  by (simp add: demands_kept_def doc_inv_def maps_ok_def calls_ok_def)

lemma doc_inv_warm_ok: "doc_inv s \<Longrightarrow> om_ok (warm_residencies s)"
  by (simp add: doc_inv_def maps_ok_def)

lemma evict_begin_kept: "evict_begin d s = Inr (ws, t) \<Longrightarrow> doc_inv s \<Longrightarrow> demands_kept s t"
  by (auto simp: evict_begin_def Let_def res_simps doc_inv_warm_ok om.upd_all_ok demands_kept_refl
      split: if_splits intro!: demands_kept_warm)

lemma warm_edits_kept:
  "doc_inv s \<Longrightarrow> demands_kept s (remove_if_unchanged w s)"
  "doc_inv s \<Longrightarrow> demands_kept s (mark_evicting w s)"
  "doc_inv s \<Longrightarrow> demands_kept s (refresh_resident e w s)"
  by (auto simp: remove_if_unchanged_def mark_evicting_def refresh_resident_def doc_inv_warm_ok
      demands_kept_refl intro!: demands_kept_warm)

lemma owns_cong_claims: "claims s = claims t \<Longrightarrow> owns s d = owns t d"
  by (simp add: owns_def)

lemma adopt_commit_inv:
  assumes "adopt_commit d w s = Inr (b, t)" "doc_inv s"
  shows "doc_inv t"
proof (cases b)
  case False
  then show ?thesis
    using assms by (auto simp: adopt_commit_def res_simps split: option.splits if_splits)
next
  case True
  let ?u = "s\<lparr>warm_residencies := om_del (wm_id w) (warm_residencies s)\<rparr>"
  obtain saved where saved: "get_demand s (d_id d) = Some saved" "preparing_owner s d saved"
    and t: "t = upd_demand (d_id d) (adopted w) ?u"
    using assms(1) True by (auto simp: adopt_commit_def res_simps split: option.splits if_splits)
  have u: "doc_inv ?u"
    using demands_kept_doc_inv[OF assms(2) demands_kept_warm] assms(2) doc_inv_warm_ok by simp
  have "owns ?u saved"
    using saved(2) owns_cong_claims[of s ?u] by (simp add: preparing_owner_def)
  then have "demand_step ?u saved (adopted w saved)"
    using saved(2) by (simp add: demand_step_def adopted_def live_ok_def preparing_owner_def)
  then have "claims_kept ?u t"
    unfolding t using saved(1) by (intro claims_kept_upd_demand[OF u]) auto
  then show ?thesis by (rule claims_kept_doc_inv[OF u])
qed

lemma terminal_state_cases: "terminal_state t d \<in> {Cancelled, Preempted, Expired, Released}"
  by (simp add: terminal_state_def)

lemma retired_demand_ok:
  "d_id (retired_demand e d) = d_id d \<and> live_ok (retired_demand e d) \<and>
   \<not> d_effect_started (retired_demand e d)"
  using terminal_state_cases[of "now e" d] by (auto simp: retired_demand_def live_ok_def)

lemma retire_inv: "doc_inv s \<Longrightarrow> doc_inv (drop_claims_of k (upd_demand k (retired_demand e) s))"
  by (rule doc_inv_drop) (simp_all add: retired_demand_ok)

lemma cache_commit_inv:
  assumes "cache_commit e d w s = Inr (b, t)" "doc_inv s"
  shows "doc_inv t"
proof -
  have "doc_inv (s\<lparr>warm_residencies := om_put (wm_id w) w (warm_residencies s)\<rparr>)"
    using demands_kept_doc_inv[OF assms(2) demands_kept_warm] assms(2) doc_inv_warm_ok by simp
  then show ?thesis
    using assms retire_inv by (auto simp: cache_commit_def res_simps split: if_splits)
qed

lemma cache_after_release_inv:
  "cache_after_release e probe d s = Inr (b, t) \<Longrightarrow> doc_inv s \<Longrightarrow> doc_inv t"
  by (auto simp: cache_after_release_def res_simps split: if_splits dest: cache_commit_inv)

interpretation evict_begin: authority_op doc_inv "\<lambda>_. True" "evict_begin d" for d
  by unfold_locales (blast dest: evict_begin_kept demands_kept_doc_inv)

interpretation adopt_commit: authority_op doc_inv "\<lambda>_. True" "adopt_commit d w" for d w
  by unfold_locales (rule adopt_commit_inv)

interpretation cache_after_release: authority_op doc_inv "\<lambda>_. True" "cache_after_release e probe d" for e probe d
  by unfold_locales (rule cache_after_release_inv)

end
