(* ===== verification/Planner.thy ===== *)
theory Planner
  imports Residency
begin

text \<open>
  \<open>planner.rs\<close>: who may take devices from whom. \<open>refusal\<close> decides whether a demand may be admitted
  now; \<open>fence\<close> and \<open>fence_group\<close> start the preemption of the incumbents in the way, or take
  free devices at once; \<open>transfer\<close> moves the claims when every incumbent has drained.
\<close>

section \<open>Operations\<close>

definition conflicts :: "document \<Rightarrow> demand \<Rightarrow> string list" where
  "conflicts s d =
     sort (remdups (filter (\<lambda>k. k \<noteq> d_id d)
       (concat (map (\<lambda>r. opt_list (get_claim s r)) (p_resources (d_profile d))))))"

text \<open>The \<open>Debug\<close> form of a list of identifiers.\<close>

definition debug_string :: "string \<Rightarrow> string" where
  "debug_string x = CHR 0x22 # x @ [CHR 0x22]"

fun debug_items :: "string list \<Rightarrow> string" where
  "debug_items [] = []"
| "debug_items [x] = debug_string x"
| "debug_items (x # y # ys) = debug_string x @ '', '' @ debug_items (y # ys)"

definition incumbent_refusal :: "document \<Rightarrow> demand \<Rightarrow> string \<Rightarrow> string option" where
  "incumbent_refusal s d k =
     (case get_demand s k of
        None \<Rightarrow> Some ''ownership_uncertain''
      | Some v \<Rightarrow>
          if k \<in> set (d_victims d) \<and> d_state v = Preempting \<and> d_preempted_by v = Some (d_id d)
          then None
          else if d_priority v \<ge> d_priority d then Some (''incumbent_priority:'' @ k)
          else if d_state v \<noteq> Ready then Some (''transition_or_recovery_blocked:'' @ k)
          else None)"

fun first_some :: "('a \<Rightarrow> 'b option) \<Rightarrow> 'a list \<Rightarrow> 'b option" where
  "first_some f [] = None"
| "first_some f (x # xs) = (case f x of None \<Rightarrow> first_some f xs | Some y \<Rightarrow> Some y)"

definition occupied_host :: "document \<Rightarrow> demand \<Rightarrow> nat" where
  "occupied_host s d =
     sat_add (sum_list (map (\<lambda>x. p_host_mib (d_profile x))
         (filter (\<lambda>x. d_state x \<in> {Ready, Releasing, Preparing, Preempting, RecoveryRequired}
                       \<and> d_id x \<notin> set (conflicts s d)) (om_vals (demands s)))))
       (retained_host_mib s d)"

text \<open>\<open>refusal\<close>, with \<open>legacy\<close> the answer of \<open>legacy_blocked\<close> on the resources of the profile.\<close>

definition refusal :: "config \<Rightarrow> (string list \<Rightarrow> string list res) \<Rightarrow> document \<Rightarrow> demand \<Rightarrow> string option" where
  "refusal c legacy s d =
     (case legacy (p_resources (d_profile d)) of
        Inl err \<Rightarrow> Some (''ownership_uncertain:'' @ err)
      | Inr ids \<Rightarrow>
          if ids \<noteq> [] then Some (''legacy_ownership_requires_migration:['' @ debug_items ids @ '']'')
          else
            (case first_some (incumbent_refusal s d) (conflicts s d) of
               Some reason \<Rightarrow> Some reason
             | None \<Rightarrow>
                 if sat_add (occupied_host s d) (p_host_mib (d_profile d)) > c_host_capacity_mib c
                 then Some ''insufficient_host_memory'' else None))"

definition preempt :: "nat \<Rightarrow> string \<Rightarrow> demand \<Rightarrow> demand" where
  "preempt t by_id v =
     v\<lparr>d_state := Preempting, d_reason := Some ''preempted_by_higher_priority'',
       d_preempted_by := Some by_id,
       d_transition_deadline := t + p_drain_seconds (d_profile v)\<rparr>"

definition fence_victim :: "env \<Rightarrow> demand \<Rightarrow> string \<Rightarrow> document \<Rightarrow> document res" where
  "fence_victim e d k s =
     (case get_demand s k of
        None \<Rightarrow> Inl ''ownership_uncertain''
      | Some v \<Rightarrow>
          if d_priority v \<ge> d_priority d \<or> d_state v \<noteq> Ready
          then Inl ''transition_or_recovery_blocked''
          else Inr (upd_demand k (preempt (now e) (d_id d)) s))"

definition supersede_calls :: "env \<Rightarrow> string list \<Rightarrow> document \<Rightarrow> document" where
  "supersede_calls e victims s =
     s\<lparr>invocations := om_mapv (\<lambda>i. if q_reservation_id (i_request i) \<in> set victims
         then cancel_queued_as_superseded (now e) i else i) (invocations s)\<rparr>"

definition claim_resource :: "string \<Rightarrow> string \<Rightarrow> document \<Rightarrow> document res" where
  "claim_resource k r s =
     (if is_some_and (get_claim s r) (\<lambda>owner. owner \<noteq> k) then Inl ''transition_fence_changed''
      else Inr (s\<lparr>claims := om_put r k (claims s)\<rparr>))"

definition stop_allowance :: "document \<Rightarrow> string list \<Rightarrow> nat" where
  "stop_allowance s ks =
     sum_list (map (\<lambda>k. case get_demand s k of
         None \<Rightarrow> 0 | Some v \<Rightarrow> p_drain_seconds (d_profile v) + p_stop_seconds (d_profile v)) ks)"

definition fence :: "env \<Rightarrow> string list \<Rightarrow> demand \<Rightarrow> document \<Rightarrow> (demand \<times> document) res" where
  "fence e site d s =
     (let victims = conflicts s d in
      res_bind (fold_res (fence_victim e d) victims s) (\<lambda>s.
      let s = supersede_calls e victims s; d = d\<lparr>d_victims := victims\<rparr> in
      res_bind (if victims = []
                then fold_res (claim_resource (d_id d)) (p_resources (d_profile d)) s
                else Inr s) (\<lambda>s.
      res_bind (fresh e (site @ [''generation''])) (\<lambda>generation.
      res_bind (fresh e (site @ [''access_key''])) (\<lambda>access_key.
      let d = d\<lparr>d_generation := generation, d_access_key := access_key\<rparr> in
      res_bind (backend_activation_for e site s d) (\<lambda>activation.
        Inr (d\<lparr>d_backend_activation := Some activation,
               d_transition_deadline := now e + p_startup_seconds (d_profile d)
                 + stop_allowance s victims,
               d_state := Preparing, d_reason := None, d_retry_after := None,
               d_effect_started := False, d_preflight_done := False\<rparr>, s)))))))"

definition transfer_victim :: "document \<Rightarrow> string \<Rightarrow> unit res" where
  "transfer_victim s k =
     res_bind (ok_or (get_demand s k) ''missing_victim'') (\<lambda>v.
       if d_state v \<noteq> Preempted \<or> inflight s k then Inl ''victim_not_safely_preempted'' else Inr ())"

definition transfer :: "demand \<Rightarrow> document \<Rightarrow> document res" where
  "transfer d s =
     res_bind (map_res (transfer_victim s) (d_victims d)) (\<lambda>_.
     if \<exists>r \<in> set (p_resources (d_profile d)). is_some_and (get_claim s r) (\<lambda>owner. owner \<noteq> d_id d)
     then Inl ''transition_fence_changed''
     else Inr (claim_all (d_id d) (p_resources (d_profile d)) s))"

section \<open>Groups\<close>

definition group_conflicts :: "document \<Rightarrow> demand list \<Rightarrow> string list" where
  "group_conflicts s ds = sort (remdups (concat (map (conflicts s) ds)))"

definition group_priority :: "demand list \<Rightarrow> priority option" where
  "group_priority ds =
     fold (\<lambda>d m. case m of None \<Rightarrow> Some (d_priority d) | Some p \<Rightarrow> Some (max p (d_priority d))) ds None"

definition fence_group_victim ::
  "env \<Rightarrow> string \<Rightarrow> demand list \<Rightarrow> string \<Rightarrow> document \<Rightarrow> document res" where
  "fence_group_victim e root_id ds k s =
     (case get_demand s k of
        None \<Rightarrow> Inl ''ownership_uncertain''
      | Some v \<Rightarrow>
          if d_state v \<noteq> Ready then Inl ''transition_or_recovery_blocked''
          else res_bind (ok_or (group_priority ds) ''invalid_request'') (\<lambda>p.
            if d_priority v \<ge> p then Inl (''incumbent_priority:'' @ k)
            else Inr (upd_demand k (preempt (now e) root_id) s)))"

definition claim_demand :: "demand \<Rightarrow> document \<Rightarrow> document res" where
  "claim_demand d s = fold_res (claim_resource (d_id d)) (p_resources (d_profile d)) s"

definition fence_member :: "env \<Rightarrow> string list \<Rightarrow> string list \<Rightarrow> document \<Rightarrow> demand \<Rightarrow> demand res" where
  "fence_member e site victims s d =
     (let d = d\<lparr>d_victims := victims\<rparr>; site = site @ [d_id d] in
      res_bind (fresh e (site @ [''generation''])) (\<lambda>generation.
      res_bind (fresh e (site @ [''access_key''])) (\<lambda>access_key.
      let d = d\<lparr>d_generation := generation, d_access_key := access_key\<rparr> in
      res_bind (backend_activation_for e site s d) (\<lambda>activation.
        Inr (d\<lparr>d_backend_activation := Some activation,
               d_transition_deadline := now e + p_startup_seconds (d_profile d)
                 + stop_allowance s victims,
               d_state := Preparing, d_reason := None, d_retry_after := None,
               d_preempted_by := None, d_ready_checked := False, d_effect_started := False,
               d_preflight_done := False\<rparr>)))))"

definition fence_group ::
  "env \<Rightarrow> string list \<Rightarrow> string \<Rightarrow> demand list \<Rightarrow> document \<Rightarrow> (demand list \<times> document) res" where
  "fence_group e site root_id ds s =
     (let victims = group_conflicts s ds in
      res_bind (fold_res (fence_group_victim e root_id ds) victims s) (\<lambda>s.
      let s = supersede_calls e victims s in
      res_bind (if victims = [] then fold_res claim_demand ds s else Inr s) (\<lambda>s.
      res_bind (map_res (fence_member e site victims s) ds) (\<lambda>ds. Inr (ds, s)))))"

section \<open>Lemmas\<close>

lemma in_conflicts_iff:
  "k \<in> set (conflicts s d) \<longleftrightarrow>
     k \<noteq> d_id d \<and> (\<exists>r \<in> set (p_resources (d_profile d)). get_claim s r = Some k)"
  by (force simp: conflicts_def opt_list_def split: option.splits)

lemma conflicts_empty_iff:
  "conflicts s d = [] \<longleftrightarrow>
     (\<forall>r \<in> set (p_resources (d_profile d)). get_claim s r = None \<or> get_claim s r = Some (d_id d))"
proof -
  have "conflicts s d = [] \<longleftrightarrow> (\<forall>k. k \<notin> set (conflicts s d))" by auto
  then show ?thesis unfolding in_conflicts_iff by (auto, metis option.exhaust)
qed

lemma distinct_conflicts [simp]: "distinct (conflicts s d)" "distinct (group_conflicts s ds)"
  by (simp_all add: conflicts_def group_conflicts_def)

text \<open>Preempting a list of demands, as both fences do it.\<close>

lemma preempt_step:
  assumes "doc_inv s" "get_demand s k = Some v" "d_state v = Ready"
  shows "claims_kept s (upd_demand k (preempt t by_id) s)"
proof (rule claims_kept_upd_demand[OF assms(1)])
  fix d assume "get_demand s k = Some d"
  then show "demand_step s d (preempt t by_id d)"
    using assms doc_inv_live[OF assms(1,2)]
    by (auto simp: demand_step_def preempt_def live_ok_def)
qed

lemma claims_kept_trans:
  assumes "doc_inv s" "claims_kept s t" "claims_kept t u"
  shows "claims_kept s u"
proof -
  have ow: "owns t d' = owns s d" if "demand_step s d d'" for d d'
    using that assms(2) by (auto simp: demand_step_def claims_kept_def owns_def)
  have "case get_demand s k of None \<Rightarrow> get_demand u k = None
      | Some d \<Rightarrow> (\<exists>d''. get_demand u k = Some d'' \<and> demand_step s d d'')" for k
  proof (cases "get_demand s k")
    case None
    then show ?thesis using claims_kept_None[OF assms(3) claims_kept_None[OF assms(2)]] by simp
  next
    case (Some d)
    obtain d' where d': "get_demand t k = Some d'" "demand_step s d d'"
      using claims_kept_Some[OF assms(2) Some] by blast
    obtain d'' where d'': "get_demand u k = Some d''" "demand_step t d' d''"
      using claims_kept_Some[OF assms(3) d'(1)] by blast
    have "demand_step s d d''"
      using d'(2) d''(2) ow[OF d'(2)] by (auto simp: demand_step_def)
    then show ?thesis using Some d'' by simp
  qed
  then show ?thesis using assms(2,3) by (simp add: claims_kept_def)
qed

lemma supersede_calls_kept: "doc_inv s \<Longrightarrow> demands_kept s (supersede_calls e victims s)"
  unfolding supersede_calls_def by (rule demands_kept_map_calls) simp_all

lemma supersede_calls_sel [simp]:
  "demands (supersede_calls e victims s) = demands s" "claims (supersede_calls e victims s) = claims s"
  "warm_residencies (supersede_calls e victims s) = warm_residencies s"
  "acquisition_decisions (supersede_calls e victims s) = acquisition_decisions s"
  by (simp_all add: supersede_calls_def)

text \<open>What a loop of preemptions does: \<open>ok v\<close> is the guard of one victim.\<close>

lemma fold_preempt:
  assumes step: "\<And>k s u. f k s = Inr u \<Longrightarrow>
      \<exists>v. get_demand s k = Some v \<and> ok v \<and> d_state v = Ready \<and> u = upd_demand k (preempt t by_id) s"
    and "fold_res f ks s = Inr u" "distinct ks"
  shows "u = fold (\<lambda>k. upd_demand k (preempt t by_id)) ks s \<and>
    (\<forall>k \<in> set ks. \<exists>v. get_demand s k = Some v \<and> ok v \<and> d_state v = Ready)"
  using assms(2,3)
proof (induction ks arbitrary: s)
  case Nil
  then show ?case by simp
next
  case (Cons k ks)
  then obtain w where w: "f k s = Inr w" "fold_res f ks w = Inr u" by (auto split: sum.splits)
  obtain v where v: "get_demand s k = Some v" "ok v" "d_state v = Ready"
      "w = upd_demand k (preempt t by_id) s"
    using step[OF w(1)] by blast
  show ?case
    using Cons.IH[OF w(2)] Cons.prems(2) v by (auto split: if_splits)
qed

lemma fold_upd_demand_sel:
  "claims (fold (\<lambda>k. upd_demand k f) ks s) = claims s"
  "invocations (fold (\<lambda>k. upd_demand k f) ks s) = invocations s"
  "warm_residencies (fold (\<lambda>k. upd_demand k f) ks s) = warm_residencies s"
  "acquisition_decisions (fold (\<lambda>k. upd_demand k f) ks s) = acquisition_decisions s"
  "demands (fold (\<lambda>k. upd_demand k f) ks s) = fold (\<lambda>k. om_upd k f) ks (demands s)"
  "workspace_scopes (fold (\<lambda>k. upd_demand k f) ks s) = workspace_scopes s"
  "next_invocation_order (fold (\<lambda>k. upd_demand k f) ks s) = next_invocation_order s"
  by (induction ks arbitrary: s) simp_all

lemma fold_preempt_get:
  "distinct ks \<Longrightarrow> get_demand (fold (\<lambda>k. upd_demand k f) ks s) k =
     (if k \<in> set ks then map_option f (get_demand s k) else get_demand s k)"
  unfolding fold_upd_demand_sel by (rule om.upd_all_get)

lemma fold_preempt_kept:
  assumes "doc_inv s" "distinct ks" "\<And>k. k \<in> set ks \<Longrightarrow> \<exists>v. get_demand s k = Some v \<and> d_state v = Ready"
  shows "claims_kept s (fold (\<lambda>k. upd_demand k (preempt t by_id)) ks s)"
  using assms
proof (induction ks arbitrary: s)
  case Nil
  then show ?case using demands_kept_claims_kept demands_kept_refl by simp
next
  case (Cons k ks)
  obtain v where v: "get_demand s k = Some v" "d_state v = Ready" using Cons.prems(3) by force
  let ?u = "upd_demand k (preempt t by_id) s"
  have k1: "claims_kept s ?u" by (rule preempt_step[OF Cons.prems(1) v])
  have "claims_kept ?u (fold (\<lambda>k. upd_demand k (preempt t by_id)) ks ?u)"
    by (rule Cons.IH[OF claims_kept_doc_inv[OF Cons.prems(1) k1]]) (use Cons.prems in auto)
  then show ?case using claims_kept_trans[OF Cons.prems(1) k1] by simp
qed

lemma fence_victim_ok:
  "fence_victim e d k s = Inr u \<Longrightarrow>
     \<exists>v. get_demand s k = Some v \<and> d_priority v < d_priority d \<and> d_state v = Ready \<and>
         u = upd_demand k (preempt (now e) (d_id d)) s"
  by (auto simp: fence_victim_def split: option.splits if_splits)

lemma fence_group_victim_ok:
  "fence_group_victim e root_id ds k s = Inr u \<Longrightarrow>
     \<exists>v. get_demand s k = Some v \<and> (\<exists>p. group_priority ds = Some p \<and> d_priority v < p) \<and>
         d_state v = Ready \<and> u = upd_demand k (preempt (now e) root_id) s"
  by (auto simp: fence_group_victim_def res_simps split: option.splits if_splits)

lemma claim_resources_ok:
  "fold_res (claim_resource k) rs s = Inr t \<Longrightarrow>
     t = claim_all k rs s \<and> (\<forall>r \<in> set rs. get_claim s r = None \<or> get_claim s r = Some k)"
proof (induction rs arbitrary: s)
  case Nil
  then show ?case by (simp add: claim_all_def)
next
  case (Cons r rs)
  have g: "get_claim s r = None \<or> get_claim s r = Some k"
    using Cons.prems by (cases "get_claim s r") (auto simp: claim_resource_def split: if_splits)
  then have "claim_resource k r s = Inr (s\<lparr>claims := om_put r k (claims s)\<rparr>)"
    by (auto simp: claim_resource_def)
  then have f: "fold_res (claim_resource k) rs (s\<lparr>claims := om_put r k (claims s)\<rparr>) = Inr t"
    using Cons.prems by simp
  show ?case
    using Cons.IH[OF f] g by (auto simp: claim_all_def split: if_splits)
qed

lemma claim_resources_free:
  "(\<forall>r \<in> set rs. get_claim s r = None \<or> get_claim s r = Some k) \<Longrightarrow>
     fold_res (claim_resource k) rs s = Inr (claim_all k rs s)"
proof (induction rs arbitrary: s)
  case Nil
  then show ?case by (simp add: claim_all_def)
next
  case (Cons r rs)
  have "claim_resource k r s = Inr (s\<lparr>claims := om_put r k (claims s)\<rparr>)"
    using Cons.prems by (auto simp: claim_resource_def)
  moreover have "fold_res (claim_resource k) rs (s\<lparr>claims := om_put r k (claims s)\<rparr>) =
      Inr (claim_all k rs (s\<lparr>claims := om_put r k (claims s)\<rparr>))"
    by (rule Cons.IH) (use Cons.prems in auto)
  ultimately show ?case by (simp add: claim_all_def)
qed

section \<open>What a fence does\<close>

text \<open>The document after the victims are preempted and their waiting calls superseded.\<close>

definition preempted_document :: "env \<Rightarrow> string \<Rightarrow> string list \<Rightarrow> document \<Rightarrow> document" where
  "preempted_document e by_id victims s =
     supersede_calls e victims (fold (\<lambda>k. upd_demand k (preempt (now e) by_id)) victims s)"

lemma preempted_document_sel [simp]:
  "claims (preempted_document e by_id ks s) = claims s"
  "warm_residencies (preempted_document e by_id ks s) = warm_residencies s"
  "acquisition_decisions (preempted_document e by_id ks s) = acquisition_decisions s"
  by (simp_all add: preempted_document_def fold_upd_demand_sel)

lemma preempted_document_get:
  "distinct ks \<Longrightarrow> get_demand (preempted_document e by_id ks s) k =
     (if k \<in> set ks then map_option (preempt (now e) by_id) (get_demand s k) else get_demand s k)"
  by (simp add: preempted_document_def fold_preempt_get)

lemma preempted_document_kept:
  assumes "doc_inv s" "distinct ks" "\<And>k. k \<in> set ks \<Longrightarrow> \<exists>v. get_demand s k = Some v \<and> d_state v = Ready"
  shows "claims_kept s (preempted_document e by_id ks s)"
proof -
  let ?u = "fold (\<lambda>k. upd_demand k (preempt (now e) by_id)) ks s"
  have u: "claims_kept s ?u" by (rule fold_preempt_kept[OF assms])
  have inv: "doc_inv ?u" by (rule claims_kept_doc_inv[OF assms(1) u])
  have "claims_kept ?u (supersede_calls e ks ?u)"
    by (rule demands_kept_claims_kept[OF inv supersede_calls_kept[OF inv]])
  then show ?thesis
    unfolding preempted_document_def by (rule claims_kept_trans[OF assms(1) u])
qed

text \<open>What a fenced demand is: the candidate, preparing, with nothing started.\<close>

definition fenced :: "demand \<Rightarrow> string list \<Rightarrow> demand \<Rightarrow> bool" where
  "fenced d victims d' \<longleftrightarrow>
     d_id d' = d_id d \<and> d_owner d' = d_owner d \<and> d_profile d' = d_profile d \<and>
     d_priority d' = d_priority d \<and> d_request d' = d_request d \<and> d_process d' = d_process d \<and>
     d_reservation_id d' = d_reservation_id d \<and> d_services d' = d_services d \<and>
     d_released d' = d_released d \<and> d_deadline d' = d_deadline d \<and>
     d_reserve_request d' = d_reserve_request d \<and>
     (d_ready_checked d' \<longrightarrow> d_ready_checked d) \<and>
     d_victims d' = victims \<and> d_state d' = Preparing \<and> \<not> d_effect_started d'"

lemma fence_result:
  assumes "fence e site d s = Inr (d', t)"
  shows "fenced d (conflicts s d) d'"
    "\<forall>k \<in> set (conflicts s d). \<exists>v. get_demand s k = Some v \<and> d_priority v < d_priority d \<and> d_state v = Ready"
    "t = (let u = preempted_document e (d_id d) (conflicts s d) s in
          if conflicts s d = [] then claim_all (d_id d) (p_resources (d_profile d)) u else u)"
proof -
  let ?ks = "conflicts s d"
  obtain u w where u: "fold_res (fence_victim e d) ?ks s = Inr u"
    and w: "(if ?ks = [] then fold_res (claim_resource (d_id d)) (p_resources (d_profile d))
               (supersede_calls e ?ks u) else Inr (supersede_calls e ?ks u)) = Inr w"
    and r: "t = w" "fenced d ?ks d'"
    using assms by (auto simp: fence_def Let_def res_simps fenced_def cong: if_cong)
  have f: "u = fold (\<lambda>k. upd_demand k (preempt (now e) (d_id d))) ?ks s \<and>
      (\<forall>k \<in> set ?ks. \<exists>v. get_demand s k = Some v \<and> d_priority v < d_priority d \<and> d_state v = Ready)"
    by (rule fold_preempt[OF _ u]) (auto dest: fence_victim_ok)
  then show "\<forall>k \<in> set ?ks. \<exists>v. get_demand s k = Some v \<and> d_priority v < d_priority d \<and> d_state v = Ready"
    by blast
  show "fenced d ?ks d'" by (rule r(2))
  show "t = (let u = preempted_document e (d_id d) ?ks s in
          if ?ks = [] then claim_all (d_id d) (p_resources (d_profile d)) u else u)"
    using w r(1) f claim_resources_ok by (auto simp: preempted_document_def Let_def split: if_splits)
qed

lemma maps_ok_put: "maps_ok s \<Longrightarrow> maps_ok (put_demand d s)"
  by (simp add: maps_ok_def put_demand_def)

text \<open>A demand that holds nothing enters the document.\<close>

lemma doc_inv_put:
  assumes "doc_inv s" "live_ok d" "\<not> d_effect_started d"
    and "\<And>d0. get_demand s (d_id d) = Some d0 \<Longrightarrow> d_state d0 \<notin> holding"
  shows "doc_inv (put_demand d s)"
proof -
  have ow: "owns (put_demand d s) x = owns s x" for x by (simp add: owns_def)
  have "\<exists>x. get_demand (put_demand d s) k = Some x \<and> r \<in> set (p_resources (d_profile x)) \<and> d_state x \<in> holding"
    if "get_claim (put_demand d s) r = Some k" for r k
    using that doc_inv_claim[OF assms(1), of r k] assms(4) by (cases "k = d_id d") auto
  then show ?thesis
    using assms maps_ok_put unfolding doc_inv_def
    by (auto simp: ow split: if_splits)
qed

lemma fenced_live: "fenced d ks d' \<Longrightarrow> \<not> d_ready_checked d \<Longrightarrow> live_ok d'"
  by (auto simp: fenced_def live_ok_def)

lemma claim_all_put: "claim_all k rs (put_demand d s) = put_demand d (claim_all k rs s)"
  by (simp add: claim_all_def put_demand_def)

lemma fence_put_inv:
  assumes "fence e site d s = Inr (d', t)" "doc_inv s" "\<not> d_ready_checked d"
    and "\<And>d0. get_demand s (d_id d) = Some d0 \<Longrightarrow> d_state d0 \<notin> holding"
  shows "doc_inv (put_demand d' t)"
proof -
  let ?ks = "conflicts s d"
  let ?u = "preempted_document e (d_id d) ?ks s"
  note r = fence_result[OF assms(1)]
  have kept: "claims_kept s ?u"
    by (rule preempted_document_kept[OF assms(2)]) (use r(2) in auto)
  have u: "doc_inv ?u" by (rule claims_kept_doc_inv[OF assms(2) kept])
  have nk: "d_id d \<notin> set ?ks" by (simp add: in_conflicts_iff)
  have id: "d_id d' = d_id d" "d_profile d' = d_profile d" "d_state d' = Preparing" "\<not> d_effect_started d'"
    using r(1) by (auto simp: fenced_def)
  have put: "doc_inv (put_demand d' ?u)"
    by (rule doc_inv_put[OF u fenced_live[OF r(1) assms(3)]])
      (use assms(4) nk id in \<open>auto simp: preempted_document_get\<close>)
  show ?thesis
  proof (cases "?ks = []")
    case True
    have "doc_inv (claim_all (d_id d) (p_resources (d_profile d')) (put_demand d' ?u))"
      by (rule doc_inv_claim_all[OF put]) (use True id in \<open>auto simp: conflicts_empty_iff\<close>)
    then show ?thesis
      using r(3) True id(2) by (simp add: claim_all_put Let_def)
  next
    case False
    then show ?thesis using r(3) put by (simp add: Let_def)
  qed
qed

section \<open>Claim transfer\<close>

lemma map_res_unit_ok: "map_res f xs = Inr us \<Longrightarrow> x \<in> set xs \<Longrightarrow> \<exists>u. f x = Inr u"
  using map_res_image by fastforce

lemma transfer_result:
  assumes "transfer d s = Inr t"
  shows "t = claim_all (d_id d) (p_resources (d_profile d)) s"
    "\<forall>r \<in> set (p_resources (d_profile d)). get_claim s r = None \<or> get_claim s r = Some (d_id d)"
    "\<forall>k \<in> set (d_victims d). \<exists>v. get_demand s k = Some v \<and> d_state v = Preempted \<and> \<not> inflight s k"
proof -
  obtain us where us: "map_res (transfer_victim s) (d_victims d) = Inr us"
    and nr: "\<not> (\<exists>r \<in> set (p_resources (d_profile d)). is_some_and (get_claim s r) (\<lambda>owner. owner \<noteq> d_id d))"
    and t: "t = claim_all (d_id d) (p_resources (d_profile d)) s"
    using assms by (auto simp: transfer_def res_simps split: if_splits)
  show "t = claim_all (d_id d) (p_resources (d_profile d)) s" by (rule t)
  show "\<forall>r \<in> set (p_resources (d_profile d)). get_claim s r = None \<or> get_claim s r = Some (d_id d)"
    using nr by (auto simp: is_some_and_iff) (metis option.exhaust)
  show "\<forall>k \<in> set (d_victims d). \<exists>v. get_demand s k = Some v \<and> d_state v = Preempted \<and> \<not> inflight s k"
  proof
    fix k assume "k \<in> set (d_victims d)"
    then obtain w where "transfer_victim s k = Inr w" using map_res_unit_ok[OF us] by blast
    then show "\<exists>v. get_demand s k = Some v \<and> d_state v = Preempted \<and> \<not> inflight s k"
      by (auto simp: transfer_victim_def res_simps split: if_splits)
  qed
qed

lemma transfer_inv:
  assumes "transfer d s = Inr t" "doc_inv s" "get_demand s (d_id d) = Some d" "d_state d \<in> holding"
  shows "doc_inv t"
  using transfer_result[OF assms(1)] doc_inv_claim_all[OF assms(2,3,4)] by auto

section \<open>What a group fence does\<close>

lemma fence_member_fenced: "fence_member e site victims s d = Inr d' \<Longrightarrow> fenced d victims d' \<and> \<not> d_ready_checked d'"
  by (auto simp: fence_member_def Let_def res_simps fenced_def)

lemma fence_group_result:
  assumes "fence_group e site root_id ds s = Inr (ds', t)"
  shows "list_all2 (\<lambda>d d'. fenced d (group_conflicts s ds) d' \<and> \<not> d_ready_checked d') ds ds'"
    "\<forall>k \<in> set (group_conflicts s ds). \<exists>v. get_demand s k = Some v \<and>
       (\<exists>p. group_priority ds = Some p \<and> d_priority v < p) \<and> d_state v = Ready"
    "let u = preempted_document e root_id (group_conflicts s ds) s in
     if group_conflicts s ds = [] then fold_res claim_demand ds u = Inr t else t = u"
proof -
  let ?ks = "group_conflicts s ds"
  obtain u where u: "fold_res (fence_group_victim e root_id ds) ?ks s = Inr u"
    and w: "(if ?ks = [] then fold_res claim_demand ds (supersede_calls e ?ks u)
             else Inr (supersede_calls e ?ks u)) = Inr t"
    and m: "map_res (fence_member e site ?ks t) ds = Inr ds'"
    using assms by (auto simp: fence_group_def Let_def res_simps)
  have f: "u = fold (\<lambda>k. upd_demand k (preempt (now e) root_id)) ?ks s \<and>
      (\<forall>k \<in> set ?ks. \<exists>v. get_demand s k = Some v \<and>
         (\<exists>p. group_priority ds = Some p \<and> d_priority v < p) \<and> d_state v = Ready)"
    by (rule fold_preempt[OF _ u]) (auto dest: fence_group_victim_ok)
  then show "\<forall>k \<in> set ?ks. \<exists>v. get_demand s k = Some v \<and>
       (\<exists>p. group_priority ds = Some p \<and> d_priority v < p) \<and> d_state v = Ready"
    by blast
  show "let u = preempted_document e root_id ?ks s in
     if ?ks = [] then fold_res claim_demand ds u = Inr t else t = u"
    using w f by (auto simp: preempted_document_def Let_def split: if_splits)
  show "list_all2 (\<lambda>d d'. fenced d ?ks d' \<and> \<not> d_ready_checked d') ds ds'"
    using m unfolding map_res_Inr_iff by (rule list_all2_mono) (rule fence_member_fenced)
qed

text \<open>Entering several demands, and then taking their devices.\<close>

definition put_demands :: "demand list \<Rightarrow> document \<Rightarrow> document" where
  "put_demands ds s = fold put_demand ds s"

lemma put_demands_get:
  "distinct (map d_id ds) \<Longrightarrow> d \<in> set ds \<Longrightarrow> get_demand (put_demands ds s) (d_id d) = Some d"
  unfolding put_demands_def
proof (induction ds arbitrary: s)
  case Nil
  then show ?case by simp
next
  case (Cons x xs)
  have other: "k \<notin> d_id ` set xs \<Longrightarrow> get_demand (fold put_demand xs s) k = get_demand s k" for k s
    by (induction xs arbitrary: s) auto
  show ?case
    using Cons other[of "d_id x" "put_demand x s"] by auto
qed

lemma put_demands_other:
  "k \<notin> d_id ` set ds \<Longrightarrow> get_demand (put_demands ds s) k = get_demand s k"
  unfolding put_demands_def by (induction ds arbitrary: s) auto

lemma put_demands_sel [simp]: "claims (put_demands ds s) = claims s"
  unfolding put_demands_def by (induction ds arbitrary: s) auto

lemma doc_inv_put_demands:
  assumes "doc_inv s" "distinct (map d_id ds)"
    and "\<And>d. d \<in> set ds \<Longrightarrow> live_ok d \<and> \<not> d_effect_started d"
    and "\<And>d d0. d \<in> set ds \<Longrightarrow> get_demand s (d_id d) = Some d0 \<Longrightarrow> d_state d0 \<notin> holding"
  shows "doc_inv (put_demands ds s)"
  using assms unfolding put_demands_def
proof (induction ds arbitrary: s)
  case Nil
  then show ?case by simp
next
  case (Cons x xs)
  have x: "doc_inv (put_demand x s)"
    by (rule doc_inv_put) (use Cons.prems in auto)
  have "doc_inv (fold put_demand xs (put_demand x s))"
  proof (rule Cons.IH[OF x])
    show "distinct (map d_id xs)" using Cons.prems(2) by simp
    show "live_ok d \<and> \<not> d_effect_started d" if "d \<in> set xs" for d
      using that Cons.prems(3) by simp
    fix d d0
    assume d: "d \<in> set xs" and g: "get_demand (put_demand x s) (d_id d) = Some d0"
    have "d_id d \<noteq> d_id x" using Cons.prems(2) d by (auto simp: image_iff)
    then show "d_state d0 \<notin> holding" using g d Cons.prems(4)[of d d0] by simp
  qed
  then show ?case by simp
qed

lemma claim_all_put_demands: "claim_all k rs (put_demands ds s) = put_demands ds (claim_all k rs s)"
  unfolding put_demands_def by (induction ds arbitrary: s) (auto simp: claim_all_put)

lemma claim_demands_inv:
  assumes "fold_res claim_demand ds s = Inr t" "doc_inv (put_demands xs s)"
    and "\<And>d. d \<in> set ds \<Longrightarrow> \<exists>x. get_demand (put_demands xs s) (d_id d) = Some x \<and>
           d_profile x = d_profile d \<and> d_state x \<in> holding"
  shows "doc_inv (put_demands xs t)"
  using assms
proof (induction ds arbitrary: s)
  case Nil
  then show ?case by simp
next
  case (Cons d ds)
  obtain u where u: "claim_demand d s = Inr u" "fold_res claim_demand ds u = Inr t"
    using Cons.prems(1) by (auto split: sum.splits)
  note c = claim_resources_ok[OF u(1)[unfolded claim_demand_def]]
  obtain x where x: "get_demand (put_demands xs s) (d_id d) = Some x" "d_profile x = d_profile d"
      "d_state x \<in> holding"
    using Cons.prems(3)[of d] by auto
  have eq: "put_demands xs u = claim_all (d_id d) (p_resources (d_profile x)) (put_demands xs s)"
    using c x(2) by (simp add: claim_all_put_demands)
  have "doc_inv (put_demands xs u)"
    unfolding eq by (rule doc_inv_claim_all[OF Cons.prems(2) x(1,3)]) (use c x(2) in auto)
  then show ?case
  proof (rule Cons.IH[OF u(2)])
    fix d2 assume "d2 \<in> set ds"
    then show "\<exists>x. get_demand (put_demands xs u) (d_id d2) = Some x \<and>
        d_profile x = d_profile d2 \<and> d_state x \<in> holding"
      using Cons.prems(3)[of d2] by (simp add: eq)
  qed
qed

lemma fenced_list_ids:
  "list_all2 (\<lambda>d d'. fenced d ks d' \<and> \<not> d_ready_checked d') ds ds' \<Longrightarrow> map d_id ds' = map d_id ds"
  by (induction ds ds' rule: list_all2_induct) (auto simp: fenced_def)

lemma fence_group_put_inv:
  assumes f: "fence_group e site root_id ds s = Inr (ds', t)" and inv: "doc_inv s"
    and dist: "distinct (map d_id ds)"
    and new: "\<And>d. d \<in> set ds \<Longrightarrow> get_demand s (d_id d) = None"
  shows "doc_inv (put_demands ds' t)"
proof -
  let ?ks = "group_conflicts s ds"
  let ?u = "preempted_document e root_id ?ks s"
  note r = fence_group_result[OF f]
  have u: "doc_inv ?u"
    by (rule claims_kept_doc_inv[OF inv preempted_document_kept[OF inv]]) (use r(2) in auto)
  have ids: "map d_id ds' = map d_id ds" by (rule fenced_list_ids[OF r(1)])
  have ds': "\<exists>d \<in> set ds. fenced d ?ks d' \<and> \<not> d_ready_checked d'" if "d' \<in> set ds'" for d'
    using r(1) that by (auto simp: list_all2_conv_all_nth in_set_conv_nth) (metis nth_mem)
  have ds: "\<exists>d' \<in> set ds'. fenced d ?ks d'" if "d \<in> set ds" for d
    using r(1) that by (metis (no_types, lifting) list_all2_conv_all_nth in_set_conv_nth)
  have put: "doc_inv (put_demands ds' ?u)"
  proof (rule doc_inv_put_demands[OF u])
    show "distinct (map d_id ds')" using ids dist by simp
    show "live_ok d \<and> \<not> d_effect_started d" if "d \<in> set ds'" for d
      using ds'[OF that] by (auto simp: fenced_def live_ok_def)
    fix d d0
    assume d: "d \<in> set ds'" "get_demand ?u (d_id d) = Some d0"
    obtain d1 where d1: "d1 \<in> set ds" "d_id d = d_id d1" using ds'[OF d(1)] by (auto simp: fenced_def)
    then show "d_state d0 \<notin> holding"
      using new[OF d1(1)] d(2) by (simp add: preempted_document_get split: if_splits)
  qed
  show ?thesis
  proof (cases "?ks = []")
    case True
    then have "fold_res claim_demand ds ?u = Inr t" using r(3) by (simp add: Let_def)
    then show ?thesis
    proof (rule claim_demands_inv[OF _ put])
      fix d assume "d \<in> set ds"
      then obtain d' where d': "d' \<in> set ds'" "fenced d ?ks d'" using ds by blast
      then have "get_demand (put_demands ds' ?u) (d_id d') = Some d'"
        using put_demands_get ids dist by simp
      then show "\<exists>x. get_demand (put_demands ds' ?u) (d_id d) = Some x \<and>
          d_profile x = d_profile d \<and> d_state x \<in> holding"
        using d'(2) by (auto simp: fenced_def)
    qed
  next
    case False
    then show ?thesis using r(3) put by (simp add: Let_def)
  qed
qed

section \<open>Properties of preemption and transfer\<close>

lemma preempted_document_calls:
  "get_call (preempted_document e by_id ks s) k =
     map_option (\<lambda>i. if q_reservation_id (i_request i) \<in> set ks
       then cancel_queued_as_superseded (now e) i else i) (get_call s k)"
  by (simp add: preempted_document_def supersede_calls_def fold_upd_demand_sel)

text \<open>C6: a fence preempts only ready incumbents of strictly lower priority, and takes no device
  from anyone. Every demand is left as it was, or held a device the candidate needs, was
  \<open>Ready\<close> with a strictly lower priority, and is now draining for this candidate; every claim
  that existed still has its owner; running and uncertain calls are untouched.\<close>

theorem fence_preempts_only_lower:
  assumes "fence e site d s = Inr (d', t)"
  shows "(\<forall>k v. get_demand s k = Some v \<longrightarrow>
      get_demand t k = Some v \<or>
      (d_state v = Ready \<and> d_priority v < d_priority d \<and>
       (\<exists>r \<in> set (p_resources (d_profile d)). get_claim s r = Some k) \<and>
       get_demand t k = Some (preempt (now e) (d_id d) v))) \<and>
    (\<forall>r k. get_claim s r = Some k \<longrightarrow> get_claim t r = Some k) \<and>
    (\<forall>k i. get_call s k = Some i \<longrightarrow> i_state i \<noteq> Queued \<longrightarrow> get_call t k = Some i)"
proof -
  let ?ks = "conflicts s d"
  let ?u = "preempted_document e (d_id d) ?ks s"
  note r = fence_result[OF assms]
  have sel: "demands t = demands ?u" "invocations t = invocations ?u"
    using r(3) by (auto simp: Let_def split: if_splits)
  have "get_demand t k = Some v \<or>
      (d_state v = Ready \<and> d_priority v < d_priority d \<and>
       (\<exists>r \<in> set (p_resources (d_profile d)). get_claim s r = Some k) \<and>
       get_demand t k = Some (preempt (now e) (d_id d) v))" if v: "get_demand s k = Some v" for k v
  proof (cases "k \<in> set ?ks")
    case True
    then have "d_priority v < d_priority d \<and> d_state v = Ready" using r(2) v by fastforce
    then show ?thesis
      using True v sel by (auto simp: preempted_document_get in_conflicts_iff)
  next
    case False
    then show ?thesis using v sel by (simp add: preempted_document_get)
  qed
  moreover have "get_claim t r = Some k" if "get_claim s r = Some k" for r k
    using that r(3) conflicts_empty_iff[of s d] by (auto simp: Let_def split: if_splits)
  moreover have "get_call t k = Some i" if "get_call s k = Some i" "i_state i \<noteq> Queued" for k i
    using that sel by (simp add: preempted_document_calls cancel_queued_as_superseded_def)
  ultimately show ?thesis by blast
qed

lemma first_some_None: "first_some f xs = None \<longleftrightarrow> (\<forall>x \<in> set xs. f x = None)"
  by (induction xs) (auto split: option.splits)

lemma fold_fence_victims:
  assumes "distinct ks"
    and "\<And>k. k \<in> set ks \<Longrightarrow> \<exists>v. get_demand s k = Some v \<and> d_priority v < d_priority d \<and> d_state v = Ready"
  shows "\<exists>u. fold_res (fence_victim e d) ks s = Inr u"
  using assms
proof (induction ks arbitrary: s)
  case Nil
  then show ?case by simp
next
  case (Cons k ks)
  obtain v where v: "get_demand s k = Some v" "d_priority v < d_priority d" "d_state v = Ready"
    using Cons.prems(2)[of k] by auto
  then have s1: "fence_victim e d k s = Inr (upd_demand k (preempt (now e) (d_id d)) s)"
    by (simp add: fence_victim_def)
  have "\<exists>u. fold_res (fence_victim e d) ks (upd_demand k (preempt (now e) (d_id d)) s) = Inr u"
    by (rule Cons.IH) (use Cons.prems in auto)
  then show ?case by (simp add: s1)
qed

lemma planned_fence_succeeds:
  assumes "refusal c legacy s d = None" and "d_victims d = []"
    and "\<And>x. \<exists>k. fresh e x = Inr k"
  shows "\<exists>d' t. fence e site d s = Inr (d', t)"
proof -
  have none: "incumbent_refusal s d k = None" if "k \<in> set (conflicts s d)" for k
    using assms(1) that
    by (auto simp: refusal_def first_some_None split: sum.splits if_splits option.splits)
  have v: "\<exists>v. get_demand s k = Some v \<and> d_priority v < d_priority d \<and> d_state v = Ready"
    if "k \<in> set (conflicts s d)" for k
    using none[OF that] assms(2)
    by (auto simp: incumbent_refusal_def not_le split: option.splits if_splits)
  obtain u where u: "fold_res (fence_victim e d) (conflicts s d) s = Inr u"
    using fold_fence_victims[OF distinct_conflicts(1) v] by blast
  have cu: "claims u = claims s"
  proof -
    have "u = fold (\<lambda>k. upd_demand k (preempt (now e) (d_id d))) (conflicts s d) s \<and>
       (\<forall>k \<in> set (conflicts s d). \<exists>v. get_demand s k = Some v \<and> True \<and> d_state v = Ready)"
      by (rule fold_preempt[OF _ u]) (auto dest: fence_victim_ok)
    then show ?thesis by (simp add: fold_upd_demand_sel)
  qed
  obtain g a where ga: "fresh e (site @ [''generation'']) = Inr g" "fresh e (site @ [''access_key'']) = Inr a"
    using assms(3) by metis
  have act: "\<exists>b. backend_activation_for e site w x = Inr b" for w x
    using assms(3) by (auto simp: backend_activation_for_def split: option.splits)
  let ?u = "supersede_calls e (conflicts s d) u"
  let ?w = "if conflicts s d = [] then claim_all (d_id d) (p_resources (d_profile d)) ?u else ?u"
  obtain b where b: "backend_activation_for e site ?w
      (d\<lparr>d_victims := conflicts s d, d_generation := g, d_access_key := a\<rparr>) = Inr b"
    using act by blast
  have cl: "fold_res (claim_resource (d_id d)) (p_resources (d_profile d)) ?u =
      Inr (claim_all (d_id d) (p_resources (d_profile d)) ?u)" if "conflicts s d = []"
    using that conflicts_empty_iff[of s d] cu by (intro claim_resources_free) simp
  show ?thesis
  proof (cases "conflicts s d = []")
    case True
    then show ?thesis using u ga b cl by (simp add: fence_def Let_def)
  next
    case False
    then show ?thesis using u ga b by (simp add: fence_def Let_def)
  qed
qed

text \<open>Admission and planning agree. When \<open>refusal\<close> finds nothing against a new
  candidate and random identities are available, the fence succeeds, whatever the document: no
  candidate is admitted and then left without its fence.\<close>

theorem refusal_none_fence_succeeds:
  assumes "refusal c legacy s d = None" and "d_victims d = []"
    and "\<And>x. \<exists>k. fresh e x = Inr k"
  shows "\<exists>d' t. fence e site d s = Inr (d', t)"
  by (rule planned_fence_succeeds[OF assms])

text \<open>C5: a claim transfer is safe. When \<open>transfer\<close> succeeds, every incumbent the
  candidate displaces is recorded as \<open>Preempted\<close> and has no backend call in flight, the
  candidate owns every device of its profile, and no claim of anybody else is lost.\<close>

theorem transfer_takes_only_free:
  assumes "transfer d s = Inr t"
  shows "owns t d \<and> demands t = demands s \<and>
    (\<forall>k \<in> set (d_victims d). \<exists>v. get_demand s k = Some v \<and> d_state v = Preempted \<and> \<not> inflight s k) \<and>
    (\<forall>r k. get_claim s r = Some k \<longrightarrow> get_claim t r = Some k)"
  using transfer_result[OF assms] by (auto simp: owns_def)

text \<open>A candidate of higher priority for the device of the sample.\<close>

definition sample_candidate :: demand where
  "sample_candidate = (sample_demand ''d2'' Preparing High (sample_profile ''coder'' [''gpu0'']))
     \<lparr>d_ready_checked := False, d_process := None, d_effect_started := False\<rparr>"

lemma sample_conflicts: "conflicts sample_document sample_candidate = [''d1'']"
  by (simp add: conflicts_def sample_document_def sample_candidate_def sample_demand_def
      sample_profile_def opt_list_def)

lemma sample_fence: "\<exists>d' t. fence sample_env [''t''] sample_candidate sample_document = Inr (d', t)"
proof -
  have v: "fence_victim sample_env sample_candidate ''d1'' sample_document =
      Inr (upd_demand ''d1'' (preempt 100 ''d2'') sample_document)"
    by (simp add: fence_victim_def sample_document_def sample_candidate_def sample_demand_def
        less_eq_priority_def)
  show ?thesis
    unfolding fence_def sample_conflicts
    by (simp add: v Let_def backend_activation_for_def supported_def)
      (simp add: sample_candidate_def sample_demand_def sample_profile_def)
qed

theorem fence_preempts_only_lower_witness:
  "\<exists>d' t v. fence sample_env [''t''] sample_candidate sample_document = Inr (d', t) \<and>
     get_demand sample_document ''d1'' = Some v \<and>
     (get_demand t ''d1'' = Some v \<or> get_demand t ''d1'' = Some (preempt 100 ''d2'' v)) \<and>
     get_claim t ''gpu0'' = Some ''d1''"
proof -
  obtain d' t where f: "fence sample_env [''t''] sample_candidate sample_document = Inr (d', t)"
    using sample_fence by blast
  let ?v = "sample_demand ''d1'' Ready Low (sample_profile ''coder'' [''gpu0''])"
  have v: "get_demand sample_document ''d1'' = Some ?v" "get_claim sample_document ''gpu0'' = Some ''d1''"
    by (simp_all add: sample_document_def)
  have "d_id sample_candidate = ''d2''" by (simp add: sample_candidate_def sample_demand_def)
  then show ?thesis using fence_preempts_only_lower[OF f] v f by auto
qed

theorem refusal_none_fence_succeeds_witness:
  "refusal sample_config (\<lambda>_. Inr []) sample_document sample_candidate = None \<and>
   (\<exists>d' t. fence sample_env [''t''] sample_candidate sample_document = Inr (d', t))"
proof -
  have r: "refusal sample_config (\<lambda>_. Inr []) sample_document sample_candidate = None"
    unfolding refusal_def sample_conflicts
    by (simp add: incumbent_refusal_def occupied_host_def sample_conflicts retained_host_mib_def)
      (simp add: sample_document_def sample_candidate_def sample_demand_def sample_profile_def
        om_vals_def less_eq_priority_def sat_add_def u64_max_def sample_config_def)
  have v: "d_victims sample_candidate = []" by (simp add: sample_candidate_def sample_demand_def)
  show ?thesis
    using r refusal_none_fence_succeeds[OF r v, of sample_env "[''t'']"] by simp
qed

theorem transfer_takes_only_free_witness:
  "\<exists>t. transfer sample_candidate (sample_document\<lparr>claims := []\<rparr>) = Inr t \<and> owns t sample_candidate"
proof -
  have "\<exists>t. transfer sample_candidate (sample_document\<lparr>claims := []\<rparr>) = Inr t"
    by (simp add: transfer_def sample_candidate_def sample_demand_def)
  then show ?thesis using transfer_takes_only_free by blast
qed

end
