(* ===== verification/Admission.thy ===== *)
theory Admission
  imports Planner "HOL-Library.Multiset"
begin

text \<open>
  \<open>admission.rs\<close>: an acquisition is decided at once, under the authority lock. It is a repeat, a
  refusal (remembered for two seconds, in a cache of at most 128 entries), or a new demand with
  its fence.
\<close>

definition DECISION_CACHE_SECONDS :: nat where
  "DECISION_CACHE_SECONDS = 2"

definition MAX_DECISION_CACHE_ENTRIES :: nat where
  "MAX_DECISION_CACHE_ENTRIES = 128"

section \<open>Preparation\<close>

definition validate_request :: "acquire \<Rightarrow> nat \<Rightarrow> unit res" where
  "validate_request r max_ttl =
     (if a_schema r \<noteq> VERSION \<or> \<not> valid_id (a_acquisition_id r) \<or> \<not> valid_id (a_work_id r)
         \<or> a_ttl_seconds r = 0 \<or> a_ttl_seconds r > max_ttl \<or> a_context_tokens r = 0
         \<or> a_capabilities r = [] \<or> \<not> distinct (a_capabilities r)
      then Inl ''invalid_request'' else Inr ())"

definition find_profile :: "config \<Rightarrow> string \<Rightarrow> profile option" where
  "find_profile c tag = List.find (\<lambda>p. p_tag p = tag) (c_profiles c)"

definition prepare ::
  "env \<Rightarrow> config \<Rightarrow> source \<Rightarrow> string list \<Rightarrow> acquire \<Rightarrow> nat \<Rightarrow> demand res" where
  "prepare e c src site r order =
     res_bind (validate_request r (c_max_ttl_seconds c)) (\<lambda>_.
     if a_qualification r \<and> \<not> src_qualification src then Inl ''qualification_mode_denied''
     else
       res_bind (ok_or (find_profile c (a_tag r)) ''unknown_tag'') (\<lambda>p.
       res_bind (enc_profile e p) (\<lambda>bytes.
       res_bind (fresh e (site @ [''id''])) (\<lambda>k.
       res_bind (fresh e (site @ [''new_generation''])) (\<lambda>generation.
       res_bind (fresh e (site @ [''new_access_key''])) (\<lambda>access_key.
         Inr \<lparr>d_reservation_id = None, d_services = [], d_reserve_request = None,
              d_reserve_result = None, d_reservation_closed = None,
              d_recovery_reconciliation = None, d_recovery_error = None,
              d_workspace_recovery_analyses = [], d_id = k, d_owner = src_source src,
              d_request = r, d_priority = unwrap_or (a_priority r) Low, d_profile = p,
              d_profile_hash = sha256 e bytes, d_state = Preparing, d_reason = None,
              d_retry_after = None, d_preempted_by = None, d_ready_checked = False,
              d_accepted_calls = 0, d_generation = generation, d_access_key = access_key,
              d_backend_activation = None, d_created = now e, d_last_activity_at = None,
              d_order = order, d_deadline = now e + a_ttl_seconds r, d_transition_deadline = 0,
              d_victims = [], d_process = None, d_effect_started = False,
              d_preflight_done = False, d_released = False\<rparr>))))))"

definition eligibility :: "demand \<Rightarrow> string option" where
  "eligibility d =
     (if \<not> p_qualified (d_profile d) \<and> \<not> a_qualification (d_request d)
      then Some ''unqualified_profile''
      else if a_context_tokens (d_request d) > p_context_tokens (d_profile d)
           \<or> (\<exists>c \<in> set (a_capabilities (d_request d)). c \<notin> set (p_capabilities (d_profile d)))
      then Some ''capability_or_context_unqualified''
      else None)"

definition unavailable :: "env \<Rightarrow> source \<Rightarrow> demand \<Rightarrow> string \<Rightarrow> nat option \<Rightarrow> demand" where
  "unavailable e src d reason retry_after =
     (let digest = sha256 e (src_source src @ ''/'' @ a_acquisition_id (d_request d) @ ''/'' @
                             a_tag (d_request d)) in
      d\<lparr>d_id := ''unavailable-'' @ take 48 digest, d_generation := digest, d_access_key := digest,
        d_state := Unavailable, d_reason := Some reason, d_retry_after := retry_after,
        d_deadline := now e, d_transition_deadline := 0\<rparr>)"

section \<open>The cache of refusals\<close>

fun priority_name :: "priority \<Rightarrow> string" where
  "priority_name Low = ''low''"
| "priority_name Medium = ''medium''"
| "priority_name High = ''high''"
| "priority_name Paramount = ''paramount''"

fun capability_name :: "capability \<Rightarrow> string" where
  "capability_name Reasoning = ''reasoning''"
| "capability_name Coding = ''coding''"
| "capability_name Visual = ''visual''"
| "capability_name Audio = ''audio''"

fun state_name :: "demand_state \<Rightarrow> string" where
  "state_name Unavailable = ''unavailable''"
| "state_name Preparing = ''preparing''"
| "state_name Ready = ''ready''"
| "state_name Preempting = ''preempting''"
| "state_name Preempted = ''preempted''"
| "state_name Releasing = ''releasing''"
| "state_name Released = ''released''"
| "state_name Cancelled = ''cancelled''"
| "state_name Expired = ''expired''"
| "state_name RecoveryRequired = ''recovery_required''"

definition opt_json :: "('a \<Rightarrow> json) \<Rightarrow> 'a option \<Rightarrow> json" where
  "opt_json f x = (case x of None \<Rightarrow> JNull | Some v \<Rightarrow> f v)"

definition decision_key :: "env \<Rightarrow> string \<Rightarrow> demand \<Rightarrow> string res" where
  "decision_key e owner d =
     res_bind (enc_value e (JObject
       [(''owner'', JString owner), (''tag'', JString (a_tag (d_request d))),
        (''priority'', JString (priority_name (d_priority d))),
        (''capabilities'', JArray (map (JString \<circ> capability_name) (a_capabilities (d_request d)))),
        (''context_tokens'', JPosInt (a_context_tokens (d_request d))),
        (''ttl_seconds'', JPosInt (a_ttl_seconds (d_request d))),
        (''qualification'', JBool (a_qualification (d_request d))),
        (''profile_hash'', JString (d_profile_hash d))])) (\<lambda>b. Inr (sha256 e b))"

definition decision_environment :: "env \<Rightarrow> document \<Rightarrow> demand \<Rightarrow> string res" where
  "decision_environment e s d =
     res_bind (enc_value e (JArray (map (\<lambda>r.
       let incumbent = (case get_claim s r of None \<Rightarrow> None | Some k \<Rightarrow> get_demand s k) in
       JObject [(''resource'', JString r), (''claim'', opt_json JString (get_claim s r)),
                (''state'', opt_json (\<lambda>v. JString (state_name (d_state v))) incumbent),
                (''priority'', opt_json (\<lambda>v. JString (priority_name (d_priority v))) incumbent),
                (''generation'', opt_json (\<lambda>v. JString (d_generation v)) incumbent)])
       (p_resources (d_profile d))))) (\<lambda>b. Inr (sha256 e b))"

definition purge_decisions :: "env \<Rightarrow> document \<Rightarrow> document" where
  "purge_decisions e s =
     (let m = om_retain (\<lambda>_ x. ad_expires_at x > now e) (acquisition_decisions s) in
      if length m \<le> MAX_DECISION_CACHE_ENTRIES then s\<lparr>acquisition_decisions := m\<rparr>
      else
        (let oldest = sort (map (\<lambda>(k, x). (ad_expires_at x, k)) m) in
         s\<lparr>acquisition_decisions :=
             fold (\<lambda>(_, k). om_del k) (take (length m - MAX_DECISION_CACHE_ENTRIES) oldest) m\<rparr>))"

section \<open>Acquisition\<close>

definition same_acquisition :: "source \<Rightarrow> acquire \<Rightarrow> demand \<Rightarrow> bool" where
  "same_acquisition src r d \<longleftrightarrow>
     d_owner d = src_source src \<and> a_acquisition_id (d_request d) = a_acquisition_id r"

definition cached_decision ::
  "env \<Rightarrow> source \<Rightarrow> document \<Rightarrow> string \<Rightarrow> string \<Rightarrow> acquisition_decision option" where
  "cached_decision e src s key environment =
     (case map_of (acquisition_decisions s) key of
        Some x \<Rightarrow>
          if ad_owner x = src_source src \<and> ad_environment x = environment \<and> ad_expires_at x > now e
          then Some x else None
      | None \<Rightarrow> None)"

definition remember_refusal ::
  "env \<Rightarrow> source \<Rightarrow> string \<Rightarrow> string \<Rightarrow> string \<Rightarrow> document \<Rightarrow> document" where
  "remember_refusal e src key environment reason s =
     purge_decisions e (s\<lparr>acquisition_decisions := om_put key
       \<lparr>ad_owner = src_source src, ad_environment = environment, ad_reason = reason,
        ad_retry_after = DECISION_CACHE_SECONDS,
        ad_expires_at = now e + DECISION_CACHE_SECONDS\<rparr> (acquisition_decisions s)\<rparr>)"

definition admit :: "env \<Rightarrow> config \<Rightarrow> string list \<Rightarrow> demand \<Rightarrow> document \<Rightarrow> (demand \<times> document) res" where
  "admit e c site d s =
     res_bind (fence e site d s) (\<lambda>(d, s).
     res_bind (retention e (c_limits c) (put_demand d s)) (\<lambda>s. Inr (d, s)))"

definition acquire_in ::
  "env \<Rightarrow> config \<Rightarrow> (string list \<Rightarrow> string list res) \<Rightarrow> source \<Rightarrow> acquire \<Rightarrow> document
     \<Rightarrow> (demand \<times> document) res" where
  "acquire_in e c legacy src r s =
     (case List.find (same_acquisition src r) (om_vals (demands s)) of
        Some d \<Rightarrow> if d_request d = r then Inr (d, s) else Inl ''identity_conflict''
      | None \<Rightarrow>
          res_bind (prepare e c src [''acquire''] r (length (demands s))) (\<lambda>d.
          case eligibility d of
            Some reason \<Rightarrow> Inr (unavailable e src d reason None, s)
          | None \<Rightarrow>
              res_bind (decision_key e (src_source src) d) (\<lambda>key.
              res_bind (decision_environment e s d) (\<lambda>environment.
              let s = purge_decisions e s in
              case cached_decision e src s key environment of
                Some x \<Rightarrow> Inr (unavailable e src d (ad_reason x) (Some (ad_retry_after x)), s)
              | None \<Rightarrow>
                  (case refusal c legacy s d of
                     Some reason \<Rightarrow>
                       Inr (unavailable e src d reason (Some DECISION_CACHE_SECONDS),
                            remember_refusal e src key environment reason s)
                   | None \<Rightarrow> admit e c [''acquire''] d s)))))"

definition acquire_op ::
  "env \<Rightarrow> config \<Rightarrow> (string list \<Rightarrow> string list res) \<Rightarrow> source \<Rightarrow> acquire \<Rightarrow> document
     \<Rightarrow> (demand \<times> document) res" where
  "acquire_op e c legacy src r s =
     (if a_source_system r \<noteq> src_source src then Inl ''source_spoofing''
      else acquire_in e c legacy src r s)"

section \<open>The invariant is kept\<close>

text \<open>The identities drawn from \<open>/dev/urandom\<close> are new, and two draws differ.\<close>

definition fresh_ids :: "env \<Rightarrow> document \<Rightarrow> bool" where
  "fresh_ids e s \<longleftrightarrow>
     (\<forall>site k. fresh e site = Inr k \<longrightarrow> get_demand s k = None \<and> get_call s k = None) \<and>
     (\<forall>site site' k. fresh e site = Inr k \<longrightarrow> fresh e site' = Inr k \<longrightarrow> site = site')"

lemma demands_kept_decisions:
  "doc_inv s \<Longrightarrow> om_ok m \<Longrightarrow> demands_kept s (s\<lparr>acquisition_decisions := m\<rparr>)"
  by (simp add: demands_kept_def doc_inv_def maps_ok_def calls_ok_def)

lemma om_ok_fold_del: "om_ok m \<Longrightarrow> om_ok (fold (\<lambda>(_, k). om_del k) ks m)"
  by (induction ks arbitrary: m) auto

lemma purge_decisions_kept: "doc_inv s \<Longrightarrow> demands_kept s (purge_decisions e s)"
  by (auto simp: purge_decisions_def Let_def om_ok_fold_del doc_inv_def maps_ok_def
      intro!: demands_kept_decisions)

lemma remember_refusal_kept:
  assumes "doc_inv s"
  shows "demands_kept s (remember_refusal e src key environment reason s)"
proof -
  let ?s = "s\<lparr>acquisition_decisions := om_put key
       \<lparr>ad_owner = src_source src, ad_environment = environment, ad_reason = reason,
        ad_retry_after = DECISION_CACHE_SECONDS,
        ad_expires_at = now e + DECISION_CACHE_SECONDS\<rparr> (acquisition_decisions s)\<rparr>"
  have k: "demands_kept s ?s"
    by (rule demands_kept_decisions[OF assms]) (use assms in \<open>simp add: doc_inv_def maps_ok_def\<close>)
  show ?thesis
    unfolding remember_refusal_def
    by (rule demands_kept_trans[OF k purge_decisions_kept[OF demands_kept_doc_inv[OF assms k]]])
qed

lemma prepare_result:
  assumes "prepare e c src site r order = Inr d"
  shows "\<not> d_ready_checked d" "d_victims d = []" "fresh e (site @ [''id'']) = Inr (d_id d)"
    "d_request d = r" "d_owner d = src_source src" "\<not> d_effect_started d" "d_state d = Preparing"
    "d_process d = None" "d_deadline d = now e + a_ttl_seconds r" "\<not> d_released d"
    "validate_request r (c_max_ttl_seconds c) = Inr ()"
    "a_qualification r \<longrightarrow> src_qualification src" "d_profile d \<in> set (c_profiles c)"
    "p_tag (d_profile d) = a_tag r" "d_priority d = unwrap_or (a_priority r) Low"
    "d_reservation_id d = None" "d_services d = []"
  using assms
  by (auto simp: prepare_def res_simps find_profile_def split: if_splits dest: find_Some_mem)

lemma prepare_profile:
  "prepare e c src site r order = Inr d \<Longrightarrow> find_profile c (a_tag r) = Some (d_profile d)"
  by (auto simp: prepare_def res_simps split: if_splits)

lemma admit_inv:
  assumes "admit e c site d s = Inr (d', t)" "doc_inv s" "\<not> d_ready_checked d"
    and "get_demand s (d_id d) = None"
  shows "doc_inv t"
proof -
  obtain u where u: "fence e site d s = Inr (d', u)"
      "retention e (c_limits c) (put_demand d' u) = Inr t"
    using assms(1) by (auto simp: admit_def res_simps)
  have "doc_inv (put_demand d' u)"
    by (rule fence_put_inv[OF u(1) assms(2,3)]) (use assms(4) in simp)
  then show ?thesis using retention_demands_kept[OF u(2)] demands_kept_doc_inv by blast
qed

lemma purge_decisions_sel [simp]:
  "demands (purge_decisions e s) = demands s" "claims (purge_decisions e s) = claims s"
  "invocations (purge_decisions e s) = invocations s"
  by (simp_all add: purge_decisions_def Let_def)

text \<open>The ways an acquisition can succeed.\<close>

lemma acquire_cases:
  assumes "acquire_op e c legacy src r s = Inr (d, t)"
  obtains (repeat) "t = s" "List.find (same_acquisition src r) (om_vals (demands s)) = Some d"
      "d_request d = r"
  | (denied) "d_state d = Unavailable"
      "t = s \<or> t = purge_decisions e s \<or>
       (\<exists>key environment reason. t = remember_refusal e src key environment reason (purge_decisions e s))"
      "List.find (same_acquisition src r) (om_vals (demands s)) = None"
  | (admitted) d0 where "List.find (same_acquisition src r) (om_vals (demands s)) = None"
      "prepare e c src [''acquire''] r (length (demands s)) = Inr d0" "eligibility d0 = None"
      "refusal c legacy (purge_decisions e s) d0 = None"
      "admit e c [''acquire''] d0 (purge_decisions e s) = Inr (d, t)"
proof (cases "List.find (same_acquisition src r) (om_vals (demands s))")
  case (Some x)
  then show thesis
    using assms repeat
    by (auto simp: acquire_op_def acquire_in_def split: if_splits)
next
  case None
  then obtain d0 where d0: "prepare e c src [''acquire''] r (length (demands s)) = Inr d0"
    using assms by (auto simp: acquire_op_def acquire_in_def res_simps split: if_splits)
  have un: "d_state (unavailable e src x reason ra) = Unavailable" for x reason ra
    by (simp add: unavailable_def Let_def)
  show thesis
  proof (cases "eligibility d0")
    case (Some reason)
    then show thesis
      using assms None d0 un
      by (intro denied) (auto simp: acquire_op_def acquire_in_def split: if_splits)
  next
    case el: None
    obtain key environment where k: "decision_key e (src_source src) d0 = Inr key"
        "decision_environment e s d0 = Inr environment"
      using assms None d0 el by (auto simp: acquire_op_def acquire_in_def res_simps split: if_splits)
    let ?s = "purge_decisions e s"
    show thesis
    proof (cases "cached_decision e src ?s key environment")
      case (Some x)
      then show thesis
        using assms None d0 un el k
        by (intro denied) (auto simp: acquire_op_def acquire_in_def Let_def split: if_splits)
    next
      case ca: None
      show thesis
      proof (cases "refusal c legacy ?s d0")
        case (Some reason)
        then have "t = remember_refusal e src key environment reason ?s" "d_state d = Unavailable"
          using assms None d0 un el k ca
          by (auto simp: acquire_op_def acquire_in_def Let_def split: if_splits)
        then show thesis using None by (intro denied) blast+
      next
        case re: None
        then show thesis
          using assms None d0 el k ca
          by (intro admitted[of d0]) (auto simp: acquire_op_def acquire_in_def Let_def split: if_splits)
      qed
    qed
  qed
qed

lemma acquire_inv:
  assumes "acquire_op e c legacy src r s = Inr (d, t)" "doc_inv s" "fresh_ids e s"
  shows "doc_inv t"
  using assms(1)
proof (cases rule: acquire_cases)
  case repeat
  then show ?thesis using assms(2) by simp
next
  case denied
  have "doc_inv (purge_decisions e s)"
    by (rule demands_kept_doc_inv[OF assms(2) purge_decisions_kept[OF assms(2)]])
  then show ?thesis
    using denied(2) assms(2) remember_refusal_kept demands_kept_doc_inv by blast
next
  case (admitted d0)
  have "doc_inv (purge_decisions e s)"
    by (rule demands_kept_doc_inv[OF assms(2) purge_decisions_kept[OF assms(2)]])
  moreover have "get_demand s (d_id d0) = None"
    using prepare_result(3)[OF admitted(2)] assms(3) by (auto simp: fresh_ids_def)
  ultimately show ?thesis
    using admit_inv[OF admitted(5)] prepare_result(1)[OF admitted(2)] by simp
qed

interpretation acquire_op: authority_op doc_inv "fresh_ids e" "acquire_op e c legacy src r"
  for e c legacy src r
  by unfold_locales (rule acquire_inv)

section \<open>Properties\<close>

lemma fenced_admit:
  assumes "admit e c site d s = Inr (d', t)" "om_ok (invocations s)"
  shows "fenced d (conflicts s d) d'" "get_demand t (d_id d) = Some d'"
    "\<And>k x. get_demand t k = Some x \<Longrightarrow> k \<noteq> d_id d \<Longrightarrow>
       \<exists>x0. get_demand s k = Some x0 \<and> d_owner x = d_owner x0 \<and> d_request x = d_request x0"
    "demands t = om_put (d_id d) d' (demands (preempted_document e (d_id d) (conflicts s d) s))"
proof -
  obtain u where u: "fence e site d s = Inr (d', u)"
      "retention e (c_limits c) (put_demand d' u) = Inr t"
    using assms(1) by (auto simp: admit_def res_simps)
  note r = fence_result[OF u(1)]
  show f: "fenced d (conflicts s d) d'" by (rule r(1))
  have du: "demands u = demands (preempted_document e (d_id d) (conflicts s d) s)"
    and iu: "invocations u = invocations (preempted_document e (d_id d) (conflicts s d) s)"
    using r(3) by (auto simp: Let_def split: if_splits)
  have "om_ok (invocations u)"
    using assms(2) iu by (simp add: preempted_document_def supersede_calls_def fold_upd_demand_sel)
  then have "demands t = demands (put_demand d' u)"
    using calls_compacted_sel(2)[OF retention_kept[OF u(2)]] by simp
  then show dt: "demands t = om_put (d_id d) d' (demands (preempted_document e (d_id d) (conflicts s d) s))"
    using du f by (simp add: fenced_def)
  show "get_demand t (d_id d) = Some d'" by (simp add: dt)
  show "\<And>k x. get_demand t k = Some x \<Longrightarrow> k \<noteq> d_id d \<Longrightarrow>
       \<exists>x0. get_demand s k = Some x0 \<and> d_owner x = d_owner x0 \<and> d_request x = d_request x0"
    by (auto simp: dt preempted_document_get preempt_def split: if_splits)
qed

lemma find_NoneD: "List.find p xs = None \<Longrightarrow> x \<in> set xs \<Longrightarrow> \<not> p x"
  by (auto simp: find_None_iff)

text \<open>An acquisition is idempotent. Once a request has been admitted, sending the same request again, at
  any later time and whatever else the planner would now say, returns the same demand and changes
  nothing; and another request under the same acquisition identity is refused as a conflict.\<close>

theorem acquire_idempotent:
  assumes "doc_inv s" and "acquire_op e c legacy src r s = Inr (d, t)" and "d_state d \<noteq> Unavailable"
    and "fresh_ids e s" and "a_source_system r' = src_source src"
    and "a_acquisition_id r' = a_acquisition_id r"
  shows "acquire_op e' c' legacy' src r' t =
    (if r' = r then Inr (d, t) else Inl ''identity_conflict'')"
proof -
  have same: "same_acquisition src r' = same_acquisition src r"
    using assms(6) by (simp add: same_acquisition_def fun_eq_iff)
  have found: "List.find (same_acquisition src r) (om_vals (demands t)) = Some d \<and> d_request d = r"
    using assms(2)
  proof (cases rule: acquire_cases)
    case repeat
    then show ?thesis by simp
  next
    case denied
    then show ?thesis using assms(3) by simp
  next
    case (admitted d0)
    let ?s = "purge_decisions e s"
    have inv: "doc_inv t" by (rule acquire_inv[OF assms(2,1,4)])
    have ok: "om_ok (invocations ?s)" using assms(1) by (simp add: doc_inv_def maps_ok_def)
    note f = fenced_admit[OF admitted(5) ok] and p = prepare_result[OF admitted(2)]
    have d: "d_id d = d_id d0" "d_request d = r" "d_owner d = src_source src"
      using f(1) p by (auto simp: fenced_def)
    have uniq: "x = d" if x: "x \<in> set (om_vals (demands t))" "same_acquisition src r x" for x
    proof -
      obtain k where k: "get_demand t k = Some x"
        using x(1) inv by (auto simp: in_om_vals_iff doc_inv_def maps_ok_def)
      show ?thesis
      proof (cases "k = d_id d0")
        case True
        then show ?thesis using k f(2) by simp
      next
        case False
        obtain x0 where x0: "get_demand ?s k = Some x0" "d_owner x = d_owner x0"
            "d_request x = d_request x0"
          using f(3)[OF k False] by blast
        then have "x0 \<in> set (om_vals (demands s))" by (simp add: in_om_valsI)
        then have "\<not> same_acquisition src r x0" by (rule find_NoneD[OF admitted(1)])
        then show ?thesis using x(2) x0 by (simp add: same_acquisition_def)
      qed
    qed
    have "d \<in> set (om_vals (demands t)) \<and> same_acquisition src r d"
      using d f(2) p(4,5) by (auto simp: same_acquisition_def intro: in_om_valsI)
    then have "List.find (same_acquisition src r) (om_vals (demands t)) = Some d"
      using uniq by (metis find_NoneD find_Some_mem option.exhaust)
    then show ?thesis using d by simp
  qed
  then show ?thesis
    using assms(5) same by (auto simp: acquire_op_def acquire_in_def)
qed

lemma length_om_del:
  "distinct (map fst m) \<Longrightarrow> k \<in> fst ` set m \<Longrightarrow> length (om_del k m) = length m - 1"
proof (induction m)
  case Nil
  then show ?case by simp
next
  case (Cons x m)
  show ?case
  proof (cases "fst x = k")
    case True
    then have "filter (\<lambda>e. fst e \<noteq> k) m = m"
      using Cons.prems(1) by (intro filter_True) (auto simp: rev_image_eqI)
    then show ?thesis using True by (simp add: om_del_def)
  next
    case False
    then have "k \<in> fst ` set m" using Cons.prems(2) by auto
    moreover from this have "length m > 0" by (cases m) auto
    ultimately show ?thesis using Cons False by (simp add: om_del_def)
  qed
qed

lemma length_fold_del:
  assumes "distinct ks" "set ks \<subseteq> fst ` set m" "distinct (map fst m)"
  shows "length (fold om_del ks m) = length m - length ks"
  using assms
proof (induction ks arbitrary: m)
  case Nil
  then show ?case by simp
next
  case (Cons k ks)
  have "length (fold om_del ks (om_del k m)) = length (om_del k m) - length ks"
  proof (rule Cons.IH)
    show "distinct ks" using Cons.prems(1) by simp
    show "distinct (map fst (om_del k m))"
      using Cons.prems(3) by (simp add: om_del_def distinct_map_filter)
    have "fst ` set (om_del k m) = fst ` set m - {k}" by (auto simp: om_del_def)
    then show "set ks \<subseteq> fst ` set (om_del k m)" using Cons.prems(1,2) by auto
  qed
  moreover have "length (om_del k m) = length m - 1"
    by (rule length_om_del) (use Cons.prems in auto)
  ultimately show ?case by simp
qed

lemma fold_del_snd: "fold (\<lambda>(_, k). om_del k) xs m = fold om_del (map snd xs) m"
  by (induction xs arbitrary: m) auto

lemma trim_length:
  assumes "distinct (map fst m)"
  shows "length (fold om_del (map snd (take n (sort (map (\<lambda>(k, x). (f x :: nat, k :: string)) m)))) m)
    = length m - min n (length m)"
proof -
  let ?xs = "map (\<lambda>(k, x). (f x, k)) m"
  have "mset (map snd (sort ?xs)) = mset (map snd ?xs)" by (simp only: mset_map mset_sort)
  also have "map snd ?xs = map fst m" by (simp add: comp_def case_prod_beta)
  finally have ms: "mset (map snd (sort ?xs)) = mset (map fst m)" .
  have ds: "distinct (map snd (sort ?xs))"
    using mset_eq_imp_distinct_iff[OF ms] assms by simp
  have dk: "distinct (map snd (take n (sort ?xs)))"
    unfolding take_map[symmetric] using ds by (rule distinct_take)
  have "set (map snd (sort ?xs)) = set (map fst m)" using mset_eq_setD[OF ms] .
  moreover have "set (map snd (take n (sort ?xs))) \<subseteq> set (map snd (sort ?xs))"
    unfolding take_map[symmetric] by (rule set_take_subset)
  ultimately have sk: "set (map snd (take n (sort ?xs))) \<subseteq> fst ` set m"
    by (simp only: list.set_map)
  show ?thesis using length_fold_del[OF dk sk assms] by (simp add: min.commute)
qed

lemma purge_decisions_bound:
  assumes "om_ok (acquisition_decisions s)"
  shows "length (acquisition_decisions (purge_decisions e s)) \<le> MAX_DECISION_CACHE_ENTRIES"
proof -
  let ?m = "om_retain (\<lambda>_ x. ad_expires_at x > now e) (acquisition_decisions s)"
  have d: "distinct (map fst ?m)" by (rule om_ok_distinct) (simp add: assms)
  show ?thesis
  proof (cases "length ?m \<le> MAX_DECISION_CACHE_ENTRIES")
    case True
    then show ?thesis by (simp add: purge_decisions_def)
  next
    case False
    then show ?thesis
      using trim_length[OF d, of "length ?m - MAX_DECISION_CACHE_ENTRIES" ad_expires_at]
      by (simp add: purge_decisions_def Let_def fold_del_snd del: map_map)
  qed
qed

text \<open>The cache of refusals is bounded, however many requests are sent. A successful acquisition
  leaves the cache as it found it, or with at most 128 entries.\<close>

theorem decision_cache_bounded:
  assumes "doc_inv s" and "acquire_op e c legacy src r s = Inr (d, t)"
  shows "acquisition_decisions t = acquisition_decisions s \<or>
    length (acquisition_decisions t) \<le> MAX_DECISION_CACHE_ENTRIES"
  using assms(2)
proof (cases rule: acquire_cases)
  case repeat
  then show ?thesis by simp
next
  case denied
  have "om_ok (acquisition_decisions (purge_decisions e s))" "om_ok (acquisition_decisions s)"
    using demands_kept_doc_inv[OF assms(1) purge_decisions_kept[OF assms(1)], of e] assms(1)
    by (simp_all add: doc_inv_def maps_ok_def)
  then show ?thesis
    using denied(2) purge_decisions_bound
    by (auto simp: remember_refusal_def)
next
  case (admitted d0)
  obtain u d' where u: "fence e [''acquire''] d0 (purge_decisions e s) = Inr (d', u)"
      "retention e (c_limits c) (put_demand d' u) = Inr t"
    using admitted(5) by (auto simp: admit_def res_simps)
  have "om_ok (invocations u)"
    using fence_result(3)[OF u(1)] assms(1)
    by (auto simp: Let_def preempted_document_def supersede_calls_def fold_upd_demand_sel
        doc_inv_def maps_ok_def)
  then have "acquisition_decisions t = acquisition_decisions u"
    using calls_compacted_sel(6)[OF retention_kept[OF u(2)]] by simp
  also have "\<dots> = acquisition_decisions (purge_decisions e s)"
    using fence_result(3)[OF u(1)] by (auto simp: Let_def)
  finally show ?thesis
    using purge_decisions_bound assms(1) by (simp add: doc_inv_def maps_ok_def)
qed

text \<open>An admitted demand is what its profile and its source allow. If the answer to a
  new acquisition is a demand, then its profile is the configured profile of the tag, qualified
  or used by a source that may qualify profiles; it offers the capabilities and the context asked for; the demand
  ends after the time asked for, which is within the configured maximum; it enters as
  \<open>Preparing\<close>, with nothing started.\<close>

theorem admitted_demand_eligible:
  assumes "acquire_op e c legacy src r s = Inr (d, t)" and "d_state d \<noteq> Unavailable"
    and "List.find (same_acquisition src r) (om_vals (demands s)) = None"
  shows "d_profile d \<in> set (c_profiles c) \<and> p_tag (d_profile d) = a_tag r \<and>
    (p_qualified (d_profile d) \<or> (a_qualification r \<and> src_qualification src)) \<and>
    set (a_capabilities r) \<subseteq> set (p_capabilities (d_profile d)) \<and>
    a_context_tokens r \<le> p_context_tokens (d_profile d) \<and>
    d_owner d = src_source src \<and> d_state d = Preparing \<and> \<not> d_effect_started d \<and>
    now e < d_deadline d \<and> d_deadline d \<le> now e + c_max_ttl_seconds c"
  using assms(1)
proof (cases rule: acquire_cases)
  case repeat
  then show ?thesis using assms(3) by simp
next
  case denied
  then show ?thesis using assms(2) by simp
next
  case (admitted d0)
  note p = prepare_result[OF admitted(2)]
  obtain u where u: "fence e [''acquire''] d0 (purge_decisions e s) = Inr (d, u)"
    using admitted(5) by (auto simp: admit_def res_simps)
  note f = fence_result(1)[OF u]
  have v: "0 < a_ttl_seconds r" "a_ttl_seconds r \<le> c_max_ttl_seconds c"
    using p(11) by (auto simp: validate_request_def split: if_splits)
  have el: "p_qualified (d_profile d0) \<or> a_qualification r"
      "set (a_capabilities r) \<subseteq> set (p_capabilities (d_profile d0))"
      "a_context_tokens r \<le> p_context_tokens (d_profile d0)"
    using admitted(3) p(4) by (auto simp: eligibility_def split: if_splits)
  show ?thesis
    using f p v el by (auto simp: fenced_def)
qed

text \<open>An acquisition of the second device of the sample.\<close>

definition sample_source :: source where
  "sample_source = \<lparr>src_source = ''app'', src_token_sha256 = ''t'', src_qualification = False\<rparr>"

abbreviation sample_request_vision :: acquire where
  "sample_request_vision \<equiv> sample_acquire ''a9'' ''vision'' Medium"

definition sample_prepared :: demand where
  "sample_prepared = (case prepare sample_env sample_config sample_source [''acquire'']
      sample_request_vision 1 of Inr d \<Rightarrow> d)"

lemma sample_prepare:
  "prepare sample_env sample_config sample_source [''acquire''] sample_request_vision 1 =
     Inr sample_prepared"
  unfolding sample_prepared_def
  by (simp add: prepare_def validate_request_def sample_acquire_def VERSION_def valid_id_def
      ascii_alphanumeric_def Let_def sample_config_def find_profile_def sample_profile_def)

lemma sample_prepared_sel:
  "d_profile sample_prepared = sample_profile ''vision'' [''gpu1'']"
  "d_request sample_prepared = sample_request_vision" "d_id sample_prepared = site_name [''acquire'', ''id'']"
  "d_priority sample_prepared = Medium" "d_victims sample_prepared = []"
proof -
  have "find_profile sample_config ''vision'' = Some (sample_profile ''vision'' [''gpu1''])"
    by (simp add: find_profile_def sample_config_def sample_profile_def)
  moreover have "a_tag sample_request_vision = ''vision''" by (simp add: sample_acquire_def)
  ultimately show "d_profile sample_prepared = sample_profile ''vision'' [''gpu1'']"
    using prepare_profile[OF sample_prepare] by simp
  show "d_request sample_prepared = sample_request_vision" "d_victims sample_prepared = []"
    using prepare_result[OF sample_prepare] by auto
  show "d_id sample_prepared = site_name [''acquire'', ''id'']"
    using prepare_result(3)[OF sample_prepare] by simp
  show "d_priority sample_prepared = Medium"
    using prepare_result(15)[OF sample_prepare] by (simp add: sample_acquire_def)
qed

lemma sample_no_conflicts: "conflicts sample_document sample_prepared = []"
  by (simp add: conflicts_def sample_prepared_sel sample_profile_def sample_document_def opt_list_def)

lemma sample_purge: "purge_decisions sample_env sample_document = sample_document"
  by (simp add: purge_decisions_def sample_document_def om_retain_def)

lemma sample_acquired:
  "\<exists>d t. acquire_op sample_env sample_config (\<lambda>_. Inr []) sample_source sample_request_vision
     sample_document = Inr (d, t) \<and> d_state d \<noteq> Unavailable"
proof -
  have find: "List.find (same_acquisition sample_source sample_request_vision)
      (om_vals (demands sample_document)) = None"
    by (simp add: sample_document_def om_vals_def same_acquisition_def sample_demand_def
        sample_acquire_def sample_profile_def)
  have len: "length (demands sample_document) = 1" by (simp add: sample_document_def)
  have el: "eligibility sample_prepared = None"
    by (simp add: eligibility_def sample_prepared_sel sample_profile_def sample_acquire_def)
  have ref: "refusal sample_config (\<lambda>_. Inr []) sample_document sample_prepared = None"
    unfolding refusal_def sample_no_conflicts
    by (simp add: occupied_host_def sample_no_conflicts retained_host_mib_def sample_prepared_sel)
      (simp add: sample_document_def sample_demand_def sample_profile_def
        om_vals_def sat_add_def u64_max_def sample_config_def)
  obtain d u where f: "fence sample_env [''acquire''] sample_prepared sample_document = Inr (d, u)"
    using planned_fence_succeeds[OF ref sample_prepared_sel(5), of sample_env "[''acquire'']"] by auto
  have "\<exists>t. retention sample_env sample_limits (put_demand d u) = Inr t"
  proof -
    have "u = claim_all (d_id sample_prepared) [''gpu1''] (preempted_document sample_env (d_id sample_prepared) [] sample_document)"
      using fence_result(3)[OF f] by (simp add: sample_no_conflicts Let_def sample_prepared_sel sample_profile_def)
    then have i: "invocations u = invocations sample_document" "length (demands (put_demand d u)) \<le> 2"
      using length_om_put_le[of "d_id d" d "demands sample_document"]
      by (simp_all add: preempted_document_def supersede_calls_def om_mapv_def len fold_upd_demand_sel)
    show ?thesis by (rule sample_retention) (use i in \<open>simp_all add: put_demand_def\<close>)
  qed
  then obtain t where t: "retention sample_env sample_limits (put_demand d u) = Inr t" by blast
  have "d_state d = Preparing" using fence_result(1)[OF f] by (simp add: fenced_def)
  moreover have "admit sample_env sample_config [''acquire''] sample_prepared sample_document = Inr (d, t)"
    using f t by (simp add: admit_def sample_config_def)
  moreover have "cached_decision sample_env sample_source sample_document k v = None" for k v
    by (simp add: cached_decision_def sample_document_def)
  moreover have "a_source_system sample_request_vision = src_source sample_source"
    by (simp add: sample_acquire_def sample_source_def)
  ultimately show ?thesis
    using find sample_prepare el ref
    by (simp add: acquire_op_def acquire_in_def len decision_key_def decision_environment_def
        Let_def sample_purge)
qed

lemma sample_not_found:
  "List.find (same_acquisition sample_source sample_request_vision) (om_vals (demands sample_document)) = None"
  by (simp add: sample_document_def om_vals_def same_acquisition_def sample_demand_def
      sample_acquire_def sample_profile_def)

lemma sample_fresh: "fresh_ids sample_env sample_document"
  by (auto simp: fresh_ids_def sample_document_def site_name_inj site_name_head)

theorem acquire_idempotent_witness:
  "\<exists>d t. acquire_op sample_env sample_config (\<lambda>_. Inr []) sample_source sample_request_vision
      sample_document = Inr (d, t) \<and>
     acquire_op (sample_env\<lparr>now := 150\<rparr>) sample_config (\<lambda>_. Inl ''down'') sample_source
       sample_request_vision t = Inr (d, t)"
proof -
  obtain d t where a: "acquire_op sample_env sample_config (\<lambda>_. Inr []) sample_source
      sample_request_vision sample_document = Inr (d, t)" "d_state d \<noteq> Unavailable"
    using sample_acquired by blast
  have src: "a_source_system sample_request_vision = src_source sample_source"
    by (simp add: sample_acquire_def sample_source_def)
  show ?thesis
    using acquire_idempotent[OF sample_document_inv a sample_fresh src refl] a(1) by auto
qed

theorem decision_cache_bounded_witness:
  "\<exists>d t. acquire_op sample_env sample_config (\<lambda>_. Inr []) sample_source sample_request_vision
      sample_document = Inr (d, t) \<and>
     length (acquisition_decisions t) \<le> MAX_DECISION_CACHE_ENTRIES"
proof -
  obtain d t where a: "acquire_op sample_env sample_config (\<lambda>_. Inr []) sample_source
      sample_request_vision sample_document = Inr (d, t)"
    using sample_acquired by blast
  have "length (acquisition_decisions sample_document) = 0" by (simp add: sample_document_def)
  then show ?thesis
    using decision_cache_bounded[OF sample_document_inv a] a by auto
qed

theorem admitted_demand_eligible_witness:
  "\<exists>d t. acquire_op sample_env sample_config (\<lambda>_. Inr []) sample_source sample_request_vision
      sample_document = Inr (d, t) \<and>
     p_tag (d_profile d) = ''vision'' \<and> d_state d = Preparing \<and> d_deadline d \<le> 3700"
proof -
  obtain d t where a: "acquire_op sample_env sample_config (\<lambda>_. Inr []) sample_source
      sample_request_vision sample_document = Inr (d, t)" "d_state d \<noteq> Unavailable"
    using sample_acquired by blast
  have n: "List.find (same_acquisition sample_source sample_request_vision)
      (om_vals (demands sample_document)) = None"
    by (rule sample_not_found)
  have "a_tag sample_request_vision = ''vision''" "now sample_env + c_max_ttl_seconds sample_config = 3700"
    by (simp_all add: sample_acquire_def sample_config_def)
  then show ?thesis
    using admitted_demand_eligible[OF a n] a(1) by metis
qed

end
