(* ===== verification/Group_Admission.thy ===== *)
theory Group_Admission
  imports Admission
begin

text \<open>
  \<open>reservation_admission.rs\<close>, \<open>reservation_view.rs\<close> and \<open>reservation_refresh.rs\<close>: one request
  reserves several services at once. Every conflict of every member is judged before anything
  changes, so a reservation is admitted whole, refused whole, or replayed. \<open>api::public\<close>, which serialises a
  demand for clients, is the argument \<open>public\<close>; the archive is \<open>replay\<close>.
\<close>

section \<open>The view of a reservation\<close>

definition aggregate_state :: "demand \<Rightarrow> demand_state list \<Rightarrow> string" where
  "aggregate_state rt states =
     (case states of
        [] \<Rightarrow> state_name (d_state rt)
      | first # _ \<Rightarrow>
          (case d_reservation_closed rt of
             Some closed \<Rightarrow>
               if \<forall>x \<in> set states. x \<in> {Released, Cancelled, Expired, Unavailable}
               then state_name closed else state_name Releasing
           | None \<Rightarrow>
               if \<forall>x \<in> set states. x = Unavailable then ''unavailable''
               else if \<forall>x \<in> set states. x = first then state_name first
               else ''partial''))"

definition json_remove :: "string \<Rightarrow> json \<Rightarrow> json res" where
  "json_remove k v =
     (case v of JObject m \<Rightarrow> Inr (JObject (filter (\<lambda>x. fst x \<noteq> k) m))
      | _ \<Rightarrow> Inl ''invalid_public_record'')"

definition json_set :: "string \<Rightarrow> json \<Rightarrow> json \<Rightarrow> json" where
  "json_set k x v =
     (case v of JObject m \<Rightarrow> JObject (filter (\<lambda>y. fst y \<noteq> k) m @ [(k, x)]) | _ \<Rightarrow> v)"

definition member_view :: "(demand \<Rightarrow> json res) \<Rightarrow> demand \<Rightarrow> (string \<times> json) res" where
  "member_view public m =
     res_bind (public m) (\<lambda>v.
       if d_state m = Unavailable
       then res_bind (json_remove ''gateway_path'' (json_set ''state'' (JString ''unavailable'') v))
              (\<lambda>v. Inr (p_tag (d_profile m), v))
       else Inr (p_tag (d_profile m), v))"

definition project :: "(demand \<Rightarrow> json res) \<Rightarrow> demand \<Rightarrow> demand list \<Rightarrow> json res" where
  "project public rt ms =
     res_bind (map_res (member_view public) ms) (\<lambda>views.
       Inr (JObject
         [(''id'', JString (d_id rt)), (''priority'', JString (priority_name (d_priority rt))),
          (''state'', JString (aggregate_state rt (map d_state ms))),
          (''acquisition_id'', opt_json (\<lambda>r. JString (r_acquisition_id r)) (d_reserve_request rt)),
          (''requested_services'',
             opt_json (\<lambda>r. JArray (map JString (r_services r))) (d_reserve_request rt)),
          (''services'', JObject views)]))"

definition view :: "(demand \<Rightarrow> json res) \<Rightarrow> document \<Rightarrow> string \<Rightarrow> string \<Rightarrow> json res" where
  "view public s owner k =
     res_bind (owned s owner k) (\<lambda>d.
     res_bind (root s d) (\<lambda>rt.
     res_bind (members s rt) (\<lambda>ids.
     res_bind (map_res (owned s owner) ids) (\<lambda>ms. project public rt ms))))"

section \<open>Reserving\<close>

definition group_decision_key :: "env \<Rightarrow> string \<Rightarrow> reserve \<Rightarrow> demand list \<Rightarrow> string res" where
  "group_decision_key e owner r ds =
     res_bind (enc_value e (JObject
       [(''owner'', JString owner), (''services'', JArray (map JString (sort (r_services r)))),
        (''priority'', JString (priority_name (r_priority r))),
        (''ttl_seconds'', JPosInt (r_ttl_seconds r)),
        (''profiles'', JArray (map (JString \<circ> d_profile_hash) ds))])) (\<lambda>b. Inr (sha256 e b))"

definition group_environment :: "env \<Rightarrow> document \<Rightarrow> string res" where
  "group_environment e s =
     res_bind (enc_value e (JArray (map (\<lambda>(r, k).
       let d = get_demand s k in
       JObject [(''resource'', JString r), (''owner'', JString k),
                (''state'', opt_json (\<lambda>v. JString (state_name (d_state v))) d),
                (''priority'', opt_json (\<lambda>v. JString (priority_name (d_priority v))) d),
                (''generation'', opt_json (\<lambda>v. JString (d_generation v)) d)]) (claims s))))
       (\<lambda>b. Inr (sha256 e b))"

definition trim_group_decisions :: "env \<Rightarrow> document \<Rightarrow> document" where
  "trim_group_decisions e s =
     (let m = om_retain (\<lambda>_ x. ad_expires_at x > now e) (acquisition_decisions s) in
      if length m \<le> 128 then s\<lparr>acquisition_decisions := m\<rparr>
      else
        (let oldest = sort (map (\<lambda>(k, x). (ad_expires_at x, k)) m) in
         s\<lparr>acquisition_decisions := fold (\<lambda>(_, k). om_del k) (take (length m - 128) oldest) m\<rparr>))"

definition unavailable_member :: "env \<Rightarrow> string \<Rightarrow> reserve \<Rightarrow> string \<Rightarrow> string \<Rightarrow> demand \<Rightarrow> demand" where
  "unavailable_member e owner r root_id reason d =
     (let seed = sha256 e (owner @ ''/'' @ r_acquisition_id r @ ''/'' @ p_tag (d_profile d)) in
      d\<lparr>d_id := ''unavailable-'' @ take 48 seed, d_generation := seed, d_access_key := seed,
        d_reservation_id := Some root_id, d_state := Unavailable, d_reason := Some reason,
        d_retry_after := Some 2, d_deadline := now e\<rparr>)"

definition unavailable_group ::
  "env \<Rightarrow> (demand \<Rightarrow> json res) \<Rightarrow> string \<Rightarrow> reserve \<Rightarrow> demand list \<Rightarrow> string \<Rightarrow> json res" where
  "unavailable_group e public owner r ds reason =
     (let root_id = ''unavailable-'' @ take 48 (sha256 e (owner @ ''/'' @ r_acquisition_id r)) in
      res_bind (map_res (\<lambda>d.
          let d = unavailable_member e owner r root_id reason d in
          res_bind (public d) (\<lambda>v. res_bind (json_remove ''gateway_path'' v) (\<lambda>v.
            Inr (p_tag (d_profile d), v)))) ds) (\<lambda>views.
        Inr (JObject
          [(''id'', JString root_id), (''priority'', JString (priority_name (r_priority r))),
           (''state'', JString ''unavailable''), (''acquisition_id'', JString (r_acquisition_id r)),
           (''requested_services'', JArray (map JString (r_services r))),
           (''services'', JObject views)])))"

text \<open>The members of a request in its order; \<open>physical\<close> collects the devices already named.\<close>

fun prepare_members ::
  "env \<Rightarrow> config \<Rightarrow> source \<Rightarrow> reserve \<Rightarrow> nat \<Rightarrow> string list \<Rightarrow> string list \<Rightarrow> demand list res" where
  "prepare_members e c src r order physical [] = Inr []"
| "prepare_members e c src r order physical (tag # tags) =
     res_bind (ok_or (find_profile c tag) ''unknown_tag'') (\<lambda>p.
     if \<not> distinct (p_resources p) \<or> set (p_resources p) \<inter> set physical \<noteq> {}
     then Inl ''atomic_resource_overlap''
     else
       res_bind (prepare e c src [''reserve'', tag]
         \<lparr>a_schema = VERSION, a_source_system = src_source src, a_work_id = r_work_id r,
          a_acquisition_id =
            ''reserve-'' @ sha256 e (src_source src @ ''/'' @ r_acquisition_id r @ ''/'' @ tag),
          a_tag = tag, a_priority = Some (r_priority r), a_capabilities = p_capabilities p,
          a_context_tokens = p_context_tokens p, a_ttl_seconds = r_ttl_seconds r,
          a_qualification = False\<rparr> order) (\<lambda>d.
       res_bind (prepare_members e c src r (Suc order) (p_resources p @ physical) tags) (\<lambda>ds.
         Inr (d # ds))))"

definition same_reserve :: "source \<Rightarrow> reserve \<Rightarrow> demand \<Rightarrow> bool" where
  "same_reserve src r d \<longleftrightarrow>
     d_owner d = src_source src \<and>
     is_some_and (d_reserve_request d) (\<lambda>x. r_acquisition_id x = r_acquisition_id r)"

definition group_refusal ::
  "env \<Rightarrow> config \<Rightarrow> (string list \<Rightarrow> string list res) \<Rightarrow> source \<Rightarrow> string \<Rightarrow> string \<Rightarrow> demand list
     \<Rightarrow> document \<Rightarrow> string option" where
  "group_refusal e c legacy src key environment ds s =
     opt_or (map_option ad_reason (cached_decision e src s key environment))
       (first_some (\<lambda>d. opt_or (eligibility d) (refusal c legacy s d)) ds)"

definition admit_group ::
  "env \<Rightarrow> config \<Rightarrow> (demand \<Rightarrow> json res) \<Rightarrow> source \<Rightarrow> reserve \<Rightarrow> string \<Rightarrow> (string, string) omap
     \<Rightarrow> demand list \<Rightarrow> document \<Rightarrow> (json \<times> document) res" where
  "admit_group e c public src r root_id services ds s =
     res_bind (fence_group e [''group''] root_id ds s) (\<lambda>(ds, s).
     let s = put_demands ds s in
     if get_demand s root_id = None then Inl ''not_found''
     else
       (let s = upd_demand root_id
              (\<lambda>d. d\<lparr>d_services := services, d_reserve_request := Some r\<rparr>) s in
        res_bind (view public s (src_source src) root_id) (\<lambda>result.
        res_bind (retention e (c_limits c)
            (upd_demand root_id (\<lambda>d. d\<lparr>d_reserve_result := Some result\<rparr>) s)) (\<lambda>s.
          Inr (result, s)))))"

definition reserve_new ::
  "env \<Rightarrow> config \<Rightarrow> (string list \<Rightarrow> string list res) \<Rightarrow> (demand \<Rightarrow> json res) \<Rightarrow> source \<Rightarrow> reserve
     \<Rightarrow> document \<Rightarrow> (json \<times> document) res" where
  "reserve_new e c legacy public src r s =
     (if \<not> valid_id (r_acquisition_id r) \<or> \<not> valid_id (r_work_id r) \<or> r_services r = []
         \<or> length (r_services r) > length (c_profiles c) \<or> \<not> distinct (r_services r)
      then Inl ''invalid_request''
      else
        res_bind (prepare_members e c src r (length (demands s)) [] (r_services r)) (\<lambda>ds.
        case ds of [] \<Rightarrow> Inl ''invalid_request'' | first # _ \<Rightarrow>
        let root_id = d_id first;
            services = fold (\<lambda>d. om_put (p_tag (d_profile d)) (d_id d)) ds [];
            ds = map (\<lambda>d. d\<lparr>d_reservation_id := Some root_id\<rparr>) ds in
        res_bind (group_decision_key e (src_source src) r ds) (\<lambda>key.
        res_bind (group_environment e s) (\<lambda>environment.
        let s = trim_group_decisions e s in
        case group_refusal e c legacy src key environment ds s of
          Some reason \<Rightarrow>
            res_bind (unavailable_group e public (src_source src) r ds reason) (\<lambda>v.
              Inr (v, trim_group_decisions e (s\<lparr>acquisition_decisions := om_put key
                  \<lparr>ad_owner = src_source src, ad_environment = environment, ad_reason = reason,
                   ad_retry_after = 2, ad_expires_at = now e + 2\<rparr> (acquisition_decisions s)\<rparr>)))
        | None \<Rightarrow> admit_group e c public src r root_id services ds s))))"

definition reserve_op ::
  "env \<Rightarrow> config \<Rightarrow> (string list \<Rightarrow> string list res) \<Rightarrow> (demand \<Rightarrow> json res)
     \<Rightarrow> (string \<Rightarrow> string \<Rightarrow> (reserve \<times> json) option res) \<Rightarrow> source \<Rightarrow> reserve \<Rightarrow> document
     \<Rightarrow> (json \<times> document) res" where
  "reserve_op e c legacy public replay src r s =
     (case List.find (same_reserve src r) (om_vals (demands s)) of
        Some d \<Rightarrow>
          if d_reserve_request d \<noteq> Some r then Inl ''identity_conflict''
          else res_bind (view public s (src_source src) (d_id d)) (\<lambda>v. Inr (v, s))
      | None \<Rightarrow>
          res_bind (replay (src_source src) (r_acquisition_id r)) (\<lambda>x.
          case x of
            Some (archived, result) \<Rightarrow>
              if archived = r then Inr (result, s) else Inl ''identity_conflict''
          | None \<Rightarrow> reserve_new e c legacy public src r s))"

section \<open>Explicit refresh\<close>

definition attempt ::
  "env \<Rightarrow> config \<Rightarrow> (string list \<Rightarrow> string list res) \<Rightarrow> string list \<Rightarrow> demand \<Rightarrow> document
     \<Rightarrow> (demand \<times> document) res" where
  "attempt e c legacy site d s =
     (case opt_or (eligibility d) (refusal c legacy s d) of
        Some reason \<Rightarrow>
          Inr (d\<lparr>d_state := Unavailable, d_reason := Some reason, d_retry_after := Some 2\<rparr>, s)
      | None \<Rightarrow> fence e site d s)"

definition refresh_service ::
  "env \<Rightarrow> config \<Rightarrow> (string list \<Rightarrow> string list res) \<Rightarrow> string \<Rightarrow> demand \<Rightarrow> string \<Rightarrow> document
     \<Rightarrow> document res" where
  "refresh_service e c legacy owner rt tag s =
     res_bind (ok_or (map_of (d_services rt) tag) ''service_not_reserved'') (\<lambda>k.
     res_bind (owned s owner k) (\<lambda>d.
     if d_state d \<noteq> Unavailable \<or> d_released d then Inr s
     else
       case find_profile c tag of
         None \<Rightarrow> Inr (s\<lparr>demands := om_put k (d\<lparr>d_reason := Some ''unknown_tag''\<rparr>) (demands s)\<rparr>)
       | Some p \<Rightarrow>
           res_bind (enc_profile e p) (\<lambda>bytes.
           res_bind (attempt e c legacy [''refresh'', tag]
               (d\<lparr>d_profile := p, d_profile_hash := sha256 e bytes,
                  d_request := (d_request d)\<lparr>a_capabilities := p_capabilities p,
                                            a_context_tokens := p_context_tokens p\<rparr>\<rparr>) s)
             (\<lambda>(d, s). Inr (s\<lparr>demands := om_put k d (demands s)\<rparr>)))))"

definition refresh_op ::
  "env \<Rightarrow> config \<Rightarrow> (string list \<Rightarrow> string list res) \<Rightarrow> (demand \<Rightarrow> json res) \<Rightarrow> string \<Rightarrow> string
     \<Rightarrow> document \<Rightarrow> (json \<times> document) res" where
  "refresh_op e c legacy public owner k s =
     res_bind (owned s owner k) (\<lambda>rt.
     if d_reservation_id rt \<noteq> Some k then Inl ''reservation_id_required''
     else
       res_bind (ok_or (d_reserve_request rt) ''reservation_id_required'') (\<lambda>r.
       if d_reservation_closed rt \<noteq> None \<or> d_created rt + r_ttl_seconds r \<le> now e
       then Inl ''reservation_terminal''
       else
         res_bind (fold_res (refresh_service e c legacy owner rt) (r_services r) s) (\<lambda>s.
         res_bind (retention e (c_limits c) s) (\<lambda>s.
         res_bind (view public s owner k) (\<lambda>v. Inr (v, s))))))"

section \<open>The invariant is kept\<close>

lemma trim_is_purge: "trim_group_decisions e s = purge_decisions e s"
  by (simp add: trim_group_decisions_def purge_decisions_def MAX_DECISION_CACHE_ENTRIES_def Let_def)

text \<open>What the members of a request are: fresh, distinct, and nothing started.\<close>

definition new_member :: "env \<Rightarrow> config \<Rightarrow> source \<Rightarrow> reserve \<Rightarrow> string \<Rightarrow> demand \<Rightarrow> bool" where
  "new_member e c src r tag d \<longleftrightarrow>
     fresh e [''reserve'', tag, ''id''] = Inr (d_id d) \<and> p_tag (d_profile d) = tag \<and>
     d_profile d \<in> set (c_profiles c) \<and> d_priority d = r_priority r \<and> d_owner d = src_source src \<and>
     \<not> d_ready_checked d \<and> d_victims d = [] \<and> d_process d = None \<and> \<not> d_effect_started d \<and>
     \<not> d_released d \<and> d_deadline d = now e + r_ttl_seconds r \<and>
     a_capabilities (d_request d) = p_capabilities (d_profile d) \<and>
     a_context_tokens (d_request d) = p_context_tokens (d_profile d)"

lemma prepare_members_step:
  assumes "prepare_members e c src r n physical (tag # tags) = Inr ds"
  obtains d ds' where "ds = d # ds'" "new_member e c src r tag d"
    "distinct (p_resources (d_profile d))" "set (p_resources (d_profile d)) \<inter> set physical = {}"
    "prepare_members e c src r (Suc n) (p_resources (d_profile d) @ physical) tags = Inr ds'"
proof -
  obtain p d ds' where p: "find_profile c tag = Some p"
      "distinct (p_resources p)" "set (p_resources p) \<inter> set physical = {}"
    and d: "prepare e c src [''reserve'', tag]
       \<lparr>a_schema = VERSION, a_source_system = src_source src, a_work_id = r_work_id r,
        a_acquisition_id =
          ''reserve-'' @ sha256 e (src_source src @ ''/'' @ r_acquisition_id r @ ''/'' @ tag),
        a_tag = tag, a_priority = Some (r_priority r), a_capabilities = p_capabilities p,
        a_context_tokens = p_context_tokens p, a_ttl_seconds = r_ttl_seconds r,
        a_qualification = False\<rparr> n = Inr d"
    and ds': "prepare_members e c src r (Suc n) (p_resources p @ physical) tags = Inr ds'"
      "ds = d # ds'"
    using assms by (auto simp: res_simps split: if_splits)
  have pd: "d_profile d = p" using prepare_profile[OF d] p(1) by simp
  have "new_member e c src r tag d"
    using prepare_result[OF d] pd by (simp add: new_member_def)
  then show thesis using that ds' p pd by simp
qed

lemma prepare_members_result:
  assumes "prepare_members e c src r n physical tags = Inr ds"
  shows "list_all2 (new_member e c src r) tags ds \<and>
    distinct (concat (map (\<lambda>d. p_resources (d_profile d)) ds)) \<and>
    (\<forall>d \<in> set ds. set (p_resources (d_profile d)) \<inter> set physical = {})"
  using assms
proof (induction tags arbitrary: n physical ds)
  case Nil
  then show ?case by simp
next
  case (Cons tag tags)
  obtain d ds' where d: "ds = d # ds'" "new_member e c src r tag d"
    "distinct (p_resources (d_profile d))" "set (p_resources (d_profile d)) \<inter> set physical = {}"
    "prepare_members e c src r (Suc n) (p_resources (d_profile d) @ physical) tags = Inr ds'"
    using Cons.prems by (rule prepare_members_step)
  note ih = Cons.IH[OF d(5)]
  have rest: "set (p_resources (d_profile x)) \<inter> set (p_resources (d_profile d) @ physical) = {}"
    if "x \<in> set ds'" for x
    using ih that by blast
  have "set (p_resources (d_profile d)) \<inter> set (concat (map (\<lambda>d. p_resources (d_profile d)) ds')) = {}"
    using rest by fastforce
  moreover have "\<forall>x \<in> set ds'. set (p_resources (d_profile x)) \<inter> set physical = {}"
    using rest by fastforce
  moreover have "list_all2 (new_member e c src r) (tag # tags) ds"
    using d(1,2) ih by simp
  moreover have "distinct (concat (map (\<lambda>d. p_resources (d_profile d)) ds'))"
    using ih by blast
  ultimately show ?case using d(1,3,4) by (simp add: Int_commute)
qed

lemma new_member_ids:
  assumes "list_all2 (new_member e c src r) tags ds" "distinct tags" "fresh_ids e s"
  shows "distinct (map d_id ds)" "\<And>d. d \<in> set ds \<Longrightarrow> get_demand s (d_id d) = None"
proof -
  have f: "fresh e [''reserve'', tags ! j, ''id''] = Inr (d_id (ds ! j))" if "j < length ds" for j
    using assms(1) that by (auto simp: list_all2_conv_all_nth new_member_def)
  have len: "length tags = length ds" using assms(1) by (rule list_all2_lengthD)
  have "i = j" if "i < length ds" "j < length ds" "d_id (ds ! i) = d_id (ds ! j)" for i j
  proof -
    have inj: "fresh e a = Inr k \<Longrightarrow> fresh e b = Inr k \<Longrightarrow> a = b" for a b k
      using assms(3) unfolding fresh_ids_def by blast
    have "[''reserve'', tags ! i, ''id''] = [''reserve'', tags ! j, ''id'']"
      by (rule inj[OF f[OF that(1)]]) (simp add: f[OF that(2)] that(3))
    then have "tags ! i = tags ! j" by simp
    then show ?thesis using assms(2) that len by (simp add: nth_eq_iff_index_eq)
  qed
  then show "distinct (map d_id ds)" by (auto simp: distinct_conv_nth)
  show "\<And>d. d \<in> set ds \<Longrightarrow> get_demand s (d_id d) = None"
    using f assms(3) by (auto simp: in_set_conv_nth fresh_ids_def)
qed

lemma upd_demand_inv:
  assumes "doc_inv s"
    and "\<And>d. d_id (f d) = d_id d \<and> d_profile (f d) = d_profile d \<and> d_state (f d) = d_state d \<and>
      d_effect_started (f d) = d_effect_started d \<and> d_process (f d) = d_process d \<and>
      d_ready_checked (f d) = d_ready_checked d"
  shows "doc_inv (upd_demand k f s)"
proof (rule claims_kept_doc_inv[OF assms(1) claims_kept_upd_demand[OF assms(1)]])
  fix d assume d: "get_demand s k = Some d"
  have "live_ok (f d) = live_ok d" using assms(2)[of d] by (simp add: live_ok_def)
  then show "demand_step s d (f d)"
    using demand_step_refl[OF assms(1) d] assms(2)[of d] by (simp add: demand_step_def)
qed

lemma admit_group_inv:
  assumes "admit_group e c public src r root_id services ds s = Inr (v, t)" "doc_inv s"
    and "distinct (map d_id ds)" "\<And>d. d \<in> set ds \<Longrightarrow> get_demand s (d_id d) = None"
  shows "doc_inv t"
proof -
  obtain ds' u result where u: "fence_group e [''group''] root_id ds s = Inr (ds', u)"
    and t: "retention e (c_limits c) (upd_demand root_id (\<lambda>d. d\<lparr>d_reserve_result := Some result\<rparr>)
      (upd_demand root_id (\<lambda>d. d\<lparr>d_services := services, d_reserve_request := Some r\<rparr>)
        (put_demands ds' u))) = Inr t"
    using assms(1) by (auto simp: admit_group_def Let_def res_simps split: if_splits)
  have "doc_inv (put_demands ds' u)" by (rule fence_group_put_inv[OF u assms(2,3,4)])
  then have "doc_inv (upd_demand root_id (\<lambda>d. d\<lparr>d_reserve_result := Some result\<rparr>)
      (upd_demand root_id (\<lambda>d. d\<lparr>d_services := services, d_reserve_request := Some r\<rparr>)
        (put_demands ds' u)))"
    by (intro upd_demand_inv) simp_all
  then show ?thesis using retention_demands_kept[OF t] demands_kept_doc_inv by blast
qed

lemma put_decision_kept:
  "doc_inv s \<Longrightarrow> demands_kept s (s\<lparr>acquisition_decisions := om_put k x (acquisition_decisions s)\<rparr>)"
  by (rule demands_kept_decisions) (simp_all add: doc_inv_def maps_ok_def)

lemma trim_kept: "doc_inv s \<Longrightarrow> doc_inv (trim_group_decisions e s)"
  unfolding trim_is_purge using purge_decisions_kept demands_kept_doc_inv by blast

lemma reserve_new_inv:
  assumes "reserve_new e c legacy public src r s = Inr (v, t)" "doc_inv s" "fresh_ids e s"
  shows "doc_inv t"
proof -
  obtain ds where ds: "prepare_members e c src r (length (demands s)) [] (r_services r) = Inr ds"
      "distinct (r_services r)"
    using assms(1) by (auto simp: reserve_new_def res_simps split: if_splits)
  obtain first rest where fr: "ds = first # rest"
    using assms(1) ds by (auto simp: reserve_new_def res_simps split: if_splits list.splits)
  let ?ds = "map (\<lambda>d. d\<lparr>d_reservation_id := Some (d_id first)\<rparr>) ds"
  let ?s = "trim_group_decisions e s"
  have inv: "doc_inv ?s" by (rule trim_kept[OF assms(2)])
  note m = prepare_members_result[OF ds(1)]
  have ids: "distinct (map d_id ?ds)" "\<And>d. d \<in> set ?ds \<Longrightarrow> get_demand ?s (d_id d) = None"
    using new_member_ids[OF conjunct1[OF m] ds(2) assms(3)] by (auto simp: comp_def trim_is_purge)
  obtain key environment where k: "group_decision_key e (src_source src) r ?ds = Inr key"
      "group_environment e s = Inr environment"
    using assms(1) ds fr by (auto simp: reserve_new_def Let_def res_simps split: if_splits)
  show ?thesis
  proof (cases "group_refusal e c legacy src key environment ?ds ?s")
    case (Some reason)
    then have "t = trim_group_decisions e (?s\<lparr>acquisition_decisions := om_put key
                  \<lparr>ad_owner = src_source src, ad_environment = environment, ad_reason = reason,
                   ad_retry_after = 2, ad_expires_at = now e + 2\<rparr> (acquisition_decisions ?s)\<rparr>)"
      using assms(1) ds fr k by (auto simp: reserve_new_def Let_def res_simps split: if_splits)
    then show ?thesis
      using trim_kept[OF demands_kept_doc_inv[OF inv put_decision_kept[OF inv]]] by simp
  next
    case None
    then have "admit_group e c public src r (d_id first)
        (fold (\<lambda>d. om_put (p_tag (d_profile d)) (d_id d)) ds []) ?ds ?s = Inr (v, t)"
      using assms(1) ds fr k by (auto simp: reserve_new_def Let_def res_simps split: if_splits)
    then show ?thesis by (rule admit_group_inv[OF _ inv ids])
  qed
qed

lemma reserve_inv:
  assumes "reserve_op e c legacy public replay src r s = Inr (v, t)" "doc_inv s" "fresh_ids e s"
  shows "doc_inv t"
  using assms
  by (auto simp: reserve_op_def res_simps split: option.splits if_splits dest: reserve_new_inv)

text \<open>No demand of the document is \<open>Unavailable\<close>, so a refresh finds nothing to re-evaluate.\<close>

lemma refresh_service_same:
  "refresh_service e c legacy owner rt tag s = Inr t \<Longrightarrow> doc_inv s \<Longrightarrow> t = s"
  by (auto simp: refresh_service_def res_simps doc_inv_def live_ok_def split: if_splits)

lemma refresh_services_same:
  "fold_res (refresh_service e c legacy owner rt) tags s = Inr t \<Longrightarrow> doc_inv s \<Longrightarrow> t = s"
  by (induction tags arbitrary: s) (auto split: sum.splits dest: refresh_service_same)

lemma refresh_inv:
  assumes "refresh_op e c legacy public owner k s = Inr (v, t)" "doc_inv s"
  shows "doc_inv t" "demands t = demands s" "claims t = claims s"
proof -
  have "\<exists>rt (r :: reserve) u. fold_res (refresh_service e c legacy owner rt) (r_services r) s = Inr u \<and>
      retention e (c_limits c) u = Inr t"
    using assms(1) by (auto simp: refresh_op_def res_simps split: if_splits)
  then have r: "retention e (c_limits c) s = Inr t" using refresh_services_same assms(2) by blast
  have "demands_kept s t" by (rule retention_demands_kept[OF r assms(2)])
  then show "doc_inv t" "demands t = demands s" "claims t = claims s"
    using demands_kept_doc_inv[OF assms(2)] by (auto simp: demands_kept_def)
qed

interpretation reserve_op: authority_op doc_inv "fresh_ids e" "reserve_op e c legacy public replay src r"
  for e c legacy public replay src r
  by unfold_locales (rule reserve_inv)

interpretation refresh_op: authority_op doc_inv "\<lambda>_. True" "refresh_op e c legacy public owner k"
  for e c legacy public owner k
  by unfold_locales (rule refresh_inv)

section \<open>A group is admitted whole or not at all\<close>

definition group_member :: "document \<Rightarrow> string \<Rightarrow> string \<Rightarrow> demand \<Rightarrow> bool" where
  "group_member t root_id tag d \<longleftrightarrow>
     get_demand t (d_id d) = Some d \<and> p_tag (d_profile d) = tag \<and> d_state d = Preparing \<and>
     \<not> d_effect_started d \<and> d_reservation_id d = Some root_id"

lemma put_demands_get':
  "distinct (map d_id ds) \<Longrightarrow> k \<in> d_id ` set ds \<Longrightarrow>
     \<exists>d \<in> set ds. d_id d = k \<and> get_demand (put_demands ds s) k = Some d"
  using put_demands_get by fastforce

lemma claim_demands_owns:
  assumes "fold_res claim_demand ds s = Inr t" "distinct (map d_id ds)"
    and "distinct (concat (map (\<lambda>d. p_resources (d_profile d)) ds))"
  shows "(\<forall>d \<in> set ds. owns t d) \<and>
    (\<forall>r. r \<notin> set (concat (map (\<lambda>d. p_resources (d_profile d)) ds)) \<longrightarrow> get_claim t r = get_claim s r) \<and>
    demands t = demands s"
  using assms
proof (induction ds arbitrary: s)
  case Nil
  then show ?case by simp
next
  case (Cons d ds)
  obtain u where u: "claim_demand d s = Inr u" "fold_res claim_demand ds u = Inr t"
    using Cons.prems(1) by (auto split: sum.splits)
  note c = claim_resources_ok[OF u(1)[unfolded claim_demand_def]]
  have di: "distinct (map d_id ds)" "distinct (concat (map (\<lambda>d. p_resources (d_profile d)) ds))"
    using Cons.prems(2,3) by auto
  note ih = Cons.IH[OF u(2) di]
  have ap: "r \<notin> set (concat (map (\<lambda>d. p_resources (d_profile d)) ds))" if "r \<in> set (p_resources (d_profile d))" for r
    using Cons.prems(3) that by auto
  have "owns t d"
    unfolding owns_def
  proof
    fix r assume r: "r \<in> set (p_resources (d_profile d))"
    then have "get_claim t r = get_claim u r" using ih ap by blast
    then show "get_claim t r = Some (d_id d)" using c r by simp
  qed
  moreover have "get_claim t r = get_claim s r"
    if "r \<notin> set (concat (map (\<lambda>d. p_resources (d_profile d)) (d # ds)))" for r
    using that ih c by auto
  moreover have "demands u = demands s" using c by simp
  ultimately show ?case using ih by auto
qed

lemma fenced_same_resources:
  "list_all2 (\<lambda>d d'. fenced d ks d' \<and> \<not> d_ready_checked d') ds ds' \<Longrightarrow>
     map (\<lambda>d. p_resources (d_profile d)) ds' = map (\<lambda>d. p_resources (d_profile d)) ds"
  by (induction ds ds' rule: list_all2_induct) (auto simp: fenced_def)

lemma owns_fenced: "fenced d ks d' \<Longrightarrow> owns t d' = owns t d"
  by (simp add: fenced_def owns_def)

lemma admit_group_result:
  assumes a: "admit_group e c public src r root_id services ds s = Inr (v, t)" and inv: "doc_inv s"
    and ids: "distinct (map d_id ds)" "\<And>d. d \<in> set ds \<Longrightarrow> get_demand s (d_id d) = None"
    and res: "distinct (concat (map (\<lambda>d. p_resources (d_profile d)) ds))"
    and mem: "list_all2 (\<lambda>tag d. p_tag (d_profile d) = tag \<and> d_reservation_id d = Some root_id) tags ds"
    and root: "root_id \<in> d_id ` set ds"
  shows "\<exists>ds'. list_all2 (group_member t root_id) tags ds' \<and>
    ((\<forall>d \<in> set ds'. owns t d \<and> d_victims d = []) \<or>
     (claims t = claims s \<and> (\<exists>ks. ks \<noteq> [] \<and> (\<forall>d \<in> set ds'. d_victims d = ks) \<and>
        (\<forall>k \<in> set ks. (\<exists>r d. d \<in> set ds' \<and> r \<in> set (p_resources (d_profile d)) \<and> get_claim s r = Some k) \<and>
           (\<exists>v w. get_demand s k = Some v \<and> d_state v = Ready \<and> get_demand t k = Some w \<and>
              d_state w = Preempting \<and> d_preempted_by w = Some root_id)))))"
proof -
  let ?ks = "group_conflicts s ds"
  obtain ds' u result where u: "fence_group e [''group''] root_id ds s = Inr (ds', u)"
    and t: "retention e (c_limits c) (upd_demand root_id (\<lambda>d. d\<lparr>d_reserve_result := Some result\<rparr>)
      (upd_demand root_id (\<lambda>d. d\<lparr>d_services := services, d_reserve_request := Some r\<rparr>)
        (put_demands ds' u))) = Inr t"
    using a by (auto simp: admit_group_def Let_def res_simps split: if_splits)
  let ?f = "\<lambda>d. d\<lparr>d_services := services, d_reserve_request := Some r, d_reserve_result := Some result\<rparr>"
  let ?g = "\<lambda>d. if d_id d = root_id then ?f d else d"
  note fr = fence_group_result[OF u]
  have pi: "doc_inv (put_demands ds' u)" by (rule fence_group_put_inv[OF u inv ids])
  have ids': "map d_id ds' = map d_id ds" by (rule fenced_list_ids[OF fr(1)])
  have dt: "demands t = om_upd root_id (\<lambda>d. d\<lparr>d_reserve_result := Some result\<rparr>)
       (om_upd root_id (\<lambda>d. d\<lparr>d_services := services, d_reserve_request := Some r\<rparr>)
          (demands (put_demands ds' u)))"
    and ct: "claims t = claims u"
    using calls_compacted_sel(1,2)[OF retention_kept[OF t]] pi by (simp_all add: doc_inv_def maps_ok_def)
  have g: "get_demand t (d_id d) = Some (?g d)" if "d \<in> set ds'" for d
    using put_demands_get[of ds' d u] that ids(1) ids'
    by (cases "d_id d = root_id") (auto simp: dt)
  have len: "length ds = length ds'" "length tags = length ds"
    using fr(1) mem by (auto dest: list_all2_lengthD)
  have gm: "list_all2 (group_member t root_id) tags (map ?g ds')"
    unfolding list_all2_conv_all_nth
  proof (intro conjI allI impI)
    show "length tags = length (map ?g ds')" using len by simp
    fix i assume i: "i < length tags"
    have f: "fenced (ds ! i) ?ks (ds' ! i)" and m: "p_tag (d_profile (ds ! i)) = tags ! i"
        "d_reservation_id (ds ! i) = Some root_id"
      using fr(1) mem i len by (auto simp: list_all2_conv_all_nth)
    have "get_demand t (d_id (ds' ! i)) = Some (?g (ds' ! i))"
      by (rule g) (use i len in simp)
    then show "group_member t root_id (tags ! i) (map ?g ds' ! i)"
      using f m i len by (cases "d_id (ds ! i) = root_id") (auto simp: group_member_def fenced_def)
  qed
  have vic: "d_victims d = ?ks" if "d \<in> set ds'" for d
    using fr(1) that by (auto simp: list_all2_conv_all_nth in_set_conv_nth fenced_def)
  have ow: "owns t (?g d) = owns u d" for d using ct by (simp add: owns_def)
  show ?thesis
  proof (cases "?ks = []")
    case True
    then have c: "fold_res claim_demand ds (preempted_document e root_id ?ks s) = Inr u"
      using fr(3) by (simp add: Let_def)
    have "owns u d" if "d \<in> set ds" for d
      using claim_demands_owns[OF c ids(1) res] that by blast
    then have od: "owns u d" if "d \<in> set ds'" for d
      using that fr(1) owns_fenced by (fastforce simp: list_all2_conv_all_nth in_set_conv_nth)
    have "\<forall>d \<in> set (map ?g ds'). owns t d \<and> d_victims d = []"
    proof
      fix y assume "y \<in> set (map ?g ds')"
      then obtain d where d: "d \<in> set ds'" "y = ?g d" by auto
      have "owns t y" unfolding d(2) ow by (rule od[OF d(1)])
      then show "owns t y \<and> d_victims y = []" using vic[OF d(1)] True d(2) by simp
    qed
    then show ?thesis using gm by blast
  next
    case False
    have id_set: "d_id ` set ds' = d_id ` set ds" using arg_cong[OF ids', of set] by simp
    from False have up: "u = preempted_document e root_id ?ks s" using fr(3) by (simp add: Let_def)
    then have 1: "claims t = claims s" using ct by simp
    have 2: "\<forall>d \<in> set (map ?g ds'). d_victims d = ?ks" using vic by auto
    have 3: "\<exists>r d. d \<in> set (map ?g ds') \<and> r \<in> set (p_resources (d_profile d)) \<and> get_claim s r = Some k"
      if m: "k \<in> set ?ks" for k
    proof -
      obtain d r where d: "d \<in> set ds" "r \<in> set (p_resources (d_profile d))" "get_claim s r = Some k"
        using m by (auto simp: group_conflicts_def in_conflicts_iff)
      then obtain j where "j < length ds" "d = ds ! j" by (metis in_set_conv_nth)
      then have "fenced d ?ks (ds' ! j)" "ds' ! j \<in> set ds'" using fr(1) by (auto simp: list_all2_conv_all_nth)
      then have "?g (ds' ! j) \<in> set (map ?g ds')" "r \<in> set (p_resources (d_profile (?g (ds' ! j))))"
        using d(2) by (auto simp: fenced_def)
      then show ?thesis using d(3) by blast
    qed
    have 4: "\<exists>v w. get_demand s k = Some v \<and> d_state v = Ready \<and> get_demand t k = Some w \<and>
        d_state w = Preempting \<and> d_preempted_by w = Some root_id" if m: "k \<in> set ?ks" for k
    proof -
      obtain v where v: "get_demand s k = Some v" "d_state v = Ready" using fr(2) m by blast
      have n: "k \<notin> d_id ` set ds'" using v(1) ids(2) id_set by force
      have "get_demand u k = Some (preempt (now e) root_id v)"
        unfolding up using v(1) m by (simp add: preempted_document_get)
      then have "get_demand (put_demands ds' u) k = Some (preempt (now e) root_id v)" using put_demands_other[OF n] by simp
      moreover have "k \<noteq> root_id" using root n id_set by blast
      ultimately show ?thesis using v by (simp add: dt preempt_def)
    qed
    have 5: "?ks \<noteq> []" by (rule False)
    show ?thesis
      by (intro exI[of _ "map ?g ds'"] conjI gm disjI2 1 exI[of _ ?ks] 5 2 ballI 3 4)
  qed
qed

text \<open>C8: a reservation of several services is atomic. A reservation that answers
  either leaves every demand and every claim as it was, or enters one \<open>Preparing\<close> demand for every
  requested service, in one group; and then either all of them own all their devices,
  or none of them takes any and all wait for the same incumbents: the list of each member names the same
  services, each of which held a device that a member needs, was ready, and is now being preempted for this group.\<close>

theorem reserve_atomic:
  assumes "doc_inv s" and "fresh_ids e s"
    and "reserve_op e c legacy public replay src r s = Inr (v, t)"
  shows "(demands t = demands s \<and> claims t = claims s) \<or>
    (\<exists>root_id ds. list_all2 (group_member t root_id) (r_services r) ds \<and>
       ((\<forall>d \<in> set ds. owns t d \<and> d_victims d = []) \<or>
        (claims t = claims s \<and> (\<exists>ks. ks \<noteq> [] \<and> (\<forall>d \<in> set ds. d_victims d = ks) \<and>
           (\<forall>k \<in> set ks. (\<exists>r d. d \<in> set ds \<and> r \<in> set (p_resources (d_profile d)) \<and> get_claim s r = Some k) \<and>
              (\<exists>v w. get_demand s k = Some v \<and> d_state v = Ready \<and> get_demand t k = Some w \<and>
              d_state w = Preempting \<and> d_preempted_by w = Some root_id))))))"
proof (cases "demands t = demands s \<and> claims t = claims s")
  case same: False
  have new: "reserve_new e c legacy public src r s = Inr (v, t)"
    using assms(3) same
    by (auto simp: reserve_op_def res_simps split: option.splits if_splits)
  obtain ds where ds: "prepare_members e c src r (length (demands s)) [] (r_services r) = Inr ds"
      "distinct (r_services r)"
    using new by (auto simp: reserve_new_def res_simps split: if_splits)
  obtain first rest where fr: "ds = first # rest"
    using new ds by (auto simp: reserve_new_def res_simps split: if_splits list.splits)
  let ?ds = "map (\<lambda>d. d\<lparr>d_reservation_id := Some (d_id first)\<rparr>) ds"
  let ?s = "trim_group_decisions e s"
  have inv: "doc_inv ?s" by (rule trim_kept[OF assms(1)])
  note m = prepare_members_result[OF ds(1)]
  have ids: "distinct (map d_id ?ds)" "\<And>d. d \<in> set ?ds \<Longrightarrow> get_demand ?s (d_id d) = None"
    using new_member_ids[OF conjunct1[OF m] ds(2) assms(2)] by (auto simp: comp_def trim_is_purge)
  obtain key environment where k: "group_decision_key e (src_source src) r ?ds = Inr key"
      "group_environment e s = Inr environment"
    using new ds fr by (auto simp: reserve_new_def Let_def res_simps split: if_splits)
  have none: "group_refusal e c legacy src key environment ?ds ?s = None"
  proof (rule ccontr)
    assume "group_refusal e c legacy src key environment ?ds ?s \<noteq> None"
    then obtain reason where "group_refusal e c legacy src key environment ?ds ?s = Some reason" by blast
    then have "demands t = demands s \<and> claims t = claims s"
      using new ds fr k
      by (auto simp: reserve_new_def Let_def res_simps trim_is_purge split: if_splits)
    then show False using same by simp
  qed
  then have ag: "admit_group e c public src r (d_id first)
      (fold (\<lambda>d. om_put (p_tag (d_profile d)) (d_id d)) ds []) ?ds ?s = Inr (v, t)"
    using new ds fr k by (auto simp: reserve_new_def Let_def res_simps split: if_splits)
  have mem: "list_all2 (\<lambda>tag d. p_tag (d_profile d) = tag \<and> d_reservation_id d = Some (d_id first))
      (r_services r) ?ds"
    using conjunct1[OF m] by (auto simp: list_all2_conv_all_nth new_member_def)
  have res: "distinct (concat (map (\<lambda>d. p_resources (d_profile d)) ?ds))"
    using m by (simp add: comp_def)
  have "claims ?s = claims s" by (simp add: trim_is_purge)
  have "d_id first \<in> d_id ` set ?ds" by (simp add: fr)
  from admit_group_result[OF ag inv ids res mem this] show ?thesis using \<open>claims ?s = claims s\<close> by (auto simp: trim_is_purge)
qed blast

text \<open>A refresh of a reservation never changes it. The operation exists to re-evaluate the
  services of a reservation that were unavailable, but no operation of this version leaves an
  unavailable demand in the document (part of the invariant), so whenever it answers, every
  demand and every claim is as it was.\<close>

theorem refresh_changes_nothing:
  assumes "doc_inv s" and "refresh_op e c legacy public owner k s = Inr (v, t)"
  shows "demands t = demands s \<and> claims t = claims s"
  using refresh_inv(2,3)[OF assms(2,1)] by simp

text \<open>A remembered group refusal renews itself. While an entry of the cache is live and
  the claims look the same, the same reservation request is refused with the remembered reason
  whatever eligibility and the planner would now say, and the entry's life starts again from now: a
  client that polls within its two seconds is refused for as long as it goes on polling.\<close>

theorem group_refusal_renews:
  assumes "reserve_new e c legacy public src r s = Inr (v, t)"
    and "prepare_members e c src r (length (demands s)) [] (r_services r) = Inr (d # ds)"
    and "group_decision_key e (src_source src) r
           (map (\<lambda>x. x\<lparr>d_reservation_id := Some (d_id d)\<rparr>) (d # ds)) = Inr key"
    and "group_environment e s = Inr environment"
    and "cached_decision e src (trim_group_decisions e s) key environment = Some x"
    and "doc_inv s"
  shows "demands t = demands s \<and> claims t = claims s \<and>
    unavailable_group e public (src_source src) r
      (map (\<lambda>x. x\<lparr>d_reservation_id := Some (d_id d)\<rparr>) (d # ds)) (ad_reason x) = Inr v \<and>
    (length (acquisition_decisions s) < 128 \<longrightarrow>
     cached_decision e src t key environment =
       Some (x\<lparr>ad_retry_after := 2, ad_expires_at := now e + 2\<rparr>))"
proof -
  let ?s = "trim_group_decisions e s"
  let ?x = "\<lparr>ad_owner = src_source src, ad_environment = environment, ad_reason = ad_reason x,
        ad_retry_after = 2, ad_expires_at = now e + 2\<rparr>"
  let ?u = "?s\<lparr>acquisition_decisions := om_put key ?x (acquisition_decisions ?s)\<rparr>"
  have gr: "group_refusal e c legacy src key environment
      (map (\<lambda>x. x\<lparr>d_reservation_id := Some (d_id d)\<rparr>) (d # ds)) ?s = Some (ad_reason x)"
    using assms(5) by (simp add: group_refusal_def)
  have t: "t = trim_group_decisions e ?u"
    and v: "unavailable_group e public (src_source src) r
      (map (\<lambda>x. x\<lparr>d_reservation_id := Some (d_id d)\<rparr>) (d # ds)) (ad_reason x) = Inr v"
    using assms(1-4) gr by (auto simp: reserve_new_def Let_def res_simps split: if_splits)
  have xx: "?x = x\<lparr>ad_retry_after := 2, ad_expires_at := now e + 2\<rparr>"
    using assms(5) by (cases x) (auto simp: cached_decision_def split: option.splits if_splits)
  have ok: "om_ok (acquisition_decisions ?s)"
    using trim_kept[OF assms(6)] by (simp add: doc_inv_def maps_ok_def)
  have "cached_decision e src t key environment = Some ?x"
    if l: "length (acquisition_decisions s) < 128"
  proof -
    have "length (acquisition_decisions ?s) \<le> length (acquisition_decisions s)"
      using l length_om_retain_le[of _ "acquisition_decisions s"]
      by (auto simp: trim_group_decisions_def Let_def intro: le_trans[OF length_om_retain_le])
    then have "length (om_put key ?x (acquisition_decisions ?s)) \<le> 128"
      using length_om_put_le[of key ?x "acquisition_decisions ?s"] l by linarith
    then have "length (om_retain (\<lambda>_ x. now e < ad_expires_at x) (acquisition_decisions ?u)) \<le> 128"
      using le_trans[OF length_om_retain_le] by simp
    then have "acquisition_decisions t =
        om_retain (\<lambda>_ x. now e < ad_expires_at x) (om_put key ?x (acquisition_decisions ?s))"
      unfolding t by (subst trim_group_decisions_def) (simp add: Let_def)
    moreover have "om_ok (om_put key ?x (acquisition_decisions ?s))" using ok by simp
    ultimately have "map_of (acquisition_decisions t) key = Some ?x"
      by (simp add: map_of_om_retain)
    then show ?thesis by (simp add: cached_decision_def)
  qed
  then show ?thesis using v xx t by (simp add: trim_is_purge)
qed

section \<open>A reservation of the sample\<close>

definition sample_reserve_vision :: reserve where
  "sample_reserve_vision = sample_reserve\<lparr>r_services := [''vision'']\<rparr>"

abbreviation sample_public :: "demand \<Rightarrow> json res" where
  "sample_public \<equiv> (\<lambda>_. Inr (JObject []))"

lemma sample_find_vision: "find_profile sample_config ''vision'' = Some (sample_profile ''vision'' [''gpu1''])"
  by (simp add: find_profile_def sample_config_def sample_profile_def)

lemma sample_group_member:
  "\<exists>m. prepare_members sample_env sample_config sample_source sample_reserve_vision 1 [] [''vision''] = Inr [m] \<and>
     d_profile m = sample_profile ''vision'' [''gpu1''] \<and> d_priority m = Medium"
proof -
  have "\<exists>m. prepare_members sample_env sample_config sample_source sample_reserve_vision 1 [] [''vision''] = Inr [m]"
    by (simp add: sample_find_vision prepare_def validate_request_def valid_id_def ascii_alphanumeric_def
        Let_def sample_profile_def sample_reserve_vision_def sample_reserve_def)
      (simp add: sample_config_def)
  then obtain m where m: "prepare_members sample_env sample_config sample_source sample_reserve_vision 1 [] [''vision''] = Inr [m]"
    by blast
  then have "new_member sample_env sample_config sample_source sample_reserve_vision ''vision'' m"
    using prepare_members_result by fastforce
  then have "d_priority m = Medium" "d_profile m \<in> set (c_profiles sample_config)" "p_tag (d_profile m) = ''vision''"
    by (simp_all add: new_member_def sample_reserve_vision_def sample_reserve_def)
  then show ?thesis using m by (auto simp: sample_config_def sample_profile_def)
qed


lemma sample_reserved:
  "\<exists>v t. reserve_op sample_env sample_config (\<lambda>_. Inr []) sample_public (\<lambda>_ _. Inr None)
     sample_source sample_reserve_vision sample_document = Inr (v, t) \<and> demands t \<noteq> demands sample_document"
proof -
  obtain m where m: "prepare_members sample_env sample_config sample_source sample_reserve_vision 1 [] [''vision''] = Inr [m]"
    "d_profile m = sample_profile ''vision'' [''gpu1'']" "d_priority m = Medium"
    using sample_group_member by blast
  note nm = prepare_members_result[OF m(1)]
  have nm1: "new_member sample_env sample_config sample_source sample_reserve_vision ''vision'' m" using nm by simp
  let ?m = "m\<lparr>d_reservation_id := Some (d_id m)\<rparr>"
  have id: "get_demand sample_document (d_id m) = None"
    using new_member_ids(2)[OF conjunct1[OF nm] _ sample_fresh] by simp
  have nc: "conflicts sample_document ?m = []"
    by (simp add: conflicts_def m(2) sample_profile_def sample_document_def opt_list_def)
  have gc: "group_conflicts sample_document [?m] = []" by (simp add: group_conflicts_def nc)
  have len: "length (demands sample_document) = 1" by (simp add: sample_document_def)
  let ?u = "claim_all (d_id m) [''gpu1''] (supersede_calls sample_env [] sample_document)"
  have cd: "claim_demand ?m (supersede_calls sample_env [] sample_document) = Inr ?u"
    unfolding claim_demand_def
    by (simp add: m(2) sample_profile_def sample_document_def claim_resource_def claim_all_def)
  obtain m' where m': "fence_member sample_env [''group''] [] ?u ?m = Inr m'"
    by (simp add: fence_member_def Let_def backend_activation_for_def supported_def m(2) sample_profile_def)
  have f': "fenced ?m [] m'" using fence_member_fenced[OF m'] by simp
  have fg: "fence_group sample_env [''group''] (d_id m) [?m] sample_document = Inr ([m'], ?u)"
    by (simp add: fence_group_def gc Let_def cd m')
  let ?svc = "[(''vision'', d_id m)]"
  have tag: "p_tag (d_profile m) = ''vision''" by (simp add: m(2) sample_profile_def)
  define w where "w = upd_demand (d_id m) (\<lambda>d. d\<lparr>d_services := ?svc, d_reserve_request := Some sample_reserve_vision\<rparr>)
      (put_demands [m'] ?u)"
  let ?m2 = "m'\<lparr>d_services := ?svc, d_reserve_request := Some sample_reserve_vision\<rparr>"
  have idm: "d_id m' = d_id m" "d_owner m' = ''app''" "d_reservation_id m' = Some (d_id m)"
    using f' nm1 by (simp_all add: fenced_def new_member_def sample_source_def)
  have gw: "get_demand w (d_id m) = Some ?m2"
    by (simp add: put_demands_def idm w_def)
  have st: "d_state m' \<noteq> Unavailable" using f' by (simp add: fenced_def)
  have "\<exists>v. view sample_public w ''app'' (d_id m) = Inr v"
    using gw idm st
    by (simp add: view_def owned_def root_def members_def om_vals_def project_def member_view_def)
  then obtain v where v: "view sample_public w ''app'' (d_id m) = Inr v" by blast
  have dw: "length (demands w) \<le> 10" "invocations w = invocations sample_document"
    using length_om_put_le[of "d_id m'" m' "demands sample_document"] len
    by (simp_all add: put_demands_def w_def supersede_calls_def om_mapv_def)
  have "\<exists>t. retention sample_env sample_limits (upd_demand (d_id m) (\<lambda>d. d\<lparr>d_reserve_result := Some v\<rparr>) w) = Inr t"
    by (rule sample_retention) (use dw in simp_all)
  then obtain t where t: "retention sample_env sample_limits
      (upd_demand (d_id m) (\<lambda>d. d\<lparr>d_reserve_result := Some v\<rparr>) w) = Inr t" by blast
  have "get_demand (put_demands [m'] ?u) (d_id m) \<noteq> None" by (simp add: put_demands_def idm)
  then have ag: "admit_group sample_env sample_config sample_public sample_source sample_reserve_vision
      (d_id m) ?svc [?m] sample_document = Inr (v, t)"
    using fg v t w_def by (simp add: admit_group_def Let_def sample_config_def sample_source_def)
  have ref: "refusal sample_config (\<lambda>_. Inr []) sample_document ?m = None"
    unfolding refusal_def nc
    by (simp add: occupied_host_def nc retained_host_mib_def m(2))
      (simp add: sample_document_def sample_demand_def sample_profile_def
        om_vals_def sat_add_def u64_max_def sample_config_def)
  have el: "eligibility ?m = None"
    using nm1 by (simp add: eligibility_def new_member_def m(2) sample_profile_def)
  have gr: "group_refusal sample_env sample_config (\<lambda>_. Inr []) sample_source k x [?m] sample_document = None" for k x
    using ref el by (simp add: group_refusal_def cached_decision_def sample_document_def)
  have dt: "demands t \<noteq> demands sample_document"
  proof -
    have "demands t = demands (upd_demand (d_id m) (\<lambda>d. d\<lparr>d_reserve_result := Some v\<rparr>) w)"
      using calls_compacted_sel(2)[OF retention_kept[OF t]] sample_document_inv
      by (simp add: dw(2) doc_inv_def maps_ok_def)
    then have "get_demand t (d_id m) \<noteq> None" using gw by simp
    then show ?thesis using id by metis
  qed
  have v1: "valid_id (r_acquisition_id sample_reserve_vision)" "valid_id (r_work_id sample_reserve_vision)"
    by (simp_all add: sample_reserve_vision_def sample_reserve_def valid_id_def ascii_alphanumeric_def Let_def)
  have sv: "r_services sample_reserve_vision = [''vision'']" by (simp add: sample_reserve_vision_def)
  have nf: "List.find (same_reserve sample_source sample_reserve_vision) (om_vals (demands sample_document)) = None"
    by (simp add: sample_document_def om_vals_def same_reserve_def sample_demand_def)
  have cp: "length (c_profiles sample_config) = 2" by (simp add: sample_config_def)
  have "reserve_new sample_env sample_config (\<lambda>_. Inr []) sample_public sample_source
      sample_reserve_vision sample_document = Inr (v, t)"
    using ag gr by (simp add: reserve_new_def v1 sv cp len m(1)[unfolded One_nat_def] tag group_decision_key_def
        group_environment_def Let_def trim_is_purge sample_purge del: prepare_members.simps)
  then show ?thesis using nf dt by (simp add: reserve_op_def)
qed

theorem reserve_atomic_witness:
  "\<exists>v t. reserve_op sample_env sample_config (\<lambda>_. Inr []) sample_public (\<lambda>_ _. Inr None)
     sample_source sample_reserve_vision sample_document = Inr (v, t) \<and>
   (\<exists>root_id ds. list_all2 (group_member t root_id) [''vision''] ds)"
proof -
  obtain v t where r: "reserve_op sample_env sample_config (\<lambda>_. Inr []) sample_public (\<lambda>_ _. Inr None)
     sample_source sample_reserve_vision sample_document = Inr (v, t)" "demands t \<noteq> demands sample_document"
    using sample_reserved by blast
  have "r_services sample_reserve_vision = [''vision'']" by (simp add: sample_reserve_vision_def)
  then show ?thesis
    using reserve_atomic[OF sample_document_inv sample_fresh r(1)] r by auto
qed

theorem refresh_changes_nothing_witness:
  "\<exists>v t. refresh_op sample_env sample_config (\<lambda>_. Inr []) sample_public ''app'' ''m1'' sample_group = Inr (v, t) \<and>
     demands t = demands sample_group"
proof -
  let ?d = "sample_member ''m1'' Preparing (sample_profile ''coder'' [''gpu0''])"
  have g: "get_demand sample_group ''m1'' = Some ?d"
    "get_demand sample_group ''m2'' = Some (sample_member ''m2'' Preparing (sample_profile ''vision'' [''gpu1'']))"
    by (simp_all add: sample_group_def)
  let ?m = "sample_member ''m2'' Preparing (sample_profile ''vision'' [''gpu1''])"
  have sel: "d_services ?d = [(''coder'', ''m1''), (''vision'', ''m2'')]" "d_state ?d = Preparing"
    "d_state ?m = Preparing" "d_owner ?d = ''app''" "d_owner ?m = ''app''"
    by (simp_all add: sample_member_def sample_demand_def)
  have f: "fold_res (refresh_service sample_env sample_config (\<lambda>_. Inr []) ''app'' ?d)
      (r_services sample_reserve) sample_group = Inr sample_group"
    using g sel by (simp add: sample_reserve_def refresh_service_def owned_def)
  obtain t where t: "retention sample_env sample_limits sample_group = Inr t"
  proof -
    have "\<exists>t. retention sample_env sample_limits sample_group = Inr t"
      by (simp add: retention_def compact_terminal_requests_def sample_group_def
          compact_terminal_payloads_def terminal_entries_def waiting_def om_vals_def
          response_storage_bound_def active_payload_capacity_def sample_limits_def sat_add_def sat_mul_def
          u64_max_def COMPLETION_HEADROOM_BYTES_def API_REQUEST_BODY_BYTES_def)
    then show thesis using that by blast
  qed
  have "demands t = demands sample_group"
    using calls_compacted_sel(2)[OF retention_kept[OF t]] sample_group_inv
    by (simp add: doc_inv_def maps_ok_def)
  then have gt: "get_demand t ''m1'' = Some ?d" "get_demand t ''m2'' = Some ?m" using g by simp_all
  have rid: "d_reservation_id ?d = Some ''m1''" "d_id ?d = ''m1''"
    by (simp_all add: sample_member_def sample_demand_def)
  have "\<exists>v. view sample_public t ''app'' ''m1'' = Inr v"
    using gt sel rid
    by (simp add: view_def owned_def root_def members_def project_def member_view_def om_vals_def)
  then obtain v where v: "view sample_public t ''app'' ''m1'' = Inr v" by blast
  have "owned sample_group ''app'' ''m1'' = Inr ?d"
    using g by (simp add: owned_def sample_member_def sample_demand_def)
  then have r: "refresh_op sample_env sample_config (\<lambda>_. Inr []) sample_public ''app'' ''m1'' sample_group = Inr (v, t)"
    using f t v by (simp add: refresh_op_def sample_config_def)
      (simp add: sample_member_def sample_demand_def sample_reserve_def)
  show ?thesis using refresh_changes_nothing[OF sample_group_inv r] r by blast
qed

text \<open>The sample with a remembered refusal that is about to expire.\<close>

definition sample_decision :: acquisition_decision where
  "sample_decision = \<lparr>ad_owner = ''app'', ad_environment = replicate 64 CHR ''a'',
     ad_reason = ''legacy_ownership_requires_migration'', ad_retry_after = 2, ad_expires_at = 101\<rparr>"

definition sample_refused :: document where
  "sample_refused = sample_document\<lparr>acquisition_decisions := [(replicate 64 CHR ''a'', sample_decision)]\<rparr>"

theorem group_refusal_renews_witness:
  "\<exists>v t. reserve_new sample_env sample_config (\<lambda>_. Inr []) sample_public sample_source
      sample_reserve_vision sample_refused = Inr (v, t) \<and>
    cached_decision sample_env sample_source t (replicate 64 CHR ''a'') (replicate 64 CHR ''a'') =
      Some (sample_decision\<lparr>ad_retry_after := 2, ad_expires_at := 102\<rparr>)"
proof -
  let ?k = "replicate 64 CHR ''a''"
  obtain m where m: "prepare_members sample_env sample_config sample_source sample_reserve_vision 1 [] [''vision''] = Inr [m]"
    using sample_group_member by blast
  have len: "length (demands sample_refused) = 1" by (simp add: sample_refused_def sample_document_def)
  have sv: "r_services sample_reserve_vision = [''vision'']" by (simp add: sample_reserve_vision_def)
  have m': "prepare_members sample_env sample_config sample_source sample_reserve_vision
      (length (demands sample_refused)) [] (r_services sample_reserve_vision) = Inr [m]"
    unfolding len sv by (rule m)
  have inv: "doc_inv sample_refused"
    unfolding sample_refused_def
    by (rule demands_kept_doc_inv[OF sample_document_inv demands_kept_decisions[OF sample_document_inv]])
      (simp add: om_ok_def)
  have key: "group_decision_key sample_env (src_source sample_source) sample_reserve_vision
      (map (\<lambda>x. x\<lparr>d_reservation_id := Some (d_id m)\<rparr>) [m]) = Inr ?k"
    by (simp add: group_decision_key_def)
  have envr: "group_environment sample_env sample_refused = Inr ?k" by (simp add: group_environment_def)
  have trim: "acquisition_decisions (trim_group_decisions sample_env sample_refused) = [(?k, sample_decision)]"
    by (simp add: trim_group_decisions_def sample_refused_def om_retain_def sample_decision_def)
  have ca: "cached_decision sample_env sample_source (trim_group_decisions sample_env sample_refused) ?k ?k =
      Some sample_decision"
    unfolding cached_decision_def trim by (simp add: sample_decision_def sample_source_def)
  have gr: "group_refusal sample_env sample_config (\<lambda>_. Inr []) sample_source ?k ?k
      [m\<lparr>d_reservation_id := Some (d_id m)\<rparr>] (trim_group_decisions sample_env sample_refused) =
      Some (ad_reason sample_decision)"
    unfolding group_refusal_def ca by simp
  have v1: "valid_id (r_acquisition_id sample_reserve_vision)" "valid_id (r_work_id sample_reserve_vision)"
    by (simp_all add: sample_reserve_vision_def sample_reserve_def valid_id_def ascii_alphanumeric_def Let_def)
  have cp: "length (c_profiles sample_config) = 2" by (simp add: sample_config_def)
  obtain v where v: "unavailable_group sample_env sample_public (src_source sample_source)
      sample_reserve_vision [m\<lparr>d_reservation_id := Some (d_id m)\<rparr>] (ad_reason sample_decision) = Inr v"
    by (simp add: unavailable_group_def Let_def json_remove_def)
  have "\<exists>t. reserve_new sample_env sample_config (\<lambda>_. Inr []) sample_public sample_source
      sample_reserve_vision sample_refused = Inr (v, t)"
    using m' key envr gr v by (simp add: reserve_new_def v1 sv cp Let_def del: prepare_members.simps)
  then obtain t where t: "reserve_new sample_env sample_config (\<lambda>_. Inr []) sample_public sample_source
      sample_reserve_vision sample_refused = Inr (v, t)" by blast
  have "length (acquisition_decisions sample_refused) < 128" by (simp add: sample_refused_def)
  then show ?thesis
    using group_refusal_renews[OF t m' key envr ca inv] t by auto
qed

end
