(* ===== verification/Activity.thy ===== *)
theory Activity
  imports Group_Admission
begin

text \<open>
  \<open>idle.rs\<close> and \<open>activity_retention.rs\<close>: when a reservation counts as idle, how idle services
  are retired, and how the deadline of a reservation in use is moved ahead of that decision. A
  whole reservation is one inactivity domain: work on any member keeps every member.
\<close>

section \<open>Idleness\<close>

definition touch :: "string \<Rightarrow> nat \<Rightarrow> document \<Rightarrow> document res" where
  "touch k at s =
     (case get_demand s k of
        None \<Rightarrow> Inl ''missing_reservation''
      | Some d \<Rightarrow> Inr (upd_demand k (\<lambda>d. d\<lparr>d_last_activity_at :=
            Some (max (unwrap_or (d_last_activity_at d) (d_created d)) at)\<rparr>) s))"

definition due :: "demand \<Rightarrow> nat \<Rightarrow> nat \<Rightarrow> bool" where
  "due d seconds at \<longleftrightarrow>
     \<not> d_released d \<and> d_state d \<in> {Ready, Preparing} \<and>
     at - unwrap_or (d_last_activity_at d) (d_created d) \<ge> seconds"

definition running_workspace :: "document \<Rightarrow> string \<Rightarrow> bool" where
  "running_workspace s k \<longleftrightarrow>
     (\<exists>i \<in> set (om_vals (invocations s)).
        q_reservation_id (i_request i) = k \<and> is_workspace i \<and> i_state i = Running)"

definition group_active :: "document \<Rightarrow> demand \<Rightarrow> nat \<Rightarrow> nat \<Rightarrow> bool" where
  "group_active s d seconds at =
     (case members s d of
        Inl _ \<Rightarrow> True
      | Inr ids \<Rightarrow> (\<exists>k \<in> set ids.
          case owned s (d_owner d) k of
            Inl _ \<Rightarrow> True
          | Inr peer \<Rightarrow>
              \<not> d_released peer \<and>
              (at - unwrap_or (d_last_activity_at peer) (d_created peer) < seconds \<or>
               inflight s k \<or> running_workspace s k)))"

text \<open>A native queue (\<open>Comfyui\<close> outside the test driver) is closed by its own barrier.\<close>

definition native :: "demand \<Rightarrow> bool" where
  "native d \<longleftrightarrow> p_backend (d_profile d) = Comfyui \<and> p_driver (d_profile d) \<noteq> Fixture"

definition native_barrier_pending :: "document \<Rightarrow> demand \<Rightarrow> bool" where
  "native_barrier_pending s d =
     (case members s d of
        Inl _ \<Rightarrow> True
      | Inr ids \<Rightarrow> (\<exists>k \<in> set ids. is_some_and (get_demand s k) (\<lambda>peer.
          \<not> d_released peer \<and> native peer \<and> d_state peer \<in> {Ready, Preparing})))"

definition idle_eligible :: "document \<Rightarrow> nat \<Rightarrow> nat \<Rightarrow> demand \<Rightarrow> bool" where
  "idle_eligible s seconds at d \<longleftrightarrow>
     due d seconds at \<and> \<not> group_active s d seconds at \<and> \<not> native_barrier_pending s d \<and>
     (p_backend (d_profile d) \<noteq> Comfyui \<or> p_driver (d_profile d) = Fixture)"

definition idle_pending :: "document \<Rightarrow> nat \<Rightarrow> nat \<Rightarrow> bool" where
  "idle_pending s seconds at \<longleftrightarrow> (\<exists>d \<in> set (om_vals (demands s)). idle_eligible s seconds at d)"

definition expire :: "nat \<Rightarrow> demand \<Rightarrow> demand" where
  "expire at d = d\<lparr>d_released := True, d_state := Releasing, d_reason := Some IDLE_TIMEOUT,
     d_transition_deadline := at + p_drain_seconds (d_profile d)\<rparr>"

definition reap :: "nat \<Rightarrow> nat \<Rightarrow> document \<Rightarrow> document" where
  "reap seconds at s =
     fold (\<lambda>k. upd_demand k (expire at))
       (map d_id (filter (idle_eligible s seconds at) (om_vals (demands s)))) s"

section \<open>Retention of a reservation in use\<close>

text \<open>Only a member that is ready, active and in possession of its devices takes part.\<close>

definition retained :: "document \<Rightarrow> nat \<Rightarrow> demand \<Rightarrow> bool" where
  "retained s at d \<longleftrightarrow> \<not> d_released d \<and> d_state d = Ready \<and> d_deadline d > at \<and> owns s d"

definition member_activity :: "document \<Rightarrow> nat \<Rightarrow> demand \<Rightarrow> nat option" where
  "member_activity s at d =
     (if inflight s (d_id d) \<or> running_workspace s (d_id d) then Some at
      else (case d_last_activity_at d of
              None \<Rightarrow> None
            | Some v \<Rightarrow> if v \<ge> d_created d \<and> v \<le> at then Some v else None))"

definition latest :: "nat option list \<Rightarrow> nat option" where
  "latest xs = (if \<exists>v. Some v \<in> set xs then Some (Max {v. Some v \<in> set xs}) else None)"

definition root_extensions ::
  "document \<Rightarrow> nat \<Rightarrow> nat \<Rightarrow> demand \<Rightarrow> (string \<times> nat) list res" where
  "root_extensions s seconds at rt =
     (if d_reservation_closed rt \<noteq> None then Inr []
      else
        res_bind (members s rt) (\<lambda>ids.
        res_bind (map_res (owned s (d_owner rt)) ids) (\<lambda>peers.
          let kept = filter (retained s at) peers;
              deadline = sat_add at seconds in
          Inr (if is_some_and (latest (map (member_activity s at) kept))
                    (\<lambda>activity. at - activity < seconds)
               then map (\<lambda>d. (d_id d, deadline)) (filter (\<lambda>d. deadline > d_deadline d) kept)
               else []))))"

definition extensions :: "document \<Rightarrow> nat \<Rightarrow> nat \<Rightarrow> (string \<times> nat) list res" where
  "extensions s seconds at =
     res_bind (map_res (root_extensions s seconds at)
       (filter (\<lambda>d. d_reserve_request d \<noteq> None) (om_vals (demands s)))) (\<lambda>us. Inr (concat us))"

definition retention_pending :: "document \<Rightarrow> nat \<Rightarrow> nat \<Rightarrow> bool" where
  "retention_pending s seconds at =
     (case extensions s seconds at of Inl _ \<Rightarrow> True | Inr us \<Rightarrow> us \<noteq> [])"

definition set_deadline :: "string \<times> nat \<Rightarrow> document \<Rightarrow> document res" where
  "set_deadline u s =
     (if get_demand s (fst u) = None then Inl ''missing_reservation_member''
      else Inr (upd_demand (fst u) (\<lambda>d. d\<lparr>d_deadline := snd u\<rparr>) s))"

definition refresh_retention :: "nat \<Rightarrow> nat \<Rightarrow> document \<Rightarrow> document res" where
  "refresh_retention seconds at s =
     res_bind (extensions s seconds at) (\<lambda>us. fold_res set_deadline us s)"

section \<open>Lemmas\<close>

lemma demand_ids:
  assumes "doc_inv s"
  shows "k \<in> set (map d_id (filter p (om_vals (demands s)))) \<longleftrightarrow>
    (\<exists>d. get_demand s k = Some d \<and> p d)"
proof -
  have "om_ok (demands s)" using assms by (simp add: doc_inv_def maps_ok_def)
  then show ?thesis
    using doc_inv_id[OF assms] by (auto simp: in_om_vals_iff image_iff)
qed

lemma demand_ids_distinct:
  assumes "doc_inv s"
  shows "distinct (map d_id (filter p (om_vals (demands s))))"
proof -
  have d: "distinct (map fst (demands s))"
    using assms by (simp add: doc_inv_def maps_ok_def om_ok_distinct)
  have "d_id (snd x) = fst x" if "x \<in> set (demands s)" for x
    using that d doc_inv_id[OF assms, of "fst x" "snd x"] by simp
  then have "map d_id (om_vals (demands s)) = map fst (demands s)"
    by (simp add: om_vals_def)
  then have "distinct (map d_id (om_vals (demands s)))" using d by simp
  then show ?thesis by (rule distinct_map_filter)
qed

text \<open>Updating every demand that meets a condition, in the order of the keys.\<close>

lemma update_selected_get:
  assumes "doc_inv s"
  shows "get_demand (fold (\<lambda>k. upd_demand k f) (map d_id (filter p (om_vals (demands s)))) s) k =
    map_option (\<lambda>d. if p d then f d else d) (get_demand s k)"
proof -
  let ?ks = "map d_id (filter p (om_vals (demands s)))"
  have "get_demand (fold (\<lambda>k. upd_demand k f) ?ks s) k =
      (if k \<in> set ?ks then map_option f (get_demand s k) else get_demand s k)"
    unfolding fold_upd_demand_sel by (rule om.upd_all_get) (rule demand_ids_distinct[OF assms])
  then show ?thesis
    unfolding demand_ids[OF assms] by (cases "get_demand s k") auto
qed

lemma update_selected_kept:
  assumes inv: "doc_inv s"
    and f: "\<And>k d. get_demand s k = Some d \<Longrightarrow> p d \<Longrightarrow> demand_step s d (f d)"
  shows "claims_kept s (fold (\<lambda>k. upd_demand k f) (map d_id (filter p (om_vals (demands s)))) s)"
proof -
  let ?t = "fold (\<lambda>k. upd_demand k f) (map d_id (filter p (om_vals (demands s)))) s"
  have "maps_ok ?t"
    using inv by (simp add: fold_upd_demand_sel maps_ok_def doc_inv_def om.upd_all_ok)
  moreover have "calls_ok ?t"
    using doc_inv_calls_ok[OF inv] by (simp add: calls_ok_def fold_upd_demand_sel)
  moreover have "claims ?t = claims s" by (rule fold_upd_demand_sel)
  ultimately show ?thesis
    unfolding claims_kept_def update_selected_get[OF inv]
    using f demand_step_refl[OF inv] by (auto split: option.splits)
qed

lemma expire_step: "get_demand s k = Some d \<Longrightarrow> doc_inv s \<Longrightarrow> demand_step s d (expire at d)"
  by (auto simp: demand_step_def expire_def live_ok_def)

lemma reap_get:
  "doc_inv s \<Longrightarrow> get_demand (reap seconds at s) k =
     map_option (\<lambda>d. if idle_eligible s seconds at d then expire at d else d) (get_demand s k)"
  unfolding reap_def by (rule update_selected_get)

lemma reap_sel [simp]:
  "invocations (reap seconds at s) = invocations s" "claims (reap seconds at s) = claims s"
  "workspace_scopes (reap seconds at s) = workspace_scopes s"
  by (simp_all add: reap_def fold_upd_demand_sel)

lemma reap_kept: "doc_inv s \<Longrightarrow> claims_kept s (reap seconds at s)"
  unfolding reap_def by (rule update_selected_kept) (auto intro: expire_step)

lemma touch_kept: "touch k at s = Inr t \<Longrightarrow> doc_inv s \<Longrightarrow> claims_kept s t"
  by (auto simp: touch_def demand_step_def live_ok_def doc_inv_def split: option.splits
      intro!: claims_kept_upd_demand)

lemma set_deadline_kept: "set_deadline u s = Inr t \<Longrightarrow> doc_inv s \<Longrightarrow> claims_kept s t"
  by (auto simp: set_deadline_def demand_step_def live_ok_def doc_inv_def split: if_splits
      intro!: claims_kept_upd_demand)

lemma refresh_retention_inv:
  assumes "refresh_retention seconds at s = Inr t" and "doc_inv s"
  shows "doc_inv t"
proof -
  obtain us where "fold_res set_deadline us s = Inr t"
    using assms(1) by (auto simp: refresh_retention_def res_simps)
  then show ?thesis
    by (rule fold_res_invariant[where I = doc_inv])
      (auto simp: assms(2) dest: set_deadline_kept claims_kept_doc_inv)
qed

section \<open>Retention settles\<close>

definition prolong :: "string set \<Rightarrow> nat \<Rightarrow> demand \<Rightarrow> demand" where
  "prolong K D d = (if d_id d \<in> K then d\<lparr>d_deadline := D\<rparr> else d)"

lemma prolong_sel [simp]:
  "d_id (prolong K D d) = d_id d" "d_owner (prolong K D d) = d_owner d"
  "d_reservation_id (prolong K D d) = d_reservation_id d"
  "d_services (prolong K D d) = d_services d"
  "d_reserve_request (prolong K D d) = d_reserve_request d"
  "d_reservation_closed (prolong K D d) = d_reservation_closed d"
  "d_state (prolong K D d) = d_state d" "d_released (prolong K D d) = d_released d"
  "d_created (prolong K D d) = d_created d" "d_profile (prolong K D d) = d_profile d"
  "d_last_activity_at (prolong K D d) = d_last_activity_at d"
  by (simp_all add: prolong_def)

lemma owns_prolong [simp]: "owns s (prolong K D d) = owns s d"
  by (simp add: owns_def)

lemma prolong_deadline: "d_deadline (prolong K D d) = (if d_id d \<in> K then D else d_deadline d)"
  by (simp add: prolong_def)

lemma set_deadlines_demands:
  assumes "fold_res set_deadline us s = Inr t" and "\<forall>u \<in> set us. snd u = D"
    and "\<forall>x \<in> set (demands s). d_id (snd x) = fst x"
  shows "t = s\<lparr>demands := om_mapv (prolong (fst ` set us) D) (demands s)\<rparr>"
  using assms
proof (induction us arbitrary: s)
  case Nil
  then show ?case by (simp add: prolong_def om_mapv_def)
next
  case (Cons u us)
  then obtain s' where s': "set_deadline u s = Inr s'" "fold_res set_deadline us s' = Inr t"
    by (auto split: sum.splits)
  have e: "s' = upd_demand (fst u) (\<lambda>d. d\<lparr>d_deadline := D\<rparr>) s"
    using s'(1) Cons.prems(2) by (auto simp: set_deadline_def split: if_splits)
  have "\<forall>x \<in> set (demands s'). d_id (snd x) = fst x"
    using Cons.prems(3) by (auto simp: e om_upd_def)
  then have "t = s'\<lparr>demands := om_mapv (prolong (fst ` set us) D) (demands s')\<rparr>"
    using Cons.IH[OF s'(2)] Cons.prems(2) by simp
  then show ?case
    using Cons.prems(3) by (auto simp: e om_upd_def om_mapv_def upd_demand_def prolong_def)
qed

lemma owned_prolong:
  assumes "demands t = om_mapv (prolong K D) (demands s)"
  shows "owned t owner k = res_bind (owned s owner k) (\<lambda>d. Inr (prolong K D d))"
proof -
  have "get_demand t k = map_option (prolong K D) (get_demand s k)"
    unfolding assms by simp
  then show ?thesis by (simp add: owned_def split: option.splits)
qed

lemma members_prolong:
  assumes "demands t = om_mapv (prolong K D) (demands s)"
  shows "members t (prolong K D d) = members s d"
proof -
  have "root t (prolong K D d) = res_bind (root s d) (\<lambda>d. Inr (prolong K D d))"
    by (simp add: root_def owned_prolong[OF assms] split: option.splits)
  then show ?thesis by (cases "root s d") (simp_all add: members_def)
qed

lemma map_res_prolong:
  assumes "demands t = om_mapv (prolong K D) (demands s)"
    and "map_res (owned s owner) ids = Inr peers"
  shows "map_res (owned t owner) ids = Inr (map (prolong K D) peers)"
  using assms(2)
  by (induction ids arbitrary: peers) (auto simp: owned_prolong[OF assms(1)] split: sum.splits)

lemma root_extensions_settled:
  assumes t: "t = s\<lparr>demands := om_mapv (prolong K (sat_add at seconds)) (demands s)\<rparr>"
    and us: "root_extensions s seconds at rt = Inr us" "fst ` set us \<subseteq> K"
    and K: "\<And>k d. k \<in> K \<Longrightarrow> get_demand s k = Some d \<Longrightarrow> sat_add at seconds > at"
    and r: "\<And>k d. k \<in> K \<Longrightarrow> get_demand s k = Some d \<Longrightarrow> d_deadline d > at"
    and ids: "\<And>k d. get_demand s k = Some d \<Longrightarrow> d_id d = k"
  shows "root_extensions t seconds at (prolong K (sat_add at seconds) rt) = Inr []"
proof (cases "d_reservation_closed rt")
  case (Some c)
  then show ?thesis by (simp add: root_extensions_def)
next
  case open_: None
  let ?D = "sat_add at seconds"
  obtain ms peers where m: "members s rt = Inr ms" "map_res (owned s (d_owner rt)) ms = Inr peers"
    using us(1) open_ by (auto simp: root_extensions_def res_simps)
  have fl: "inflight t = inflight s" "running_workspace t = running_workspace s" "\<And>d. owns t d = owns s d"
    by (simp_all add: t fun_eq_iff inflight_def running_workspace_def owns_def)
  have dt: "demands t = om_mapv (prolong K ?D) (demands s)" by (simp add: t)
  have pe: "get_demand s (d_id d) = Some d" if "d \<in> set peers" for d
    using map_res_set[OF m(2) that] ids by (auto simp: res_simps)
  have ret: "retained t at (prolong K ?D d) = retained s at d" if "d \<in> set peers" for d
    using K[OF _ pe[OF that]] r[OF _ pe[OF that]]
    by (auto simp: retained_def fl prolong_deadline)
  have act: "member_activity t at (prolong K ?D d) = member_activity s at d" for d
    by (simp add: member_activity_def fl split: option.split)
  have kept: "filter (retained t at) (map (prolong K ?D) peers) =
      map (prolong K ?D) (filter (retained s at) peers)"
    using ret by (induction peers) auto
  have "filter (\<lambda>d. ?D > d_deadline d) (map (prolong K ?D) (filter (retained s at) peers)) = []"
    if "is_some_and (latest (map (member_activity s at) (filter (retained s at) peers)))
          (\<lambda>activity. at - activity < seconds)"
    using us that open_ m by (auto simp: root_extensions_def Let_def filter_empty_conv prolong_deadline image_subset_iff)
  then show ?thesis
    using open_ by (simp add: root_extensions_def members_prolong[OF dt] m(1)
        map_res_prolong[OF dt m(2)] Let_def kept comp_def act)
qed

lemma extensions_sound:
  assumes "extensions s seconds at = Inr us" "u \<in> set us" "doc_inv s"
  shows "\<exists>d. get_demand s (fst u) = Some d \<and> retained s at d \<and> snd u = sat_add at seconds \<and>
    d_deadline d < snd u"
proof -
  obtain uss where uss: "map_res (root_extensions s seconds at)
      (filter (\<lambda>d. d_reserve_request d \<noteq> None) (om_vals (demands s))) = Inr uss" "us = concat uss"
    using assms(1) by (auto simp: extensions_def res_simps)
  obtain v where v: "v \<in> set uss" "u \<in> set v" using assms(2) uss(2) by auto
  obtain rt where "root_extensions s seconds at rt = Inr v" using map_res_set[OF uss(1) v(1)] by blast
  then obtain ids peers d where "map_res (owned s (d_owner rt)) ids = Inr peers" "d \<in> set peers"
      "retained s at d" "u = (d_id d, sat_add at seconds)" "d_deadline d < sat_add at seconds"
    using v(2) by (auto simp: root_extensions_def res_simps Let_def split: if_splits)
  moreover have "get_demand s (d_id d) = Some d"
    using map_res_set[OF calculation(1,2)] doc_inv_id[OF assms(3)] by (auto simp: res_simps)
  ultimately show ?thesis by simp
qed

text \<open>What a successful refresh did to each demand.\<close>

lemma refresh_retention_demands:
  assumes "refresh_retention seconds at s = Inr t" "doc_inv s"
  obtains us where "extensions s seconds at = Inr us"
    "t = s\<lparr>demands := om_mapv (prolong (fst ` set us) (sat_add at seconds)) (demands s)\<rparr>"
proof -
  obtain us where us: "extensions s seconds at = Inr us" "fold_res set_deadline us s = Inr t"
    using assms(1) by (auto simp: refresh_retention_def res_simps)
  have "distinct (map fst (demands s))"
    using assms(2) by (simp add: doc_inv_def maps_ok_def om_ok_distinct)
  then have "d_id (snd x) = fst x" if "x \<in> set (demands s)" for x
    using that doc_inv_id[OF assms(2), of "fst x" "snd x"] by simp
  then show thesis
    using that us set_deadlines_demands[OF us(2)] extensions_sound[OF us(1) _ assms(2)] by blast
qed

lemma map_res_const: "\<forall>x \<in> set xs. f x = Inr [] \<Longrightarrow> map_res f xs = Inr (replicate (length xs) [])"
  by (induction xs) auto

section \<open>Properties\<close>

text \<open>C36: idle retirement spares work. A demand that \<open>reap\<close> changes was due (unreleased,
  \<open>Ready\<close> or \<open>Preparing\<close>, quiet for the whole idle time), and every member of its
  reservation is known, belongs to the same owner and is either released or itself quiet with no
  call in flight and no running workspace; the change is exactly its expiry. Claims and calls
  are untouched, so the devices stay fenced until the backend has been stopped.\<close>

theorem reap_spares_work:
  assumes "doc_inv s" and "get_demand s k = Some d" and "get_demand (reap seconds at s) k \<noteq> Some d"
  shows "get_demand (reap seconds at s) k = Some (expire at d) \<and> due d seconds at \<and>
    (\<exists>ids. members s d = Inr ids \<and>
      (\<forall>m \<in> set ids. \<exists>peer. get_demand s m = Some peer \<and> d_owner peer = d_owner d \<and>
         (d_released peer \<or>
           at - unwrap_or (d_last_activity_at peer) (d_created peer) \<ge> seconds \<and>
           \<not> inflight s m \<and> \<not> running_workspace s m))) \<and>
    claims (reap seconds at s) = claims s \<and> invocations (reap seconds at s) = invocations s"
proof -
  have e: "idle_eligible s seconds at d" "get_demand (reap seconds at s) k = Some (expire at d)"
    using assms(2,3) by (auto simp: reap_get[OF assms(1)] split: if_splits)
  then obtain ids where ids: "members s d = Inr ids"
    by (auto simp: idle_eligible_def group_active_def split: sum.splits)
  have "\<exists>peer. get_demand s m = Some peer \<and> d_owner peer = d_owner d \<and>
      (d_released peer \<or> at - unwrap_or (d_last_activity_at peer) (d_created peer) \<ge> seconds \<and>
        \<not> inflight s m \<and> \<not> running_workspace s m)" if m: "m \<in> set ids" for m
  proof (cases "owned s (d_owner d) m")
    case (Inl x)
    then show ?thesis using e(1) ids m by (auto simp: idle_eligible_def group_active_def)
  next
    case (Inr peer)
    then have "\<not> (\<not> d_released peer \<and>
        (at - unwrap_or (d_last_activity_at peer) (d_created peer) < seconds \<or>
          inflight s m \<or> running_workspace s m))"
      using e(1) ids m by (auto simp: idle_eligible_def group_active_def dest!: bspec)
    then show ?thesis using Inr by (auto simp: res_simps)
  qed
  then show ?thesis using e ids by (simp add: idle_eligible_def)
qed

theorem reap_spares_work_witness:
  "get_demand (reap 50 100 (sample_document\<lparr>invocations := []\<rparr>)) ''d1'' =
     Some (expire 100 (sample_demand ''d1'' Ready Low (sample_profile ''coder'' [''gpu0''])))"
proof -
  let ?s = "sample_document\<lparr>invocations := []\<rparr>"
  let ?d = "sample_demand ''d1'' Ready Low (sample_profile ''coder'' [''gpu0''])"
  have i: "doc_inv ?s" using sample_document_inv by (auto simp: doc_inv_def maps_ok_def owns_def)
  have g: "get_demand ?s ''d1'' = Some ?d" by (simp add: sample_document_def)
  have m: "members ?s ?d = Inr [''d1'']"
    by (simp add: members_def root_def sample_demand_def)
  have "idle_eligible ?s 50 100 ?d"
    using g by (simp add: idle_eligible_def due_def group_active_def m owned_def native_barrier_pending_def
        native_def inflight_def running_workspace_def om_vals_def)
      (simp add: sample_demand_def sample_profile_def)
  then have "get_demand (reap 50 100 ?s) ''d1'' \<noteq> Some ?d"
    using g by (simp add: reap_get[OF i] expire_def sample_demand_def)
  then show ?thesis using reap_spares_work[OF i g] by blast
qed

text \<open>Retention of a reservation in use only extends, and settles at once. A successful
  \<open>refresh_retention\<close> changes nothing but deadlines; each changed deadline belongs to a
  ready, unexpired owner of its devices and moves forward to \<open>at + seconds\<close> (saturating);
  a demand that had lapsed is never revived; and no further extension is then pending.\<close>

theorem refresh_retention_settles:
  assumes "refresh_retention seconds at s = Inr t" and "doc_inv s"
  shows "\<not> retention_pending t seconds at \<and> t = s\<lparr>demands := demands t\<rparr> \<and>
    (\<forall>k d. get_demand s k = Some d \<longrightarrow>
      get_demand t k = Some d \<or>
      get_demand t k = Some (d\<lparr>d_deadline := sat_add at seconds\<rparr>) \<and>
      retained s at d \<and> d_deadline d < sat_add at seconds)"
proof -
  obtain us where us: "extensions s seconds at = Inr us" and t: "t = s\<lparr>demands :=
      om_mapv (prolong (fst ` set us) (sat_add at seconds)) (demands s)\<rparr>"
    using refresh_retention_demands[OF assms] .
  let ?K = "fst ` set us" and ?D = "sat_add at seconds"
  have K: "\<exists>d. get_demand s k = Some d \<and> retained s at d \<and> d_deadline d < ?D" if m: "k \<in> ?K" for k
  proof -
    obtain u where "u \<in> set us" "k = fst u" using m by blast
    then show ?thesis using extensions_sound[OF us _ assms(2), of u] by auto
  qed
  obtain uss where uss: "map_res (root_extensions s seconds at)
      (filter (\<lambda>d. d_reserve_request d \<noteq> None) (om_vals (demands s))) = Inr uss" "us = concat uss"
    using us by (auto simp: extensions_def res_simps)
  have settled: "root_extensions t seconds at (prolong ?K ?D rt) = Inr []"
    if rt: "rt \<in> set (filter (\<lambda>d. d_reserve_request d \<noteq> None) (om_vals (demands s)))" for rt
  proof -
    obtain v where v: "v \<in> set uss" "root_extensions s seconds at rt = Inr v"
      using map_res_image[OF uss(1) rt] by blast
    then have "fst ` set v \<subseteq> ?K" using uss(2) by auto
    then show ?thesis
      using K doc_inv_id[OF assms(2)]
      by (intro root_extensions_settled[OF t v(2)]) (fastforce simp: retained_def)+
  qed
  have "filter (\<lambda>d. d_reserve_request d \<noteq> None) (om_vals (demands t)) = map (prolong ?K ?D)
      (filter (\<lambda>d. d_reserve_request d \<noteq> None) (om_vals (demands s)))"
    by (simp add: t om_vals_mapv filter_map comp_def)
  then have "\<forall>rt \<in> set (filter (\<lambda>d. d_reserve_request d \<noteq> None) (om_vals (demands t))).
      root_extensions t seconds at rt = Inr []"
    using settled by auto
  then have "extensions t seconds at = Inr []"
    unfolding extensions_def by (simp add: map_res_const)
  then have "\<not> retention_pending t seconds at" by (simp add: retention_pending_def)
  moreover have "get_demand t k = Some d \<or> get_demand t k = Some (d\<lparr>d_deadline := ?D\<rparr>) \<and>
      retained s at d \<and> d_deadline d < ?D" if g: "get_demand s k = Some d" for k d
  proof -
    have t': "get_demand t k = Some (prolong ?K ?D d)" using g by (simp add: t)
    show ?thesis
    proof (cases "k \<in> ?K")
      case True
      then show ?thesis using K[OF True] g t' doc_inv_id[OF assms(2) g] by (simp add: prolong_def)
    next
      case False
      then show ?thesis using t' doc_inv_id[OF assms(2) g] by (simp add: prolong_def)
    qed
  qed
  moreover have "t = s\<lparr>demands := demands t\<rparr>" using t by (metis document.select_convs(4) document.surjective document.update_convs(4))
  ultimately show ?thesis by blast
qed

definition sample_busy :: document where
  "sample_busy = sample_document\<lparr>
     demands := [(''d1'', (sample_demand ''d1'' Ready Low (sample_profile ''coder'' [''gpu0'']))
       \<lparr>d_reserve_request := Some sample_reserve\<rparr>)],
     invocations := [(''i1'', sample_call ''i1'' ''d1'' Running)]\<rparr>"

lemma sample_busy_inv: "doc_inv sample_busy"
  by (auto simp: doc_inv_def maps_ok_def sample_busy_def sample_document_def sample_demand_def
      sample_call_def sample_profile_def live_ok_def owns_def om_ok_def split: if_splits)

theorem refresh_retention_settles_witness:
  "\<exists>t. refresh_retention 300 600 sample_busy = Inr t \<and> \<not> retention_pending t 300 600 \<and>
     map_option d_deadline (get_demand t ''d1'') = Some 900"
proof -
  define d where "d = (sample_demand ''d1'' Ready Low (sample_profile ''coder'' [''gpu0'']))
       \<lparr>d_reserve_request := Some sample_reserve\<rparr>"
  have ds: "d_owner d = ''app''" "d_id d = ''d1''" "d_reservation_closed d = None"
      "d_reserve_request d \<noteq> None" "d_deadline d = 700" "d_services d = []" "d_reservation_id d = None"
    by (simp_all add: d_def sample_demand_def)
  have g: "get_demand sample_busy ''d1'' = Some d" by (simp add: sample_busy_def d_def)
  have v: "om_vals (demands sample_busy) = [d]" by (simp add: sample_busy_def om_vals_def d_def)
  have f: "inflight sample_busy ''d1''"
    by (simp add: sample_busy_def om_vals_def inflight_def is_workspace_def sample_call_def
        sample_request_def)
  have o: "owned sample_busy ''app'' ''d1'' = Inr d" by (simp add: owned_def g ds)
  have r: "retained sample_busy 600 d"
    by (simp add: retained_def owns_def sample_busy_def sample_document_def d_def sample_demand_def
        sample_profile_def)
  have m: "members sample_busy d = Inr [''d1'']"
    by (simp add: members_def root_def ds)
  have a: "member_activity sample_busy 600 d = Some 600"
    using f by (simp add: member_activity_def ds)
  have e: "extensions sample_busy 300 600 = Inr [(''d1'', 900)]"
    using ds(4) by (simp add: extensions_def v root_extensions_def latest_def sat_add_def
        u64_max_def m o r a ds(1,2,3,5) Let_def cong: conj_cong)
  have "d\<lparr>d_deadline := 900\<rparr> \<noteq> d"
  proof
    assume "d\<lparr>d_deadline := 900\<rparr> = d"
    then have "d_deadline (d\<lparr>d_deadline := 900\<rparr>) = d_deadline d" by (rule arg_cong)
    then show False using ds(5) by simp
  qed
  then obtain t where t: "refresh_retention 300 600 sample_busy = Inr t" "get_demand t ''d1'' \<noteq> Some d"
    using g by (simp add: refresh_retention_def set_deadline_def e)
  have "sat_add 600 300 = 900" by (simp add: sat_add_def u64_max_def)
  then have "get_demand t ''d1'' = Some (d\<lparr>d_deadline := 900\<rparr>)" "\<not> retention_pending t 300 600"
    using refresh_retention_settles[OF t(1) sample_busy_inv] t(2) g by auto
  then show ?thesis using t(1) by simp
qed

end
