(* ===== verification/Control.thy ===== *)
theory Control
  imports Activity
begin

text \<open>
  \<open>control.rs\<close>: what a client may do with a reservation it owns (renew it, release it, cancel
  it) and with one of its calls. Releasing never frees a device: it marks the demand
  \<open>Releasing\<close>, and the supervisor stops the backend before the claims go.
\<close>

section \<open>Operations\<close>

datatype action = Renew nat | Release | Cancel

record control =
  ct_generation :: string
  ct_action :: action

definition is_renew :: "action \<Rightarrow> bool" where
  "is_renew a = (case a of Renew _ \<Rightarrow> True | _ \<Rightarrow> False)"

definition renew :: "env \<Rightarrow> config \<Rightarrow> string \<Rightarrow> nat \<Rightarrow> demand \<Rightarrow> document \<Rightarrow> document res" where
  "renew e c k ttl d s =
     (if d_released d \<or> d_deadline d \<le> now e \<or> d_state d \<in> {Unavailable, Preempted, RecoveryRequired}
      then Inl ''reservation_terminal''
      else if ttl = 0 \<or> ttl > c_max_ttl_seconds c then Inl ''invalid_ttl''
      else Inr (upd_demand k (\<lambda>d. d\<lparr>d_deadline := now e + ttl\<rparr>) s))"

definition closing_state :: "action \<Rightarrow> demand_state" where
  "closing_state a = (if a = Cancel then Cancelled else Released)"

definition begin_release :: "nat \<Rightarrow> action \<Rightarrow> demand \<Rightarrow> demand" where
  "begin_release t a d =
     (let d = d\<lparr>d_released := True, d_reservation_closed := Some (closing_state a)\<rparr>;
          d = (if d_state d = RecoveryRequired
               then d\<lparr>d_recovery_error := None,
                      d_transition_deadline :=
                        t + (if d_recovery_error d \<noteq> None then 0 else p_drain_seconds (d_profile d))\<rparr>
               else d\<lparr>d_transition_deadline := t + p_drain_seconds (d_profile d)\<rparr>);
          d = (if d_state d \<notin> {Unavailable, RecoveryRequired} then d\<lparr>d_state := Releasing\<rparr> else d) in
      if d_state d \<noteq> RecoveryRequired \<and> d_reason d \<noteq> Some IDLE_TIMEOUT
      then d\<lparr>d_reason := Some (if a = Cancel then ''cancelled'' else ''released'')\<rparr> else d)"

definition released_call :: "nat \<Rightarrow> action \<Rightarrow> string \<Rightarrow> invocation \<Rightarrow> invocation" where
  "released_call t a k i =
     (if q_reservation_id (i_request i) = k \<and> (i_state i = Queued \<or> a = Cancel)
      then cancel t i else i)"

definition release :: "env \<Rightarrow> string \<Rightarrow> action \<Rightarrow> document \<Rightarrow> document" where
  "release e k a s =
     (let s = upd_demand k (begin_release (now e) a) s in
      s\<lparr>invocations := om_mapv (released_call (now e) a k) (invocations s)\<rparr>)"

definition apply_control ::
  "env \<Rightarrow> config \<Rightarrow> string \<Rightarrow> string \<Rightarrow> control \<Rightarrow> document \<Rightarrow> (demand \<times> document) res" where
  "apply_control e c owner k r s =
     res_bind (owned s owner k) (\<lambda>d.
     if d_state d = Unavailable then Inr (d, s)
     else if d_generation d \<noteq> ct_generation r then Inl ''stale_generation''
     else if d_recovery_reconciliation d \<noteq> None \<and> \<not> is_renew (ct_action r) then Inr (d, s)
     else
       res_bind (case ct_action r of
           Renew ttl \<Rightarrow> renew e c k ttl d s
         | Release \<Rightarrow> Inr (release e k Release s)
         | Cancel \<Rightarrow> Inr (release e k Cancel s)) (\<lambda>s.
       res_bind (ok_or (get_demand s k) ''not_found'') (\<lambda>d. Inr (d, s))))"

text \<open>Cancelling one call. \<open>archived\<close> asks the archive for a call of the owner; the result is
  the call as it is before the closed scopes are swept.\<close>

definition cancel_invocation ::
  "env \<Rightarrow> (string \<Rightarrow> string \<Rightarrow> invocation option res) \<Rightarrow> string \<Rightarrow> string \<Rightarrow> document
     \<Rightarrow> (invocation \<times> document) res" where
  "cancel_invocation e archived owner k s =
     (let gone = res_bind (archived owner k) (\<lambda>x. res_bind (ok_or x ''not_found'') (\<lambda>i. Inr (i, s))) in
      case get_call s k of
        None \<Rightarrow> gone
      | Some i \<Rightarrow>
          if i_owner i \<noteq> owner then gone
          else Inr (cancel (now e) i, cancel_closed e (upd_call k (cancel (now e)) s)))"

text \<open>A reservation as a whole: the root is closed and the action applied to each member.\<close>

definition control_member ::
  "env \<Rightarrow> config \<Rightarrow> string \<Rightarrow> action \<Rightarrow> string \<Rightarrow> document \<Rightarrow> document res" where
  "control_member e c owner a k s =
     res_bind (owned s owner k) (\<lambda>d.
     res_bind (apply_control e c owner k \<lparr>ct_generation = d_generation d, ct_action = a\<rparr> s) (\<lambda>x.
       Inr (snd x)))"

definition reservation_control ::
  "env \<Rightarrow> config \<Rightarrow> (string \<Rightarrow> string \<Rightarrow> json option res) \<Rightarrow> string \<Rightarrow> string \<Rightarrow> action \<Rightarrow> document
     \<Rightarrow> (unit \<times> document) res" where
  "reservation_control e c archived owner k a s =
     (case owned s owner k of
        Inl error \<Rightarrow>
          if error = ''not_found''
          then res_bind (archived owner k) (\<lambda>x. if x \<noteq> None then Inr ((), s) else Inl error)
          else Inl error
      | Inr d \<Rightarrow>
          res_bind (root s d) (\<lambda>rt.
          res_bind (members s d) (\<lambda>ids.
          let s = (if is_renew a then s
                   else upd_demand (d_id rt)
                     (\<lambda>x. x\<lparr>d_reservation_closed := Some (closing_state a)\<rparr>) s) in
          res_bind (fold_res (control_member e c owner a) ids s) (\<lambda>s.
            Inr ((), cancel_closed e s)))))"

section \<open>The invariant is kept\<close>

lemma begin_release_sel [simp]:
  "d_id (begin_release t a d) = d_id d" "d_profile (begin_release t a d) = d_profile d"
  "d_owner (begin_release t a d) = d_owner d" "d_generation (begin_release t a d) = d_generation d"
  "d_released (begin_release t a d)" "d_effect_started (begin_release t a d) = d_effect_started d"
  "d_process (begin_release t a d) = d_process d" "d_victims (begin_release t a d) = d_victims d"
  "d_reservation_id (begin_release t a d) = d_reservation_id d"
  "d_services (begin_release t a d) = d_services d"
  "d_recovery_reconciliation (begin_release t a d) = d_recovery_reconciliation d"
  by (simp_all add: begin_release_def Let_def cong: if_cong)

lemma begin_release_state:
  "d_state (begin_release t a d) =
     (if d_state d \<in> {Unavailable, RecoveryRequired} then d_state d else Releasing)"
  by (auto simp: begin_release_def Let_def)

lemma begin_release_step:
  "get_demand s k = Some d \<Longrightarrow> doc_inv s \<Longrightarrow> demand_step s d (begin_release t a d)"
  using doc_inv_live[of s k d]
  by (auto simp: demand_step_def begin_release_state live_ok_def)

lemma released_call_sel [simp]:
  "i_id (released_call t a k i) = i_id i" "i_request (released_call t a k i) = i_request i"
  "is_workspace (released_call t a k i) = is_workspace i"
  "i_owner (released_call t a k i) = i_owner i"
  by (simp_all add: released_call_def)

lemma release_inv: "doc_inv s \<Longrightarrow> doc_inv (release e k a s)"
  unfolding release_def Let_def
  by (rule demands_kept_doc_inv[OF _ demands_kept_map_calls])
    (auto intro!: claims_kept_doc_inv[OF _ claims_kept_upd_demand] begin_release_step)

lemma renew_inv: "renew e c k ttl d s = Inr t \<Longrightarrow> doc_inv s \<Longrightarrow> doc_inv t"
  by (auto simp: renew_def split: if_splits intro!: upd_demand_same_inv)

lemma apply_control_inv:
  "apply_control e c owner k r s = Inr (d, t) \<Longrightarrow> doc_inv s \<Longrightarrow> doc_inv t"
  by (auto simp: apply_control_def res_simps split: if_splits action.splits
      intro: release_inv dest: renew_inv)

lemma control_member_inv: "control_member e c owner a k s = Inr t \<Longrightarrow> doc_inv s \<Longrightarrow> doc_inv t"
  by (auto simp: control_member_def res_simps dest: apply_control_inv)

lemma close_root_inv:
  "doc_inv s \<Longrightarrow> doc_inv (upd_demand k (\<lambda>x. x\<lparr>d_reservation_closed := v\<rparr>) s)"
  by (rule upd_demand_same_inv) auto

lemma reservation_control_inv:
  assumes "reservation_control e c archived owner k a s = Inr (u, t)" and "doc_inv s"
  shows "doc_inv t"
proof (cases "owned s owner k")
  case (Inl x)
  then show ?thesis using assms by (auto simp: reservation_control_def res_simps split: if_splits)
next
  case (Inr d)
  let ?s0 = "\<lambda>rt :: demand. if is_renew a then s
    else upd_demand (d_id rt) (\<lambda>x. x\<lparr>d_reservation_closed := Some (closing_state a)\<rparr>) s"
  obtain rt ids s' where s': "fold_res (control_member e c owner a) ids (?s0 rt) = Inr s'"
      "t = cancel_closed e s'"
    using assms(1) Inr by (auto simp: reservation_control_def res_simps Let_def)
  have "doc_inv (?s0 rt)" using assms(2) close_root_inv by simp
  then have "doc_inv s'"
    using s'(1) by (auto intro: fold_res_invariant[where I = doc_inv] dest: control_member_inv)
  then show ?thesis
    using s'(2) cancel_closed_kept demands_kept_doc_inv by blast
qed

lemma cancel_invocation_inv:
  assumes "cancel_invocation e archived owner k s = Inr (i, t)" and "doc_inv s"
  shows "doc_inv t"
proof -
  have "doc_inv (upd_call k (cancel (now e)) s)"
    using assms(2) by (auto intro!: demands_kept_doc_inv[OF _ demands_kept_upd_call])
  then have "doc_inv (cancel_closed e (upd_call k (cancel (now e)) s))"
    using cancel_closed_kept demands_kept_doc_inv by blast
  then show ?thesis
    using assms by (auto simp: cancel_invocation_def Let_def res_simps split: option.splits if_splits)
qed

interpretation control_op: authority_op doc_inv "\<lambda>_. True" "apply_control e c owner k r"
  for e c owner k r
  by unfold_locales (rule apply_control_inv)

interpretation reservation_control: authority_op doc_inv "\<lambda>_. True"
  "reservation_control e c archived owner k a" for e c archived owner k a
  by unfold_locales (rule reservation_control_inv)

interpretation cancel_invocation: authority_op doc_inv "\<lambda>_. True"
  "cancel_invocation e archived owner k" for e archived owner k
  by unfold_locales (rule cancel_invocation_inv)

section \<open>What a control changes\<close>

lemma release_sel [simp]:
  "claims (release e k a s) = claims s"
  "get_demand (release e k a s) m =
     (if m = k then map_option (begin_release (now e) a) (get_demand s k) else get_demand s m)"
  "get_call (release e k a s) j = map_option (released_call (now e) a k) (get_call s j)"
  by (simp_all add: release_def Let_def)

lemma released_call_state:
  "i_state (released_call t a k i) =
     (if q_reservation_id (i_request i) = k \<and> i_state i = Queued then CancelledCall else i_state i)"
  by (simp add: released_call_def cancel_state)

lemma released_call_intent:
  "q_reservation_id (i_request i) = k \<Longrightarrow> i_state i \<in> {Running, Uncertain} \<Longrightarrow>
     \<exists>y. i_cancellation (released_call t Cancel k i) = Some y"
  by (cases "i_cancellation i") (auto simp: released_call_def cancel_def)

lemma apply_release_cases:
  assumes "apply_control e c owner k r s = Inr (d', t)" and "\<not> is_renew (ct_action r)" and "doc_inv s"
  obtains d where "get_demand s k = Some d" "d_owner d = owner" "d_recovery_reconciliation d \<noteq> None"
      "t = s" "d' = d"
  | d where "get_demand s k = Some d" "d_owner d = owner" "d_recovery_reconciliation d = None"
      "d_generation d = ct_generation r" "t = release e k (ct_action r) s"
      "d' = begin_release (now e) (ct_action r) d"
proof -
  obtain d where d: "get_demand s k = Some d" "d_owner d = owner"
    using assms(1) by (auto simp: apply_control_def res_simps)
  have u: "d_state d \<noteq> Unavailable" using doc_inv_live[OF assms(3) d(1)] by (simp add: live_ok_def)
  show thesis
  proof (cases "d_recovery_reconciliation d")
    case None
    then show thesis
      using assms(1,2) d u by (intro that(2)[OF d(1,2)])
        (auto simp: apply_control_def owned_def is_renew_def res_simps split: if_splits action.splits)
  next
    case (Some x)
    then show thesis
      using assms(1,2) d u by (intro that(1)[OF d(1,2)])
        (auto simp: apply_control_def owned_def split: if_splits)
  qed
qed

text \<open>Releasing a reservation fences it and gives no device away. A successful release or
  cancel of a demand (one with no reconciled recovery) leaves every claim where it was, marks the
  demand released and, unless it awaits recovery, \<open>Releasing\<close>; leaves none of its calls
  queued; with \<open>Cancel\<close> puts a cancellation intent on each call in flight; and changes
  no other demand and no call of another reservation.\<close>

theorem release_fences:
  assumes "apply_control e c owner k r s = Inr (d', t)" and "\<not> is_renew (ct_action r)" and "doc_inv s"
    and "get_demand s k = Some d" and "d_recovery_reconciliation d = None"
  shows "claims t = claims s \<and> get_demand t k = Some d' \<and> d_released d' \<and>
    d_state d' = (if d_state d = RecoveryRequired then RecoveryRequired else Releasing) \<and>
    (\<forall>m. m \<noteq> k \<longrightarrow> get_demand t m = get_demand s m) \<and>
    (\<forall>j i. get_call s j = Some i \<longrightarrow>
       (\<exists>i'. get_call t j = Some i' \<and>
         (q_reservation_id (i_request i) \<noteq> k \<longrightarrow> i' = i) \<and>
         (q_reservation_id (i_request i) = k \<longrightarrow> i_state i' \<noteq> Queued \<and>
            (ct_action r = Cancel \<and> i_state i \<in> {Running, Uncertain} \<longrightarrow> i_cancellation i' \<noteq> None))))"
proof -
  have t: "t = release e k (ct_action r) s" and d': "d' = begin_release (now e) (ct_action r) d"
    using apply_release_cases[OF assms(1-3)] assms(4,5) by auto
  have u: "d_state d \<noteq> Unavailable" using doc_inv_live[OF assms(3,4)] by (simp add: live_ok_def)
  have "i_state (released_call (now e) (ct_action r) k i) \<noteq> Queued"
    if "q_reservation_id (i_request i) = k" for i
    using that by (simp add: released_call_state)
  moreover have "released_call (now e) (ct_action r) k i = i"
    if "q_reservation_id (i_request i) \<noteq> k" for i
    using that by (simp add: released_call_def)
  ultimately show ?thesis
    using assms(4) u unfolding t d' by (auto simp: begin_release_state released_call_intent)
qed

theorem release_fences_witness:
  "\<exists>d' t. apply_control sample_env sample_config ''app'' ''d1''
      \<lparr>ct_generation = ''d1g'', ct_action = Cancel\<rparr> sample_busy = Inr (d', t) \<and>
     d_state d' = Releasing \<and> claims t = claims sample_busy"
proof -
  let ?r = "\<lparr>ct_generation = ''d1g'', ct_action = Cancel\<rparr>"
  define d where "d = (sample_demand ''d1'' Ready Low (sample_profile ''coder'' [''gpu0'']))
       \<lparr>d_reserve_request := Some sample_reserve\<rparr>"
  have ds: "d_owner d = ''app''" "d_generation d = ''d1g''" "d_state d = Ready"
      "d_recovery_reconciliation d = None"
    by (simp_all add: d_def sample_demand_def)
  have g: "get_demand sample_busy ''d1'' = Some d" by (simp add: sample_busy_def d_def)
  have "\<exists>d' t. apply_control sample_env sample_config ''app'' ''d1'' ?r sample_busy = Inr (d', t)"
    by (simp add: apply_control_def owned_def g ds ok_or_def)
  then obtain d' t where r: "apply_control sample_env sample_config ''app'' ''d1'' ?r sample_busy = Inr (d', t)"
    by blast
  then show ?thesis
    using release_fences[OF r _ sample_busy_inv g ds(4)] ds(3) by (simp add: is_renew_def)
qed

text \<open>A lapsed reservation cannot be renewed. A successful renewal of a demand found it
  unreleased, unexpired, and neither displaced nor awaiting recovery, under the generation the client
  named; it moves the deadline to \<open>now + ttl\<close> for a permitted \<open>ttl\<close> and changes nothing
  else.\<close>

theorem renew_only_live:
  assumes "apply_control e c owner k r s = Inr (d', t)" and "ct_action r = Renew ttl" and "doc_inv s"
  shows "\<exists>d. get_demand s k = Some d \<and> d_owner d = owner \<and> d_generation d = ct_generation r \<and>
    active (now e) d \<and> d_state d \<notin> {Preempted, RecoveryRequired} \<and>
    0 < ttl \<and> ttl \<le> c_max_ttl_seconds c \<and>
    d' = d\<lparr>d_deadline := now e + ttl\<rparr> \<and> t = upd_demand k (\<lambda>d. d\<lparr>d_deadline := now e + ttl\<rparr>) s"
proof -
  obtain d where d: "get_demand s k = Some d" "d_owner d = owner"
    using assms(1) by (auto simp: apply_control_def res_simps)
  have u: "d_state d \<noteq> Unavailable" using doc_inv_live[OF assms(3) d(1)] by (simp add: live_ok_def)
  show ?thesis
    using assms(1,2) d u
    by (auto simp: apply_control_def owned_def is_renew_def renew_def active_def res_simps
        split: if_splits)
qed

theorem renew_only_live_witness:
  "\<exists>d' t. apply_control sample_env sample_config ''app'' ''d1''
      \<lparr>ct_generation = ''d1g'', ct_action = Renew 900\<rparr> sample_document = Inr (d', t) \<and>
     d_deadline d' = 1000"
proof -
  let ?r = "\<lparr>ct_generation = ''d1g'', ct_action = Renew 900\<rparr>"
  define d where "d = sample_demand ''d1'' Ready Low (sample_profile ''coder'' [''gpu0''])"
  note ds = sample_demand_sel[of "''d1''" Ready Low "sample_profile ''coder'' [''gpu0'']", folded d_def]
  have g: "get_demand sample_document ''d1'' = Some d" by (simp add: sample_document_def d_def)
  have "\<exists>d' t. apply_control sample_env sample_config ''app'' ''d1'' ?r sample_document = Inr (d', t)"
    by (simp add: apply_control_def owned_def g ds ok_or_def renew_def is_renew_def sample_config_def)
  then obtain d' t where r: "apply_control sample_env sample_config ''app'' ''d1'' ?r sample_document = Inr (d', t)"
    by blast
  show ?thesis
    using renew_only_live[OF r _ sample_document_inv, of 900] r by auto
qed

section \<open>Closing a whole reservation\<close>

text \<open>What one member's turn leaves of any demand and call, and what it does to its own.\<close>

definition closed_to :: "document \<Rightarrow> document \<Rightarrow> bool" where
  "closed_to s t \<longleftrightarrow> claims t = claims s \<and>
     (\<forall>m d. get_demand s m = Some d \<longrightarrow> (\<exists>d'. get_demand t m = Some d' \<and>
        d_owner d' = d_owner d \<and> d_recovery_reconciliation d' = d_recovery_reconciliation d \<and>
        (d_released d \<longrightarrow> d_released d'))) \<and>
     (\<forall>j i'. get_call t j = Some i' \<longrightarrow> (\<exists>i. get_call s j = Some i \<and>
        i_request i' = i_request i \<and> (i_state i' = Queued \<longrightarrow> i_state i = Queued)))"

lemma closed_to_refl: "closed_to s s"
  by (auto simp: closed_to_def)

lemma closed_to_trans: "closed_to s t \<Longrightarrow> closed_to t u \<Longrightarrow> closed_to s u"
  unfolding closed_to_def by (intro conjI allI impI) (simp, metis, metis)

definition member_closed :: "document \<Rightarrow> string \<Rightarrow> bool" where
  "member_closed t m \<longleftrightarrow> (\<exists>d. get_demand t m = Some d \<and>
     (d_recovery_reconciliation d \<noteq> None \<or>
      d_released d \<and>
      (\<forall>j i. get_call t j = Some i \<longrightarrow> q_reservation_id (i_request i) = m \<longrightarrow> i_state i \<noteq> Queued)))"

lemma member_closed_kept: "member_closed s m \<Longrightarrow> closed_to s t \<Longrightarrow> member_closed t m"
  unfolding member_closed_def closed_to_def by metis

lemma control_member_closes:
  assumes "control_member e c owner a k s = Inr t" and "\<not> is_renew a" and "doc_inv s"
  shows "closed_to s t \<and> member_closed t k"
proof -
  obtain d0 :: demand and d' where r: "apply_control e c owner k \<lparr>ct_generation = d_generation d0, ct_action = a\<rparr> s = Inr (d', t)"
    using assms(1) by (auto simp: control_member_def res_simps)
  show ?thesis
  proof (rule apply_release_cases[OF r _ assms(3)])
    show "\<not> is_renew (ct_action \<lparr>ct_generation = d_generation d0, ct_action = a\<rparr>)"
      using assms(2) by simp
  next
    fix d assume "get_demand s k = Some d" "d_recovery_reconciliation d \<noteq> None" "t = s"
    then show ?thesis using closed_to_refl by (auto simp: member_closed_def)
  next
    fix d assume d: "get_demand s k = Some d" "d_recovery_reconciliation d = None"
      and "t = release e k (ct_action \<lparr>ct_generation = d_generation d0, ct_action = a\<rparr>) s"
    then have t: "t = release e k a s" by simp
    show ?thesis
      unfolding t by (auto simp: closed_to_def member_closed_def d released_call_state split: if_splits)
  qed
qed

lemma control_members_close:
  assumes "fold_res (control_member e c owner a) ids s = Inr t" and "\<not> is_renew a" and "doc_inv s"
  shows "closed_to s t \<and> (\<forall>m \<in> set ids. member_closed t m)"
  using assms
proof (induction ids arbitrary: s)
  case Nil
  then show ?case by (simp add: closed_to_refl)
next
  case (Cons k ids)
  then obtain u where u: "control_member e c owner a k s = Inr u"
      "fold_res (control_member e c owner a) ids u = Inr t"
    by (auto split: sum.splits)
  have "closed_to s u" "member_closed u k" "doc_inv u"
    using control_member_closes[OF u(1)] control_member_inv[OF u(1)] Cons.prems by auto
  moreover have "closed_to u t \<and> (\<forall>m \<in> set ids. member_closed t m)"
    using Cons.IH[OF u(2)] Cons.prems(2) \<open>doc_inv u\<close> by blast
  ultimately show ?case
    using closed_to_trans member_closed_kept by auto
qed

lemma cancel_closed_closed_to:
  assumes "doc_inv s"
  shows "closed_to s (cancel_closed e s)"
  unfolding closed_to_def by (auto simp: cancel_closed_call[OF assms] cancel_state)

lemma close_root_closed_to:
  "closed_to s (upd_demand k (\<lambda>x. x\<lparr>d_reservation_closed := v\<rparr>) s)"
  by (auto simp: closed_to_def)

text \<open>A reservation closes as a whole. A successful release or cancel of a reservation leaves
  every one of its members released (or already reconciled by recovery) with no call queued, whatever
  the state it was in; no claim moves, so the devices of all members stay fenced until their
  backends are stopped.\<close>

theorem reservation_control_closes_all:
  assumes "reservation_control e c archived owner k a s = Inr (u, t)" and "\<not> is_renew a"
    and "doc_inv s" and "owned s owner k = Inr d" and "members s d = Inr ids"
  shows "claims t = claims s \<and> (\<forall>m \<in> set ids. member_closed t m)"
proof -
  obtain rt s' where s': "fold_res (control_member e c owner a) ids
      (upd_demand (d_id rt) (\<lambda>x. x\<lparr>d_reservation_closed := Some (closing_state a)\<rparr>) s) = Inr s'"
      "t = cancel_closed e s'" and "root s d = Inr (rt :: demand)"
    using assms(1,2,4,5) by (auto simp: reservation_control_def res_simps Let_def)
  let ?s0 = "upd_demand (d_id rt) (\<lambda>x. x\<lparr>d_reservation_closed := Some (closing_state a)\<rparr>) s"
  have i0: "doc_inv ?s0" by (rule close_root_inv[OF assms(3)])
  have i: "doc_inv s'"
    using s'(1) i0 by (auto intro: fold_res_invariant[where I = doc_inv] dest: control_member_inv)
  have c: "closed_to ?s0 s' \<and> (\<forall>m \<in> set ids. member_closed s' m)"
    by (rule control_members_close[OF s'(1) assms(2) i0])
  have "claims s' = claims s"
    using c by (simp add: closed_to_def)
  moreover have "\<forall>m \<in> set ids. member_closed t m"
    using c member_closed_kept cancel_closed_closed_to[OF i] s'(2) by blast
  ultimately show ?thesis using s'(2) by simp
qed

theorem reservation_control_closes_all_witness:
  "\<exists>t. reservation_control sample_env sample_config (\<lambda>_ _. Inr None) ''app'' ''m2'' Release sample_group
     = Inr ((), t) \<and> claims t = claims sample_group \<and> member_closed t ''m1'' \<and> member_closed t ''m2''"
proof -
  define m1 where "m1 = sample_member ''m1'' Preparing (sample_profile ''coder'' [''gpu0''])"
  define m2 where "m2 = sample_member ''m2'' Preparing (sample_profile ''vision'' [''gpu1''])"
  have g: "get_demand sample_group ''m1'' = Some m1" "get_demand sample_group ''m2'' = Some m2"
    by (simp_all add: sample_group_def m1_def m2_def)
  have f: "d_owner m1 = ''app''" "d_owner m2 = ''app''" "d_id m1 = ''m1''"
      "d_reservation_id m2 = Some ''m1''" "d_services m1 = [(''coder'', ''m1''), (''vision'', ''m2'')]"
      "d_state m1 = Preparing" "d_state m2 = Preparing" "d_recovery_reconciliation m1 = None"
      "d_recovery_reconciliation m2 = None"
    by (simp_all add: m1_def m2_def sample_member_def sample_demand_def)
  have o: "owned sample_group ''app'' ''m2'' = Inr m2" by (simp add: owned_def g f)
  have rt: "root sample_group m2 = Inr m1" by (simp add: root_def owned_def g f)
  have ms: "members sample_group m2 = Inr [''m1'', ''m2'']"
    by (simp add: members_def rt f om_vals_def)
  have "\<exists>t. reservation_control sample_env sample_config (\<lambda>_ _. Inr None) ''app'' ''m2'' Release sample_group
     = Inr ((), t)"
    by (simp add: reservation_control_def o rt ms Let_def is_renew_def f control_member_def owned_def g
        apply_control_def ok_or_def)
  then obtain t where t: "reservation_control sample_env sample_config (\<lambda>_ _. Inr None) ''app'' ''m2''
      Release sample_group = Inr ((), t)" by blast
  then show ?thesis
    using reservation_control_closes_all[OF t _ sample_group_inv o ms] by (simp add: is_renew_def)
qed

section \<open>Cancelling one call\<close>

text \<open>Cancelling never rewrites an outcome. A successful \<open>cancel_invocation\<close> of a
  recorded call is by its owner; over the whole document it moves calls only from \<open>Queued\<close> to
  \<open>CancelledCall\<close>, leaves every result and every demand and claim as they were, and the
  named call is afterwards finished or carries a cancellation intent.\<close>

theorem cancel_never_rewrites:
  assumes "cancel_invocation e archived owner k s = Inr (i', t)" and "doc_inv s"
    and "get_call s k = Some i" and "i_owner i = owner"
  shows "demands t = demands s \<and> claims t = claims s \<and>
    (\<forall>j x. get_call s j = Some x \<longrightarrow> (\<exists>y. get_call t j = Some y \<and>
       (i_state y = i_state x \<or> i_state x = Queued \<and> i_state y = CancelledCall) \<and>
       i_result y = i_result x)) \<and>
    (\<exists>y. get_call t k = Some y \<and>
       (i_state y \<in> {Completed, CancelledCall, Failed, ExpiredCall} \<or> i_cancellation y \<noteq> None))"
proof -
  let ?u = "upd_call k (cancel (now e)) s"
  have i: "doc_inv ?u"
    using assms(2) by (auto intro!: demands_kept_doc_inv[OF _ demands_kept_upd_call])
  have t: "t = cancel_closed e ?u"
    using assms by (simp add: cancel_invocation_def Let_def)
  have g: "get_call t j = map_option (\<lambda>y. if needs_cancel e ?u y then cancel (now e) y else y) (get_call ?u j)" for j
    unfolding t by (rule cancel_closed_call[OF i])
  have "i_cancellation (cancel (now e) x) \<noteq> None"
    if "i_state (cancel (now e) x) \<in> {Queued, Running, Uncertain}" for x
    using that by (cases "i_cancellation x") (auto simp: cancel_def Let_def split: if_splits)
  then have "i_state (cancel (now e) x) \<in> {Completed, CancelledCall, Failed, ExpiredCall} \<or>
      i_cancellation (cancel (now e) x) \<noteq> None" for x
    by (cases "i_state (cancel (now e) x)") auto
  then have "\<exists>y. get_call t k = Some y \<and>
       (i_state y \<in> {Completed, CancelledCall, Failed, ExpiredCall} \<or> i_cancellation y \<noteq> None)"
    using assms(3) by (simp add: g)
  moreover have "\<exists>y. get_call t j = Some y \<and>
       (i_state y = i_state x \<or> i_state x = Queued \<and> i_state y = CancelledCall) \<and>
       i_result y = i_result x" if c: "get_call s j = Some x" for j x
  proof -
    let ?x = "if j = k then cancel (now e) x else x"
    let ?y = "if needs_cancel e ?u ?x then cancel (now e) ?x else ?x"
    have "get_call t j = Some ?y" using c by (auto simp: g)
    moreover have "i_state ?y = i_state x \<or> i_state x = Queued \<and> i_state ?y = CancelledCall"
      by (auto simp: cancel_state)
    moreover have "i_result ?y = i_result x" by simp
    ultimately show ?thesis by blast
  qed
  ultimately show ?thesis unfolding t by simp
qed

theorem cancel_never_rewrites_witness:
  "\<exists>i' t y. cancel_invocation sample_env (\<lambda>_ _. Inr None) ''app'' ''i1'' sample_busy = Inr (i', t) \<and>
     get_call t ''i1'' = Some y \<and> i_state y = Running"
proof -
  let ?i = "sample_call ''i1'' ''d1'' Running"
  have g: "get_call sample_busy ''i1'' = Some ?i" by (simp add: sample_busy_def)
  have o: "i_owner ?i = ''app''" "i_state ?i = Running" by (simp_all add: sample_call_def)
  obtain i' t where r: "cancel_invocation sample_env (\<lambda>_ _. Inr None) ''app'' ''i1'' sample_busy = Inr (i', t)"
    using g o by (simp add: cancel_invocation_def Let_def)
  show ?thesis
    using cancel_never_rewrites[OF r sample_busy_inv g o(1)] r g o(2) by fastforce
qed

end
