(* ===== verification/Workspace_Recovery.thy ===== *)
theory Workspace_Recovery
  imports Control
begin

text \<open>
  \<open>workspace_recovery.rs\<close>: the evidence that lets the recovery of a demand pass over a workspace
  call whose outcome is unknown. The monitor reads the retained packet of the call, moves its
  still running children to \<open>Uncertain\<close> when they can only have touched the demand's own
  backend, and records an analysis in the demand; \<open>allows_recovery\<close> re-checks it against the
  document. The file system and the JSON parser are the record \<open>fs\<close>.
\<close>

section \<open>What a child of a workspace call may still be doing\<close>

definition WORKSPACE_RECOVERY_BLOCKER :: string where
  "WORKSPACE_RECOVERY_BLOCKER = ''recovery_active_or_unproven_workspace_invocation''"

definition CLOSED_SCOPE_CHILD_OUTCOME_UNKNOWN :: string where
  "CLOSED_SCOPE_CHILD_OUTCOME_UNKNOWN = ''workspace_scoped_child_outcome_unknown''"

definition scope_of :: "document \<Rightarrow> invocation \<Rightarrow> workspace_scope option" where
  "scope_of s i =
     (case q_workspace_scope (i_request i) of
        None \<Rightarrow> None | Some k \<Rightarrow> map_of (workspace_scopes s) k)"

definition scoped_to_parent :: "document \<Rightarrow> invocation \<Rightarrow> string \<Rightarrow> bool" where
  "scoped_to_parent s child parent \<longleftrightarrow>
     is_some_and (scope_of s child) (\<lambda>sc. s_invocation_id sc = Some parent)"

definition child_confined :: "document \<Rightarrow> demand \<Rightarrow> invocation \<Rightarrow> invocation \<Rightarrow> bool" where
  "child_confined s d parent child \<longleftrightarrow>
     q_reservation_id (i_request child) = d_id d \<and>
     q_generation (i_request child) = d_generation d \<and>
     q_profile_hash (i_request child) = d_profile_hash d \<and>
     i_activation child = Some (d_generation d) \<and> q_work (i_request child) = None \<and>
     is_some_and (d_backend_activation d) (\<lambda>a. a \<noteq> []) \<and>
     is_some_and (scope_of s child) (\<lambda>sc. s_invocation_id sc = Some (i_id parent))"

definition child_physical_effect ::
  "document \<Rightarrow> demand \<Rightarrow> invocation \<Rightarrow> invocation \<Rightarrow> child_effect" where
  "child_physical_effect s d parent child =
     (case i_state child of
        Queued \<Rightarrow> UnresolvedActive
      | Running \<Rightarrow> UnresolvedActive
      | Uncertain \<Rightarrow>
          if child_confined s d parent child then ConfinedToDemandBackend else IndependentUnproven
      | _ \<Rightarrow> Terminal)"

definition child_summary :: "document \<Rightarrow> demand \<Rightarrow> invocation \<Rightarrow> invocation \<Rightarrow> recovery_child" where
  "child_summary s d parent child =
     \<lparr>rc_invocation_id = i_id child, rc_state = i_state child, rc_error = i_error child,
      rc_workspace_scope = q_workspace_scope (i_request child),
      rc_reservation_id = q_reservation_id (i_request child),
      rc_request_generation = q_generation (i_request child),
      rc_request_profile_hash = q_profile_hash (i_request child),
      rc_invocation_activation = i_activation child,
      rc_demand_backend_activation = d_backend_activation d,
      rc_physical_effect = child_physical_effect s d parent child,
      rc_started = i_started child, rc_execution_deadline = i_execution_deadline child,
      rc_cancellation_requested_at = i_cancellation child,
      rc_result_present = (i_result child \<noteq> None \<or> i_result_ref child \<noteq> None),
      rc_late_result_present = (i_late_result child \<noteq> None \<or> i_late_result_ref child \<noteq> None)\<rparr>"

definition scoped_child_summaries :: "document \<Rightarrow> demand \<Rightarrow> invocation \<Rightarrow> recovery_child list" where
  "scoped_child_summaries s d parent =
     map (child_summary s d parent)
       (filter (\<lambda>child. scoped_to_parent s child (i_id parent)) (om_vals (invocations s)))"

definition children_terminal :: "recovery_child list \<Rightarrow> bool" where
  "children_terminal cs \<longleftrightarrow> (\<forall>x \<in> set cs. rc_physical_effect x = Terminal)"

definition children_recoverable :: "recovery_child list \<Rightarrow> bool" where
  "children_recoverable cs \<longleftrightarrow>
     (\<forall>x \<in> set cs. rc_physical_effect x \<in> {Terminal, ConfinedToDemandBackend})"

definition scoped_children_recoverable :: "document \<Rightarrow> demand \<Rightarrow> invocation \<Rightarrow> bool" where
  "scoped_children_recoverable s d parent \<longleftrightarrow>
     children_recoverable (scoped_child_summaries s d parent)"

definition scope_closed_or_expired :: "env \<Rightarrow> document \<Rightarrow> string \<Rightarrow> bool" where
  "scope_closed_or_expired e s parent \<longleftrightarrow>
     (let scs = filter (\<lambda>sc. s_invocation_id sc = Some parent) (om_vals (workspace_scopes s)) in
      scs \<noteq> [] \<and> (\<forall>sc \<in> set scs. s_closed_at_ms sc \<noteq> None \<or> s_deadline_ms sc \<le> now_ms e))"

definition terminal_packet_status :: "string \<Rightarrow> bool" where
  "terminal_packet_status v \<longleftrightarrow>
     v \<in> {''checks_passed'', ''checks_failed'', ''executor_unavailable'', ''failed'',
         ''path_policy_failed''}"

definition analysis_recorded :: "demand \<Rightarrow> invocation \<Rightarrow> bool" where
  "analysis_recorded d i \<longleftrightarrow>
     is_some_and (map_of (d_workspace_recovery_analyses d) (i_id i)) (\<lambda>a.
       ra_invocation_id a = i_id i \<and> terminal_packet_status (ra_packet_status a) \<and>
       rk_retained_terminal_packet (ra_checks a) \<and>
       (rk_scoped_children_terminal (ra_checks a) \<or>
        rk_scoped_children_physically_recoverable (ra_checks a)) \<and>
       rk_workspace_scope_closed_or_expired (ra_checks a) \<and>
       rk_packet_under_state_root (ra_checks a) \<and> rk_ownership_fence_intact (ra_checks a))"

definition allows_recovery :: "env \<Rightarrow> document \<Rightarrow> demand \<Rightarrow> invocation \<Rightarrow> bool" where
  "allows_recovery e s d i \<longleftrightarrow>
     i_state i = Uncertain \<and> is_workspace i \<and> analysis_recorded d i \<and>
     scoped_children_recoverable s d i \<and> scope_closed_or_expired e s (i_id i)"

section \<open>The monitor\<close>

record candidate =
  cd_demand :: demand
  cd_invocation :: invocation

definition candidates :: "document \<Rightarrow> candidate list" where
  "candidates s =
     concat (map (\<lambda>d. map (\<lambda>i. \<lparr>cd_demand = d, cd_invocation = i\<rparr>)
         (filter (\<lambda>i. q_reservation_id (i_request i) = d_id d \<and> i_state i = Uncertain \<and>
                      is_workspace i \<and> \<not> analysis_recorded d i) (om_vals (invocations s))))
       (filter (\<lambda>d. d_state d = RecoveryRequired \<and>
                    d_reason d = Some ''invocation_outcome_unknown'' \<and> owns s d)
         (om_vals (demands s))))"

definition recovery_fence :: "document \<Rightarrow> demand \<Rightarrow> unit res" where
  "recovery_fence s d =
     res_bind (ok_or (get_demand s (d_id d)) ''missing_transition'') (\<lambda>saved.
       ensure (d_generation saved = d_generation d \<and> d_profile_hash saved = d_profile_hash d \<and>
               d_process saved = d_process d \<and> d_state saved = RecoveryRequired \<and> owns s saved)
         ''workspace_recovery_ownership_fence_changed'')"

definition workspace_parent :: "document \<Rightarrow> candidate \<Rightarrow> invocation res" where
  "workspace_parent s cd =
     res_bind (ok_or (get_call s (i_id (cd_invocation cd))) ''missing_invocation'') (\<lambda>parent.
       if q_reservation_id (i_request parent) \<noteq> d_id (cd_demand cd) \<or> i_state parent \<noteq> Uncertain \<or>
          i_error parent \<noteq> Some ''workspace_model_outcome_uncertain'' \<or> \<not> is_workspace parent
       then Inl ''workspace_recovery_parent_changed'' else Inr parent)"

definition child_outcome_unknown :: "nat \<Rightarrow> invocation \<Rightarrow> invocation" where
  "child_outcome_unknown t i =
     (if i_state i = Running
      then (let i = cancel t i in
            i\<lparr>i_state := Uncertain, i_completed := Some t,
              i_error := get_or_insert (i_error i) CLOSED_SCOPE_CHILD_OUTCOME_UNKNOWN\<rparr>)
      else i)"

definition reconcile_children ::
  "env \<Rightarrow> config \<Rightarrow> candidate \<Rightarrow> string \<Rightarrow> document \<Rightarrow> (unit \<times> document) res" where
  "reconcile_children e c cd parent_id s =
     res_bind (recovery_fence s (cd_demand cd)) (\<lambda>_.
     res_bind (ok_or (get_demand s (d_id (cd_demand cd))) ''missing_transition'') (\<lambda>d.
     res_bind (workspace_parent s cd) (\<lambda>parent.
     if i_id parent \<noteq> parent_id then Inl ''workspace_recovery_parent_changed''
     else if \<not> scope_closed_or_expired e s parent_id
     then Inl ''workspace_recovery_scope_open_or_missing''
     else
       (let ids = map i_id (filter (\<lambda>i. scoped_to_parent s i parent_id \<and> i_state i = Running \<and>
                child_confined s d parent i) (om_vals (invocations s))) in
        res_bind (retention e (c_limits c)
            (fold (\<lambda>k. upd_call k (child_outcome_unknown (now e))) ids s)) (\<lambda>s. Inr ((), s))))))"

text \<open>The packet: \<open>canonicalize\<close> and \<open>read_to_string\<close> of the file system, and the parse.\<close>

record fs =
  fs_canonicalize :: "string \<Rightarrow> string res"
  fs_is_dir :: "string \<Rightarrow> bool"
  fs_read :: "string \<Rightarrow> string res"
  fs_parse :: "string \<Rightarrow> json res"

definition map_error :: "string \<Rightarrow> 'a res \<Rightarrow> 'a res" where
  "map_error p r = (case r of Inl e \<Rightarrow> Inl (p @ e) | Inr x \<Rightarrow> Inr x)"

lemma map_error_eq_Inr [res_simps]: "map_error p r = Inr x \<longleftrightarrow> r = Inr x"
  by (simp add: map_error_def split: sum.splits)

definition is_absolute :: "string \<Rightarrow> bool" where
  "is_absolute p = starts_with p ''/''"

text \<open>\<open>Path::starts_with\<close> on canonical paths: whole components.\<close>

definition under_directory :: "string \<Rightarrow> string \<Rightarrow> bool" where
  "under_directory dir p \<longleftrightarrow> p = dir \<or> starts_with p (dir @ ''/'')"

definition canonicalize_existing_directory :: "fs \<Rightarrow> string \<Rightarrow> string res" where
  "canonicalize_existing_directory f p =
     res_bind (map_error ''workspace_recovery_state_root_unreadable:'' (fs_canonicalize f p)) (\<lambda>q.
       if fs_is_dir f q then Inr q else Inl ''workspace_recovery_state_root_invalid'')"

definition read_packet :: "fs \<Rightarrow> config \<Rightarrow> string \<Rightarrow> (string \<times> json) res" where
  "read_packet f c p =
     res_bind (ok_or (c_workspace c) ''workspace_not_configured'') (\<lambda>w.
     if \<not> is_absolute p then Inl ''workspace_recovery_packet_path_relative''
     else
       res_bind (map_error ''workspace_recovery_packet_unreadable:'' (fs_canonicalize f p)) (\<lambda>packet.
       res_bind (canonicalize_existing_directory f (wc_state_root w @ ''/state/changes'')) (\<lambda>changes.
       if \<not> under_directory changes packet then Inl ''workspace_recovery_packet_outside_state_root''
       else
         res_bind (map_error ''workspace_recovery_packet_unreadable:'' (fs_read f packet)) (\<lambda>raw.
         res_bind (map_error ''workspace_recovery_packet_invalid:'' (fs_parse f raw)) (\<lambda>v.
           Inr (packet, v))))))"

definition optional_string :: "json \<Rightarrow> string \<Rightarrow> string option" where
  "optional_string v k = (case json_get v k of None \<Rightarrow> None | Some x \<Rightarrow> json_as_str x)"

definition required_string :: "json \<Rightarrow> string \<Rightarrow> string res" where
  "required_string v k =
     ok_or (optional_string v k) (''workspace_recovery_packet_'' @ k @ ''_missing'')"

text \<open>\<open>analyze\<close> reads the document, updates it, and reads it again, the lock free in between:
  \<open>s1\<close>, \<open>s2\<close> and \<open>s3\<close> are the documents it meets.\<close>

definition analyze_parent :: "env \<Rightarrow> candidate \<Rightarrow> document \<Rightarrow> invocation res" where
  "analyze_parent e cd s =
     (if i_error (cd_invocation cd) \<noteq> Some ''workspace_model_outcome_uncertain''
      then Inl ''workspace_recovery_unsupported_parent_error''
      else
        res_bind (recovery_fence s (cd_demand cd)) (\<lambda>_.
        res_bind (workspace_parent s cd) (\<lambda>parent.
          if scope_closed_or_expired e s (i_id parent) then Inr parent
          else Inl ''workspace_recovery_scope_open_or_missing'')))"

definition analyze_packet :: "fs \<Rightarrow> config \<Rightarrow> invocation \<Rightarrow> (string \<times> json \<times> string) res" where
  "analyze_packet f c parent =
     res_bind (ok_or (opt_or (i_late_result parent) (i_result parent))
       ''workspace_recovery_parent_result_missing'') (\<lambda>result.
     res_bind (ok_or (optional_string result ''packet_path'') ''workspace_recovery_packet_path_missing'')
       (\<lambda>p.
     res_bind (read_packet f c p) (\<lambda>(path, packet).
     res_bind (required_string packet ''status'') (\<lambda>status.
       if terminal_packet_status status then Inr (path, packet, status)
       else Inl ''workspace_recovery_packet_not_terminal''))))"

definition analyze_children :: "candidate \<Rightarrow> document \<Rightarrow> recovery_child list res" where
  "analyze_children cd s =
     res_bind (recovery_fence s (cd_demand cd)) (\<lambda>_.
     res_bind (workspace_parent s cd) (\<lambda>parent.
       let cs = scoped_child_summaries s (cd_demand cd) parent in
       if children_recoverable cs then Inr cs else Inl ''workspace_recovery_scoped_child_unproven''))"

definition analysis_of ::
  "env \<Rightarrow> invocation \<Rightarrow> string \<times> json \<times> string \<Rightarrow> recovery_child list \<Rightarrow> recovery_analysis" where
  "analysis_of e parent pk cs =
     (case pk of (path, packet, status) \<Rightarrow>
        let work = q_work (i_request parent);
            ws = (case work of None \<Rightarrow> None | Some w \<Rightarrow> work_workspace w) in
        \<lparr>ra_invocation_id = i_id parent, ra_diagnosed_at = now e, ra_parent_error = i_error parent,
         ra_work_id = map_option wk_work_id work,
         ra_repository_id = map_option (\<lambda>w. rd_id (w_repository w)) ws,
         ra_repository_root = (case ws of None \<Rightarrow> None | Some w \<Rightarrow> rd_root (w_repository w)),
         ra_packet_path = path, ra_packet_status = status,
         ra_packet_acceptance_verdict = optional_string packet ''acceptance_verdict'',
         ra_packet_last_error = optional_string packet ''last_error'', ra_scoped_children = cs,
         ra_checks =
           \<lparr>rk_retained_terminal_packet = True, rk_scoped_children_terminal = children_terminal cs,
            rk_scoped_children_physically_recoverable = children_recoverable cs,
            rk_workspace_scope_closed_or_expired = True, rk_packet_under_state_root = True,
            rk_ownership_fence_intact = True\<rparr>\<rparr>)"

definition analyze ::
  "env \<Rightarrow> config \<Rightarrow> fs \<Rightarrow> (invocation \<Rightarrow> invocation res) \<Rightarrow> candidate
     \<Rightarrow> document \<Rightarrow> document \<Rightarrow> (document \<Rightarrow> document) \<Rightarrow> (recovery_analysis \<times> document) res" where
  "analyze e c f hydrate cd s1 s2 later =
     res_bind (analyze_parent e cd s1) (\<lambda>parent.
     res_bind (hydrate parent) (\<lambda>parent.
     res_bind (analyze_packet f c parent) (\<lambda>pk.
     res_bind (reconcile_children e c cd (i_id parent) s2) (\<lambda>(_, s2').
     res_bind (analyze_children cd (later s2')) (\<lambda>cs.
       Inr (analysis_of e parent pk cs, s2'))))))"

definition persist ::
  "env \<Rightarrow> config \<Rightarrow> candidate \<Rightarrow> recovery_analysis \<Rightarrow> document \<Rightarrow> (bool \<times> document) res" where
  "persist e c cd a s =
     res_bind (recovery_fence s (cd_demand cd)) (\<lambda>_.
     res_bind (workspace_parent s cd) (\<lambda>parent.
     if \<not> scoped_children_recoverable s (cd_demand cd) parent
     then Inl ''workspace_recovery_scoped_child_unproven''
     else if \<not> scope_closed_or_expired e s (i_id parent)
     then Inl ''workspace_recovery_scope_open_or_missing''
     else
       res_bind (ok_or (get_demand s (d_id (cd_demand cd))) ''missing_transition'') (\<lambda>saved.
       if map_of (d_workspace_recovery_analyses saved) (i_id parent) \<noteq> None then Inr (False, s)
       else
         res_bind (retention e (c_limits c) (upd_demand (d_id (cd_demand cd)) (\<lambda>d.
             d\<lparr>d_workspace_recovery_analyses :=
                 om_put (i_id parent) a (d_workspace_recovery_analyses d),
               d_recovery_error := Some WORKSPACE_RECOVERY_BLOCKER,
               d_transition_deadline := now e\<rparr>) s)) (\<lambda>s. Inr (True, s)))))"

section \<open>The invariant is kept\<close>

lemma demands_kept_fold_calls:
  assumes "\<And>i. i_id (f i) = i_id i" and "doc_inv s"
  shows "demands_kept s (fold (\<lambda>k. upd_call k f) ks s)"
  using assms(2)
proof (induction ks arbitrary: s)
  case Nil
  then show ?case by (simp add: demands_kept_refl)
next
  case (Cons k ks)
  have k: "demands_kept s (upd_call k f s)"
    using assms(1) Cons.prems by (intro demands_kept_upd_call) simp_all
  then have "demands_kept (upd_call k f s) (fold (\<lambda>k. upd_call k f) ks (upd_call k f s))"
    using Cons demands_kept_doc_inv by blast
  then show ?case using demands_kept_trans[OF k] by simp
qed

lemma child_outcome_unknown_sel [simp]:
  "i_id (child_outcome_unknown t i) = i_id i" "i_request (child_outcome_unknown t i) = i_request i"
  "i_result (child_outcome_unknown t i) = i_result i"
  by (simp_all add: child_outcome_unknown_def Let_def)

lemma child_outcome_unknown_state:
  "i_state (child_outcome_unknown t i) = (if i_state i = Running then Uncertain else i_state i)"
  by (simp add: child_outcome_unknown_def Let_def)

lemma reconcile_children_kept:
  assumes "reconcile_children e c cd k s = Inr (u, t)" and "doc_inv s"
  shows "demands_kept s t"
proof -
  obtain ids where r: "retention e (c_limits c)
      (fold (\<lambda>k. upd_call k (child_outcome_unknown (now e))) ids s) = Inr t"
    using assms(1) by (auto simp: reconcile_children_def Let_def res_simps split: if_splits)
  have k: "demands_kept s (fold (\<lambda>k. upd_call k (child_outcome_unknown (now e))) ids s)"
    using assms(2) by (intro demands_kept_fold_calls) simp_all
  then show ?thesis
    using r retention_demands_kept demands_kept_doc_inv[OF assms(2) k] demands_kept_trans by blast
qed

text \<open>The ways \<open>persist\<close> succeeds.\<close>

lemma persist_cases:
  assumes "persist e c cd a s = Inr (b, t)"
  obtains parent where "recovery_fence s (cd_demand cd) = Inr ()" "workspace_parent s cd = Inr parent"
    "scoped_children_recoverable s (cd_demand cd) parent" "scope_closed_or_expired e s (i_id parent)"
    "b = False \<and> t = s \<or>
     b \<and> retention e (c_limits c) (upd_demand (d_id (cd_demand cd)) (\<lambda>d.
             d\<lparr>d_workspace_recovery_analyses :=
                 om_put (i_id parent) a (d_workspace_recovery_analyses d),
               d_recovery_error := Some WORKSPACE_RECOVERY_BLOCKER,
               d_transition_deadline := now e\<rparr>) s) = Inr t"
  using assms by (auto simp: persist_def res_simps split: if_splits)

lemma persist_inv:
  assumes "persist e c cd a s = Inr (b, t)" and "doc_inv s"
  shows "doc_inv t"
proof (rule persist_cases[OF assms(1)])
  fix parent
  let ?u = "upd_demand (d_id (cd_demand cd)) (\<lambda>d.
      d\<lparr>d_workspace_recovery_analyses := om_put (i_id parent) a (d_workspace_recovery_analyses d),
        d_recovery_error := Some WORKSPACE_RECOVERY_BLOCKER, d_transition_deadline := now e\<rparr>) s"
  assume "b = False \<and> t = s \<or> b \<and> retention e (c_limits c) ?u = Inr t"
  moreover have "doc_inv ?u" by (rule upd_demand_same_inv[OF assms(2)]) simp
  ultimately show "doc_inv t"
    using assms(2) retention_demands_kept demands_kept_doc_inv by blast
qed

interpretation reconcile_children: authority_op doc_inv "\<lambda>_. True" "reconcile_children e c cd k"
  for e c cd k
  by unfold_locales (blast dest: reconcile_children_kept demands_kept_doc_inv)

interpretation persist: authority_op doc_inv "\<lambda>_. True" "persist e c cd a" for e c cd a
  by unfold_locales (rule persist_inv)

section \<open>A recorded analysis is enough, and only proof is recorded\<close>

lemma scope_of_cong:
  "workspace_scopes t = workspace_scopes s \<Longrightarrow>
     q_workspace_scope (i_request j) = q_workspace_scope (i_request i) \<Longrightarrow> scope_of t j = scope_of s i"
  by (simp add: scope_of_def split: option.split)

lemma summaries_upd_demand [simp]:
  "scoped_child_summaries (upd_demand k f s) d p = scoped_child_summaries s d p"
proof -
  have o: "scope_of (upd_demand k f s) i = scope_of s i" for i by (rule scope_of_cong) simp_all
  have "child_physical_effect (upd_demand k f s) d p i = child_physical_effect s d p i" for i
    by (simp add: child_physical_effect_def child_confined_def o split: invocation_state.split)
  then show ?thesis
    by (simp add: scoped_child_summaries_def child_summary_def scoped_to_parent_def o)
qed

lemma child_effect_compacts:
  assumes "compacts i j" and "workspace_scopes t = workspace_scopes s"
    and "d_id d' = d_id d" "d_generation d' = d_generation d" "d_profile_hash d' = d_profile_hash d"
      "d_backend_activation d' = d_backend_activation d"
  shows "child_physical_effect t d' p j = child_physical_effect s d p i"
proof (cases "terminal_call i")
  case True
  then have "i_state j = i_state i" "i_state i \<notin> {Queued, Running, Uncertain}"
    using assms(1) by (auto simp: compacts_def terminal_call_def)
  then show ?thesis by (cases "i_state i") (auto simp: child_physical_effect_def)
next
  case False
  then have j: "j = i" using assms(1) by (simp add: compacts_def)
  have "scope_of t i = scope_of s i" by (rule scope_of_cong) (simp_all add: assms(2))
  then show ?thesis
    by (simp add: j child_physical_effect_def child_confined_def assms split: invocation_state.split)
qed

lemma scoped_children_recoverable_compacted:
  assumes "calls_compacted s t" and "scoped_children_recoverable s d p"
    and "d_id d' = d_id d" "d_generation d' = d_generation d" "d_profile_hash d' = d_profile_hash d"
      "d_backend_activation d' = d_backend_activation d"
  shows "scoped_children_recoverable t d' p"
proof -
  have w: "workspace_scopes t = workspace_scopes s" using calls_compacted_sel[OF assms(1)] by simp
  have "child_physical_effect t d' p j \<in> {Terminal, ConfinedToDemandBackend}"
    if j: "j \<in> set (om_vals (invocations t))" "scoped_to_parent t j (i_id p)" for j
  proof -
    obtain i where i: "i \<in> set (om_vals (invocations s))" "compacts i j"
      using assms(1) j(1)
      by (fastforce simp: calls_compacted_def om_vals_def list_all2_conv_all_nth in_set_conv_nth)
    have "scoped_to_parent s i (i_id p)"
      using j(2) scope_of_cong[OF w, of j i] i(2) by (simp add: scoped_to_parent_def compacts_def)
    then have "child_physical_effect s d p i \<in> {Terminal, ConfinedToDemandBackend}"
      using assms(2) i(1)
      by (auto simp: scoped_children_recoverable_def children_recoverable_def
          scoped_child_summaries_def child_summary_def)
    then show ?thesis using child_effect_compacts[OF i(2) w assms(3-6)] by simp
  qed
  then show ?thesis
    by (auto simp: scoped_children_recoverable_def children_recoverable_def
        scoped_child_summaries_def child_summary_def)
qed

lemma hydrate_id: "hydrate_invocation e dq dv fs i = Inr j \<Longrightarrow> i_id j = i_id i"
  by (auto simp: hydrate_invocation_def res_simps split: if_splits option.splits)

lemma workspace_parent_eq:
  "workspace_parent s cd = Inr p \<longleftrightarrow>
     get_call s (i_id (cd_invocation cd)) = Some p \<and>
     q_reservation_id (i_request p) = d_id (cd_demand cd) \<and> i_state p = Uncertain \<and>
     i_error p = Some ''workspace_model_outcome_uncertain'' \<and> is_workspace p"
  by (auto simp: workspace_parent_def res_simps)

lemma recovery_fence_eq:
  "recovery_fence s d = Inr u \<longleftrightarrow>
     (\<exists>saved. get_demand s (d_id d) = Some saved \<and> d_generation saved = d_generation d \<and>
       d_profile_hash saved = d_profile_hash d \<and> d_process saved = d_process d \<and>
       d_state saved = RecoveryRequired \<and> owns s saved)"
  by (auto simp: recovery_fence_def res_simps)

text \<open>What an analysis certifies.\<close>

definition certified :: "string \<Rightarrow> recovery_analysis \<Rightarrow> bool" where
  "certified k a \<longleftrightarrow> ra_invocation_id a = k \<and> terminal_packet_status (ra_packet_status a) \<and>
     rk_retained_terminal_packet (ra_checks a) \<and>
     rk_scoped_children_physically_recoverable (ra_checks a) \<and>
     rk_workspace_scope_closed_or_expired (ra_checks a) \<and>
     rk_packet_under_state_root (ra_checks a) \<and> rk_ownership_fence_intact (ra_checks a)"

lemma analyze_certified:
  assumes "analyze e c f (hydrate_invocation e dq dv files) cd s1 s2 later = Inr (a, s2')"
    and "doc_inv s1"
  shows "certified (i_id (cd_invocation cd)) a"
proof -
  obtain p0 p pk cs where p0: "analyze_parent e cd s1 = Inr p0" "hydrate_invocation e dq dv files p0 = Inr p"
    and pk: "analyze_packet f c p = Inr pk" and cs: "analyze_children cd (later s2') = Inr cs"
    and a: "a = analysis_of e p pk cs"
    using assms(1) by (auto simp: analyze_def res_simps)
  have "i_id p0 = i_id (cd_invocation cd)"
    using p0(1) doc_inv_call_id[OF assms(2)]
    by (auto simp: analyze_parent_def res_simps workspace_parent_eq split: if_splits)
  moreover have "children_recoverable cs"
    using cs by (auto simp: analyze_children_def Let_def res_simps split: if_splits)
  moreover have "terminal_packet_status (snd (snd pk))"
    using pk by (auto simp: analyze_packet_def res_simps split: if_splits)
  ultimately show ?thesis
    using hydrate_id[OF p0(2)] by (cases pk) (simp add: certified_def a analysis_of_def Let_def)
qed

text \<open>Recovery passes over an uncertain workspace call only on evidence. When the monitor's
  analysis of a candidate succeeds and \<open>persist\<close> records it, the demand still was fenced for
  recovery as the candidate showed it, every child the call started is finished or confined to the
  demand's own backend, every scope of the call is closed or expired and the packet is terminal;
  afterwards \<open>allows_recovery\<close> holds for the recorded demand and call, the call is still
  \<open>Uncertain\<close> (its history is not rewritten), and no claim has moved.\<close>

theorem recorded_analysis_allows_recovery:
  assumes "analyze e c f (hydrate_invocation e dq dv files) cd s1 s2 later = Inr (a, s2')"
    and "persist e c cd a s = Inr (True, t)" and "doc_inv s1" and "doc_inv s"
    and "get_demand s (d_id (cd_demand cd)) = Some d"
    and "d_backend_activation d = d_backend_activation (cd_demand cd)"
  shows "\<exists>d' i. get_demand t (d_id (cd_demand cd)) = Some d' \<and>
    get_call t (i_id (cd_invocation cd)) = Some i \<and> allows_recovery e t d' i \<and>
    d_state d' = RecoveryRequired \<and> owns t d' \<and> claims t = claims s"
proof (rule persist_cases[OF assms(2)])
  fix p :: invocation
  let ?f = "\<lambda>d :: demand. d\<lparr>d_workspace_recovery_analyses := om_put (i_id p) a (d_workspace_recovery_analyses d),
      d_recovery_error := Some WORKSPACE_RECOVERY_BLOCKER, d_transition_deadline := now e\<rparr>"
  let ?u = "upd_demand (d_id (cd_demand cd)) ?f s"
  assume fence: "recovery_fence s (cd_demand cd) = Inr ()" and p: "workspace_parent s cd = Inr p"
    and ch: "scoped_children_recoverable s (cd_demand cd) p" and sc: "scope_closed_or_expired e s (i_id p)"
    and "True = False \<and> t = s \<or> True \<and> retention e (c_limits c) ?u = Inr t"
  then have r: "retention e (c_limits c) ?u = Inr t" by simp
  have um: "om_ok (invocations ?u)" using assms(4) by (simp add: doc_inv_def maps_ok_def)
  have cc: "calls_compacted ?u t" by (rule retention_kept[OF r um])
  note sel = calls_compacted_sel[OF cc]
  have pid: "i_id p = i_id (cd_invocation cd)" "get_call s (i_id p) = Some p" "i_state p = Uncertain"
      "is_workspace p"
    using p doc_inv_call_id[OF assms(4)] by (auto simp: workspace_parent_eq)
  have d: "d_generation d = d_generation (cd_demand cd)" "d_profile_hash d = d_profile_hash (cd_demand cd)"
      "d_state d = RecoveryRequired" "owns s d" "d_id d = d_id (cd_demand cd)"
    using fence assms(5) doc_inv_id[OF assms(4,5)] by (auto simp: recovery_fence_eq)
  have call: "get_call t (i_id p) = Some p"
    using calls_compacted_call[OF cc, of "i_id p"] pid
    by (auto simp: option_rel_Some1 compacts_def terminal_call_def)
  have "scoped_children_recoverable ?u (cd_demand cd) p"
    using ch by (simp add: scoped_children_recoverable_def)
  then have "scoped_children_recoverable t (?f d) p"
    using scoped_children_recoverable_compacted[OF cc, of "cd_demand cd" p "?f d"] d assms(6) by simp
  moreover have "scope_closed_or_expired e t (i_id p)"
    using sc sel by (simp add: scope_closed_or_expired_def)
  moreover have "analysis_recorded (?f d) p"
    using analyze_certified[OF assms(1,3)] pid(1) by (simp add: analysis_recorded_def certified_def)
  ultimately have "allows_recovery e t (?f d) p" using pid by (simp add: allows_recovery_def)
  moreover have "get_demand t (d_id (cd_demand cd)) = Some (?f d)" using sel assms(5) by simp
  moreover have "claims t = claims s" using sel by simp
  moreover have "owns t (?f d)" using d(4) sel by (simp add: owns_def)
  ultimately show ?thesis using call pid(1) d(3) by auto
qed

section \<open>A sample recovery\<close>

definition sample_work :: work where
  "sample_work = \<lparr>wk_reservation_id = ''d1'', wk_service = ''coder'', wk_work_id = ''w'',
     wk_payload = WorkspaceWork
       \<lparr>w_repository = \<lparr>rd_id = ''repo'', rd_registered_root = None, rd_root = None,
          rd_base_ref = ''main'', rd_base_sha = None\<rparr>,
        w_objective = ''o'', w_allowed_paths = [], w_acceptance = \<lparr>ad_commands = [], ad_required_artifacts = []\<rparr>,
        w_requirements = \<lparr>wr_complexity = Small, wr_requires_large_context = False\<rparr>,
        w_environment_resources = [],
        w_limits = \<lparr>ld_max_implementation_attempts = 1, ld_timeout_seconds = 60, ld_network = ''none''\<rparr>\<rparr>,
     wk_wait_seconds = None\<rparr>"

definition sample_uncertain :: invocation where
  "sample_uncertain = (sample_call ''i1'' ''d1'' Uncertain)
     \<lparr>i_request := (sample_request ''d1'')\<lparr>q_work := Some sample_work\<rparr>,
      i_error := Some ''workspace_model_outcome_uncertain'',
      i_result := Some (JObject [(''packet_path'', JString ''/s/state/changes/p'')])\<rparr>"

definition sample_lost :: demand where
  "sample_lost = (sample_demand ''d1'' RecoveryRequired Low (sample_profile ''coder'' [''gpu0'']))
     \<lparr>d_reason := Some ''invocation_outcome_unknown''\<rparr>"

definition sample_recovery :: document where
  "sample_recovery = sample_document\<lparr>demands := [(''d1'', sample_lost)],
     invocations := [(''i1'', sample_uncertain)],
     workspace_scopes := [(''sc'', \<lparr>s_invocation_id = Some ''i1'', s_owner = ''app'',
       s_reservation_id = ''d1'', s_deadline_ms = 10, s_closed_at_ms = Some 5,
       s_authorization_hash = ''h''\<rparr>)]\<rparr>"

definition sample_lost_candidate :: candidate where
  "sample_lost_candidate = \<lparr>cd_demand = sample_lost, cd_invocation = sample_uncertain\<rparr>"

definition sample_fs :: fs where
  "sample_fs = \<lparr>fs_canonicalize = (\<lambda>p. Inr p), fs_is_dir = (\<lambda>_. True), fs_read = (\<lambda>_. Inr ''x''),
     fs_parse = (\<lambda>_. Inr (JObject [(''status'', JString ''failed'')]))\<rparr>"

definition sample_workspace_config :: config where
  "sample_workspace_config =
     sample_config\<lparr>c_workspace := Some \<lparr>wc_registry_root = ''/r'', wc_state_root = ''/s''\<rparr>\<rparr>"

lemma sample_uncertain_sel:
  "i_id sample_uncertain = ''i1''" "i_state sample_uncertain = Uncertain" "is_workspace sample_uncertain"
  "i_error sample_uncertain = Some ''workspace_model_outcome_uncertain''"
  "q_reservation_id (i_request sample_uncertain) = ''d1''"
  "q_workspace_scope (i_request sample_uncertain) = None" "i_request_ref sample_uncertain = None"
  "i_result_ref sample_uncertain = None" "i_late_result_ref sample_uncertain = None"
  "i_late_result sample_uncertain = None"
  "i_result sample_uncertain = Some (JObject [(''packet_path'', JString ''/s/state/changes/p'')])"
  by (simp_all add: sample_uncertain_def sample_call_def sample_request_def is_workspace_def
      sample_work_def work_workspace_def)

lemma sample_lost_sel:
  "d_id sample_lost = ''d1''" "d_state sample_lost = RecoveryRequired" "d_owner sample_lost = ''app''"
  "d_profile sample_lost = sample_profile ''coder'' [''gpu0'']"
  "d_reason sample_lost = Some ''invocation_outcome_unknown''"
  "d_workspace_recovery_analyses sample_lost = []" "d_process sample_lost = Some sample_process"
  "d_effect_started sample_lost" "d_generation sample_lost = ''d1g''"
  "d_preempted_by sample_lost = None" "d_reservation_closed sample_lost = None"
  "d_deadline sample_lost = 700" "d_transition_deadline sample_lost = 0" "\<not> d_released sample_lost"
  by (simp_all add: sample_lost_def sample_demand_def)

lemma sample_recovery_sel:
  "get_demand sample_recovery ''d1'' = Some sample_lost"
  "get_call sample_recovery ''i1'' = Some sample_uncertain"
  "om_vals (invocations sample_recovery) = [sample_uncertain]"
  "om_vals (demands sample_recovery) = [sample_lost]"
  "owns sample_recovery sample_lost" "claims sample_recovery = [(''gpu0'', ''d1'')]"
  by (simp_all add: sample_recovery_def om_vals_def owns_def sample_document_def sample_lost_sel
      sample_profile_def)

lemma sample_recovery_inv: "doc_inv sample_recovery"
  unfolding doc_inv_def maps_ok_def
  by (auto simp: sample_recovery_def sample_document_def sample_lost_sel sample_uncertain_sel om_ok_def
      live_ok_def owns_def sample_profile_def split: if_splits)

text \<open>Nothing in the sample is finished, so retention has nothing to compact.\<close>

lemma sample_recovery_retention:
  assumes "invocations s = [(''i1'', i)]" "i_state i = Uncertain" "is_workspace i" "demands s = [x]"
  shows "retention sample_env sample_limits s = Inr s"
  using assms
  by (simp add: retention_def compact_terminal_requests_def terminal_call_def
      compact_terminal_payloads_def terminal_entries_def waiting_def om_vals_def
      active_payload_capacity_def sample_limits_def sat_add_def u64_max_def
      COMPLETION_HEADROOM_BYTES_def API_REQUEST_BODY_BYTES_def)

lemma sample_recovery_steps:
  "recovery_fence sample_recovery sample_lost = Inr ()"
  "workspace_parent sample_recovery sample_lost_candidate = Inr sample_uncertain"
  "scope_closed_or_expired sample_env sample_recovery ''i1''"
  "scoped_child_summaries sample_recovery sample_lost sample_uncertain = []"
  "fold (\<lambda>k. upd_call k g) (map i_id (filter (\<lambda>i. scoped_to_parent sample_recovery i ''i1'' \<and>
     i_state i = Running \<and> child_confined sample_recovery sample_lost sample_uncertain i)
       (om_vals (invocations sample_recovery)))) sample_recovery = sample_recovery"
  "retention sample_env sample_limits sample_recovery = Inr sample_recovery"
proof -
  show "recovery_fence sample_recovery sample_lost = Inr ()"
    by (simp add: recovery_fence_eq sample_recovery_sel sample_lost_sel)
  show "workspace_parent sample_recovery sample_lost_candidate = Inr sample_uncertain"
    by (simp add: workspace_parent_eq sample_recovery_sel sample_lost_sel sample_uncertain_sel
        sample_lost_candidate_def)
  show "scope_closed_or_expired sample_env sample_recovery ''i1''"
    by (simp add: scope_closed_or_expired_def sample_recovery_def om_vals_def)
  have "\<not> scoped_to_parent sample_recovery sample_uncertain k" for k
    by (simp add: scoped_to_parent_def scope_of_def sample_uncertain_sel)
  then show "scoped_child_summaries sample_recovery sample_lost sample_uncertain = []"
    "fold (\<lambda>k. upd_call k g) (map i_id (filter (\<lambda>i. scoped_to_parent sample_recovery i ''i1'' \<and>
     i_state i = Running \<and> child_confined sample_recovery sample_lost sample_uncertain i)
       (om_vals (invocations sample_recovery)))) sample_recovery = sample_recovery"
    by (simp_all add: scoped_child_summaries_def sample_recovery_sel)
  show "retention sample_env sample_limits sample_recovery = Inr sample_recovery"
    by (rule sample_recovery_retention[of _ sample_uncertain "(''d1'', sample_lost)"])
      (simp_all add: sample_recovery_def sample_uncertain_sel)
qed

lemma sample_analysis:
  "\<exists>a. analyze sample_env sample_workspace_config sample_fs
     (hydrate_invocation sample_env (\<lambda>_. Inl ''q'') (\<lambda>_. Inl ''v'') files) sample_lost_candidate
     sample_recovery sample_recovery (\<lambda>x. x) = Inr (a, sample_recovery)"
proof -
  have h: "hydrate_invocation sample_env (\<lambda>_. Inl ''q'') (\<lambda>_. Inl ''v'') files sample_uncertain
      = Inr sample_uncertain"
    by (simp add: hydrate_invocation_def sample_uncertain_sel)
  have r: "read_packet sample_fs sample_workspace_config ''/s/state/changes/p'' =
      Inr (''/s/state/changes/p'', JObject [(''status'', JString ''failed'')])"
    by (simp add: read_packet_def sample_workspace_config_def is_absolute_def sample_fs_def
        map_error_def canonicalize_existing_directory_def under_directory_def)
  have p: "analyze_packet sample_fs sample_workspace_config sample_uncertain =
      Inr (''/s/state/changes/p'', JObject [(''status'', JString ''failed'')], ''failed'')"
    by (simp add: analyze_packet_def sample_uncertain_sel optional_string_def json_get_def
        json_as_str_def r required_string_def terminal_packet_status_def)
  have l: "c_limits sample_workspace_config = sample_limits"
    by (simp add: sample_workspace_config_def sample_config_def)
  have cd: "cd_demand sample_lost_candidate = sample_lost" "cd_invocation sample_lost_candidate = sample_uncertain"
    by (simp_all add: sample_lost_candidate_def)
  have rc: "reconcile_children sample_env sample_workspace_config sample_lost_candidate ''i1'' sample_recovery
      = Inr ((), sample_recovery)"
    by (simp add: reconcile_children_def cd l sample_recovery_steps sample_recovery_sel
        sample_lost_sel sample_uncertain_sel)
  have ac: "analyze_children sample_lost_candidate sample_recovery = Inr []"
    by (simp add: analyze_children_def cd sample_recovery_steps children_recoverable_def)
  have ap: "analyze_parent sample_env sample_lost_candidate sample_recovery = Inr sample_uncertain"
    by (simp add: analyze_parent_def cd sample_recovery_steps sample_uncertain_sel)
  show ?thesis
    by (simp add: analyze_def ap h p rc ac sample_uncertain_sel)
qed

theorem recorded_analysis_allows_recovery_witness:
  "\<exists>a t d' i. persist sample_env sample_workspace_config sample_lost_candidate a sample_recovery = Inr (True, t) \<and>
     get_demand t ''d1'' = Some d' \<and> get_call t ''i1'' = Some i \<and> allows_recovery sample_env t d' i"
proof -
  obtain a where a: "analyze sample_env sample_workspace_config sample_fs
     (hydrate_invocation sample_env (\<lambda>_. Inl ''q'') (\<lambda>_. Inl ''v'') (\<lambda>_. None)) sample_lost_candidate
     sample_recovery sample_recovery (\<lambda>x. x) = Inr (a, sample_recovery)"
    using sample_analysis by blast
  have cd: "cd_demand sample_lost_candidate = sample_lost" "cd_invocation sample_lost_candidate = sample_uncertain"
    by (simp_all add: sample_lost_candidate_def)
  have l: "c_limits sample_workspace_config = sample_limits"
    by (simp add: sample_workspace_config_def sample_config_def)
  have re: "retention sample_env sample_limits (upd_demand ''d1'' f sample_recovery) =
      Inr (upd_demand ''d1'' f sample_recovery)" for f
    using sample_recovery_retention[of "upd_demand ''d1'' f sample_recovery" sample_uncertain "(''d1'', f sample_lost)"]
    by (simp add: sample_recovery_def sample_uncertain_sel om_upd_def)
  have "\<exists>t. persist sample_env sample_workspace_config sample_lost_candidate a sample_recovery = Inr (True, t)"
    by (simp add: persist_def cd l sample_recovery_steps sample_recovery_sel sample_lost_sel
        sample_uncertain_sel scoped_children_recoverable_def children_recoverable_def re)
  then obtain t where t: "persist sample_env sample_workspace_config sample_lost_candidate a sample_recovery = Inr (True, t)"
    by blast
  show ?thesis
    using recorded_analysis_allows_recovery[OF a t sample_recovery_inv sample_recovery_inv, of sample_lost]
      t by (auto simp: cd sample_lost_sel sample_uncertain_sel sample_recovery_sel)
qed

end
