(* ===== verification/Recovery.thy ===== *)
theory Recovery
  imports Workspace_Recovery
begin

text \<open>
  \<open>recovery.rs\<close>: what becomes of a demand whose backend or calls ended in doubt. Quarantine moves
  the owner of an uncertain call to \<open>RecoveryRequired\<close>; recovery then only stops. It records the
  process it found, proves that nothing runs any more (the probes of the operating system are between the
  transactions), and gives the devices back under a fence that is checked again in the
  last transaction.
\<close>

section \<open>Operations\<close>

definition RETRY_SECONDS :: nat where
  "RETRY_SECONDS = 2"

definition QUEUED_CANCEL_REASON :: string where
  "QUEUED_CANCEL_REASON = ''reservation_recovery_cleanup''"

definition uncertain_owner :: "document \<Rightarrow> demand \<Rightarrow> bool" where
  "uncertain_owner s d \<longleftrightarrow>
     d_state d \<in> {Ready, Preparing, Preempting} \<and> owns s d \<and>
     (\<exists>i \<in> set (om_vals (invocations s)).
        q_reservation_id (i_request i) = d_id d \<and> i_state i = Uncertain)"

definition recovery_pending :: "document \<Rightarrow> bool" where
  "recovery_pending s \<longleftrightarrow> (\<exists>d \<in> set (om_vals (demands s)). uncertain_owner s d)"

definition quarantined :: "demand \<Rightarrow> demand" where
  "quarantined d = d\<lparr>d_state := RecoveryRequired, d_reason := Some ''invocation_outcome_unknown''\<rparr>"

definition quarantine :: "document \<Rightarrow> document" where
  "quarantine s =
     fold (\<lambda>k. upd_demand k quarantined)
       (map d_id (filter (uncertain_owner s) (om_vals (demands s)))) s"

definition shares_device :: "demand \<Rightarrow> demand \<Rightarrow> bool" where
  "shares_device d x \<longleftrightarrow>
     (\<exists>r \<in> set (p_resources (d_profile x)). r \<in> set (p_resources (d_profile d)))"

definition stop_fence :: "document \<Rightarrow> demand \<Rightarrow> unit res" where
  "stop_fence s d =
     res_bind (ok_or (get_demand s (d_id d)) ''missing_transition'') (\<lambda>saved.
     if d_generation saved \<noteq> d_generation d \<or> d_profile_hash saved \<noteq> d_profile_hash d \<or>
        d_process saved \<noteq> d_process d \<or> d_state saved \<noteq> RecoveryRequired \<or> \<not> owns s saved
     then Inl ''recovery_ownership_fence_changed''
     else ensure (\<not> (\<exists>x \<in> set (om_vals (demands s)).
            d_id x \<noteq> d_id d \<and> shares_device d x \<and> (d_process x \<noteq> None \<or> d_effect_started x) \<and>
            d_state x \<in> {Preparing, Ready, Preempting, Releasing, RecoveryRequired}))
          ''recovery_overlapping_effect'')"

definition quiescent :: "env \<Rightarrow> document \<Rightarrow> demand \<Rightarrow> unit res" where
  "quiescent e s d =
     res_bind (stop_fence s d) (\<lambda>_.
       ensure (\<not> (\<exists>i \<in> set (om_vals (invocations s)).
           q_reservation_id (i_request i) = d_id d \<and>
           (i_state i \<in> {Queued, Running} \<or>
            i_state i = Uncertain \<and> is_workspace i \<and> \<not> allows_recovery e s d i)))
         ''recovery_active_or_unproven_workspace_invocation'')"

definition cleanup_call :: "nat \<Rightarrow> string \<Rightarrow> invocation \<Rightarrow> invocation" where
  "cleanup_call t k i =
     (if q_reservation_id (i_request i) = k \<and> i_state i = Queued
      then (cancel t i)\<lparr>i_error := Some QUEUED_CANCEL_REASON\<rparr> else i)"

text \<open>\<open>Recovery::prepare\<close> is the transaction \<open>prepare_recovery\<close> followed by the read
  \<open>prepared\<close>.\<close>

definition prepare_recovery :: "env \<Rightarrow> demand \<Rightarrow> document \<Rightarrow> (unit \<times> document) res" where
  "prepare_recovery e d s =
     res_bind (stop_fence s d) (\<lambda>_.
     res_bind (current s d) (\<lambda>_.
       let s = upd_demand (d_id d) (\<lambda>d. d\<lparr>d_released := True,
                 d_transition_deadline := now e + RETRY_SECONDS\<rparr>) s in
       Inr ((), s\<lparr>invocations := om_mapv (cleanup_call (now e) (d_id d)) (invocations s)\<rparr>)))"

definition prepared :: "env \<Rightarrow> document \<Rightarrow> demand \<Rightarrow> demand res" where
  "prepared e s d =
     res_bind (quiescent e s d) (\<lambda>_. ok_or (get_demand s (d_id d)) ''missing_transition'')"

text \<open>The identity of a rediscovered process is durable before any effect on it.\<close>

definition record_cleanup :: "demand \<Rightarrow> process option \<Rightarrow> document \<Rightarrow> (unit \<times> document) res" where
  "record_cleanup d p s =
     res_bind (stop_fence s d) (\<lambda>_.
     res_bind (current s d) (\<lambda>_.
       Inr ((), upd_demand (d_id d) (\<lambda>d. d\<lparr>d_process := p\<rparr>) s)))"

definition START_UNKNOWN_REASONS :: "string set" where
  "START_UNKNOWN_REASONS =
     {''start_outcome_unknown'', ''interrupted_start_requires_owned_process_reconciliation''}"

definition historical_outcome_of :: "demand \<Rightarrow> historical_outcome" where
  "historical_outcome_of d =
     (if is_some_and (d_reason d) (\<lambda>r. r \<in> START_UNKNOWN_REASONS)
      then StartOutcomeUnknown else RecoveryOutcomeUnknown)"

definition recovered_state :: "nat \<Rightarrow> demand \<Rightarrow> demand_state" where
  "recovered_state t d =
     (if d_preempted_by d \<noteq> None then Preempted
      else if d_reservation_closed d = Some Cancelled \<or> d_reason d = Some ''cancelled'' then Cancelled
      else if d_deadline d \<le> t \<or> d_reason d = Some IDLE_TIMEOUT then Expired
      else Released)"

definition absence_proven :: absence_checks where
  "absence_proven = \<lparr>ac_reservation_inactive = True, ac_active_invocations_absent = True,
     ac_recorded_process_absent = True, ac_systemd_activation_absent = True,
     ac_gpu_allocation_absent = True, ac_media_session_absent = True,
     ac_lifecycle_transition_absent = True, ac_ownership_fence_intact = True\<rparr>"

definition recovered :: "nat \<Rightarrow> process option \<Rightarrow> demand \<Rightarrow> demand" where
  "recovered t p d =
     d\<lparr>d_recovery_reconciliation := Some
         \<lparr>rr_historical_outcome = historical_outcome_of d, rr_current_effect = ProvenAbsent,
          rr_reconciled_at = t, rr_checks = absence_proven, rr_cleanup_process = p\<rparr>,
       d_process := None, d_effect_started := False, d_recovery_error := None,
       d_state := recovered_state t d\<rparr>"

definition finish_recovery ::
  "env \<Rightarrow> demand \<Rightarrow> process option \<Rightarrow> document \<Rightarrow> (unit \<times> document) res" where
  "finish_recovery e d p s =
     res_bind (quiescent e s d) (\<lambda>_.
     res_bind (current s d) (\<lambda>_.
       Inr ((), drop_claims_of (d_id d) (upd_demand (d_id d) (recovered (now e) p) s))))"

section \<open>The invariant is kept\<close>

lemma quarantined_step:
  "get_demand s k = Some d \<Longrightarrow> doc_inv s \<Longrightarrow> demand_step s d (quarantined d)"
  by (auto simp: demand_step_def quarantined_def live_ok_def)

lemma quarantine_get:
  "doc_inv s \<Longrightarrow> get_demand (quarantine s) k =
     map_option (\<lambda>d. if uncertain_owner s d then quarantined d else d) (get_demand s k)"
  unfolding quarantine_def by (rule update_selected_get)

lemma quarantine_sel [simp]:
  "invocations (quarantine s) = invocations s" "claims (quarantine s) = claims s"
  "workspace_scopes (quarantine s) = workspace_scopes s"
  by (simp_all add: quarantine_def fold_upd_demand_sel)

lemma quarantine_kept: "doc_inv s \<Longrightarrow> claims_kept s (quarantine s)"
  unfolding quarantine_def by (rule update_selected_kept) (auto intro: quarantined_step)

lemma stop_fence_eq:
  "stop_fence s d = Inr u \<longleftrightarrow>
     (\<exists>saved. get_demand s (d_id d) = Some saved \<and> d_generation saved = d_generation d \<and>
        d_profile_hash saved = d_profile_hash d \<and> d_process saved = d_process d \<and>
        d_state saved = RecoveryRequired \<and> owns s saved) \<and>
     \<not> (\<exists>x \<in> set (om_vals (demands s)).
          d_id x \<noteq> d_id d \<and> shares_device d x \<and> (d_process x \<noteq> None \<or> d_effect_started x) \<and>
          d_state x \<in> holding)"
  by (auto simp: stop_fence_def res_simps holding_def)

lemma cleanup_call_sel [simp]:
  "i_id (cleanup_call t k i) = i_id i" "i_request (cleanup_call t k i) = i_request i"
  by (simp_all add: cleanup_call_def)

lemma cleanup_call_state:
  "i_state (cleanup_call t k i) =
     (if q_reservation_id (i_request i) = k \<and> i_state i = Queued then CancelledCall else i_state i)"
  by (simp add: cleanup_call_def cancel_state)

lemma prepare_recovery_inv:
  assumes "prepare_recovery e d s = Inr (u, t)" and "doc_inv s"
  shows "doc_inv t"
proof -
  let ?s = "upd_demand (d_id d) (\<lambda>d. d\<lparr>d_released := True,
      d_transition_deadline := now e + RETRY_SECONDS\<rparr>) s"
  have i: "doc_inv ?s" by (rule upd_demand_same_inv[OF assms(2)]) simp
  have "t = ?s\<lparr>invocations := om_mapv (cleanup_call (now e) (d_id d)) (invocations ?s)\<rparr>"
    using assms(1) by (auto simp: prepare_recovery_def Let_def res_simps)
  then show ?thesis
    using demands_kept_doc_inv[OF i demands_kept_map_calls[OF i]] by simp
qed

lemma record_cleanup_inv:
  assumes "record_cleanup d p s = Inr (u, t)" and "doc_inv s"
  shows "doc_inv t"
proof -
  obtain saved where g: "get_demand s (d_id d) = Some saved" "d_state saved = RecoveryRequired"
    using assms(1) by (auto simp: record_cleanup_def res_simps stop_fence_eq)
  have t: "t = upd_demand (d_id d) (\<lambda>d. d\<lparr>d_process := p\<rparr>) s"
    using assms(1) by (auto simp: record_cleanup_def res_simps)
  have "demand_step s x (x\<lparr>d_process := p\<rparr>)" if "get_demand s (d_id d) = Some x" for x
    using that g by (simp add: demand_step_def live_ok_def)
  then show ?thesis
    unfolding t using claims_kept_doc_inv[OF assms(2) claims_kept_upd_demand[OF assms(2)]] by blast
qed

lemma recovered_state_terminal: "recovered_state t d \<in> {Preempted, Cancelled, Expired, Released}"
  by (simp add: recovered_state_def)

lemma recovered_sel [simp]:
  "d_id (recovered t p d) = d_id d" "d_profile (recovered t p d) = d_profile d"
  "d_state (recovered t p d) = recovered_state t d" "\<not> d_effect_started (recovered t p d)"
  "d_process (recovered t p d) = None" "d_generation (recovered t p d) = d_generation d"
  by (simp_all add: recovered_def)

lemma recovered_live: "live_ok (recovered t p d)"
  using recovered_state_terminal[of t d] by (auto simp: live_ok_def)

lemma finish_recovery_inv:
  assumes "finish_recovery e d p s = Inr (u, t)" and "doc_inv s"
  shows "doc_inv t"
proof -
  have "t = drop_claims_of (d_id d) (upd_demand (d_id d) (recovered (now e) p) s)"
    using assms(1) by (auto simp: finish_recovery_def res_simps)
  then show ?thesis using doc_inv_drop[OF assms(2)] recovered_live by simp
qed

interpretation prepare_recovery: authority_op doc_inv "\<lambda>_. True" "prepare_recovery e d" for e d
  by unfold_locales (rule prepare_recovery_inv)

interpretation record_cleanup: authority_op doc_inv "\<lambda>_. True" "record_cleanup d p" for d p
  by unfold_locales (rule record_cleanup_inv)

interpretation finish_recovery: authority_op doc_inv "\<lambda>_. True" "finish_recovery e d p" for e d p
  by unfold_locales (rule finish_recovery_inv)

section \<open>Properties\<close>

text \<open>The calls of a demand, as the invariant lets them be read.\<close>

lemma uncertain_owner_iff:
  assumes "doc_inv s" and "get_demand s k = Some d"
  shows "uncertain_owner s d \<longleftrightarrow> d_state d \<in> {Ready, Preparing, Preempting} \<and> owns s d \<and>
    (\<exists>j i. get_call s j = Some i \<and> q_reservation_id (i_request i) = k \<and> i_state i = Uncertain)"
proof -
  have "om_ok (invocations s)" using assms(1) by (simp add: doc_inv_def maps_ok_def)
  then have "(\<exists>i \<in> set (om_vals (invocations s)). P i) \<longleftrightarrow> (\<exists>j i. get_call s j = Some i \<and> P i)" for P
    by (auto simp: Bex_def in_om_vals_iff)
  then show ?thesis using doc_inv_id[OF assms] by (simp add: uncertain_owner_def)
qed

text \<open>C12: doubt is quarantined. \<open>quarantine\<close> moves to \<open>RecoveryRequired\<close>, for the reason of an unknown outcome, exactly the
  demands that serve, prepare or drain (\<open>Ready\<close>, \<open>Preparing\<close>, \<open>Preempting\<close>) while they own their devices and have a
  call of unknown outcome. Nothing else of them changes, and nothing of any other demand, claim or call. So no
  demand that serves, prepares or drains while owning its devices has such a call afterwards.\<close>

theorem quarantine_isolates:
  assumes "doc_inv s"
  shows "claims (quarantine s) = claims s \<and> invocations (quarantine s) = invocations s \<and>
    (\<forall>k. get_demand s k = None \<longrightarrow> get_demand (quarantine s) k = None) \<and>
    (\<forall>k d. get_demand s k = Some d \<longrightarrow> get_demand (quarantine s) k = Some
       (if d_state d \<in> {Ready, Preparing, Preempting} \<and> owns s d \<and>
           (\<exists>j i. get_call s j = Some i \<and> q_reservation_id (i_request i) = k \<and> i_state i = Uncertain)
        then d\<lparr>d_state := RecoveryRequired, d_reason := Some ''invocation_outcome_unknown''\<rparr> else d)) \<and>
    (\<forall>k x j i. get_demand (quarantine s) k = Some x \<and> d_state x \<in> {Ready, Preparing, Preempting} \<and>
       owns (quarantine s) x \<and> get_call (quarantine s) j = Some i \<and> q_reservation_id (i_request i) = k \<longrightarrow>
       i_state i \<noteq> Uncertain)"
proof -
  have get: "get_demand (quarantine s) k = Some (if d_state d \<in> {Ready, Preparing, Preempting} \<and> owns s d \<and>
           (\<exists>j i. get_call s j = Some i \<and> q_reservation_id (i_request i) = k \<and> i_state i = Uncertain)
        then d\<lparr>d_state := RecoveryRequired, d_reason := Some ''invocation_outcome_unknown''\<rparr> else d)"
    if "get_demand s k = Some d" for k d
  proof -
    have "get_demand (quarantine s) k = Some (if uncertain_owner s d then quarantined d else d)"
      using quarantine_get[OF assms, of k] that by simp
    then show ?thesis unfolding uncertain_owner_iff[OF assms that] quarantined_def .
  qed
  have "i_state i \<noteq> Uncertain"
    if x: "get_demand (quarantine s) k = Some x" "d_state x \<in> {Ready, Preparing, Preempting}" "owns (quarantine s) x"
      and i: "get_call (quarantine s) j = Some i" "q_reservation_id (i_request i) = k" for k x j i
  proof
    assume u: "i_state i = Uncertain"
    obtain d where d: "get_demand s k = Some d"
      using x(1) quarantine_get[OF assms, of k] by (cases "get_demand s k") auto
    have g: "get_call s j = Some i" using i(1) by simp
    show False
      using x get[OF d] g i(2) u by (auto simp: owns_def split: if_splits)
  qed
  moreover have "get_demand (quarantine s) k = None" if "get_demand s k = None" for k
    using that quarantine_get[OF assms, of k] by simp
  moreover have "claims (quarantine s) = claims s \<and> invocations (quarantine s) = invocations s" by simp
  ultimately show ?thesis using get by blast
qed

theorem quarantine_isolates_witness:
  "get_demand (quarantine (sample_recovery\<lparr>demands :=
     [(''d1'', sample_demand ''d1'' Ready Low (sample_profile ''coder'' [''gpu0'']))]\<rparr>)) ''d1'' =
   Some ((sample_demand ''d1'' Ready Low (sample_profile ''coder'' [''gpu0'']))
     \<lparr>d_state := RecoveryRequired, d_reason := Some ''invocation_outcome_unknown''\<rparr>)"
proof -
  let ?d = "sample_demand ''d1'' Ready Low (sample_profile ''coder'' [''gpu0''])"
  let ?s = "sample_recovery\<lparr>demands := [(''d1'', ?d)]\<rparr>"
  have i: "doc_inv ?s"
    unfolding doc_inv_def maps_ok_def
    by (auto simp: sample_recovery_def sample_document_def sample_demand_sel sample_uncertain_sel om_ok_def
        live_ok_def owns_def sample_profile_def split: if_splits)
  have "uncertain_owner ?s ?d"
    by (auto simp: uncertain_owner_def sample_recovery_def sample_document_def sample_demand_sel
        sample_uncertain_sel owns_def sample_profile_def om_vals_def)
  then have "\<exists>j i. get_call ?s j = Some i \<and> q_reservation_id (i_request i) = ''d1'' \<and> i_state i = Uncertain"
      "d_state ?d \<in> {Ready, Preparing, Preempting}" "owns ?s ?d"
    using uncertain_owner_iff[OF i, of "''d1''" ?d] by auto
  moreover have "get_demand ?s ''d1'' = Some ?d" by simp
  ultimately show ?thesis using quarantine_isolates[OF i] by (elim conjE) simp
qed

text \<open>C11: recovery gives devices back only under its fence. When the last transaction of a
  recovery succeeds, the demand was still \<open>RecoveryRequired\<close> under the same generation, profile hash
  and process and owned its devices; no other holder of one of them has a process or a started
  effect; none of its calls is queued or running, and each uncertain workspace call is covered by
  recorded evidence. Afterwards exactly its own claims are gone, its state is terminal with no process
  and no effect, its reconciliation records the absence and the process that was cleaned up, and no call and no
  other demand has changed.\<close>

theorem recovery_releases_only_proven:
  assumes "finish_recovery e d p s = Inr (u, t)" and "doc_inv s"
  shows "(\<exists>saved. get_demand s (d_id d) = Some saved \<and> d_state saved = RecoveryRequired \<and>
      d_generation saved = d_generation d \<and> d_profile_hash saved = d_profile_hash d \<and>
      d_process saved = d_process d \<and> owns s saved \<and> get_demand t (d_id d) = Some (recovered (now e) p saved)) \<and>
    (\<exists>x rr. get_demand t (d_id d) = Some x \<and> d_state x \<in> {Preempted, Cancelled, Expired, Released} \<and>
      d_process x = None \<and> \<not> d_effect_started x \<and> d_recovery_reconciliation x = Some rr \<and>
      rr_current_effect rr = ProvenAbsent \<and> rr_cleanup_process rr = p \<and> rr_reconciled_at rr = now e) \<and>
    (\<forall>k x. get_demand s k = Some x \<and> k \<noteq> d_id d \<and> shares_device d x \<and> d_state x \<in> holding \<longrightarrow>
       d_process x = None \<and> \<not> d_effect_started x) \<and>
    (\<forall>j i. get_call s j = Some i \<and> q_reservation_id (i_request i) = d_id d \<longrightarrow>
       i_state i \<notin> {Queued, Running} \<and>
       (i_state i = Uncertain \<and> is_workspace i \<longrightarrow> allows_recovery e s d i)) \<and>
    (\<forall>r k. get_claim t r = Some k \<longleftrightarrow> get_claim s r = Some k \<and> k \<noteq> d_id d) \<and>
    (\<forall>k. k \<noteq> d_id d \<longrightarrow> get_demand t k = get_demand s k) \<and> invocations t = invocations s"
proof -
  have q: "quiescent e s d = Inr ()" and c: "stop_fence s d = Inr ()"
    and t: "t = drop_claims_of (d_id d) (upd_demand (d_id d) (recovered (now e) p) s)"
    using assms(1) by (auto simp: finish_recovery_def quiescent_def res_simps)
  have ok: "om_ok (claims (upd_demand (d_id d) (recovered (now e) p) s))" "om_ok (demands s)"
      "om_ok (invocations s)"
    using assms(2) by (simp_all add: doc_inv_def maps_ok_def)
  have "d_process x = None \<and> \<not> d_effect_started x"
    if "get_demand s k = Some x" "k \<noteq> d_id d" "shares_device d x" "d_state x \<in> holding" for k x
    using c that doc_inv_id[OF assms(2) that(1)] ok(2) by (auto simp: stop_fence_eq in_om_vals_iff)
  moreover have "i_state i \<notin> {Queued, Running} \<and>
      (i_state i = Uncertain \<and> is_workspace i \<longrightarrow> allows_recovery e s d i)"
    if "get_call s j = Some i" "q_reservation_id (i_request i) = d_id d" for j i
    using q that ok(3) by (auto simp: quiescent_def res_simps in_om_vals_iff)
  moreover have "get_claim t r = Some k \<longleftrightarrow> get_claim s r = Some k \<and> k \<noteq> d_id d" for r k
    unfolding t using drop_claims_of_get[OF ok(1)] by simp
  moreover obtain saved where "get_demand s (d_id d) = Some saved \<and> d_state saved = RecoveryRequired \<and>
      d_generation saved = d_generation d \<and> d_profile_hash saved = d_profile_hash d \<and>
      d_process saved = d_process d \<and> owns s saved \<and> get_demand t (d_id d) = Some (recovered (now e) p saved)"
    using c unfolding t by (auto simp: stop_fence_eq)
  moreover have "d_state (recovered (now e) p saved) \<in> {Preempted, Cancelled, Expired, Released} \<and>
      d_process (recovered (now e) p saved) = None \<and> \<not> d_effect_started (recovered (now e) p saved) \<and>
      (\<exists>rr. d_recovery_reconciliation (recovered (now e) p saved) = Some rr \<and>
        rr_current_effect rr = ProvenAbsent \<and> rr_cleanup_process rr = p \<and> rr_reconciled_at rr = now e)"
    using recovered_state_terminal by simp (simp add: recovered_def)
  moreover have "\<forall>k. k \<noteq> d_id d \<longrightarrow> get_demand t k = get_demand s k" "invocations t = invocations s"
    unfolding t by simp_all
  ultimately show ?thesis by blast
qed

theorem recovery_releases_only_proven_witness:
  "\<exists>t. finish_recovery sample_env sample_lost (Some sample_process) (sample_recovery\<lparr>invocations := []\<rparr>)
       = Inr ((), t) \<and>
     get_claim t ''gpu0'' = None \<and> get_demand t ''d1'' = Some (recovered 100 (Some sample_process) sample_lost)"
proof -
  let ?s = "sample_recovery\<lparr>invocations := []\<rparr>"
  have i: "doc_inv ?s"
    using sample_recovery_inv by (auto simp: doc_inv_def maps_ok_def owns_def)
  have g: "get_demand ?s ''d1'' = Some sample_lost" using sample_recovery_sel by simp
  have o: "owns ?s sample_lost" using sample_recovery_sel(5) by (simp add: owns_def)
  have v: "om_vals (demands ?s) = [sample_lost]" using sample_recovery_sel by simp
  have f: "stop_fence ?s sample_lost = Inr ()"
    using g o v by (simp add: stop_fence_eq sample_lost_sel)
  have q: "quiescent sample_env ?s sample_lost = Inr ()"
    by (simp add: quiescent_def f om_vals_def)
  have c: "current ?s sample_lost = Inr sample_lost"
    using g by (simp add: current_eq_Inr sample_lost_sel)
  obtain t where t: "finish_recovery sample_env sample_lost (Some sample_process) ?s = Inr ((), t)"
    using q c by (simp add: finish_recovery_def)
  note r = recovery_releases_only_proven[OF t i]
  have "get_claim ?s ''gpu0'' = Some ''d1''" using sample_recovery_sel(6) by simp
  then have "get_claim t ''gpu0'' = None"
    using r by (cases "get_claim t ''gpu0''") (auto simp: sample_lost_sel)
  then show ?thesis using t r g by (auto simp: sample_lost_sel)
qed

end
