(* ===== verification/Transition.thy ===== *)
theory Transition
  imports Recovery
begin

text \<open>
  \<open>transition.rs\<close> and \<open>retirement.rs\<close>: how the supervisor carries one demand forward. A worker
  takes a snapshot of the demand and runs one procedure on it; between its transactions it probes, starts
  or stops the backend, with the lock free. Every transaction therefore checks the snapshot
  against the document it meets.
\<close>

section \<open>Which procedure runs\<close>

datatype procedure = Recover | Retire | MonitorReady | Prepare | Nothing

definition advance_procedure :: "nat \<Rightarrow> demand \<Rightarrow> procedure" where
  "advance_procedure t d =
     (if d_state d = RecoveryRequired then Recover
      else if \<not> active t d \<or> d_state d = Releasing then Retire
      else if d_state d = Ready then MonitorReady
      else if d_state d \<noteq> Preparing then Nothing
      else Prepare)"

definition boundary :: "nat \<Rightarrow> document \<Rightarrow> demand \<Rightarrow> unit res" where
  "boundary t s d =
     res_bind (ok_or (get_demand s (d_id d)) ''missing_transition'') (\<lambda>saved.
       if d_generation saved \<noteq> d_generation d \<or> d_state saved \<noteq> Preparing \<or> \<not> active t saved
       then Inl ''transition_fence_changed'' else Inr ())"

section \<open>Preparing\<close>

text \<open>What preflight may leave running: the victims and the residents it may adopt.\<close>

definition preflight_scope :: "document \<Rightarrow> demand \<Rightarrow> demand list \<times> process list" where
  "preflight_scope s d =
     (concat (map (\<lambda>k. opt_list (get_demand s k)) (d_victims d)), matching_processes s d)"

datatype preflight_result = PreflightDone | PreflightWait | PreflightError string

definition preflight_outcome :: "nat \<Rightarrow> demand \<Rightarrow> unit res \<Rightarrow> preflight_result" where
  "preflight_outcome t d probe =
     (case probe of
        Inr _ \<Rightarrow> PreflightDone
      | Inl e \<Rightarrow>
          if e = ''legacy_dispatch_still_draining'' \<and> t < d_transition_deadline d
          then PreflightWait else PreflightError e)"

definition preflight_commit :: "env \<Rightarrow> demand \<Rightarrow> document \<Rightarrow> (unit \<times> document) res" where
  "preflight_commit e d s =
     res_bind (current s d) (\<lambda>saved.
     if \<not> active (now e) saved then Inr ((), s)
     else Inr ((), upd_demand (d_id d) (\<lambda>x. x\<lparr>d_preflight_done := True,
            d_transition_deadline := now e + p_startup_seconds (d_profile d)
              + p_drain_seconds (d_profile d) + p_stop_seconds (d_profile d)\<rparr>) s))"

text \<open>\<open>VictimDrain\<close>. A member that is not the root waits until the root's incumbents are out.\<close>

definition root_drained :: "document \<Rightarrow> demand \<Rightarrow> bool res" where
  "root_drained s d =
     (case d_reservation_id d of
        None \<Rightarrow> Inr True
      | Some rt_id \<Rightarrow>
          if rt_id = d_id d then Inr True
          else res_bind (ok_or (get_demand s rt_id) ''missing_reservation_root'') (\<lambda>rt.
            Inr (\<forall>k \<in> set (d_victims rt).
              is_some_and (get_demand s k) (\<lambda>v. d_state v = Preempted))))"

text \<open>One victim: still at work (\<open>None\<close>), or as found.\<close>

definition victim_read :: "nat \<Rightarrow> document \<Rightarrow> string \<Rightarrow> demand option res" where
  "victim_read t s k =
     res_bind (ok_or (get_demand s k) ''missing_victim'') (\<lambda>v.
       if d_state v \<noteq> Preempted \<and> inflight s k then
         (if t \<ge> d_transition_deadline v then Inl ''drain_deadline_invocation_uncertain'' else Inr None)
       else Inr (Some v))"

text \<open>The turn of the loop over the victims that stops one: the first that is not yet
  \<open>Preempted\<close>. Each victim is read on its own, in the document \<open>s k\<close> of that moment.
  \<open>AllDrained\<close> lets the transfer follow.\<close>

datatype drain = AllDrained | DrainWait | StopVictim demand

fun drain_victims :: "nat \<Rightarrow> (string \<Rightarrow> document) \<Rightarrow> string list \<Rightarrow> drain res" where
  "drain_victims t s [] = Inr AllDrained"
| "drain_victims t s (k # ks) =
     res_bind (victim_read t (s k) k) (\<lambda>x.
       case x of
         None \<Rightarrow> Inr DrainWait
       | Some v \<Rightarrow>
           if d_state v = Preempted then drain_victims t s ks
           else if d_state v \<noteq> Preempting then Inl ''victim_transition_changed''
           else Inr (StopVictim v))"

definition displaced :: "demand \<Rightarrow> demand" where
  "displaced v = v\<lparr>d_process := None, d_effect_started := False, d_state := Preempted,
     d_reason := Some ''preempted_by_higher_priority''\<rparr>"

definition victim_commit :: "demand \<Rightarrow> document \<Rightarrow> (unit \<times> document) res" where
  "victim_commit victim s =
     res_bind (ok_or (get_demand s (d_id victim)) ''missing_victim'') (\<lambda>v.
     if d_generation v \<noteq> d_generation victim \<or> d_state v \<noteq> Preempting
     then Inl ''stale_victim_callback''
     else Inr ((), drop_claims_of (d_id victim) (upd_demand (d_id victim) displaced s)))"

definition transfer_commit :: "demand \<Rightarrow> document \<Rightarrow> (unit \<times> document) res" where
  "transfer_commit d s =
     res_bind (ok_or (get_demand s (d_id d)) ''missing_transition'') (\<lambda>candidate.
     if d_generation candidate \<noteq> d_generation d \<or> d_state candidate \<noteq> Preparing
     then Inl ''transition_fence_changed''
     else res_bind (transfer candidate s) (\<lambda>s. Inr ((), s)))"

text \<open>The permission to start is durable before the start.\<close>

definition start_commit :: "env \<Rightarrow> demand \<Rightarrow> document \<Rightarrow> (bool \<times> document) res" where
  "start_commit e d s =
     res_bind (ok_or (get_demand s (d_id d)) ''missing_transition'') (\<lambda>saved.
     if \<not> active (now e) saved \<or> d_state saved \<noteq> Preparing \<or> \<not> owns s saved then Inr (False, s)
     else res_bind (current s d) (\<lambda>_.
       Inr (True, upd_demand (d_id d) (\<lambda>x. x\<lparr>d_effect_started := True\<rparr>) s)))"

definition process_commit :: "demand \<Rightarrow> process \<Rightarrow> document \<Rightarrow> (unit \<times> document) res" where
  "process_commit d p s =
     res_bind (current s d) (\<lambda>_.
       Inr ((), upd_demand (d_id d) (\<lambda>x. x\<lparr>d_process := Some p\<rparr>) s))"

text \<open>\<open>ReadinessCommit\<close>: \<open>p\<close> is the process observed by the media adapter, for a media
  profile. A probe that still fails at the deadline releases the demand with its error.\<close>

definition ready_commit :: "env \<Rightarrow> demand \<Rightarrow> process option \<Rightarrow> document \<Rightarrow> (unit \<times> document) res" where
  "ready_commit e d p s =
     res_bind (current s d) (\<lambda>saved.
     if \<not> active (now e) saved then Inr ((), s)
     else
       (let s = upd_demand (d_id d) (\<lambda>x. x\<lparr>d_ready_checked := True\<rparr>) s;
            s = (case p of None \<Rightarrow> s
                 | Some p \<Rightarrow> upd_demand (d_id d) (\<lambda>x. x\<lparr>d_process := Some p\<rparr>) s) in
        res_bind (commit_ready (now e) d s) (\<lambda>s. Inr ((), s))))"

definition ready_failed :: "demand \<Rightarrow> string \<Rightarrow> document \<Rightarrow> (unit \<times> document) res" where
  "ready_failed d err s =
     res_bind (current s d) (\<lambda>_.
       Inr ((), upd_demand (d_id d) (\<lambda>x. x\<lparr>d_released := True, d_reason := Some err\<rparr>) s))"

section \<open>Watching a ready demand\<close>

text \<open>A media service that restarts goes back to \<open>Preparing\<close>; its observed process is kept.\<close>

definition monitor_restart :: "env \<Rightarrow> demand \<Rightarrow> document \<Rightarrow> (unit \<times> document) res" where
  "monitor_restart e d s =
     res_bind (current s d) (\<lambda>saved.
     if d_state saved = Ready \<and> active (now e) saved
     then Inr ((), upd_demand (d_id d) (\<lambda>x. x\<lparr>d_state := Preparing,
            d_transition_deadline := now e + p_startup_seconds (d_profile d)\<rparr>) s)
     else Inr ((), s))"

definition monitor_process :: "demand \<Rightarrow> process \<Rightarrow> document \<Rightarrow> (unit \<times> document) res" where
  "monitor_process d p s =
     res_bind (current s d) (\<lambda>saved.
     if d_state saved = Ready
     then Inr ((), upd_demand (d_id d) (\<lambda>x. x\<lparr>d_process := Some p\<rparr>) s)
     else Inr ((), s))"

section \<open>Retirement\<close>

definition retire_read :: "document \<Rightarrow> demand \<Rightarrow> bool \<times> bool" where
  "retire_read s d =
     (inflight s (d_id d),
      \<exists>i \<in> set (om_vals (invocations s)).
        q_reservation_id (i_request i) = d_id d \<and> i_state i = Running)"

datatype retirement = KeepDraining | StopOnly | StartUnknown | RetireNow

definition retire_decision :: "nat \<Rightarrow> demand \<Rightarrow> bool \<times> bool \<Rightarrow> retirement" where
  "retire_decision t d ps =
     (case ps of (pend, started) \<Rightarrow>
        if pend \<and> t < d_transition_deadline d then KeepDraining
        else if started then StopOnly
        else if d_effect_started d \<and> d_process d = None then StartUnknown
        else RetireNow)"

definition retire_commit :: "env \<Rightarrow> demand \<Rightarrow> document \<Rightarrow> (unit \<times> document) res" where
  "retire_commit e d s =
     res_bind (current s d) (\<lambda>_.
       Inr ((), drop_claims_of (d_id d) (upd_demand (d_id d) (retired_demand e) s)))"

section \<open>The invariant is kept\<close>

lemma upd_demand_step_inv:
  assumes "doc_inv s" and "\<And>d. get_demand s k = Some d \<Longrightarrow> demand_step s d (f d)"
  shows "doc_inv (upd_demand k f s)"
  by (rule claims_kept_doc_inv[OF assms(1) claims_kept_upd_demand[OF assms]])

lemma preflight_commit_inv: "preflight_commit e d s = Inr (u, t) \<Longrightarrow> doc_inv s \<Longrightarrow> doc_inv t"
  by (auto simp: preflight_commit_def res_simps split: if_splits intro!: upd_demand_same_inv)

lemma displaced_sel [simp]:
  "d_id (displaced v) = d_id v" "d_profile (displaced v) = d_profile v"
  "d_state (displaced v) = Preempted" "\<not> d_effect_started (displaced v)"
  "d_process (displaced v) = None" "d_generation (displaced v) = d_generation v"
  by (simp_all add: displaced_def)

lemma victim_commit_inv: "victim_commit v s = Inr (u, t) \<Longrightarrow> doc_inv s \<Longrightarrow> doc_inv t"
  by (auto simp: victim_commit_def res_simps live_ok_def split: if_splits intro!: doc_inv_drop)

lemma transfer_commit_inv:
  assumes "transfer_commit d s = Inr (u, t)" and "doc_inv s"
  shows "doc_inv t"
proof -
  obtain c where c: "get_demand s (d_id d) = Some c" "d_state c = Preparing" "transfer c s = Inr t"
    using assms(1) by (auto simp: transfer_commit_def res_simps split: if_splits)
  moreover have "d_id c = d_id d" using doc_inv_id[OF assms(2) c(1)] .
  ultimately show ?thesis using transfer_inv[OF c(3) assms(2)] by simp
qed

lemma start_commit_inv:
  assumes "start_commit e d s = Inr (b, t)" and "doc_inv s"
  shows "doc_inv t"
proof (cases b)
  case False
  then show ?thesis using assms by (auto simp: start_commit_def res_simps split: if_splits)
next
  case True
  then obtain saved where g: "get_demand s (d_id d) = Some saved" "d_state saved = Preparing" "owns s saved"
    and t: "t = upd_demand (d_id d) (\<lambda>x. x\<lparr>d_effect_started := True\<rparr>) s"
    using assms(1) by (auto simp: start_commit_def res_simps split: if_splits)
  have "demand_step s saved (saved\<lparr>d_effect_started := True\<rparr>)"
    using g doc_inv_live[OF assms(2) g(1)] by (auto simp: demand_step_def live_ok_def)
  then show ?thesis
    unfolding t using g(1) by (intro upd_demand_step_inv[OF assms(2)]) simp
qed

lemma set_process_step:
  "doc_inv s \<Longrightarrow> get_demand s k = Some d \<Longrightarrow> demand_step s d (d\<lparr>d_process := Some p\<rparr>)"
  using doc_inv_live[of s k d] doc_inv_effect[of s k d] by (auto simp: demand_step_def live_ok_def)

lemma set_process_inv:
  assumes "doc_inv s"
  shows "doc_inv (upd_demand k (\<lambda>x. x\<lparr>d_process := Some p\<rparr>) s)"
  by (rule upd_demand_step_inv[OF assms set_process_step[OF assms]])

lemma process_commit_inv: "process_commit d p s = Inr (u, t) \<Longrightarrow> doc_inv s \<Longrightarrow> doc_inv t"
  by (auto simp: process_commit_def res_simps intro!: set_process_inv)

lemma monitor_process_inv: "monitor_process d p s = Inr (u, t) \<Longrightarrow> doc_inv s \<Longrightarrow> doc_inv t"
  by (auto simp: monitor_process_def res_simps split: if_splits intro!: set_process_inv)

lemma ready_failed_inv: "ready_failed d err s = Inr (u, t) \<Longrightarrow> doc_inv s \<Longrightarrow> doc_inv t"
  by (auto simp: ready_failed_def res_simps intro!: upd_demand_same_inv)

lemma monitor_restart_inv:
  assumes "monitor_restart e d s = Inr (u, t)" and "doc_inv s"
  shows "doc_inv t"
proof -
  have "demand_step s x (x\<lparr>d_state := Preparing, d_transition_deadline := n\<rparr>)"
    if "get_demand s k = Some x" "d_state x = Ready" for k x n
    using doc_inv_live[OF assms(2) that(1)] doc_inv_effect[OF assms(2) that(1)] that(2)
    by (auto simp: demand_step_def live_ok_def)
  then show ?thesis
    using assms by (auto simp: monitor_restart_def res_simps split: if_splits
        intro!: upd_demand_step_inv[OF assms(2)])
qed

text \<open>Readiness is committed for a demand whose backend was started and recorded, if it is
  still being prepared.\<close>

definition prepared_window :: "demand \<Rightarrow> document \<Rightarrow> bool" where
  "prepared_window d s \<longleftrightarrow>
     (\<forall>x. get_demand s (d_id d) = Some x \<and> d_state x = Preparing \<longrightarrow>
        d_effect_started x \<and> d_process x \<noteq> None)"

lemma mark_checked_inv:
  assumes "doc_inv s" and "prepared_window d s"
  shows "doc_inv (upd_demand (d_id d) (\<lambda>x. x\<lparr>d_ready_checked := True\<rparr>) s)"
proof -
  have "demand_step s x (x\<lparr>d_ready_checked := True\<rparr>)" if "get_demand s (d_id d) = Some x" for x
    using assms(2) that doc_inv_live[OF assms(1) that] doc_inv_effect[OF assms(1) that]
    by (auto simp: demand_step_def live_ok_def prepared_window_def)
  then show ?thesis
    by (rule upd_demand_step_inv[OF assms(1)])
qed

lemma ready_commit_inv:
  assumes "ready_commit e d p s = Inr (u, t)" and "doc_inv s" and "prepared_window d s"
  shows "doc_inv t"
proof (cases "t = s")
  case False
  then show ?thesis
    using assms(1) mark_checked_inv[OF assms(2,3)]
    by (auto simp: ready_commit_def Let_def res_simps set_process_inv
        split: if_splits option.splits dest!: commit_ready_inv)
qed (simp add: assms(2))

lemma retire_commit_inv: "retire_commit e d s = Inr (u, t) \<Longrightarrow> doc_inv s \<Longrightarrow> doc_inv t"
  by (auto simp: retire_commit_def res_simps intro: retire_inv)

interpretation preflight_commit: authority_op doc_inv "\<lambda>_. True" "preflight_commit e d" for e d
  by unfold_locales (rule preflight_commit_inv)

interpretation victim_commit: authority_op doc_inv "\<lambda>_. True" "victim_commit v" for v
  by unfold_locales (rule victim_commit_inv)

interpretation transfer_commit: authority_op doc_inv "\<lambda>_. True" "transfer_commit d" for d
  by unfold_locales (rule transfer_commit_inv)

interpretation start_commit: authority_op doc_inv "\<lambda>_. True" "start_commit e d" for e d
  by unfold_locales (rule start_commit_inv)

interpretation process_commit: authority_op doc_inv "\<lambda>_. True" "process_commit d p" for d p
  by unfold_locales (rule process_commit_inv)

interpretation ready_commit: authority_op doc_inv "prepared_window d" "ready_commit e d p" for e d p
  by unfold_locales (rule ready_commit_inv)

interpretation retire_commit: authority_op doc_inv "\<lambda>_. True" "retire_commit e d" for e d
  by unfold_locales (rule retire_commit_inv)

section \<open>Properties\<close>

text \<open>C4: a backend starts only with exclusive, durable ownership. When the start transaction
  grants permission, the demand as stored is active, \<open>Preparing\<close>, of the snapshot's generation
  and the claimed owner of every device of its profile; its effect is recorded before the start, and
  no other demand with a started effect shares one of its devices.\<close>

theorem start_requires_ownership:
  assumes "start_commit e d s = Inr (True, t)" and "doc_inv s"
  shows "\<exists>saved. get_demand s (d_id d) = Some saved \<and> active (now e) saved \<and>
    d_state saved = Preparing \<and> d_generation saved = d_generation d \<and>
    (\<forall>r \<in> set (p_resources (d_profile saved)). get_claim t r = Some (d_id d)) \<and>
    get_demand t (d_id d) = Some (saved\<lparr>d_effect_started := True\<rparr>) \<and>
    (\<forall>k x. get_demand t k = Some x \<and> k \<noteq> d_id d \<and> d_effect_started x \<longrightarrow>
       set (p_resources (d_profile x)) \<inter> set (p_resources (d_profile saved)) = {})"
proof -
  obtain saved where g: "get_demand s (d_id d) = Some saved" "d_state saved = Preparing" "owns s saved"
      "active (now e) saved" "d_generation saved = d_generation d"
    and t: "t = upd_demand (d_id d) (\<lambda>x. x\<lparr>d_effect_started := True\<rparr>) s"
    using assms(1) by (auto simp: start_commit_def res_simps split: if_splits)
  have i: "doc_inv t" by (rule start_commit_inv[OF assms])
  have own: "get_demand t (d_id d) = Some (saved\<lparr>d_effect_started := True\<rparr>)" using g(1) by (simp add: t)
  have "set (p_resources (d_profile x)) \<inter> set (p_resources (d_profile saved)) = {}"
    if "get_demand t k = Some x" "k \<noteq> d_id d" "d_effect_started x" for k x
    using doc_inv_exclusive[OF i that(1) own that(2,3)] by simp
  moreover have "get_claim t r = Some (d_id d)" if "r \<in> set (p_resources (d_profile saved))" for r
    using owns_claim[OF g(3) that] doc_inv_id[OF assms(2) g(1)] by (simp add: t)
  ultimately show ?thesis using g own by auto
qed

definition sample_starting :: document where
  "sample_starting = sample_document\<lparr>demands := [(''d1'',
     (sample_demand ''d1'' Preparing Low (sample_profile ''coder'' [''gpu0'']))
       \<lparr>d_process := None, d_effect_started := False, d_ready_checked := False\<rparr>)]\<rparr>"

lemma sample_starting_inv: "doc_inv sample_starting"
  unfolding doc_inv_def maps_ok_def
  by (auto simp: sample_starting_def sample_document_def sample_demand_sel om_ok_def sample_call_def
      live_ok_def owns_def sample_profile_def split: if_splits)

theorem start_requires_ownership_witness:
  "\<exists>t. start_commit sample_env (sample_demand ''d1'' Preparing Low (sample_profile ''coder'' [''gpu0'']))
     sample_starting = Inr (True, t) \<and> get_claim t ''gpu0'' = Some ''d1''"
proof -
  define d where "d = (sample_demand ''d1'' Preparing Low (sample_profile ''coder'' [''gpu0'']))
       \<lparr>d_process := None, d_effect_started := False, d_ready_checked := False\<rparr>"
  let ?d = "sample_demand ''d1'' Preparing Low (sample_profile ''coder'' [''gpu0''])"
  have g: "get_demand sample_starting ''d1'' = Some d" by (simp add: sample_starting_def d_def)
  have f: "active 100 d" "d_state d = Preparing" "d_generation d = d_generation ?d" "d_id ?d = ''d1''"
      "d_profile d = sample_profile ''coder'' [''gpu0'']" "d_id d = ''d1''"
    by (simp_all add: d_def active_def sample_demand_sel)
  have o: "owns sample_starting d"
    by (simp add: owns_def f sample_starting_def sample_document_def sample_profile_def)
  obtain t where t: "start_commit sample_env ?d sample_starting = Inr (True, t)"
    using g f o by (simp add: start_commit_def current_def)
  show ?thesis
    using start_requires_ownership[OF t sample_starting_inv] t g f by (auto simp: sample_profile_def)
qed

text \<open>C30: preemption drains before it stops. The drain loop names a victim to stop only when that
  victim is \<open>Preempting\<close>, none of its backend calls is in flight, and every victim before it is
  already out; it reports all drained only when every victim is \<open>Preempted\<close>.\<close>

theorem drain_stops_only_idle:
  assumes "drain_victims t s ks = Inr r"
  shows "case r of
      AllDrained \<Rightarrow> \<forall>k \<in> set ks. \<exists>v. get_demand (s k) k = Some v \<and> d_state v = Preempted
    | StopVictim v \<Rightarrow> \<exists>pre k post. ks = pre @ k # post \<and> get_demand (s k) k = Some v \<and>
        d_state v = Preempting \<and> \<not> inflight (s k) k \<and>
        (\<forall>j \<in> set pre. \<exists>w. get_demand (s j) j = Some w \<and> d_state w = Preempted)
    | DrainWait \<Rightarrow> \<exists>k \<in> set ks. \<exists>v. get_demand (s k) k = Some v \<and> d_state v \<noteq> Preempted \<and>
        inflight (s k) k \<and> t < d_transition_deadline v"
  using assms
proof (induction ks)
  case Nil
  then show ?case by auto
next
  case (Cons k ks)
  obtain x where x: "victim_read t (s k) k = Inr x" using Cons.prems by (auto simp: res_simps)
  obtain v where v: "get_demand (s k) k = Some v" using x by (auto simp: victim_read_def res_simps)
  show ?case
  proof (cases x)
    case None
    then show ?thesis using Cons.prems x v by (auto simp: victim_read_def split: if_splits)
  next
    case (Some w)
    then have w: "w = v" "d_state v = Preempted \<or> \<not> inflight (s k) k"
      using x v by (auto simp: victim_read_def split: if_splits)
    show ?thesis
    proof (cases "d_state v = Preempted")
      case False
      then have "r = StopVictim v" "d_state v = Preempting"
        using Cons.prems x Some w by (auto split: if_splits)
      moreover have "k # ks = [] @ k # ks" by simp
      ultimately show ?thesis using v w False by (auto intro: exI[of _ "[]"])
    next
      case True
      then have r: "drain_victims t s ks = Inr r" using Cons.prems x Some w by simp
      show ?thesis
      proof (cases r)
        case AllDrained
        then show ?thesis using Cons.IH[OF r] v True by auto
      next
        case DrainWait
        then show ?thesis using Cons.IH[OF r] by auto
      next
        case (StopVictim u)
        then obtain pre j post where p: "ks = pre @ j # post" "get_demand (s j) j = Some u"
            "d_state u = Preempting" "\<not> inflight (s j) j"
            "\<forall>j \<in> set pre. \<exists>w. get_demand (s j) j = Some w \<and> d_state w = Preempted"
          using Cons.IH[OF r] by auto
        then have "k # ks = (k # pre) @ j # post" by simp
        then show ?thesis using p v True StopVictim by (auto intro!: exI[of _ "k # pre"])
      qed
    qed
  qed
qed

theorem drain_stops_only_idle_witness:
  "\<exists>v. drain_victims 100 (\<lambda>_. sample_document\<lparr>demands :=
       [(''d1'', sample_demand ''d1'' Preempting Low (sample_profile ''coder'' [''gpu0'']))]\<rparr>) [''d1'']
     = Inr (StopVictim v) \<and> d_state v = Preempting"
proof -
  let ?s = "sample_document\<lparr>demands :=
       [(''d1'', sample_demand ''d1'' Preempting Low (sample_profile ''coder'' [''gpu0'']))]\<rparr>"
  have "\<not> inflight ?s ''d1''"
    by (simp add: inflight_def sample_document_def om_vals_def sample_call_def)
  then have r: "\<exists>v. drain_victims 100 (\<lambda>_. ?s) [''d1''] = Inr (StopVictim v)"
    by (simp add: victim_read_def sample_demand_sel)
  then obtain v where v: "drain_victims 100 (\<lambda>_. ?s) [''d1''] = Inr (StopVictim v)" by blast
  show ?thesis using drain_stops_only_idle[OF v] v by auto
qed

text \<open>A drained device is open until the transfer. Once the last victim of a preemption has
  been stopped and its claims dropped, a newcomer of any priority whose devices were all the
  victim's meets no conflict, so its admission takes them at once; the candidate's transfer can then not succeed.\<close>

theorem drained_device_unprotected:
  assumes "victim_commit v s = Inr (u, t)" and "doc_inv s"
    and "\<forall>r \<in> set (p_resources (d_profile x)). get_claim s r = Some (d_id v)"
    and "shares_device d x" and "d_id x \<noteq> d_id d"
  shows "conflicts t x = [] \<and>
    (\<forall>e site x' t'. fence e site x t = Inr (x', t') \<longrightarrow> (\<nexists>w. transfer d t' = Inr w))"
proof -
  have t: "t = drop_claims_of (d_id v) (upd_demand (d_id v) displaced s)"
    using assms(1) by (auto simp: victim_commit_def res_simps split: if_splits)
  have ok: "om_ok (claims (upd_demand (d_id v) displaced s))"
    using assms(2) by (simp add: doc_inv_def maps_ok_def)
  have free: "get_claim t r = None" if "r \<in> set (p_resources (d_profile x))" for r
    using assms(3) that drop_claims_of_get[OF ok, of "d_id v" r] by (cases "get_claim t r") (auto simp: t)
  have c: "conflicts t x = []"
  proof -
    have "k \<notin> set (conflicts t x)" for k
      unfolding in_conflicts_iff using free by auto
    then show ?thesis by (metis list.set_intros(1) neq_Nil_conv)
  qed
  moreover have "transfer d t' \<noteq> Inr w" if f: "fence e site x t = Inr (x', t')" for e site x' t' w
  proof
    assume tr: "transfer d t' = Inr w"
    obtain r where r: "r \<in> set (p_resources (d_profile x))" "r \<in> set (p_resources (d_profile d))"
      using assms(4) by (auto simp: shares_device_def)
    have "get_claim t' r = Some (d_id x)"
      using fence_result(3)[OF f] c r(1) by (simp add: Let_def)
    then have "\<exists>r \<in> set (p_resources (d_profile d)). is_some_and (get_claim t' r) (\<lambda>owner. owner \<noteq> d_id d)"
      using r(2) assms(5) by (intro bexI[of _ r]) auto
    then show False using tr by (auto simp: transfer_def res_simps)
  qed
  ultimately show ?thesis by blast
qed

definition sample_draining :: document where
  "sample_draining = sample_document\<lparr>
     demands := [(''d1'', sample_demand ''d1'' Preempting Low (sample_profile ''coder'' [''gpu0''])),
                 (''d2'', sample_candidate\<lparr>d_victims := [''d1'']\<rparr>)], invocations := []\<rparr>"

theorem drained_device_unprotected_witness:
  "\<exists>t x' t'. victim_commit (sample_demand ''d1'' Preempting Low (sample_profile ''coder'' [''gpu0'']))
       sample_draining = Inr ((), t) \<and>
     fence sample_env [''n''] ((sample_demand ''d3'' Preparing Low (sample_profile ''coder'' [''gpu0'']))
       \<lparr>d_victims := []\<rparr>) t = Inr (x', t') \<and>
     (\<nexists>w. transfer (sample_candidate\<lparr>d_victims := [''d1'']\<rparr>) t' = Inr w)"
proof -
  define v where "v = sample_demand ''d1'' Preempting Low (sample_profile ''coder'' [''gpu0''])"
  define x where "x = (sample_demand ''d3'' Preparing Low (sample_profile ''coder'' [''gpu0'']))\<lparr>d_victims := []\<rparr>"
  define d where "d = sample_candidate\<lparr>d_victims := [''d1'']\<rparr>"
  note f = sample_demand_sel[of "''d1''" Preempting Low "sample_profile ''coder'' [''gpu0'']", folded v_def]
  have dx: "d_id x = ''d3''" "d_profile x = sample_profile ''coder'' [''gpu0'']" "d_id d = ''d2''"
      "d_profile d = sample_profile ''coder'' [''gpu0'']"
    by (simp_all add: x_def d_def sample_candidate_def sample_demand_sel)
  have g: "get_demand sample_draining ''d1'' = Some v" "claims sample_draining = [(''gpu0'', ''d1'')]"
    by (simp_all add: sample_draining_def v_def sample_document_def)
  have i: "doc_inv sample_draining"
    unfolding doc_inv_def maps_ok_def
    by (auto simp: sample_draining_def sample_document_def f[unfolded v_def] om_ok_def sample_candidate_def
        sample_demand_sel live_ok_def owns_def sample_profile_def split: if_splits)
  obtain t where t: "victim_commit v sample_draining = Inr ((), t)"
    using g by (simp add: victim_commit_def f)
  have all: "\<forall>r \<in> set (p_resources (d_profile x)). get_claim sample_draining r = Some (d_id v)"
    using g by (simp add: dx f sample_profile_def)
  have sh: "shares_device d x" "d_id x \<noteq> d_id d"
    by (simp_all add: shares_device_def dx sample_profile_def)
  have no: "conflicts t x = []"
    using drained_device_unprotected[OF t i all sh] by blast
  have "claims t = []"
    using t g by (auto simp: victim_commit_def f drop_claims_of_def om_retain_def)
  then have "\<exists>x' t'. fence sample_env [''n''] x t = Inr (x', t')"
    by (simp add: fence_def no Let_def supersede_calls_def dx sample_profile_def claim_resource_def
        backend_activation_for_def supported_def)
  then show ?thesis
    using t drained_device_unprotected[OF t i all sh] unfolding v_def x_def d_def by blast
qed

end
