(* ===== verification/Dispatch.thy ===== *)
theory Dispatch
  imports Transition
begin

text \<open>
  \<open>workers.rs\<close> (eligibility) and \<open>dispatch.rs\<close>: a queued call is sent to its backend when the
  reservation is ready and nothing else of it is in flight, first come first served; the answer is
  recorded once, by the callback of that very dispatch. The backend call itself lies between the
  two transactions. The payload files are threaded beside the document, because they keep what a
  refused transaction wrote.
\<close>

section \<open>Who may be dispatched\<close>

definition queued_before :: "invocation \<Rightarrow> invocation \<Rightarrow> bool" where
  "queued_before x i \<longleftrightarrow>
     i_queue_order x < i_queue_order i \<or> i_queue_order x = i_queue_order i \<and> i_id x < i_id i"

definition worker_eligible :: "env \<Rightarrow> document \<Rightarrow> invocation \<Rightarrow> bool" where
  "worker_eligible e s i \<longleftrightarrow>
     (\<not> is_workspace i \<or>
      \<not> (\<exists>x \<in> set (om_vals (invocations s)).
           q_reservation_id (i_request x) = q_reservation_id (i_request i) \<and> is_workspace x \<and>
           i_state x \<in> {Running, Uncertain})) \<and>
     i_state i = Queued \<and>
     \<not> (\<exists>x \<in> set (om_vals (invocations s)).
          q_reservation_id (i_request x) = q_reservation_id (i_request i) \<and>
          i_state x = Queued \<and> queued_before x i) \<and>
     i_waiting_deadline i > now e \<and> permits e s (i_request i) \<and>
     is_some_and (get_demand s (q_reservation_id (i_request i))) (\<lambda>d.
       d_state d = Ready \<and> active (now e) d \<and> owns s d \<and> ready (now e) s d \<and> \<not> inflight s (d_id d))"

text \<open>One dispatch slot stays free for the model calls of a running workspace.\<close>

definition workspace_slot :: "limits \<Rightarrow> document \<Rightarrow> invocation \<Rightarrow> bool" where
  "workspace_slot l s i \<longleftrightarrow>
     \<not> is_workspace i \<or>
     length (filter (\<lambda>x. is_workspace x \<and> i_state x = Running) (om_vals (invocations s)))
       < max_dispatch_workers l - 1"

section \<open>Sending\<close>

definition dispatch_read :: "string \<Rightarrow> document \<Rightarrow> (invocation \<times> demand) res" where
  "dispatch_read k s =
     res_bind (ok_or (get_call s k) ''missing_invocation'') (\<lambda>i.
     res_bind (ok_or (get_demand s (q_reservation_id (i_request i))) ''missing_reservation'') (\<lambda>d.
       Inr (i, d)))"

definition dispatch_ready :: "invocation \<times> demand \<Rightarrow> bool" where
  "dispatch_ready c \<longleftrightarrow> i_state (fst c) = Queued \<and> d_state (snd c) = Ready"

definition started_call :: "env \<Rightarrow> demand \<Rightarrow> invocation \<Rightarrow> invocation" where
  "started_call e d i =
     (let i = (if is_workspace i then i\<lparr>i_scope_access_hash := Some (sha256 e (d_access_key d))\<rparr> else i) in
      i\<lparr>i_state := Running, i_started := Some (now e),
        i_execution_deadline := Some (now e + q_timeout_seconds (i_request i)),
        i_activation := Some (d_generation d)\<rparr>)"

definition dispatch_begin ::
  "env \<Rightarrow> config \<Rightarrow> string \<Rightarrow> demand \<Rightarrow> document \<Rightarrow> ((invocation \<times> demand) option \<times> document) res" where
  "dispatch_begin e c k candidate s =
     (let s = cancel_closed e s in
      res_bind (dispatch_read k s) (\<lambda>(i, d).
      if i_state i \<noteq> Queued then Inr (None, s)
      else if i_waiting_deadline i \<le> now e \<or> \<not> active (now e) d
      then Inr (None, upd_call k (\<lambda>i. i\<lparr>i_state := ExpiredCall, i_completed := Some (now e)\<rparr>) s)
      else if \<not> worker_eligible e s i \<or> \<not> workspace_slot (c_limits c) s i \<or> d_state d \<noteq> Ready \<or>
              \<not> owns s d \<or> inflight s (d_id d) \<or> d_generation d \<noteq> d_generation candidate
      then Inr (None, s)
      else
        res_bind (touch (d_id d) (now e) s) (\<lambda>s.
        res_bind (refresh_retention (c_idle_timeout_seconds c) (now e) s) (\<lambda>s.
          Inr (Some (started_call e d i, d), upd_call k (\<lambda>_. started_call e d i) s)))))"

section \<open>Recording the answer\<close>

definition failure_state :: "string \<Rightarrow> invocation_state" where
  "failure_state err =
     (if err = ''backend_response_oversized'' then Failed
      else if starts_with err ''input_admission_'' then Failed
      else Uncertain)"

definition completion_valid :: "invocation \<Rightarrow> demand \<Rightarrow> json \<Rightarrow> bool" where
  "completion_valid i d v \<longleftrightarrow>
     (is_workspace i \<and> json_get v ''packet_path'' \<noteq> None) \<or>
     (q_payload (i_request i) \<noteq> None \<and> json_get v ''rack_protocol_response'' \<noteq> None) \<or>
     (is_some_and (json_get v ''model'') (\<lambda>m. json_as_str m = Some (p_model (d_profile d))) \<and>
      is_some_and (json_get v ''choices'') (\<lambda>x. is_some_and (json_as_array x) (\<lambda>xs. xs \<noteq> [])) \<and>
      is_some_and (json_get v ''usage'') (\<lambda>u. is_some_and (json_get u ''completion_tokens'') (\<lambda>n.
        is_some_and (json_as_u64 n) (\<lambda>tokens. tokens \<le> q_max_tokens (i_request i)))))"

definition unknown_child :: "document \<Rightarrow> invocation \<Rightarrow> bool" where
  "unknown_child s i \<longleftrightarrow>
     is_workspace i \<and>
     (\<exists>x \<in> set (om_vals (invocations s)).
        scoped_to_parent s x (i_id i) \<and> i_state x \<in> {Running, Uncertain})"

definition completed_call :: "env \<Rightarrow> bool \<Rightarrow> invocation \<Rightarrow> invocation" where
  "completed_call e valid i =
     i\<lparr>i_state := (if valid \<and> i_cancellation i \<noteq> None then CancelledCall
                   else if valid then Completed else Uncertain),
       i_error := (if valid then i_error i else Some ''backend_result_identity_or_limits_unproven''),
       i_completed := Some (now e)\<rparr>"

text \<open>The stored call and the files after it, or the error of the store.\<close>

definition record_answer ::
  "env \<Rightarrow> write_fault \<Rightarrow> invocation \<Rightarrow> demand \<Rightarrow> json res \<Rightarrow> invocation \<Rightarrow> files
     \<Rightarrow> invocation res \<times> files" where
  "record_answer e wr call d result i fs =
     (case result of
        Inl err \<Rightarrow>
          (Inr (i\<lparr>i_state := failure_state err, i_error := Some (diagnostic err),
                  i_completed := Some (now e)\<rparr>), fs)
      | Inr v \<Rightarrow>
          (case (if i_cancellation i \<noteq> None then store_late_result e wr i v fs
                 else store_result e wr i v fs) of
             (Inl err, fs) \<Rightarrow> (Inl err, fs)
           | (Inr i, fs) \<Rightarrow> (Inr (completed_call e (completion_valid call d v) i), fs)))"

definition finalize ::
  "env \<Rightarrow> config \<Rightarrow> string \<Rightarrow> bool \<Rightarrow> document \<Rightarrow> document res" where
  "finalize e c k uncertain s =
     res_bind (if uncertain then Inr s
               else res_bind (touch k (now e) s)
                      (refresh_retention (c_idle_timeout_seconds c) (now e))) (\<lambda>s.
       retention e (c_limits c) s)"

definition completion_save ::
  "env \<Rightarrow> config \<Rightarrow> write_fault \<Rightarrow> string option \<Rightarrow> invocation \<Rightarrow> demand \<Rightarrow> json res \<Rightarrow> document \<Rightarrow> files
     \<Rightarrow> (unit \<times> document) res \<times> files" where
  "completion_save e c wr fault call d result s fs =
     (let s = cancel_closed e s in
      case get_call s (i_id call) of
        None \<Rightarrow> (Inl ''missing_invocation'', fs)
      | Some i \<Rightarrow>
          if i_state i \<noteq> Running \<or> i_activation i \<noteq> i_activation call
          then (Inl ''late_invocation_callback'', fs)
          else if unknown_child s call then
            (let i = i\<lparr>i_state := Uncertain, i_completed := Some (now e),
                       i_error := Some ''workspace_model_outcome_uncertain''\<rparr> in
             case result of
               Inl _ \<Rightarrow> (Inr ((), upd_call (i_id call) (\<lambda>_. i) s), fs)
             | Inr v \<Rightarrow>
                 (case store_late_result e wr i v fs of
                    (Inl err, fs) \<Rightarrow> (Inl err, fs)
                  | (Inr i, fs) \<Rightarrow> (Inr ((), upd_call (i_id call) (\<lambda>_. i) s), fs)))
          else
            (case record_answer e wr call d result i fs of
               (Inl err, fs) \<Rightarrow> (Inl err, fs)
             | (Inr j, fs) \<Rightarrow>
                 (case finalize e c (d_id d) (i_state j = Uncertain) (upd_call (i_id call) (\<lambda>_. j) s) of
                    Inl err \<Rightarrow>
                      (Inl err, if is_ok result
                        then snd (remove_uncommitted_result_payloads fault j (i_result_ref i)
                               (i_late_result_ref i) fs) else fs)
                  | Inr s \<Rightarrow> (Inr ((), s), fs))))"

section \<open>The invariant is kept\<close>

lemma touch_sel:
  assumes "touch k at s = Inr t"
  shows "invocations t = invocations s" "claims t = claims s" "workspace_scopes t = workspace_scopes s"
  using assms by (auto simp: touch_def split: option.splits)

lemma refresh_retention_sel:
  assumes "refresh_retention n at s = Inr t"
  shows "invocations t = invocations s" "claims t = claims s" "workspace_scopes t = workspace_scopes s"
proof -
  obtain us where "fold_res set_deadline us s = Inr t"
    using assms by (auto simp: refresh_retention_def res_simps)
  then have "invocations t = invocations s \<and> claims t = claims s \<and> workspace_scopes t = workspace_scopes s"
    by (rule fold_res_invariant[where I = "\<lambda>u. invocations u = invocations s \<and> claims u = claims s \<and>
          workspace_scopes u = workspace_scopes s"])
      (auto simp: set_deadline_def split: if_splits)
  then show "invocations t = invocations s" "claims t = claims s" "workspace_scopes t = workspace_scopes s"
    by simp_all
qed

lemma started_call_sel [simp]:
  "i_id (started_call e d i) = i_id i" "i_request (started_call e d i) = i_request i"
  "i_state (started_call e d i) = Running" "is_workspace (started_call e d i) = is_workspace i"
  "i_activation (started_call e d i) = Some (d_generation d)"
  "i_started (started_call e d i) = Some (now e)"
  by (simp_all add: started_call_def Let_def is_workspace_def)

lemma store_result_sel:
  assumes "store_result e wr i v fs = (Inr j, fs')"
  shows "i_id j = i_id i" "i_request j = i_request i" "i_cancellation j = i_cancellation i"
    "i_state j = i_state i" "i_owner j = i_owner i"
  using assms by (auto simp: store_result_def split: prod.splits sum.splits)

lemma store_late_result_sel:
  assumes "store_late_result e wr i v fs = (Inr j, fs')"
  shows "i_id j = i_id i" "i_request j = i_request i" "i_cancellation j = i_cancellation i"
    "i_state j = i_state i" "i_owner j = i_owner i"
  using assms by (auto simp: store_late_result_def split: prod.splits sum.splits)

lemma completed_call_sel [simp]:
  "i_id (completed_call e b i) = i_id i" "i_request (completed_call e b i) = i_request i"
  by (simp_all add: completed_call_def)

lemma record_answer_sel:
  assumes "record_answer e wr call d result i fs = (Inr j, fs')"
  shows "i_id j = i_id i" "i_request j = i_request i"
  using assms store_result_sel store_late_result_sel
  by (fastforce simp: record_answer_def split: sum.splits prod.splits if_splits)+

lemma set_call_kept:
  "doc_inv s \<Longrightarrow> get_call s k = Some i \<Longrightarrow> i_id j = i_id i \<Longrightarrow> demands_kept s (upd_call k (\<lambda>_. j) s)"
  by (auto simp: demands_kept_def doc_inv_def maps_ok_def calls_ok_def upd_call_def)

lemma dispatch_begin_inv:
  assumes "dispatch_begin e c k cand s = Inr (r, t)" and "doc_inv s"
  shows "doc_inv t"
proof -
  define s1 where "s1 = cancel_closed e s"
  have i1: "doc_inv s1"
    unfolding s1_def by (rule demands_kept_doc_inv[OF assms(2) cancel_closed_kept[OF assms(2)]])
  obtain i d where rd: "dispatch_read k s1 = Inr (i, d)"
    using assms(1) by (auto simp: dispatch_begin_def s1_def Let_def res_simps)
  then have g: "get_call s1 k = Some i" by (auto simp: dispatch_read_def res_simps)
  consider "t = s1" | f where "t = upd_call k f s1" "\<And>i. i_id (f i) = i_id i"
    | u w where "touch (d_id d) (now e) s1 = Inr u"
        "refresh_retention (c_idle_timeout_seconds c) (now e) u = Inr w"
        "t = upd_call k (\<lambda>_. started_call e d i) w"
    using assms(1) rd unfolding dispatch_begin_def s1_def[symmetric] Let_def
    by (auto simp: res_simps split: if_splits)
  then show ?thesis
  proof cases
    case 1
    then show ?thesis using i1 by simp
  next
    case 2
    then show ?thesis using demands_kept_doc_inv[OF i1 demands_kept_upd_call[OF i1]] by simp
  next
    case 3
    have "doc_inv u" using touch_kept[OF 3(1) i1] claims_kept_doc_inv[OF i1] by blast
    then have w: "doc_inv w" using refresh_retention_inv[OF 3(2)] by blast
    have "get_call w k = Some i" using g touch_sel[OF 3(1)] refresh_retention_sel[OF 3(2)] by simp
    then show ?thesis using 3(3) demands_kept_doc_inv[OF w set_call_kept[OF w]] by simp
  qed
qed

lemma finalize_inv: "finalize e c k b s = Inr t \<Longrightarrow> doc_inv s \<Longrightarrow> doc_inv t"
  by (auto simp: finalize_def res_simps split: if_splits
      dest: touch_kept claims_kept_doc_inv refresh_retention_inv retention_demands_kept
        demands_kept_doc_inv)

lemma finalize_retention:
  assumes "finalize e c k b s = Inr t"
  shows "\<exists>w. invocations w = invocations s \<and> retention e (c_limits c) w = Inr t"
proof (cases b)
  case True
  then show ?thesis using assms by (auto simp: finalize_def)
next
  case False
  then obtain u w where "touch k (now e) s = Inr u"
      "refresh_retention (c_idle_timeout_seconds c) (now e) u = Inr w" "retention e (c_limits c) w = Inr t"
    using assms by (auto simp: finalize_def res_simps)
  then show ?thesis using touch_sel(1) refresh_retention_sel(1) by metis
qed

text \<open>The ways a completion commits.\<close>

lemma completion_cases:
  assumes "completion_save e c wr fault call d result s fs = (Inr (u, t), fs')"
  obtains (child) i j where "get_call (cancel_closed e s) (i_id call) = Some i" "i_state i = Running"
      "i_activation i = i_activation call" "unknown_child (cancel_closed e s) call"
      "i_state j = Uncertain" "i_id j = i_id i" "i_request j = i_request i"
      "t = upd_call (i_id call) (\<lambda>_. j) (cancel_closed e s)"
  | (answer) i j fs1 where "get_call (cancel_closed e s) (i_id call) = Some i" "i_state i = Running"
      "i_activation i = i_activation call" "\<not> unknown_child (cancel_closed e s) call"
      "record_answer e wr call d result i fs = (Inr j, fs1)"
      "finalize e c (d_id d) (i_state j = Uncertain)
         (upd_call (i_id call) (\<lambda>_. j) (cancel_closed e s)) = Inr t"
proof -
  define s1 where "s1 = cancel_closed e s"
  obtain i where i: "get_call s1 (i_id call) = Some i" "i_state i = Running"
      "i_activation i = i_activation call"
    using assms unfolding completion_save_def s1_def[symmetric] Let_def
    by (auto split: option.splits if_splits)
  show thesis
  proof (cases "unknown_child s1 call")
    case True
    define i' where "i' = i\<lparr>i_state := Uncertain, i_completed := Some (now e),
        i_error := Some ''workspace_model_outcome_uncertain''\<rparr>"
    show thesis
    proof (cases result)
      case (Inl err)
      then have "t = upd_call (i_id call) (\<lambda>_. i') s1"
        using assms i True unfolding completion_save_def s1_def[symmetric] Let_def by (simp add: i'_def)
      then show thesis
        using i True by (intro child[of i i']) (simp_all add: s1_def i'_def)
    next
      case (Inr v)
      then obtain j fs1 where j: "store_late_result e wr i' v fs = (Inr j, fs1)"
          "t = upd_call (i_id call) (\<lambda>_. j) s1"
        using assms i True unfolding completion_save_def s1_def[symmetric] Let_def i'_def
        by (auto split: prod.splits sum.splits)
      then show thesis
        using i True store_late_result_sel[OF j(1)]
        by (intro child[of i j]) (simp_all add: s1_def i'_def)
    qed
  next
    case False
    obtain j fs1 where j: "record_answer e wr call d result i fs = (Inr j, fs1)"
        "finalize e c (d_id d) (i_state j = Uncertain) (upd_call (i_id call) (\<lambda>_. j) s1) = Inr t"
      using assms i False unfolding completion_save_def s1_def[symmetric] Let_def
      by (auto split: prod.splits sum.splits)
    then show thesis using i False by (intro answer[of i j fs1]) (simp_all add: s1_def)
  qed
qed

lemma completion_save_inv:
  assumes "completion_save e c wr fault call d result s fs = (Inr (u, t), fs')" and "doc_inv s"
  shows "doc_inv t"
proof -
  have i1: "doc_inv (cancel_closed e s)"
    by (rule demands_kept_doc_inv[OF assms(2) cancel_closed_kept[OF assms(2)]])
  show ?thesis
  proof (rule completion_cases[OF assms(1)])
    fix i j
    assume "get_call (cancel_closed e s) (i_id call) = Some i" "i_id j = i_id i"
      "t = upd_call (i_id call) (\<lambda>_. j) (cancel_closed e s)"
    then show ?thesis using demands_kept_doc_inv[OF i1 set_call_kept[OF i1]] by simp
  next
    fix i j fs1
    assume g: "get_call (cancel_closed e s) (i_id call) = Some i"
      and "record_answer e wr call d result i fs = (Inr j, fs1)"
      and f: "finalize e c (d_id d) (i_state j = Uncertain)
         (upd_call (i_id call) (\<lambda>_. j) (cancel_closed e s)) = Inr t"
    then have "i_id j = i_id i" using record_answer_sel by blast
    then show ?thesis
      using finalize_inv[OF f] demands_kept_doc_inv[OF i1 set_call_kept[OF i1 g]] by simp
  qed
qed

interpretation dispatch_begin: authority_op doc_inv "\<lambda>_. True" "dispatch_begin e c k cand" for e c k cand
  by unfold_locales (rule dispatch_begin_inv)

interpretation completion_save: authority_op doc_inv "\<lambda>_. True"
  "\<lambda>s. fst (completion_save e c wr fault call d result s fs)" for e c wr fault call d result fs
  by unfold_locales (metis completion_save_inv prod.collapse)

section \<open>Properties\<close>

text \<open>At most one backend call of a reservation is in flight.\<close>

definition flying :: "invocation \<Rightarrow> bool" where
  "flying i \<longleftrightarrow> \<not> is_workspace i \<and> i_state i \<in> {Running, Uncertain}"

definition single_flight :: "document \<Rightarrow> bool" where
  "single_flight s \<longleftrightarrow>
     (\<forall>j k x y. get_call s j = Some x \<and> get_call s k = Some y \<and> flying x \<and> flying y \<and>
        q_reservation_id (i_request x) = q_reservation_id (i_request y) \<longrightarrow> j = k)"

lemma single_flight_mono:
  assumes "single_flight s"
    and "\<And>k y. get_call t k = Some y \<Longrightarrow> flying y \<Longrightarrow> \<exists>x. get_call s k = Some x \<and> flying x \<and>
      q_reservation_id (i_request x) = q_reservation_id (i_request y)"
  shows "single_flight t"
  unfolding single_flight_def using assms unfolding single_flight_def by metis

lemma cancel_closed_flying:
  assumes "doc_inv s" and "get_call (cancel_closed e s) k = Some y" and "flying y"
  shows "\<exists>x. get_call s k = Some x \<and> flying x \<and> i_request y = i_request x"
  using assms(2,3) by (auto simp: cancel_closed_call[OF assms(1)] flying_def cancel_state split: if_splits)

text \<open>What a dispatch that sends a call found.\<close>

lemma dispatch_begin_sent:
  assumes "dispatch_begin e c k cand s = Inr (Some (j, d), t)"
  obtains i u w where "get_call (cancel_closed e s) k = Some i"
    "get_demand (cancel_closed e s) (q_reservation_id (i_request i)) = Some d"
    "worker_eligible e (cancel_closed e s) i" "\<not> inflight (cancel_closed e s) (d_id d)"
    "owns (cancel_closed e s) d" "d_state d = Ready" "active (now e) d" "d_generation d = d_generation cand"
    "touch (d_id d) (now e) (cancel_closed e s) = Inr u"
    "refresh_retention (c_idle_timeout_seconds c) (now e) u = Inr w"
    "j = started_call e d i" "t = upd_call k (\<lambda>_. j) w"
  using assms by (auto simp: dispatch_begin_def Let_def dispatch_read_def res_simps split: if_splits)

lemma cancel_closed_single_flight:
  assumes "doc_inv s" and "single_flight s"
  shows "single_flight (cancel_closed e s)"
proof (rule single_flight_mono[OF assms(2)])
  fix k y
  assume "get_call (cancel_closed e s) k = Some y" "flying y"
  then obtain x where "get_call s k = Some x" "flying x" "i_request y = i_request x"
    using cancel_closed_flying[OF assms(1)] by blast
  then show "\<exists>x. get_call s k = Some x \<and> flying x \<and>
      q_reservation_id (i_request x) = q_reservation_id (i_request y)" by auto
qed

lemma cancel_closed_inflight:
  assumes "doc_inv s" and "inflight s m"
  shows "inflight (cancel_closed e s) m"
proof -
  have "om_ok (invocations s)" using assms(1) by (simp add: doc_inv_def maps_ok_def)
  then obtain n x where x: "get_call s n = Some x" "q_reservation_id (i_request x) = m" "\<not> is_workspace x"
      "i_state x \<in> {Running, Uncertain}"
    using assms(2) by (auto simp: inflight_def in_om_vals_iff)
  define y where "y = (if needs_cancel e s x then cancel (now e) x else x)"
  have "get_call (cancel_closed e s) n = Some y"
    using x(1) by (simp add: cancel_closed_call[OF assms(1)] y_def)
  then have "y \<in> set (om_vals (invocations (cancel_closed e s)))" by (rule in_om_valsI)
  moreover have "q_reservation_id (i_request y) = m" "\<not> is_workspace y" "i_state y \<in> {Running, Uncertain}"
    using x(2-4) by (auto simp: cancel_state y_def)
  ultimately show ?thesis unfolding inflight_def by blast
qed

lemma single_flight_send:
  assumes "single_flight s" and "get_call s k = Some i" and "\<not> inflight s (q_reservation_id (i_request i))"
    and "invocations t = om_upd k (\<lambda>_. j) (invocations s)" and "i_request j = i_request i"
  shows "single_flight t"
proof -
  have no: False if "get_call s p = Some z" "flying z"
      "q_reservation_id (i_request z) = q_reservation_id (i_request i)" for p z
    using assms(3) that in_om_valsI[OF that(1)] by (auto simp: inflight_def flying_def)
  have get: "get_call t p = (if p = k then Some j else get_call s p)" for p
    using assms(2,4) by simp
  show ?thesis
    unfolding single_flight_def
  proof (intro allI impI)
    fix m n x y
    assume a: "get_call t m = Some x \<and> get_call t n = Some y \<and> flying x \<and> flying y \<and>
        q_reservation_id (i_request x) = q_reservation_id (i_request y)"
    show "m = n"
    proof (cases "m = k"; cases "n = k")
      assume m: "m = k" "n \<noteq> k"
      then have "x = j" "get_call s n = Some y" using a get by simp_all
      then show ?thesis using no[of n y] a assms(5) by simp
    next
      assume m: "m \<noteq> k" "n = k"
      then have "y = j" "get_call s m = Some x" using a get by simp_all
      then show ?thesis using no[of m x] a assms(5) by simp
    next
      assume "m \<noteq> k" "n \<noteq> k"
      then have "get_call s m = Some x" "get_call s n = Some y" using a get by simp_all
      then show ?thesis using assms(1) a unfolding single_flight_def by blast
    qed simp
  qed
qed

text \<open>C9: dispatch is exclusive, ordered and fenced. When \<open>dispatch_begin\<close> sends a call, that
  call was queued with its deadline ahead, no call of the same reservation was queued before it,
  none of the reservation's backend calls was in flight, and its demand was \<open>Ready\<close>, active, under
  the generation the probe saw and the owner of its devices; the call is then \<open>Running\<close> under that
  generation. At most one backend call of a reservation is in flight, before and after.\<close>

theorem dispatch_exclusive:
  assumes "dispatch_begin e c k cand s = Inr (r, t)" and "doc_inv s" and "single_flight s"
  shows "single_flight t \<and>
    (\<forall>j d. r = Some (j, d) \<longrightarrow>
      (\<exists>i. get_call (cancel_closed e s) k = Some i \<and> i_state i = Queued \<and>
         i_waiting_deadline i > now e \<and>
         (\<forall>m x. get_call s m = Some x \<and> i_state x = Queued \<and>
            q_reservation_id (i_request x) = q_reservation_id (i_request i) \<and> queued_before x i \<longrightarrow>
            needs_cancel e s x) \<and>
         \<not> inflight s (q_reservation_id (i_request i)) \<and>
         get_demand s (q_reservation_id (i_request i)) = Some d \<and> ready (now e) s d \<and>
         d_generation d = d_generation cand \<and>
         get_call t k = Some j \<and> i_state j = Running \<and> i_activation j = Some (d_generation d)))"
proof -
  let ?s = "cancel_closed e s"
  have i1: "doc_inv ?s" by (rule demands_kept_doc_inv[OF assms(2) cancel_closed_kept[OF assms(2)]])
  have sf1: "single_flight ?s" by (rule cancel_closed_single_flight[OF assms(2,3)])
  show ?thesis
  proof (cases r)
    case None
    have "single_flight (upd_call k (\<lambda>i. i\<lparr>i_state := ExpiredCall, i_completed := Some (now e)\<rparr>) ?s)"
      by (rule single_flight_mono[OF sf1]) (auto simp: flying_def split: if_splits)
    then have "single_flight t"
      using assms(1) None sf1 by (auto simp: dispatch_begin_def Let_def res_simps split: if_splits)
    then show ?thesis using None by simp
  next
    case (Some jd)
    obtain j d where jd: "jd = (j, d)" by (cases jd)
    show ?thesis
    proof (rule dispatch_begin_sent[OF assms(1)[unfolded Some jd]])
      fix i u w
      assume g: "get_call ?s k = Some i" "get_demand ?s (q_reservation_id (i_request i)) = Some d"
        and el: "worker_eligible e ?s i" and nf: "\<not> inflight ?s (d_id d)" and ow: "owns ?s d"
        and st: "d_state d = Ready" "active (now e) d" "d_generation d = d_generation cand"
        and tu: "touch (d_id d) (now e) ?s = Inr u"
        and rw: "refresh_retention (c_idle_timeout_seconds c) (now e) u = Inr w"
        and j: "j = started_call e d i" and t: "t = upd_call k (\<lambda>_. j) w"
      have di: "d_id d = q_reservation_id (i_request i)" using doc_inv_id[OF i1 g(2)] .
      have iw: "invocations w = invocations ?s"
        using touch_sel[OF tu] refresh_retention_sel[OF rw] by simp
      have sf: "single_flight t"
        by (rule single_flight_send[OF sf1 g(1), where j = j]) (use nf di in \<open>simp_all add: t iw j\<close>)
      have first: "needs_cancel e s x"
        if x: "get_call s m = Some x \<and> i_state x = Queued \<and>
          q_reservation_id (i_request x) = q_reservation_id (i_request i) \<and> queued_before x i" for m x
      proof (rule ccontr)
        assume "\<not> needs_cancel e s x"
        then have "get_call ?s m = Some x" using x by (simp add: cancel_closed_call[OF assms(2)])
        then have "x \<in> set (om_vals (invocations ?s))" by (rule in_om_valsI)
        then show False using el x unfolding worker_eligible_def by blast
      qed
      have rdy: "ready (now e) s d" using st ow by (simp add: ready_def owns_def)
      have nfs: "\<not> inflight s (q_reservation_id (i_request i))"
        using cancel_closed_inflight[OF assms(2)] nf di by auto
      have qi: "i_state i = Queued" "i_waiting_deadline i > now e"
        using el by (simp_all add: worker_eligible_def)
      have gd: "get_demand s (q_reservation_id (i_request i)) = Some d" using g(2) by simp
      have gt: "get_call t k = Some j" "i_state j = Running" "i_activation j = Some (d_generation d)"
        using g(1) by (simp_all add: t iw j)
      have "\<exists>i. get_call ?s k = Some i \<and> i_state i = Queued \<and> i_waiting_deadline i > now e \<and>
         (\<forall>m x. get_call s m = Some x \<and> i_state x = Queued \<and>
            q_reservation_id (i_request x) = q_reservation_id (i_request i) \<and> queued_before x i \<longrightarrow>
            needs_cancel e s x) \<and>
         \<not> inflight s (q_reservation_id (i_request i)) \<and>
         get_demand s (q_reservation_id (i_request i)) = Some d \<and> ready (now e) s d \<and>
         d_generation d = d_generation cand \<and>
         get_call t k = Some j \<and> i_state j = Running \<and> i_activation j = Some (d_generation d)"
        using g(1) qi first nfs gd rdy st(3) gt by blast
      then show ?thesis using sf Some jd by simp
    qed
  qed
qed

lemma sample_not_needs_cancel [simp]: "\<not> needs_cancel e s (sample_call k d st)"
  by (simp add: needs_cancel_def permits_def sample_call_def sample_request_def)

lemma sample_eligible:
  "worker_eligible sample_env sample_document (sample_call ''i1'' ''d1'' Queued)"
  "workspace_slot l sample_document (sample_call ''i1'' ''d1'' Queued)"
  "owns sample_document (sample_demand ''d1'' Ready Low (sample_profile ''coder'' [''gpu0'']))"
  "\<not> inflight sample_document ''d1''"
  "om_vals (invocations sample_document) = [sample_call ''i1'' ''d1'' Queued]"
  "get_call sample_document ''i1'' = Some (sample_call ''i1'' ''d1'' Queued)"
  "get_demand sample_document ''d1'' =
     Some (sample_demand ''d1'' Ready Low (sample_profile ''coder'' [''gpu0'']))"
proof -
  define d where "d = sample_demand ''d1'' Ready Low (sample_profile ''coder'' [''gpu0''])"
  define i where "i = sample_call ''i1'' ''d1'' Queued"
  note f = sample_demand_sel[of "''d1''" Ready Low "sample_profile ''coder'' [''gpu0'']", folded d_def]
  show v: "om_vals (invocations sample_document) = [i]"
    by (simp add: sample_document_def om_vals_def i_def)
  have fi: "q_reservation_id (i_request i) = ''d1''" "i_state i = Queued" "i_waiting_deadline i = 400"
      "\<not> is_workspace i" "q_workspace_scope (i_request i) = None"
    by (simp_all add: i_def sample_call_def sample_request_def is_workspace_def)
  show "get_call sample_document ''i1'' = Some i" and g: "get_demand sample_document ''d1'' = Some d"
    by (simp_all add: sample_document_def i_def d_def)
  show o: "owns sample_document d" by (simp add: owns_def f sample_profile_def sample_document_def)
  show nf: "\<not> inflight sample_document ''d1''" by (simp add: inflight_def v fi)
  show "worker_eligible sample_env sample_document i"
    by (simp add: worker_eligible_def v fi g f o nf active_def ready_def permits_def queued_before_def)
  show "workspace_slot l sample_document i" by (simp add: workspace_slot_def fi)
qed

theorem dispatch_exclusive_witness:
  "\<exists>j d t. dispatch_begin sample_env sample_config ''i1''
       (sample_demand ''d1'' Ready Low (sample_profile ''coder'' [''gpu0''])) sample_document
     = Inr (Some (j, d), t) \<and> i_state j = Running \<and> single_flight t"
proof -
  define d where "d = sample_demand ''d1'' Ready Low (sample_profile ''coder'' [''gpu0''])"
  define i where "i = sample_call ''i1'' ''d1'' Queued"
  note f = sample_demand_sel[of "''d1''" Ready Low "sample_profile ''coder'' [''gpu0'']", folded d_def]
  note el = sample_eligible[folded d_def i_def]
  have v: "om_vals (invocations sample_document) = [i]" and o: "owns sample_document d"
    and nf: "\<not> inflight sample_document ''d1''" and g: "get_call sample_document ''i1'' = Some i"
      "get_demand sample_document ''d1'' = Some d"
    using el by blast+
  have fi: "q_reservation_id (i_request i) = ''d1''" "i_state i = Queued" "i_waiting_deadline i = 400"
    by (simp_all add: i_def sample_call_def sample_request_def)
  have c: "cancel_closed sample_env sample_document = sample_document"
    by (simp add: cancel_closed_def v i_def)
  obtain u where u: "touch ''d1'' 100 sample_document = Inr u"
    using g by (simp add: touch_def)
  have "\<forall>x \<in> set (om_vals (demands u)). d_reserve_request x = None"
    using u g by (auto simp: touch_def sample_document_def om_vals_def om_upd_def sample_demand_def)
  then have e: "refresh_retention 300 100 u = Inr u"
    by (simp add: refresh_retention_def extensions_def filter_False)
  have cf: "c_idle_timeout_seconds sample_config = 300" by (simp add: sample_config_def)
  have rd: "dispatch_read ''i1'' sample_document = Inr (i, d)"
    by (simp add: dispatch_read_def g fi)
  have r: "\<exists>t. dispatch_begin sample_env sample_config ''i1'' d sample_document = Inr (Some (started_call sample_env d i, d), t)"
    by (simp add: dispatch_begin_def c rd fi f active_def el u e cf)
  then obtain t where t: "dispatch_begin sample_env sample_config ''i1'' d sample_document
      = Inr (Some (started_call sample_env d i, d), t)" by blast
  have "single_flight sample_document"
    by (simp add: single_flight_def flying_def sample_document_def sample_call_def)
  then have "single_flight t" using dispatch_exclusive[OF t sample_document_inv] by blast
  then show ?thesis using t unfolding d_def by (intro exI conjI) (assumption, simp_all)
qed

text \<open>C10: an answer is recorded once and never beyond what was proven. A completion commits only for
  a call that was still \<open>Running\<close> under the activation it was dispatched with, so a late or second
  callback changes nothing; the call is then finished or \<open>Uncertain\<close>. It is \<open>Completed\<close> only
  if the backend's answer passed the identity and limit checks, no cancellation had been
  requested and, for a workspace, no child of it is still in doubt.\<close>

theorem completion_recorded_once:
  assumes "completion_save e c wr fault call d result s fs = (Inr (u, t), fs')" and "doc_inv s"
  shows "\<exists>i j. get_call (cancel_closed e s) (i_id call) = Some i \<and> i_state i = Running \<and>
    i_activation i = i_activation call \<and> get_call t (i_id call) = Some j \<and>
    i_state j \<in> {Completed, CancelledCall, Failed, Uncertain} \<and>
    (i_state j = Completed \<longrightarrow>
       (\<exists>v. result = Inr v \<and> completion_valid call d v) \<and> i_cancellation i = None \<and>
       \<not> unknown_child (cancel_closed e s) call)"
proof (rule completion_cases[OF assms(1)])
  fix i j
  assume "get_call (cancel_closed e s) (i_id call) = Some i" "i_state i = Running"
    "i_activation i = i_activation call" "i_state j = Uncertain"
    "t = upd_call (i_id call) (\<lambda>_. j) (cancel_closed e s)"
  then show ?thesis by auto
next
  fix i j fs1
  assume g: "get_call (cancel_closed e s) (i_id call) = Some i" "i_state i = Running"
      "i_activation i = i_activation call" "\<not> unknown_child (cancel_closed e s) call"
    and ra: "record_answer e wr call d result i fs = (Inr j, fs1)"
    and fin: "finalize e c (d_id d) (i_state j = Uncertain)
         (upd_call (i_id call) (\<lambda>_. j) (cancel_closed e s)) = Inr t"
  let ?u = "upd_call (i_id call) (\<lambda>_. j) (cancel_closed e s)"
  obtain w where w: "invocations w = invocations ?u" "retention e (c_limits c) w = Inr t"
    using finalize_retention[OF fin] by blast
  have "doc_inv (cancel_closed e s)"
    by (rule demands_kept_doc_inv[OF assms(2) cancel_closed_kept[OF assms(2)]])
  then have "om_ok (invocations w)" using w(1) by (simp add: doc_inv_def maps_ok_def)
  then have "rel_option compacts (get_call w (i_id call)) (get_call t (i_id call))"
    using retention_kept[OF w(2)] calls_compacted_call by blast
  then obtain j' where j': "get_call t (i_id call) = Some j'" "i_state j' = i_state j"
    using g(1) w(1) by (auto simp: option_rel_Some1 compacts_def)
  have "i_state j \<in> {Completed, CancelledCall, Failed, Uncertain}"
    using ra by (auto simp: record_answer_def failure_state_def completed_call_def
        split: sum.splits prod.splits if_splits)
  moreover have "(\<exists>v. result = Inr v \<and> completion_valid call d v) \<and> i_cancellation i = None"
    if "i_state j = Completed"
    using ra that store_result_sel store_late_result_sel
    by (fastforce simp: record_answer_def failure_state_def completed_call_def
        split: sum.splits prod.splits if_splits)
  ultimately show ?thesis using g j' by auto
qed

theorem completion_recorded_once_witness:
  "let call = sample_uncertain\<lparr>i_state := Running, i_activation := Some ''d1g''\<rparr>;
       s = sample_recovery\<lparr>invocations := [(''i1'', call)]\<rparr> in
   \<exists>t fs. completion_save sample_env sample_workspace_config NoFault None call sample_lost
       (Inl ''backend_lost'') s (\<lambda>_. None) = (Inr ((), t), fs) \<and>
     (\<exists>j. get_call t ''i1'' = Some j \<and>
        i_state j \<in> {Completed, CancelledCall, Failed, Uncertain} \<and> i_state j \<noteq> Completed)"
proof -
  define call where "call = sample_uncertain\<lparr>i_state := Running, i_activation := Some ''d1g''\<rparr>"
  define s where "s = sample_recovery\<lparr>invocations := [(''i1'', call)]\<rparr>"
  note f = sample_uncertain_sel
  have cs: "i_id call = ''i1''" "i_state call = Running" "i_activation call = Some ''d1g''"
      "is_workspace call" "i_cancellation call = None"
    by (simp_all add: call_def f is_workspace_def sample_uncertain_def sample_call_def sample_work_def
        work_workspace_def sample_request_def)
  have i: "doc_inv s"
    using sample_recovery_inv
    by (auto simp: s_def doc_inv_def maps_ok_def calls_ok_def om_ok_def live_ok_def owns_def cs)
  have c: "cancel_closed sample_env s = s"
    by (simp add: cancel_closed_def s_def om_vals_def needs_cancel_def permits_def call_def f)
  have u: "\<not> unknown_child s call"
    by (simp add: unknown_child_def s_def om_vals_def scoped_to_parent_def scope_of_def call_def f)
  have l: "c_limits sample_workspace_config = sample_limits"
    by (simp add: sample_workspace_config_def sample_config_def)
  have fs: "failure_state ''backend_lost'' = Uncertain"
    by (simp add: failure_state_def)
  define j where "j = call\<lparr>i_state := Uncertain, i_error := Some (diagnostic ''backend_lost''),
    i_completed := Some 100\<rparr>"
  have ret: "retention sample_env sample_limits (upd_call ''i1'' (\<lambda>_. j) s) = Inr (upd_call ''i1'' (\<lambda>_. j) s)"
    using cs(4) by (intro sample_recovery_retention[where i = j and x = "(''d1'', sample_lost)"])
      (simp_all add: s_def j_def om_upd_def upd_call_def is_workspace_def sample_recovery_def)
  have run: "completion_save sample_env sample_workspace_config NoFault None call sample_lost
       (Inl ''backend_lost'') s (\<lambda>_. None) = (Inr ((), upd_call ''i1'' (\<lambda>_. j) s), \<lambda>_. None)"
  proof -
    have "get_call s ''i1'' = Some call" "i_state j = Uncertain" by (simp_all add: s_def j_def)
    then show ?thesis
      by (simp add: completion_save_def c u cs record_answer_def fs finalize_def l ret j_def[symmetric])
  qed
  have "\<exists>x. get_call (upd_call ''i1'' (\<lambda>_. j) s) ''i1'' = Some x \<and>
      i_state x \<in> {Completed, CancelledCall, Failed, Uncertain} \<and> i_state x \<noteq> Completed"
    using completion_recorded_once[OF run i] by (auto simp: c u cs)
  from conjI[OF run this] show ?thesis
    unfolding call_def s_def Let_def by (intro exI)
qed

end
