(* ===== verification/Supervisor.thy ===== *)
theory Supervisor
  imports Dispatch
begin

text \<open>
  \<open>supervisor.rs\<close>: the pass that runs every tick before any worker is started. \<open>pending_changes\<close>
  is the read-only hint that decides whether the pass is needed; \<open>reconsider_op\<close> is its one
  transaction. \<open>transition_candidates\<close> and \<open>dispatch_candidates\<close> are what a tick then hands
  to its workers, and \<open>record_failure\<close> is what a worker that failed writes down.
\<close>

section \<open>What needs attention\<close>

text \<open>A receipt file of the media backend, by generation: absent, unreadable, or its owner and
  generation.\<close>

type_synonym receipts = "string \<Rightarrow> (string \<times> string) option res"

definition receipt_exists :: "receipts \<Rightarrow> demand \<Rightarrow> bool" where
  "receipt_exists rc d \<longleftrightarrow> rc (d_generation d) \<noteq> Inr None"

definition recovery_due :: "nat \<Rightarrow> document \<Rightarrow> demand \<Rightarrow> bool" where
  "recovery_due t s d =
     (if d_state d \<noteq> RecoveryRequired then False
      else
        let start_recovery =
              is_some_and (d_reason d) (\<lambda>r. r = ''start_outcome_unknown'' \<or>
                r = ''interrupted_start_requires_owned_process_reconciliation'');
            restart_uncertain =
              (\<exists>i \<in> set (om_vals (invocations s)).
                 q_reservation_id (i_request i) = d_id d \<and> i_state i = Uncertain \<and>
                 is_some_and (i_error i) (\<lambda>x. starts_with x ''receiver_restart_after_dispatch_intent''))
        in
        if \<not> start_recovery \<and> d_transition_deadline d > t then False
        else \<not> restart_uncertain \<or> \<not> active t d \<or> d_released d \<or> d_reservation_closed d \<noteq> None)"

text \<open>A queued call whose wait is over or whose reservation is no longer active.\<close>

definition stale_call :: "nat \<Rightarrow> document \<Rightarrow> invocation \<Rightarrow> bool" where
  "stale_call t s i \<longleftrightarrow>
     i_state i = Queued \<and>
     (i_waiting_deadline i \<le> t \<or>
      \<not> is_some_and (get_demand s (q_reservation_id (i_request i))) (active t))"

definition elapsed :: "nat \<Rightarrow> demand \<Rightarrow> bool" where
  "elapsed t d \<longleftrightarrow> \<not> active t d \<and> d_state d \<in> {Ready, Preparing, Preempting}"

definition pending_changes :: "env \<Rightarrow> config \<Rightarrow> receipts \<Rightarrow> document \<Rightarrow> bool" where
  "pending_changes e c rc s \<longleftrightarrow>
     retention_pending s (c_idle_timeout_seconds c) (now e) \<or>
     recovery_pending s \<or>
     idle_pending s (c_idle_timeout_seconds c) (now e) \<or>
     (\<exists>i \<in> set (om_vals (invocations s)). needs_cancel e s i \<or> stale_call (now e) s i) \<or>
     (\<exists>d \<in> set (om_vals (demands s)).
        \<not> d_released d \<and> receipt_exists rc d \<or> elapsed (now e) d \<or> d_state d = Preempting \<or>
        recovery_due (now e) s d)"

section \<open>The pass\<close>

definition abandoned_preemptors :: "document \<Rightarrow> string set" where
  "abandoned_preemptors s =
     set (map d_id (filter (\<lambda>d. d_victims d \<noteq> [] \<and> d_state d \<noteq> Preparing) (om_vals (demands s))))"

definition abandon :: "nat \<Rightarrow> string set \<Rightarrow> demand \<Rightarrow> demand" where
  "abandon t A d =
     (if d_state d = Preempting \<and> is_some_and (d_preempted_by d) (\<lambda>k. k \<in> A)
      then d\<lparr>d_released := True, d_state := Releasing,
             d_reason := Some ''preempted_by_higher_priority'',
             d_transition_deadline := t + p_drain_seconds (d_profile d)\<rparr>
      else d)"

definition receipt_release :: "receipts \<Rightarrow> demand \<Rightarrow> demand res" where
  "receipt_release rc d =
     res_bind (rc (d_generation d)) (\<lambda>receipt.
       case receipt of
         None \<Rightarrow> Inr d
       | Some (owner, generation) \<Rightarrow>
           if owner \<noteq> d_id d \<or> generation \<noteq> d_generation d
           then Inl ''media_release_receipt_mismatch''
           else Inr (d\<lparr>d_released := True\<rparr>))"

definition close_elapsed :: "nat \<Rightarrow> demand \<Rightarrow> demand" where
  "close_elapsed t d =
     (if elapsed t d
      then d\<lparr>d_state := Releasing, d_transition_deadline := t + p_drain_seconds (d_profile d)\<rparr>
      else d)"

definition settle_entry :: "nat \<Rightarrow> receipts \<Rightarrow> string \<times> demand \<Rightarrow> (string \<times> demand) res" where
  "settle_entry t rc x =
     res_bind (receipt_release rc (snd x)) (\<lambda>d. Inr (fst x, close_elapsed t d))"

definition settle_demands :: "nat \<Rightarrow> receipts \<Rightarrow> document \<Rightarrow> document res" where
  "settle_demands t rc s =
     res_bind (map_res (settle_entry t rc) (demands s)) (\<lambda>ds. Inr (s\<lparr>demands := ds\<rparr>))"

definition expire_stale :: "nat \<Rightarrow> document \<Rightarrow> document" where
  "expire_stale t s =
     s\<lparr>invocations := om_mapv (\<lambda>i. if stale_call t s i then i\<lparr>i_state := ExpiredCall\<rparr> else i)
        (invocations s)\<rparr>"

definition reconsider_op ::
  "env \<Rightarrow> config \<Rightarrow> receipts \<Rightarrow> document \<Rightarrow> (unit \<times> document) res" where
  "reconsider_op e c rc s =
     (let s = quarantine (cancel_closed e s) in
      res_bind (refresh_retention (c_idle_timeout_seconds c) (now e) s) (\<lambda>s.
      let s = reap (c_idle_timeout_seconds c) (now e) s;
          s = s\<lparr>demands := om_mapv (abandon (now e) (abandoned_preemptors s)) (demands s)\<rparr> in
      res_bind (settle_demands (now e) rc s) (\<lambda>s.
        Inr ((), expire_stale (now e) s))))"

text \<open>\<open>Reconsideration::reconsider\<close>: the read decides whether the transaction is run.\<close>

definition reconsider ::
  "env \<Rightarrow> config \<Rightarrow> receipts \<Rightarrow> document \<Rightarrow> (unit \<times> document) res" where
  "reconsider e c rc s = (if \<not> pending_changes e c rc s then Inr ((), s) else reconsider_op e c rc s)"

section \<open>What a tick starts\<close>

definition needs_transition :: "nat \<Rightarrow> document \<Rightarrow> demand \<Rightarrow> bool" where
  "needs_transition t s d \<longleftrightarrow>
     (d_state d \<in> {Preparing, Ready, Releasing} \<or> recovery_due t s d) \<and>
     (d_state d = RecoveryRequired \<or>
      \<not> (\<exists>p \<in> set (om_vals (demands s)). d_state p = Preparing \<and> d_id d \<in> set (d_victims p)))"

text \<open>Retirements first, then preparations, then the monitoring of ready services: the order
  of \<open>(state != Releasing, state == Ready)\<close>.\<close>

definition transition_rank :: "demand \<Rightarrow> nat" where
  "transition_rank d =
     (if d_state d = Releasing then 0 else if d_state d \<noteq> Ready then 1 else 2)"

definition transition_candidates :: "nat \<Rightarrow> document \<Rightarrow> demand list" where
  "transition_candidates t s = sort_key transition_rank (filter (needs_transition t s) (om_vals (demands s)))"

fun first_per_reservation :: "string set \<Rightarrow> invocation list \<Rightarrow> invocation list" where
  "first_per_reservation seen [] = []"
| "first_per_reservation seen (i # is) =
     (let k = q_reservation_id (i_request i) in
      if k \<in> seen then first_per_reservation seen is
      else i # first_per_reservation (insert k seen) is)"

definition dispatch_candidates :: "env \<Rightarrow> limits \<Rightarrow> document \<Rightarrow> string list" where
  "dispatch_candidates e l s =
     map i_id (first_per_reservation {}
       (filter (\<lambda>i. worker_eligible e s i \<and> workspace_slot l s i) (om_vals (invocations s))))"

text \<open>The transaction of a worker whose transition failed. A late probe does not undo a release,
  and a callback that lost the race for the publication of its group is no evidence of trouble.\<close>

definition record_failure ::
  "env \<Rightarrow> demand \<Rightarrow> string \<Rightarrow> document \<Rightarrow> (unit \<times> document) res" where
  "record_failure e d err s =
     res_bind (current s d) (\<lambda>x.
     if d_state d = Ready \<and> d_state x \<noteq> Ready \<or>
        err = ''transition_fence_changed'' \<and> d_state x \<noteq> Preparing
     then Inr ((), s)
     else Inr ((), upd_demand (d_id d) (\<lambda>x.
       (if d_state x \<noteq> RecoveryRequired
        then x\<lparr>d_state := RecoveryRequired, d_reason := Some (diagnostic err)\<rparr> else x)
         \<lparr>d_recovery_error := Some (diagnostic err),
          d_transition_deadline := now e + RETRY_SECONDS\<rparr>) s))"

section \<open>The invariant is kept\<close>

lemma abandon_step:
  "get_demand s k = Some d \<Longrightarrow> doc_inv s \<Longrightarrow> demand_step s d (abandon t A d)"
  using demand_step_refl[of s k d] by (auto simp: demand_step_def abandon_def live_ok_def)

text \<open>The loop over the demands, when it ends, applied one function to each of them.\<close>

definition settled :: "nat \<Rightarrow> receipts \<Rightarrow> demand \<Rightarrow> demand" where
  "settled t rc d = close_elapsed t (if receipt_exists rc d then d\<lparr>d_released := True\<rparr> else d)"

lemma receipt_release_Inr:
  "receipt_release rc d = Inr d' \<Longrightarrow> d' = (if receipt_exists rc d then d\<lparr>d_released := True\<rparr> else d)"
  by (cases "rc (d_generation d)")
    (auto simp: receipt_release_def receipt_exists_def split: option.splits prod.splits if_splits)

lemma settle_entries:
  "map_res (settle_entry t rc) xs = Inr ys \<Longrightarrow> ys = om_mapv (settled t rc) xs"
proof (induction xs arbitrary: ys)
  case Nil
  then show ?case by (simp add: om_mapv_def)
next
  case (Cons x xs)
  then obtain y zs where y: "settle_entry t rc x = Inr y" "map_res (settle_entry t rc) xs = Inr zs"
      "ys = y # zs"
    by (auto split: sum.splits)
  obtain d where d: "receipt_release rc (snd x) = Inr d" "y = (fst x, close_elapsed t d)"
    using y(1) by (auto simp: settle_entry_def res_simps)
  have "y = (fst x, settled t rc (snd x))"
    using receipt_release_Inr[OF d(1)] d(2) by (simp add: settled_def)
  then show ?case using Cons.IH[OF y(2)] y(3) by (simp add: om_mapv_def)
qed

lemma settle_demands_eq:
  "settle_demands t rc s = Inr u \<Longrightarrow> u = s\<lparr>demands := om_mapv (settled t rc) (demands s)\<rparr>"
  by (auto simp: settle_demands_def res_simps dest: settle_entries)

lemma close_elapsed_sel [simp]:
  "d_id (close_elapsed t d) = d_id d" "d_profile (close_elapsed t d) = d_profile d"
  "d_generation (close_elapsed t d) = d_generation d"
  "d_effect_started (close_elapsed t d) = d_effect_started d"
  "d_process (close_elapsed t d) = d_process d" "d_ready_checked (close_elapsed t d) = d_ready_checked d"
  "d_released (close_elapsed t d) = d_released d" "d_deadline (close_elapsed t d) = d_deadline d"
  by (simp_all add: close_elapsed_def)

lemma close_elapsed_state:
  "d_state (close_elapsed t d) = (if elapsed t d then Releasing else d_state d)"
  by (simp add: close_elapsed_def)

lemma settled_sel [simp]:
  "d_id (settled t rc d) = d_id d" "d_profile (settled t rc d) = d_profile d"
  "d_generation (settled t rc d) = d_generation d"
  "d_effect_started (settled t rc d) = d_effect_started d"
  "d_process (settled t rc d) = d_process d" "d_ready_checked (settled t rc d) = d_ready_checked d"
  "d_deadline (settled t rc d) = d_deadline d"
  by (simp_all add: settled_def)

lemma settled_step:
  assumes "get_demand s k = Some d" and "doc_inv s"
  shows "demand_step s d (settled t rc d)"
proof -
  have "d_state (settled t rc d) \<in> {d_state d, Releasing}"
    by (simp add: settled_def close_elapsed_state)
  moreover have "d_state (settled t rc d) = Releasing \<Longrightarrow> d_state d \<noteq> Releasing \<Longrightarrow> d_state d \<in> holding"
    by (auto simp: settled_def close_elapsed_state elapsed_def split: if_splits)
  ultimately show ?thesis
    using doc_inv_live[OF assms(2,1)] doc_inv_effect[OF assms(2,1)]
    by (auto simp: demand_step_def live_ok_def)
qed

text \<open>The phases of a pass that commits.\<close>

lemma reconsider_phases:
  assumes "reconsider_op e c rc s = Inr (u, t)"
  obtains v A where "refresh_retention (c_idle_timeout_seconds c) (now e) (quarantine (cancel_closed e s)) = Inr v"
    "A = abandoned_preemptors (reap (c_idle_timeout_seconds c) (now e) v)"
    "t = expire_stale (now e) ((reap (c_idle_timeout_seconds c) (now e) v)
       \<lparr>demands := om_mapv (settled (now e) rc)
          (om_mapv (abandon (now e) A) (demands (reap (c_idle_timeout_seconds c) (now e) v)))\<rparr>)"
  using assms by (auto simp: reconsider_op_def Let_def res_simps dest!: settle_demands_eq)

lemma expire_stale_kept: "doc_inv s \<Longrightarrow> demands_kept s (expire_stale t s)"
  unfolding expire_stale_def by (rule demands_kept_map_calls) auto

lemma reconsider_inv:
  assumes "reconsider_op e c rc s = Inr (u, t)" and "doc_inv s"
  shows "doc_inv t"
proof (rule reconsider_phases[OF assms(1)])
  fix v A
  let ?r = "reap (c_idle_timeout_seconds c) (now e) v"
  let ?a = "?r\<lparr>demands := om_mapv (abandon (now e) A) (demands ?r)\<rparr>"
  let ?m = "?a\<lparr>demands := om_mapv (settled (now e) rc) (demands ?a)\<rparr>"
  assume v: "refresh_retention (c_idle_timeout_seconds c) (now e) (quarantine (cancel_closed e s)) = Inr v"
    and t: "t = expire_stale (now e) (?r\<lparr>demands := om_mapv (settled (now e) rc)
          (om_mapv (abandon (now e) A) (demands ?r))\<rparr>)"
  have "doc_inv (cancel_closed e s)"
    by (rule demands_kept_doc_inv[OF assms(2) cancel_closed_kept[OF assms(2)]])
  then have "doc_inv (quarantine (cancel_closed e s))"
    using claims_kept_doc_inv quarantine_kept by blast
  then have "doc_inv v" by (rule refresh_retention_inv[OF v])
  then have r: "doc_inv ?r" using claims_kept_doc_inv reap_kept by blast
  have a: "doc_inv ?a"
    by (rule claims_kept_doc_inv[OF r claims_kept_mapv[OF r abandon_step[OF _ r]]])
  have m: "doc_inv ?m"
    by (rule claims_kept_doc_inv[OF a claims_kept_mapv[OF a settled_step[OF _ a]]])
  show ?thesis
    using demands_kept_doc_inv[OF m expire_stale_kept[OF m]] unfolding t by simp
qed

lemma record_failure_inv:
  assumes "record_failure e d err s = Inr (u, t)" and "doc_inv s"
  shows "doc_inv t"
proof -
  have "demand_step s x ((if d_state x \<noteq> RecoveryRequired
        then x\<lparr>d_state := RecoveryRequired, d_reason := Some m\<rparr> else x)
         \<lparr>d_recovery_error := Some m, d_transition_deadline := n\<rparr>)"
    if "get_demand s k = Some x" for k x m n
    using doc_inv_live[OF assms(2) that] doc_inv_effect[OF assms(2) that]
    by (auto simp: demand_step_def live_ok_def)
  then show ?thesis
    using assms by (auto simp: record_failure_def res_simps split: if_splits
        intro!: upd_demand_step_inv[OF assms(2)])
qed

interpretation reconsider_op: authority_op doc_inv "\<lambda>_. True" "reconsider_op e c rc" for e c rc
  by unfold_locales (rule reconsider_inv)

interpretation record_failure: authority_op doc_inv "\<lambda>_. True" "record_failure e d err" for e d err
  by unfold_locales (rule record_failure_inv)

section \<open>Properties\<close>

lemma om_mapv_same: "(\<And>v. v \<in> set (om_vals m) \<Longrightarrow> f v = v) \<Longrightarrow> om_mapv f m = m"
  by (force simp: om_mapv_def om_vals_def intro!: map_idI)

lemma settled_same:
  assumes "\<not> (\<not> d_released d \<and> receipt_exists rc d)" and "\<not> elapsed t d"
  shows "settled t rc (d :: demand) = d"
proof (cases "receipt_exists rc d")
  case True
  then have "d_released d" using assms(1) by simp
  then have "d\<lparr>d_released := True\<rparr> = d" by (cases d) simp
  then show ?thesis using assms(2) True by (simp only: settled_def close_elapsed_def if_True if_False)
next
  case False
  then show ?thesis using assms(2) by (simp only: settled_def close_elapsed_def if_False)
qed

text \<open>The hint is sound: when it says that nothing is pending, the pass ends in the document it
  began with, or in an error.\<close>

lemma hint_sound:
  assumes "\<not> pending_changes e c rc s"
  shows "reconsider_op e c rc s = Inr ((), s) \<or> (\<exists>err. reconsider_op e c rc s = Inl err)"
proof (cases "reconsider_op e c rc s")
  case (Inr ut)
  obtain u t where ut: "ut = (u, t)" by (cases ut)
  note p = assms[unfolded pending_changes_def de_Morgan_disj]
  have c: "cancel_closed e s = s" using p by (simp add: cancel_closed_def filter_False)
  have q: "quarantine s = s" using p by (simp add: quarantine_def recovery_pending_def filter_False)
  have x: "refresh_retention (c_idle_timeout_seconds c) (now e) s = Inr s"
    using p by (simp add: refresh_retention_def retention_pending_def split: sum.splits)
  have r: "reap (c_idle_timeout_seconds c) (now e) s = s"
    using p by (simp add: reap_def idle_pending_def filter_False)
  have d: "om_mapv (abandon t A) (demands s) = demands s" for t A
    using p by (intro om_mapv_same) (auto simp: abandon_def)
  have m: "om_mapv (settled (now e) rc) (demands s) = demands s"
    using p by (intro om_mapv_same settled_same) auto
  have i: "expire_stale (now e) s = s"
  proof -
    have "om_mapv (\<lambda>i. if stale_call (now e) s i then i\<lparr>i_state := ExpiredCall\<rparr> else i) (invocations s)
        = invocations s"
      using p by (intro om_mapv_same) auto
    then show ?thesis by (simp add: expire_stale_def)
  qed
  show ?thesis
  proof (rule reconsider_phases[OF Inr[unfolded ut]])
    fix v A
    assume v: "refresh_retention (c_idle_timeout_seconds c) (now e) (quarantine (cancel_closed e s)) = Inr v"
      and t: "t = expire_stale (now e) ((reap (c_idle_timeout_seconds c) (now e) v)
       \<lparr>demands := om_mapv (settled (now e) rc)
          (om_mapv (abandon (now e) A) (demands (reap (c_idle_timeout_seconds c) (now e) v)))\<rparr>)"
    have "v = s" using v by (simp add: c q x)
    then have "t = s" unfolding t by (simp add: r d m i)
    then show ?thesis using Inr ut by simp
  qed
qed simp

text \<open>The document on disk after a transaction: the new one, or the old one after an error.\<close>

definition document_after :: "document \<Rightarrow> ('a \<times> document) res \<Rightarrow> document" where
  "document_after s r = (case r of Inl _ \<Rightarrow> s | Inr (_, t) \<Rightarrow> t)"

text \<open>C35: the hint that saves the lock costs nothing. The pass guarded by \<open>pending_changes\<close>
  leaves the same document as the pass that always takes the lock and runs every step, from every
  document, under every configuration and with whatever receipts the media backend has left.\<close>

theorem reconsider_optimised:
  "document_after s (reconsider e c rc s) = document_after s (reconsider_op e c rc s)"
  using hint_sound[of e c rc s] by (auto simp: reconsider_def document_after_def)

lemma refresh_retention_sources:
  assumes "refresh_retention n at s = Inr t" and "get_demand t k = Some y"
  shows "\<exists>x. get_demand s k = Some x \<and> d_state y = d_state x \<and> d_id y = d_id x \<and>
    d_profile y = d_profile x \<and> d_generation y = d_generation x"
proof -
  let ?I = "\<lambda>u. \<forall>k y. get_demand u k = Some y \<longrightarrow> (\<exists>x. get_demand s k = Some x \<and>
    d_state y = d_state x \<and> d_id y = d_id x \<and> d_profile y = d_profile x \<and> d_generation y = d_generation x)"
  obtain us where "fold_res set_deadline us s = Inr t"
    using assms(1) by (auto simp: refresh_retention_def res_simps)
  then have "?I t"
    by (rule fold_res_invariant) (auto simp: set_deadline_def split: if_splits)
  then show ?thesis using assms(2) by blast
qed

lemma settled_serving:
  assumes "d_state (settled t rc y) \<noteq> Releasing" and "d_state y \<in> {Ready, Preparing, Preempting}"
  shows "settled t rc y = y" and "active t y" and "\<not> receipt_exists rc y"
proof -
  define z where "z = (if receipt_exists rc y then y\<lparr>d_released := True\<rparr> else y)"
  have st: "d_state z = d_state y" by (simp add: z_def)
  have s: "settled t rc y = close_elapsed t z" by (simp add: settled_def z_def)
  have ne: "\<not> elapsed t z" using assms(1) by (simp add: s close_elapsed_state split: if_splits)
  then have az: "active t z" using assms(2) st by (auto simp: elapsed_def)
  show nr: "\<not> receipt_exists rc y"
  proof
    assume "receipt_exists rc y"
    then have "d_released z" by (simp add: z_def)
    then show False using az by (simp add: active_def)
  qed
  then have zy: "z = y" by (simp add: z_def)
  show "settled t rc y = y" using ne by (simp add: s zy close_elapsed_def)
  show "active t y" using az zy by simp
qed

lemma settled_state: "d_state (settled t rc y) \<in> {d_state y, Releasing}"
  by (simp add: settled_def close_elapsed_state)

lemma abandon_serving:
  assumes "d_state (abandon t A x) \<noteq> Releasing"
  shows "abandon t A x = x"
proof (cases "d_state x = Preempting \<and> is_some_and (d_preempted_by x) (\<lambda>k. k \<in> A)")
  case True
  then have "d_state (abandon t A x) = Releasing" by (simp add: abandon_def)
  then show ?thesis using assms by contradiction
next
  case False
  then show ?thesis unfolding abandon_def by (rule if_not_P)
qed

text \<open>What a committed pass did to a demand that still serves or prepares, and to a call that is
  still queued: nothing but a new deadline.\<close>

lemma reconsider_serving:
  assumes "reconsider_op e c rc s = Inr (u, t)" and "doc_inv s"
    and "get_demand t k = Some d" "d_state d \<in> {Ready, Preparing, Preempting}"
  shows "active (now e) d" and "\<not> receipt_exists rc d"
    and "\<exists>w. get_demand s k = Some w \<and> \<not> uncertain_owner (cancel_closed e s) w \<and>
      d_state w = d_state d \<and> d_id w = d_id d \<and> d_profile w = d_profile d"
proof (atomize (full), rule reconsider_phases[OF assms(1)])
  fix v A
  let ?r = "reap (c_idle_timeout_seconds c) (now e) v"
  assume v: "refresh_retention (c_idle_timeout_seconds c) (now e) (quarantine (cancel_closed e s)) = Inr v"
    and t: "t = expire_stale (now e) (?r\<lparr>demands := om_mapv (settled (now e) rc)
          (om_mapv (abandon (now e) A) (demands ?r))\<rparr>)"
  have ci: "doc_inv (cancel_closed e s)"
    by (rule demands_kept_doc_inv[OF assms(2) cancel_closed_kept[OF assms(2)]])
  then have "doc_inv (quarantine (cancel_closed e s))"
    using claims_kept_doc_inv quarantine_kept by blast
  then have vi: "doc_inv v" by (rule refresh_retention_inv[OF v])
  obtain x where x: "get_demand ?r k = Some x" "d = settled (now e) rc (abandon (now e) A x)"
    using assms(3) by (auto simp: t expire_stale_def)
  define y where "y = abandon (now e) A x"
  have dy: "d = settled (now e) rc y" using x(2) by (simp add: y_def)
  have nd: "d_state d \<noteq> Releasing" using assms(4) by auto
  have ys: "d_state y \<in> {Ready, Preparing, Preempting}"
    using settled_state[of "now e" rc y] nd assms(4) by (simp add: dy)
  note se = settled_serving[OF nd[unfolded dy] ys]
  have "abandon (now e) A x = x" by (rule abandon_serving) (use ys in \<open>auto simp: y_def\<close>)
  then have yx: "y = x" by (simp add: y_def)
  obtain w where w: "get_demand v k = Some w"
      "x = (if idle_eligible v (c_idle_timeout_seconds c) (now e) w then expire (now e) w else w)"
    using x(1) by (auto simp: reap_get[OF vi])
  have xw: "x = w"
  proof (cases "idle_eligible v (c_idle_timeout_seconds c) (now e) w")
    case True
    then have "d_state x = Releasing" using w(2) by (simp add: expire_def)
    then show ?thesis using ys yx by auto
  qed (simp add: w(2))
  obtain q where q: "get_demand (quarantine (cancel_closed e s)) k = Some q" "d_state w = d_state q"
      "d_id w = d_id q" "d_profile w = d_profile q"
    using refresh_retention_sources[OF v w(1)] by blast
  obtain p where p: "get_demand s k = Some p"
      "q = (if uncertain_owner (cancel_closed e s) p then quarantined p else p)"
    using q(1) by (auto simp: quarantine_get[OF ci])
  have dw: "d = w" using dy se(1) yx xw by simp
  have np: "\<not> uncertain_owner (cancel_closed e s) p"
  proof
    assume "uncertain_owner (cancel_closed e s) p"
    then have "d_state q = RecoveryRequired" using p(2) by (simp add: quarantined_def)
    then show False using q(2) dw assms(4) by simp
  qed
  then have "q = p" using p(2) by simp
  then have "d_state p = d_state d" "d_id p = d_id d" "d_profile p = d_profile d"
    using q(2-4) dw by simp_all
  moreover have "active (now e) d" "\<not> receipt_exists rc d" using se dy by simp_all
  ultimately show "active (now e) d \<and> \<not> receipt_exists rc d \<and>
      (\<exists>w. get_demand s k = Some w \<and> \<not> uncertain_owner (cancel_closed e s) w \<and>
      d_state w = d_state d \<and> d_id w = d_id d \<and> d_profile w = d_profile d)"
    using p(1) np by blast
qed

lemma reconsider_sel:
  assumes "reconsider_op e c rc s = Inr (u, t)" and "doc_inv s"
  shows "claims t = claims s"
    and "invocations t = om_mapv (\<lambda>i. if stale_call (now e) t i then i\<lparr>i_state := ExpiredCall\<rparr> else i)
      (invocations (cancel_closed e s))"
proof (atomize (full), rule reconsider_phases[OF assms(1)])
  fix v A
  assume v: "refresh_retention (c_idle_timeout_seconds c) (now e) (quarantine (cancel_closed e s)) = Inr v"
    and t: "t = expire_stale (now e) ((reap (c_idle_timeout_seconds c) (now e) v)
       \<lparr>demands := om_mapv (settled (now e) rc)
          (om_mapv (abandon (now e) A) (demands (reap (c_idle_timeout_seconds c) (now e) v)))\<rparr>)"
  have "stale_call (now e) (expire_stale (now e) w) = stale_call (now e) w" for w
    by (simp add: fun_eq_iff stale_call_def expire_stale_def)
  then show "claims t = claims s \<and>
    invocations t = om_mapv (\<lambda>i. if stale_call (now e) t i then i\<lparr>i_state := ExpiredCall\<rparr> else i)
      (invocations (cancel_closed e s))"
    using refresh_retention_sel[OF v] by (simp add: t) (simp add: expire_stale_def)
qed

text \<open>C34: a committed pass leaves nothing overdue. Every demand that still serves or prepares is
  active, has no release receipt of the media backend, and has no call of unknown outcome on its
  devices; every call that is still queued has its wait ahead of it and an active demand. No claim
  changes hands.\<close>

theorem reconsider_settles:
  assumes "reconsider_op e c rc s = Inr (u, t)" and "doc_inv s"
  shows "claims t = claims s \<and>
    (\<forall>k d. get_demand t k = Some d \<and> d_state d \<in> {Ready, Preparing, Preempting} \<longrightarrow>
       active (now e) d \<and> \<not> receipt_exists rc d \<and> \<not> uncertain_owner t d) \<and>
    (\<forall>k i. get_call t k = Some i \<and> i_state i = Queued \<longrightarrow>
       i_waiting_deadline i > now e \<and>
       is_some_and (get_demand t (q_reservation_id (i_request i))) (active (now e)))"
proof -
  note sel = reconsider_sel[OF assms]
  have "\<not> uncertain_owner t d"
    if d: "get_demand t k = Some d" "d_state d \<in> {Ready, Preparing, Preempting}" for k d
  proof
    assume un: "uncertain_owner t d"
    obtain w where w: "\<not> uncertain_owner (cancel_closed e s) w" "d_state w = d_state d"
        "d_id w = d_id d" "d_profile w = d_profile d"
      using reconsider_serving(3)[OF assms d] by blast
    obtain j where j: "j \<in> set (om_vals (invocations t))" "q_reservation_id (i_request j) = d_id d"
        "i_state j = Uncertain"
      using un by (auto simp: uncertain_owner_def)
    then obtain i where i: "i \<in> set (om_vals (invocations (cancel_closed e s)))"
        "j = (if stale_call (now e) t i then i\<lparr>i_state := ExpiredCall\<rparr> else i)"
      by (auto simp: sel(2) om_vals_mapv)
    then have "j = i" using j(3) by (auto split: if_splits)
    moreover have "owns (cancel_closed e s) w" using un w sel(1) by (simp add: uncertain_owner_def owns_def)
    ultimately show False using w un i(1) j by (auto simp: uncertain_owner_def)
  qed
  moreover have "i_waiting_deadline i > now e \<and>
      is_some_and (get_demand t (q_reservation_id (i_request i))) (active (now e))"
    if q: "get_call t k = Some i" "i_state i = Queued" for k i
  proof -
    obtain x where "i = (if stale_call (now e) t x then x\<lparr>i_state := ExpiredCall\<rparr> else x)"
      using q(1) by (auto simp: sel(2))
    then have "\<not> stale_call (now e) t i" using q(2) by (auto split: if_splits)
    then show ?thesis using q(2) by (auto simp: stale_call_def)
  qed
  ultimately show ?thesis
    using sel(1) reconsider_serving(1,2)[OF assms] by blast
qed

theorem reconsider_settles_witness:
  "\<exists>t. reconsider_op (sample_env\<lparr>now := 800\<rparr>) (sample_config\<lparr>c_idle_timeout_seconds := 10000\<rparr>)
       (\<lambda>_. Inr None) sample_document = Inr ((), t) \<and> claims t = claims sample_document \<and>
     (\<forall>k d. get_demand t k = Some d \<and> d_state d \<in> {Ready, Preparing, Preempting} \<longrightarrow>
       active 800 d \<and> \<not> receipt_exists (\<lambda>_. Inr None) d \<and> \<not> uncertain_owner t d)"
proof -
  let ?e = "sample_env\<lparr>now := 800\<rparr>" and ?c = "sample_config\<lparr>c_idle_timeout_seconds := 10000\<rparr>"
  define d where "d = sample_demand ''d1'' Ready Low (sample_profile ''coder'' [''gpu0''])"
  define i where "i = sample_call ''i1'' ''d1'' Queued"
  note f = sample_demand_sel[of "''d1''" Ready Low "sample_profile ''coder'' [''gpu0'']", folded d_def]
  have v: "om_vals (invocations sample_document) = [i]" "om_vals (demands sample_document) = [d]"
    by (simp_all add: sample_document_def om_vals_def i_def d_def)
  have fi: "q_reservation_id (i_request i) = ''d1''" "i_state i = Queued"
    by (simp_all add: i_def sample_call_def sample_request_def)
  have "cancel_closed ?e sample_document = sample_document"
    by (simp add: cancel_closed_def v i_def)
  moreover have "quarantine sample_document = sample_document"
    by (simp add: quarantine_def v uncertain_owner_def fi)
  moreover have "refresh_retention 10000 800 sample_document = Inr sample_document"
    by (simp add: refresh_retention_def extensions_def v f)
  moreover have "reap 10000 800 sample_document = sample_document"
    by (simp add: reap_def v idle_eligible_def due_def f)
  moreover have "settle_demands 800 (\<lambda>_. Inr None) u = Inr (u\<lparr>demands := om_mapv (close_elapsed 800) (demands u)\<rparr>)" for u
  proof -
    have "map_res (settle_entry 800 (\<lambda>_. Inr None)) xs = Inr (om_mapv (close_elapsed 800) xs)" for xs
      by (induction xs) (simp_all add: settle_entry_def receipt_release_def om_mapv_def)
    then show ?thesis by (simp add: settle_demands_def)
  qed
  ultimately have "\<exists>t. reconsider_op ?e ?c (\<lambda>_. Inr None) sample_document = Inr ((), t)"
    by (simp add: reconsider_op_def Let_def)
  then obtain t where t: "reconsider_op ?e ?c (\<lambda>_. Inr None) sample_document = Inr ((), t)" by blast
  then show ?thesis using reconsider_settles[OF t sample_document_inv] by auto
qed

lemma first_per_reservation_sound:
  "set (first_per_reservation seen is) \<subseteq> set is \<and>
   (\<forall>i \<in> set (first_per_reservation seen is). q_reservation_id (i_request i) \<notin> seen) \<and>
   distinct (map (\<lambda>i. q_reservation_id (i_request i)) (first_per_reservation seen is)) \<and>
   (\<forall>i \<in> set is. q_reservation_id (i_request i) \<notin> seen \<longrightarrow>
      (\<exists>j \<in> set (first_per_reservation seen is). q_reservation_id (i_request j) = q_reservation_id (i_request i)))"
proof (induction seen "is" rule: first_per_reservation.induct)
  case (2 seen i xs)
  show ?case
  proof (cases "q_reservation_id (i_request i) \<in> seen")
    case True
    then show ?thesis using 2(1)[OF refl True] by (auto simp: Let_def)
  next
    case False
    then show ?thesis using 2(2)[OF refl False] by (fastforce simp: Let_def)
  qed
qed simp

text \<open>A tick serves every reservation once. Each call it dispatches is eligible and has a
  slot, no two of them belong to one reservation, and no reservation with such a call is left
  out.\<close>

theorem tick_serves_each_once:
  assumes "doc_inv s"
  shows "(\<forall>k \<in> set (dispatch_candidates e l s).
      \<exists>i. get_call s k = Some i \<and> worker_eligible e s i \<and> workspace_slot l s i) \<and>
    (\<forall>k i. get_call s k = Some i \<and> worker_eligible e s i \<and> workspace_slot l s i \<longrightarrow>
      (\<exists>!n. n \<in> set (dispatch_candidates e l s) \<and>
         (\<exists>j. get_call s n = Some j \<and> q_reservation_id (i_request j) = q_reservation_id (i_request i))))"
proof -
  define p where "p = (\<lambda>i. worker_eligible e s i \<and> workspace_slot l s i)"
  define js where "js = first_per_reservation {} (filter p (om_vals (invocations s)))"
  note f = first_per_reservation_sound[of "{}" "filter p (om_vals (invocations s))", folded js_def]
  have dc: "dispatch_candidates e l s = map i_id js"
    by (simp add: dispatch_candidates_def js_def p_def)
  have ok: "om_ok (invocations s)" using assms by (simp add: doc_inv_def maps_ok_def)
  have get: "get_call s (i_id j) = Some j \<and> p j" if "j \<in> set js" for j
  proof -
    have j: "j \<in> set (om_vals (invocations s))" "p j" using f that by auto
    then obtain k where "get_call s k = Some j" using ok by (auto simp: in_om_vals_iff)
    then show ?thesis using doc_inv_call_id[OF assms] j(2) by blast
  qed
  have same: "j = j'" if "j \<in> set js" "j' \<in> set js"
      "q_reservation_id (i_request j) = q_reservation_id (i_request j')" for j j'
  proof -
    have "inj_on (\<lambda>i. q_reservation_id (i_request i)) (set js)"
      using f by (simp add: distinct_map)
    then show ?thesis using that by (auto dest: inj_onD)
  qed
  have one: "\<exists>!n. n \<in> set (map i_id js) \<and>
      (\<exists>j. get_call s n = Some j \<and> q_reservation_id (i_request j) = q_reservation_id (i_request i))"
    if i: "get_call s k = Some i" "p i" for k i
  proof -
    have "i \<in> set (om_vals (invocations s))" using i(1) by (rule in_om_valsI)
    then obtain j where j: "j \<in> set js" "q_reservation_id (i_request j) = q_reservation_id (i_request i)"
      using f i(2) by auto
    show ?thesis
    proof (rule ex1I[of _ "i_id j"])
      show "i_id j \<in> set (map i_id js) \<and> (\<exists>x. get_call s (i_id j) = Some x \<and>
          q_reservation_id (i_request x) = q_reservation_id (i_request i))"
        using j get by auto
    next
      fix n
      assume n: "n \<in> set (map i_id js) \<and> (\<exists>x. get_call s n = Some x \<and>
          q_reservation_id (i_request x) = q_reservation_id (i_request i))"
      then obtain j' where j': "j' \<in> set js" "n = i_id j'" by auto
      then have "q_reservation_id (i_request j') = q_reservation_id (i_request i)"
        using n get by auto
      then show "n = i_id j" using same[OF j'(1) j(1)] j(2) j'(2) by simp
    qed
  qed
  have pe: "p i \<longleftrightarrow> worker_eligible e s i \<and> workspace_slot l s i" for i by (simp add: p_def)
  have "\<forall>k \<in> set (map i_id js). \<exists>i. get_call s k = Some i \<and> p i" using get by auto
  then show ?thesis
    unfolding dc pe[symmetric] using one by blast
qed

theorem tick_serves_each_once_witness:
  "\<exists>!n. n \<in> set (dispatch_candidates sample_env sample_limits sample_document) \<and>
     (\<exists>j. get_call sample_document n = Some j \<and> q_reservation_id (i_request j) = ''d1'')"
proof -
  define i where "i = sample_call ''i1'' ''d1'' Queued"
  have r: "q_reservation_id (i_request i) = ''d1''"
    by (simp add: i_def sample_call_def sample_request_def)
  have "get_call sample_document ''i1'' = Some i \<and> worker_eligible sample_env sample_document i \<and>
      workspace_slot sample_limits sample_document i"
    unfolding i_def by (intro conjI) (rule sample_eligible)+
  from tick_serves_each_once[OF sample_document_inv, THEN conjunct2, rule_format, OF this]
  show ?thesis unfolding r .
qed

section \<open>A release under a preemption\<close>






end
