(* ===== verification/Submission.thy ===== *)
theory Submission
  imports Request_Body Supervisor
begin

text \<open>
  \<open>inference.rs\<close>, \<open>work.rs\<close> and the entry of \<open>work_execution.rs\<close>: a call is submitted
  once under a client's identity for it. A second submission of the same identity gives the same
  call back if it asks for the same, and is refused if it does not; a new one is checked against
  the state of its demand, the limits of the profile and of the runtime, and queued. The archive
  of retired records is asked through \<open>look_work\<close> and \<open>look_submission\<close>.
\<close>

section \<open>The same request again\<close>

definition request_matches :: "env \<Rightarrow> invocation \<Rightarrow> inference \<Rightarrow> bool res" where
  "request_matches e i q =
     (case i_request_digest i of
        Some digest \<Rightarrow> res_bind (enc_inference e q) (\<lambda>bytes. Inr (sha256 e bytes = digest))
      | None \<Rightarrow> Inr (i_request i = q))"

definition work_matches :: "env \<Rightarrow> invocation \<Rightarrow> work \<Rightarrow> bool res" where
  "work_matches e i w =
     (case i_work_digest i of
        Some digest \<Rightarrow> res_bind (enc_work e w) (\<lambda>bytes. Inr (sha256 e bytes = digest))
      | None \<Rightarrow> Inr (q_work (i_request i) = Some w))"

definition find_work :: "document \<Rightarrow> string \<Rightarrow> string \<Rightarrow> invocation option" where
  "find_work s owner k =
     List.find (\<lambda>i. i_owner i = owner \<and> is_some_and (q_work (i_request i)) (\<lambda>w. wk_work_id w = k))
       (om_vals (invocations s))"

definition find_submission :: "document \<Rightarrow> string \<Rightarrow> inference \<Rightarrow> invocation option" where
  "find_submission s owner q =
     List.find (\<lambda>i. i_owner i = owner \<and> q_reservation_id (i_request i) = q_reservation_id q \<and>
         q_submission_id (i_request i) = q_submission_id q)
       (om_vals (invocations s))"

text \<open>The replay of a known call: itself, or a conflict of identities.\<close>

definition replay :: "invocation \<Rightarrow> bool res \<Rightarrow> invocation option res" where
  "replay i r = res_bind r (\<lambda>same. if same then Inr (Some i) else Inl ''identity_conflict'')"

definition archived_lookup_needed :: "env \<Rightarrow> document \<Rightarrow> string \<Rightarrow> inference \<Rightarrow> bool" where
  "archived_lookup_needed e s owner q =
     (case owned s owner (q_reservation_id q) of
        Inl _ \<Rightarrow> True
      | Inr d \<Rightarrow> if active (now e) d then d_accepted_calls d > 0 else True)"

definition known_work ::
  "env \<Rightarrow> (string \<Rightarrow> string \<Rightarrow> invocation option res) \<Rightarrow> string \<Rightarrow> inference \<Rightarrow> document
     \<Rightarrow> invocation option res" where
  "known_work e look_work owner q s =
     (case q_work q of
        None \<Rightarrow> Inr None
      | Some w \<Rightarrow>
          (case find_work s owner (wk_work_id w) of
             Some i \<Rightarrow> replay i (work_matches e i w)
           | None \<Rightarrow>
               res_bind (if archived_lookup_needed e s owner q then look_work owner (wk_work_id w)
                         else Inr None) (\<lambda>archived.
               case archived of
                 Some i \<Rightarrow> replay i (work_matches e i w)
               | None \<Rightarrow>
                   res_bind (select s owner (wk_reservation_id w) (wk_service w)) (\<lambda>d.
                     if d_id d \<noteq> q_reservation_id q then Inl ''service_not_reserved''
                     else Inr None))))"

text \<open>A retry may name the current generation of a demand that has been renewed since.\<close>

definition retry_of ::
  "env \<Rightarrow> string \<Rightarrow> inference \<Rightarrow> invocation \<Rightarrow> document \<Rightarrow> inference res" where
  "retry_of e owner q i s =
     (if q_generation q \<noteq> q_generation (i_request i) then
        res_bind (owned s owner (q_reservation_id q)) (\<lambda>d.
          if \<not> active (now e) d \<or> d_generation d \<noteq> q_generation q
          then Inl ''stale_generation_or_profile''
          else Inr (q\<lparr>q_generation := q_generation (i_request i)\<rparr>))
      else Inr q)"

definition known_submission ::
  "env \<Rightarrow> (string \<Rightarrow> string \<Rightarrow> string \<Rightarrow> invocation option res) \<Rightarrow> string \<Rightarrow> inference \<Rightarrow> document
     \<Rightarrow> invocation option res" where
  "known_submission e look_submission owner q s =
     (case find_submission s owner q of
        Some i \<Rightarrow> res_bind (retry_of e owner q i s) (\<lambda>retry. replay i (request_matches e i retry))
      | None \<Rightarrow>
          if archived_lookup_needed e s owner q then
            res_bind (look_submission owner (q_reservation_id q) (q_submission_id q)) (\<lambda>archived.
              case archived of
                Some i \<Rightarrow> replay i (request_matches e i q)
              | None \<Rightarrow> Inr None)
          else Inr None)"

section \<open>Admission of a new call\<close>

definition MAX_WORKSPACE_SECONDS :: nat where
  "MAX_WORKSPACE_SECONDS = 3600"

definition WORKSPACE_RESPONSE_BYTES :: nat where
  "WORKSPACE_RESPONSE_BYTES = 64 * 1024"

definition workspace_request :: "inference \<Rightarrow> bool" where
  "workspace_request q \<longleftrightarrow> is_some_and (q_work q) (\<lambda>w. work_workspace w \<noteq> None)"

text \<open>The state of the demand.\<close>

definition demand_accepts :: "env \<Rightarrow> document \<Rightarrow> inference \<Rightarrow> demand \<Rightarrow> unit res" where
  "demand_accepts e s q d =
     (if p_backend (d_profile d) = Comfyui then Inl ''use_versioned_media_interface''
      else if d_state d = Preempting then Inl ''reservation_preempting''
      else if d_state d = Preempted then Inl ''reservation_preempted''
      else if d_state d = Unavailable then Inl ''service_unavailable''
      else if \<not> active (now e) d \<or> d_state d \<noteq> Ready \<or> \<not> ready (now e) s d
      then Inl ''reservation_not_dispatchable''
      else if d_generation d \<noteq> q_generation q \<or> d_profile_hash d \<noteq> q_profile_hash q
      then Inl ''stale_generation_or_profile''
      else if p_backend (d_profile d) = Chatterbox then speech_admit s d q
      else Inr ())"

text \<open>The request itself; the result is its wait.\<close>

definition request_within ::
  "(string \<Rightarrow> bytes option) \<Rightarrow> config \<Rightarrow> inference \<Rightarrow> demand \<Rightarrow> nat res" where
  "request_within b64 c q d =
     res_bind (case q_payload q of
         None \<Rightarrow> Inr ()
       | Some p \<Rightarrow> res_bind (validate_payload b64 p d) (\<lambda>n.
           ensure (n = q_max_tokens q) ''output_limit_mismatch'')) (\<lambda>_.
     if q_schema q \<noteq> VERSION \<or> \<not> valid_id (q_submission_id q) \<or> q_timeout_seconds q = 0 \<or>
        q_timeout_seconds q > (if workspace_request q then MAX_WORKSPACE_SECONDS
                               else p_inference_seconds (d_profile d)) \<or>
        q_max_tokens q = 0 \<or> q_max_tokens q > p_max_output_tokens (d_profile d)
     then Inl ''inference_limits''
     else
       (let wait = unwrap_or (q_wait_seconds q) (max_wait_seconds (c_limits c)) in
        if wait = 0 \<or> wait > max_wait_seconds (c_limits c) then Inl ''waiting_limits''
        else Inr wait))"

definition admissible ::
  "env \<Rightarrow> (string \<Rightarrow> bytes option) \<Rightarrow> config \<Rightarrow> string \<Rightarrow> inference \<Rightarrow> document \<Rightarrow> nat res" where
  "admissible e b64 c owner q s =
     (if \<not> permits e s q then Inl ''workspace_scope_closed_or_unknown''
      else
        res_bind (owned s owner (q_reservation_id q)) (\<lambda>d.
        res_bind (demand_accepts e s q d) (\<lambda>_.
        res_bind (request_within b64 c q d) (\<lambda>wait.
        res_bind (pending (c_limits c) s (q_reservation_id q)) (\<lambda>_. Inr wait)))))"

definition response_reserve :: "limits \<Rightarrow> inference \<Rightarrow> nat" where
  "response_reserve l q =
     (if workspace_request q then WORKSPACE_RESPONSE_BYTES
      else if is_some_and (q_payload q) (\<lambda>p. pp_protocol p = Speech) then MAX_WAV_BYTES
      else max_response_bytes l)"

definition new_call :: "env \<Rightarrow> limits \<Rightarrow> string \<Rightarrow> string \<Rightarrow> inference \<Rightarrow> nat \<Rightarrow> nat \<Rightarrow> invocation" where
  "new_call e l k owner q queue_order wait =
     \<lparr>i_scope_access_hash = None, i_id = k, i_owner = owner, i_request = q,
      i_request_digest = None, i_request_bytes = None, i_work_digest = None, i_work_bytes = None,
      i_request_ref = None, i_state = Queued, i_queue_order = queue_order, i_created = now e,
      i_waiting_deadline = now e + wait, i_execution_deadline = None,
      i_response_bytes = response_reserve l q, i_cancellation = None, i_late_result = None,
      i_result_digest = None, i_late_result_digest = None, i_result_ref = None,
      i_late_result_ref = None, i_started = None, i_completed = None, i_activation = None,
      i_result = None, i_error = None\<rparr>"

text \<open>The count of the demand and the place in the queue.\<close>

definition count_call :: "string \<Rightarrow> document \<Rightarrow> document" where
  "count_call k s =
     (upd_demand k (\<lambda>d. d\<lparr>d_accepted_calls := sat_add (d_accepted_calls d) 1\<rparr>) s)
       \<lparr>next_invocation_order := sat_add (next_invocation_order s) 1\<rparr>"

definition enqueue :: "env \<Rightarrow> config \<Rightarrow> invocation \<Rightarrow> document \<Rightarrow> (invocation \<times> document) res" where
  "enqueue e c i s =
     res_bind (touch (q_reservation_id (i_request i)) (now e) s) (\<lambda>s.
     res_bind (refresh_retention (c_idle_timeout_seconds c) (now e) s) (\<lambda>s.
     res_bind (retention e (c_limits c) (s\<lparr>invocations := om_put (i_id i) i (invocations s)\<rparr>)) (\<lambda>s.
       Inr (i, s))))"

text \<open>The transaction of \<open>Submission::submit\<close> and the payload files beside it.\<close>

definition submit_op ::
  "env \<Rightarrow> config \<Rightarrow> write_fault \<Rightarrow> string option \<Rightarrow> (string \<Rightarrow> bytes option) \<Rightarrow>
     (string \<Rightarrow> string \<Rightarrow> invocation option res) \<Rightarrow>
     (string \<Rightarrow> string \<Rightarrow> string \<Rightarrow> invocation option res) \<Rightarrow>
     string \<Rightarrow> inference \<Rightarrow> document \<Rightarrow> files \<Rightarrow> (invocation \<times> document) res \<times> files" where
  "submit_op e c wr fault b64 look_work look_submission owner q s fs =
     (case res_bind (known_work e look_work owner q s) (\<lambda>known.
             case known of
               Some i \<Rightarrow> Inr (Some i)
             | None \<Rightarrow> known_submission e look_submission owner q s) of
        Inl err \<Rightarrow> (Inl err, fs)
      | Inr (Some i) \<Rightarrow> (Inr (i, s), fs)
      | Inr None \<Rightarrow>
          (case res_bind (admissible e b64 c owner q s) (\<lambda>wait.
                  res_bind (fresh e [''submit'', q_submission_id q]) (\<lambda>k. Inr (wait, k))) of
             Inl err \<Rightarrow> (Inl err, fs)
           | Inr (wait, k) \<Rightarrow>
               (case store_request e wr
                       (new_call e (c_limits c) k owner q (next_invocation_order s) wait) fs of
                  (Inl err, fs) \<Rightarrow> (Inl err, fs)
                | (Inr i, fs) \<Rightarrow>
                    (case enqueue e c i (count_call (q_reservation_id q) s) of
                       Inl err \<Rightarrow> (Inl err, snd (remove_invocation_payloads fault i fs))
                     | Inr r \<Rightarrow> (Inr r, fs)))))"

section \<open>Work\<close>

text \<open>\<open>work_execution::selection\<close>: the checks on the request, then \<open>bind_worker\<close>, which resolves
  the change request and the one reserved worker from the registry files.\<close>

definition work_selection ::
  "(workspace_config \<Rightarrow> demand \<Rightarrow> work \<Rightarrow> unit res) \<Rightarrow> config \<Rightarrow> demand \<Rightarrow> work \<Rightarrow> unit res" where
  "work_selection bind_worker c d w =
     res_bind (ok_or (c_workspace c) ''workspace_not_configured'') (\<lambda>wc.
     res_bind (ok_or (work_workspace w) ''workspace_required'') (\<lambda>ws.
       if \<not> p_qualified (d_profile d) \<or> ld_max_implementation_attempts (w_limits ws) \<noteq> 1 \<or>
          ld_timeout_seconds (w_limits ws) = 0 \<or>
          ld_timeout_seconds (w_limits ws) > MAX_WORKSPACE_SECONDS
       then Inl ''workspace_limits_or_qualification''
       else bind_worker wc d w))"

definition reserved_context_window :: "demand \<Rightarrow> nat res" where
  "reserved_context_window d =
     (if p_max_input_tokens (d_profile d) = 0 then Inl ''reserved_context_window_missing''
      else Inr (p_max_input_tokens (d_profile d)))"

text \<open>\<open>WorkSubmission::submit\<close>, up to the call of \<open>Submission::submit\<close>: the known work, or the
  request that is submitted for it.\<close>

definition work_request ::
  "env \<Rightarrow> (workspace_config \<Rightarrow> demand \<Rightarrow> work \<Rightarrow> unit res) \<Rightarrow> config \<Rightarrow>
     (string \<Rightarrow> string \<Rightarrow> invocation option res) \<Rightarrow> string \<Rightarrow> work \<Rightarrow> document \<Rightarrow> (invocation + inference) res" where
  "work_request e bind_worker c look_work owner w s =
     (if \<not> valid_id (wk_work_id w) then Inl ''invalid_work_id''
      else
        res_bind (case find_work s owner (wk_work_id w) of
            Some i \<Rightarrow> replay i (work_matches e i w)
          | None \<Rightarrow>
              res_bind (look_work owner (wk_work_id w)) (\<lambda>archived.
                case archived of
                  Some i \<Rightarrow> replay i (work_matches e i w)
                | None \<Rightarrow> Inr None)) (\<lambda>known.
        case known of
          Some i \<Rightarrow> Inr (Inl i)
        | None \<Rightarrow>
            res_bind (select s owner (wk_reservation_id w) (wk_service w)) (\<lambda>d.
            if d_state d = Unavailable then Inl ''service_unavailable''
            else
              res_bind (case wk_payload w of
                  InferenceWork prompt mt ts \<Rightarrow> Inr (prompt, mt, ts)
                | WorkspaceWork ws \<Rightarrow>
                    res_bind (work_selection bind_worker c d w) (\<lambda>_.
                      Inr ([], 1, ld_timeout_seconds (w_limits ws)))) (\<lambda>(prompt, mt, ts).
              Inr (Inr \<lparr>q_work = Some w, q_schema = VERSION,
                q_submission_id = ''work-'' @ sha256 e (wk_work_id w), q_reservation_id = d_id d,
                q_generation = d_generation d, q_profile_hash = d_profile_hash d,
                q_prompt = prompt, q_payload = None, q_max_tokens = mt, q_timeout_seconds = ts,
                q_wait_seconds = wk_wait_seconds w, q_workspace_scope = None\<rparr>)))))"

text \<open>The state a client sees of its work.\<close>

definition work_state :: "nat \<Rightarrow> document \<Rightarrow> invocation \<Rightarrow> (string + invocation_state) res" where
  "work_state t s i =
     res_bind (ok_or (q_work (i_request i)) ''work_required'') (\<lambda>w.
     res_bind (owned s (i_owner i) (q_reservation_id (i_request i))) (\<lambda>d.
       if (i_state i = Queued \<or> is_workspace i \<and> i_state i = Running) \<and> \<not> ready t s d
       then Inr (Inl (case d_state d of
           Preempting \<Rightarrow> ''preempting'' | Preempted \<Rightarrow> ''preempted'' | _ \<Rightarrow> ''waiting''))
       else Inr (Inr (i_state i))))"

text \<open>The identity of the call that \<open>work::cancel\<close> cancels; \<open>None\<close> leaves an archived work
  as it is.\<close>

definition work_cancel_target :: "document \<Rightarrow> string \<Rightarrow> string \<Rightarrow> string option" where
  "work_cancel_target s owner k = map_option i_id (find_work s owner k)"

section \<open>What a submission does\<close>

text \<open>The stored form of a new call: only its bodies and their digests differ.\<close>

lemma store_request_new:
  assumes "store_request e wr (new_call e l k owner q n wait) fs = (Inr i, fs')"
  shows "i_id i = k" "i_owner i = owner" "i_request i = compact_request q" "i_state i = Queued"
    "i_queue_order i = n" "i_waiting_deadline i = now e + wait" "i_cancellation i = None"
    "\<exists>bytes. enc_inference e q = Inr bytes \<and> i_request_digest i = Some (sha256 e bytes)"
    "q_work q = Some w \<Longrightarrow> \<exists>bytes. enc_work e w = Inr bytes \<and> i_work_digest i = Some (sha256 e bytes)"
  using assms
  by (auto simp: store_request_def new_call_def store_payload_def Let_def
      split: prod.splits sum.splits option.splits)

text \<open>The ways a submission commits.\<close>

lemma submit_cases:
  assumes "submit_op e c wr fault b64 look_work look_submission owner q s fs = (Inr (i, t), fs')"
  obtains (known) "t = s" "fs' = fs"
      "res_bind (known_work e look_work owner q s) (\<lambda>known.
         case known of Some i \<Rightarrow> Inr (Some i) | None \<Rightarrow> known_submission e look_submission owner q s)
       = Inr (Some i)"
  | (admitted) wait k where "known_work e look_work owner q s = Inr None"
      "known_submission e look_submission owner q s = Inr None"
      "admissible e b64 c owner q s = Inr wait"
      "store_request e wr (new_call e (c_limits c) k owner q (next_invocation_order s) wait) fs = (Inr i, fs')"
      "enqueue e c i (count_call (q_reservation_id q) s) = Inr (i, t)"
proof -
  let ?known = "res_bind (known_work e look_work owner q s) (\<lambda>known.
      case known of Some i \<Rightarrow> Inr (Some i) | None \<Rightarrow> known_submission e look_submission owner q s)"
  show thesis
  proof (cases ?known)
    case (Inl err)
    then show ?thesis using assms by (simp add: submit_op_def)
  next
    case (Inr k)
    show ?thesis
    proof (cases k)
      case (Some j)
      then have "i = j" "t = s" "fs' = fs" using assms Inr by (simp_all add: submit_op_def)
      then show ?thesis using known Inr Some by blast
    next
      case None
      then have kn: "known_work e look_work owner q s = Inr None"
          "known_submission e look_submission owner q s = Inr None"
        using Inr by (auto simp: res_simps split: option.splits)
      have run: "(case res_bind (admissible e b64 c owner q s) (\<lambda>wait.
                  res_bind (fresh e [''submit'', q_submission_id q]) (\<lambda>k. Inr (wait, k))) of
             Inl err \<Rightarrow> (Inl err, fs)
           | Inr (wait, k) \<Rightarrow>
               (case store_request e wr
                       (new_call e (c_limits c) k owner q (next_invocation_order s) wait) fs of
                  (Inl err, fs) \<Rightarrow> (Inl err, fs)
                | (Inr i, fs) \<Rightarrow>
                    (case enqueue e c i (count_call (q_reservation_id q) s) of
                       Inl err \<Rightarrow> (Inl err, snd (remove_invocation_payloads fault i fs))
                     | Inr r \<Rightarrow> (Inr r, fs)))) = (Inr (i, t), fs')"
        using assms Inr None by (simp add: submit_op_def)
      obtain wait k where w: "admissible e b64 c owner q s = Inr wait"
          "fresh e [''submit'', q_submission_id q] = Inr k"
        using run by (auto simp: res_bind_def split: sum.splits)
      note run = run[unfolded w res_bind_Inr sum.case prod.case]
      obtain j fs1 where j: "store_request e wr
          (new_call e (c_limits c) k owner q (next_invocation_order s) wait) fs = (Inr j, fs1)"
        using run by (auto split: prod.splits sum.splits)
      note run = run[unfolded j sum.case prod.case]
      have en: "enqueue e c j (count_call (q_reservation_id q) s) = Inr (i, t)" and "fs1 = fs'"
        using run by (auto split: sum.splits)
      have "j = i" using en by (auto simp: enqueue_def res_simps)
      then show ?thesis using admitted kn w(1) j en \<open>fs1 = fs'\<close> by blast
    qed
  qed
qed

lemma count_call_sel [simp]:
  "invocations (count_call k s) = invocations s" "claims (count_call k s) = claims s"
  "workspace_scopes (count_call k s) = workspace_scopes s"
  by (simp_all add: count_call_def)

lemma count_call_inv:
  assumes "doc_inv s"
  shows "doc_inv (count_call k s)"
proof -
  have i: "doc_inv (upd_demand k (\<lambda>d. d\<lparr>d_accepted_calls := sat_add (d_accepted_calls d) 1\<rparr>) s)"
    by (rule upd_demand_same_inv[OF assms]) simp
  show ?thesis
    unfolding count_call_def using i by (simp add: doc_inv_def maps_ok_def owns_def)
qed

lemma touch_order: "touch k at s = Inr t \<Longrightarrow> next_invocation_order t = next_invocation_order s"
  by (auto simp: touch_def split: option.splits)

lemma refresh_retention_order:
  assumes "refresh_retention n at s = Inr t"
  shows "next_invocation_order t = next_invocation_order s"
proof -
  obtain us where "fold_res set_deadline us s = Inr t"
    using assms by (auto simp: refresh_retention_def res_simps)
  then show ?thesis
    by (rule fold_res_invariant[where I = "\<lambda>u. next_invocation_order u = next_invocation_order s"])
      (auto simp: set_deadline_def split: if_splits)
qed

text \<open>What the queue holds after a new call: the old calls and the new one, compacted.\<close>

lemma enqueue_calls:
  assumes "enqueue e c i s = Inr (i', t)" and "doc_inv s"
  obtains u where "invocations u = om_put (i_id i) i (invocations s)" "calls_compacted u t" "doc_inv u"
    "next_invocation_order u = next_invocation_order s"
proof -
  obtain v w where v: "touch (q_reservation_id (i_request i)) (now e) s = Inr v"
      "refresh_retention (c_idle_timeout_seconds c) (now e) v = Inr w"
      "retention e (c_limits c) (w\<lparr>invocations := om_put (i_id i) i (invocations w)\<rparr>) = Inr t"
    using assms(1) unfolding enqueue_def res_bind_eq_Inr by blast
  define u where "u = w\<lparr>invocations := om_put (i_id i) i (invocations w)\<rparr>"
  have "doc_inv v" using touch_kept[OF v(1)] claims_kept_doc_inv assms(2) by blast
  then have wi: "doc_inv w" by (rule refresh_retention_inv[OF v(2)])
  have "maps_ok u" using doc_inv_maps[OF wi] by (simp add: maps_ok_def u_def)
  moreover have "calls_ok u" using doc_inv_calls_ok[OF wi] by (simp add: calls_ok_def u_def)
  ultimately have "demands_kept w u" by (simp add: demands_kept_def u_def)
  then have ui: "doc_inv u" by (rule demands_kept_doc_inv[OF wi])
  have "invocations w = invocations s"
    using touch_sel(1)[OF v(1)] refresh_retention_sel(1)[OF v(2)] by simp
  then have "invocations u = om_put (i_id i) i (invocations s)" by (simp add: u_def)
  moreover have "calls_compacted u t"
    using retention_kept[OF v(3)[folded u_def]] doc_inv_maps[OF ui] by (simp add: maps_ok_def)
  moreover have "next_invocation_order u = next_invocation_order s"
    using touch_order[OF v(1)] refresh_retention_order[OF v(2)] by (simp add: u_def)
  ultimately show thesis using that ui by blast
qed

lemma enqueue_inv:
  assumes "enqueue e c i s = Inr (i', t)" and "doc_inv s"
  shows "doc_inv t"
proof (rule enqueue_calls[OF assms])
  fix u
  assume "calls_compacted u t" "doc_inv u"
  then show ?thesis using calls_compacted_demands_kept demands_kept_doc_inv by blast
qed

lemma submit_inv:
  assumes "fst (submit_op e c wr fault b64 look_work look_submission owner q s fs) = Inr (i, t)"
    and "doc_inv s"
  shows "doc_inv t"
proof -
  obtain fs' where "submit_op e c wr fault b64 look_work look_submission owner q s fs = (Inr (i, t), fs')"
    using assms(1) by (metis prod.collapse)
  then show ?thesis
    by (cases rule: submit_cases) (auto simp: assms(2) dest: enqueue_inv[OF _ count_call_inv[OF assms(2)]])
qed

interpretation submit_op: authority_op doc_inv "\<lambda>_. True"
  "\<lambda>s. fst (submit_op e c wr fault b64 look_work look_submission owner q s fs)"
  for e c wr fault b64 look_work look_submission owner q fs
  by unfold_locales (rule submit_inv)

section \<open>Finding the call again\<close>

text \<open>A call of the queue after an enqueue is the new one, or stands for one that was there.\<close>

lemma calls_compacted_vals:
  assumes "calls_compacted u t" and "x \<in> set (om_vals (invocations t))"
  shows "\<exists>y \<in> set (om_vals (invocations u)). compacts y x"
proof -
  have "list_all2 (\<lambda>x y. fst y = fst x \<and> compacts (snd x) (snd y)) (invocations u) (invocations t)"
    using assms(1) by (simp add: calls_compacted_def)
  then have l: "length (invocations u) = length (invocations t)"
    and c: "\<And>n. n < length (invocations t) \<Longrightarrow> compacts (snd (invocations u ! n)) (snd (invocations t ! n))"
    by (auto simp: list_all2_conv_all_nth)
  obtain n where n: "n < length (invocations t)" "snd (invocations t ! n) = x"
    using assms(2) by (auto simp: om_vals_def in_set_conv_nth)
  have "snd (invocations u ! n) \<in> set (om_vals (invocations u))"
    using n(1) l by (simp add: om_vals_def)
  then show ?thesis using c[OF n(1)] n(2) by auto
qed

lemma om_put_vals:
  "v \<in> set (om_vals (om_put k x m)) \<Longrightarrow> v = x \<or> v \<in> set (om_vals m)"
  using set_om_put[of k x m] by (auto simp: om_vals_def)

lemma enqueue_find:
  assumes en: "enqueue e c i s = Inr (i', t)" and inv: "doc_inv s" and q: "i_state i = Queued"
    and none: "List.find P (om_vals (invocations s)) = None" and P: "P i"
    and resp: "\<And>x y. compacts y x \<Longrightarrow> P x \<Longrightarrow> P y"
  shows "List.find P (om_vals (invocations t)) = Some i" and "get_call t (i_id i) = Some i"
proof -
  obtain u where u: "invocations u = om_put (i_id i) i (invocations s)" "calls_compacted u t" "doc_inv u"
    by (rule enqueue_calls[OF en inv])
  have "rel_option compacts (get_call u (i_id i)) (get_call t (i_id i))"
    by (rule calls_compacted_call[OF u(2)])
  then obtain x where x: "get_call t (i_id i) = Some x" "compacts i x"
    by (auto simp: u(1) option_rel_Some1)
  moreover have same: "x = i" if "compacts i x" for x
    using that q by (simp add: compacts_def terminal_call_def)
  ultimately show g: "get_call t (i_id i) = Some i" by simp
  have only: "x = i" if x: "x \<in> set (om_vals (invocations t))" "P x" for x
  proof -
    obtain y where y: "y \<in> set (om_vals (invocations u))" "compacts y x"
      using calls_compacted_vals[OF u(2) x(1)] by blast
    then have "y = i"
      using om_put_vals[of y "i_id i" i "invocations s"] u(1) resp[OF y(2) x(2)] none
      by (auto simp: find_None_iff)
    then show ?thesis using same y(2) by simp
  qed
  have "i \<in> set (om_vals (invocations t))" using g by (rule in_om_valsI)
  then have "List.find P (om_vals (invocations t)) \<noteq> None" using P by (auto simp: find_None_iff)
  then show "List.find P (om_vals (invocations t)) = Some i"
    using only find_Some_mem by fastforce
qed

lemma compacts_work_id:
  assumes "compacts y x"
  shows "is_some_and (q_work (i_request x)) (\<lambda>w. wk_work_id w = k) =
    is_some_and (q_work (i_request y)) (\<lambda>w. wk_work_id w = k)"
proof -
  have "map_option wk_work_id (q_work (i_request x)) = map_option wk_work_id (q_work (i_request y))"
    using assms by (simp add: compacts_def)
  then show ?thesis by (cases "q_work (i_request x)"; cases "q_work (i_request y)") simp_all
qed

lemma replay_Inr_None [simp]: "replay i r \<noteq> Inr None"
  by (auto simp: replay_def res_simps split: if_splits)

text \<open>C31: a submission is idempotent. Whenever a submission succeeds, the same submission made
  again finds the same call, changes no document and writes no file: a client that lost the answer
  can ask again and cannot start the work twice. It holds for a call that was just admitted, for
  one that was known and for one that was found in the archive, for plain calls and for named
  work.\<close>

theorem submit_idempotent:
  assumes "submit_op e c wr fault b64 look_work look_submission owner q s fs = (Inr (i, t), fs')"
    and "doc_inv s"
  shows "submit_op e c wr' fault' b64 look_work look_submission owner q t fs'' = (Inr (i, t), fs'')"
  using assms(1)
proof (cases rule: submit_cases)
  case known
  then show ?thesis by (simp add: submit_op_def)
next
  case (admitted wait k)
  note n = store_request_new[OF admitted(4)]
  note f = enqueue_find[OF admitted(5) count_call_inv[OF assms(2)] n(4)]
  have key: "q_reservation_id (i_request i) = q_reservation_id q"
      "q_submission_id (i_request i) = q_submission_id q" "q_generation (i_request i) = q_generation q"
    using n(3) by (simp_all add: compact_request_def)
  have sub: "find_submission t owner q = Some i"
    unfolding find_submission_def
  proof (rule f(1))
    show "List.find (\<lambda>i. i_owner i = owner \<and> q_reservation_id (i_request i) = q_reservation_id q \<and>
         q_submission_id (i_request i) = q_submission_id q)
       (om_vals (invocations (count_call (q_reservation_id q) s))) = None"
      using admitted(2) by (auto simp: known_submission_def find_submission_def res_simps split: option.splits)
  qed (use n(2) key in \<open>auto simp: compacts_def\<close>)
  have known_sub: "known_submission e look_submission owner q t = Inr (Some i)"
    using sub n(8) key(3) by (auto simp: known_submission_def retry_of_def replay_def request_matches_def)
  show ?thesis
  proof (cases "q_work q")
    case None
    then show ?thesis using known_sub by (simp add: submit_op_def known_work_def)
  next
    case (Some w)
    have "find_work t owner (wk_work_id w) = Some i"
      unfolding find_work_def
    proof (rule f(1))
      show "List.find (\<lambda>i. i_owner i = owner \<and> is_some_and (q_work (i_request i)) (\<lambda>x. wk_work_id x = wk_work_id w))
         (om_vals (invocations (count_call (q_reservation_id q) s))) = None"
        using admitted(1) Some
        by (auto simp: known_work_def find_work_def res_simps split: option.splits)
      show "i_owner i = owner \<and> is_some_and (q_work (i_request i)) (\<lambda>x. wk_work_id x = wk_work_id w)"
        using n(2,3) Some by (simp add: compact_request_def compact_work_def)
    qed (auto simp: compacts_work_id, simp add: compacts_def)
    then have "known_work e look_work owner q t = Inr (Some i)"
      using n(9)[OF Some] Some by (auto simp: known_work_def replay_def work_matches_def)
    then show ?thesis by (simp add: submit_op_def)
  qed
qed

lemma om_put_filter:
  "length (filter P (om_vals (om_put k x m))) \<le> Suc (length (filter P (om_vals m)))"
  by (induction k x m rule: om_put.induct) (auto simp: om_vals_def)

lemma calls_compacted_filter:
  assumes "calls_compacted u t" and "\<And>x y. compacts y x \<Longrightarrow> P x = P y"
  shows "length (filter P (om_vals (invocations t))) = length (filter P (om_vals (invocations u)))"
proof -
  have "list_all2 (\<lambda>x y. fst y = fst x \<and> compacts (snd x) (snd y)) (invocations u) (invocations t)"
    using assms(1) by (simp add: calls_compacted_def)
  then show ?thesis
    unfolding om_vals_def by (induction rule: list_all2_induct) (auto dest: assms(2))
qed

lemma demand_accepts_Inr:
  "demand_accepts e s q d = Inr u \<Longrightarrow> ready (now e) s d \<and> d_generation d = q_generation q \<and>
     d_profile_hash d = q_profile_hash q"
  by (auto simp: demand_accepts_def split: if_splits)

lemma request_within_Inr:
  "request_within b64 c q d = Inr wait \<Longrightarrow> 0 < wait \<and> wait \<le> max_wait_seconds (c_limits c) \<and>
     q_max_tokens q \<le> p_max_output_tokens (d_profile d)"
  by (auto simp: request_within_def res_simps Let_def split: if_splits option.splits)

text \<open>The orders of the queue stay below the counter that gives them out.\<close>

definition orders_below :: "document \<Rightarrow> bool" where
  "orders_below s \<longleftrightarrow> (\<forall>j x. get_call s j = Some x \<longrightarrow> i_queue_order x < next_invocation_order s)"

text \<open>C32: what a submission adds stays within the limits. A submission that changes the document
  queues one call for a demand of this client that is ready under the generation and the profile the client named;
  its wait ends in the future and no later than the
  longest wait allowed, its output bound is within the profile's, and with it neither the runtime nor
  the reservation has more pending calls than its limit. It gets the next order, the counter moves on by one (up to
  its last value), and as long as the orders are below the counter and the counter is not at its end, every other
  call has a smaller order and the orders are below the counter again: calls queue in the order of
  their submission.\<close>

theorem submit_within_limits:
  assumes "submit_op e c wr fault b64 look_work look_submission owner q s fs = (Inr (i, t), fs')"
    and "doc_inv s" and "t \<noteq> s"
  shows "(\<exists>d. get_demand s (q_reservation_id q) = Some d \<and> d_owner d = owner \<and> ready (now e) s d \<and>
    d_generation d = q_generation q \<and> d_profile_hash d = q_profile_hash q \<and>
    q_max_tokens q \<le> p_max_output_tokens (d_profile d) \<and>
    get_call t (i_id i) = Some i \<and> i_state i = Queued \<and> i_queue_order i = next_invocation_order s \<and>
    now e < i_waiting_deadline i \<and> i_waiting_deadline i \<le> now e + max_wait_seconds (c_limits c) \<and>
    length (waiting t) \<le> max_pending (c_limits c) \<and>
    length (filter (\<lambda>x. q_reservation_id (i_request x) = q_reservation_id q) (waiting t))
      \<le> max_pending_per_reservation (c_limits c)) \<and>
    next_invocation_order t = min (next_invocation_order s + 1) u64_max \<and>
    (orders_below s \<and> next_invocation_order s < u64_max \<longrightarrow>
       (\<forall>j x. get_call t j = Some x \<and> j \<noteq> i_id i \<longrightarrow> i_queue_order x < i_queue_order i) \<and> orders_below t)"
  using assms(1)
proof (cases rule: submit_cases)
  case known
  then show ?thesis using assms(3) by simp
next
  case (admitted wait k)
  note n = store_request_new[OF admitted(4)]
  obtain d where d: "owned s owner (q_reservation_id q) = Inr d" "demand_accepts e s q d = Inr ()"
      "request_within b64 c q d = Inr wait" "pending (c_limits c) s (q_reservation_id q) = Inr ()"
    using admitted(3) by (auto simp: admissible_def res_simps split: if_splits)
  obtain u where u: "invocations u = om_put (i_id i) i (invocations (count_call (q_reservation_id q) s))"
      "calls_compacted u t" "doc_inv u" "next_invocation_order u = next_invocation_order (count_call (q_reservation_id q) s)"
    by (rule enqueue_calls[OF admitted(5) count_call_inv[OF assms(2)]])
  have "rel_option compacts (get_call u (i_id i)) (get_call t (i_id i))"
    by (rule calls_compacted_call[OF u(2)])
  then obtain x where x: "get_call t (i_id i) = Some x" "compacts i x"
    by (auto simp: u(1) option_rel_Some1)
  then have g: "get_call t (i_id i) = Some i"
    using n(4) by (simp add: compacts_def terminal_call_def)
  let ?W = "\<lambda>x. i_state x \<in> {Queued, Running}"
  let ?R = "\<lambda>x. q_reservation_id (i_request x) = q_reservation_id q"
  have count: "length (filter P (om_vals (invocations t))) \<le> Suc (length (filter P (om_vals (invocations s))))"
    if r: "\<And>x y. compacts y x \<Longrightarrow> P x = P y" for P
    using calls_compacted_filter[OF u(2) r] om_put_filter[of P "i_id i" i "invocations s"] u(1) by simp
  have "length (waiting t) \<le> Suc (length (waiting s))"
    unfolding waiting_def by (rule count) (simp add: compacts_def)
  moreover have "length (filter ?R (waiting t)) \<le> Suc (length (filter ?R (waiting s)))"
    unfolding waiting_def filter_filter by (rule count) (simp add: compacts_def)
  moreover have "length (waiting s) < max_pending (c_limits c)"
      "length (filter ?R (waiting s)) < max_pending_per_reservation (c_limits c)"
    using d(4) by (auto simp: pending_def split: if_splits)
  ultimately have "length (waiting t) \<le> max_pending (c_limits c)"
      "length (filter ?R (waiting t)) \<le> max_pending_per_reservation (c_limits c)" by linarith+
  moreover have "get_demand s (q_reservation_id q) = Some d" "d_owner d = owner"
    using d(1) by (simp_all add: res_simps)
  ultimately have within: "\<exists>d. get_demand s (q_reservation_id q) = Some d \<and> d_owner d = owner \<and> ready (now e) s d \<and>
    d_generation d = q_generation q \<and> d_profile_hash d = q_profile_hash q \<and>
    q_max_tokens q \<le> p_max_output_tokens (d_profile d) \<and>
    get_call t (i_id i) = Some i \<and> i_state i = Queued \<and> i_queue_order i = next_invocation_order s \<and>
    now e < i_waiting_deadline i \<and> i_waiting_deadline i \<le> now e + max_wait_seconds (c_limits c) \<and>
    length (waiting t) \<le> max_pending (c_limits c) \<and>
    length (filter (\<lambda>x. q_reservation_id (i_request x) = q_reservation_id q) (waiting t))
      \<le> max_pending_per_reservation (c_limits c)"
    using demand_accepts_Inr[OF d(2)] request_within_Inr[OF d(3)] g n(4-6) by auto
  have order: "next_invocation_order t = min (next_invocation_order s + 1) u64_max"
    using calls_compacted_sel(5)[OF u(2)] u(4) by (simp add: count_call_def sat_add_def)
  have earlier: "i_queue_order x < i_queue_order i"
    if o: "orders_below s" and x: "get_call t j = Some x" "j \<noteq> i_id i" for j x
  proof -
    have "rel_option compacts (get_call s j) (Some x)"
      using calls_compacted_call[OF u(2), of j] x by (simp add: u(1))
    then obtain y where "get_call s j = Some y" "compacts y x" by (auto simp: option_rel_Some2)
    then show ?thesis using o n(5) by (auto simp: orders_below_def compacts_def)
  qed
  have "orders_below t" if "orders_below s" "next_invocation_order s < u64_max"
    unfolding orders_below_def
  proof (intro allI impI)
    fix j x
    assume x: "get_call t j = Some x"
    show "i_queue_order x < next_invocation_order t"
    proof (cases "j = i_id i")
      case True
      then show ?thesis using x g n(5) order that(2) by simp
    next
      case False
      then show ?thesis using earlier[OF that(1) x False] n(5) order that(2) by simp
    qed
  qed
  then show ?thesis using within order earlier by blast
qed

text \<open>A second call on the sample document.\<close>

definition sample_second :: inference where
  "sample_second = (sample_request ''d1'')\<lparr>q_submission_id := ''s2''\<rparr>"

abbreviation sample_submit :: "document \<Rightarrow> (invocation \<times> document) res \<times> files" where
  "sample_submit s \<equiv> submit_op sample_env sample_config NoFault None (\<lambda>_. None) (\<lambda>_ _. Inr None)
     (\<lambda>_ _ _. Inr None) ''app'' sample_second s (\<lambda>_. None)"

lemma sample_second_sel:
  "q_work sample_second = None" "q_reservation_id sample_second = ''d1''"
  "q_submission_id sample_second = ''s2''" "q_generation sample_second = ''d1g''"
  "q_profile_hash sample_second = ''h''" "q_payload sample_second = None"
  "q_schema sample_second = VERSION" "q_timeout_seconds sample_second = 30"
  "q_max_tokens sample_second = 16" "q_wait_seconds sample_second = None"
  "q_workspace_scope sample_second = None" "q_prompt sample_second = ''hello''"
  by (simp_all add: sample_second_def sample_request_def)

lemma sample_submit_runs: "\<exists>i t fs. sample_submit sample_document = (Inr (i, t), fs) \<and> t \<noteq> sample_document"
proof -
  define d where "d = sample_demand ''d1'' Ready Low (sample_profile ''coder'' [''gpu0''])"
  define j where "j = sample_call ''i1'' ''d1'' Queued"
  note f = sample_demand_sel[of "''d1''" Ready Low "sample_profile ''coder'' [''gpu0'']", folded d_def]
  note q = sample_second_sel
  note el = sample_eligible[folded d_def j_def]
  have fj: "q_submission_id (i_request j) = ''s''" "i_state j = Queued" "q_reservation_id (i_request j) = ''d1''"
    by (simp_all add: j_def sample_call_def sample_request_def)
  have kw: "known_work sample_env (\<lambda>_ _. Inr None) ''app'' sample_second sample_document = Inr None"
    by (simp add: known_work_def q)
  have ow: "owned sample_document ''app'' ''d1'' = Inr d" using el f by (simp add: owned_def)
  have ac: "active 100 d" by (simp add: active_def f)
  have "d_accepted_calls d = 0" by (simp add: d_def sample_demand_def)
  then have ks: "known_submission sample_env (\<lambda>_ _ _. Inr None) ''app'' sample_second sample_document = Inr None"
    by (simp add: known_submission_def find_submission_def el(5) q fj archived_lookup_needed_def ow ac)
  have pr: "p_backend (sample_profile x rs) = LlamaCpp" "p_inference_seconds (sample_profile x rs) = 120"
      "p_max_output_tokens (sample_profile x rs) = 512" for x rs
    by (simp_all add: sample_profile_def)
  have rd: "ready 100 sample_document d" using el f ac by (simp add: ready_def)
  have "demand_accepts sample_env sample_document sample_second d = Inr ()"
    by (simp add: demand_accepts_def pr f ac rd q)
  moreover have "request_within (\<lambda>_. None) sample_config sample_second d = Inr 300"
    by (simp add: request_within_def q pr f workspace_request_def valid_id_def ascii_alphanumeric_def
        sample_config_def sample_limits_def)
  moreover have "pending sample_limits sample_document ''d1'' = Inr ()"
    using el by (simp add: pending_def waiting_def fj sample_limits_def)
  ultimately have ad: "admissible sample_env (\<lambda>_. None) sample_config ''app'' sample_second sample_document = Inr 300"
    by (simp add: admissible_def permits_def q ow sample_config_def)
  define k where "k = site_name [''submit'', ''s2'']"
  have fr: "fresh sample_env [''submit'', q_submission_id sample_second] = Inr k" by (simp add: k_def q)
  have vk: "valid_id k" by (simp add: k_def valid_id_def ascii_alphanumeric_def)
  define i0 where "i0 = new_call sample_env sample_limits k ''app'' sample_second (next_invocation_order sample_document) 300"
  obtain i fs where st: "store_request sample_env NoFault i0 (\<lambda>_. None) = (Inr i, fs)"
    using vk by (auto simp: store_request_def store_payload_def relative_path_def atomic_write_def i0_def
        new_call_def q split: option.splits)
  note n = store_request_new[OF st[unfolded i0_def]]
  have qi: "map_option ref_bytes (i_request_ref i) = Some 5" "i_response_bytes i = 3145728"
      "i_result_ref i = None" "i_late_result_ref i = None"
    using st vk by (auto simp: store_request_def store_payload_def relative_path_def atomic_write_def i0_def
        new_call_def q response_reserve_def workspace_request_def sample_limits_def split: option.splits)
  have ri: "q_reservation_id (i_request i) = ''d1''" using n(3) q by (simp add: compact_request_def)
  let ?c = "count_call ''d1'' sample_document"
  obtain v where v: "touch ''d1'' 100 ?c = Inr v"
    using el by (simp add: touch_def count_call_def)
  have dv: "om_vals (demands v) = [d\<lparr>d_accepted_calls := 1, d_last_activity_at := Some 100\<rparr>]"
    using v f \<open>d_accepted_calls d = 0\<close>
    by (auto simp: touch_def count_call_def upd_demand_def sample_document_def om_upd_def om_vals_def
        d_def[symmetric] sat_add_def u64_max_def unwrap_or_def)
  then have rv: "refresh_retention 300 100 v = Inr v"
    using f by (simp add: refresh_retention_def extensions_def)
  have iv: "invocations v = [(''i1'', j)]" "length (demands v) = 1"
    using touch_sel[OF v] arg_cong[OF dv, of length] by (simp_all add: sample_document_def j_def om_vals_def)
  define u where "u = v\<lparr>invocations := om_put k i (invocations v)\<rparr>"
  have uv: "set (invocations u) = {(k, i), (''i1'', j)}" "length (invocations u) = 2"
    using site_name_head[of "[''submit'', ''s2'']"] by (auto simp: u_def iv k_def)
  have iu: "invocations u = [(k, i), (''i1'', j)] \<or> invocations u = [(''i1'', j), (k, i)]"
    using site_name_head[of "[''submit'', ''s2'']"] by (auto simp: u_def iv k_def)
  have tc: "\<not> terminal_call i" "\<not> terminal_call j" using n(4) fj by (simp_all add: terminal_call_def)
  have ret: "retention sample_env sample_limits u = Inr u"
  proof -
    have c1: "compact_terminal_requests sample_env u = Inr u"
      using iu tc by (auto simp: compact_terminal_requests_def)
    have "terminal_entries sample_env u = Inr []"
      using iu tc by (auto simp: terminal_entries_def)
    then have "compact_terminal_payloads sample_env n u = Inr u" for n
      by (simp add: compact_terminal_payloads_def)
    moreover have "length (demands u) = 1" by (simp add: u_def iv)
    moreover have "sum_list (map (active_payload_commitment sample_env) (waiting u)) \<le> 20000000"
    proof -
      have "request_bytes sample_env i = 5"
        by (simp only: request_bytes_def qi(1) opt_or_simps option.case)
      then have "active_payload_commitment sample_env i \<le> 10000000"
        using qi(2-4) by (simp add: active_payload_commitment_def response_storage_commitment_def
            response_storage_bound_def sat_add_def sat_mul_def u64_max_def)
      moreover have "active_payload_commitment sample_env j \<le> 10000000"
        by (simp add: j_def sample_call_def sample_request_def active_payload_commitment_def request_bytes_def
            response_storage_commitment_def response_storage_bound_def sat_add_def sat_mul_def u64_max_def)
      moreover have "waiting u = [i, j] \<or> waiting u = [j, i]"
        using iu n(4) fj by (auto simp: waiting_def om_vals_def)
      ultimately show ?thesis by auto
    qed
    ultimately show ?thesis
      using c1 by (simp add: retention_def sample_limits_def active_payload_capacity_def sat_add_def
          sat_mul_def response_storage_bound_def
          COMPLETION_HEADROOM_BYTES_def u64_max_def API_REQUEST_BODY_BYTES_def)
  qed
  have "enqueue sample_env sample_config i ?c = Inr (i, u)"
    using n(1) by (simp add: enqueue_def ri v rv u_def[symmetric] ret sample_config_def)
  moreover have "u \<noteq> sample_document"
  proof -
    have "length (invocations sample_document) = 1" by (simp add: sample_document_def)
    then show ?thesis using uv(2) by auto
  qed
  moreover have "c_limits sample_config = sample_limits" by (simp add: sample_config_def)
  ultimately show ?thesis
    using kw ks ad fr st by (simp add: submit_op_def i0_def q)
qed

theorem submit_idempotent_witness:
  "\<exists>i t fs. sample_submit sample_document = (Inr (i, t), fs) \<and> t \<noteq> sample_document \<and>
     sample_submit t = (Inr (i, t), \<lambda>_. None)"
proof -
  obtain i t fs where r: "sample_submit sample_document = (Inr (i, t), fs)" "t \<noteq> sample_document"
    using sample_submit_runs by blast
  show ?thesis using submit_idempotent[OF r(1) sample_document_inv] r by blast
qed

theorem submit_within_limits_witness:
  "\<exists>i t fs. sample_submit sample_document = (Inr (i, t), fs) \<and> i_state i = Queued \<and>
     length (waiting t) \<le> max_pending (c_limits sample_config) \<and> orders_below t"
proof -
  obtain i t fs where r: "sample_submit sample_document = (Inr (i, t), fs)" "t \<noteq> sample_document"
    using sample_submit_runs by blast
  have "orders_below sample_document" "next_invocation_order sample_document < u64_max"
    by (simp_all add: orders_below_def sample_document_def sample_call_def u64_max_def)
  then show ?thesis using submit_within_limits[OF r(1) sample_document_inv r(2)] r(1) by blast
qed

end
