(* ===== verification/Undisturbed.thy ===== *)
theory Undisturbed
  imports Submission
begin

text \<open>
  What an operation of someone else leaves to a worker besides its demand: \<open>undisturbed s t\<close> says that the warm
  residents are the same and that no claim was taken away (claims may be added for free devices). Every
  operation of a client, a dispatcher or the supervisor is such a step.
\<close>

section \<open>Steps that take no claim away\<close>

definition undisturbed :: "document \<Rightarrow> document \<Rightarrow> bool" where
  "undisturbed s t \<longleftrightarrow> warm_residencies t = warm_residencies s \<and>
     (\<forall>r k. get_claim s r = Some k \<longrightarrow> get_claim t r = Some k)"

lemma undisturbed_same: "claims t = claims s \<Longrightarrow> warm_residencies t = warm_residencies s \<Longrightarrow> undisturbed s t"
  by (simp add: undisturbed_def)

lemma undisturbed_refl [simp]: "undisturbed s s"
  by (simp add: undisturbed_def)

lemma undisturbed_trans: "undisturbed s t \<Longrightarrow> undisturbed t u \<Longrightarrow> undisturbed s u"
  by (simp add: undisturbed_def)

lemma undisturbed_fold_res:
  assumes "fold_res f xs s = Inr t" and "\<And>x s t. x \<in> set xs \<Longrightarrow> f x s = Inr t \<Longrightarrow> undisturbed s t"
  shows "undisturbed s t"
  by (rule fold_res_invariant[OF assms(1), where I = "undisturbed s"]) (use assms(2) undisturbed_trans in auto)

lemma put_demands_warm: "warm_residencies (put_demands ds s) = warm_residencies s"
  unfolding put_demands_def by (induction ds arbitrary: s) auto

lemma other_warm [simp]:
  "warm_residencies (purge_decisions e s) = warm_residencies s" "warm_residencies (upd_call k f s) = warm_residencies s"
  "warm_residencies (release e k a s) = warm_residencies s" "warm_residencies (count_call k s) = warm_residencies s"
  by (simp_all add: purge_decisions_def release_def count_call_def upd_call_def Let_def)

lemma undisturbed_fold_calls: "undisturbed s (fold (\<lambda>k. upd_call k f) ks s)"
  by (induction ks arbitrary: s) (auto simp: undisturbed_def)

lemma undisturbed_edits [simp]:
  "undisturbed s (upd_demand k f s)" "undisturbed s (upd_call k g s)" "undisturbed s (put_demand d s)"
  "undisturbed s (put_demands ds s)" "undisturbed s (s\<lparr>invocations := m\<rparr>)" "undisturbed s (s\<lparr>demands := n\<rparr>)"
  "undisturbed s (preempted_document e by_id ks s)" "undisturbed s (supersede_calls e ks s)"
  "undisturbed s (cancel_closed e s)" "undisturbed s (purge_decisions e s)"
  "undisturbed s (remember_refusal e src kk en reason s)" "undisturbed s (trim_group_decisions e s)"
  "undisturbed s (release e k a s)" "undisturbed s (count_call k s)"
  by (rule undisturbed_same; simp add: remember_refusal_def trim_is_purge put_demands_warm)+

lemma undisturbed_left:
  "undisturbed (upd_call k f s) t = undisturbed s t" "undisturbed (purge_decisions e s) t = undisturbed s t"
  by (simp_all add: undisturbed_def)

lemma compact_loop_undisturbed: "compact_loop e limit ks n s = Inr (m, t) \<Longrightarrow> undisturbed s t"
proof (induction e limit ks n s rule: compact_loop.induct)
  case (2 e limit k ks n s)
  then show ?case
    by (auto split: if_splits option.splits sum.splits prod.splits simp: undisturbed_left)
qed simp

lemma undisturbed_retention:
  assumes "retention e l s = Inr t"
  shows "undisturbed s t"
proof -
  obtain u where u: "compact_terminal_requests e s = Inr u"
    and t: "compact_terminal_payloads e (min (terminal_evidence_bytes l) (retention_admission_bytes l div 2)) u = Inr t"
    using assms(1) by (auto simp: retention_def res_simps split: if_splits)
  have "undisturbed s u" using u by (auto simp: compact_terminal_requests_def split: sum.splits)
  moreover have "undisturbed u t"
    using t by (auto simp: compact_terminal_payloads_def Let_def res_simps split: if_splits dest: compact_loop_undisturbed)
  ultimately show ?thesis by (rule undisturbed_trans)
qed

lemma undisturbed_touch: "touch k at s = Inr t \<Longrightarrow> undisturbed s t"
  by (auto simp: touch_def split: option.splits)

lemma undisturbed_refresh_retention: "refresh_retention n at s = Inr t \<Longrightarrow> undisturbed s t"
  by (auto simp: refresh_retention_def res_simps set_deadline_def split: if_splits elim!: undisturbed_fold_res)

lemma undisturbed_claim: "claim_resource k r s = Inr t \<Longrightarrow> undisturbed s t"
  by (auto simp: claim_resource_def undisturbed_def is_some_and_iff split: if_splits)

lemma undisturbed_claims: "fold_res (claim_resource k) rs s = Inr t \<Longrightarrow> undisturbed s t"
  by (erule undisturbed_fold_res) (rule undisturbed_claim)

lemma undisturbed_fence:
  assumes "fence e site d s = Inr (d', t)"
  shows "undisturbed s t"
proof -
  obtain u where u: "fold_res (fence_victim e d) (conflicts s d) s = Inr u"
    and t: "t = supersede_calls e (conflicts s d) u \<or>
      fold_res (claim_resource (d_id d)) (p_resources (d_profile d)) (supersede_calls e (conflicts s d) u) = Inr t"
    using assms by (auto simp: fence_def Let_def res_simps split: if_splits)
  have "undisturbed s u"
    by (rule undisturbed_fold_res[OF u]) (auto simp: fence_victim_def split: option.splits if_splits)
  moreover have "undisturbed (supersede_calls e (conflicts s d) u) t" using t undisturbed_claims by auto
  ultimately show ?thesis using undisturbed_trans undisturbed_edits(8) by blast
qed

lemma undisturbed_fence_group:
  assumes "fence_group e site root_id ds s = Inr (ds', t)"
  shows "undisturbed s t"
proof -
  let ?ks = "group_conflicts s ds"
  obtain u where u: "fold_res (fence_group_victim e root_id ds) ?ks s = Inr u"
    and t: "t = supersede_calls e ?ks u \<or> fold_res claim_demand ds (supersede_calls e ?ks u) = Inr t"
    using assms by (auto simp: fence_group_def Let_def res_simps split: if_splits)
  have "undisturbed s u"
    by (rule undisturbed_fold_res[OF u]) (auto simp: fence_group_victim_def res_simps split: option.splits if_splits)
  moreover have "undisturbed (supersede_calls e ?ks u) t"
    using t undisturbed_claims by (auto elim!: undisturbed_fold_res simp: claim_demand_def)
  ultimately show ?thesis using undisturbed_trans undisturbed_edits(8) by blast
qed

lemma undisturbed_acquire:
  assumes "acquire_op e c legacy src r s = Inr (d, t)"
  shows "undisturbed s t"
  using assms
proof (cases rule: acquire_cases)
  case repeat
  then show ?thesis by simp
next
  case denied
  then show ?thesis using undisturbed_trans[OF undisturbed_edits(10) undisturbed_edits(11)] by auto
next
  case (admitted d0)
  obtain u where u: "fence e [''acquire''] d0 (purge_decisions e s) = Inr (d, u)"
      "retention e (c_limits c) (put_demand d u) = Inr t"
    using admitted(5) by (auto simp: admit_def res_simps)
  show ?thesis
    using undisturbed_fence[OF u(1)] undisturbed_retention[OF u(2)] undisturbed_edits(3,10) undisturbed_trans by metis
qed

lemma undisturbed_admit_group:
  assumes "admit_group e c public src r root_id services ds s = Inr (v, t)"
  shows "undisturbed s t"
proof -
  obtain ds' u result where u: "fence_group e [''group''] root_id ds s = Inr (ds', u)"
    and t: "retention e (c_limits c) (upd_demand root_id (\<lambda>d. d\<lparr>d_reserve_result := Some result\<rparr>)
      (upd_demand root_id (\<lambda>d. d\<lparr>d_services := services, d_reserve_request := Some r\<rparr>)
        (put_demands ds' u))) = Inr t"
    using assms(1) by (auto simp: admit_group_def Let_def res_simps split: if_splits)
  show ?thesis
    using undisturbed_fence_group[OF u] undisturbed_retention[OF t] undisturbed_edits(1,4) undisturbed_trans by metis
qed

lemma undisturbed_reserve:
  assumes "reserve_op e c legacy public again src r s = Inr (v, t)"
  shows "undisturbed s t"
proof -
  have "t = s \<or> reserve_new e c legacy public src r s = Inr (v, t)"
    using assms(1)
    by (auto simp: reserve_op_def res_bind_def split: option.splits if_splits sum.splits prod.splits)
  then show ?thesis
  proof
    assume n: "reserve_new e c legacy public src r s = Inr (v, t)"
    obtain ds where ds: "prepare_members e c src r (length (demands s)) [] (r_services r) = Inr ds"
      using n by (auto simp: reserve_new_def res_simps split: if_splits)
    obtain first rest where "ds = first # rest"
      using n ds by (auto simp: reserve_new_def res_simps split: if_splits list.splits)
    with ds have fr: "prepare_members e c src r (length (demands s)) [] (r_services r) = Inr (first # rest)" by simp
    let ?ds = "map (\<lambda>d. d\<lparr>d_reservation_id := Some (d_id first)\<rparr>) (first # rest)"
    obtain key environment where k: "group_decision_key e (src_source src) r ?ds = Inr key"
        "group_environment e s = Inr environment"
      using n fr by (auto simp: reserve_new_def Let_def res_simps split: if_splits)
    show ?thesis
    proof (cases "group_refusal e c legacy src key environment ?ds (trim_group_decisions e s)")
      case (Some reason)
      then have "claims t = claims s \<and> warm_residencies t = warm_residencies s"
        using n fr k by (auto simp: reserve_new_def Let_def res_simps trim_is_purge split: if_splits)
      then show ?thesis by (simp add: undisturbed_same)
    next
      case None
      then have "admit_group e c public src r (d_id first)
          (fold (\<lambda>d. om_put (p_tag (d_profile d)) (d_id d)) (first # rest) []) ?ds (trim_group_decisions e s) = Inr (v, t)"
        using n fr k by (auto simp: reserve_new_def Let_def res_simps split: if_splits)
      then show ?thesis by (rule undisturbed_trans[OF undisturbed_edits(12) undisturbed_admit_group])
    qed
  qed simp
qed

lemma undisturbed_refresh: "refresh_op e c legacy public owner k s = Inr (v, t) \<Longrightarrow> doc_inv s \<Longrightarrow> undisturbed s t"
  using refresh_services_same undisturbed_retention by (fastforce simp: refresh_op_def res_simps split: if_splits)

lemma undisturbed_renew: "renew e c k ttl d s = Inr t \<Longrightarrow> undisturbed s t"
  by (auto simp: renew_def split: if_splits)

lemma undisturbed_control: "apply_control e c owner k r s = Inr (d, t) \<Longrightarrow> undisturbed s t"
  by (auto simp: apply_control_def res_simps split: if_splits action.splits dest: undisturbed_renew)

lemma undisturbed_group_control:
  assumes "reservation_control e c archived owner k a s = Inr (u, t)"
  shows "undisturbed s t"
proof (cases "owned s owner k")
  case (Inl x)
  then show ?thesis using assms by (auto simp: reservation_control_def res_simps split: if_splits)
next
  case (Inr d)
  let ?s0 = "\<lambda>rt :: demand. if is_renew a then s
    else upd_demand (d_id rt) (\<lambda>x. x\<lparr>d_reservation_closed := Some (closing_state a)\<rparr>) s"
  obtain rt ids s' where s': "fold_res (control_member e c owner a) ids (?s0 rt) = Inr s'"
      "t = cancel_closed e s'"
    using assms Inr by (auto simp: reservation_control_def res_simps Let_def)
  have "undisturbed s (?s0 rt)" by simp
  moreover have "undisturbed (?s0 rt) s'"
    by (rule undisturbed_fold_res[OF s'(1)]) (auto simp: control_member_def res_simps dest: undisturbed_control)
  ultimately show ?thesis using s'(2) undisturbed_trans undisturbed_edits(9) by blast
qed

lemma undisturbed_cancel: "cancel_invocation e archived owner k s = Inr (i, t) \<Longrightarrow> undisturbed s t"
  by (auto simp: cancel_invocation_def Let_def res_simps split: option.splits if_splits intro: undisturbed_same)

lemma undisturbed_scope: "scope_control_op e l access op s = Inr (u, t) \<Longrightarrow> undisturbed s t"
  by (auto simp: undisturbed_def scope_control_op_def open_scope_def close_scope_def Let_def res_simps
      split: if_splits scope_control.splits option.splits dest!: undisturbed_retention)

lemma undisturbed_dispatch: 
  assumes "dispatch_begin e c k cand s = Inr (r, t)"
  shows "undisturbed s t"
proof -
  define s1 where "s1 = cancel_closed e s"
  obtain i d where rd: "dispatch_read k s1 = Inr (i, d)"
    using assms by (auto simp: dispatch_begin_def s1_def Let_def res_simps)
  have "undisturbed s1 t"
    using assms rd unfolding dispatch_begin_def s1_def[symmetric] Let_def
    by (auto simp: res_simps split: if_splits
        dest!: undisturbed_touch undisturbed_refresh_retention intro: undisturbed_trans undisturbed_edits(2))
  then show ?thesis using undisturbed_trans[OF undisturbed_edits(9)] s1_def by blast
qed

lemma undisturbed_finalize:
  assumes "finalize e c k b s = Inr t"
  shows "undisturbed s t"
proof (cases b)
  case True
  then show ?thesis using assms undisturbed_retention by (auto simp: finalize_def)
next
  case False
  then obtain u w where u: "touch k (now e) s = Inr u"
      "refresh_retention (c_idle_timeout_seconds c) (now e) u = Inr w" "retention e (c_limits c) w = Inr t"
    using assms(1) by (auto simp: finalize_def res_simps)
  show ?thesis
    using undisturbed_touch[OF u(1)] undisturbed_refresh_retention[OF u(2)] undisturbed_retention[OF u(3)]
      undisturbed_trans by blast
qed

lemma undisturbed_complete:
  assumes "completion_save e c wr fault call d result s fs = (Inr (u, t), fs')"
  shows "undisturbed s t"
proof -
  show ?thesis
  proof (rule completion_cases[OF assms(1)])
    fix i j
    assume "t = upd_call (i_id call) (\<lambda>_. j) (cancel_closed e s)"
    then show ?thesis using undisturbed_trans[OF undisturbed_edits(9) undisturbed_edits(2)] by simp
  next
    fix i j fs1
    assume "finalize e c (d_id d) (i_state j = Uncertain)
         (upd_call (i_id call) (\<lambda>_. j) (cancel_closed e s)) = Inr t"
    then show ?thesis using undisturbed_finalize undisturbed_edits(2,9) undisturbed_trans by metis
  qed
qed

lemma undisturbed_submit:
  assumes "submit_op e c wr fault b64 look_work look_submission owner q s fs = (Inr (i, t), fs')"
  shows "undisturbed s t"
  using assms(1)
proof (cases rule: submit_cases)
  case known
  then show ?thesis by simp
next
  case (admitted wait k)
  let ?s = "count_call (q_reservation_id q) s"
  obtain v w where v: "touch (q_reservation_id (i_request i)) (now e) ?s = Inr v"
      "refresh_retention (c_idle_timeout_seconds c) (now e) v = Inr w"
      "retention e (c_limits c) (w\<lparr>invocations := om_put (i_id i) i (invocations w)\<rparr>) = Inr t"
    using admitted(5) unfolding enqueue_def res_bind_eq_Inr by blast
  show ?thesis
    using undisturbed_touch[OF v(1)] undisturbed_refresh_retention[OF v(2)] undisturbed_retention[OF v(3)]
      undisturbed_edits(5,14) undisturbed_trans by metis
qed

lemma undisturbed_reconsider:
  assumes "reconsider_op e c rc s = Inr (u, t)"
  shows "undisturbed s t"
proof (rule reconsider_phases[OF assms])
  fix v A
  let ?q = "quarantine (cancel_closed e s)"
  let ?r = "reap (c_idle_timeout_seconds c) (now e) v"
  assume v: "refresh_retention (c_idle_timeout_seconds c) (now e) ?q = Inr v"
    and t: "t = expire_stale (now e) (?r\<lparr>demands := om_mapv (settled (now e) rc)
          (om_mapv (abandon (now e) A) (demands ?r))\<rparr>)"
  have "undisturbed s ?q" by (rule undisturbed_same) (simp_all add: quarantine_def fold_upd_demand_sel)
  moreover have "undisturbed v ?r" by (rule undisturbed_same) (simp_all add: reap_def fold_upd_demand_sel)
  moreover have "undisturbed ?r t" by (rule undisturbed_same) (simp_all add: t expire_stale_def)
  ultimately show ?thesis using undisturbed_refresh_retention[OF v] undisturbed_trans by blast
qed

lemma undisturbed_children: "reconcile_children e c cd k s = Inr (u, t) \<Longrightarrow> undisturbed s t"
  by (auto simp: reconcile_children_def Let_def res_simps split: if_splits
      intro: undisturbed_trans[OF undisturbed_fold_calls undisturbed_retention])

lemma undisturbed_persist: "persist e c cd a s = Inr (b, t) \<Longrightarrow> undisturbed s t"
  by (erule persist_cases) (auto intro: undisturbed_trans[OF undisturbed_edits(1) undisturbed_retention])

lemma undisturbed_recover: "recover e devices_bytes port s = Inr (u, t) \<Longrightarrow> undisturbed s t"
  by (auto simp: recover_def Let_def res_simps split: if_splits intro!: undisturbed_same)

end
