(* ===== verification/Lifecycle.thy ===== *)
theory Lifecycle
  imports Undisturbed
begin

text \<open>
  How a demand moves through its life when someone other than its own worker acts. A client, the
  supervisor's pass, a dispatcher or the worker of another demand may close, preempt or
  publish a demand, but never starts its backend, never forgets its process, and never brings a
  demand back to \<open>Preparing\<close>: \<open>steady\<close> says so of one demand, \<open>advances K\<close> of every demand outside
  \<open>K\<close>. Each durable operation of the runtime is shown to be such a step; the composition of
  workers in \<open>Composition\<close> rests on these facts only.
\<close>

section \<open>Steady changes of one demand\<close>

definition published :: "demand \<Rightarrow> bool" where
  "published x \<longleftrightarrow> d_state x = Ready \<or> d_state x = Preparing \<and> d_ready_checked x"

definition steady :: "demand \<Rightarrow> demand \<Rightarrow> bool" where
  "steady x y \<longleftrightarrow>
     d_effect_started y = d_effect_started x \<and> d_process y = d_process x \<and>
     d_ready_checked y = d_ready_checked x \<and> d_profile y = d_profile x \<and>
     (d_state y = Preparing \<longrightarrow> d_state x = Preparing) \<and>
     (d_state y = Ready \<longrightarrow> published x) \<and>
     (d_state y = Preempting \<longrightarrow> published x \<or> d_state x = Preempting)"

lemma steady_refl [simp]: "steady x x"
  by (simp add: steady_def published_def)

lemma steady_trans: "steady x y \<Longrightarrow> steady y z \<Longrightarrow> steady x z"
  by (auto simp: steady_def published_def)

lemma steady_sel:
  assumes "steady x y"
  shows "d_effect_started y = d_effect_started x" "d_process y = d_process x"
    "d_ready_checked y = d_ready_checked x" "d_profile y = d_profile x"
  using assms by (simp_all add: steady_def)

lemma steady_same:
  "d_effect_started y = d_effect_started x \<Longrightarrow> d_process y = d_process x \<Longrightarrow>
   d_ready_checked y = d_ready_checked x \<Longrightarrow> d_profile y = d_profile x \<Longrightarrow>
   d_state y = d_state x \<or> d_state y \<notin> {Preparing, Ready, Preempting} \<Longrightarrow> steady x y"
  by (auto simp: steady_def published_def)

section \<open>Steps of the document\<close>

definition arrives :: "demand \<Rightarrow> bool" where
  "arrives y \<longleftrightarrow> \<not> d_effect_started y \<and> d_process y = None"

definition advances :: "string set \<Rightarrow> document \<Rightarrow> document \<Rightarrow> bool" where
  "advances K s t \<longleftrightarrow> (\<forall>k. case get_demand s k of
       None \<Rightarrow> (case get_demand t k of None \<Rightarrow> True | Some y \<Rightarrow> arrives y)
     | Some x \<Rightarrow> (case get_demand t k of None \<Rightarrow> False | Some y \<Rightarrow> d_profile y = d_profile x \<and> (k \<in> K \<or> steady x y)))"

lemma advancesI:
  assumes "\<And>k x. get_demand s k = Some x \<Longrightarrow>
      \<exists>y. get_demand t k = Some y \<and> (k \<in> K \<and> d_profile y = d_profile x \<or> steady x y)"
    and "\<And>k y. get_demand s k = None \<Longrightarrow> get_demand t k = Some y \<Longrightarrow> arrives y"
  shows "advances K s t"
  unfolding advances_def
proof
  fix k
  show "case get_demand s k of
       None \<Rightarrow> (case get_demand t k of None \<Rightarrow> True | Some y \<Rightarrow> arrives y)
     | Some x \<Rightarrow> (case get_demand t k of None \<Rightarrow> False | Some y \<Rightarrow> d_profile y = d_profile x \<and> (k \<in> K \<or> steady x y))"
    using assms(1)[of k] assms(2)[of k]
    by (cases "get_demand s k"; cases "get_demand t k") (auto dest: steady_sel(4))
qed

lemma advances_Some:
  assumes "advances K s t" and "get_demand s k = Some x"
  obtains y where "get_demand t k = Some y" "k \<notin> K \<Longrightarrow> steady x y" "d_profile y = d_profile x"
proof -
  have "case get_demand s k of
       None \<Rightarrow> (case get_demand t k of None \<Rightarrow> True | Some y \<Rightarrow> arrives y)
     | Some x \<Rightarrow> (case get_demand t k of
           None \<Rightarrow> False | Some y \<Rightarrow> d_profile y = d_profile x \<and> (k \<in> K \<or> steady x y))"
    using assms(1) unfolding advances_def by (rule spec)
  then show thesis using that assms(2) by (cases "get_demand t k") auto
qed

lemma advances_new:
  assumes "advances K s t" and "get_demand s k = None" and "get_demand t k = Some y"
  shows "arrives y"
proof -
  have "case get_demand s k of
       None \<Rightarrow> (case get_demand t k of None \<Rightarrow> True | Some y \<Rightarrow> arrives y)
     | Some x \<Rightarrow> (case get_demand t k of
           None \<Rightarrow> False | Some y \<Rightarrow> d_profile y = d_profile x \<and> (k \<in> K \<or> steady x y))"
    using assms(1) unfolding advances_def by (rule spec)
  then show ?thesis using assms(2,3) by simp
qed

lemma advances_refl [simp]: "advances K s s"
  by (rule advancesI) auto

lemma advances_demands: "demands t = demands s \<Longrightarrow> advances K s t"
  by (rule advancesI) auto

lemma advances_kept: "demands_kept s t \<Longrightarrow> advances K s t"
  by (rule advances_demands) (simp add: demands_kept_def)

lemma advances_trans:
  assumes "advances K s t" and "advances {} t u"
  shows "advances K s u"
proof (rule advancesI)
  fix k x
  assume "get_demand s k = Some x"
  then obtain y where y: "get_demand t k = Some y" "k \<notin> K \<Longrightarrow> steady x y" "d_profile y = d_profile x"
    using advances_Some[OF assms(1)] by blast
  obtain z where "get_demand u k = Some z" "steady y z"
    using advances_Some[OF assms(2) y(1)] by blast
  then show "\<exists>z. get_demand u k = Some z \<and> (k \<in> K \<and> d_profile z = d_profile x \<or> steady x z)"
    using y(2,3) steady_trans steady_sel(4) by metis
next
  fix k z
  assume s: "get_demand s k = None" and u: "get_demand u k = Some z"
  show "arrives z"
  proof (cases "get_demand t k")
    case None
    then show ?thesis by (rule advances_new[OF assms(2) _ u])
  next
    case (Some y)
    have "steady y z" using advances_Some[OF assms(2) Some] u by (metis empty_iff option.inject)
    then show ?thesis using advances_new[OF assms(1) s Some] by (simp add: arrives_def steady_def)
  qed
qed

lemma advances_upd:
  assumes "\<And>x. get_demand s k = Some x \<Longrightarrow> k \<in> K \<and> d_profile (f x) = d_profile x \<or> steady x (f x)"
  shows "advances K s (upd_demand k f s)"
  by (rule advancesI) (use assms in \<open>auto split: if_splits\<close>)

lemma advances_mapv:
  assumes "\<And>k x. get_demand s k = Some x \<Longrightarrow> steady x (f x)"
  shows "advances K s (s\<lparr>demands := om_mapv f (demands s)\<rparr>)"
  by (rule advancesI) (use assms in auto)

lemma advances_selected:
  assumes "doc_inv s" and "\<And>k x. get_demand s k = Some x \<Longrightarrow> p x \<Longrightarrow> steady x (f x)"
  shows "advances K s (fold (\<lambda>k. upd_demand k f) (map d_id (filter p (om_vals (demands s)))) s)"
  by (rule advancesI) (use assms(2) in \<open>auto simp: update_selected_get[OF assms(1)]\<close>)

lemma advances_fold_res:
  assumes "fold_res f xs s = Inr t"
    and "\<And>x s t. x \<in> set xs \<Longrightarrow> f x s = Inr t \<Longrightarrow> advances {} s t"
  shows "advances {} s t"
  by (rule fold_res_invariant[OF assms(1), where I = "advances {} s"])
    (use assms(2) advances_trans in \<open>auto\<close>)

section \<open>Reading the accounts, the clock and the limits\<close>

lemma retention_advances: "retention e l s = Inr t \<Longrightarrow> doc_inv s \<Longrightarrow> advances K s t"
  by (rule advances_kept) (rule retention_demands_kept)

lemma touch_advances: "touch k at s = Inr t \<Longrightarrow> advances K s t"
  by (auto simp: touch_def split: option.splits intro!: advances_upd steady_same)

lemma set_deadline_advances: "set_deadline u s = Inr t \<Longrightarrow> advances K s t"
  by (auto simp: set_deadline_def split: if_splits intro!: advances_upd steady_same)

lemma refresh_retention_advances: "refresh_retention n at s = Inr t \<Longrightarrow> advances {} s t"
  by (auto simp: refresh_retention_def res_simps intro: advances_fold_res set_deadline_advances)

lemma advances_put:
  "get_demand s (d_id d) = None \<Longrightarrow> arrives d \<Longrightarrow> advances K s (put_demand d s)"
  by (rule advancesI) (auto split: if_splits)

section \<open>Admission\<close>

lemma preempt_steady: "d_state v = Ready \<Longrightarrow> steady v (preempt t by_id v)"
  by (simp add: steady_def published_def preempt_def)

lemma preempted_advances:
  assumes "distinct ks" and "\<forall>k \<in> set ks. \<exists>v. get_demand s k = Some v \<and> d_state v = Ready"
  shows "advances K s (preempted_document e by_id ks s)"
  by (rule advancesI) (use assms preempt_steady in \<open>auto simp: preempted_document_get split: if_splits\<close>)

lemma fence_advances:
  assumes "fence e site d s = Inr (d', t)" and "get_demand s (d_id d) = None" and "d_process d = None"
  shows "advances {} s (put_demand d' t)"
proof -
  note r = fence_result[OF assms(1)]
  let ?u = "preempted_document e (d_id d) (conflicts s d) s"
  have u: "advances {} s ?u" by (rule preempted_advances) (use r(2) in auto)
  have t: "demands t = demands ?u" using r(3) by (simp add: Let_def split: if_splits)
  have "get_demand t (d_id d') = None" "arrives d'"
    using r(1) assms(2,3) by (simp_all add: t preempted_document_get fenced_def arrives_def)
  then show ?thesis
    using advances_trans[OF advances_trans[OF u advances_demands[OF t]] advances_put] by blast
qed

lemma acquire_advances:
  assumes "acquire_op e c legacy src r s = Inr (d, t)" and "doc_inv s" and "fresh_ids e s"
  shows "advances {} s t"
  using assms(1)
proof (cases rule: acquire_cases)
  case repeat
  then show ?thesis by simp
next
  case denied
  have p: "doc_inv (purge_decisions e s)" "advances {} s (purge_decisions e s)"
    using purge_decisions_kept[OF assms(2)] demands_kept_doc_inv[OF assms(2)] advances_kept by blast+
  have "advances {} (purge_decisions e s) (remember_refusal e src k en reason (purge_decisions e s))"
    for k en reason
    by (rule advances_kept[OF remember_refusal_kept[OF p(1)]])
  then show ?thesis using denied(2) p(2) advances_trans[OF p(2)] by auto
next
  case (admitted d0)
  let ?s = "purge_decisions e s"
  have i: "doc_inv ?s" by (rule demands_kept_doc_inv[OF assms(2) purge_decisions_kept[OF assms(2)]])
  have g: "get_demand ?s (d_id d0) = None"
    using prepare_result(3)[OF admitted(2)] assms(3) by (auto simp: fresh_ids_def)
  note pr = prepare_result[OF admitted(2)]
  obtain u where u: "fence e [''acquire''] d0 ?s = Inr (d, u)"
      "retention e (c_limits c) (put_demand d u) = Inr t"
    using admitted(5) by (auto simp: admit_def res_simps)
  have "doc_inv (put_demand d u)"
    by (rule fence_put_inv[OF u(1) i pr(1)]) (use g in simp)
  then have "advances {} (put_demand d u) t" by (rule retention_advances[OF u(2)])
  moreover have "advances {} s ?s" by (rule advances_demands) simp
  ultimately show ?thesis
    using fence_advances[OF u(1) g pr(8)] advances_trans by blast
qed

lemma put_demands_advances:
  assumes "distinct (map d_id ds)"
    and "\<And>d. d \<in> set ds \<Longrightarrow> get_demand s (d_id d) = None \<and> arrives d"
  shows "advances K s (put_demands ds s)"
proof (rule advancesI)
  fix k x
  assume x: "get_demand s k = Some x"
  then have "k \<notin> d_id ` set ds" using assms(2) by force
  then show "\<exists>y. get_demand (put_demands ds s) k = Some y \<and> (k \<in> K \<and> d_profile y = d_profile x \<or> steady x y)"
    using x by (simp add: put_demands_other)
next
  fix k y
  assume "get_demand s k = None" "get_demand (put_demands ds s) k = Some y"
  moreover from this have "k \<in> d_id ` set ds" using put_demands_other[of k ds s] by force
  ultimately show "arrives y" using put_demands_get'[OF assms(1), of k s] assms(2) by fastforce
qed

lemma fence_group_advances:
  assumes "fence_group e site root_id ds s = Inr (ds', t)"
    and "distinct (map d_id ds)" "\<And>d. d \<in> set ds \<Longrightarrow> get_demand s (d_id d) = None"
    and "\<And>d. d \<in> set ds \<Longrightarrow> d_process d = None"
  shows "advances {} s (put_demands ds' t)"
proof -
  let ?ks = "group_conflicts s ds"
  let ?u = "preempted_document e root_id ?ks s"
  note r = fence_group_result[OF assms(1)]
  have u: "advances {} s ?u" by (rule preempted_advances) (use r(2) in auto)
  have t: "demands t = demands ?u"
  proof (cases "?ks = []")
    case True
    then have "fold_res claim_demand ds ?u = Inr t" using r(3) by (simp add: Let_def)
    then show ?thesis
      by (rule fold_res_invariant[where I = "\<lambda>x. demands x = demands ?u"])
        (auto simp: claim_demand_def dest!: claim_resources_ok)
  qed (use r(3) in \<open>simp add: Let_def\<close>)
  have ids: "map d_id ds' = map d_id ds" by (rule fenced_list_ids[OF r(1)])
  have ds': "\<exists>d \<in> set ds. fenced d ?ks d'" if "d' \<in> set ds'" for d'
    using r(1) that by (auto simp: list_all2_conv_all_nth in_set_conv_nth) (metis nth_mem)
  have "advances {} t (put_demands ds' t)"
  proof (rule put_demands_advances)
    show "distinct (map d_id ds')" using ids assms(2) by simp
    fix d'
    assume "d' \<in> set ds'"
    then obtain d where d: "d \<in> set ds" "fenced d ?ks d'" using ds' by blast
    then show "get_demand t (d_id d') = None \<and> arrives d'"
      using assms(3,4)[OF d(1)] by (simp add: t preempted_document_get fenced_def arrives_def)
  qed
  then show ?thesis using advances_trans[OF advances_trans[OF u advances_demands[OF t]]] by blast
qed

lemma admit_group_advances:
  assumes "admit_group e c public src r root_id services ds s = Inr (v, t)" "doc_inv s"
    and "distinct (map d_id ds)" "\<And>d. d \<in> set ds \<Longrightarrow> get_demand s (d_id d) = None"
    and "\<And>d. d \<in> set ds \<Longrightarrow> d_process d = None"
  shows "advances {} s t"
proof -
  obtain ds' u result where u: "fence_group e [''group''] root_id ds s = Inr (ds', u)"
    and t: "retention e (c_limits c) (upd_demand root_id (\<lambda>d. d\<lparr>d_reserve_result := Some result\<rparr>)
      (upd_demand root_id (\<lambda>d. d\<lparr>d_services := services, d_reserve_request := Some r\<rparr>)
        (put_demands ds' u))) = Inr t"
    using assms(1) by (auto simp: admit_group_def Let_def res_simps split: if_splits)
  define p where "p = put_demands ds' u"
  define w where "w = upd_demand root_id (\<lambda>d. d\<lparr>d_services := services, d_reserve_request := Some r\<rparr>) p"
  define w' where "w' = upd_demand root_id (\<lambda>d. d\<lparr>d_reserve_result := Some result\<rparr>) w"
  have "doc_inv p" unfolding p_def by (rule fence_group_put_inv[OF u assms(2,3,4)])
  then have "doc_inv w" unfolding w_def by (intro upd_demand_inv) simp_all
  then have "doc_inv w'" unfolding w'_def by (intro upd_demand_inv) simp_all
  then have "advances {} w' t"
    using retention_advances t unfolding w'_def w_def p_def by blast
  moreover have "advances {} s p" unfolding p_def by (rule fence_group_advances[OF u assms(3,4,5)])
  moreover have "advances {} p w" unfolding w_def by (rule advances_upd) (simp add: steady_same)
  moreover have "advances {} w w'" unfolding w'_def by (rule advances_upd) (simp add: steady_same)
  ultimately show ?thesis using advances_trans by blast
qed

lemma reserve_new_advances:
  assumes "reserve_new e c legacy public src r s = Inr (v, t)" "doc_inv s" "fresh_ids e s"
  shows "advances {} s t"
proof -
  obtain ds where ds: "prepare_members e c src r (length (demands s)) [] (r_services r) = Inr ds"
      "distinct (r_services r)"
    using assms(1) by (auto simp: reserve_new_def res_simps split: if_splits)
  obtain first rest where fr: "ds = first # rest"
    using assms(1) ds by (auto simp: reserve_new_def res_simps split: if_splits list.splits)
  let ?ds = "map (\<lambda>d. d\<lparr>d_reservation_id := Some (d_id first)\<rparr>) ds"
  let ?s = "trim_group_decisions e s"
  have inv: "doc_inv ?s" by (rule trim_kept[OF assms(2)])
  note m = prepare_members_result[OF ds(1)]
  have ids: "distinct (map d_id ?ds)" "\<And>d. d \<in> set ?ds \<Longrightarrow> get_demand ?s (d_id d) = None"
    using new_member_ids[OF conjunct1[OF m] ds(2) assms(3)] by (auto simp: comp_def trim_is_purge)
  have pr: "d_process d = None" if "d \<in> set ?ds" for d
    using that conjunct1[OF m] by (auto simp: list_all2_conv_all_nth in_set_conv_nth new_member_def)
  have s: "advances {} s ?s" by (rule advances_demands) (simp add: trim_is_purge)
  obtain key environment where k: "group_decision_key e (src_source src) r ?ds = Inr key"
      "group_environment e s = Inr environment"
    using assms(1) ds fr by (auto simp: reserve_new_def Let_def res_simps split: if_splits)
  show ?thesis
  proof (cases "group_refusal e c legacy src key environment ?ds ?s")
    case (Some reason)
    then have "demands t = demands s"
      using assms(1) ds fr k
      by (auto simp: reserve_new_def Let_def res_simps trim_is_purge split: if_splits)
    then show ?thesis by (rule advances_demands)
  next
    case None
    then have "admit_group e c public src r (d_id first)
        (fold (\<lambda>d. om_put (p_tag (d_profile d)) (d_id d)) ds []) ?ds ?s = Inr (v, t)"
      using assms(1) ds fr k by (auto simp: reserve_new_def Let_def res_simps split: if_splits)
    then show ?thesis by (rule advances_trans[OF s admit_group_advances[OF _ inv ids pr]])
  qed
qed

lemma reserve_advances:
  assumes "reserve_op e c legacy public again src r s = Inr (v, t)" "doc_inv s" "fresh_ids e s"
  shows "advances {} s t"
proof -
  have "t = s \<or> reserve_new e c legacy public src r s = Inr (v, t)"
    using assms(1)
    by (auto simp: reserve_op_def res_bind_def split: option.splits if_splits sum.splits prod.splits)
  then show ?thesis using reserve_new_advances assms(2,3) by auto
qed

lemma refresh_advances:
  assumes "refresh_op e c legacy public owner k s = Inr (v, t)" "doc_inv s"
  shows "advances {} s t"
  by (rule advances_demands[OF refresh_inv(2)[OF assms]])

section \<open>Control\<close>

lemma begin_release_steady: "steady d (begin_release t a d)"
proof -
  have "d_ready_checked (begin_release t a d) = d_ready_checked d"
    by (simp add: begin_release_def Let_def cong: if_cong)
  moreover have "d_state (begin_release t a d) = d_state d \<or>
      d_state (begin_release t a d) \<notin> {Preparing, Ready, Preempting}"
    by (simp add: begin_release_state)
  ultimately show ?thesis by (intro steady_same) simp_all
qed

lemma release_advances: "advances K s (release e k a s)"
proof -
  have u: "advances K s (upd_demand k (begin_release (now e) a) s)"
    by (rule advances_upd) (simp add: begin_release_steady)
  show ?thesis
    unfolding release_def Let_def by (rule advances_trans[OF u advances_demands]) simp
qed

lemma renew_advances: "renew e c k ttl d s = Inr t \<Longrightarrow> advances K s t"
  by (auto simp: renew_def split: if_splits intro!: advances_upd steady_same)

lemma apply_control_advances:
  "apply_control e c owner k r s = Inr (d, t) \<Longrightarrow> advances {} s t"
  by (auto simp: apply_control_def res_simps split: if_splits action.splits
      intro: release_advances dest: renew_advances)

lemma reservation_control_advances:
  assumes "reservation_control e c archived owner k a s = Inr (u, t)"
  shows "advances {} s t"
proof (cases "owned s owner k")
  case (Inl x)
  then show ?thesis using assms by (auto simp: reservation_control_def res_simps split: if_splits)
next
  case (Inr d)
  let ?s0 = "\<lambda>rt :: demand. if is_renew a then s
    else upd_demand (d_id rt) (\<lambda>x. x\<lparr>d_reservation_closed := Some (closing_state a)\<rparr>) s"
  obtain rt ids s' where s': "fold_res (control_member e c owner a) ids (?s0 rt) = Inr s'"
      "t = cancel_closed e s'"
    using assms Inr by (auto simp: reservation_control_def res_simps Let_def)
  have "advances {} s (?s0 rt)" by (auto intro!: advances_upd steady_same)
  moreover have "advances {} (?s0 rt) s'"
    by (rule advances_fold_res[OF s'(1)]) (auto simp: control_member_def res_simps dest: apply_control_advances)
  moreover have "advances {} s' t" using s'(2) by (intro advances_demands) simp
  ultimately show ?thesis using advances_trans by blast
qed

lemma cancel_invocation_advances:
  assumes "cancel_invocation e archived owner k s = Inr (i, t)"
  shows "advances {} s t"
  using assms by (intro advances_demands)
    (auto simp: cancel_invocation_def Let_def res_simps split: option.splits if_splits)

lemma scope_control_advances:
  "scope_control_op e l access op s = Inr (u, t) \<Longrightarrow> doc_inv s \<Longrightarrow> advances {} s t"
  by (auto simp: scope_control_op_def res_simps split: if_splits scope_control.splits
      dest: open_scope_kept close_scope_kept intro!: advances_kept)

section \<open>Calls\<close>

lemma dispatch_begin_advances:
  assumes "dispatch_begin e c k cand s = Inr (r, t)"
  shows "advances {} s t"
proof -
  define s1 where "s1 = cancel_closed e s"
  have d1: "advances {} s s1" unfolding s1_def by (rule advances_demands) simp
  obtain i d where rd: "dispatch_read k s1 = Inr (i, d)"
    using assms by (auto simp: dispatch_begin_def s1_def Let_def res_simps)
  consider "demands t = demands s1" | u w where "touch (d_id d) (now e) s1 = Inr u"
        "refresh_retention (c_idle_timeout_seconds c) (now e) u = Inr w" "demands t = demands w"
    using assms rd unfolding dispatch_begin_def s1_def[symmetric] Let_def
    by (auto simp: res_simps split: if_splits)
  then have "advances {} s1 t"
  proof cases
    case 1
    then show ?thesis by (rule advances_demands)
  next
    case 2
    have "advances {} s1 w"
      by (rule advances_trans[OF touch_advances[OF 2(1)] refresh_retention_advances[OF 2(2)]])
    then show ?thesis by (rule advances_trans[OF _ advances_demands[OF 2(3)]])
  qed
  then show ?thesis by (rule advances_trans[OF d1])
qed

lemma finalize_advances:
  assumes "finalize e c k b s = Inr t" and "doc_inv s"
  shows "advances {} s t"
proof (cases b)
  case True
  then show ?thesis using assms retention_advances by (auto simp: finalize_def)
next
  case False
  then obtain u w where u: "touch k (now e) s = Inr u"
      "refresh_retention (c_idle_timeout_seconds c) (now e) u = Inr w" "retention e (c_limits c) w = Inr t"
    using assms(1) by (auto simp: finalize_def res_simps)
  have "doc_inv u" using touch_kept[OF u(1) assms(2)] claims_kept_doc_inv[OF assms(2)] by blast
  then have "doc_inv w" by (rule refresh_retention_inv[OF u(2)])
  then show ?thesis
    using advances_trans[OF touch_advances[OF u(1)] refresh_retention_advances[OF u(2)]]
      retention_advances[OF u(3)] advances_trans by blast
qed

lemma completion_save_advances:
  assumes "completion_save e c wr fault call d result s fs = (Inr (u, t), fs')" and "doc_inv s"
  shows "advances {} s t"
proof -
  have d1: "advances {} s (cancel_closed e s)" by (rule advances_demands) simp
  have i1: "doc_inv (cancel_closed e s)"
    by (rule demands_kept_doc_inv[OF assms(2) cancel_closed_kept[OF assms(2)]])
  show ?thesis
  proof (rule completion_cases[OF assms(1)])
    fix i j
    assume "t = upd_call (i_id call) (\<lambda>_. j) (cancel_closed e s)"
    then show ?thesis by (intro advances_demands) simp
  next
    fix i j fs1
    assume g: "get_call (cancel_closed e s) (i_id call) = Some i"
      and "record_answer e wr call d result i fs = (Inr j, fs1)"
      and f: "finalize e c (d_id d) (i_state j = Uncertain)
         (upd_call (i_id call) (\<lambda>_. j) (cancel_closed e s)) = Inr t"
    then have j: "i_id j = i_id i" using record_answer_sel by blast
    let ?w = "upd_call (i_id call) (\<lambda>_. j) (cancel_closed e s)"
    have "doc_inv ?w" by (rule demands_kept_doc_inv[OF i1 set_call_kept[OF i1 g j]])
    then have "advances {} ?w t" by (rule finalize_advances[OF f])
    moreover have "advances {} (cancel_closed e s) ?w" by (rule advances_demands) simp
    ultimately show ?thesis using d1 advances_trans by blast
  qed
qed

lemma count_call_advances: "advances K s (count_call k s)"
proof -
  have u: "advances K s (upd_demand k (\<lambda>d. d\<lparr>d_accepted_calls := sat_add (d_accepted_calls d) 1\<rparr>) s)"
    by (rule advances_upd) (simp add: steady_same)
  show ?thesis
    unfolding count_call_def by (rule advances_trans[OF u advances_demands]) simp
qed

lemma enqueue_advances:
  assumes "enqueue e c i s = Inr (i', t)" and "doc_inv s"
  shows "advances {} s t"
proof -
  obtain v w where v: "touch (q_reservation_id (i_request i)) (now e) s = Inr v"
      "refresh_retention (c_idle_timeout_seconds c) (now e) v = Inr w"
      "retention e (c_limits c) (w\<lparr>invocations := om_put (i_id i) i (invocations w)\<rparr>) = Inr t"
    using assms(1) unfolding enqueue_def res_bind_eq_Inr by blast
  let ?u = "w\<lparr>invocations := om_put (i_id i) i (invocations w)\<rparr>"
  have "doc_inv v" using touch_kept[OF v(1)] claims_kept_doc_inv assms(2) by blast
  then have wi: "doc_inv w" by (rule refresh_retention_inv[OF v(2)])
  have "demands_kept w ?u"
    using doc_inv_maps[OF wi] doc_inv_calls_ok[OF wi] by (simp add: demands_kept_def maps_ok_def calls_ok_def)
  then have "doc_inv ?u" "advances {} w ?u" using demands_kept_doc_inv[OF wi] advances_kept by blast+
  then show ?thesis
    using advances_trans[OF touch_advances[OF v(1)] refresh_retention_advances[OF v(2)]]
      retention_advances[OF v(3)] advances_trans by blast
qed

lemma submit_advances:
  assumes "submit_op e c wr fault b64 look_work look_submission owner q s fs = (Inr (i, t), fs')"
    and "doc_inv s"
  shows "advances {} s t"
  using assms(1)
proof (cases rule: submit_cases)
  case known
  then show ?thesis by simp
next
  case (admitted wait k)
  then show ?thesis
    using advances_trans[OF count_call_advances enqueue_advances[OF _ count_call_inv[OF assms(2)]]]
    by blast
qed

section \<open>The supervisor's pass, recovery of workspaces, and start-up\<close>

lemma quarantine_advances: "doc_inv s \<Longrightarrow> advances {} s (quarantine s)"
  unfolding quarantine_def by (rule advances_selected) (auto intro!: steady_same simp: quarantined_def)

lemma reap_advances: "doc_inv s \<Longrightarrow> advances {} s (reap n at s)"
  unfolding reap_def by (rule advances_selected) (auto intro!: steady_same simp: expire_def)

lemma abandon_steady: "steady d (abandon t A d)"
  by (rule steady_same) (simp_all add: abandon_def)

lemma settled_steady: "steady d (settled t rc d)"
  by (rule steady_same) (auto simp: settled_def close_elapsed_state)

lemma reconsider_advances:
  assumes "reconsider_op e c rc s = Inr (u, t)" and "doc_inv s"
  shows "advances {} s t"
proof (rule reconsider_phases[OF assms(1)])
  fix v A
  let ?q = "quarantine (cancel_closed e s)"
  let ?r = "reap (c_idle_timeout_seconds c) (now e) v"
  let ?a = "?r\<lparr>demands := om_mapv (abandon (now e) A) (demands ?r)\<rparr>"
  let ?m = "?a\<lparr>demands := om_mapv (settled (now e) rc) (demands ?a)\<rparr>"
  assume v: "refresh_retention (c_idle_timeout_seconds c) (now e) ?q = Inr v"
    and t: "t = expire_stale (now e) (?r\<lparr>demands := om_mapv (settled (now e) rc)
          (om_mapv (abandon (now e) A) (demands ?r))\<rparr>)"
  have c: "doc_inv (cancel_closed e s)"
    by (rule demands_kept_doc_inv[OF assms(2) cancel_closed_kept[OF assms(2)]])
  then have "doc_inv ?q" using claims_kept_doc_inv quarantine_kept by blast
  then have i: "doc_inv v" by (rule refresh_retention_inv[OF v])
  have "advances {} s (cancel_closed e s)" by (rule advances_demands) simp
  moreover have "advances {} (cancel_closed e s) ?q" by (rule quarantine_advances[OF c])
  moreover have "advances {} ?q v" by (rule refresh_retention_advances[OF v])
  moreover have "advances {} v ?r" by (rule reap_advances[OF i])
  moreover have "advances {} ?r ?a" by (rule advances_mapv) (rule abandon_steady)
  moreover have "advances {} ?a ?m" by (rule advances_mapv) (rule settled_steady)
  moreover have "advances {} ?m t" unfolding t by (rule advances_demands) (simp add: expire_stale_def)
  ultimately show ?thesis using advances_trans by blast
qed

lemma reconcile_children_advances:
  "reconcile_children e c cd k s = Inr (u, t) \<Longrightarrow> doc_inv s \<Longrightarrow> advances {} s t"
  by (rule advances_kept) (rule reconcile_children_kept)

lemma persist_advances:
  assumes "persist e c cd a s = Inr (b, t)" and "doc_inv s"
  shows "advances {} s t"
proof (rule persist_cases[OF assms(1)])
  fix parent
  let ?u = "upd_demand (d_id (cd_demand cd)) (\<lambda>d.
      d\<lparr>d_workspace_recovery_analyses := om_put (i_id parent) a (d_workspace_recovery_analyses d),
        d_recovery_error := Some WORKSPACE_RECOVERY_BLOCKER, d_transition_deadline := now e\<rparr>) s"
  assume "b = False \<and> t = s \<or> b \<and> retention e (c_limits c) ?u = Inr t"
  moreover have "doc_inv ?u" by (rule upd_demand_same_inv[OF assms(2)]) simp
  moreover have "advances {} s ?u" by (rule advances_upd) (simp add: steady_same)
  ultimately show ?thesis using retention_advances advances_trans by auto
qed

lemma recover_advances:
  assumes "recover e devices_bytes port s = Inr (u, t)"
  shows "advances {} s t"
proof (rule advancesI)
  have t: "demands t = om_mapv restart_demand (demands s)"
    using assms by (auto simp: recover_def Let_def res_simps split: if_splits)
  fix k x
  assume "get_demand s k = Some x"
  moreover have "steady x (restart_demand x)"
    by (rule steady_same) (simp_all add: restart_demand_def)
  ultimately show "\<exists>y. get_demand t k = Some y \<and> (k \<in> {} \<and> d_profile y = d_profile x \<or> steady x y)" by (simp add: t)
next
  have t: "demands t = om_mapv restart_demand (demands s)"
    using assms by (auto simp: recover_def Let_def res_simps split: if_splits)
  fix k y
  assume "get_demand s k = None" "get_demand t k = Some y"
  then show "arrives y" by (simp add: t)
qed

lemma recover_inv:
  assumes "recover e devices_bytes port s = Inr (u, t)" and "doc_inv s"
  shows "doc_inv t"
proof -
  have t: "claims t = claims s" "demands t = om_mapv restart_demand (demands s)"
      "invocations t = om_mapv restart_call (invocations s)" "maps_ok t"
    using assms by (auto simp: recover_def Let_def res_simps doc_inv_def maps_ok_def split: if_splits)
  have st: "demand_step s x (restart_demand x)" if "get_demand s k = Some x" for k x
    using doc_inv_live[OF assms(2) that] doc_inv_effect[OF assms(2) that]
    by (auto simp: demand_step_def restart_demand_def live_ok_def)
  have "calls_ok t" using doc_inv_call_id[OF assms(2)] by (auto simp: calls_ok_def t)
  then have "claims_kept s t"
    using t st by (auto simp: claims_kept_def split: option.splits)
  then show ?thesis by (rule claims_kept_doc_inv[OF assms(2)])
qed

section \<open>The contract of an operation that owns no backend\<close>

text \<open>
  What the workers rely on when someone else commits a transaction: the invariant of the document
  is kept, no demand disappears, a demand that was there keeps its profile, its process
  and the record of its backend, no claim is taken away, and the warm residents stay as they are.
\<close>

locale bystander = authority_op doc_inv Pre action
  for Pre :: "document \<Rightarrow> bool" and action :: "document \<Rightarrow> ('r \<times> document) res" +
  assumes bystands: "action s = Inr (r, t) \<Longrightarrow> doc_inv s \<Longrightarrow> Pre s \<Longrightarrow> advances {} s t"
    and disturbs_nothing: "action s = Inr (r, t) \<Longrightarrow> doc_inv s \<Longrightarrow> undisturbed s t"
begin

lemma commits:
  assumes "action s = Inr (r, t)" and "doc_inv s" and "Pre s"
  shows "doc_inv t \<and> advances {} s t \<and> undisturbed s t"
  using keeps[OF assms(2,3,1)] bystands[OF assms] disturbs_nothing[OF assms(1,2)] by blast

lemma backend_record_kept:
  assumes "action s = Inr (r, t)" and "doc_inv s" and "Pre s" and "get_demand s k = Some x"
  shows "\<exists>y. get_demand t k = Some y \<and> d_effect_started y = d_effect_started x \<and>
    d_process y = d_process x \<and> d_profile y = d_profile x"
proof -
  obtain y where "get_demand t k = Some y" "steady x y"
    using advances_Some[OF bystands[OF assms(1-3)] assms(4)] by blast
  then show ?thesis by (simp add: steady_def)
qed

end

interpretation acquire: bystander "fresh_ids e" "acquire_op e c legacy src r" for e c legacy src r
  by unfold_locales (rule acquire_advances undisturbed_acquire; assumption)+

interpretation reserve: bystander "fresh_ids e" "reserve_op e c legacy public again src r"
  for e c legacy public again src r
  by unfold_locales (rule reserve_advances undisturbed_reserve; assumption)+

interpretation refresh: bystander "\<lambda>_. True" "refresh_op e c legacy public owner k"
  for e c legacy public owner k
  by unfold_locales (rule refresh_advances undisturbed_refresh; assumption)+

interpretation control: bystander "\<lambda>_. True" "apply_control e c owner k r" for e c owner k r
  by unfold_locales (rule apply_control_advances undisturbed_control; assumption)+

interpretation group_control: bystander "\<lambda>_. True" "reservation_control e c archived owner k a"
  for e c archived owner k a
  by unfold_locales (rule reservation_control_advances undisturbed_group_control; assumption)+

interpretation cancel_call: bystander "\<lambda>_. True" "cancel_invocation e archived owner k"
  for e archived owner k
  by unfold_locales (rule cancel_invocation_advances undisturbed_cancel; assumption)+

interpretation scopes: bystander "\<lambda>_. True" "scope_control_op e l access op" for e l access op
  by unfold_locales (rule scope_control_advances undisturbed_scope; assumption)+

interpretation submit: bystander "\<lambda>_. True"
  "\<lambda>s. fst (submit_op e c wr fault b64 look_work look_submission owner q s fs)"
  for e c wr fault b64 look_work look_submission owner q fs
  by unfold_locales ((metis submit_advances prod.collapse) | (metis undisturbed_submit prod.collapse))+

interpretation dispatch: bystander "\<lambda>_. True" "dispatch_begin e c k cand" for e c k cand
  by unfold_locales (rule dispatch_begin_advances undisturbed_dispatch; assumption)+

interpretation complete: bystander "\<lambda>_. True"
  "\<lambda>s. fst (completion_save e c wr fault call d result s fs)" for e c wr fault call d result fs
  by unfold_locales ((metis completion_save_advances prod.collapse) | (metis undisturbed_complete prod.collapse))+

interpretation children: bystander "\<lambda>_. True" "reconcile_children e c cd k" for e c cd k
  by unfold_locales (rule reconcile_children_advances undisturbed_children; assumption)+

interpretation analysis: bystander "\<lambda>_. True" "persist e c cd a" for e c cd a
  by unfold_locales (rule persist_advances undisturbed_persist; assumption)+

interpretation pass: bystander "\<lambda>_. True" "reconsider_op e c rc" for e c rc
  by unfold_locales (rule reconsider_advances undisturbed_reconsider; assumption)+

interpretation restart: bystander "\<lambda>_. True" "recover e devices_bytes port" for e devices_bytes port
  by unfold_locales (rule recover_inv recover_advances undisturbed_recover; assumption)+

end
