(* ===== verification/Runtime_System.thy ===== *)
theory Runtime_System
  imports Lifecycle
begin

text \<open>
  The runtime as a whole: one authority document, one worker at most per demand (the record lock of
  \<open>workers.rs\<close>), and the backends that run. Clients, dispatchers and the supervisor's pass change
  the document at any moment between two steps of a worker (\<open>service_step\<close>). A worker follows
  \<open>Transition::advance\<close>, \<open>Retirement::run\<close> or \<open>Recovery::advance\<close> on the snapshot it read, one
  transaction or one effect at a time (\<open>worker_step\<close>). A backend may end by itself, and the
  process may crash at any moment and start again (\<open>sys_step\<close>).

  A backend that runs serves a demand (\<open>sys_live\<close>), or it is a warm resident (\<open>sys_warm\<close>): a container that
  \<open>cache_after_release\<close> left loaded when its demand closed and gave its claims back. A resident runs on
  without a claim until a demand of the same profile adopts it, a worker evicts it, or it ends. What
  keeps a new backend off its devices is \<open>Preflight::empty\<close> before the start.

  The media adapter's own recovery (\<open>media_recovery.rs\<close>, \<open>recovery_media.rs\<close>) and the removal of
  retired records by the archive are not among the steps. Of the operating system it is assumed that a successful
  \<open>Hosting::stop\<close> of a recorded process leaves that backend gone, that the absence probes of a
  recovery answer truthfully, that \<open>Preflight::empty\<close> sees every backend that runs on the devices it asks
  for (it asks for none when the profile is a fixture, which runs without devices), and that the identity of a
  process (its number, start time and activation) is not used for two backends.
\<close>

section \<open>Durable steps outside the workers\<close>

inductive service_step :: "document \<Rightarrow> document \<Rightarrow> bool" where
  acquire: "acquire_op e c legacy src r s = Inr (d, t) \<Longrightarrow> fresh_ids e s \<Longrightarrow> service_step s t"
| reserve: "reserve_op e c legacy public again src r s = Inr (v, t) \<Longrightarrow> fresh_ids e s \<Longrightarrow> service_step s t"
| refresh: "refresh_op e c legacy public owner k s = Inr (v, t) \<Longrightarrow> service_step s t"
| control: "apply_control e c owner k r s = Inr (d, t) \<Longrightarrow> service_step s t"
| group_control: "reservation_control e c archived owner k a s = Inr (u, t) \<Longrightarrow> service_step s t"
| cancel_call: "cancel_invocation e archived_call owner k s = Inr (i, t) \<Longrightarrow> service_step s t"
| scope: "scope_control_op e l access op s = Inr (u, t) \<Longrightarrow> service_step s t"
| submit: "submit_op e c wr fault b64 look_work look_submission owner q s fs = (Inr (i, t), fs') \<Longrightarrow>
    service_step s t"
| dispatch: "dispatch_begin e c k cand s = Inr (r, t) \<Longrightarrow> service_step s t"
| complete: "completion_save e c wr fault call d result s fs = (Inr (u, t), fs') \<Longrightarrow> service_step s t"
| children: "reconcile_children e c cd k s = Inr (u, t) \<Longrightarrow> service_step s t"
| analysis: "persist e c cd a s = Inr (b, t) \<Longrightarrow> service_step s t"
| reconsider: "reconsider_op e c rc s = Inr (u, t) \<Longrightarrow> service_step s t"
| resident_gone: "service_step s (remove_if_unchanged w s)"
| resident_evicting: "service_step s (mark_evicting w s)"
| resident_ready: "service_step s (refresh_resident e w s)"

section \<open>The steps of a worker\<close>

text \<open>Where the worker of a demand is; \<open>d\<close> is the snapshot it read.\<close>

datatype pc =
    Selected
  | Fetched demand
  | Bounded demand
  | AtVictims demand
  | VictimFound demand demand
  | VictimStopped demand demand
  | Evictions demand "warm_residency list"
  | EvictStopped demand warm_residency "warm_residency list"
  | Placed demand
  | ResidentFound demand warm_residency
  | ResidentMarked demand warm_residency
  | ResidentStopped demand warm_residency
  | Unadopted demand
  | Cleared demand
  | Starting demand
  | Retiring demand
  | Deciding demand retirement
  | Stopped demand
  | RecoveryPrepared demand
  | Recovering demand demand
  | Absent demand demand

fun pc_snapshot :: "pc \<Rightarrow> demand option" where
  "pc_snapshot Selected = None"
| "pc_snapshot (Fetched d) = Some d"
| "pc_snapshot (Bounded d) = Some d"
| "pc_snapshot (AtVictims d) = Some d"
| "pc_snapshot (VictimFound d v) = Some d"
| "pc_snapshot (VictimStopped d v) = Some d"
| "pc_snapshot (Placed d) = Some d"
| "pc_snapshot (Evictions d ws) = Some d"
| "pc_snapshot (EvictStopped d w ws) = Some d"
| "pc_snapshot (ResidentFound d w) = Some d"
| "pc_snapshot (ResidentMarked d w) = Some d"
| "pc_snapshot (ResidentStopped d w) = Some d"
| "pc_snapshot (Unadopted d) = Some d"
| "pc_snapshot (Cleared d) = Some d"
| "pc_snapshot (Starting d) = Some d"
| "pc_snapshot (Retiring d) = Some d"
| "pc_snapshot (Deciding d r) = Some d"
| "pc_snapshot (Stopped d) = Some d"
| "pc_snapshot (RecoveryPrepared d) = Some d"
| "pc_snapshot (Recovering d c) = Some d"
| "pc_snapshot (Absent d c) = Some d"

text \<open>What a successful \<open>Hosting::stop\<close> leaves running: it reaches a backend through the recorded
  process.\<close>

definition stop_effect :: "demand \<Rightarrow> string set \<Rightarrow> string set" where
  "stop_effect d L = (if d_process d \<noteq> None then L - {d_id d} else L)"

text \<open>A successful eviction stops the resident of the recorded process; adoption makes it the backend of the
  demand. Both may find that it has ended.\<close>

definition evict_effect :: "warm_residency \<Rightarrow> warm_residency set \<Rightarrow> warm_residency set" where
  "evict_effect w R = {b \<in> R. wm_process b \<noteq> wm_process w}"

definition adopt_effect :: "string \<Rightarrow> warm_residency \<Rightarrow> string set \<Rightarrow> warm_residency set \<Rightarrow> string set \<times> warm_residency set" where
  "adopt_effect k w L R = (if wm_process w \<in> wm_process ` R then (insert k L, evict_effect w R) else (L, R))"

text \<open>The answer of \<open>Preflight::empty\<close>: none of the devices is in use. A fixture asks for none.\<close>

definition devices_used :: "document \<Rightarrow> string \<Rightarrow> string set" where
  "devices_used s k =
     (case get_demand s k of None \<Rightarrow> {}
      | Some x \<Rightarrow> if p_driver (d_profile x) = Fixture then {} else set (p_resources (d_profile x)))"

definition devices_empty :: "document \<Rightarrow> string set \<Rightarrow> warm_residency set \<Rightarrow> demand \<Rightarrow> bool" where
  "devices_empty s L R d \<longleftrightarrow> p_driver (d_profile d) = Fixture \<or>
     (\<forall>r \<in> set (p_resources (d_profile d)). (\<forall>b \<in> R. r \<notin> set (wm_resources b)) \<and> (\<forall>j \<in> L. r \<notin> devices_used s j))"

inductive worker_step ::
  "string \<Rightarrow> pc option \<Rightarrow> document \<Rightarrow> string set \<Rightarrow> warm_residency set
     \<Rightarrow> pc option \<Rightarrow> document \<Rightarrow> string set \<Rightarrow> warm_residency set \<Rightarrow> bool"
  for k where
  select: "d \<in> set (transition_candidates t s) \<Longrightarrow> d_id d = k \<Longrightarrow>
    worker_step k None s L R (Some Selected) s L R"
| fetch: "get_demand s k = Some d \<Longrightarrow> worker_step k (Some Selected) s L R (Some (Fetched d)) s L R"
| finish: "worker_step k (Some w) s L R None s L R"
| failed: "pc_snapshot w = Some d \<Longrightarrow> record_failure e d err s = Inr (u, s') \<Longrightarrow>
    worker_step k (Some w) s L R None s' L R"
  \<comment> \<open>preparing\<close>
| bound: "advance_procedure t d = Prepare \<Longrightarrow> boundary t' s d = Inr () \<Longrightarrow>
    worker_step k (Some (Fetched d)) s L R (Some (Bounded d)) s L R"
| evict: "\<not> d_preflight_done d \<Longrightarrow> evict_begin d s = Inr (ws, s') \<Longrightarrow>
    worker_step k (Some (Bounded d)) s L R (Some (Evictions d ws)) s' L R"
| evict_stop: "worker_step k (Some (Evictions d (w # ws))) s L R (Some (EvictStopped d w ws)) s L (evict_effect w R)"
| evict_remove: "worker_step k (Some (EvictStopped d w ws)) s L R (Some (Evictions d ws)) (remove_if_unchanged w s) L R"
| preflight: "preflight_commit e d s = Inr (u, s') \<Longrightarrow>
    worker_step k (Some (Evictions d [])) s L R None s' L R"
| drained_root: "d_preflight_done d \<Longrightarrow> root_drained s d = Inr True \<Longrightarrow>
    worker_step k (Some (Bounded d)) s L R (Some (AtVictims d)) s L R"
| find_victim: "drain_victims t sk (d_victims d) = Inr (StopVictim v) \<Longrightarrow> sk (d_id v) = s \<Longrightarrow>
    get_demand s (d_id v) = Some v \<Longrightarrow>
    worker_step k (Some (AtVictims d)) s L R (Some (VictimFound d v)) s L R"
| stop_victim: "boundary t s0 d = Inr () \<Longrightarrow>
    worker_step k (Some (VictimFound d v)) s L R (Some (VictimStopped d v)) s (stop_effect v L) R"
| displace: "victim_commit v s = Inr (u, s') \<Longrightarrow>
    worker_step k (Some (VictimStopped d v)) s L R None s' L R"
| transfer: "drain_victims t sk (d_victims d) = Inr AllDrained \<Longrightarrow> transfer_commit d s = Inr (u, s') \<Longrightarrow>
    worker_step k (Some (AtVictims d)) s L R (Some (Placed d)) s' L R"
| no_resident: "d_process d = None \<Longrightarrow> adopt_read d s = Inr None \<Longrightarrow>
    worker_step k (Some (Placed d)) s L R (Some (Unadopted d)) s L R"
| resident: "d_process d = None \<Longrightarrow> adopt_read d s = Inr (Some w) \<Longrightarrow>
    worker_step k (Some (Placed d)) s L R (Some (ResidentFound d w)) s L R"
| adopt: "adopt_commit d w s = Inr (True, s') \<Longrightarrow> adopt_effect k w L R = (L', R') \<Longrightarrow>
    worker_step k (Some (ResidentFound d w)) s L R None s' L' R'"
| not_adopted: "adopt_commit d w s = Inr (False, s') \<Longrightarrow>
    worker_step k (Some (ResidentFound d w)) s L R (Some (Unadopted d)) s' L R"
| unverified: "worker_step k (Some (ResidentFound d w)) s L R (Some (ResidentMarked d w)) (mark_evicting w s) L R"
| resident_stop: "worker_step k (Some (ResidentMarked d w)) s L R (Some (ResidentStopped d w)) s L (evict_effect w R)"
| resident_remove: "worker_step k (Some (ResidentStopped d w)) s L R (Some (Unadopted d)) (remove_if_unchanged w s) L R"
| clear: "devices_empty s L R d \<Longrightarrow>
    worker_step k (Some (Unadopted d)) s L R (Some (Cleared d)) s L R"
| start: "start_commit e d s = Inr (True, s') \<Longrightarrow>
    worker_step k (Some (Cleared d)) s L R (Some (Starting d)) s' L R"
| not_started: "start_commit e d s = Inr (False, s') \<Longrightarrow>
    worker_step k (Some (Cleared d)) s L R None s' L R"
| launch: "worker_step k (Some (Starting d)) s L R (Some (Starting d)) s (insert k L) R"
| started: "process_commit d p s = Inr (u, s') \<Longrightarrow>
    worker_step k (Some (Starting d)) s L R None s' L R"
| ready: "d_process d \<noteq> None \<Longrightarrow> ready_commit e d p s = Inr (u, s') \<Longrightarrow>
    worker_step k (Some (Placed d)) s L R None s' L R"
| not_ready: "d_process d \<noteq> None \<Longrightarrow> ready_failed d err s = Inr (u, s') \<Longrightarrow>
    worker_step k (Some (Placed d)) s L R (Some (Retiring d)) s' L R"
  \<comment> \<open>watching a ready demand\<close>
| restarting: "advance_procedure t d = MonitorReady \<Longrightarrow> monitor_restart e d s = Inr (u, s') \<Longrightarrow>
    worker_step k (Some (Fetched d)) s L R None s' L R"
| observed: "advance_procedure t d = MonitorReady \<Longrightarrow> monitor_process d p s = Inr (u, s') \<Longrightarrow>
    worker_step k (Some (Fetched d)) s L R None s' L R"
  \<comment> \<open>retirement\<close>
| retire: "advance_procedure t d = Retire \<Longrightarrow>
    worker_step k (Some (Fetched d)) s L R (Some (Retiring d)) s L R"
| decide: "retire_decision t d (retire_read s d) = r \<Longrightarrow>
    worker_step k (Some (Retiring d)) s L R (Some (Deciding d r)) s L R"
| stop_only: "worker_step k (Some (Deciding d StopOnly)) s L R None s (stop_effect d L) R"
| keep_warm: "cache_after_release e probe d s = Inr (True, s') \<Longrightarrow> d_process d = Some p \<Longrightarrow> p \<notin> wm_process ` R \<Longrightarrow>
    worker_step k (Some (Deciding d RetireNow)) s L R None s' (L - {k}) (if k \<in> L then insert (warm_record e d p) R else R)"
| stop_self: "worker_step k (Some (Deciding d RetireNow)) s L R (Some (Stopped d)) s (stop_effect d L) R"
| retired: "retire_commit e d s = Inr (u, s') \<Longrightarrow> worker_step k (Some (Stopped d)) s L R None s' L R"
  \<comment> \<open>recovery\<close>
| prepare_stop: "advance_procedure t d = Recover \<Longrightarrow> prepare_recovery e d s = Inr (u, s') \<Longrightarrow>
    worker_step k (Some (Fetched d)) s L R (Some (RecoveryPrepared d)) s' L R"
| read_prepared: "prepared e s d = Inr d' \<Longrightarrow>
    worker_step k (Some (RecoveryPrepared d)) s L R (Some (Recovering d d')) s L R"
| found_process: "record_cleanup d' p s = Inr (u, s') \<Longrightarrow>
    worker_step k (Some (Recovering d d')) s L R (Some (Recovering d (d'\<lparr>d_process := p\<rparr>))) s' L R"
| stop_found: "worker_step k (Some (Recovering d d')) s L R (Some (Recovering d d')) s (stop_effect d' L) R"
| proven_absent: "k \<notin> L \<Longrightarrow> worker_step k (Some (Recovering d d')) s L R (Some (Absent d d')) s L R"
| recovered: "finish_recovery e d' (d_process d') s = Inr (u, s') \<Longrightarrow>
    worker_step k (Some (Absent d d')) s L R None s' L R"

section \<open>The system\<close>

record system =
  sys_doc :: document
  sys_workers :: "string \<Rightarrow> pc option"
  sys_live :: "string set"
  sys_warm :: "warm_residency set"

inductive sys_step :: "system \<Rightarrow> system \<Rightarrow> bool" where
  service: "service_step (sys_doc x) s' \<Longrightarrow> sys_step x (x\<lparr>sys_doc := s'\<rparr>)"
| worker: "worker_step k (sys_workers x k) (sys_doc x) (sys_live x) (sys_warm x) w' s' L' R' \<Longrightarrow>
    sys_step x \<lparr>sys_doc = s', sys_workers = (sys_workers x)(k := w'), sys_live = L', sys_warm = R'\<rparr>"
| backend_ends: "sys_step x (x\<lparr>sys_live := sys_live x - {k}\<rparr>)"
| resident_ends: "sys_step x (x\<lparr>sys_warm := sys_warm x - {w}\<rparr>)"
| restart: "recover e devices_bytes port (sys_doc x) = Inr (u, s') \<Longrightarrow>
    sys_step x (x\<lparr>sys_doc := s', sys_workers := \<lambda>_. None\<rparr>)"

text \<open>A first start: no backend runs, no worker is at work, and the document records neither a
  started backend nor a resident (the empty document is one).\<close>

definition sys_init :: "system \<Rightarrow> bool" where
  "sys_init x \<longleftrightarrow> doc_inv (sys_doc x) \<and> sys_workers x = (\<lambda>_. None) \<and> sys_live x = {} \<and> sys_warm x = {} \<and>
     warm_residencies (sys_doc x) = [] \<and> (\<forall>k d. get_demand (sys_doc x) k = Some d \<longrightarrow> arrives d)"

inductive reachable :: "system \<Rightarrow> bool" where
  init: "sys_init x \<Longrightarrow> reachable x"
| step: "reachable x \<Longrightarrow> sys_step x y \<Longrightarrow> reachable y"

section \<open>What a step leaves of a demand\<close>

text \<open>\<open>serving\<close> demands are being prepared or offered; nothing comes back to that once it has
  left it.\<close>

definition serving :: "document \<Rightarrow> string \<Rightarrow> bool" where
  "serving s k \<longleftrightarrow> is_some_and (get_demand s k) (\<lambda>x. d_state x \<in> {Preparing, Ready})"

definition moves :: "string set \<Rightarrow> document \<Rightarrow> document \<Rightarrow> bool" where
  "moves K s t \<longleftrightarrow> advances K s t \<and> (\<forall>k. get_demand s k \<noteq> None \<and> serving t k \<longrightarrow> serving s k)"

lemma advances_moves: "advances {} s t \<Longrightarrow> moves K s t"
  unfolding moves_def
proof (intro conjI allI impI)
  assume a: "advances {} s t"
  show "advances K s t"
    by (rule advancesI) (use advances_Some[OF a] advances_new[OF a] in \<open>metis empty_iff\<close>)+
  fix k assume "get_demand s k \<noteq> None \<and> serving t k"
  then obtain x y where x: "get_demand s k = Some x" "get_demand t k = Some y" "d_state y \<in> {Preparing, Ready}"
    by (auto simp: serving_def is_some_and_iff)
  then have "steady x y" using advances_Some[OF a x(1)] by (metis empty_iff option.inject)
  then show "serving s k" using x by (auto simp: serving_def steady_def published_def)
qed

lemma moves_refl [simp]: "moves K s s"
  by (simp add: moves_def)

lemma moves_upd:
  assumes "\<And>x. get_demand s k = Some x \<Longrightarrow> d_profile (f x) = d_profile x \<and>
      (d_state (f x) \<in> {Preparing, Ready} \<longrightarrow> d_state x \<in> {Preparing, Ready})"
  shows "moves {k} s (upd_demand k f s)"
  unfolding moves_def
proof (intro conjI allI impI)
  show "advances {k} s (upd_demand k f s)" by (rule advances_upd) (use assms in simp)
  fix j assume "get_demand s j \<noteq> None \<and> serving (upd_demand k f s) j"
  then show "serving s j" using assms by (auto simp: serving_def is_some_and_iff split: if_splits)
qed

lemma moves_trans_steady:
  assumes "moves K s t" and "advances {} t u"
  shows "moves K s u"
proof -
  have "advances K s t" and m: "\<And>k. get_demand s k \<noteq> None \<Longrightarrow> serving t k \<Longrightarrow> serving s k"
    using assms(1) by (auto simp: moves_def)
  have n: "get_demand t k \<noteq> None" if "get_demand s k \<noteq> None" for k
    using that advances_Some[OF \<open>advances K s t\<close>] by (cases "get_demand s k") fastforce+
  have "moves {} t u" by (rule advances_moves[OF assms(2)])
  then show ?thesis
    using advances_trans[OF \<open>advances K s t\<close> assms(2)] m n by (auto simp: moves_def)
qed

lemma moves_demands: "demands t = demands s \<Longrightarrow> moves K s t"
  by (rule advances_moves) (rule advances_demands)

lemma moves_drop: "moves K s t \<Longrightarrow> moves K s (drop_claims_of k t)"
  by (rule moves_trans_steady) (auto intro: advances_demands)

lemma moves_serving: "moves K s t \<Longrightarrow> get_demand s k \<noteq> None \<Longrightarrow> serving t k \<Longrightarrow> serving s k"
  by (simp add: moves_def)

lemma moves_advances: "moves K s t \<Longrightarrow> advances K s t"
  by (simp add: moves_def)

section \<open>The steps of a worker on its own demand\<close>

lemma preflight_moves: "preflight_commit e d s = Inr (u, t) \<Longrightarrow> moves {d_id d} s t"
  by (auto simp: preflight_commit_def res_simps split: if_splits intro!: moves_upd)

lemma start_moves: "start_commit e d s = Inr (b, t) \<Longrightarrow> moves {d_id d} s t"
  by (auto simp: start_commit_def res_simps split: if_splits intro!: moves_upd)

lemma process_moves: "process_commit d p s = Inr (u, t) \<Longrightarrow> moves {d_id d} s t"
  by (auto simp: process_commit_def res_simps intro!: moves_upd)

lemma not_ready_moves: "ready_failed d err s = Inr (u, t) \<Longrightarrow> moves {d_id d} s t"
  by (auto simp: ready_failed_def res_simps intro!: moves_upd)

lemma restarting_moves: "monitor_restart e d s = Inr (u, t) \<Longrightarrow> moves {d_id d} s t"
  by (auto simp: monitor_restart_def res_simps split: if_splits intro!: moves_upd)

lemma observed_moves: "monitor_process d p s = Inr (u, t) \<Longrightarrow> moves {d_id d} s t"
  by (auto simp: monitor_process_def res_simps split: if_splits intro!: moves_upd)

lemma failed_moves: "record_failure e d err s = Inr (u, t) \<Longrightarrow> advances {} s t"
  by (auto simp: record_failure_def res_simps split: if_splits intro!: advances_upd steady_same)

lemma transfer_moves: "transfer_commit d s = Inr (u, t) \<Longrightarrow> advances {} s t"
  by (auto simp: transfer_commit_def res_simps split: if_splits dest!: transfer_result(1)
      intro!: advances_demands)

lemma evict_moves: "evict_begin d s = Inr (ws, t) \<Longrightarrow> doc_inv s \<Longrightarrow> advances {} s t"
  by (rule advances_kept) (rule evict_begin_kept)

lemma displaced_moves: "victim_commit v s = Inr (u, t) \<Longrightarrow> moves {d_id v} s t"
  by (auto simp: victim_commit_def res_simps split: if_splits intro!: moves_drop moves_upd)

lemma terminal_moves:
  assumes "\<And>x. get_demand s k = Some x \<Longrightarrow> d_profile (f x) = d_profile x \<and> d_state (f x) \<notin> {Preparing, Ready}"
  shows "moves {k} s (drop_claims_of k (upd_demand k f s))"
  by (rule moves_drop[OF moves_upd]) (use assms in auto)

lemma retired_demand_state:
  "d_state (retired_demand e x) \<notin> {Preparing, Ready}" "d_profile (retired_demand e x) = d_profile x"
  using terminal_state_cases[of "now e" x] by (auto simp: retired_demand_def)

lemma retired_moves: "retire_commit e d s = Inr (u, t) \<Longrightarrow> moves {d_id d} s t"
  by (auto simp: retire_commit_def res_simps retired_demand_state[simplified] intro!: terminal_moves)

lemma recovered_not_serving: "recovered_state n x \<notin> {Preparing, Ready}"
  using recovered_state_terminal[of n x] by auto

lemma recovered_moves: "finish_recovery e d p s = Inr (u, t) \<Longrightarrow> moves {d_id d} s t"
  using recovered_not_serving by (auto simp: finish_recovery_def res_simps intro!: terminal_moves)

lemma prepare_recovery_moves:
  assumes "prepare_recovery e d s = Inr (u, t)"
  shows "advances {} s t"
proof -
  let ?s = "upd_demand (d_id d) (\<lambda>d. d\<lparr>d_released := True,
      d_transition_deadline := now e + RETRY_SECONDS\<rparr>) s"
  have "demands t = demands ?s"
    using assms by (auto simp: prepare_recovery_def Let_def res_simps)
  moreover have "advances {} s ?s" by (rule advances_upd) (simp add: steady_same)
  ultimately show ?thesis using advances_trans advances_demands by blast
qed

lemma cleanup_moves: "record_cleanup d p s = Inr (u, t) \<Longrightarrow> moves {d_id d} s t"
  by (auto simp: record_cleanup_def res_simps intro!: moves_upd)

lemma adopt_moves:
  assumes "adopt_commit d w s = Inr (True, t)"
  obtains x where "get_demand s (d_id d) = Some x" "d_state x = Preparing" "moves {d_id d} s t"
    "get_demand t (d_id d) = Some (adopted w x)"
proof -
  let ?u = "s\<lparr>warm_residencies := om_del (wm_id w) (warm_residencies s)\<rparr>"
  obtain x where x: "get_demand s (d_id d) = Some x" "preparing_owner s d x"
    and t: "t = upd_demand (d_id d) (adopted w) ?u"
    using assms by (auto simp: adopt_commit_def res_simps split: option.splits if_splits)
  have "moves {d_id d} s (upd_demand (d_id d) (adopted w) s)"
    by (rule moves_upd) (simp add: adopted_def)
  then have "moves {d_id d} s t"
    by (rule moves_trans_steady) (rule advances_demands, simp add: t)
  then show thesis using that x t by (simp add: preparing_owner_def)
qed

lemma cache_moves:
  assumes "cache_after_release e probe d s = Inr (True, t)"
  shows "moves {d_id d} s t"
proof -
  obtain w where t: "t = drop_claims_of (d_id d) (upd_demand (d_id d) (retired_demand e)
            (s\<lparr>warm_residencies := om_put (wm_id w) w (warm_residencies s)\<rparr>))"
    using assms by (auto simp: cache_after_release_def cache_commit_def res_simps split: if_splits)
  have "moves {d_id d} s (drop_claims_of (d_id d) (upd_demand (d_id d) (retired_demand e) s))"
    by (intro terminal_moves) (simp add: retired_demand_state[simplified])
  then show ?thesis
    by (rule moves_trans_steady) (rule advances_demands, simp add: t)
qed

lemma commit_ready_advances:
  assumes "commit_ready n d s = Inr t"
  shows "advances {} s t"
proof (cases "t = s")
  case False
  then obtain ids where "fold_res publish_member ids s = Inr t"
    using assms by (auto simp: commit_ready_def res_simps split: if_splits)
  then show ?thesis
    by (rule advances_fold_res)
      (auto simp: publish_member_def steady_def published_def split: option.splits if_splits
        intro!: advances_upd)
qed simp

lemma upd_demand_twice: "upd_demand k g (upd_demand k f s) = upd_demand k (g \<circ> f) s"
  by (simp add: upd_demand_def om_upd_def comp_def case_prod_beta)

lemma ready_shape:
  assumes "ready_commit e d p s = Inr (u, t)" and "t \<noteq> s"
  obtains f where "commit_ready (now e) d (upd_demand (d_id d) f s) = Inr t"
    "\<And>x. d_state (f x) = d_state x" "\<And>x. d_effect_started (f x) = d_effect_started x"
    "\<And>x. d_profile (f x) = d_profile x"
proof (cases p)
  case None
  then show thesis
    using assms that[of "\<lambda>x. x\<lparr>d_ready_checked := True\<rparr>"]
    by (auto simp: ready_commit_def Let_def res_simps split: if_splits)
next
  case (Some q)
  then show thesis
    using assms that[of "(\<lambda>x. x\<lparr>d_process := Some q\<rparr>) \<circ> (\<lambda>x. x\<lparr>d_ready_checked := True\<rparr>)"]
    by (auto simp: ready_commit_def Let_def res_simps upd_demand_twice split: if_splits)
qed

lemma ready_moves:
  assumes "ready_commit e d p s = Inr (u, t)"
  shows "moves {d_id d} s t"
proof (cases "t = s")
  case False
  obtain f where f: "commit_ready (now e) d (upd_demand (d_id d) f s) = Inr t"
      "\<And>x. d_state (f x) = d_state x" "\<And>x. d_effect_started (f x) = d_effect_started x"
      "\<And>x. d_profile (f x) = d_profile x"
    by (rule ready_shape[OF assms False]) (rule that)
  show ?thesis
    by (rule moves_trans_steady[OF moves_upd commit_ready_advances[OF f(1)]]) (simp add: f(2,4))
qed simp

section \<open>The invariant of the system\<close>

text \<open>A recorded process of a demand being prepared is one that was started.\<close>

definition traced :: "document \<Rightarrow> bool" where
  "traced s \<longleftrightarrow> (\<forall>k x. get_demand s k = Some x \<and> d_state x = Preparing \<and> d_process x \<noteq> None \<longrightarrow>
     d_effect_started x)"

definition started_in :: "document \<Rightarrow> string \<Rightarrow> bool" where
  "started_in s k \<longleftrightarrow> is_some_and (get_demand s k) d_effect_started"

text \<open>What a snapshot still says of its demand.\<close>

definition seen :: "document \<Rightarrow> string \<Rightarrow> demand \<Rightarrow> bool" where
  "seen s k d \<longleftrightarrow> d_id d = k \<and> is_some_and (get_demand s k) (\<lambda>x.
     (d_effect_started x \<longrightarrow> d_effect_started d) \<and>
     (d_state x = Preparing \<longrightarrow> d_process x = d_process d) \<and> d_profile x = d_profile d)"

text \<open>A demand whose worker may start its backend: marked, and not yet offered.\<close>

definition launching :: "document \<Rightarrow> string \<Rightarrow> bool" where
  "launching s k \<longleftrightarrow> is_some_and (get_demand s k) (\<lambda>x.
     d_effect_started x \<and> \<not> d_ready_checked x \<and> d_state x \<notin> {Ready, Preempting})"

fun is_starting :: "pc option \<Rightarrow> bool" where
  "is_starting (Some (Starting d)) = True"
| "is_starting w = False"

lemma is_starting_iff: "is_starting w \<longleftrightarrow> (\<exists>d. w = Some (Starting d))"
  by (cases w rule: is_starting.cases) auto

text \<open>A victim on its way out: it serves no longer and nobody may start it.\<close>

definition leaving :: "document \<Rightarrow> (string \<Rightarrow> pc option) \<Rightarrow> demand \<Rightarrow> bool" where
  "leaving s W v \<longleftrightarrow> get_demand s (d_id v) \<noteq> None \<and> \<not> serving s (d_id v) \<and> \<not> is_starting (W (d_id v))"

fun pc_ok :: "document \<Rightarrow> (string \<Rightarrow> pc option) \<Rightarrow> string set \<Rightarrow> string \<Rightarrow> pc \<Rightarrow> bool" where
  "pc_ok s W L k Selected = True"
| "pc_ok s W L k (VictimFound d v) = (seen s k d \<and> d_process v \<noteq> None \<and> leaving s W v)"
| "pc_ok s W L k (VictimStopped d v) = (seen s k d \<and> leaving s W v \<and> d_id v \<notin> L)"
| "pc_ok s W L k (Starting d) = (d_id d = k \<and> launching s k)"
| "pc_ok s W L k (Deciding d r) =
     (seen s k d \<and> (r = RetireNow \<and> d_process d = None \<longrightarrow> \<not> started_in s k))"
| "pc_ok s W L k (Stopped d) = (seen s k d \<and> k \<notin> L)"
| "pc_ok s W L k (Recovering d c) = (seen s k d \<and> d_id c = k)"
| "pc_ok s W L k (Absent d c) = (seen s k d \<and> d_id c = k \<and> k \<notin> L)"
| "pc_ok s W L k (Fetched d) = seen s k d"
| "pc_ok s W L k (Bounded d) = seen s k d"
| "pc_ok s W L k (AtVictims d) = seen s k d"
| "pc_ok s W L k (Placed d) = seen s k d"
| "pc_ok s W L k (Evictions d ws) = (seen s k d)"
| "pc_ok s W L k (EvictStopped d w ws) = (seen s k d)"
| "pc_ok s W L k (ResidentFound d w) = (seen s k d \<and> d_process d = None)"
| "pc_ok s W L k (ResidentMarked d w) = (seen s k d \<and> d_process d = None)"
| "pc_ok s W L k (ResidentStopped d w) = (seen s k d \<and> d_process d = None)"
| "pc_ok s W L k (Unadopted d) = (seen s k d \<and> d_process d = None)"
| "pc_ok s W L k (Cleared d) = (seen s k d \<and> d_process d = None)"
| "pc_ok s W L k (Retiring d) = seen s k d"
| "pc_ok s W L k (RecoveryPrepared d) = seen s k d"

definition sys_ok :: "document \<Rightarrow> (string \<Rightarrow> pc option) \<Rightarrow> string set \<Rightarrow> bool" where
  "sys_ok s W L \<longleftrightarrow> doc_inv s \<and> traced s \<and> (\<forall>k \<in> L. started_in s k) \<and>
     (\<forall>k w. W k = Some w \<longrightarrow> pc_ok s W L k w)"

subsection \<open>What a step keeps for those it does not belong to\<close>

lemma steady_at:
  assumes "advances K s t" and "k \<notin> K" and "get_demand s k = Some x"
  obtains y where "get_demand t k = Some y" "steady x y"
  using advances_Some[OF assms(1,3)] assms(2) by blast

lemma seen_kept: "advances K s t \<Longrightarrow> k \<notin> K \<Longrightarrow> seen s k d \<Longrightarrow> seen t k d"
  by (auto simp: seen_def is_some_and_iff steady_def elim!: steady_at)

lemma launching_kept: "advances K s t \<Longrightarrow> k \<notin> K \<Longrightarrow> launching s k \<Longrightarrow> launching t k"
  by (auto simp: launching_def is_some_and_iff steady_def published_def elim!: steady_at)

lemma started_kept:
  assumes "advances K s t" and "k \<notin> K" and "get_demand s k \<noteq> None"
  shows "started_in t k = started_in s k"
proof -
  obtain x y where "get_demand s k = Some x" "get_demand t k = Some y" "steady x y"
    using assms steady_at[OF assms(1,2)] by blast
  then show ?thesis by (simp add: started_in_def steady_def)
qed

lemma known_kept: "advances K s t \<Longrightarrow> get_demand s k \<noteq> None \<Longrightarrow> get_demand t k \<noteq> None"
  using advances_Some by (metis not_None_eq)

lemma leaving_kept:
  assumes "leaving s W v" and "moves K s t" and "is_starting w' \<Longrightarrow> serving s k \<or> is_starting (W k)"
  shows "leaving t (W(k := w')) v"
  using assms known_kept[OF moves_advances[OF assms(2)]] moves_serving[OF assms(2)]
  by (auto simp: leaving_def)

lemma traced_kept:
  assumes "traced s" and "advances K s t"
    and "\<And>k y. k \<in> K \<Longrightarrow> get_demand t k = Some y \<Longrightarrow> d_state y = Preparing \<Longrightarrow> d_process y \<noteq> None \<Longrightarrow>
      d_effect_started y"
  shows "traced t"
  unfolding traced_def
proof (intro allI impI, elim conjE)
  fix k y
  assume y: "get_demand t k = Some y" "d_state y = Preparing" "d_process y \<noteq> None"
  show "d_effect_started y"
  proof (cases "get_demand s k")
    case None
    then show ?thesis using advances_new[OF assms(2) None y(1)] y(3) by (simp add: arrives_def)
  next
    case (Some x)
    show ?thesis
    proof (cases "k \<in> K")
      case False
      then have "steady x y" using steady_at[OF assms(2) False Some] y(1) by auto
      then show ?thesis using y Some assms(1) by (auto simp: steady_def traced_def)
    qed (use assms(3) y in blast)
  qed
qed

lemma seen_known: "seen s k d \<Longrightarrow> get_demand s k \<noteq> None"
  by (auto simp: seen_def is_some_and_iff)

lemma pc_frame:
  assumes "pc_ok s W L j w" and "j \<noteq> k" and "moves K s t" and "j \<notin> K"
    and "L' \<subseteq> insert k L" and "k \<in> L' \<Longrightarrow> k \<in> L \<or> serving s k \<or> is_starting (W k)"
    and "is_starting w' \<Longrightarrow> serving s k \<or> is_starting (W k)"
  shows "pc_ok t (W(k := w')) L' j w"
proof -
  note a = moves_advances[OF assms(3)]
  have s: "seen t j d" if "seen s j d" for d by (rule seen_kept[OF a assms(4) that])
  have l: "leaving t (W(k := w')) v" if "leaving s W v" for v by (rule leaving_kept[OF that assms(3,7)])
  have n: "d_id v \<notin> L'" if "leaving s W v" "d_id v \<notin> L" for v
    using that assms(5,6) by (auto simp: leaving_def)
  have o: "started_in t j = started_in s j" if "seen s j d" for d
    by (rule started_kept[OF a assms(4) seen_known[OF that]])
  have j: "j \<notin> L'" if "j \<notin> L" using that assms(2,5) by blast
  show ?thesis
    using assms(1) s l n o j launching_kept[OF a assms(4)] by (cases w) auto
qed

subsection \<open>A step of one worker\<close>

lemma worker_frame:
  assumes ok: "sys_ok s W L" and mv: "moves {k} s t" and inv: "doc_inv t" "traced t"
    and L': "L' \<subseteq> insert k L" "k \<in> L' \<Longrightarrow> started_in t k"
      "k \<in> L' \<Longrightarrow> k \<in> L \<or> serving s k \<or> is_starting (W k)"
    and w': "is_starting w' \<Longrightarrow> serving s k \<or> is_starting (W k)"
      "\<And>w. w' = Some w \<Longrightarrow> pc_ok t (W(k := w')) L' k w"
  shows "sys_ok t (W(k := w')) L'"
  unfolding sys_ok_def
proof (intro conjI ballI allI impI)
  show "doc_inv t" "traced t" by (rule inv)+
  fix j
  assume j: "j \<in> L'"
  show "started_in t j"
  proof (cases "j = k")
    case False
    then have "started_in s j" using j L'(1) ok by (auto simp: sys_ok_def)
    moreover from this have "get_demand s j \<noteq> None" by (auto simp: started_in_def is_some_and_iff)
    ultimately show ?thesis
      using started_kept[OF moves_advances[OF mv]] False by simp
  qed (use j L'(2) in simp)
next
  fix j w
  assume w: "(W(k := w')) j = Some w"
  show "pc_ok t (W(k := w')) L' j w"
  proof (cases "j = k")
    case True
    then show ?thesis using w w'(2) by simp
  next
    case False
    then have "pc_ok s W L j w" using w ok by (simp add: sys_ok_def)
    then show ?thesis by (rule pc_frame[where K = "{k}"]) (use False mv L' w'(1) in auto)
  qed
qed

text \<open>The same for a step that is no start: it leaves the live backends alone or ends some.\<close>

lemma quiet_frame:
  assumes "sys_ok s W L" and "moves {k} s t" and "doc_inv t" and "traced t"
    and "L' \<subseteq> L" and "k \<in> L' \<Longrightarrow> started_in t k"
    and "\<not> is_starting w'" and "\<And>w. w' = Some w \<Longrightarrow> pc_ok t (W(k := w')) L' k w"
  shows "sys_ok t (W(k := w')) L'"
  by (rule worker_frame[OF assms(1-4)]) (use assms(5-) in auto)

lemma steady_frame:
  assumes "sys_ok s W L" and "advances {} s t" and "doc_inv t"
    and "L' \<subseteq> L"
    and "\<not> is_starting w'" and "\<And>w. w' = Some w \<Longrightarrow> pc_ok t (W(k := w')) L' k w"
  shows "sys_ok t (W(k := w')) L'"
proof (rule quiet_frame[OF assms(1) advances_moves[OF assms(2)] assms(3) _ assms(4) _ assms(5,6)])
  have tr: "traced s" and lv: "\<forall>k \<in> L. started_in s k" using assms(1) by (simp_all add: sys_ok_def)
  show "traced t" by (rule traced_kept[OF tr assms(2)]) simp
  assume "k \<in> L'"
  then have "started_in s k" using lv assms(4) by blast
  moreover from this have "get_demand s k \<noteq> None" by (auto simp: started_in_def is_some_and_iff)
  ultimately show "started_in t k" using started_kept[OF assms(2)] by simp
qed

lemma same_frame:
  assumes "sys_ok s W L" and "L' \<subseteq> L"
    and "\<not> is_starting w'" and "\<And>w. w' = Some w \<Longrightarrow> pc_ok s (W(k := w')) L' k w"
  shows "sys_ok s (W(k := w')) L'"
  by (rule steady_frame[OF assms(1) advances_refl _ assms(2-)]) (use assms(1) in \<open>simp_all add: sys_ok_def\<close>)

lemma finish_ok: "sys_ok s W L \<Longrightarrow> L' \<subseteq> L \<Longrightarrow> sys_ok s (W(k := None)) L'"
  by (rule same_frame) auto

text \<open>Facts about the worker's own demand.\<close>

lemma sys_ok_pc: "sys_ok s W L \<Longrightarrow> W k = Some w \<Longrightarrow> pc_ok s W L k w"
  by (simp add: sys_ok_def)

lemma sys_ok_inv: "sys_ok s W L \<Longrightarrow> doc_inv s" "sys_ok s W L \<Longrightarrow> traced s"
  by (simp_all add: sys_ok_def)

lemma traced_own:
  assumes "traced s" and "moves {k} s t"
    and "\<And>y. get_demand t k = Some y \<Longrightarrow> d_state y = Preparing \<Longrightarrow> d_process y \<noteq> None \<Longrightarrow> d_effect_started y"
  shows "traced t"
  by (rule traced_kept[OF assms(1) moves_advances[OF assms(2)]]) (use assms(3) in simp)

lemma seen_advances: "advances {} s t \<Longrightarrow> seen s k d \<Longrightarrow> seen t k d"
  by (rule seen_kept[of "{}"]) simp_all

lemma seen_refl: "doc_inv s \<Longrightarrow> get_demand s k = Some d \<Longrightarrow> seen s k d"
  using doc_inv_id[of s k d] by (simp add: seen_def)

lemma stop_victim_state:
  "drain_victims t sk ks = Inr (StopVictim v) \<Longrightarrow> d_state v = Preempting"
proof (induction ks)
  case (Cons k ks)
  then show ?case
    by (auto simp: res_simps split: option.splits if_splits)
qed simp

lemma stop_effect_subset: "stop_effect d L \<subseteq> L"
  by (auto simp: stop_effect_def)

lemma preempting_leaves:
  assumes "sys_ok s W L" and "get_demand s (d_id v) = Some v" and "d_state v = Preempting"
  shows "leaving s W v \<and> d_process v \<noteq> None"
proof -
  have "d_process v \<noteq> None"
    using doc_inv_live[OF sys_ok_inv(1)[OF assms(1)] assms(2)] assms(3) by (simp add: live_ok_def)
  moreover have "\<not> is_starting (W (d_id v))"
  proof
    assume "is_starting (W (d_id v))"
    then obtain d where "W (d_id v) = Some (Starting d)"
      by (auto simp: is_starting_iff)
    then show False using sys_ok_pc[OF assms(1)] assms(2,3) by (fastforce simp: launching_def)
  qed
  ultimately show ?thesis using assms(2,3) by (simp add: leaving_def serving_def)
qed

subsection \<open>Transactions of a worker on its demand\<close>

text \<open>Closing a demand: its backend is gone, and its effect is no longer recorded.\<close>

lemma closing_frame:
  assumes ok: "sys_ok s W L" and mv: "moves {k} s t" and "doc_inv t"
    and cl: "\<And>y. get_demand t k = Some y \<Longrightarrow> d_state y \<notin> {Preparing, Ready}"
    and "L' \<subseteq> L" "k \<notin> L'"
  shows "sys_ok t (W(k := None)) L'"
proof (rule quiet_frame[OF ok mv assms(3) _ assms(5)])
  show "traced t" by (rule traced_own[OF sys_ok_inv(2)[OF ok] mv]) (use cl in auto)
qed (use assms(6) in auto)

lemma effect_frame:
  assumes ok: "sys_ok s W L" and mv: "moves {k} s t" and "doc_inv t"
    and g: "\<And>y. get_demand t k = Some y \<Longrightarrow> d_effect_started y"
    and kn: "get_demand s k \<noteq> None"
    and "L' \<subseteq> L" and "\<not> is_starting w'" and "\<And>w. w' = Some w \<Longrightarrow> pc_ok t (W(k := w')) L' k w"
  shows "sys_ok t (W(k := w')) L'"
proof (rule quiet_frame[OF ok mv assms(3) _ assms(6) _ assms(7,8)])
  show "traced t" by (rule traced_own[OF sys_ok_inv(2)[OF ok] mv]) (use g in auto)
  obtain y where "get_demand t k = Some y" using known_kept[OF moves_advances[OF mv] kn] by blast
  then show "started_in t k" using g by (simp add: started_in_def)
qed

lemma displace_ok:
  assumes ok: "sys_ok s W L" and W: "W k = Some (VictimStopped d v)"
    and c: "victim_commit v s = Inr (u, t)"
  shows "sys_ok t (W(k := None)) L"
proof -
  let ?j = "d_id v"
  note inv = sys_ok_inv[OF ok]
  have pk: "seen s k d" "leaving s W v" "?j \<notin> L" using sys_ok_pc[OF ok W] by simp_all
  have mv: "moves {?j} s t" by (rule displaced_moves[OF c])
  obtain x where x: "get_demand s ?j = Some x" and tx: "get_demand t ?j = Some (displaced x)"
    using c by (auto simp: victim_commit_def res_simps split: if_splits)
  have i: "doc_inv t" by (rule victim_commit_inv[OF c inv(1)])
  have tr: "traced t"
    by (rule traced_kept[OF inv(2) moves_advances[OF mv]]) (use tx in auto)
  have "started_in t l" if "l \<in> L" for l
  proof -
    have "started_in s l" using that ok by (simp add: sys_ok_def)
    moreover from this have "get_demand s l \<noteq> None" by (auto simp: started_in_def is_some_and_iff)
    moreover have "l \<notin> {?j}" using that pk(3) by auto
    ultimately show ?thesis using started_kept[OF moves_advances[OF mv]] by blast
  qed
  moreover have "pc_ok t (W(k := None)) L l w" if l: "l \<noteq> k" and w: "W l = Some w" for l w
  proof (cases "l = ?j")
    case False
    show ?thesis
      by (rule pc_frame[OF sys_ok_pc[OF ok w] l mv]) (use False in auto)
  next
    case True
    have s: "seen t l d" if "seen s l d" for d
      using that x tx True by (simp add: seen_def)
    have n: "\<not> started_in t l" using tx True by (simp add: started_in_def)
    have lv: "leaving t (W(k := None)) v'" if "leaving s W v'" for v'
      by (rule leaving_kept[OF that mv]) simp
    have "\<not> is_starting (W l)" using pk(2) True by (simp add: leaving_def)
    then show ?thesis
      using sys_ok_pc[OF ok w] s n lv w by (cases w) auto
  qed
  ultimately show ?thesis using i tr by (auto simp: sys_ok_def)
qed

lemma adopt_ok:
  assumes ok: "sys_ok s W L" and W: "W k = Some (ResidentFound d w)" and c: "adopt_commit d w s = Inr (True, t)"
    and L': "L \<subseteq> L'" "L' \<subseteq> insert k L"
  shows "sys_ok t (W(k := None)) L'"
proof -
  have k: "d_id d = k" using sys_ok_pc[OF ok W] by (simp add: seen_def)
  obtain x where x: "get_demand s k = Some x" "d_state x = Preparing" "moves {k} s t"
      "get_demand t k = Some (adopted w x)"
    using adopt_moves[OF c] k by metis
  show ?thesis
  proof (rule worker_frame[OF ok x(3) adopt_commit_inv[OF c sys_ok_inv(1)[OF ok]]])
    show "traced t"
      by (rule traced_own[OF sys_ok_inv(2)[OF ok] x(3)]) (use x(4) in \<open>auto simp: adopted_def\<close>)
    show "started_in t k" using x(4) by (simp add: started_in_def adopted_def)
    show "k \<in> L \<or> serving s k \<or> is_starting (W k)" using x(1,2) by (simp add: serving_def)
  qed (use L' in auto)
qed

lemma start_ok:
  assumes ok: "sys_ok s W L" and W: "W k = Some (Cleared d)"
    and c: "start_commit e d s = Inr (True, t)"
  shows "sys_ok t (W(k := Some (Starting d))) L"
proof -
  have sn: "seen s k d" and p: "d_process d = None" using sys_ok_pc[OF ok W] by simp_all
  then have k: "d_id d = k" by (simp add: seen_def)
  obtain x where x: "get_demand s k = Some x" "d_state x = Preparing"
    and tx: "get_demand t k = Some (x\<lparr>d_effect_started := True\<rparr>)"
    using c k by (auto simp: start_commit_def res_simps split: if_splits)
  have "d_process x = None" using sn x p by (simp add: seen_def)
  then have rc: "\<not> d_ready_checked x"
    using doc_inv_live[OF sys_ok_inv(1)[OF ok] x(1)] x(2) by (simp add: live_ok_def)
  have mv: "moves {k} s t" using start_moves[OF c] k by simp
  show ?thesis
  proof (rule worker_frame[OF ok mv start_commit_inv[OF c sys_ok_inv(1)[OF ok]]])
    show "traced t"
      by (rule traced_own[OF sys_ok_inv(2)[OF ok] mv]) (use tx in auto)
    show "started_in t k" using tx by (simp add: started_in_def)
    show "serving s k \<or> is_starting (W k)" using x by (simp add: serving_def)
    fix w
    assume "Some (Starting d) = Some w"
    then show "pc_ok t (W(k := Some (Starting d))) L k w"
      using k tx x(2) rc by (auto simp: launching_def)
  qed auto
qed

lemma launch_ok:
  assumes ok: "sys_ok s W L" and W: "W k = Some (Starting d)"
  shows "sys_ok s (W(k := Some (Starting d))) (insert k L)"
proof -
  have l: "d_id d = k" "launching s k" using sys_ok_pc[OF ok W] by simp_all
  show ?thesis
    by (rule worker_frame[OF ok moves_refl]) (use sys_ok_inv[OF ok] l W in
        \<open>auto simp: launching_def started_in_def is_some_and_iff\<close>)
qed

lemma started_ok:
  assumes ok: "sys_ok s W L" and W: "W k = Some (Starting d)" and c: "process_commit d p s = Inr (u, t)"
  shows "sys_ok t (W(k := None)) L"
proof -
  have k: "d_id d = k" and l: "launching s k" using sys_ok_pc[OF ok W] by simp_all
  have mv: "moves {k} s t" using process_moves[OF c] k by simp
  show ?thesis
    by (rule effect_frame[OF ok mv process_commit_inv[OF c sys_ok_inv(1)[OF ok]]])
      (use c k l in \<open>auto simp: process_commit_def res_simps launching_def\<close>)
qed

text \<open>Readiness is only committed in the window where a backend was started and recorded.\<close>

lemma seen_window:
  assumes ok: "sys_ok s W L" and sn: "seen s k d" and p: "d_process d \<noteq> None"
  shows "prepared_window d s"
  using sn p sys_ok_inv(2)[OF ok] by (auto simp: prepared_window_def seen_def traced_def)

lemma ready_effect:
  assumes "ready_commit e d p s = Inr (u, t)" and "get_demand s (d_id d) = Some x"
    and "get_demand t (d_id d) = Some y"
  shows "d_effect_started y = d_effect_started x"
    "d_state y = Preparing \<Longrightarrow> d_state x = Preparing"
proof -
  have "d_effect_started y = d_effect_started x \<and> (d_state y = Preparing \<longrightarrow> d_state x = Preparing)"
  proof (cases "t = s")
    case False
    obtain f where f: "commit_ready (now e) d (upd_demand (d_id d) f s) = Inr t"
        "\<And>x. d_state (f x) = d_state x" "\<And>x. d_effect_started (f x) = d_effect_started x"
      by (rule ready_shape[OF assms(1) False]) (rule that)
    have g: "get_demand (upd_demand (d_id d) f s) (d_id d) = Some (f x)" using assms(2) by simp
    have "steady (f x) y"
      using steady_at[OF commit_ready_advances[OF f(1)] _ g] assms(3) by auto
    then show ?thesis using f(2,3) by (simp add: steady_def)
  qed (use assms(2,3) in simp)
  then show "d_effect_started y = d_effect_started x" "d_state y = Preparing \<Longrightarrow> d_state x = Preparing"
    by blast+
qed

lemma ready_ok:
  assumes ok: "sys_ok s W L" and W: "W k = Some (Placed d)" and p: "d_process d \<noteq> None"
    and c: "ready_commit e d q s = Inr (u, t)"
  shows "sys_ok t (W(k := None)) L"
proof -
  have sn: "seen s k d" using sys_ok_pc[OF ok W] by simp
  then have k: "d_id d = k" by (simp add: seen_def)
  note win = seen_window[OF ok sn p]
  have mv: "moves {k} s t" using ready_moves[OF c] k by simp
  obtain x where x: "get_demand s k = Some x" using seen_known[OF sn] by blast
  obtain y where y: "get_demand t k = Some y"
    using known_kept[OF moves_advances[OF mv] seen_known[OF sn]] by blast
  have e: "d_effect_started y = d_effect_started x" "d_state y = Preparing \<Longrightarrow> d_state x = Preparing"
    using ready_effect[OF c, unfolded k, OF x y] by blast+
  show ?thesis
  proof (rule quiet_frame[OF ok mv ready_commit_inv[OF c sys_ok_inv(1)[OF ok] win]])
    have "d_effect_started y" if "d_state y = Preparing"
      using win x k e that unfolding prepared_window_def by blast
    then show "traced t"
      by (intro traced_own[OF sys_ok_inv(2)[OF ok] mv]) (use y in simp)
    assume "k \<in> L"
    then have "d_effect_started x" using ok x by (auto simp: sys_ok_def started_in_def)
    then show "started_in t k" using e(1) y by (simp add: started_in_def)
  qed auto
qed

lemma not_ready_ok:
  assumes ok: "sys_ok s W L" and W: "W k = Some (Placed d)" and c: "ready_failed d err s = Inr (u, t)"
  shows "sys_ok t (W(k := Some (Retiring d))) L"
proof -
  have sn: "seen s k d" using sys_ok_pc[OF ok W] by simp
  then have k: "d_id d = k" by (simp add: seen_def)
  have t: "t = upd_demand k (\<lambda>x. x\<lparr>d_released := True, d_reason := Some err\<rparr>) s"
    using c k by (auto simp: ready_failed_def res_simps)
  have a: "advances {} s t" unfolding t by (rule advances_upd) (simp add: steady_same)
  show ?thesis
    by (rule steady_frame[OF ok a ready_failed_inv[OF c sys_ok_inv(1)[OF ok]]])
      (use seen_advances[OF a sn] in auto)
qed

lemma restarting_ok:
  assumes ok: "sys_ok s W L" and W: "W k = Some (Fetched d)" and c: "monitor_restart e d s = Inr (u, t)"
  shows "sys_ok t (W(k := None)) L"
proof (cases "t = s")
  case True
  then show ?thesis using finish_ok[OF ok subset_refl] by simp
next
  case False
  have k: "d_id d = k" using sys_ok_pc[OF ok W] by (simp add: seen_def)
  obtain x where x: "get_demand s k = Some x" "d_state x = Ready"
    and t: "t = upd_demand k (\<lambda>x. x\<lparr>d_state := Preparing,
            d_transition_deadline := now e + p_startup_seconds (d_profile d)\<rparr>) s"
    using c k False by (auto simp: monitor_restart_def res_simps split: if_splits)
  have "d_effect_started x" using doc_inv_live[OF sys_ok_inv(1)[OF ok] x(1)] x(2) by (simp add: live_ok_def)
  then have g: "d_effect_started y" if "get_demand t k = Some y" for y using that x t by auto
  have mv: "moves {k} s t" using restarting_moves[OF c] k by simp
  show ?thesis
    by (rule effect_frame[OF ok mv monitor_restart_inv[OF c sys_ok_inv(1)[OF ok]]]) (use g x in auto)
qed

lemma observed_ok:
  assumes ok: "sys_ok s W L" and W: "W k = Some (Fetched d)" and c: "monitor_process d p s = Inr (u, t)"
  shows "sys_ok t (W(k := None)) L"
proof (cases "t = s")
  case True
  then show ?thesis using finish_ok[OF ok subset_refl] by simp
next
  case False
  have k: "d_id d = k" using sys_ok_pc[OF ok W] by (simp add: seen_def)
  obtain x where x: "get_demand s k = Some x" "d_state x = Ready"
    and t: "t = upd_demand k (\<lambda>x. x\<lparr>d_process := Some p\<rparr>) s"
    using c k False by (auto simp: monitor_process_def res_simps split: if_splits)
  have "d_effect_started x" using doc_inv_live[OF sys_ok_inv(1)[OF ok] x(1)] x(2) by (simp add: live_ok_def)
  then have g: "d_effect_started y" if "get_demand t k = Some y" for y using that x t by auto
  have mv: "moves {k} s t" using observed_moves[OF c] k by simp
  show ?thesis
    by (rule effect_frame[OF ok mv monitor_process_inv[OF c sys_ok_inv(1)[OF ok]]]) (use g x in auto)
qed

lemma preflight_ok:
  assumes ok: "sys_ok s W L" and c: "preflight_commit e d s = Inr (u, t)"
  shows "sys_ok t (W(k := None)) L"
proof -
  have "advances {} s t"
    using c by (auto simp: preflight_commit_def res_simps split: if_splits intro!: advances_upd steady_same)
  then show ?thesis
    by (rule steady_frame[OF ok _ preflight_commit_inv[OF c sys_ok_inv(1)[OF ok]]]) auto
qed

lemma failed_ok:
  assumes ok: "sys_ok s W L" and c: "record_failure e d err s = Inr (u, t)"
  shows "sys_ok t (W(k := None)) L"
  by (rule steady_frame[OF ok failed_moves[OF c] record_failure_inv[OF c sys_ok_inv(1)[OF ok]]]) auto

lemma keep_warm_ok:
  assumes ok: "sys_ok s W L" and W: "W k = Some (Deciding d r)"
    and c: "cache_after_release e probe d s = Inr (True, t)"
  shows "sys_ok t (W(k := None)) (L - {k})"
proof -
  have k: "d_id d = k" using sys_ok_pc[OF ok W] by (simp add: seen_def)
  obtain w where t: "t = drop_claims_of (d_id d) (upd_demand (d_id d) (retired_demand e)
            (s\<lparr>warm_residencies := om_put (wm_id w) w (warm_residencies s)\<rparr>))"
    using c by (auto simp: cache_after_release_def cache_commit_def res_simps split: if_splits)
  have mv: "moves {k} s t" using cache_moves[OF c] k by simp
  show ?thesis
    by (rule closing_frame[OF ok mv cache_after_release_inv[OF c sys_ok_inv(1)[OF ok]]])
      (use retired_demand_state in \<open>auto simp: t k\<close>)
qed

lemma stop_self_ok:
  assumes ok: "sys_ok s W L" and W: "W k = Some (Deciding d RetireNow)"
  shows "sys_ok s (W(k := Some (Stopped d))) (stop_effect d L)"
proof (rule same_frame[OF ok stop_effect_subset])
  have pk: "seen s k d" "d_process d = None \<Longrightarrow> \<not> started_in s k"
    using sys_ok_pc[OF ok W] by simp_all
  have "k \<notin> stop_effect d L"
    using pk ok by (auto simp: stop_effect_def seen_def sys_ok_def)
  then show "pc_ok s (W(k := Some (Stopped d))) (stop_effect d L) k w" if "Some (Stopped d) = Some w" for w
    using that pk by auto
qed simp

lemma retired_ok:
  assumes ok: "sys_ok s W L" and W: "W k = Some (Stopped d)" and c: "retire_commit e d s = Inr (u, t)"
  shows "sys_ok t (W(k := None)) L"
proof -
  have pk: "seen s k d" "k \<notin> L" using sys_ok_pc[OF ok W] by simp_all
  then have k: "d_id d = k" by (simp add: seen_def)
  have t: "t = drop_claims_of k (upd_demand k (retired_demand e) s)"
    using c k by (auto simp: retire_commit_def res_simps)
  have mv: "moves {k} s t" using retired_moves[OF c] k by simp
  show ?thesis
    by (rule closing_frame[OF ok mv retire_commit_inv[OF c sys_ok_inv(1)[OF ok]]])
      (use retired_demand_state pk in \<open>auto simp: t\<close>)
qed

lemma found_process_ok:
  assumes ok: "sys_ok s W L" and W: "W k = Some (Recovering d d')" and c: "record_cleanup d' p s = Inr (u, t)"
  shows "sys_ok t (W(k := Some (Recovering d (d'\<lparr>d_process := p\<rparr>)))) L"
proof -
  have pk: "seen s k d" "d_id d' = k" using sys_ok_pc[OF ok W] by simp_all
  obtain x where x: "get_demand s k = Some x" "d_state x = RecoveryRequired"
    and t: "t = upd_demand k (\<lambda>x. x\<lparr>d_process := p\<rparr>) s"
    using c pk(2) by (auto simp: record_cleanup_def res_simps stop_fence_eq)
  have mv: "moves {k} s t" using cleanup_moves[OF c] pk(2) by simp
  show ?thesis
  proof (rule quiet_frame[OF ok mv record_cleanup_inv[OF c sys_ok_inv(1)[OF ok]]])
    show "traced t" by (rule traced_own[OF sys_ok_inv(2)[OF ok] mv]) (use x in \<open>auto simp: t\<close>)
    assume "k \<in> L"
    then show "started_in t k" using ok x by (auto simp: sys_ok_def started_in_def t)
  next
    fix w
    assume "Some (Recovering d (d'\<lparr>d_process := p\<rparr>)) = Some w"
    then show "pc_ok t (W(k := Some (Recovering d (d'\<lparr>d_process := p\<rparr>)))) L k w"
      using pk x by (auto simp: seen_def t)
  qed auto
qed

lemma recovered_ok:
  assumes ok: "sys_ok s W L" and W: "W k = Some (Absent d d')" and c: "finish_recovery e d' p s = Inr (u, t)"
  shows "sys_ok t (W(k := None)) L"
proof -
  have pk: "d_id d' = k" "k \<notin> L" using sys_ok_pc[OF ok W] by simp_all
  have t: "t = drop_claims_of k (upd_demand k (recovered (now e) p) s)"
    using c pk(1) by (auto simp: finish_recovery_def res_simps)
  have mv: "moves {k} s t" using recovered_moves[OF c] pk(1) by simp
  show ?thesis
    by (rule closing_frame[OF ok mv finish_recovery_inv[OF c sys_ok_inv(1)[OF ok]]])
      (use recovered_not_serving pk in \<open>auto simp: t\<close>)
qed

lemma find_victim_ok:
  assumes ok: "sys_ok s W L" and W: "W k = Some (AtVictims d)"
    and v: "get_demand s (d_id v) = Some v" "drain_victims n sk (d_victims d) = Inr (StopVictim v)"
  shows "sys_ok s (W(k := Some (VictimFound d v))) L"
proof (rule same_frame[OF ok subset_refl])
  have l: "leaving s W v" "d_process v \<noteq> None"
    using preempting_leaves[OF ok v(1) stop_victim_state[OF v(2)]] by blast+
  then show "pc_ok s (W(k := Some (VictimFound d v))) L k w" if "Some (VictimFound d v) = Some w" for w
    using that sys_ok_pc[OF ok W] leaving_kept[OF l(1) moves_refl, of "Some (VictimFound d v)" k] by auto
qed simp

lemma stop_victim_ok:
  assumes ok: "sys_ok s W L" and W: "W k = Some (VictimFound d v)"
  shows "sys_ok s (W(k := Some (VictimStopped d v))) (stop_effect v L)"
proof (rule same_frame[OF ok stop_effect_subset])
  have pk: "seen s k d" "leaving s W v" "d_process v \<noteq> None" using sys_ok_pc[OF ok W] by simp_all
  then show "pc_ok s (W(k := Some (VictimStopped d v))) (stop_effect v L) k w"
    if "Some (VictimStopped d v) = Some w" for w
    using that leaving_kept[OF pk(2) moves_refl, of "Some (VictimStopped d v)" k]
    by (auto simp: stop_effect_def)
qed simp

subsection \<open>Every step keeps the invariant\<close>

text \<open>A transaction that is a steady step and leaves its worker with its snapshot.\<close>

fun pc_onward :: "demand \<Rightarrow> pc \<Rightarrow> bool" where
  "pc_onward d (Fetched x) = (x = d)"
| "pc_onward d (Bounded x) = (x = d)"
| "pc_onward d (AtVictims x) = (x = d)"
| "pc_onward d (Evictions x ws) = (x = d)"
| "pc_onward d (EvictStopped x w ws) = (x = d)"
| "pc_onward d (Placed x) = (x = d)"
| "pc_onward d (ResidentFound x w) = (x = d \<and> d_process d = None)"
| "pc_onward d (ResidentMarked x w) = (x = d \<and> d_process d = None)"
| "pc_onward d (ResidentStopped x w) = (x = d \<and> d_process d = None)"
| "pc_onward d (Unadopted x) = (x = d \<and> d_process d = None)"
| "pc_onward d (Cleared x) = (x = d \<and> d_process d = None)"
| "pc_onward d (Retiring x) = (x = d)"
| "pc_onward d (RecoveryPrepared x) = (x = d)"
| "pc_onward d w = False"

lemma onward_ok:
  assumes ok: "sys_ok s W L" and a: "advances {} s t" and i: "doc_inv t" and sn: "seen s k d"
    and w: "pc_onward d w"
  shows "sys_ok t (W(k := Some w)) L"
  by (rule steady_frame[OF ok a i subset_refl]) (use w seen_advances[OF a sn] in \<open>(cases w; auto)+\<close>)

lemma go_ok:
  assumes ok: "sys_ok s W L" and "seen s k d"
    and "pc_onward d w"
  shows "sys_ok s (W(k := Some w)) L"
  by (rule onward_ok[OF ok advances_refl sys_ok_inv(1)[OF ok] assms(2,3)])

lemma resident_onward_ok:
  assumes "sys_ok s W L" and "seen s k d" and "pc_onward d w'"
  shows "sys_ok (remove_if_unchanged w s) (W(k := Some w')) L" "sys_ok (mark_evicting w s) (W(k := Some w')) L"
proof -
  note kp = warm_edits_kept[OF sys_ok_inv(1)[OF assms(1)]]
  note inv = demands_kept_doc_inv[OF sys_ok_inv(1)[OF assms(1)]]
  show "sys_ok (remove_if_unchanged w s) (W(k := Some w')) L" "sys_ok (mark_evicting w s) (W(k := Some w')) L"
    by (rule onward_ok[OF assms(1) advances_kept[OF kp(1)] inv[OF kp(1)] assms(2,3)]
        onward_ok[OF assms(1) advances_kept[OF kp(2)] inv[OF kp(2)] assms(2,3)])+
qed

lemma worker_step_ok:
  assumes "worker_step k (W k) s L R w' s' L' R'" and ok: "sys_ok s W L"
  shows "sys_ok s' (W(k := w')) L'"
  using assms(1)
proof cases
  case (select d t)
  then show ?thesis using same_frame[OF ok subset_refl, of "Some Selected" k] by simp
next
  case (fetch d)
  then show ?thesis using go_ok[OF ok seen_refl[OF sys_ok_inv(1)[OF ok]], of k d "Fetched d"] by simp
next
  case (finish w)
  then show ?thesis using finish_ok[OF ok] by simp
next
  case (failed w d e err u)
  then show ?thesis using failed_ok[OF ok] by simp
next
  case (bound t d t')
  then have "seen s k d" using sys_ok_pc[OF ok, of k "Fetched d"] by simp
  then show ?thesis using bound go_ok[OF ok, of k d "Bounded d"] by simp
next
  case (evict d ws)
  have a: "advances {} s s'" by (rule evict_moves[OF evict(6) sys_ok_inv(1)[OF ok]])
  have i: "doc_inv s'"
    by (rule demands_kept_doc_inv[OF sys_ok_inv(1)[OF ok] evict_begin_kept[OF evict(6) sys_ok_inv(1)[OF ok]]])
  show ?thesis using evict onward_ok[OF ok a i, of k d "Evictions d ws"] sys_ok_pc[OF ok, of k] by simp
next
  case (evict_stop d w ws)
  then show ?thesis using go_ok[OF ok, of k d "EvictStopped d w ws"] sys_ok_pc[OF ok, of k] by simp
next
  case (evict_remove d w ws)
  then show ?thesis
    using resident_onward_ok[OF ok, of k d "Evictions d ws"] sys_ok_pc[OF ok, of k] by simp
next
  case (preflight d e u)
  then show ?thesis using preflight_ok[OF ok] by simp
next
  case (drained_root d)
  then show ?thesis using go_ok[OF ok, of k d "AtVictims d"] sys_ok_pc[OF ok, of k] by simp
next
  case (find_victim t sk d v)
  then show ?thesis using find_victim_ok[OF ok] by simp
next
  case (stop_victim t s0 d v)
  then show ?thesis using stop_victim_ok[OF ok] by simp
next
  case (displace v u d)
  then show ?thesis using displace_ok[OF ok] by simp
next
  case (transfer t sk d u)
  then show ?thesis
    using onward_ok[OF ok transfer_moves[OF transfer(6)] transfer_commit_inv[OF transfer(6) sys_ok_inv(1)[OF ok]],
        of k d "Placed d"] sys_ok_pc[OF ok, of k] by simp
next
  case (no_resident d)
  then show ?thesis using go_ok[OF ok, of k d "Unadopted d"] sys_ok_pc[OF ok, of k] by simp
next
  case (resident d w)
  then show ?thesis using go_ok[OF ok, of k d "ResidentFound d w"] sys_ok_pc[OF ok, of k] by simp
next
  case (adopt d w)
  then have "L \<subseteq> L'" "L' \<subseteq> insert k L" by (auto simp: adopt_effect_def split: if_splits)
  then show ?thesis using adopt adopt_ok[OF ok] by simp
next
  case (not_adopted d w)
  then have "s' = s" by (auto simp: adopt_commit_def res_simps split: option.splits if_splits)
  then show ?thesis using not_adopted go_ok[OF ok, of k d "Unadopted d"] sys_ok_pc[OF ok, of k] by simp
next
  case (unverified d w)
  then show ?thesis
    using resident_onward_ok[OF ok, of k d "ResidentMarked d w"] sys_ok_pc[OF ok, of k] by simp
next
  case (resident_stop d w)
  then show ?thesis using go_ok[OF ok, of k d "ResidentStopped d w"] sys_ok_pc[OF ok, of k] by simp
next
  case (resident_remove d w)
  then show ?thesis
    using resident_onward_ok[OF ok, of k d "Unadopted d"] sys_ok_pc[OF ok, of k] by simp
next
  case (clear d)
  then show ?thesis using go_ok[OF ok, of k d "Cleared d"] sys_ok_pc[OF ok, of k] by simp
next
  case (start e d)
  then show ?thesis using start_ok[OF ok] by simp
next
  case (not_started e d)
  then have "s' = s" by (auto simp: start_commit_def res_simps split: if_splits)
  then show ?thesis using not_started finish_ok[OF ok] by simp
next
  case (launch d)
  then show ?thesis using launch_ok[OF ok] by simp
next
  case (started d p u)
  then show ?thesis using started_ok[OF ok] by simp
next
  case (ready d e p u)
  then show ?thesis using ready_ok[OF ok] by simp
next
  case (not_ready d err u)
  then show ?thesis using not_ready_ok[OF ok] by simp
next
  case (restarting t d e u)
  then show ?thesis using restarting_ok[OF ok] by simp
next
  case (observed t d p u)
  then show ?thesis using observed_ok[OF ok] by simp
next
  case (retire t d)
  then show ?thesis using go_ok[OF ok, of k d "Retiring d"] sys_ok_pc[OF ok, of k] by simp
next
  case (decide t d r)
  have sn: "seen s k d" using decide sys_ok_pc[OF ok, of k] by simp
  have "\<not> started_in s k" if "r = RetireNow" "d_process d = None"
    using that decide sn
    by (auto simp: retire_decision_def seen_def started_in_def is_some_and_iff split: prod.splits if_splits)
  then show ?thesis using decide sn same_frame[OF ok subset_refl, of "Some (Deciding d r)" k] by simp
next
  case (stop_only d)
  then show ?thesis using finish_ok[OF ok stop_effect_subset] by simp
next
  case (keep_warm e probe d)
  then show ?thesis using keep_warm_ok[OF ok] by simp
next
  case (stop_self d)
  then show ?thesis using stop_self_ok[OF ok] by simp
next
  case (retired e d u)
  then show ?thesis using retired_ok[OF ok] by simp
next
  case (prepare_stop t d e u)
  then show ?thesis
    using onward_ok[OF ok prepare_recovery_moves[OF prepare_stop(6)]
        prepare_recovery_inv[OF prepare_stop(6) sys_ok_inv(1)[OF ok]], of k d "RecoveryPrepared d"]
      sys_ok_pc[OF ok, of k] by simp
next
  case (read_prepared e d d')
  have "seen s k d" using read_prepared sys_ok_pc[OF ok, of k] by simp
  moreover from this have "d_id d' = k"
    using read_prepared doc_inv_id[OF sys_ok_inv(1)[OF ok]] by (auto simp: prepared_def res_simps seen_def)
  ultimately show ?thesis using read_prepared same_frame[OF ok subset_refl, of "Some (Recovering d d')" k] by simp
next
  case (found_process d' p u d)
  then show ?thesis using found_process_ok[OF ok] by simp
next
  case (stop_found d d')
  then show ?thesis using same_frame[OF ok stop_effect_subset, of "Some (Recovering d d')" k] sys_ok_pc[OF ok, of k] by simp
next
  case (proven_absent d d')
  then show ?thesis using same_frame[OF ok subset_refl, of "Some (Absent d d')" k] sys_ok_pc[OF ok, of k] by simp
next
  case (recovered e d' u d)
  then show ?thesis using recovered_ok[OF ok] by simp
qed

text \<open>Every step outside the workers is one a worker's plans survive.\<close>

lemma resident_edits_ok:
  assumes "doc_inv s" and "demands_kept s t"
  shows "doc_inv t \<and> advances {} s t"
  using assms demands_kept_doc_inv advances_kept by blast

lemma service_step_ok:
  assumes "service_step s t" and inv: "doc_inv s"
  shows "doc_inv t \<and> advances {} s t"
  using assms(1)
proof cases
  case acquire
  then show ?thesis using acquire.commits[OF _ inv] by blast
next
  case reserve
  then show ?thesis using reserve.commits[OF _ inv] by blast
next
  case refresh
  then show ?thesis using refresh.commits[OF _ inv] by blast
next
  case control
  then show ?thesis using control.commits[OF _ inv] by blast
next
  case group_control
  then show ?thesis using group_control.commits[OF _ inv] by blast
next
  case cancel_call
  then show ?thesis using cancel_call.commits[OF _ inv] by blast
next
  case scope
  then show ?thesis using scopes.commits[OF _ inv] by blast
next
  case dispatch
  then show ?thesis using dispatch.commits[OF _ inv] by blast
next
  case children
  then show ?thesis using children.commits[OF _ inv] by blast
next
  case analysis
  then show ?thesis using analysis.commits[OF _ inv] by blast
next
  case reconsider
  then show ?thesis using pass.commits[OF _ inv] by blast
next
  case submit
  then show ?thesis using submit.commits[OF _ inv] by (metis fst_conv)
next
  case complete
  then show ?thesis using complete.commits[OF _ inv] by (metis fst_conv)
qed (use warm_edits_kept[OF inv] resident_edits_ok[OF inv] in blast)+

lemma ends_ok:
  assumes "sys_ok s W L"
  shows "sys_ok s W (L - {k})"
proof -
  have "pc_ok s W (L - {k}) j w" if "pc_ok s W L j w" for j w using that by (cases w) auto
  then show ?thesis using assms by (simp add: sys_ok_def)
qed

definition safe :: "system \<Rightarrow> bool" where
  "safe x \<longleftrightarrow> sys_ok (sys_doc x) (sys_workers x) (sys_live x)"

lemma sys_ok_document:
  assumes ok: "sys_ok s W L" and "doc_inv t" "advances {} s t"
  shows "sys_ok t W L"
proof -
  have n: "started_in t k = started_in s k" if "started_in s k" for k
    using started_kept[OF assms(3)] that by (auto simp: started_in_def is_some_and_iff)
  have sn: "seen t k d" if "seen s k d" for k d by (rule seen_advances[OF assms(3) that])
  have lv: "leaving t W v" if "leaving s W v" for v
    using that known_kept[OF assms(3)] moves_serving[OF advances_moves[OF assms(3), of "{}"]]
    by (auto simp: leaving_def)
  have st: "started_in t k = started_in s k" if "seen s k d" for k d
    using started_kept[OF assms(3) _ seen_known[OF that]] by simp
  have la: "launching t k" if "launching s k" for k using launching_kept[OF assms(3) _ that] by simp
  have "pc_ok t W L k w" if "pc_ok s W L k w" for k w
    using that sn lv st la by (cases w) auto
  moreover have "traced t" by (rule traced_kept[OF sys_ok_inv(2)[OF ok] assms(3)]) simp
  ultimately show ?thesis using ok assms(2) n by (simp add: sys_ok_def)
qed

lemma sys_step_safe: "sys_step x y \<Longrightarrow> safe x \<Longrightarrow> safe y"
proof (induction rule: sys_step.induct)
  case (service x s')
  then have ok: "sys_ok (sys_doc x) (sys_workers x) (sys_live x)" by (simp add: safe_def)
  then show ?case
    using service_step_ok[OF service(1) sys_ok_inv(1)[OF ok]] sys_ok_document[OF ok] by (simp add: safe_def)
next
  case (worker k x w' s' L' R')
  then show ?case using worker_step_ok by (simp add: safe_def)
next
  case (backend_ends x k)
  then show ?case using ends_ok by (simp add: safe_def)
next
  case (resident_ends x w)
  then show ?case by (simp add: safe_def)
next
  case (restart e b p x u s')
  then have ok: "sys_ok (sys_doc x) (sys_workers x) (sys_live x)" by (simp add: safe_def)
  have "sys_ok s' (sys_workers x) (sys_live x)"
    by (rule sys_ok_document[OF ok recover_inv[OF restart(1) sys_ok_inv(1)[OF ok]] recover_advances[OF restart(1)]])
  then show ?case by (simp add: safe_def sys_ok_def)
qed

lemma init_safe: "sys_init x \<Longrightarrow> safe x"
  by (auto simp: safe_def sys_init_def sys_ok_def traced_def arrives_def)

lemma reachable_safe: "reachable x \<Longrightarrow> safe x"
  by (induction rule: reachable.induct) (auto intro: init_safe sys_step_safe)

text \<open>A demand keeps its profile through every step.\<close>

lemma worker_step_moves:
  assumes "worker_step k (W k) s L R w' s' L' R'" and ok: "sys_ok s W L"
  shows "\<exists>j. moves {j} s s'"
  using assms(1)
proof cases
  case (evict d ws)
  show ?thesis using advances_moves[OF evict_moves[OF evict(6) sys_ok_inv(1)[OF ok]]] by blast
next
  case (evict_remove d w ws)
  then show ?thesis
    using advances_moves[OF advances_kept[OF warm_edits_kept(1)[OF sys_ok_inv(1)[OF ok]]]] by blast
next
  case (resident_remove d w)
  then show ?thesis
    using advances_moves[OF advances_kept[OF warm_edits_kept(1)[OF sys_ok_inv(1)[OF ok]]]] by blast
next
  case (unverified d w)
  then show ?thesis
    using advances_moves[OF advances_kept[OF warm_edits_kept(2)[OF sys_ok_inv(1)[OF ok]]]] by blast
next
  case (adopt d w)
  show ?thesis using adopt_moves[OF adopt(3)] by blast
next
  case (not_adopted d w)
  then have "s' = s" by (auto simp: adopt_commit_def res_simps split: option.splits if_splits)
  then show ?thesis by auto
next
  case (not_started e d)
  then have "s' = s" by (auto simp: start_commit_def res_simps split: if_splits)
  then show ?thesis by auto
next
  case (keep_warm e probe d p)
  show ?thesis using cache_moves[OF keep_warm(5)] by blast
qed (simp_all, (blast intro: moves_refl preflight_moves start_moves process_moves not_ready_moves
    restarting_moves observed_moves displaced_moves retired_moves recovered_moves cleanup_moves
    cache_moves ready_moves advances_moves[OF failed_moves] advances_moves[OF transfer_moves]
    advances_moves[OF prepare_recovery_moves])+)

lemma sys_step_moves: "sys_step x y \<Longrightarrow> safe x \<Longrightarrow> \<exists>j. moves {j} (sys_doc x) (sys_doc y)"
proof (induction rule: sys_step.induct)
  case (service x s')
  then have "doc_inv (sys_doc x)" by (simp add: safe_def sys_ok_def)
  then show ?case using service_step_ok[OF service(1)] advances_moves by fastforce
next
  case (worker k x w' s' L' R')
  then show ?case using worker_step_moves by (simp add: safe_def)
next
  case (backend_ends x k)
  then show ?case by auto
next
  case (resident_ends x w)
  then show ?case by auto
next
  case (restart e b p x u s')
  then show ?case using advances_moves[OF recover_advances[OF restart(1)]] by auto
qed

end
