(* ===== verification/Composition.thy ===== *)
theory Composition
  imports Runtime_System
begin

text \<open>
  Every state the runtime reaches, the steps of \<open>Runtime_System\<close> in any order: no device is used by two running
  backends. Backends of demands are kept apart by their claims; a resident has none, so \<open>warm_ok\<close> says that
  whoever may start over its devices has asked for them after the transfer of the claims, and nothing can be
  left there since.
\<close>

section \<open>Running residents\<close>

text \<open>The devices of a demand, and that a running backend leaves them alone.\<close>

definition clear_of :: "document \<Rightarrow> warm_residency set \<Rightarrow> string \<Rightarrow> bool" where
  "clear_of s R k \<longleftrightarrow> (\<forall>b \<in> R. devices_used s k \<inter> set (wm_resources b) = {})"

definition holds_devices :: "document \<Rightarrow> string \<Rightarrow> bool" where
  "holds_devices s k \<longleftrightarrow>
     is_some_and (get_demand s k) (\<lambda>x. \<forall>r \<in> set (p_resources (d_profile x)). get_claim s r = Some k)"

text \<open>A worker between the transfer of its claims and the record of a start.\<close>

fun settling :: "pc option \<Rightarrow> bool" where
  "settling (Some (Placed d)) = True"
| "settling (Some (ResidentFound d w)) = True"
| "settling (Some (ResidentMarked d w)) = True"
| "settling (Some (ResidentStopped d w)) = True"
| "settling (Some (Unadopted d)) = True"
| "settling (Some (Cleared d)) = True"
| "settling w = False"

fun is_cleared :: "pc option \<Rightarrow> bool" where
  "is_cleared (Some (Cleared d)) = True"
| "is_cleared w = False"

text \<open>A record names a running resident only with the devices it runs on.\<close>

definition recorded_ok :: "document \<Rightarrow> warm_residency set \<Rightarrow> bool" where
  "recorded_ok s R \<longleftrightarrow> (\<forall>k w. map_of (warm_residencies s) k = Some w \<longrightarrow>
     pr_activation (wm_process w) = k \<and> (\<forall>b \<in> R. wm_process b = wm_process w \<longrightarrow> wm_resources b = wm_resources w))"

definition warm_ok :: "document \<Rightarrow> (string \<Rightarrow> pc option) \<Rightarrow> string set \<Rightarrow> warm_residency set \<Rightarrow> bool" where
  "warm_ok s W L R \<longleftrightarrow>
     (\<forall>b \<in> R. \<forall>b' \<in> R. b \<noteq> b' \<longrightarrow> set (wm_resources b) \<inter> set (wm_resources b') = {}) \<and>
     (\<forall>k \<in> L. clear_of s R k) \<and>
     (\<forall>k. is_starting (W k) \<longrightarrow> clear_of s R k) \<and>
     (\<forall>k. serving s k \<longrightarrow> (settling (W k) \<longrightarrow> holds_devices s k) \<and> (is_cleared (W k) \<longrightarrow> clear_of s R k)) \<and>
     recorded_ok s R"

lemma warm_okD:
  assumes "warm_ok s W L R"
  shows "b \<in> R \<Longrightarrow> b' \<in> R \<Longrightarrow> b \<noteq> b' \<Longrightarrow> set (wm_resources b) \<inter> set (wm_resources b') = {}"
    "k \<in> L \<Longrightarrow> clear_of s R k" "is_starting (W k) \<Longrightarrow> clear_of s R k"
    "serving s k \<Longrightarrow> settling (W k) \<Longrightarrow> holds_devices s k" "serving s k \<Longrightarrow> is_cleared (W k) \<Longrightarrow> clear_of s R k"
    "recorded_ok s R"
  using assms by (simp_all add: warm_ok_def)

definition records_from :: "document \<Rightarrow> document \<Rightarrow> bool" where
  "records_from s t \<longleftrightarrow> (\<forall>k w. map_of (warm_residencies t) k = Some w \<longrightarrow>
     (\<exists>v. map_of (warm_residencies s) k = Some v \<and> wm_process w = wm_process v \<and> wm_resources w = wm_resources v))"

definition others_keep :: "string \<Rightarrow> document \<Rightarrow> document \<Rightarrow> bool" where
  "others_keep k s t \<longleftrightarrow> (\<forall>r j. get_claim s r = Some j \<and> j \<noteq> k \<and> serving t j \<longrightarrow> get_claim t r = Some j)"

lemma undisturbed_keeps: "undisturbed s t \<Longrightarrow> records_from s t \<and> others_keep k s t"
  by (auto simp: undisturbed_def records_from_def others_keep_def)

lemma records_from_refl [simp]: "records_from s s"
  by (simp add: records_from_def)

lemma records_from_trans: "records_from s t \<Longrightarrow> records_from t u \<Longrightarrow> records_from s u"
  unfolding records_from_def by metis

lemma recorded_from: "recorded_ok s R \<Longrightarrow> records_from s t \<Longrightarrow> R' \<subseteq> R \<Longrightarrow> recorded_ok t R'"
  unfolding recorded_ok_def records_from_def
proof (intro allI impI)
  fix k w
  assume r: "\<forall>k w. map_of (warm_residencies s) k = Some w \<longrightarrow>
      pr_activation (wm_process w) = k \<and> (\<forall>b\<in>R. wm_process b = wm_process w \<longrightarrow> wm_resources b = wm_resources w)"
    and f: "\<forall>k w. map_of (warm_residencies t) k = Some w \<longrightarrow>
      (\<exists>v. map_of (warm_residencies s) k = Some v \<and> wm_process w = wm_process v \<and> wm_resources w = wm_resources v)"
    and "R' \<subseteq> R" and "map_of (warm_residencies t) k = Some w"
  then obtain v where "map_of (warm_residencies s) k = Some v" "wm_process w = wm_process v" "wm_resources w = wm_resources v"
    by blast
  then show "pr_activation (wm_process w) = k \<and> (\<forall>b\<in>R'. wm_process b = wm_process w \<longrightarrow> wm_resources b = wm_resources w)"
    using r[rule_format, of k v] \<open>R' \<subseteq> R\<close> by auto
qed

lemma clear_of_subset: "clear_of s R k \<Longrightarrow> R' \<subseteq> R \<Longrightarrow> clear_of s R' k"
  by (auto simp: clear_of_def)

lemma devices_used_kept: "advances K s t \<Longrightarrow> get_demand s k \<noteq> None \<Longrightarrow> devices_used t k = devices_used s k"
proof -
  assume a: "advances K s t" and "get_demand s k \<noteq> None"
  then obtain x where x: "get_demand s k = Some x" by blast
  obtain y where "get_demand t k = Some y" "d_profile y = d_profile x" using advances_Some[OF a x] by metis
  then show ?thesis using x by (simp add: devices_used_def)
qed

lemma clear_of_kept:
  "clear_of s R k \<Longrightarrow> advances K s t \<Longrightarrow> R' \<subseteq> R \<Longrightarrow> get_demand s k \<noteq> None \<Longrightarrow> clear_of t R' k"
  using devices_used_kept[of K s t k] by (auto simp: clear_of_def)

lemma holds_kept:
  assumes "holds_devices s j" and "advances K s t" and "others_keep k s t" and "j \<noteq> k" and "serving t j"
  shows "holds_devices t j"
proof -
  obtain x where x: "get_demand s j = Some x" "\<forall>r \<in> set (p_resources (d_profile x)). get_claim s r = Some j"
    using assms(1) by (auto simp: holds_devices_def is_some_and_iff)
  obtain y where "get_demand t j = Some y" "d_profile y = d_profile x"
    using advances_Some[OF assms(2) x(1)] by metis
  then show ?thesis using x assms(3,4,5) by (auto simp: holds_devices_def others_keep_def)
qed

text \<open>Two demands that hold their devices share none.\<close>

lemma started_holds: "doc_inv s \<Longrightarrow> started_in s k \<Longrightarrow> holds_devices s k"
  using doc_inv_effect[of s k] doc_inv_id[of s k] by (auto simp: started_in_def holds_devices_def is_some_and_iff owns_def)

lemma holders_apart: "holds_devices s j \<Longrightarrow> holds_devices s k \<Longrightarrow> j \<noteq> k \<Longrightarrow> devices_used s j \<inter> devices_used s k = {}"
  by (fastforce simp: holds_devices_def devices_used_def is_some_and_iff split: if_splits)

subsection \<open>Steps without a new resident\<close>

lemma starting_started: "pc_ok s W L k w \<Longrightarrow> is_starting (Some w) \<Longrightarrow> started_in s k"
  by (cases w) (auto simp: launching_def started_in_def is_some_and_iff)

lemma pc_known: "sys_ok s W L \<Longrightarrow> is_starting (W k) \<or> settling (W k) \<Longrightarrow> get_demand s k \<noteq> None"
proof -
  assume ok: "sys_ok s W L" and w: "is_starting (W k) \<or> settling (W k)"
  then obtain p where p: "W k = Some p" by (cases "W k") auto
  have "pc_ok s W L k p" by (rule sys_ok_pc[OF ok p])
  then show ?thesis
    using w p by (cases p) (auto simp: launching_def is_some_and_iff dest: seen_known)
qed

lemma live_known: "sys_ok s W L \<Longrightarrow> k \<in> L \<Longrightarrow> get_demand s k \<noteq> None"
  by (auto simp: sys_ok_def started_in_def is_some_and_iff)

lemma warm_frame:
  assumes ok: "sys_ok s W L" and wk: "warm_ok s W L R"
    and mv: "moves K s t" and kp: "others_keep k s t" and rec: "records_from s t"
    and R': "R' \<subseteq> R" and L': "\<And>j. j \<in> L' \<Longrightarrow> j \<in> L \<or> j = k \<and> clear_of t R' k"
    and st: "is_starting w' \<Longrightarrow> clear_of t R' k"
    and se: "serving t k \<Longrightarrow> (settling w' \<longrightarrow> holds_devices t k) \<and> (is_cleared w' \<longrightarrow> clear_of t R' k)"
  shows "warm_ok t (W(k := w')) L' R'"
proof -
  note a = moves_advances[OF mv]
  have cl: "clear_of t R' j" if "clear_of s R j" "get_demand s j \<noteq> None" for j
    by (rule clear_of_kept[OF that(1) a R' that(2)])
  have 1: "\<forall>b \<in> R'. \<forall>b' \<in> R'. b \<noteq> b' \<longrightarrow> set (wm_resources b) \<inter> set (wm_resources b') = {}"
    using wk R' unfolding warm_ok_def by blast
  have 2: "clear_of t R' j" if "j \<in> L'" for j
    using L'[OF that] cl[OF _ live_known[OF ok]] wk unfolding warm_ok_def by blast
  have 3: "clear_of t R' j" if "is_starting ((W(k := w')) j)" for j
    using that st cl[OF _ pc_known[OF ok]] wk unfolding warm_ok_def by (cases "j = k") auto
  have 4: "(settling ((W(k := w')) j) \<longrightarrow> holds_devices t j) \<and> (is_cleared ((W(k := w')) j) \<longrightarrow> clear_of t R' j)"
    if "serving t j" for j
  proof (cases "j = k")
    case True
    then show ?thesis using se that by simp
  next
    case False
    have n: "is_cleared w \<Longrightarrow> settling w" for w by (cases w rule: is_cleared.cases) auto
    have "serving s j" if "settling (W j)" by (rule moves_serving[OF mv pc_known[OF ok] \<open>serving t j\<close>]) (simp add: that)
    then show ?thesis
      using False wk holds_kept[OF _ a kp False that] cl[OF _ pc_known[OF ok]] n unfolding warm_ok_def by auto
  qed
  have 5: "recorded_ok t R'" using recorded_from[OF _ rec R'] wk unfolding warm_ok_def by blast
  show ?thesis unfolding warm_ok_def using 1 2 3 4 5 by blast
qed


subsection \<open>What a worker leaves of the claims and the records\<close>

lemma others_keep_same: "claims t = claims s \<Longrightarrow> others_keep k s t"
  by (simp add: others_keep_def)

lemma others_keep_drop: "om_ok (claims s) \<Longrightarrow> others_keep k s (drop_claims_of k (upd_demand j f s))"
  using drop_claims_of_get[of "upd_demand j f s" k] by (auto simp: others_keep_def)

lemma undisturbed_claim_all:
  "\<forall>r \<in> set rs. get_claim s r = None \<or> get_claim s r = Some k \<Longrightarrow> undisturbed s (claim_all k rs s)"
  by (fastforce simp: undisturbed_def)

lemma doc_inv_claims_ok: "doc_inv s \<Longrightarrow> om_ok (claims s)"
  by (simp add: doc_inv_def maps_ok_def)

lemma transfer_undisturbed: "transfer_commit d s = Inr (u, t) \<Longrightarrow> undisturbed s t"
proof -
  assume "transfer_commit d s = Inr (u, t)"
  then obtain x where x: "transfer x s = Inr t"
    by (auto simp: transfer_commit_def res_simps split: if_splits)
  show ?thesis unfolding transfer_result(1)[OF x] by (rule undisturbed_claim_all[OF transfer_result(2)[OF x]])
qed

lemma ready_undisturbed:
  assumes "ready_commit e d p s = Inr (u, t)"
  shows "undisturbed s t"
proof (cases "t = s")
  case False
  obtain f where f: "commit_ready (now e) d (upd_demand (d_id d) f s) = Inr t" by (rule ready_shape[OF assms False]) (rule that)
  have "undisturbed (upd_demand (d_id d) f s) t"
  proof (cases "t = upd_demand (d_id d) f s")
    case False
    then obtain ids where "fold_res publish_member ids (upd_demand (d_id d) f s) = Inr t"
      using f by (auto simp: commit_ready_def res_simps split: if_splits)
    then show ?thesis
      by (rule undisturbed_fold_res) (auto simp: publish_member_def split: option.splits if_splits)
  qed simp
  then show ?thesis by (rule undisturbed_trans[OF undisturbed_edits(1)])
qed simp

lemma commits_undisturbed:
  "preflight_commit e d s = Inr (u, t) \<Longrightarrow> undisturbed s t"
  "start_commit e d s = Inr (b, t) \<Longrightarrow> undisturbed s t"
  "process_commit d p s = Inr (u, t) \<Longrightarrow> undisturbed s t"
  "ready_failed d err s = Inr (u, t) \<Longrightarrow> undisturbed s t"
  "monitor_restart e d s = Inr (u, t) \<Longrightarrow> undisturbed s t"
  "monitor_process d p s = Inr (u, t) \<Longrightarrow> undisturbed s t"
  "record_failure e d err s = Inr (u, t) \<Longrightarrow> undisturbed s t"
  "record_cleanup d q s = Inr (u, t) \<Longrightarrow> undisturbed s t"
  by (auto simp: preflight_commit_def start_commit_def process_commit_def ready_failed_def monitor_restart_def
      monitor_process_def record_failure_def record_cleanup_def Let_def res_simps split: if_splits)

lemma prepare_undisturbed: "prepare_recovery e d s = Inr (u, t) \<Longrightarrow> undisturbed s t"
  by (auto simp: prepare_recovery_def Let_def res_simps intro!: undisturbed_same)

lemma upd_from:
  assumes "\<And>v. wm_process (f v) = wm_process v \<and> wm_resources (f v) = wm_resources v"
  shows "records_from s (s\<lparr>warm_residencies := om_upd k f (warm_residencies s)\<rparr>)"
  using assms by (auto simp: records_from_def split: if_splits)

lemma upds_from:
  assumes "\<And>v. wm_process (f v) = wm_process v \<and> wm_resources (f v) = wm_resources v"
  shows "records_from s (s\<lparr>warm_residencies := fold (\<lambda>k. om_upd k f) ks (warm_residencies s)\<rparr>)"
proof (induction ks arbitrary: s)
  case (Cons k ks)
  let ?s = "s\<lparr>warm_residencies := om_upd k f (warm_residencies s)\<rparr>"
  have "records_from s ?s" by (rule upd_from[OF assms])
  moreover have "records_from ?s (?s\<lparr>warm_residencies := fold (\<lambda>k. om_upd k f) ks (warm_residencies ?s)\<rparr>)" by (rule Cons.IH)
  ultimately show ?case using records_from_trans by fastforce
qed simp

lemma edits_from:
  "doc_inv s \<Longrightarrow> records_from s (remove_if_unchanged w s)" "records_from s (mark_evicting w s)"
  "records_from s (refresh_resident e w s)"
  by (auto simp: remove_if_unchanged_def mark_evicting_def refresh_resident_def doc_inv_warm_ok
      intro!: upd_from) (auto simp: records_from_def doc_inv_warm_ok split: if_splits)

lemma edits_claims:
  "claims (remove_if_unchanged w s) = claims s" "claims (mark_evicting w s) = claims s"
  "claims (refresh_resident e w s) = claims s"
  by (simp_all add: remove_if_unchanged_def mark_evicting_def refresh_resident_def)

lemma evict_from: "evict_begin d s = Inr (ws, t) \<Longrightarrow> records_from s t \<and> claims t = claims s"
  by (auto simp: evict_begin_def Let_def res_simps split: if_splits intro!: upds_from)

lemma closing_keep:
  "retire_commit e d s = Inr (u, t) \<Longrightarrow> doc_inv s \<Longrightarrow> others_keep (d_id d) s t \<and> records_from s t"
  "finish_recovery e d p s = Inr (u, t) \<Longrightarrow> doc_inv s \<Longrightarrow> others_keep (d_id d) s t \<and> records_from s t"
  "victim_commit d s = Inr (u, t) \<Longrightarrow> doc_inv s \<Longrightarrow> others_keep (d_id d) s t \<and> records_from s t"
  by (auto simp: retire_commit_def finish_recovery_def victim_commit_def res_simps doc_inv_claims_ok records_from_def
      split: if_splits intro!: others_keep_drop)


lemma others_keep_all: "others_keep j s t \<Longrightarrow> \<not> serving t j \<Longrightarrow> others_keep k s t"
  by (auto simp: others_keep_def)

lemma adopt_keep: "adopt_commit d w s = Inr (b, t) \<Longrightarrow> others_keep k s t \<and> records_from s t"
  by (auto simp: adopt_commit_def res_simps others_keep_def records_from_def split: option.splits if_splits)

lemma displace_keep:
  assumes "victim_commit v s = Inr (u, t)" and "doc_inv s"
  shows "others_keep k s t \<and> records_from s t"
proof -
  have "\<not> serving t (d_id v)"
    using assms(1) by (auto simp: victim_commit_def res_simps serving_def split: if_splits)
  then show ?thesis using closing_keep(3)[OF assms] others_keep_all by blast
qed

lemma cache_shape:
  assumes "cache_after_release e probe d s = Inr (True, t)" and "d_process d = Some p"
  shows "t = drop_claims_of (d_id d) (upd_demand (d_id d) (retired_demand e)
           (s\<lparr>warm_residencies := om_put (wm_id (warm_record e d p)) (warm_record e d p) (warm_residencies s)\<rparr>))"
    "p_driver (d_profile d) = Docker"
  using assms by (auto simp: cache_after_release_def cache_commit_def cache_candidate_def supported_def res_simps split: if_splits)

lemma cache_keep:
  assumes "cache_after_release e probe d s = Inr (True, t)" and "doc_inv s"
  shows "others_keep (d_id d) s t"
proof -
  obtain p where p: "d_process d = Some p" using assms(1) by (auto simp: cache_after_release_def res_simps split: if_splits)
  let ?s = "s\<lparr>warm_residencies := om_put (wm_id (warm_record e d p)) (warm_record e d p) (warm_residencies s)\<rparr>"
  have "others_keep (d_id d) ?s t"
    unfolding cache_shape(1)[OF assms(1) p] by (rule others_keep_drop) (simp add: doc_inv_claims_ok[OF assms(2)])
  then show ?thesis by (simp add: others_keep_def)
qed

lemma worker_claims:
  assumes "worker_step k (W k) s L R w' s' L' R'" and ok: "sys_ok s W L"
  shows "others_keep k s s'"
  using assms(1)
proof cases
  case (failed w d e err u)
  then show ?thesis using undisturbed_keeps[OF commits_undisturbed(7)] by blast
next
  case (evict d ws)
  then show ?thesis using evict_from others_keep_same by blast
next
  case (evict_remove d w ws)
  then show ?thesis using edits_claims others_keep_same by metis
next
  case (preflight d e u)
  then show ?thesis using undisturbed_keeps[OF commits_undisturbed(1)] by blast
next
  case (displace v u d)
  then show ?thesis using displace_keep[OF _ sys_ok_inv(1)[OF ok]] by blast
next
  case (transfer t sk d u)
  then show ?thesis using undisturbed_keeps[OF transfer_undisturbed] by blast
next
  case (adopt d w)
  then show ?thesis using adopt_keep by blast
next
  case (not_adopted d w)
  then show ?thesis using adopt_keep by blast
next
  case (unverified d w)
  then show ?thesis using edits_claims others_keep_same by metis
next
  case (resident_remove d w)
  then show ?thesis using edits_claims others_keep_same by metis
next
  case (start e d)
  then show ?thesis using undisturbed_keeps[OF commits_undisturbed(2)] by blast
next
  case (not_started e d)
  then show ?thesis using undisturbed_keeps[OF commits_undisturbed(2)] by blast
next
  case (started d p u)
  then show ?thesis using undisturbed_keeps[OF commits_undisturbed(3)] by blast
next
  case (ready d e p u)
  then show ?thesis using undisturbed_keeps[OF ready_undisturbed] by blast
next
  case (not_ready d err u)
  then show ?thesis using undisturbed_keeps[OF commits_undisturbed(4)] by blast
next
  case (restarting t d e u)
  then show ?thesis using undisturbed_keeps[OF commits_undisturbed(5)] by blast
next
  case (observed t d p u)
  then show ?thesis using undisturbed_keeps[OF commits_undisturbed(6)] by blast
next
  case (keep_warm e probe d p)
  have "d_id d = k" using sys_ok_pc[OF ok keep_warm(1)] by (simp add: seen_def)
  then show ?thesis using cache_keep[OF keep_warm(5) sys_ok_inv(1)[OF ok]] by simp
next
  case (retired e d u)
  have "d_id d = k" using sys_ok_pc[OF ok retired(1)] by (simp add: seen_def)
  then show ?thesis using closing_keep(1)[OF _ sys_ok_inv(1)[OF ok]] retired by blast
next
  case (prepare_stop t d e u)
  then show ?thesis using undisturbed_keeps[OF prepare_undisturbed] by blast
next
  case (found_process d' p u d)
  then show ?thesis using undisturbed_keeps[OF commits_undisturbed(8)] by blast
next
  case (recovered e d' u d)
  have "d_id d' = k" using sys_ok_pc[OF ok recovered(1)] by simp
  then show ?thesis using closing_keep(2)[OF _ sys_ok_inv(1)[OF ok]] recovered by blast
qed (simp_all add: others_keep_same)


text \<open>No step but \<open>keep_warm\<close> brings a resident or records one.\<close>

lemma worker_records:
  assumes "worker_step k (W k) s L R w' s' L' R'" and ok: "sys_ok s W L"
  obtains (kept) "records_from s s'" "R' \<subseteq> R"
  | (cached) e probe d p where "W k = Some (Deciding d RetireNow)" "w' = None" "L' = L - {k}"
      "R' = (if k \<in> L then insert (warm_record e d p) R else R)"
      "cache_after_release e probe d s = Inr (True, s')" "d_process d = Some p" "p \<notin> wm_process ` R"
proof -
  have "records_from s s' \<and> R' \<subseteq> R \<or> (\<exists>e probe d p. W k = Some (Deciding d RetireNow) \<and> w' = None \<and> L' = L - {k} \<and>
      R' = (if k \<in> L then insert (warm_record e d p) R else R) \<and>
      cache_after_release e probe d s = Inr (True, s') \<and> d_process d = Some p \<and> p \<notin> wm_process ` R)"
    using assms(1)
  proof cases
    case (keep_warm e probe d p)
    then show ?thesis by blast
  next
    case (failed w d e err u)
    then show ?thesis using undisturbed_keeps[OF commits_undisturbed(7)] by blast
  next
    case (evict d ws)
    then show ?thesis using evict_from by blast
  next
    case (evict_stop d w ws)
    then show ?thesis by (auto simp: evict_effect_def)
  next
    case (evict_remove d w ws)
    then show ?thesis using edits_from(1)[OF sys_ok_inv(1)[OF ok]] by blast
  next
    case (preflight d e u)
    then show ?thesis using undisturbed_keeps[OF commits_undisturbed(1)] by blast
  next
    case (displace v u d)
    then show ?thesis using displace_keep[OF _ sys_ok_inv(1)[OF ok]] by blast
  next
    case (transfer t sk d u)
    then show ?thesis using undisturbed_keeps[OF transfer_undisturbed] by blast
  next
    case (adopt d w)
    then show ?thesis using adopt_keep by (auto simp: adopt_effect_def evict_effect_def split: if_splits)
  next
    case (not_adopted d w)
    then show ?thesis using adopt_keep by blast
  next
    case (unverified d w)
    then show ?thesis using edits_from(2) by blast
  next
    case (resident_stop d w)
    then show ?thesis by (auto simp: evict_effect_def)
  next
    case (resident_remove d w)
    then show ?thesis using edits_from(1)[OF sys_ok_inv(1)[OF ok]] by blast
  next
    case (start e d)
    then show ?thesis using undisturbed_keeps[OF commits_undisturbed(2)] by blast
  next
    case (not_started e d)
    then show ?thesis using undisturbed_keeps[OF commits_undisturbed(2)] by blast
  next
    case (started d p u)
    then show ?thesis using undisturbed_keeps[OF commits_undisturbed(3)] by blast
  next
    case (ready d e p u)
    then show ?thesis using undisturbed_keeps[OF ready_undisturbed] by blast
  next
    case (not_ready d err u)
    then show ?thesis using undisturbed_keeps[OF commits_undisturbed(4)] by blast
  next
    case (restarting t d e u)
    then show ?thesis using undisturbed_keeps[OF commits_undisturbed(5)] by blast
  next
    case (observed t d p u)
    then show ?thesis using undisturbed_keeps[OF commits_undisturbed(6)] by blast
  next
    case (retired e d u)
    then show ?thesis using closing_keep(1)[OF _ sys_ok_inv(1)[OF ok]] by blast
  next
    case (prepare_stop t d e u)
    then show ?thesis using undisturbed_keeps[OF prepare_undisturbed] by blast
  next
    case (found_process d' p u d)
    then show ?thesis using undisturbed_keeps[OF commits_undisturbed(8)] by blast
  next
    case (recovered e d' u d)
    then show ?thesis using closing_keep(2)[OF _ sys_ok_inv(1)[OF ok]] by blast
  qed simp_all
  then show thesis using kept cached by blast
qed


subsection \<open>A step keeps the residents apart\<close>

lemma settling_frame:
  assumes "warm_ok s W L R" and "settling (W k)" and "claims t = claims s" "demands t = demands s" and "serving t k"
  shows "holds_devices t k"
  using assms by (auto simp: warm_ok_def serving_def holds_devices_def)

lemma adopt_clear:
  assumes wk: "warm_ok s W L R" and sn: "seen s k d" and c: "adopt_commit d w s = Inr (True, t)"
    and r: "wm_process w \<in> wm_process ` R"
  shows "clear_of t (evict_effect w R) k"
proof -
  have k: "d_id d = k" using sn by (simp add: seen_def)
  obtain x where x: "get_demand s k = Some x" "d_profile x = d_profile d" using sn by (auto simp: seen_def is_some_and_iff)
  obtain v where v: "map_of (warm_residencies s) (wm_id w) = Some v" "wm_process v = wm_process w" "compatible v d"
    using c by (auto simp: adopt_commit_def res_simps split: option.splits if_splits)
  obtain b where b: "b \<in> R" "wm_process b = wm_process w" using r by auto
  then have "wm_resources b = p_resources (d_profile d)"
    using wk v by (auto simp: warm_ok_def recorded_ok_def compatible_def)
  moreover have "set (wm_resources b) \<inter> set (wm_resources b') = {}" if "b' \<in> evict_effect w R" for b'
  proof -
    have "b' \<in> R" "b \<noteq> b'" using that b by (auto simp: evict_effect_def)
    then show ?thesis using warm_okD(1)[OF wk b(1)] by blast
  qed
  moreover have "devices_used t k \<subseteq> set (p_resources (d_profile d))"
  proof -
    have "moves {k} s t" by (rule adopt_moves[OF c]) (simp add: k)
    then have "devices_used t k = devices_used s k"
      using devices_used_kept[OF moves_advances, of "{k}" s t k] x(1) by simp
    then show ?thesis using x by (simp add: devices_used_def)
  qed
  ultimately show ?thesis by (auto simp: clear_of_def)
qed

lemma devices_empty_clear:
  assumes "devices_empty s L R d" and "seen s k d"
  shows "clear_of s R k"
  using assms by (auto simp: devices_empty_def clear_of_def devices_used_def seen_def is_some_and_iff split: if_splits)

lemma transfer_holds:
  assumes "transfer_commit d s = Inr (u, t)" and "doc_inv s"
  shows "holds_devices t (d_id d)"
proof -
  obtain x where x: "get_demand s (d_id d) = Some x" "transfer x s = Inr t"
    using assms(1) by (auto simp: transfer_commit_def res_simps split: if_splits)
  then show ?thesis
    using doc_inv_id[OF assms(2) x(1)] by (simp add: transfer_result(1)[OF x(2)] holds_devices_def)
qed

lemma start_clear:
  assumes ok: "sys_ok s W L" and wk: "warm_ok s W L R" and W: "W k = Some (Cleared d)"
    and c: "start_commit e d s = Inr (True, t)"
  shows "clear_of t R k"
proof -
  have k: "d_id d = k" using sys_ok_pc[OF ok W] by (simp add: seen_def)
  have sv: "serving s k" using c k by (auto simp: start_commit_def res_simps serving_def split: if_splits)
  then have "clear_of s R k" using wk W by (auto simp: warm_ok_def)
  then show ?thesis
    by (rule clear_of_kept[OF _ moves_advances[OF start_moves[OF c]] subset_refl])
      (use sv in \<open>auto simp: serving_def is_some_and_iff\<close>)
qed

lemma worker_next:
  assumes "worker_step k (W k) s L R w' s' L' R'" and ok: "sys_ok s W L" and wk: "warm_ok s W L R"
  shows "(\<forall>j \<in> L'. j \<in> L \<or> j = k \<and> clear_of s' R' k) \<and> (is_starting w' \<longrightarrow> clear_of s' R' k) \<and>
    (serving s' k \<longrightarrow> (settling w' \<longrightarrow> holds_devices s' k) \<and> (is_cleared w' \<longrightarrow> clear_of s' R' k))"
  using assms(1)
proof cases
  case (transfer t sk d u)
  have "d_id d = k" using sys_ok_pc[OF ok transfer(1)] by (simp add: seen_def)
  then show ?thesis using transfer transfer_holds[OF _ sys_ok_inv(1)[OF ok]] by auto
next
  case (no_resident d)
  then show ?thesis using settling_frame[OF wk, of k s] by auto
next
  case (resident d w)
  then show ?thesis using settling_frame[OF wk, of k s] by auto
next
  case (adopt d w)
  have "seen s k d" using sys_ok_pc[OF ok adopt(1)] by simp
  then show ?thesis using adopt adopt_clear[OF wk _ adopt(3)] by (auto simp: adopt_effect_def split: if_splits)
next
  case (not_adopted d w)
  then have "s' = s" by (auto simp: adopt_commit_def res_simps split: option.splits if_splits)
  then show ?thesis using not_adopted settling_frame[OF wk, of k s] by auto
next
  case (unverified d w)
  then show ?thesis using settling_frame[OF wk, of k s'] by (auto simp: mark_evicting_def)
next
  case (resident_stop d w)
  then show ?thesis using settling_frame[OF wk, of k s] by auto
next
  case (resident_remove d w)
  then show ?thesis using settling_frame[OF wk, of k s'] by (auto simp: remove_if_unchanged_def)
next
  case (clear d)
  have "seen s k d" using sys_ok_pc[OF ok clear(1)] by simp
  then show ?thesis using clear settling_frame[OF wk, of k s] devices_empty_clear by auto
next
  case (start e d)
  then show ?thesis using start_clear[OF ok wk] by auto
next
  case (launch d)
  then show ?thesis using wk by (auto simp: warm_ok_def)
qed (auto simp: stop_effect_def)


text \<open>A container that is left loaded takes the devices of a demand that held them alone.\<close>

lemma keep_warm_apart:
  assumes ok: "sys_ok s W L" and wk: "warm_ok s W L R" and W: "W k = Some (Deciding d RetireNow)"
    and c: "cache_after_release e probe d s = Inr (True, t)" and p: "d_process d = Some p" "p \<notin> wm_process ` R"
  shows "warm_ok t (W(k := None)) (L - {k}) (if k \<in> L then insert (warm_record e d p) R else R)"
proof -
  let ?w = "warm_record e d p" and ?R = "if k \<in> L then insert (warm_record e d p) R else R"
  have k: "d_id d = k" and sn: "seen s k d" using sys_ok_pc[OF ok W] by (auto simp: seen_def)
  obtain x where x: "get_demand s k = Some x" "d_profile x = d_profile d" using sn by (auto simp: seen_def is_some_and_iff)
  note t = cache_shape(1)[OF c p(1), unfolded k] and docker = cache_shape(2)[OF c p(1)]
  note inv = sys_ok_inv(1)[OF ok]
  have mv: "moves {k} s t" using cache_moves[OF c] k by simp
  have used: "devices_used s k = set (wm_resources ?w)"
    using x docker by (simp add: devices_used_def warm_record_def)
  have kp: "others_keep k s t" using cache_keep[OF c inv] k by simp
  have kn: "devices_used t j = devices_used s j" if "get_demand s j \<noteq> None" for j
    by (rule devices_used_kept[OF moves_advances[OF mv] that])
  have own: "k \<in> L \<Longrightarrow> holds_devices s k" using ok by (intro started_holds[OF inv]) (simp add: sys_ok_def)
  have cl: "clear_of t ?R j" if "clear_of s R j" "holds_devices s j" "j \<noteq> k" for j
  proof -
    have "get_demand s j \<noteq> None" using that(2) by (auto simp: holds_devices_def is_some_and_iff)
    then show ?thesis
      using that holders_apart[OF that(2) own that(3)] kn[of j] used by (auto simp: clear_of_def)
  qed
  have 1: "set (wm_resources b) \<inter> set (wm_resources b') = {}" if m: "b \<in> ?R" "b' \<in> ?R" "b \<noteq> b'" for b b'
  proof -
    have w: "set (wm_resources ?w) \<inter> set (wm_resources b) = {}" if "k \<in> L" "b \<in> R" for b
      using warm_okD(2)[OF wk that(1)] that(2) used by (simp add: clear_of_def)
    consider "b \<in> R" "b' \<in> R" | "b = ?w" "b' \<in> R" "k \<in> L" | "b' = ?w" "b \<in> R" "k \<in> L"
      using m by (auto split: if_splits)
    then show ?thesis
    proof cases
      case 1
      then show ?thesis using warm_okD(1)[OF wk] m(3) by blast
    next
      case 2
      then show ?thesis using w by blast
    next
      case 3
      then show ?thesis using w[of b] by (metis inf_commute)
    qed
  qed
  have 2: "clear_of t ?R j" if "j \<in> L - {k}" for j
    using that wk ok by (intro cl started_holds[OF inv]) (auto simp: warm_ok_def sys_ok_def)
  have 3: "clear_of t ?R j" if st: "is_starting ((W(k := None)) j)" for j
  proof -
    have "j \<noteq> k" "is_starting (W j)" using st by (auto split: if_splits)
    moreover from this obtain w where "W j = Some w" "is_starting (Some w)" by (cases "W j") auto
    ultimately show ?thesis
      using wk by (intro cl started_holds[OF inv] starting_started[OF sys_ok_pc[OF ok]]) (auto simp: warm_ok_def)
  qed
  have 4: "(settling ((W(k := None)) j) \<longrightarrow> holds_devices t j) \<and> (is_cleared ((W(k := None)) j) \<longrightarrow> clear_of t ?R j)"
    if sv: "serving t j" for j
  proof (cases "j \<noteq> k \<and> settling (W j)")
    case True
    have "serving s j" by (rule moves_serving[OF mv pc_known[OF ok] sv]) (simp add: True)
    then show ?thesis
      using True wk holds_kept[OF _ moves_advances[OF mv] kp _ sv] cl by (auto simp: warm_ok_def)
  next
    case False
    then show ?thesis by (cases "W j" rule: is_cleared.cases) auto
  qed
  have 5: "recorded_ok t ?R"
    unfolding recorded_ok_def
  proof (intro allI impI)
    fix j v
    assume v: "map_of (warm_residencies t) j = Some v"
    have id: "wm_id ?w = pr_activation p" "wm_process ?w = p" by (simp_all add: warm_record_def)
    show "pr_activation (wm_process v) = j \<and> (\<forall>b \<in> ?R. wm_process b = wm_process v \<longrightarrow> wm_resources b = wm_resources v)"
    proof (cases "j = wm_id ?w")
      case True
      then have "v = ?w" using v by (simp add: t)
      then show ?thesis using True id p(2) by force
    next
      case False
      then have "map_of (warm_residencies s) j = Some v" using v by (simp add: t)
      then have r: "pr_activation (wm_process v) = j" "\<forall>b \<in> R. wm_process b = wm_process v \<longrightarrow> wm_resources b = wm_resources v"
        using wk by (auto simp: warm_ok_def recorded_ok_def)
      then show ?thesis using False id by auto
    qed
  qed
  show ?thesis unfolding warm_ok_def using 1 2 3 4 5 by blast
qed

lemma worker_step_warm:
  assumes step: "worker_step k (W k) s L R w' s' L' R'" and ok: "sys_ok s W L" and wk: "warm_ok s W L R"
  shows "warm_ok s' (W(k := w')) L' R'"
  using step ok
proof (cases rule: worker_records)
  case kept
  obtain j where mv: "moves {j} s s'" using worker_step_moves[OF step ok] by blast
  note n = worker_next[OF step ok wk]
  show ?thesis
    by (rule warm_frame[OF ok wk mv worker_claims[OF step ok] kept]) (use n in blast)+
next
  case (cached e probe d p)
  then show ?thesis using keep_warm_apart[OF ok wk] by simp
qed

lemma service_step_warm:
  assumes "service_step s t" and inv: "doc_inv s"
  shows "records_from s t \<and> others_keep k s t"
  using assms(1)
proof cases
  case acquire
  then show ?thesis using acquire.commits[OF _ inv] undisturbed_keeps by blast
next
  case reserve
  then show ?thesis using reserve.commits[OF _ inv] undisturbed_keeps by blast
next
  case refresh
  then show ?thesis using refresh.commits[OF _ inv] undisturbed_keeps by blast
next
  case control
  then show ?thesis using control.commits[OF _ inv] undisturbed_keeps by blast
next
  case group_control
  then show ?thesis using group_control.commits[OF _ inv] undisturbed_keeps by blast
next
  case cancel_call
  then show ?thesis using cancel_call.commits[OF _ inv] undisturbed_keeps by blast
next
  case scope
  then show ?thesis using scopes.commits[OF _ inv] undisturbed_keeps by blast
next
  case dispatch
  then show ?thesis using dispatch.commits[OF _ inv] undisturbed_keeps by blast
next
  case children
  then show ?thesis using children.commits[OF _ inv] undisturbed_keeps by blast
next
  case analysis
  then show ?thesis using analysis.commits[OF _ inv] undisturbed_keeps by blast
next
  case reconsider
  then show ?thesis using pass.commits[OF _ inv] undisturbed_keeps by blast
next
  case submit
  then show ?thesis using submit.commits[OF _ inv] undisturbed_keeps by (metis fst_conv)
next
  case complete
  then show ?thesis using complete.commits[OF _ inv] undisturbed_keeps by (metis fst_conv)
qed (use edits_from(1)[OF inv] edits_from(2,3) edits_claims others_keep_same in metis)+

definition apart :: "system \<Rightarrow> bool" where
  "apart x \<longleftrightarrow> warm_ok (sys_doc x) (sys_workers x) (sys_live x) (sys_warm x)"

text \<open>A step of the surroundings: the workers stay where they are, or are gone.\<close>

lemma warm_outside:
  assumes ok: "sys_ok s W L" and wk: "warm_ok s W L R" and "moves {} s t" "\<And>k. others_keep k s t" "records_from s t"
    and "R' \<subseteq> R" "L' \<subseteq> L"
  shows "warm_ok t W L' R'" "warm_ok t (\<lambda>_. None) L' R'"
proof -
  note a = moves_advances[OF assms(3)]
  obtain k k' :: string where k: "k \<noteq> k'" by (metis list.distinct(1))
  have st: "clear_of t R' k" if "is_starting (W k)"
    by (rule clear_of_kept[OF warm_okD(3)[OF wk that] a assms(6)]) (use pc_known[OF ok] that in blast)
  have se: "(settling (W k) \<longrightarrow> holds_devices t k) \<and> (is_cleared (W k) \<longrightarrow> clear_of t R' k)" if "serving t k"
  proof (cases "settling (W k)")
    case True
    have sv: "serving s k" by (rule moves_serving[OF assms(3) pc_known[OF ok] that]) (simp add: True)
    have kn: "get_demand s k \<noteq> None" using pc_known[OF ok] True by blast
    show ?thesis
      using holds_kept[OF warm_okD(4)[OF wk sv True] a assms(4) k that]
        clear_of_kept[OF warm_okD(5)[OF wk sv] a assms(6) kn] by blast
  next
    case False
    then show ?thesis by (cases "W k" rule: is_cleared.cases) auto
  qed
  have "warm_ok t (W(k := W k)) L' R'"
    by (rule warm_frame[OF ok wk assms(3,4,5,6)]) (use assms(7) st se in blast)+
  then show w: "warm_ok t W L' R'" by simp
  show "warm_ok t (\<lambda>_. None) L' R'" using w by (auto simp: warm_ok_def)
qed


lemma sys_step_apart:
  assumes "sys_step x y" and "safe x" and "apart x"
  shows "apart y"
  using assms
proof (induction rule: sys_step.induct)
  case (service x s')
  then have ok: "sys_ok (sys_doc x) (sys_workers x) (sys_live x)" by (simp add: safe_def)
  have "moves {} (sys_doc x) s'" by (rule advances_moves) (use service_step_ok[OF service(1) sys_ok_inv(1)[OF ok]] in blast)
  then show ?case
    using warm_outside(1)[OF ok _ _ _ _ subset_refl subset_refl] service_step_warm[OF service(1) sys_ok_inv(1)[OF ok]]
      service(3) by (simp add: apart_def)
next
  case (worker k x w' s' L' R')
  then show ?case using worker_step_warm by (simp add: safe_def apart_def)
next
  case (backend_ends x k)
  then show ?case
    using warm_outside(1)[OF _ _ moves_refl _ records_from_refl subset_refl] by (auto simp: safe_def apart_def others_keep_def)
next
  case (resident_ends x w)
  then show ?case
    using warm_outside(1)[OF _ _ moves_refl _ records_from_refl _ subset_refl] by (auto simp: safe_def apart_def others_keep_def)
next
  case (restart e b p x u s')
  have "undisturbed (sys_doc x) s'" by (rule undisturbed_recover[OF restart(1)])
  moreover have "moves {} (sys_doc x) s'" by (rule advances_moves[OF recover_advances[OF restart(1)]])
  ultimately show ?case
    using warm_outside(2)[OF _ _ _ _ _ subset_refl subset_refl] restart undisturbed_keeps by (simp add: safe_def apart_def)
qed

lemma init_apart: "sys_init x \<Longrightarrow> apart x"
  by (simp add: apart_def sys_init_def warm_ok_def recorded_ok_def)

lemma reachable_apart: "reachable x \<Longrightarrow> apart x"
  by (induction rule: reachable.induct) (auto intro: init_apart sys_step_apart reachable_safe)


section \<open>Properties\<close>

text \<open>A backend that runs, for a demand or as a resident, and the devices it uses.\<close>

datatype backend = Serving string | Loaded warm_residency

definition running :: "system \<Rightarrow> backend set" where
  "running x = Serving ` sys_live x \<union> Loaded ` sys_warm x"

fun uses :: "document \<Rightarrow> backend \<Rightarrow> string set" where
  "uses s (Serving k) = devices_used s k"
| "uses s (Loaded w) = set (wm_resources w)"

lemma live_owner:
  assumes "safe x" and "k \<in> sys_live x"
  obtains d where "get_demand (sys_doc x) k = Some d" "d_effect_started d" "owns (sys_doc x) d" "d_id d = k"
proof -
  have ok: "sys_ok (sys_doc x) (sys_workers x) (sys_live x)" using assms(1) by (simp add: safe_def)
  then obtain d where d: "get_demand (sys_doc x) k = Some d" "d_effect_started d"
    using assms(2) by (auto simp: sys_ok_def started_in_def is_some_and_iff)
  then show thesis
    using that doc_inv_effect[OF sys_ok_inv(1)[OF ok]] doc_inv_id[OF sys_ok_inv(1)[OF ok]] by blast
qed

lemma uses_apart:
  assumes s: "safe x" and w: "apart x" and ab: "a \<in> running x" "b \<in> running x" "a \<noteq> b"
  shows "uses (sys_doc x) a \<inter> uses (sys_doc x) b = {}"
proof -
  note wk = w[unfolded apart_def]
  have inv: "doc_inv (sys_doc x)" and st: "\<And>k. k \<in> sys_live x \<Longrightarrow> started_in (sys_doc x) k"
    using s by (simp_all add: safe_def sys_ok_def)
  have mixed: "devices_used (sys_doc x) k \<inter> set (wm_resources v) = {}" if "k \<in> sys_live x" "v \<in> sys_warm x" for k v
    using warm_okD(2)[OF wk that(1)] that(2) by (simp add: clear_of_def)
  show ?thesis
  proof (cases a)
    case j: (Serving j)
    show ?thesis
    proof (cases b)
      case (Serving k)
      then show ?thesis
        using ab j holders_apart[OF started_holds[OF inv st] started_holds[OF inv st], of j k]
        by (auto simp: running_def)
    next
      case (Loaded v)
      then show ?thesis using ab j mixed[of j v] by (auto simp: running_def)
    qed
  next
    case u: (Loaded u)
    show ?thesis
    proof (cases b)
      case (Serving k)
      then show ?thesis using ab u mixed[of k u] by (auto simp: running_def)
    next
      case (Loaded v)
      then show ?thesis using ab u warm_okD(1)[OF wk, of u v] by (auto simp: running_def)
    qed
  qed
qed

text \<open>C1: no two running backends ever share a device. In every state the runtime can reach, under
  any interleaving of clients, dispatchers, the supervisor's pass and the workers of all demands,
  with backends that end by themselves and crashes at any point: a demand whose backend runs is recorded as
  started and holds every device of its profile, two such demands have no device in common, and the devices used
  by any two backends that run, warm residents included, are disjoint (a fixture uses none).\<close>

theorem running_backends_exclusive:
  assumes "reachable x"
  shows "(\<forall>k \<in> sys_live x. \<exists>d. get_demand (sys_doc x) k = Some d \<and> d_effect_started d \<and> owns (sys_doc x) d \<and>
      (\<forall>j \<in> sys_live x. j \<noteq> k \<longrightarrow> (\<forall>d'. get_demand (sys_doc x) j = Some d' \<longrightarrow>
         set (p_resources (d_profile d')) \<inter> set (p_resources (d_profile d)) = {}))) \<and>
    (\<forall>a \<in> running x. \<forall>b \<in> running x. a \<noteq> b \<longrightarrow> uses (sys_doc x) a \<inter> uses (sys_doc x) b = {})"
proof -
  note s = reachable_safe[OF assms] and w = reachable_apart[OF assms]
  have inv: "doc_inv (sys_doc x)" using s by (simp add: safe_def sys_ok_def)
  have one: "\<exists>d. get_demand (sys_doc x) k = Some d \<and> d_effect_started d \<and> owns (sys_doc x) d \<and>
      (\<forall>j \<in> sys_live x. j \<noteq> k \<longrightarrow> (\<forall>d'. get_demand (sys_doc x) j = Some d' \<longrightarrow>
         set (p_resources (d_profile d')) \<inter> set (p_resources (d_profile d)) = {}))" if live: "k \<in> sys_live x" for k
  proof -
    obtain d where d: "get_demand (sys_doc x) k = Some d" "d_effect_started d" "owns (sys_doc x) d"
      using live_owner[OF s live] by blast
    have "set (p_resources (d_profile d')) \<inter> set (p_resources (d_profile d)) = {}"
      if "j \<in> sys_live x" "j \<noteq> k" "get_demand (sys_doc x) j = Some d'" for j d'
    proof -
      have "d_effect_started d'" using live_owner[OF s that(1)] that(3) by (metis option.inject)
      then show ?thesis using doc_inv_exclusive[OF inv that(3) d(1) that(2)] d(2) by blast
    qed
    then show ?thesis using d by blast
  qed
  show ?thesis using one uses_apart[OF s w] by blast
qed

lemma worker_lets_go:
  assumes "worker_step j w s L R w' s' L' R'" and "k \<in> L" "k \<notin> L'"
  shows "s' = s \<or> (\<exists>e probe d p. j = k \<and> w = Some (Deciding d RetireNow) \<and> d_process d = Some p \<and>
    cache_after_release e probe d s = Inr (True, s') \<and> R' = insert (warm_record e d p) R)"
  using assms(1)
proof cases
  case (adopt d w)
  then show ?thesis using assms(2,3) by (auto simp: adopt_effect_def split: if_splits)
next
  case (keep_warm e probe d p)
  then show ?thesis using assms(2,3) by auto
qed (use assms(2,3) in auto)

text \<open>C2: a device is never taken from a running backend. Whatever step the system takes, a device
  claimed for a demand whose backend runs for it after the step stays claimed for it; and a step that takes a claim
  from a demand whose backend was running leaves that backend as a warm resident that the document records with
  this device, so that C1 keeps every other backend off it.\<close>

theorem running_backend_keeps_devices:
  assumes "reachable x" and "sys_step x y" and "get_claim (sys_doc x) r = Some k"
  shows "(k \<in> sys_live y \<longrightarrow> get_claim (sys_doc y) r = Some k) \<and>
    (k \<in> sys_live x \<and> get_claim (sys_doc y) r \<noteq> Some k \<longrightarrow> k \<notin> sys_live y \<and>
       (\<exists>w \<in> sys_warm y. r \<in> set (wm_resources w) \<and> map_of (warm_residencies (sys_doc y)) (wm_id w) = Some w))"
proof -
  note s = reachable_safe[OF assms(1)]
  then have ok: "sys_ok (sys_doc x) (sys_workers x) (sys_live x)" by (simp add: safe_def)
  then have "doc_inv (sys_doc x)" by (simp add: sys_ok_def)
  then obtain d where d: "get_demand (sys_doc x) k = Some d" "r \<in> set (p_resources (d_profile d))"
    using doc_inv_claim assms(3) by blast
  have kept: "get_claim (sys_doc y) r = Some k" if live: "k \<in> sys_live y"
  proof -
    obtain d' where d': "get_demand (sys_doc y) k = Some d'" "owns (sys_doc y) d'" "d_id d' = k"
      using live_owner[OF sys_step_safe[OF assms(2) s] live] by blast
    obtain j where "moves {j} (sys_doc x) (sys_doc y)" using sys_step_moves[OF assms(2) s] by blast
    then have "d_profile d' = d_profile d"
      using advances_Some[OF moves_advances d(1)] d'(1) by (metis option.inject)
    then show ?thesis using owns_claim[OF d'(2)] d(2) d'(3) by simp
  qed
  have handed: "\<exists>w \<in> sys_warm y. r \<in> set (wm_resources w) \<and> map_of (warm_residencies (sys_doc y)) (wm_id w) = Some w"
    if live: "k \<in> sys_live x" and lost: "get_claim (sys_doc y) r \<noteq> Some k" and off: "k \<notin> sys_live y"
    using assms(2)
  proof cases
    case (worker j w' s' L' R')
    from worker_lets_go[OF worker(2) live] off worker(1) lost assms(3)
    obtain e probe q p where c: "j = k" "sys_workers x k = Some (Deciding q RetireNow)" "d_process q = Some p"
        "cache_after_release e probe q (sys_doc x) = Inr (True, s')" "R' = insert (warm_record e q p) (sys_warm x)"
      by auto
    have "seen (sys_doc x) k q" using sys_ok_pc[OF ok c(2)] by simp
    then have "d_profile q = d_profile d" using d(1) by (simp add: seen_def)
    then show ?thesis using c(5) worker(1) cache_shape(1)[OF c(4,3)] d(2)
      by (intro bexI[of _ "warm_record e q p"]) (simp_all add: warm_record_def)
  qed (use live lost off assms(3) in auto)
  show ?thesis using kept handed by blast
qed

section \<open>A run\<close>

text \<open>The worker of a prepared demand that holds its devices brings its backend up.\<close>

definition fresh_start :: "document \<Rightarrow> string \<Rightarrow> demand \<Rightarrow> bool" where
  "fresh_start s k d \<longleftrightarrow>
     get_demand s k = Some d \<and> d_id d = k \<and> d_state d = Preparing \<and> active 100 d \<and>
     d_preflight_done d \<and> d_victims d = [] \<and> d_reservation_id d = None \<and> d_process d = None \<and>
     owns s d \<and> warm_residencies s = [] \<and> (\<forall>x \<in> set (om_vals (demands s)). d_victims x = [])"

definition brought_up :: "string \<Rightarrow> string list \<Rightarrow> document \<Rightarrow> document" where
  "brought_up k rs s = upd_demand k (\<lambda>x. x\<lparr>d_effect_started := True\<rparr>) (claim_all k rs s)"

abbreviation at_work :: "document \<Rightarrow> (string \<Rightarrow> pc option) \<Rightarrow> string set \<Rightarrow> warm_residency set \<Rightarrow> system" where
  "at_work s W L R \<equiv> \<lparr>sys_doc = s, sys_workers = W, sys_live = L, sys_warm = R\<rparr>"

lemma run_on:
  assumes "reachable (at_work s (W(k := w)) L R)" and "worker_step k w s L R w' s' L' R'"
  shows "reachable (at_work s' (W(k := w')) L' R')"
  using reachable.step[OF assms(1) sys_step.worker[of k "at_work s (W(k := w)) L R" w' s' L' R']] assms(2) by simp

lemma bring_up:
  assumes r: "reachable (at_work s W L R)" and W: "W k = None"
    and d: "fresh_start s k d" and free: "devices_empty (claim_all k (p_resources (d_profile d)) s) L R d"
  shows "reachable (at_work (brought_up k (p_resources (d_profile d)) s) (W(k := Some (Starting d))) (insert k L) R)"
proof -
  note d' = d[unfolded fresh_start_def]
  let ?rs = "p_resources (d_profile d)"
  have "W = W(k := None)" using W by auto
  then have r0: "reachable (at_work s (W(k := None)) L R)" using r by simp
  have "needs_transition 100 s d" using d' by (auto simp: needs_transition_def)
  then have "d \<in> set (transition_candidates 100 s)"
    using d' in_om_valsI[of "demands s" k d] by (simp add: transition_candidates_def)
  note r1 = run_on[OF r0 select[OF this, of k]]
  have "get_demand s k = Some d" using d' by blast
  note r2 = run_on[OF _ fetch[OF this]]
  have "advance_procedure 100 d = Prepare" "boundary 100 s d = Inr ()"
    using d' by (simp_all add: advance_procedure_def boundary_def)
  note r3 = run_on[OF _ bound[OF this]]
  have "root_drained s d = Inr True" using d' by (simp add: root_drained_def)
  note r4 = run_on[OF _ drained_root[OF _ this]]
  have none: "\<not> (\<exists>r \<in> set ?rs. is_some_and (get_claim s r) (\<lambda>owner. owner \<noteq> k))"
    using d' by (auto simp: owns_def)
  have "transfer_commit d s = Inr ((), claim_all k ?rs s)"
    using d' none by (simp add: transfer_commit_def transfer_def)
  moreover have "drain_victims 100 (\<lambda>_. s) (d_victims d) = Inr AllDrained" using d' by simp
  ultimately have tr: "worker_step k (Some (AtVictims d)) s L R (Some (Placed d)) (claim_all k ?rs s) L R"
    by (intro worker_step.transfer)
  note r5 = run_on[OF _ tr]
  have "adopt_read d (claim_all k ?rs s) = Inr None" using d' by (simp add: adopt_read_def)
  note r6 = run_on[OF _ no_resident[OF _ this]]
  note r7 = run_on[OF _ clear[OF free]]
  have "start_commit sample_env d (claim_all k ?rs s) = Inr (True, brought_up k ?rs s)"
    using d' by (simp add: start_commit_def current_def owns_def brought_up_def)
  note r8 = run_on[OF _ worker_step.start[OF this, of k L R]]
  show ?thesis
    by (rule run_on[OF _ launch], rule r8, rule r7, rule r6, rule r5, rule r4, rule r3, rule r2, rule r1)
      (use d' in simp_all)
qed


text \<open>A demand whose container was started is released, and the container stays loaded.\<close>

definition sample_container :: process where
  "sample_container = sample_process\<lparr>pr_activation := ''d1g''\<rparr>"

definition loaded_profile :: profile where
  "loaded_profile = (sample_profile ''coder'' [''gpu0''])\<lparr>p_backend := Vllm, p_driver := Docker\<rparr>"

definition cooling :: demand where
  "cooling = (sample_demand ''d1'' Preparing Low loaded_profile)
     \<lparr>d_process := None, d_effect_started := False, d_ready_checked := False\<rparr>"

definition sample_idle :: "string \<Rightarrow> profile \<Rightarrow> demand" where
  "sample_idle k prof = (sample_demand k Preparing Low prof)
     \<lparr>d_process := None, d_effect_started := False, d_ready_checked := False\<rparr>"

definition sample_pair :: document where
  "sample_pair = sample_document\<lparr>claims := [(''gpu0'', ''d1''), (''gpu1'', ''d2'')],
     demands := [(''d1'', cooling), (''d2'', sample_idle ''d2'' (sample_profile ''vision'' [''gpu1'']))],
     invocations := []\<rparr>"

lemma sample_pair_init: "sys_init (at_work sample_pair (\<lambda>_. None) {} {})"
  unfolding sys_init_def doc_inv_def maps_ok_def
  by (auto simp: sample_pair_def sample_idle_def cooling_def loaded_profile_def sample_document_def sample_demand_def om_ok_def
      live_ok_def owns_def sample_profile_def arrives_def split: if_splits)

definition sample_running :: document where
  "sample_running = brought_up ''d2'' [''gpu1''] (brought_up ''d1'' [''gpu0''] sample_pair)"

lemma sample_run:
  "\<exists>W. W ''d1'' = Some (Starting cooling) \<and> reachable (at_work sample_running W {''d2'', ''d1''} {})"
proof -
  let ?p2 = "sample_profile ''vision'' [''gpu1'']"
  have f1: "fresh_start sample_pair ''d1'' cooling"
    by (auto simp: fresh_start_def sample_pair_def sample_idle_def cooling_def loaded_profile_def sample_demand_def active_def
        owns_def om_vals_def sample_profile_def sample_document_def)
  have f2: "fresh_start (brought_up ''d1'' [''gpu0''] sample_pair) ''d2'' (sample_idle ''d2'' ?p2)"
    by (auto simp: fresh_start_def sample_pair_def sample_idle_def cooling_def loaded_profile_def sample_demand_def active_def
        owns_def om_vals_def sample_profile_def sample_document_def brought_up_def om_upd_def)
  have "p_resources (d_profile cooling) = [''gpu0'']" by (simp add: cooling_def loaded_profile_def sample_demand_def sample_profile_def)
  then have r1: "reachable (at_work (brought_up ''d1'' [''gpu0''] sample_pair) ((\<lambda>_. None)(''d1'' := Some (Starting cooling))) {''d1''} {})"
    using bring_up[OF reachable.init[OF sample_pair_init] _ f1] by (simp add: devices_empty_def)
  have e: "devices_empty (claim_all ''d2'' [''gpu1''] (brought_up ''d1'' [''gpu0''] sample_pair)) {''d1''} {} (sample_idle ''d2'' ?p2)"
    by (auto simp: devices_empty_def devices_used_def brought_up_def sample_pair_def sample_idle_def cooling_def loaded_profile_def
        sample_demand_def sample_profile_def)
  have "p_resources (d_profile (sample_idle ''d2'' ?p2)) = [''gpu1'']" by (simp add: sample_idle_def sample_demand_def sample_profile_def)
  from bring_up[OF r1 _ f2, unfolded this, folded sample_running_def, OF _ e] show ?thesis
    by (intro exI[of _ "((\<lambda>_. None)(''d1'' := Some (Starting cooling)))(''d2'' := Some (Starting (sample_idle ''d2'' ?p2)))"]) simp
qed

definition sample_loaded :: warm_residency where
  "sample_loaded = warm_record sample_env (cooling\<lparr>d_process := Some sample_container\<rparr>) sample_container"

lemma begin_release_victims: "d_victims (begin_release n a d) = d_victims d"
  by (simp add: begin_release_def Let_def)

lemma sample_cooled:
  "\<exists>s W. reachable (at_work s W {''d2''} {sample_loaded})"
proof -
  obtain W where W: "W ''d1'' = Some (Starting cooling)" and r: "reachable (at_work sample_running W {''d2'', ''d1''} {})"
    using sample_run by blast
  define x where "x = cooling\<lparr>d_effect_started := True\<rparr>"
  define y where "y = x\<lparr>d_process := Some sample_container\<rparr>"
  define s where "s = upd_demand ''d1'' (\<lambda>x. x\<lparr>d_process := Some sample_container\<rparr>) sample_running"
  define t where "t = release sample_env ''d1'' Release s"
  define z where "z = begin_release 100 Release y"
  have x: "get_demand sample_running ''d1'' = Some x" and warm: "warm_residencies sample_running = []"
      and calls: "invocations sample_running = []"
    by (simp_all add: x_def sample_running_def brought_up_def sample_pair_def sample_document_def)
  have i: "d_id x = ''d1''" "d_generation x = ''d1g''" "d_owner x = ''app''" "d_state x = Preparing"
      "d_recovery_reconciliation x = None" "d_reason x = None" "d_victims x = []"
    by (simp_all add: x_def cooling_def sample_demand_def)
  have "process_commit cooling sample_container sample_running = Inr ((), s)"
    using x i by (simp add: process_commit_def current_def s_def cooling_def sample_demand_def)
  moreover have "W = W(''d1'' := Some (Starting cooling))" using W by auto
  ultimately have r1: "reachable (at_work s (W(''d1'' := None)) {''d2'', ''d1''} {})"
    using run_on[of sample_running W "''d1''" "Some (Starting cooling)"] r worker_step.started by metis
  have y: "get_demand s ''d1'' = Some y" by (simp add: s_def x y_def)
  have z: "get_demand t ''d1'' = Some z" by (simp add: t_def y z_def)
  have zi: "d_id z = ''d1''" "d_generation z = ''d1g''" "d_state z = Releasing" "d_process z = Some sample_container"
      "d_effect_started z" "d_reason z = Some ''released''" "d_profile z = loaded_profile" "backend_activation z = ''d1g''"
      "d_profile_hash z = d_profile_hash cooling"
    by (simp_all add: z_def begin_release_def y_def x_def cooling_def sample_demand_def backend_activation_def IDLE_TIMEOUT_def Let_def)
  have "apply_control sample_env sample_config ''app'' ''d1'' \<lparr>ct_generation = ''d1g'', ct_action = Release\<rparr> s = Inr (z, t)"
    using y z i by (simp add: apply_control_def owned_def y_def t_def)
  from reachable.step[OF r1 sys_step.service[of "at_work s (W(''d1'' := None)) {''d2'', ''d1''} {}" t]] service_step.control[OF this]
  have r2: "reachable (at_work t (W(''d1'' := None)) {''d2'', ''d1''} {})" by simp
  have nv: "\<forall>p \<in> set (om_vals (demands t)). d_victims p = []"
    by (simp add: t_def release_def s_def sample_running_def brought_up_def sample_pair_def upd_demand_def om_upd_def om_vals_def
        claim_all_def begin_release_victims sample_idle_def cooling_def sample_demand_def Let_def)
  have "needs_transition 100 t z" using zi nv by (auto simp: needs_transition_def)
  then have "z \<in> set (transition_candidates 100 t)"
    using in_om_valsI[of "demands t" "''d1''" z] z by (simp add: transition_candidates_def)
  note r3 = run_on[OF r2 select[OF this, of "''d1''"]]
  note r4 = run_on[OF _ fetch[OF z]]
  have "advance_procedure 100 z = Retire" using zi by (simp add: advance_procedure_def)
  note r5 = run_on[OF _ retire[OF this]]
  have calls_t: "invocations t = []" by (simp add: t_def release_def s_def calls om_mapv_def Let_def upd_demand_def)
  have "retire_decision 100 z (retire_read t z) = RetireNow"
    using zi by (simp add: retire_decision_def retire_read_def inflight_def calls_t om_vals_def)
  note r6 = run_on[OF _ decide[OF this]]
  have warm_t: "warm_residencies t = []" by (simp add: t_def s_def warm)
  have "cache_after_release sample_env (Inr ()) z t = Inr (True, drop_claims_of ''d1'' (upd_demand ''d1'' (retired_demand sample_env)
      (t\<lparr>warm_residencies := om_put ''d1g'' (warm_record sample_env z sample_container) (warm_residencies t)\<rparr>)))"
    using zi z warm_t
    by (simp add: cache_after_release_def cache_candidate_def cache_commit_def supported_def loaded_profile_def om_vals_def
        warm_record_def sample_container_def)
  from keep_warm[OF this zi(4), of "{}" "''d1''" "{''d2'', ''d1''}"]
  have "worker_step ''d1'' (Some (Deciding z RetireNow)) t {''d2'', ''d1''} {} None (drop_claims_of ''d1'' (upd_demand ''d1'' (retired_demand sample_env)
      (t\<lparr>warm_residencies := om_put ''d1g'' (warm_record sample_env z sample_container) (warm_residencies t)\<rparr>)))
      {''d2''} {warm_record sample_env z sample_container}" by (simp add: insert_Diff_if)
  note r7 = run_on[OF _ this]
  have "warm_record sample_env z sample_container = sample_loaded"
    using zi by (simp add: sample_loaded_def warm_record_def cooling_def sample_demand_def)
  then show ?thesis
    using r7[OF r6[OF r5[OF r4[OF r3]]]] zi by auto
qed


theorem running_backends_exclusive_witness:
  "\<exists>x. reachable x \<and> running x = {Serving ''d2'', Loaded sample_loaded} \<and> wm_resources sample_loaded = [''gpu0''] \<and>
     uses (sys_doc x) (Serving ''d2'') \<inter> uses (sys_doc x) (Loaded sample_loaded) = {}"
proof -
  obtain s W where r: "reachable (at_work s W {''d2''} {sample_loaded})" using sample_cooled by blast
  have "running (at_work s W {''d2''} {sample_loaded}) = {Serving ''d2'', Loaded sample_loaded}" by (auto simp: running_def)
  moreover have "wm_resources sample_loaded = [''gpu0'']"
    by (simp add: sample_loaded_def warm_record_def cooling_def loaded_profile_def sample_demand_def sample_profile_def)
  ultimately show ?thesis using r running_backends_exclusive[OF r] by (intro exI[of _ "at_work s W {''d2''} {sample_loaded}"]) auto
qed

theorem running_backend_keeps_devices_witness:
  "\<exists>x y. sys_step x y \<and> sys_live y = {''d1''} \<and> get_claim (sys_doc x) ''gpu0'' = Some ''d1'' \<and>
     get_claim (sys_doc y) ''gpu0'' = Some ''d1''"
proof -
  obtain W where r: "reachable (at_work sample_running W {''d2'', ''d1''} {})"
    using sample_run by blast
  let ?x = "at_work sample_running W {''d2'', ''d1''} {}"
  let ?y = "?x\<lparr>sys_live := sys_live ?x - {''d2''}\<rparr>"
  have st: "sys_step ?x ?y" by (rule sys_step.backend_ends)
  have c: "get_claim (sys_doc ?x) ''gpu0'' = Some ''d1''"
    by (simp add: sample_running_def brought_up_def sample_pair_def)
  have "get_claim (sys_doc ?y) ''gpu0'' = Some ''d1''"
    using running_backend_keeps_devices[OF r st c] by simp
  then show ?thesis using st c by (intro exI[of _ ?x] exI[of _ ?y]) auto
qed

end
