(* ===== verification/Leases.thy ===== *)
theory Leases
  imports Transition
begin

text \<open>
  \<open>resource_reservations.rs\<close> and \<open>managed_lease.rs\<close>: the older authority over the same devices. A
  lease is one file per device under \<open>leases/\<close>, taken and given back under the lock of the
  authority document. A handle of a managed demand is checked against the document instead.
\<close>

section \<open>Files\<close>

record lease_handle =
  lh_owner :: string
  lh_generation :: string
  lh_paths :: "(string, string) omap"

record reservation_request =
  rq_owner :: string
  rq_resources :: "string list"
  rq_acquired_at :: string
  rq_worker_ids :: "string list"
  rq_model_ids :: "string list"

record reservation_record =
  rv_version :: nat
  rv_owner :: string
  rv_generation :: string
  rv_resource_id :: string
  rv_task_id :: "string option"
  rv_worker_ids :: "string list"
  rv_model_ids :: "string list"
  rv_acquired_at :: "string option"

text \<open>The files as the operations find them: the raw lease by device, the receipt of a release and the request to release a managed demand by generation, and the document (\<open>Inr None\<close> when the file is missing).\<close>

record lease_store =
  lease_files :: "(string, string) omap"
  release_receipts :: "(string, string) omap"
  release_requests :: "(string, string) omap"
  managed :: "document option res"

text \<open>The answers of the operating system and the codecs of \<open>serde_json\<close>.\<close>

record lease_io =
  lock_authority :: "unit res"
  stat_lease :: "string \<Rightarrow> unit res"
  write_lease :: "string \<Rightarrow> write_fault"
  remove_lease :: "string \<Rightarrow> unit res"
  sync_leases :: "unit res"
  read_receipt :: "unit res"
  write_receipt :: write_fault
  lease_path :: "string \<Rightarrow> string"
  enc_record :: "reservation_record \<Rightarrow> string res"
  dec_record :: "string \<Rightarrow> reservation_record res"
  enc_handle :: "lease_handle \<Rightarrow> string res"

definition record_codec_ok :: "lease_io \<Rightarrow> bool" where
  "record_codec_ok io \<longleftrightarrow> (\<forall>r raw. enc_record io r = Inr raw \<longrightarrow> dec_record io raw = Inr r)"

definition valid_resource :: "string \<Rightarrow> bool" where
  "valid_resource k \<longleftrightarrow> k \<noteq> [] \<and> length k \<le> 128 \<and>
     (\<forall>c \<in> set k. ascii_alphanumeric c \<or> c = CHR ''-'' \<or> c = CHR ''_'')"

definition resource_path :: "lease_io \<Rightarrow> string \<Rightarrow> string res" where
  "resource_path io k =
     (if \<not> valid_resource k then Inl ''invalid resource identity'' else Inr (lease_path io k))"

text \<open>\<open>symlink_metadata\<close>: whether anything is at the path.\<close>

definition lease_exists :: "lease_io \<Rightarrow> string \<Rightarrow> lease_store \<Rightarrow> bool res" where
  "lease_exists io k st =
     res_bind (stat_lease io k) (\<lambda>_. Inr (map_of (lease_files st) k \<noteq> None))"

fun legacy_blocked :: "lease_io \<Rightarrow> lease_store \<Rightarrow> string list \<Rightarrow> string list res" where
  "legacy_blocked io st [] = Inr []"
| "legacy_blocked io st (k # ks) =
     res_bind (resource_path io k) (\<lambda>_.
     res_bind (lease_exists io k st) (\<lambda>present.
     res_bind (legacy_blocked io st ks) (\<lambda>rest.
       Inr (if present then k # rest else rest))))"

definition read_claims :: "lease_store \<Rightarrow> (string, string) omap res" where
  "read_claims st =
     res_bind (managed st) (\<lambda>doc. Inr (case doc of None \<Rightarrow> [] | Some s \<Rightarrow> claims s))"

definition blocked :: "lease_io \<Rightarrow> lease_store \<Rightarrow> string list \<Rightarrow> string list res" where
  "blocked io st ks =
     res_bind (read_claims st) (\<lambda>cs.
     res_bind (legacy_blocked io st ks) (\<lambda>legacy.
       Inr (sort (remdups (legacy @ filter (\<lambda>k. map_of cs k \<noteq> None) ks)))))"

section \<open>Handles of managed demands\<close>

definition delegated_cleanup :: "document \<Rightarrow> bool \<Rightarrow> demand \<Rightarrow> string \<Rightarrow> string \<Rightarrow> bool" where
  "delegated_cleanup s dispatch d owner claimant \<longleftrightarrow>
     \<not> dispatch \<and> d_state d = Preempting \<and>
     is_some_and (get_demand s claimant) (\<lambda>x. owner \<in> set (d_victims x))"

definition claim_valid :: "document \<Rightarrow> bool \<Rightarrow> demand \<Rightarrow> string \<Rightarrow> string \<Rightarrow> unit res" where
  "claim_valid s dispatch d owner r =
     res_bind (ok_or (get_claim s r) ''managed resource no longer owned'') (\<lambda>claimant.
       ensure (claimant = owner \<or> delegated_cleanup s dispatch d owner claimant)
         ''managed ownership changed'')"

definition managed_verify :: "nat \<Rightarrow> lease_handle \<Rightarrow> bool \<Rightarrow> lease_store \<Rightarrow> bool res" where
  "managed_verify t h dispatch st =
     res_bind (managed st) (\<lambda>doc.
     case doc of
       None \<Rightarrow> Inr False
     | Some s \<Rightarrow>
         (case get_demand s (lh_owner h) of
            None \<Rightarrow> Inr False
          | Some d \<Rightarrow>
              if d_generation d \<noteq> lh_generation h \<or>
                 length (lh_paths h) \<noteq> length (p_resources (d_profile d)) \<or>
                 (\<exists>r \<in> set (p_resources (d_profile d)). map_of (lh_paths h) r = None)
              then Inl ''managed reservation generation/resource mismatch''
              else
                res_bind (map_res (claim_valid s dispatch d (lh_owner h)) (p_resources (d_profile d))) (\<lambda>_.
                if dispatch \<and> (d_state d \<noteq> Ready \<or> d_released d \<or> d_deadline d \<le> t)
                then Inl ''managed admission closed'' else Inr True)))"

definition authorize :: "nat \<Rightarrow> lease_handle \<Rightarrow> string \<Rightarrow> priority \<Rightarrow> lease_store \<Rightarrow> unit res" where
  "authorize t h caller p st =
     res_bind (managed_verify t h True st) (\<lambda>ok.
     if \<not> ok then Inl ''managed reservation required''
     else
       res_bind (managed st) (\<lambda>doc.
       res_bind (ok_or doc ''No such file or directory'') (\<lambda>s.
       res_bind (ok_or (get_demand s (lh_owner h)) ''managed reservation missing'') (\<lambda>d.
         ensure (d_owner d = caller \<and> d_priority d = p) ''managed caller or priority mismatch''))))"

section \<open>Verifying and removing leases\<close>

definition record_matches :: "lease_io \<Rightarrow> lease_handle \<Rightarrow> lease_store \<Rightarrow> string \<Rightarrow> unit res" where
  "record_matches io h st k =
     res_bind (resource_path io k) (\<lambda>_.
     res_bind (ok_or (map_of (lease_files st) k) ''No such file or directory'') (\<lambda>raw.
     res_bind (dec_record io raw) (\<lambda>r.
       ensure (rv_version r = 1 \<and> rv_owner r = lh_owner h \<and> rv_generation r = lh_generation h \<and>
               rv_resource_id r = k) ''reservation ownership mismatch'')))"

definition verify_lease :: "lease_io \<Rightarrow> nat \<Rightarrow> lease_handle \<Rightarrow> lease_store \<Rightarrow> unit res" where
  "verify_lease io t h st =
     res_bind (managed_verify t h False st) (\<lambda>m.
     if m then Inr ()
     else res_bind (map_res (record_matches io h st) (map fst (lh_paths h))) (\<lambda>_. Inr ()))"

text \<open>The removal of the files of a handle, in the order of its devices: each is checked again on its own.
  Files removed before an error stay removed.\<close>

fun remove_files :: "lease_io \<Rightarrow> nat \<Rightarrow> lease_handle \<Rightarrow> string list \<Rightarrow> lease_store \<Rightarrow> unit res \<times> lease_store" where
  "remove_files io t h [] st = (Inr (), st)"
| "remove_files io t h (k # ks) st =
     (case res_bind (resource_path io k) (\<lambda>_. lease_exists io k st) of
        Inl e \<Rightarrow> (Inl e, st)
      | Inr False \<Rightarrow> remove_files io t h ks st
      | Inr True \<Rightarrow>
          (case res_bind (verify_lease io t (h\<lparr>lh_paths := [(k, [])]\<rparr>) st) (\<lambda>_. remove_lease io k) of
             Inl e \<Rightarrow> (Inl e, st)
           | Inr _ \<Rightarrow> remove_files io t h ks (st\<lparr>lease_files := om_del k (lease_files st)\<rparr>)))"

definition remove_owned :: "lease_io \<Rightarrow> nat \<Rightarrow> lease_handle \<Rightarrow> lease_store \<Rightarrow> unit res \<times> lease_store" where
  "remove_owned io t h st =
     (case remove_files io t h (map fst (lh_paths h)) st of
        (Inl e, st) \<Rightarrow> (Inl e, st)
      | (Inr _, st) \<Rightarrow> (sync_leases io, st))"

section \<open>Acquiring\<close>

definition new_record :: "reservation_request \<Rightarrow> lease_handle \<Rightarrow> string \<Rightarrow> reservation_record" where
  "new_record r h k = \<lparr>rv_version = 1, rv_owner = lh_owner h, rv_generation = lh_generation h,
     rv_resource_id = k, rv_task_id = Some (rq_owner r), rv_worker_ids = rq_worker_ids r,
     rv_model_ids = rq_model_ids r, rv_acquired_at = Some (rq_acquired_at r)\<rparr>"

text \<open>One write of a lease file: encoding, then \<open>atomic_write\<close>.\<close>

definition put_lease :: "lease_io \<Rightarrow> string \<Rightarrow> reservation_record \<Rightarrow> lease_store \<Rightarrow> unit res \<times> lease_store" where
  "put_lease io k r st =
     (case enc_record io r of
        Inl e \<Rightarrow> (Inl e, st)
      | Inr raw \<Rightarrow>
          (case atomic_write (write_lease io k) raw (map_of (lease_files st) k) of
             (res, None) \<Rightarrow> (res, st)
           | (res, Some raw) \<Rightarrow> (res, st\<lparr>lease_files := om_put k raw (lease_files st)\<rparr>)))"

fun take_leases ::
  "lease_io \<Rightarrow> nat \<Rightarrow> reservation_request \<Rightarrow> lease_handle \<Rightarrow> string list \<Rightarrow> lease_store
     \<Rightarrow> lease_handle res \<times> lease_store" where
  "take_leases io t r h [] st = (Inr h, st)"
| "take_leases io t r h (k # ks) st =
     (case resource_path io k of
        Inl e \<Rightarrow> (Inl e, st)
      | Inr path \<Rightarrow>
          (let record = new_record r h k; h = h\<lparr>lh_paths := om_put k path (lh_paths h)\<rparr> in
           case put_lease io k record st of
             (Inl e, st) \<Rightarrow>
               (case remove_owned io t h st of
                  (Inl cleanup, st) \<Rightarrow> (Inl (e @ ''; cleanup uncertain: '' @ cleanup), st)
                | (Inr _, st) \<Rightarrow> (Inl e, st))
           | (Inr _, st) \<Rightarrow> take_leases io t r h ks st))"

definition acquire_lease ::
  "env \<Rightarrow> lease_io \<Rightarrow> reservation_request \<Rightarrow> lease_store \<Rightarrow> lease_handle res \<times> lease_store" where
  "acquire_lease e io r st =
     (case res_bind (lock_authority io) (\<lambda>_.
           if rq_owner r = [] \<or> \<not> distinct (rq_resources r) then Inl ''invalid reservation request''
           else res_bind (blocked io st (rq_resources r)) (\<lambda>busy.
             case busy of
               k # _ \<Rightarrow> Inl (''resource busy: '' @ k)
             | [] \<Rightarrow> fresh e [''new_identity''])) of
        Inl err \<Rightarrow> (Inl err, st)
      | Inr generation \<Rightarrow>
          take_leases io (now e) r \<lparr>lh_owner = rq_owner r, lh_generation = generation, lh_paths = []\<rparr>
            (rq_resources r) st)"

section \<open>Releasing\<close>

text \<open>A handle of a managed demand leaves a request for the supervisor, unless the demand is being
  preempted anyway. The result says whether the handle was one.\<close>

definition request_release :: "lease_io \<Rightarrow> nat \<Rightarrow> lease_handle \<Rightarrow> lease_store \<Rightarrow> bool res \<times> lease_store" where
  "request_release io t h st =
     (case res_bind (lock_authority io) (\<lambda>_. managed_verify t h False st) of
        Inl e \<Rightarrow> (Inl e, st)
      | Inr False \<Rightarrow> (Inr False, st)
      | Inr True \<Rightarrow>
          if (case managed st of
                Inr (Some s) \<Rightarrow> is_some_and (get_demand s (lh_owner h)) (\<lambda>d. d_state d = Preempting)
              | _ \<Rightarrow> False)
          then (Inr True, st)
          else
            (case enc_handle io h of
               Inl e \<Rightarrow> (Inl e, st)
             | Inr raw \<Rightarrow>
                 (case atomic_write (write_receipt io) raw (map_of (release_requests st) (lh_generation h)) of
                    (res, None) \<Rightarrow> (res_bind res (\<lambda>_. Inr True), st)
                  | (res, Some raw) \<Rightarrow> (res_bind res (\<lambda>_. Inr True),
                      st\<lparr>release_requests := om_put (lh_generation h) raw (release_requests st)\<rparr>))))"

definition hex_digit :: "char \<Rightarrow> bool" where
  "hex_digit c \<longleftrightarrow> (let n = of_char c :: nat in
     (48 \<le> n \<and> n \<le> 57) \<or> (65 \<le> n \<and> n \<le> 70) \<or> (97 \<le> n \<and> n \<le> 102))"

text \<open>The part of a handle whose files are still there.\<close>

definition remaining :: "lease_io \<Rightarrow> lease_handle \<Rightarrow> lease_store \<Rightarrow> lease_handle" where
  "remaining io h st = h\<lparr>lh_paths := om_retain (\<lambda>k _.
     is_ok (resource_path io k) \<and> lease_exists io k st = Inr True) (lh_paths h)\<rparr>"

definition release_files :: "lease_io \<Rightarrow> nat \<Rightarrow> lease_handle \<Rightarrow> lease_store \<Rightarrow> unit res \<times> lease_store" where
  "release_files io t h st =
     (case lock_authority io of
        Inl e \<Rightarrow> (Inl e, st)
      | Inr _ \<Rightarrow>
          if lh_paths h = [] then (Inr (), st)
          else if length (lh_generation h) \<noteq> 32 \<or> \<not> (\<forall>c \<in> set (lh_generation h). hex_digit c)
          then (Inl ''invalid generation'', st)
          else
            (case res_bind (enc_handle io h) (\<lambda>encoded. res_bind (read_receipt io) (\<lambda>_. Inr encoded)) of
               Inl e \<Rightarrow> (Inl e, st)
             | Inr encoded \<Rightarrow>
                 (case map_of (release_receipts st) (lh_generation h) of
                    Some saved \<Rightarrow>
                      if saved = encoded
                      then (case verify_lease io t (remaining io h st) st of
                              Inl e \<Rightarrow> (Inl e, st) | Inr _ \<Rightarrow> remove_owned io t h st)
                      else (Inl ''release receipt ownership mismatch'', st)
                  | None \<Rightarrow>
                      (case verify_lease io t h st of
                         Inl e \<Rightarrow> (Inl e, st)
                       | Inr _ \<Rightarrow>
                           (case atomic_write (write_receipt io) encoded None of
                              (Inl e, None) \<Rightarrow> (Inl e, st)
                            | (Inl e, Some raw) \<Rightarrow>
                                (Inl e, st\<lparr>release_receipts := om_put (lh_generation h) raw (release_receipts st)\<rparr>)
                            | (Inr _, raw) \<Rightarrow> remove_owned io t h
                                (st\<lparr>release_receipts := om_put (lh_generation h) encoded (release_receipts st)\<rparr>))))))"

text \<open>\<open>ResourceReservations::release\<close>.\<close>

definition release_lease :: "lease_io \<Rightarrow> nat \<Rightarrow> lease_handle \<Rightarrow> lease_store \<Rightarrow> unit res \<times> lease_store" where
  "release_lease io t h st =
     (case request_release io t h st of
        (Inl e, st) \<Rightarrow> (Inl e, st)
      | (Inr True, st) \<Rightarrow> (Inr (), st)
      | (Inr False, st) \<Rightarrow> release_files io t h st)"

section \<open>Lemmas\<close>

text \<open>No demand of the document has the name of the lease's owner.\<close>

definition unmanaged :: "lease_store \<Rightarrow> string \<Rightarrow> bool" where
  "unmanaged st owner \<longleftrightarrow>
     (\<exists>doc. managed st = Inr doc \<and> (\<forall>s. doc = Some s \<longrightarrow> get_demand s owner = None))"

lemma managed_verify_unmanaged: "unmanaged st (lh_owner h) \<Longrightarrow> managed_verify t h dispatch st = Inr False"
  by (auto simp: unmanaged_def managed_verify_def split: option.splits)

lemma managed_verify_False:
  assumes "managed_verify t h dispatch st = Inr False"
  shows "unmanaged st (lh_owner h)"
proof (cases "managed st")
  case (Inl e)
  then show ?thesis using assms by (simp add: managed_verify_def)
next
  case (Inr doc)
  show ?thesis
  proof (cases doc)
    case None
    then show ?thesis using Inr by (simp add: unmanaged_def)
  next
    case (Some s)
    show ?thesis
    proof (cases "get_demand s (lh_owner h)")
      case None
      then show ?thesis using Inr Some by (simp add: unmanaged_def)
    next
      case d: (Some d)
      have "managed_verify t h dispatch st \<noteq> Inr False"
        using Inr Some d by (simp add: managed_verify_def res_bind_def split: sum.splits)
      then show ?thesis using assms by simp
    qed
  qed
qed

definition lease_of :: "lease_io \<Rightarrow> string \<Rightarrow> string \<Rightarrow> string \<Rightarrow> string \<Rightarrow> bool" where
  "lease_of io owner generation k raw \<longleftrightarrow> (\<exists>r. dec_record io raw = Inr r \<and> rv_version r = 1 \<and>
     rv_owner r = owner \<and> rv_generation r = generation \<and> rv_resource_id r = k)"

lemma record_matches_ok:
  "record_matches io h st k = Inr u \<longleftrightarrow> valid_resource k \<and>
     (\<exists>raw. map_of (lease_files st) k = Some raw \<and> lease_of io (lh_owner h) (lh_generation h) k raw)"
  by (auto simp: record_matches_def resource_path_def lease_of_def res_simps)

lemma verify_lease_one:
  assumes "unmanaged st (lh_owner h)"
  shows "verify_lease io t (h\<lparr>lh_paths := [(k, p)]\<rparr>) st = Inr u \<longleftrightarrow> valid_resource k \<and>
     (\<exists>raw. map_of (lease_files st) k = Some raw \<and> lease_of io (lh_owner h) (lh_generation h) k raw)"
proof -
  define g where "g = h\<lparr>lh_paths := [(k, p)]\<rparr>"
  have g: "lh_owner g = lh_owner h" "lh_generation g = lh_generation h" "lh_paths g = [(k, p)]"
    by (simp_all add: g_def)
  have "managed_verify t g False st = Inr False"
    using assms g by (simp add: managed_verify_unmanaged)
  then have "verify_lease io t g st = Inr u \<longleftrightarrow> record_matches io g st k = Inr ()"
    using g by (cases "record_matches io g st k") (simp_all add: verify_lease_def)
  then show ?thesis
    unfolding record_matches_ok g g_def[symmetric] .
qed

text \<open>What a removal leaves: it only takes files of its own lease, and touches nothing else.\<close>

definition only_removes :: "lease_io \<Rightarrow> lease_handle \<Rightarrow> lease_store \<Rightarrow> lease_store \<Rightarrow> bool" where
  "only_removes io h st st' \<longleftrightarrow> managed st' = managed st \<and>
     (\<forall>k. map_of (lease_files st') k = map_of (lease_files st) k \<or>
          map_of (lease_files st') k = None \<and>
          (\<exists>raw. map_of (lease_files st) k = Some raw \<and> lease_of io (lh_owner h) (lh_generation h) k raw))"

lemma only_removes_refl [simp]: "only_removes io h st st"
  by (simp add: only_removes_def)

lemma only_removes_trans:
  assumes "only_removes io h a b" and "only_removes io h b c"
  shows "only_removes io h a c"
  unfolding only_removes_def
proof (intro conjI allI)
  fix k
  show "map_of (lease_files c) k = map_of (lease_files a) k \<or> map_of (lease_files c) k = None \<and>
      (\<exists>raw. map_of (lease_files a) k = Some raw \<and> lease_of io (lh_owner h) (lh_generation h) k raw)"
    using assms unfolding only_removes_def by (metis option.distinct(1))
qed (use assms in \<open>simp add: only_removes_def\<close>)

lemma remove_files_only:
  assumes "remove_files io t h ks st = (res, st')" and "unmanaged st (lh_owner h)"
  shows "only_removes io h st st'"
  using assms
proof (induction ks arbitrary: st)
  case Nil
  then show ?case by simp
next
  case (Cons k ks)
  let ?st = "st\<lparr>lease_files := om_del k (lease_files st)\<rparr>"
  consider "st' = st" | "remove_files io t h ks st = (res, st')"
    | "verify_lease io t (h\<lparr>lh_paths := [(k, [])]\<rparr>) st = Inr ()" "remove_files io t h ks ?st = (res, st')"
    using Cons.prems(1) by (auto simp: res_bind_def split: sum.splits bool.splits)
  then show ?case
  proof cases
    case 3
    have "only_removes io h st ?st"
      using 3(1) Cons.prems(2) by (auto simp: only_removes_def verify_lease_one)
    moreover have "only_removes io h ?st st'"
      by (rule Cons.IH[OF 3(2)]) (use Cons.prems(2) in \<open>simp add: unmanaged_def\<close>)
    ultimately show ?thesis by (rule only_removes_trans)
  qed (use Cons in auto)
qed

lemma remove_owned_only:
  "remove_owned io t h st = (res, st') \<Longrightarrow> unmanaged st (lh_owner h) \<Longrightarrow> only_removes io h st st'"
  by (auto simp: remove_owned_def split: prod.splits sum.splits dest: remove_files_only)

text \<open>Where the removal itself works, it clears every file of the handle.\<close>

definition removals_work :: "lease_io \<Rightarrow> bool" where
  "removals_work io \<longleftrightarrow> sync_leases io = Inr () \<and>
     (\<forall>k. stat_lease io k = Inr () \<and> remove_lease io k = Inr ())"

definition cleared :: "string set \<Rightarrow> lease_store \<Rightarrow> lease_store \<Rightarrow> bool" where
  "cleared K st st' \<longleftrightarrow> managed st' = managed st \<and>
     map_of (lease_files st') = (\<lambda>k. if k \<in> K then None else map_of (lease_files st) k)"

lemma remove_files_clears:
  assumes "removals_work io" and "unmanaged st (lh_owner h)"
    and "\<forall>k \<in> set ks. valid_resource k \<and>
      (\<forall>raw. map_of (lease_files st) k = Some raw \<longrightarrow> lease_of io (lh_owner h) (lh_generation h) k raw)"
  shows "\<exists>st'. remove_files io t h ks st = (Inr (), st') \<and> cleared (set ks) st st'"
  using assms(2,3)
proof (induction ks arbitrary: st)
  case Nil
  then show ?case by (simp add: cleared_def)
next
  case (Cons k ks)
  have io: "stat_lease io k = Inr ()" "remove_lease io k = Inr ()"
    using assms(1) by (simp_all add: removals_work_def)
  have v: "valid_resource k" using Cons.prems(2) by simp
  show ?case
  proof (cases "map_of (lease_files st) k")
    case None
    obtain st' where "remove_files io t h ks st = (Inr (), st')" "cleared (set ks) st st'"
      using Cons.IH[of st] Cons.prems by auto
    then show ?thesis
      using None v io by (auto simp: resource_path_def lease_exists_def cleared_def fun_eq_iff)
  next
    case (Some raw)
    define st2 where "st2 = st\<lparr>lease_files := om_del k (lease_files st)\<rparr>"
    have st2: "managed st2 = managed st" "map_of (lease_files st2) = (map_of (lease_files st))(k := None)"
      by (simp_all add: st2_def)
    have "verify_lease io t (h\<lparr>lh_paths := [(k, [])]\<rparr>) st = Inr ()"
      using Some Cons.prems by (simp add: verify_lease_one)
    then have step: "remove_files io t h (k # ks) st = remove_files io t h ks st2"
      using Some v io by (simp add: resource_path_def lease_exists_def st2_def)
    have "unmanaged st2 (lh_owner h)" using Cons.prems(1) st2(1) by (simp add: unmanaged_def)
    moreover have "\<forall>j \<in> set ks. valid_resource j \<and>
        (\<forall>raw. map_of (lease_files st2) j = Some raw \<longrightarrow> lease_of io (lh_owner h) (lh_generation h) j raw)"
      using Cons.prems(2) st2(2) by simp
    ultimately obtain st' where "remove_files io t h ks st2 = (Inr (), st')" "cleared (set ks) st2 st'"
      using Cons.IH[of st2] by blast
    moreover have "cleared (set (k # ks)) st st'"
      using calculation(2) st2 unfolding cleared_def by (simp add: fun_eq_iff)
    ultimately show ?thesis
      using step by metis
  qed
qed

lemma remove_owned_clears:
  assumes "removals_work io" and "unmanaged st (lh_owner h)"
    and "\<forall>k \<in> set (map fst (lh_paths h)). valid_resource k \<and>
      (\<forall>raw. map_of (lease_files st) k = Some raw \<longrightarrow> lease_of io (lh_owner h) (lh_generation h) k raw)"
  shows "\<exists>st'. remove_owned io t h st = (Inr (), st') \<and> cleared (set (map fst (lh_paths h))) st st'"
proof -
  obtain st' where "remove_files io t h (map fst (lh_paths h)) st = (Inr (), st')"
    "cleared (set (map fst (lh_paths h))) st st'"
    using remove_files_clears[OF assms] by blast
  moreover have "sync_leases io = Inr ()" using assms(1) by (simp add: removals_work_def)
  ultimately show ?thesis by (simp add: remove_owned_def)
qed

subsection \<open>The loop that takes the leases\<close>

text \<open>The store \<open>st\<close> is \<open>base\<close> with one file of this lease for each device of the handle.\<close>

definition taken :: "lease_io \<Rightarrow> lease_handle \<Rightarrow> lease_store \<Rightarrow> lease_store \<Rightarrow> bool" where
  "taken io h base st \<longleftrightarrow> managed st = managed base \<and>
     (\<forall>k. if k \<in> fst ` set (lh_paths h)
          then valid_resource k \<and> map_of (lease_files base) k = None \<and>
            (\<exists>raw. map_of (lease_files st) k = Some raw \<and> lease_of io (lh_owner h) (lh_generation h) k raw)
          else map_of (lease_files st) k = map_of (lease_files base) k)"

lemma new_record_lease_of:
  assumes "record_codec_ok io" and "enc_record io (new_record r h k) = Inr raw"
  shows "lease_of io (lh_owner h) (lh_generation h) k raw"
proof -
  have "dec_record io raw = Inr (new_record r h k)"
    using assms by (simp add: record_codec_ok_def)
  then show ?thesis by (simp add: lease_of_def new_record_def)
qed

lemma put_lease_cases:
  assumes "put_lease io k rec st = (res, st')" and "map_of (lease_files st) k = None"
  obtains e where "res = Inl e" "st' = st"
    | raw where "enc_record io rec = Inr raw" "st' = st\<lparr>lease_files := om_put k raw (lease_files st)\<rparr>"
  using assms
  by (cases "enc_record io rec"; cases "write_lease io k") (auto simp: put_lease_def atomic_write_def)

lemma taken_step:
  assumes "taken io h base st" and "put_lease io k (new_record r h k) st = (res, st')"
    and "record_codec_ok io" and "valid_resource k" and "map_of (lease_files base) k = None"
    and "k \<notin> fst ` set (lh_paths h)"
    and g_def: "g = h\<lparr>lh_paths := om_put k (lease_path io k) (lh_paths h)\<rparr>"
  shows "res = Inr u \<Longrightarrow> taken io g base st'"
    and "managed st' = managed base"
    and "\<forall>j \<in> set (map fst (lh_paths g)). valid_resource j \<and>
      (\<forall>raw. map_of (lease_files st') j = Some raw \<longrightarrow> lease_of io (lh_owner g) (lh_generation g) j raw)"
    and "\<forall>j. j \<notin> set (map fst (lh_paths g)) \<longrightarrow> map_of (lease_files st') j = map_of (lease_files base) j"
    and "\<forall>j \<in> set (map fst (lh_paths g)). map_of (lease_files base) j = None"
proof -
  have g: "lh_owner g = lh_owner h" "lh_generation g = lh_generation h"
    "fst ` set (lh_paths g) = insert k (fst ` set (lh_paths h))"
    by (simp_all add: g_def)
  have free: "map_of (lease_files st) k = None"
    using assms(1,5,6) by (simp add: taken_def)
  have inside: "valid_resource j \<and> map_of (lease_files base) j = None \<and>
      (\<exists>raw. map_of (lease_files st) j = Some raw \<and> lease_of io (lh_owner h) (lh_generation h) j raw)"
    if "j \<in> fst ` set (lh_paths h)" for j
    using assms(1) that by (auto simp: taken_def)
  have outside: "map_of (lease_files st) j = map_of (lease_files base) j"
    if "j \<notin> fst ` set (lh_paths h)" for j
    using assms(1) that by (auto simp: taken_def)
  have m: "managed st = managed base" using assms(1) by (simp add: taken_def)
  have st': "res \<noteq> Inr u \<and> st' = st \<or> (\<exists>raw. lease_of io (lh_owner h) (lh_generation h) k raw \<and>
      st' = st\<lparr>lease_files := om_put k raw (lease_files st)\<rparr>)"
    by (rule put_lease_cases[OF assms(2) free]) (use new_record_lease_of[OF assms(3), of r h k] in auto)
  show "managed st' = managed base" using st' m by auto
  show "\<forall>j \<in> set (map fst (lh_paths g)). map_of (lease_files base) j = None"
    using g inside assms(5) by auto
  show "\<forall>j. j \<notin> set (map fst (lh_paths g)) \<longrightarrow> map_of (lease_files st') j = map_of (lease_files base) j"
    using st' g outside by auto
  show "\<forall>j \<in> set (map fst (lh_paths g)). valid_resource j \<and>
      (\<forall>raw. map_of (lease_files st') j = Some raw \<longrightarrow> lease_of io (lh_owner g) (lh_generation g) j raw)"
  proof (intro ballI)
    fix j assume "j \<in> set (map fst (lh_paths g))"
    then have "j = k \<or> j \<in> fst ` set (lh_paths h)" using g by auto
    then show "valid_resource j \<and>
      (\<forall>raw. map_of (lease_files st') j = Some raw \<longrightarrow> lease_of io (lh_owner g) (lh_generation g) j raw)"
      using st' g free inside[of j] assms(4) assms(6) by (cases "j = k") auto
  qed
  assume "res = Inr u"
  then obtain raw where raw: "lease_of io (lh_owner h) (lh_generation h) k raw"
    "st' = st\<lparr>lease_files := om_put k raw (lease_files st)\<rparr>" using st' by blast
  show "taken io g base st'"
    unfolding taken_def
  proof (intro conjI allI)
    fix j
    show "if j \<in> fst ` set (lh_paths g)
      then valid_resource j \<and> map_of (lease_files base) j = None \<and>
        (\<exists>raw. map_of (lease_files st') j = Some raw \<and> lease_of io (lh_owner g) (lh_generation g) j raw)
      else map_of (lease_files st') j = map_of (lease_files base) j"
      using g raw inside[of j] outside[of j] assms(4,5) by (cases "j = k") auto
  qed (use raw m in simp)
qed

lemma take_leases_result:
  assumes "take_leases io t r h ks st = (res, st')" and "taken io h base st"
    and "record_codec_ok io" and "distinct ks"
    and "\<forall>k \<in> set ks. valid_resource k \<and> map_of (lease_files base) k = None \<and> k \<notin> fst ` set (lh_paths h)"
  shows "(res = Inr g \<longrightarrow> lh_owner g = lh_owner h \<and> lh_generation g = lh_generation h \<and>
        fst ` set (lh_paths g) = fst ` set (lh_paths h) \<union> set ks \<and> taken io g base st') \<and>
      (res = Inl err \<longrightarrow> removals_work io \<longrightarrow> unmanaged base (lh_owner h) \<longrightarrow>
        map_of (lease_files st') = map_of (lease_files base) \<and> managed st' = managed base)"
  using assms
proof (induction ks arbitrary: h st)
  case Nil
  then show ?case by auto
next
  case (Cons k ks)
  note run = Cons.prems(1) and tk = Cons.prems(2) and ks = Cons.prems(4,5)
  show ?case
  proof -
    define f where "f = h\<lparr>lh_paths := om_put k (lease_path io k) (lh_paths h)\<rparr>"
    have f: "lh_owner f = lh_owner h" "lh_generation f = lh_generation h"
      "fst ` set (lh_paths f) = insert k (fst ` set (lh_paths h))"
      by (simp_all add: f_def)
    obtain w st2 where w: "put_lease io k (new_record r h k) st = (w, st2)" by fastforce
    have k: "valid_resource k" "map_of (lease_files base) k = None" "k \<notin> fst ` set (lh_paths h)"
      using ks(2) by simp_all
    note step = taken_step[OF tk w assms(3) k f_def]
    have run': "(case (w, st2) of
             (Inl e, st) \<Rightarrow>
               (case remove_owned io t f st of
                  (Inl cleanup, st) \<Rightarrow> (Inl (e @ ''; cleanup uncertain: '' @ cleanup), st)
                | (Inr _, st) \<Rightarrow> (Inl e, st))
           | (Inr _, st) \<Rightarrow> take_leases io t r f ks st) = (res, st')"
      using run k(1) w by (simp add: resource_path_def f_def[symmetric] Let_def)
    show ?thesis
    proof (cases w)
      case (Inr u)
      have tk2: "taken io f base st2" by (rule step(1)[OF Inr])
      have go: "take_leases io t r f ks st2 = (res, st')" using run' Inr by simp
      have rest: "distinct ks" "\<forall>j \<in> set ks. valid_resource j \<and> map_of (lease_files base) j = None \<and>
          j \<notin> fst ` set (lh_paths f)"
        using ks f(3) by auto
      show ?thesis using Cons.IH[OF go tk2 assms(3) rest] f by auto
    next
      case (Inl e)
      have "map_of (lease_files st') = map_of (lease_files base) \<and> managed st' = managed base"
        if work: "removals_work io" and own: "unmanaged base (lh_owner h)"
      proof -
        have "unmanaged st2 (lh_owner f)" using own step(2) f by (simp add: unmanaged_def)
        then obtain st3 where st3: "remove_owned io t f st2 = (Inr (), st3)"
          "cleared (set (map fst (lh_paths f))) st2 st3"
          using remove_owned_clears[OF work _ step(3)] by blast
        have eq: "st' = st3" using run' Inl st3(1) by simp
        show ?thesis
          unfolding eq
        proof (rule conjI)
          show "managed st3 = managed base" using st3(2) step(2) by (simp add: cleared_def)
          show "map_of (lease_files st3) = map_of (lease_files base)"
          proof
            fix j
            have "map_of (lease_files st3) j =
                (if j \<in> set (map fst (lh_paths f)) then None else map_of (lease_files st2) j)"
              using st3(2) by (simp add: cleared_def)
            then show "map_of (lease_files st3) j = map_of (lease_files base) j"
              using spec[OF step(4), of j] step(5) by auto
          qed
        qed
      qed
      moreover have "res \<noteq> Inr g"
        using run' Inl by (auto split: prod.splits sum.splits)
      ultimately show ?thesis by simp
    qed
  qed
qed

lemma legacy_blocked_ok:
  "legacy_blocked io st ks = Inr xs \<Longrightarrow>
     xs = filter (\<lambda>k. map_of (lease_files st) k \<noteq> None) ks \<and> (\<forall>k \<in> set ks. valid_resource k)"
proof (induction ks arbitrary: xs)
  case (Cons k ks)
  then show ?case
    by (auto simp: res_simps resource_path_def lease_exists_def split: if_splits)
qed simp

lemma blocked_ok:
  assumes "blocked io st ks = Inr []"
  obtains cs where "read_claims st = Inr cs"
    and "\<forall>k \<in> set ks. valid_resource k \<and> map_of (lease_files st) k = None \<and> map_of cs k = None"
proof -
  obtain cs legacy where cs: "read_claims st = Inr cs" "legacy_blocked io st ks = Inr legacy"
    "sort (remdups (legacy @ filter (\<lambda>k. map_of cs k \<noteq> None) ks)) = []"
    using assms by (auto simp: blocked_def res_simps)
  then have "set (legacy @ filter (\<lambda>k. map_of cs k \<noteq> None) ks) = {}"
    by (metis set_empty set_remdups set_sort)
  then have "\<forall>k \<in> set ks. valid_resource k \<and> map_of (lease_files st) k = None \<and> map_of cs k = None"
    using legacy_blocked_ok[OF cs(2)] by (auto simp: filter_empty_conv)
  then show thesis by (rule that[OF cs(1)])
qed

text \<open>\<open>acquire\<close> reaches the loop only over free devices.\<close>

lemma acquire_lease_cases:
  assumes "acquire_lease e io r st = (res, st')"
  obtains err where "res = Inl err" "st' = st"
    | cs g where "rq_owner r \<noteq> []" "distinct (rq_resources r)" "read_claims st = Inr cs"
        "\<forall>k \<in> set (rq_resources r). valid_resource k \<and> map_of (lease_files st) k = None \<and> map_of cs k = None"
        "take_leases io (now e) r \<lparr>lh_owner = rq_owner r, lh_generation = g, lh_paths = []\<rparr>
          (rq_resources r) st = (res, st')"
proof -
  define front where "front = res_bind (lock_authority io) (\<lambda>_.
           if rq_owner r = [] \<or> \<not> distinct (rq_resources r) then Inl ''invalid reservation request''
           else res_bind (blocked io st (rq_resources r)) (\<lambda>busy.
             case busy of
               k # _ \<Rightarrow> Inl (''resource busy: '' @ k)
             | [] \<Rightarrow> fresh e [''new_identity'']))"
  show thesis
  proof (cases front)
    case (Inl err)
    then show thesis using assms that(1) by (auto simp: acquire_lease_def front_def[symmetric])
  next
    case (Inr g)
    have b: "rq_owner r \<noteq> []" "distinct (rq_resources r)"
      using Inr by (auto simp: front_def res_bind_eq_Inr split: if_splits)
    have b3: "blocked io st (rq_resources r) = Inr []"
    proof (cases "blocked io st (rq_resources r)")
      case (Inl err)
      then show ?thesis using Inr b by (simp add: front_def res_bind_eq_Inr)
    next
      case busy: (Inr busy)
      then show ?thesis using Inr b by (cases busy) (simp_all add: front_def res_bind_eq_Inr)
    qed
    have run: "take_leases io (now e) r \<lparr>lh_owner = rq_owner r, lh_generation = g, lh_paths = []\<rparr>
        (rq_resources r) st = (res, st')"
      using assms Inr by (simp add: acquire_lease_def front_def[symmetric])
    obtain cs where "read_claims st = Inr cs"
      "\<forall>k \<in> set (rq_resources r). valid_resource k \<and> map_of (lease_files st) k = None \<and> map_of cs k = None"
      using blocked_ok[OF b3] .
    from that(2)[OF b(1,2) this run] show thesis .
  qed
qed

lemma taken_refl: "lh_paths h = [] \<Longrightarrow> taken io h st st"
  by (simp add: taken_def)

subsection \<open>Releasing\<close>

lemma only_removes_files:
  assumes "lease_files a = lease_files st" and "managed a = managed st" and "only_removes io h a b"
  shows "only_removes io h st b"
  using assms by (simp add: only_removes_def)

lemma verify_lease_files:
  assumes "verify_lease io t h st = Inr u" and "unmanaged st (lh_owner h)" and "k \<in> fst ` set (lh_paths h)"
  shows "valid_resource k \<and> (\<exists>raw. map_of (lease_files st) k = Some raw \<and>
    lease_of io (lh_owner h) (lh_generation h) k raw)"
proof -
  have "\<exists>us. map_res (record_matches io h st) (map fst (lh_paths h)) = Inr us"
    using assms(1) managed_verify_unmanaged[OF assms(2)] by (auto simp: verify_lease_def res_bind_eq_Inr)
  then obtain u where "record_matches io h st k = Inr u"
    using assms(3) map_res_image by fastforce
  then show ?thesis by (simp add: record_matches_ok)
qed

text \<open>The request of a managed handle leaves every lease file alone.\<close>

lemma request_release_frame:
  "request_release io t h st = (res, st') \<Longrightarrow> lease_files st' = lease_files st \<and> managed st' = managed st \<and>
     release_receipts st' = release_receipts st \<and>
     (res = Inr False \<longrightarrow> st' = st \<and> unmanaged st (lh_owner h))"
  by (auto simp: request_release_def res_simps atomic_write_def managed_verify_False
      split: sum.splits bool.splits if_splits write_fault.splits option.splits)

text \<open>A release of files: where it removes anything, it is \<open>remove_owned\<close> after the check of the handle.\<close>

lemma release_files_cases:
  assumes "release_files io t h st = (res, st')"
  obtains "lease_files st' = lease_files st" "managed st' = managed st" "is_ok res \<Longrightarrow> lh_paths h = []"
    | mid where "lease_files mid = lease_files st" "managed mid = managed st"
        "remove_owned io t h mid = (res, st')"
proof -
  have "(lease_files st' = lease_files st \<and> managed st' = managed st \<and> (is_ok res \<longrightarrow> lh_paths h = [])) \<or>
    (\<exists>mid. lease_files mid = lease_files st \<and> managed mid = managed st \<and> remove_owned io t h mid = (res, st'))"
  proof (cases "lock_authority io")
    case (Inr u)
    show ?thesis
    proof (cases "res_bind (enc_handle io h) (\<lambda>encoded. res_bind (read_receipt io) (\<lambda>_. Inr encoded))")
      case (Inl err)
      then show ?thesis using assms \<open>lock_authority io = Inr u\<close>
        by (auto simp: release_files_def split: if_splits)
    next
      case enc: (Inr encoded)
      show ?thesis
      proof (cases "map_of (release_receipts st) (lh_generation h)")
        case None
        then show ?thesis using assms Inr enc
          by (cases "verify_lease io t h st")
            (auto simp: release_files_def atomic_write_def split: if_splits write_fault.splits
              dest!: sym[of "Inl _"])
      next
        case (Some saved)
        then show ?thesis using assms Inr enc
          by (cases "verify_lease io t (remaining io h st) st") (auto simp: release_files_def split: if_splits dest!: sym[of "Inl _"])
      qed
    qed
  qed (use assms in \<open>auto simp: release_files_def dest!: sym[of "Inl _"]\<close>)
  then show thesis using that by blast
qed

lemma remove_files_gone:
  assumes "remove_files io t h ks st = (Inr u, st')"
  shows "\<forall>k. (k \<in> set ks \<longrightarrow> map_of (lease_files st') k = None) \<and>
    (map_of (lease_files st) k = None \<longrightarrow> map_of (lease_files st') k = None)"
  using assms
proof (induction ks arbitrary: st)
  case Nil
  then show ?case by simp
next
  case (Cons k ks)
  consider "map_of (lease_files st) k = None" "remove_files io t h ks st = (Inr u, st')"
    | "remove_files io t h ks (st\<lparr>lease_files := om_del k (lease_files st)\<rparr>) = (Inr u, st')"
    using Cons.prems by (auto simp: lease_exists_def res_bind_def split: sum.splits bool.splits if_splits)
  then show ?case
  proof cases
    case 1
    then show ?thesis using Cons.IH[OF 1(2)] by auto
  next
    case 2
    show ?thesis using Cons.IH[OF 2] by auto
  qed
qed

lemma remove_owned_gone:
  assumes "remove_owned io t h st = (Inr u, st')" and "k \<in> fst ` set (lh_paths h)"
  shows "map_of (lease_files st') k = None"
proof -
  obtain v st2 where "remove_files io t h (map fst (lh_paths h)) st = (Inr v, st2)" "st' = st2"
    using assms(1) by (auto simp: remove_owned_def split: prod.splits sum.splits)
  then show ?thesis using spec[OF remove_files_gone, of io t h _ st v st2 k] assms(2) by simp
qed

section \<open>Properties\<close>

text \<open>C13: Taking leases is all or nothing. A lease that is granted was granted on devices that had
  neither a lease file nor a managed claim, and each of them now holds a record of the handle's owner and
  generation; every other file is as before. A request that fails, at whichever write, leaves every
  lease file as it was, provided the files it wrote can be removed again and its owner is not the name of a
  managed demand.\<close>

theorem lease_acquire_atomic:
  assumes "acquire_lease e io r st = (res, st')" and "record_codec_ok io"
  shows "case res of
      Inr h \<Rightarrow> lh_owner h = rq_owner r \<and>
        (\<exists>cs. read_claims st = Inr cs \<and> (\<forall>k.
          if k \<in> set (rq_resources r)
          then map_of (lease_files st) k = None \<and> map_of cs k = None \<and>
            (\<exists>raw. map_of (lease_files st') k = Some raw \<and> lease_of io (lh_owner h) (lh_generation h) k raw)
          else map_of (lease_files st') k = map_of (lease_files st) k))
    | Inl err \<Rightarrow> removals_work io \<and> unmanaged st (rq_owner r) \<longrightarrow>
        map_of (lease_files st') = map_of (lease_files st)"
  using assms(1)
proof (cases rule: acquire_lease_cases)
  case (1 err)
  then show ?thesis by simp
next
  case (2 cs g)
  let ?h = "\<lparr>lh_owner = rq_owner r, lh_generation = g, lh_paths = []\<rparr>"
  have free: "\<forall>k \<in> set (rq_resources r). valid_resource k \<and> map_of (lease_files st) k = None \<and>
      k \<notin> fst ` set (lh_paths ?h)"
    using 2(4) by simp
  have t0: "taken io ?h st st" by (rule taken_refl) simp
  note result = take_leases_result[OF 2(5) t0 assms(2) 2(2) free]
  show ?thesis
  proof (cases res)
    case (Inl err)
    then show ?thesis using result[of undefined err] Inl by simp
  next
    case (Inr h)
    have h: "lh_owner h = rq_owner r" "fst ` set (lh_paths h) = set (rq_resources r)" "taken io h st st'"
      using result[of h undefined] Inr by simp_all
    have each: "if k \<in> set (rq_resources r)
          then map_of (lease_files st) k = None \<and> map_of cs k = None \<and>
            (\<exists>raw. map_of (lease_files st') k = Some raw \<and> lease_of io (lh_owner h) (lh_generation h) k raw)
          else map_of (lease_files st') k = map_of (lease_files st) k" for k
      using h(2,3) 2(4) by (simp add: taken_def split: if_splits)
    show ?thesis
      unfolding Inr sum.case by (intro conjI exI[of _ cs] allI) (rule h(1), rule 2(3), rule each)
  qed
qed

text \<open>C14: Only a lease's own handle gives it back. A release, whether it succeeds or fails part way,
  takes away no file but those whose record names the handle's owner and generation, so a handle of
  an earlier generation takes nothing from the next owner; every other file and the authority document
  stay as they are. When it succeeds for an owner that is no managed demand, every file of the handle is gone.\<close>

theorem release_removes_own:
  assumes "release_lease io t h st = (res, st')"
  shows "managed st' = managed st \<and>
    (\<forall>k. map_of (lease_files st') k = map_of (lease_files st) k \<or>
       map_of (lease_files st') k = None \<and>
       (\<exists>raw. map_of (lease_files st) k = Some raw \<and> lease_of io (lh_owner h) (lh_generation h) k raw)) \<and>
    (res = Inr () \<and> unmanaged st (lh_owner h) \<longrightarrow>
       (\<forall>k \<in> fst ` set (lh_paths h). map_of (lease_files st') k = None))"
proof -
  obtain asked st1 where req: "request_release io t h st = (asked, st1)" by fastforce
  note frame = request_release_frame[OF req]
  show ?thesis
  proof (cases "asked = Inr False")
    case False
    have bad: "res = Inr () \<Longrightarrow> \<not> unmanaged st (lh_owner h)"
    proof
      assume r: "res = Inr ()" and u: "unmanaged st (lh_owner h)"
      then have "managed_verify t h False st = Inr False"
        by (simp add: managed_verify_unmanaged)
      then have "asked = Inr False \<or> (\<exists>err. asked = Inl err)"
        using req by (cases "lock_authority io") (auto simp: request_release_def)
      then obtain err where "asked = Inl err" using False by blast
      then have "res = Inl err" using assms req by (simp add: release_lease_def)
      then show False using r by simp
    qed
    have "st' = st1" using assms req False
      by (auto simp: release_lease_def split: sum.splits bool.splits)
    then have same: "lease_files st' = lease_files st" "managed st' = managed st" using frame by simp_all
    show ?thesis
    proof (intro conjI allI impI)
      show "managed st' = managed st" by (rule same(2))
      show "map_of (lease_files st') k = map_of (lease_files st) k \<or> map_of (lease_files st') k = None \<and>
        (\<exists>raw. map_of (lease_files st) k = Some raw \<and> lease_of io (lh_owner h) (lh_generation h) k raw)" for k
        by (rule disjI1) (simp only: same(1))
      assume "res = Inr () \<and> unmanaged st (lh_owner h)"
      then show "\<forall>k \<in> fst ` set (lh_paths h). map_of (lease_files st') k = None" using bad by blast
    qed
  next
    case True
    then have st: "st1 = st" "unmanaged st (lh_owner h)" using frame by simp_all
    have "release_files io t h st = (res, st')"
      using assms req True st(1) by (simp add: release_lease_def)
    then show ?thesis
    proof (cases rule: release_files_cases)
      case 1
      show ?thesis
      proof (intro conjI allI impI)
        show "managed st' = managed st" by (rule 1(2))
        show "map_of (lease_files st') k = map_of (lease_files st) k \<or> map_of (lease_files st') k = None \<and>
          (\<exists>raw. map_of (lease_files st) k = Some raw \<and> lease_of io (lh_owner h) (lh_generation h) k raw)" for k
          by (rule disjI1) (simp only: 1(1))
        assume "res = Inr () \<and> unmanaged st (lh_owner h)"
        then have "lh_paths h = []" using 1(3) by (simp only: is_ok_simps)
        then show "\<forall>k \<in> fst ` set (lh_paths h). map_of (lease_files st') k = None"
          by (simp only: list.set image_empty ball_empty)
      qed
    next
      case (2 mid)
      have u: "unmanaged mid (lh_owner h)" using st(2) 2(2) by (simp add: unmanaged_def)
      have o: "only_removes io h st st'"
        by (rule only_removes_files[OF 2(1,2) remove_owned_only[OF 2(3) u]])
      have only: "managed st' = managed st" "\<forall>k. map_of (lease_files st') k = map_of (lease_files st) k \<or>
          map_of (lease_files st') k = None \<and>
          (\<exists>raw. map_of (lease_files st) k = Some raw \<and> lease_of io (lh_owner h) (lh_generation h) k raw)"
        using o unfolding only_removes_def by (rule conjunct1, rule conjunct2)
      have gone: "map_of (lease_files st') k = None" if "res = Inr ()" and "k \<in> fst ` set (lh_paths h)" for k
        using remove_owned_gone[of io t h mid "()" st' k] 2(3) that by simp
      have all: "res = Inr () \<and> unmanaged st (lh_owner h) \<longrightarrow>
          (\<forall>k \<in> fst ` set (lh_paths h). map_of (lease_files st') k = None)"
        by (intro impI ballI, elim conjE) (rule gone)
      show ?thesis by (rule conjI[OF only(1) conjI[OF only(2) all]])
    qed
  qed
qed

text \<open>A preemption leaves its devices open to the older leases. \<open>victim_commit\<close> drops every claim
  of the displaced owner, the candidate takes its devices only in its next transaction, and between the two
  another process can take a lease on such a device: nothing in \<open>acquire\<close> knows of the candidate.
  The transfer does not look at the leases again, so the device is leased and claimed at once.\<close>

theorem lease_taken_during_preemption:
  assumes "victim_commit v s = Inr ((), s1)" and "get_claim s k = Some (d_id v)" and "om_ok (claims s)"
    and "managed st = Inr (Some s1)" and "map_of (lease_files st) k = None" and "valid_resource k"
    and "lock_authority io = Inr ()" and "stat_lease io k = Inr ()" and "write_lease io k = NoFault"
    and "\<forall>rec. rv_resource_id rec = k \<longrightarrow> is_ok (enc_record io rec)"
    and "fresh e [''new_identity''] = Inr g" and "rq_owner r \<noteq> []" and "rq_resources r = [k]"
    and "transfer_commit d s1 = Inr ((), s2)" and "get_demand s1 (d_id d) = Some c"
    and "k \<in> set (p_resources (d_profile c))" and "d_id c = d_id d"
  shows "\<exists>h st'. acquire_lease e io r st = (Inr h, st') \<and> map_of (lease_files st') k \<noteq> None \<and>
    get_claim s2 k = Some (d_id d)"
proof -
  have "s1 = drop_claims_of (d_id v) (upd_demand (d_id v) displaced s)"
    using assms(1) by (auto simp: victim_commit_def res_simps split: if_splits)
  then have "get_claim s1 k = Some x \<Longrightarrow> False" for x
    using assms(2,3) drop_claims_of_get[of "upd_demand (d_id v) displaced s" "d_id v" k x] by auto
  then have free: "map_of (claims s1) k = None" by (cases "get_claim s1 k") auto
  have b: "blocked io st [k] = Inr []"
    using assms(4-6,8) free
    by (simp add: blocked_def read_claims_def lease_exists_def resource_path_def)
  obtain raw where raw: "enc_record io (new_record r \<lparr>lh_owner = rq_owner r, lh_generation = g, lh_paths = []\<rparr> k) = Inr raw"
    using assms(10)[rule_format, of "new_record r \<lparr>lh_owner = rq_owner r, lh_generation = g, lh_paths = []\<rparr> k"]
    by (cases "enc_record io (new_record r \<lparr>lh_owner = rq_owner r, lh_generation = g, lh_paths = []\<rparr> k)")
      (simp_all add: new_record_def)
  have "\<exists>h st'. acquire_lease e io r st = (Inr h, st') \<and> map_of (lease_files st') k \<noteq> None"
    using assms(6,7,9,11-13) b raw
    by (simp add: acquire_lease_def resource_path_def put_lease_def atomic_write_def Let_def)
  moreover have "get_claim s2 k = Some (d_id d)"
    using assms(14-17) by (auto simp: transfer_commit_def transfer_def res_simps split: if_splits)
  ultimately show ?thesis by blast
qed

section \<open>Witnesses\<close>

definition sample_generation :: string where
  "sample_generation = replicate 32 CHR ''a''"

definition sample_lease :: reservation_record where
  "sample_lease = \<lparr>rv_version = 1, rv_owner = ''task'', rv_generation = sample_generation,
     rv_resource_id = ''gpu0'', rv_task_id = Some ''task'', rv_worker_ids = [], rv_model_ids = [],
     rv_acquired_at = Some ''noon''\<rparr>"

definition sample_lease_io :: lease_io where
  "sample_lease_io = \<lparr>lock_authority = Inr (), stat_lease = (\<lambda>_. Inr ()), write_lease = (\<lambda>_. NoFault),
     remove_lease = (\<lambda>_. Inr ()), sync_leases = Inr (), read_receipt = Inr (), write_receipt = NoFault,
     lease_path = (\<lambda>k. k), enc_record = (\<lambda>r. if r = sample_lease then Inr ''{}'' else Inl ''unsupported''),
     dec_record = (\<lambda>raw. if raw = ''{}'' then Inr sample_lease else Inl ''syntax''),
     enc_handle = (\<lambda>h. Inr (lh_owner h))\<rparr>"

lemma sample_lease_io_sel:
  "lock_authority sample_lease_io = Inr ()" "stat_lease sample_lease_io k = Inr ()"
  "write_lease sample_lease_io k = NoFault" "remove_lease sample_lease_io k = Inr ()"
  "sync_leases sample_lease_io = Inr ()" "read_receipt sample_lease_io = Inr ()"
  "write_receipt sample_lease_io = NoFault" "lease_path sample_lease_io k = k"
  "enc_record sample_lease_io sample_lease = Inr ''{}''" "dec_record sample_lease_io ''{}'' = Inr sample_lease"
  "enc_handle sample_lease_io h = Inr (lh_owner h)" "record_codec_ok sample_lease_io"
  by (auto simp: sample_lease_io_def record_codec_ok_def split: if_splits)

definition sample_lease_request :: reservation_request where
  "sample_lease_request = \<lparr>rq_owner = ''task'', rq_resources = [''gpu0''], rq_acquired_at = ''noon'',
     rq_worker_ids = [], rq_model_ids = []\<rparr>"

definition no_leases :: "document option \<Rightarrow> lease_store" where
  "no_leases doc = \<lparr>lease_files = [], release_receipts = [], release_requests = [], managed = Inr doc\<rparr>"

definition sample_lease_handle :: lease_handle where
  "sample_lease_handle = \<lparr>lh_owner = ''task'', lh_generation = sample_generation,
     lh_paths = [(''gpu0'', ''gpu0'')]\<rparr>"

lemma valid_gpu0: "valid_resource ''gpu0''"
  by (simp add: valid_resource_def ascii_alphanumeric_def)

lemma sample_acquire_lease:
  "acquire_lease (sample_env\<lparr>fresh := \<lambda>_. Inr sample_generation\<rparr>) sample_lease_io sample_lease_request (no_leases None) =
     (Inr sample_lease_handle, (no_leases None)\<lparr>lease_files := [(''gpu0'', ''{}'')]\<rparr>)"
proof -
  have rec: "new_record sample_lease_request
      \<lparr>lh_owner = ''task'', lh_generation = sample_generation, lh_paths = []\<rparr> ''gpu0'' = sample_lease"
    by (simp add: new_record_def sample_lease_request_def sample_lease_def)
  have b: "blocked sample_lease_io (no_leases None) [''gpu0''] = Inr []"
    by (simp add: blocked_def read_claims_def no_leases_def resource_path_def valid_gpu0 lease_exists_def
        sample_lease_io_sel)
  have r: "rq_owner sample_lease_request = ''task''" "rq_resources sample_lease_request = [''gpu0'']"
    by (simp_all add: sample_lease_request_def)
  have "put_lease sample_lease_io ''gpu0'' sample_lease (no_leases None) =
      (Inr (), (no_leases None)\<lparr>lease_files := [(''gpu0'', ''{}'')]\<rparr>)"
    by (simp add: put_lease_def sample_lease_io_sel atomic_write_def no_leases_def)
  then show ?thesis
    using b r rec
    by (simp add: acquire_lease_def sample_lease_io_sel resource_path_def valid_gpu0 Let_def sample_lease_handle_def)
qed

theorem lease_acquire_atomic_witness:
  "\<exists>h st'. acquire_lease (sample_env\<lparr>fresh := \<lambda>_. Inr sample_generation\<rparr>) sample_lease_io
       sample_lease_request (no_leases None) = (Inr h, st') \<and>
     (\<exists>raw. map_of (lease_files st') ''gpu0'' = Some raw \<and>
        lease_of sample_lease_io (lh_owner h) (lh_generation h) ''gpu0'' raw)"
proof -
  let ?st' = "(no_leases None)\<lparr>lease_files := [(''gpu0'', ''{}'')]\<rparr>"
  have r: "rq_resources sample_lease_request = [''gpu0'']" by (simp add: sample_lease_request_def)
  obtain cs :: "(string, string) omap" where "\<forall>k. if k \<in> set (rq_resources sample_lease_request)
      then map_of (lease_files (no_leases None)) k = None \<and> map_of cs k = None \<and>
        (\<exists>raw. map_of (lease_files ?st') k = Some raw \<and> lease_of sample_lease_io
          (lh_owner sample_lease_handle) (lh_generation sample_lease_handle) k raw)
      else map_of (lease_files ?st') k = map_of (lease_files (no_leases None)) k"
    using lease_acquire_atomic[OF sample_acquire_lease sample_lease_io_sel(12)] unfolding sum.case
    by (elim conjE exE) (rule that)
  from spec[OF this, of "''gpu0''"] show ?thesis
    using sample_acquire_lease r by auto
qed

text \<open>The next owner of the device keeps it against the handle of the generation before.\<close>

lemma sample_release_lease:
  "release_lease sample_lease_io 0 sample_lease_handle ((no_leases None)\<lparr>lease_files := [(''gpu0'', ''{}'')]\<rparr>) =
     (Inr (), (no_leases None)\<lparr>lease_files := [],
       release_receipts := [(sample_generation, ''task'')]\<rparr>)"
proof -
  have hex: "length sample_generation = 32" "\<forall>c \<in> set sample_generation. hex_digit c"
    by (simp_all add: sample_generation_def hex_digit_def)
  have v: "verify_lease sample_lease_io 0 sample_lease_handle ((no_leases None)\<lparr>lease_files := [(''gpu0'', ''{}'')]\<rparr>) = Inr ()"
    by (simp add: verify_lease_def managed_verify_def no_leases_def sample_lease_handle_def record_matches_def
        resource_path_def valid_gpu0 sample_lease_io_sel sample_lease_def)
  show ?thesis
    using hex v
    by (simp add: release_lease_def request_release_def managed_verify_def no_leases_def release_files_def
        sample_lease_handle_def sample_lease_io_sel atomic_write_def remove_owned_def resource_path_def
        valid_gpu0 lease_exists_def verify_lease_def record_matches_def sample_lease_def om_del_def)
qed

theorem release_removes_own_witness:
  "\<exists>st'. release_lease sample_lease_io 0 sample_lease_handle
       ((no_leases None)\<lparr>lease_files := [(''gpu0'', ''{}'')]\<rparr>) = (Inr (), st') \<and>
     map_of (lease_files st') ''gpu0'' = None"
  using release_removes_own[OF sample_release_lease] sample_release_lease
  by (auto simp: unmanaged_def no_leases_def sample_lease_handle_def)

theorem lease_taken_during_preemption_witness:
  "\<exists>s1 s2 h st'.
     victim_commit (sample_demand ''d1'' Preempting Low (sample_profile ''coder'' [''gpu0''])) sample_draining = Inr ((), s1) \<and>
     acquire_lease sample_env (sample_lease_io\<lparr>enc_record := \<lambda>_. Inr ''{}''\<rparr>) sample_lease_request (no_leases (Some s1)) = (Inr h, st') \<and>
     transfer_commit (sample_candidate\<lparr>d_victims := [''d1'']\<rparr>) s1 = Inr ((), s2) \<and>
     map_of (lease_files st') ''gpu0'' \<noteq> None \<and> get_claim s2 ''gpu0'' = Some ''d2''"
proof -
  define v where "v = sample_demand ''d1'' Preempting Low (sample_profile ''coder'' [''gpu0''])"
  define d where "d = sample_candidate\<lparr>d_victims := [''d1'']\<rparr>"
  define io where "io = sample_lease_io\<lparr>enc_record := \<lambda>_. Inr ''{}''\<rparr>"
  note f = sample_demand_sel[of "''d1''" Preempting Low "sample_profile ''coder'' [''gpu0'']", folded v_def]
  have d: "d_id d = ''d2''" "d_profile d = sample_profile ''coder'' [''gpu0'']" "d_victims d = [''d1'']"
      "d_state d = Preparing"
    by (simp_all add: d_def sample_candidate_def sample_demand_sel)
  have g: "get_demand sample_draining ''d1'' = Some v" "get_demand sample_draining ''d2'' = Some d"
      "claims sample_draining = [(''gpu0'', ''d1'')]" "invocations sample_draining = []"
    by (simp_all add: sample_draining_def v_def d_def sample_document_def)
  define s1 where "s1 = drop_claims_of ''d1'' (upd_demand ''d1'' displaced sample_draining)"
  have s1: "victim_commit v sample_draining = Inr ((), s1)"
    using g by (simp add: victim_commit_def f s1_def)
  have after: "get_demand s1 ''d2'' = Some d" "get_demand s1 ''d1'' = Some (displaced v)"
      "claims s1 = []" "invocations s1 = []"
    using g by (simp_all add: s1_def drop_claims_of_def om_retain_def)
  have "transfer_victim s1 ''d1'' = Inr ()"
    using after by (simp add: transfer_victim_def displaced_def inflight_def om_vals_def)
  then have s2: "transfer_commit d s1 = Inr ((), claim_all ''d2'' [''gpu0''] s1)"
    using after d by (simp add: transfer_commit_def transfer_def sample_profile_def)
  have "\<exists>h st'. acquire_lease sample_env io sample_lease_request (no_leases (Some s1)) = (Inr h, st') \<and>
      map_of (lease_files st') ''gpu0'' \<noteq> None \<and> get_claim (claim_all ''d2'' [''gpu0''] s1) ''gpu0'' = Some (d_id d)"
    by (rule lease_taken_during_preemption[OF s1 _ _ _ _ valid_gpu0 _ _ _ _ _ _ _ s2 _ _ refl])
      (use after d g in \<open>simp_all add: f no_leases_def io_def sample_lease_io_sel sample_lease_request_def
         sample_profile_def om_ok_def\<close>)
  then show ?thesis using s1 s2 d(1) unfolding v_def d_def io_def by metis
qed

end
