(* ===== verification/Media.thy ===== *)
theory Media
  imports Leases Text
begin

text \<open>
  The media service of \<open>rack_ai_media\<close>: its durable state (\<open>types.rs\<close>, \<open>store.rs\<close>), the admission of
  image jobs and interactive sessions, and every change its receiver, its HTTP interface and the shared
  runtime make to that state. Each action given to \<open>Store::update\<close> is one function on \<open>media_state\<close>;
  the probes between two actions (systemd, the GPU, the gate of the backend) are arguments.
\<close>

section \<open>Data\<close>

definition MEDIA_VERSION :: string where
  "MEDIA_VERSION = ''rack-ai/media/v1''"

record image_parameters =
  ip_prompt :: string
  ip_negative_prompt :: string
  ip_seed :: nat
  ip_width :: nat
  ip_height :: nat
  ip_steps :: nat

record media_reservation =
  mr_id :: string
  mr_generation :: string

record job_request =
  jr_schema :: string
  jr_work_id :: string
  jr_submission_id :: string
  jr_idempotency_key :: string
  jr_profile :: string
  jr_profile_version :: nat
  jr_parameters :: image_parameters
  jr_timeout_seconds :: nat
  jr_priority :: priority
  jr_reservation :: "media_reservation option"

datatype job_state = JobWaiting | JobStarting | JobDispatching | JobRunning | JobSubmissionUncertain
  | JobCompleted | JobFailed | JobCancelled | JobInterrupted

definition job_terminal :: "job_state \<Rightarrow> bool" where
  "job_terminal s \<longleftrightarrow> s \<in> {JobCompleted, JobFailed, JobCancelled, JobInterrupted}"

record artifact =
  ar_id :: string
  ar_filename :: string
  ar_sha256 :: string
  ar_bytes :: nat
  ar_content_type :: string
  ar_width :: nat
  ar_height :: nat

record job =
  jb_id :: string
  jb_owner :: string
  jb_request :: job_request
  jb_state :: job_state
  jb_created_at :: nat
  jb_updated_at :: nat
  jb_deadline :: nat
  jb_cleanup_pending :: bool
  jb_cancel_requested :: bool
  jb_prompt_id :: string
  jb_activation :: "string option"
  jb_workflow :: json
  jb_workflow_sha256 :: string
  jb_model_identity :: string
  jb_dispatched_at :: "nat option"
  jb_artifacts :: "artifact list"
  jb_error :: "string option"

record session_request =
  sq_schema :: string
  sq_idempotency_key :: string

record media_session =
  ss_id :: string
  ss_owner :: string
  ss_request :: session_request
  ss_created_at :: nat
  ss_release_requested :: bool
  ss_stopped :: bool
  ss_terminal_reason :: "string option"

datatype service_state = SvcStopped | SvcReserving | SvcStarting | SvcReady | SvcRestarting
  | SvcDraining | SvcStopping | SvcWaiting | SvcRecoveryRequired

datatype restart_phase = PhaseDraining | PhaseStopping | PhaseStartPending | PhaseStarting
  | PhaseFinishing | PhaseCompleted

record backend_generation =
  bg_number :: nat
  bg_invocation :: string
  bg_pid :: nat
  bg_cgroup :: string
  bg_start_ticks :: nat

record restart_intent =
  ri_id :: string
  ri_phase :: restart_phase
  ri_since :: nat
  ri_previous :: backend_generation
  ri_target :: "backend_generation option"

record media_service =
  sv_session :: "string option"
  sv_state :: service_state
  sv_mode :: media_mode
  sv_activation :: string
  sv_invocation :: "string option"
  sv_generation :: "backend_generation option"
  sv_restart :: "restart_intent option"
  sv_lease :: "lease_handle option"
  sv_since :: nat
  sv_heartbeat :: nat
  sv_last_busy :: nat
  sv_error :: "string option"

definition default_service :: media_service where
  "default_service = \<lparr>sv_session = None, sv_state = SvcStopped, sv_mode = ModeClosed,
     sv_activation = [], sv_invocation = None, sv_generation = None, sv_restart = None,
     sv_lease = None, sv_since = 0, sv_heartbeat = 0, sv_last_busy = 0, sv_error = None\<rparr>"

record browser_session =
  bs_auth_generation :: string
  bs_digest :: string
  bs_owner :: string
  bs_expires :: nat

record media_state =
  md_schema :: string
  md_service :: media_service
  md_jobs :: "job list"
  md_sessions :: "media_session list"
  md_browsers :: "browser_session list"

definition default_media :: media_state where
  "default_media = \<lparr>md_schema = MEDIA_VERSION, md_service = default_service, md_jobs = [],
     md_sessions = [], md_browsers = []\<rparr>"

section \<open>The store\<close>

definition MAX_STATE_BYTES :: nat where
  "MAX_STATE_BYTES = 33554432"

definition store_read :: "unit res \<Rightarrow> media_state codec \<Rightarrow> string option \<Rightarrow> media_state res" where
  "store_read readable c disk =
     res_bind (ok_or disk ''No such file or directory'') (\<lambda>raw.
     if length raw > MAX_STATE_BYTES then Inl ''state exceeds bound''
     else res_bind readable (\<lambda>_.
       case dec c raw of
         Inl e \<Rightarrow> Inl (''state corrupt: '' @ e)
       | Inr s \<Rightarrow> if md_schema s \<noteq> MEDIA_VERSION then Inl ''incompatible media state'' else Inr s))"

definition store_initialize ::
  "io \<Rightarrow> media_state codec \<Rightarrow> string option \<Rightarrow> unit res \<times> string option" where
  "store_initialize io c disk =
     (case io_lock io of
        Inl e \<Rightarrow> (Inl e, disk)
      | Inr _ \<Rightarrow>
          (case (case disk of
                   Some _ \<Rightarrow> (Inr (), disk)
                 | None \<Rightarrow>
                     (case enc c default_media of
                        Inl e \<Rightarrow> (Inl e, disk)
                      | Inr text \<Rightarrow> atomic_write (io_write io) text disk)) of
             (Inl e, disk) \<Rightarrow> (Inl e, disk)
           | (Inr _, disk) \<Rightarrow> (res_bind (store_read (io_read io) c disk) (\<lambda>_. Inr ()), disk)))"

definition store_update ::
  "io \<Rightarrow> media_state codec \<Rightarrow> (media_state \<Rightarrow> ('a \<times> media_state) res) \<Rightarrow> string option
     \<Rightarrow> 'a res \<times> string option" where
  "store_update io c action disk =
     (case io_lock io of
        Inl e \<Rightarrow> (Inl e, disk)
      | Inr _ \<Rightarrow>
          (case res_bind (store_read (io_read io) c disk) action of
             Inl e \<Rightarrow> (Inl e, disk)
           | Inr (value, state) \<Rightarrow>
               (case enc c state of
                  Inl e \<Rightarrow> (Inl e, disk)
                | Inr text \<Rightarrow>
                    if length text > MAX_STATE_BYTES then (Inl ''state capacity exceeded'', disk)
                    else (case atomic_write (io_write io) text disk of
                            (Inl e, disk) \<Rightarrow> (Inl e, disk)
                          | (Inr _, disk) \<Rightarrow> (Inr value, disk)))))"

text \<open>\<open>iter_mut().find(..)\<close> followed by assignments through the reference.\<close>

fun upd_first :: "('a \<Rightarrow> bool) \<Rightarrow> ('a \<Rightarrow> 'a) \<Rightarrow> 'a list \<Rightarrow> 'a list option" where
  "upd_first p f [] = None"
| "upd_first p f (x # xs) = (if p x then Some (f x # xs) else map_option (Cons x) (upd_first p f xs))"

definition edit_job :: "string \<Rightarrow> (job \<Rightarrow> job) \<Rightarrow> media_state \<Rightarrow> media_state res" where
  "edit_job k f st =
     res_bind (ok_or (upd_first (\<lambda>j. jb_id j = k) f (md_jobs st)) ''job missing'') (\<lambda>js.
       Inr (st\<lparr>md_jobs := js\<rparr>))"

definition edit_service :: "(media_service \<Rightarrow> media_service) \<Rightarrow> media_state \<Rightarrow> media_state" where
  "edit_service f st = st\<lparr>md_service := f (md_service st)\<rparr>"

section \<open>The profile of an image job\<close>

record image_profile =
  pf_id :: string
  pf_version :: nat
  pf_checkpoint :: string
  pf_checkpoint_sha256 :: string
  pf_runtime_revision :: string
  pf_available :: bool

text \<open>\<open>char::is_control\<close> in UTF-8: the ASCII controls and the encodings of U+0080 to U+009F.\<close>

fun has_control :: "string \<Rightarrow> bool" where
  "has_control [] = False"
| "has_control (c # s) =
     (let n = of_char c :: nat in
      n < 32 \<or> n = 127 \<or>
      n = 0xC2 \<and> (case s of [] \<Rightarrow> False | d # _ \<Rightarrow> 128 \<le> (of_char d :: nat) \<and> (of_char d :: nat) < 160) \<or>
      has_control s)"

definition valid_identity :: "string \<Rightarrow> bool" where
  "valid_identity k \<longleftrightarrow> k \<noteq> [] \<and> length k \<le> 128 \<and> \<not> has_control k"

definition valid_edge :: "nat \<Rightarrow> bool" where
  "valid_edge n \<longleftrightarrow> 64 \<le> n \<and> n \<le> 1024 \<and> n mod 64 = 0"

definition valid_parameters :: "image_parameters \<Rightarrow> bool" where
  "valid_parameters p \<longleftrightarrow> trim (ip_prompt p) \<noteq> [] \<and> length (ip_prompt p) \<le> 4096 \<and>
     length (ip_negative_prompt p) \<le> 4096 \<and> ip_seed p \<le> 2 ^ 63 - 1 \<and>
     1 \<le> ip_steps p \<and> ip_steps p \<le> 50 \<and> valid_edge (ip_width p) \<and> valid_edge (ip_height p)"

definition validate_job :: "image_profile \<Rightarrow> job_request \<Rightarrow> unit res" where
  "validate_job profile r =
     (if jr_schema r \<noteq> MEDIA_VERSION then Inl ''validation: unsupported schema''
      else if jr_profile r \<noteq> pf_id profile \<or> jr_profile_version r \<noteq> pf_version profile \<or> \<not> pf_available profile
      then Inl ''unsupported: image profile unavailable''
      else if \<not> valid_identity (jr_work_id r) \<or> \<not> valid_identity (jr_submission_id r) \<or>
              \<not> valid_identity (jr_idempotency_key r)
      then Inl ''validation: invalid identity''
      else if \<not> valid_parameters (jr_parameters r) \<or>
              \<not> (10 \<le> jr_timeout_seconds r \<and> jr_timeout_seconds r \<le> 900)
      then Inl ''validation: parameters outside approved bounds''
      else Inr ())"

text \<open>\<open>Path::file_name\<close>: the last component, unless it is the parent directory.\<close>

fun path_pieces :: "string \<Rightarrow> string \<Rightarrow> string list" where
  "path_pieces piece [] = [rev piece]"
| "path_pieces piece (c # s) =
     (if c = CHR ''/'' then rev piece # path_pieces [] s else path_pieces (c # piece) s)"

definition path_components :: "string \<Rightarrow> string list" where
  "path_components s = filter (\<lambda>x. x \<noteq> [] \<and> x \<noteq> ''.'') (path_pieces [] s)"

definition file_name :: "string \<Rightarrow> string option" where
  "file_name s = (let cs = path_components s in
     if cs = [] \<or> last cs = ''..'' then None else Some (last cs))"

definition f64_1 :: "64 word" where
  "f64_1 = 0x3FF0000000000000"

definition f64_7 :: "64 word" where
  "f64_7 = 0x401C000000000000"

definition node :: "string \<Rightarrow> (string \<times> json) list \<Rightarrow> json" where
  "node class_type inputs = JObject [(''class_type'', JString class_type), (''inputs'', JObject inputs)]"

definition link :: "string \<Rightarrow> nat \<Rightarrow> json" where
  "link k n = JArray [JString k, JPosInt n]"

definition workflow :: "image_profile \<Rightarrow> job_request \<Rightarrow> string \<Rightarrow> json res" where
  "workflow profile r k =
     (let p = jr_parameters r in
      res_bind (ok_or (file_name (pf_checkpoint profile)) ''invalid checkpoint name'') (\<lambda>name.
      Inr (JObject [
        (''3'', node ''KSampler'' [(''cfg'', JFloat f64_7), (''denoise'', JFloat f64_1),
           (''latent_image'', link ''5'' 0), (''model'', link ''4'' 0), (''negative'', link ''7'' 0),
           (''positive'', link ''6'' 0), (''sampler_name'', JString ''euler''),
           (''scheduler'', JString ''normal''), (''seed'', JPosInt (ip_seed p)), (''steps'', JPosInt (ip_steps p))]),
        (''4'', node ''CheckpointLoaderSimple'' [(''ckpt_name'', JString name)]),
        (''5'', node ''EmptyLatentImage'' [(''batch_size'', JPosInt 1), (''height'', JPosInt (ip_height p)),
           (''width'', JPosInt (ip_width p))]),
        (''6'', node ''CLIPTextEncode'' [(''clip'', link ''4'' 1), (''text'', JString (ip_prompt p))]),
        (''7'', node ''CLIPTextEncode'' [(''clip'', link ''4'' 1), (''text'', JString (ip_negative_prompt p))]),
        (''8'', node ''VAEDecode'' [(''samples'', link ''3'' 0), (''vae'', link ''4'' 2)]),
        (''9'', node ''SaveImage'' [(''filename_prefix'', JString (''rack/'' @ k @ ''/image'')),
           (''images'', link ''8'' 0)])])))"

section \<open>Admission\<close>

definition ACTIVE_JOBS :: nat where "ACTIVE_JOBS = 128"
definition RETAINED_RECORDS :: nat where "RETAINED_RECORDS = 2048"

record gate_status =
  gs_activation :: string
  gs_invocation :: string
  gs_pid :: nat
  gs_mode :: media_mode
  gs_protocol :: string

record idle_observation =
  ob_gate :: gate_status
  ob_last_activity_at :: nat
  ob_busy :: bool
  ob_idle_closed :: bool

text \<open>\<open>SharedJob::authorize\<close>: a managed device takes jobs of its reservation only.\<close>

definition shared_authorize ::
  "lease_io \<Rightarrow> nat \<Rightarrow> lease_store \<Rightarrow> string \<Rightarrow> job_request \<Rightarrow> media_state \<Rightarrow> unit res" where
  "shared_authorize io t ls caller r st =
     res_bind (case sv_lease (md_service st) of None \<Rightarrow> Inr False | Some h \<Rightarrow> managed_verify t h False ls)
       (\<lambda>m.
       case jr_reservation r of
         None \<Rightarrow> if m then Inl ''forbidden: managed reservation binding required'' else Inr ()
       | Some b \<Rightarrow>
           res_bind (resource_path io ''gpu-4080-super'') (\<lambda>path.
           let h = \<lparr>lh_owner = mr_id b, lh_generation = mr_generation b,
                    lh_paths = [(''gpu-4080-super'', path)]\<rparr> in
           res_bind (authorize t h caller (jr_priority r) ls) (\<lambda>_.
             ensure (sv_mode (md_service st) = ModeManaged \<and>
                     is_some_and (sv_lease (md_service st)) (\<lambda>x.
                       lh_owner x = lh_owner h \<and> lh_generation x = lh_generation h))
               ''conflict: media reservation not active'')))"

definition job_activity_admit :: "idle_observation res \<Rightarrow> media_reservation \<Rightarrow> unit res" where
  "job_activity_admit answer b =
     res_bind answer (\<lambda>ob.
       ensure (gs_activation (ob_gate ob) = mr_generation b \<and> gs_mode (ob_gate ob) = ModeManaged \<and>
               \<not> ob_idle_closed ob) ''conflict: managed GPU admission closed'')"

text \<open>What one admission meets: the clock, the random identities, the hash, the answer of the gate and the
  authority over the devices.\<close>

record admission_env =
  ae_now :: nat
  ae_id :: string
  ae_prompt_id :: string
  ae_hash :: "json \<Rightarrow> string res"
  ae_gate :: "media_reservation \<Rightarrow> idle_observation res"
  ae_profile :: image_profile
  ae_lease_io :: lease_io
  ae_leases :: lease_store

definition same_job :: "string \<Rightarrow> job_request \<Rightarrow> job \<Rightarrow> bool" where
  "same_job caller r j \<longleftrightarrow> jb_owner j = caller \<and>
     (jr_idempotency_key (jb_request j) = jr_idempotency_key r \<or>
      jr_submission_id (jb_request j) = jr_submission_id r)"

definition new_job :: "admission_env \<Rightarrow> string \<Rightarrow> job_request \<Rightarrow> json \<Rightarrow> string \<Rightarrow> job" where
  "new_job e caller r w hash = \<lparr>jb_id = ae_id e, jb_owner = caller, jb_request = r,
     jb_state = JobWaiting, jb_created_at = ae_now e, jb_updated_at = ae_now e,
     jb_deadline = ae_now e + jr_timeout_seconds r, jb_cleanup_pending = False,
     jb_cancel_requested = False, jb_prompt_id = ae_prompt_id e, jb_activation = None,
     jb_workflow = w, jb_workflow_sha256 = hash, jb_model_identity = pf_checkpoint_sha256 (ae_profile e),
     jb_dispatched_at = None, jb_artifacts = [], jb_error = None\<rparr>"

definition active_jobs :: "media_state \<Rightarrow> nat" where
  "active_jobs st = length (filter (\<lambda>j. \<not> job_terminal (jb_state j)) (md_jobs st))"

definition admit_job ::
  "admission_env \<Rightarrow> string \<Rightarrow> job_request \<Rightarrow> media_state \<Rightarrow> (job \<times> media_state) res" where
  "admit_job e caller r st =
     (case List.find (same_job caller r) (md_jobs st) of
        Some j \<Rightarrow> if jb_request j = r then Inr (j, st) else Inl ''conflict: identity payload changed''
      | None \<Rightarrow>
          res_bind (shared_authorize (ae_lease_io e) (ae_now e) (ae_leases e) caller r st) (\<lambda>_.
          res_bind (validate_job (ae_profile e) r) (\<lambda>_.
          if ACTIVE_JOBS \<le> active_jobs st \<or> RETAINED_RECORDS \<le> length (md_jobs st)
          then Inl ''unavailable: job capacity reached''
          else
            res_bind (workflow (ae_profile e) r (ae_id e)) (\<lambda>w.
            res_bind (ae_hash e w) (\<lambda>hash.
            let j = new_job e caller r w hash in
            res_bind (case jr_reservation r of None \<Rightarrow> Inr () | Some b \<Rightarrow> job_activity_admit (ae_gate e b) b)
              (\<lambda>_. Inr (j, st\<lparr>md_jobs := md_jobs st @ [j]\<rparr>)))))))"

definition new_session :: "nat \<Rightarrow> string \<Rightarrow> string \<Rightarrow> session_request \<Rightarrow> media_session" where
  "new_session t k owner r = \<lparr>ss_id = k, ss_owner = owner, ss_request = r, ss_created_at = t,
     ss_release_requested = False, ss_stopped = False, ss_terminal_reason = None\<rparr>"

definition admit_session ::
  "nat \<Rightarrow> string \<Rightarrow> string \<times> bool \<Rightarrow> session_request \<Rightarrow> media_state \<Rightarrow> (media_session \<times> media_state) res" where
  "admit_session t k caller r st =
     (if \<not> snd caller then Inl ''forbidden: interactive access requires operator''
      else if sq_schema r \<noteq> MEDIA_VERSION \<or> sq_idempotency_key r = [] \<or> 128 < length (sq_idempotency_key r)
      then Inl ''validation: invalid session request''
      else
        (case List.find (\<lambda>s. ss_owner s = fst caller \<and>
                sq_idempotency_key (ss_request s) = sq_idempotency_key r) (md_sessions st) of
           Some s \<Rightarrow> if ss_request s = r then Inr (s, st) else Inl ''conflict: session payload changed''
         | None \<Rightarrow>
             (case List.find (\<lambda>s. ss_owner s = fst caller \<and> \<not> ss_stopped s) (md_sessions st) of
                Some s \<Rightarrow> Inr (s, st)
              | None \<Rightarrow>
                  if RETAINED_RECORDS \<le> length (md_sessions st)
                  then Inl ''unavailable: session retention full''
                  else
                    (let s = new_session t k (fst caller) r in
                     Inr (s, st\<lparr>md_sessions := md_sessions st @ [s]\<rparr>)))))"

section \<open>Requests on jobs and sessions\<close>

text \<open>\<open>jobs/{id}/cancel\<close> and \<open>sessions/{id}/release\<close> of \<open>api_items.rs\<close>.\<close>

definition owned_job :: "string \<Rightarrow> string \<Rightarrow> job \<Rightarrow> bool" where
  "owned_job k caller j \<longleftrightarrow> jb_id j = k \<and> jb_owner j = caller"

definition cancelled_job :: "nat \<Rightarrow> job \<Rightarrow> job" where
  "cancelled_job t j = j\<lparr>jb_cancel_requested := True, jb_state := JobCancelled, jb_updated_at := t\<rparr>"

definition cancel_job :: "nat \<Rightarrow> string \<Rightarrow> string \<Rightarrow> media_state \<Rightarrow> (job \<times> media_state) res" where
  "cancel_job t k caller st =
     res_bind (ok_or (List.find (owned_job k caller) (md_jobs st)) ''not_found: job'') (\<lambda>j.
     if jb_state j = JobCompleted then Inl ''conflict: job already completed''
     else
       res_bind (ok_or (upd_first (owned_job k caller) (cancelled_job t) (md_jobs st)) ''not_found: job'')
         (\<lambda>js. Inr (cancelled_job t j, st\<lparr>md_jobs := js\<rparr>)))"

definition released_session :: "string option \<Rightarrow> media_session \<Rightarrow> media_session" where
  "released_session cur s =
     (let s = s\<lparr>ss_release_requested := True\<rparr> in
      if cur \<noteq> Some (ss_id s) then s\<lparr>ss_stopped := True\<rparr> else s)"

definition release_session ::
  "nat \<Rightarrow> string \<Rightarrow> string \<Rightarrow> media_state \<Rightarrow> (media_session \<times> media_state) res" where
  "release_session t k caller st =
     (let cur = sv_session (md_service st);
          mine = (\<lambda>s. ss_id s = k \<and> ss_owner s = caller) in
      res_bind (ok_or (List.find mine (md_sessions st)) ''not_found: session'') (\<lambda>s.
      res_bind (ok_or (upd_first mine (released_session cur) (md_sessions st)) ''not_found: session'')
        (\<lambda>ss.
        let st = st\<lparr>md_sessions := ss\<rparr> in
        Inr (released_session cur s,
          if cur = Some (ss_id s) \<and> sv_state (md_service st) = SvcReady
          then edit_service (\<lambda>v. v\<lparr>sv_state := SvcDraining, sv_since := t\<rparr>) st
          else st))))"

end
