(* ===== verification/Media_Receiver.thy ===== *)
theory Media_Receiver
  imports Media
begin

text \<open>
  The receiver of the media service: \<open>supervisor.rs\<close>, \<open>lifecycle.rs\<close>, \<open>activation.rs\<close>, \<open>startup.rs\<close>,
  \<open>ready_lifecycle.rs\<close>, \<open>idle.rs\<close>, \<open>shutdown.rs\<close>, the supervised restart, the execution of image jobs, and
  the activation the shared runtime performs. A decision is a function of the state read at the start of
  the tick and of the probes; a change is a function on the state of its own transaction.
\<close>

record media_config =
  mc_start_timeout :: nat
  mc_drain_timeout :: nat
  mc_stop_timeout :: nat
  mc_idle_seconds :: nat
  mc_reservation_idle_seconds :: nat
  mc_session_seconds :: nat
  mc_checkpoint_sha256 :: string

section \<open>The unit of the backend\<close>

record unit_observation =
  uo_invocation :: string
  uo_pid :: nat
  uo_cgroup :: string
  uo_active :: string
  uo_pending_job :: bool

definition unit_idle :: "unit_observation \<Rightarrow> bool" where
  "unit_idle o' \<longleftrightarrow> uo_active o' = ''inactive'' \<or> uo_active o' = ''failed''"

text \<open>\<open>populated\<close> is what \<open>cgroup.events\<close> says of the unit's control group, if that is still there.\<close>

definition unit_gone :: "bool option \<Rightarrow> unit_observation \<Rightarrow> bool" where
  "unit_gone populated o' \<longleftrightarrow> \<not> uo_pending_job o' \<and> uo_pid o' = 0 \<and> unit_idle o' \<and>
     (uo_cgroup o' = [] \<or> populated = None \<or> populated = Some False)"

definition unit_start_allowed :: "unit_observation \<Rightarrow> unit res" where
  "unit_start_allowed o' =
     ensure (\<not> uo_pending_job o' \<and> uo_pid o' = 0 \<and> uo_invocation o' = [] \<and> unit_idle o')
       ''owned unit is already active or ambiguous''"

text \<open>Whether \<open>stop\<close> has a unit to stop.\<close>

definition unit_stop :: "media_service \<Rightarrow> unit_observation \<Rightarrow> bool res" where
  "unit_stop v o' =
     (if uo_pid o' = 0 \<and> uo_active o' = ''inactive'' \<and> \<not> uo_pending_job o' then Inr False
      else if sv_invocation v \<noteq> Some (uo_invocation o') \<or> uo_invocation o' = []
      then Inl ''refusing stop: service invocation changed'' else Inr True)"

definition cancel_pending_start :: "unit_observation \<Rightarrow> unit res" where
  "cancel_pending_start o' =
     ensure (uo_pid o' = 0 \<and> uo_invocation o' = []) ''pending restart start gained an unverified process''"

definition capture :: "nat \<Rightarrow> nat res \<Rightarrow> unit_observation \<Rightarrow> backend_generation res" where
  "capture n ticks o' =
     res_bind ticks (\<lambda>k. Inr \<lparr>bg_number = n, bg_invocation = uo_invocation o', bg_pid = uo_pid o',
       bg_cgroup = uo_cgroup o', bg_start_ticks = k\<rparr>)"

definition generation_verify :: "backend_generation \<Rightarrow> nat res \<Rightarrow> unit_observation \<Rightarrow> unit res" where
  "generation_verify g ticks o' =
     res_bind (capture (bg_number g) ticks o') (\<lambda>c. ensure (g = c) ''backend process generation changed'')"

definition gate_matches :: "media_service \<Rightarrow> unit_observation \<Rightarrow> gate_status \<Rightarrow> bool" where
  "gate_matches v o' g \<longleftrightarrow> gs_activation g = sv_activation v \<and> gs_invocation g = uo_invocation o' \<and>
     gs_pid g = uo_pid o'"

text \<open>\<open>Lifecycle::verify\<close>: the lease, the invocation, the generation, the GPU and the gate agree.\<close>

definition verify_service ::
  "(lease_handle \<Rightarrow> unit res) \<Rightarrow> unit_observation res \<Rightarrow> nat res \<Rightarrow> unit res \<Rightarrow> gate_status res
     \<Rightarrow> media_service \<Rightarrow> unit res" where
  "verify_service lease observe ticks held gate v =
     res_bind (ok_or (sv_lease v) ''missing media reservation'') (\<lambda>h.
     res_bind (lease h) (\<lambda>_.
     res_bind observe (\<lambda>o'.
     res_bind (ensure (sv_invocation v = Some (uo_invocation o')) ''backend invocation changed'') (\<lambda>_.
     res_bind (case sv_generation v of None \<Rightarrow> Inr () | Some g \<Rightarrow> generation_verify g ticks o') (\<lambda>_.
     res_bind held (\<lambda>_.
     res_bind gate (\<lambda>g.
       ensure (gate_matches v o' g \<and> gs_protocol g = ''rack-gate/v1'') ''gate/process identity mismatch'')))))))"

section \<open>The pass, the quarantine, and recovery\<close>

definition pass_job :: "nat \<Rightarrow> media_service \<Rightarrow> job \<Rightarrow> job" where
  "pass_job t v j =
     (let j = (if \<not> job_terminal (jb_state j) \<and> \<not> jb_cleanup_pending j \<and>
                  sv_mode v = ModeManaged \<and> sv_state v = SvcStarting
               then j\<lparr>jb_state := JobStarting\<rparr> else j);
          j = (if \<not> job_terminal (jb_state j) \<and> \<not> jb_cleanup_pending j \<and>
                  sv_state v \<in> {SvcWaiting, SvcRecoveryRequired}
               then j\<lparr>jb_error := sv_error v\<rparr> else j) in
      if \<not> job_terminal (jb_state j) \<and> \<not> jb_cleanup_pending j \<and> jb_deadline j < t
      then j\<lparr>jb_state := JobFailed, jb_error := Some ''job admission deadline exceeded'', jb_updated_at := t\<rparr>
      else j)"

definition receiver_pass :: "nat \<Rightarrow> media_state \<Rightarrow> media_state" where
  "receiver_pass t st = st\<lparr>md_jobs := map (pass_job t (md_service st)) (md_jobs st)\<rparr>"

definition heartbeat :: "nat \<Rightarrow> media_state \<Rightarrow> media_state" where
  "heartbeat t = edit_service (\<lambda>v. v\<lparr>sv_heartbeat := t\<rparr>)"

definition quarantined_job :: "nat \<Rightarrow> job \<Rightarrow> job" where
  "quarantined_job t j =
     (if jb_cleanup_pending j \<and> \<not> job_terminal (jb_state j)
      then j\<lparr>jb_state := JobInterrupted, jb_updated_at := t, jb_error :=
        Some ''backend ownership or outcome requires recovery; no redispatch permitted''\<rparr>
      else j)"

definition quarantine_media :: "nat \<Rightarrow> string \<Rightarrow> media_state \<Rightarrow> media_state" where
  "quarantine_media t err st =
     (let st = edit_service (\<lambda>v. v\<lparr>sv_state := SvcRecoveryRequired, sv_error := Some err\<rparr>) st in
      st\<lparr>md_jobs := map (quarantined_job t) (md_jobs st)\<rparr>)"

definition lost_job :: "string \<Rightarrow> job \<Rightarrow> job" where
  "lost_job reason j =
     (if jb_cleanup_pending j
      then (let j = j\<lparr>jb_cleanup_pending := False\<rparr> in
            if \<not> job_terminal (jb_state j) then j\<lparr>jb_state := JobInterrupted, jb_error := Some reason\<rparr> else j)
      else j)"

definition recovered_media :: "media_state \<Rightarrow> media_state" where
  "recovered_media st =
     st\<lparr>md_jobs := map (lost_job ''backend lost during receiver restart'') (md_jobs st),
        md_sessions := map (\<lambda>s. if ss_release_requested s then s\<lparr>ss_stopped := True\<rparr> else s) (md_sessions st),
        md_service := default_service\<rparr>"

text \<open>What \<open>recover\<close> does when the receiver starts. \<open>gone\<close>, \<open>clear\<close> (no process on the GPU), the check of
  the lease and of the running backend are the probes; a probe that fails makes \<open>main\<close> quarantine.\<close>

datatype recovery_action = RecoveryNothing | RecoveryQuarantine string | RecoveryRelease lease_handle

definition recover_action ::
  "bool res \<Rightarrow> bool res \<Rightarrow> (lease_handle \<Rightarrow> unit res) \<Rightarrow> (media_service \<Rightarrow> unit res) \<Rightarrow> unit res
     \<Rightarrow> media_state \<Rightarrow> recovery_action res" where
  "recover_action gone clear lease verify authority st =
     (let v = md_service st in
      if sv_state v \<in> {SvcStopped, SvcWaiting}
      then res_bind gone (\<lambda>g. Inr (if \<not> g then RecoveryQuarantine ''unowned backend active at receiver startup''
                                   else RecoveryNothing))
      else
        res_bind authority (\<lambda>_.
        if sv_state v = SvcRestarting
        then res_bind (ok_or (sv_lease v) ''restart lost lease'') (\<lambda>h.
             res_bind (lease h) (\<lambda>_.
               Inr (if sv_mode v \<noteq> ModeInteractive \<or> sv_restart v = None
                    then RecoveryQuarantine ''invalid durable restart intent'' else RecoveryNothing)))
        else
          res_bind gone (\<lambda>g.
          res_bind (if g then clear else Inr False) (\<lambda>c.
          case (if g \<and> c then sv_lease v else None) of
            Some h \<Rightarrow> Inr (RecoveryRelease h)
          | None \<Rightarrow>
              if sv_state v = SvcReady
              then Inr (case verify v of Inl e \<Rightarrow> RecoveryQuarantine e | Inr _ \<Rightarrow> RecoveryNothing)
              else if sv_state v \<in> {SvcDraining, SvcStopping, SvcStarting} then Inr RecoveryNothing
              else Inr (RecoveryQuarantine ''interrupted/unknown ownership requires operator reconciliation'')))))"

section \<open>The tick\<close>

datatype media_tick = TickBegin | TickInterrupted | TickStartup | TickReady | TickRestart | TickDrain
  | TickStopping | TickNothing

definition session_released :: "media_state \<Rightarrow> bool" where
  "session_released st \<longleftrightarrow> (\<exists>s \<in> set (md_sessions st).
     sv_session (md_service st) = Some (ss_id s) \<and> ss_release_requested s)"

definition tick_procedure :: "media_state \<Rightarrow> media_tick" where
  "tick_procedure st =
     (case sv_state (md_service st) of
        SvcStopped \<Rightarrow> TickBegin
      | SvcWaiting \<Rightarrow> TickBegin
      | SvcReserving \<Rightarrow> TickInterrupted
      | SvcStarting \<Rightarrow> TickStartup
      | SvcReady \<Rightarrow> TickReady
      | SvcRestarting \<Rightarrow> TickRestart
      | SvcDraining \<Rightarrow> TickDrain
      | SvcStopping \<Rightarrow> TickStopping
      | SvcRecoveryRequired \<Rightarrow>
          if sv_mode (md_service st) = ModeInteractive \<and> session_released st then TickDrain else TickNothing)"

definition begin_mode :: "media_state \<Rightarrow> media_mode option" where
  "begin_mode st =
     (if \<exists>s \<in> set (md_sessions st). \<not> ss_stopped s \<and> \<not> ss_release_requested s then Some ModeInteractive
      else if \<exists>j \<in> set (md_jobs st). \<not> job_terminal (jb_state j) then Some ModeManaged
      else None)"

definition set_state :: "nat \<Rightarrow> service_state \<Rightarrow> media_state \<Rightarrow> media_state" where
  "set_state t next = edit_service (\<lambda>v. v\<lparr>sv_state := next, sv_since := t\<rparr>)"

section \<open>Activation\<close>

definition waiting_media :: "string \<Rightarrow> media_state \<Rightarrow> media_state" where
  "waiting_media reason = edit_service (\<lambda>v. v\<lparr>sv_state := SvcWaiting, sv_error := Some reason\<rparr>)"

definition reserving_media :: "nat \<Rightarrow> string \<Rightarrow> media_mode \<Rightarrow> media_state \<Rightarrow> media_state" where
  "reserving_media t activation mode st =
     (let session = map_option ss_id
            (List.find (\<lambda>s. \<not> ss_stopped s \<and> \<not> ss_release_requested s) (md_sessions st)) in
      st\<lparr>md_service := default_service\<lparr>
           sv_session := (if mode = ModeInteractive then session else None),
           sv_state := SvcReserving, sv_mode := mode, sv_activation := activation,
           sv_since := t, sv_heartbeat := t, sv_last_busy := t\<rparr>\<rparr>)"

definition media_lease_request :: "media_config \<Rightarrow> string \<Rightarrow> string \<Rightarrow> media_mode \<Rightarrow> reservation_request" where
  "media_lease_request c acquired_at activation mode =
     \<lparr>rq_owner = ''media:'' @ activation, rq_resources = [''gpu-4080-super''], rq_acquired_at = acquired_at,
      rq_worker_ids = [], rq_model_ids = (if mode = ModeManaged then [mc_checkpoint_sha256 c] else [])\<rparr>"

text \<open>An answer \<open>resource busy\<close> makes the service wait; another error is the tick's.\<close>

definition lease_answer :: "lease_handle res \<Rightarrow> lease_handle option res" where
  "lease_answer r =
     (case r of
        Inr h \<Rightarrow> Inr (Some h)
      | Inl e \<Rightarrow> if starts_with e ''resource busy:'' then Inr None else Inl e)"

definition leased_media :: "lease_handle \<Rightarrow> media_state \<Rightarrow> media_state" where
  "leased_media h = edit_service (\<lambda>v. v\<lparr>sv_lease := Some h, sv_state := SvcStarting\<rparr>)"

text \<open>\<open>SharedActivation::begin\<close>: the activation the shared runtime performs with its own handle.\<close>

record shared_request =
  sh_handle :: lease_handle
  sh_owner :: string
  sh_mode :: media_mode

definition shared_handle_ok :: "nat \<Rightarrow> lease_store \<Rightarrow> lease_handle \<Rightarrow> unit res" where
  "shared_handle_ok t ls h =
     res_bind (if map fst (lh_paths h) \<noteq> [''gpu-4080-super''] then Inr False else managed_verify t h False ls)
       (\<lambda>m. ensure m ''shared media requires the complete managed grant'')"

definition shared_begin :: "nat \<Rightarrow> string \<Rightarrow> shared_request \<Rightarrow> media_state \<Rightarrow> (unit \<times> media_state) res" where
  "shared_begin t k r st =
     (if sv_state (md_service st) \<notin> {SvcStopped, SvcWaiting} \<or>
         (\<exists>j \<in> set (md_jobs st). \<not> job_terminal (jb_state j)) \<or>
         (\<exists>s \<in> set (md_sessions st). \<not> ss_stopped s \<and> \<not> ss_release_requested s)
      then Inl ''existing media demand requires migration''
      else
        (let s = new_session t k (sh_owner r)
               \<lparr>sq_schema = MEDIA_VERSION, sq_idempotency_key = lh_owner (sh_handle r)\<rparr>;
             st = st\<lparr>md_service := default_service\<lparr>
               sv_session := (if sh_mode r = ModeInteractive then Some (ss_id s) else None),
               sv_state := SvcStarting, sv_mode := sh_mode r, sv_activation := lh_generation (sh_handle r),
               sv_lease := Some (sh_handle r), sv_since := t, sv_last_busy := t\<rparr>\<rparr> in
         Inr ((), if sh_mode r = ModeInteractive then st\<lparr>md_sessions := md_sessions st @ [s]\<rparr> else st)))"

section \<open>Startup\<close>

text \<open>The first part of \<open>observe\<close>: whether the invocation seen is adopted, with its generation.\<close>

definition startup_adopts ::
  "unit_observation res \<Rightarrow> gate_status res \<Rightarrow> unit res \<Rightarrow> nat res \<Rightarrow> media_service
     \<Rightarrow> (string \<times> backend_generation) option res" where
  "startup_adopts observe gate held ticks v =
     res_bind observe (\<lambda>o'.
     res_bind (ensure (is_none_or (sv_invocation v) (\<lambda>x. x = uo_invocation o'))
       ''activation invocation changed'') (\<lambda>_.
     if uo_invocation o' = [] \<or> sv_invocation v \<noteq> None then Inr None
     else
       (case gate of
          Inl _ \<Rightarrow> Inr None
        | Inr g \<Rightarrow>
            res_bind (ensure (gate_matches v o' g) ''unrelated backend on configured port'') (\<lambda>_.
            res_bind held (\<lambda>_.
            res_bind (capture 1 ticks o') (\<lambda>c. Inr (Some (uo_invocation o', c))))))))"

definition adopted_media :: "string \<times> backend_generation \<Rightarrow> media_state \<Rightarrow> media_state" where
  "adopted_media a = edit_service (\<lambda>v. v\<lparr>sv_invocation := Some (fst a), sv_generation := Some (snd a)\<rparr>)"

datatype startup_next = StartupReady | StartupDrain | StartupStop | StartupWait

definition startup_action ::
  "nat \<Rightarrow> media_config \<Rightarrow> nat \<Rightarrow> (media_service \<Rightarrow> unit res) \<Rightarrow> unit res \<Rightarrow> gate_status res \<Rightarrow> media_state
     \<Rightarrow> startup_next res" where
  "startup_action t c since verify authority gate st =
     (let v = md_service st in
      if sv_invocation v \<noteq> None \<and> is_ok (verify v)
      then if session_released st then Inr StartupDrain
           else
             res_bind authority (\<lambda>_.
             res_bind gate (\<lambda>g.
             res_bind (ensure (gs_mode g = sv_mode v) ''native gate did not open'') (\<lambda>_.
               Inr StartupReady)))
      else if since + mc_start_timeout c < t
      then (if sv_invocation v \<noteq> None then Inr StartupStop
            else Inl ''startup deadline; invocation not verified'')
      else Inr StartupWait)"

definition ready_media :: "nat \<Rightarrow> media_state \<Rightarrow> media_state" where
  "ready_media t = edit_service (\<lambda>v. v\<lparr>sv_state := SvcReady, sv_error := None, sv_last_busy := t\<rparr>)"

section \<open>Ready\<close>

definition idle_validate :: "nat \<Rightarrow> media_service \<Rightarrow> idle_observation \<Rightarrow> idle_observation res" where
  "idle_validate t v ob =
     (let g = ob_gate ob in
      if gs_activation g \<noteq> sv_activation v \<or> sv_invocation v \<noteq> Some (gs_invocation g) \<or>
         gs_protocol g \<noteq> ''rack-gate/v1'' \<or> is_some_and (sv_generation v) (\<lambda>x. bg_pid x \<noteq> gs_pid g) \<or>
         (ob_idle_closed ob \<and> (ob_busy ob \<or> gs_mode g \<noteq> ModeClosed)) \<or> t < ob_last_activity_at ob
      then Inl ''idle_gate_identity_or_activity_unproven'' else Inr ob)"

definition idle_manual ::
  "nat \<Rightarrow> media_service \<Rightarrow> idle_observation \<Rightarrow> media_state \<Rightarrow> (bool \<times> media_state) res" where
  "idle_manual t v ob st =
     (if sv_activation (md_service st) \<noteq> sv_activation v \<or> sv_state (md_service st) \<noteq> SvcReady
      then Inl ''idle_media_generation_changed''
      else
        (let st = edit_service (\<lambda>x. x\<lparr>sv_last_busy := max (sv_last_busy x) (ob_last_activity_at ob)\<rparr>) st in
         Inr (ob_idle_closed ob,
           if ob_idle_closed ob
           then edit_service (\<lambda>x. x\<lparr>sv_state := SvcDraining, sv_since := t, sv_error := Some ''idle_timeout''\<rparr>)
                  (st\<lparr>md_sessions := map (\<lambda>s. if sv_session v = Some (ss_id s)
                     then s\<lparr>ss_release_requested := True, ss_terminal_reason := Some ''idle_timeout''\<rparr> else s)
                     (md_sessions st)\<rparr>)
           else st)))"

definition ready_finished :: "nat \<Rightarrow> media_config \<Rightarrow> bool \<Rightarrow> media_state \<Rightarrow> bool" where
  "ready_finished t c shared st \<longleftrightarrow>
     (let v = md_service st;
          mine = (\<lambda>s. sv_session v = Some (ss_id s));
          expired = \<not> shared \<and> (\<exists>s \<in> set (md_sessions st). mine s \<and> ss_created_at s + mc_session_seconds c < t);
          finish = (if sv_mode v = ModeInteractive
            then \<not> (\<exists>s \<in> set (md_sessions st). mine s \<and> \<not> ss_release_requested s) \<or> expired
            else \<not> (\<exists>j \<in> set (md_jobs st). \<not> job_terminal (jb_state j) \<or> jb_cleanup_pending j) \<and>
                 sv_last_busy v + mc_idle_seconds c \<le> t) in
      finish \<and> \<not> (shared \<and> sv_mode v = ModeManaged))"

section \<open>Shutdown\<close>

text \<open>Whether the drained unit is stopped now. \<open>queue\<close> says whether the backend's queue is empty.\<close>

definition drain_action ::
  "nat \<Rightarrow> media_config \<Rightarrow> (media_service \<Rightarrow> unit res) \<Rightarrow> unit res \<Rightarrow> gate_status res \<Rightarrow> bool res
     \<Rightarrow> media_service \<Rightarrow> bool res" where
  "drain_action t c verify authority barrier queue v =
     res_bind (verify v) (\<lambda>_.
     res_bind authority (\<lambda>_.
     res_bind barrier (\<lambda>g.
     res_bind (ensure (gs_activation g = sv_activation v \<and> gs_mode g = ModeClosed)
       ''gate barrier identity mismatch'') (\<lambda>_.
     res_bind queue (\<lambda>empty.
       if empty then Inr True
       else if sv_since v + mc_drain_timeout c < t then Inl ''drain deadline; accepted work still active''
       else Inr False)))))"

definition stopping_action :: "nat \<Rightarrow> media_config \<Rightarrow> bool res \<Rightarrow> bool res \<Rightarrow> media_service
     \<Rightarrow> lease_handle option res" where
  "stopping_action t c gone clear v =
     res_bind gone (\<lambda>g.
     res_bind (if g then clear else Inr False) (\<lambda>k.
     if g \<and> k then res_bind (ok_or (sv_lease v) ''missing ownership at stop'') (\<lambda>h. Inr (Some h))
     else if sv_since v + mc_stop_timeout c < t then Inl ''owned process/GPU cleanup deadline''
     else Inr None))"

definition stopped_media :: "media_service \<Rightarrow> media_state \<Rightarrow> media_state" where
  "stopped_media v st =
     st\<lparr>md_service := default_service,
        md_sessions := map (\<lambda>s. if ss_release_requested s \<or> sv_session v = Some (ss_id s)
          then s\<lparr>ss_stopped := True\<rparr> else s) (md_sessions st),
        md_jobs := map (\<lambda>j. if jb_activation j = Some (sv_activation v)
          then lost_job ''backend stopped'' j else j) (md_jobs st)\<rparr>"

section \<open>The supervised restart\<close>

definition finishing :: "nat \<Rightarrow> media_config \<Rightarrow> media_state \<Rightarrow> bool" where
  "finishing t c st \<longleftrightarrow> \<not> (\<exists>s \<in> set (md_sessions st). sv_session (md_service st) = Some (ss_id s) \<and>
     \<not> ss_release_requested s \<and> \<not> ss_stopped s \<and> t \<le> ss_created_at s + mc_session_seconds c)"

definition is_restart_path :: "string \<Rightarrow> bool" where
  "is_restart_path p \<longleftrightarrow> unwrap_or (strip_prefix ''/api'' p) p = ''/v2/manager/reboot''"

text \<open>\<open>RestartRequest::begin\<close>: a restart already under way is answered with its identity.\<close>

definition restart_decision :: "string \<times> bool \<Rightarrow> media_state \<Rightarrow> string option res" where
  "restart_decision caller st =
     (let v = md_service st in
      if \<not> snd caller \<or> sv_mode v \<noteq> ModeInteractive \<or>
         \<not> (\<exists>s \<in> set (md_sessions st). sv_session v = Some (ss_id s) \<and> ss_owner s = fst caller \<and>
              \<not> ss_stopped s \<and> \<not> ss_release_requested s)
      then Inl ''restart requires the owning interactive session''
      else if sv_state v = SvcRestarting
      then res_bind (ok_or (sv_restart v) ''missing restart intent'') (\<lambda>i. Inr (Some (ri_id i)))
      else if sv_state v \<noteq> SvcReady then Inl ''interactive session is not ready''
      else Inr None)"

definition restarting_media :: "nat \<Rightarrow> string \<Rightarrow> backend_generation \<Rightarrow> media_state \<Rightarrow> media_state" where
  "restarting_media t k previous = edit_service (\<lambda>v. v\<lparr>sv_generation := Some previous,
     sv_restart := Some \<lparr>ri_id = k, ri_phase = PhaseDraining, ri_since = t, ri_previous = previous,
       ri_target = None\<rparr>,
     sv_state := SvcRestarting, sv_since := t, sv_error := None\<rparr>)"

definition edit_restart :: "string \<Rightarrow> (restart_intent \<Rightarrow> restart_intent) \<Rightarrow> media_state \<Rightarrow> media_state res" where
  "edit_restart missing f st =
     res_bind (ok_or (sv_restart (md_service st)) missing) (\<lambda>i.
       Inr (edit_service (\<lambda>v. v\<lparr>sv_restart := Some (f i)\<rparr>) st))"

definition set_phase :: "nat \<Rightarrow> restart_phase \<Rightarrow> media_state \<Rightarrow> media_state res" where
  "set_phase t next = edit_restart ''missing restart intent'' (\<lambda>i. i\<lparr>ri_phase := next, ri_since := t\<rparr>)"

text \<open>The guard of a restart tick, before its phase.\<close>

definition restart_guard :: "(lease_handle \<Rightarrow> unit res) \<Rightarrow> unit res \<Rightarrow> media_service \<Rightarrow> restart_intent res" where
  "restart_guard lease authority v =
     res_bind (ensure (sv_mode v = ModeInteractive \<and> sv_session v \<noteq> None)
       ''restart intent outside interactive activation'') (\<lambda>_.
     res_bind (ok_or (sv_lease v) ''restart lost reservation'') (\<lambda>h.
     res_bind (lease h) (\<lambda>_.
     res_bind (ok_or (sv_restart v) ''missing supervised restart intent'') (\<lambda>i.
     res_bind authority (\<lambda>_. Inr i)))))"

definition restart_drain ::
  "nat \<Rightarrow> media_config \<Rightarrow> (media_service \<Rightarrow> unit res) \<Rightarrow> gate_status res \<Rightarrow> bool res \<Rightarrow> media_service \<Rightarrow> bool res" where
  "restart_drain t c verify barrier queue v =
     res_bind (verify v) (\<lambda>_.
     res_bind barrier (\<lambda>g.
     res_bind (ensure (gs_activation g = sv_activation v \<and> gs_mode g = ModeClosed)
       ''restart gate barrier identity mismatch'') (\<lambda>_.
     res_bind queue (\<lambda>empty.
       if empty then Inr True
       else res_bind (ok_or (sv_restart v) ''missing restart'') (\<lambda>i.
         if ri_since i + mc_drain_timeout c < t
         then Inl ''restart drain deadline; accepted work still active'' else Inr False)))))"

text \<open>\<open>stopping_identity\<close>: nothing but the expected generation may still run. \<open>ticks\<close> is the start time of the
  observed process, if it is still there, and \<open>foreign\<close> the check of the processes on the GPU.\<close>

definition stopping_identity ::
  "unit_observation res \<Rightarrow> nat option res \<Rightarrow> unit res \<Rightarrow> backend_generation \<Rightarrow> unit res" where
  "stopping_identity observe ticks foreign g =
     res_bind observe (\<lambda>o'.
     res_bind (ensure (\<not> (uo_invocation o' \<noteq> [] \<and> uo_invocation o' \<noteq> bg_invocation g \<or>
                         uo_pid o' \<noteq> 0 \<and> uo_pid o' \<noteq> bg_pid g \<or>
                         uo_cgroup o' \<noteq> [] \<and> uo_cgroup o' \<noteq> bg_cgroup g))
       ''unexpected replacement while stopping owned restart generation'') (\<lambda>_.
     res_bind (if uo_pid o' = 0 then Inr None else ticks) (\<lambda>k.
     res_bind (ensure (is_none_or k (\<lambda>n. n = bg_start_ticks g)) ''PID reused while stopping restart generation'')
       (\<lambda>_. foreign))))"

datatype restart_stop_action = RestartStopped | RestartCleared | RestartStopWait

definition restart_stop_observe ::
  "nat \<Rightarrow> media_config \<Rightarrow> (backend_generation \<Rightarrow> unit res) \<Rightarrow> bool res \<Rightarrow> bool res \<Rightarrow> media_state
     \<Rightarrow> restart_stop_action res" where
  "restart_stop_observe t c identity gone clear st =
     res_bind (ok_or (sv_restart (md_service st)) ''missing restart'') (\<lambda>i.
     let expected = (if ri_phase i = PhaseFinishing then unwrap_or (ri_target i) (ri_previous i)
                     else ri_previous i) in
     res_bind (identity expected) (\<lambda>_.
     res_bind gone (\<lambda>g.
     res_bind (if g then clear else Inr False) (\<lambda>k.
     if g \<and> k
     then Inr (if finishing t c st \<or> ri_phase i = PhaseFinishing then RestartStopped else RestartCleared)
     else if ri_since i + mc_stop_timeout c < t
     then Inl ''restart stop deadline; process ownership remains uncertain''
     else Inr RestartStopWait))))"

text \<open>\<open>StartPending\<close>: whether the backend is started now or the restart is given up.\<close>

definition restart_start_pending ::
  "bool res \<Rightarrow> bool res \<Rightarrow> unit res \<Rightarrow> unit res \<Rightarrow> bool \<Rightarrow> bool res" where
  "restart_start_pending gone clear unit_file placement finish =
     res_bind gone (\<lambda>g.
     res_bind (if g then clear else Inr False) (\<lambda>k.
     if \<not> (g \<and> k) then Inl ''unexpected backend before supervised restart start''
     else if finish then Inr False
     else res_bind unit_file (\<lambda>_. res_bind placement (\<lambda>_. Inr True))))"

text \<open>\<open>RestartStart\<close>: what the observation of the started unit leads to.\<close>

datatype gate_observation = GatePending | GateReady gate_status

datatype restart_start_action =
    RestartGaveUp
  | RestartCancelStart
  | RestartStartWait
  | RestartTarget backend_generation gate_observation

definition restart_deadline :: "nat \<Rightarrow> media_config \<Rightarrow> restart_intent \<Rightarrow> unit res" where
  "restart_deadline t c i =
     ensure (\<not> ri_since i + mc_start_timeout c < t)
       ''supervised restart startup deadline; backend ownership unconfirmed; no restart retry''"

definition restart_start_observe ::
  "nat \<Rightarrow> media_config \<Rightarrow> unit_observation res \<Rightarrow> bool res \<Rightarrow> bool res \<Rightarrow> unit res \<Rightarrow> nat res
     \<Rightarrow> gate_observation res \<Rightarrow> media_state \<Rightarrow> restart_start_action res" where
  "restart_start_observe t c observe gone clear identity ticks gate st =
     (let v = md_service st in
      res_bind (ok_or (sv_restart v) ''missing restart'') (\<lambda>i.
      res_bind observe (\<lambda>o'.
      if uo_pid o' = 0 then
        res_bind clear (\<lambda>k.
        if \<not> k then Inl ''media GPU process without restart service identity''
        else if finishing t c st
        then res_bind gone (\<lambda>g. if g then Inr RestartGaveUp
               else res_bind (cancel_pending_start o') (\<lambda>_. Inr RestartCancelStart))
        else res_bind (restart_deadline t c i) (\<lambda>_. Inr RestartStartWait))
      else if uo_invocation o' = bg_invocation (ri_previous i)
      then Inl ''supervised restart did not create a new unit generation''
      else
        res_bind identity (\<lambda>_.
        res_bind (ensure (bg_number (ri_previous i) < u64_max) ''restart generation capacity exceeded'') (\<lambda>_.
        res_bind (capture (bg_number (ri_previous i) + 1) ticks o') (\<lambda>target.
        res_bind (ensure (is_none_or (ri_target i) (\<lambda>x. x = target))
          ''concurrent replacement during supervised restart startup'') (\<lambda>_.
        res_bind gate (\<lambda>g.
        res_bind (case g of GatePending \<Rightarrow> Inr ()
                  | GateReady x \<Rightarrow> ensure (gs_activation x = sv_activation v \<and>
                      gs_invocation x = bg_invocation target \<and> gs_pid x = bg_pid target \<and>
                      gs_protocol x = ''rack-gate/v1'') ''restart gate/process identity mismatch'') (\<lambda>_.
          Inr (RestartTarget target g))))))))))"

definition targeted_media :: "backend_generation \<Rightarrow> media_state \<Rightarrow> media_state res" where
  "targeted_media g = edit_restart ''missing restart'' (\<lambda>i. i\<lparr>ri_target := Some g\<rparr>)"

definition restarted_media :: "nat \<Rightarrow> backend_generation \<Rightarrow> media_state \<Rightarrow> media_state res" where
  "restarted_media t g st =
     res_bind (edit_restart ''missing restart'' (\<lambda>i. i\<lparr>ri_phase := PhaseCompleted\<rparr>)
       (edit_service (\<lambda>v. v\<lparr>sv_invocation := Some (bg_invocation g), sv_generation := Some g\<rparr>) st)) (\<lambda>st.
     Inr (edit_service (\<lambda>v. v\<lparr>sv_state := SvcReady, sv_last_busy := t, sv_error := None\<rparr>) st))"

section \<open>The execution of image jobs\<close>

text \<open>\<open>max_by_key\<close> over the priority and the age: of equal keys the last.\<close>

definition before_job :: "job \<Rightarrow> job \<Rightarrow> bool" where
  "before_job a b \<longleftrightarrow> jr_priority (jb_request a) < jr_priority (jb_request b) \<or>
     jr_priority (jb_request a) = jr_priority (jb_request b) \<and> jb_created_at b \<le> jb_created_at a"

fun best_job :: "job option \<Rightarrow> job list \<Rightarrow> job option" where
  "best_job best [] = best"
| "best_job None (j # js) = best_job (Some j) js"
| "best_job (Some b) (j # js) = best_job (Some (if before_job b j then j else b)) js"

datatype execution_next = ExecuteNothing | ExecutePoll job | ExecuteDispatch job

definition execution_action :: "media_state \<Rightarrow> execution_next" where
  "execution_action st =
     (if sv_state (md_service st) \<noteq> SvcReady \<or> sv_mode (md_service st) \<noteq> ModeManaged then ExecuteNothing
      else
        (case List.find jb_cleanup_pending (md_jobs st) of
           Some j \<Rightarrow> ExecutePoll j
         | None \<Rightarrow>
             (case best_job None (filter (\<lambda>j. \<not> job_terminal (jb_state j)) (md_jobs st)) of
                None \<Rightarrow> ExecuteNothing
              | Some j \<Rightarrow> ExecuteDispatch j)))"

subsection \<open>Dispatch\<close>

definition checkpoint_failed :: "nat \<Rightarrow> string \<Rightarrow> string \<Rightarrow> media_state \<Rightarrow> media_state res" where
  "checkpoint_failed t k err = edit_job k (\<lambda>j.
     if \<not> job_terminal (jb_state j)
     then j\<lparr>jb_state := JobFailed, jb_error := Some err, jb_updated_at := t\<rparr> else j)"

definition dispatched_job :: "nat \<Rightarrow> string \<Rightarrow> job \<Rightarrow> job" where
  "dispatched_job t activation j = j\<lparr>jb_state := JobDispatching, jb_dispatched_at := Some t,
     jb_cleanup_pending := True, jb_activation := Some activation, jb_updated_at := t\<rparr>"

definition prepare_dispatch :: "nat \<Rightarrow> string \<Rightarrow> media_state \<Rightarrow> (job option \<times> media_state) res" where
  "prepare_dispatch t k st =
     res_bind (ok_or (List.find (\<lambda>j. jb_id j = k) (md_jobs st)) ''job missing'') (\<lambda>j.
     if jb_cancel_requested j \<or> job_terminal (jb_state j) then Inr (None, st)
     else if jb_deadline j < t
     then res_bind (edit_job k (\<lambda>j. j\<lparr>jb_state := JobFailed,
            jb_error := Some ''job deadline before dispatch''\<rparr>) st) (\<lambda>st. Inr (None, st))
     else
       (let a = sv_activation (md_service st) in
        res_bind (edit_job k (dispatched_job t a) st) (\<lambda>st.
          Inr (Some (dispatched_job t a j), edit_service (\<lambda>v. v\<lparr>sv_last_busy := t\<rparr>) st))))"

text \<open>The checks between the preparation and the submission.\<close>

definition dispatch_checks ::
  "(media_service \<Rightarrow> unit res) \<Rightarrow> nat \<Rightarrow> lease_store \<Rightarrow> media_service \<Rightarrow> unit res" where
  "dispatch_checks verify t ls v =
     res_bind (verify v) (\<lambda>_.
     case sv_lease v of
       None \<Rightarrow> Inr ()
     | Some h \<Rightarrow> res_bind (managed_verify t h True ls) (\<lambda>_. Inr ()))"

definition submitted_job :: "nat \<Rightarrow> unit res \<Rightarrow> job \<Rightarrow> job" where
  "submitted_job t result j =
     (let j = (if \<not> jb_cancel_requested j
               then j\<lparr>jb_state := (if is_ok result then JobRunning else JobSubmissionUncertain)\<rparr> else j) in
      j\<lparr>jb_error := (case result of Inl e \<Rightarrow> Some e | Inr _ \<Rightarrow> None), jb_updated_at := t\<rparr>)"

definition commit_dispatch :: "nat \<Rightarrow> string \<Rightarrow> unit res \<Rightarrow> media_state \<Rightarrow> media_state res" where
  "commit_dispatch t k result = edit_job k (submitted_job t result)"

text \<open>\<open>Backend::submit\<close>: an acknowledgement must name the prompt and carry no errors.\<close>

definition acknowledged :: "string \<Rightarrow> json \<Rightarrow> bool" where
  "acknowledged prompt reply \<longleftrightarrow>
     (case json_get reply ''prompt_id'' of Some (JString p) \<Rightarrow> p = prompt | _ \<Rightarrow> False) \<and>
     (case json_get reply ''node_errors'' of Some (JObject es) \<Rightarrow> es = [] | _ \<Rightarrow> False)"

definition queue_entry :: "string \<Rightarrow> json \<Rightarrow> bool" where
  "queue_entry prompt x \<longleftrightarrow>
     (case x of JArray (_ # JString p # _) \<Rightarrow> p = prompt | _ \<Rightarrow> False)"

definition queue_contains :: "json list \<Rightarrow> json list \<Rightarrow> string \<Rightarrow> bool" where
  "queue_contains running later prompt \<longleftrightarrow> list_ex (queue_entry prompt) (running @ later)"

subsection \<open>Polling\<close>

text \<open>\<open>queued\<close> is whether the queue contains the prompt, \<open>found\<close> the entry of the history, if any.\<close>

datatype poll_next = PollCancel | PollWait | PollCollect json | PollLost

definition poll_action :: "nat \<Rightarrow> job \<Rightarrow> bool res \<Rightarrow> json option res \<Rightarrow> media_state \<Rightarrow> poll_next res" where
  "poll_action t j queued found st =
     (if jb_activation j \<noteq> Some (sv_activation (md_service st)) then Inl ''job activation lost''
      else if jb_cancel_requested j \<or> jb_deadline j < t then Inr PollCancel
      else
        res_bind queued (\<lambda>q.
        res_bind found (\<lambda>h.
        case h of
          Some entry \<Rightarrow> Inr (if q then PollWait else PollCollect entry)
        | None \<Rightarrow> Inr (if q then PollWait else PollLost))))"

definition collected_job :: "nat \<Rightarrow> artifact list res \<Rightarrow> job \<Rightarrow> job" where
  "collected_job t result j =
     (let j = (if \<not> jb_cancel_requested j
               then (case result of
                       Inr a \<Rightarrow> j\<lparr>jb_artifacts := a, jb_state := JobCompleted, jb_error := None\<rparr>
                     | Inl e \<Rightarrow> j\<lparr>jb_state := JobFailed, jb_error := Some e\<rparr>)
               else j) in
      j\<lparr>jb_cleanup_pending := False, jb_updated_at := t\<rparr>)"

definition collect_media :: "nat \<Rightarrow> string \<Rightarrow> artifact list res \<Rightarrow> media_state \<Rightarrow> media_state res" where
  "collect_media t k result st =
     res_bind (edit_job k (collected_job t result) st) (\<lambda>st.
       Inr (edit_service (\<lambda>v. v\<lparr>sv_last_busy := t\<rparr>) st))"

definition interrupted_job :: "nat \<Rightarrow> job \<Rightarrow> job" where
  "interrupted_job t j =
     (let j = (if \<not> jb_cancel_requested j
               then j\<lparr>jb_state := JobInterrupted,
                  jb_error := Some ''submission outcome unknown; no redispatch permitted''\<rparr> else j) in
      j\<lparr>jb_cleanup_pending := False, jb_updated_at := t\<rparr>)"

definition lost_media :: "nat \<Rightarrow> string \<Rightarrow> media_state \<Rightarrow> media_state res" where
  "lost_media t k = edit_job k (interrupted_job t)"

text \<open>\<open>ImageCancellation\<close>: first the outcome, then the request to the backend, then the end of the cleanup
  once the prompt has left its queue.\<close>

definition overdue_job :: "nat \<Rightarrow> job \<Rightarrow> job" where
  "overdue_job t j =
     (let j = (if \<not> jb_cancel_requested j
               then j\<lparr>jb_state := JobFailed, jb_error := Some ''job deadline exceeded''\<rparr> else j) in
      j\<lparr>jb_updated_at := t\<rparr>)"

definition begin_cancellation :: "nat \<Rightarrow> string \<Rightarrow> media_state \<Rightarrow> media_state res" where
  "begin_cancellation t k = edit_job k (overdue_job t)"

definition end_cancellation :: "nat \<Rightarrow> string \<Rightarrow> media_state \<Rightarrow> media_state res" where
  "end_cancellation t k st =
     res_bind (edit_job k (\<lambda>j. j\<lparr>jb_cleanup_pending := False\<rparr>) st) (\<lambda>st.
       Inr (edit_service (\<lambda>v. v\<lparr>sv_last_busy := t\<rparr>) st))"

subsection \<open>The artifact\<close>

text \<open>\<open>collect\<close> up to the file: which file a history entry names. A component that is not a plain name is
  refused.\<close>

definition json_pointer :: "string list \<Rightarrow> json \<Rightarrow> json option" where
  "json_pointer ks v = fold (\<lambda>k v. case v of None \<Rightarrow> None | Some v \<Rightarrow> json_get v k) ks (Some v)"

definition plain_name :: "string \<Rightarrow> bool" where
  "plain_name s \<longleftrightarrow> length (path_components s) = 1 \<and> path_components s \<noteq> [''..''] \<and>
     \<not> starts_with s ''/'' \<and> \<not> starts_with s ''./''"

definition collect_entry :: "job \<Rightarrow> json \<Rightarrow> string res" where
  "collect_entry j terminal =
     res_bind (ok_or (Option.bind (json_get terminal ''prompt'') json_as_array) ''history lacks exact prompt'') (\<lambda>prompt.
     if (case prompt of _ # x # w # _ \<Rightarrow> x \<noteq> JString (jb_prompt_id j) \<or> w \<noteq> jb_workflow j | _ \<Rightarrow> True)
     then Inl ''history prompt identity/workflow mismatch''
     else
       res_bind (ok_or (json_get terminal ''status'') ''history lacks status'') (\<lambda>status.
       if json_get status ''status_str'' \<noteq> Some (JString ''success'') \<or>
          json_get status ''completed'' \<noteq> Some (JBool True)
       then Inl ''render did not succeed''
       else
         res_bind (ok_or (Option.bind (json_pointer [''outputs'', ''9'', ''images''] terminal) json_as_array)
           ''expected output node missing'') (\<lambda>images.
         case images of
           [img] \<Rightarrow>
             (case (Option.bind (json_get img ''filename'') json_as_str,
                    Option.bind (json_get img ''subfolder'') json_as_str,
                    Option.bind (json_get img ''type'') json_as_str) of
                (Some name, Some sub, Some kind) \<Rightarrow>
                  if kind \<noteq> ''output'' \<or> sub \<noteq> ''rack/'' @ jb_id j \<or> \<not> plain_name name
                  then Inl ''artifact namespace violation'' else Inr name
              | _ \<Rightarrow> Inl ''invalid image record'')
         | _ \<Rightarrow> Inl ''expected exactly one image'')))"

definition artifact_for :: "string \<Rightarrow> string \<Rightarrow> nat \<Rightarrow> nat \<times> nat \<Rightarrow> job \<Rightarrow> artifact list res" where
  "artifact_for k sha bytes dims j =
     (if fst dims \<noteq> ip_width (jr_parameters (jb_request j)) \<or> snd dims \<noteq> ip_height (jr_parameters (jb_request j))
      then Inl ''artifact dimensions mismatch''
      else Inr [\<lparr>ar_id = k, ar_filename = ''image.png'', ar_sha256 = sha, ar_bytes = bytes,
        ar_content_type = ''image/png'', ar_width = fst dims, ar_height = snd dims\<rparr>])"

end
