(* ===== verification/Media_System.thy ===== *)
theory Media_System
  imports Media_Receiver
begin

text \<open>
  The media service as a whole. The receiver's single thread runs one procedure at a time; between two of
  its transactions the HTTP interface may change the state, the unit may end, and the receiver may fail or
  crash. \<open>media_step\<close> interleaves all of them. The parameter \<open>shared\<close> says whether the shared runtime
  may activate the service as well; it does so without the lock of the receiver's tick.
\<close>

section \<open>The system\<close>

text \<open>Where the receiver stands, with what it remembers from the state it read.\<close>

datatype media_pc =
    Down
  | Idle
  | Begin media_mode
  | Reserve
  | Granted lease_handle
  | Start
  | Gone media_service
  | Unleased media_service
  | RecoverGone lease_handle
  | RecoverUnleased
  | Dispatch string
  | Prepared job
  | Answered string "unit res"
  | Poll job
  | Cancelling string
  | Targeted media_service backend_generation gate_observation bool

text \<open>Beside the durable state: the prompts the backend was given, whether the unit may be running, and the
  leases the authority holds for the service.\<close>

record media_system =
  my_state :: media_state
  my_pc :: media_pc
  my_posted :: "string list"
  my_running :: bool
  my_held :: "lease_handle set"

abbreviation my_service :: "media_system \<Rightarrow> media_service" where
  "my_service s \<equiv> md_service (my_state s)"

abbreviation my_jobs :: "media_system \<Rightarrow> job list" where
  "my_jobs s \<equiv> md_jobs (my_state s)"

definition go :: "media_pc \<Rightarrow> media_state \<Rightarrow> media_system \<Rightarrow> media_system" where
  "go pc st s = s\<lparr>my_state := st, my_pc := pc\<rparr>"

text \<open>The probes tell the truth: a unit reported gone does not run, and a lease that verifies is held.\<close>

definition true_gone :: "media_system \<Rightarrow> bool res \<Rightarrow> bool" where
  "true_gone s gone \<longleftrightarrow> (gone = Inr True \<longrightarrow> \<not> my_running s)"

definition true_lease :: "media_system \<Rightarrow> (lease_handle \<Rightarrow> unit res) \<Rightarrow> bool" where
  "true_lease s lease \<longleftrightarrow> (\<forall>h. lease h = Inr () \<longrightarrow> h \<in> my_held s)"

text \<open>\<open>identity\<close> draws a fresh UUID.\<close>

definition fresh_job :: "media_state \<Rightarrow> admission_env \<Rightarrow> bool" where
  "fresh_job st e \<longleftrightarrow> (\<forall>j \<in> set (md_jobs st). jb_id j \<noteq> ae_id e \<and> jb_prompt_id j \<noteq> ae_prompt_id e)"

inductive media_step :: "media_config \<Rightarrow> bool \<Rightarrow> media_system \<Rightarrow> media_system \<Rightarrow> bool" for c shared where
  submit: "admit_job e caller r (my_state s) = Inr (j, st) \<Longrightarrow> fresh_job (my_state s) e \<Longrightarrow>
    media_step c shared s (s\<lparr>my_state := st\<rparr>)"
| cancel: "cancel_job t k caller (my_state s) = Inr (j, st) \<Longrightarrow> media_step c shared s (s\<lparr>my_state := st\<rparr>)"
| open_session: "admit_session t k p sr (my_state s) = Inr (x, st) \<Longrightarrow>
    media_step c shared s (s\<lparr>my_state := st\<rparr>)"
| close_session: "my_pc s = Idle \<Longrightarrow> release_session t k caller (my_state s) = Inr (x, st) \<Longrightarrow>
    media_step c shared s (s\<lparr>my_state := st\<rparr>)"
| request_restart: "my_pc s = Idle \<Longrightarrow> restart_decision p (my_state s) = Inr None \<Longrightarrow>
    verify_service lease ob ticks gpu gate (my_service s) = Inr () \<Longrightarrow> true_lease s lease \<Longrightarrow>
    media_step c shared s (s\<lparr>my_state := restarting_media t k g (my_state s)\<rparr>)"
| pass: "my_pc s = Idle \<Longrightarrow> media_step c shared s (s\<lparr>my_state := receiver_pass t (my_state s)\<rparr>)"
| beat: "my_pc s = Idle \<Longrightarrow> media_step c shared s (s\<lparr>my_state := heartbeat t (my_state s)\<rparr>)"
| begin_foreign: "my_pc s = Idle \<Longrightarrow> tick_procedure (my_state s) = TickBegin \<Longrightarrow>
    begin_mode (my_state s) = Some m \<Longrightarrow>
    media_step c shared s (s\<lparr>my_state := waiting_media ''foreign process on media GPU'' (my_state s)\<rparr>)"
| activate: "my_pc s = Idle \<Longrightarrow> tick_procedure (my_state s) = TickBegin \<Longrightarrow>
    begin_mode (my_state s) = Some m \<Longrightarrow> \<not> my_running s \<Longrightarrow> media_step c shared s (s\<lparr>my_pc := Begin m\<rparr>)"
| reserve: "my_pc s = Begin m \<Longrightarrow>
    media_step c shared s (go Reserve (reserving_media t a m (my_state s)) s)"
| granted: "my_pc s = Reserve \<Longrightarrow>
    media_step c shared s (s\<lparr>my_pc := Granted h, my_held := insert h (my_held s)\<rparr>)"
| busy: "my_pc s = Reserve \<Longrightarrow>
    media_step c shared s (go Idle (waiting_media ''media resource reserved'' (my_state s)) s)"
| keep_lease: "my_pc s = Granted h \<Longrightarrow> media_step c shared s (go Start (leased_media h (my_state s)) s)"
| start: "my_pc s = Start \<Longrightarrow> media_step c shared s (s\<lparr>my_pc := Idle, my_running := True\<rparr>)"
| adopt: "my_pc s = Idle \<Longrightarrow> tick_procedure (my_state s) = TickStartup \<Longrightarrow>
    startup_adopts ob gate gpu ticks (my_service s) = Inr (Some a) \<Longrightarrow>
    media_step c shared s (s\<lparr>my_state := adopted_media a (my_state s)\<rparr>)"
| started: "my_pc s = Idle \<Longrightarrow> tick_procedure (my_state s) = TickStartup \<Longrightarrow>
    startup_action t c since verify authority gate (my_state s) = Inr act \<Longrightarrow>
    st = (case act of StartupReady \<Rightarrow> ready_media t (my_state s)
                    | StartupDrain \<Rightarrow> set_state t SvcDraining (my_state s)
                    | StartupStop \<Rightarrow> set_state t SvcStopping (my_state s)
                    | StartupWait \<Rightarrow> my_state s) \<Longrightarrow>
    media_step c shared s (s\<lparr>my_state := st\<rparr>)"
| idle_check: "my_pc s = Idle \<Longrightarrow> tick_procedure (my_state s) = TickReady \<Longrightarrow>
    idle_validate t (my_service s) ob = Inr ob' \<Longrightarrow> idle_manual t (my_service s) ob' (my_state s) = Inr (b, st) \<Longrightarrow>
    media_step c shared s (s\<lparr>my_state := st\<rparr>)"
| finished: "my_pc s = Idle \<Longrightarrow> tick_procedure (my_state s) = TickReady \<Longrightarrow>
    ready_finished t c managed_lease (my_state s) \<Longrightarrow>
    media_step c shared s (s\<lparr>my_state := set_state t SvcDraining (my_state s)\<rparr>)"
| drained: "my_pc s = Idle \<Longrightarrow> tick_procedure (my_state s) = TickDrain \<Longrightarrow>
    drain_action t c (verify_service lease ob ticks gpu gate) authority barrier queue (my_service s) = Inr True \<Longrightarrow>
    true_lease s lease \<Longrightarrow>
    media_step c shared s (s\<lparr>my_state := set_state t SvcStopping (my_state s)\<rparr>)"
| gone: "my_pc s = Idle \<Longrightarrow> tick_procedure (my_state s) = TickStopping \<Longrightarrow>
    stopping_action t c gone clear (my_service s) = Inr (Some h) \<Longrightarrow> true_gone s gone \<Longrightarrow>
    media_step c shared s (s\<lparr>my_pc := Gone (my_service s)\<rparr>)"
| unlease: "my_pc s = Gone v \<Longrightarrow> sv_lease v = Some h \<Longrightarrow>
    media_step c shared s (s\<lparr>my_pc := Unleased v, my_held := my_held s - {h}\<rparr>)"
| stopped: "my_pc s = Unleased v \<Longrightarrow> media_step c shared s (go Idle (stopped_media v (my_state s)) s)"
| restart_drained: "my_pc s = Idle \<Longrightarrow> tick_procedure (my_state s) = TickRestart \<Longrightarrow>
    restart_guard lease authority (my_service s) = Inr i \<Longrightarrow> ri_phase i = PhaseDraining \<Longrightarrow>
    restart_drain t c verify barrier queue (my_service s) = Inr True \<Longrightarrow>
    set_phase t PhaseStopping (my_state s) = Inr st \<Longrightarrow> media_step c shared s (s\<lparr>my_state := st\<rparr>)"
| restart_cleared: "my_pc s = Idle \<Longrightarrow> tick_procedure (my_state s) = TickRestart \<Longrightarrow>
    restart_guard lease authority (my_service s) = Inr i \<Longrightarrow> ri_phase i \<in> {PhaseStopping, PhaseFinishing} \<Longrightarrow>
    restart_stop_observe t c identity gone clear (my_state s) = Inr RestartCleared \<Longrightarrow>
    set_phase t PhaseStartPending (my_state s) = Inr st \<Longrightarrow> media_step c shared s (s\<lparr>my_state := st\<rparr>)"
| restart_gone: "my_pc s = Idle \<Longrightarrow> tick_procedure (my_state s) = TickRestart \<Longrightarrow>
    restart_guard lease authority (my_service s) = Inr i \<Longrightarrow>
    restart_stop_observe t c identity g clear (my_state s) = Inr RestartStopped \<or>
    restart_start_pending g clear unit_file placement (finishing t c (my_state s)) = Inr False \<or>
    restart_start_observe t c ob g clear rid ticks gate (my_state s) = Inr RestartGaveUp \<Longrightarrow>
    stopping_action t c gone clear (my_service s) = Inr (Some h) \<Longrightarrow> true_gone s gone \<Longrightarrow>
    media_step c shared s (s\<lparr>my_pc := Gone (my_service s)\<rparr>)"
| restart_start: "my_pc s = Idle \<Longrightarrow> tick_procedure (my_state s) = TickRestart \<Longrightarrow>
    restart_guard lease authority (my_service s) = Inr i \<Longrightarrow> true_lease s lease \<Longrightarrow>
    ri_phase i = PhaseStartPending \<Longrightarrow>
    restart_start_pending gone clear unit_file placement (finishing t c (my_state s)) = Inr True \<Longrightarrow>
    set_phase t PhaseStarting (my_state s) = Inr st \<Longrightarrow> media_step c shared s (go Start st s)"
| restart_cancelled: "my_pc s = Idle \<Longrightarrow> tick_procedure (my_state s) = TickRestart \<Longrightarrow>
    restart_guard lease authority (my_service s) = Inr i \<Longrightarrow> ri_phase i = PhaseStarting \<Longrightarrow>
    restart_start_observe t c ob gone clear rid ticks gate (my_state s) = Inr RestartCancelStart \<Longrightarrow>
    set_phase t PhaseFinishing (my_state s) = Inr st \<Longrightarrow> media_step c shared s (s\<lparr>my_state := st\<rparr>)"
| restart_target: "my_pc s = Idle \<Longrightarrow> tick_procedure (my_state s) = TickRestart \<Longrightarrow>
    restart_guard lease authority (my_service s) = Inr i \<Longrightarrow> ri_phase i = PhaseStarting \<Longrightarrow>
    restart_start_observe t c ob gone clear rid ticks gate (my_state s) = Inr (RestartTarget target seen) \<Longrightarrow>
    targeted_media target (my_state s) = Inr st \<Longrightarrow>
    media_step c shared s
      (go (Targeted (my_service s) target seen (finishing t c (my_state s))) st s)"
| restart_finish: "my_pc s = Targeted v target seen True \<Longrightarrow> set_phase t PhaseFinishing (my_state s) = Inr st \<Longrightarrow>
    media_step c shared s (go Idle st s)"
| restart_wait: "my_pc s = Targeted v target GatePending False \<Longrightarrow> media_step c shared s (s\<lparr>my_pc := Idle\<rparr>)"
| restarted: "my_pc s = Targeted v target (GateReady g) False \<Longrightarrow>
    verify_service lease ob ticks gpu gate
      (v\<lparr>sv_invocation := Some (bg_invocation target), sv_generation := Some target\<rparr>) = Inr () \<Longrightarrow>
    true_lease s lease \<Longrightarrow> restarted_media t target (my_state s) = Inr st \<Longrightarrow>
    media_step c shared s (go Idle st s)"
| select: "my_pc s = Idle \<Longrightarrow> execution_action (my_state s) = ExecuteDispatch j \<Longrightarrow>
    media_step c shared s (s\<lparr>my_pc := Dispatch (jb_id j)\<rparr>)"
| no_checkpoint: "my_pc s = Dispatch k \<Longrightarrow> checkpoint_failed t k err (my_state s) = Inr st \<Longrightarrow>
    media_step c shared s (go Idle st s)"
| prepare_none: "my_pc s = Dispatch k \<Longrightarrow> prepare_dispatch t k (my_state s) = Inr (None, st) \<Longrightarrow>
    media_step c shared s (go Idle st s)"
| prepare: "my_pc s = Dispatch k \<Longrightarrow> prepare_dispatch t k (my_state s) = Inr (Some j, st) \<Longrightarrow>
    media_step c shared s (go (Prepared j) st s)"
| post: "my_pc s = Prepared j \<Longrightarrow> dispatch_checks verify t ls (my_service s) = Inr () \<Longrightarrow>
    media_step c shared s (s\<lparr>my_pc := Answered (jb_id j) result, my_posted := my_posted s @ [jb_prompt_id j]\<rparr>)"
| answered: "my_pc s = Answered k result \<Longrightarrow> commit_dispatch t k result (my_state s) = Inr st \<Longrightarrow>
    media_step c shared s (go Idle st s)"
| poll: "my_pc s = Idle \<Longrightarrow> execution_action (my_state s) = ExecutePoll j \<Longrightarrow>
    media_step c shared s (s\<lparr>my_pc := Poll j\<rparr>)"
| poll_wait: "my_pc s = Poll j \<Longrightarrow> poll_action t j queued found st0 = Inr PollWait \<Longrightarrow>
    media_step c shared s (s\<lparr>my_pc := Idle\<rparr>)"
| poll_cancel: "my_pc s = Poll j \<Longrightarrow> poll_action t j queued found st0 = Inr PollCancel \<Longrightarrow>
    begin_cancellation t (jb_id j) (my_state s) = Inr st \<Longrightarrow>
    media_step c shared s (go (Cancelling (jb_id j)) st s)"
| poll_collect: "my_pc s = Poll j \<Longrightarrow> poll_action t j queued found st0 = Inr (PollCollect entry) \<Longrightarrow>
    result = res_bind (collect_entry j entry) (\<lambda>name.
      res_bind png (\<lambda>dims. artifact_for k sha bytes dims j)) \<Longrightarrow>
    collect_media t (jb_id j) result (my_state s) = Inr st \<Longrightarrow> media_step c shared s (go Idle st s)"
| poll_lost: "my_pc s = Poll j \<Longrightarrow> poll_action t j queued found st0 = Inr PollLost \<Longrightarrow>
    lost_media t (jb_id j) (my_state s) = Inr st \<Longrightarrow> media_step c shared s (go Idle st s)"
| cancelled: "my_pc s = Cancelling k \<Longrightarrow> end_cancellation t k (my_state s) = Inr st \<Longrightarrow>
    media_step c shared s (go Idle st s)"
| cancel_wait: "my_pc s = Cancelling k \<Longrightarrow> media_step c shared s (s\<lparr>my_pc := Idle\<rparr>)"
| fail: "my_pc s \<noteq> Down \<Longrightarrow> media_step c shared s (go Idle (quarantine_media t err (my_state s)) s)"
| crash: "media_step c shared s (s\<lparr>my_pc := Down\<rparr>)"
| recover_on: "my_pc s = Down \<Longrightarrow>
    recover_action gone clear lease verify authority (my_state s) = Inr RecoveryNothing \<Longrightarrow>
    true_gone s gone \<Longrightarrow> media_step c shared s (s\<lparr>my_pc := Idle\<rparr>)"
| recover_quarantine: "my_pc s = Down \<Longrightarrow>
    recover_action gone clear lease verify authority (my_state s) \<in> {Inl err, Inr (RecoveryQuarantine err)} \<Longrightarrow>
    media_step c shared s (go Idle (quarantine_media t err (my_state s)) s)"
| recover_gone: "my_pc s = Down \<Longrightarrow>
    recover_action gone clear lease verify authority (my_state s) = Inr (RecoveryRelease h) \<Longrightarrow>
    true_gone s gone \<Longrightarrow> media_step c shared s (s\<lparr>my_pc := RecoverGone h\<rparr>)"
| recover_unlease: "my_pc s = RecoverGone h \<Longrightarrow>
    media_step c shared s (s\<lparr>my_pc := RecoverUnleased, my_held := my_held s - {h}\<rparr>)"
| recovered: "my_pc s = RecoverUnleased \<Longrightarrow>
    media_step c shared s (go Idle (recovered_media (my_state s)) s)"
| unit_exit: "media_step c shared s (s\<lparr>my_running := False\<rparr>)"
| shared_grant: "shared \<Longrightarrow> shared_handle_ok t ls (sh_handle sr) = Inr () \<Longrightarrow> \<not> my_running s \<Longrightarrow>
    shared_begin t k sr (my_state s) = Inr ((), st) \<Longrightarrow>
    media_step c shared s (s\<lparr>my_state := st, my_held := insert (sh_handle sr) (my_held s)\<rparr>)"
| shared_start: "shared \<Longrightarrow> sv_state (my_service s) = SvcStarting \<Longrightarrow>
    media_step c shared s (s\<lparr>my_running := True\<rparr>)"

inductive media_reachable :: "media_config \<Rightarrow> bool \<Rightarrow> media_system \<Rightarrow> bool" for c shared where
  init: "media_reachable c shared \<lparr>my_state = default_media, my_pc = Down, my_posted = [],
    my_running = False, my_held = {}\<rparr>"
| step: "media_reachable c shared s \<Longrightarrow> media_step c shared s s' \<Longrightarrow> media_reachable c shared s'"

section \<open>Jobs\<close>

definition job_ok :: "job \<Rightarrow> bool" where
  "job_ok j \<longleftrightarrow> (jb_cancel_requested j \<longrightarrow> jb_state j = JobCancelled) \<and>
     (jb_cleanup_pending j \<longrightarrow> jb_dispatched_at j \<noteq> None) \<and>
     (jb_dispatched_at j \<noteq> None \<longrightarrow> jb_cleanup_pending j \<or> job_terminal (jb_state j)) \<and>
     (jb_state j = JobCompleted \<longrightarrow> \<not> jb_cleanup_pending j) \<and>
     (jb_artifacts j \<noteq> [] \<longrightarrow> jb_state j = JobCompleted)"

definition jobs_ok :: "job list \<Rightarrow> bool" where
  "jobs_ok js \<longleftrightarrow> distinct (map jb_id js) \<and> distinct (map jb_prompt_id js) \<and> (\<forall>j \<in> set js. job_ok j) \<and>
     (\<forall>i \<in> set js. \<forall>j \<in> set js. jb_cleanup_pending i \<longrightarrow> jb_cleanup_pending j \<longrightarrow> i = j)"

text \<open>How a job may change, and how it changes outside its dispatch.\<close>

definition job_next :: "job \<Rightarrow> job \<Rightarrow> bool" where
  "job_next j j' \<longleftrightarrow> jb_id j' = jb_id j \<and> jb_prompt_id j' = jb_prompt_id j \<and> job_ok j' \<and>
     jb_request j' = jb_request j \<and> jb_created_at j' = jb_created_at j \<and> jb_deadline j' = jb_deadline j \<and>
     (jb_dispatched_at j \<noteq> None \<longrightarrow> jb_dispatched_at j' \<noteq> None) \<and>
     (job_terminal (jb_state j) \<longrightarrow> job_terminal (jb_state j')) \<and>
     (jb_cancel_requested j \<longrightarrow> jb_cancel_requested j') \<and>
     (jb_state j = JobCompleted \<longrightarrow> j' = j)"

definition job_quiet :: "job \<Rightarrow> job \<Rightarrow> bool" where
  "job_quiet j j' \<longleftrightarrow> job_next j j' \<and> (jb_cleanup_pending j' \<longrightarrow> jb_cleanup_pending j)"

lemmas job_defs = job_ok_def job_next_def job_quiet_def

lemma terminal_simps [simp]:
  "job_terminal JobCompleted" "job_terminal JobFailed" "job_terminal JobCancelled"
  "job_terminal JobInterrupted" "\<not> job_terminal JobWaiting" "\<not> job_terminal JobStarting"
  "\<not> job_terminal JobDispatching" "\<not> job_terminal JobRunning" "\<not> job_terminal JobSubmissionUncertain"
  by (simp_all add: job_terminal_def)

lemma job_quiet_refl: "job_ok j \<Longrightarrow> job_quiet j j"
  by (simp add: job_defs)

lemma job_quiet_pass: "job_ok j \<Longrightarrow> job_quiet j (pass_job t v j)"
  by (auto simp: job_defs pass_job_def Let_def)

lemma job_quiet_quarantined: "job_ok j \<Longrightarrow> job_quiet j (quarantined_job t j)"
  by (auto simp: job_defs quarantined_job_def)

lemma job_quiet_lost: "job_ok j \<Longrightarrow> job_quiet j (lost_job r j)"
  by (auto simp: job_defs lost_job_def Let_def)

lemma job_quiet_expired:
  assumes "job_ok j" and "\<not> jb_cancel_requested j" and "\<not> job_terminal (jb_state j)"
  shows "job_quiet j (j\<lparr>jb_state := JobFailed, jb_error := m\<rparr>)"
proof -
  let ?j = "j\<lparr>jb_state := JobFailed, jb_error := m\<rparr>"
  have ne: "jb_state j \<noteq> JobCompleted" using assms(3) by (cases "jb_state j") simp_all
  then have "jb_state j = JobCompleted \<longrightarrow> ?j = j" by (rule impI[OF notE])
  moreover have "job_ok ?j" using assms ne by (simp add: job_ok_def)
  ultimately show ?thesis
    using assms(2,3) unfolding job_quiet_def job_next_def by (intro conjI) simp_all
qed

lemma job_quiet_cancelled: "job_ok j \<Longrightarrow> jb_state j \<noteq> JobCompleted \<Longrightarrow> job_quiet j (cancelled_job t j)"
  by (auto simp: job_defs cancelled_job_def)

lemma job_quiet_submitted:
  "job_ok j \<Longrightarrow> jb_cleanup_pending j \<Longrightarrow> jb_state j = JobDispatching \<or> jb_cancel_requested j \<Longrightarrow>
     job_quiet j (submitted_job t r j)"
  by (auto simp: job_defs submitted_job_def Let_def)

lemma job_quiet_collected: "job_ok j \<Longrightarrow> jb_cleanup_pending j \<Longrightarrow> job_quiet j (collected_job t r j)"
  by (cases r) (auto simp: job_defs collected_job_def Let_def)

lemma job_quiet_interrupted: "job_ok j \<Longrightarrow> jb_cleanup_pending j \<Longrightarrow> job_quiet j (interrupted_job t j)"
  by (auto simp: job_defs interrupted_job_def Let_def)

lemma job_quiet_overdue: "job_ok j \<Longrightarrow> jb_cleanup_pending j \<Longrightarrow> job_quiet j (overdue_job t j)"
  by (auto simp: job_defs overdue_job_def Let_def)

lemma job_next_dispatched:
  "job_ok j \<Longrightarrow> \<not> jb_cancel_requested j \<Longrightarrow> \<not> job_terminal (jb_state j) \<Longrightarrow> job_next j (dispatched_job t a j)"
  by (auto simp: job_ok_def job_next_def dispatched_job_def)

lemma jobs_ok_map:
  assumes "jobs_ok js" and "\<forall>j \<in> set js. job_quiet j (g j)"
  shows "jobs_ok (map g js)"
proof -
  have ids: "map jb_id (map g js) = map jb_id js" "map jb_prompt_id (map g js) = map jb_prompt_id js"
    using assms(2) by (auto simp: job_defs)
  show ?thesis
    using assms unfolding jobs_ok_def ids by (auto simp: job_quiet_def job_next_def)
qed

lemma jobs_ok_id: "jobs_ok js \<Longrightarrow> i \<in> set js \<Longrightarrow> j \<in> set js \<Longrightarrow> jb_id i = jb_id j \<Longrightarrow> i = j"
  by (auto simp: jobs_ok_def distinct_map inj_on_def)

lemma upd_first_map:
  assumes "upd_first p f xs = Some ys" and "\<And>x y. x \<in> set xs \<Longrightarrow> y \<in> set xs \<Longrightarrow> p x \<Longrightarrow> p y \<Longrightarrow> x = y"
    and "distinct xs"
  shows "ys = map (\<lambda>x. if p x then f x else x) xs \<and> (\<exists>x \<in> set xs. p x)"
  using assms
proof (induction xs arbitrary: ys)
  case Nil
  then show ?case by simp
next
  case (Cons x xs)
  show ?case
  proof (cases "p x")
    case True
    then have "\<forall>y \<in> set xs. \<not> p y" using Cons.prems(2)[of x] Cons.prems(3) by auto
    then have "map (\<lambda>x. if p x then f x else x) xs = xs" by (induction xs) auto
    then show ?thesis using Cons.prems(1) True by auto
  next
    case False
    then obtain zs where "upd_first p f xs = Some zs" "ys = x # zs" using Cons.prems(1) by auto
    then show ?thesis using Cons.IH[of zs] Cons.prems(2,3) False by auto
  qed
qed

lemma jobs_ok_distinct: "jobs_ok js \<Longrightarrow> distinct js"
  by (auto simp: jobs_ok_def distinct_map)

text \<open>An edit of the job \<open>k\<close> is a map over the jobs.\<close>

definition at_job :: "string \<Rightarrow> (job \<Rightarrow> job) \<Rightarrow> job \<Rightarrow> job" where
  "at_job k f j = (if jb_id j = k then f j else j)"

lemma edit_job_map:
  assumes "edit_job k f st = Inr st'" and "jobs_ok (md_jobs st)"
  shows "st' = st\<lparr>md_jobs := map (at_job k f) (md_jobs st)\<rparr> \<and> (\<exists>j \<in> set (md_jobs st). jb_id j = k)"
proof -
  obtain js where js: "upd_first (\<lambda>j. jb_id j = k) f (md_jobs st) = Some js" "st' = st\<lparr>md_jobs := js\<rparr>"
    using assms(1) by (auto simp: edit_job_def res_simps)
  have "js = map (\<lambda>j. if jb_id j = k then f j else j) (md_jobs st) \<and> (\<exists>j \<in> set (md_jobs st). jb_id j = k)"
    by (rule upd_first_map[OF js(1)]) (auto intro: jobs_ok_id[OF assms(2)] jobs_ok_distinct[OF assms(2)])
  moreover have "(\<lambda>j. if jb_id j = k then f j else j) = at_job k f" by (auto simp: at_job_def)
  ultimately show ?thesis using js(2) by simp
qed

lemma cancel_job_map:
  assumes "cancel_job t k caller st = Inr (j, st')" and "jobs_ok (md_jobs st)"
  obtains i where "i \<in> set (md_jobs st)" "jb_id i = k" "jb_state i \<noteq> JobCompleted"
    "st' = st\<lparr>md_jobs := map (at_job k (cancelled_job t)) (md_jobs st)\<rparr>"
proof -
  obtain i js where i: "List.find (owned_job k caller) (md_jobs st) = Some i" "jb_state i \<noteq> JobCompleted"
    and js: "upd_first (owned_job k caller) (cancelled_job t) (md_jobs st) = Some js" "st' = st\<lparr>md_jobs := js\<rparr>"
    using assms(1) by (auto simp: cancel_job_def res_simps split: if_splits)
  have mem: "i \<in> set (md_jobs st)" "owned_job k caller i" using find_Some_mem[OF i(1)] by auto
  have one: "x = y" if "x \<in> set (md_jobs st)" "y \<in> set (md_jobs st)" "owned_job k caller x" "owned_job k caller y" for x y
    by (rule jobs_ok_id[OF assms(2) that(1,2)]) (use that(3,4) in \<open>simp add: owned_job_def\<close>)
  have "js = map (\<lambda>j. if owned_job k caller j then cancelled_job t j else j) (md_jobs st)"
    by (rule conjunct1[OF upd_first_map[OF js(1) one jobs_ok_distinct[OF assms(2)]]])
  also have "\<dots> = map (at_job k (cancelled_job t)) (md_jobs st)"
  proof (rule map_cong[OF refl])
    fix x assume x: "x \<in> set (md_jobs st)"
    have k: "jb_id i = k" using mem(2) by (simp add: owned_job_def)
    have "jb_id x = k \<Longrightarrow> x = i"
      by (rule jobs_ok_id[OF assms(2) x mem(1)]) (simp add: k)
    then show "(if owned_job k caller x then cancelled_job t x else x) = at_job k (cancelled_job t) x"
      using mem(2) by (auto simp: at_job_def owned_job_def)
  qed
  finally have js': "js = map (at_job k (cancelled_job t)) (md_jobs st)" .
  have "jb_id i = k" using mem(2) by (simp add: owned_job_def)
  from that[OF mem(1) this i(2) js(2)[unfolded js']] show thesis .
qed

text \<open>The changes that leave the jobs alone.\<close>

lemma service_jobs [simp]:
  "md_jobs (edit_service f st) = md_jobs st" "md_jobs (heartbeat t st) = md_jobs st"
  "md_jobs (waiting_media r st) = md_jobs st" "md_jobs (reserving_media t a m st) = md_jobs st"
  "md_jobs (leased_media h st) = md_jobs st" "md_jobs (adopted_media x st) = md_jobs st"
  "md_jobs (ready_media t st) = md_jobs st" "md_jobs (set_state t n st) = md_jobs st"
  "md_jobs (restarting_media t k g st) = md_jobs st"
  by (simp_all add: edit_service_def heartbeat_def waiting_media_def reserving_media_def leased_media_def
      adopted_media_def ready_media_def set_state_def restarting_media_def Let_def)

lemma edit_restart_jobs: "edit_restart m f st = Inr st' \<Longrightarrow> md_jobs st' = md_jobs st"
  by (auto simp: edit_restart_def res_simps)

lemma set_phase_jobs: "set_phase t p st = Inr st' \<Longrightarrow> md_jobs st' = md_jobs st"
  by (simp add: set_phase_def edit_restart_jobs)

lemma targeted_jobs: "targeted_media g st = Inr st' \<Longrightarrow> md_jobs st' = md_jobs st"
  by (simp add: targeted_media_def edit_restart_jobs)

lemma restarted_jobs: "restarted_media t g st = Inr st' \<Longrightarrow> md_jobs st' = md_jobs st"
  by (auto simp: restarted_media_def res_simps dest!: edit_restart_jobs)

lemma admit_session_jobs: "admit_session t k p r st = Inr (x, st') \<Longrightarrow> md_jobs st' = md_jobs st"
  by (auto simp: admit_session_def Let_def split: if_splits option.splits)

lemma release_session_jobs: "release_session t k p st = Inr (x, st') \<Longrightarrow> md_jobs st' = md_jobs st"
  by (auto simp: release_session_def Let_def res_simps split: if_splits)

lemma idle_manual_jobs: "idle_manual t v ob st = Inr (b, st') \<Longrightarrow> md_jobs st' = md_jobs st"
  by (auto simp: idle_manual_def Let_def edit_service_def split: if_splits)

lemma shared_begin_jobs: "shared_begin t k r st = Inr (u, st') \<Longrightarrow> md_jobs st' = md_jobs st"
  by (auto simp: shared_begin_def Let_def split: if_splits)

lemmas same_jobs = set_phase_jobs targeted_jobs restarted_jobs admit_session_jobs release_session_jobs
  idle_manual_jobs shared_begin_jobs

section \<open>The invariant of the jobs\<close>

text \<open>What the receiver's place in a procedure says of the jobs.\<close>

definition pending_at :: "string \<Rightarrow> job list \<Rightarrow> bool" where
  "pending_at k js \<longleftrightarrow> (\<exists>j \<in> set js. jb_id j = k \<and> jb_cleanup_pending j)"

definition sending_at :: "string \<Rightarrow> job list \<Rightarrow> bool" where
  "sending_at k js \<longleftrightarrow> (\<exists>j \<in> set js. jb_id j = k \<and> jb_cleanup_pending j \<and>
     (jb_state j = JobDispatching \<or> jb_cancel_requested j))"

definition closing_at :: "string \<Rightarrow> job list \<Rightarrow> bool" where
  "closing_at k js \<longleftrightarrow> (\<exists>j \<in> set js. jb_id j = k \<and> jb_cleanup_pending j \<and> job_terminal (jb_state j))"

definition prompt_at :: "string \<Rightarrow> string \<Rightarrow> job list \<Rightarrow> bool" where
  "prompt_at k p js \<longleftrightarrow> (\<exists>j \<in> set js. jb_id j = k \<and> jb_prompt_id j = p)"

fun pc_jobs :: "media_pc \<Rightarrow> job list \<Rightarrow> string list \<Rightarrow> bool" where
  "pc_jobs (Dispatch k) js posted = (\<forall>j \<in> set js. \<not> jb_cleanup_pending j)"
| "pc_jobs (Prepared j) js posted = (sending_at (jb_id j) js \<and> jb_prompt_id j \<notin> set posted \<and>
     prompt_at (jb_id j) (jb_prompt_id j) js)"
| "pc_jobs (Answered k r) js posted = sending_at k js"
| "pc_jobs (Poll j) js posted = pending_at (jb_id j) js"
| "pc_jobs (Cancelling k) js posted = closing_at k js"
| "pc_jobs pc js posted = True"

definition posted_ok :: "job list \<Rightarrow> string list \<Rightarrow> bool" where
  "posted_ok js posted \<longleftrightarrow> distinct posted \<and>
     (\<forall>p \<in> set posted. \<exists>j \<in> set js. jb_prompt_id j = p \<and> jb_dispatched_at j \<noteq> None)"

definition jobs_inv :: "media_system \<Rightarrow> bool" where
  "jobs_inv s \<longleftrightarrow> jobs_ok (my_jobs s) \<and> posted_ok (my_jobs s) (my_posted s) \<and>
     pc_jobs (my_pc s) (my_jobs s) (my_posted s)"

lemma posted_ok_map:
  assumes "posted_ok js posted" and "\<forall>j \<in> set js. job_quiet j (g j)"
  shows "posted_ok (map g js) posted"
  using assms by (fastforce simp: posted_ok_def job_quiet_def job_next_def)

lemma at_cancelled_sel [simp]:
  "jb_id (at_job i (cancelled_job t) j) = jb_id j"
  "jb_prompt_id (at_job i (cancelled_job t) j) = jb_prompt_id j"
  "jb_cleanup_pending (at_job i (cancelled_job t) j) = jb_cleanup_pending j"
  "jb_cancel_requested j \<Longrightarrow> jb_cancel_requested (at_job i (cancelled_job t) j)"
  "job_terminal (jb_state j) \<Longrightarrow> job_terminal (jb_state (at_job i (cancelled_job t) j))"
  by (auto simp: at_job_def cancelled_job_def)

lemma cancelled_at:
  "sending_at k js \<Longrightarrow> sending_at k (map (at_job i (cancelled_job t)) js)"
  "pending_at k js \<Longrightarrow> pending_at k (map (at_job i (cancelled_job t)) js)"
  "prompt_at k p js \<Longrightarrow> prompt_at k p (map (at_job i (cancelled_job t)) js)"
  "closing_at k js \<Longrightarrow> closing_at k (map (at_job i (cancelled_job t)) js)"
proof -
  assume "sending_at k js"
  then obtain j where j: "j \<in> set js" "jb_id j = k" "jb_cleanup_pending j"
    "jb_state j = JobDispatching \<or> jb_cancel_requested j"
    by (auto simp: sending_at_def)
  then have "jb_state (at_job i (cancelled_job t) j) = JobDispatching \<or>
      jb_cancel_requested (at_job i (cancelled_job t) j)" by (auto simp: at_job_def cancelled_job_def)
  then show "sending_at k (map (at_job i (cancelled_job t)) js)"
    unfolding sending_at_def using j(1-3) by (intro bexI[OF _ imageI[OF j(1), unfolded set_map[symmetric]]]) simp
qed (auto simp: pending_at_def prompt_at_def closing_at_def)

lemma pc_jobs_cancelled:
  assumes "pc_jobs pc js posted" shows "pc_jobs pc (map (at_job i (cancelled_job t)) js) posted"
  using assms by (cases pc) (auto simp: cancelled_at)

lemma grown_at:
  "sending_at k js \<Longrightarrow> sending_at k (js @ [j])" "pending_at k js \<Longrightarrow> pending_at k (js @ [j])"
  "prompt_at k p js \<Longrightarrow> prompt_at k p (js @ [j])" "closing_at k js \<Longrightarrow> closing_at k (js @ [j])"
  by (auto simp: sending_at_def pending_at_def prompt_at_def closing_at_def)

lemma pc_jobs_grown:
  assumes "pc_jobs pc js posted" and "\<not> jb_cleanup_pending j" shows "pc_jobs pc (js @ [j]) posted"
  using assms by (cases pc) (auto simp: grown_at)

text \<open>What the admission establishes of a job's request.\<close>

definition job_valid :: "job \<Rightarrow> bool" where
  "job_valid j \<longleftrightarrow> jr_schema (jb_request j) = MEDIA_VERSION \<and> valid_parameters (jr_parameters (jb_request j)) \<and>
     10 \<le> jr_timeout_seconds (jb_request j) \<and> jr_timeout_seconds (jb_request j) \<le> 900 \<and>
     jb_deadline j = jb_created_at j + jr_timeout_seconds (jb_request j)"

lemma new_job_valid: "validate_job (ae_profile e) r = Inr () \<Longrightarrow> job_valid (new_job e caller r w hash)"
  by (auto simp: job_valid_def validate_job_def new_job_def split: if_splits)

text \<open>One step of the jobs: each goes on as \<open>job_next\<close> allows, and one may join them within the limits.\<close>

definition evolves :: "media_state \<Rightarrow> job list \<Rightarrow> bool" where
  "evolves st js' \<longleftrightarrow> (\<exists>g. js' = map g (md_jobs st) \<and> (\<forall>j \<in> set (md_jobs st). job_next j (g j))) \<or>
     (\<exists>j. js' = md_jobs st @ [j] \<and> job_valid j \<and> active_jobs st < ACTIVE_JOBS \<and> length (md_jobs st) < RETAINED_RECORDS)"

definition jobs_step :: "media_system \<Rightarrow> media_system \<Rightarrow> bool" where
  "jobs_step s s' \<longleftrightarrow> jobs_inv s' \<and> evolves (my_state s) (my_jobs s')"

lemma evolves_refl: "jobs_ok (md_jobs st) \<Longrightarrow> evolves st (md_jobs st)"
  unfolding evolves_def by (intro disjI1 exI[of _ id]) (use job_quiet_refl in \<open>auto simp: jobs_ok_def job_quiet_def\<close>)

lemma jobs_step_same: "jobs_inv s \<Longrightarrow> jobs_inv s' \<Longrightarrow> my_jobs s' = my_jobs s \<Longrightarrow> jobs_step s s'"
  using evolves_refl[of "my_state s"] by (simp add: jobs_step_def jobs_inv_def)

lemma jobs_step_quiet:
  assumes "jobs_inv s" and "\<forall>j \<in> set (my_jobs s). job_quiet j (g j)"
    and "md_jobs st = map g (my_jobs s)" and "pc_jobs pc (map g (my_jobs s)) (my_posted s)"
  shows "jobs_step s (go pc st s)"
proof -
  have "evolves (my_state s) (md_jobs st)"
    unfolding evolves_def assms(3) using assms(2) by (intro disjI1 exI[of _ g]) (simp add: job_quiet_def)
  then show ?thesis
    using assms jobs_ok_map posted_ok_map by (simp add: jobs_step_def jobs_inv_def go_def)
qed

lemma jobs_inv_same:
  assumes "jobs_inv s" and "md_jobs (my_state s') = my_jobs s" and "my_posted s' = my_posted s"
    and "pc_jobs (my_pc s') (my_jobs s) (my_posted s)"
  shows "jobs_step s s'"
  by (rule jobs_step_same[OF assms(1) _ assms(2)]) (use assms in \<open>simp add: jobs_inv_def\<close>)

lemma jobs_inv_sel:
  assumes "jobs_inv s"
  shows "jobs_ok (my_jobs s)" "posted_ok (my_jobs s) (my_posted s)"
    "pc_jobs (my_pc s) (my_jobs s) (my_posted s)"
  using assms by (auto simp: jobs_inv_def)

text \<open>An edit of one job that is a quiet change of it.\<close>

lemma jobs_step_edit:
  assumes inv: "jobs_inv s" and e: "edit_job k f (my_state s) = Inr st"
    and q: "\<And>j. j \<in> set (my_jobs s) \<Longrightarrow> jb_id j = k \<Longrightarrow> job_quiet j (f j)"
    and pc: "pc_jobs pc (map (at_job k f) (my_jobs s)) (my_posted s)" and same: "md_jobs st' = md_jobs st"
  shows "jobs_step s (go pc st' s)"
proof -
  have ok: "job_ok j" if "j \<in> set (my_jobs s)" for j
    using jobs_inv_sel(1)[OF inv] that by (simp add: jobs_ok_def)
  have st: "md_jobs st' = map (at_job k f) (my_jobs s)"
    using edit_job_map[OF e jobs_inv_sel(1)[OF inv]] same by simp
  have "\<forall>j \<in> set (my_jobs s). job_quiet j (at_job k f j)"
    using q job_quiet_refl[OF ok] by (simp add: at_job_def)
  from jobs_step_quiet[OF inv this st pc] show ?thesis .
qed

lemma pending_quiet:
  assumes inv: "jobs_inv s" and "pending_at k (my_jobs s)" and "j \<in> set (my_jobs s)" and "jb_id j = k"
  shows "job_ok j" "jb_cleanup_pending j"
proof -
  obtain i where i: "i \<in> set (my_jobs s)" "jb_id i = k" "jb_cleanup_pending i"
    using assms(2) by (auto simp: pending_at_def)
  have "i = j" by (rule jobs_ok_id[OF jobs_inv_sel(1)[OF inv] i(1) assms(3)]) (simp add: i(2) assms(4))
  then show "jb_cleanup_pending j" using i(3) by simp
  show "job_ok j" using jobs_inv_sel(1)[OF inv] assms(3) by (simp add: jobs_ok_def)
qed

lemma sending_quiet:
  assumes inv: "jobs_inv s" and "sending_at k (my_jobs s)" and "j \<in> set (my_jobs s)" and "jb_id j = k"
  shows "job_ok j" "jb_cleanup_pending j" "jb_state j = JobDispatching \<or> jb_cancel_requested j"
proof -
  obtain i where i: "i \<in> set (my_jobs s)" "jb_id i = k" "jb_cleanup_pending i"
      "jb_state i = JobDispatching \<or> jb_cancel_requested i"
    using assms(2) by (auto simp: sending_at_def)
  have "i = j" by (rule jobs_ok_id[OF jobs_inv_sel(1)[OF inv] i(1) assms(3)]) (simp add: i(2) assms(4))
  then show "jb_cleanup_pending j" "jb_state j = JobDispatching \<or> jb_cancel_requested j" using i by simp_all
  show "job_ok j" using jobs_inv_sel(1)[OF inv] assms(3) by (simp add: jobs_ok_def)
qed

lemma sending_pending: "sending_at k js \<Longrightarrow> pending_at k js"
  by (auto simp: sending_at_def pending_at_def)

text \<open>The dispatch itself: no job was pending, so the dispatched job is the only one.\<close>

lemma prepare_dispatch_cases:
  assumes "prepare_dispatch t k st = Inr (x, st')" and "jobs_ok (md_jobs st)"
  obtains "x = None" "st' = st"
    | j f where "x = None" "j \<in> set (md_jobs st)" "jb_id j = k" "\<not> jb_cancel_requested j"
        "\<not> job_terminal (jb_state j)" "f = (\<lambda>j. j\<lparr>jb_state := JobFailed, jb_error := Some ''job deadline before dispatch''\<rparr>)"
        "md_jobs st' = map (at_job k f) (md_jobs st)"
    | j a where "x = Some (dispatched_job t a j)" "j \<in> set (md_jobs st)" "jb_id j = k" "\<not> jb_cancel_requested j"
        "\<not> job_terminal (jb_state j)" "md_jobs st' = map (at_job k (dispatched_job t a)) (md_jobs st)"
proof -
  obtain j where j: "List.find (\<lambda>j. jb_id j = k) (md_jobs st) = Some j"
    using assms(1) by (auto simp: prepare_dispatch_def res_simps)
  have mem: "j \<in> set (md_jobs st)" "jb_id j = k" using find_Some_mem[OF j] by auto
  define f where "f = (\<lambda>j::job. j\<lparr>jb_state := JobFailed, jb_error := Some ''job deadline before dispatch''\<rparr>)"
  define a where "a = sv_activation (md_service st)"
  consider "jb_cancel_requested j \<or> job_terminal (jb_state j)"
    | "\<not> jb_cancel_requested j" "\<not> job_terminal (jb_state j)" "jb_deadline j < t"
    | "\<not> jb_cancel_requested j" "\<not> job_terminal (jb_state j)" "\<not> jb_deadline j < t" by blast
  then show thesis
  proof cases
    case 1
    then have "x = None \<and> st' = st" using assms(1) j by (simp add: prepare_dispatch_def)
    then show thesis using that(1) by blast
  next
    case 2
    then obtain st2 where e: "edit_job k f st = Inr st2" "x = None" "st' = st2"
      using assms(1) j by (auto simp: prepare_dispatch_def res_bind_eq_Inr f_def)
    then have "md_jobs st' = map (at_job k f) (md_jobs st)" using edit_job_map[OF e(1) assms(2)] by simp
    from that(2)[OF e(2) mem 2(1,2) f_def this] show thesis .
  next
    case 3
    then obtain st2 where e: "edit_job k (dispatched_job t a) st = Inr st2"
      "x = Some (dispatched_job t a j)" "md_jobs st' = md_jobs st2"
      using assms(1) j by (auto simp: prepare_dispatch_def res_bind_eq_Inr a_def Let_def)
    then have "md_jobs st' = map (at_job k (dispatched_job t a)) (md_jobs st)"
      using edit_job_map[OF e(1) assms(2)] by simp
    from that(3)[OF e(2) mem 3(1,2) this] show thesis .
  qed
qed

lemma prepared_step:
  assumes inv: "jobs_inv s" and none: "\<forall>j \<in> set (my_jobs s). \<not> jb_cleanup_pending j"
    and j: "j \<in> set (my_jobs s)" "jb_id j = k" "\<not> jb_cancel_requested j" "\<not> job_terminal (jb_state j)"
    and st: "md_jobs st = map (at_job k (dispatched_job t a)) (my_jobs s)"
  shows "jobs_step s (go (Prepared (dispatched_job t a j)) st s)"
proof -
  let ?g = "at_job k (dispatched_job t a)"
  note ok = jobs_inv_sel(1)[OF inv]
  have jok: "job_ok x" if "x \<in> set (my_jobs s)" for x using ok that by (simp add: jobs_ok_def)
  have only: "x = j" if "x \<in> set (my_jobs s)" "jb_id x = k" for x
    by (rule jobs_ok_id[OF ok that(1) j(1)]) (simp add: that(2) j(2))
  have next_: "job_next x (?g x)" if "x \<in> set (my_jobs s)" for x
  proof (cases "jb_id x = k")
    case True
    have "x = j" by (rule only[OF that True])
    then show ?thesis
      using job_next_dispatched[OF jok[OF j(1)] j(3,4)] True by (simp add: at_job_def)
  next
    case False
    then show ?thesis using job_quiet_refl[OF jok[OF that]] by (simp add: at_job_def job_quiet_def)
  qed
  have pend: "jb_cleanup_pending (?g x) \<longleftrightarrow> jb_id x = k" if "x \<in> set (my_jobs s)" for x
    using none that by (simp add: at_job_def dispatched_job_def)
  have ids: "map jb_id (map ?g (my_jobs s)) = map jb_id (my_jobs s)"
    "map jb_prompt_id (map ?g (my_jobs s)) = map jb_prompt_id (my_jobs s)"
    using next_ by (simp_all add: job_next_def)
  have "jobs_ok (map ?g (my_jobs s))"
    unfolding jobs_ok_def ids
  proof (intro conjI)
    show "distinct (map jb_id (my_jobs s))" "distinct (map jb_prompt_id (my_jobs s))"
      using ok by (simp_all add: jobs_ok_def)
    show "\<forall>x \<in> set (map ?g (my_jobs s)). job_ok x" using next_ by (auto simp: job_next_def)
    show "\<forall>x \<in> set (map ?g (my_jobs s)). \<forall>y \<in> set (map ?g (my_jobs s)).
        jb_cleanup_pending x \<longrightarrow> jb_cleanup_pending y \<longrightarrow> x = y"
      using pend only by auto
  qed
  moreover have "posted_ok (map ?g (my_jobs s)) (my_posted s)"
    using jobs_inv_sel(2)[OF inv] next_ by (fastforce simp: posted_ok_def job_next_def)
  moreover have "?g j \<in> set (map ?g (my_jobs s))" using j(1) by simp
  then have "sending_at k (map ?g (my_jobs s))" "prompt_at k (jb_prompt_id j) (map ?g (my_jobs s))"
    unfolding sending_at_def prompt_at_def by (rule bexI[rotated], simp add: j(2) at_job_def dispatched_job_def)+
  moreover have "jb_prompt_id j \<notin> set (my_posted s)"
  proof
    assume "jb_prompt_id j \<in> set (my_posted s)"
    then obtain x where x: "x \<in> set (my_jobs s)" "jb_prompt_id x = jb_prompt_id j" "jb_dispatched_at x \<noteq> None"
      using jobs_inv_sel(2)[OF inv] by (auto simp: posted_ok_def)
    have "x = j" using ok x(1,2) j(1) by (auto simp: jobs_ok_def distinct_map inj_on_def)
    then show False using x(3) none j(1,4) jok[OF j(1)] by (auto simp: job_ok_def)
  qed
  ultimately have "jobs_inv (go (Prepared (dispatched_job t a j)) st s)"
    using st j(2) by (simp add: jobs_inv_def go_def dispatched_job_def)
  moreover have "evolves (my_state s) (md_jobs st)"
    unfolding evolves_def st using next_ by (intro disjI1 exI[of _ ?g]) simp
  ultimately show ?thesis by (simp add: jobs_step_def go_def)
qed

lemma admit_job_cases:
  assumes "admit_job e caller r st = Inr (j, st')"
  obtains "st' = st"
    | w hash where "st' = st\<lparr>md_jobs := md_jobs st @ [new_job e caller r w hash]\<rparr>"
        "active_jobs st < ACTIVE_JOBS" "length (md_jobs st) < RETAINED_RECORDS"
        "validate_job (ae_profile e) r = Inr ()"
proof (cases "List.find (same_job caller r) (md_jobs st)")
  case (Some i)
  then show ?thesis using assms that(1) by (auto simp: admit_job_def split: if_splits)
next
  case None
  then show ?thesis using assms that(2)
    by (auto simp: admit_job_def res_simps Let_def not_le split: if_splits)
qed

lemma submitted_step:
  assumes inv: "jobs_inv s" and a: "admit_job e caller r (my_state s) = Inr (j, st)" and f: "fresh_job (my_state s) e"
  shows "jobs_step s (s\<lparr>my_state := st\<rparr>)"
  using a
proof (cases rule: admit_job_cases)
  case 1
  then show ?thesis by (intro jobs_step_same[OF inv]) (use inv in \<open>simp_all add: jobs_inv_def\<close>)
next
  case (2 w hash)
  let ?j = "new_job e caller r w hash"
  have j: "jb_id ?j = ae_id e" "jb_prompt_id ?j = ae_prompt_id e" "\<not> jb_cleanup_pending ?j" "job_ok ?j"
    by (simp_all add: new_job_def job_ok_def)
  have "jobs_ok (my_jobs s @ [?j])"
    using jobs_inv_sel(1)[OF inv] f j by (auto simp: jobs_ok_def fresh_job_def)
  moreover have "posted_ok (my_jobs s @ [?j]) (my_posted s)"
    using jobs_inv_sel(2)[OF inv] by (auto simp: posted_ok_def)
  ultimately show ?thesis
    using pc_jobs_grown[OF jobs_inv_sel(3)[OF inv] j(3)] 2(1-3) new_job_valid[OF 2(4)]
    by (simp add: jobs_step_def jobs_inv_def evolves_def)
qed

lemma find_none: "List.find p xs = None \<Longrightarrow> x \<in> set xs \<Longrightarrow> \<not> p x"
  by (auto simp: find_None_iff)

lemma execution_cases:
  "execution_action st = ExecuteDispatch j \<Longrightarrow> \<forall>x \<in> set (md_jobs st). \<not> jb_cleanup_pending x"
  "execution_action st = ExecutePoll j \<Longrightarrow> j \<in> set (md_jobs st) \<and> jb_cleanup_pending j"
  by (auto simp: execution_action_def split: if_splits option.splits dest: find_none find_Some_mem)

lemma quiet_all:
  assumes "jobs_inv s" and "\<And>j. job_ok j \<Longrightarrow> job_quiet j (g j)"
  shows "\<forall>j \<in> set (my_jobs s). job_quiet j (g j)"
  using jobs_inv_sel(1)[OF assms(1)] assms(2) by (simp add: jobs_ok_def)

lemma media_jobs_step:
  assumes "media_step c shared s s'" and inv: "jobs_inv s"
  shows "jobs_step s s'"
  using assms(1)
proof cases
  case (submit e caller r j st)
  then show ?thesis using submitted_step[OF inv submit(2,3)] by simp
next
  case (cancel t k caller j st)
  obtain i where i: "i \<in> set (my_jobs s)" "jb_id i = k" "jb_state i \<noteq> JobCompleted"
      "st = (my_state s)\<lparr>md_jobs := map (at_job k (cancelled_job t)) (my_jobs s)\<rparr>"
    using cancel_job_map[OF cancel(2) jobs_inv_sel(1)[OF inv]] .
  have ok: "job_ok x" if "x \<in> set (my_jobs s)" for x using jobs_inv_sel(1)[OF inv] that by (simp add: jobs_ok_def)
  have "job_quiet x (at_job k (cancelled_job t) x)" if "x \<in> set (my_jobs s)" for x
  proof (cases "jb_id x = k")
    case True
    have "x = i" by (rule jobs_ok_id[OF jobs_inv_sel(1)[OF inv] that i(1)]) (simp add: True i(2))
    then show ?thesis using job_quiet_cancelled[OF ok[OF that]] True i(3) by (simp add: at_job_def)
  next
    case False
    then show ?thesis using job_quiet_refl[OF ok[OF that]] by (simp add: at_job_def)
  qed
  then have "jobs_step s (go (my_pc s) st s)"
    by (intro jobs_step_quiet[OF inv, where g = "at_job k (cancelled_job t)"]) (simp_all add: i(4) pc_jobs_cancelled[OF jobs_inv_sel(3)[OF inv]])
  then show ?thesis using cancel(1) by (simp add: go_def)
next
  case (pass t)
  have "jobs_step s (go Idle (receiver_pass t (my_state s)) s)"
    by (rule jobs_step_quiet[OF inv quiet_all[OF inv job_quiet_pass[where t = t and v = "my_service s"]]]) (simp_all add: receiver_pass_def)
  then show ?thesis using pass by (simp add: go_def jobs_step_def jobs_inv_def)
next
  case (stopped v)
  have "job_quiet j (if jb_activation j = Some (sv_activation v) then lost_job ''backend stopped'' j else j)"
    if "job_ok j" for j
    using job_quiet_lost[OF that] job_quiet_refl[OF that] by simp
  from jobs_step_quiet[OF inv quiet_all[OF inv this]] show ?thesis
    using stopped(1) by (simp add: stopped_media_def)
next
  case (fail t err)
  show ?thesis
    unfolding fail(1) by (rule jobs_step_quiet[OF inv quiet_all[OF inv job_quiet_quarantined[where t = t]]])
      (simp_all add: quarantine_media_def Let_def)
next
  case (recover_quarantine gone clear lease verify authority err t)
  show ?thesis
    unfolding recover_quarantine(1) by (rule jobs_step_quiet[OF inv quiet_all[OF inv job_quiet_quarantined[where t = t]]])
      (simp_all add: quarantine_media_def Let_def)
next
  case recovered
  show ?thesis
    unfolding recovered(1) by (rule jobs_step_quiet[OF inv quiet_all[OF inv job_quiet_lost[where r = "''backend lost during receiver restart''"]]])
      (simp_all add: recovered_media_def)
next
  case (select j)
  then show ?thesis using execution_cases(1)[OF select(3)] by (intro jobs_inv_same[OF inv]) simp_all
next
  case (no_checkpoint k t err st)
  have "job_quiet j (if \<not> job_terminal (jb_state j)
     then j\<lparr>jb_state := JobFailed, jb_error := Some err, jb_updated_at := t\<rparr> else j)" if "job_ok j" for j
    using that by (auto simp: job_defs)
  then show ?thesis
    unfolding no_checkpoint(1) using jobs_inv_sel(1)[OF inv]
    by (intro jobs_step_edit[OF inv no_checkpoint(3)[unfolded checkpoint_failed_def]]) (simp_all add: jobs_ok_def)
next
  case (prepare_none k t st)
  have idle: "pc_jobs Idle js p" for js p by simp
  from prepare_none(3) jobs_inv_sel(1)[OF inv] show ?thesis
  proof (cases rule: prepare_dispatch_cases)
    case 1
    then show ?thesis using prepare_none(1) by (intro jobs_inv_same[OF inv]) (simp_all add: go_def)
  next
    case (2 j f)
    have ok: "job_ok x" if "x \<in> set (my_jobs s)" for x using jobs_inv_sel(1)[OF inv] that by (simp add: jobs_ok_def)
    have "job_quiet x (at_job k f x)" if "x \<in> set (my_jobs s)" for x
    proof (cases "jb_id x = k")
      case True
      have xj: "x = j" by (rule jobs_ok_id[OF jobs_inv_sel(1)[OF inv] that 2(2)]) (simp add: True 2(3))
      have "\<not> jb_cancel_requested x" "\<not> job_terminal (jb_state x)"
        unfolding xj by (rule 2(4), rule 2(5))
      from job_quiet_expired[OF ok[OF that] this] have "job_quiet x (f x)"
        unfolding 2(6) .
      then show ?thesis using True by (simp add: at_job_def)
    next
      case False
      then show ?thesis using job_quiet_refl[OF ok[OF that]] by (simp add: at_job_def)
    qed
    then show ?thesis
      unfolding prepare_none(1) by (intro jobs_step_quiet[OF inv _ 2(7) idle]) simp
  qed simp
next
  case (prepare k t j st)
  have none: "\<forall>x \<in> set (my_jobs s). \<not> jb_cleanup_pending x"
    using jobs_inv_sel(3)[OF inv] prepare(2) by simp
  from prepare(3) jobs_inv_sel(1)[OF inv] show ?thesis
  proof (cases rule: prepare_dispatch_cases)
    case (3 i a)
    then show ?thesis unfolding prepare(1) using prepared_step[OF inv none 3(2-6)] by simp
  qed simp_all
next
  case (post j verify t ls result)
  have pc: "sending_at (jb_id j) (my_jobs s)" "jb_prompt_id j \<notin> set (my_posted s)"
      "prompt_at (jb_id j) (jb_prompt_id j) (my_jobs s)"
    using jobs_inv_sel(3)[OF inv] post(2) by simp_all
  obtain x where x: "x \<in> set (my_jobs s)" "jb_id x = jb_id j" "jb_prompt_id x = jb_prompt_id j"
    using pc(3) by (auto simp: prompt_at_def)
  have "jb_dispatched_at x \<noteq> None"
    using sending_quiet[OF inv pc(1) x(1,2)] by (simp add: job_ok_def)
  then have "posted_ok (my_jobs s) (my_posted s @ [jb_prompt_id j])"
    using jobs_inv_sel(2)[OF inv] pc(2) x by (auto simp: posted_ok_def)
  then show ?thesis
    using post(1) pc(1) jobs_inv_sel(1)[OF inv] by (intro jobs_step_same[OF inv]) (simp_all add: jobs_inv_def)
next
  case (answered k result t st)
  have "sending_at k (my_jobs s)" using jobs_inv_sel(3)[OF inv] answered(2) by simp
  then show ?thesis
    unfolding answered(1)
    by (intro jobs_step_edit[OF inv answered(3)[unfolded commit_dispatch_def]])
      (auto intro!: job_quiet_submitted dest: sending_quiet[OF inv])
next
  case (poll j)
  then show ?thesis
    using execution_cases(2)[OF poll(3)] by (intro jobs_inv_same[OF inv]) (auto simp: pending_at_def)
next
  case (poll_cancel j t queued found st0 st)
  have p: "pending_at (jb_id j) (my_jobs s)" using jobs_inv_sel(3)[OF inv] poll_cancel(2) by simp
  then obtain i where i: "i \<in> set (my_jobs s)" "jb_id i = jb_id j" "jb_cleanup_pending i"
    by (auto simp: pending_at_def)
  have "at_job (jb_id j) (overdue_job t) i \<in> set (map (at_job (jb_id j) (overdue_job t)) (my_jobs s))"
    using i(1) by simp
  moreover have "job_ok i" using pending_quiet[OF inv p i(1,2)] by simp
  ultimately have "closing_at (jb_id j) (map (at_job (jb_id j) (overdue_job t)) (my_jobs s))"
    unfolding closing_at_def using i(2,3)
    by (intro bexI[of _ "at_job (jb_id j) (overdue_job t) i"]) (auto simp: at_job_def overdue_job_def job_ok_def Let_def)
  then show ?thesis
    unfolding poll_cancel(1) using p
    by (intro jobs_step_edit[OF inv poll_cancel(4)[unfolded begin_cancellation_def]])
      (auto intro!: job_quiet_overdue dest: pending_quiet[OF inv])
next
  case (poll_collect j t queued found st0 entry result png k sha bytes st)
  have p: "pending_at (jb_id j) (my_jobs s)" using jobs_inv_sel(3)[OF inv] poll_collect(2) by simp
  obtain st2 where e: "edit_job (jb_id j) (collected_job t result) (my_state s) = Inr st2" "md_jobs st = md_jobs st2"
    using poll_collect(5) by (auto simp: collect_media_def res_bind_eq_Inr)
  show ?thesis
    unfolding poll_collect(1) using p
    by (intro jobs_step_edit[OF inv e(1) _ _ e(2)]) (auto intro!: job_quiet_collected dest: pending_quiet[OF inv])
next
  case (poll_lost j t queued found st0 st)
  have p: "pending_at (jb_id j) (my_jobs s)" using jobs_inv_sel(3)[OF inv] poll_lost(2) by simp
  show ?thesis
    unfolding poll_lost(1) using p
    by (intro jobs_step_edit[OF inv poll_lost(4)[unfolded lost_media_def]])
      (auto intro!: job_quiet_interrupted dest: pending_quiet[OF inv])
next
  case (cancelled k t st)
  obtain i where i: "i \<in> set (my_jobs s)" "jb_id i = k" "jb_cleanup_pending i" "job_terminal (jb_state i)"
    using jobs_inv_sel(3)[OF inv] cancelled(2) by (auto simp: closing_at_def)
  obtain st2 where e: "edit_job k (\<lambda>j. j\<lparr>jb_cleanup_pending := False\<rparr>) (my_state s) = Inr st2"
      "md_jobs st = md_jobs st2"
    using cancelled(3) by (auto simp: end_cancellation_def res_bind_eq_Inr)
  have "job_quiet x (x\<lparr>jb_cleanup_pending := False\<rparr>)" if "x \<in> set (my_jobs s)" "jb_id x = k" for x
  proof -
    have "x = i" by (rule jobs_ok_id[OF jobs_inv_sel(1)[OF inv] that(1) i(1)]) (simp add: that(2) i(2))
    moreover have "job_ok i" using jobs_inv_sel(1)[OF inv] i(1) by (simp add: jobs_ok_def)
    ultimately show ?thesis using i(3,4) by (auto simp: job_defs)
  qed
  from jobs_step_edit[OF inv e(1) this _ e(2), of Idle] show ?thesis unfolding cancelled(1) by simp
qed (auto intro!: jobs_inv_same[OF inv] simp: jobs_inv_sel[OF inv] go_def same_jobs split: startup_next.splits)

end
