(* ===== verification/Media_Lease.thy ===== *)
theory Media_Lease
  imports Media_System
begin

text \<open>
  The lease of the media service: while the receiver alone drives the service, a unit that may run has its
  lease. The invariant holds in every reachable state of \<open>media_step\<close>.
\<close>

section \<open>The invariant of the lease\<close>

text \<open>Where the receiver alone drives the service, a running unit has its lease, and the receiver's place says
  what it may do next.\<close>

definition unleased_state :: "service_state \<Rightarrow> bool" where
  "unleased_state x \<longleftrightarrow> x \<in> {SvcStopped, SvcWaiting, SvcReserving}"

definition leased :: "media_system \<Rightarrow> bool" where
  "leased s \<longleftrightarrow> (\<exists>h \<in> my_held s. sv_lease (my_service s) = Some h) \<and> \<not> unleased_state (sv_state (my_service s))"

fun pc_lease :: "media_pc \<Rightarrow> media_system \<Rightarrow> bool" where
  "pc_lease (Begin m) s = (\<not> my_running s)"
| "pc_lease Reserve s = (\<not> my_running s \<and> sv_lease (my_service s) = None)"
| "pc_lease (Granted h) s = (\<not> my_running s \<and> h \<in> my_held s)"
| "pc_lease Start s = leased s"
| "pc_lease (Gone v) s = (\<not> my_running s)"
| "pc_lease (Unleased v) s = (\<not> my_running s)"
| "pc_lease (RecoverGone h) s = (\<not> my_running s)"
| "pc_lease RecoverUnleased s = (\<not> my_running s)"
| "pc_lease (Targeted v g x b) s = (\<not> unleased_state (sv_state (my_service s)))"
| "pc_lease pc s = True"

definition lease_inv :: "media_system \<Rightarrow> bool" where
  "lease_inv s \<longleftrightarrow> (my_running s \<longrightarrow> leased s) \<and>
     (unleased_state (sv_state (my_service s)) \<longrightarrow> sv_lease (my_service s) = None) \<and> pc_lease (my_pc s) s"

lemmas lease_defs = lease_inv_def leased_def unleased_state_def

lemma pc_lease_frame:
  assumes "pc_lease pc s" and "leased s \<longrightarrow> leased s'" and "my_held s' = my_held s"
    and "my_running s' \<longrightarrow> my_running s" and "sv_state (my_service s') = sv_state (my_service s)"
    and "sv_lease (my_service s') = sv_lease (my_service s)"
  shows "pc_lease pc s'"
proof (cases pc)
  case (Targeted v g x b)
  then show ?thesis using assms(1,5) by simp
qed (use assms(1-4,6) in simp_all)

lemma lease_frame:
  assumes "lease_inv s" and "sv_lease (my_service s') = sv_lease (my_service s)"
    and "sv_state (my_service s') = sv_state (my_service s)" and "my_held s' = my_held s"
    and "my_running s' \<longrightarrow> my_running s" and "my_pc s' \<in> {my_pc s, Idle, Down}"
  shows "lease_inv s'"
proof -
  have l: "leased s' = leased s" using assms(2,3,4) by (simp add: leased_def)
  have "pc_lease (my_pc s) s'"
    by (rule pc_lease_frame[of _ s]) (use assms l in \<open>simp_all add: lease_inv_def\<close>)
  then have "pc_lease (my_pc s') s'" using assms(6) by auto
  then show ?thesis using assms(1,2,3,5) l by (simp add: lease_inv_def)
qed

text \<open>A step from \<open>Idle\<close> to \<open>Idle\<close> that keeps the lease and does not enter a state without one.\<close>

lemma lease_move:
  assumes "lease_inv s" and "sv_lease (my_service s') = sv_lease (my_service s)"
    and "\<not> unleased_state (sv_state (my_service s'))" and "my_held s' = my_held s"
    and "my_running s' = my_running s" and "my_pc s' \<in> {Idle, Down}"
  shows "lease_inv s'"
  using assms by (cases "my_pc s'") (auto simp: lease_inv_def leased_def)

lemma edit_job_service: "edit_job k f st = Inr st' \<Longrightarrow> md_service st' = md_service st"
  by (auto simp: edit_job_def res_simps)

lemma edit_service_same:
  "md_service (edit_service f st) = f (md_service st)"
  by (simp add: edit_service_def)

lemma job_edits_service:
  "checkpoint_failed t k err st = Inr st' \<Longrightarrow> md_service st' = md_service st"
  "commit_dispatch t k r st = Inr st' \<Longrightarrow> md_service st' = md_service st"
  "begin_cancellation t k st = Inr st' \<Longrightarrow> md_service st' = md_service st"
  "lost_media t k st = Inr st' \<Longrightarrow> md_service st' = md_service st"
  by (auto simp: checkpoint_failed_def commit_dispatch_def begin_cancellation_def lost_media_def
      dest: edit_job_service)

text \<open>The fields the lease rests on.\<close>

definition same_lease :: "media_state \<Rightarrow> media_state \<Rightarrow> bool" where
  "same_lease st st' \<longleftrightarrow> sv_lease (md_service st') = sv_lease (md_service st) \<and>
     sv_state (md_service st') = sv_state (md_service st)"

lemma same_leaseI: "md_service st' = md_service st \<Longrightarrow> same_lease st st'"
  by (simp add: same_lease_def)

lemma same_lease_ops:
  "prepare_dispatch t k st = Inr (x, st') \<Longrightarrow> same_lease st st'"
  "collect_media t k arts st = Inr st' \<Longrightarrow> same_lease st st'"
  "end_cancellation t k st = Inr st' \<Longrightarrow> same_lease st st'"
  "admit_job e caller r st = Inr (j, st') \<Longrightarrow> same_lease st st'"
  "cancel_job t k caller st = Inr (j, st') \<Longrightarrow> same_lease st st'"
  "admit_session t k who sr st = Inr (y, st') \<Longrightarrow> same_lease st st'"
  "edit_restart m f st = Inr st' \<Longrightarrow> same_lease st st'"
  "same_lease st (receiver_pass t st)" "same_lease st (heartbeat t st)" "same_lease st (adopted_media a st)"
  by (auto simp: same_lease_def prepare_dispatch_def collect_media_def end_cancellation_def res_simps Let_def
      edit_service_same admit_job_def cancel_job_def admit_session_def edit_restart_def receiver_pass_def
      heartbeat_def adopted_media_def split: if_splits option.splits dest!: edit_job_service)

lemma same_lease_restart:
  "set_phase t p st = Inr st' \<Longrightarrow> same_lease st st'" "targeted_media g st = Inr st' \<Longrightarrow> same_lease st st'"
  by (auto simp: set_phase_def targeted_media_def dest: same_lease_ops(7))

lemma release_session_lease:
  "release_session t k caller st = Inr (x, st') \<Longrightarrow> sv_lease (md_service st') = sv_lease (md_service st) \<and>
     (sv_state (md_service st') = sv_state (md_service st) \<or>
      sv_state (md_service st) = SvcReady \<and> sv_state (md_service st') = SvcDraining)"
  by (auto simp: release_session_def Let_def res_simps edit_service_same split: if_splits)

lemma idle_manual_lease:
  "idle_manual t v ob st = Inr (b, st') \<Longrightarrow> sv_lease (md_service st') = sv_lease (md_service st) \<and>
     sv_state (md_service st) = SvcReady \<and> sv_state (md_service st') \<in> {SvcReady, SvcDraining}"
  by (auto simp: idle_manual_def Let_def edit_service_def split: if_splits)

lemma restarted_lease:
  "restarted_media t g st = Inr st' \<Longrightarrow> sv_lease (md_service st') = sv_lease (md_service st) \<and>
     sv_state (md_service st') = SvcReady"
  by (auto simp: restarted_media_def res_simps edit_service_same dest!: same_lease_ops(7) simp: same_lease_def)

lemma tick_states:
  "tick_procedure st = TickBegin \<Longrightarrow> sv_state (md_service st) \<in> {SvcStopped, SvcWaiting}"
  "tick_procedure st = TickStartup \<Longrightarrow> sv_state (md_service st) = SvcStarting"
  "tick_procedure st = TickReady \<Longrightarrow> sv_state (md_service st) = SvcReady"
  "tick_procedure st = TickRestart \<Longrightarrow> sv_state (md_service st) = SvcRestarting"
  "tick_procedure st = TickStopping \<Longrightarrow> sv_state (md_service st) = SvcStopping"
  "tick_procedure st = TickDrain \<Longrightarrow> sv_state (md_service st) \<in> {SvcDraining, SvcRecoveryRequired}"
  by (auto simp: tick_procedure_def split: service_state.splits if_splits)

lemma verify_service_lease:
  "verify_service lease ob ticks gpu gate v = Inr () \<Longrightarrow> \<exists>h. sv_lease v = Some h \<and> lease h = Inr ()"
  by (auto simp: verify_service_def res_simps)

lemma restart_guard_lease:
  "restart_guard lease authority v = Inr i \<Longrightarrow> \<exists>h. sv_lease v = Some h \<and> lease h = Inr ()"
  by (auto simp: restart_guard_def res_simps)


lemma lease_same:
  assumes "lease_inv s" and "same_lease (my_state s) (my_state s')" and "my_held s' = my_held s"
    and "my_running s' = my_running s" and "my_pc s' \<in> {my_pc s, Idle, Down}"
  shows "lease_inv s'"
  using assms(2-5) by (intro lease_frame[OF assms(1)]) (simp_all add: same_lease_def)

text \<open>Where the receiver goes to a place that asks nothing of the lease.\<close>

lemma lease_same_pc:
  assumes "lease_inv s" and "same_lease (my_state s) (my_state s')" and "my_held s' = my_held s"
    and "my_running s' = my_running s" and "pc_lease (my_pc s') s'"
  shows "lease_inv s'"
proof -
  have "leased s' = leased s" using assms(2,3) by (simp add: leased_def same_lease_def)
  then show ?thesis using assms(1,2,4,5) by (simp add: lease_inv_def same_lease_def)
qed

lemma lease_init: "lease_inv \<lparr>my_state = default_media, my_pc = Down, my_posted = [], my_running = False, my_held = {}\<rparr>"
  by (simp add: lease_inv_def default_media_def default_service_def)

lemma lease_gone:
  assumes "lease_inv s" and "\<not> my_running s" and "my_pc s' = Gone v" and "my_state s' = my_state s"
    and "my_held s' = my_held s" and "my_running s' = my_running s"
  shows "lease_inv s'"
  by (rule lease_same_pc[OF assms(1)]) (use assms(2-6) in \<open>simp_all add: same_lease_def\<close>)

lemma stopping_gone: "stopping_action t c gone clear v = Inr (Some h) \<Longrightarrow> gone = Inr True"
  by (cases gone) (auto simp: stopping_action_def res_simps split: if_splits)


lemma recovery_release_gone:
  "recover_action gone clear lease verify authority st = Inr (RecoveryRelease h) \<Longrightarrow> gone = Inr True"
  by (cases gone) (auto simp: recover_action_def Let_def res_simps split: if_splits option.splits sum.splits)

lemma lease_restart_gone:
  assumes "lease_inv s" and "stopping_action t c gone clear (my_service s) = Inr (Some h)" and "true_gone s gone"
  shows "lease_inv (s\<lparr>my_pc := Gone (my_service s)\<rparr>)"
  by (rule lease_gone[OF assms(1), of _ "my_service s"])
    (use assms(3) stopping_gone[OF assms(2)] in \<open>simp_all add: true_gone_def\<close>)

lemma lease_default:
  assumes "\<not> my_running s" and "my_pc s' = Idle" and "my_service s' = default_service" and "my_running s' = my_running s"
  shows "lease_inv s'"
  using assms by (simp add: lease_inv_def default_service_def)

lemma lease_kept: "lease_inv s \<Longrightarrow> same_lease (my_state s) st \<Longrightarrow> lease_inv (s\<lparr>my_state := st\<rparr>)"
  by (rule lease_same[of s]) simp_all

lemma lease_kept_idle: "lease_inv s \<Longrightarrow> same_lease (my_state s) st \<Longrightarrow> lease_inv (go Idle st s)"
  by (rule lease_same[of s]) (simp_all add: go_def)

lemma lease_pc:
  "lease_inv s \<Longrightarrow> lease_inv (s\<lparr>my_pc := Idle\<rparr>)" "lease_inv s \<Longrightarrow> lease_inv (s\<lparr>my_pc := Down\<rparr>)"
  "lease_inv s \<Longrightarrow> lease_inv (s\<lparr>my_pc := Dispatch k\<rparr>)" "lease_inv s \<Longrightarrow> lease_inv (s\<lparr>my_pc := Poll j\<rparr>)"
  by (simp_all add: lease_inv_def leased_def)

lemma media_lease_step:
  assumes "media_step c False s s'" and inv: "lease_inv s"
  shows "lease_inv s'"
  using assms(1)
proof (cases rule: media_step.cases)
  case (close_session t k caller x st)
  note l = release_session_lease[OF close_session(3)]
  from l[THEN conjunct2] show ?thesis
  proof
    assume "sv_state (md_service st) = sv_state (my_service s)"
    with l show ?thesis using close_session(1) by (intro lease_frame[OF inv]) simp_all
  next
    assume "sv_state (my_service s) = SvcReady \<and> sv_state (md_service st) = SvcDraining"
    with l show ?thesis
      using close_session(1,2) by (intro lease_move[OF inv]) (simp_all add: unleased_state_def)
  qed
next
  case (request_restart p lease ob ticks gpu gate t k g)
  then show ?thesis
    by (intro lease_move[OF inv]) (simp_all add: restarting_media_def edit_service_same unleased_state_def)
next
  case (begin_foreign m)
  then show ?thesis
    using inv tick_states(1)[OF begin_foreign(3)]
    by (auto simp: lease_inv_def leased_def unleased_state_def waiting_media_def edit_service_same)
next
  case (activate m)
  then show ?thesis by (auto intro!: lease_same_pc[OF inv] same_leaseI)
next
  case (reserve m t a)
  then show ?thesis
    using inv by (simp add: lease_inv_def go_def reserving_media_def default_service_def Let_def)
next
  case (granted h)
  then show ?thesis using inv by (simp add: lease_inv_def leased_def)
next
  case busy
  then show ?thesis
    using inv by (simp add: lease_inv_def go_def waiting_media_def edit_service_same)
next
  case (keep_lease h)
  then show ?thesis
    using inv by (auto simp: lease_inv_def leased_def go_def leased_media_def edit_service_same unleased_state_def)
next
  case start
  then show ?thesis using inv by (simp add: lease_inv_def leased_def)
next
  case (started t since verify authority gate act st)
  then show ?thesis
    using tick_states(2)[OF started(3)]
    by (intro lease_move[OF inv])
      (auto simp: ready_media_def set_state_def edit_service_same unleased_state_def split: startup_next.splits)
next
  case (idle_check t ob ob' b st)
  then show ?thesis
    using idle_manual_lease[OF idle_check(5)] by (intro lease_move[OF inv]) (auto simp: unleased_state_def)
next
  case (finished t managed_lease)
  then show ?thesis
    by (intro lease_move[OF inv]) (simp_all add: set_state_def edit_service_same unleased_state_def)
next
  case (drained t lease ob ticks gpu gate authority barrier queue)
  then show ?thesis
    by (intro lease_move[OF inv]) (simp_all add: set_state_def edit_service_same unleased_state_def)
next
  case (gone t gone clear h)
  show ?thesis unfolding gone(1) by (rule lease_restart_gone[OF inv gone(4,5)])
next
  case (unlease v h)
  then show ?thesis using inv by (simp add: lease_inv_def leased_def)
next
  case (stopped v)
  then show ?thesis
    using inv by (intro lease_default[of s]) (simp_all add: lease_inv_def go_def stopped_media_def)
next
  case (restart_gone lease authority i t identity g clear unit_file placement ob rid ticks gate gone h)
  show ?thesis unfolding restart_gone(1) by (rule lease_restart_gone[OF inv restart_gone(6,7)])
next
  case (restart_start lease authority i gone clear unit_file placement t st)
  obtain h where h: "sv_lease (my_service s) = Some h" "lease h = Inr ()"
    using restart_guard_lease[OF restart_start(4)] by auto
  have "leased s"
    using h restart_start(5) tick_states(4)[OF restart_start(3)]
    by (simp add: leased_def true_lease_def unleased_state_def)
  then show ?thesis
    using same_lease_restart(1)[OF restart_start(8)] restart_start(1)
    by (intro lease_same_pc[OF inv]) (simp_all add: go_def same_lease_def leased_def)
next
  case (restart_target lease authority i t ob gone clear rid ticks gate target seen st)
  then show ?thesis
    using same_lease_restart(2)[OF restart_target(7)] tick_states(4)[OF restart_target(3)]
    by (intro lease_same_pc[OF inv]) (simp_all add: go_def same_lease_def unleased_state_def)
next
  case (restarted v target g lease ob ticks gpu gate t st)
  show ?thesis
    using restarted_lease[OF restarted(5)] restarted(1)
    by (intro lease_move[OF inv]) (simp_all add: go_def unleased_state_def)
next
  case (prepare k t j st)
  then show ?thesis
    using same_lease_ops(1)[OF prepare(3)] by (intro lease_same_pc[OF inv]) (simp_all add: go_def)
next
  case (poll_cancel j t queued found st0 st)
  then show ?thesis
    using same_leaseI[OF job_edits_service(3)[OF poll_cancel(4)]]
    by (intro lease_same_pc[OF inv]) (simp_all add: go_def)
next
  case (fail t err)
  then show ?thesis
    by (intro lease_move[OF inv])
      (simp_all add: go_def quarantine_media_def edit_service_def Let_def unleased_state_def)
next
  case (recover_quarantine gone clear lease verify authority err t)
  then show ?thesis
    by (intro lease_move[OF inv])
      (simp_all add: go_def quarantine_media_def edit_service_def Let_def unleased_state_def)
next
  case (recover_gone gone clear lease verify authority h)
  have "\<not> my_running s"
    using recovery_release_gone[OF recover_gone(3)] recover_gone(4) by (simp add: true_gone_def)
  then show ?thesis
    using recover_gone(1) by (intro lease_same_pc[OF inv]) (simp_all add: same_lease_def)
next
  case (recover_unlease h)
  then show ?thesis using inv by (simp add: lease_inv_def leased_def)
next
  case recovered
  then show ?thesis
    using inv by (intro lease_default[of s]) (simp_all add: lease_inv_def go_def recovered_media_def)
next
  case unit_exit
  show ?thesis unfolding unit_exit by (rule lease_frame[OF inv]) simp_all
next
  case (submit e caller r j st)
  show ?thesis unfolding submit(1) by (rule lease_kept[OF inv same_lease_ops(4)[OF submit(2)]])
next
  case (cancel t k caller j st)
  show ?thesis unfolding cancel(1) by (rule lease_kept[OF inv same_lease_ops(5)[OF cancel(2)]])
next
  case (open_session t k p sr x st)
  show ?thesis unfolding open_session(1) by (rule lease_kept[OF inv same_lease_ops(6)[OF open_session(2)]])
next
  case (restart_drained lease authority i t verify barrier queue st)
  show ?thesis unfolding restart_drained(1) by (rule lease_kept[OF inv same_lease_restart(1)[OF restart_drained(7)]])
next
  case (restart_cleared lease authority i t identity gone clear st)
  show ?thesis unfolding restart_cleared(1) by (rule lease_kept[OF inv same_lease_restart(1)[OF restart_cleared(7)]])
next
  case (restart_cancelled lease authority i t ob gone clear rid ticks gate st)
  show ?thesis unfolding restart_cancelled(1) by (rule lease_kept[OF inv same_lease_restart(1)[OF restart_cancelled(7)]])
next
  case (restart_finish v target seen t st)
  show ?thesis unfolding restart_finish(1) by (rule lease_kept_idle[OF inv same_lease_restart(1)[OF restart_finish(3)]])
next
  case (no_checkpoint k t err st)
  show ?thesis unfolding no_checkpoint(1)
    by (rule lease_kept_idle[OF inv same_leaseI[OF job_edits_service(1)[OF no_checkpoint(3)]]])
next
  case (prepare_none k t st)
  show ?thesis unfolding prepare_none(1) by (rule lease_kept_idle[OF inv same_lease_ops(1)[OF prepare_none(3)]])
next
  case (post j verify t ls result)
  show ?thesis by (rule lease_same_pc[OF inv]) (simp_all add: post(1) same_lease_def)
next
  case (answered k result t st)
  show ?thesis unfolding answered(1)
    by (rule lease_kept_idle[OF inv same_leaseI[OF job_edits_service(2)[OF answered(3)]]])
next
  case (poll_collect j t queued found st0 entry result png k sha bytes st)
  show ?thesis unfolding poll_collect(1) by (rule lease_kept_idle[OF inv same_lease_ops(2)[OF poll_collect(5)]])
next
  case (poll_lost j t queued found st0 st)
  show ?thesis unfolding poll_lost(1)
    by (rule lease_kept_idle[OF inv same_leaseI[OF job_edits_service(4)[OF poll_lost(4)]]])
next
  case (cancelled k t st)
  show ?thesis unfolding cancelled(1) by (rule lease_kept_idle[OF inv same_lease_ops(3)[OF cancelled(3)]])
qed (use inv in \<open>simp_all add: lease_kept same_lease_ops(8-10) lease_pc\<close>)

end
