(* ===== verification/Media_Safety.thy ===== *)
theory Media_Safety
  imports Media_Lease
begin

text \<open>
  What holds in every reachable state of the media service: how often a prompt is given to the backend, how
  final an outcome is, how many jobs there are, what a running unit holds, and what goes wrong when the
  shared runtime activates the service beside the receiver.
\<close>

section \<open>The invariants in reachable states\<close>

lemma reachable_jobs: "media_reachable c shared s \<Longrightarrow> jobs_inv s"
proof (induction rule: media_reachable.induct)
  case init
  show ?case by (simp add: jobs_inv_def jobs_ok_def posted_ok_def default_media_def)
next
  case (step s s')
  then show ?case using media_jobs_step by (simp add: jobs_step_def)
qed

lemma reachable_lease: "media_reachable c False s \<Longrightarrow> lease_inv s"
proof (induction rule: media_reachable.induct)
  case init
  show ?case by (rule lease_init)
qed (rule media_lease_step)

lemma active_map:
  assumes "\<forall>j \<in> set js. job_next j (g j)"
  shows "length (filter (\<lambda>j. \<not> job_terminal (jb_state j)) (map g js)) \<le>
    length (filter (\<lambda>j. \<not> job_terminal (jb_state j)) js)"
  using assms by (induction js) (auto simp: job_next_def)

definition within_limits :: "media_state \<Rightarrow> bool" where
  "within_limits st \<longleftrightarrow> length (md_jobs st) \<le> RETAINED_RECORDS \<and> active_jobs st \<le> ACTIVE_JOBS"

lemma evolves_limits: "evolves st (md_jobs st') \<Longrightarrow> within_limits st \<Longrightarrow> within_limits st'"
proof (unfold evolves_def, elim disjE exE conjE)
  fix g
  assume "md_jobs st' = map g (md_jobs st)" "\<forall>j \<in> set (md_jobs st). job_next j (g j)" "within_limits st"
  then show "within_limits st'" using active_map[of "md_jobs st" g] by (simp add: within_limits_def active_jobs_def)
next
  fix j
  assume "md_jobs st' = md_jobs st @ [j]" "job_valid j" "active_jobs st < ACTIVE_JOBS" "length (md_jobs st) < RETAINED_RECORDS"
  then show "within_limits st'" by (auto simp: within_limits_def active_jobs_def)
qed

lemma reachable_limits: "media_reachable c shared s \<Longrightarrow> within_limits (my_state s)"
proof (induction rule: media_reachable.induct)
  case init
  show ?case by (simp add: within_limits_def active_jobs_def default_media_def)
next
  case (step s s')
  have "evolves (my_state s) (my_jobs s')"
    using media_jobs_step[OF step(2) reachable_jobs[OF step(1)]] by (simp add: jobs_step_def)
  then show ?case using evolves_limits step(3) by blast
qed

lemma reachable_valid: "media_reachable c shared s \<Longrightarrow> \<forall>j \<in> set (my_jobs s). job_valid j"
proof (induction rule: media_reachable.induct)
  case init
  show ?case by (simp add: default_media_def)
next
  case (step s s')
  have "evolves (my_state s) (my_jobs s')"
    using media_jobs_step[OF step(2) reachable_jobs[OF step(1)]] by (simp add: jobs_step_def)
  then show ?case using step(3) unfolding evolves_def by (auto simp: job_next_def job_valid_def)
qed

lemma step_keeps_job:
  assumes "media_reachable c shared s" and "media_step c shared s s'" and "j \<in> set (my_jobs s)"
  obtains j' where "j' \<in> set (my_jobs s')" "job_next j j'" "\<And>i. i \<in> set (my_jobs s') \<Longrightarrow> jb_id i = jb_id j \<Longrightarrow> i = j'"
proof -
  note inv = reachable_jobs[OF assms(1)]
  have step: "evolves (my_state s) (my_jobs s')" "jobs_inv s'"
    using media_jobs_step[OF assms(2) inv] by (simp_all add: jobs_step_def)
  obtain j' where j': "j' \<in> set (my_jobs s')" "job_next j j'"
    using step(1) assms(3) job_quiet_refl[of j] jobs_inv_sel(1)[OF inv]
    unfolding evolves_def jobs_ok_def job_quiet_def by fastforce
  have "i = j'" if "i \<in> set (my_jobs s')" "jb_id i = jb_id j" for i
    using jobs_ok_id[OF jobs_inv_sel(1)[OF step(2)] that(1) j'(1)] that(2) j'(2) by (simp add: job_next_def)
  with j' show thesis by (rule that)
qed

section \<open>Properties\<close>

text \<open>C15: The backend is given each prompt at most once: the prompts posted are distinct, each is that of a
  job that has been marked as dispatched, and such a job is either the one that still needs its cleanup or
  has ended. At most one job at a time needs its cleanup, so at most one prompt is outstanding. This holds
  in every reachable state, whatever requests, crashes and quarantines come between two steps of the
  receiver.\<close>

theorem media_posts_once:
  assumes "media_reachable c shared s"
  shows "distinct (my_posted s) \<and>
    (\<forall>p \<in> set (my_posted s). \<exists>j \<in> set (my_jobs s). jb_prompt_id j = p \<and> jb_dispatched_at j \<noteq> None \<and>
       (jb_cleanup_pending j \<or> job_terminal (jb_state j))) \<and>
    (\<forall>i \<in> set (my_jobs s). \<forall>j \<in> set (my_jobs s). jb_cleanup_pending i \<longrightarrow> jb_cleanup_pending j \<longrightarrow> i = j)"
proof -
  have inv: "jobs_ok (my_jobs s)" "posted_ok (my_jobs s) (my_posted s)"
    using reachable_jobs[OF assms] by (auto simp: jobs_inv_def)
  then have ok: "job_ok j" if "j \<in> set (my_jobs s)" for j using that by (simp add: jobs_ok_def)
  then have "\<exists>j \<in> set (my_jobs s). jb_prompt_id j = p \<and> jb_dispatched_at j \<noteq> None \<and>
       (jb_cleanup_pending j \<or> job_terminal (jb_state j))" if "p \<in> set (my_posted s)" for p
    using inv(2) that unfolding posted_ok_def job_ok_def by blast
  then show ?thesis using inv by (simp add: jobs_ok_def posted_ok_def)
qed

text \<open>C17: The outcome of a job is final. In every step from a reachable state each job is still there under
  its identity; a job that has ended stays ended, a completed job does not change at all, and a job whose
  cancellation was acknowledged stays cancelled and never gets an artifact, so a late completion cannot
  erase the cancellation.\<close>

theorem media_outcome_final:
  assumes "media_reachable c shared s" and "media_step c shared s s'" and "j \<in> set (my_jobs s)"
  shows "\<exists>j' \<in> set (my_jobs s'). jb_id j' = jb_id j \<and>
    (job_terminal (jb_state j) \<longrightarrow> job_terminal (jb_state j')) \<and>
    (jb_state j = JobCompleted \<longrightarrow> j' = j) \<and>
    (jb_cancel_requested j \<longrightarrow> jb_cancel_requested j' \<and> jb_state j' = JobCancelled \<and> jb_artifacts j' = [])"
proof -
  obtain j' where "j' \<in> set (my_jobs s')" "job_next j j'" using step_keeps_job[OF assms] by blast
  then show ?thesis
    by (intro bexI[of _ j']) (auto simp: job_next_def job_ok_def)
qed

text \<open>The durable state of the media service is bounded: at most \<open>RETAINED_RECORDS\<close> jobs are kept and at
  most \<open>ACTIVE_JOBS\<close> of them have not ended, in every reachable state.\<close>

theorem media_within_limits:
  assumes "media_reachable c shared s"
  shows "length (my_jobs s) \<le> 2048 \<and> active_jobs (my_state s) \<le> 128"
  using reachable_limits[OF assms] by (simp add: within_limits_def RETAINED_RECORDS_def ACTIVE_JOBS_def)

text \<open>C37: Every job the service keeps is well formed, in every reachable state: its request has the supported
  schema, a prompt that is not blank, image edges that are multiples of 64 between 64 and 1024, at most 50
  steps, a seed that fits a signed 64-bit integer and a timeout from 10 to 900 seconds, and its deadline is that
  timeout after its creation. No step alters a request: after any step the job is still there, and the one job
  under its identity has the same request, creation time and deadline.\<close>

theorem media_jobs_well_formed:
  assumes "media_reachable c shared s" and "j \<in> set (my_jobs s)"
  shows "jr_schema (jb_request j) = MEDIA_VERSION \<and> valid_parameters (jr_parameters (jb_request j)) \<and>
    10 \<le> jr_timeout_seconds (jb_request j) \<and> jr_timeout_seconds (jb_request j) \<le> 900 \<and>
    jb_deadline j = jb_created_at j + jr_timeout_seconds (jb_request j) \<and>
    (\<forall>s'. media_step c shared s s' \<longrightarrow> jb_id j \<in> jb_id ` set (my_jobs s') \<and>
      (\<forall>j' \<in> set (my_jobs s'). jb_id j' = jb_id j \<longrightarrow>
        jb_request j' = jb_request j \<and> jb_created_at j' = jb_created_at j \<and> jb_deadline j' = jb_deadline j))"
proof -
  have "jb_id j \<in> jb_id ` set (my_jobs s') \<and> (\<forall>j' \<in> set (my_jobs s'). jb_id j' = jb_id j \<longrightarrow>
      jb_request j' = jb_request j \<and> jb_created_at j' = jb_created_at j \<and> jb_deadline j' = jb_deadline j)"
    if step: "media_step c shared s s'" for s'
  proof -
    obtain i where i: "i \<in> set (my_jobs s')" "job_next j i" "\<And>j'. j' \<in> set (my_jobs s') \<Longrightarrow> jb_id j' = jb_id j \<Longrightarrow> j' = i"
      using step_keeps_job[OF assms(1) step assms(2)] by blast
    then show ?thesis unfolding job_next_def by (metis imageI)
  qed
  then show ?thesis using reachable_valid[OF assms(1)] assms(2) by (simp add: job_valid_def)
qed

text \<open>C16: Where the receiver alone drives the service, a unit that may be running holds its lease: the durable
  state names a lease the authority still holds, and its state is not one of those without ownership. So a
  crash at any point, a quarantine, a restart or a session's release never leaves the GPU to another owner
  while the backend may still use it.\<close>

theorem media_backend_leased:
  assumes "media_reachable c False s" and "my_running s"
  shows "\<exists>h \<in> my_held s. sv_lease (my_service s) = Some h \<and>
    sv_state (my_service s) \<notin> {SvcStopped, SvcWaiting, SvcReserving}"
  using reachable_lease[OF assms(1)] assms(2) by (auto simp: lease_inv_def leased_def unleased_state_def)

section \<open>Runs of the service\<close>

text \<open>A job that is admitted to the initial state, and an authority that has granted the GPU to a demand.\<close>

definition sample_image :: job_request where
  "sample_image = \<lparr>jr_schema = MEDIA_VERSION, jr_work_id = ''w'', jr_submission_id = ''s'',
     jr_idempotency_key = ''k'', jr_profile = ''sd'', jr_profile_version = 1,
     jr_parameters = \<lparr>ip_prompt = ''cat'', ip_negative_prompt = [], ip_seed = 7, ip_width = 512,
       ip_height = 512, ip_steps = 20\<rparr>,
     jr_timeout_seconds = 60, jr_priority = Low, jr_reservation = None\<rparr>"

definition sample_image_profile :: image_profile where
  "sample_image_profile = \<lparr>pf_id = ''sd'', pf_version = 1, pf_checkpoint = ''/m/c'',
     pf_checkpoint_sha256 = ''x'', pf_runtime_revision = ''r'', pf_available = True\<rparr>"

definition sample_media_lease :: lease_handle where
  "sample_media_lease = \<lparr>lh_owner = ''m'', lh_generation = ''mg'', lh_paths = [(''gpu-4080-super'', ''p'')]\<rparr>"

definition sample_media_leases :: lease_store where
  "sample_media_leases = no_leases (Some (sample_document\<lparr>claims := [(''gpu-4080-super'', ''m'')],
     demands := [(''m'', sample_demand ''m'' Preparing Low (sample_profile ''comfy'' [''gpu-4080-super'']))]\<rparr>))"

definition sample_admission :: admission_env where
  "sample_admission = \<lparr>ae_now = 10, ae_id = ''j'', ae_prompt_id = ''p'', ae_hash = (\<lambda>_. Inr ''h''),
     ae_gate = (\<lambda>_. Inl ''gate''), ae_profile = sample_image_profile, ae_lease_io = sample_lease_io,
     ae_leases = no_leases None\<rparr>"

lemma whitespace_ends:
  "w \<in> set whitespace \<Longrightarrow> w \<noteq> [] \<and> of_char (hd w) \<notin> {99, 116 :: nat} \<and> of_char (last w) \<notin> {99, 116 :: nat}"
  by (auto simp: whitespace_def whitespace_codes_def)

lemma starts_with_hd: "starts_with s w \<Longrightarrow> w \<noteq> [] \<Longrightarrow> hd w = hd s"
  by (cases s; cases w) auto

lemma trim_edges:
  assumes "of_char (hd s) \<in> {99, 116 :: nat}" and "of_char (last s) \<in> {99, 116 :: nat}"
  shows "trim s = s"
proof -
  have "\<not> starts_with s w" if "w \<in> set whitespace" for w
    using whitespace_ends[OF that] starts_with_hd[of s w] assms(1) by auto
  then have "trim_with whitespace s = s" by (intro trim_with_none) simp
  moreover have "\<not> starts_with (rev s) (rev w)" if "w \<in> set whitespace" for w
    using whitespace_ends[OF that] starts_with_hd[of "rev s" "rev w"] assms(2) by (auto simp: hd_rev)
  then have "trim_with (map rev whitespace) (rev s) = rev s" by (intro trim_with_none) auto
  ultimately show ?thesis by (simp add: trim_def trim_start_def trim_end_def)
qed

definition sample_media_config :: media_config where
  "sample_media_config = \<lparr>mc_start_timeout = 180, mc_drain_timeout = 120, mc_stop_timeout = 60,
     mc_idle_seconds = 30, mc_reservation_idle_seconds = 1800, mc_session_seconds = 14400,
     mc_checkpoint_sha256 = ''x''\<rparr>"

lemma sample_prompt: "trim ''cat'' = ''cat''"
  by (rule trim_edges) simp_all

lemma sample_validate: "validate_job sample_image_profile sample_image = Inr ()"
  by (simp add: validate_job_def sample_image_def sample_image_profile_def valid_identity_def valid_parameters_def
      valid_edge_def sample_prompt)

lemma sample_workflow: "\<exists>w. workflow sample_image_profile sample_image k = Inr w"
  by (simp add: workflow_def sample_image_profile_def file_name_def path_components_def Let_def)

lemma sample_admit:
  "\<exists>w. admit_job sample_admission ''app'' sample_image default_media =
     Inr (new_job sample_admission ''app'' sample_image w ''h'',
       default_media\<lparr>md_jobs := [new_job sample_admission ''app'' sample_image w ''h'']\<rparr>)"
proof -
  obtain w where "workflow sample_image_profile sample_image ''j'' = Inr w" using sample_workflow by blast
  then show ?thesis
    using sample_validate
    by (intro exI[of _ w])
      (simp add: admit_job_def sample_admission_def shared_authorize_def default_media_def default_service_def
        active_jobs_def ACTIVE_JOBS_def RETAINED_RECORDS_def Let_def sample_image_def)
qed

lemma sample_grant: "shared_handle_ok 12 sample_media_leases sample_media_lease = Inr ()"
  by (simp add: shared_handle_ok_def managed_verify_def sample_media_leases_def sample_media_lease_def no_leases_def
      sample_document_def sample_demand_sel sample_profile_def claim_valid_def)

text \<open>The receiver has started, the job is submitted, and the receiver has decided to begin its activation.\<close>

lemma no_media_jobs: "md_jobs default_media = []"
  by (simp add: default_media_def)

lemma run_begin:
  obtains j where "jb_id j = ''j''" "jb_prompt_id j = ''p''" "jb_owner j = ''app''" "jb_state j = JobWaiting"
    "\<not> jb_cleanup_pending j" "\<not> jb_cancel_requested j" "jb_deadline j = 70"
    "media_reachable c shared \<lparr>my_state = default_media\<lparr>md_jobs := [j]\<rparr>, my_pc = Begin ModeManaged,
       my_posted = [], my_running = False, my_held = {}\<rparr>"
proof -
  let ?s = "\<lambda>st pc. \<lparr>my_state = st, my_pc = pc, my_posted = [], my_running = False, my_held = {}\<rparr>"
  obtain w where w: "admit_job sample_admission ''app'' sample_image default_media =
     Inr (new_job sample_admission ''app'' sample_image w ''h'',
       default_media\<lparr>md_jobs := [new_job sample_admission ''app'' sample_image w ''h'']\<rparr>)"
    using sample_admit by blast
  define j where "j = new_job sample_admission ''app'' sample_image w ''h''"
  have sel: "jb_id j = ''j''" "jb_prompt_id j = ''p''" "jb_owner j = ''app''" "jb_state j = JobWaiting"
    "\<not> jb_cleanup_pending j" "\<not> jb_cancel_requested j" "jb_deadline j = 70"
    by (simp_all add: j_def new_job_def sample_admission_def sample_image_def)
  have "media_step c shared (?s default_media Down) ((?s default_media Down)\<lparr>my_pc := Idle\<rparr>)"
    by (rule media_step.recover_on[where gone = "Inr True"])
      (simp_all add: recover_action_def default_media_def default_service_def true_gone_def)
  then have r1: "media_reachable c shared (?s default_media Idle)"
    using media_reachable.step[OF media_reachable.init] by simp
  have "media_step c shared (?s default_media Idle)
      ((?s default_media Idle)\<lparr>my_state := default_media\<lparr>md_jobs := [j]\<rparr>\<rparr>)"
    by (rule media_step.submit[where e = sample_admission and caller = "''app''" and r = sample_image and j = j])
      (simp_all add: w j_def fresh_job_def no_media_jobs)
  from media_reachable.step[OF r1 this] have r2: "media_reachable c shared (?s (default_media\<lparr>md_jobs := [j]\<rparr>) Idle)"
    by simp
  have "media_step c shared (?s (default_media\<lparr>md_jobs := [j]\<rparr>) Idle)
      ((?s (default_media\<lparr>md_jobs := [j]\<rparr>) Idle)\<lparr>my_pc := Begin ModeManaged\<rparr>)"
    by (rule media_step.activate)
      (simp_all add: tick_procedure_def begin_mode_def default_media_def default_service_def sel)
  from media_reachable.step[OF r2 this]
  have "media_reachable c shared (?s (default_media\<lparr>md_jobs := [j]\<rparr>) (Begin ModeManaged))" by simp
  with that[of j] sel show thesis by blast
qed

text \<open>The receiver goes on: the lease, the unit, its readiness, and the dispatch of the job.\<close>

definition sample_gate :: gate_status where
  "sample_gate = \<lparr>gs_activation = ''a'', gs_invocation = ''i'', gs_pid = 7, gs_mode = ModeManaged,
     gs_protocol = ''rack-gate/v1''\<rparr>"

definition sample_unit :: unit_observation where
  "sample_unit = \<lparr>uo_invocation = ''i'', uo_pid = 7, uo_cgroup = ''c'', uo_active = ''active'',
     uo_pending_job = False\<rparr>"

definition sample_ready :: media_service where
  "sample_ready = default_service\<lparr>sv_state := SvcReady, sv_mode := ModeManaged, sv_activation := ''a'',
     sv_since := 20, sv_heartbeat := 20, sv_last_busy := 21, sv_lease := Some sample_media_lease,
     sv_invocation := Some ''i'', sv_generation := Some \<lparr>bg_number = 1, bg_invocation = ''i'', bg_pid = 7,
       bg_cgroup = ''c'', bg_start_ticks = 5\<rparr>\<rparr>"

lemma run_started:
  assumes "media_reachable c shared \<lparr>my_state = st, my_pc = Begin ModeManaged, my_posted = [],
      my_running = False, my_held = {}\<rparr>"
    and "md_sessions st = []" and "md_jobs st \<noteq> []"
  shows "media_reachable c shared \<lparr>my_state = st\<lparr>md_service := sample_ready\<rparr>, my_pc = Idle, my_posted = [],
    my_running = True, my_held = {sample_media_lease}\<rparr>"
proof -
  let ?s = "\<lambda>v pc run held. \<lparr>my_state = st\<lparr>md_service := v\<rparr>, my_pc = pc, my_posted = [], my_running = run, my_held = held\<rparr>"
  note next_ = media_reachable.step
  define v1 where "v1 = default_service\<lparr>sv_state := SvcReserving, sv_mode := ModeManaged,
     sv_activation := ''a'', sv_since := 20, sv_heartbeat := 20, sv_last_busy := 20\<rparr>"
  define v2 where "v2 = v1\<lparr>sv_lease := Some sample_media_lease, sv_state := SvcStarting\<rparr>"
  define g where "g = \<lparr>bg_number = 1, bg_invocation = ''i'', bg_pid = 7, bg_cgroup = ''c'', bg_start_ticks = 5\<rparr>"
  define v3 where "v3 = v2\<lparr>sv_invocation := Some ''i'', sv_generation := Some g\<rparr>"
  have r1: "media_reachable c shared (?s v1 Reserve False {})"
    using next_[OF assms(1) media_step.reserve[where t = 20 and a = "''a''"]] assms(2)
    by (simp add: go_def reserving_media_def default_service_def v1_def)
  have r2: "media_reachable c shared (?s v1 (Granted sample_media_lease) False {sample_media_lease})"
    using next_[OF r1 media_step.granted[where h = sample_media_lease]] by simp
  have r3: "media_reachable c shared (?s v2 Start False {sample_media_lease})"
    using next_[OF r2 media_step.keep_lease[where h = sample_media_lease]]
    by (simp add: go_def leased_media_def edit_service_def v2_def)
  have r4: "media_reachable c shared (?s v2 Idle True {sample_media_lease})"
    using next_[OF r3 media_step.start] by simp
  have v2: "sv_state v2 = SvcStarting" "sv_invocation v2 = None" "sv_activation v2 = ''a''"
    by (simp_all add: v2_def v1_def default_service_def)
  have "startup_adopts (Inr sample_unit) (Inr sample_gate) (Inr ()) (Inr 5) v2 = Inr (Some (''i'', g))"
    by (simp add: startup_adopts_def sample_unit_def sample_gate_def gate_matches_def capture_def v2 g_def)
  then have "media_step c shared (?s v2 Idle True {sample_media_lease})
      ((?s v2 Idle True {sample_media_lease})\<lparr>my_state := adopted_media (''i'', g) (st\<lparr>md_service := v2\<rparr>)\<rparr>)"
    using media_step.adopt[of "?s v2 Idle True {sample_media_lease}" "Inr sample_unit" "Inr sample_gate" "Inr ()" "Inr 5"
        "(''i'', g)" c shared]
    by (simp add: tick_procedure_def v2)
  then have "media_step c shared (?s v2 Idle True {sample_media_lease}) (?s v3 Idle True {sample_media_lease})"
    by (simp add: adopted_media_def edit_service_def v3_def)
  from next_[OF r4 this] have r5: "media_reachable c shared (?s v3 Idle True {sample_media_lease})" .
  have v3: "sv_state v3 = SvcStarting" "sv_invocation v3 = Some ''i''" "sv_mode v3 = ModeManaged"
    by (simp_all add: v3_def v2_def v1_def)
  have "startup_action 21 c 20 (\<lambda>_. Inr ()) (Inr ()) (Inr sample_gate) (st\<lparr>md_service := v3\<rparr>) = Inr StartupReady"
    using assms(2) by (simp add: startup_action_def session_released_def v3 sample_gate_def)
  then have "media_step c shared (?s v3 Idle True {sample_media_lease})
      ((?s v3 Idle True {sample_media_lease})\<lparr>my_state := ready_media 21 (st\<lparr>md_service := v3\<rparr>)\<rparr>)"
    using media_step.started[of "?s v3 Idle True {sample_media_lease}" 21 c 20 "\<lambda>_. Inr ()" "Inr ()" "Inr sample_gate"
        StartupReady "ready_media 21 (st\<lparr>md_service := v3\<rparr>)" shared]
    by (simp add: tick_procedure_def v3)
  moreover have "ready_media 21 (st\<lparr>md_service := v3\<rparr>) = st\<lparr>md_service := sample_ready\<rparr>"
    by (simp add: ready_media_def edit_service_def sample_ready_def v3_def v2_def v1_def g_def default_service_def)
  ultimately have "media_step c shared (?s v3 Idle True {sample_media_lease}) (?s sample_ready Idle True {sample_media_lease})"
    by simp
  from next_[OF r5 this] show ?thesis .
qed

lemma run_posted:
  obtains s j where "media_reachable c shared s" "my_running s" "my_posted s = [''p'']" "my_jobs s = [j]"
    "jb_id j = ''j''" "jb_state j = JobDispatching" "jb_cleanup_pending j" "jb_owner j = ''app''"
proof -
  obtain j where j: "jb_id j = ''j''" "jb_prompt_id j = ''p''" "jb_owner j = ''app''" "jb_state j = JobWaiting"
      "\<not> jb_cleanup_pending j" "\<not> jb_cancel_requested j" "jb_deadline j = 70"
    and r0: "media_reachable c shared \<lparr>my_state = default_media\<lparr>md_jobs := [j]\<rparr>, my_pc = Begin ModeManaged,
       my_posted = [], my_running = False, my_held = {}\<rparr>"
    using run_begin .
  define st where "st = default_media\<lparr>md_jobs := [j]\<rparr>\<lparr>md_service := sample_ready\<rparr>"
  let ?s = "\<lambda>st pc posted. \<lparr>my_state = st, my_pc = pc, my_posted = posted, my_running = True, my_held = {sample_media_lease}\<rparr>"
  have r1: "media_reachable c shared (?s st Idle [])"
    using run_started[OF r0] by (simp add: st_def default_media_def)
  have st: "md_service st = sample_ready" "md_jobs st = [j]" by (simp_all add: st_def)
  have "execution_action st = ExecuteDispatch j"
    by (simp add: execution_action_def st sample_ready_def default_service_def j)
  then have "media_step c shared (?s st Idle []) ((?s st Idle [])\<lparr>my_pc := Dispatch (jb_id j)\<rparr>)"
    by (intro media_step.select) simp_all
  from media_reachable.step[OF r1 this] have r2: "media_reachable c shared (?s st (Dispatch ''j'') [])" by (simp add: j)
  define i where "i = dispatched_job 30 ''a'' j"
  obtain st' where st': "prepare_dispatch 30 ''j'' st = Inr (Some i, st')" "md_jobs st' = [i]"
    using j by (auto simp: prepare_dispatch_def st edit_job_def edit_service_def i_def sample_ready_def default_service_def Let_def)
  have "media_step c shared (?s st (Dispatch ''j'') []) (go (Prepared i) st' (?s st (Dispatch ''j'') []))"
    by (rule media_step.prepare[of _ "''j''" 30]) (simp_all add: st')
  from media_reachable.step[OF r2 this] have r3: "media_reachable c shared (?s st' (Prepared i) [])" by (simp add: go_def)
  have i: "jb_id i = ''j''" "jb_prompt_id i = ''p''" "jb_state i = JobDispatching" "jb_cleanup_pending i" "jb_owner i = ''app''"
    by (simp_all add: i_def dispatched_job_def j)
  have "dispatch_checks (\<lambda>_. Inr ()) 30 (no_leases None) (md_service st') = Inr ()"
    by (simp add: dispatch_checks_def managed_verify_def no_leases_def split: option.splits)
  then have "media_step c shared (?s st' (Prepared i) []) ((?s st' (Prepared i) [])
      \<lparr>my_pc := Answered (jb_id i) (Inr ()), my_posted := [] @ [jb_prompt_id i]\<rparr>)"
    using media_step.post[of "?s st' (Prepared i) []" i "\<lambda>_. Inr ()" 30 "no_leases None" c shared "Inr ()"] by simp
  from media_reachable.step[OF r3 this] have "media_reachable c shared (?s st' (Answered ''j'' (Inr ())) [''p''])"
    by (simp add: i)
  from that[OF this _ _ _ i(1,3,4,5)] show thesis by (simp add: st'(2))
qed

theorem media_posts_once_witness:
  "\<exists>s. media_reachable sample_media_config True s \<and> my_posted s = [''p''] \<and>
    (\<forall>p \<in> set (my_posted s). \<exists>j \<in> set (my_jobs s). jb_prompt_id j = p \<and> jb_dispatched_at j \<noteq> None \<and>
       (jb_cleanup_pending j \<or> job_terminal (jb_state j)))"
proof -
  obtain s j where s: "media_reachable sample_media_config True s" "my_posted s = [''p'']" by (rule run_posted)
  then show ?thesis using media_posts_once[OF s(1)] by blast
qed

theorem media_outcome_final_witness:
  "\<exists>s s' j. media_reachable sample_media_config True s \<and> media_step sample_media_config True s s' \<and> j \<in> set (my_jobs s) \<and> jb_cancel_requested j \<and>
    (\<exists>j' \<in> set (my_jobs s'). jb_id j' = jb_id j \<and> jb_state j' = JobCancelled \<and> jb_artifacts j' = [])"
proof -
  obtain s j where s: "media_reachable sample_media_config True s" "my_jobs s = [j]" "jb_id j = ''j''"
      "jb_state j = JobDispatching" "jb_owner j = ''app''" by (rule run_posted)
  define st where "st = my_state s\<lparr>md_jobs := [cancelled_job 31 j]\<rparr>"
  have "cancel_job 31 ''j'' ''app'' (my_state s) = Inr (cancelled_job 31 j, st)"
    using s by (simp add: cancel_job_def owned_job_def st_def)
  then have "media_step sample_media_config True s (s\<lparr>my_state := st\<rparr>)" by (rule media_step.cancel)
  from media_reachable.step[OF s(1) this] have r: "media_reachable sample_media_config True (s\<lparr>my_state := st\<rparr>)" .
  have m: "cancelled_job 31 j \<in> set (my_jobs (s\<lparr>my_state := st\<rparr>))" by (simp add: st_def)
  have "jb_cancel_requested (cancelled_job 31 j)" by (simp add: cancelled_job_def)
  with media_outcome_final[OF r media_step.crash m] r m show ?thesis using media_step.crash by blast
qed

theorem media_within_limits_witness:
  "\<exists>s. media_reachable sample_media_config True s \<and> length (my_jobs s) = 1 \<and> active_jobs (my_state s) \<le> 128"
proof -
  obtain s j where s: "media_reachable sample_media_config True s" "my_jobs s = [j]" by (rule run_posted)
  then show ?thesis using media_within_limits[OF s(1)] by (intro exI[of _ s]) simp
qed

theorem media_jobs_well_formed_witness:
  "\<exists>s s' j j'. media_reachable sample_media_config True s \<and> my_jobs s = [j] \<and>
     jb_deadline j = jb_created_at j + jr_timeout_seconds (jb_request j) \<and>
     media_step sample_media_config True s s' \<and> my_jobs s' = [j'] \<and> j' \<noteq> j \<and> jb_request j' = jb_request j"
proof -
  obtain s j where s: "media_reachable sample_media_config True s" "my_jobs s = [j]" "jb_id j = ''j''"
      "jb_state j = JobDispatching" "jb_owner j = ''app''" by (rule run_posted)
  define s' where "s' = s\<lparr>my_state := my_state s\<lparr>md_jobs := [cancelled_job 31 j]\<rparr>\<rparr>"
  have "cancel_job 31 ''j'' ''app'' (my_state s) = Inr (cancelled_job 31 j, my_state s\<lparr>md_jobs := [cancelled_job 31 j]\<rparr>)"
    using s by (simp add: cancel_job_def owned_job_def)
  then have step: "media_step sample_media_config True s s'" unfolding s'_def by (rule media_step.cancel)
  have j: "j \<in> set (my_jobs s)" using s(2) by simp
  have c: "my_jobs s' = [cancelled_job 31 j]" "jb_id (cancelled_job 31 j) = jb_id j" "cancelled_job 31 j \<noteq> j"
    using s(4) by (auto simp: s'_def cancelled_job_def dest: arg_cong[where f = jb_state])
  have m: "jb_deadline j = jb_created_at j + jr_timeout_seconds (jb_request j)" "jb_request (cancelled_job 31 j) = jb_request j"
    using media_jobs_well_formed[OF s(1) j] step c(1,2) by simp_all
  with s(1,2) step c show ?thesis by blast
qed

theorem media_backend_leased_witness:
  "\<exists>s h. media_reachable sample_media_config False s \<and> my_running s \<and> h \<in> my_held s \<and> sv_lease (my_service s) = Some h"
proof -
  obtain s where s: "media_reachable sample_media_config False s" "my_running s" by (rule run_posted)
  then show ?thesis using media_backend_leased[OF s] by blast
qed

text \<open>C38: Where the shared runtime may activate the service as well, a unit can run without a lease in the
  durable state. The receiver decides to begin an activation for a waiting job; the job is cancelled; the
  shared runtime, which does not take the lock of the receiver's tick, finds no demand, records its grant and
  starts the unit; the receiver then records its own activation over it, without looking at the state again.
  The unit runs, and the record that names the grant and the owner is gone.\<close>

theorem shared_activation_race:
  "\<exists>s. media_reachable c True s \<and> my_running s \<and> sv_state (my_service s) = SvcReserving \<and>
     sv_lease (my_service s) = None \<and> my_held s = {sample_media_lease}"
proof -
  obtain j where j: "jb_id j = ''j''" "jb_owner j = ''app''" "jb_state j = JobWaiting"
    and r0: "media_reachable c True \<lparr>my_state = default_media\<lparr>md_jobs := [j]\<rparr>, my_pc = Begin ModeManaged,
       my_posted = [], my_running = False, my_held = {}\<rparr>"
    by (rule run_begin)
  let ?s = "\<lambda>st pc run held. \<lparr>my_state = st, my_pc = pc, my_posted = [], my_running = run, my_held = held\<rparr>"
  let ?b = "Begin ModeManaged" and ?h = "{sample_media_lease}"
  define st where "st = default_media\<lparr>md_jobs := [cancelled_job 11 j]\<rparr>"
  have "cancel_job 11 ''j'' ''app'' (default_media\<lparr>md_jobs := [j]\<rparr>) = Inr (cancelled_job 11 j, st)"
    using j by (simp add: cancel_job_def owned_job_def st_def)
  then have "media_step c True (?s (default_media\<lparr>md_jobs := [j]\<rparr>) ?b False {})
      ((?s (default_media\<lparr>md_jobs := [j]\<rparr>) ?b False {})\<lparr>my_state := st\<rparr>)"
    by (intro media_step.cancel) simp
  from media_reachable.step[OF r0 this] have r1: "media_reachable c True (?s st ?b False {})" by simp
  define sr where "sr = \<lparr>sh_handle = sample_media_lease, sh_owner = ''app'', sh_mode = ModeManaged\<rparr>"
  have "\<exists>st2. shared_begin 12 ''k'' sr st = Inr ((), st2) \<and> sv_state (md_service st2) = SvcStarting"
    by (simp add: shared_begin_def st_def default_media_def default_service_def cancelled_job_def Let_def sr_def)
  then obtain st2 where st2: "shared_begin 12 ''k'' sr st = Inr ((), st2)" "sv_state (md_service st2) = SvcStarting"
    by blast
  have ok: "shared_handle_ok 12 sample_media_leases (sh_handle sr) = Inr ()" by (simp add: sr_def sample_grant)
  have "media_step c True (?s st ?b False {})
      ((?s st ?b False {})\<lparr>my_state := st2, my_held := insert (sh_handle sr) (my_held (?s st ?b False {}))\<rparr>)"
    by (rule media_step.shared_grant[OF TrueI ok, where k = "''k''"]) (simp_all add: st2)
  from media_reachable.step[OF r1 this] have r2: "media_reachable c True (?s st2 ?b False ?h)"
    by (simp add: sr_def)
  have "media_step c True (?s st2 ?b False ?h) ((?s st2 ?b False ?h)\<lparr>my_running := True\<rparr>)"
    by (rule media_step.shared_start) (simp_all add: st2)
  from media_reachable.step[OF r2 this] have r3: "media_reachable c True (?s st2 ?b True ?h)" by simp
  have "media_step c True (?s st2 ?b True ?h) (go Reserve (reserving_media 13 ''a'' ModeManaged st2) (?s st2 ?b True ?h))"
    using media_step.reserve[of "?s st2 ?b True ?h" ModeManaged c True 13 "''a''"] by simp
  from media_reachable.step[OF r3 this] show ?thesis
    by (intro exI conjI) (assumption, simp_all add: go_def reserving_media_def default_service_def Let_def)
qed

end
