(* ===== verification/Archive.thy ===== *)
theory Archive
  imports Workspace_Scopes Group_Admission
begin

text \<open>
  The history archive, \<open>history_archive.rs\<close>: finished calls and closed reservations leave the authority
  document for files beside it, and leave those fourteen days after their closure. A pass of
  \<open>retire_history_once\<close> plans on the document, stages the files, publishes them, and commits the removal
  when the document still agrees with the plan. This theory holds the decisions and the change of the
  document; the files are in \<open>Archive_Files\<close>.
\<close>

section \<open>The records\<close>

definition ARCHIVE_SCHEMA :: string where
  "ARCHIVE_SCHEMA = ''rack-ai/history-archive/v1''"

definition RETENTION_SECONDS :: nat where
  "RETENTION_SECONDS = 14 * 24 * 60 * 60"

record maintenance_report =
  mt_invocations :: nat
  mt_reservations :: nat
  mt_expired :: nat

definition no_report :: maintenance_report where
  "no_report = \<lparr>mt_invocations = 0, mt_reservations = 0, mt_expired = 0\<rparr>"

record invocation_archive =
  ia_schema :: string
  ia_owner :: string
  ia_invocation_id :: string
  ia_reservation_id :: string
  ia_submission_id :: string
  ia_work_id :: "string option"
  ia_closed_at :: "nat option"
  ia_closed_at_source :: "string option"
  ia_expires_at :: "nat option"
  ia_preserved :: bool
  ia_record :: invocation

record reservation_archive =
  ra_schema :: string
  ra_owner :: string
  ra_reservation_id :: string
  ra_acquisition_id :: "string option"
  ra_request :: "reserve option"
  ra_result :: "json option"
  ra_closed_at :: "nat option"
  ra_closed_at_source :: "string option"
  ra_expires_at :: "nat option"
  ra_preserved :: bool
  ra_demands :: "demand list"
  ra_invocation_ids :: "string list"
  ra_workspace_scopes :: "(string, workspace_scope) omap"

record invocation_pointer =
  ip_schema :: string
  ip_owner :: string
  ip_invocation_id :: string
  ip_expires_at :: "nat option"

record reservation_pointer =
  rp_schema :: string
  rp_owner :: string
  rp_reservation_id :: string
  rp_expires_at :: "nat option"

section \<open>What may be retired\<close>

definition rootish :: "demand \<Rightarrow> bool" where
  "rootish d \<longleftrightarrow> is_none_or (d_reservation_id d) (\<lambda>k. k = d_id d)"

definition closed_roots :: "document \<Rightarrow> string list" where
  "closed_roots s = map d_id (filter (\<lambda>d. rootish d \<and> d_reservation_closed d \<noteq> None) (om_vals (demands s)))"

definition archive_members :: "document \<Rightarrow> demand \<Rightarrow> string list option" where
  "archive_members s r =
     (if d_services r = [] then Some [d_id r]
      else if \<forall>k \<in> set (om_vals (d_services r)). get_demand s k \<noteq> None then Some (om_vals (d_services r))
      else None)"

definition demand_retirable :: "document \<Rightarrow> demand \<Rightarrow> bool" where
  "demand_retirable s d \<longleftrightarrow> d_process d = None \<and> \<not> d_effect_started d \<and>
     (\<forall>k \<in> set (om_vals (claims s)). k \<noteq> d_id d) \<and>
     d_state d \<in> {Released, Cancelled, Expired, Preempted, Unavailable}"

definition scope_still_open :: "nat \<Rightarrow> workspace_scope \<Rightarrow> bool" where
  "scope_still_open t sc \<longleftrightarrow> s_closed_at_ms sc = None \<and> sat_mul t 1000 < s_deadline_ms sc"

definition scopes_closed_or_expired :: "nat \<Rightarrow> document \<Rightarrow> string list \<Rightarrow> bool" where
  "scopes_closed_or_expired t s ks \<longleftrightarrow>
     (\<forall>sc \<in> set (om_vals (workspace_scopes s)). s_reservation_id sc \<in> set ks \<longrightarrow> \<not> scope_still_open t sc)"

definition physical_cleanup_proven :: "document \<Rightarrow> string \<Rightarrow> bool" where
  "physical_cleanup_proven s k = is_some_and (get_demand s k) (\<lambda>d. d_recovery_reconciliation d \<noteq> None)"

text \<open>The scope of a call, and whether the call the scope belongs to is still under way.\<close>

definition call_scope :: "document \<Rightarrow> invocation \<Rightarrow> workspace_scope option" where
  "call_scope s i = Option.bind (q_workspace_scope (i_request i)) (\<lambda>k. map_of (workspace_scopes s) k)"

definition scope_blocks :: "nat \<Rightarrow> document \<Rightarrow> workspace_scope \<Rightarrow> bool" where
  "scope_blocks t s sc \<longleftrightarrow> scope_still_open t sc \<or>
     is_some_and (s_invocation_id sc) (\<lambda>p. is_some_and (get_call s p) (\<lambda>i. i_state i \<in> {Queued, Running, Uncertain}))"

definition workspace_dependencies_retirable :: "nat \<Rightarrow> document \<Rightarrow> string list \<Rightarrow> invocation \<Rightarrow> bool" where
  "workspace_dependencies_retirable t s ks i \<longleftrightarrow>
     \<not> is_some_and (call_scope s i) (scope_blocks t s) \<and>
     (is_workspace i \<longrightarrow>
        \<not> (\<exists>child \<in> set (om_vals (invocations s)).
             Option.bind (call_scope s child) s_invocation_id = Some (i_id i) \<and>
             q_reservation_id (i_request child) \<in> set ks \<and> i_state child \<in> {Queued, Running}))"

definition active_invocation_dependencies_clear :: "nat \<Rightarrow> document \<Rightarrow> invocation \<Rightarrow> bool" where
  "active_invocation_dependencies_clear t s i =
     workspace_dependencies_retirable t s [q_reservation_id (i_request i)] i"

definition active_terminal_invocations :: "nat \<Rightarrow> document \<Rightarrow> string list" where
  "active_terminal_invocations t s =
     map i_id (filter (\<lambda>i. i_state i \<in> {Completed, CancelledCall, Failed, ExpiredCall} \<and>
       active_invocation_dependencies_clear t s i) (om_vals (invocations s)))"

definition invocation_retirable_after_closure :: "nat \<Rightarrow> document \<Rightarrow> string list \<Rightarrow> invocation \<Rightarrow> bool" where
  "invocation_retirable_after_closure t s ks i \<longleftrightarrow>
     i_state i \<notin> {Queued, Running} \<and>
     (i_state i = Uncertain \<longrightarrow> physical_cleanup_proven s (q_reservation_id (i_request i))) \<and>
     workspace_dependencies_retirable t s ks i"

definition calls_of :: "document \<Rightarrow> string list \<Rightarrow> invocation list" where
  "calls_of s ks = filter (\<lambda>i. q_reservation_id (i_request i) \<in> set ks) (om_vals (invocations s))"

definition closed_group_eligible :: "nat \<Rightarrow> document \<Rightarrow> string \<Rightarrow> bool" where
  "closed_group_eligible t s k =
     (case get_demand s k of
        None \<Rightarrow> False
      | Some r \<Rightarrow>
          d_reservation_closed r \<noteq> None \<and>
          (case archive_members s r of
             None \<Rightarrow> False
           | Some ks \<Rightarrow>
               (\<forall>m \<in> set ks. is_some_and (get_demand s m) (demand_retirable s)) \<and>
               scopes_closed_or_expired t s ks \<and>
               (\<forall>i \<in> set (calls_of s ks). invocation_retirable_after_closure t s ks i)))"

section \<open>The plan\<close>

datatype maintenance_kind =
    ArchiveCall invocation "demand option"
  | ArchiveGroup demand "string list" "demand list" "invocation list" "(string, workspace_scope) omap"
  | ExpireArchives

record maintenance_plan =
  mp_at :: nat
  mp_kind :: maintenance_kind

definition group_plan :: "document \<Rightarrow> string \<Rightarrow> maintenance_kind res" where
  "group_plan s k =
     res_bind (ok_or (get_demand s k) ''missing_retirement_root'') (\<lambda>r.
     res_bind (ok_or (archive_members s r) ''missing_retirement_member'') (\<lambda>ks.
       Inr (ArchiveGroup r ks (List.map_filter (get_demand s) ks) (calls_of s ks)
         (om_retain (\<lambda>_ sc. s_reservation_id sc \<in> set ks) (workspace_scopes s)))))"

text \<open>The first eligible group, else the first finished call, else the expired files. \<open>expired\<close> is whether
  there are any.\<close>

definition plan_maintenance :: "nat \<Rightarrow> bool res \<Rightarrow> document \<Rightarrow> maintenance_plan option res" where
  "plan_maintenance t expired s =
     (case List.find (closed_group_eligible t s) (closed_roots s) of
        Some k \<Rightarrow> res_bind (group_plan s k) (\<lambda>kind. Inr (Some \<lparr>mp_at = t, mp_kind = kind\<rparr>))
      | None \<Rightarrow>
          (case List.map_filter (get_call s) (active_terminal_invocations t s) of
             i # _ \<Rightarrow> Inr (Some \<lparr>mp_at = t, mp_kind = ArchiveCall i (get_demand s (q_reservation_id (i_request i)))\<rparr>)
           | [] \<Rightarrow> res_bind expired (\<lambda>x. Inr (if x then Some \<lparr>mp_at = t, mp_kind = ExpireArchives\<rparr> else None))))"

section \<open>The commit\<close>

text \<open>\<open>serialized_equal\<close> compares the records as JSON, so it is equality here.\<close>

definition call_prepared_eligible :: "nat \<Rightarrow> document \<Rightarrow> invocation \<Rightarrow> bool" where
  "call_prepared_eligible t s i =
     is_some_and (get_call s (i_id i)) (\<lambda>live. live = i \<and> active_invocation_dependencies_clear t s live)"

definition group_prepared_eligible ::
  "nat \<Rightarrow> document \<Rightarrow> demand \<Rightarrow> string list \<Rightarrow> demand list \<Rightarrow> invocation list \<Rightarrow> bool" where
  "group_prepared_eligible t s r ks ms is \<longleftrightarrow>
     get_demand s (d_id r) = Some r \<and>
     (\<forall>k \<in> set ks. is_some_and (get_demand s k) (\<lambda>live. List.find (\<lambda>m. d_id m = k) ms = Some live)) \<and>
     (\<forall>i \<in> set is. get_call s (i_id i) = Some i) \<and>
     closed_group_eligible t s (d_id r)"

definition prepared_eligible :: "maintenance_plan \<Rightarrow> document \<Rightarrow> bool" where
  "prepared_eligible p s =
     (case mp_kind p of
        ArchiveCall i _ \<Rightarrow> call_prepared_eligible (mp_at p) s i
      | ArchiveGroup r ks ms is _ \<Rightarrow> group_prepared_eligible (mp_at p) s r ks ms is
      | ExpireArchives \<Rightarrow> True)"

definition retire_kind :: "nat \<Rightarrow> maintenance_kind \<Rightarrow> document \<Rightarrow> maintenance_report \<times> document" where
  "retire_kind expired kind s =
     (case kind of
        ArchiveCall i _ \<Rightarrow>
          (no_report\<lparr>mt_invocations := 1\<rparr>, s\<lparr>invocations := om_del (i_id i) (invocations s)\<rparr>)
      | ArchiveGroup r ks ms is _ \<Rightarrow>
          (no_report\<lparr>mt_invocations := length is, mt_reservations := 1\<rparr>,
           s\<lparr>invocations := fold (\<lambda>i. om_del (i_id i)) is (invocations s),
             workspace_scopes := om_retain (\<lambda>_ sc. s_reservation_id sc \<notin> set ks) (workspace_scopes s),
             demands := fold om_del ks (demands s)\<rparr>)
      | ExpireArchives \<Rightarrow> (no_report\<lparr>mt_expired := expired\<rparr>, s))"

definition commit_maintenance :: "maintenance_plan \<Rightarrow> nat \<Rightarrow> document \<Rightarrow> (maintenance_report \<times> document) res" where
  "commit_maintenance p expired s =
     Inr (if prepared_eligible p s then retire_kind expired (mp_kind p) s else (no_report, s))"

section \<open>What a commit removes\<close>

lemma map_of_fold_del: "map_of (fold om_del ks m) k = (if k \<in> set ks then None else map_of m k)"
  by (induction ks arbitrary: m) auto

lemma om_ok_fold_dels: "om_ok m \<Longrightarrow> om_ok (fold om_del ks m)"
  by (induction ks arbitrary: m) auto

lemma fold_del_map: "fold (\<lambda>i. om_del (i_id i)) is m = fold om_del (map i_id is) m"
  by (induction "is" arbitrary: m) simp_all

lemma retire_kind_get:
  "get_demand (snd (retire_kind n kind s)) k =
     (case kind of ArchiveGroup r ks ms is ws \<Rightarrow> if k \<in> set ks then None else get_demand s k | _ \<Rightarrow> get_demand s k)"
  "get_call (snd (retire_kind n kind s)) k =
     (case kind of
        ArchiveCall i d \<Rightarrow> if k = i_id i then None else get_call s k
      | ArchiveGroup r ks ms is ws \<Rightarrow> if k \<in> i_id ` set is then None else get_call s k
      | ExpireArchives \<Rightarrow> get_call s k)"
  "claims (snd (retire_kind n kind s)) = claims s"
  by (cases kind; simp add: retire_kind_def fold_del_map map_of_fold_del)+

lemma retire_kind_sub:
  "get_call (snd (retire_kind n kind s)) k \<in> {None, get_call s k}"
  "get_demand (snd (retire_kind n kind s)) k \<in> {None, get_demand s k}"
  by (cases kind; simp add: retire_kind_get)+

lemma commit_sub:
  assumes "commit_maintenance p n s = Inr (rep, s')"
  shows "get_call s' k \<in> {None, get_call s k}" "get_demand s' k \<in> {None, get_demand s k}"
proof -
  have "s' = s \<or> s' = snd (retire_kind n (mp_kind p) s)"
    using assms by (auto simp: commit_maintenance_def split: if_splits)
  then show "get_call s' k \<in> {None, get_call s k}" "get_demand s' k \<in> {None, get_demand s k}"
    using retire_kind_sub[of n "mp_kind p" s k] by auto
qed

lemma retire_kind_maps: "maps_ok s \<Longrightarrow> maps_ok (snd (retire_kind n kind s))"
  by (cases kind) (simp_all add: maps_ok_def retire_kind_def fold_del_map om_ok_fold_dels)

text \<open>A group that passes the check of the commit: its members are the recorded ones, and none holds anything.\<close>

lemma group_eligible:
  assumes "group_prepared_eligible t s r ks ms is" and "archive_members s r = Some ks"
  shows "\<forall>m \<in> set ks. \<exists>d. get_demand s m = Some d \<and> demand_retirable s d"
    "\<forall>i \<in> set (calls_of s ks). invocation_retirable_after_closure t s ks i" "d_reservation_closed r \<noteq> None"
    "\<forall>i \<in> set is. get_call s (i_id i) = Some i"
  using assms by (auto simp: group_prepared_eligible_def closed_group_eligible_def is_some_and_iff)

text \<open>The members a plan recorded are those of its root, and its calls belong to them.\<close>

lemma plan_cases:
  assumes "plan_maintenance t x s = Inr (Some p)"
  obtains k r where "mp_at p = t" "get_demand s k = Some r" "k \<in> set (closed_roots s)" "closed_group_eligible t s k"
      "archive_members s r \<noteq> None"
      "mp_kind p = ArchiveGroup r (the (archive_members s r)) (List.map_filter (get_demand s) (the (archive_members s r)))
         (calls_of s (the (archive_members s r)))
         (om_retain (\<lambda>_ sc. s_reservation_id sc \<in> set (the (archive_members s r))) (workspace_scopes s))"
    | i k where "mp_at p = t" "mp_kind p = ArchiveCall i (get_demand s (q_reservation_id (i_request i)))"
        "k \<in> set (active_terminal_invocations t s)" "get_call s k = Some i"
    | "mp_at p = t" "mp_kind p = ExpireArchives" "x = Inr True"
proof (cases "List.find (closed_group_eligible t s) (closed_roots s)")
  case (Some k)
  then have k: "k \<in> set (closed_roots s)" "closed_group_eligible t s k" using find_Some_mem[OF Some] by auto
  obtain kind where kind: "group_plan s k = Inr kind" "p = \<lparr>mp_at = t, mp_kind = kind\<rparr>"
    using assms Some by (auto simp: plan_maintenance_def res_bind_eq_Inr)
  then obtain r ks where "get_demand s k = Some r" "archive_members s r = Some ks"
      "kind = ArchiveGroup r ks (List.map_filter (get_demand s) ks) (calls_of s ks)
         (om_retain (\<lambda>_ sc. s_reservation_id sc \<in> set ks) (workspace_scopes s))"
    by (auto simp: group_plan_def res_simps)
  with that(1)[of k r] k kind(2) show thesis by simp
next
  case None
  show thesis
  proof (cases "List.map_filter (get_call s) (active_terminal_invocations t s)")
    case Nil
    then show ?thesis using assms None that(3) by (auto simp: plan_maintenance_def res_bind_eq_Inr split: if_splits)
  next
    case (Cons i xs)
    then have "i \<in> set (List.map_filter (get_call s) (active_terminal_invocations t s))" by simp
    then obtain k where "k \<in> set (active_terminal_invocations t s)" "get_call s k = Some i"
      by (auto simp: map_filter_def)
    then show ?thesis using assms None Cons that(2)[of i k] by (auto simp: plan_maintenance_def)
  qed
qed

lemma demand_retirable_simps:
  assumes "demand_retirable s d"
  shows "\<not> d_effect_started d" "d_state d \<notin> holding" "get_claim s r \<noteq> Some (d_id d)"
  using assms by (auto simp: demand_retirable_def holding_def dest: in_om_valsI)

lemma find_id: "List.find (\<lambda>m. d_id m = k) ms = Some d \<Longrightarrow> d \<in> set ms \<and> d_id d = k"
  using find_Some_mem[of "\<lambda>m. d_id m = k" ms d] by simp

text \<open>What the commit removes of a plan made on an earlier document: a plan for one call removes that call, a
  plan for a group the demands of the group, and its calls.\<close>

lemma commit_group:
  assumes plan: "plan_maintenance t x s0 = Inr (Some p)" and kind: "mp_kind p = ArchiveGroup r ks ms is ws"
    and el: "prepared_eligible p s" and i0: "doc_inv s0" and inv: "doc_inv s"
  shows "archive_members s r = Some ks" "mp_at p = t" "is = calls_of s0 ks"
proof -
  from plan obtain k where k: "mp_at p = t" "get_demand s0 k = Some r" "archive_members s0 r = Some ks" "is = calls_of s0 ks"
    by (cases rule: plan_cases) (use kind in auto)
  have "group_prepared_eligible t s r ks ms is" using el kind k(1) by (simp add: prepared_eligible_def)
  then have "\<forall>m \<in> set ks. get_demand s m \<noteq> None"
    by (auto simp: group_prepared_eligible_def is_some_and_iff)
  then show "archive_members s r = Some ks" using k(3) by (auto simp: archive_members_def split: if_splits)
  show "mp_at p = t" "is = calls_of s0 ks" using k by simp_all
qed

lemma commit_spares:
  assumes plan: "plan_maintenance t x s0 = Inr (Some p)" and i0: "doc_inv s0" and inv: "doc_inv s"
    and c: "commit_maintenance p n s = Inr (rep, s')"
  shows "(\<forall>k i. get_call s k = Some i \<longrightarrow> get_call s' k = Some i \<or>
      get_call s' k = None \<and> i_state i \<notin> {Queued, Running} \<and>
      (i_state i = Uncertain \<longrightarrow> physical_cleanup_proven s (q_reservation_id (i_request i)))) \<and>
    (\<forall>k d. get_demand s k = Some d \<longrightarrow> get_demand s' k = Some d \<or>
      get_demand s' k = None \<and> d_process d = None \<and> \<not> d_effect_started d \<and> (\<forall>r. get_claim s r \<noteq> Some k) \<and>
      d_state d \<in> {Released, Cancelled, Expired, Preempted}) \<and>
    claims s' = claims s"
proof (cases "prepared_eligible p s")
  case False
  then have "s' = s" using c by (simp add: commit_maintenance_def)
  then show ?thesis by simp
next
  case True
  then have s': "s' = snd (retire_kind n (mp_kind p) s)" using c by (simp add: commit_maintenance_def)
  have ids: "i_id i = k" if "get_call s k = Some i" for k i using inv that by (auto simp: doc_inv_def)
  from plan show ?thesis
  proof (cases rule: plan_cases)
    case (1 k r)
    then obtain ks where ks: "archive_members s0 r = Some ks" by auto
    note kind = 1(6)[unfolded ks option.sel]
    note el = True[unfolded prepared_eligible_def kind maintenance_kind.case]
    note mem = commit_group(1)[OF plan kind True i0 inv]
    note g = group_eligible[OF el mem]
    have call: "i_state i \<notin> {Queued, Running} \<and>
        (i_state i = Uncertain \<longrightarrow> physical_cleanup_proven s (q_reservation_id (i_request i)))"
      if i: "get_call s j = Some i" "j \<in> i_id ` set (calls_of s0 ks)" for j i
    proof -
      obtain i0 where i0: "i0 \<in> set (calls_of s0 ks)" "j = i_id i0" using i(2) by blast
      then have "i = i0" using g(4) i(1) by auto
      then have "i \<in> set (calls_of s ks)"
        using i0(1) in_om_valsI[OF i(1)] by (simp add: calls_of_def)
      then show ?thesis using g(2) by (auto simp: invocation_retirable_after_closure_def)
    qed
    have dem: "d_process d = None \<and> \<not> d_effect_started d \<and> (\<forall>r. get_claim s r \<noteq> Some m) \<and>
        d_state d \<in> {Released, Cancelled, Expired, Preempted}" if d: "get_demand s m = Some d" "m \<in> set ks" for m d
    proof -
      have r: "demand_retirable s d" using g(1) d by auto
      have m: "d_id d = m" "d_state d \<noteq> Unavailable" using inv d(1) by (auto simp: doc_inv_def live_ok_def)
      show ?thesis using r m(2) demand_retirable_simps(3)[OF r] m(1) by (auto simp: demand_retirable_def)
    qed
    show ?thesis
      unfolding s' kind retire_kind_get maintenance_kind.case using call dem by auto
  next
    case (2 i k)
    have i: "get_call s (i_id i) = Some i" using True 2(2) by (simp add: prepared_eligible_def call_prepared_eligible_def is_some_and_iff)
    obtain y where y: "y \<in> set (om_vals (invocations s0))" "i_id y = k" "i_state y \<in> {Completed, CancelledCall, Failed, ExpiredCall}"
      using 2(3) by (auto simp: active_terminal_invocations_def)
    obtain q where q: "get_call s0 q = Some y"
      using y(1) i0 by (auto simp: in_om_vals_iff doc_inv_def maps_ok_def)
    have "q = k" using i0 q y(2) by (auto simp: doc_inv_def)
    then have "y = i" using q 2(4) by simp
    then have "i_state i \<notin> {Queued, Running} \<and> i_state i \<noteq> Uncertain" using y(3) by auto
    then show ?thesis unfolding s' 2(2) retire_kind_get maintenance_kind.case using i by auto
  next
    case 3
    then show ?thesis unfolding s' 3(2) retire_kind_get maintenance_kind.case by simp
  qed
qed

lemma commit_maintenance_inv:
  assumes "plan_maintenance t x s0 = Inr (Some p)" and "doc_inv s0" and inv: "doc_inv s"
    and c: "commit_maintenance p n s = Inr (rep, s')"
  shows "doc_inv s'"
proof -
  note sp = commit_spares[OF assms]
  have claims: "claims s' = claims s" using sp by blast
  have keep: "get_demand s' m = Some d \<or> (\<forall>r. get_claim s r \<noteq> Some m)" if "get_demand s m = Some d" for m d
    using sp that by blast
  note new = commit_sub[OF c]
  have "maps_ok s'"
    using c inv retire_kind_maps[of s n "mp_kind p"]
    by (cases "prepared_eligible p s") (auto simp: commit_maintenance_def doc_inv_def)
  moreover have "d_id d = k \<and> live_ok d \<and> (d_effect_started d \<longrightarrow> owns s' d \<and> d_state d \<in> holding)"
    if "get_demand s' k = Some d" for k d
  proof -
    have "get_demand s k = Some d" using new(2)[where k = k] that by simp
    then have "d_id d = k \<and> live_ok d \<and> (d_effect_started d \<longrightarrow> owns s d \<and> d_state d \<in> holding)"
      using inv unfolding doc_inv_def by blast
    then show ?thesis using claims by (simp add: owns_def)
  qed
  moreover have "i_id i = k" if "get_call s' k = Some i" for k i
    using new(1)[where k = k] that inv by (auto simp: doc_inv_def)
  moreover have "\<exists>d. get_demand s' k = Some d \<and> r \<in> set (p_resources (d_profile d)) \<and> d_state d \<in> holding"
    if "get_claim s' r = Some k" for r k
  proof -
    have "get_claim s r = Some k" using that claims by simp
    moreover from this obtain d where "get_demand s k = Some d" "r \<in> set (p_resources (d_profile d))" "d_state d \<in> holding"
      using inv unfolding doc_inv_def by blast
    ultimately show ?thesis using keep[of k d] by blast
  qed
  ultimately show ?thesis by (simp add: doc_inv_def)
qed

text \<open>The commit as a transaction on the authority: the plan was made on an earlier document.\<close>

interpretation commit_maintenance: authority_op doc_inv
  "\<lambda>_. \<exists>t x s0. plan_maintenance t x s0 = Inr (Some p) \<and> doc_inv s0" "commit_maintenance p n" for p n
  by unfold_locales (use commit_maintenance_inv in blast)

end
