(* ===== verification/Archive_Files.thy ===== *)
theory Archive_Files
  imports Archive
begin

text \<open>
  The files of the history archive: their staging, their publication, the lookups of replays and views, and
  the removal of what has expired. A path names a file by its owner and identities; the source hashes them
  with SHA-256, so distinct identities are taken to be distinct files. The archive is a list of files in the
  order a directory lists them, which is arbitrary.
\<close>

section \<open>Files\<close>

datatype archive_path =
    InvocationPath string string
  | ReservationPath string string
  | SubmissionPath string string string
  | WorkPath string string
  | AcquisitionPath string string

fun path_owner :: "archive_path \<Rightarrow> string" where
  "path_owner (InvocationPath owner k) = owner"
| "path_owner (ReservationPath owner k) = owner"
| "path_owner (SubmissionPath owner r k) = owner"
| "path_owner (WorkPath owner k) = owner"
| "path_owner (AcquisitionPath owner k) = owner"

datatype archive_file =
    InvocationFile invocation_archive
  | ReservationFile reservation_archive
  | InvocationPointerFile invocation_pointer
  | ReservationPointerFile reservation_pointer
  | UnreadableFile string

type_synonym archive = "(archive_path \<times> archive_file) list"

definition put_file :: "archive_path \<Rightarrow> archive_file \<Rightarrow> archive \<Rightarrow> archive" where
  "put_file p v fs =
     (if map_of fs p = None then fs @ [(p, v)] else map (\<lambda>(q, w). if q = p then (q, v) else (q, w)) fs)"

text \<open>What the file system answers: errors of reading (other than a missing file), of staging, of writing and
  of removing, and a fault of the payload store.\<close>

record archive_io =
  ao_read :: "archive_path \<Rightarrow> unit res"
  ao_entries :: "unit res"
  ao_stage :: "nat \<Rightarrow> unit res"
  ao_staged :: "nat \<Rightarrow> unit res"
  ao_write :: "archive_path \<Rightarrow> write_fault"
  ao_remove :: "archive_path \<Rightarrow> unit res"
  ao_payload :: "string option"

definition as_invocation :: "archive_file \<Rightarrow> invocation_archive res" where
  "as_invocation f = (case f of InvocationFile a \<Rightarrow> Inr a | UnreadableFile e \<Rightarrow> Inl e | _ \<Rightarrow> Inl ''missing field'')"

definition as_reservation :: "archive_file \<Rightarrow> reservation_archive res" where
  "as_reservation f = (case f of ReservationFile a \<Rightarrow> Inr a | UnreadableFile e \<Rightarrow> Inl e | _ \<Rightarrow> Inl ''missing field'')"

definition as_invocation_pointer :: "archive_file \<Rightarrow> invocation_pointer res" where
  "as_invocation_pointer f =
     (case f of InvocationPointerFile p \<Rightarrow> Inr p | UnreadableFile e \<Rightarrow> Inl e | _ \<Rightarrow> Inl ''missing field'')"

definition as_reservation_pointer :: "archive_file \<Rightarrow> reservation_pointer res" where
  "as_reservation_pointer f =
     (case f of ReservationPointerFile p \<Rightarrow> Inr p | UnreadableFile e \<Rightarrow> Inl e | _ \<Rightarrow> Inl ''missing field'')"

definition read_json :: "archive_io \<Rightarrow> (archive_file \<Rightarrow> 'a res) \<Rightarrow> archive \<Rightarrow> archive_path \<Rightarrow> 'a option res" where
  "read_json io parse fs p =
     res_bind (ao_read io p) (\<lambda>_.
     case map_of fs p of
       None \<Rightarrow> Inr None
     | Some f \<Rightarrow> res_bind (parse f) (\<lambda>v. Inr (Some v)))"

abbreviation read_invocation :: "archive_io \<Rightarrow> archive \<Rightarrow> string \<Rightarrow> string \<Rightarrow> invocation_archive option res" where
  "read_invocation io fs owner k \<equiv> read_json io as_invocation fs (InvocationPath owner k)"

abbreviation read_reservation :: "archive_io \<Rightarrow> archive \<Rightarrow> string \<Rightarrow> string \<Rightarrow> reservation_archive option res" where
  "read_reservation io fs owner k \<equiv> read_json io as_reservation fs (ReservationPath owner k)"

section \<open>Closure\<close>

text \<open>\<open>apply_closure\<close>: the first closure stands, and the expiry it sets.\<close>

definition apply_closure ::
  "bool \<Rightarrow> nat option \<Rightarrow> nat option \<times> string option \<times> nat option \<Rightarrow> nat option \<times> string option \<times> nat option" where
  "apply_closure preserved candidate old =
     (let (closed, source, expires) = old;
          (closed, source) = (case (closed, candidate) of
             (None, Some v) \<Rightarrow> (Some v, Some ''verified_at_retirement'')
           | _ \<Rightarrow> (closed, source)) in
      (closed, source,
       if \<not> preserved \<and> expires = None then map_option (\<lambda>v. sat_add v RETENTION_SECONDS) closed else expires))"

definition close_invocation :: "nat option \<Rightarrow> invocation_archive \<Rightarrow> invocation_archive" where
  "close_invocation candidate a =
     (let (closed, source, expires) =
        apply_closure (ia_preserved a) candidate (ia_closed_at a, ia_closed_at_source a, ia_expires_at a) in
      a\<lparr>ia_closed_at := closed, ia_closed_at_source := source, ia_expires_at := expires\<rparr>)"

definition close_reservation :: "nat option \<Rightarrow> reservation_archive \<Rightarrow> reservation_archive" where
  "close_reservation candidate a =
     (let (closed, source, expires) =
        apply_closure (ra_preserved a) candidate (ra_closed_at a, ra_closed_at_source a, ra_expires_at a) in
      a\<lparr>ra_closed_at := closed, ra_closed_at_source := source, ra_expires_at := expires\<rparr>)"

definition archive_expired :: "nat option \<Rightarrow> nat \<Rightarrow> bool" where
  "archive_expired e t = is_some_and e (\<lambda>x. x \<le> t)"

text \<open>\<open>append_unique\<close>: a new value is inserted and the list sorted.\<close>

definition append_unique :: "string list \<Rightarrow> string \<Rightarrow> string list" where
  "append_unique xs v = (if v \<in> set xs then xs else sort (xs @ [v]))"

section \<open>The archive of a call\<close>

definition new_invocation_archive :: "env \<Rightarrow> invocation \<Rightarrow> invocation_archive res" where
  "new_invocation_archive e i =
     res_bind (if i_state i \<in> {Queued, Running, Uncertain} then Inr i else compact_terminal_request e i) (\<lambda>r.
       Inr \<lparr>ia_schema = ARCHIVE_SCHEMA, ia_owner = i_owner i, ia_invocation_id = i_id i,
         ia_reservation_id = q_reservation_id (i_request i), ia_submission_id = q_submission_id (i_request i),
         ia_work_id = map_option wk_work_id (q_work (i_request i)), ia_closed_at = None,
         ia_closed_at_source = None, ia_expires_at = None, ia_preserved = False, ia_record = r\<rparr>)"

definition invocation_archive_from_snapshot ::
  "env \<Rightarrow> archive_io \<Rightarrow> archive \<Rightarrow> invocation \<Rightarrow> nat option \<Rightarrow> invocation_archive res" where
  "invocation_archive_from_snapshot e io fs i closed =
     res_bind (read_invocation io fs (i_owner i) (i_id i)) (\<lambda>existing.
     res_bind (case existing of
         Some a \<Rightarrow> if ia_owner a \<noteq> i_owner i \<or> ia_invocation_id a \<noteq> i_id i
                   then Inl ''archive_invocation_identity_conflict'' else Inr a
       | None \<Rightarrow> new_invocation_archive e i) (\<lambda>a.
     Inr (close_invocation closed a)))"

section \<open>Staging\<close>

record staged_file =
  sg_path :: archive_path
  sg_contents :: archive_file
  sg_base :: "archive_file option"

definition stage_json ::
  "archive_io \<Rightarrow> archive \<Rightarrow> archive_path \<Rightarrow> archive_file \<Rightarrow> staged_file list \<Rightarrow> staged_file list res" where
  "stage_json io fs p v staged =
     res_bind (ao_read io p) (\<lambda>_.
     res_bind (ao_stage io (length staged)) (\<lambda>_.
       Inr (staged @ [\<lparr>sg_path = p, sg_contents = v, sg_base = map_of fs p\<rparr>])))"

definition stage_invocation_value ::
  "archive_io \<Rightarrow> archive \<Rightarrow> invocation_archive \<Rightarrow> staged_file list \<Rightarrow> staged_file list res" where
  "stage_invocation_value io fs a =
     stage_json io fs (InvocationPath (ia_owner a) (ia_invocation_id a)) (InvocationFile a)"

definition invocation_pointer_of :: "invocation_archive \<Rightarrow> invocation_pointer" where
  "invocation_pointer_of a = \<lparr>ip_schema = ARCHIVE_SCHEMA, ip_owner = ia_owner a,
     ip_invocation_id = ia_invocation_id a, ip_expires_at = ia_expires_at a\<rparr>"

definition stage_invocation_indexes ::
  "archive_io \<Rightarrow> archive \<Rightarrow> invocation_archive \<Rightarrow> staged_file list \<Rightarrow> staged_file list res" where
  "stage_invocation_indexes io fs a staged =
     (let v = InvocationPointerFile (invocation_pointer_of a) in
      res_bind (stage_json io fs (SubmissionPath (ia_owner a) (ia_reservation_id a) (ia_submission_id a)) v staged) (\<lambda>staged.
      case ia_work_id a of
        None \<Rightarrow> Inr staged
      | Some w \<Rightarrow> stage_json io fs (WorkPath (ia_owner a) w) v staged))"

definition stage_reservation_archive ::
  "archive_io \<Rightarrow> archive \<Rightarrow> reservation_archive \<Rightarrow> staged_file list \<Rightarrow> staged_file list res" where
  "stage_reservation_archive io fs a staged =
     res_bind (stage_json io fs (ReservationPath (ra_owner a) (ra_reservation_id a)) (ReservationFile a) staged) (\<lambda>staged.
     case ra_acquisition_id a of
       None \<Rightarrow> Inr staged
     | Some q \<Rightarrow> stage_json io fs (AcquisitionPath (ra_owner a) q)
         (ReservationPointerFile \<lparr>rp_schema = ARCHIVE_SCHEMA, rp_owner = ra_owner a,
            rp_reservation_id = ra_reservation_id a, rp_expires_at = ra_expires_at a\<rparr>) staged)"

definition active_reservation_archive :: "invocation_archive \<Rightarrow> demand option \<Rightarrow> reservation_archive" where
  "active_reservation_archive a d = \<lparr>ra_schema = ARCHIVE_SCHEMA, ra_owner = ia_owner a,
     ra_reservation_id = ia_reservation_id a,
     ra_acquisition_id = map_option r_acquisition_id (Option.bind d d_reserve_request),
     ra_request = Option.bind d d_reserve_request, ra_result = Option.bind d d_reserve_result,
     ra_closed_at = None, ra_closed_at_source = None, ra_expires_at = None, ra_preserved = False,
     ra_demands = opt_list d, ra_invocation_ids = [], ra_workspace_scopes = []\<rparr>"

definition stage_reservation_index ::
  "archive_io \<Rightarrow> archive \<Rightarrow> demand option \<Rightarrow> invocation_archive \<Rightarrow> staged_file list \<Rightarrow> staged_file list res" where
  "stage_reservation_index io fs d a staged =
     res_bind (read_reservation io fs (ia_owner a) (ia_reservation_id a)) (\<lambda>existing.
     let r = (case existing of Some r \<Rightarrow> r | None \<Rightarrow> active_reservation_archive a d);
         r = r\<lparr>ra_invocation_ids := append_unique (ra_invocation_ids r) (ia_invocation_id a)\<rparr>;
         r = (if ia_closed_at a \<noteq> None then close_reservation (ia_closed_at a) r else r) in
     stage_reservation_archive io fs r staged)"

definition stage_call ::
  "env \<Rightarrow> archive_io \<Rightarrow> archive \<Rightarrow> invocation \<Rightarrow> demand option \<Rightarrow> nat option \<Rightarrow> bool \<Rightarrow> staged_file list
     \<Rightarrow> (invocation_archive \<times> staged_file list) res" where
  "stage_call e io fs i d closed index staged =
     res_bind (invocation_archive_from_snapshot e io fs i closed) (\<lambda>a.
     res_bind (stage_invocation_value io fs a staged) (\<lambda>staged.
     res_bind (stage_invocation_indexes io fs a staged) (\<lambda>staged.
     res_bind (if index then stage_reservation_index io fs d a staged else Inr staged) (\<lambda>staged.
       Inr (a, staged)))))"

section \<open>Preparing a plan\<close>

record prepared_maintenance =
  pm_plan :: maintenance_plan
  pm_staged :: "staged_file list"
  pm_expired :: nat

definition closed_reservation_archive ::
  "archive_io \<Rightarrow> archive \<Rightarrow> demand \<Rightarrow> string list \<Rightarrow> demand list \<Rightarrow> invocation list
     \<Rightarrow> (string, workspace_scope) omap \<Rightarrow> nat \<Rightarrow> reservation_archive res" where
  "closed_reservation_archive io fs r ks ms is ws t =
     res_bind (read_reservation io fs (d_owner r) (d_id r)) (\<lambda>existing.
     let mine = map i_id (filter (\<lambda>i. q_reservation_id (i_request i) \<in> set ks) is);
         a = \<lparr>ra_schema = ARCHIVE_SCHEMA, ra_owner = d_owner r, ra_reservation_id = d_id r,
           ra_acquisition_id = map_option r_acquisition_id (d_reserve_request r),
           ra_request = d_reserve_request r, ra_result = d_reserve_result r,
           ra_closed_at = Option.bind existing ra_closed_at,
           ra_closed_at_source = Option.bind existing ra_closed_at_source,
           ra_expires_at = Option.bind existing ra_expires_at,
           ra_preserved = is_some_and existing ra_preserved, ra_demands = ms,
           ra_invocation_ids = foldl append_unique (case existing of None \<Rightarrow> [] | Some x \<Rightarrow> ra_invocation_ids x) mine,
           ra_workspace_scopes = ws\<rparr> in
     Inr (close_reservation (Some t) a))"

text \<open>The calls of a group, and then every call its archive lists.\<close>

fun stage_group_calls ::
  "env \<Rightarrow> archive_io \<Rightarrow> archive \<Rightarrow> nat \<Rightarrow> demand list \<Rightarrow> invocation list \<Rightarrow> invocation_archive list \<Rightarrow> staged_file list
     \<Rightarrow> (invocation_archive list \<times> staged_file list) res" where
  "stage_group_calls e io fs t ms [] made staged = Inr (made, staged)"
| "stage_group_calls e io fs t ms (i # is) made staged =
     res_bind (stage_call e io fs i (List.find (\<lambda>m. d_id m = q_reservation_id (i_request i)) ms) (Some t) False staged)
       (\<lambda>(a, staged). stage_group_calls e io fs t ms is (made @ [a]) staged)"

definition stage_closure ::
  "archive_io \<Rightarrow> archive \<Rightarrow> reservation_archive \<Rightarrow> invocation_archive \<Rightarrow> staged_file list \<Rightarrow> staged_file list res" where
  "stage_closure io fs r a staged =
     (let a = close_invocation (ra_closed_at r) a in
      res_bind (stage_invocation_value io fs a staged) (\<lambda>staged. stage_invocation_indexes io fs a staged))"

fun stage_listed ::
  "archive_io \<Rightarrow> archive \<Rightarrow> reservation_archive \<Rightarrow> invocation_archive list \<Rightarrow> string list \<Rightarrow> staged_file list
     \<Rightarrow> staged_file list res" where
  "stage_listed io fs r made [] staged = Inr staged"
| "stage_listed io fs r made (k # ks) staged =
     res_bind (case List.find (\<lambda>a. ia_invocation_id a = k) (rev made) of
         Some a \<Rightarrow> Inr (Some a)
       | None \<Rightarrow> read_invocation io fs (ra_owner r) k) (\<lambda>x.
     res_bind (case x of None \<Rightarrow> Inr staged | Some a \<Rightarrow> stage_closure io fs r a staged) (\<lambda>staged.
       stage_listed io fs r made ks staged))"

definition prepare_group ::
  "env \<Rightarrow> archive_io \<Rightarrow> archive \<Rightarrow> nat \<Rightarrow> demand \<Rightarrow> string list \<Rightarrow> demand list \<Rightarrow> invocation list
     \<Rightarrow> (string, workspace_scope) omap \<Rightarrow> staged_file list res" where
  "prepare_group e io fs t r ks ms is ws =
     res_bind (stage_group_calls e io fs t ms is [] []) (\<lambda>(made, staged).
     res_bind (closed_reservation_archive io fs r ks ms is ws t) (\<lambda>a.
     res_bind (stage_reservation_archive io fs a staged) (\<lambda>staged.
       stage_listed io fs a made (ra_invocation_ids a) staged)))"

section \<open>Expiry\<close>

definition owner_dirs :: "archive \<Rightarrow> string list" where
  "owner_dirs fs = remdups (map (path_owner \<circ> fst) fs)"

definition archives_in :: "archive_io \<Rightarrow> (archive_file \<Rightarrow> 'a res) \<Rightarrow> (archive_path \<Rightarrow> bool) \<Rightarrow> archive \<Rightarrow> 'a list res" where
  "archives_in io parse dir fs =
     res_bind (ao_entries io) (\<lambda>_.
     map_res (\<lambda>(p, f). res_bind (ao_read io p) (\<lambda>_. parse f)) (filter (\<lambda>(p, f). dir p) fs))"

definition invocation_archives :: "archive_io \<Rightarrow> archive \<Rightarrow> string \<Rightarrow> invocation_archive list res" where
  "invocation_archives io fs owner =
     archives_in io as_invocation (\<lambda>p. case p of InvocationPath x _ \<Rightarrow> x = owner | _ \<Rightarrow> False) fs"

definition reservation_archives :: "archive_io \<Rightarrow> archive \<Rightarrow> string \<Rightarrow> reservation_archive list res" where
  "reservation_archives io fs owner =
     archives_in io as_reservation (\<lambda>p. case p of ReservationPath x _ \<Rightarrow> x = owner | _ \<Rightarrow> False) fs"

definition invocation_expired :: "nat \<Rightarrow> invocation_archive \<Rightarrow> bool" where
  "invocation_expired t a \<longleftrightarrow> \<not> ia_preserved a \<and> archive_expired (ia_expires_at a) t"

definition reservation_expired :: "nat \<Rightarrow> reservation_archive \<Rightarrow> bool" where
  "reservation_expired t a \<longleftrightarrow> \<not> ra_preserved a \<and> archive_expired (ra_expires_at a) t"

definition expired_archive_exists :: "archive_io \<Rightarrow> nat \<Rightarrow> archive \<Rightarrow> bool res" where
  "expired_archive_exists io t fs =
     fold_res (\<lambda>owner found.
       if found then Inr True
       else res_bind (invocation_archives io fs owner) (\<lambda>xs.
         if list_ex (invocation_expired t) xs then Inr True
         else res_bind (reservation_archives io fs owner) (\<lambda>ys. Inr (list_ex (reservation_expired t) ys))))
       (owner_dirs fs) False"

text \<open>A removal that fails ends the pass, with what was removed before.\<close>

fun remove_archived :: "archive_io \<Rightarrow> archive_path list \<Rightarrow> archive \<Rightarrow> unit res \<times> archive" where
  "remove_archived io [] fs = (Inr (), fs)"
| "remove_archived io (p # ps) fs =
     (case ao_remove io p of Inl e \<Rightarrow> (Inl e, fs) | Inr _ \<Rightarrow> remove_archived io ps (om_del p fs))"

fun expire_calls ::
  "archive_io \<Rightarrow> nat \<Rightarrow> invocation_archive list \<Rightarrow> nat \<Rightarrow> archive \<times> files \<Rightarrow> nat res \<times> archive \<times> files" where
  "expire_calls io t [] n (fs, pl) = (Inr n, fs, pl)"
| "expire_calls io t (a # as) n (fs, pl) =
     (if \<not> invocation_expired t a then expire_calls io t as n (fs, pl)
      else (case remove_invocation_payloads (ao_payload io) (ia_record a) pl of
              (Inl e, pl) \<Rightarrow> (Inl e, fs, pl)
            | (Inr _, pl) \<Rightarrow>
                (case remove_archived io ([InvocationPath (ia_owner a) (ia_invocation_id a),
                     SubmissionPath (ia_owner a) (ia_reservation_id a) (ia_submission_id a)] @
                     map (WorkPath (ia_owner a)) (opt_list (ia_work_id a))) fs of
                   (Inl e, fs) \<Rightarrow> (Inl e, fs, pl)
                 | (Inr _, fs) \<Rightarrow> expire_calls io t as (Suc n) (fs, pl))))"

fun expire_reservations ::
  "archive_io \<Rightarrow> nat \<Rightarrow> reservation_archive list \<Rightarrow> nat \<Rightarrow> archive \<Rightarrow> nat res \<times> archive" where
  "expire_reservations io t [] n fs = (Inr n, fs)"
| "expire_reservations io t (a # as) n fs =
     (if \<not> reservation_expired t a then expire_reservations io t as n fs
      else (case remove_archived io (ReservationPath (ra_owner a) (ra_reservation_id a) #
                   map (AcquisitionPath (ra_owner a)) (opt_list (ra_acquisition_id a))) fs of
              (Inl e, fs) \<Rightarrow> (Inl e, fs)
            | (Inr _, fs) \<Rightarrow> expire_reservations io t as (Suc n) fs))"

fun expire_owners :: "archive_io \<Rightarrow> nat \<Rightarrow> string list \<Rightarrow> nat \<Rightarrow> archive \<times> files \<Rightarrow> nat res \<times> archive \<times> files" where
  "expire_owners io t [] n (fs, pl) = (Inr n, fs, pl)"
| "expire_owners io t (owner # os) n (fs, pl) =
     (case invocation_archives io fs owner of
        Inl e \<Rightarrow> (Inl e, fs, pl)
      | Inr as \<Rightarrow>
          (case expire_calls io t as n (fs, pl) of
             (Inl e, fs, pl) \<Rightarrow> (Inl e, fs, pl)
           | (Inr n, fs, pl) \<Rightarrow>
               (case reservation_archives io fs owner of
                  Inl e \<Rightarrow> (Inl e, fs, pl)
                | Inr rs \<Rightarrow>
                    (case expire_reservations io t rs n fs of
                       (Inl e, fs) \<Rightarrow> (Inl e, fs, pl)
                     | (Inr n, fs) \<Rightarrow> expire_owners io t os n (fs, pl)))))"

definition expire_archives :: "archive_io \<Rightarrow> nat \<Rightarrow> archive \<times> files \<Rightarrow> nat res \<times> archive \<times> files" where
  "expire_archives io t st = expire_owners io t (owner_dirs (fst st)) 0 st"

section \<open>Preparing, publishing\<close>

definition prepare_maintenance ::
  "env \<Rightarrow> archive_io \<Rightarrow> maintenance_plan \<Rightarrow> archive \<times> files \<Rightarrow> prepared_maintenance res \<times> archive \<times> files" where
  "prepare_maintenance e io p st =
     (let ok = (\<lambda>staged n. \<lparr>pm_plan = p, pm_staged = staged, pm_expired = n\<rparr>) in
      case mp_kind p of
        ArchiveCall i d \<Rightarrow>
          (res_bind (stage_call e io (fst st) i d None True []) (\<lambda>(a, staged). Inr (ok staged 0)), st)
      | ArchiveGroup r ks ms is ws \<Rightarrow>
          (res_bind (prepare_group e io (fst st) (mp_at p) r ks ms is ws) (\<lambda>staged. Inr (ok staged 0)), st)
      | ExpireArchives \<Rightarrow>
          (case expire_archives io (mp_at p) st of
             (Inl err, st) \<Rightarrow> (Inl err, st)
           | (Inr n, st) \<Rightarrow> (Inr (ok [] n), st)))"

definition write_file :: "write_fault \<Rightarrow> archive_path \<Rightarrow> archive_file \<Rightarrow> archive \<Rightarrow> unit res \<times> archive" where
  "write_file w p v fs =
     (case w of
        BeforeRename e \<Rightarrow> (Inl e, fs)
      | AfterRename e \<Rightarrow> (Inl e, put_file p v fs)
      | NoFault \<Rightarrow> (Inr (), put_file p v fs))"

text \<open>\<open>publish_staged\<close>: a file is written where nothing or its base still is; its own contents may be there already.\<close>

fun publish_staged :: "archive_io \<Rightarrow> nat \<Rightarrow> staged_file list \<Rightarrow> archive \<Rightarrow> unit res \<times> archive" where
  "publish_staged io n [] fs = (Inr (), fs)"
| "publish_staged io n (g # gs) fs =
     (case res_bind (ao_staged io n) (\<lambda>_. ao_read io (sg_path g)) of
        Inl e \<Rightarrow> (Inl e, fs)
      | Inr _ \<Rightarrow>
          (if map_of fs (sg_path g) = Some (sg_contents g) then publish_staged io (Suc n) gs fs
           else if map_of fs (sg_path g) = sg_base g
           then (case write_file (ao_write io (sg_path g)) (sg_path g) (sg_contents g) fs of
                   (Inl e, fs) \<Rightarrow> (Inl e, fs)
                 | (Inr _, fs) \<Rightarrow> publish_staged io (Suc n) gs fs)
           else (Inl ''history_archive_publish_conflict'', fs)))"

section \<open>A round of maintenance\<close>

text \<open>One round of \<open>retire_history_once\<close>: the plan is made on the document \<open>s0\<close>, checked on \<open>s1\<close> and committed
  on \<open>s2\<close>. \<open>None\<close> ends the rounds.\<close>

definition maintenance_round ::
  "env \<Rightarrow> archive_io \<Rightarrow> document \<Rightarrow> document \<Rightarrow> document \<Rightarrow> archive \<times> files
     \<Rightarrow> maintenance_report option res \<times> document \<times> archive \<times> files" where
  "maintenance_round e io s0 s1 s2 st =
     (let t = now e in
      case plan_maintenance t (expired_archive_exists io t (fst st)) s0 of
        Inl err \<Rightarrow> (Inl err, s2, st)
      | Inr None \<Rightarrow> (Inr None, s2, st)
      | Inr (Some p) \<Rightarrow>
          (case prepare_maintenance e io p st of
             (Inl err, st) \<Rightarrow> (Inl err, s2, st)
           | (Inr m, fs, pl) \<Rightarrow>
               if \<not> prepared_eligible p s1 then (Inr None, s2, fs, pl)
               else
                 (case publish_staged io 0 (pm_staged m) fs of
                    (Inl err, fs) \<Rightarrow> (Inl err, s2, fs, pl)
                  | (Inr _, fs) \<Rightarrow>
                      (case commit_maintenance p (pm_expired m) s2 of
                         Inl err \<Rightarrow> (Inl err, s2, fs, pl)
                       | Inr (rep, s) \<Rightarrow> (Inr (Some rep), s, fs, pl)))))"

definition report_changed :: "maintenance_report \<Rightarrow> bool" where
  "report_changed r \<longleftrightarrow> 0 < mt_invocations r \<or> 0 < mt_reservations r \<or> 0 < mt_expired r"

definition add_report :: "maintenance_report \<Rightarrow> maintenance_report \<Rightarrow> maintenance_report" where
  "add_report a b = \<lparr>mt_invocations = mt_invocations a + mt_invocations b,
     mt_reservations = mt_reservations a + mt_reservations b, mt_expired = mt_expired a + mt_expired b\<rparr>"

text \<open>The rounds, where nobody else changes the document; the source runs eight.\<close>

fun retire_history ::
  "nat \<Rightarrow> env \<Rightarrow> archive_io \<Rightarrow> maintenance_report \<Rightarrow> document \<Rightarrow> archive \<times> files
     \<Rightarrow> maintenance_report res \<times> document \<times> archive \<times> files" where
  "retire_history 0 e io acc s st = (Inr acc, s, st)"
| "retire_history (Suc n) e io acc s st =
     (case maintenance_round e io s s s st of
        (Inl err, s, st) \<Rightarrow> (Inl err, s, st)
      | (Inr None, s, st) \<Rightarrow> (Inr acc, s, st)
      | (Inr (Some r), s, st) \<Rightarrow>
          if report_changed r then retire_history n e io (add_report acc r) s st
          else (Inr (add_report acc r), s, st))"

section \<open>Lookups\<close>

text \<open>\<open>hydrate\<close> restores the bodies of a record from the payload store.\<close>

definition lookup_invocation ::
  "nat \<Rightarrow> archive_io \<Rightarrow> (invocation \<Rightarrow> invocation res) \<Rightarrow> archive \<Rightarrow> string \<Rightarrow> string \<Rightarrow> invocation option res" where
  "lookup_invocation t io hydrate fs owner k =
     res_bind (read_invocation io fs owner k) (\<lambda>x.
     case x of
       None \<Rightarrow> Inr None
     | Some a \<Rightarrow>
         if archive_expired (ia_expires_at a) t then Inr None
         else res_bind (hydrate (ia_record a)) (\<lambda>i. Inr (Some i)))"

definition lookup_pointed ::
  "nat \<Rightarrow> archive_io \<Rightarrow> (invocation \<Rightarrow> invocation res) \<Rightarrow> archive \<Rightarrow> string \<Rightarrow> archive_path \<Rightarrow> invocation option res" where
  "lookup_pointed t io hydrate fs owner path =
     res_bind (read_json io as_invocation_pointer fs path) (\<lambda>x.
     case x of
       None \<Rightarrow> Inr None
     | Some p \<Rightarrow>
         if ip_owner p \<noteq> owner \<or> archive_expired (ip_expires_at p) t then Inr None
         else lookup_invocation t io hydrate fs owner (ip_invocation_id p))"

definition lookup_work ::
  "nat \<Rightarrow> archive_io \<Rightarrow> (invocation \<Rightarrow> invocation res) \<Rightarrow> archive \<Rightarrow> string \<Rightarrow> string \<Rightarrow> invocation option res" where
  "lookup_work t io hydrate fs owner w = lookup_pointed t io hydrate fs owner (WorkPath owner w)"

definition lookup_submission ::
  "nat \<Rightarrow> archive_io \<Rightarrow> (invocation \<Rightarrow> invocation res) \<Rightarrow> archive \<Rightarrow> string \<Rightarrow> string \<Rightarrow> string
     \<Rightarrow> invocation option res" where
  "lookup_submission t io hydrate fs owner r k = lookup_pointed t io hydrate fs owner (SubmissionPath owner r k)"

definition lookup_reservation_replay ::
  "nat \<Rightarrow> archive_io \<Rightarrow> archive \<Rightarrow> string \<Rightarrow> string \<Rightarrow> (reserve \<times> json) option res" where
  "lookup_reservation_replay t io fs owner q =
     res_bind (read_json io as_reservation_pointer fs (AcquisitionPath owner q)) (\<lambda>x.
     case x of
       None \<Rightarrow> Inr None
     | Some p \<Rightarrow>
         if rp_owner p \<noteq> owner \<or> archive_expired (rp_expires_at p) t then Inr None
         else res_bind (read_reservation io fs owner (rp_reservation_id p)) (\<lambda>y.
           case y of
             None \<Rightarrow> Inr None
           | Some a \<Rightarrow>
               if archive_expired (ra_expires_at a) t then Inr None
               else Inr (case (ra_request a, ra_result a) of (Some q, Some v) \<Rightarrow> Some (q, v) | _ \<Rightarrow> None)))"

definition archived_demand :: "reservation_archive \<Rightarrow> string \<Rightarrow> demand option" where
  "archived_demand a k = List.find (\<lambda>d. d_id d = k \<and> d_owner d = ra_owner a) (ra_demands a)"

definition archived_member_ids :: "demand \<Rightarrow> string list" where
  "archived_member_ids r = (if d_services r = [] then [d_id r] else om_vals (d_services r))"

definition archived_reservation_view ::
  "(demand \<Rightarrow> json res) \<Rightarrow> reservation_archive \<Rightarrow> json option res" where
  "archived_reservation_view public a =
     (case archived_demand a (ra_reservation_id a) of
        None \<Rightarrow> Inr None
      | Some r \<Rightarrow>
          if \<exists>k \<in> set (archived_member_ids r). archived_demand a k = None then Inr None
          else res_bind (project public r (List.map_filter (archived_demand a) (archived_member_ids r)))
            (\<lambda>v. Inr (Some v)))"

definition lookup_reservation_view ::
  "nat \<Rightarrow> archive_io \<Rightarrow> (demand \<Rightarrow> json res) \<Rightarrow> archive \<Rightarrow> string \<Rightarrow> string \<Rightarrow> json option res" where
  "lookup_reservation_view t io public fs owner k =
     res_bind (read_reservation io fs owner k) (\<lambda>x.
     case x of
       None \<Rightarrow> Inr None
     | Some a \<Rightarrow>
         if ra_owner a \<noteq> owner \<or> archive_expired (ra_expires_at a) t then Inr None
         else res_bind (archived_reservation_view public a) (\<lambda>v.
           Inr (case v of Some v \<Rightarrow> Some v | None \<Rightarrow> ra_result a)))"

text \<open>The first archive that holds the demand, in the order of the directory.\<close>

definition lookup_demand :: "nat \<Rightarrow> archive_io \<Rightarrow> archive \<Rightarrow> string \<Rightarrow> string \<Rightarrow> demand option res" where
  "lookup_demand t io fs owner k =
     res_bind (reservation_archives io fs owner) (\<lambda>as.
     Inr (case List.map_filter (\<lambda>a. List.find (\<lambda>d. d_id d = k) (ra_demands a))
            (filter (\<lambda>a. ra_owner a = owner \<and> \<not> archive_expired (ra_expires_at a) t) as) of
         [] \<Rightarrow> None | d # _ \<Rightarrow> Some d))"

end
