(* ===== verification/Archive_Safety.thy ===== *)
theory Archive_Safety
  imports Archive_Files
begin

text \<open>
  What the history archive promises: a record that leaves the document is found in the archive, the files stand
  where their contents say, the rounds of maintenance end, and where the archive falls short.
\<close>

section \<open>Publishing\<close>

lemma map_of_put_file [simp]: "map_of (put_file p v fs) q = (if q = p then Some v else map_of fs q)"
proof -
  have "map_of (map (\<lambda>(q, w). if q = p then (q, v) else (q, w)) fs) q =
      (if q = p then map_option (\<lambda>_. v) (map_of fs q) else map_of fs q)"
    by (induction fs) auto
  then show ?thesis by (auto simp: put_file_def map_add_def split: option.splits)
qed

text \<open>The last staged contents of a path.\<close>

fun staged_at :: "archive_path \<Rightarrow> staged_file list \<Rightarrow> archive_file option" where
  "staged_at p [] = None"
| "staged_at p (g # gs) =
     (case staged_at p gs of Some v \<Rightarrow> Some v
      | None \<Rightarrow> if sg_path g = p then Some (sg_contents g) else None)"

lemma staged_at_append [simp]:
  "staged_at p (gs @ hs) = (case staged_at p hs of Some v \<Rightarrow> Some v | None \<Rightarrow> staged_at p gs)"
  by (induction gs) (auto split: option.splits)

lemma staged_at_None: "staged_at p gs = None \<longleftrightarrow> p \<notin> sg_path ` set gs"
  by (induction gs) (auto split: option.splits)

section \<open>Where the files stand\<close>

text \<open>Each archive stands under its own owner and identity, a pointer at an index, and every file is readable.\<close>

fun placed_file :: "archive_path \<Rightarrow> archive_file \<Rightarrow> bool" where
  "placed_file p (InvocationFile a) = (p = InvocationPath (ia_owner a) (ia_invocation_id a))"
| "placed_file p (ReservationFile a) = (p = ReservationPath (ra_owner a) (ra_reservation_id a))"
| "placed_file p (InvocationPointerFile x) =
     (case p of SubmissionPath owner r k \<Rightarrow> True | WorkPath owner w \<Rightarrow> True | _ \<Rightarrow> False)"
| "placed_file p (ReservationPointerFile x) = (case p of AcquisitionPath owner q \<Rightarrow> True | _ \<Rightarrow> False)"
| "placed_file p (UnreadableFile e) = False"

definition placed :: "archive \<Rightarrow> bool" where
  "placed fs \<longleftrightarrow> (\<forall>p f. map_of fs p = Some f \<longrightarrow> placed_file p f) \<and> distinct (map fst fs)"

definition staged_ok :: "staged_file list \<Rightarrow> bool" where
  "staged_ok gs \<longleftrightarrow> (\<forall>g \<in> set gs. placed_file (sg_path g) (sg_contents g))"

lemma staged_ok_simps [simp]: "staged_ok []" "staged_ok (gs @ hs) \<longleftrightarrow> staged_ok gs \<and> staged_ok hs"
  by (auto simp: staged_ok_def)

lemma keys_put_file:
  assumes "distinct (map fst fs)" shows "distinct (map fst (put_file p v fs))"
proof (cases "map_of fs p = None")
  case True
  then have "p \<notin> fst ` set fs" by (simp only: map_of_eq_None_iff not_False_eq_True)
  then show ?thesis unfolding put_file_def if_P[OF True] using assms by simp
next
  case False
  have "map fst (map (\<lambda>(q, w). if q = p then (q, v) else (q, w)) fs) = map fst fs"
    by (induction fs) auto
  then show ?thesis unfolding put_file_def if_not_P[OF False] by (simp only: assms)
qed

text \<open>One step of the publication.\<close>

lemma publish_cases:
  assumes "publish_staged io n (g # gs) fs = (x, fs')"
  obtains "fs' = fs" "x \<noteq> Inr ()"
    | "map_of fs (sg_path g) = Some (sg_contents g)" "publish_staged io (Suc n) gs fs = (x, fs')"
    | "ao_write io (sg_path g) = NoFault"
      "publish_staged io (Suc n) gs (put_file (sg_path g) (sg_contents g) fs) = (x, fs')"
    | "fs' = put_file (sg_path g) (sg_contents g) fs" "x \<noteq> Inr ()"
proof (cases "res_bind (ao_staged io n) (\<lambda>_. ao_read io (sg_path g))")
  case (Inl e)
  have "x = Inl e" "fs' = fs" using assms[unfolded publish_staged.simps Inl sum.case] by simp_all
  with that(1) show thesis by simp
next
  case (Inr u)
  note step = assms[unfolded publish_staged.simps Inr sum.case]
  show thesis
  proof (cases "map_of fs (sg_path g) = Some (sg_contents g)")
    case True
    with step show thesis using that(2) by simp
  next
    case False
    show thesis
    proof (cases "map_of fs (sg_path g) = sg_base g")
      case True
      then show thesis
        using step False that(1,3,4) by (cases "ao_write io (sg_path g)") (auto simp: write_file_def)
    next
      case conflict: False
      then show thesis using step False that(1) by auto
    qed
  qed
qed

lemma publish_staged_at:
  assumes "publish_staged io n gs fs = (Inr (), fs')"
  shows "map_of fs' p = (case staged_at p gs of Some v \<Rightarrow> Some v | None \<Rightarrow> map_of fs p)"
  using assms
proof (induction gs arbitrary: n fs)
  case Nil
  then show ?case by simp
next
  case (Cons g gs)
  from Cons.prems show ?case
  proof (cases rule: publish_cases)
    case 2
    then show ?thesis using Cons.IH[OF 2(2)] by (auto split: option.split)
  next
    case 3
    then show ?thesis using Cons.IH[OF 3(2)] by (simp split: option.split)
  qed simp_all
qed

text \<open>Whatever the outcome, a published archive holds old contents or staged ones.\<close>

lemma publish_sub:
  assumes "publish_staged io n gs fs = (x, fs')" and "map_of fs' p = Some v"
  shows "map_of fs p = Some v \<or> (\<exists>g \<in> set gs. sg_path g = p \<and> sg_contents g = v)"
  using assms
proof (induction gs arbitrary: n fs)
  case Nil
  then show ?case by simp
next
  case (Cons g gs)
  from Cons.prems(1) show ?case
  proof (cases rule: publish_cases)
    case 1
    then show ?thesis using Cons.prems(2) by simp
  next
    case 2
    then show ?thesis using Cons.IH[OF 2(2) Cons.prems(2)] by auto
  next
    case 3
    then show ?thesis using Cons.IH[OF 3(2) Cons.prems(2)] by (auto split: if_splits)
  next
    case 4
    then show ?thesis using Cons.prems(2) by (simp split: if_splits)
  qed
qed

lemma publish_keys: "publish_staged io n gs fs = (x, fs') \<Longrightarrow> distinct (map fst fs) \<Longrightarrow> distinct (map fst fs')"
proof (induction gs arbitrary: n fs)
  case (Cons g gs)
  from Cons.prems(1) show ?case
  proof (cases rule: publish_cases)
    case 2
    then show ?thesis using Cons.IH Cons.prems(2) by blast
  next
    case 3
    then show ?thesis using Cons.IH keys_put_file[OF Cons.prems(2)] by blast
  next
    case 1
    then show ?thesis using Cons.prems(2) by simp
  next
    case 4
    then show ?thesis using keys_put_file[OF Cons.prems(2)] by simp
  qed
qed simp

lemma publish_placed:
  assumes "publish_staged io n gs fs = (x, fs')" and "placed fs" and "staged_ok gs"
  shows "placed fs'"
  unfolding placed_def
proof (intro conjI allI impI)
  show "distinct (map fst fs')" using publish_keys[OF assms(1)] assms(2) by (simp add: placed_def)
  fix p f assume "map_of fs' p = Some f"
  from publish_sub[OF assms(1) this] show "placed_file p f"
    using assms(2,3) by (auto simp: placed_def staged_ok_def)
qed

section \<open>Staging\<close>

lemma staged_at_Some: "staged_at p gs = Some v \<Longrightarrow> \<exists>g \<in> set gs. sg_path g = p \<and> sg_contents g = v"
  by (induction gs) (auto split: option.splits if_splits)

lemma staged_at_found: "g \<in> set gs \<Longrightarrow> \<exists>v. staged_at (sg_path g) gs = Some v"
  by (metis image_eqI not_None_eq staged_at_None)

lemma stage_json_Inr:
  "stage_json io fs p v staged = Inr staged' \<longleftrightarrow> ao_read io p = Inr () \<and> ao_stage io (length staged) = Inr () \<and>
     staged' = staged @ [\<lparr>sg_path = p, sg_contents = v, sg_base = map_of fs p\<rparr>]"
  by (auto simp: stage_json_def res_bind_eq_Inr)

text \<open>What a step of the staging adds: files at their places, and no call but those allowed.\<close>

definition adds :: "(invocation_archive \<Rightarrow> bool) \<Rightarrow> staged_file list \<Rightarrow> staged_file list \<Rightarrow> bool" where
  "adds ok staged staged' \<longleftrightarrow> (\<exists>gs. staged' = staged @ gs \<and> staged_ok gs \<and>
     (\<forall>g \<in> set gs. \<forall>b. sg_contents g = InvocationFile b \<longrightarrow> ok b))"

lemma adds_refl: "adds ok staged staged"
  by (auto simp: adds_def)

lemma adds_trans: "adds ok a b \<Longrightarrow> adds ok b c \<Longrightarrow> adds ok a c"
  unfolding adds_def by (elim exE conjE) (auto intro!: exI)

lemma adds_weaken: "adds ok a b \<Longrightarrow> (\<And>x. ok x \<Longrightarrow> ok' x) \<Longrightarrow> adds ok' a b"
  unfolding adds_def by blast

lemma adds_sub: "adds ok a b \<Longrightarrow> set a \<subseteq> set b"
  by (auto simp: adds_def)

lemma adds_one:
  "placed_file p v \<Longrightarrow> (\<And>b. v = InvocationFile b \<Longrightarrow> ok b) \<Longrightarrow>
     adds ok staged (staged @ [\<lparr>sg_path = p, sg_contents = v, sg_base = x\<rparr>])"
  by (auto simp: adds_def staged_ok_def)

lemma stage_json_adds:
  assumes "stage_json io fs p v staged = Inr staged'" and "placed_file p v" and "\<And>b. v = InvocationFile b \<Longrightarrow> ok b"
  shows "adds ok staged staged'"
  using assms by (auto simp: stage_json_Inr intro!: adds_one)

lemma stage_value_adds:
  assumes "stage_invocation_value io fs a staged = Inr staged'" and "ok a"
  shows "adds ok staged staged'"
    "\<exists>g \<in> set staged'. sg_path g = InvocationPath (ia_owner a) (ia_invocation_id a) \<and> sg_contents g = InvocationFile a"
  using assms by (auto simp: stage_invocation_value_def stage_json_Inr intro!: adds_one)

lemma stage_indexes_adds:
  assumes "stage_invocation_indexes io fs a staged = Inr staged'"
  shows "adds ok staged staged'"
proof -
  let ?v = "InvocationPointerFile (invocation_pointer_of a)"
  obtain mid where m: "stage_json io fs (SubmissionPath (ia_owner a) (ia_reservation_id a) (ia_submission_id a)) ?v staged = Inr mid"
    and rest: "(case ia_work_id a of None \<Rightarrow> Inr mid | Some w \<Rightarrow> stage_json io fs (WorkPath (ia_owner a) w) ?v mid) = Inr staged'"
    using assms by (auto simp: stage_invocation_indexes_def Let_def res_bind_eq_Inr)
  have "adds ok staged mid" by (rule stage_json_adds[OF m]) simp_all
  moreover have "adds ok mid staged'"
    using rest by (cases "ia_work_id a") (auto simp: adds_refl intro: stage_json_adds)
  ultimately show ?thesis by (rule adds_trans)
qed

lemma stage_reservation_adds:
  assumes "stage_reservation_archive io fs a staged = Inr staged'"
  shows "adds ok staged staged'"
proof -
  obtain mid where m: "stage_json io fs (ReservationPath (ra_owner a) (ra_reservation_id a)) (ReservationFile a) staged = Inr mid"
    and rest: "(case ra_acquisition_id a of None \<Rightarrow> Inr mid
       | Some q \<Rightarrow> stage_json io fs (AcquisitionPath (ra_owner a) q)
         (ReservationPointerFile \<lparr>rp_schema = ARCHIVE_SCHEMA, rp_owner = ra_owner a,
            rp_reservation_id = ra_reservation_id a, rp_expires_at = ra_expires_at a\<rparr>) mid) = Inr staged'"
    using assms by (auto simp: stage_reservation_archive_def res_bind_eq_Inr)
  have "adds ok staged mid" by (rule stage_json_adds[OF m]) simp_all
  moreover have "adds ok mid staged'"
    using rest by (cases "ra_acquisition_id a") (auto simp: adds_refl intro: stage_json_adds)
  ultimately show ?thesis by (rule adds_trans)
qed

lemma stage_call_adds:
  assumes "stage_call e io fs i d closed index staged = Inr (a, staged')" and ok: "ok a"
  shows "adds ok staged staged'" "invocation_archive_from_snapshot e io fs i closed = Inr a"
    "\<exists>g \<in> set staged'. sg_path g = InvocationPath (ia_owner a) (ia_invocation_id a) \<and> sg_contents g = InvocationFile a"
proof -
  obtain m1 m2 where m: "invocation_archive_from_snapshot e io fs i closed = Inr a"
      "stage_invocation_value io fs a staged = Inr m1" "stage_invocation_indexes io fs a m1 = Inr m2"
      "(if index then stage_reservation_index io fs d a m2 else Inr m2) = Inr staged'"
    using assms(1) by (auto simp: stage_call_def res_bind_eq_Inr)
  note v = stage_value_adds[OF m(2), of ok, OF ok]
  have "adds ok m2 staged'"
    using m(4) by (auto simp: stage_reservation_index_def res_bind_eq_Inr Let_def adds_refl
        intro: stage_reservation_adds split: if_splits)
  then have 1: "adds ok m1 staged'" by (rule adds_trans[OF stage_indexes_adds[OF m(3)]])
  then show "adds ok staged staged'" by (rule adds_trans[OF v(1)])
  show "invocation_archive_from_snapshot e io fs i closed = Inr a" by (rule m(1))
  show "\<exists>g \<in> set staged'. sg_path g = InvocationPath (ia_owner a) (ia_invocation_id a) \<and> sg_contents g = InvocationFile a"
    using v(2) adds_sub[OF 1] by blast
qed

lemma stage_closure_adds:
  assumes "stage_closure io fs r a staged = Inr staged'" and "ok (close_invocation (ra_closed_at r) a)"
  shows "adds ok staged staged'"
proof -
  obtain m where "stage_invocation_value io fs (close_invocation (ra_closed_at r) a) staged = Inr m"
      "stage_invocation_indexes io fs (close_invocation (ra_closed_at r) a) m = Inr staged'"
    using assms(1) by (auto simp: stage_closure_def Let_def res_bind_eq_Inr)
  then show ?thesis using stage_value_adds(1) assms(2) stage_indexes_adds adds_trans by metis
qed

lemma placed_at_invocation:
  "placed_file (InvocationPath owner k) f \<Longrightarrow> \<exists>a. f = InvocationFile a \<and> ia_owner a = owner \<and> ia_invocation_id a = k"
  by (cases f) auto

section \<open>The archive of a call\<close>

lemma close_invocation_sel [simp]:
  "ia_owner (close_invocation c a) = ia_owner a" "ia_invocation_id (close_invocation c a) = ia_invocation_id a"
  "ia_record (close_invocation c a) = ia_record a" "ia_reservation_id (close_invocation c a) = ia_reservation_id a"
  "ia_submission_id (close_invocation c a) = ia_submission_id a" "ia_work_id (close_invocation c a) = ia_work_id a"
  "ia_preserved (close_invocation c a) = ia_preserved a"
  by (simp_all add: close_invocation_def split: prod.splits)

text \<open>The record an archive keeps of a call that had none before.\<close>

definition archived_record :: "env \<Rightarrow> invocation \<Rightarrow> invocation res" where
  "archived_record e i = (if i_state i \<in> {Queued, Running, Uncertain} then Inr i else compact_terminal_request e i)"

text \<open>What an archive of a call keeps: the record of an earlier file, else the record of the call, and the closure.\<close>

definition archives :: "env \<Rightarrow> archive \<Rightarrow> nat option \<Rightarrow> invocation \<Rightarrow> invocation_archive \<Rightarrow> bool" where
  "archives e fs c i a \<longleftrightarrow> ia_owner a = i_owner i \<and> ia_invocation_id a = i_id i \<and>
     (\<forall>b. map_of fs (InvocationPath (i_owner i) (i_id i)) = Some (InvocationFile b) \<longrightarrow> ia_record a = ia_record b) \<and>
     (map_of fs (InvocationPath (i_owner i) (i_id i)) = None \<longrightarrow>
        archived_record e i = Inr (ia_record a) \<and> ia_closed_at a = c \<and>
        ia_expires_at a = map_option (\<lambda>v. sat_add v RETENTION_SECONDS) c)"

lemma close_closed:
  "ia_closed_at a = Some t \<Longrightarrow> ia_expires_at a = Some x \<Longrightarrow> close_invocation c a = a"
  by (simp add: close_invocation_def apply_closure_def)

lemma close_fresh:
  assumes "ia_closed_at a = None" and "ia_expires_at a = None" and "\<not> ia_preserved a"
  shows "ia_closed_at (close_invocation c a) = c"
    "ia_expires_at (close_invocation c a) = map_option (\<lambda>v. sat_add v RETENTION_SECONDS) c"
  using assms by (cases c; simp add: close_invocation_def apply_closure_def)+

lemma archives_close: "archives e fs (Some t) i a \<Longrightarrow> archives e fs (Some t) i (close_invocation c a)"
  unfolding archives_def by (simp add: close_closed)

lemma new_archive_sel:
  assumes "new_invocation_archive e i = Inr a"
  shows "ia_owner a = i_owner i" "ia_invocation_id a = i_id i" "archived_record e i = Inr (ia_record a)"
    "ia_reservation_id a = q_reservation_id (i_request i)" "ia_submission_id a = q_submission_id (i_request i)"
    "ia_work_id a = map_option wk_work_id (q_work (i_request i))" "ia_closed_at a = None" "ia_expires_at a = None"
    "ia_preserved a = False"
  using assms by (auto simp: new_invocation_archive_def archived_record_def res_bind_eq_Inr)

lemma read_invocation_Some:
  "read_invocation io fs owner k = Inr (Some a) \<longleftrightarrow>
     ao_read io (InvocationPath owner k) = Inr () \<and> map_of fs (InvocationPath owner k) = Some (InvocationFile a)"
  by (auto simp: read_json_def as_invocation_def res_bind_eq_Inr split: option.splits archive_file.splits)

lemma read_invocation_None:
  "read_invocation io fs owner k = Inr None \<Longrightarrow> map_of fs (InvocationPath owner k) = None"
  by (simp add: read_json_def res_bind_eq_Inr split: option.splits)

lemma snapshot_archives:
  assumes "invocation_archive_from_snapshot e io fs i c = Inr a"
  shows "archives e fs c i a"
proof -
  obtain x b where x: "read_invocation io fs (i_owner i) (i_id i) = Inr x" "a = close_invocation c b"
    and b: "(case x of Some a \<Rightarrow> if ia_owner a \<noteq> i_owner i \<or> ia_invocation_id a \<noteq> i_id i
               then Inl ''archive_invocation_identity_conflict'' else Inr a
             | None \<Rightarrow> new_invocation_archive e i) = Inr b"
    using assms by (auto simp: invocation_archive_from_snapshot_def res_bind_eq_Inr)
  show ?thesis
  proof (cases x)
    case None
    then have n: "new_invocation_archive e i = Inr b" using b by simp
    note sel = new_archive_sel[OF n]
    have f: "map_of fs (InvocationPath (i_owner i) (i_id i)) = None"
      by (rule read_invocation_None) (use x None in simp)
    show ?thesis unfolding archives_def f x(2) using sel close_fresh[of b c] by simp
  next
    case (Some y)
    have f: "map_of fs (InvocationPath (i_owner i) (i_id i)) = Some (InvocationFile y)"
      using x(1) Some by (simp only: read_invocation_Some)
    have "b = y" "ia_owner y = i_owner i" "ia_invocation_id y = i_id i" using b Some by (simp_all split: if_splits)
    then show ?thesis unfolding archives_def f x(2) by simp
  qed
qed

section \<open>The archive of a group\<close>

lemma stage_group_calls_adds:
  assumes "stage_group_calls e io fs t ms is made staged = Inr (made', staged')"
  shows "\<exists>as. made' = made @ as \<and> list_all2 (archives e fs (Some t)) is as \<and>
    adds (\<lambda>b. b \<in> set as) staged staged' \<and>
    (\<forall>a \<in> set as. \<exists>g \<in> set staged'. sg_path g = InvocationPath (ia_owner a) (ia_invocation_id a) \<and>
       sg_contents g = InvocationFile a)"
  using assms
proof (induction "is" arbitrary: made staged)
  case Nil
  then show ?case by (simp add: adds_refl)
next
  case (Cons i "is")
  obtain a mid where c: "stage_call e io fs i (List.find (\<lambda>m. d_id m = q_reservation_id (i_request i)) ms) (Some t) False staged = Inr (a, mid)"
    and rest: "stage_group_calls e io fs t ms is (made @ [a]) mid = Inr (made', staged')"
    using Cons.prems by (auto simp: res_bind_eq_Inr)
  obtain as where as: "made' = (made @ [a]) @ as" "list_all2 (archives e fs (Some t)) is as" "adds (\<lambda>b. b \<in> set as) mid staged'"
      "\<forall>a \<in> set as. \<exists>g \<in> set staged'. sg_path g = InvocationPath (ia_owner a) (ia_invocation_id a) \<and> sg_contents g = InvocationFile a"
    using Cons.IH[OF rest] by blast
  note call = stage_call_adds[OF c, of "\<lambda>b. b \<in> set (a # as)"]
  have "adds (\<lambda>b. b \<in> set (a # as)) mid staged'" by (rule adds_weaken[OF as(3)]) simp
  moreover have "archives e fs (Some t) i a" using snapshot_archives call(2) by simp
  moreover have "\<exists>g \<in> set staged'. sg_path g = InvocationPath (ia_owner a) (ia_invocation_id a) \<and> sg_contents g = InvocationFile a"
    using call(3) adds_sub[OF as(3)] by auto
  ultimately show ?case
    using as(1,2,4) adds_trans[OF call(1)] by (intro exI[of _ "a # as"]) simp
qed

lemma read_placed:
  assumes "read_invocation io fs owner k = Inr (Some a)" and "placed fs"
  shows "ia_invocation_id a = k" "ia_owner a = owner" "map_of fs (InvocationPath owner k) = Some (InvocationFile a)"
proof -
  show f: "map_of fs (InvocationPath owner k) = Some (InvocationFile a)" using assms(1) by (simp only: read_invocation_Some)
  then have "placed_file (InvocationPath owner k) (InvocationFile a)" using assms(2) unfolding placed_def by blast
  then show "ia_invocation_id a = k" "ia_owner a = owner" by simp_all
qed

lemma stage_listed_adds:
  assumes "stage_listed io fs r made ks staged = Inr staged'" and "placed fs"
  shows "adds (\<lambda>b. \<exists>c a. b = close_invocation c a \<and> ia_invocation_id a \<in> set ks \<and>
    (a \<in> set made \<or> ia_invocation_id a \<notin> ia_invocation_id ` set made \<and>
       map_of fs (InvocationPath (ra_owner r) (ia_invocation_id a)) = Some (InvocationFile a))) staged staged'"
  using assms(1)
proof (induction ks arbitrary: staged)
  case Nil
  then show ?case by (simp add: adds_refl)
next
  case (Cons k ks)
  let ?ok = "\<lambda>ks b. \<exists>c a. b = close_invocation c a \<and> ia_invocation_id a \<in> set ks \<and>
    (a \<in> set made \<or> ia_invocation_id a \<notin> ia_invocation_id ` set made \<and>
       map_of fs (InvocationPath (ra_owner r) (ia_invocation_id a)) = Some (InvocationFile a))"
  obtain x mid where x: "(case List.find (\<lambda>a. ia_invocation_id a = k) (rev made) of
         Some a \<Rightarrow> Inr (Some a) | None \<Rightarrow> read_invocation io fs (ra_owner r) k) = Inr x"
    and mid: "(case x of None \<Rightarrow> Inr staged | Some a \<Rightarrow> stage_closure io fs r a staged) = Inr mid"
    and rest: "stage_listed io fs r made ks mid = Inr staged'"
    using Cons.prems by (auto simp: res_bind_eq_Inr)
  have "adds (?ok (k # ks)) staged mid"
  proof (cases x)
    case None
    then show ?thesis using mid by (simp add: adds_refl)
  next
    case (Some a)
    have "ia_invocation_id a = k \<and> (a \<in> set made \<or> ia_invocation_id a \<notin> ia_invocation_id ` set made \<and>
        map_of fs (InvocationPath (ra_owner r) (ia_invocation_id a)) = Some (InvocationFile a))"
    proof (cases "List.find (\<lambda>a. ia_invocation_id a = k) (rev made)")
      case None
      then have r: "read_invocation io fs (ra_owner r) k = Inr (Some a)" using x Some by simp
      then show ?thesis using read_placed[OF r assms(2)] None by (auto simp: find_None_iff)
    next
      case (Some b)
      then show ?thesis using x \<open>x = Some a\<close> find_Some_mem[OF Some] by auto
    qed
    then show ?thesis using mid Some by (intro stage_closure_adds[of io fs r a]) auto
  qed
  moreover have "adds (?ok (k # ks)) mid staged'" by (rule adds_weaken[OF Cons.IH[OF rest]]) auto
  ultimately show ?case by (rule adds_trans)
qed

text \<open>The contents a preparation may stage under a call: what one of its calls keeps, or an earlier archive of
  another call, closed.\<close>

definition stageable :: "env \<Rightarrow> archive \<Rightarrow> nat option \<Rightarrow> invocation list \<Rightarrow> invocation_archive \<Rightarrow> bool" where
  "stageable e fs c is b \<longleftrightarrow> (\<exists>i \<in> set is. archives e fs c i b) \<or>
     (\<exists>x a. b = close_invocation x a \<and> ia_invocation_id a \<notin> i_id ` set is \<and>
        map_of fs (InvocationPath (ia_owner a) (ia_invocation_id a)) = Some (InvocationFile a))"

definition staged_calls :: "env \<Rightarrow> archive \<Rightarrow> nat option \<Rightarrow> invocation list \<Rightarrow> staged_file list \<Rightarrow> bool" where
  "staged_calls e fs c is staged \<longleftrightarrow> staged_ok staged \<and>
     (\<forall>g \<in> set staged. \<forall>b. sg_contents g = InvocationFile b \<longrightarrow> stageable e fs c is b) \<and>
     (\<forall>i \<in> set is. \<exists>g \<in> set staged. sg_path g = InvocationPath (i_owner i) (i_id i))"

lemma prepare_group_staged:
  assumes "prepare_group e io fs t r ks ms is ws = Inr staged" and pl: "placed fs"
  shows "staged_calls e fs (Some t) is staged"
proof -
  obtain made s1 a s2 where 1: "stage_group_calls e io fs t ms is [] [] = Inr (made, s1)"
    and 2: "stage_reservation_archive io fs a s1 = Inr s2"
    and 3: "stage_listed io fs a made (ra_invocation_ids a) s2 = Inr staged"
    using assms(1) by (auto simp: prepare_group_def res_bind_eq_Inr)
  let ?ok = "stageable e fs (Some t) is"
  note calls = stage_group_calls_adds[OF 1]
  from calls have all: "list_all2 (archives e fs (Some t)) is made"
    and add: "adds (\<lambda>b. b \<in> set made) [] s1"
    and found: "\<forall>a \<in> set made. \<exists>g \<in> set s1. sg_path g = InvocationPath (ia_owner a) (ia_invocation_id a) \<and> sg_contents g = InvocationFile a"
    by auto
  have mem: "\<exists>i \<in> set is. archives e fs (Some t) i b" if "b \<in> set made" for b
    using all that by (induction rule: list_all2_induct) auto
  have ids: "ia_invocation_id ` set made = i_id ` set is"
    using all by (induction rule: list_all2_induct) (auto simp: archives_def)
  have "adds ?ok [] s1" using add by (rule adds_weaken) (use mem in \<open>simp add: stageable_def\<close>)
  moreover have "adds ?ok s1 s2" by (rule stage_reservation_adds[OF 2])
  moreover have "adds ?ok s2 staged"
  proof (rule adds_weaken[OF stage_listed_adds[OF 3 pl]])
    fix b assume "\<exists>c x. b = close_invocation c x \<and> ia_invocation_id x \<in> set (ra_invocation_ids a) \<and>
      (x \<in> set made \<or> ia_invocation_id x \<notin> ia_invocation_id ` set made \<and>
         map_of fs (InvocationPath (ra_owner a) (ia_invocation_id x)) = Some (InvocationFile x))"
    then obtain c x where b: "b = close_invocation c x"
      and x: "x \<in> set made \<or> ia_invocation_id x \<notin> i_id ` set is \<and>
         map_of fs (InvocationPath (ra_owner a) (ia_invocation_id x)) = Some (InvocationFile x)"
      unfolding ids by blast
    from x show "?ok b"
    proof
      assume "x \<in> set made"
      then show ?thesis using mem archives_close unfolding b stageable_def by blast
    next
      assume x: "ia_invocation_id x \<notin> i_id ` set is \<and>
         map_of fs (InvocationPath (ra_owner a) (ia_invocation_id x)) = Some (InvocationFile x)"
      then have "placed_file (InvocationPath (ra_owner a) (ia_invocation_id x)) (InvocationFile x)"
        using pl unfolding placed_def by blast
      then have "ra_owner a = ia_owner x" by simp
      then show ?thesis using x unfolding b stageable_def by auto
    qed
  qed
  ultimately have total_adds: "adds ?ok [] staged" using adds_trans by blast
  have "\<exists>g \<in> set staged. sg_path g = InvocationPath (i_owner i) (i_id i)" if i: "i \<in> set is" for i
  proof -
    obtain b where b: "b \<in> set made" "archives e fs (Some t) i b"
      using all i by (induction rule: list_all2_induct) auto
    then obtain g where "g \<in> set s1" "sg_path g = InvocationPath (ia_owner b) (ia_invocation_id b)" using found by blast
    moreover have "set s1 \<subseteq> set staged"
      using adds_sub[OF \<open>adds ?ok s1 s2\<close>] adds_sub[OF \<open>adds ?ok s2 staged\<close>] by blast
    ultimately show ?thesis using b(2) by (auto simp: archives_def)
  qed
  then show ?thesis using total_adds by (auto simp: adds_def staged_calls_def)
qed

lemma stage_call_staged:
  assumes "stage_call e io fs i d c index [] = Inr (a, staged)"
  shows "staged_calls e fs c [i] staged"
  unfolding staged_calls_def
proof (intro conjI ballI allI impI)
  note r = stage_call_adds[OF assms, of "\<lambda>b. b = a", OF refl]
  have a: "archives e fs c i a" by (rule snapshot_archives[OF r(2)])
  have add: "staged_ok staged" "\<And>g b. g \<in> set staged \<Longrightarrow> sg_contents g = InvocationFile b \<Longrightarrow> b = a"
    using r(1) unfolding adds_def by auto
  show "staged_ok staged" by (rule add(1))
  show "stageable e fs c [i] b" if "g \<in> set staged" "sg_contents g = InvocationFile b" for g b
    using add(2)[OF that] a by (simp add: stageable_def)
  show "\<exists>g \<in> set staged. sg_path g = InvocationPath (i_owner j) (i_id j)" if "j \<in> set [i]" for j
    using r(3) a that by (auto simp: archives_def)
qed

text \<open>What is prepared for a plan.\<close>

definition plan_calls :: "maintenance_plan \<Rightarrow> invocation list" where
  "plan_calls p = (case mp_kind p of ArchiveCall i _ \<Rightarrow> [i] | ArchiveGroup _ _ _ is _ \<Rightarrow> is | ExpireArchives \<Rightarrow> [])"

definition plan_closed :: "maintenance_plan \<Rightarrow> nat option" where
  "plan_closed p = (case mp_kind p of ArchiveGroup _ _ _ _ _ \<Rightarrow> Some (mp_at p) | _ \<Rightarrow> None)"

lemma staged_calls_none: "staged_calls e fs c [] []"
  by (simp add: staged_calls_def)

lemma prepare_staged:
  assumes "prepare_maintenance e io p (fs, pl) = (Inr m, fs', pl')" and "placed fs"
  shows "staged_calls e fs (plan_closed p) (plan_calls p) (pm_staged m)"
    "mp_kind p \<noteq> ExpireArchives \<Longrightarrow> fs' = fs \<and> pl' = pl"
  using assms
  by (auto simp: prepare_maintenance_def Let_def res_bind_eq_Inr plan_calls_def plan_closed_def
      intro: prepare_group_staged stage_call_staged staged_calls_none
      split: maintenance_kind.splits sum.splits prod.splits)

text \<open>The calls whose files the closure of a group touches.\<close>

definition listed_ids :: "archive_io \<Rightarrow> archive \<Rightarrow> demand \<Rightarrow> string set" where
  "listed_ids io fs r =
     (case read_reservation io fs (d_owner r) (d_id r) of Inr (Some a) \<Rightarrow> set (ra_invocation_ids a) | _ \<Rightarrow> {})"

lemma set_append_unique: "set (append_unique xs v) = insert v (set xs)"
  by (auto simp: append_unique_def)

lemma set_foldl_append_unique: "set (foldl append_unique xs vs) = set xs \<union> set vs"
  by (induction vs arbitrary: xs) (auto simp: set_append_unique)

lemma close_reservation_ids [simp]: "ra_invocation_ids (close_reservation c a) = ra_invocation_ids a"
  by (simp add: close_reservation_def split: prod.splits)

lemma closed_reservation_ids:
  assumes "closed_reservation_archive io fs r ks ms is ws t = Inr a"
  shows "set (ra_invocation_ids a) \<subseteq> listed_ids io fs r \<union> i_id ` set is"
proof -
  obtain x where x: "read_reservation io fs (d_owner r) (d_id r) = Inr x"
    and a: "ra_invocation_ids a = foldl append_unique (case x of None \<Rightarrow> [] | Some y \<Rightarrow> ra_invocation_ids y)
      (map i_id (filter (\<lambda>i. q_reservation_id (i_request i) \<in> set ks) is))"
    using assms by (auto simp: closed_reservation_archive_def res_bind_eq_Inr Let_def)
  show ?thesis unfolding a set_foldl_append_unique listed_ids_def x by (cases x) auto
qed

lemma prepare_group_ids:
  assumes "prepare_group e io fs t r ks ms is ws = Inr staged" and pl: "placed fs"
    and g: "g \<in> set staged" "sg_path g = InvocationPath owner k"
  shows "k \<in> listed_ids io fs r \<union> i_id ` set is"
proof -
  let ?ok = "\<lambda>b. ia_invocation_id b \<in> listed_ids io fs r \<union> i_id ` set is"
  obtain made s1 a s2 where 1: "stage_group_calls e io fs t ms is [] [] = Inr (made, s1)"
    and a: "closed_reservation_archive io fs r ks ms is ws t = Inr a"
    and 2: "stage_reservation_archive io fs a s1 = Inr s2"
    and 3: "stage_listed io fs a made (ra_invocation_ids a) s2 = Inr staged"
    using assms(1) by (auto simp: prepare_group_def res_bind_eq_Inr)
  from stage_group_calls_adds[OF 1] have all: "list_all2 (archives e fs (Some t)) is made"
    and add: "adds (\<lambda>b. b \<in> set made) [] s1" by auto
  have ids: "ia_invocation_id ` set made = i_id ` set is"
    using all by (induction rule: list_all2_induct) (auto simp: archives_def)
  have "adds ?ok [] s1" using add by (rule adds_weaken) (use ids in blast)
  moreover have "adds ?ok s1 s2" by (rule stage_reservation_adds[OF 2])
  moreover have "adds ?ok s2 staged"
    by (rule adds_weaken[OF stage_listed_adds[OF 3 pl]]) (use closed_reservation_ids[OF a] in auto)
  ultimately have "adds ?ok [] staged" using adds_trans by blast
  then have "staged_ok staged" "\<And>b. sg_contents g = InvocationFile b \<Longrightarrow> ?ok b" using g(1) by (auto simp: adds_def)
  moreover from this(1) have "placed_file (InvocationPath owner k) (sg_contents g)"
    using g by (metis staged_ok_def)
  then obtain b where "sg_contents g = InvocationFile b" "ia_invocation_id b = k" using placed_at_invocation by blast
  ultimately show ?thesis by blast
qed

section \<open>Expiry\<close>

text \<open>The files a removal leaves: a part of those before, without calls that have not expired.\<close>

definition sheds :: "nat \<Rightarrow> archive \<Rightarrow> archive \<Rightarrow> bool" where
  "sheds t fs fs' \<longleftrightarrow> (\<exists>P. fs' = filter (\<lambda>e. fst e \<notin> P) fs \<and>
     (\<forall>p \<in> P. \<forall>a. map_of fs p = Some (InvocationFile a) \<longrightarrow> invocation_expired t a))"

lemma map_of_filter_keys: "map_of (filter (\<lambda>e. fst e \<notin> P) fs) p = (if p \<in> P then None else map_of fs p)"
  by (induction fs) auto

lemma sheds_refl: "sheds t fs fs"
  unfolding sheds_def by (intro exI[of _ "{}"]) simp

lemma sheds_at:
  assumes "sheds t fs fs'"
  shows "map_of fs' p = map_of fs p \<or> map_of fs' p = None \<and>
    (\<forall>a. map_of fs p = Some (InvocationFile a) \<longrightarrow> invocation_expired t a)"
proof -
  obtain P where "fs' = filter (\<lambda>e. fst e \<notin> P) fs"
      "\<forall>p \<in> P. \<forall>a. map_of fs p = Some (InvocationFile a) \<longrightarrow> invocation_expired t a"
    using assms unfolding sheds_def by blast
  then show ?thesis by (cases "p \<in> P") (simp_all add: map_of_filter_keys)
qed

lemma sheds_trans:
  assumes "sheds t a b" and "sheds t b c" shows "sheds t a c"
proof -
  obtain P where P: "b = filter (\<lambda>e. fst e \<notin> P) a"
      "\<forall>p \<in> P. \<forall>x. map_of a p = Some (InvocationFile x) \<longrightarrow> invocation_expired t x"
    using assms(1) unfolding sheds_def by blast
  obtain Q where Q: "c = filter (\<lambda>e. fst e \<notin> Q) b"
      "\<forall>p \<in> Q. \<forall>x. map_of b p = Some (InvocationFile x) \<longrightarrow> invocation_expired t x"
    using assms(2) unfolding sheds_def by blast
  have "c = filter (\<lambda>e. fst e \<notin> P \<union> Q) a"
    unfolding Q(1) P(1) filter_filter by (rule filter_cong) auto
  moreover have "invocation_expired t x" if "p \<in> P \<union> Q" "map_of a p = Some (InvocationFile x)" for p x
  proof (cases "p \<in> P")
    case False
    then have "map_of b p = Some (InvocationFile x)" using that(2) unfolding P(1) map_of_filter_keys by simp
    then show ?thesis using False that(1) Q(2) by blast
  qed (use P(2) that(2) in blast)
  ultimately show ?thesis unfolding sheds_def by blast
qed

lemma sheds_length: "sheds t fs fs' \<Longrightarrow> length fs' \<le> length fs"
  by (auto simp: sheds_def)

lemma sheds_less:
  assumes "sheds t fs fs'" and "map_of fs p = Some v" and "map_of fs' p = None"
  shows "length fs' < length fs"
proof -
  obtain P where P: "fs' = filter (\<lambda>e. fst e \<notin> P) fs" using assms(1) unfolding sheds_def by blast
  have "(p, v) \<in> set fs" by (rule map_of_SomeD[OF assms(2)])
  moreover have "p \<in> P" using assms(2,3) unfolding P map_of_filter_keys by (simp split: if_splits)
  ultimately show ?thesis unfolding P by (intro length_filter_less[of "(p, v)"]) simp_all
qed

lemma sheds_placed: "sheds t fs fs' \<Longrightarrow> placed fs \<Longrightarrow> placed fs'"
  unfolding placed_def using sheds_at by (fastforce simp: sheds_def distinct_map_filter)

lemma remove_files_sheds:
  assumes "remove_archived io ps fs = (x, fs')"
    and "\<And>p a. p \<in> set ps \<Longrightarrow> map_of fs p = Some (InvocationFile a) \<Longrightarrow> invocation_expired t a"
  shows "sheds t fs fs' \<and> (x = Inr () \<longrightarrow> (\<forall>p \<in> set ps. map_of fs' p = None))"
  using assms
proof (induction ps arbitrary: fs)
  case Nil
  then show ?case by (simp add: sheds_refl)
next
  case (Cons p ps)
  show ?case
  proof (cases "ao_remove io p")
    case (Inl e)
    then show ?thesis using Cons.prems(1) by (auto simp: sheds_refl)
  next
    case (Inr u)
    have step: "sheds t fs (om_del p fs)"
      unfolding sheds_def om_del_def using Cons.prems(2)[of p] by (intro exI[of _ "{p}"]) simp
    have rest: "remove_archived io ps (om_del p fs) = (x, fs')" using Cons.prems(1) Inr by simp
    have "sheds t (om_del p fs) fs' \<and> (x = Inr () \<longrightarrow> (\<forall>p \<in> set ps. map_of fs' p = None))"
    proof (rule Cons.IH[OF rest])
      fix q a assume "q \<in> set ps" "map_of (om_del p fs) q = Some (InvocationFile a)"
      then show "invocation_expired t a" using Cons.prems(2)[of q a] by (simp split: if_splits)
    qed
    moreover from this have "map_of fs' p = None" using sheds_at[of t "om_del p fs" fs' p] by simp
    ultimately show ?thesis using sheds_trans[OF step] by simp
  qed
qed

text \<open>The archives a directory lists are where their contents say.\<close>

lemma map_of_placed: "placed fs \<Longrightarrow> (p, f) \<in> set fs \<Longrightarrow> map_of fs p = Some f"
  by (simp add: placed_def)

lemma invocation_archives_at:
  assumes "invocation_archives io fs owner = Inr as" and "placed fs" and "a \<in> set as"
  shows "map_of fs (InvocationPath (ia_owner a) (ia_invocation_id a)) = Some (InvocationFile a)"
proof -
  let ?dir = "\<lambda>p. case p of InvocationPath x _ \<Rightarrow> x = owner | _ \<Rightarrow> False"
  have "map_res (\<lambda>(p, f). res_bind (ao_read io p) (\<lambda>_. as_invocation f)) (filter (\<lambda>(p, f). ?dir p) fs) = Inr as"
    using assms(1) by (simp add: invocation_archives_def archives_in_def res_bind_eq_Inr)
  from map_res_set[OF this assms(3)] obtain p f where pf: "(p, f) \<in> set fs" "as_invocation f = Inr a"
    by (auto simp: res_bind_eq_Inr)
  have "f = InvocationFile a" using pf(2) by (auto simp: as_invocation_def split: archive_file.splits)
  with pf(1) have at: "map_of fs p = Some (InvocationFile a)" using map_of_placed[OF assms(2)] by simp
  then have "placed_file p (InvocationFile a)" using assms(2) unfolding placed_def by blast
  with at show ?thesis by simp
qed

lemma reservation_archives_at:
  assumes "reservation_archives io fs owner = Inr rs" and "placed fs" and "a \<in> set rs"
  shows "map_of fs (ReservationPath (ra_owner a) (ra_reservation_id a)) = Some (ReservationFile a)"
proof -
  let ?dir = "\<lambda>p. case p of ReservationPath x _ \<Rightarrow> x = owner | _ \<Rightarrow> False"
  have "map_res (\<lambda>(p, f). res_bind (ao_read io p) (\<lambda>_. as_reservation f)) (filter (\<lambda>(p, f). ?dir p) fs) = Inr rs"
    using assms(1) by (simp add: reservation_archives_def archives_in_def res_bind_eq_Inr)
  from map_res_set[OF this assms(3)] obtain p f where pf: "(p, f) \<in> set fs" "as_reservation f = Inr a"
    by (auto simp: res_bind_eq_Inr)
  have "f = ReservationFile a" using pf(2) by (auto simp: as_reservation_def split: archive_file.splits)
  with pf(1) have at: "map_of fs p = Some (ReservationFile a)" using map_of_placed[OF assms(2)] by simp
  then have "placed_file p (ReservationFile a)" using assms(2) unfolding placed_def by blast
  with at show ?thesis by simp
qed

lemma no_call_elsewhere:
  assumes "placed fs" and "map_of fs p = Some (InvocationFile b)"
  shows "p = InvocationPath (ia_owner b) (ia_invocation_id b)"
  using assms placed_file.simps(1) unfolding placed_def by blast

lemma expire_calls_sheds:
  assumes "expire_calls io t as n (fs, pl) = (x, fs', pl')" and "placed fs"
    and "\<And>a b. a \<in> set as \<Longrightarrow> map_of fs (InvocationPath (ia_owner a) (ia_invocation_id a)) = Some (InvocationFile b) \<Longrightarrow> b = a"
  shows "sheds t fs fs' \<and> (\<forall>m. x = Inr m \<longrightarrow> m = n \<or>
    (\<exists>a \<in> set as. map_of fs' (InvocationPath (ia_owner a) (ia_invocation_id a)) = None))"
  using assms
proof (induction as arbitrary: n fs pl)
  case Nil
  then show ?case by (auto simp: sheds_refl)
next
  case (Cons a as)
  show ?case
  proof (cases "invocation_expired t a")
    case False
    then show ?thesis using Cons.IH[of n fs pl] Cons.prems by simp blast
  next
    case True
    let ?ps = "[InvocationPath (ia_owner a) (ia_invocation_id a),
      SubmissionPath (ia_owner a) (ia_reservation_id a) (ia_submission_id a)] @ map (WorkPath (ia_owner a)) (opt_list (ia_work_id a))"
    obtain y pl1 where y: "remove_invocation_payloads (ao_payload io) (ia_record a) pl = (y, pl1)" by fastforce
    show ?thesis
    proof (cases y)
      case (Inl e)
      then show ?thesis using Cons.prems(1) True y by (auto simp: sheds_refl)
    next
      case (Inr u)
      obtain z fs1 where z: "remove_archived io ?ps fs = (z, fs1)" by fastforce
      have shed: "sheds t fs fs1 \<and> (z = Inr () \<longrightarrow> (\<forall>p \<in> set ?ps. map_of fs1 p = None))"
      proof (rule remove_files_sheds[OF z])
        fix p b assume p: "p \<in> set ?ps" "map_of fs p = Some (InvocationFile b)"
        have "p = InvocationPath (ia_owner b) (ia_invocation_id b)" by (rule no_call_elsewhere[OF Cons.prems(2) p(2)])
        then have "p = InvocationPath (ia_owner a) (ia_invocation_id a)" using p(1) by auto
        then have "b = a" using Cons.prems(3)[of a b] p(2) by simp
        then show "invocation_expired t b" using True by simp
      qed
      show ?thesis
      proof (cases z)
        case (Inl e)
        then have "x = Inl e" "fs' = fs1" using Cons.prems(1) True y Inr z by simp_all
        then show ?thesis using shed by simp
      next
        case zr: (Inr v)
        have rest: "expire_calls io t as (Suc n) (fs1, pl1) = (x, fs', pl')"
          using Cons.prems(1) True y Inr z zr by simp
        have r: "sheds t fs1 fs' \<and> (\<forall>m. x = Inr m \<longrightarrow> m = Suc n \<or>
            (\<exists>a \<in> set as. map_of fs' (InvocationPath (ia_owner a) (ia_invocation_id a)) = None))"
        proof (rule Cons.IH[OF rest])
          show "placed fs1" using shed sheds_placed Cons.prems(2) by blast
          fix c b assume "c \<in> set as" "map_of fs1 (InvocationPath (ia_owner c) (ia_invocation_id c)) = Some (InvocationFile b)"
          moreover from this have "map_of fs (InvocationPath (ia_owner c) (ia_invocation_id c)) = Some (InvocationFile b)"
            using sheds_at[of t fs fs1 "InvocationPath (ia_owner c) (ia_invocation_id c)"] shed by simp
          ultimately show "b = c" using Cons.prems(3)[of c b] by simp
        qed
        have "map_of fs1 (InvocationPath (ia_owner a) (ia_invocation_id a)) = None" using shed zr by simp
        then have "map_of fs' (InvocationPath (ia_owner a) (ia_invocation_id a)) = None"
          using sheds_at[of t fs1 fs' "InvocationPath (ia_owner a) (ia_invocation_id a)"] r by simp
        then show ?thesis using sheds_trans[of t fs fs1 fs'] shed r by simp
      qed
    qed
  qed
qed

lemma expire_reservations_sheds:
  assumes "expire_reservations io t rs n fs = (x, fs')" and "placed fs"
  shows "sheds t fs fs' \<and> (\<forall>m. x = Inr m \<longrightarrow> m = n \<or>
    (\<exists>a \<in> set rs. map_of fs' (ReservationPath (ra_owner a) (ra_reservation_id a)) = None))"
  using assms
proof (induction rs arbitrary: n fs)
  case Nil
  then show ?case by (auto simp: sheds_refl)
next
  case (Cons a rs)
  show ?case
  proof (cases "reservation_expired t a")
    case False
    then show ?thesis using Cons.IH[of n fs] Cons.prems by simp blast
  next
    case True
    let ?ps = "ReservationPath (ra_owner a) (ra_reservation_id a) # map (AcquisitionPath (ra_owner a)) (opt_list (ra_acquisition_id a))"
    obtain z fs1 where z: "remove_archived io ?ps fs = (z, fs1)" by fastforce
    have shed: "sheds t fs fs1 \<and> (z = Inr () \<longrightarrow> (\<forall>p \<in> set ?ps. map_of fs1 p = None))"
    proof (rule remove_files_sheds[OF z])
      fix p b assume p: "p \<in> set ?ps" "map_of fs p = Some (InvocationFile b)"
      have "p = InvocationPath (ia_owner b) (ia_invocation_id b)" by (rule no_call_elsewhere[OF Cons.prems(2) p(2)])
      then show "invocation_expired t b" using p(1) by auto
    qed
    show ?thesis
    proof (cases z)
      case (Inl e)
      then have "x = Inl e" "fs' = fs1" using Cons.prems(1) True z by simp_all
      then show ?thesis using shed by simp
    next
      case (Inr v)
      have rest: "expire_reservations io t rs (Suc n) fs1 = (x, fs')" using Cons.prems(1) True z Inr by simp
      have r: "sheds t fs1 fs' \<and> (\<forall>m. x = Inr m \<longrightarrow> m = Suc n \<or>
          (\<exists>a \<in> set rs. map_of fs' (ReservationPath (ra_owner a) (ra_reservation_id a)) = None))"
        by (rule Cons.IH[OF rest]) (use shed sheds_placed Cons.prems(2) in blast)
      have "map_of fs1 (ReservationPath (ra_owner a) (ra_reservation_id a)) = None" using shed Inr by simp
      then have "map_of fs' (ReservationPath (ra_owner a) (ra_reservation_id a)) = None"
        using sheds_at[of t fs1 fs' "ReservationPath (ra_owner a) (ra_reservation_id a)"] r by simp
      then show ?thesis using sheds_trans[of t fs fs1 fs'] shed r by simp
    qed
  qed
qed

lemma expire_owners_sheds:
  assumes "expire_owners io t os n (fs, pl) = (x, fs', pl')" and "placed fs"
  shows "sheds t fs fs' \<and> (\<forall>m. x = Inr m \<longrightarrow> m = n \<or> length fs' < length fs)"
  using assms
proof (induction os arbitrary: n fs pl)
  case Nil
  then show ?case by (auto simp: sheds_refl)
next
  case (Cons owner os)
  show ?case
  proof (cases "invocation_archives io fs owner")
    case (Inl e)
    then show ?thesis using Cons.prems by (auto simp: sheds_refl)
  next
    case (Inr as)
    note at = invocation_archives_at[OF Inr Cons.prems(2)]
    obtain y fs1 pl1 where y: "expire_calls io t as n (fs, pl) = (y, fs1, pl1)" by (metis prod_cases3)
    have c: "sheds t fs fs1 \<and> (\<forall>m. y = Inr m \<longrightarrow> m = n \<or>
        (\<exists>a \<in> set as. map_of fs1 (InvocationPath (ia_owner a) (ia_invocation_id a)) = None))"
      by (rule expire_calls_sheds[OF y Cons.prems(2)]) (use at in simp)
    have cl: "m = n \<or> length fs1 < length fs" if "y = Inr m" for m
      using c that at sheds_less by blast
    have p1: "placed fs1" using c sheds_placed Cons.prems(2) by blast
    show ?thesis
    proof (cases y)
      case (Inl e)
      then have "x = Inl e" "fs' = fs1" using Cons.prems(1) Inr y by simp_all
      then show ?thesis using c by simp
    next
      case yr: (Inr n1)
      show ?thesis
      proof (cases "reservation_archives io fs1 owner")
        case (Inl e)
        then have "x = Inl e" "fs' = fs1" using Cons.prems(1) Inr y yr by simp_all
        then show ?thesis using c by simp
      next
        case rr: (Inr rs)
        obtain z fs2 where z: "expire_reservations io t rs n1 fs1 = (z, fs2)" by fastforce
        note r = expire_reservations_sheds[OF z p1]
        have rl: "m = n1 \<or> length fs2 < length fs1" if "z = Inr m" for m
          using r that reservation_archives_at[OF rr p1] sheds_less by blast
        have s2: "sheds t fs fs2" using c r sheds_trans by blast
        show ?thesis
        proof (cases z)
          case (Inl e)
          then have "x = Inl e" "fs' = fs2" using Cons.prems(1) Inr y yr rr z by simp_all
          then show ?thesis using s2 by simp
        next
          case zr: (Inr n2)
          have rest: "expire_owners io t os n2 (fs2, pl1) = (x, fs', pl')"
            using Cons.prems(1) Inr y yr rr z zr by simp
          have q: "sheds t fs2 fs' \<and> (\<forall>m. x = Inr m \<longrightarrow> m = n2 \<or> length fs' < length fs2)"
            by (rule Cons.IH[OF rest]) (use sheds_placed[OF s2 Cons.prems(2)] in simp)
          have le: "length fs1 \<le> length fs" "length fs2 \<le> length fs1" "length fs' \<le> length fs2"
            using sheds_length c r q by blast+
          have "m = n \<or> length fs' < length fs" if "x = Inr m" for m
          proof -
            have "m = n2 \<or> length fs' < length fs2" using q that by blast
            with rl[OF zr] cl[OF yr] le show ?thesis by linarith
          qed
          then show ?thesis using sheds_trans[OF s2] q by blast
        qed
      qed
    qed
  qed
qed

section \<open>A round\<close>

lemma round_cases:
  assumes "maintenance_round e io s0 s1 s2 (fs, pl) = (x, s', fs', pl')"
  obtains (idle) "s' = s2" "fs' = fs" "pl' = pl" "\<And>r. x \<noteq> Inr (Some r)"
    | (prepared) p y where
        "plan_maintenance (now e) (expired_archive_exists io (now e) fs) s0 = Inr (Some p)"
        "prepare_maintenance e io p (fs, pl) = (y, fs', pl')" "s' = s2" "\<And>r. x \<noteq> Inr (Some r)"
    | (published) p m fs1 e' where
        "plan_maintenance (now e) (expired_archive_exists io (now e) fs) s0 = Inr (Some p)"
        "prepare_maintenance e io p (fs, pl) = (Inr m, fs1, pl')"
        "publish_staged io 0 (pm_staged m) fs1 = (Inl e', fs')" "s' = s2" "\<And>r. x \<noteq> Inr (Some r)"
    | (committed) p m fs1 rep where
        "plan_maintenance (now e) (expired_archive_exists io (now e) fs) s0 = Inr (Some p)"
        "prepare_maintenance e io p (fs, pl) = (Inr m, fs1, pl')" "prepared_eligible p s1"
        "publish_staged io 0 (pm_staged m) fs1 = (Inr (), fs')"
        "commit_maintenance p (pm_expired m) s2 = Inr (rep, s')" "x = Inr (Some rep)"
proof (cases "plan_maintenance (now e) (expired_archive_exists io (now e) fs) s0")
  case (Inl err)
  show thesis by (rule idle) (use assms Inl in \<open>auto simp: maintenance_round_def\<close>)
next
  case (Inr q)
  show thesis
  proof (cases q)
    case None
    show thesis by (rule idle) (use assms Inr None in \<open>auto simp: maintenance_round_def\<close>)
  next
    case (Some p)
    note plan = Inr[unfolded Some]
    obtain y fs1 pl1 where y: "prepare_maintenance e io p (fs, pl) = (y, fs1, pl1)" by (metis prod_cases3)
    note step = assms[unfolded maintenance_round_def Let_def fst_conv plan sum.case option.case y prod.case]
    show thesis
    proof (cases y)
      case (Inl err)
      show thesis by (rule prepared[OF plan]) (use step y Inl in auto)
    next
      case yr: (Inr m)
      note step = step[unfolded yr sum.case prod.case]
      show thesis
      proof (cases "prepared_eligible p s1")
        case False
        show thesis by (rule prepared[OF plan]) (use step y False in auto)
      next
        case True
        obtain z fs2 where z: "publish_staged io 0 (pm_staged m) fs1 = (z, fs2)" by fastforce
        obtain rep s3 where c: "commit_maintenance p (pm_expired m) s2 = Inr (rep, s3)"
          by (simp add: commit_maintenance_def split: if_splits) (metis prod.exhaust)
        show thesis
        proof (cases z)
          case zl: (Inl err)
          show thesis
            by (rule published[OF plan, of m fs1 err]) (use step True y yr z zl in \<open>simp_all, auto\<close>)
        next
          case zr: (Inr u)
          show thesis by (rule committed[OF plan, of m fs1 rep]) (use step True y yr z zr c in simp_all)
        qed
      qed
    qed
  qed
qed

text \<open>What the preparation leaves of the files, and what it publishes.\<close>

lemma prepare_expire:
  assumes "mp_kind p = ExpireArchives" and "prepare_maintenance e io p (fs, pl) = (y, fs', pl')"
  shows "\<exists>x. expire_owners io (mp_at p) (owner_dirs fs) 0 (fs, pl) = (x, fs', pl') \<and>
    y = map_sum id (\<lambda>n. \<lparr>pm_plan = p, pm_staged = [], pm_expired = n\<rparr>) x"
proof -
  obtain x st where "expire_archives io (mp_at p) (fs, pl) = (x, st)" by (metis surj_pair)
  then show ?thesis
    using assms by (cases x) (auto simp: prepare_maintenance_def expire_archives_def Let_def)
qed

lemma prepare_sheds:
  assumes "prepare_maintenance e io p (fs, pl) = (y, fs', pl')" and "placed fs"
  shows "sheds (mp_at p) fs fs'"
    "mp_kind p = ExpireArchives \<Longrightarrow> y = Inr m \<Longrightarrow> pm_staged m = [] \<and> (pm_expired m = 0 \<or> length fs' < length fs)"
proof -
  have "sheds (mp_at p) fs fs' \<and> (\<forall>m. y = Inr m \<longrightarrow> pm_staged m = [] \<and> (pm_expired m = 0 \<or> length fs' < length fs))"
    if k: "mp_kind p = ExpireArchives"
  proof -
    obtain x where x: "expire_owners io (mp_at p) (owner_dirs fs) 0 (fs, pl) = (x, fs', pl')"
      and y: "y = map_sum id (\<lambda>n. \<lparr>pm_plan = p, pm_staged = [], pm_expired = n\<rparr>) x"
      using prepare_expire[OF k assms(1)] by blast
    show ?thesis
      using expire_owners_sheds[OF x assms(2)] unfolding y by (cases x) auto
  qed
  moreover have "fs' = fs" if "mp_kind p \<noteq> ExpireArchives"
    using assms(1) that by (cases "mp_kind p") (simp_all add: prepare_maintenance_def Let_def)
  ultimately show "sheds (mp_at p) fs fs'"
    "mp_kind p = ExpireArchives \<Longrightarrow> y = Inr m \<Longrightarrow> pm_staged m = [] \<and> (pm_expired m = 0 \<or> length fs' < length fs)"
    using sheds_refl by blast+
qed

text \<open>The files of a round are placed, whatever its outcome.\<close>

lemma prepared_placed:
  assumes "prepare_maintenance e io p (fs, pl) = (y, fs', pl')" and "placed fs"
  shows "placed fs'"
  by (rule sheds_placed[OF prepare_sheds(1)[OF assms] assms(2)])

lemma round_placed:
  assumes "maintenance_round e io s0 s1 s2 (fs, pl) = (x, s', fs', pl')" and "placed fs"
  shows "placed fs'"
  using assms(1)
proof (cases rule: round_cases)
  case idle
  then show ?thesis using assms(2) by simp
next
  case (prepared p y)
  show ?thesis by (rule prepared_placed[OF prepared(2) assms(2)])
next
  case (published p m fs1 e')
  show ?thesis
    using publish_placed[OF published(3) prepared_placed[OF published(2) assms(2)]] prepare_staged(1)[OF published(2) assms(2)]
    by (simp add: staged_calls_def)
next
  case (committed p m fs1 rep)
  show ?thesis
    using publish_placed[OF committed(4) prepared_placed[OF committed(2) assms(2)]] prepare_staged(1)[OF committed(2) assms(2)]
    by (simp add: staged_calls_def)
qed

section \<open>What is found again\<close>

text \<open>The file of a call after its plan was published: what the call keeps.\<close>

lemma published_call:
  assumes staged: "staged_calls e fs c is staged" and pub: "publish_staged io n staged fs = (Inr (), fs')"
    and i: "i \<in> set is" and ids: "\<And>j. j \<in> set is \<Longrightarrow> i_id j = i_id i \<Longrightarrow> j = i"
  shows "\<exists>a. map_of fs' (InvocationPath (i_owner i) (i_id i)) = Some (InvocationFile a) \<and> archives e fs c i a"
proof -
  let ?p = "InvocationPath (i_owner i) (i_id i)"
  obtain g where "g \<in> set staged" "sg_path g = ?p" using staged i unfolding staged_calls_def by blast
  then obtain v where v: "staged_at ?p staged = Some v" using staged_at_found by metis
  from staged_at_Some[OF this] obtain h where h: "h \<in> set staged" "sg_path h = ?p" "sg_contents h = v" by blast
  then have "placed_file ?p v" using staged by (auto simp: staged_calls_def staged_ok_def)
  then obtain b where b: "v = InvocationFile b" "ia_owner b = i_owner i" "ia_invocation_id b = i_id i"
    using placed_at_invocation by blast
  have "stageable e fs c is b" using staged h b(1) unfolding staged_calls_def by blast
  then have "archives e fs c i b"
    unfolding stageable_def
  proof
    assume "\<exists>j \<in> set is. archives e fs c j b"
    then obtain j where j: "j \<in> set is" "archives e fs c j b" by blast
    then have "i_id j = i_id i" using b(3) by (simp add: archives_def)
    then have "j = i" using ids j(1) by blast
    then show ?thesis using j(2) by simp
  next
    assume "\<exists>x a. b = close_invocation x a \<and> ia_invocation_id a \<notin> i_id ` set is \<and>
      map_of fs (InvocationPath (ia_owner a) (ia_invocation_id a)) = Some (InvocationFile a)"
    then show ?thesis using b(3) i by auto
  qed
  then show ?thesis using publish_staged_at[OF pub, of ?p] v b(1) by auto
qed

text \<open>A call that a round removed was one of its plan, unchanged.\<close>

lemma commit_removes:
  assumes "commit_maintenance p n s = Inr (rep, s')" and "get_call s k = Some i" and "get_call s' k = None"
  shows "prepared_eligible p s" "k \<in> i_id ` set (plan_calls p)" "mp_kind p \<noteq> ExpireArchives"
    "\<And>j. j \<in> set (plan_calls p) \<Longrightarrow> get_call s (i_id j) = Some j"
proof -
  show el: "prepared_eligible p s"
    using assms by (cases "prepared_eligible p s") (auto simp: commit_maintenance_def)
  then have s': "s' = snd (retire_kind n (mp_kind p) s)" using assms(1) by (simp add: commit_maintenance_def)
  show "k \<in> i_id ` set (plan_calls p)" "mp_kind p \<noteq> ExpireArchives"
    using assms(2,3) unfolding s' retire_kind_get plan_calls_def
    by (auto split: maintenance_kind.splits if_splits)
  show "get_call s (i_id j) = Some j" if "j \<in> set (plan_calls p)" for j
    using el that unfolding prepared_eligible_def plan_calls_def
    by (auto simp: call_prepared_eligible_def group_prepared_eligible_def is_some_and_iff split: maintenance_kind.splits)
qed

lemma round_archives:
  assumes round: "maintenance_round e io s0 s1 s2 (fs, pl) = (x, s', fs', pl')" and pl: "placed fs"
    and i: "get_call s2 k = Some i" "get_call s' k = None" and k: "i_id i = k"
  shows "\<exists>a c. map_of fs' (InvocationPath (i_owner i) k) = Some (InvocationFile a) \<and> archives e fs c i a \<and>
    c \<in> {None, Some (now e)}"
  using round
proof (cases rule: round_cases)
  case (committed p m fs1 rep)
  note rem = commit_removes[OF committed(5) i]
  have fs1: "fs1 = fs" using prepare_staged(2)[OF committed(2) pl rem(3)] by simp
  have ip: "i \<in> set (plan_calls p)"
    using rem(2,4) i(1) by force
  have "\<exists>a. map_of fs' (InvocationPath (i_owner i) (i_id i)) = Some (InvocationFile a) \<and> archives e fs (plan_closed p) i a"
  proof (rule published_call[OF prepare_staged(1)[OF committed(2) pl] _ ip])
    show "publish_staged io 0 (pm_staged m) fs = (Inr (), fs')" using committed(4) fs1 by simp
    show "j = i" if "j \<in> set (plan_calls p)" "i_id j = i_id i" for j
      using rem(4)[OF that(1)] i(1) that(2) k by simp
  qed
  moreover have "mp_at p = now e" using committed(1) by (cases rule: plan_cases) auto
  then have "plan_closed p \<in> {None, Some (now e)}" by (simp add: plan_closed_def split: maintenance_kind.splits)
  ultimately show ?thesis unfolding k by blast
qed (use i in simp_all)

lemma publish_grows:
  assumes "publish_staged io n gs fs = (x, fs')" and "map_of fs p \<noteq> None"
  shows "map_of fs' p \<noteq> None"
  using assms
proof (induction gs arbitrary: n fs)
  case (Cons g gs)
  from Cons.prems(1) show ?case
  proof (cases rule: publish_cases)
    case 2
    then show ?thesis using Cons.IH[OF 2(2) Cons.prems(2)] by simp
  next
    case 3
    show ?thesis by (rule Cons.IH[OF 3(2)]) (use Cons.prems(2) in simp)
  qed (use Cons.prems(2) in simp_all)
qed simp

lemma published_record:
  assumes staged: "staged_calls e fs c is staged" and pub: "publish_staged io n staged fs1 = (x, fs')"
    and old: "map_of fs (InvocationPath owner k) = Some (InvocationFile a)"
    and kept: "map_of fs1 (InvocationPath owner k) = Some (InvocationFile a)"
  shows "\<exists>b. map_of fs' (InvocationPath owner k) = Some (InvocationFile b) \<and> ia_record b = ia_record a"
proof -
  let ?p = "InvocationPath owner k"
  obtain v where v: "map_of fs' ?p = Some v" using publish_grows[OF pub, of ?p] kept by auto
  from publish_sub[OF pub v] show ?thesis
  proof
    assume "map_of fs1 ?p = Some v"
    then have "v = InvocationFile a" using kept by simp
    then show ?thesis using v by simp
  next
    assume "\<exists>g \<in> set staged. sg_path g = ?p \<and> sg_contents g = v"
    then obtain g where g: "g \<in> set staged" "sg_path g = ?p" "sg_contents g = v" by blast
    then have "placed_file ?p v" using staged by (auto simp: staged_calls_def staged_ok_def)
    then obtain b where b: "v = InvocationFile b" "ia_owner b = owner" "ia_invocation_id b = k"
      using placed_at_invocation by blast
    have "stageable e fs c is b" using staged g b(1) unfolding staged_calls_def by blast
    then have "ia_record b = ia_record a"
      unfolding stageable_def
    proof
      assume "\<exists>i \<in> set is. archives e fs c i b"
      then obtain i where i: "archives e fs c i b" by blast
      then have "i_owner i = owner" "i_id i = k" using b by (simp_all add: archives_def)
      then show ?thesis using i old by (simp add: archives_def)
    next
      assume "\<exists>x z. b = close_invocation x z \<and> ia_invocation_id z \<notin> i_id ` set is \<and>
        map_of fs (InvocationPath (ia_owner z) (ia_invocation_id z)) = Some (InvocationFile z)"
      then obtain x z where z: "b = close_invocation x z"
        "map_of fs (InvocationPath (ia_owner z) (ia_invocation_id z)) = Some (InvocationFile z)" by blast
      then have "ia_owner z = owner" "ia_invocation_id z = k" using b by simp_all
      then show ?thesis using z old by simp
    qed
    then show ?thesis using v b(1) by blast
  qed
qed

lemma plan_at: "plan_maintenance t x s = Inr (Some p) \<Longrightarrow> mp_at p = t"
  by (erule plan_cases) simp_all

lemma round_keeps_record:
  assumes round: "maintenance_round e io s0 s1 s2 (fs, pl) = (x, s', fs', pl')" and pl: "placed fs"
    and old: "map_of fs (InvocationPath owner k) = Some (InvocationFile a)" and live: "\<not> invocation_expired (now e) a"
  shows "\<exists>b. map_of fs' (InvocationPath owner k) = Some (InvocationFile b) \<and> ia_record b = ia_record a"
proof -
  have kept: "map_of fs1 (InvocationPath owner k) = Some (InvocationFile a)"
    if "prepare_maintenance e io p (fs, pl) = (y, fs1, pl1)" "mp_at p = now e" for p y fs1 pl1
    using sheds_at[OF prepare_sheds(1)[OF that(1) \<open>placed fs\<close>], of "InvocationPath owner k"] old live that(2) by auto
  from round show ?thesis
  proof (cases rule: round_cases)
    case idle
    then show ?thesis using old by simp
  next
    case (prepared p y)
    then show ?thesis using kept[OF prepared(2) plan_at[OF prepared(1)]] by simp
  next
    case (published p m fs1 e')
    show ?thesis
      by (rule published_record[OF prepare_staged(1)[OF published(2) \<open>placed fs\<close>] published(3) old
            kept[OF published(2) plan_at[OF published(1)]]])
  next
    case (committed p m fs1 rep)
    show ?thesis
      by (rule published_record[OF prepare_staged(1)[OF committed(2) \<open>placed fs\<close>] committed(4) old
            kept[OF committed(2) plan_at[OF committed(1)]]])
  qed
qed

section \<open>A sample\<close>

definition quiet_io :: archive_io where
  "quiet_io = \<lparr>ao_read = (\<lambda>_. Inr ()), ao_entries = Inr (), ao_stage = (\<lambda>_. Inr ()), ao_staged = (\<lambda>_. Inr ()),
     ao_write = (\<lambda>_. NoFault), ao_remove = (\<lambda>_. Inr ()), ao_payload = None\<rparr>"

lemma quiet_io_sel [simp]:
  "ao_read quiet_io p = Inr ()" "ao_entries quiet_io = Inr ()" "ao_stage quiet_io n = Inr ()"
  "ao_staged quiet_io n = Inr ()" "ao_write quiet_io p = NoFault" "ao_remove quiet_io p = Inr ()"
  by (simp_all add: quiet_io_def)

text \<open>The document of the samples, with its call completed.\<close>

definition sample_finished :: invocation where
  "sample_finished = sample_call ''i1'' ''d1'' Completed"

definition sample_history :: document where
  "sample_history = sample_document\<lparr>invocations := [(''i1'', sample_finished)]\<rparr>"

lemma sample_finished_sel [simp]:
  "i_id sample_finished = ''i1''" "i_owner sample_finished = ''app''" "i_state sample_finished = Completed"
  "i_request sample_finished = sample_request ''d1''"
  by (simp_all add: sample_finished_def sample_call_def)

lemma sample_history_sel [simp]:
  "invocations sample_history = [(''i1'', sample_finished)]" "workspace_scopes sample_history = []"
  "demands sample_history = demands sample_document"
  by (simp_all add: sample_history_def sample_document_def)

lemma sample_history_inv: "doc_inv sample_history"
  by (auto simp: doc_inv_def maps_ok_def sample_history_def sample_finished_def sample_document_def sample_demand_def
      sample_call_def sample_profile_def live_ok_def owns_def om_ok_def split: if_splits)

lemma sample_history_clear: "active_invocation_dependencies_clear t sample_history sample_finished"
  by (simp add: active_invocation_dependencies_clear_def workspace_dependencies_retirable_def call_scope_def
      sample_request_def is_workspace_def is_some_and_def om_vals_def)

lemma sample_plan:
  "plan_maintenance t x sample_history = Inr (Some \<lparr>mp_at = t, mp_kind = ArchiveCall sample_finished
     (Some (sample_demand ''d1'' Ready Low (sample_profile ''coder'' [''gpu0''])))\<rparr>)"
proof -
  have "closed_roots sample_history = []"
    by (simp add: closed_roots_def sample_document_def om_vals_def sample_demand_sel)
  moreover have "active_terminal_invocations t sample_history = [''i1'']"
    by (simp add: active_terminal_invocations_def om_vals_def sample_history_clear)
  moreover have "get_demand sample_history (q_reservation_id (sample_request ''d1'')) =
      Some (sample_demand ''d1'' Ready Low (sample_profile ''coder'' [''gpu0'']))"
    by (simp add: sample_document_def sample_request_def)
  ultimately show ?thesis by (simp add: plan_maintenance_def map_filter_def)
qed

lemma sample_record: "\<exists>r. archived_record sample_env sample_finished = Inr r"
  by (simp add: archived_record_def compact_terminal_request_def Let_def sample_request_def res_bind_def)

lemma sample_commit:
  "commit_maintenance \<lparr>mp_at = t, mp_kind = ArchiveCall sample_finished d\<rparr> n sample_history =
     Inr (no_report\<lparr>mt_invocations := 1\<rparr>, sample_history\<lparr>invocations := []\<rparr>)"
  by (simp add: commit_maintenance_def prepared_eligible_def call_prepared_eligible_def sample_history_clear
      is_some_and_def retire_kind_def om_del_def)

lemma publish_quiet:
  assumes "distinct (map sg_path gs)" and "\<forall>g \<in> set gs. sg_base g = map_of fs (sg_path g)"
  shows "fst (publish_staged quiet_io n gs fs) = Inr ()"
  using assms
proof (induction gs arbitrary: n fs)
  case (Cons g gs)
  have "fst (publish_staged quiet_io (Suc n) gs fs) = Inr ()" by (rule Cons.IH) (use Cons.prems in auto)
  moreover have "fst (publish_staged quiet_io (Suc n) gs (put_file (sg_path g) (sg_contents g) fs)) = Inr ()"
  proof (rule Cons.IH)
    show "\<forall>h \<in> set gs. sg_base h = map_of (put_file (sg_path g) (sg_contents g) fs) (sg_path h)"
    proof
      fix h assume h: "h \<in> set gs"
      then have "sg_path h \<noteq> sg_path g" using Cons.prems(1) by (metis distinct.simps(2) image_eqI image_set list.simps(9))
      then show "sg_base h = map_of (put_file (sg_path g) (sg_contents g) fs) (sg_path h)" using h Cons.prems(2) by simp
    qed
  qed (use Cons.prems in simp)
  ultimately show ?case using Cons.prems(2) by (simp add: res_bind_def write_file_def)
qed simp

lemma sample_stage:
  assumes "invocation_archive_from_snapshot sample_env quiet_io fs sample_finished None = Inr a"
    and "ia_work_id a = None" and "map_of fs (ReservationPath (ia_owner a) (ia_reservation_id a)) = None"
    and d: "d_reserve_request d = None"
  shows "\<exists>gs. stage_call sample_env quiet_io fs sample_finished (Some d) None True [] = Inr (a, gs) \<and>
    distinct (map sg_path gs) \<and> (\<forall>g \<in> set gs. sg_base g = map_of fs (sg_path g))"
  using assms
  by (simp add: stage_call_def stage_invocation_value_def stage_invocation_indexes_def stage_reservation_index_def
      stage_reservation_archive_def stage_json_def Let_def read_json_def res_bind_def active_reservation_archive_def
      close_reservation_def split: prod.splits)

lemma sample_round:
  assumes "invocation_archive_from_snapshot sample_env quiet_io fs sample_finished None = Inr a"
    and "ia_work_id a = None" and "map_of fs (ReservationPath (ia_owner a) (ia_reservation_id a)) = None"
  shows "\<exists>fs'. maintenance_round sample_env quiet_io sample_history sample_history sample_history (fs, pl) =
     (Inr (Some (no_report\<lparr>mt_invocations := 1\<rparr>)), sample_history\<lparr>invocations := []\<rparr>, fs', pl)"
proof -
  let ?d = "sample_demand ''d1'' Ready Low (sample_profile ''coder'' [''gpu0''])"
  obtain gs where gs: "stage_call sample_env quiet_io fs sample_finished (Some ?d) None True [] = Inr (a, gs)"
      "distinct (map sg_path gs)" "\<forall>g \<in> set gs. sg_base g = map_of fs (sg_path g)"
    using sample_stage[OF assms sample_demand_sel(9), of "''d1''" Ready Low "sample_profile ''coder'' [''gpu0'']"] by blast
  obtain fs' where "publish_staged quiet_io 0 gs fs = (Inr (), fs')"
    using publish_quiet[OF gs(2,3)] by (metis fst_conv surj_pair)
  then show ?thesis
    using gs(1) sample_commit[of "now sample_env" "Some ?d" 0]
    by (simp add: maintenance_round_def sample_plan prepare_maintenance_def Let_def res_bind_def
        prepared_eligible_def call_prepared_eligible_def sample_history_clear is_some_and_def)
qed

section \<open>The end of the rounds\<close>

lemma om_del_length: "length (om_del k m) \<le> length m"
  by (simp add: om_del_def)

lemma om_del_less: "map_of m k = Some v \<Longrightarrow> length (om_del k m) < length m"
  unfolding om_del_def by (intro length_filter_less[of "(k, v)"]) (auto dest: map_of_SomeD)

lemma fold_del_length: "length (fold om_del ks m) \<le> length m"
  by (induction ks arbitrary: m) (auto intro: order_trans[OF _ om_del_length])

lemma fold_del_less:
  assumes "k \<in> set ks" and "map_of m k \<noteq> None" shows "length (fold om_del ks m) < length m"
  using assms
proof (induction ks arbitrary: m)
  case (Cons x ks)
  show ?case
  proof (cases "map_of m x")
    case None
    then have "k \<in> set ks" "map_of (om_del x m) k \<noteq> None" using Cons.prems by auto
    from Cons.IH[OF this] show ?thesis using om_del_length[of x m] by simp
  next
    case (Some v)
    from om_del_less[OF this] show ?thesis using fold_del_length[of ks "om_del x m"] by simp
  qed
qed simp

definition records :: "document \<Rightarrow> nat" where
  "records s = length (invocations s) + length (demands s)"

lemma round_decreases:
  assumes round: "maintenance_round e io s s s (fs, pl) = (Inr (Some r), s', fs', pl')" and pl: "placed fs"
    and changed: "report_changed r"
  shows "records s' < records s \<or> s' = s \<and> length fs' < length fs"
  using round
proof (cases rule: round_cases)
  case (committed p m fs1 rep)
  have s': "rep = fst (retire_kind (pm_expired m) (mp_kind p) s)" "s' = snd (retire_kind (pm_expired m) (mp_kind p) s)"
    using committed(3,5) by (simp_all add: commit_maintenance_def)
  from committed(1) show ?thesis
  proof (cases rule: plan_cases)
    case (1 k d)
    let ?ks = "the (archive_members s d)"
    have "?ks \<noteq> []" using 1(5) by (auto simp: archive_members_def om_vals_def split: if_splits)
    then obtain q where q: "q \<in> set ?ks" by (cases ?ks) auto
    have "get_demand s q \<noteq> None"
      using committed(3) q unfolding prepared_eligible_def 1(6)
      by (auto simp: group_prepared_eligible_def is_some_and_iff)
    from fold_del_less[OF q this] show ?thesis
      unfolding s' 1(6)
      by (simp add: retire_kind_def records_def fold_del_map add_le_less_mono[OF fold_del_length])
  next
    case (2 i k)
    then have "get_call s (i_id i) = Some i"
      using committed(3) by (simp add: prepared_eligible_def call_prepared_eligible_def is_some_and_iff)
    from om_del_less[OF this] show ?thesis unfolding s' 2(2) by (simp add: retire_kind_def records_def)
  next
    case 3
    have "r = rep" using committed(6) by simp
    then have "0 < pm_expired m" using changed unfolding s' 3(2)
      by (simp add: retire_kind_def report_changed_def no_report_def)
    moreover have "pm_staged m = [] \<and> (pm_expired m = 0 \<or> length fs1 < length fs)"
      by (rule prepare_sheds(2)[OF committed(2) pl 3(2) refl])
    ultimately show ?thesis using committed(4) unfolding s' 3(2) by (simp add: retire_kind_def)
  qed
qed blast+

lemma rounds_end:
  assumes "placed fs"
  shows "\<exists>n res. \<forall>m \<ge> n. retire_history m e io acc s (fs, pl) = res"
  using assms
proof (induction "(records s, length fs)" arbitrary: s fs pl acc rule: wf_induct_rule[OF wf_lex_prod[OF wf_less_than wf_less_than]])
  case (1 s fs pl acc)
  obtain x s' fs' pl' where r: "maintenance_round e io s s s (fs, pl) = (x, s', fs', pl')" by (metis prod_cases4)
  have once: "retire_history (Suc k) e io acc s (fs, pl) =
      (case x of Inl err \<Rightarrow> (Inl err, s', fs', pl')
       | Inr None \<Rightarrow> (Inr acc, s', fs', pl')
       | Inr (Some q) \<Rightarrow> if report_changed q then retire_history k e io (add_report acc q) s' (fs', pl')
                       else (Inr (add_report acc q), s', fs', pl'))" for k
    by (simp add: r split: sum.splits option.splits)
  show ?case
  proof (cases "\<exists>q. x = Inr (Some q) \<and> report_changed q")
    case False
    have "\<exists>res. \<forall>m \<ge> 1. retire_history m e io acc s (fs, pl) = res"
    proof -
      have "retire_history m e io acc s (fs, pl) = retire_history 1 e io acc s (fs, pl)" if m: "m \<ge> 1" for m
      proof -
        obtain k where "m = Suc k" using m by (cases m) auto
        then show ?thesis using once[of k] once[of 0] False by (auto split: sum.splits option.splits)
      qed
      then show ?thesis by blast
    qed
    then show ?thesis by blast
  next
    case True
    then obtain q where q: "x = Inr (Some q)" "report_changed q" by blast
    note down = round_decreases[OF r[unfolded q(1)] 1(2) q(2)]
    have "\<exists>n res. \<forall>m \<ge> n. retire_history m e io (add_report acc q) s' (fs', pl') = res"
      by (rule 1(1)) (use down round_placed[OF r 1(2)] in auto)
    then obtain n res where n: "\<forall>m \<ge> n. retire_history m e io (add_report acc q) s' (fs', pl') = res" by blast
    have "retire_history m e io acc s (fs, pl) = res" if m: "m \<ge> Suc n" for m
    proof -
      obtain k where k: "m = Suc k" "k \<ge> n" using m by (cases m) auto
      then show ?thesis using once[of k] n q by simp
    qed
    then show ?thesis by blast
  qed
qed

section \<open>The indexes of a call\<close>

lemma stage_call_index:
  assumes "stage_call e io fs i d c True [] = Inr (a, staged)"
  shows "staged_at (SubmissionPath (ia_owner a) (ia_reservation_id a) (ia_submission_id a)) staged =
      Some (InvocationPointerFile (invocation_pointer_of a))"
    "ia_work_id a = Some w \<Longrightarrow> staged_at (WorkPath (ia_owner a) w) staged = Some (InvocationPointerFile (invocation_pointer_of a))"
proof -
  obtain m1 m2 where m: "stage_invocation_value io fs a [] = Inr m1" "stage_invocation_indexes io fs a m1 = Inr m2"
      "stage_reservation_index io fs d a m2 = Inr staged"
    using assms by (auto simp: stage_call_def res_bind_eq_Inr)
  obtain r m3 where r: "stage_json io fs (ReservationPath (ra_owner r) (ra_reservation_id r)) (ReservationFile r) m2 = Inr m3"
      "(case ra_acquisition_id r of None \<Rightarrow> Inr m3 | Some q \<Rightarrow> stage_json io fs (AcquisitionPath (ra_owner r) q)
         (ReservationPointerFile \<lparr>rp_schema = ARCHIVE_SCHEMA, rp_owner = ra_owner r,
            rp_reservation_id = ra_reservation_id r, rp_expires_at = ra_expires_at r\<rparr>) m3) = Inr staged"
    using m(3) by (auto simp: stage_reservation_index_def stage_reservation_archive_def res_bind_eq_Inr Let_def)
  have keep: "staged_at p staged = staged_at p m2"
    if p: "\<And>x y. p \<noteq> ReservationPath x y" "\<And>x y. p \<noteq> AcquisitionPath x y" for p
  proof -
    have "staged_at p m3 = staged_at p m2" using r(1) not_sym[OF p(1)] by (simp add: stage_json_Inr)
    moreover have "staged_at p staged = staged_at p m3"
      using r(2) not_sym[OF p(2)] by (cases "ra_acquisition_id r") (simp_all add: stage_json_Inr)
    ultimately show ?thesis by simp
  qed
  have sub: "staged_at (SubmissionPath (ia_owner a) (ia_reservation_id a) (ia_submission_id a)) m2 =
      Some (InvocationPointerFile (invocation_pointer_of a))"
    using m(1,2) by (auto simp: stage_invocation_value_def stage_invocation_indexes_def Let_def stage_json_Inr res_bind_eq_Inr
        split: option.splits)
  have work: "staged_at (WorkPath (ia_owner a) w) m2 = Some (InvocationPointerFile (invocation_pointer_of a))"
    if "ia_work_id a = Some w"
    using m(1,2) that by (auto simp: stage_invocation_value_def stage_invocation_indexes_def Let_def stage_json_Inr res_bind_eq_Inr)
  show "staged_at (SubmissionPath (ia_owner a) (ia_reservation_id a) (ia_submission_id a)) staged =
      Some (InvocationPointerFile (invocation_pointer_of a))"
    using sub by (subst keep) simp_all
  show "staged_at (WorkPath (ia_owner a) w) staged = Some (InvocationPointerFile (invocation_pointer_of a))"
    if "ia_work_id a = Some w"
    using work[OF that] by (subst keep) simp_all
qed

lemma lookup_pointed_same:
  assumes "map_of fs p = Some (InvocationPointerFile (invocation_pointer_of a))"
    and "map_of fs (InvocationPath (ia_owner a) (ia_invocation_id a)) = Some (InvocationFile a)"
    and "\<And>q. ao_read io q = Inr ()"
  shows "lookup_pointed t io h fs (ia_owner a) p = lookup_invocation t io h fs (ia_owner a) (ia_invocation_id a)"
  using assms
  by (simp add: lookup_pointed_def lookup_invocation_def read_json_def as_invocation_pointer_def as_invocation_def
      res_bind_def invocation_pointer_of_def)

lemma prepare_call:
  assumes "mp_kind p = ArchiveCall i d" and "prepare_maintenance e io p (fs, pl) = (Inr m, fs1, pl1)"
  shows "\<exists>a. stage_call e io fs i d None True [] = Inr (a, pm_staged m) \<and> fs1 = fs"
proof (cases "stage_call e io fs i d None True []")
  case (Inl err)
  then show ?thesis using assms by (simp add: prepare_maintenance_def)
next
  case (Inr z)
  then show ?thesis using assms by (cases z) (simp add: prepare_maintenance_def, fastforce)
qed

lemma round_indexes:
  assumes round: "maintenance_round e io s0 s1 s2 (fs, pl) = (x, s', fs', pl')" and pl: "placed fs"
    and plan: "plan_maintenance (now e) (expired_archive_exists io (now e) fs) s0 = Inr (Some p)"
    and kind: "mp_kind p = ArchiveCall i d"
    and gone: "get_call s2 (i_id i) = Some i" "get_call s' (i_id i) = None"
    and fresh: "map_of fs (InvocationPath (i_owner i) (i_id i)) = None" and rd: "\<And>q. ao_read io' q = Inr ()"
  shows "lookup_submission t io' h fs' (i_owner i) (q_reservation_id (i_request i)) (q_submission_id (i_request i)) =
      lookup_invocation t io' h fs' (i_owner i) (i_id i)"
    "q_work (i_request i) = Some w \<Longrightarrow>
      lookup_work t io' h fs' (i_owner i) (wk_work_id w) = lookup_invocation t io' h fs' (i_owner i) (i_id i)"
proof (atomize (full))
  from round show "lookup_submission t io' h fs' (i_owner i) (q_reservation_id (i_request i)) (q_submission_id (i_request i)) =
      lookup_invocation t io' h fs' (i_owner i) (i_id i) \<and>
    (q_work (i_request i) = Some w \<longrightarrow>
      lookup_work t io' h fs' (i_owner i) (wk_work_id w) = lookup_invocation t io' h fs' (i_owner i) (i_id i))"
  proof (cases rule: round_cases)
    case (committed q m fs1 rep)
    have "Inr (Some q) = (Inr (Some p) :: maintenance_plan option res)" by (rule trans[OF committed(1)[symmetric] plan])
    then have q: "q = p" by blast
    from prepare_call[OF kind committed(2)[unfolded q]]
    obtain a where st: "stage_call e io fs i d None True [] = Inr (a, pm_staged m)" and fs1: "fs1 = fs" by blast
    define staged where "staged = pm_staged m"
    note st = st[folded staged_def]
    have pub: "publish_staged io 0 staged fs = (Inr (), fs')" using committed(4)[unfolded fs1, folded staged_def] .
    note sel = stage_call_adds[OF st, of "\<lambda>b. b = a", OF refl]
    obtain y where y: "new_invocation_archive e i = Inr y" "a = close_invocation None y"
    proof -
      obtain r b where r: "read_invocation io fs (i_owner i) (i_id i) = Inr r" "a = close_invocation None b"
        and b: "(case r of Some a \<Rightarrow> if ia_owner a \<noteq> i_owner i \<or> ia_invocation_id a \<noteq> i_id i
             then Inl ''archive_invocation_identity_conflict'' else Inr a
           | None \<Rightarrow> new_invocation_archive e i) = Inr b"
        using sel(2) by (auto simp: invocation_archive_from_snapshot_def res_bind_eq_Inr)
      have "r = None"
      proof (cases r)
        case (Some c)
        then have "map_of fs (InvocationPath (i_owner i) (i_id i)) = Some (InvocationFile c)"
          using r(1) by (simp only: read_invocation_Some)
        then show ?thesis using fresh by simp
      qed simp
      then show thesis using that[of b] r(2) b by simp
    qed
    note a = new_archive_sel[OF y(1)]
    have o: "ia_owner a = i_owner i" "ia_invocation_id a = i_id i" "ia_reservation_id a = q_reservation_id (i_request i)"
      "ia_submission_id a = q_submission_id (i_request i)" "ia_work_id a = map_option wk_work_id (q_work (i_request i))"
      using a y(2) by simp_all
    obtain g where g: "g \<in> set staged" "sg_path g = InvocationPath (ia_owner a) (ia_invocation_id a)" using sel(3) by blast
    obtain v where v: "staged_at (sg_path g) staged = Some v" using staged_at_found[OF g(1)] by blast
    from staged_at_Some[OF v] obtain k where k: "k \<in> set staged" "sg_path k = sg_path g" "sg_contents k = v" by blast
    have sg: "staged_ok staged" "\<And>b. v = InvocationFile b \<Longrightarrow> b = a" using sel(1) k by (auto simp: adds_def)
    have "placed_file (sg_path g) v" using sg(1) k by (metis staged_ok_def)
    then obtain b where "v = InvocationFile b" using placed_at_invocation unfolding g(2) by blast
    then have at: "map_of fs' (InvocationPath (ia_owner a) (ia_invocation_id a)) = Some (InvocationFile a)"
      using publish_staged_at[OF pub, of "sg_path g"] v sg(2) g(2) by simp
    have "map_of fs' (SubmissionPath (ia_owner a) (ia_reservation_id a) (ia_submission_id a)) =
        Some (InvocationPointerFile (invocation_pointer_of a))"
      using publish_staged_at[OF pub] stage_call_index(1)[OF st] by simp
    from lookup_pointed_same[OF this at rd]
    have s: "lookup_submission t io' h fs' (i_owner i) (q_reservation_id (i_request i)) (q_submission_id (i_request i)) =
        lookup_invocation t io' h fs' (i_owner i) (i_id i)"
      unfolding lookup_submission_def o .
    have "lookup_work t io' h fs' (i_owner i) (wk_work_id w) = lookup_invocation t io' h fs' (i_owner i) (i_id i)"
      if "q_work (i_request i) = Some w"
    proof -
      have "map_of fs' (WorkPath (ia_owner a) (wk_work_id w)) = Some (InvocationPointerFile (invocation_pointer_of a))"
        using publish_staged_at[OF pub] stage_call_index(2)[OF st] o(5) that by simp
      from lookup_pointed_same[OF this at rd] show ?thesis unfolding lookup_work_def o .
    qed
    with s show ?thesis by blast
  qed (use gone in simp_all)
qed

section \<open>Properties\<close>

text \<open>C18: A maintenance pass removes only what is over. Whatever happened between the plan and the commit, a call
  that leaves the document is neither queued nor running, and is uncertain only if the recovery of its demand
  proved that nothing of it is left; a demand that leaves it has no process, has started nothing, claims no
  device, and is in a final state. Every record that stays is unchanged, and so are the claims.\<close>

theorem maintenance_spares_live:
  assumes "plan_maintenance t x s0 = Inr (Some p)" and "doc_inv s0" and "doc_inv s"
    and "commit_maintenance p n s = Inr (rep, s')"
  shows "(\<forall>k i. get_call s k = Some i \<longrightarrow> get_call s' k = Some i \<or>
      get_call s' k = None \<and> i_state i \<notin> {Queued, Running} \<and>
      (i_state i = Uncertain \<longrightarrow> physical_cleanup_proven s (q_reservation_id (i_request i)))) \<and>
    (\<forall>k d. get_demand s k = Some d \<longrightarrow> get_demand s' k = Some d \<or>
      get_demand s' k = None \<and> d_process d = None \<and> \<not> d_effect_started d \<and> (\<forall>r. get_claim s r \<noteq> Some k) \<and>
      d_state d \<in> {Released, Cancelled, Expired, Preempted}) \<and>
    claims s' = claims s"
  by (rule commit_spares[OF assms])

theorem maintenance_spares_live_witness:
  "\<exists>p s'. plan_maintenance 100 (Inr False) sample_history = Inr (Some p) \<and>
     commit_maintenance p 0 sample_history = Inr (no_report\<lparr>mt_invocations := 1\<rparr>, s') \<and>
     get_call sample_history ''i1'' \<noteq> None \<and> get_call s' ''i1'' = None \<and> claims s' = claims sample_history"
proof -
  have "claims (sample_history\<lparr>invocations := []\<rparr>) = claims sample_history"
    using maintenance_spares_live[OF sample_plan[of 100 "Inr False"] sample_history_inv sample_history_inv sample_commit[of 100 _ 0]] by blast
  then show ?thesis using sample_plan sample_commit by fastforce
qed

text \<open>C19: A call that maintenance takes out of the document is found again in the archive. In a round that runs to
  its end, whatever else happened to the document meanwhile, every call that leaves it and had no archive before is
  archived with its last record (its request compacted when it is final), and a lookup returns that record
  for fourteen days.\<close>

theorem archived_call_found:
  assumes "maintenance_round e io s0 s1 s2 (fs, pl) = (x, s', fs', pl')" and "placed fs" and "doc_inv s2"
    and "get_call s2 k = Some i" and "get_call s' k = None"
    and "map_of fs (InvocationPath (i_owner i) k) = None"
    and "ao_read io' (InvocationPath (i_owner i) k) = Inr ()" and "t < sat_add (now e) RETENTION_SECONDS"
  shows "\<exists>r. archived_record e i = Inr r \<and>
    lookup_invocation t io' hydrate fs' (i_owner i) k = res_bind (hydrate r) (\<lambda>j. Inr (Some j))"
proof -
  have k: "i_id i = k" using assms(3,4) by (simp add: doc_inv_def)
  obtain a c where a: "map_of fs' (InvocationPath (i_owner i) k) = Some (InvocationFile a)" "archives e fs c i a"
      "c \<in> {None, Some (now e)}"
    using round_archives[OF assms(1,2,4,5) k] by blast
  have r: "archived_record e i = Inr (ia_record a)"
    and x: "ia_expires_at a = map_option (\<lambda>v. sat_add v RETENTION_SECONDS) c"
    using a(2) assms(6) unfolding archives_def k by blast+
  have "\<not> archive_expired (ia_expires_at a) t"
    using a(3) assms(8) unfolding x archive_expired_def is_some_and_def by auto
  moreover have "read_invocation io' fs' (i_owner i) k = Inr (Some a)"
    using a(1) assms(7) by (simp only: read_invocation_Some)
  ultimately show ?thesis using r by (simp add: lookup_invocation_def res_bind_def)
qed

theorem archived_call_found_witness:
  "\<exists>r fs'. archived_record sample_env sample_finished = Inr r \<and>
     snd (snd (maintenance_round sample_env quiet_io sample_history sample_history sample_history ([], \<lambda>_. None))) = (fs', \<lambda>_. None) \<and>
     lookup_invocation 200 quiet_io Inr fs' ''app'' ''i1'' = Inr (Some r)"
proof -
  obtain a where "new_invocation_archive sample_env sample_finished = Inr a"
    using sample_record by (auto simp: new_invocation_archive_def archived_record_def res_bind_def)
  note a = this new_archive_sel[OF this]
  have "invocation_archive_from_snapshot sample_env quiet_io [] sample_finished None = Inr (close_invocation None a)"
    using a(1) by (simp add: invocation_archive_from_snapshot_def read_json_def res_bind_def)
  from sample_round[OF this, of "\<lambda>_. None"] obtain fs' where r:
    "maintenance_round sample_env quiet_io sample_history sample_history sample_history ([], \<lambda>_. None) =
       (Inr (Some (no_report\<lparr>mt_invocations := 1\<rparr>)), sample_history\<lparr>invocations := []\<rparr>, fs', \<lambda>_. None)"
    using a(7) by (auto simp: sample_request_def)
  have "placed []" by (simp add: placed_def)
  from archived_call_found[OF r this sample_history_inv, of "''i1''" sample_finished quiet_io 200 Inr] r
  show ?thesis by (force simp: res_bind_def sat_add_def RETENTION_SECONDS_def u64_max_def)
qed

text \<open>C20: An archived record outlives every round before its expiry. However a round of maintenance ends, with an
  error of the file system in the middle of its publication or removal or without one, a call that was archived and
  has not expired is still archived, under the same owner and identity and with the same record.\<close>

theorem archived_record_survives:
  assumes "maintenance_round e io s0 s1 s2 (fs, pl) = (x, s', fs', pl')" and "placed fs"
    and "map_of fs (InvocationPath owner k) = Some (InvocationFile a)" and "\<not> invocation_expired (now e) a"
  shows "placed fs' \<and> (\<exists>b. map_of fs' (InvocationPath owner k) = Some (InvocationFile b) \<and> ia_record b = ia_record a)"
  using round_placed[OF assms(1,2)] round_keeps_record[OF assms] by blast

text \<open>An archive of the sample call that another pass left behind.\<close>

definition sample_stale :: invocation_archive where
  "sample_stale = \<lparr>ia_schema = ARCHIVE_SCHEMA, ia_owner = ''app'', ia_invocation_id = ''i1'', ia_reservation_id = ''d1'',
     ia_submission_id = ''s'', ia_work_id = None, ia_closed_at = None, ia_closed_at_source = None, ia_expires_at = None,
     ia_preserved = False, ia_record = sample_finished\<lparr>i_error := Some ''unknown''\<rparr>\<rparr>"

definition sample_archive :: archive where
  "sample_archive = [(InvocationPath ''app'' ''i1'', InvocationFile sample_stale)]"

lemma sample_archive_simps:
  "placed sample_archive" "map_of sample_archive (InvocationPath ''app'' ''i1'') = Some (InvocationFile sample_stale)"
  "\<not> invocation_expired t sample_stale"
  by (auto simp: placed_def sample_archive_def sample_stale_def invocation_expired_def archive_expired_def is_some_and_def)

lemma sample_stale_round:
  "\<exists>fs'. maintenance_round sample_env quiet_io sample_history sample_history sample_history (sample_archive, pl) =
     (Inr (Some (no_report\<lparr>mt_invocations := 1\<rparr>)), sample_history\<lparr>invocations := []\<rparr>, fs', pl)"
proof -
  have "invocation_archive_from_snapshot sample_env quiet_io sample_archive sample_finished None = Inr (close_invocation None sample_stale)"
    by (simp add: invocation_archive_from_snapshot_def read_json_def res_bind_def sample_archive_def as_invocation_def
        sample_stale_def)
  from sample_round[OF this] show ?thesis by (simp add: sample_stale_def sample_archive_def)
qed

theorem archived_record_survives_witness:
  "\<exists>fs' b. snd (snd (maintenance_round sample_env quiet_io sample_history sample_history sample_history (sample_archive, \<lambda>_. None))) =
     (fs', \<lambda>_. None) \<and> map_of fs' (InvocationPath ''app'' ''i1'') = Some (InvocationFile b) \<and> i_error (ia_record b) = Some ''unknown''"
proof -
  obtain fs' where r: "maintenance_round sample_env quiet_io sample_history sample_history sample_history (sample_archive, \<lambda>_. None) =
     (Inr (Some (no_report\<lparr>mt_invocations := 1\<rparr>)), sample_history\<lparr>invocations := []\<rparr>, fs', \<lambda>_. None)"
    using sample_stale_round by blast
  from archived_record_survives[OF r sample_archive_simps] r show ?thesis by (auto simp: sample_stale_def)
qed

text \<open>C22: A retried submission is answered from the archive. After a round that archived a single call for the first
  time, a lookup by its reservation and submission, and a lookup by its work when it has one, answer exactly what the
  lookup by its identity answers, at every time and for every content of the payload store.\<close>

theorem archived_submission_found:
  assumes "maintenance_round e io s0 s1 s2 (fs, pl) = (x, s', fs', pl')" and "placed fs"
    and "plan_maintenance (now e) (expired_archive_exists io (now e) fs) s0 = Inr (Some p)"
    and "mp_kind p = ArchiveCall i d"
    and "get_call s2 (i_id i) = Some i" and "get_call s' (i_id i) = None"
    and "map_of fs (InvocationPath (i_owner i) (i_id i)) = None" and "\<And>q. ao_read io' q = Inr ()"
  shows "lookup_submission t io' hydrate fs' (i_owner i) (q_reservation_id (i_request i)) (q_submission_id (i_request i)) =
      lookup_invocation t io' hydrate fs' (i_owner i) (i_id i) \<and>
    (\<forall>w. q_work (i_request i) = Some w \<longrightarrow>
      lookup_work t io' hydrate fs' (i_owner i) (wk_work_id w) = lookup_invocation t io' hydrate fs' (i_owner i) (i_id i))"
  using round_indexes[OF assms] by blast

theorem archived_submission_found_witness:
  "\<exists>fs'. snd (snd (maintenance_round sample_env quiet_io sample_history sample_history sample_history ([], \<lambda>_. None))) =
     (fs', \<lambda>_. None) \<and>
     lookup_submission 200 quiet_io Inr fs' ''app'' ''d1'' ''s'' = lookup_invocation 200 quiet_io Inr fs' ''app'' ''i1''"
proof -
  obtain a where "new_invocation_archive sample_env sample_finished = Inr a"
    using sample_record by (auto simp: new_invocation_archive_def archived_record_def res_bind_def)
  note a = this new_archive_sel[OF this]
  have "invocation_archive_from_snapshot sample_env quiet_io [] sample_finished None = Inr (close_invocation None a)"
    using a(1) by (simp add: invocation_archive_from_snapshot_def read_json_def res_bind_def)
  from sample_round[OF this, of "\<lambda>_. None"] obtain fs' where r:
    "maintenance_round sample_env quiet_io sample_history sample_history sample_history ([], \<lambda>_. None) =
       (Inr (Some (no_report\<lparr>mt_invocations := 1\<rparr>)), sample_history\<lparr>invocations := []\<rparr>, fs', \<lambda>_. None)"
    using a(7) by (auto simp: sample_request_def)
  have "placed []" by (simp add: placed_def)
  from archived_submission_found[OF r this sample_plan, of sample_finished _ quiet_io 200 Inr] r
  show ?thesis by (simp add: sample_request_def)
qed

text \<open>C21: Maintenance ends. Over files that stand where their contents say, the rounds of a pass come to an end
  without the bound of eight: from some number of rounds on, further rounds change neither the outcome, the
  document nor the files. Each round that reports a change has made it: the document has fewer calls and demands
  than before, or it is unchanged and the archive has fewer files.\<close>

theorem maintenance_ends:
  assumes "placed fs"
  shows "(\<exists>n. \<forall>m \<ge> n. retire_history m e io acc s (fs, pl) = retire_history n e io acc s (fs, pl)) \<and>
    (\<forall>r s' fs' pl'. maintenance_round e io s s s (fs, pl) = (Inr (Some r), s', fs', pl') \<and> report_changed r \<longrightarrow>
      length (invocations s') + length (demands s') < length (invocations s) + length (demands s) \<or>
      s' = s \<and> length fs' < length fs)"
proof -
  obtain n res where "\<forall>m \<ge> n. retire_history m e io acc s (fs, pl) = res" using rounds_end[OF assms] by blast
  then have "\<forall>m \<ge> n. retire_history m e io acc s (fs, pl) = retire_history n e io acc s (fs, pl)" by simp
  then show ?thesis using round_decreases[OF _ assms] unfolding records_def by blast
qed

theorem maintenance_ends_witness:
  "(\<exists>n. \<forall>m \<ge> n. retire_history m sample_env quiet_io no_report sample_history (sample_archive, \<lambda>_. None) =
     retire_history n sample_env quiet_io no_report sample_history (sample_archive, \<lambda>_. None)) \<and>
   (\<exists>s' fs'. maintenance_round sample_env quiet_io sample_history sample_history sample_history (sample_archive, \<lambda>_. None) =
       (Inr (Some (no_report\<lparr>mt_invocations := 1\<rparr>)), s', fs', \<lambda>_. None) \<and>
     (length (invocations s') + length (demands s') < length (invocations sample_history) + length (demands sample_history) \<or>
      s' = sample_history \<and> length fs' < length sample_archive))"
proof -
  obtain fs' where r: "maintenance_round sample_env quiet_io sample_history sample_history sample_history (sample_archive, \<lambda>_. None) =
     (Inr (Some (no_report\<lparr>mt_invocations := 1\<rparr>)), sample_history\<lparr>invocations := []\<rparr>, fs', \<lambda>_. None)"
    using sample_stale_round by blast
  have c: "report_changed (no_report\<lparr>mt_invocations := 1\<rparr>)" by (simp add: report_changed_def no_report_def)
  note m = maintenance_ends[OF sample_archive_simps(1), of sample_env quiet_io no_report sample_history "\<lambda>_. None"]
  show ?thesis by (rule conjI[OF conjunct1[OF m]]) (use conjunct2[OF m] r c in blast)
qed

text \<open>C40: A file left by an earlier pass wins over the call. When the archive already holds a file for a call, because
  a pass published it and its commit did not follow, the round that takes the call out of the document keeps the
  record of that file and drops the call as it is now, whatever has been recorded in it since.\<close>

theorem archive_keeps_stale_record:
  assumes "maintenance_round e io s0 s1 s2 (fs, pl) = (x, s', fs', pl')" and "placed fs" and "doc_inv s2"
    and "get_call s2 k = Some i" and "get_call s' k = None"
    and "map_of fs (InvocationPath (i_owner i) k) = Some (InvocationFile b)"
  shows "\<exists>a. map_of fs' (InvocationPath (i_owner i) k) = Some (InvocationFile a) \<and> ia_record a = ia_record b"
proof -
  have k: "i_id i = k" using assms(3,4) by (simp add: doc_inv_def)
  obtain a c where a: "map_of fs' (InvocationPath (i_owner i) k) = Some (InvocationFile a)" "archives e fs c i a"
    using round_archives[OF assms(1,2,4,5) k] by blast
  then show ?thesis using assms(6) unfolding archives_def k by blast
qed

theorem archive_keeps_stale_record_witness:
  "\<exists>s' fs' a. maintenance_round sample_env quiet_io sample_history sample_history sample_history (sample_archive, \<lambda>_. None) =
     (Inr (Some (no_report\<lparr>mt_invocations := 1\<rparr>)), s', fs', \<lambda>_. None) \<and>
     i_error sample_finished = None \<and> get_call s' ''i1'' = None \<and>
     map_of fs' (InvocationPath ''app'' ''i1'') = Some (InvocationFile a) \<and> i_error (ia_record a) = Some ''unknown''"
proof -
  obtain fs' where r: "maintenance_round sample_env quiet_io sample_history sample_history sample_history (sample_archive, \<lambda>_. None) =
     (Inr (Some (no_report\<lparr>mt_invocations := 1\<rparr>)), sample_history\<lparr>invocations := []\<rparr>, fs', \<lambda>_. None)"
    using sample_stale_round by blast
  from archive_keeps_stale_record[OF r sample_archive_simps(1) sample_history_inv, of "''i1''" sample_finished sample_stale]
  obtain a where "map_of fs' (InvocationPath ''app'' ''i1'') = Some (InvocationFile a)" "ia_record a = ia_record sample_stale"
    by (auto simp: sample_archive_simps(2))
  moreover have "i_error sample_finished = None" by (simp add: sample_finished_def sample_call_def)
  ultimately show ?thesis using r by (auto simp: sample_stale_def)
qed

text \<open>The closure of a group passes over the calls its members archived earlier. Preparing and publishing the
  closure of a group leaves every call file as it was whose call is neither still in the document nor listed in the
  file of the group's root; a call archived while its group was open is listed in the file of its own member, so
  for a member other than the root its archive never gets an expiry.\<close>

theorem member_archive_never_expires:
  assumes "prepare_group e io fs t r ks ms is ws = Inr staged" and "publish_staged io n staged fs = (x, fs')"
    and "placed fs" and "k \<notin> i_id ` set is" and "k \<notin> listed_ids io fs r"
  shows "map_of fs' (InvocationPath owner k) = map_of fs (InvocationPath owner k)"
proof (cases "map_of fs' (InvocationPath owner k)")
  case None
  then have "map_of fs (InvocationPath owner k) = None" using publish_grows[OF assms(2)] by blast
  with None show ?thesis by simp
next
  case (Some v)
  have "\<not> (\<exists>g \<in> set staged. sg_path g = InvocationPath owner k \<and> sg_contents g = v)"
    using prepare_group_ids[OF assms(1,3)] assms(4,5) by blast
  then have "map_of fs (InvocationPath owner k) = Some v" using publish_sub[OF assms(2) Some] by blast
  with Some show ?thesis by simp
qed

text \<open>A call of the second member of a group, archived while the group was open.\<close>

definition sample_member_archive :: archive where
  "sample_member_archive = [(InvocationPath ''app'' ''i1'', InvocationFile (sample_stale\<lparr>ia_reservation_id := ''m2''\<rparr>))]"

lemma sample_member_placed: "placed sample_member_archive"
  by (simp add: placed_def sample_member_archive_def sample_stale_def)

lemma sample_member_prepare:
  "\<exists>staged. prepare_group sample_env quiet_io sample_member_archive 100 (sample_member ''m1'' Released (sample_profile ''coder'' [''gpu0'']))
     [''m1'', ''m2''] [] [] [] = Inr staged"
  by (simp add: prepare_group_def closed_reservation_archive_def read_json_def sample_member_archive_def sample_member_def
      sample_demand_sel stage_reservation_archive_def stage_json_def close_reservation_def res_bind_def
      split: prod.splits option.splits)

theorem member_archive_never_expires_witness:
  "\<exists>staged. prepare_group sample_env quiet_io sample_member_archive 100
       (sample_member ''m1'' Released (sample_profile ''coder'' [''gpu0''])) [''m1'', ''m2''] [] [] [] = Inr staged \<and>
     map_of (snd (publish_staged quiet_io 0 staged sample_member_archive)) (InvocationPath ''app'' ''i1'') =
       Some (InvocationFile (sample_stale\<lparr>ia_reservation_id := ''m2''\<rparr>)) \<and> ia_expires_at sample_stale = None"
proof -
  let ?r = "sample_member ''m1'' Released (sample_profile ''coder'' [''gpu0''])"
  obtain staged where s: "prepare_group sample_env quiet_io sample_member_archive 100 ?r [''m1'', ''m2''] [] [] [] = Inr staged"
    using sample_member_prepare by blast
  have "\<not> ''i1'' \<in> listed_ids quiet_io sample_member_archive ?r"
    by (simp add: listed_ids_def read_json_def sample_member_archive_def res_bind_def)
  from member_archive_never_expires[OF s prod.collapse[symmetric] sample_member_placed _ this, of 0 "''app''"] s
  show ?thesis by (simp add: sample_member_archive_def sample_stale_def)
qed

end
