(* ===== verification/Campaign.thy ===== *)
theory Campaign
  imports Payload_Store Text "HOL-Library.Word"
begin

text \<open>
  Campaigns, \<open>campaign.rs\<close>, \<open>campaign_paths.rs\<close> and \<open>campaign_review.rs\<close> of the application: the documents, the
  paths a step may change, the validation of a campaign and the coordinator's review of an attempt. A string
  is a list of bytes, and \<open>to_lowercase\<close> changes the ASCII letters. Times are numbers of seconds; the source
  keeps them as decimal text.
\<close>

unbundle bit_operations_syntax

section \<open>Documents\<close>

record campaign_limits =
  cl_max_runtime :: nat
  cl_max_steps :: nat
  cl_max_attempts :: nat
  cl_heartbeat :: nat
  cl_network :: string

record worker_policy =
  wp_primary :: string
  wp_fallback :: string
  wp_primary_attempts :: nat
  wp_repair_attempts :: nat
  wp_fallback_attempts :: nat

datatype step_kind = ImplementationStep | VerificationStep

record campaign_step =
  st_id :: string
  st_kind :: step_kind
  st_task :: string
  st_allowed :: "string list"
  st_required :: "string list"
  st_commands :: "string list list"
  st_artifacts :: "string list"
  st_timeout :: nat
  st_network :: string

record campaign =
  cg_version :: string
  cg_id :: string
  cg_repository :: string
  cg_base_ref :: string
  cg_base_sha :: string
  cg_branch :: string
  cg_permitted :: "string list"
  cg_allow_commits :: bool
  cg_limits :: campaign_limits
  cg_policy :: worker_policy
  cg_steps :: "campaign_step list"

record revision_document =
  rd_instruction :: string
  rd_steps :: "campaign_step list"

datatype campaign_state =
  CPaused | CRunning | CCompleted | CFailed | CBlocked | CCancelled | CExpired

datatype disposition = Accepted | RejectedRetryable | RejectedTerminal

datatype failure =
    ToolProtocolViolation | NoChange | PathPolicyFailed | AcceptanceFailed | ArtifactMissing | WorkerTimeout
  | ReviewerTimeout | ReviewerFailure | RecoveryFailure | ExecutorUnavailable | ModelUnavailable
  | CampaignExpired | OperatorPaused | OperatorCancelled | ContinuityFailed | InsufficientAuthority
  | InadequateImplementation

datatype attempt_kind = PrimaryAttempt | RepairAttempt | FallbackAttempt | VerificationAttempt

fun failure_name :: "failure \<Rightarrow> string" where
  "failure_name ToolProtocolViolation = ''tool_protocol_violation''"
| "failure_name NoChange = ''no_change''"
| "failure_name PathPolicyFailed = ''path_policy_failed''"
| "failure_name AcceptanceFailed = ''acceptance_failed''"
| "failure_name ArtifactMissing = ''artifact_missing''"
| "failure_name WorkerTimeout = ''worker_timeout''"
| "failure_name ReviewerTimeout = ''reviewer_timeout''"
| "failure_name ReviewerFailure = ''reviewer_failure''"
| "failure_name RecoveryFailure = ''recovery_failure''"
| "failure_name ExecutorUnavailable = ''executor_unavailable''"
| "failure_name ModelUnavailable = ''model_unavailable''"
| "failure_name CampaignExpired = ''campaign_expired''"
| "failure_name OperatorPaused = ''operator_paused''"
| "failure_name OperatorCancelled = ''operator_cancelled''"
| "failure_name ContinuityFailed = ''continuity_failed''"
| "failure_name InsufficientAuthority = ''insufficient_authority''"
| "failure_name InadequateImplementation = ''inadequate_implementation''"

definition retryable_failure :: "failure \<Rightarrow> bool" where
  "retryable_failure f \<longleftrightarrow> f \<in> {ToolProtocolViolation, NoChange, AcceptanceFailed, ArtifactMissing, WorkerTimeout,
     ModelUnavailable, InadequateImplementation}"

record review =
  rv_disposition :: disposition
  rv_classification :: "failure option"
  rv_rationale :: string
  rv_evidence :: "string list"
  rv_repair :: "string option"

record attempt_record =
  ar_attempt :: nat
  ar_worker :: string
  ar_kind :: attempt_kind
  ar_start :: nat
  ar_end :: nat
  ar_disposition :: disposition
  ar_classification :: "failure option"
  ar_rationale :: string
  ar_commit :: "string option"
  ar_repair :: "string option"
  ar_next_repair :: "string option"
  ar_repair_of :: "nat option"
  ar_fallback_of :: "nat option"

record step_record =
  sr_id :: string
  sr_kind :: step_kind
  sr_disposition :: string
  sr_review :: "disposition option"
  sr_rationale :: "string option"
  sr_attempts :: "attempt_record list"
  sr_commit :: "string option"

record revision_record =
  rr_instruction :: string
  rr_added :: "string list"
  rr_recorded :: nat

record campaign_status =
  cs_id :: string
  cs_digest :: "64 word"
  cs_repository :: string
  cs_base_sha :: string
  cs_branch :: string
  cs_worktree :: string
  cs_head :: string
  cs_state :: campaign_state
  cs_step :: "string option"
  cs_attempt :: nat
  cs_worker :: "string option"
  cs_action :: "string option"
  cs_pause :: bool
  cs_cancel :: bool
  cs_start :: nat
  cs_end :: "nat option"
  cs_duration :: nat
  cs_remaining :: nat
  cs_heartbeat :: nat
  cs_progress :: "nat option"
  cs_steps :: "step_record list"
  cs_revisions :: "revision_record list"
  cs_lease :: "string option"
  cs_container :: "string option"
  cs_error :: "string option"
  cs_blocked :: "string option"

record git_evidence =
  ge_head :: string
  ge_status :: string
  ge_diff :: string
  ge_stat :: string
  ge_changed :: "string list"

record command_evidence =
  ce_argv :: "string list"
  ce_exit :: int
  ce_stdout :: string
  ce_stderr :: string
  ce_timed_out :: bool

definition succeeded :: "command_evidence \<Rightarrow> bool" where
  "succeeded c \<longleftrightarrow> ce_exit c = 0 \<and> \<not> ce_timed_out c"

record tool_call =
  tc_name :: string
  tc_arguments :: string
  tc_result :: string

record implement_result =
  ir_output :: string
  ir_tool_calls :: "tool_call list"
  ir_protocol_error :: "string option"
  ir_worker_error :: "string option"
  ir_host_shell :: bool

definition plain_result :: "string \<Rightarrow> implement_result" where
  "plain_result out = \<lparr>ir_output = out, ir_tool_calls = [], ir_protocol_error = None, ir_worker_error = None,
     ir_host_shell = False\<rparr>"

section \<open>Text\<close>

definition lower_byte :: "char \<Rightarrow> char" where
  "lower_byte c = (if ascii_uppercase c then char_of ((of_char c :: nat) + 32) else c)"

definition lowercase :: "string \<Rightarrow> string" where
  "lowercase s = map lower_byte s"

fun join_with :: "string \<Rightarrow> string list \<Rightarrow> string" where
  "join_with sep [] = []"
| "join_with sep [x] = x"
| "join_with sep (x # y # xs) = x @ sep @ join_with sep (y # xs)"

definition newline :: string where
  "newline = [char_of (10 :: nat)]"

definition quoted :: "string \<Rightarrow> string" where
  "quoted s = CHR 0x27 # s @ [CHR 0x27]"

definition trim_slashes :: "string \<Rightarrow> string" where
  "trim_slashes s = rev (dropWhile (\<lambda>c. c = CHR ''/'') (rev s))"

definition has_whitespace :: "string \<Rightarrow> bool" where
  "has_whitespace s \<longleftrightarrow> (\<exists>w \<in> set whitespace. contains_text w s)"

fun natural_text :: "nat \<Rightarrow> string" where
  "natural_text n = (if n < 10 then [char_of (48 + n)] else natural_text (n div 10) @ [char_of (48 + n mod 10)])"

declare natural_text.simps [simp del]

section \<open>Identities of the domain\<close>

definition repository_id :: "string \<Rightarrow> string res" where
  "repository_id v =
     (let t = trim v in
      if t = [] then Inl ''repository id cannot be empty''
      else if \<exists>c \<in> set t. \<not> (ascii_alphanumeric c \<or> c \<in> set ''-_.'') then Inl ''repository id must be filesystem-safe''
      else Inr t)"

definition git_ref :: "string \<Rightarrow> string res" where
  "git_ref v =
     (let t = trim v in
      if t = [] then Inl ''git ref cannot be empty''
      else if has_whitespace t \<or> contains_text ''..'' t then Inl ''git ref is invalid''
      else Inr t)"

definition git_sha :: "string \<Rightarrow> string res" where
  "git_sha v =
     (let t = trim v in
      if length t \<noteq> 40 \<and> length t \<noteq> 64 \<or> (\<exists>c \<in> set t. \<not> ascii_hexdigit c)
      then Inl ''git sha must be a full 40 or 64 character hex digest''
      else Inr (lowercase t))"

definition acceptance_command :: "string list \<Rightarrow> string list res" where
  "acceptance_command argv =
     (if argv = [] \<or> [] \<in> set argv then Inl ''acceptance command cannot be empty''
      else if \<exists>part \<in> set (concat (map (split_on (CHR 0x5C)) (split_on CHR ''/'' (hd argv)))). part = ''..''
      then Inl ''acceptance command executable must not use parent traversal''
      else Inr argv)"

section \<open>Paths\<close>

definition allowed_path :: "string \<Rightarrow> string res" where
  "allowed_path v =
     (let t = trim v in
      if t = [] then Inl ''allowed path cannot be empty''
      else if starts_with t ''/'' \<or> CHR 0x00 \<in> set t then Inl ''allowed path must be a relative workspace path''
      else if ''..'' \<in> set (path_parts t) then Inl ''allowed path must be a relative workspace path''
      else Inr (trim_slashes t))"

definition allows :: "string \<Rightarrow> string \<Rightarrow> bool" where
  "allows a p = (let n = trim_slashes (trim p) in n = a \<or> starts_with n (a @ ''/''))"

definition allowed_paths :: "string list \<Rightarrow> string list res" where
  "allowed_paths ps = (if ps = [] then Inl ''allowed paths cannot be empty'' else Inr ps)"

text \<open>\<open>WorkspacePath::parse\<close>, the components pushed on a path that parents pop.\<close>

fun normal_parts :: "string list \<Rightarrow> string list \<Rightarrow> string list res" where
  "normal_parts done_parts [] = Inr done_parts"
| "normal_parts done_parts (c # cs) =
     (if c = ''.'' then normal_parts done_parts cs
      else if c = ''..''
      then (if done_parts = [] then Inl ''workspace path escapes the workspace''
            else normal_parts (butlast done_parts) cs)
      else normal_parts (done_parts @ [c]) cs)"

definition workspace_path :: "string \<Rightarrow> string res" where
  "workspace_path v =
     (let t = trim v in
      if t = [] then Inl ''workspace path cannot be empty''
      else
        res_bind
          (if t = ''/workspace'' then Inr []
           else case strip_prefix ''/workspace/'' t of
             Some r \<Rightarrow> Inr r
           | None \<Rightarrow> if starts_with t ''/'' then Inl ''absolute path is outside the workspace'' else Inr t) (\<lambda>r.
        if r = [] then Inl ''workspace path cannot be the workspace root''
        else if starts_with r ''/'' then Inl ''workspace path is invalid''
        else
          res_bind (normal_parts [] (path_parts r)) (\<lambda>ps.
          if ps = [] then Inl ''workspace path cannot be the workspace root'' else Inr (join_parts ps))))"

definition parse_campaign_path :: "string \<Rightarrow> string res" where
  "parse_campaign_path raw =
     (let t = trim raw in
      if t = [] then Inl ''campaign path cannot be empty''
      else if CHR 0x00 \<in> set raw then Inl (''invalid campaign path '' @ quoted raw @ '': contains NUL'')
      else if starts_with t ''/'' then Inl (''invalid campaign path '' @ quoted raw @ '': absolute paths are not allowed'')
      else if \<exists>c \<in> set (path_parts t). c = ''.'' \<or> c = ''..''
      then Inl (''invalid campaign path '' @ quoted raw @ '': traversal components are not allowed'')
      else
        res_bind
          (case workspace_path t of
             Inl e \<Rightarrow> Inl (''invalid campaign path '' @ quoted raw @ '': '' @ e)
           | Inr r \<Rightarrow> Inr r) allowed_path)"

definition allowed_paths_from :: "string list \<Rightarrow> string list res" where
  "allowed_paths_from ps = res_bind (map_res (\<lambda>p. res_bind (parse_campaign_path p) allowed_path) ps) allowed_paths"

definition path_is_authorized :: "string \<Rightarrow> string list \<Rightarrow> bool res" where
  "path_is_authorized p ps =
     res_bind (parse_campaign_path p) (\<lambda>c.
     res_bind (allowed_paths_from ps) (\<lambda>as. Inr (\<exists>a \<in> set as. allows a c)))"

definition path_is_under_prefix :: "string \<Rightarrow> string \<Rightarrow> bool res" where
  "path_is_under_prefix p prefix =
     res_bind (parse_campaign_path p) (\<lambda>c.
     res_bind (res_bind (parse_campaign_path prefix) allowed_path) (\<lambda>a. Inr (allows a c)))"

definition assert_authorized_paths :: "string list \<Rightarrow> string list \<Rightarrow> unit res" where
  "assert_authorized_paths changed ps =
     res_bind (allowed_paths_from ps) (\<lambda>as.
     res_bind (map_res parse_campaign_path changed) (\<lambda>cs.
     let rejected = filter (\<lambda>c. \<not> (\<exists>a \<in> set as. allows a c)) cs in
     if rejected = [] then Inr ()
     else Inl (''changed paths outside allowed_paths: '' @ join_with '', '' rejected)))"

fun any_allowed :: "string \<Rightarrow> string list \<Rightarrow> bool res" where
  "any_allowed a [] = Inr False"
| "any_allowed a (p # ps) =
     res_bind (parse_campaign_path p) (\<lambda>c. if allows a c then Inr True else any_allowed a ps)"

definition required_prefix_satisfied :: "string list \<Rightarrow> string \<Rightarrow> bool res" where
  "required_prefix_satisfied changed required =
     res_bind (res_bind (parse_campaign_path required) allowed_path) (\<lambda>a. any_allowed a changed)"

fun path_covered_by_permitted :: "string \<Rightarrow> string list \<Rightarrow> bool res" where
  "path_covered_by_permitted p [] = Inr False"
| "path_covered_by_permitted p (q # qs) =
     res_bind (path_is_under_prefix p q) (\<lambda>b. if b then Inr True else path_covered_by_permitted p qs)"

fun assert_covered :: "string \<Rightarrow> string list \<Rightarrow> string list \<Rightarrow> unit res" where
  "assert_covered what permitted [] = Inr ()"
| "assert_covered what permitted (p # ps) =
     res_bind (parse_campaign_path p) (\<lambda>_.
     res_bind (path_covered_by_permitted p permitted) (\<lambda>b.
     if b then assert_covered what permitted ps
     else Inl (what @ quoted p @ '' violates campaign permitted_paths'')))"

definition assert_step_paths_permitted :: "string \<Rightarrow> string list \<Rightarrow> string list \<Rightarrow> string list \<Rightarrow> unit res" where
  "assert_step_paths_permitted k allowed required permitted =
     res_bind (assert_covered (''step '' @ k @ '' allowed_path '') permitted allowed) (\<lambda>_.
       assert_covered (''step '' @ k @ '' required_changed_path '') permitted required)"

definition validate_permitted_paths :: "campaign \<Rightarrow> unit res" where
  "validate_permitted_paths c =
     res_bind (map_res parse_campaign_path (cg_permitted c)) (\<lambda>_.
     res_bind (map_res (\<lambda>s. assert_step_paths_permitted (st_id s) (st_allowed s) (st_required s) (cg_permitted c))
       (cg_steps c)) (\<lambda>_. Inr ()))"

definition is_ephemeral_path :: "string \<Rightarrow> bool" where
  "is_ephemeral_path p \<longleftrightarrow> p = ''target'' \<or> starts_with p ''target/'' \<or> p = ''.rack-cargo'' \<or> starts_with p ''.rack-cargo/''"

definition source_paths :: "string list \<Rightarrow> string list" where
  "source_paths ps = filter (\<lambda>p. \<not> is_ephemeral_path p) ps"

section \<open>The digest of a campaign\<close>

definition fnv1a64 :: "string \<Rightarrow> 64 word" where
  "fnv1a64 bytes = foldl (\<lambda>h b. (h XOR of_nat (of_char b)) * 0x100000001b3) 0xcbf29ce484222325 bytes"

section \<open>Validation\<close>

text \<open>What validation asks of the repository registry, of git and of the command policy.\<close>

record campaign_world =
  cw_repository :: "string \<Rightarrow> bool res"
  cw_resolve :: "string \<Rightarrow> string \<Rightarrow> string res"
  cw_command :: "string list \<Rightarrow> unit res"
  cw_encode :: "campaign \<Rightarrow> string res"

definition campaign_digest :: "campaign_world \<Rightarrow> campaign \<Rightarrow> 64 word res" where
  "campaign_digest w c = res_bind (cw_encode w c) (\<lambda>j. Inr (fnv1a64 j))"

definition validate_step :: "campaign_world \<Rightarrow> campaign_step \<Rightarrow> unit res" where
  "validate_step w s =
     (if trim (st_task s) = [] then Inl (''step '' @ st_id s @ '' task cannot be empty'')
      else if st_allowed s = [] then Inl (''step '' @ st_id s @ '' allowed_paths cannot be empty'')
      else if st_commands s = [] then Inl (''step '' @ st_id s @ '' acceptance.commands cannot be empty'')
      else if st_timeout s = 0 \<or> 900 < st_timeout s
      then Inl (''step '' @ st_id s @ '' timeout_seconds must be between 1 and 900'')
      else if st_network s \<noteq> ''disabled'' then Inl (''step '' @ st_id s @ '' network must be disabled'')
      else if st_kind s = ImplementationStep \<and> st_required s = []
      then Inl (''step '' @ st_id s @ '' required_changed_paths cannot be empty for implementation steps'')
      else if st_kind s = VerificationStep \<and> st_required s \<noteq> []
      then Inl (''step '' @ st_id s @ '' required_changed_paths must be empty for verification steps'')
      else res_bind (map_res (\<lambda>argv. res_bind (acceptance_command argv) (cw_command w)) (st_commands s)) (\<lambda>_. Inr ()))"

definition expected_branch :: "string \<Rightarrow> string" where
  "expected_branch k = ''rack/campaign-'' @ k"

definition validate_document :: "campaign_world \<Rightarrow> campaign \<Rightarrow> unit res" where
  "validate_document w c =
     (let l = cg_limits c in
      if cg_version c \<noteq> ''rack-ai/campaign/v1'' then Inl ''unsupported campaign version''
      else if trim (cg_id c) = [] \<or> (\<exists>x \<in> set (cg_id c). \<not> (ascii_alphanumeric x \<or> x \<in> set ''_-''))
      then Inl ''campaign_id cannot be empty''
      else if cg_branch c \<noteq> expected_branch (cg_id c)
      then Inl (''branch must be exactly '' @ quoted (expected_branch (cg_id c)))
      else if \<not> cg_allow_commits c then Inl ''allow_local_commits must be true''
      else if cg_permitted c = [] then Inl ''permitted_paths cannot be empty''
      else
        res_bind (validate_permitted_paths c) (\<lambda>_.
        if cl_max_runtime l < 60 \<or> 172800 < cl_max_runtime l
        then Inl ''max_runtime_seconds must be between 60 and 172800''
        else if cl_max_steps l = 0 \<or> 16 < cl_max_steps l then Inl ''max_steps must be between 1 and 16''
        else if cl_max_attempts l = 0 \<or> 32 < cl_max_attempts l
        then Inl ''max_total_attempts must be between 1 and 32''
        else if cl_heartbeat l < 10 \<or> 60 < cl_heartbeat l then Inl ''heartbeat_seconds must be between 10 and 60''
        else if cl_network l \<noteq> ''disabled'' then Inl ''campaign network must be disabled''
        else if cg_steps c = [] \<or> cl_max_steps l < length (cg_steps c)
        then Inl ''campaign step count is outside allowed bounds''
        else
          res_bind (repository_id (cg_repository c)) (\<lambda>r.
          res_bind (cw_repository w r) (\<lambda>enabled.
          if \<not> enabled then Inl (''repository '' @ cg_repository c @ '' is disabled'')
          else
            res_bind (git_ref (cg_base_ref c)) (\<lambda>b.
            res_bind (cw_resolve w r b) (\<lambda>sha.
            if sha \<noteq> cg_base_sha c
            then Inl (''repository base sha mismatch: resolved '' @ sha @ '', expected '' @ cg_base_sha c)
            else res_bind (map_res (validate_step w) (cg_steps c)) (\<lambda>_. Inr ())))))))"

section \<open>The coordinator's review\<close>

record review_input =
  in_step :: campaign_step
  in_evidence :: git_evidence
  in_succeeded :: bool
  in_missing :: "string list"
  in_output :: "string option"
  in_protocol_error :: "string option"
  in_worker_error :: "string option"
  in_tool_calls :: nat
  in_host_shell :: bool

definition looks_like_markdown_tool_call :: "string \<Rightarrow> bool" where
  "looks_like_markdown_tool_call text =
     (let lower = lowercase text; q = [CHR 0x22] in
      contains_text ''<tool_call>'' lower \<or> contains_text ''</tool_call>'' lower \<or>
      contains_text [CHR 0x60, CHR 0x60, CHR 0x60] text \<and>
        (contains_text ''tool_call'' lower \<or>
         contains_text (q @ ''name'' @ q @ '': '' @ q @ ''write'' @ q) lower \<or>
         contains_text (q @ ''name'' @ q @ '':'' @ q @ ''write'' @ q) lower \<or>
         contains_text (q @ ''name'' @ q @ '': '' @ q @ ''bash'' @ q) lower \<or>
         contains_text ''invoke write'' lower \<or>
         contains_text ''file_path'' lower \<and> contains_text ''content'' lower))"

definition evidence_refs :: "string list" where
  "evidence_refs = [''git-evidence.json'', ''worker-transcript.json'', ''command-evidence.json'', ''review-packet.json'']"

definition retryable_review :: "failure \<Rightarrow> string \<Rightarrow> review" where
  "retryable_review f why = \<lparr>rv_disposition = RejectedRetryable, rv_classification = Some f, rv_rationale = why,
     rv_evidence = evidence_refs, rv_repair = None\<rparr>"

definition terminal_review :: "failure \<Rightarrow> string \<Rightarrow> review" where
  "terminal_review f why = \<lparr>rv_disposition = RejectedTerminal, rv_classification = Some f, rv_rationale = why,
     rv_evidence = evidence_refs, rv_repair = None\<rparr>"

definition accepted_review :: "string \<Rightarrow> review" where
  "accepted_review why = \<lparr>rv_disposition = Accepted, rv_classification = None, rv_rationale = why,
     rv_evidence = evidence_refs, rv_repair = None\<rparr>"

fun assert_required :: "string list \<Rightarrow> string list \<Rightarrow> unit res" where
  "assert_required changed [] = Inr ()"
| "assert_required changed (r # rs) =
     res_bind (required_prefix_satisfied changed r) (\<lambda>b.
     if b then assert_required changed rs
     else Inl (''required changed path not satisfied: '' @ r @ ''; a passing test suite is not sufficient''))"

definition required_artifacts_changed :: "campaign_step \<Rightarrow> string list \<Rightarrow> bool" where
  "required_artifacts_changed s changed \<longleftrightarrow> st_artifacts s = [] \<or>
     (\<exists>a \<in> set (st_artifacts s). required_prefix_satisfied changed a = Inr True)"

definition review_implementation :: "review_input \<Rightarrow> string list \<Rightarrow> review" where
  "review_implementation x changed =
     (if changed = []
      then retryable_review NoChange ''implementation produced no source diff; passing checks are not an accepted disposition''
      else case assert_required changed (st_required (in_step x)) of
        Inl e \<Rightarrow> retryable_review NoChange e
      | Inr _ \<Rightarrow>
          if in_missing x \<noteq> []
          then retryable_review ArtifactMissing (''required artifacts missing: '' @ join_with '', '' (in_missing x))
          else if \<not> in_succeeded x then retryable_review AcceptanceFailed ''acceptance command failed''
          else if \<not> required_artifacts_changed (in_step x) changed
          then retryable_review InadequateImplementation
            ''acceptance checks passed but the requested implementation was not evidenced in required artifacts''
          else accepted_review
            ''independent coordinator review accepted the implementation against requested paths, artifacts, and evidence'')"

definition review_verification :: "review_input \<Rightarrow> review" where
  "review_verification x =
     (if in_missing x \<noteq> []
      then retryable_review ArtifactMissing (''required artifacts missing: '' @ join_with '', '' (in_missing x))
      else if \<not> in_succeeded x then retryable_review AcceptanceFailed ''verification acceptance command failed''
      else accepted_review ''verification commands passed; verification steps do not create commits'')"

text \<open>The verdict on the error of the worker: a timeout of an implementation that left a diff is reviewed.\<close>

definition worker_error_review :: "campaign_step \<Rightarrow> string list \<Rightarrow> string \<Rightarrow> review option" where
  "worker_error_review s changed e =
     (let lower = lowercase e in
      if contains_text ''timeout'' lower \<and> st_kind s = ImplementationStep \<and> changed \<noteq> [] then None
      else if contains_text ''timeout'' lower then Some (retryable_review WorkerTimeout e)
      else if contains_text ''podman'' lower \<or> contains_text ''executor'' lower
      then Some (terminal_review ExecutorUnavailable e)
      else if contains_text ''model'' lower \<or> contains_text ''endpoint'' lower
      then Some (retryable_review ModelUnavailable e)
      else None)"

definition review_attempt :: "review_input \<Rightarrow> review" where
  "review_attempt x =
     (if in_host_shell x
      then terminal_review ExecutorUnavailable ''host-shell or JCode executor is forbidden for campaign work''
      else
        (let changed = source_paths (ge_changed (in_evidence x)) in
         case assert_authorized_paths changed (st_allowed (in_step x)) of
           Inl e \<Rightarrow> terminal_review PathPolicyFailed e
         | Inr _ \<Rightarrow>
             (case Option.bind (in_worker_error x) (worker_error_review (in_step x) changed) of
                Some r \<Rightarrow> r
              | None \<Rightarrow>
                  (case in_protocol_error x of
                     Some e \<Rightarrow> retryable_review ToolProtocolViolation (''tool protocol violation: '' @ e)
                   | None \<Rightarrow>
                       if in_tool_calls x = 0 \<and> is_some_and (in_output x) looks_like_markdown_tool_call
                       then retryable_review ToolProtocolViolation
                         ''worker emitted markdown or JSON text instead of a valid tool call''
                       else (case st_kind (in_step x) of
                               ImplementationStep \<Rightarrow> review_implementation x changed
                             | VerificationStep \<Rightarrow> review_verification x)))))"

section \<open>The instruction of a repair\<close>

text \<open>\<open>bounded_excerpt\<close>: at most twelve lines and 600 bytes; a line that does not fit is cut to that many characters.\<close>

fun take_chars :: "nat \<Rightarrow> string \<Rightarrow> string" where
  "take_chars n [] = []"
| "take_chars n (c # s) =
     (if continuation_byte c then c # take_chars n s
      else case n of 0 \<Rightarrow> [] | Suc m \<Rightarrow> c # take_chars m s)"

fun excerpt_lines :: "nat \<Rightarrow> nat \<Rightarrow> string list \<Rightarrow> string list \<times> bool" where
  "excerpt_lines n used [] = ([], False)"
| "excerpt_lines n used (l # ls) =
     (let separator = (if n = 0 then 0 else 1) in
      if 12 \<le> n then ([], True)
      else if 600 < used + separator + length l
      then (let remaining = 600 - (used + separator) in
            (if 0 < remaining then [take_chars remaining l] else [], True))
      else (let (rest, truncated) = excerpt_lines (Suc n) (used + separator + length l) ls in (l # rest, truncated)))"

definition acceptance_excerpt :: "string \<Rightarrow> string" where
  "acceptance_excerpt text =
     (let t = trim text in
      if t = [] then []
      else (let (ls, truncated) = excerpt_lines 0 0 (text_lines t); e = join_with newline ls in
            if truncated then (if e = [] then [] else e @ newline) @ ''[truncated]'' else e))"

definition integer_text :: "int \<Rightarrow> string" where
  "integer_text i = (if i < 0 then CHR ''-'' # natural_text (nat (- i)) else natural_text (nat i))"

definition acceptance_context :: "review \<Rightarrow> command_evidence list \<Rightarrow> string option" where
  "acceptance_context r commands =
     (if rv_classification r \<noteq> Some AcceptanceFailed then None
      else case List.find (\<lambda>c. \<not> succeeded c) commands of
        None \<Rightarrow> None
      | Some c \<Rightarrow>
          (let err = acceptance_excerpt (ce_stderr c); out = acceptance_excerpt (ce_stdout c) in
           Some (join_with newline
             ([''Failing command: '' @ join_with '' '' (ce_argv c), ''Exit code: '' @ integer_text (ce_exit c)] @
              (if err = [] then [] else [''stderr:'' @ newline @ err]) @
              (if out = [] then [] else [''stdout:'' @ newline @ out])))))"

definition repair_instruction :: "campaign_step \<Rightarrow> review \<Rightarrow> string \<Rightarrow> command_evidence list \<Rightarrow> string" where
  "repair_instruction s r summary commands =
     ''Repair the previous attempt for step '' @ st_id s @ ''.'' @ newline @
     ''Original task: '' @ st_task s @ newline @
     ''Rejection classification: '' @ (case rv_classification r of Some f \<Rightarrow> failure_name f | None \<Rightarrow> ''rejected'') @ newline @
     ''Rejection rationale: '' @ rv_rationale r @ newline @
     ''Required changed paths: '' @ join_with '', '' (st_required s) @ newline @
     ''Allowed paths: '' @ join_with '', '' (st_allowed s) @ newline @
     ''Diff summary: '' @ summary @
     (case acceptance_context r commands of
        None \<Rightarrow> [] | Some v \<Rightarrow> newline @ ''Acceptance failure evidence:'' @ newline @ v) @ newline @
     ''Do not add new tasks. Do not broaden allowed_paths, acceptance commands, duration, resource limits, or promotion authority.''"

end
