(* ===== verification/Campaign_Run.thy ===== *)
theory Campaign_Run
  imports Campaign
begin

text \<open>
  The runner of a campaign, \<open>campaign_runner.rs\<close>: its status on disk, the commands of the operator that arrive
  while it runs, and its small operations. Everything the runner asks of its surroundings (git, the executor,
  the model workers, the reviewer, the clock, the file system) is an outcome: a function of the number of the
  question, so that every behaviour of the surroundings is one value of \<open>outcomes\<close>. Before each answer the
  operator commands that arrived meanwhile change the status on disk, under the campaign's lock.
\<close>

section \<open>The operator's commands\<close>

definition pause_status :: "campaign_status \<Rightarrow> campaign_status" where
  "pause_status s = s\<lparr>cs_pause := True\<rparr>"

definition cancel_status :: "nat \<Rightarrow> string option \<Rightarrow> campaign_status \<Rightarrow> campaign_status" where
  "cancel_status t reason s =
     (let s = s\<lparr>cs_cancel := True, cs_pause := False\<rparr>;
          s = (case reason of None \<Rightarrow> s | Some _ \<Rightarrow> s\<lparr>cs_error := reason\<rparr>) in
      if cs_state s \<in> {CCompleted, CCancelled, CExpired} then s
      else s\<lparr>cs_state := CCancelled, cs_end := Some t, cs_blocked := Some ''operator_cancelled''\<rparr>)"

definition pending_step :: "campaign_step \<Rightarrow> step_record" where
  "pending_step s = \<lparr>sr_id = st_id s, sr_kind = st_kind s, sr_disposition = ''pending'', sr_review = None,
     sr_rationale = None, sr_attempts = [], sr_commit = None\<rparr>"

fun validate_revision :: "campaign_world \<Rightarrow> campaign \<Rightarrow> campaign_status \<Rightarrow> campaign_step list \<Rightarrow> unit res" where
  "validate_revision w c s [] = Inr ()"
| "validate_revision w c s (x # xs) =
     res_bind (validate_step w x) (\<lambda>_.
     res_bind (assert_step_paths_permitted (st_id x) (st_allowed x) (st_required x) (cg_permitted c)) (\<lambda>_.
     if st_id x \<in> sr_id ` set (cs_steps s) \<or> st_id x \<in> st_id ` set (cg_steps c)
     then Inl (''revision step id already exists: '' @ st_id x)
     else validate_revision w c s xs))"

definition revise_status ::
  "campaign_world \<Rightarrow> campaign \<Rightarrow> nat \<Rightarrow> revision_document \<Rightarrow> campaign_status \<Rightarrow> campaign_status res" where
  "revise_status w c t d s =
     (if cs_state s \<notin> {CPaused, CBlocked} then Inl ''revise is valid only while paused or blocked''
      else if trim (rd_instruction d) = [] then Inl ''revision instruction cannot be empty''
      else if rd_steps d = [] then Inl ''revision must append at least one step''
      else
        res_bind (validate_revision w c s (rd_steps d)) (\<lambda>_.
        if cl_max_steps (cg_limits c) < length (cs_steps s) + length (rd_steps d)
        then Inl ''revision would exceed max_steps''
        else Inr (s\<lparr>cs_steps := cs_steps s @ map pending_step (rd_steps d),
          cs_revisions := cs_revisions s @
            [\<lparr>rr_instruction = rd_instruction d, rr_added = map st_id (rd_steps d), rr_recorded = t\<rparr>]\<rparr>)))"

text \<open>\<open>update_background_state_heartbeat\<close>: the thread that beats while an action runs.\<close>

definition beat_status :: "nat \<Rightarrow> string option \<Rightarrow> string option \<Rightarrow> string \<Rightarrow> campaign_status \<Rightarrow> campaign_status res" where
  "beat_status t step worker action s =
     (if cs_state s \<noteq> CRunning then Inl ''campaign is no longer running''
      else Inr (s\<lparr>cs_heartbeat := t, cs_action := Some action,
        cs_step := opt_or step (cs_step s), cs_worker := opt_or worker (cs_worker s)\<rparr>))"

datatype operator =
    OpPause
  | OpCancel "string option"
  | OpRevise revision_document
  | OpBeat "string option" "string option" string

text \<open>A command on the status and the file of revisions; a command that fails changes nothing.\<close>

definition operate ::
  "campaign_world \<Rightarrow> campaign \<Rightarrow> nat \<Rightarrow> operator \<Rightarrow> campaign_status option \<times> revision_document list
     \<Rightarrow> campaign_status option \<times> revision_document list" where
  "operate w c t op disk =
     (case disk of
        (None, ds) \<Rightarrow> (None, ds)
      | (Some s, ds) \<Rightarrow>
          (case op of
             OpPause \<Rightarrow> (Some (pause_status s), ds)
           | OpCancel reason \<Rightarrow> (Some (cancel_status t reason s), ds)
           | OpRevise d \<Rightarrow> (case revise_status w c t d s of Inl e \<Rightarrow> (Some s, ds) | Inr s' \<Rightarrow> (Some s', ds @ [d]))
           | OpBeat step worker action \<Rightarrow>
               (case beat_status t step worker action s of Inl e \<Rightarrow> (Some s, ds) | Inr s' \<Rightarrow> (Some s', ds))))"

section \<open>The status on disk\<close>

text \<open>\<open>merge_runner_state_unlocked\<close>: a save keeps what the operator owns.\<close>

definition merge_revisions :: "revision_record list \<Rightarrow> revision_record list \<Rightarrow> revision_record list" where
  "merge_revisions disk mine = foldl (\<lambda>rs r. if r \<in> set rs then rs else rs @ [r]) mine disk"

definition merge_steps :: "step_record list \<Rightarrow> step_record list \<Rightarrow> step_record list" where
  "merge_steps disk mine = foldl (\<lambda>xs x. if sr_id x \<in> sr_id ` set xs then xs else xs @ [x]) mine disk"

definition merge_runner_state :: "bool \<Rightarrow> campaign_status option \<Rightarrow> campaign_status \<Rightarrow> campaign_status" where
  "merge_runner_state resume disk s =
     (case disk of
        None \<Rightarrow> s
      | Some d \<Rightarrow>
          (let m = s\<lparr>cs_cancel := (cs_cancel s \<or> cs_cancel d),
                     cs_pause := (if resume then False else cs_pause s \<or> cs_pause d),
                     cs_revisions := merge_revisions (cs_revisions d) (cs_revisions s),
                     cs_steps := merge_steps (cs_steps d) (cs_steps s)\<rparr> in
           if cs_cancel d
           then m\<lparr>cs_state := CCancelled, cs_end := cs_end d, cs_blocked := cs_blocked d, cs_error := cs_error d\<rparr>
           else m))"

section \<open>The surroundings\<close>

datatype save_outcome =
    Saved
  | NotSaved string
  | SavedAndFailed string

record model_review =
  mr_disposition :: disposition
  mr_classification :: "failure option"
  mr_rationale :: string

datatype decision_kind = Repair | Replan | BlockInsufficientAuthority | BlockTerminal | RetryTransient

record recovery_decision =
  de_kind :: decision_kind
  de_rationale :: string
  de_fallback :: bool
  de_instruction :: "string option"

record outcomes =
  oc_now :: "nat \<Rightarrow> nat"
  oc_operator :: "nat \<Rightarrow> operator list"
  oc_save :: "nat \<Rightarrow> save_outcome"
  oc_load :: "nat \<Rightarrow> unit res"
  oc_emit :: "nat \<Rightarrow> unit res"
  oc_lease :: "nat \<Rightarrow> unit res"
  oc_acquire :: "nat \<Rightarrow> string res"
  oc_release :: "nat \<Rightarrow> unit"
  oc_create :: "nat \<Rightarrow> unit res"
  oc_write :: "nat \<Rightarrow> unit res"
  oc_snapshot :: "nat \<Rightarrow> git_evidence res"
  oc_branch :: "nat \<Rightarrow> string res"
  oc_head :: "nat \<Rightarrow> string res"
  oc_exists :: "nat \<Rightarrow> bool"
  oc_reset :: "nat \<Rightarrow> unit res"
  oc_commit :: "nat \<Rightarrow> string res"
  oc_implement :: "nat \<Rightarrow> implement_result res"
  oc_command :: "nat \<Rightarrow> command_evidence res"
  oc_artifact :: "nat \<Rightarrow> unit res"
  oc_executor :: "nat \<Rightarrow> unit res"
  oc_worker :: "nat \<Rightarrow> unit res"
  oc_runtime :: "nat \<Rightarrow> string res"
  oc_review :: "(nat \<Rightarrow> model_review res) option"
  oc_diagnose :: "(nat \<Rightarrow> recovery_decision res) option"

text \<open>The configuration of a runner; \<open>rx_target\<close> reads the path argument of a tool call from its JSON text.\<close>

record runner_context =
  rx_world :: campaign_world
  rx_campaign :: campaign
  rx_outcomes :: outcomes
  rx_max_wait :: nat
  rx_max_attempts :: nat
  rx_workspace_root :: string
  rx_target :: "string \<Rightarrow> string option"

text \<open>The actions of the runner outside its own files, and the events of its log.\<close>

datatype entry =
    Event string "string option" "nat option" "string option" campaign_state
  | Implement string "string list" nat bool string
  | RunCommand "string list" nat
  | Review string nat
  | Diagnose string
  | Commit string "string list"
  | Reset "string list"

record runner =
  rn_tick :: nat
  rn_disk :: "campaign_status option"
  rn_revised :: "revision_document list"
  rn_cur :: campaign_status
  rn_log :: "entry list"

type_synonym 'a run = "runner \<Rightarrow> 'a res \<times> runner"

section \<open>Running\<close>

definition run_return :: "'a \<Rightarrow> 'a run" where
  "run_return x r = (Inr x, r)"

definition run_fail :: "string \<Rightarrow> 'a run" where
  "run_fail e r = (Inl e, r)"

definition run_bind :: "'a run \<Rightarrow> ('a \<Rightarrow> 'b run) \<Rightarrow> 'b run" where
  "run_bind m f r = (case m r of (Inl e, r) \<Rightarrow> (Inl e, r) | (Inr x, r) \<Rightarrow> f x r)"

definition run_lift :: "'a res \<Rightarrow> 'a run" where
  "run_lift x r = (x, r)"

text \<open>The result as a value: the caller looks at an error instead of passing it on.\<close>

definition run_try :: "'a run \<Rightarrow> 'a res run" where
  "run_try m r = (case m r of (x, r) \<Rightarrow> (Inr x, r))"

text \<open>A loop; the bound only makes the definition total and is never reached.\<close>

primrec run_loop :: "nat \<Rightarrow> ('s \<Rightarrow> ('a + 's) run) \<Rightarrow> 's \<Rightarrow> 'a run" where
  "run_loop 0 body s = run_fail ''unreachable''"
| "run_loop (Suc n) body s =
     run_bind (body s) (\<lambda>x. case x of Inl a \<Rightarrow> run_return a | Inr s' \<Rightarrow> run_loop n body s')"

text \<open>A question to the surroundings.\<close>

definition arrive :: "runner_context \<Rightarrow> runner \<Rightarrow> runner" where
  "arrive x r =
     (let n = rn_tick r; u = rx_outcomes x;
          (d, ds) = fold (operate (rx_world x) (rx_campaign x) (oc_now u n)) (oc_operator u n) (rn_disk r, rn_revised r) in
      r\<lparr>rn_tick := Suc n, rn_disk := d, rn_revised := ds\<rparr>)"

definition ask :: "runner_context \<Rightarrow> (outcomes \<Rightarrow> nat \<Rightarrow> 'a) \<Rightarrow> 'a run" where
  "ask x f r = (Inr (f (rx_outcomes x) (rn_tick r)), arrive x r)"

definition ask_res :: "runner_context \<Rightarrow> (outcomes \<Rightarrow> nat \<Rightarrow> 'a res) \<Rightarrow> 'a run" where
  "ask_res x f r = (f (rx_outcomes x) (rn_tick r), arrive x r)"

definition note_entry :: "entry \<Rightarrow> unit run" where
  "note_entry y r = (Inr (), r\<lparr>rn_log := rn_log r @ [y]\<rparr>)"

definition cur :: "campaign_status run" where
  "cur r = (Inr (rn_cur r), r)"

definition set_cur :: "campaign_status \<Rightarrow> unit run" where
  "set_cur s r = (Inr (), r\<lparr>rn_cur := s\<rparr>)"

definition upd_cur :: "(campaign_status \<Rightarrow> campaign_status) \<Rightarrow> unit run" where
  "upd_cur f r = (Inr (), r\<lparr>rn_cur := f (rn_cur r)\<rparr>)"

definition load_state :: "runner_context \<Rightarrow> campaign_status option run" where
  "load_state x r = (case ask_res x oc_load r of (Inl e, r) \<Rightarrow> (Inl e, r) | (Inr _, r) \<Rightarrow> (Inr (rn_disk r), r))"

definition save_status :: "runner_context \<Rightarrow> bool \<Rightarrow> campaign_status \<Rightarrow> unit run" where
  "save_status x resume s r =
     (let n = rn_tick r; r = arrive x r; r' = r\<lparr>rn_disk := Some (merge_runner_state resume (rn_disk r) s)\<rparr> in
      case oc_save (rx_outcomes x) n of
        Saved \<Rightarrow> (Inr (), r')
      | NotSaved e \<Rightarrow> (Inl e, r)
      | SavedAndFailed e \<Rightarrow> (Inl e, r'))"

definition save_cur :: "runner_context \<Rightarrow> unit run" where
  "save_cur x = run_bind cur (save_status x False)"

definition emit_for ::
  "runner_context \<Rightarrow> string \<Rightarrow> string option \<Rightarrow> nat option \<Rightarrow> string option \<Rightarrow> campaign_status \<Rightarrow> unit run" where
  "emit_for x event step attempt worker s =
     run_bind (ask_res x oc_emit) (\<lambda>_. note_entry (Event event step attempt worker (cs_state s)))"

definition emit :: "runner_context \<Rightarrow> string \<Rightarrow> string option \<Rightarrow> nat option \<Rightarrow> string option \<Rightarrow> unit run" where
  "emit x event step attempt worker = run_bind cur (emit_for x event step attempt worker)"

section \<open>Budget and heartbeat\<close>

definition budget_with :: "nat \<Rightarrow> campaign_status \<Rightarrow> campaign_status" where
  "budget_with t s = s\<lparr>cs_duration := t - cs_start s\<rparr>"

definition refresh_budget :: "runner_context \<Rightarrow> unit run" where
  "refresh_budget x =
     run_bind (ask x oc_now) (\<lambda>t.
       upd_cur (\<lambda>s. (budget_with t s)\<lparr>cs_remaining := cl_max_runtime (cg_limits (rx_campaign x)) - (t - cs_start s)\<rparr>))"

definition heartbeat_now :: "runner_context \<Rightarrow> unit run" where
  "heartbeat_now x =
     run_bind (ask x oc_now) (\<lambda>t.
     run_bind (upd_cur (\<lambda>s. budget_with t (s\<lparr>cs_heartbeat := t\<rparr>))) (\<lambda>_.
     run_bind (ask_res x oc_lease) (\<lambda>_.
     run_bind (save_cur x) (\<lambda>_.
     run_bind cur (\<lambda>s. emit x ''heartbeat'' (cs_step s) None (cs_worker s))))))"

section \<open>Stopping\<close>

definition blocked_state :: "failure \<Rightarrow> campaign_state" where
  "blocked_state f = (case f of CampaignExpired \<Rightarrow> CExpired | OperatorCancelled \<Rightarrow> CCancelled | _ \<Rightarrow> CBlocked)"

text \<open>\<open>block\<close> works on a copy; \<open>block_in_place\<close> takes it over when it was saved.\<close>

definition block :: "runner_context \<Rightarrow> campaign_status \<Rightarrow> failure \<Rightarrow> string \<Rightarrow> campaign_status run" where
  "block x s f reason =
     run_bind (ask x oc_now) (\<lambda>t.
     let s = s\<lparr>cs_state := blocked_state f, cs_blocked := Some (failure_name f), cs_error := Some reason,
               cs_end := Some t, cs_action := Some ''blocked''\<rparr> in
     run_bind (save_status x False s) (\<lambda>_.
     run_bind (emit_for x ''campaign_blocked'' None None None s) (\<lambda>_. run_return s)))"

definition block_in_place :: "runner_context \<Rightarrow> failure \<Rightarrow> string \<Rightarrow> unit run" where
  "block_in_place x f reason = run_bind cur (\<lambda>s. run_bind (block x s f reason) set_cur)"

definition finish :: "runner_context \<Rightarrow> campaign_status \<Rightarrow> failure \<Rightarrow> campaign_status run" where
  "finish x s f =
     run_bind (ask x oc_now) (\<lambda>t.
     let s = s\<lparr>cs_state := (case f of CampaignExpired \<Rightarrow> CExpired | OperatorCancelled \<Rightarrow> CCancelled | _ \<Rightarrow> cs_state s),
               cs_blocked := Some (failure_name f), cs_end := Some t\<rparr> in
     run_bind (save_status x False s) (\<lambda>_.
     run_bind (emit_for x (case f of CampaignExpired \<Rightarrow> ''campaign_expired'' | OperatorCancelled \<Rightarrow> ''campaign_cancelled''
       | _ \<Rightarrow> ''campaign_blocked'') None None None s) (\<lambda>_. run_return s)))"

definition finish_in_place :: "runner_context \<Rightarrow> failure \<Rightarrow> unit run" where
  "finish_in_place x f = run_bind cur (\<lambda>s. run_bind (finish x s f) set_cur)"

text \<open>The flags of the operator are taken from disk when it can be read.\<close>

definition take_flags :: "runner_context \<Rightarrow> unit run" where
  "take_flags x =
     run_bind (run_try (load_state x)) (\<lambda>d.
       case d of
         Inr (Some d) \<Rightarrow> upd_cur (\<lambda>s. s\<lparr>cs_pause := cs_pause d, cs_cancel := cs_cancel d\<rparr>)
       | _ \<Rightarrow> run_return ())"

text \<open>Whether the runner stops here.\<close>

definition checkpoint :: "runner_context \<Rightarrow> campaign_step \<Rightarrow> bool run" where
  "checkpoint x step =
     run_bind (take_flags x) (\<lambda>_.
     run_bind (refresh_budget x) (\<lambda>_.
     run_bind (heartbeat_now x) (\<lambda>_.
     run_bind cur (\<lambda>s.
       if cs_cancel s then run_bind (finish_in_place x OperatorCancelled) (\<lambda>_. run_return True)
       else if cs_remaining s = 0
       then run_bind (upd_cur (\<lambda>s. s\<lparr>cs_state := CExpired\<rparr>)) (\<lambda>_.
            run_bind (finish_in_place x CampaignExpired) (\<lambda>_. run_return True))
       else if cs_pause s
       then run_bind (upd_cur (\<lambda>s. s\<lparr>cs_state := CPaused, cs_action := Some ''paused'', cs_step := Some (st_id step)\<rparr>)) (\<lambda>_.
            run_bind (save_cur x) (\<lambda>_.
            run_bind (emit x ''campaign_paused'' (Some (st_id step)) None None) (\<lambda>_. run_return True)))
       else run_return False))))"

definition recovery_checkpoint :: "runner_context \<Rightarrow> bool run" where
  "recovery_checkpoint x =
     run_bind (take_flags x) (\<lambda>_.
     run_bind (refresh_budget x) (\<lambda>_.
     run_bind (heartbeat_now x) (\<lambda>_.
     run_bind cur (\<lambda>s.
       if cs_cancel s then run_bind (finish_in_place x OperatorCancelled) (\<lambda>_. run_return True)
       else if cs_remaining s = 0 then run_bind (finish_in_place x CampaignExpired) (\<lambda>_. run_return True)
       else if cs_pause s
       then run_bind (upd_cur (\<lambda>s. s\<lparr>cs_state := CPaused, cs_action := Some ''paused''\<rparr>)) (\<lambda>_.
            run_bind (save_cur x) (\<lambda>_.
            run_bind (emit x ''campaign_paused'' None None None) (\<lambda>_. run_return True)))
       else run_return False))))"

end
