(* ===== verification/Campaign_Steps.thy ===== *)
theory Campaign_Steps
  imports Campaign_Run
begin

text \<open>
  The steps of a campaign, \<open>campaign_runner.rs\<close>: the acceptance commands, the record of an attempt, the model
  review with its retries, the planning of a retry, the verification step and the turns of an
  implementation step. The texts sent to the models are left out, except the instruction an attempt
  records; files of evidence are written or not as one outcome.
\<close>

section \<open>Classification of errors\<close>

definition is_executor_error :: "string \<Rightarrow> bool" where
  "is_executor_error e \<longleftrightarrow> contains_text ''podman'' (lowercase e) \<or> contains_text ''executor'' (lowercase e)"

definition implementer_error_result :: "string \<Rightarrow> implement_result" where
  "implementer_error_result e =
     (let lower = lowercase e in
      if contains_text ''tool'' lower \<or> contains_text ''finish_reason'' lower \<or> contains_text ''markdown'' lower
      then (plain_result [])\<lparr>ir_protocol_error := Some e\<rparr>
      else (plain_result [])\<lparr>ir_worker_error := Some e\<rparr>)"

definition is_transient_worker_transport_error :: "string \<Rightarrow> bool" where
  "is_transient_worker_transport_error e \<longleftrightarrow>
     (\<exists>m \<in> set [''connection refused'', ''peer disconnected'', ''connection reset'', ''reset by peer'', ''peer reset'',
        ''temporary http transport failure'']. contains_text m (lowercase e))"

definition classify_reviewer_error :: "string \<Rightarrow> failure" where
  "classify_reviewer_error e =
     (if \<exists>m \<in> set [''timeout'', ''timed out'', ''peer disconnected'', ''connection refused'', ''connection reset'',
        ''transport'']. contains_text m (lowercase e)
      then ReviewerTimeout else ReviewerFailure)"

definition preflight_failure :: "string \<Rightarrow> failure" where
  "preflight_failure e =
     (if contains_text ''podman'' e \<or> contains_text ''executor'' e then ExecutorUnavailable
      else if contains_text ''worker'' e \<or> contains_text ''endpoint'' e then ModelUnavailable
      else ContinuityFailed)"

definition looks_protocol :: "implement_result \<Rightarrow> bool" where
  "looks_protocol i \<longleftrightarrow> ir_protocol_error i \<noteq> None \<or> looks_like_markdown_tool_call (ir_output i)"

section \<open>The status of the steps\<close>

fun find_step_index :: "step_record list \<Rightarrow> string \<Rightarrow> nat res" where
  "find_step_index [] k = Inl (''missing step status: '' @ k)"
| "find_step_index (x # xs) k = (if sr_id x = k then Inr 0 else res_bind (find_step_index xs k) (\<lambda>n. Inr (Suc n)))"

definition total_attempts :: "campaign_status \<Rightarrow> nat" where
  "total_attempts s = sum_list (map (\<lambda>x. length (sr_attempts x)) (cs_steps s))"

definition upd_step :: "nat \<Rightarrow> (step_record \<Rightarrow> step_record) \<Rightarrow> campaign_status \<Rightarrow> campaign_status" where
  "upd_step n f s = s\<lparr>cs_steps := (cs_steps s)[n := f (cs_steps s ! n)]\<rparr>"

text \<open>What an attempt is, and what its record keeps.\<close>

record attempt_info =
  at_number :: nat
  at_kind :: attempt_kind
  at_worker :: string
  at_start :: nat
  at_launch :: "string option"
  at_repair_of :: "nat option"
  at_fallback_of :: "nat option"

definition attempt_record_of :: "attempt_info \<Rightarrow> nat \<Rightarrow> review \<Rightarrow> string option \<Rightarrow> attempt_record" where
  "attempt_record_of a t v commit = \<lparr>ar_attempt = at_number a, ar_worker = at_worker a, ar_kind = at_kind a,
     ar_start = at_start a, ar_end = t, ar_disposition = rv_disposition v, ar_classification = rv_classification v,
     ar_rationale = rv_rationale v, ar_commit = commit, ar_repair = at_launch a, ar_next_repair = rv_repair v,
     ar_repair_of = at_repair_of a, ar_fallback_of = at_fallback_of a\<rparr>"

definition record_attempt :: "attempt_record \<Rightarrow> step_record \<Rightarrow> step_record" where
  "record_attempt a x =
     x\<lparr>sr_review := Some (ar_disposition a), sr_rationale := Some (ar_rationale a),
       sr_attempts := sr_attempts x @ [a],
       sr_disposition := (case ar_disposition a of
          Accepted \<Rightarrow> sr_disposition x | RejectedTerminal \<Rightarrow> ''blocked'' | RejectedRetryable \<Rightarrow> ''rejected'')\<rparr>"

definition persist_attempt ::
  "runner_context \<Rightarrow> campaign_step \<Rightarrow> attempt_info \<Rightarrow> review \<Rightarrow> string option \<Rightarrow> unit run" where
  "persist_attempt x step a v commit =
     run_bind (ask_res x oc_write) (\<lambda>_.
     run_bind (ask x oc_now) (\<lambda>t.
     run_bind cur (\<lambda>s.
     run_bind (run_lift (find_step_index (cs_steps s) (st_id step))) (\<lambda>n.
     run_bind (upd_cur (upd_step n (record_attempt (attempt_record_of a t v commit)))) (\<lambda>_.
     run_bind (save_cur x) (\<lambda>_.
       emit x (if rv_disposition v = Accepted then ''coordinator_review_accepted'' else ''coordinator_review_rejected'')
         (Some (st_id step)) (Some (at_number a)) (Some (at_worker a))))))))"

definition mark_step_accepted :: "runner_context \<Rightarrow> string \<Rightarrow> string option \<Rightarrow> unit run" where
  "mark_step_accepted x k commit =
     run_bind cur (\<lambda>s.
     run_bind (run_lift (find_step_index (cs_steps s) k)) (\<lambda>n.
     run_bind (upd_cur (upd_step n (\<lambda>y. y\<lparr>sr_disposition := ''accepted'', sr_commit := commit\<rparr>))) (\<lambda>_.
     run_bind (ask x oc_now) (\<lambda>t.
     run_bind (upd_cur (\<lambda>s. s\<lparr>cs_progress := Some t\<rparr>)) (\<lambda>_. save_cur x)))))"

definition action_timeout :: "campaign_status \<Rightarrow> campaign_step \<Rightarrow> nat" where
  "action_timeout s step = min (min (st_timeout step) (max (cs_remaining s) 1)) (2 ^ 32 - 1)"

definition reviewer_timeout :: "campaign_status \<Rightarrow> campaign_step \<Rightarrow> nat" where
  "reviewer_timeout s step =
     min (max (action_timeout s step) 180) (min (max (cs_remaining s) 1) (2 ^ 32 - 1))"

definition set_action :: "string \<Rightarrow> unit run" where
  "set_action a = upd_cur (\<lambda>s. s\<lparr>cs_action := Some a\<rparr>)"

section \<open>Git\<close>

definition snapshot_checked :: "runner_context \<Rightarrow> git_evidence run" where
  "snapshot_checked x =
     run_bind (ask_res x oc_snapshot) (\<lambda>g.
     run_bind cur (\<lambda>s.
       if ge_head g \<noteq> cs_head s
       then run_fail (''worktree HEAD '' @ ge_head g @ '' does not match recorded HEAD '' @ cs_head s)
       else run_return g))"

definition reset_worktree :: "runner_context \<Rightarrow> string \<Rightarrow> string list \<Rightarrow> unit run" where
  "reset_worktree x what paths =
     run_bind (note_entry (Reset paths)) (\<lambda>_.
     run_bind (run_try (ask_res x oc_reset)) (\<lambda>y. case y of Inl e \<Rightarrow> run_fail (what @ e) | Inr _ \<Rightarrow> run_return ()))"

definition reset_rejected_attempt :: "runner_context \<Rightarrow> campaign_step \<Rightarrow> nat \<Rightarrow> git_evidence \<Rightarrow> unit run" where
  "reset_rejected_attempt x step n g =
     (if ge_changed g = [] then run_return ()
      else
        run_bind cur (\<lambda>s.
        run_bind (run_lift (git_sha (cs_head s))) (\<lambda>_.
        run_bind (reset_worktree x ''failed to reset rejected attempt worktree: '' (ge_changed g)) (\<lambda>_.
          emit x ''rejected_attempt_reset'' (Some (st_id step)) (Some n) (cs_worker s)))))"

section \<open>Acceptance\<close>

fun run_commands ::
  "runner_context \<Rightarrow> nat \<Rightarrow> string list list \<Rightarrow> command_evidence list \<Rightarrow> bool \<Rightarrow> (command_evidence list \<times> bool) run" where
  "run_commands x t [] done_commands ok = run_return (done_commands, ok)"
| "run_commands x t (argv # rest) done_commands ok =
     run_bind (run_lift (acceptance_command argv)) (\<lambda>argv.
     run_bind (note_entry (RunCommand argv t)) (\<lambda>_.
     run_bind (run_try (ask_res x oc_command)) (\<lambda>y.
       case y of
         Inr c \<Rightarrow> run_commands x t rest (done_commands @ [c]) (ok \<and> succeeded c)
       | Inl e \<Rightarrow>
           if is_executor_error e then run_fail e
           else run_commands x t rest (done_commands @ [\<lparr>ce_argv = argv, ce_exit = 1, ce_stdout = [], ce_stderr = e,
                  ce_timed_out = False\<rparr>]) False)))"

fun missing_artifacts :: "runner_context \<Rightarrow> string list \<Rightarrow> string list run" where
  "missing_artifacts x [] = run_return []"
| "missing_artifacts x (a # as) =
     run_bind (run_lift (workspace_path a)) (\<lambda>_.
     run_bind (run_try (ask_res x oc_artifact)) (\<lambda>y.
       case y of
         Inl e \<Rightarrow> if is_executor_error e then run_fail e else run_bind (missing_artifacts x as) (\<lambda>ms. run_return (a # ms))
       | Inr _ \<Rightarrow> missing_artifacts x as))"

type_synonym acceptance = "command_evidence list \<times> string list \<times> bool"

definition run_acceptance :: "runner_context \<Rightarrow> campaign_step \<Rightarrow> acceptance run" where
  "run_acceptance x step =
     run_bind cur (\<lambda>s.
     run_bind (run_commands x (action_timeout s step) (st_commands step) [] True) (\<lambda>(cs, ok).
     run_bind (missing_artifacts x (st_artifacts step)) (\<lambda>ms. run_return (cs, ms, ok \<and> ms = []))))"

section \<open>Verification\<close>

datatype step_outcome = StepAccepted | StepStopped

definition block_and_stop :: "runner_context \<Rightarrow> failure \<Rightarrow> string \<Rightarrow> step_outcome run" where
  "block_and_stop x f why = run_bind (block_in_place x f why) (\<lambda>_. run_return StepStopped)"

definition execute_verification :: "runner_context \<Rightarrow> campaign_step \<Rightarrow> step_outcome run" where
  "execute_verification x step =
     run_bind (checkpoint x step) (\<lambda>stop.
     if stop then run_return StepStopped
     else
       run_bind cur (\<lambda>s.
       let n = total_attempts s + 1; primary = wp_primary (cg_policy (rx_campaign x)) in
       if cl_max_attempts (cg_limits (rx_campaign x)) < n
       then block_and_stop x InadequateImplementation ''campaign attempt budget exhausted''
       else
         run_bind (ask x oc_now) (\<lambda>start.
         run_bind (upd_cur (\<lambda>s. s\<lparr>cs_attempt := n, cs_worker := Some primary, cs_action := Some ''acceptance_command''\<rparr>)) (\<lambda>_.
         run_bind (heartbeat_now x) (\<lambda>_.
         run_bind (run_try (run_acceptance x step)) (\<lambda>y.
           case y of
             Inl e \<Rightarrow> if is_executor_error e then block_and_stop x ExecutorUnavailable e else run_fail e
           | Inr (commands, missing, ok) \<Rightarrow>
               run_bind (snapshot_checked x) (\<lambda>g.
               let v = review_attempt \<lparr>in_step = step, in_evidence = g, in_succeeded = ok, in_missing = missing,
                     in_output = None, in_protocol_error = None, in_worker_error = None, in_tool_calls = 0,
                     in_host_shell = False\<rparr> in
               run_bind (persist_attempt x step \<lparr>at_number = n, at_kind = VerificationAttempt, at_worker = primary,
                   at_start = start, at_launch = None, at_repair_of = None, at_fallback_of = None\<rparr> v None) (\<lambda>_.
               if rv_disposition v = Accepted
               then run_bind (mark_step_accepted x (st_id step) None) (\<lambda>_. run_return StepAccepted)
               else block_and_stop x (unwrap_or (rv_classification v) AcceptanceFailed) (rv_rationale v)))))))))"

section \<open>The model review\<close>

text \<open>A turn of the review: the verdict, or the number of attempts so far.\<close>

definition review_wait :: "runner_context \<Rightarrow> campaign_step \<Rightarrow> string \<Rightarrow> nat \<Rightarrow> nat \<Rightarrow> string \<Rightarrow> bool run" where
  "review_wait x step worker n attempts e =
     run_bind (upd_cur (\<lambda>s. s\<lparr>cs_action := Some ''coordinator_review_retry_wait'',
       cs_error := Some (''model reviewer transient failure after attempt '' @ natural_text attempts @ ''/3: '' @ e)\<rparr>)) (\<lambda>_.
     run_bind (save_cur x) (\<lambda>_.
     run_bind (emit x ''coordinator_review_retrying'' (Some (st_id step)) (Some n) (Some worker)) (\<lambda>_.
     run_bind (recovery_checkpoint x) (\<lambda>stop.
     if stop then run_return True
     else
       run_bind (recovery_checkpoint x) (\<lambda>stop.
       if stop then run_return True
       else
         run_bind (upd_cur (\<lambda>s. s\<lparr>cs_action := Some ''coordinator_review'', cs_error := None\<rparr>)) (\<lambda>_.
         run_bind (save_cur x) (\<lambda>_. run_return False)))))))"

definition review_turn ::
  "runner_context \<Rightarrow> campaign_step \<Rightarrow> string \<Rightarrow> nat \<Rightarrow> nat \<Rightarrow> (nat \<Rightarrow> model_review res) \<Rightarrow> nat
     \<Rightarrow> ((failure \<times> string + model_review) + nat) run" where
  "review_turn x step worker n t reviewer attempts =
     run_bind (note_entry (Review (st_id step) t)) (\<lambda>_.
     run_bind (ask x (\<lambda>_. reviewer)) (\<lambda>y.
       case y of
         Inr v \<Rightarrow> run_return (Inl (Inr v))
       | Inl e \<Rightarrow>
           (let f = classify_reviewer_error e; attempts = Suc attempts in
            if f \<noteq> ReviewerTimeout \<or> 3 \<le> attempts
            then run_return (Inl (Inl (f, ''model reviewer failed closed: '' @ e)))
            else
              run_bind (run_try (review_wait x step worker n attempts e)) (\<lambda>w.
                run_return (case w of
                  Inl err \<Rightarrow> Inl (Inl (ReviewerFailure, err))
                | Inr True \<Rightarrow> Inl (Inl (ReviewerFailure, ''review interrupted by operator checkpoint''))
                | Inr False \<Rightarrow> Inr attempts)))))"

definition review_with_retries ::
  "runner_context \<Rightarrow> campaign_step \<Rightarrow> string \<Rightarrow> nat \<Rightarrow> (nat \<Rightarrow> model_review res) \<Rightarrow> (failure \<times> string + model_review) run" where
  "review_with_retries x step worker n reviewer =
     run_bind cur (\<lambda>s. run_loop 4 (review_turn x step worker n (max (reviewer_timeout s step) 1) reviewer) 0)"

text \<open>The coordinator's verdict, and the model's when there is a reviewer.\<close>

definition model_verdict :: "failure \<times> string + model_review \<Rightarrow> review \<Rightarrow> review" where
  "model_verdict y v =
     (let v = (case y of
         Inr m \<Rightarrow> v\<lparr>rv_disposition := mr_disposition m, rv_classification := mr_classification m, rv_rationale := mr_rationale m\<rparr>
       | Inl (f, why) \<Rightarrow> v\<lparr>rv_disposition := RejectedTerminal, rv_classification := Some f, rv_rationale := why\<rparr>) in
      v\<lparr>rv_evidence := rv_evidence v @ [''model-review.json'']\<rparr>)"

definition reviewed :: "runner_context \<Rightarrow> campaign_step \<Rightarrow> string \<Rightarrow> nat \<Rightarrow> review \<Rightarrow> review run" where
  "reviewed x step worker n v =
     (case (rv_disposition v, oc_review (rx_outcomes x)) of
        (Accepted, Some reviewer) \<Rightarrow>
          run_bind (review_with_retries x step worker n reviewer) (\<lambda>y.
          run_bind (ask_res x oc_write) (\<lambda>_. run_return (model_verdict y v)))
      | _ \<Rightarrow> run_return v)"

section \<open>Planning a retry\<close>

text \<open>\<open>bounded_chars\<close>; its mark begins a line.\<close>

definition bounded_chars :: "string \<Rightarrow> nat \<Rightarrow> string" where
  "bounded_chars v n =
     (let t = trim v in take_chars n t @ (if n < char_count t then newline @ ''[truncated]'' else []))"

definition first_non_empty_line :: "string \<Rightarrow> string" where
  "first_non_empty_line v =
     (case List.find (\<lambda>l. l \<noteq> []) (map trim (text_lines v)) of Some l \<Rightarrow> l | None \<Rightarrow> ''no-detail'')"

definition failure_fingerprint ::
  "runner_context \<Rightarrow> failure \<Rightarrow> git_evidence \<Rightarrow> command_evidence list \<Rightarrow> implement_result \<Rightarrow> string" where
  "failure_fingerprint x f g commands i =
     failure_name f @ ''|'' @ join_with '','' (source_paths (ge_changed g)) @ ''|'' @
     (case List.find (\<lambda>c. \<not> succeeded c) commands of
        None \<Rightarrow> ''no-command-failure''
      | Some c \<Rightarrow> join_with '' '' (ce_argv c) @ '':'' @ integer_text (ce_exit c) @ '':'' @
          first_non_empty_line (bounded_chars (ce_stderr c) 600)) @ ''|'' @
     join_with '','' (List.map_filter (\<lambda>c. map_option (\<lambda>p. tc_name c @ '':'' @ p) (rx_target x (tc_arguments c)))
       (ir_tool_calls i))"

definition should_diagnose :: "failure \<Rightarrow> nat \<Rightarrow> bool" where
  "should_diagnose f repeated \<longleftrightarrow> f \<in> {AcceptanceFailed, ArtifactMissing, InadequateImplementation} \<or>
     f \<in> {NoChange, ToolProtocolViolation} \<and> 0 < repeated"

definition stagnation_replan :: "campaign_step \<Rightarrow> review \<Rightarrow> command_evidence list \<Rightarrow> git_evidence \<Rightarrow> recovery_decision" where
  "stagnation_replan step v commands g =
     \<lparr>de_kind = Replan,
      de_rationale = ''repeated equivalent failure requires a strategy change instead of another same-strategy repair'',
      de_fallback = True,
      de_instruction = Some (''Replan the implementation for step '' @ st_id step @
        ''. The previous strategy repeated the same failure. Preserve out-of-scope callers and modify only allowed_paths.'' @
        newline @ repair_instruction step v (ge_stat g) commands)\<rparr>"

definition default_recovery_instruction ::
  "campaign_step \<Rightarrow> review \<Rightarrow> git_evidence \<Rightarrow> command_evidence list \<Rightarrow> recovery_decision \<Rightarrow> string" where
  "default_recovery_instruction step v g commands d =
     (let base = repair_instruction step v (ge_stat g) commands in
      case de_kind d of
        Replan \<Rightarrow> ''Replan the implementation for step '' @ st_id step @
          ''. Preserve existing callers and behavior outside allowed_paths, and revise the implementation strategy only within allowed_paths.'' @
          newline @ ''Diagnosis: '' @ de_rationale d @ newline @ base
      | _ \<Rightarrow> base)"

record retry_plan =
  rp_review :: review
  rp_prefer_fallback :: bool
  rp_traced :: bool
  rp_fingerprint :: string
  rp_repeated :: nat

text \<open>What a diagnosis makes of the review.\<close>

definition fail_closed :: "failure \<Rightarrow> string \<Rightarrow> review \<Rightarrow> review" where
  "fail_closed f why v =
     v\<lparr>rv_disposition := RejectedTerminal, rv_classification := Some f, rv_rationale := why, rv_repair := None\<rparr>"

definition decided_review ::
  "campaign_step \<Rightarrow> git_evidence \<Rightarrow> command_evidence list \<Rightarrow> nat \<Rightarrow> recovery_decision \<Rightarrow> review \<Rightarrow> review" where
  "decided_review step g commands fallback_left d v =
     (if de_fallback d \<and> fallback_left = 0
      then fail_closed RecoveryFailure ''recovery requested fallback worker but fallback budget is exhausted'' v
      else case de_kind d of
        BlockInsufficientAuthority \<Rightarrow> fail_closed InsufficientAuthority (de_rationale d) v
      | BlockTerminal \<Rightarrow> fail_closed RecoveryFailure (de_rationale d) v
      | _ \<Rightarrow> v\<lparr>rv_repair := Some (unwrap_or (de_instruction d) (default_recovery_instruction step v g commands d))\<rparr>)"

definition plan_retry_from_failure ::
  "runner_context \<Rightarrow> campaign_step \<Rightarrow> nat \<Rightarrow> string \<Rightarrow> review \<Rightarrow> git_evidence \<Rightarrow> command_evidence list \<Rightarrow> implement_result
     \<Rightarrow> string option \<Rightarrow> nat \<Rightarrow> nat \<Rightarrow> retry_plan run" where
  "plan_retry_from_failure x step n worker v g commands i last_print last_repeated fallback_left =
     (let f = unwrap_or (rv_classification v) InadequateImplementation;
          p = failure_fingerprint x f g commands i;
          repeated = (if last_print = Some p then last_repeated + 1 else 0);
          plan = (\<lambda>v prefer traced. \<lparr>rp_review = v, rp_prefer_fallback = prefer, rp_traced = traced,
             rp_fingerprint = p, rp_repeated = repeated\<rparr>);
          default = plan (v\<lparr>rv_repair := Some (repair_instruction step v (ge_stat g) commands)\<rparr>) False False in
      if \<not> should_diagnose f repeated then run_return default
      else case oc_diagnose (rx_outcomes x) of
        None \<Rightarrow> run_return default
      | Some reasoner \<Rightarrow>
          run_bind (set_action ''recovery_diagnosis'') (\<lambda>_.
          run_bind (heartbeat_now x) (\<lambda>_.
          run_bind (emit x ''recovery_diagnosis_started'' (Some (st_id step)) (Some n) (Some worker)) (\<lambda>_.
          run_bind (note_entry (Diagnose (st_id step))) (\<lambda>_.
          run_bind (ask x (\<lambda>_. reasoner)) (\<lambda>y.
            case y of
              Inl e \<Rightarrow>
                run_bind (emit x ''recovery_decision_failed'' (Some (st_id step)) (Some n) (Some worker)) (\<lambda>_.
                  run_return (plan (fail_closed RecoveryFailure (''recovery diagnosis failed closed: '' @ e) v) False True))
            | Inr d \<Rightarrow>
                (let d = (if 0 < repeated \<and> de_kind d = Repair \<and> \<not> de_fallback d
                          then stagnation_replan step v commands g else d) in
                 run_bind (emit x ''recovery_decision_recorded'' (Some (st_id step)) (Some n) (Some worker)) (\<lambda>_.
                   run_return (plan (decided_review step g commands fallback_left d v) (de_fallback d) True)))))))))"

end
