(* ===== verification/Campaign_Runner.thy ===== *)
theory Campaign_Runner
  imports Campaign_Steps
begin

text \<open>
  The runner itself, \<open>campaign_runner.rs\<close>: the turns of an implementation step, the recovery of an interrupted
  campaign, the walk over its steps, and the entry points of the command line.
\<close>

section \<open>The choice of a worker\<close>

text \<open>The variables of the loop of \<open>execute_implementation\<close>.\<close>

record turn_state =
  ts_primary :: nat
  ts_repair :: nat
  ts_fallback :: nat
  ts_review :: "review option"
  ts_summary :: string
  ts_commands :: "command_evidence list"
  ts_last :: nat
  ts_instruction :: "string option"
  ts_prefer_fallback :: bool
  ts_fingerprint :: "string option"
  ts_repeated :: nat

definition first_turn :: "worker_policy \<Rightarrow> turn_state" where
  "first_turn p = \<lparr>ts_primary = wp_primary_attempts p, ts_repair = wp_repair_attempts p,
     ts_fallback = wp_fallback_attempts p, ts_review = None, ts_summary = [], ts_commands = [], ts_last = 0,
     ts_instruction = None, ts_prefer_fallback = False, ts_fingerprint = None, ts_repeated = 0\<rparr>"

text \<open>Kind, worker, the attempts it repairs or stands in for, and what is left.\<close>

definition select_attempt ::
  "worker_policy \<Rightarrow> turn_state \<Rightarrow> (attempt_kind \<times> string \<times> nat option \<times> nat option \<times> turn_state) option" where
  "select_attempt p m =
     (if ts_review m = None \<and> 0 < ts_primary m
      then Some (PrimaryAttempt, wp_primary p, None, None, m\<lparr>ts_primary := ts_primary m - 1\<rparr>)
      else if ts_prefer_fallback m \<and> 0 < ts_fallback m
      then Some (FallbackAttempt, wp_fallback p, None, Some (ts_last m),
        m\<lparr>ts_fallback := ts_fallback m - 1, ts_prefer_fallback := False\<rparr>)
      else if 0 < ts_repair m
      then Some (RepairAttempt, wp_primary p, Some (ts_last m), None,
        m\<lparr>ts_repair := ts_repair m - 1, ts_prefer_fallback := False\<rparr>)
      else if 0 < ts_fallback m
      then Some (FallbackAttempt, wp_fallback p, None, Some (ts_last m),
        m\<lparr>ts_fallback := ts_fallback m - 1, ts_prefer_fallback := False\<rparr>)
      else None)"

definition turns_left :: "turn_state \<Rightarrow> nat" where
  "turns_left m = ts_primary m + ts_repair m + ts_fallback m"

section \<open>The model request\<close>

definition recover_after_transient ::
  "runner_context \<Rightarrow> campaign_step \<Rightarrow> string \<Rightarrow> nat \<Rightarrow> nat \<Rightarrow> string \<Rightarrow> bool run" where
  "recover_after_transient x step worker attempts started e =
     run_bind (ask x oc_now) (\<lambda>t.
     let elapsed = t - started; count = natural_text attempts @ ''/'' @ natural_text (rx_max_attempts x) in
     if rx_max_attempts x \<le> attempts \<or> rx_max_wait x \<le> elapsed
     then run_bind (block_in_place x ModelUnavailable (''worker endpoint '' @ worker @
            '' remained inference-unready after bounded recovery wait (attempt '' @ count @ '', elapsed '' @
            natural_text elapsed @ ''s): '' @ e)) (\<lambda>_. run_return False)
     else
       run_bind (upd_cur (\<lambda>s. s\<lparr>cs_action := Some ''dependency_recovery_wait'',
         cs_error := Some (''worker endpoint '' @ worker @ '' transient model-request startup failure after attempt '' @
           count @ '': '' @ e)\<rparr>)) (\<lambda>_.
       run_bind (save_cur x) (\<lambda>_.
       run_bind cur (\<lambda>s.
       run_bind (emit x ''dependency_recovery_waiting'' (Some (st_id step)) (Some (cs_attempt s)) (Some worker)) (\<lambda>_.
       run_bind (recovery_checkpoint x) (\<lambda>stop.
       if stop then run_return False
       else
         run_bind (recovery_checkpoint x) (\<lambda>stop.
         if stop then run_return False
         else
           run_bind (upd_cur (\<lambda>s. s\<lparr>cs_action := Some ''model_request'', cs_error := None\<rparr>)) (\<lambda>_.
           run_bind (save_cur x) (\<lambda>_.
           run_bind (emit x ''dependency_recovery_ready'' (Some (st_id step)) (Some (cs_attempt s)) (Some worker)) (\<lambda>_.
             run_return True))))))))))"

text \<open>One request: the implementer's result, or nothing when the runner stopped, or the failed attempts so far.\<close>

definition request_turn ::
  "runner_context \<Rightarrow> campaign_step \<Rightarrow> nat \<Rightarrow> string \<Rightarrow> string \<Rightarrow> nat \<Rightarrow> nat \<Rightarrow> nat \<Rightarrow> (implement_result option + nat) run" where
  "request_turn x step n worker worktree t started attempts =
     run_bind (emit x ''model_request_started'' (Some (st_id step)) (Some n) (Some worker)) (\<lambda>_.
     run_bind (note_entry (Implement worktree (st_allowed step) t (st_network step = ''disabled'') worker)) (\<lambda>_.
     run_bind (run_try (ask_res x oc_implement)) (\<lambda>y.
     let i = (case y of Inr i \<Rightarrow> i | Inl e \<Rightarrow> implementer_error_result e) in
     run_bind (emit x ''model_request_completed'' (Some (st_id step)) (Some n) (Some worker)) (\<lambda>_.
       case ir_worker_error i of
         Some e \<Rightarrow>
           if is_transient_worker_transport_error e
           then run_bind (recover_after_transient x step worker (Suc attempts) started e) (\<lambda>healthy.
                  run_return (if healthy then Inr (Suc attempts) else Inl None))
           else run_return (Inl (Some i))
       | None \<Rightarrow> run_return (Inl (Some i))))))"

definition request_model ::
  "runner_context \<Rightarrow> campaign_step \<Rightarrow> nat \<Rightarrow> string \<Rightarrow> string \<Rightarrow> nat \<Rightarrow> nat \<Rightarrow> implement_result option run" where
  "request_model x step n worker worktree t started =
     run_loop (rx_max_attempts x + 1) (request_turn x step n worker worktree t started) 0"

section \<open>An attempt\<close>

definition kind_action :: "attempt_kind \<Rightarrow> string" where
  "kind_action k = (case k of RepairAttempt \<Rightarrow> ''repair'' | FallbackAttempt \<Rightarrow> ''fallback'' | _ \<Rightarrow> ''model_request'')"

definition kind_event :: "attempt_kind \<Rightarrow> string" where
  "kind_event k = (case k of RepairAttempt \<Rightarrow> ''repair_selected'' | FallbackAttempt \<Rightarrow> ''fallback_selected''
     | _ \<Rightarrow> ''worker_selected'')"

definition launch_instruction :: "campaign_step \<Rightarrow> attempt_kind \<Rightarrow> turn_state \<Rightarrow> string option" where
  "launch_instruction step k m =
     (if k = PrimaryAttempt then None
      else Some (''Original task:'' @ newline @ st_task step @ newline @ newline @ ''Recovery instruction:'' @ newline @
        unwrap_or
          (opt_or (ts_instruction m)
            (map_option (\<lambda>v. repair_instruction step v (ts_summary m) (ts_commands m)) (ts_review m)))
          ''Retry the original task and make the required source changes.'' @ newline @ newline @
        ''Work from the current accepted repository state. Make the required source changes. '' @
        ''Do not merely describe the solution; inspect and edit the repository.''))"

definition review_of ::
  "campaign_step \<Rightarrow> git_evidence \<Rightarrow> bool \<Rightarrow> string list \<Rightarrow> implement_result \<Rightarrow> review" where
  "review_of step g ok missing i =
     review_attempt \<lparr>in_step = step, in_evidence = g, in_succeeded = ok, in_missing = missing,
       in_output = Some (ir_output i), in_protocol_error = ir_protocol_error i, in_worker_error = ir_worker_error i,
       in_tool_calls = length (ir_tool_calls i), in_host_shell = ir_host_shell i\<rparr>"

text \<open>\<open>persist_partial_failure\<close>: an attempt that the operator stopped.\<close>

definition persist_partial_failure :: "runner_context \<Rightarrow> campaign_step \<Rightarrow> attempt_info \<Rightarrow> failure \<Rightarrow> unit run" where
  "persist_partial_failure x step a f =
     run_bind (run_try (ask_res x oc_snapshot)) (\<lambda>y.
     run_bind cur (\<lambda>s.
     run_bind (run_lift (case y of Inr _ \<Rightarrow> Inr [] | Inl _ \<Rightarrow> git_sha (cs_head s))) (\<lambda>_.
       persist_attempt x step a \<lparr>rv_disposition = RejectedTerminal, rv_classification = Some f,
         rv_rationale = failure_name f, rv_evidence = [''worker-transcript.json''], rv_repair = None\<rparr> None)))"

text \<open>The acceptance commands after an implementation; they are left out when nothing changed. \<open>None\<close>: the
  runner stopped.\<close>

definition accept_implementation ::
  "runner_context \<Rightarrow> campaign_step \<Rightarrow> attempt_info \<Rightarrow> implement_result \<Rightarrow> git_evidence \<Rightarrow> acceptance option run" where
  "accept_implementation x step a i g =
     (if source_paths (ge_changed g) = [] \<and> ir_protocol_error i = None \<and> \<not> looks_protocol i
      then run_return (Some ([], [], True))
      else
        run_bind (emit x ''acceptance_command_started'' (Some (st_id step)) (Some (at_number a)) (Some (at_worker a))) (\<lambda>_.
        run_bind (run_try (run_acceptance x step)) (\<lambda>y.
          case y of
            Inl e \<Rightarrow>
              if is_executor_error e
              then run_bind (block_in_place x ExecutorUnavailable e) (\<lambda>_. run_return None)
              else run_fail e
          | Inr v \<Rightarrow>
              run_bind (emit x ''acceptance_command_completed'' (Some (st_id step)) (Some (at_number a)) (Some (at_worker a)))
                (\<lambda>_. run_return (Some v)))))"

text \<open>The commit of an accepted attempt, after a second look at the worktree. \<open>None\<close>: the runner stopped.\<close>

definition commit_accepted ::
  "runner_context \<Rightarrow> campaign_step \<Rightarrow> attempt_info \<Rightarrow> implement_result \<Rightarrow> review \<Rightarrow> string option run" where
  "commit_accepted x step a i v =
     run_bind (checkpoint x step) (\<lambda>stop.
     if stop then run_bind (persist_attempt x step a v None) (\<lambda>_. run_return None)
     else
       run_bind (set_action ''pre_commit_inspect'') (\<lambda>_.
       run_bind (heartbeat_now x) (\<lambda>_.
       run_bind (snapshot_checked x) (\<lambda>g.
       let w = review_of step g True [] i in
       if rv_disposition w \<noteq> Accepted
       then
         run_bind (checkpoint x step) (\<lambda>stop.
         if stop then run_return None
         else
           run_bind (persist_attempt x step a w None) (\<lambda>_.
           run_bind (block_in_place x (unwrap_or (rv_classification w) PathPolicyFailed) (rv_rationale w)) (\<lambda>_.
             run_return None)))
       else
         run_bind (set_action ''git_commit'') (\<lambda>_.
         run_bind (heartbeat_now x) (\<lambda>_.
         run_bind (note_entry (Commit (st_id step) (source_paths (ge_changed g)))) (\<lambda>_.
         run_bind (ask_res x oc_commit) (\<lambda>sha.
         run_bind (ask_res x oc_head) (\<lambda>head.
         run_bind (upd_cur (\<lambda>s. s\<lparr>cs_head := head\<rparr>)) (\<lambda>_.
         run_bind (emit x ''step_accepted'' (Some (st_id step)) (Some (at_number a)) (Some (at_worker a))) (\<lambda>_.
           run_return (Some sha))))))))))))"

text \<open>What follows the review: the commit, the record, and the outcome of the turn.\<close>

definition settle_attempt ::
  "runner_context \<Rightarrow> campaign_step \<Rightarrow> attempt_info \<Rightarrow> implement_result \<Rightarrow> git_evidence \<Rightarrow> review \<Rightarrow> bool \<Rightarrow> turn_state
     \<Rightarrow> (step_outcome + turn_state) run" where
  "settle_attempt x step a i g v traced m =
     run_bind
       (if rv_disposition v = Accepted
        then run_bind (commit_accepted x step a i v) (\<lambda>c. run_return (map_option Some c))
        else run_return (Some None)) (\<lambda>c.
     case c of
       None \<Rightarrow> run_return (Inl StepStopped)
     | Some commit \<Rightarrow>
         run_bind (persist_attempt x step a v commit) (\<lambda>_.
         run_bind (if traced then ask_res x oc_write else run_return ()) (\<lambda>_.
           case rv_disposition v of
             Accepted \<Rightarrow>
               if commit = None \<and> st_kind step = ImplementationStep
               then run_bind (block_and_stop x ContinuityFailed ''accepted review did not produce a local commit'')
                 (\<lambda>o1. run_return (Inl o1))
               else run_bind (mark_step_accepted x (st_id step) commit) (\<lambda>_. run_return (Inl StepAccepted))
           | RejectedTerminal \<Rightarrow>
               run_bind (block_and_stop x (unwrap_or (rv_classification v) PathPolicyFailed) (rv_rationale v))
                 (\<lambda>o1. run_return (Inl o1))
           | RejectedRetryable \<Rightarrow>
               (let f = unwrap_or (rv_classification v) InadequateImplementation in
                if \<not> retryable_failure f \<or> turns_left m = 0
                then run_bind (block_and_stop x f (rv_rationale v)) (\<lambda>o1. run_return (Inl o1))
                else run_bind (reset_rejected_attempt x step (at_number a) g) (\<lambda>_. run_return (Inr m))))))"

text \<open>The review of an attempt by the coordinator and the model, and the plan of a retry.\<close>

definition review_turn_result ::
  "runner_context \<Rightarrow> campaign_step \<Rightarrow> attempt_info \<Rightarrow> implement_result \<Rightarrow> git_evidence \<Rightarrow> acceptance \<Rightarrow> turn_state
     \<Rightarrow> (review \<times> bool \<times> turn_state) run" where
  "review_turn_result x step a i g acc m =
     (let (commands, missing, ok) = acc; v0 = review_of step g ok missing i in
      run_bind (reviewed x step (at_worker a) (at_number a) v0) (\<lambda>v.
      let m = (if rv_disposition v0 = Accepted
               then m\<lparr>ts_instruction := None, ts_fingerprint := None, ts_repeated := 0\<rparr> else m) in
      run_bind
        (if rv_disposition v = RejectedRetryable
         then run_bind (plan_retry_from_failure x step (at_number a) (at_worker a) v g commands i (ts_fingerprint m)
                (ts_repeated m) (ts_fallback m)) (\<lambda>p.
                run_return (rp_review p, rp_traced p,
                  m\<lparr>ts_instruction := rv_repair (rp_review p), ts_prefer_fallback := rp_prefer_fallback p,
                    ts_fingerprint := Some (rp_fingerprint p), ts_repeated := rp_repeated p\<rparr>))
         else run_return (v, False, m)) (\<lambda>(v, traced, m).
      let v = (if rv_disposition v = RejectedRetryable \<and> \<not> is_none_or (rv_classification v) retryable_failure
               then v\<lparr>rv_disposition := RejectedTerminal\<rparr> else v) in
      run_return (v, traced, m\<lparr>ts_review := Some v\<rparr>))))"

definition execute_attempt ::
  "runner_context \<Rightarrow> campaign_step \<Rightarrow> attempt_kind \<Rightarrow> string \<Rightarrow> nat option \<Rightarrow> nat option \<Rightarrow> turn_state
     \<Rightarrow> (step_outcome + turn_state) run" where
  "execute_attempt x step kind worker repair_of fallback_of m =
     run_bind cur (\<lambda>s.
     let n = total_attempts s + 1; m = m\<lparr>ts_last := n\<rparr> in
     run_bind (ask_res x oc_runtime) (\<lambda>worker.
     run_bind (upd_cur (\<lambda>s. s\<lparr>cs_attempt := n, cs_worker := Some worker, cs_action := Some (kind_action kind)\<rparr>)) (\<lambda>_.
     run_bind (heartbeat_now x) (\<lambda>_.
     run_bind (emit x (kind_event kind) (Some (st_id step)) (Some n) (Some worker)) (\<lambda>_.
     run_bind (if kind = PrimaryAttempt then run_return ()
               else emit x ''recovery_instruction_recorded'' (Some (st_id step)) (Some n) (Some worker)) (\<lambda>_.
     run_bind (ask x oc_now) (\<lambda>start.
     run_bind (run_lift (res_bind (map_res allowed_path (st_allowed step)) allowed_paths)) (\<lambda>_.
     run_bind cur (\<lambda>s.
     run_bind (ask x oc_now) (\<lambda>started.
     let a = \<lparr>at_number = n, at_kind = kind, at_worker = worker, at_start = start,
       at_launch = launch_instruction step kind m, at_repair_of = repair_of, at_fallback_of = fallback_of\<rparr> in
     run_bind (request_model x step n worker (cs_worktree s) (action_timeout s step) started) (\<lambda>y.
     case y of
       None \<Rightarrow> run_return (Inl StepStopped)
     | Some i \<Rightarrow>
         run_bind (checkpoint x step) (\<lambda>stop.
         if stop
         then run_bind (persist_partial_failure x step a OperatorCancelled) (\<lambda>_. run_return (Inl StepStopped))
         else
           run_bind (set_action ''git_inspect'') (\<lambda>_.
           run_bind (heartbeat_now x) (\<lambda>_.
           run_bind (snapshot_checked x) (\<lambda>g.
           run_bind (emit x ''git_inspection'' (Some (st_id step)) (Some n) (Some worker)) (\<lambda>_.
           run_bind (set_action ''acceptance_command'') (\<lambda>_.
           run_bind (heartbeat_now x) (\<lambda>_.
           run_bind (accept_implementation x step a i g) (\<lambda>acc.
           case acc of
             None \<Rightarrow> run_return (Inl StepStopped)
           | Some acc \<Rightarrow>
               run_bind (snapshot_checked x) (\<lambda>g.
               run_bind (set_action ''coordinator_review'') (\<lambda>_.
               run_bind (heartbeat_now x) (\<lambda>_.
               run_bind (emit x ''coordinator_review_started'' (Some (st_id step)) (Some n) (Some worker)) (\<lambda>_.
               run_bind (review_turn_result x step a i g acc (m\<lparr>ts_summary := ge_stat g, ts_commands := fst acc\<rparr>))
                 (\<lambda>(v, traced, m). settle_attempt x step a i g v traced m))))))))))))))))))))))))"

definition implementation_turn ::
  "runner_context \<Rightarrow> campaign_step \<Rightarrow> turn_state \<Rightarrow> (step_outcome + turn_state) run" where
  "implementation_turn x step m =
     run_bind (checkpoint x step) (\<lambda>stop.
     if stop then run_return (Inl StepStopped)
     else
       run_bind cur (\<lambda>s.
       let why = ''exhausted worker attempts for step '' @ st_id step in
       if cl_max_attempts (cg_limits (rx_campaign x)) \<le> total_attempts s
       then run_bind (block_and_stop x InadequateImplementation why) (\<lambda>o1. run_return (Inl o1))
       else case select_attempt (cg_policy (rx_campaign x)) m of
         None \<Rightarrow>
           run_bind (block_and_stop x
             (unwrap_or (Option.bind (ts_review m) rv_classification) InadequateImplementation) why)
             (\<lambda>o1. run_return (Inl o1))
       | Some (kind, worker, repair_of, fallback_of, m) \<Rightarrow>
           execute_attempt x step kind worker repair_of fallback_of m))"

definition execute_implementation :: "runner_context \<Rightarrow> campaign_step \<Rightarrow> step_outcome run" where
  "execute_implementation x step =
     (let m = first_turn (cg_policy (rx_campaign x)) in
      run_loop (turns_left m + 1) (implementation_turn x step) m)"

definition execute_step :: "runner_context \<Rightarrow> campaign_step \<Rightarrow> step_outcome run" where
  "execute_step x step =
     (case st_kind step of
        VerificationStep \<Rightarrow> execute_verification x step
      | ImplementationStep \<Rightarrow> execute_implementation x step)"

end
