(* ===== verification/Campaign_Entry.thy ===== *)
theory Campaign_Entry
  imports Campaign_Runner
begin

text \<open>
  The entry points of the runner, \<open>campaign_runner.rs\<close>: the start of a campaign, the recovery at the beginning of
  each run, the walk over the steps, and \<open>run\<close> and \<open>resume\<close> with the lease of the repository.
\<close>

section \<open>Recovery\<close>

definition path_within :: "string \<Rightarrow> string \<Rightarrow> bool" where
  "path_within p dir \<longleftrightarrow> starts_with p ''/'' = starts_with dir ''/'' \<and>
     take (length (path_parts dir)) (path_parts p) = path_parts dir"

fun all_authorized :: "string list \<Rightarrow> string list \<Rightarrow> string list \<Rightarrow> bool res" where
  "all_authorized permitted allowed [] = Inr True"
| "all_authorized permitted allowed (p # ps) =
     res_bind (path_is_authorized p permitted) (\<lambda>b.
     if \<not> b then Inr False
     else res_bind (path_is_authorized p allowed) (\<lambda>b.
       if \<not> b then Inr False else all_authorized permitted allowed ps))"

definition can_reset_interrupted_worktree :: "runner_context \<Rightarrow> campaign_status \<Rightarrow> string list \<Rightarrow> bool res" where
  "can_reset_interrupted_worktree x s dirty =
     (if cs_state s \<noteq> CRunning then Inr False
      else if unwrap_or (cs_action s) [] \<notin> set [''model_request'', ''repair'', ''fallback'', ''git_inspect'', ''acceptance_command'']
      then Inr False
      else case cs_step s of
        None \<Rightarrow> Inr False
      | Some k \<Rightarrow>
          (case find_step_index (cs_steps s) k of
             Inl e \<Rightarrow> Inr False
           | Inr n \<Rightarrow>
               if sr_commit (cs_steps s ! n) \<noteq> None \<or> cs_attempt s \<le> length (sr_attempts (cs_steps s ! n)) then Inr False
               else if \<not> path_within (cs_worktree s) (rx_workspace_root x) then Inr False
               else
                 res_bind (ok_or (List.find (\<lambda>c. st_id c = k) (cg_steps (rx_campaign x))) (''missing campaign step: '' @ k)) (\<lambda>c.
                   all_authorized (cg_permitted (rx_campaign x)) (st_allowed c) dirty)))"

text \<open>The health of the worker: \<open>None\<close> when the runner stopped, else whether it waited.\<close>

definition health_turn :: "runner_context \<Rightarrow> string \<Rightarrow> nat \<Rightarrow> nat \<Rightarrow> (bool option + nat) run" where
  "health_turn x worker started attempts =
     run_bind (run_try (ask_res x oc_worker)) (\<lambda>y.
     case y of
       Inr _ \<Rightarrow> run_return (Inl (Some (0 < attempts)))
     | Inl e \<Rightarrow>
         run_bind (ask x oc_now) (\<lambda>t.
         let attempts = Suc attempts; elapsed = t - started;
             count = natural_text attempts @ ''/'' @ natural_text (rx_max_attempts x) in
         if rx_max_attempts x \<le> attempts \<or> rx_max_wait x \<le> elapsed
         then run_bind (block_in_place x ModelUnavailable (''worker endpoint '' @ worker @
                '' unavailable after bounded recovery wait (attempt '' @ count @ '', elapsed '' @ natural_text elapsed @
                ''s): '' @ e)) (\<lambda>_. run_return (Inl None))
         else
           run_bind (upd_cur (\<lambda>s. s\<lparr>cs_action := Some ''dependency_recovery_wait'',
             cs_error := Some (''worker endpoint '' @ worker @ '' recovery pending after attempt '' @ count @ '': '' @ e)\<rparr>)) (\<lambda>_.
           run_bind (save_cur x) (\<lambda>_.
           run_bind cur (\<lambda>s.
           run_bind (emit x ''dependency_recovery_waiting'' (cs_step s) (Some (cs_attempt s)) (Some worker)) (\<lambda>_.
           run_bind (recovery_checkpoint x) (\<lambda>stop.
           if stop then run_return (Inl None)
           else
             run_bind (recovery_checkpoint x) (\<lambda>stop.
               run_return (if stop then Inl None else Inr attempts)))))))))"

definition recover_worker_health :: "runner_context \<Rightarrow> bool option run" where
  "recover_worker_health x =
     run_bind (ask x oc_now) (\<lambda>started.
     run_bind cur (\<lambda>s.
     let worker = unwrap_or (cs_worker s) (wp_primary (cg_policy (rx_campaign x))) in
       run_loop (rx_max_attempts x + 1) (health_turn x worker started) 0))"

text \<open>Whether the worktree is the one the status records; otherwise the campaign is blocked.\<close>

definition recover_worktree :: "runner_context \<Rightarrow> bool run" where
  "recover_worktree x =
     (let blocked = (\<lambda>why. run_bind (block_in_place x ContinuityFailed why) (\<lambda>_. run_return False)) in
      run_bind (run_lift (campaign_digest (rx_world x) (rx_campaign x))) (\<lambda>digest.
      run_bind cur (\<lambda>s.
      if digest \<noteq> cs_digest s then blocked ''campaign digest mismatch''
      else if cg_base_sha (rx_campaign x) \<noteq> cs_base_sha s then blocked ''base SHA mismatch''
      else if cg_branch (rx_campaign x) \<noteq> cs_branch s then blocked ''branch mismatch''
      else
        run_bind (ask x oc_exists) (\<lambda>there.
        if \<not> there then blocked ''worktree is missing''
        else
          run_bind (ask_res x oc_branch) (\<lambda>branch.
          if branch \<noteq> cs_branch s
          then blocked (''worktree branch '' @ branch @ '' does not match '' @ cg_branch (rx_campaign x))
          else
            run_bind (ask_res x oc_head) (\<lambda>head.
            if head \<noteq> cs_head s then blocked ''worktree HEAD does not match recorded SHA''
            else
              run_bind (ask_res x oc_snapshot) (\<lambda>g.
              let dirty = source_paths (ge_changed g) in
              if dirty = [] then run_return True
              else
                run_bind (run_lift (can_reset_interrupted_worktree x s dirty)) (\<lambda>mine.
                if \<not> mine then blocked (''worktree has uncommitted source changes: '' @ join_with '', '' dirty)
                else
                  run_bind (ask_res x oc_write) (\<lambda>_.
                  run_bind (reset_worktree x ''failed to reconcile interrupted worktree: '' dirty) (\<lambda>_. run_return True))))))))))"

definition recover_campaign :: "runner_context \<Rightarrow> unit run" where
  "recover_campaign x =
     run_bind (recover_worktree x) (\<lambda>ok.
     if \<not> ok then run_return ()
     else
       run_bind (refresh_budget x) (\<lambda>_.
       run_bind cur (\<lambda>s.
       if cs_remaining s = 0
       then
         run_bind (ask x oc_now) (\<lambda>t.
         run_bind (upd_cur (\<lambda>s. s\<lparr>cs_state := CExpired, cs_blocked := Some (failure_name CampaignExpired), cs_end := Some t\<rparr>)) (\<lambda>_.
         run_bind (save_cur x) (\<lambda>_. emit x ''campaign_expired'' None None None)))
       else
         run_bind (run_try (ask_res x oc_executor)) (\<lambda>y.
         case y of
           Inl e \<Rightarrow> block_in_place x ExecutorUnavailable e
         | Inr _ \<Rightarrow>
             run_bind (recover_worker_health x) (\<lambda>w.
             case w of
               None \<Rightarrow> run_return ()
             | Some waited \<Rightarrow>
                 run_bind
                   (if waited
                    then run_bind (upd_cur (\<lambda>s. s\<lparr>cs_action := Some ''recovering'', cs_error := None\<rparr>)) (\<lambda>_.
                         run_bind (save_cur x) (\<lambda>_. emit x ''dependency_recovery_ready'' None None None))
                    else run_return ()) (\<lambda>_. emit x ''campaign_recovered'' None None None))))))"

section \<open>The walk over the steps\<close>

definition effective_steps :: "runner_context \<Rightarrow> campaign_step list run" where
  "effective_steps x =
     run_bind (ask_res x oc_load) (\<lambda>_ r. (Inr (cg_steps (rx_campaign x) @ concat (map rd_steps (rn_revised r))), r))"

definition preflight_live :: "runner_context \<Rightarrow> unit run" where
  "preflight_live x =
     run_bind (run_lift (validate_document (rx_world x) (rx_campaign x))) (\<lambda>_.
     run_bind (ask_res x oc_executor) (\<lambda>_.
     run_bind (ask_res x oc_runtime) (\<lambda>_.
     run_bind (ask_res x oc_runtime) (\<lambda>_.
     run_bind (ask x oc_exists) (\<lambda>there. if there then run_return () else run_fail ''worktree is missing'')))))"

definition complete_campaign :: "runner_context \<Rightarrow> unit run" where
  "complete_campaign x =
     run_bind (ask x oc_now) (\<lambda>t.
     run_bind (upd_cur (\<lambda>s. s\<lparr>cs_state := CCompleted, cs_step := None, cs_action := Some ''completed'', cs_worker := None,
       cs_end := Some t\<rparr>)) (\<lambda>_.
     run_bind (refresh_budget x) (\<lambda>_.
     run_bind (save_cur x) (\<lambda>_. emit x ''campaign_completed'' None None None))))"

fun walk_steps :: "runner_context \<Rightarrow> campaign_step list \<Rightarrow> unit run" where
  "walk_steps x [] = complete_campaign x"
| "walk_steps x (step # rest) =
     run_bind cur (\<lambda>s.
     run_bind (run_lift (find_step_index (cs_steps s) (st_id step))) (\<lambda>n.
     if sr_disposition (cs_steps s ! n) = ''accepted'' then walk_steps x rest
     else
       run_bind (checkpoint x step) (\<lambda>stop.
       if stop then run_return ()
       else
         run_bind (upd_cur (\<lambda>s. s\<lparr>cs_step := Some (st_id step), cs_action := Some ''step_started''\<rparr>)) (\<lambda>_.
         run_bind (save_cur x) (\<lambda>_.
         run_bind (emit x ''step_started'' (Some (st_id step)) None None) (\<lambda>_.
         run_bind (run_try (execute_step x step)) (\<lambda>y.
           case y of
             Inr StepAccepted \<Rightarrow>
               run_bind cur (\<lambda>s.
               run_bind (emit x ''step_accepted'' (Some (st_id step)) (Some (length (sr_attempts (cs_steps s ! n)))) (cs_worker s)) (\<lambda>_.
                 walk_steps x rest))
           | Inr StepStopped \<Rightarrow> run_return ()
           | Inl e \<Rightarrow> block_in_place x (if is_executor_error e then ExecutorUnavailable else ContinuityFailed) e)))))))"

text \<open>The run from a recovered status on.\<close>

definition run_recovered :: "runner_context \<Rightarrow> unit run" where
  "run_recovered x =
     run_bind cur (\<lambda>s.
     if cs_cancel s
     then run_bind (upd_cur (\<lambda>s. s\<lparr>cs_state := CCancelled\<rparr>)) (\<lambda>_. finish_in_place x OperatorCancelled)
     else if cs_pause s
     then run_bind (upd_cur (\<lambda>s. s\<lparr>cs_state := CPaused, cs_action := Some ''paused''\<rparr>)) (\<lambda>_.
          run_bind (save_cur x) (\<lambda>_. emit x ''campaign_paused'' None None None))
     else
       run_bind (run_try (preflight_live x)) (\<lambda>y.
       case y of
         Inl e \<Rightarrow> block_in_place x (preflight_failure e) e
       | Inr _ \<Rightarrow>
           run_bind (upd_cur (\<lambda>s. s\<lparr>cs_state := CRunning\<rparr>)) (\<lambda>_.
           run_bind (heartbeat_now x) (\<lambda>_.
           run_bind (emit x ''campaign_started'' None None None) (\<lambda>_.
           run_bind (effective_steps x) (walk_steps x))))))"

definition run_with_lease :: "runner_context \<Rightarrow> bool \<Rightarrow> unit run" where
  "run_with_lease x resume =
     run_bind (recover_campaign x) (\<lambda>_.
     run_bind cur (\<lambda>s.
     if cs_state s \<in> {CCompleted, CCancelled, CExpired, CFailed} then run_return ()
     else if cs_state s = CBlocked \<and> \<not> resume then run_return ()
     else run_recovered x))"

section \<open>Entry points\<close>

definition require_state :: "runner_context \<Rightarrow> campaign_status run" where
  "require_state x =
     run_bind (load_state x) (\<lambda>d. run_lift (ok_or d (''campaign state not found: '' @ cg_id (rx_campaign x))))"

definition resumable :: "campaign_status \<Rightarrow> unit run" where
  "resumable s = (if cs_state s \<in> {CPaused, CBlocked, CRunning} then run_return () else run_fail ''resume is not valid'')"

definition clear_active_lease :: "runner_context \<Rightarrow> unit res \<Rightarrow> campaign_status run" where
  "clear_active_lease x y =
     (case y of
        Inr _ \<Rightarrow>
          run_bind cur (\<lambda>s.
          run_bind (if cs_lease s \<noteq> None then run_bind (upd_cur (\<lambda>s. s\<lparr>cs_lease := None\<rparr>)) (\<lambda>_. save_cur x)
                    else run_return ()) (\<lambda>_.
          run_bind (load_state x) (\<lambda>d. run_bind cur (\<lambda>s. run_return (unwrap_or d s)))))
      | Inl e \<Rightarrow>
          run_bind (run_try (load_state x)) (\<lambda>d.
          run_bind (case d of
              Inr (Some s) \<Rightarrow>
                if cs_lease s \<noteq> None
                then run_bind (run_try (save_status x False (s\<lparr>cs_lease := None\<rparr>))) (\<lambda>_. run_return ())
                else run_return ()
            | _ \<Rightarrow> run_return ()) (\<lambda>_. run_fail e)))"

definition run_internal :: "runner_context \<Rightarrow> bool \<Rightarrow> campaign_status run" where
  "run_internal x resume =
     run_bind (require_state x) (\<lambda>s.
     run_bind (set_cur s) (\<lambda>_.
     run_bind (if resume then resumable s else run_return ()) (\<lambda>_.
     run_bind (ask x oc_now) (\<lambda>t.
     run_bind (effective_steps x) (\<lambda>_.
     run_bind (ask_res x oc_acquire) (\<lambda>lease.
     run_bind (upd_cur (\<lambda>s. (if resume then s\<lparr>cs_pause := False\<rparr> else s)\<lparr>cs_lease := Some lease\<rparr>)) (\<lambda>_.
     run_bind (run_bind cur (save_status x resume)) (\<lambda>_.
     run_bind (run_try (run_with_lease x resume)) (\<lambda>y.
     run_bind (ask x oc_release) (\<lambda>_. clear_active_lease x y))))))))))"

definition run_campaign :: "runner_context \<Rightarrow> campaign_status run" where
  "run_campaign x = run_internal x False"

definition resume_campaign :: "runner_context \<Rightarrow> campaign_status run" where
  "resume_campaign x = run_bind (require_state x) (\<lambda>s. run_bind (resumable s) (\<lambda>_. run_internal x True))"

definition mark_supervisor_blocked :: "runner_context \<Rightarrow> failure \<Rightarrow> string \<Rightarrow> campaign_status run" where
  "mark_supervisor_blocked x f why = run_bind (require_state x) (\<lambda>s. block x s f why)"

definition mark_detach_setup_failed :: "runner_context \<Rightarrow> string \<Rightarrow> campaign_status run" where
  "mark_detach_setup_failed x why =
     run_bind (require_state x) (\<lambda>s. block x s ExecutorUnavailable (''detached runner setup failed: '' @ why))"

text \<open>The status of a new campaign, and its start; \<open>root\<close> is the workspace root of the registry.\<close>

definition new_status :: "campaign \<Rightarrow> 64 word \<Rightarrow> string \<Rightarrow> string \<Rightarrow> nat \<Rightarrow> campaign_status" where
  "new_status c digest worktree sha t = \<lparr>cs_id = cg_id c, cs_digest = digest, cs_repository = cg_repository c,
     cs_base_sha = cg_base_sha c, cs_branch = cg_branch c, cs_worktree = worktree, cs_head = sha, cs_state = CRunning,
     cs_step = None, cs_attempt = 0, cs_worker = None, cs_action = Some ''started'', cs_pause = False, cs_cancel = False,
     cs_start = t, cs_end = None, cs_duration = 0, cs_remaining = cl_max_runtime (cg_limits c), cs_heartbeat = t,
     cs_progress = Some t, cs_steps = map pending_step (cg_steps c), cs_revisions = [], cs_lease = None,
     cs_container = None, cs_error = None, cs_blocked = None\<rparr>"

definition start_campaign :: "runner_context \<Rightarrow> campaign_status run" where
  "start_campaign x =
     (let c = rx_campaign x in
      run_bind (run_lift (validate_document (rx_world x) c)) (\<lambda>_.
      run_bind (ask_res x oc_executor) (\<lambda>_.
      run_bind (ask_res x oc_runtime) (\<lambda>_.
      run_bind (ask_res x oc_runtime) (\<lambda>_.
      run_bind (ask_res x oc_worker) (\<lambda>_.
      run_bind (load_state x) (\<lambda>d.
      if d \<noteq> None then run_fail (''campaign '' @ cg_id c @ '' already exists'')
      else
        run_bind (run_lift (repository_id (cg_repository c))) (\<lambda>_.
        run_bind (run_lift (git_sha (cg_base_sha c))) (\<lambda>sha.
        run_bind (ask_res x oc_create) (\<lambda>_.
        run_bind (ask_res x oc_write) (\<lambda>_.
        run_bind (ask x oc_now) (\<lambda>t.
        run_bind (run_lift (campaign_digest (rx_world x) c)) (\<lambda>digest.
        let s = new_status c digest (rx_workspace_root x @ ''/campaign-'' @ cg_id c @ ''/repo'') sha t in
        run_bind (save_status x False s) (\<lambda>_.
        run_bind (emit_for x ''campaign_created'' None None None s) (\<lambda>_. run_return s)))))))))))))))"

end
