(* ===== verification/Campaign_Frame.thy ===== *)
theory Campaign_Frame
  imports Campaign_Entry
begin

text \<open>
  What every operation of the campaign runner keeps. \<open>ensures R Q m\<close> says that \<open>m\<close> relates the states before and
  after it by \<open>R\<close>, whatever its result, and that the value it returns satisfies \<open>Q\<close>. The locale \<open>run_frame\<close>
  asks a relation for the laws of the few operations that change the state; each operation of the runner is
  then shown once to keep it.
\<close>

section \<open>The calculus\<close>

named_theorems run_rules \<open>how a run is taken apart\<close>

definition ensures :: "(runner \<Rightarrow> runner \<Rightarrow> bool) \<Rightarrow> ('a \<Rightarrow> bool) \<Rightarrow> 'a run \<Rightarrow> bool" where
  "ensures R Q m \<longleftrightarrow> (\<forall>r. R r (snd (m r)) \<and> (\<forall>v. fst (m r) = Inr v \<longrightarrow> Q v))"

definition keeps :: "(runner \<Rightarrow> runner \<Rightarrow> bool) \<Rightarrow> 'a run \<Rightarrow> bool" where
  "keeps R m \<longleftrightarrow> (\<forall>r. R r (snd (m r)))"

lemma ensures_keeps: "keeps R m = ensures R (\<lambda>_. True) m"
  by (simp add: keeps_def ensures_def)

lemma ensuresI: "(\<And>r. R r (snd (m r))) \<Longrightarrow> (\<And>r v. fst (m r) = Inr v \<Longrightarrow> Q v) \<Longrightarrow> ensures R Q m"
  by (simp add: ensures_def)

lemma ensuresD: "ensures R Q m \<Longrightarrow> R r (snd (m r))" "ensures R Q m \<Longrightarrow> fst (m r) = Inr v \<Longrightarrow> Q v"
  by (simp_all add: ensures_def)

lemma ensures_weaken: "ensures R Q m \<Longrightarrow> (\<And>v. Q v \<Longrightarrow> Q' v) \<Longrightarrow> ensures R Q' m"
  by (simp add: ensures_def)

lemma ensures_imp_keeps: "ensures R Q m \<Longrightarrow> keeps R m"
  by (simp add: keeps_def ensures_def)

lemma ensures_if [run_rules]:
  "(b \<Longrightarrow> ensures R Q m) \<Longrightarrow> (\<not> b \<Longrightarrow> ensures R Q n) \<Longrightarrow> ensures R Q (if b then m else n)"
  by simp

lemma keeps_if [run_rules]: "(b \<Longrightarrow> keeps R m) \<Longrightarrow> (\<not> b \<Longrightarrow> keeps R n) \<Longrightarrow> keeps R (if b then m else n)"
  by simp

lemma keeps_option [run_rules]:
  "(x = None \<Longrightarrow> keeps R a) \<Longrightarrow> (\<And>v. x = Some v \<Longrightarrow> keeps R (b v)) \<Longrightarrow>
     keeps R (case x of None \<Rightarrow> a | Some v \<Rightarrow> b v)"
  by (cases x) auto

lemma keeps_sum [run_rules]:
  "(\<And>e. x = Inl e \<Longrightarrow> keeps R (a e)) \<Longrightarrow> (\<And>v. x = Inr v \<Longrightarrow> keeps R (b v)) \<Longrightarrow>
     keeps R (case x of Inl e \<Rightarrow> a e | Inr v \<Rightarrow> b v)"
  by (cases x) auto

lemma keeps_prod [run_rules]: "(\<And>a b. x = (a, b) \<Longrightarrow> keeps R (f a b)) \<Longrightarrow> keeps R (case x of (a, b) \<Rightarrow> f a b)"
  by (cases x) auto

lemma ensures_option [run_rules]:
  "(x = None \<Longrightarrow> ensures R Q a) \<Longrightarrow> (\<And>v. x = Some v \<Longrightarrow> ensures R Q (b v)) \<Longrightarrow>
     ensures R Q (case x of None \<Rightarrow> a | Some v \<Rightarrow> b v)"
  by (cases x) auto

lemma ensures_sum [run_rules]:
  "(\<And>e. x = Inl e \<Longrightarrow> ensures R Q (a e)) \<Longrightarrow> (\<And>v. x = Inr v \<Longrightarrow> ensures R Q (b v)) \<Longrightarrow>
     ensures R Q (case x of Inl e \<Rightarrow> a e | Inr v \<Rightarrow> b v)"
  by (cases x) auto

lemma ensures_prod [run_rules]:
  "(\<And>a b. x = (a, b) \<Longrightarrow> ensures R Q (f a b)) \<Longrightarrow> ensures R Q (case x of (a, b) \<Rightarrow> f a b)"
  by (cases x) auto

lemma keeps_step_outcome [run_rules]:
  "(o1 = StepAccepted \<Longrightarrow> keeps R a) \<Longrightarrow> (o1 = StepStopped \<Longrightarrow> keeps R b) \<Longrightarrow>
     keeps R (case o1 of StepAccepted \<Rightarrow> a | StepStopped \<Rightarrow> b)"
  by (cases o1) auto

lemma keeps_disposition [run_rules]:
  "(d = Accepted \<Longrightarrow> keeps R a) \<Longrightarrow> (d = RejectedRetryable \<Longrightarrow> keeps R b) \<Longrightarrow>
     (d = RejectedTerminal \<Longrightarrow> keeps R c) \<Longrightarrow>
     keeps R (case d of Accepted \<Rightarrow> a | RejectedRetryable \<Rightarrow> b | RejectedTerminal \<Rightarrow> c)"
  by (cases d) auto

lemma ensures_disposition [run_rules]:
  "(d = Accepted \<Longrightarrow> ensures R Q a) \<Longrightarrow> (d = RejectedRetryable \<Longrightarrow> ensures R Q b) \<Longrightarrow>
     (d = RejectedTerminal \<Longrightarrow> ensures R Q c) \<Longrightarrow>
     ensures R Q (case d of Accepted \<Rightarrow> a | RejectedRetryable \<Rightarrow> b | RejectedTerminal \<Rightarrow> c)"
  by (cases d) auto

section \<open>Loops\<close>

text \<open>A loop whose turns lower a measure never meets its bound: any bound above the measure gives the same run.\<close>

lemma run_loop_enough:
  assumes turn: "\<And>s r r' s'. body s r = (Inr (Inr s'), r') \<Longrightarrow> (f s' :: nat) < f s"
  shows "f s < n \<Longrightarrow> f s < m \<Longrightarrow> run_loop n body s r = run_loop m body s r"
proof (induction n arbitrary: m s r)
  case (Suc n)
  from Suc.prems(2) obtain k where m: "m = Suc k" by (cases m) auto
  show ?case
  proof (cases "body s r")
    case (Pair y r')
    show ?thesis
    proof (cases y)
      case (Inl e)
      then show ?thesis using Pair by (simp add: m run_bind_def)
    next
      case (Inr z)
      show ?thesis
      proof (cases z)
        case (Inl v)
        then show ?thesis using Pair Inr by (simp add: m run_bind_def)
      next
        case (Inr s')
        have "f s' < f s" using turn[of s r s' r'] Pair Inr \<open>y = Inr z\<close> by simp
        then have "run_loop n body s' r' = run_loop k body s' r'"
          using Suc.prems by (intro Suc.IH) (simp_all add: m)
        then show ?thesis using Pair Inr \<open>y = Inr z\<close> by (simp add: m run_bind_def)
      qed
    qed
  qed
qed simp

section \<open>The current status\<close>

lemma cur_arrive [simp]: "rn_cur (arrive x r) = rn_cur r"
  by (simp add: arrive_def Let_def split: prod.splits)

lemma cur_save: "save_status x resume s r = (y, r') \<Longrightarrow> rn_cur r' = rn_cur r"
  by (auto simp: save_status_def Let_def split: save_outcome.splits)

lemma cur_ask_res: "ask_res x f r = (y, r') \<Longrightarrow> rn_cur r' = rn_cur r"
  by (auto simp: ask_res_def)

lemma cur_emit_for: "emit_for x event step attempt worker s r = (y, r') \<Longrightarrow> rn_cur r' = rn_cur r"
  by (auto simp: emit_for_def run_bind_def note_entry_def dest!: cur_ask_res split: prod.splits sum.splits)

text \<open>Saving a copy and announcing it: the shape of \<open>block\<close> and of \<open>finish\<close>.\<close>

lemma announce_result:
  assumes "run_bind (save_status x False s) (\<lambda>_. run_bind (emit_for x event None None None s) (\<lambda>_. run_return s)) r = (y, r')"
  shows "rn_cur r' = rn_cur r" "y = Inr s' \<Longrightarrow> s' = s"
proof -
  obtain u a where u: "save_status x False s r = (u, a)" by fastforce
  obtain v b where v: "emit_for x event None None None s a = (v, b)" by fastforce
  have "r' = a \<or> r' = b"
    using assms u v by (auto simp: run_bind_def run_return_def split: sum.splits)
  then show "rn_cur r' = rn_cur r"
    using cur_save[OF u] cur_emit_for[OF v] by auto
  show "y = Inr s' \<Longrightarrow> s' = s"
    using assms u v by (auto simp: run_bind_def run_return_def split: sum.splits)
qed

lemma block_result:
  assumes "block x s f why r = (y, r')"
  shows "rn_cur r' = rn_cur r" "y = Inr s' \<Longrightarrow> cs_steps s' = cs_steps s \<and> cs_state s' = blocked_state f"
  using announce_result[OF assms[unfolded block_def run_bind_def[of "ask x oc_now"] ask_def, simplified, unfolded Let_def]]
  by auto

lemma finish_result:
  assumes "finish x s f r = (y, r')"
  shows "rn_cur r' = rn_cur r" "y = Inr s' \<Longrightarrow> cs_steps s' = cs_steps s \<and> cs_state s' \<in> {CExpired, CCancelled, cs_state s}"
  using announce_result[OF assms[unfolded finish_def run_bind_def[of "ask x oc_now"] ask_def, simplified, unfolded Let_def]]
  by (auto split: failure.splits)

section \<open>Relations that every operation keeps\<close>

text \<open>An update of the current status that leaves the steps and does not complete the campaign.\<close>

definition benign :: "campaign_status \<Rightarrow> campaign_status \<Rightarrow> bool" where
  "benign s s' \<longleftrightarrow> cs_steps s' = cs_steps s \<and> (cs_state s' = CCompleted \<longrightarrow> cs_state s = CCompleted)"

locale run_frame =
  fixes R :: "runner \<Rightarrow> runner \<Rightarrow> bool" and P :: "entry \<Rightarrow> bool" and x :: runner_context
  assumes same: "R r r"
    and chain: "R r r' \<Longrightarrow> R r' r'' \<Longrightarrow> R r r''"
    and arrives: "R r (arrive x r)"
    and saves: "R r (r\<lparr>rn_disk := Some (merge_runner_state resume (rn_disk r) s)\<rparr>)"
    and logs_entry: "P e \<Longrightarrow> R r (r\<lparr>rn_log := rn_log r @ [e]\<rparr>)"
    and events: "P (Event event step attempt worker state)"
    and benign_cur: "benign (rn_cur r) s' \<Longrightarrow> R r (r\<lparr>rn_cur := s'\<rparr>)"
begin

lemma keeps_return [run_rules]: "keeps R (run_return v)"
  by (simp add: keeps_def run_return_def same)

lemma ensures_return [run_rules]: "Q v \<Longrightarrow> ensures R Q (run_return v)"
  by (simp add: ensures_def run_return_def same)

lemma keeps_fail [run_rules]: "keeps R (run_fail e)" "ensures R Q (run_fail e)"
  by (simp_all add: keeps_def ensures_def run_fail_def same)

lemma keeps_lift [run_rules]: "keeps R (run_lift y)"
  by (simp add: keeps_def run_lift_def same)

lemma ensures_lift: "(\<And>v. y = Inr v \<Longrightarrow> Q v) \<Longrightarrow> ensures R Q (run_lift y)"
  by (simp add: ensures_def run_lift_def same)

lemma ensures_bind: "ensures R Q m \<Longrightarrow> (\<And>v. Q v \<Longrightarrow> ensures R Q' (f v)) \<Longrightarrow> ensures R Q' (run_bind m f)"
proof (rule ensuresI)
  fix r assume m: "ensures R Q m" and f: "\<And>v. Q v \<Longrightarrow> ensures R Q' (f v)"
  show "R r (snd (run_bind m f r))"
  proof (cases "m r")
    case (Pair y r')
    then show ?thesis
      using chain[OF _ ensuresD(1)[OF f]] ensuresD[OF m, of r] by (cases y) (auto simp: run_bind_def)
  qed
next
  fix r v assume m: "ensures R Q m" and f: "\<And>v. Q v \<Longrightarrow> ensures R Q' (f v)" and v: "fst (run_bind m f r) = Inr v"
  show "Q' v"
  proof (cases "m r")
    case (Pair y r')
    then show ?thesis
      using v ensuresD(2)[OF f] ensuresD(2)[OF m, of r] by (cases y) (auto simp: run_bind_def)
  qed
qed

lemma then_ensures [run_rules]: "keeps R m \<Longrightarrow> (\<And>v. ensures R Q (f v)) \<Longrightarrow> ensures R Q (run_bind m f)"
  unfolding ensures_keeps by (rule ensures_bind)

lemma then_keeps [run_rules]: "keeps R m \<Longrightarrow> (\<And>v. keeps R (f v)) \<Longrightarrow> keeps R (run_bind m f)"
  unfolding ensures_keeps by (rule ensures_bind)

lemma lift_keeps: "(\<And>v. y = Inr v \<Longrightarrow> keeps R (f v)) \<Longrightarrow> keeps R (run_bind (run_lift y) f)"
  by (cases y) (auto simp: keeps_def run_bind_def run_lift_def same)

lemma lift_ensures: "(\<And>v. y = Inr v \<Longrightarrow> ensures R Q (f v)) \<Longrightarrow> ensures R Q (run_bind (run_lift y) f)"
  by (cases y) (auto simp: ensures_def run_bind_def run_lift_def same)

lemma keeps_try [run_rules]: "keeps R m \<Longrightarrow> keeps R (run_try m)"
  by (simp add: keeps_def run_try_def case_prod_beta)

lemma ensures_try: "ensures R Q m \<Longrightarrow> ensures R (\<lambda>y. \<forall>v. y = Inr v \<longrightarrow> Q v) (run_try m)"
  by (simp add: ensures_def run_try_def case_prod_beta)

lemma keeps_loop [run_rules]: "(\<And>s. keeps R (body s)) \<Longrightarrow> keeps R (run_loop n body s)"
  by (induction n arbitrary: s) (auto intro: run_rules)

lemma keeps_ask [run_rules]: "keeps R (ask x f)"
  by (simp add: keeps_def ask_def arrives)

lemma keeps_ask_res [run_rules]: "keeps R (ask_res x f)"
  by (simp add: keeps_def ask_res_def arrives)

lemma keeps_note [run_rules]: "P e \<Longrightarrow> keeps R (note_entry e)"
  by (simp add: keeps_def note_entry_def logs_entry)

lemma keeps_cur [run_rules]: "keeps R cur"
  by (simp add: keeps_def cur_def same)

lemma keeps_upd [run_rules]: "(\<And>s. benign s (f s)) \<Longrightarrow> keeps R (upd_cur f)"
  by (simp add: keeps_def upd_cur_def benign_cur)

lemma keeps_load [run_rules]: "keeps R (load_state x)"
  using arrives by (auto simp: keeps_def load_state_def ask_res_def split: sum.splits)

lemma keeps_save [run_rules]: "keeps R (save_status x resume s)"
  using arrives chain[OF arrives saves]
  by (auto simp: keeps_def save_status_def Let_def split: save_outcome.splits)

lemma keeps_save_cur [run_rules]: "keeps R (save_cur x)"
  unfolding save_cur_def by (intro run_rules)

lemma keeps_emit_for [run_rules]: "keeps R (emit_for x event step attempt worker s)"
  unfolding emit_for_def by (intro run_rules events)

lemma keeps_emit [run_rules]: "keeps R (emit x event step attempt worker)"
  unfolding emit_def by (intro run_rules)

lemma keeps_refresh [run_rules]: "keeps R (refresh_budget x)"
  unfolding refresh_budget_def by (intro run_rules) (simp add: benign_def budget_with_def)

lemma keeps_heartbeat [run_rules]: "keeps R (heartbeat_now x)"
  unfolding heartbeat_now_def by (intro run_rules) (simp add: benign_def budget_with_def)

lemma keeps_block [run_rules]: "keeps R (block x s f why)"
  unfolding block_def Let_def by (intro run_rules)

lemma keeps_finish [run_rules]: "keeps R (finish x s f)"
  unfolding finish_def Let_def by (intro run_rules)

lemma keeps_in_place:
  assumes m: "\<And>s. keeps R (m s)"
    and r: "\<And>s r y r'. m s r = (y, r') \<Longrightarrow> rn_cur r' = rn_cur r \<and> (\<forall>s'. y = Inr s' \<longrightarrow> benign s s')"
  shows "keeps R (run_bind cur (\<lambda>s. run_bind (m s) set_cur))"
  unfolding keeps_def
proof
  fix r
  obtain y r' where y: "m (rn_cur r) r = (y, r')" by fastforce
  have "R r r'" using m[of "rn_cur r"] y by (auto simp: keeps_def dest: spec[of _ r])
  moreover have "benign (rn_cur r') s' \<Longrightarrow> R r r' \<Longrightarrow> R r (r'\<lparr>rn_cur := s'\<rparr>)" for s'
    using chain benign_cur by blast
  ultimately show "R r (snd (run_bind cur (\<lambda>s. run_bind (m s) set_cur) r))"
    using r[OF y] y by (cases y) (auto simp: run_bind_def cur_def set_cur_def)
qed

lemma keeps_block_in_place [run_rules]: "keeps R (block_in_place x f why)"
  unfolding block_in_place_def
  by (rule keeps_in_place[OF keeps_block])
    (auto dest: block_result simp: benign_def blocked_state_def split: failure.splits)

lemma keeps_finish_in_place [run_rules]: "keeps R (finish_in_place x f)"
  unfolding finish_in_place_def
  by (rule keeps_in_place[OF keeps_finish]) (auto dest: finish_result simp: benign_def)

lemma keeps_take_flags [run_rules]: "keeps R (take_flags x)"
  unfolding take_flags_def by (intro run_rules) (simp add: benign_def)

lemma keeps_checkpoint [run_rules]: "keeps R (checkpoint x step)"
  unfolding checkpoint_def by (intro run_rules) (simp_all add: benign_def)

lemma keeps_recovery_checkpoint [run_rules]: "keeps R (recovery_checkpoint x)"
  unfolding recovery_checkpoint_def by (intro run_rules) (simp_all add: benign_def)

lemma keeps_snapshot [run_rules]: "keeps R (snapshot_checked x)"
  unfolding snapshot_checked_def by (intro run_rules)

lemma keeps_set_action [run_rules]: "keeps R (set_action a)"
  unfolding set_action_def by (intro run_rules) (simp add: benign_def)

lemma keeps_missing [run_rules]: "keeps R (missing_artifacts x as)"
  by (induction as) (auto intro!: run_rules)

lemma keeps_block_and_stop [run_rules]: "keeps R (block_and_stop x f why)"
  unfolding block_and_stop_def by (intro run_rules)

lemma keeps_review_wait [run_rules]: "keeps R (review_wait x step worker n attempts e)"
  unfolding review_wait_def by (intro run_rules) (simp_all add: benign_def)

lemma keeps_transient [run_rules]: "keeps R (recover_after_transient x step worker attempts started e)"
  unfolding recover_after_transient_def Let_def by (intro run_rules) (simp_all add: benign_def)

lemma keeps_health_turn [run_rules]: "keeps R (health_turn x worker started attempts)"
  unfolding health_turn_def Let_def by (intro run_rules) (simp_all add: benign_def)

lemma keeps_worker_health [run_rules]: "keeps R (recover_worker_health x)"
  unfolding recover_worker_health_def Let_def by (intro run_rules)

lemma keeps_preflight [run_rules]: "keeps R (preflight_live x)"
  unfolding preflight_live_def by (intro run_rules)

lemma keeps_effective [run_rules]: "keeps R (effective_steps x)"
  unfolding effective_steps_def by (intro run_rules) (simp add: keeps_def same)

lemma keeps_require [run_rules]: "keeps R (require_state x)"
  unfolding require_state_def by (intro run_rules)

lemma keeps_resumable [run_rules]: "keeps R (resumable s)"
  unfolding resumable_def by (intro run_rules)

lemma keeps_clear_lease [run_rules]: "keeps R (clear_active_lease x y)"
  unfolding clear_active_lease_def by (intro run_rules) (simp_all add: benign_def)

end

section \<open>A step\<close>

text \<open>The actions on behalf of a step: what the log may record for it.\<close>

definition authorized :: "campaign_step \<Rightarrow> git_evidence \<Rightarrow> bool" where
  "authorized step g \<longleftrightarrow> assert_authorized_paths (source_paths (ge_changed g)) (st_allowed step) = Inr ()"

text \<open>Whatever the coordinator does not refuse for good has changed allowed paths only.\<close>

lemma review_authorized:
  "rv_disposition (review_attempt i) \<noteq> RejectedTerminal \<Longrightarrow> authorized (in_step i) (in_evidence i)"
  by (auto simp: review_attempt_def authorized_def terminal_review_def Let_def split: if_splits sum.splits)

lemma review_of_authorized: "rv_disposition (review_of step g ok missing i) \<noteq> RejectedTerminal \<Longrightarrow> authorized step g"
  using review_authorized[of "\<lparr>in_step = step, in_evidence = g, in_succeeded = ok, in_missing = missing,
       in_output = Some (ir_output i), in_protocol_error = ir_protocol_error i, in_worker_error = ir_worker_error i,
       in_tool_calls = length (ir_tool_calls i), in_host_shell = ir_host_shell i\<rparr>"]
  by (simp add: review_of_def)

lemma review_of_accepted: "rv_disposition (review_of step g ok missing i) = Accepted \<Longrightarrow> authorized step g"
  using review_of_authorized[of step g ok missing i] by simp

lemma select_attempt_less:
  "select_attempt p m = Some (kind, worker, repair_of, fallback_of, m') \<Longrightarrow> turns_left m' < turns_left m"
  by (auto simp: select_attempt_def turns_left_def split: if_splits)

locale step_frame = run_frame +
  fixes step :: campaign_step
  assumes implement_ok:
      "t \<le> st_timeout step \<Longrightarrow> P (Implement w (st_allowed step) t (st_network step = ''disabled'') worker)"
    and command_ok: "argv \<in> set (st_commands step) \<Longrightarrow> t \<le> st_timeout step \<Longrightarrow> P (RunCommand argv t)"
    and review_ok: "P (Review (st_id step) t)"
    and diagnose_ok: "P (Diagnose (st_id step))"
    and reset_ok: "assert_authorized_paths (source_paths ps) (st_allowed step) = Inr () \<Longrightarrow> P (Reset ps)"
    and commit_ok: "assert_authorized_paths ps (st_allowed step) = Inr () \<Longrightarrow> P (Commit (st_id step) ps)"
begin

lemma keeps_commands:
  "set argvs \<subseteq> set (st_commands step) \<Longrightarrow> t \<le> st_timeout step \<Longrightarrow> keeps R (run_commands x t argvs cs ok)"
proof (induction argvs arbitrary: cs ok)
  case (Cons argv rest)
  have lift: "ensures R (\<lambda>v. v = argv) (run_lift (acceptance_command argv))"
    by (rule ensures_lift) (auto simp: acceptance_command_def split: if_splits)
  show ?case
    unfolding run_commands.simps ensures_keeps
    apply (rule ensures_bind[OF lift])
    unfolding ensures_keeps[symmetric]
    using Cons by (intro run_rules Cons.IH) (auto intro: command_ok)
qed (simp add: keeps_return)

lemma action_timeout_le: "action_timeout s step \<le> st_timeout step"
  by (simp add: action_timeout_def)

lemma keeps_acceptance [run_rules]: "keeps R (run_acceptance x step)"
  unfolding run_acceptance_def by (intro run_rules keeps_commands action_timeout_le) simp_all

lemma keeps_review_turn [run_rules]: "keeps R (review_turn x step worker n t reviewer attempts)"
  unfolding review_turn_def Let_def by (intro run_rules review_ok)

lemma keeps_retries [run_rules]: "keeps R (review_with_retries x step worker n reviewer)"
  unfolding review_with_retries_def by (intro run_rules)

lemma keeps_request [run_rules]: "t \<le> st_timeout step \<Longrightarrow> keeps R (request_model x step n worker w t started)"
  unfolding request_model_def request_turn_def Let_def by (intro run_rules implement_ok)

lemma keeps_accept_implementation [run_rules]: "keeps R (accept_implementation x step a i g)"
  unfolding accept_implementation_def by (intro run_rules)

lemma keeps_plan_retry [run_rules]: "keeps R (plan_retry_from_failure x step n worker v g commands i p k b)"
  unfolding plan_retry_from_failure_def Let_def by (intro run_rules diagnose_ok)

lemma ensures_reviewed:
  "ensures R (\<lambda>v. rv_disposition v \<noteq> RejectedTerminal \<longrightarrow> rv_disposition v0 \<noteq> RejectedTerminal) (reviewed x step worker n v0)"
  unfolding reviewed_def prod.case by (cases "rv_disposition v0"; cases "oc_review (rx_outcomes x)"; simp; intro run_rules; simp)

lemma ensures_review_turn_result:
  "ensures R (\<lambda>(v, traced, m'). turns_left m' = turns_left m \<and> (rv_disposition v \<noteq> RejectedTerminal \<longrightarrow> authorized step g))
     (review_turn_result x step a i g acc m)"
proof -
  obtain commands missing ok where acc: "acc = (commands, missing, ok)" by (cases acc) auto
  have plan: "ensures R (\<lambda>(v', traced, m'). turns_left m' = turns_left m1 \<and>
       (rv_disposition v' \<noteq> RejectedTerminal \<longrightarrow> rv_disposition v \<noteq> RejectedTerminal))
     (if rv_disposition v = RejectedRetryable
      then run_bind (plan_retry_from_failure x step (at_number a) (at_worker a) v g commands i (ts_fingerprint m1)
             (ts_repeated m1) (ts_fallback m1)) (\<lambda>p. run_return (rp_review p, rp_traced p,
               m1\<lparr>ts_instruction := rv_repair (rp_review p), ts_prefer_fallback := rp_prefer_fallback p,
                 ts_fingerprint := Some (rp_fingerprint p), ts_repeated := rp_repeated p\<rparr>))
      else run_return (v, False, m1))" for v m1
    by (intro run_rules) (simp_all add: turns_left_def)
  show ?thesis
    unfolding review_turn_result_def acc prod.case Let_def
    apply (rule ensures_bind[OF ensures_reviewed])
    apply (rule ensures_bind[OF plan])
    apply (rule ensures_prod)+
    apply (rule ensures_return)
    apply (auto simp: turns_left_def dest: review_of_authorized review_of_accepted split: if_splits)
    done
qed

lemma keeps_reset_rejected: "authorized step g \<Longrightarrow> keeps R (reset_rejected_attempt x step n g)"
  unfolding reset_rejected_attempt_def reset_worktree_def authorized_def by (intro run_rules reset_ok)

lemma keeps_commit_accepted_tail:
  "authorized step g \<Longrightarrow> keeps R (note_entry (Commit (st_id step) (source_paths (ge_changed g))))"
  unfolding authorized_def by (intro run_rules commit_ok)

end

section \<open>A step with its records\<close>

locale record_frame = step_frame +
  assumes persists: "keeps R (persist_attempt x step a v commit)"
    and accepts: "keeps R (mark_step_accepted x (st_id step) commit)"
begin

lemma keeps_verification: "keeps R (execute_verification x step)"
  unfolding execute_verification_def Let_def by (intro run_rules persists accepts) (simp add: benign_def)

lemma keeps_partial: "keeps R (persist_partial_failure x step a f)"
  unfolding persist_partial_failure_def Let_def by (intro run_rules persists)

lemma keeps_commit_accepted: "keeps R (commit_accepted x step a i v)"
  unfolding commit_accepted_def Let_def
  by (intro run_rules persists keeps_commit_accepted_tail)
    (simp_all add: benign_def review_of_authorized[where ok = True and missing = "[]" and i = i])

lemma ensures_settle:
  assumes "rv_disposition v \<noteq> RejectedTerminal \<Longrightarrow> authorized step g"
  shows "ensures R (\<lambda>y. \<forall>m'. y = Inr m' \<longrightarrow> m' = m) (settle_attempt x step a i g v traced m)"
  unfolding settle_attempt_def Let_def
  apply (rule then_ensures)
   apply (intro run_rules keeps_commit_accepted)
  apply (rule ensures_option)
   apply (rule ensures_return, simp)
  apply (intro run_rules persists accepts keeps_reset_rejected assms; simp)
  done

lemma ensures_review_settle:
  assumes "turns_left m = k"
  shows "ensures R (\<lambda>y. \<forall>m'. y = Inr m' \<longrightarrow> turns_left m' = k)
     (run_bind (review_turn_result x step a i g acc m) (\<lambda>(v, traced, m). settle_attempt x step a i g v traced m))"
  apply (rule ensures_bind[OF ensures_review_turn_result])
  apply (rule ensures_prod)+
  apply (rule ensures_weaken[OF ensures_settle])
   apply (use assms in auto)
  done

lemma ensures_attempt:
  "ensures R (\<lambda>y. \<forall>m'. y = Inr m' \<longrightarrow> turns_left m' = turns_left m)
     (execute_attempt x step kind worker repair_of fallback_of m)"
  unfolding execute_attempt_def Let_def
  by (intro ensures_review_settle run_rules keeps_request action_timeout_le keeps_partial)
    (simp_all add: benign_def turns_left_def)

lemma ensures_turn:
  "ensures R (\<lambda>y. \<forall>m'. y = Inr m' \<longrightarrow> turns_left m' < turns_left m) (implementation_turn x step m)"
  unfolding implementation_turn_def Let_def
  apply (intro run_rules; simp?)
  apply (drule select_attempt_less)
  apply (rule ensures_weaken, rule ensures_attempt)
  apply simp
  done

lemma keeps_implementation: "keeps R (execute_implementation x step)"
  unfolding execute_implementation_def Let_def
  by (intro run_rules ensures_imp_keeps[OF ensures_turn])

lemma keeps_step: "keeps R (execute_step x step)"
  unfolding execute_step_def using keeps_implementation keeps_verification by (cases "st_kind step") simp_all

end

section \<open>A campaign\<close>

context run_frame begin

text \<open>The walk keeps a relation that completing and each of its steps keep.\<close>

lemma keeps_walk:
  assumes complete: "keeps R (complete_campaign x)"
  shows "(\<And>step. step \<in> set steps \<Longrightarrow> keeps R (execute_step x step)) \<Longrightarrow> keeps R (walk_steps x steps)"
proof (induction steps)
  case Nil
  then show ?case by (simp add: complete)
next
  case (Cons step rest)
  have rest: "keeps R (walk_steps x rest)" by (rule Cons.IH) (simp add: Cons.prems)
  have step: "keeps R (execute_step x step)" by (rule Cons.prems) simp
  show ?case
    unfolding walk_steps.simps by (intro run_rules rest step) (simp_all add: benign_def)
qed

end

text \<open>A relation that leaves the current status alone.\<close>

locale any_frame = run_frame +
  assumes any_cur: "R r (r\<lparr>rn_cur := s\<rparr>)"
begin

lemma keeps_set_cur [run_rules]: "keeps R (set_cur s)"
  by (simp add: keeps_def set_cur_def any_cur)

lemma keeps_upd_any: "keeps R (upd_cur f)"
  by (simp add: keeps_def upd_cur_def any_cur)

lemma keeps_persist: "keeps R (persist_attempt x step a v commit)"
  unfolding persist_attempt_def by (intro keeps_upd_any run_rules)

lemma keeps_mark: "keeps R (mark_step_accepted x k commit)"
  unfolding mark_step_accepted_def by (intro keeps_upd_any run_rules)

lemma keeps_complete: "keeps R (complete_campaign x)"
  unfolding complete_campaign_def by (intro keeps_upd_any run_rules)

end

locale campaign_frame = any_frame +
  assumes recover_reset_ok: "can_reset_interrupted_worktree x s dirty = Inr True \<Longrightarrow> P (Reset dirty)"
    and walks: "validate_document (rx_world x) (rx_campaign x) = Inr () \<Longrightarrow>
        keeps R (run_bind (effective_steps x) (walk_steps x))"
begin

lemma keeps_recover_worktree [run_rules]: "keeps R (recover_worktree x)"
  unfolding recover_worktree_def Let_def reset_worktree_def
  by (intro lift_keeps run_rules recover_reset_ok) simp

lemma keeps_recover [run_rules]: "keeps R (recover_campaign x)"
  unfolding recover_campaign_def by (intro run_rules) (simp_all add: benign_def)

lemma ensures_preflight:
  "ensures R (\<lambda>_. validate_document (rx_world x) (rx_campaign x) = Inr ()) (preflight_live x)"
  unfolding preflight_live_def by (intro lift_ensures run_rules) simp

lemma keeps_preflighted:
  assumes "\<And>e. keeps R (a e)" "\<And>u. validate_document (rx_world x) (rx_campaign x) = Inr () \<Longrightarrow> keeps R (b u)"
  shows "keeps R (run_bind (run_try (preflight_live x)) (\<lambda>y. case y of Inl e \<Rightarrow> a e | Inr u \<Rightarrow> b u))"
  unfolding ensures_keeps
  by (rule ensures_bind[OF ensures_try[OF ensures_preflight]]) (use assms in \<open>auto simp: ensures_keeps split: sum.splits\<close>)

lemma keeps_recovered [run_rules]: "keeps R (run_recovered x)"
  unfolding run_recovered_def
  by (intro keeps_preflighted run_rules walks; simp add: benign_def)

lemma keeps_leased [run_rules]: "keeps R (run_with_lease x resume)"
  unfolding run_with_lease_def by (intro run_rules)

lemma keeps_run_internal: "keeps R (run_internal x resume)"
  unfolding run_internal_def by (intro run_rules) (simp_all add: benign_def)

lemma keeps_run: "keeps R (run_campaign x)"
  unfolding run_campaign_def by (rule keeps_run_internal)

lemma keeps_resume: "keeps R (resume_campaign x)"
  unfolding resume_campaign_def by (intro run_rules keeps_run_internal)

lemma keeps_supervisor_blocked: "keeps R (mark_supervisor_blocked x f why)"
  unfolding mark_supervisor_blocked_def by (intro run_rules)

lemma keeps_detach_failed: "keeps R (mark_detach_setup_failed x why)"
  unfolding mark_detach_setup_failed_def by (intro run_rules)

lemma keeps_start: "keeps R (start_campaign x)"
  unfolding start_campaign_def Let_def by (intro run_rules)

end

end
