(* ===== verification/Campaign_Progress.thy ===== *)
theory Campaign_Progress
  imports Campaign_Frame
begin

text \<open>
  Progress of a campaign: which steps its status records as accepted, how many attempts it records, and that
  the loops of the runner end by themselves.
\<close>

section \<open>Accepted steps\<close>

definition accepted_step :: "string \<Rightarrow> campaign_status \<Rightarrow> bool" where
  "accepted_step k s \<longleftrightarrow>
     (case find_step_index (cs_steps s) k of Inl e \<Rightarrow> False | Inr n \<Rightarrow> sr_disposition (cs_steps s ! n) = ''accepted'')"

lemma accepted_step_iff:
  "accepted_step k s \<longleftrightarrow> (\<exists>n. find_step_index (cs_steps s) k = Inr n \<and> sr_disposition (cs_steps s ! n) = ''accepted'')"
  by (auto simp: accepted_step_def split: sum.splits)

lemma find_step_Inr: "find_step_index xs k = Inr n \<Longrightarrow> n < length xs \<and> sr_id (xs ! n) = k"
  by (induction xs arbitrary: n) (auto simp: res_simps split: if_splits)

lemma find_step_update: "sr_id y = sr_id (xs ! n) \<Longrightarrow> find_step_index (xs[n := y]) k = find_step_index xs k"
proof (induction xs arbitrary: n)
  case (Cons x xs)
  then show ?case by (cases n) auto
qed simp

text \<open>Changing the record of step \<open>k\<close> leaves the others.\<close>

lemma accepted_other:
  assumes n: "find_step_index (cs_steps s) k = Inr n" and f: "\<And>y. sr_id (f y) = sr_id y" and j: "j \<noteq> k"
  shows "accepted_step j (upd_step n f s) = accepted_step j s"
proof (cases "find_step_index (cs_steps s) j")
  case (Inr m)
  then have "m \<noteq> n" using find_step_Inr[OF n] find_step_Inr[of "cs_steps s" j m] j by auto
  then show ?thesis by (simp add: accepted_step_def upd_step_def find_step_update f Inr)
qed (simp add: accepted_step_def upd_step_def find_step_update f)

lemma accepted_step_cong: "cs_steps s' = cs_steps s \<Longrightarrow> accepted_step j s' = accepted_step j s"
  by (simp add: accepted_step_def cong: sum.case_cong)

lemma upd_step_state [simp]: "cs_state (upd_step n f s) = cs_state s"
  by (simp add: upd_step_def)

definition progress_of :: "string \<Rightarrow> runner \<Rightarrow> runner \<Rightarrow> bool" where
  "progress_of k r r' \<longleftrightarrow> (\<forall>j. j \<noteq> k \<longrightarrow> accepted_step j (rn_cur r) \<longrightarrow> accepted_step j (rn_cur r')) \<and>
     (cs_state (rn_cur r') = CCompleted \<longrightarrow> cs_state (rn_cur r) = CCompleted)"

interpretation progress: run_frame "progress_of k" "\<lambda>_. True" x for k x
  by unfold_locales (auto simp: progress_of_def benign_def cong: accepted_step_cong)

interpretation progress: step_frame "progress_of k" "\<lambda>_. True" x step for k x step
  by unfold_locales simp_all

text \<open>A change of the step's own record, found in the current status.\<close>

lemma progress_upd:
  assumes f: "\<And>y. sr_id (f y) = sr_id y" and rest: "keeps (progress_of k) m"
  shows "keeps (progress_of k) (run_bind cur (\<lambda>s. run_bind (run_lift (find_step_index (cs_steps s) k)) (\<lambda>n.
    run_bind (upd_cur (upd_step n f)) (\<lambda>_. m))))"
  unfolding keeps_def
proof
  fix r
  show "progress_of k r (snd (run_bind cur (\<lambda>s. run_bind (run_lift (find_step_index (cs_steps s) k)) (\<lambda>n.
    run_bind (upd_cur (upd_step n f)) (\<lambda>_. m))) r))"
  proof (cases "find_step_index (cs_steps (rn_cur r)) k")
    case (Inl e)
    then show ?thesis by (simp add: run_bind_def cur_def run_lift_def progress.same)
  next
    case (Inr n)
    have "progress_of k r (r\<lparr>rn_cur := upd_step n f (rn_cur r)\<rparr>)"
      by (auto simp: progress_of_def accepted_other[OF Inr f])
    from progress.chain[OF this] rest show ?thesis
      by (simp add: run_bind_def cur_def run_lift_def upd_cur_def Inr keeps_def)
  qed
qed

lemma progress_persist: "keeps (progress_of (st_id step)) (persist_attempt x step a v commit)"
  unfolding persist_attempt_def
  by (intro progress_upd run_rules) (simp add: record_attempt_def)

lemma progress_mark: "keeps (progress_of k) (mark_step_accepted x k commit)"
  unfolding mark_step_accepted_def
  by (intro progress_upd run_rules) (simp_all add: benign_def)

interpretation progress: record_frame "progress_of (st_id step)" "\<lambda>_. True" x step for x step
  by unfold_locales (rule progress_persist progress_mark)+

section \<open>What a result says of the state\<close>

definition results :: "('a \<Rightarrow> runner \<Rightarrow> bool) \<Rightarrow> 'a run \<Rightarrow> bool" where
  "results Q m \<longleftrightarrow> (\<forall>r v r'. m r = (Inr v, r') \<longrightarrow> Q v r')"

lemma results_bind: "(\<And>v. results Q (f v)) \<Longrightarrow> results Q (run_bind m f)"
  by (auto simp: results_def run_bind_def split: prod.splits sum.splits)

lemma results_return: "(\<And>r. Q v r) \<Longrightarrow> results Q (run_return v)"
  by (simp add: results_def run_return_def)

lemma results_fail: "results Q (run_fail e)"
  by (simp add: results_def run_fail_def)

lemma results_if: "(b \<Longrightarrow> results Q m) \<Longrightarrow> (\<not> b \<Longrightarrow> results Q n) \<Longrightarrow> results Q (if b then m else n)"
  by simp

lemma results_option:
  "(x = None \<Longrightarrow> results Q a) \<Longrightarrow> (\<And>v. x = Some v \<Longrightarrow> results Q (b v)) \<Longrightarrow> results Q (case x of None \<Rightarrow> a | Some v \<Rightarrow> b v)"
  by (cases x) auto

lemma results_sum:
  "(\<And>e. x = Inl e \<Longrightarrow> results Q (a e)) \<Longrightarrow> (\<And>v. x = Inr v \<Longrightarrow> results Q (b v)) \<Longrightarrow>
     results Q (case x of Inl e \<Rightarrow> a e | Inr v \<Rightarrow> b v)"
  by (cases x) auto

lemma results_prod: "(\<And>a b. x = (a, b) \<Longrightarrow> results Q (f a b)) \<Longrightarrow> results Q (case x of (a, b) \<Rightarrow> f a b)"
  by (cases x) auto

lemma results_disposition:
  "results Q a \<Longrightarrow> results Q b \<Longrightarrow> results Q c \<Longrightarrow>
     results Q (case d of Accepted \<Rightarrow> a | RejectedRetryable \<Rightarrow> b | RejectedTerminal \<Rightarrow> c)"
  by (cases d) auto

lemmas result_rules = results_bind results_return results_fail results_if results_option results_sum results_prod
  results_disposition

text \<open>A loop returns what some turn of it returned.\<close>

lemma results_loop:
  assumes "\<And>s. results (\<lambda>y r. \<forall>v. y = Inl v \<longrightarrow> Q v r) (body s)"
  shows "results Q (run_loop n body s)"
proof (induction n arbitrary: s)
  case (Suc n)
  show ?case
    unfolding results_def
  proof (intro allI impI)
    fix r v r' assume run: "run_loop (Suc n) body s r = (Inr v, r')"
    obtain y r1 where y: "body s r = (y, r1)" by fastforce
    from run y obtain z where z: "y = Inr z" by (cases y) (auto simp: run_bind_def)
    show "Q v r'"
    proof (cases z)
      case (Inl w)
      then show ?thesis using run y z assms[of s] by (auto simp: run_bind_def run_return_def results_def)
    next
      case (Inr s')
      then show ?thesis using run y z Suc.IH[of s'] by (auto simp: run_bind_def results_def)
    qed
  qed
qed (simp add: results_fail)

text \<open>A step is reported as accepted after its record says so.\<close>

definition tells_accepted :: "string \<Rightarrow> step_outcome \<Rightarrow> runner \<Rightarrow> bool" where
  "tells_accepted k o1 r \<longleftrightarrow> (o1 = StepAccepted \<longrightarrow> accepted_step k (rn_cur r))"

lemma upd_step_accepted:
  assumes n: "find_step_index (cs_steps s) k = Inr n"
  shows "accepted_step k (upd_step n (\<lambda>y. y\<lparr>sr_disposition := ''accepted'', sr_commit := commit\<rparr>) s)"
  using find_step_Inr[OF n] n by (simp add: accepted_step_def upd_step_def find_step_update)

lemma mark_accepted:
  assumes "mark_step_accepted x k commit r = (Inr v, r')"
  shows "accepted_step k (rn_cur r')"
proof -
  from assms obtain n where n: "find_step_index (cs_steps (rn_cur r)) k = Inr n"
    by (cases "find_step_index (cs_steps (rn_cur r)) k") (auto simp: mark_step_accepted_def run_bind_def cur_def run_lift_def)
  let ?s = "upd_step n (\<lambda>y. y\<lparr>sr_disposition := ''accepted'', sr_commit := commit\<rparr>) (rn_cur r)"
  have "\<exists>t. rn_cur r' = ?s\<lparr>cs_progress := t\<rparr>"
    using assms by (auto simp: mark_step_accepted_def run_bind_def cur_def run_lift_def n upd_cur_def ask_def save_cur_def
        dest!: cur_save)
  then obtain t where "rn_cur r' = ?s\<lparr>cs_progress := t\<rparr>" ..
  then show ?thesis using upd_step_accepted[OF n] accepted_step_cong[of "rn_cur r'" ?s k] by simp
qed

lemma mark_tells:
  assumes "\<And>r. accepted_step k (rn_cur r) \<Longrightarrow> Q v r"
  shows "results Q (run_bind (mark_step_accepted x k commit) (\<lambda>_. run_return v))"
  using assms mark_accepted[of x k commit]
  by (auto simp: results_def run_bind_def run_return_def split: prod.splits sum.splits)

lemma block_and_stop_tells: "results (tells_accepted k) (block_and_stop x f why)"
  unfolding block_and_stop_def by (intro result_rules) (simp add: tells_accepted_def)

lemma verification_tells: "results (tells_accepted (st_id step)) (execute_verification x step)"
  unfolding execute_verification_def Let_def
  by (intro mark_tells block_and_stop_tells result_rules) (simp_all add: tells_accepted_def)

definition turn_tells :: "string \<Rightarrow> (step_outcome + turn_state) \<Rightarrow> runner \<Rightarrow> bool" where
  "turn_tells k y r \<longleftrightarrow> (\<forall>v. y = Inl v \<longrightarrow> tells_accepted k v r)"

lemma stop_turn_tells: "results (turn_tells k) (run_bind (block_and_stop x f why) (\<lambda>o1. run_return (Inl o1)))"
  using block_and_stop_tells[of k x f why]
  by (auto simp: results_def run_bind_def run_return_def turn_tells_def split: prod.splits sum.splits)

lemma settle_tells: "results (turn_tells (st_id step)) (settle_attempt x step a i g v traced m)"
  unfolding settle_attempt_def Let_def
  by (intro stop_turn_tells mark_tells result_rules) (simp_all add: turn_tells_def tells_accepted_def)

lemma attempt_tells: "results (turn_tells (st_id step)) (execute_attempt x step kind worker repair_of fallback_of m)"
  unfolding execute_attempt_def Let_def
  by (intro settle_tells result_rules) (simp_all add: turn_tells_def tells_accepted_def)

lemma implementation_tells: "results (tells_accepted (st_id step)) (execute_implementation x step)"
proof -
  have "results (turn_tells (st_id step)) (implementation_turn x step m)" for m
    unfolding implementation_turn_def Let_def
    by (intro stop_turn_tells attempt_tells result_rules) (simp_all add: turn_tells_def tells_accepted_def)
  then show ?thesis
    unfolding execute_implementation_def Let_def turn_tells_def[abs_def] by (rule results_loop)
qed

lemma step_tells: "results (tells_accepted (st_id step)) (execute_step x step)"
  unfolding execute_step_def using verification_tells implementation_tells by (cases "st_kind step") simp_all

section \<open>Completion\<close>

text \<open>\<open>m\<close> ends within the relation, or goes on with \<open>n\<close> in a state that satisfies \<open>A\<close>.\<close>

definition leads_to :: "(runner \<Rightarrow> runner \<Rightarrow> bool) \<Rightarrow> (runner \<Rightarrow> bool) \<Rightarrow> 'a run \<Rightarrow> 'a run \<Rightarrow> bool" where
  "leads_to R A n m \<longleftrightarrow>
     (\<forall>r y r'. m r = (y, r') \<longrightarrow> (\<exists>r1. R r r1 \<and> (r' = r1 \<or> A r1 \<and> n r1 = (y, r'))))"

context run_frame
begin

lemma leads_end: "keeps R m \<Longrightarrow> leads_to R A n m"
  unfolding leads_to_def keeps_def by (metis snd_conv)

lemma leads_bind:
  assumes m: "keeps R m" and f: "\<And>v. leads_to R A n (f v)"
  shows "leads_to R A n (run_bind m f)"
  unfolding leads_to_def
proof (intro allI impI)
  fix r y r' assume run: "run_bind m f r = (y, r')"
  obtain z r1 where z: "m r = (z, r1)" by fastforce
  have first: "R r r1" using m z unfolding keeps_def by (metis snd_conv)
  show "\<exists>r1. R r r1 \<and> (r' = r1 \<or> A r1 \<and> n r1 = (y, r'))"
  proof (cases z)
    case (Inl e)
    then show ?thesis using run z first by (auto simp: run_bind_def)
  next
    case (Inr v)
    then have "f v r1 = (y, r')" using run z by (simp add: run_bind_def)
    then show ?thesis using f[of v] chain[OF first] unfolding leads_to_def by blast
  qed
qed

end

lemma leads_if: "(b \<Longrightarrow> leads_to R A n m) \<Longrightarrow> (\<not> b \<Longrightarrow> leads_to R A n m') \<Longrightarrow> leads_to R A n (if b then m else m')"
  by simp

text \<open>The end of a step in the walk.\<close>

lemma step_leads:
  "leads_to (progress_of (st_id step)) (\<lambda>r. accepted_step (st_id step) (rn_cur r)) n
     (run_bind (run_try (execute_step x step)) (\<lambda>y.
        case y of
          Inr StepAccepted \<Rightarrow> run_bind cur (\<lambda>s. run_bind (emit x event step' (at s) (cs_worker s)) (\<lambda>_. n))
        | Inr StepStopped \<Rightarrow> run_return ()
        | Inl e \<Rightarrow> block_in_place x (f e) e))"
  (is "leads_to ?R ?A n ?m")
  unfolding leads_to_def
proof (intro allI impI)
  fix r y r' assume run: "?m r = (y, r')"
  obtain z r1 where z: "execute_step x step r = (z, r1)" by fastforce
  have first: "?R r r1" using progress.keeps_step[of step x] z unfolding keeps_def by (metis snd_conv)
  consider (err) e where "z = Inl e" | (acc) "z = Inr StepAccepted" | (stop) "z = Inr StepStopped"
    by (metis old.sum.exhaust step_outcome.exhaust)
  then show "\<exists>r1. ?R r r1 \<and> (r' = r1 \<or> ?A r1 \<and> n r1 = (y, r'))"
  proof cases
    case err
    then have "r' = snd (block_in_place x (f e) e r1)" using run z by (simp add: run_bind_def run_try_def)
    then show ?thesis
      using progress.chain[OF first] progress.keeps_block_in_place unfolding keeps_def by blast
  next
    case stop
    then show ?thesis using run z first by (auto simp: run_bind_def run_try_def run_return_def)
  next
    case acc
    obtain u r2 where u: "emit x event step' (at (rn_cur r1)) (cs_worker (rn_cur r1)) r1 = (u, r2)" by fastforce
    have "rn_cur r2 = rn_cur r1"
      using u by (auto simp: emit_def run_bind_def cur_def dest: cur_emit_for)
    moreover have "accepted_step (st_id step) (rn_cur r1)"
      using step_tells[of step x] z acc by (auto simp: results_def tells_accepted_def)
    ultimately have a: "?A r2" by simp
    have "?R r1 r2" using progress.keeps_emit u unfolding keeps_def by (metis snd_conv)
    from progress.chain[OF first this] have "?R r r2" .
    moreover have "r' = r2 \<or> n r2 = (y, r')"
      using run z acc u by (cases u) (simp_all add: run_bind_def run_try_def cur_def)
    ultimately show ?thesis using a by blast
  qed
qed

lemma walk_leads:
  assumes run: "walk_steps x (step # rest) r = (y, r')" and new: "\<not> accepted_step (st_id step) (rn_cur r)"
  shows "\<exists>r1. progress_of (st_id step) r r1 \<and>
    (r' = r1 \<or> accepted_step (st_id step) (rn_cur r1) \<and> walk_steps x rest r1 = (y, r'))"
proof (cases "find_step_index (cs_steps (rn_cur r)) (st_id step)")
  case (Inl e)
  then show ?thesis using run progress.same by (auto simp: run_bind_def cur_def run_lift_def)
next
  case (Inr n)
  have upd: "keeps (progress_of k) (upd_cur (\<lambda>s. s\<lparr>cs_step := Some (st_id step), cs_action := Some ''step_started''\<rparr>))" for k
    by (intro run_rules) (simp add: benign_def)
  from Inr new have "sr_disposition (cs_steps (rn_cur r) ! n) \<noteq> ''accepted''" by (simp add: accepted_step_def)
  then have "run_bind (checkpoint x step) (\<lambda>stop.
       if stop then run_return ()
       else
         run_bind (upd_cur (\<lambda>s. s\<lparr>cs_step := Some (st_id step), cs_action := Some ''step_started''\<rparr>)) (\<lambda>_.
         run_bind (save_cur x) (\<lambda>_.
         run_bind (emit x ''step_started'' (Some (st_id step)) None None) (\<lambda>_.
         run_bind (run_try (execute_step x step)) (\<lambda>y.
           case y of
             Inr StepAccepted \<Rightarrow>
               run_bind cur (\<lambda>s.
               run_bind (emit x ''step_accepted'' (Some (st_id step)) (Some (length (sr_attempts (cs_steps s ! n)))) (cs_worker s)) (\<lambda>_.
                 walk_steps x rest))
           | Inr StepStopped \<Rightarrow> run_return ()
           | Inl e \<Rightarrow> block_in_place x (if is_executor_error e then ExecutorUnavailable else ContinuityFailed) e))))) r = (y, r')"
    (is "?m r = _")
    using run Inr by (simp add: run_bind_def[of cur] cur_def run_bind_def[of "run_lift _"] run_lift_def)
  moreover have "leads_to (progress_of (st_id step)) (\<lambda>r. accepted_step (st_id step) (rn_cur r)) (walk_steps x rest) ?m"
    by (intro leads_if progress.leads_bind step_leads upd run_rules; rule progress.leads_end; intro run_rules)
  ultimately show ?thesis unfolding leads_to_def by blast
qed

definition same_steps :: "runner \<Rightarrow> runner \<Rightarrow> bool" where
  "same_steps r r' \<longleftrightarrow> cs_steps (rn_cur r') = cs_steps (rn_cur r)"

interpretation steady: run_frame same_steps "\<lambda>_. True" x for x
  by unfold_locales (auto simp: same_steps_def benign_def)

interpretation steady: step_frame same_steps "\<lambda>_. True" x step for x step
  by unfold_locales simp_all

lemma steady_complete: "keeps same_steps (complete_campaign x)"
proof -
  have upd: "keeps same_steps (upd_cur (\<lambda>s. s\<lparr>cs_state := CCompleted, cs_step := None, cs_action := Some ''completed'',
      cs_worker := None, cs_end := Some t\<rparr>))" for t
    by (simp add: keeps_def upd_cur_def same_steps_def)
  show ?thesis unfolding complete_campaign_def by (intro upd run_rules)
qed

lemma walk_completes:
  assumes "walk_steps x steps r = (y, r')" "cs_state (rn_cur r) \<noteq> CCompleted" "cs_state (rn_cur r') = CCompleted"
  shows "(\<forall>step \<in> set steps. accepted_step (st_id step) (rn_cur r')) \<and>
    (\<forall>j. accepted_step j (rn_cur r) \<longrightarrow> accepted_step j (rn_cur r'))"
  using assms
proof (induction steps arbitrary: r)
  case Nil
  have "cs_steps (rn_cur r') = cs_steps (rn_cur r)"
    using Nil.prems(1) steady_complete[of x] by (simp add: keeps_def same_steps_def) (metis snd_conv)
  from accepted_step_cong[OF this] show ?case by simp
next
  case (Cons step rest)
  show ?case
  proof (cases "accepted_step (st_id step) (rn_cur r)")
    case True
    from True obtain n where n: "find_step_index (cs_steps (rn_cur r)) (st_id step) = Inr n"
      "sr_disposition (cs_steps (rn_cur r) ! n) = ''accepted''" unfolding accepted_step_iff by blast
    have "walk_steps x rest r = (y, r')"
      using Cons.prems(1) n by (simp add: run_bind_def[of cur] cur_def run_bind_def[of "run_lift _"] run_lift_def)
    from Cons.IH[OF this Cons.prems(2,3)] True show ?thesis by simp
  next
    case False
    from walk_leads[OF Cons.prems(1) this] obtain r1 where r1: "progress_of (st_id step) r r1"
      and c: "r' = r1 \<or> accepted_step (st_id step) (rn_cur r1) \<and> walk_steps x rest r1 = (y, r')" by blast
    have s: "cs_state (rn_cur r1) \<noteq> CCompleted" using r1 Cons.prems(2) unfolding progress_of_def by blast
    with c Cons.prems(3) have a: "accepted_step (st_id step) (rn_cur r1)" and w: "walk_steps x rest r1 = (y, r')" by auto
    note rest = Cons.IH[OF w s Cons.prems(3)]
    have "accepted_step j (rn_cur r')" if j: "accepted_step j (rn_cur r)" for j
      using rest r1 j False unfolding progress_of_def by metis
    then show ?thesis using rest a by simp
  qed
qed

section \<open>The budget of attempts\<close>

definition same_total :: "runner \<Rightarrow> runner \<Rightarrow> bool" where
  "same_total r r' \<longleftrightarrow> total_attempts (rn_cur r') = total_attempts (rn_cur r)"

interpretation level: run_frame same_total "\<lambda>_. True" x for x
  by unfold_locales (auto simp: same_total_def benign_def total_attempts_def)

interpretation level: step_frame same_total "\<lambda>_. True" x step for x step
  by unfold_locales simp_all

text \<open>\<open>spends b m\<close>: \<open>m\<close> records at most one attempt, and at most \<open>b v\<close> when it returns \<open>v\<close>.\<close>

definition spends :: "('a \<Rightarrow> nat) \<Rightarrow> 'a run \<Rightarrow> bool" where
  "spends b m \<longleftrightarrow> (\<forall>r y r'. m r = (y, r') \<longrightarrow>
     total_attempts (rn_cur r') \<le> total_attempts (rn_cur r) + (case y of Inl e \<Rightarrow> 1 | Inr v \<Rightarrow> b v))"

lemma spends_steady: "keeps same_total m \<Longrightarrow> spends b m"
  unfolding spends_def keeps_def same_total_def by (metis le_add1 snd_conv)

text \<open>A value that used up the attempt is followed by what records none.\<close>

lemma spends_bind:
  assumes m: "spends b m" and f: "\<And>v. b v = 0 \<Longrightarrow> spends (\<lambda>_. 1) (f v)"
    and steady: "\<And>v. b v \<noteq> 0 \<Longrightarrow> keeps same_total (f v)" and one: "\<And>v. b v \<le> 1"
  shows "spends (\<lambda>_. 1) (run_bind m f)"
  unfolding spends_def
proof (intro allI impI)
  fix r y r' assume run: "run_bind m f r = (y, r')"
  obtain z r1 where z: "m r = (z, r1)" by fastforce
  show "total_attempts (rn_cur r') \<le> total_attempts (rn_cur r) + (case y of Inl e \<Rightarrow> 1 | Inr v \<Rightarrow> 1)"
  proof (cases z)
    case (Inl e)
    then show ?thesis using run z m by (fastforce simp: run_bind_def spends_def)
  next
    case (Inr v)
    then have fv: "f v r1 = (y, r')" using run z by (simp add: run_bind_def)
    have first: "total_attempts (rn_cur r1) \<le> total_attempts (rn_cur r) + b v"
      using m z Inr unfolding spends_def by fastforce
    have "total_attempts (rn_cur r') \<le> total_attempts (rn_cur r) + 1"
    proof (cases "b v = 0")
      case True
      have "total_attempts (rn_cur r') \<le> total_attempts (rn_cur r1) + (case y of Inl e \<Rightarrow> 1 | Inr v \<Rightarrow> 1)"
        using f[OF True] fv unfolding spends_def by blast
      then show ?thesis using first True by (cases y) auto
    next
      case False
      then have "total_attempts (rn_cur r') = total_attempts (rn_cur r1)"
        using steady[OF False] fv unfolding keeps_def same_total_def by (metis snd_conv)
      then show ?thesis using first one[of v] by simp
    qed
    then show ?thesis by (cases y) auto
  qed
qed

lemma spends_then:
  assumes m: "keeps same_total m" and f: "\<And>v. spends b (f v)"
  shows "spends b (run_bind m f)"
  unfolding spends_def
proof (intro allI impI)
  fix r y r' assume run: "run_bind m f r = (y, r')"
  obtain z r1 where z: "m r = (z, r1)" by fastforce
  have same: "total_attempts (rn_cur r1) = total_attempts (rn_cur r)"
    using m z unfolding keeps_def same_total_def by (metis snd_conv)
  show "total_attempts (rn_cur r') \<le> total_attempts (rn_cur r) + (case y of Inl e \<Rightarrow> 1 | Inr v \<Rightarrow> b v)"
  proof (cases z)
    case (Inl e)
    then show ?thesis using run z same by (auto simp: run_bind_def)
  next
    case (Inr v)
    then have "f v r1 = (y, r')" using run z by (simp add: run_bind_def)
    then show ?thesis using f[of v] same unfolding spends_def by fastforce
  qed
qed

text \<open>The records of a step: an attempt adds one, an acceptance none.\<close>

lemma total_upd_step:
  assumes "n < length (cs_steps s)"
  shows "total_attempts (upd_step n f s) + length (sr_attempts (cs_steps s ! n)) =
    total_attempts s + length (sr_attempts (f (cs_steps s ! n)))"
proof -
  let ?l = "map (\<lambda>x. length (sr_attempts x)) (cs_steps s)"
  have "?l ! n \<le> sum_list ?l" using assms by (intro member_le_sum_list) auto
  then show ?thesis using assms by (simp add: total_attempts_def upd_step_def map_update sum_list_update)
qed

lemma own_record_total:
  assumes f: "\<And>y. length (sr_attempts (f y)) = length (sr_attempts y) + b" and m: "keeps same_total m"
  shows "total_attempts (rn_cur (snd (run_bind cur (\<lambda>s. run_bind (run_lift (find_step_index (cs_steps s) k)) (\<lambda>n.
    run_bind (upd_cur (upd_step n f)) (\<lambda>_. m))) r))) \<in> {total_attempts (rn_cur r), total_attempts (rn_cur r) + b}"
proof (cases "find_step_index (cs_steps (rn_cur r)) k")
  case (Inl e)
  then show ?thesis by (simp add: run_bind_def cur_def run_lift_def)
next
  case (Inr n)
  from find_step_Inr[OF this] have n: "n < length (cs_steps (rn_cur r))" by simp
  from total_upd_step[OF n, of f] f have "total_attempts (upd_step n f (rn_cur r)) = total_attempts (rn_cur r) + b" by simp
  then show ?thesis
    using m by (simp add: run_bind_def cur_def run_lift_def upd_cur_def Inr keeps_def same_total_def)
qed

lemma own_record_spends:
  assumes "\<And>y. length (sr_attempts (f y)) = length (sr_attempts y) + 1" "keeps same_total m"
  shows "spends (\<lambda>_. 1) (run_bind cur (\<lambda>s. run_bind (run_lift (find_step_index (cs_steps s) k)) (\<lambda>n.
    run_bind (upd_cur (upd_step n f)) (\<lambda>_. m))))"
  unfolding spends_def
proof (intro allI impI)
  fix r y r'
  assume "run_bind cur (\<lambda>s. run_bind (run_lift (find_step_index (cs_steps s) k)) (\<lambda>n.
    run_bind (upd_cur (upd_step n f)) (\<lambda>_. m))) r = (y, r')"
  with own_record_total[OF assms, of k r]
  show "total_attempts (rn_cur r') \<le> total_attempts (rn_cur r) + (case y of Inl e \<Rightarrow> 1 | Inr v \<Rightarrow> 1)"
    by (cases y) auto
qed

lemma own_record_level:
  assumes "\<And>y. length (sr_attempts (f y)) = length (sr_attempts y)" "keeps same_total m"
  shows "keeps same_total (run_bind cur (\<lambda>s. run_bind (run_lift (find_step_index (cs_steps s) k)) (\<lambda>n.
    run_bind (upd_cur (upd_step n f)) (\<lambda>_. m))))"
  using own_record_total[of f 0 m k] assms by (simp add: keeps_def same_total_def)

lemma persist_spends: "spends (\<lambda>_. 1) (persist_attempt x step a v commit)"
  unfolding persist_attempt_def
  by (intro own_record_spends spends_then run_rules) (simp_all add: record_attempt_def)

lemma mark_level: "keeps same_total (mark_step_accepted x k commit)"
  unfolding mark_step_accepted_def by (intro own_record_level run_rules) (simp_all add: benign_def)

text \<open>An attempt that is followed by what records none.\<close>

lemma spends_last: "spends (\<lambda>_. 1) m \<Longrightarrow> (\<And>v. keeps same_total (f v)) \<Longrightarrow> spends (\<lambda>_. 1) (run_bind m f)"
  by (rule spends_bind[where b = "\<lambda>_. 1"]) auto

lemma spends_if: "(b \<Longrightarrow> spends d m) \<Longrightarrow> (\<not> b \<Longrightarrow> spends d n) \<Longrightarrow> spends d (if b then m else n)"
  by simp

lemma spends_option:
  "(y = None \<Longrightarrow> spends d a) \<Longrightarrow> (\<And>v. y = Some v \<Longrightarrow> spends d (b v)) \<Longrightarrow> spends d (case y of None \<Rightarrow> a | Some v \<Rightarrow> b v)"
  by (cases y) auto

lemma spends_sum:
  "(\<And>e. y = Inl e \<Longrightarrow> spends d (a e)) \<Longrightarrow> (\<And>v. y = Inr v \<Longrightarrow> spends d (b v)) \<Longrightarrow>
     spends d (case y of Inl e \<Rightarrow> a e | Inr v \<Rightarrow> b v)"
  by (cases y) auto

lemma spends_prod: "(\<And>a b. y = (a, b) \<Longrightarrow> spends d (f a b)) \<Longrightarrow> spends d (case y of (a, b) \<Rightarrow> f a b)"
  by (cases y) auto

lemma spends_disposition:
  "spends b m1 \<Longrightarrow> spends b m2 \<Longrightarrow> spends b m3 \<Longrightarrow>
     spends b (case d of Accepted \<Rightarrow> m1 | RejectedRetryable \<Rightarrow> m2 | RejectedTerminal \<Rightarrow> m3)"
  by (cases d) auto

lemmas spend_rules = spends_if spends_option spends_sum spends_prod spends_disposition

lemma verification_spends: "spends (\<lambda>_. 1) (execute_verification x step)"
  unfolding execute_verification_def Let_def
  by (intro spends_last[OF persist_spends] spends_then spend_rules mark_level run_rules spends_steady)
    (simp_all add: benign_def)

lemma partial_spends: "spends (\<lambda>_. 1) (persist_partial_failure x step a f)"
  unfolding persist_partial_failure_def Let_def by (intro persist_spends spends_then spend_rules run_rules)

text \<open>The commit records an attempt only when it stops.\<close>

lemma commit_spends: "spends (\<lambda>c. if c = None then 1 else 0) (commit_accepted x step a i v)"
proof -
  have none: "spends (\<lambda>c. if c = None then 1 else 0) m"
    if "spends (\<lambda>_. 1) m" "results (\<lambda>v r. v = None) m" for m :: "string option run"
    using that unfolding spends_def results_def by (fastforce split: sum.splits)
  have stop: "spends (\<lambda>c. if c = None then 1 else 0) (run_bind (persist_attempt x step a w None) (\<lambda>_. run_return (None :: string option)))" for w
    by (intro none spends_last[OF persist_spends] result_rules run_rules refl)
  have block: "spends (\<lambda>c. if c = None then 1 else 0)
      (run_bind (persist_attempt x step a w None) (\<lambda>_. run_bind (block_in_place x f why) (\<lambda>_. run_return (None :: string option))))" for w f why
    by (intro none spends_last[OF persist_spends] result_rules run_rules refl)
  show ?thesis
    unfolding commit_accepted_def Let_def
    by (intro stop block spends_then spend_rules run_rules spends_steady)
      (simp_all add: benign_def)
qed

lemma spends_map: "spends b m \<Longrightarrow> (\<And>v. c (g v) = b v) \<Longrightarrow> spends c (run_bind m (\<lambda>v. run_return (g v)))"
  by (fastforce simp: spends_def run_bind_def run_return_def split: prod.splits sum.splits)

lemma settle_spends: "spends (\<lambda>_. 1) (settle_attempt x step a i g v traced m)"
proof -
  have commit: "spends (\<lambda>c. if c = None then 1 else 0)
     (if rv_disposition v = Accepted
      then run_bind (commit_accepted x step a i v) (\<lambda>c. run_return (map_option Some c)) else run_return (Some None))"
    by (intro spends_if spends_map[OF commit_spends] spends_steady run_rules) simp_all
  have reset: "keeps same_total (reset_rejected_attempt x step n g)" for n
    unfolding reset_rejected_attempt_def reset_worktree_def by (intro run_rules) simp
  show ?thesis
    unfolding settle_attempt_def Let_def
    apply (rule spends_bind[OF commit])
      apply (intro spends_option)
       apply simp
      apply (intro spends_last[OF persist_spends] mark_level reset run_rules)
     apply (simp add: level.keeps_return split: if_splits)
    apply simp
    done
qed

lemma attempt_spends: "spends (\<lambda>_. 1) (execute_attempt x step kind worker repair_of fallback_of m)"
  unfolding execute_attempt_def Let_def
  by (intro spends_last[OF partial_spends] settle_spends ensures_imp_keeps[OF level.ensures_review_turn_result] level.keeps_request level.action_timeout_le spends_then
      spend_rules run_rules spends_steady) (simp_all add: benign_def)

text \<open>A step never records more attempts than the campaign allows.\<close>

definition within_budget :: "runner_context \<Rightarrow> nat \<Rightarrow> runner \<Rightarrow> bool" where
  "within_budget x k r \<longleftrightarrow> total_attempts (rn_cur r) \<le> max k (cl_max_attempts (cg_limits (rx_campaign x)))"

definition stays_within :: "runner_context \<Rightarrow> 'a run \<Rightarrow> bool" where
  "stays_within x m \<longleftrightarrow> (\<forall>k r. within_budget x k r \<longrightarrow> within_budget x k (snd (m r)))"

lemma within_steady: "keeps same_total m \<Longrightarrow> stays_within x m"
  by (simp add: stays_within_def keeps_def same_total_def within_budget_def)

lemma within_bind: "stays_within x m \<Longrightarrow> (\<And>v. stays_within x (f v)) \<Longrightarrow> stays_within x (run_bind m f)"
  by (auto simp: stays_within_def run_bind_def split: prod.splits sum.splits) (metis snd_conv)+

lemma within_try: "stays_within x m \<Longrightarrow> stays_within x (run_try m)"
  by (simp add: stays_within_def run_try_def case_prod_beta)

lemma within_if: "(b \<Longrightarrow> stays_within x m) \<Longrightarrow> (\<not> b \<Longrightarrow> stays_within x n) \<Longrightarrow> stays_within x (if b then m else n)"
  by simp

lemma within_sum:
  "(\<And>e. y = Inl e \<Longrightarrow> stays_within x (a e)) \<Longrightarrow> (\<And>v. y = Inr v \<Longrightarrow> stays_within x (b v)) \<Longrightarrow>
     stays_within x (case y of Inl e \<Rightarrow> a e | Inr v \<Rightarrow> b v)"
  by (cases y) auto

lemma within_outcome:
  "stays_within x a \<Longrightarrow> stays_within x b \<Longrightarrow> stays_within x (case o1 of StepAccepted \<Rightarrow> a | StepStopped \<Rightarrow> b)"
  by (cases o1) auto

text \<open>The check of the budget before what records an attempt.\<close>

lemma within_checked:
  assumes a: "\<And>s. stays_within x (a s)" and b: "\<And>s. spends (\<lambda>_. 1) (b s)"
  shows "stays_within x (run_bind cur (\<lambda>s. if cl_max_attempts (cg_limits (rx_campaign x)) \<le> total_attempts s then a s else b s))"
  unfolding stays_within_def
proof (intro allI impI)
  fix k r assume r: "within_budget x k r"
  let ?m = "cl_max_attempts (cg_limits (rx_campaign x))" and ?s = "rn_cur r"
  show "within_budget x k (snd (run_bind cur (\<lambda>s. if ?m \<le> total_attempts s then a s else b s) r))"
  proof (cases "?m \<le> total_attempts ?s")
    case True
    then show ?thesis using a r by (simp add: run_bind_def cur_def stays_within_def)
  next
    case False
    obtain y r' where y: "b ?s r = (y, r')" by fastforce
    then have "total_attempts (rn_cur r') \<le> total_attempts ?s + (case y of Inl e \<Rightarrow> 1 | Inr v \<Rightarrow> 1)"
      using b[of ?s] unfolding spends_def by blast
    then have "total_attempts (rn_cur r') \<le> total_attempts ?s + 1" by (cases y) auto
    then show ?thesis using False y by (simp add: run_bind_def cur_def within_budget_def)
  qed
qed

lemma within_loop: "(\<And>s. stays_within x (body s)) \<Longrightarrow> stays_within x (run_loop n body s)"
proof (induction n arbitrary: s)
  case 0
  show ?case by (simp add: within_steady level.keeps_fail)
next
  case (Suc n)
  show ?case
    unfolding run_loop.simps
    by (intro within_bind within_sum Suc within_steady level.keeps_return)
qed

lemmas within_rules = within_bind within_try within_if within_sum within_outcome

lemma verification_within: "stays_within x (execute_verification x step)"
  unfolding execute_verification_def Let_def Suc_eq_plus1[symmetric] less_Suc_eq_le
  apply (rule within_bind, rule within_steady, rule level.keeps_checkpoint)
  apply (rule within_if, rule within_steady, rule level.keeps_return)
  apply (rule within_checked, rule within_steady, rule level.keeps_block_and_stop)
  apply (intro spends_last[OF persist_spends] spends_then spend_rules mark_level run_rules spends_steady)
  apply (simp_all add: benign_def)
  done

lemma implementation_within: "stays_within x (execute_implementation x step)"
proof -
  have turn: "stays_within x (implementation_turn x step m)" for m
    unfolding implementation_turn_def Let_def
    apply (rule within_bind, rule within_steady, rule level.keeps_checkpoint)
    apply (rule within_if, rule within_steady, rule level.keeps_return)
    apply (rule within_checked, rule within_steady, intro run_rules)
    apply (intro spend_rules attempt_spends spends_steady run_rules)
    done
  show ?thesis
    unfolding execute_implementation_def Let_def by (rule within_loop, rule turn)
qed

lemma step_within: "stays_within x (execute_step x step)"
  unfolding execute_step_def using verification_within implementation_within by (cases "st_kind step") simp_all

lemma walk_within: "stays_within x (walk_steps x steps)"
proof (induction steps)
  case Nil
  have "keeps same_total (complete_campaign x)"
    using steady_complete by (simp add: keeps_def same_total_def same_steps_def total_attempts_def)
  then show ?case by (simp add: within_steady)
next
  case (Cons step rest)
  have upd: "keeps same_total (upd_cur (\<lambda>s. s\<lparr>cs_step := k, cs_action := a\<rparr>))" for k a
    by (intro run_rules) (simp add: benign_def)
  show ?case
    unfolding walk_steps.simps by (intro Cons step_within within_rules; rule within_steady; intro upd run_rules)
qed

section \<open>Loops\<close>

interpretation trivial: any_frame "\<lambda>_ _. True" "\<lambda>_. True" x for x
  by unfold_locales simp_all

interpretation trivial: record_frame "\<lambda>_ _. True" "\<lambda>_. True" x step for x step
  by unfold_locales (simp_all add: keeps_def)

text \<open>Each turn lowers what its loop has left.\<close>

lemma turn_lowers:
  "implementation_turn x step m r = (Inr (Inr m'), r') \<Longrightarrow> turns_left m' < turns_left m"
  using ensuresD(2)[OF trivial.ensures_turn[of m x step], of r "Inr m'"] by simp

lemma transient_bounded:
  "ensures (\<lambda>_ _. True) (\<lambda>healthy. healthy \<longrightarrow> attempts < rx_max_attempts x) (recover_after_transient x step worker attempts started e)"
  unfolding recover_after_transient_def Let_def by (intro run_rules; simp add: benign_def)

lemma request_lowers:
  assumes "request_turn x step n worker w t started attempts r = (Inr (Inr attempts'), r')"
  shows "rx_max_attempts x - attempts' < rx_max_attempts x - attempts"
proof -
  have rec: "ensures (\<lambda>_ _. True) (\<lambda>y. \<forall>k. y = Inr k \<longrightarrow> k = Suc attempts \<and> k < rx_max_attempts x)
      (run_bind (recover_after_transient x step worker (Suc attempts) started e)
        (\<lambda>healthy. run_return (if healthy then Inr (Suc attempts) else Inl (None :: implement_result option))))" for e
    by (rule trivial.ensures_bind[OF transient_bounded]) (auto intro: trivial.ensures_return)
  have "ensures (\<lambda>_ _. True) (\<lambda>y. \<forall>k. y = Inr k \<longrightarrow> k = Suc attempts \<and> k < rx_max_attempts x)
      (request_turn x step n worker w t started attempts)"
    unfolding request_turn_def Let_def by (intro rec run_rules; simp)
  from ensuresD(2)[OF this, of r "Inr attempts'"] assms have "attempts' = Suc attempts \<and> attempts' < rx_max_attempts x" by simp
  then show ?thesis by arith
qed

lemma health_lowers:
  assumes "health_turn x worker started attempts r = (Inr (Inr attempts'), r')"
  shows "rx_max_attempts x - attempts' < rx_max_attempts x - attempts"
proof -
  have "ensures (\<lambda>_ _. True) (\<lambda>y. \<forall>k. y = Inr k \<longrightarrow> k = Suc attempts \<and> k < rx_max_attempts x)
      (health_turn x worker started attempts)"
    unfolding health_turn_def Let_def by (intro run_rules; simp add: benign_def)
  from ensuresD(2)[OF this, of r "Inr attempts'"] assms have "attempts' = Suc attempts \<and> attempts' < rx_max_attempts x" by simp
  then show ?thesis by arith
qed

lemma review_lowers:
  assumes "review_turn x step worker n t reviewer attempts r = (Inr (Inr attempts'), r')"
  shows "3 - attempts' < 3 - attempts"
proof -
  have "ensures (\<lambda>_ _. True) (\<lambda>y. \<forall>k. y = Inr k \<longrightarrow> k = Suc attempts \<and> k < 3)
      (review_turn x step worker n t reviewer attempts)"
    unfolding review_turn_def Let_def by (intro run_rules; simp split: sum.splits bool.splits)
  from ensuresD(2)[OF this, of r "Inr attempts'"] assms have "attempts' = Suc attempts \<and> attempts' < 3" by simp
  then show ?thesis by arith
qed

end
