(* ===== verification/Campaign_Paths.thy ===== *)
theory Campaign_Paths
  imports Campaign
begin

text \<open>
  What the path checks of a campaign give: a path that a step may change lies under a path that the campaign
  permits. The names of the permitted paths are compared component by component, since the prefix ends in a
  slash. A text whose ends are printable is not changed by trimming.
\<close>

section \<open>Trimming printable text\<close>

lemma whitespace_codes_ends:
  "w \<in> set whitespace \<Longrightarrow> w \<noteq> [] \<and> of_char (hd w) \<notin> {33..126 :: nat} \<and> of_char (last w) \<notin> {33..126 :: nat}"
  by (auto simp: whitespace_def whitespace_codes_def)

lemma prefix_hd: "starts_with s w \<Longrightarrow> w \<noteq> [] \<Longrightarrow> hd w = hd s"
  by (cases s; cases w) auto

lemma trim_printable:
  assumes "of_char (hd s) \<in> {33..126 :: nat}" "of_char (last s) \<in> {33..126 :: nat}"
  shows "trim s = s"
proof -
  have "\<not> starts_with s w" if "w \<in> set whitespace" for w
    using whitespace_codes_ends[OF that] prefix_hd[of s w] assms(1) by auto
  then have "trim_with whitespace s = s" by (intro trim_with_none) simp
  moreover have "\<not> starts_with (rev s) (rev w)" if "w \<in> set whitespace" for w
    using whitespace_codes_ends[OF that] prefix_hd[of "rev s" "rev w"] assms(2) by (auto simp: hd_rev)
  then have "trim_with (map rev whitespace) (rev s) = rev s" by (intro trim_with_none) auto
  ultimately show ?thesis by (simp add: trim_def trim_start_def trim_end_def)
qed

lemma no_whitespace: "of_char c \<in> {33..126 :: nat} \<Longrightarrow> \<not> has_whitespace [c]"
  by (auto simp: has_whitespace_def whitespace_def whitespace_codes_def)

section \<open>Results of checks\<close>

lemma assert_covered_mem:
  "assert_covered what permitted ps = Inr () \<Longrightarrow> p \<in> set ps \<Longrightarrow> path_covered_by_permitted p permitted = Inr True"
  by (induction ps) (auto simp: res_simps split: if_splits)

lemma path_covered_mem:
  "path_covered_by_permitted p qs = Inr True \<Longrightarrow> \<exists>q \<in> set qs. path_is_under_prefix p q = Inr True"
  by (induction qs) (auto simp: res_simps split: if_splits)

lemma allowed_path_Inr: "allowed_path v = Inr a \<Longrightarrow> a = trim_slashes (trim v)"
  by (simp add: allowed_path_def Let_def split: if_splits)

lemma allows_trans: "allows a c \<Longrightarrow> trim_slashes (trim v) = a \<Longrightarrow> allows b v \<Longrightarrow> allows b c"
  by (auto simp: allows_def Let_def starts_with_iff)

lemma under_prefix_iff:
  "path_is_under_prefix p q = Inr True \<longleftrightarrow>
     (\<exists>c r a. parse_campaign_path p = Inr c \<and> parse_campaign_path q = Inr r \<and> allowed_path r = Inr a \<and> allows a c)"
  by (auto simp: path_is_under_prefix_def res_simps)

lemma allowed_paths_from_mem:
  "allowed_paths_from ps = Inr as \<Longrightarrow> a \<in> set as \<Longrightarrow>
     \<exists>q \<in> set ps. \<exists>r. parse_campaign_path q = Inr r \<and> allowed_path r = Inr a"
  by (auto simp: allowed_paths_from_def allowed_paths_def res_simps dest!: map_res_set split: if_splits)

lemma path_is_authorized_prefix:
  "path_is_authorized p ps = Inr True \<Longrightarrow> \<exists>q \<in> set ps. path_is_under_prefix p q = Inr True"
  by (auto simp: path_is_authorized_def res_simps under_prefix_iff dest!: allowed_paths_from_mem)

section \<open>Permitted paths\<close>

definition permitted_path :: "campaign \<Rightarrow> string \<Rightarrow> bool" where
  "permitted_path c p \<longleftrightarrow> (\<exists>q \<in> set (cg_permitted c). path_is_under_prefix p q = Inr True)"

lemma covered_permitted:
  "assert_covered what (cg_permitted c) ps = Inr () \<Longrightarrow> p \<in> set ps \<Longrightarrow> permitted_path c p"
  by (auto simp: permitted_path_def dest: assert_covered_mem path_covered_mem)

lemma under_prefix_trans:
  assumes "path_is_under_prefix p s = Inr True" "path_is_under_prefix s q = Inr True"
  shows "path_is_under_prefix p q = Inr True"
proof -
  from assms(1) obtain c v a where c: "parse_campaign_path p = Inr c" and v: "parse_campaign_path s = Inr v"
    and a: "allowed_path v = Inr a" and ac: "allows a c"
    by (auto simp: under_prefix_iff)
  from assms(2) v obtain r b where r: "parse_campaign_path q = Inr r" and b: "allowed_path r = Inr b"
    and bv: "allows b v"
    by (auto simp: under_prefix_iff)
  have "allows b c" using allows_trans[OF ac _ bv] allowed_path_Inr[OF a] by simp
  then show ?thesis using c r b by (auto simp: under_prefix_iff)
qed

text \<open>What a step may change is what the campaign permits.\<close>

lemma authorized_prefix:
  assumes "assert_authorized_paths ps as = Inr ()" "p \<in> set ps"
  shows "\<exists>s \<in> set as. path_is_under_prefix p s = Inr True"
proof -
  from assms(1) obtain ls cs where ls: "allowed_paths_from as = Inr ls" and cs: "map_res parse_campaign_path ps = Inr cs"
    and none: "filter (\<lambda>c. \<not> (\<exists>a \<in> set ls. allows a c)) cs = []"
    by (auto simp: assert_authorized_paths_def Let_def res_simps split: if_splits)
  from map_res_image[OF cs assms(2)] obtain c where c: "c \<in> set cs" "parse_campaign_path p = Inr c" by auto
  from none c(1) obtain a where a: "a \<in> set ls" "allows a c" by (auto simp: filter_empty_conv)
  from allowed_paths_from_mem[OF ls a(1)] c(2) a(2) show ?thesis by (auto simp: under_prefix_iff)
qed

lemma authorized_permitted:
  assumes "assert_authorized_paths ps as = Inr ()" "assert_covered what (cg_permitted c) as = Inr ()" "p \<in> set ps"
  shows "permitted_path c p"
  using authorized_prefix[OF assms(1,3)] covered_permitted[OF assms(2)] under_prefix_trans
  unfolding permitted_path_def by blast

end
