(* ===== verification/Campaign_Sample.thy ===== *)
theory Campaign_Sample
  imports Campaign_Entry Campaign_Paths
begin

text \<open>
  A run of a campaign, evaluated by simplification. The status on disk is that of a campaign interrupted in the
  attempt of its only step; the worktree still holds a change of that attempt, and every answer of the surroundings
  is a success. The run resets the worktree, asks the model again, runs the acceptance command and commits.
\<close>

section \<open>The campaign\<close>

definition live_step :: campaign_step where
  "live_step = \<lparr>st_id = ''s'', st_kind = ImplementationStep, st_task = ''t'', st_allowed = [''s''],
     st_required = [''s''], st_commands = [[''c'']], st_artifacts = [], st_timeout = 60,
     st_network = ''disabled''\<rparr>"

definition live_sha :: string where
  "live_sha = replicate 40 (CHR ''a'')"

definition live_campaign :: campaign where
  "live_campaign = \<lparr>cg_version = ''rack-ai/campaign/v1'', cg_id = ''c'', cg_repository = ''r'', cg_base_ref = ''m'',
     cg_base_sha = live_sha, cg_branch = ''rack/campaign-c'', cg_permitted = [''s''], cg_allow_commits = True,
     cg_limits = \<lparr>cl_max_runtime = 60, cl_max_steps = 1, cl_max_attempts = 1, cl_heartbeat = 10, cl_network = ''disabled''\<rparr>,
     cg_policy = \<lparr>wp_primary = ''a'', wp_fallback = ''b'', wp_primary_attempts = 1, wp_repair_attempts = 0,
       wp_fallback_attempts = 0\<rparr>,
     cg_steps = [live_step]\<rparr>"

definition live_outcomes :: outcomes where
  "live_outcomes = \<lparr>oc_now = (\<lambda>_. 0), oc_operator = (\<lambda>_. []), oc_save = (\<lambda>_. Saved), oc_load = (\<lambda>_. Inr ()),
     oc_emit = (\<lambda>_. Inr ()), oc_lease = (\<lambda>_. Inr ()), oc_acquire = (\<lambda>_. Inr ''l''), oc_release = (\<lambda>_. ()),
     oc_create = (\<lambda>_. Inr ()), oc_write = (\<lambda>_. Inr ()),
     oc_snapshot = (\<lambda>_. Inr \<lparr>ge_head = live_sha, ge_status = [], ge_diff = [], ge_stat = [],
       ge_changed = [''s'', ''target/x'']\<rparr>),
     oc_branch = (\<lambda>_. Inr ''rack/campaign-c''),
     oc_head = (\<lambda>_. Inr live_sha), oc_exists = (\<lambda>_. True), oc_reset = (\<lambda>_. Inr ()), oc_commit = (\<lambda>_. Inr live_sha),
     oc_implement = (\<lambda>_. Inr (plain_result [])),
     oc_command = (\<lambda>_. Inr \<lparr>ce_argv = [''c''], ce_exit = 0, ce_stdout = [], ce_stderr = [],
       ce_timed_out = False\<rparr>),
     oc_artifact = (\<lambda>_. Inr ()), oc_executor = (\<lambda>_. Inr ()), oc_worker = (\<lambda>_. Inr ()), oc_runtime = (\<lambda>_. Inr ''a''),
     oc_review = None, oc_diagnose = None\<rparr>"

definition live_context :: runner_context where
  "live_context = \<lparr>rx_world = \<lparr>cw_repository = (\<lambda>_. Inr True), cw_resolve = (\<lambda>_ _. Inr live_sha), cw_command = (\<lambda>_. Inr ()),
       cw_encode = (\<lambda>_. Inr [])\<rparr>,
     rx_campaign = live_campaign, rx_outcomes = live_outcomes, rx_max_wait = 10, rx_max_attempts = 3,
     rx_workspace_root = ''/w'', rx_target = (\<lambda>_. None)\<rparr>"

section \<open>The surroundings\<close>

lemma live_simps:
  "rx_world live_context = \<lparr>cw_repository = (\<lambda>_. Inr True), cw_resolve = (\<lambda>_ _. Inr live_sha), cw_command = (\<lambda>_. Inr ()),
       cw_encode = (\<lambda>_. Inr [])\<rparr>"
  "rx_campaign live_context = live_campaign" "rx_outcomes live_context = live_outcomes"
  "rx_max_wait live_context = 10" "rx_max_attempts live_context = 3" "rx_workspace_root live_context = ''/w''"
  "rx_target live_context = (\<lambda>_. None)"
  by (simp_all add: live_context_def)

lemma live_arrive: "arrive live_context r = r\<lparr>rn_tick := Suc (rn_tick r)\<rparr>"
  by (simp add: arrive_def live_simps live_outcomes_def Let_def)

lemma live_ask:
  "ask live_context f r = (Inr (f live_outcomes (rn_tick r)), r\<lparr>rn_tick := Suc (rn_tick r)\<rparr>)"
  "ask_res live_context g r = (g live_outcomes (rn_tick r), r\<lparr>rn_tick := Suc (rn_tick r)\<rparr>)"
  by (simp_all add: ask_def ask_res_def live_arrive live_simps)

lemma live_save:
  "save_status live_context b s r =
     (Inr (), r\<lparr>rn_tick := Suc (rn_tick r), rn_disk := Some (merge_runner_state b (rn_disk r) s)\<rparr>)"
  by (simp add: save_status_def live_arrive live_simps live_outcomes_def)

lemma live_emit:
  "emit_for live_context e k n w s r = (Inr (), r\<lparr>rn_tick := Suc (rn_tick r), rn_log := rn_log r @ [Event e k n w (cs_state s)]\<rparr>)"
  by (simp add: emit_for_def run_bind_def live_ask live_outcomes_def note_entry_def)

lemma live_load: "load_state live_context r = (Inr (rn_disk r), r\<lparr>rn_tick := Suc (rn_tick r)\<rparr>)"
  by (simp add: load_state_def live_ask live_outcomes_def)

lemma live_sha_facts: "git_sha live_sha = Inr live_sha" "trim live_sha = live_sha"
  by (simp_all add: git_sha_def live_sha_def trim_printable ascii_hexdigit_def lowercase_def lower_byte_def ascii_uppercase_def Let_def)

lemma live_text:
  "trim ''c'' = ''c''" "ascii_alphanumeric (CHR ''c'')" "expected_branch ''c'' = ''rack/campaign-c''"
  "repository_id ''r'' = Inr ''r''" "git_ref ''m'' = Inr ''m''" "trim ''t'' = ''t''"
  "acceptance_command [''c''] = Inr [''c'']" "allowed_path ''s'' = Inr ''s''" "workspace_path ''s'' = Inr ''s''"
  "fnv1a64 [] = 0xcbf29ce484222325" "source_paths [''s'', ''target/x''] = [''s'']" "allows ''s'' ''s''"
  by (simp_all add: repository_id_def git_ref_def expected_branch_def allowed_path_def acceptance_command_def trim_printable 
      ascii_alphanumeric_def no_whitespace trim_slashes_def path_parts_def fnv1a64_def source_paths_def is_ephemeral_path_def
      workspace_path_def strip_prefix_def allows_def Let_def)

lemma live_path: "parse_campaign_path ''s'' = Inr ''s''"
  by (simp add: parse_campaign_path_def trim_printable live_text path_parts_def Let_def)

lemma live_paths: "allowed_paths_from [''s''] = Inr [''s'']" "path_is_authorized ''s'' [''s''] = Inr True"
  "path_is_under_prefix ''s'' ''s'' = Inr True" "assert_authorized_paths [''s''] [''s''] = Inr ()"
  by (simp_all add: allowed_paths_from_def allowed_paths_def path_is_authorized_def path_is_under_prefix_def live_path live_text
      assert_authorized_paths_def)

lemma live_permitted: "validate_permitted_paths live_campaign = Inr ()"
  by (simp add: validate_permitted_paths_def live_campaign_def live_step_def live_path live_text live_paths assert_step_paths_permitted_def
       path_covered_by_permitted.simps)

lemma live_checks:
  "validate_document (rx_world live_context) live_campaign = Inr ()"
  using live_permitted
  by (simp add: validate_document_def live_simps Let_def live_text live_campaign_def live_step_def validate_step_def)

lemma live_digest: "campaign_digest (rx_world live_context) live_campaign = Inr 0xcbf29ce484222325"
  by (simp add: campaign_digest_def live_simps live_text)

definition live_changes :: git_evidence where
  "live_changes = \<lparr>ge_head = live_sha, ge_status = [], ge_diff = [], ge_stat = [], ge_changed = [''s'', ''target/x'']\<rparr>"

lemma live_outcomes_sel:
  "oc_now live_outcomes n = 0" "oc_snapshot live_outcomes n = Inr live_changes" "oc_branch live_outcomes n = Inr ''rack/campaign-c''"
  "oc_head live_outcomes n = Inr live_sha" "oc_exists live_outcomes n" "oc_reset live_outcomes n = Inr ()"
  "oc_commit live_outcomes n = Inr live_sha" "oc_implement live_outcomes n = Inr (plain_result [])"
  "oc_command live_outcomes n = Inr \<lparr>ce_argv = [''c''], ce_exit = 0, ce_stdout = [], ce_stderr = [], ce_timed_out = False\<rparr>"
  "oc_artifact live_outcomes n = Inr ()" "oc_executor live_outcomes n = Inr ()" "oc_worker live_outcomes n = Inr ()"
  "oc_runtime live_outcomes n = Inr ''a''" "oc_review live_outcomes = None" "oc_diagnose live_outcomes = None"
  "oc_write live_outcomes n = Inr ()" "oc_lease live_outcomes n = Inr ()" "oc_acquire live_outcomes n = Inr ''l''"
  "oc_load live_outcomes n = Inr ()"
  by (simp_all add: live_outcomes_def live_changes_def)

lemmas run_steps = run_bind_def run_return_def run_fail_def run_lift_def run_try_def cur_def set_cur_def upd_cur_def note_entry_def

lemmas live_world = live_simps(2-) live_ask live_save live_emit live_load live_outcomes_sel

lemma live_beat: "heartbeat_now live_context r = (Inr (), r\<lparr>rn_tick := rn_tick r + 4, rn_cur := budget_with 0 (rn_cur r\<lparr>cs_heartbeat := 0\<rparr>),
   rn_disk := Some (merge_runner_state False (rn_disk r) (budget_with 0 (rn_cur r\<lparr>cs_heartbeat := 0\<rparr>))),
   rn_log := rn_log r @ [Event ''heartbeat'' (cs_step (rn_cur r)) None (cs_worker (rn_cur r)) (cs_state (rn_cur r))]\<rparr>)"
  by (simp add: heartbeat_now_def run_steps live_world save_cur_def emit_def budget_with_def)

lemmas live_ops =
  run_campaign_def[THEN fun_cong] run_internal_def[THEN fun_cong] require_state_def[THEN fun_cong]
  effective_steps_def[THEN fun_cong] run_with_lease_def[THEN fun_cong]
  recover_worktree_def[THEN fun_cong] recover_worker_health_def[THEN fun_cong] health_turn_def[THEN fun_cong]
  preflight_live_def[THEN fun_cong]
  complete_campaign_def[THEN fun_cong] take_flags_def[THEN fun_cong]
  refresh_budget_def[THEN fun_cong] save_cur_def[THEN fun_cong] emit_def[THEN fun_cong]
  reset_worktree_def[THEN fun_cong] execute_step_def[THEN fun_cong] execute_implementation_def[THEN fun_cong]
  implementation_turn_def[THEN fun_cong] execute_attempt_def[THEN fun_cong] set_action_def[THEN fun_cong]
  request_model_def[THEN fun_cong] request_turn_def[THEN fun_cong] snapshot_checked_def[THEN fun_cong]
  accept_implementation_def[THEN fun_cong] run_acceptance_def[THEN fun_cong] run_commands.simps[THEN fun_cong]
  missing_artifacts.simps[THEN fun_cong] review_turn_result_def[THEN fun_cong] reviewed_def[THEN fun_cong]
  settle_attempt_def[THEN fun_cong] commit_accepted_def[THEN fun_cong] persist_attempt_def[THEN fun_cong]
  mark_step_accepted_def[THEN fun_cong] clear_active_lease_def[THEN fun_cong]

lemma loop_once: "0 < n \<Longrightarrow> run_loop n body s r = run_bind (body s) (\<lambda>x. case x of Inl a \<Rightarrow> run_return a | Inr s' \<Rightarrow> run_loop (n - 1) body s') r"
  by (cases n) simp_all

definition live_status :: campaign_status where
  "live_status = (new_status live_campaign 0xcbf29ce484222325 ''/w/campaign-c/repo'' live_sha 0)\<lparr>cs_action := Some ''model_request'',
     cs_step := Some ''s'', cs_attempt := 1, cs_lease := Some ''l''\<rparr>"

lemma live_mine: "can_reset_interrupted_worktree live_context live_status [''s''] = Inr True"
  by (simp add: can_reset_interrupted_worktree_def live_status_def new_status_def live_campaign_def live_step_def pending_step_def path_within_def
     path_parts_def live_simps live_paths live_text)

lemma live_sel: "cg_limits live_campaign = \<lparr>cl_max_runtime = 60, cl_max_steps = 1, cl_max_attempts = 1, cl_heartbeat = 10, cl_network = ''disabled''\<rparr>"
  "cg_steps live_campaign = [live_step]" "cg_policy live_campaign = \<lparr>wp_primary = ''a'', wp_fallback = ''b'', wp_primary_attempts = 1, wp_repair_attempts = 0,
       wp_fallback_attempts = 0\<rparr>" "cg_base_sha live_campaign = live_sha" "cg_branch live_campaign = ''rack/campaign-c''"
  "cg_id live_campaign = ''c''" "cg_repository live_campaign = ''r''"
  "st_id live_step = ''s''" "st_kind live_step = ImplementationStep" "st_allowed live_step = [''s'']" "st_commands live_step = [[''c'']]"
  "st_artifacts live_step = []" "st_timeout live_step = 60" "st_network live_step = ''disabled''"
  by (simp_all add: live_campaign_def live_step_def)

lemma live_found: "source_paths (ge_changed live_changes) = [''s'']" "ge_head live_changes = live_sha"
  by (simp_all add: live_changes_def live_text)

lemma live_changed: "ge_changed live_changes = [''s'', ''target/x'']"
  by (simp add: live_changes_def)

lemma live_selects: "cs_digest live_status = 0xcbf29ce484222325" "cs_base_sha live_status = live_sha" "cs_branch live_status = ''rack/campaign-c''"
  "cs_head live_status = live_sha" "cs_start live_status = 0" "cs_worker live_status = None" "cs_cancel live_status = False" "cs_pause live_status = False"
  "cs_steps live_status = [pending_step live_step]" "cs_state live_status = CRunning" "cs_worktree live_status = ''/w/campaign-c/repo''"
  by (simp_all add: live_status_def new_status_def live_sel)

lemmas live_eval = live_ops run_steps live_world live_beat Let_def live_text live_digest live_path live_paths live_sha_facts live_found live_mine loop_once
  live_changed live_sel live_selects

lemma live_flags:
  "cs_cancel (merge_runner_state b (Some d) s) = (cs_cancel s \<or> cs_cancel d)"
  "cs_pause (merge_runner_state b (Some d) s) = (\<not> b \<and> (cs_pause s \<or> cs_pause d))"
  by (auto simp: merge_runner_state_def Let_def)

lemma live_recover: "recover_campaign live_context \<lparr>rn_tick = n, rn_disk = Some d, rn_revised = [], rn_cur = live_status, rn_log = l\<rparr> =
   (Inr (), \<lparr>rn_tick = n + 11, rn_disk = Some d, rn_revised = [], rn_cur = live_status\<lparr>cs_duration := 0, cs_remaining := 60\<rparr>,
      rn_log = l @ [Reset [''s''], Event ''campaign_recovered'' None None None CRunning]\<rparr>)"
  by (simp add: live_eval recover_campaign_def[THEN fun_cong] budget_with_def)

lemma live_preflight: "preflight_live live_context r = (Inr (), r\<lparr>rn_tick := rn_tick r + 4\<rparr>)"
  by (simp add: live_eval live_checks)

lemma live_check: "rn_disk r = Some d \<Longrightarrow> \<not> cs_cancel d \<Longrightarrow> \<not> cs_pause d \<Longrightarrow> cs_start (rn_cur r) = 0 \<Longrightarrow>
   checkpoint live_context live_step r = (Inr False,
          r\<lparr>rn_tick := 6 + rn_tick r,
              rn_cur :=
                rn_cur r
                \<lparr>cs_pause := False, cs_cancel := False, cs_remaining := 60,
                   cs_heartbeat := 0, cs_duration := 0\<rparr>,
              rn_disk :=
                Some
                 (merge_runner_state False (Some d)
                   (rn_cur r
                    \<lparr>cs_pause := False, cs_cancel := False,
                       cs_remaining := 60, cs_heartbeat := 0,
                       cs_duration := 0\<rparr>)),
              rn_log :=
                rn_log r @
                [Event ''heartbeat'' (cs_step (rn_cur r)) None
                  (cs_worker (rn_cur r)) (cs_state (rn_cur r))]\<rparr>)"
  by (simp add: live_eval checkpoint_def[THEN fun_cong] live_flags budget_with_def)

lemma live_start: "\<not> cs_cancel d \<Longrightarrow> \<not> cs_pause d \<Longrightarrow> run_recovered live_context \<lparr>rn_tick = n, rn_disk = Some d, rn_revised = [], 
      rn_cur = live_status\<lparr>cs_duration := 0, cs_remaining := 60\<rparr>, rn_log = l\<rparr> = 
      walk_steps live_context [live_step]
          \<lparr>rn_tick = 10 + n,
             rn_disk =
               Some
                (merge_runner_state False (Some d)
                  (live_status
                   \<lparr>cs_remaining := 60, cs_state := CRunning,
                      cs_heartbeat := 0, cs_duration := 0\<rparr>)),
             rn_revised = [],
             rn_cur =
               live_status
               \<lparr>cs_remaining := 60, cs_state := CRunning, cs_heartbeat := 0,
                  cs_duration := 0\<rparr>,
             rn_log =
               l @
               [Event ''heartbeat'' (cs_step live_status) None None CRunning,
                Event ''campaign_started'' None None None CRunning]\<rparr>"
  by (simp add: live_eval run_recovered_def[THEN fun_cong] live_flags budget_with_def live_checks del: walk_steps.simps)

lemma live_pending: "sr_id (pending_step live_step) = ''s''" "sr_disposition (pending_step live_step) = ''pending''" "sr_attempts (pending_step live_step) = []"
  by (simp_all add: pending_step_def live_step_def)

lemma live_reviewed: "review_of live_step live_changes True [] (plain_result []) = accepted_review
            ''independent coordinator review accepted the implementation against requested paths, artifacts, and evidence''"
  by (simp add: review_of_def review_attempt_def live_step_def live_changes_def live_text live_path live_paths Let_def plain_result_def
    looks_like_markdown_tool_call_def lowercase_def review_implementation_def required_prefix_satisfied_def
    required_artifacts_changed_def)

lemma live_result: "ir_protocol_error (plain_result []) = None" "ir_worker_error (plain_result []) = None" "looks_protocol (plain_result []) = False"
  by (simp_all add: plain_result_def looks_protocol_def looks_like_markdown_tool_call_def lowercase_def)

lemma live_accepted: "rv_disposition (accepted_review why) = Accepted"
  by (simp add: accepted_review_def)

lemma live_allowed: "allowed_paths [''s''] = Inr [''s'']"
  by (simp add: allowed_paths_def)

lemmas live_attempt = live_check live_pending total_attempts_def first_turn_def select_attempt_def turns_left_def budget_with_def
  live_reviewed live_result live_accepted live_allowed action_timeout_def kind_action_def succeeded_def

definition live_disk :: campaign_status where
  "live_disk = live_status\<lparr>cs_lease := None\<rparr>"

lemma live_disk_facts: "live_disk\<lparr>cs_lease := Some ''l''\<rparr> = live_status" "\<not> cs_cancel live_disk" "\<not> cs_pause live_disk"
  by (simp_all add: live_disk_def live_status_def new_status_def)

definition interrupted_runner :: runner where
  "interrupted_runner = \<lparr>rn_tick = 0, rn_disk = Some live_disk, rn_revised = [], rn_cur = live_status, rn_log = []\<rparr>"

lemma live_recorded: "sr_id (record_attempt a y) = sr_id y" "sr_disposition (record_attempt (attempt_record_of b t (accepted_review why) c) y) = sr_disposition y"
  by (simp_all add: record_attempt_def attempt_record_of_def accepted_review_def)

lemma live_run:
  "set [Reset [''s''], Implement ''/w/campaign-c/repo'' [''s''] 60 True ''a'', RunCommand [''c''] 60, Commit ''s'' [''s'']]
     \<subseteq> set (rn_log (snd (run_campaign live_context interrupted_runner)))"
  by (simp add: interrupted_runner_def live_eval live_flags live_attempt live_recover live_start live_disk_facts live_recorded upd_step_def walk_steps.simps[THEN fun_cong] del: walk_steps.simps)
end
