(* ===== verification/Campaign_Safety.thy ===== *)
theory Campaign_Safety
  imports Campaign_Progress Campaign_Sample
begin

text \<open>
  What a run of a campaign guarantees, whatever git, the executor, the models, the clock, the disk and the
  operator do: the properties over the entry points and the steps, each an instance of the relations of the
  frame.
\<close>

section \<open>What the operator decided\<close>

definition closed_state :: "campaign_state \<Rightarrow> bool" where
  "closed_state s \<longleftrightarrow> s \<in> {CCompleted, CCancelled, CExpired}"

text \<open>A cancellation on disk stays, and so do the revisions and the steps it records.\<close>

fun decisions_kept :: "campaign_status option \<Rightarrow> campaign_status option \<Rightarrow> bool" where
  "decisions_kept None d' \<longleftrightarrow> True"
| "decisions_kept (Some d) None \<longleftrightarrow> False"
| "decisions_kept (Some d) (Some d') \<longleftrightarrow>
     (cs_cancel d \<longrightarrow> cs_cancel d' \<and> (closed_state (cs_state d) \<longrightarrow> closed_state (cs_state d'))) \<and>
     set (cs_revisions d) \<subseteq> set (cs_revisions d') \<and> sr_id ` set (cs_steps d) \<subseteq> sr_id ` set (cs_steps d')"

lemma decisions_same [simp]: "decisions_kept d d"
  by (cases d) auto

lemma decisions_trans: "decisions_kept a b \<Longrightarrow> decisions_kept b c \<Longrightarrow> decisions_kept a c"
  by (cases a; cases b; cases c; simp) (meson subset_trans)

lemma beat_decisions: "beat_status t step worker action s = Inr s' \<Longrightarrow> decisions_kept (Some s) (Some s')"
  by (auto simp: beat_status_def closed_state_def split: if_splits)

lemma revise_decisions: "revise_status w c t d s = Inr s' \<Longrightarrow> decisions_kept (Some s) (Some s')"
  by (auto simp: revise_status_def closed_state_def res_simps split: if_splits)

lemma cancel_decisions: "decisions_kept (Some s) (Some (cancel_status t reason s))"
  by (auto simp: cancel_status_def Let_def closed_state_def split: option.splits)

lemma pause_decisions: "decisions_kept (Some s) (Some (pause_status s))"
  by (simp add: pause_status_def)

lemma operate_decisions: "decisions_kept (fst disk) (fst (operate w c t op disk))"
proof (cases disk)
  case (Pair d ds)
  show ?thesis
  proof (cases d)
    case (Some s)
    show ?thesis
      using cancel_decisions[of s t] beat_decisions[of t _ _ _ s] revise_decisions[of w c t _ s]
      by (cases op) (auto simp: Pair Some operate_def split: sum.splits simp del: decisions_kept.simps(3) intro: pause_decisions)
  qed (simp add: Pair operate_def)
qed

lemma operates_decisions: "decisions_kept (fst disk) (fst (fold (operate w c t) ops disk))"
proof (induction ops arbitrary: disk)
  case (Cons op ops)
  show ?case using decisions_trans[OF operate_decisions Cons.IH] by simp
qed simp

lemma merge_revisions_set: "set (merge_revisions ds ms) = set ds \<union> set ms"
  unfolding merge_revisions_def by (induction ds arbitrary: ms) auto

lemma merge_steps_set: "sr_id ` set (merge_steps ds ms) = sr_id ` set ds \<union> sr_id ` set ms"
  unfolding merge_steps_def by (induction ds arbitrary: ms) auto

lemma merge_decisions: "decisions_kept d (Some (merge_runner_state resume d s))"
  by (cases d) (auto simp: merge_runner_state_def Let_def merge_revisions_set merge_steps_set closed_state_def)

lemma arrive_decisions: "decisions_kept (rn_disk r) (rn_disk (arrive x r))"
  using operates_decisions[of "(rn_disk r, rn_revised r)" "rx_world x" "rx_campaign x" "oc_now (rx_outcomes x) (rn_tick r)"
      "oc_operator (rx_outcomes x) (rn_tick r)"]
  by (auto simp: arrive_def Let_def split: prod.splits)

definition keeps_decisions :: "runner \<Rightarrow> runner \<Rightarrow> bool" where
  "keeps_decisions r r' \<longleftrightarrow> decisions_kept (rn_disk r) (rn_disk r')"

interpretation decided: any_frame keeps_decisions "\<lambda>_. True" x for x
  by unfold_locales (auto simp: keeps_decisions_def arrive_decisions merge_decisions intro: decisions_trans)

interpretation decided: record_frame keeps_decisions "\<lambda>_. True" x step for x step
  by unfold_locales (auto intro: decided.keeps_persist decided.keeps_mark)

interpretation decided: campaign_frame keeps_decisions "\<lambda>_. True" x for x
  by unfold_locales
    (auto intro: decided.then_keeps decided.keeps_effective decided.keeps_walk decided.keeps_complete decided.keeps_step)

section \<open>What a campaign may do\<close>

text \<open>An action of the runner that the campaign permits. A reset deletes the paths it names before git restores
  the tree; build output below \<open>target/\<close> and \<open>.rack-cargo/\<close> is the only thing it may delete beyond the
  permitted paths.\<close>

fun entry_permitted :: "runner_context \<Rightarrow> entry \<Rightarrow> bool" where
  "entry_permitted x (Implement w allowed t isolated worker) \<longleftrightarrow>
     t \<le> 900 \<and> isolated \<and> (\<forall>p \<in> set allowed. permitted_path (rx_campaign x) p)"
| "entry_permitted x (RunCommand argv t) \<longleftrightarrow>
     t \<le> 900 \<and> acceptance_command argv = Inr argv \<and> cw_command (rx_world x) argv = Inr ()"
| "entry_permitted x (Commit k ps) \<longleftrightarrow> (\<forall>p \<in> set ps. permitted_path (rx_campaign x) p)"
| "entry_permitted x (Reset ps) \<longleftrightarrow> (\<forall>p \<in> set ps. permitted_path (rx_campaign x) p \<or> is_ephemeral_path p)"
| "entry_permitted x e \<longleftrightarrow> True"

definition permitted_step :: "runner_context \<Rightarrow> campaign_step \<Rightarrow> bool" where
  "permitted_step x s \<longleftrightarrow> validate_step (rx_world x) s = Inr () \<and>
     assert_step_paths_permitted (st_id s) (st_allowed s) (st_required s) (cg_permitted (rx_campaign x)) = Inr ()"

definition revisions_permitted :: "runner_context \<Rightarrow> revision_document list \<Rightarrow> bool" where
  "revisions_permitted x ds \<longleftrightarrow> (\<forall>d \<in> set ds. \<forall>s \<in> set (rd_steps d). permitted_step x s)"

definition stays_permitted :: "runner_context \<Rightarrow> runner \<Rightarrow> runner \<Rightarrow> bool" where
  "stays_permitted x r r' \<longleftrightarrow> (revisions_permitted x (rn_revised r) \<longrightarrow>
     revisions_permitted x (rn_revised r') \<and> (\<exists>new. rn_log r' = rn_log r @ new \<and> (\<forall>e \<in> set new. entry_permitted x e)))"

lemma stays_same: "stays_permitted x r r"
  by (simp add: stays_permitted_def)

lemma stays_trans: "stays_permitted x r r' \<Longrightarrow> stays_permitted x r' r'' \<Longrightarrow> stays_permitted x r r''"
  by (fastforce simp: stays_permitted_def)

lemma validate_revision_permitted:
  "validate_revision (rx_world x) (rx_campaign x) s xs = Inr () \<Longrightarrow> y \<in> set xs \<Longrightarrow> permitted_step x y"
  by (induction xs) (auto simp: res_simps permitted_step_def split: if_splits)

lemma operate_permitted:
  "revisions_permitted x (snd disk) \<Longrightarrow> revisions_permitted x (snd (operate (rx_world x) (rx_campaign x) t op disk))"
  by (cases op)
    (auto simp: operate_def revise_status_def revisions_permitted_def res_simps
      split: prod.splits option.splits sum.splits if_splits dest: validate_revision_permitted)

lemma operates_permitted:
  "revisions_permitted x (snd disk) \<Longrightarrow> revisions_permitted x (snd (fold (operate (rx_world x) (rx_campaign x) t) ops disk))"
proof (induction ops arbitrary: disk)
  case (Cons op ops)
  show ?case using Cons.IH[OF operate_permitted[OF Cons.prems]] by simp
qed simp

lemma arrive_stays: "stays_permitted x r (arrive x r)"
  using operates_permitted[of x "(rn_disk r, rn_revised r)" "oc_now (rx_outcomes x) (rn_tick r)"
      "oc_operator (rx_outcomes x) (rn_tick r)"]
  by (auto simp: stays_permitted_def arrive_def Let_def split: prod.splits)

interpretation permitted: any_frame "stays_permitted x" "entry_permitted x" x for x
  by (unfold_locales; (rule stays_same | erule (1) stays_trans | rule arrive_stays | simp add: stays_permitted_def))

lemma acceptance_same: "acceptance_command argv = Inr a \<Longrightarrow> a = argv"
  by (simp add: acceptance_command_def split: if_splits)

lemma validate_step_command:
  assumes "validate_step w s = Inr ()" "argv \<in> set (st_commands s)"
  shows "acceptance_command argv = Inr argv \<and> cw_command w argv = Inr ()"
proof -
  from assms(1) obtain us where "map_res (\<lambda>argv. res_bind (acceptance_command argv) (cw_command w)) (st_commands s) = Inr us"
    by (auto simp: validate_step_def res_bind_eq_Inr split: if_splits)
  from map_res_image[OF this assms(2)] show ?thesis
    by (auto simp: res_bind_eq_Inr dest: acceptance_same)
qed

lemma permitted_step_facts:
  assumes "permitted_step x step"
  shows "st_timeout step \<le> 900" "st_network step = ''disabled''"
    "argv \<in> set (st_commands step) \<Longrightarrow> acceptance_command argv = Inr argv \<and> cw_command (rx_world x) argv = Inr ()"
    "p \<in> set (st_allowed step) \<Longrightarrow> permitted_path (rx_campaign x) p"
    "assert_authorized_paths ps (st_allowed step) = Inr () \<Longrightarrow> p \<in> set ps \<Longrightarrow> permitted_path (rx_campaign x) p"
proof -
  have v: "validate_step (rx_world x) step = Inr ()" and
    c: "assert_covered (''step '' @ st_id step @ '' allowed_path '') (cg_permitted (rx_campaign x)) (st_allowed step) = Inr ()"
    using assms by (auto simp: permitted_step_def assert_step_paths_permitted_def res_simps)
  show "st_timeout step \<le> 900" "st_network step = ''disabled''"
    using v by (auto simp: validate_step_def split: if_splits)
  show "argv \<in> set (st_commands step) \<Longrightarrow> acceptance_command argv = Inr argv \<and> cw_command (rx_world x) argv = Inr ()"
    using validate_step_command[OF v] .
  show "p \<in> set (st_allowed step) \<Longrightarrow> permitted_path (rx_campaign x) p"
    using covered_permitted[OF c] .
  show "assert_authorized_paths ps (st_allowed step) = Inr () \<Longrightarrow> p \<in> set ps \<Longrightarrow> permitted_path (rx_campaign x) p"
    using authorized_permitted[OF _ c] .
qed

lemma source_reset_permitted:
  assumes "\<And>p. p \<in> set (source_paths ps) \<Longrightarrow> permitted_path (rx_campaign x) p"
  shows "entry_permitted x (Reset ps)"
  using assms by (auto simp: source_paths_def)

lemma permitted_record: "permitted_step x step \<Longrightarrow> record_frame (stays_permitted x) (entry_permitted x) x step"
proof -
  assume "permitted_step x step"
  note facts = permitted_step_facts[OF this]
  show ?thesis
    by (unfold_locales; (rule permitted.keeps_persist | rule permitted.keeps_mark | use facts source_reset_permitted in force))
qed

lemma validated_permitted:
  "validate_document (rx_world x) (rx_campaign x) = Inr () \<Longrightarrow> step \<in> set (cg_steps (rx_campaign x)) \<Longrightarrow> permitted_step x step"
  by (auto simp: validate_document_def validate_permitted_paths_def permitted_step_def Let_def res_simps
      split: if_splits dest!: map_res_image)

lemma effective_permitted:
  assumes v: "validate_document (rx_world x) (rx_campaign x) = Inr ()" and rev: "revisions_permitted x (rn_revised r)"
    and e: "effective_steps x r = (Inr steps, r')" and mem: "step \<in> set steps"
  shows "permitted_step x step"
proof -
  have steps: "steps = cg_steps (rx_campaign x) @ concat (map rd_steps (rn_revised (arrive x r)))"
    using e by (auto simp: effective_steps_def run_bind_def ask_res_def split: sum.splits)
  have "revisions_permitted x (rn_revised (arrive x r))"
    using arrive_stays rev by (auto simp: stays_permitted_def)
  then show ?thesis
    using mem validated_permitted[OF v] by (auto simp: steps revisions_permitted_def)
qed

lemma permitted_walks:
  assumes v: "validate_document (rx_world x) (rx_campaign x) = Inr ()"
  shows "keeps (stays_permitted x) (run_bind (effective_steps x) (walk_steps x))"
  unfolding keeps_def
proof
  fix r
  obtain y r' where y: "effective_steps x r = (y, r')" by fastforce
  show "stays_permitted x r (snd (run_bind (effective_steps x) (walk_steps x) r))"
  proof (cases "revisions_permitted x (rn_revised r)")
    case True
    have first: "stays_permitted x r r'"
      using permitted.keeps_effective[of x] y unfolding keeps_def by (metis snd_conv)
    show ?thesis
    proof (cases y)
      case (Inl e)
      then show ?thesis using first by (simp add: run_bind_def y)
    next
      case (Inr steps)
      have "keeps (stays_permitted x) (walk_steps x steps)"
        using effective_permitted[OF v True y[unfolded Inr]]
        by (intro permitted.keeps_walk permitted.keeps_complete record_frame.keeps_step[OF permitted_record])
      then show ?thesis
        using stays_trans[OF first] by (simp add: run_bind_def y Inr keeps_def)
    qed
  qed (simp add: stays_permitted_def)
qed

lemma all_authorized_permitted:
  "all_authorized (cg_permitted c) allowed ps = Inr True \<Longrightarrow> p \<in> set ps \<Longrightarrow> permitted_path c p"
  by (induction ps) (auto simp: res_simps permitted_path_def split: if_splits dest: path_is_authorized_prefix)

lemma recover_reset_permitted:
  assumes "can_reset_interrupted_worktree x s dirty = Inr True"
  shows "entry_permitted x (Reset dirty)"
proof -
  have "\<exists>allowed. all_authorized (cg_permitted (rx_campaign x)) allowed dirty = Inr True"
    using assms by (auto simp: can_reset_interrupted_worktree_def res_simps split: if_splits option.splits sum.splits)
  then show ?thesis
    using all_authorized_permitted by (auto simp: source_paths_def)
qed

interpretation permitted: campaign_frame "stays_permitted x" "entry_permitted x" x for x
  by (unfold_locales; (erule permitted_walks | erule recover_reset_permitted))

section \<open>A small campaign\<close>

definition demo_step :: campaign_step where
  "demo_step = \<lparr>st_id = ''s'', st_kind = VerificationStep, st_task = ''t'', st_allowed = [''src''], st_required = [],
     st_commands = [[''true'']], st_artifacts = [], st_timeout = 60, st_network = ''disabled''\<rparr>"

definition demo_campaign :: campaign where
  "demo_campaign = \<lparr>cg_version = ''rack-ai/campaign/v1'', cg_id = ''c'', cg_repository = ''r'', cg_base_ref = ''main'',
     cg_base_sha = [], cg_branch = ''rack/campaign-c'', cg_permitted = [''src''], cg_allow_commits = True,
     cg_limits = \<lparr>cl_max_runtime = 60, cl_max_steps = 1, cl_max_attempts = 1, cl_heartbeat = 10, cl_network = ''disabled''\<rparr>,
     cg_policy = \<lparr>wp_primary = ''a'', wp_fallback = ''b'', wp_primary_attempts = 1, wp_repair_attempts = 0,
       wp_fallback_attempts = 0\<rparr>,
     cg_steps = [demo_step]\<rparr>"

definition demo_evidence :: git_evidence where
  "demo_evidence = \<lparr>ge_head = [], ge_status = [], ge_diff = [], ge_stat = [], ge_changed = []\<rparr>"

definition demo_outcomes :: outcomes where
  "demo_outcomes = \<lparr>oc_now = (\<lambda>_. 0), oc_operator = (\<lambda>_. []), oc_save = (\<lambda>_. Saved), oc_load = (\<lambda>_. Inr ()),
     oc_emit = (\<lambda>_. Inr ()), oc_lease = (\<lambda>_. Inr ()), oc_acquire = (\<lambda>_. Inr ''l''), oc_release = (\<lambda>_. ()),
     oc_create = (\<lambda>_. Inr ()), oc_write = (\<lambda>_. Inr ()), oc_snapshot = (\<lambda>_. Inr demo_evidence), oc_branch = (\<lambda>_. Inr []),
     oc_head = (\<lambda>_. Inr []), oc_exists = (\<lambda>_. True), oc_reset = (\<lambda>_. Inr ()), oc_commit = (\<lambda>_. Inr []),
     oc_implement = (\<lambda>_. Inr (plain_result [])),
     oc_command = (\<lambda>_. Inr \<lparr>ce_argv = [], ce_exit = 0, ce_stdout = [], ce_stderr = [], ce_timed_out = False\<rparr>),
     oc_artifact = (\<lambda>_. Inr ()), oc_executor = (\<lambda>_. Inr ()), oc_worker = (\<lambda>_. Inr ()), oc_runtime = (\<lambda>_. Inr ''a''),
     oc_review = None, oc_diagnose = None\<rparr>"

definition demo_context :: runner_context where
  "demo_context = \<lparr>rx_world = \<lparr>cw_repository = (\<lambda>_. Inr True), cw_resolve = (\<lambda>_ _. Inr []), cw_command = (\<lambda>_. Inr ()),
       cw_encode = (\<lambda>_. Inr [])\<rparr>,
     rx_campaign = demo_campaign, rx_outcomes = demo_outcomes, rx_max_wait = 10, rx_max_attempts = 3,
     rx_workspace_root = ''/w'', rx_target = (\<lambda>_. None)\<rparr>"

definition demo_runner :: runner where
  "demo_runner = \<lparr>rn_tick = 0, rn_disk = None, rn_revised = [],
     rn_cur = (new_status demo_campaign 0 ''/w/repo'' [] 0)\<lparr>cs_steps :=
       [(pending_step demo_step)\<lparr>sr_disposition := ''accepted''\<rparr>]\<rparr>,
     rn_log = []\<rparr>"

section \<open>Properties\<close>

text \<open>C24: no entry point of the runner loses what the operator decided: whatever happens during a run, a
  cancellation on disk stays, a cancelled campaign stays in a closed state, and every recorded revision and
  step stays recorded.\<close>

theorem operator_decisions_survive:
  "decisions_kept (rn_disk r) (rn_disk (snd (run_campaign x r)))
   \<and> decisions_kept (rn_disk r) (rn_disk (snd (resume_campaign x r)))
   \<and> decisions_kept (rn_disk r) (rn_disk (snd (start_campaign x r)))
   \<and> decisions_kept (rn_disk r) (rn_disk (snd (mark_supervisor_blocked x f why r)))
   \<and> decisions_kept (rn_disk r) (rn_disk (snd (mark_detach_setup_failed x why r)))"
  using decided.keeps_run decided.keeps_resume decided.keeps_start decided.keeps_supervisor_blocked
    decided.keeps_detach_failed
  unfolding keeps_def keeps_decisions_def by blast

text \<open>C23: every action of a run or a resume is one the campaign permits. A model request is isolated from the
  network, bounded by fifteen minutes, and is given permitted paths only to change; an acceptance command is one the
  command policy accepts, bounded by fifteen minutes; a commit takes permitted paths only; and every path that the
  reset of a worktree deletes is permitted or build output, \<open>target\<close>, \<open>.rack-cargo\<close> or below one of them. The
  steps of revisions already on disk have been validated, as the command that appends them does.\<close>

theorem campaign_actions_permitted:
  assumes "revisions_permitted x (rn_revised r)"
  shows "(\<exists>new. rn_log (snd (run_campaign x r)) = rn_log r @ new \<and> list_all (entry_permitted x) new)
    \<and> (\<exists>new. rn_log (snd (resume_campaign x r)) = rn_log r @ new \<and> list_all (entry_permitted x) new)"
  using permitted.keeps_run[of x] permitted.keeps_resume[of x] assms
  unfolding keeps_def stays_permitted_def list_all_iff by blast

theorem campaign_actions_permitted_witness:
  "\<exists>new. rn_log (snd (run_campaign live_context interrupted_runner)) = new \<and>
     {Reset [''s''], Implement ''/w/campaign-c/repo'' [''s''] 60 True ''a'', RunCommand [''c''] 60, Commit ''s'' [''s'']}
       \<subseteq> set new \<and> list_all (entry_permitted live_context) new"
proof -
  have r: "revisions_permitted live_context (rn_revised interrupted_runner)" "rn_log interrupted_runner = []"
    by (simp_all add: interrupted_runner_def revisions_permitted_def)
  from campaign_actions_permitted[OF r(1)] live_run show ?thesis unfolding r(2) by simp
qed

text \<open>C25: a walk over the steps that completes the campaign has every step accepted in its status.\<close>

theorem completed_only_accepted:
  assumes "walk_steps x steps r = (y, r')" "cs_state (rn_cur r) \<noteq> CCompleted" "cs_state (rn_cur r') = CCompleted"
  shows "list_all (\<lambda>step. accepted_step (st_id step) (rn_cur r')) steps"
  using walk_completes[OF assms] by (simp add: list_all_iff)

lemma demo_walk:
  "cs_state (rn_cur demo_runner) = CRunning"
  "cs_state (rn_cur (snd (walk_steps demo_context [demo_step] demo_runner))) = CCompleted"
  by (simp_all add: demo_runner_def demo_context_def demo_outcomes_def demo_step_def new_status_def pending_step_def
      complete_campaign_def run_bind_def cur_def run_lift_def ask_def arrive_def upd_cur_def refresh_budget_def
      save_cur_def save_status_def emit_def emit_for_def ask_res_def note_entry_def budget_with_def merge_runner_state_def Let_def)

theorem completed_only_accepted_witness:
  "list_all (\<lambda>step. accepted_step (st_id step) (rn_cur (snd (walk_steps demo_context [demo_step] demo_runner)))) [demo_step]"
  by (rule completed_only_accepted[OF surjective_pairing]) (simp_all only: demo_walk campaign_state.distinct not_False_eq_True)

text \<open>C26: a step, and the whole walk, record no more attempts than the campaign allows.\<close>

theorem attempts_bounded:
  "total_attempts (rn_cur (snd (execute_step x step r)))
     \<le> max (total_attempts (rn_cur r)) (cl_max_attempts (cg_limits (rx_campaign x)))
   \<and> total_attempts (rn_cur (snd (walk_steps x steps r)))
     \<le> max (total_attempts (rn_cur r)) (cl_max_attempts (cg_limits (rx_campaign x)))"
  using step_within[of x step] walk_within[of x steps]
  unfolding stays_within_def within_budget_def by (simp add: le_max_iff_disj)

text \<open>C27: the loops of the runner end by themselves, whatever the surroundings answer: no bound above the model's
  changes what the turns of an implementation step, the model requests, the wait for a worker and the
  retries of a review do.\<close>

theorem campaign_loops_end:
  "run_loop (turns_left m + 1 + k) (implementation_turn x step) m r = run_loop (turns_left m + 1) (implementation_turn x step) m r
   \<and> run_loop (rx_max_attempts x + 1 + k) (request_turn x step n worker w t started) 0 r
     = request_model x step n worker w t started r
   \<and> run_loop (rx_max_attempts x + 1 + k) (health_turn x worker started) 0 r
     = run_loop (rx_max_attempts x + 1) (health_turn x worker started) 0 r
   \<and> run_loop (4 + k) (review_turn x step worker n t reviewer) 0 r = run_loop 4 (review_turn x step worker n t reviewer) 0 r"
  unfolding request_model_def
  by (intro conjI run_loop_enough[where f = turns_left] run_loop_enough[where f = "\<lambda>a. rx_max_attempts x - a"]
      run_loop_enough[where f = "\<lambda>a. 3 - a"]; (erule turn_lowers request_lowers health_lowers review_lowers)?; simp)

text \<open>C28: a resumed campaign goes on after a recovery that has just blocked it: when the document is no longer the
  one the status records, \<open>run\<close> stops with the campaign blocked, and \<open>resume\<close> runs the changed document.\<close>

theorem resume_ignores_blocked_recovery:
  assumes "campaign_digest (rx_world x) (rx_campaign x) = Inr d" "d \<noteq> cs_digest (rn_cur r)"
    "\<And>n. oc_save (rx_outcomes x) n = Saved" "\<And>n. oc_emit (rx_outcomes x) n = Inr ()"
  shows "\<exists>r'. cs_state (rn_cur r') = CBlocked \<and> cs_blocked (rn_cur r') = Some ''continuity_failed''
    \<and> run_with_lease x False r = (Inr (), r') \<and> run_with_lease x True r = run_recovered x r'"
proof -
  have "\<exists>r'. recover_campaign x r = (Inr (), r') \<and> cs_state (rn_cur r') = CBlocked
      \<and> cs_blocked (rn_cur r') = Some ''continuity_failed''"
    using assms
    by (simp add: recover_campaign_def recover_worktree_def run_bind_def run_lift_def cur_def block_in_place_def block_def
        ask_def save_status_def emit_for_def ask_res_def note_entry_def set_cur_def run_return_def blocked_state_def Let_def)
  then obtain r' where r': "recover_campaign x r = (Inr (), r')" "cs_state (rn_cur r') = CBlocked"
    "cs_blocked (rn_cur r') = Some ''continuity_failed''" by blast
  then show ?thesis
    by (intro exI[of _ r']) (simp add: run_with_lease_def run_bind_def cur_def run_return_def)
qed

theorem resume_ignores_blocked_recovery_witness:
  "\<exists>r'. cs_state (rn_cur r') = CBlocked \<and> cs_blocked (rn_cur r') = Some ''continuity_failed''
    \<and> run_with_lease demo_context False demo_runner = (Inr (), r')
    \<and> run_with_lease demo_context True demo_runner = run_recovered demo_context r'"
  by (rule resume_ignores_blocked_recovery[where d = "0xcbf29ce484222325"])
    (simp_all add: campaign_digest_def demo_context_def demo_runner_def demo_outcomes_def new_status_def fnv1a64_def)

end
