(* ===== verification/Campaign_Lease.thy ===== *)
theory Campaign_Lease
  imports Campaign_Run
begin

text \<open>
  The leases of campaigns, \<open>campaign_lease.rs\<close> of the application: a file for the campaign and a file for its
  repository, changed under one lock. Times and heartbeats are numbers of seconds (decimal text in the code,
  read as zero when it is none). Reading, writing and removing a file, and whether a process is alive, are
  outcomes; the thread of the background heartbeat calls the heartbeat modelled here.
\<close>

section \<open>State\<close>

record campaign_lease =
  kl_campaign :: string
  kl_repository :: string
  kl_pid :: nat
  kl_acquired :: nat
  kl_heartbeat :: nat
  kl_interval :: nat
  kl_timeout :: nat

datatype lease_path = CampaignLease string | RepositoryLease string

type_synonym lease_files = "lease_path \<Rightarrow> campaign_lease option"

text \<open>The process that acts, and what its system calls answer.\<close>

record lease_process =
  lp_pid :: nat
  lp_now :: nat
  lp_alive :: "nat \<Rightarrow> bool"
  lp_lock :: "unit res"
  lp_read :: "lease_path \<Rightarrow> unit res"
  lp_write :: "lease_path \<Rightarrow> save_outcome"
  lp_remove :: "lease_path \<Rightarrow> unit res"

section \<open>Operations\<close>

definition lease_is_stale :: "nat \<Rightarrow> nat \<Rightarrow> nat \<Rightarrow> campaign_lease \<Rightarrow> bool" where
  "lease_is_stale clock interval timeout l \<longleftrightarrow>
     (let i = (if kl_interval l = 0 then interval else kl_interval l);
          t = (if kl_timeout l = 0 then timeout else kl_timeout l) in
      sat_add (sat_add (kl_heartbeat l) (sat_mul i 2)) t < clock)"

definition lease_is_active :: "lease_process \<Rightarrow> nat \<Rightarrow> nat \<Rightarrow> campaign_lease \<Rightarrow> bool" where
  "lease_is_active p interval timeout l \<longleftrightarrow>
     lp_alive p (kl_pid l) \<and> \<not> lease_is_stale (lp_now p) interval timeout l"

definition read_lease :: "lease_process \<Rightarrow> lease_path \<Rightarrow> campaign_lease \<Rightarrow> campaign_lease res" where
  "read_lease p f l = res_bind (lp_read p f) (\<lambda>_. Inr l)"

definition remove_lease :: "lease_process \<Rightarrow> lease_path \<Rightarrow> lease_files \<Rightarrow> unit res \<times> lease_files" where
  "remove_lease p f fs = (case lp_remove p f of Inl e \<Rightarrow> (Inl e, fs) | Inr _ \<Rightarrow> (Inr (), fs(f := None)))"

definition write_lease :: "lease_process \<Rightarrow> lease_path \<Rightarrow> campaign_lease \<Rightarrow> lease_files \<Rightarrow> unit res \<times> lease_files" where
  "write_lease p f l fs =
     (case lp_write p f of
        Saved \<Rightarrow> (Inr (), fs(f \<mapsto> l))
      | NotSaved e \<Rightarrow> (Inl e, fs)
      | SavedAndFailed e \<Rightarrow> (Inl e, fs(f \<mapsto> l)))"

definition fail_if_held ::
  "lease_process \<Rightarrow> lease_path \<Rightarrow> string \<Rightarrow> nat \<Rightarrow> nat \<Rightarrow> lease_files \<Rightarrow> unit res \<times> lease_files" where
  "fail_if_held p f c interval timeout fs =
     (case fs f of
        None \<Rightarrow> (Inr (), fs)
      | Some l \<Rightarrow>
          (case read_lease p f l of
             Inl e \<Rightarrow> (Inl e, fs)
           | Inr l \<Rightarrow>
               if kl_pid l = lp_pid p then (Inr (), fs)
               else if lease_is_active p interval timeout l then (Inl (''campaign '' @ c @ '' lease is held by live pid '' @ natural_text (kl_pid l)), fs)
               else remove_lease p f fs))"

definition fail_if_repository_held ::
  "lease_process \<Rightarrow> string \<Rightarrow> string \<Rightarrow> nat \<Rightarrow> nat \<Rightarrow> lease_files \<Rightarrow> unit res \<times> lease_files" where
  "fail_if_repository_held p r c interval timeout fs =
     (let f = RepositoryLease r in
      case fs f of
        None \<Rightarrow> (Inr (), fs)
      | Some l \<Rightarrow>
          (case read_lease p f l of
             Inl e \<Rightarrow> (Inl e, fs)
           | Inr l \<Rightarrow>
               if kl_campaign l = c then fail_if_held p f c interval timeout fs
               else if lease_is_active p interval timeout l
               then (Inl (''repository '' @ r @ '' already has an active campaign lease held by '' @ kl_campaign l), fs)
               else remove_lease p f fs))"

definition acquire_campaign_lease ::
  "lease_process \<Rightarrow> string \<Rightarrow> string \<Rightarrow> nat \<Rightarrow> nat \<Rightarrow> lease_files \<Rightarrow> campaign_lease res \<times> lease_files" where
  "acquire_campaign_lease p c r interval timeout fs =
     (case lp_lock p of
        Inl e \<Rightarrow> (Inl e, fs)
      | Inr _ \<Rightarrow>
          (case fail_if_held p (CampaignLease c) c interval timeout fs of
             (Inl e, fs) \<Rightarrow> (Inl e, fs)
           | (Inr _, fs) \<Rightarrow>
               (case fail_if_repository_held p r c interval timeout fs of
                  (Inl e, fs) \<Rightarrow> (Inl e, fs)
                | (Inr _, fs) \<Rightarrow>
                    (let l = \<lparr>kl_campaign = c, kl_repository = r, kl_pid = lp_pid p, kl_acquired = lp_now p,
                           kl_heartbeat = lp_now p, kl_interval = interval, kl_timeout = timeout\<rparr> in
                     case write_lease p (CampaignLease c) l fs of
                       (Inl e, fs) \<Rightarrow> (Inl e, fs)
                     | (Inr _, fs) \<Rightarrow>
                         (case write_lease p (RepositoryLease r) l fs of
                            (Inl e, fs) \<Rightarrow> (Inl e, fs)
                          | (Inr _, fs) \<Rightarrow> (Inr l, fs))))))"

definition heartbeat_campaign_lease ::
  "lease_process \<Rightarrow> string \<Rightarrow> string \<Rightarrow> lease_files \<Rightarrow> unit res \<times> lease_files" where
  "heartbeat_campaign_lease p c r fs =
     (case lp_lock p of
        Inl e \<Rightarrow> (Inl e, fs)
      | Inr _ \<Rightarrow>
          (case fs (CampaignLease c) of
             None \<Rightarrow> (Inl (''campaign lease missing: '' @ c), fs)
           | Some l \<Rightarrow>
               (case read_lease p (CampaignLease c) l of
                  Inl e \<Rightarrow> (Inl e, fs)
                | Inr l \<Rightarrow>
                    if kl_pid l \<noteq> lp_pid p then (Inl (''campaign lease is owned by pid '' @ natural_text (kl_pid l)), fs)
                    else
                      (let l = l\<lparr>kl_heartbeat := lp_now p\<rparr> in
                       case write_lease p (CampaignLease c) l fs of
                         (Inl e, fs) \<Rightarrow> (Inl e, fs)
                       | (Inr _, fs) \<Rightarrow> write_lease p (RepositoryLease r) l fs))))"

definition release_campaign_lease ::
  "lease_process \<Rightarrow> string \<Rightarrow> string \<Rightarrow> lease_files \<Rightarrow> unit res \<times> lease_files" where
  "release_campaign_lease p c r fs =
     (case lp_lock p of
        Inl e \<Rightarrow> (Inl e, fs)
      | Inr _ \<Rightarrow>
          (case (if fs (CampaignLease c) = None then (Inr (), fs) else remove_lease p (CampaignLease c) fs) of
             (Inl e, fs) \<Rightarrow> (Inl e, fs)
           | (Inr _, fs) \<Rightarrow>
               (case fs (RepositoryLease r) of
                  None \<Rightarrow> (Inr (), fs)
                | Some l \<Rightarrow>
                    (case read_lease p (RepositoryLease r) l of
                       Inl e \<Rightarrow> (Inr (), fs)
                     | Inr l \<Rightarrow> if kl_campaign l = c then remove_lease p (RepositoryLease r) fs else (Inr (), fs)))))"

section \<open>What an acquisition gives\<close>

text \<open>A lease that does not stand in the way of campaign \<open>c\<close>: its own process's, or that of a process that is gone or late.\<close>

definition lease_yields :: "lease_process \<Rightarrow> nat \<Rightarrow> nat \<Rightarrow> campaign_lease option \<Rightarrow> bool" where
  "lease_yields p interval timeout l \<longleftrightarrow>
     (case l of None \<Rightarrow> True | Some l \<Rightarrow> kl_pid l = lp_pid p \<or> \<not> lease_is_active p interval timeout l)"

lemma remove_lease_Inr: "remove_lease p f fs = (Inr u, fs') \<Longrightarrow> fs' = fs(f := None)"
  by (auto simp: remove_lease_def split: sum.splits)

lemma write_lease_Inr: "write_lease p f l fs = (Inr u, fs') \<Longrightarrow> fs' = fs(f \<mapsto> l)"
  by (auto simp: write_lease_def split: save_outcome.splits)

lemma fail_if_held_Inr:
  assumes "fail_if_held p f c interval timeout fs = (Inr u, fs')"
  shows "lease_yields p interval timeout (fs f)" "fs' = fs \<or> fs' = fs(f := None)"
  using assms
  by (auto simp: fail_if_held_def lease_yields_def read_lease_def res_simps dest!: remove_lease_Inr
      split: option.splits sum.splits if_splits)

lemma fail_if_repository_held_Inr:
  assumes "fail_if_repository_held p r c interval timeout fs = (Inr u, fs')"
  shows "case fs (RepositoryLease r) of None \<Rightarrow> True | Some l \<Rightarrow>
      kl_campaign l = c \<and> kl_pid l = lp_pid p \<or> \<not> lease_is_active p interval timeout l"
    "fs' = fs \<or> fs' = fs(RepositoryLease r := None)"
  using assms
  by (auto simp: fail_if_repository_held_def Let_def lease_yields_def read_lease_def res_simps
      dest: fail_if_held_Inr dest!: remove_lease_Inr split: option.splits sum.splits if_splits)

lemma acquire_lease_facts:
  assumes "acquire_campaign_lease p c r interval timeout fs = (Inr l, fs')"
  shows "fs' = fs(CampaignLease c \<mapsto> l, RepositoryLease r \<mapsto> l)"
    "lease_yields p interval timeout (fs (CampaignLease c))"
    "case fs (RepositoryLease r) of None \<Rightarrow> True | Some old \<Rightarrow>
      kl_campaign old = c \<and> kl_pid old = lp_pid p \<or> \<not> lease_is_active p interval timeout old"
    "kl_campaign l = c \<and> kl_repository l = r \<and> kl_pid l = lp_pid p \<and> kl_heartbeat l = lp_now p"
proof -
  from assms obtain u fs1 fs2 fs3 where
    1: "fail_if_held p (CampaignLease c) c interval timeout fs = (Inr u, fs1)" and
    2: "fail_if_repository_held p r c interval timeout fs1 = (Inr (), fs2)" and
    l: "l = \<lparr>kl_campaign = c, kl_repository = r, kl_pid = lp_pid p, kl_acquired = lp_now p,
          kl_heartbeat = lp_now p, kl_interval = interval, kl_timeout = timeout\<rparr>" and
    3: "write_lease p (CampaignLease c) l fs2 = (Inr (), fs3)" and
    4: "write_lease p (RepositoryLease r) l fs3 = (Inr (), fs')"
    by (auto simp: acquire_campaign_lease_def Let_def split: sum.splits prod.splits)
  note h1 = fail_if_held_Inr[OF 1] and h2 = fail_if_repository_held_Inr[OF 2]
  have same: "fs1 (RepositoryLease r) = fs (RepositoryLease r)" using h1(2) by auto
  show "lease_yields p interval timeout (fs (CampaignLease c))" by (rule h1(1))
  show "case fs (RepositoryLease r) of None \<Rightarrow> True | Some old \<Rightarrow>
      kl_campaign old = c \<and> kl_pid old = lp_pid p \<or> \<not> lease_is_active p interval timeout old"
    using h2(1) by (simp add: same)
  show "fs' = fs(CampaignLease c \<mapsto> l, RepositoryLease r \<mapsto> l)"
    using write_lease_Inr[OF 3] write_lease_Inr[OF 4] h1(2) h2(2) by auto
  show "kl_campaign l = c \<and> kl_repository l = r \<and> kl_pid l = lp_pid p \<and> kl_heartbeat l = lp_now p"
    by (simp add: l)
qed

section \<open>Properties\<close>

text \<open>A late lease of process 2 for the campaign \<open>a\<close>, and process 1 that takes its repository for \<open>b\<close>.\<close>

definition process_at :: "nat \<Rightarrow> lease_process" where
  "process_at n = \<lparr>lp_pid = n, lp_now = 1000, lp_alive = (\<lambda>_. True), lp_lock = Inr (), lp_read = (\<lambda>_. Inr ()),
     lp_write = (\<lambda>_. Saved), lp_remove = (\<lambda>_. Inr ())\<rparr>"

definition late_lease :: campaign_lease where
  "late_lease = \<lparr>kl_campaign = ''a'', kl_repository = ''r'', kl_pid = 2, kl_acquired = 0, kl_heartbeat = 0,
     kl_interval = 10, kl_timeout = 60\<rparr>"

definition taken_lease :: campaign_lease where
  "taken_lease = \<lparr>kl_campaign = ''b'', kl_repository = ''r'', kl_pid = 1, kl_acquired = 1000, kl_heartbeat = 1000,
     kl_interval = 10, kl_timeout = 60\<rparr>"

definition contested_files :: lease_files where
  "contested_files = [CampaignLease ''a'' \<mapsto> late_lease, RepositoryLease ''r'' \<mapsto> late_lease]"

lemma lease_takeover:
  "acquire_campaign_lease (process_at 1) ''b'' ''r'' 10 60 contested_files =
     (Inr taken_lease, contested_files(CampaignLease ''b'' \<mapsto> taken_lease, RepositoryLease ''r'' \<mapsto> taken_lease))"
  by (simp add: acquire_campaign_lease_def fail_if_held_def fail_if_repository_held_def read_lease_def remove_lease_def
      write_lease_def lease_is_active_def lease_is_stale_def process_at_def late_lease_def taken_lease_def
      contested_files_def sat_add_def sat_mul_def u64_max_def Let_def fun_upd_twist)

text \<open>A campaign that acquires its leases holds both files, and took them from nobody who was there: the
  repository's lease was free, or its own process's for the same campaign, or that of a process that is gone or has
  not beaten in time; likewise the campaign's. The files of other campaigns and repositories are untouched.\<close>

theorem campaign_lease_exclusive:
  assumes "acquire_campaign_lease p c r interval timeout fs = (Inr l, fs')"
  shows "fs' = fs(CampaignLease c \<mapsto> l, RepositoryLease r \<mapsto> l) \<and> kl_campaign l = c \<and> kl_pid l = lp_pid p
    \<and> lease_yields p interval timeout (fs (CampaignLease c))
    \<and> (case fs (RepositoryLease r) of None \<Rightarrow> True | Some old \<Rightarrow>
        kl_campaign old = c \<and> kl_pid old = lp_pid p \<or> \<not> lease_is_active p interval timeout old)"
  using acquire_lease_facts[OF assms] by simp

theorem campaign_lease_exclusive_witness:
  "kl_campaign taken_lease = ''b'' \<and> lease_yields (process_at 1) 10 60 (contested_files (CampaignLease ''b''))
    \<and> \<not> lease_is_active (process_at 1) 10 60 late_lease"
  using campaign_lease_exclusive[OF lease_takeover]
  by (simp add: contested_files_def process_at_def late_lease_def)

text \<open>A campaign that lost its repository to another takes it back with its next heartbeat: the heartbeat looks at
  the campaign's own file only and then writes the repository's, so both run on one repository.\<close>

theorem heartbeat_takes_repository_back:
  assumes "acquire_campaign_lease p c r interval timeout fs = (Inr l, fs')"
    "fs (CampaignLease c') = Some l'" "c' \<noteq> c" "kl_pid l' = lp_pid p'"
    "lp_lock p' = Inr ()" "\<And>f. lp_read p' f = Inr ()" "\<And>f. lp_write p' f = Saved"
  shows "fs' (RepositoryLease r) = Some l
    \<and> heartbeat_campaign_lease p' c' r fs' =
      (Inr (), fs'(CampaignLease c' \<mapsto> l'\<lparr>kl_heartbeat := lp_now p'\<rparr>, RepositoryLease r \<mapsto> l'\<lparr>kl_heartbeat := lp_now p'\<rparr>))"
proof -
  have "fs' = fs(CampaignLease c \<mapsto> l, RepositoryLease r \<mapsto> l)" by (rule acquire_lease_facts(1)[OF assms(1)])
  then show ?thesis using assms(2-) by (simp add: heartbeat_campaign_lease_def read_lease_def write_lease_def Let_def)
qed

theorem heartbeat_takes_repository_back_witness:
  "heartbeat_campaign_lease (process_at 2) ''a'' ''r''
      (contested_files(CampaignLease ''b'' \<mapsto> taken_lease, RepositoryLease ''r'' \<mapsto> taken_lease))
    = (Inr (), contested_files(CampaignLease ''b'' \<mapsto> taken_lease, RepositoryLease ''r'' \<mapsto> taken_lease,
        CampaignLease ''a'' \<mapsto> late_lease\<lparr>kl_heartbeat := 1000\<rparr>, RepositoryLease ''r'' \<mapsto> late_lease\<lparr>kl_heartbeat := 1000\<rparr>))"
  using heartbeat_takes_repository_back[OF lease_takeover, of "''a''" late_lease "process_at 2"]
  by (simp add: contested_files_def process_at_def late_lease_def)

text \<open>The release of a campaign removes its lease whoever holds it: after a takeover the first runner, when it
  ends, deletes the second's.\<close>

lemma release_ignores_owner:
  assumes "lp_lock p = Inr ()" "\<And>f. lp_remove p f = Inr ()" "\<And>f. lp_read p f = Inr ()"
    "fs (CampaignLease c) = Some l" "fs (RepositoryLease r) = Some l" "kl_campaign l = c" "kl_pid l \<noteq> lp_pid p"
  shows "release_campaign_lease p c r fs = (Inr (), fs(CampaignLease c := None, RepositoryLease r := None))"
  using assms by (simp add: release_campaign_lease_def remove_lease_def read_lease_def)

end
