(* ===== verification/Change.thy ===== *)
theory Change
  imports Campaign
begin

text \<open>
  The execution of one change, \<open>execute_change.rs\<close>, \<open>prepare_change.rs\<close>, \<open>change_request.rs\<close> and
  \<open>execute_workspace.rs\<close> of the application: the validated request, the pipeline of inspection, implementation,
  acceptance and commit over a review packet, and the execution of a workspace request. Git, the registry, the
  implementer, the executor and the store of packets are outcomes; the times of the activity events are left out.
\<close>

section \<open>Requests\<close>

record change_document =
  cd_change_id :: string
  cd_repository :: repository_document
  cd_task :: string
  cd_allowed_paths :: "string list"
  cd_acceptance :: acceptance_document
  cd_resources :: "string list"
  cd_limits :: limits_document

record change_request =
  cq_id :: string
  cq_repository :: string
  cq_root :: string
  cq_base_ref :: string
  cq_base_sha :: string
  cq_task :: string
  cq_allowed :: "string list"
  cq_commands :: "string list list"
  cq_artifacts :: "string list"
  cq_resources :: "string list"
  cq_attempts :: nat
  cq_timeout :: nat

datatype execution_mode = PrepareOnly | ChecksOnly | ImplementAndVerify

fun runs_implementer :: "execution_mode \<Rightarrow> bool" where
  "runs_implementer m \<longleftrightarrow> m = ImplementAndVerify"

fun runs_checks :: "execution_mode \<Rightarrow> bool" where
  "runs_checks m \<longleftrightarrow> m = ChecksOnly \<or> m = ImplementAndVerify"

datatype change_status =
    ChangePrepared | ChangeChecksPassed | ChangeChecksFailed | ChangePathPolicyFailed | ChangeExecutorUnavailable
  | ChangeFailed

definition is_successful :: "change_status \<Rightarrow> bool" where
  "is_successful s \<longleftrightarrow> s = ChangePrepared \<or> s = ChangeChecksPassed"

datatype acceptance_verdict = Approved | Rejected

text \<open>The surroundings of a change; the number of a call tells repeated questions apart.\<close>

record change_world =
  xw_target :: "string \<Rightarrow> string option \<Rightarrow> (bool \<times> string) res"
  xw_sha :: "string \<Rightarrow> string \<Rightarrow> string res"
  xw_resources :: "string list \<Rightarrow> string list res"
  xw_root :: "string res"
  xw_create :: "string \<Rightarrow> string \<Rightarrow> string \<Rightarrow> string \<Rightarrow> (string \<times> string) res"
  xw_inspect :: "nat \<Rightarrow> git_evidence res"
  xw_commit :: "string list \<Rightarrow> string res"
  xw_implement :: "implement_result res option"
  xw_check :: "nat \<Rightarrow> unit res"
  xw_executor :: bool
  xw_command :: "nat \<Rightarrow> command_evidence res"
  xw_artifact :: "string \<Rightarrow> unit res"

section \<open>The values of a request\<close>

definition change_id :: "string \<Rightarrow> string res" where
  "change_id v =
     (let t = trim v in
      if t = [] then Inl ''change id cannot be empty''
      else if \<exists>c \<in> set t. \<not> (ascii_alphanumeric c \<or> c \<in> set ''-_.'') then Inl ''change id must be filesystem-safe''
      else if hd t = CHR ''.'' \<or> last t = CHR ''.'' then Inl ''change id must be filesystem-safe''
      else Inr t)"

definition change_task :: "string \<Rightarrow> string res" where
  "change_task v = (if trim v = [] then Inl ''change task cannot be empty'' else Inr (trim v))"

definition required_artifact :: "string \<Rightarrow> string res" where
  "required_artifact v =
     (let t = trim v in
      if t = [] then Inl ''required artifact path cannot be empty''
      else if starts_with t ''/'' \<or> ''..'' \<in> set (path_parts t)
      then Inl ''required artifact must be a relative workspace path''
      else Inr t)"

definition attempt_limit :: "nat \<Rightarrow> nat res" where
  "attempt_limit n = (if n = 0 then Inl ''attempt limit must be greater than zero'' else Inr n)"

definition timeout_seconds :: "nat \<Rightarrow> nat res" where
  "timeout_seconds n = (if n = 0 then Inl ''timeout seconds must be greater than zero'' else Inr n)"

definition network_policy :: "string \<Rightarrow> unit res" where
  "network_policy v =
     (if v = ''disabled'' then Inr () else Inl ''external-repository changes require network=disabled'')"

text \<open>The command policy of both the change and the campaign: no shell interpreter.\<close>

definition shell_name :: "string \<Rightarrow> bool" where
  "shell_name program \<longleftrightarrow>
     lowercase (last (split_on (CHR 0x5C) (last (split_on CHR ''/'' program)))) \<in>
       {''sh'', ''bash'', ''zsh'', ''fish'', ''cmd'', ''cmd.exe'', ''powershell'', ''powershell.exe'', ''pwsh'', ''pwsh.exe''}"

definition assert_allowed :: "string list \<Rightarrow> unit res" where
  "assert_allowed argv =
     (if shell_name (hd argv)
      then Inl (''acceptance command '' @ hd argv @ '' must not invoke a shell interpreter'')
      else Inr ())"

definition acceptance_policy :: "string list list \<Rightarrow> string list list res" where
  "acceptance_policy cs = (if cs = [] then Inl ''acceptance commands cannot be empty'' else Inr cs)"

definition repository_target :: "string \<Rightarrow> unit res" where
  "repository_target root =
     (if starts_with root ''/'' then Inr () else Inl ''registered repository root must be an absolute path'')"

text \<open>\<open>ChangeRequest::from_document\<close>, its checks in order.\<close>

definition base_sha_of :: "string option \<Rightarrow> string \<Rightarrow> string res" where
  "base_sha_of declared resolved =
     (case declared of
        None \<Rightarrow> Inr resolved
      | Some d \<Rightarrow>
          res_bind (git_sha d) (\<lambda>d.
          if d \<noteq> resolved then Inl ''base sha does not match the registered repository baseline'' else Inr d))"

definition request_from_document :: "change_world \<Rightarrow> change_document \<Rightarrow> change_request res" where
  "request_from_document w d =
     (let r = cd_repository d; a = cd_acceptance d; l = cd_limits d in
      if rd_registered_root r \<noteq> None \<and> rd_root r \<noteq> None
      then Inl ''repository must not specify both registered_root and root''
      else
        res_bind (change_id (cd_change_id d)) (\<lambda>k.
        res_bind (repository_id (rd_id r)) (\<lambda>repo.
        res_bind (xw_target w repo (rd_root r)) (\<lambda>(enabled, root).
        if \<not> enabled then Inl (''repository '' @ repo @ '' is disabled'')
        else if is_some_and (rd_registered_root r) (\<lambda>x. x \<noteq> root)
        then Inl (''registered_root does not match repository registry for '' @ repo)
        else
          res_bind (git_ref (rd_base_ref r)) (\<lambda>base.
          res_bind (xw_sha w root base) (\<lambda>resolved.
          res_bind (base_sha_of (rd_base_sha r) resolved) (\<lambda>sha.
          res_bind (res_bind (map_res allowed_path (cd_allowed_paths d)) allowed_paths) (\<lambda>allowed.
          res_bind (map_res acceptance_command (ad_commands a)) (\<lambda>commands.
          res_bind (map_res assert_allowed commands) (\<lambda>_.
          res_bind (xw_resources w (cd_resources d)) (\<lambda>resources.
          res_bind (map_res required_artifact (ad_required_artifacts a)) (\<lambda>artifacts.
          res_bind (attempt_limit (ld_max_implementation_attempts l)) (\<lambda>attempts.
          res_bind (timeout_seconds (ld_timeout_seconds l)) (\<lambda>timeout.
          res_bind (network_policy (ld_network l)) (\<lambda>_.
          res_bind (repository_target root) (\<lambda>_.
          res_bind (change_task (cd_task d)) (\<lambda>task.
          res_bind (acceptance_policy commands) (\<lambda>commands.
            Inr \<lparr>cq_id = k, cq_repository = repo, cq_root = root, cq_base_ref = base, cq_base_sha = sha, cq_task = task,
              cq_allowed = allowed, cq_commands = commands, cq_artifacts = artifacts, cq_resources = resources,
              cq_attempts = attempts, cq_timeout = timeout\<rparr>))))))))))))))))))"

section \<open>The packet\<close>

record review_packet =
  pk_change :: string
  pk_repository :: string
  pk_root :: string
  pk_base_ref :: string
  pk_base_sha :: string
  pk_branch :: string
  pk_worktree :: string
  pk_task :: string
  pk_allowed :: "string list"
  pk_changed :: "string list"
  pk_git_status :: string
  pk_diff_stat :: string
  pk_diff :: string
  pk_head :: string
  pk_commands :: "command_evidence list"
  pk_artifacts :: "string list"
  pk_output :: "string option"
  pk_verdict :: "acceptance_verdict option"
  pk_status :: change_status
  pk_error :: "string option"
  pk_provenance :: "string option"
  pk_decision :: "string option"
  pk_events :: "(string \<times> string \<times> string option) list"
  pk_tool_calls :: "tool_call list"
  pk_budget :: "nat option"
  pk_deadline :: "string option"

definition packet_from_request :: "change_request \<Rightarrow> review_packet" where
  "packet_from_request q = \<lparr>pk_change = cq_id q, pk_repository = cq_repository q, pk_root = cq_root q,
     pk_base_ref = cq_base_ref q, pk_base_sha = cq_base_sha q, pk_branch = [], pk_worktree = [], pk_task = cq_task q,
     pk_allowed = cq_allowed q, pk_changed = [], pk_git_status = [], pk_diff_stat = [], pk_diff = [], pk_head = [],
     pk_commands = [], pk_artifacts = cq_artifacts q, pk_output = None, pk_verdict = None, pk_status = ChangePrepared,
     pk_error = None, pk_provenance = None, pk_decision = None, pk_events = [], pk_tool_calls = [], pk_budget = None,
     pk_deadline = None\<rparr>"

definition with_git_evidence :: "git_evidence \<Rightarrow> review_packet \<Rightarrow> review_packet" where
  "with_git_evidence g p = p\<lparr>pk_changed := ge_changed g, pk_git_status := ge_status g, pk_diff_stat := ge_stat g,
     pk_diff := ge_diff g, pk_head := ge_head g\<rparr>"

definition with_event :: "string \<Rightarrow> string \<Rightarrow> string option \<Rightarrow> review_packet \<Rightarrow> review_packet" where
  "with_event phase outcome detail p = p\<lparr>pk_events := pk_events p @ [(phase, outcome, detail)]\<rparr>"

definition fail_packet :: "change_status \<Rightarrow> string \<Rightarrow> review_packet \<Rightarrow> review_packet" where
  "fail_packet s e p = p\<lparr>pk_status := s, pk_verdict := Some Rejected, pk_error := Some e\<rparr>"

text \<open>What a change does outside its packet.\<close>

datatype change_action =
    ImplementChange string "string list" nat
  | RunCheck "string list" nat
  | CommitChange "string list"

section \<open>The pipeline\<close>

definition is_execution_timeout :: "string \<Rightarrow> bool" where
  "is_execution_timeout e \<longleftrightarrow> (\<exists>m \<in> set [''wall-clock timeout'', ''worker timeout'', ''timeout exceeded''].
     contains_text m (lowercase e))"

definition check_status :: "string \<Rightarrow> change_status" where
  "check_status e =
     (if contains_text ''podman is not available'' e \<or> contains_text ''not running rootless'' e
      then ChangeExecutorUnavailable else ChangeFailed)"

definition inspect_into :: "change_world \<Rightarrow> nat \<Rightarrow> review_packet \<Rightarrow> review_packet \<times> string + review_packet" where
  "inspect_into w n p = (case xw_inspect w n of Inr g \<Rightarrow> Inr (with_git_evidence g p) | Inl e \<Rightarrow> Inl (p, e))"

definition disallowed :: "change_request \<Rightarrow> string list \<Rightarrow> string list" where
  "disallowed q ps = filter (\<lambda>p. \<not> (\<exists>a \<in> set (cq_allowed q). allows a p)) ps"

definition reject_disallowed :: "change_request \<Rightarrow> review_packet \<Rightarrow> review_packet option" where
  "reject_disallowed q p =
     (let bad = disallowed q (source_paths (pk_changed p)) in
      if bad = [] then None
      else Some (fail_packet ChangePathPolicyFailed (''changed paths outside allowed_paths: '' @ join_with '', '' bad) p))"

definition implement_change ::
  "change_world \<Rightarrow> string option \<Rightarrow> change_request \<Rightarrow> review_packet \<Rightarrow> review_packet \<times> string + review_packet" where
  "implement_change w provenance q p =
     (let p = (case provenance of None \<Rightarrow> p | Some v \<Rightarrow> p\<lparr>pk_provenance := Some v\<rparr>) in
      case xw_implement w of
        None \<Rightarrow> Inr (fail_packet ChangeExecutorUnavailable
          ''qualified implementation harness is required for external-repository implementation'' p)
      | Some (Inl e) \<Rightarrow> Inl (with_event ''agent_execution'' ''failed'' (Some e) p, e)
      | Some (Inr i) \<Rightarrow>
          (let p = p\<lparr>pk_output := Some (ir_output i), pk_tool_calls := ir_tool_calls i\<rparr> in
           case opt_or (ir_protocol_error i) (ir_worker_error i) of
             None \<Rightarrow> Inr (with_event ''agent_execution'' ''completed'' None p)
           | Some e \<Rightarrow>
               (let p = with_event ''agent_execution'' ''failed'' (Some e) p;
                    p = (if is_execution_timeout e then p\<lparr>pk_deadline := Some ''agent_execution''\<rparr> else p) in
                Inr (fail_packet ChangeFailed e p))))"

text \<open>The commands until the first one that the executor could not run: the evidence, the commands tried, the error.\<close>

fun run_check_commands ::
  "change_world \<Rightarrow> nat \<Rightarrow> string list list \<Rightarrow> command_evidence list \<times> string list list \<times> string option" where
  "run_check_commands w n [] = ([], [], None)"
| "run_check_commands w n (argv # rest) =
     (case xw_command w n of
        Inl e \<Rightarrow> ([], [argv], Some e)
      | Inr c \<Rightarrow> (case run_check_commands w (Suc n) rest of (cs, tried, e) \<Rightarrow> (c # cs, argv # tried, e)))"

definition assert_artifacts :: "change_world \<Rightarrow> change_request \<Rightarrow> unit res" where
  "assert_artifacts w q = res_bind (map_res (\<lambda>a. res_bind (workspace_path a) (xw_artifact w)) (cq_artifacts q)) (\<lambda>_. Inr ())"

text \<open>The packet after the commands.\<close>

definition checked_packet ::
  "change_world \<Rightarrow> change_request \<Rightarrow> command_evidence list \<Rightarrow> string option \<Rightarrow> review_packet \<Rightarrow> review_packet" where
  "checked_packet w q cs failed p =
     (let p = p\<lparr>pk_commands := cs\<rparr> in
      case failed of
        Some e \<Rightarrow> fail_packet (check_status e) e (with_event ''acceptance'' ''failed'' (Some e) p)
      | None \<Rightarrow>
          (case List.find (\<lambda>c. \<not> succeeded c) cs of
             Some c \<Rightarrow>
               (let why = (if ce_timed_out c then ''acceptance command exceeded wall-clock timeout: ''
                           else ''acceptance command failed: '') @ join_with '' '' (ce_argv c);
                    p = with_event ''acceptance'' ''failed'' (Some why) p;
                    p = (if ce_timed_out c then p\<lparr>pk_deadline := Some ''acceptance''\<rparr> else p) in
                fail_packet ChangeChecksFailed why p)
           | None \<Rightarrow>
               (case assert_artifacts w q of
                  Inl e \<Rightarrow> fail_packet ChangeChecksFailed e (with_event ''acceptance'' ''failed'' (Some e) p)
                | Inr _ \<Rightarrow> (with_event ''acceptance'' ''completed'' None p)\<lparr>pk_status := ChangeChecksPassed\<rparr>)))"

definition run_checks_of :: "change_world \<Rightarrow> change_request \<Rightarrow> review_packet \<Rightarrow> review_packet \<times> change_action list" where
  "run_checks_of w q p =
     (if pk_status p \<in> {ChangeFailed, ChangePathPolicyFailed, ChangeExecutorUnavailable} then (p, [])
      else if \<not> xw_executor w
      then (fail_packet ChangeExecutorUnavailable
        ''workspace executor is not available for external-repository command execution'' p, [])
      else
        (case run_check_commands w 0 (cq_commands q) of
           (cs, tried, failed) \<Rightarrow> (checked_packet w q cs failed p, map (\<lambda>argv. RunCheck argv (cq_timeout q)) tried)))"

text \<open>The commit of an accepted change; without a changed source path there is none.\<close>

definition materialize :: "change_world \<Rightarrow> review_packet \<Rightarrow> review_packet res \<times> change_action list" where
  "materialize w p =
     (let changed = source_paths (pk_changed p) in
      if changed = [] then (Inr p, [])
      else (res_bind (xw_commit w changed) (\<lambda>sha. Inr (p\<lparr>pk_head := sha\<rparr>)), [CommitChange changed]))"

definition still_allowed :: "change_world \<Rightarrow> nat \<Rightarrow> unit res" where
  "still_allowed w n = (if xw_implement w = None then Inr () else xw_check w n)"

text \<open>The last part: the worktree is looked at again, and a change whose checks passed is committed and approved.\<close>

definition approve_change ::
  "change_world \<Rightarrow> nat \<Rightarrow> change_request \<Rightarrow> review_packet \<Rightarrow> review_packet \<times> change_action list" where
  "approve_change w n q p =
     (case inspect_into w n p of
        Inl (p, e) \<Rightarrow> (fail_packet ChangeFailed e p, [])
      | Inr p \<Rightarrow>
          (case reject_disallowed q p of
             Some rejected \<Rightarrow> (rejected, [])
           | None \<Rightarrow>
               if pk_status p \<noteq> ChangeChecksPassed then (p, [])
               else
                 (case still_allowed w 1 of
                    Inl e \<Rightarrow> (fail_packet ChangeFailed e p, [])
                  | Inr _ \<Rightarrow>
                      (case materialize w p of
                         (Inl e, as) \<Rightarrow> (fail_packet ChangeFailed e p, as)
                       | (Inr p, as) \<Rightarrow> (p\<lparr>pk_verdict := Some Approved\<rparr>, as)))))"

text \<open>From the checks on; \<open>n\<close> counts the inspections so far.\<close>

definition check_change ::
  "change_world \<Rightarrow> nat \<Rightarrow> execution_mode \<Rightarrow> change_request \<Rightarrow> review_packet \<Rightarrow> review_packet \<times> change_action list" where
  "check_change w n mode q p =
     (case still_allowed w 0 of
        Inl e \<Rightarrow> (fail_packet ChangeFailed e p, [])
      | Inr _ \<Rightarrow>
          (let (p, ran) = (if runs_checks mode then run_checks_of w q p else (p, [])) in
           if (runs_implementer mode \<or> runs_checks mode) \<and> pk_status p \<noteq> ChangeExecutorUnavailable
           then (let (p, as) = approve_change w n q p in (p, ran @ as))
           else (p, ran)))"

text \<open>The implementation, and what follows it.\<close>

definition implement_and_check ::
  "change_world \<Rightarrow> execution_mode \<Rightarrow> string option \<Rightarrow> change_request \<Rightarrow> review_packet \<Rightarrow> review_packet \<times> change_action list" where
  "implement_and_check w mode provenance q p =
     (case implement_change w provenance q p of
        Inl (p, e) \<Rightarrow> (fail_packet ChangeFailed e p, [])
      | Inr p \<Rightarrow>
          if pk_status p = ChangeExecutorUnavailable then (p, [])
          else
            (case inspect_into w 1 p of
               Inl (p, e) \<Rightarrow> (fail_packet ChangeFailed e p, [])
             | Inr p \<Rightarrow>
                 (case reject_disallowed q p of
                    Some rejected \<Rightarrow> (rejected, [])
                  | None \<Rightarrow> if pk_status p = ChangeFailed then (p, []) else check_change w 2 mode q p)))"

text \<open>The request to the implementer, when there is one.\<close>

definition implement_action :: "change_world \<Rightarrow> change_request \<Rightarrow> review_packet \<Rightarrow> change_action list" where
  "implement_action w q p =
     (if xw_implement w = None then [] else [ImplementChange (pk_worktree p) (cq_allowed q) (cq_timeout q)])"

definition execute_prepared ::
  "change_world \<Rightarrow> execution_mode \<Rightarrow> string option \<Rightarrow> change_request \<Rightarrow> review_packet \<Rightarrow> review_packet \<times> change_action list" where
  "execute_prepared w mode provenance q p =
     (case inspect_into w 0 p of
        Inl (p, e) \<Rightarrow> (fail_packet ChangeFailed e p, [])
      | Inr p \<Rightarrow>
          (case reject_disallowed q p of
             Some rejected \<Rightarrow> (rejected, [])
           | None \<Rightarrow>
               if \<not> runs_implementer mode then check_change w 1 mode q p
               else (let (p', as) = implement_and_check w mode provenance q p in (p', implement_action w q p @ as))))"

section \<open>The whole change\<close>

definition branch_name :: "string \<Rightarrow> string" where
  "branch_name k = ''rack/change-'' @ k"

definition worktree_path :: "string \<Rightarrow> string \<Rightarrow> string" where
  "worktree_path root k = root @ ''/'' @ k @ ''/repo''"

text \<open>\<open>PrepareChange\<close>: the branch and the path of the worktree.\<close>

definition prepare_change :: "change_world \<Rightarrow> change_request \<Rightarrow> (string \<times> string) res" where
  "prepare_change w q =
     res_bind (xw_root w) (\<lambda>root.
       xw_create w (cq_root q) (cq_base_sha q) (branch_name (cq_id q)) (worktree_path root (cq_id q)))"

text \<open>\<open>ExecuteChange::execute\<close>; \<open>save\<close> stores the packet and gives its path.\<close>

definition execute_change ::
  "change_world \<Rightarrow> (review_packet \<Rightarrow> string res) \<Rightarrow> change_document \<Rightarrow> execution_mode \<Rightarrow> string option
     \<Rightarrow> (review_packet \<times> string) res \<times> change_action list" where
  "execute_change w save d mode provenance =
     (case res_bind (request_from_document w d) (\<lambda>q. res_bind (prepare_change w q) (\<lambda>ws. Inr (q, ws))) of
        Inl e \<Rightarrow> (Inl e, [])
      | Inr (q, branch, worktree) \<Rightarrow>
          (let p = with_event ''setup'' ''completed'' None ((packet_from_request q)
                 \<lparr>pk_branch := branch, pk_worktree := worktree, pk_budget := Some (cq_timeout q)\<rparr>);
               (p, as) = execute_prepared w mode provenance q p in
           (res_bind (save p) (\<lambda>path. Inr (p, path)), as)))"

section \<open>Workspace requests\<close>

text \<open>The worker chosen for a workspace request: its id, the provenance its harness records, and the decision.\<close>

record worker_selection =
  ws_worker :: string
  ws_provenance :: "string option"
  ws_decision :: "string option"

record workspace_result =
  wz_worker :: string
  wz_provenance :: "string option"
  wz_status :: change_status
  wz_verdict :: "acceptance_verdict option"
  wz_revision :: "string option"
  wz_branch :: string
  wz_worktree :: string
  wz_path :: string

definition accepted_revision :: "review_packet \<Rightarrow> string option" where
  "accepted_revision p = (if pk_verdict p = Some Approved then Some (pk_head p) else None)"

definition workspace_result_of :: "worker_selection \<Rightarrow> review_packet \<Rightarrow> string \<Rightarrow> workspace_result" where
  "workspace_result_of s p path = \<lparr>wz_worker = ws_worker s, wz_provenance = pk_provenance p, wz_status = pk_status p,
     wz_verdict = pk_verdict p, wz_revision = accepted_revision p, wz_branch = pk_branch p, wz_worktree = pk_worktree p,
     wz_path = path\<rparr>"

definition execute_workspace ::
  "change_world \<Rightarrow> (review_packet \<Rightarrow> string res) \<Rightarrow> bool res \<Rightarrow> worker_selection res \<Rightarrow> change_document
     \<Rightarrow> workspace_result res \<times> change_action list" where
  "execute_workspace w save known selected d =
     (case res_bind known (\<lambda>k. if k then Inl ''duplicate idempotent submission'' else selected) of
        Inl e \<Rightarrow> (Inl e, [])
      | Inr s \<Rightarrow>
          (case execute_change w save d ImplementAndVerify (ws_provenance s) of
             (Inl e, as) \<Rightarrow> (Inl e, as)
           | (Inr (p, path), as) \<Rightarrow>
               (case ws_decision s of
                  None \<Rightarrow> (Inr (workspace_result_of s p path), as)
                | Some decision \<Rightarrow>
                    (let p = p\<lparr>pk_decision := Some decision\<rparr> in
                     (res_bind (save p) (\<lambda>path.
                        if pk_provenance p \<noteq> Some (ws_worker s)
                        then Inl ''selection and execution provenance worker mismatch''
                        else Inr (workspace_result_of s p path)), as)))))"

end
