(* ===== verification/Change_Safety.thy ===== *)
theory Change_Safety
  imports Change Campaign_Paths
begin

text \<open>
  What the execution of a change guarantees: the verdict follows from the status, an approved change has run
  every acceptance command with success and has committed allowed paths only, and no command is a shell.
\<close>

section \<open>Packets\<close>

text \<open>The verdict of a packet on its way: none, or rejected exactly when its status failed.\<close>

definition undecided :: "review_packet \<Rightarrow> bool" where
  "undecided p \<longleftrightarrow> (if is_successful (pk_status p) then pk_verdict p = None else pk_verdict p = Some Rejected)"

definition decided_packet :: "review_packet \<Rightarrow> bool" where
  "decided_packet p \<longleftrightarrow> (pk_verdict p = Some Approved \<longleftrightarrow> pk_status p = ChangeChecksPassed)
     \<and> (pk_verdict p = Some Rejected \<longleftrightarrow> \<not> is_successful (pk_status p))"

lemma fail_sel [simp]: "pk_verdict (fail_packet s e p) = Some Rejected" "pk_status (fail_packet s e p) = s"
  by (simp_all add: fail_packet_def)

lemma undecided_fail: "\<not> is_successful s \<Longrightarrow> undecided (fail_packet s e p)"
  by (simp add: undecided_def fail_packet_def)

lemma decided_fail: "\<not> is_successful s \<Longrightarrow> decided_packet (fail_packet s e p)"
  by (auto simp: decided_packet_def fail_packet_def is_successful_def)

lemma failing_statuses [simp]:
  "\<not> is_successful ChangeFailed" "\<not> is_successful ChangePathPolicyFailed" "\<not> is_successful ChangeExecutorUnavailable"
  "\<not> is_successful ChangeChecksFailed" "is_successful ChangePrepared" "is_successful ChangeChecksPassed"
  by (simp_all add: is_successful_def)

lemma check_status_fails [simp]: "\<not> is_successful (check_status e)" "check_status e \<noteq> ChangeChecksPassed"
  by (simp_all add: check_status_def)

lemma undecided_cases: "undecided p \<Longrightarrow> pk_status p \<noteq> ChangeChecksPassed \<Longrightarrow> decided_packet p"
  by (cases "pk_status p") (auto simp: undecided_def decided_packet_def is_successful_def)

lemma inspect_sel:
  "inspect_into w n p = Inr p' \<Longrightarrow> pk_status p' = pk_status p \<and> pk_verdict p' = pk_verdict p \<and> pk_commands p' = pk_commands p"
  "inspect_into w n p = Inl (p', e) \<Longrightarrow> p' = p"
  by (auto simp: inspect_into_def with_git_evidence_def split: sum.splits)

lemma reject_cases:
  "reject_disallowed q p = Some r \<Longrightarrow> \<exists>e. r = fail_packet ChangePathPolicyFailed e p"
  "reject_disallowed q p = None \<Longrightarrow> disallowed q (source_paths (pk_changed p)) = []"
  by (auto simp: reject_disallowed_def Let_def split: if_splits)

section \<open>The checks\<close>

lemma run_commands_tried:
  "run_check_commands w n argvs = (cs, tried, e) \<Longrightarrow>
     set tried \<subseteq> set argvs \<and> (e = None \<longrightarrow> tried = argvs \<and> length cs = length argvs)"
  by (induction w n argvs arbitrary: cs tried e rule: run_check_commands.induct) (fastforce split: sum.splits prod.splits)+

lemma checked_status:
  assumes "pk_verdict p = None" "is_successful (pk_status p)"
  shows "undecided (checked_packet w q cs e p)"
    "pk_status (checked_packet w q cs e p) \<noteq> ChangePrepared"
    "pk_status (checked_packet w q cs e p) = ChangeChecksPassed \<Longrightarrow> e = None \<and> list_all succeeded cs \<and> pk_commands (checked_packet w q cs e p) = cs"
proof -
  have all: "List.find (\<lambda>c. \<not> succeeded c) cs = None \<Longrightarrow> list_all succeeded cs"
    by (simp add: find_None_iff list_all_iff)
  show "undecided (checked_packet w q cs e p)"
    using assms by (auto simp: checked_packet_def Let_def undecided_def fail_packet_def with_event_def split: option.splits sum.splits)
  show "pk_status (checked_packet w q cs e p) \<noteq> ChangePrepared"
    by (auto simp: checked_packet_def Let_def fail_packet_def with_event_def check_status_def split: option.splits sum.splits)
  show "pk_status (checked_packet w q cs e p) = ChangeChecksPassed \<Longrightarrow> e = None \<and> list_all succeeded cs \<and> pk_commands (checked_packet w q cs e p) = cs"
    using all by (auto simp: checked_packet_def Let_def fail_packet_def with_event_def check_status_def split: option.splits sum.splits if_splits)
qed

text \<open>What the actions of a change are, and what an approval means.\<close>

definition checks_of :: "change_request \<Rightarrow> change_action list" where
  "checks_of q = map (\<lambda>argv. RunCheck argv (cq_timeout q)) (cq_commands q)"

definition paths_allowed :: "change_request \<Rightarrow> string list \<Rightarrow> bool" where
  "paths_allowed q ps \<longleftrightarrow> list_all (\<lambda>p. \<exists>a \<in> set (cq_allowed q). allows a p) ps"

fun action_ok :: "change_request \<Rightarrow> change_action \<Rightarrow> bool" where
  "action_ok q (ImplementChange dir allowed t) \<longleftrightarrow> allowed = cq_allowed q \<and> t = cq_timeout q"
| "action_ok q (RunCheck argv t) \<longleftrightarrow> argv \<in> set (cq_commands q) \<and> t = cq_timeout q"
| "action_ok q (CommitChange ps) \<longleftrightarrow> ps \<noteq> [] \<and> paths_allowed q ps"

lemma run_checks_result:
  assumes "run_checks_of w q p = (p', as)" "pk_status p = ChangePrepared" "pk_verdict p = None"
  shows "undecided p'" "list_all (action_ok q) as" "pk_status p' \<noteq> ChangePrepared"
    "pk_status p' = ChangeChecksPassed \<Longrightarrow>
       as = checks_of q \<and> list_all succeeded (pk_commands p') \<and> length (pk_commands p') = length (cq_commands q)"
proof -
  obtain cs tried e where c: "run_check_commands w 0 (cq_commands q) = (cs, tried, e)"
    by (cases "run_check_commands w 0 (cq_commands q)") auto
  note t = run_commands_tried[OF c]
  have "is_successful (pk_status p)" by (simp add: assms(2))
  note s = checked_status[OF assms(3) this, of w q cs e]
  from assms c have p': "(\<exists>m. p' = fail_packet ChangeExecutorUnavailable m p \<and> as = []) \<or>
      p' = checked_packet w q cs e p \<and> as = map (\<lambda>argv. RunCheck argv (cq_timeout q)) tried"
    by (auto simp: run_checks_of_def split: if_splits)
  show "undecided p'" using p' s(1) undecided_fail by auto
  show "list_all (action_ok q) as" using p' t by (auto simp: list_all_iff subset_iff)
  show "pk_status p' \<noteq> ChangePrepared" using p' s(2) by (auto simp: fail_packet_def)
  show "pk_status p' = ChangeChecksPassed \<Longrightarrow>
       as = checks_of q \<and> list_all succeeded (pk_commands p') \<and> length (pk_commands p') = length (cq_commands q)"
    using p' s(3) t by (auto simp: fail_packet_def checks_of_def)
qed

section \<open>The approval\<close>

text \<open>What holds of a finished change and its actions.\<close>

definition sound_change :: "change_request \<Rightarrow> review_packet \<Rightarrow> change_action list \<Rightarrow> bool" where
  "sound_change q p as \<longleftrightarrow> decided_packet p \<and> list_all (action_ok q) as \<and>
     (pk_verdict p = Some Approved \<longrightarrow> list_all succeeded (pk_commands p) \<and> length (pk_commands p) = length (cq_commands q) \<and>
        (\<exists>before. as = before @ checks_of q @
          (if source_paths (pk_changed p) = [] then [] else [CommitChange (source_paths (pk_changed p))])))"

lemma allowed_iff: "disallowed q ps = [] \<longleftrightarrow> paths_allowed q ps"
  by (simp add: disallowed_def paths_allowed_def filter_empty_conv list_all_iff)

lemma sound_fail: "\<not> is_successful s \<Longrightarrow> list_all (action_ok q) as \<Longrightarrow> sound_change q (fail_packet s e p) as"
  using decided_fail[of s e p] by (auto simp: sound_change_def fail_packet_def)

lemma materialize_cases:
  assumes "materialize w p = (r, as)" "paths_allowed q (source_paths (pk_changed p))"
  shows "list_all (action_ok q) as"
    "as = (if source_paths (pk_changed p) = [] then [] else [CommitChange (source_paths (pk_changed p))])"
    "r = Inr p' \<Longrightarrow> pk_status p' = pk_status p \<and> pk_changed p' = pk_changed p \<and> pk_commands p' = pk_commands p"
  using assms by (auto simp: materialize_def Let_def res_simps split: if_splits)

lemma approve_sound:
  assumes a: "approve_change w n q p = (p', as)" and u: "undecided p" and s: "pk_status p \<noteq> ChangePrepared"
    and rs: "list_all (action_ok q) rs"
    and passed: "pk_status p = ChangeChecksPassed \<Longrightarrow>
      rs = checks_of q \<and> list_all succeeded (pk_commands p) \<and> length (pk_commands p) = length (cq_commands q)"
  shows "sound_change q p' (rs @ as)"
proof (cases "inspect_into w n p")
  case (Inl pe)
  then show ?thesis using a rs by (cases pe) (auto simp: approve_change_def sound_fail)
next
  case (Inr p1)
  note i = inspect_sel(1)[OF Inr]
  show ?thesis
  proof (cases "reject_disallowed q p1")
    case (Some r)
    then show ?thesis using a Inr rs reject_cases(1)[OF Some] by (auto simp: approve_change_def sound_fail)
  next
    case None
    note allowed = reject_cases(2)[OF None, unfolded allowed_iff]
    show ?thesis
    proof (cases "pk_status p1 = ChangeChecksPassed")
      case False
      then have "undecided p1" using u i by (simp add: undecided_def)
      from undecided_cases[OF this False] show ?thesis
        using a Inr None False rs by (auto simp: approve_change_def sound_change_def decided_packet_def)
    next
      case True
      show ?thesis
      proof (cases "still_allowed w 1")
        case (Inl e)
        then show ?thesis using a Inr None True rs by (auto simp: approve_change_def sound_fail)
      next
        case ok: (Inr v)
        obtain r bs where m: "materialize w p1 = (r, bs)" by fastforce
        note mc = materialize_cases[OF m allowed]
        show ?thesis
        proof (cases r)
          case (Inl e)
          then show ?thesis using a Inr None True ok m rs mc(1) by (auto simp: approve_change_def sound_fail)
        next
          case (Inr p2)
          note k = mc(3)[OF this]
          have "p' = p2\<lparr>pk_verdict := Some Approved\<rparr>" "as = bs"
            using a \<open>inspect_into w n p = Inr p1\<close> None True ok m Inr by (auto simp: approve_change_def)
          then show ?thesis
            using rs mc(1,2) k passed True i by (auto simp: sound_change_def decided_packet_def is_successful_def)
        qed
      qed
    qed
  qed
qed

lemma check_sound:
  assumes "check_change w n mode q p = (p', as)" "pk_status p = ChangePrepared" "pk_verdict p = None"
  shows "sound_change q p' as" "runs_checks mode \<Longrightarrow> pk_verdict p' \<noteq> None"
proof -
  have "sound_change q p' as \<and> (runs_checks mode \<longrightarrow> pk_verdict p' \<noteq> None)"
  proof (cases "still_allowed w 0")
    case (Inl e)
    then show ?thesis using assms by (auto simp: check_change_def sound_fail)
  next
    case ok: (Inr u)
    show ?thesis
    proof (cases "runs_checks mode")
      case False
      then have "p' = p \<and> as = []" using assms(1) ok by (cases mode) (auto simp: check_change_def Let_def)
      then show ?thesis using False assms(2,3) by (simp add: sound_change_def decided_packet_def)
    next
      case True
      obtain p1 rs where c: "run_checks_of w q p = (p1, rs)" by fastforce
      note rc = run_checks_result[OF c assms(2,3)]
      show ?thesis
      proof (cases "pk_status p1 = ChangeExecutorUnavailable")
        case True
        then have "p' = p1" "as = rs" using assms(1) ok c \<open>runs_checks mode\<close> by (auto simp: check_change_def Let_def)
        moreover have "decided_packet p1" by (rule undecided_cases[OF rc(1)]) (simp add: True)
        ultimately show ?thesis using rc(2) True by (auto simp: sound_change_def decided_packet_def)
      next
        case False
        obtain p2 bs where a: "approve_change w n q p1 = (p2, bs)" by fastforce
        have r: "p' = p2" "as = rs @ bs"
          using assms(1) ok c \<open>runs_checks mode\<close> False a by (auto simp: check_change_def Let_def)
        have s: "sound_change q p2 (rs @ bs)" by (rule approve_sound[OF a rc(1,3,2,4)])
        have "pk_status p2 \<noteq> ChangePrepared"
          using a rc(3) by (auto simp: approve_change_def fail_packet_def materialize_def Let_def res_simps
              dest!: inspect_sel reject_cases split: sum.splits option.splits if_splits prod.splits)
        then have "pk_verdict p2 \<noteq> None" using s by (cases "pk_status p2") (auto simp: sound_change_def decided_packet_def is_successful_def)
        then show ?thesis using s r by simp
      qed
    qed
  qed
  then show "sound_change q p' as" "runs_checks mode \<Longrightarrow> pk_verdict p' \<noteq> None" by auto
qed

section \<open>The pipeline\<close>

lemma implement_result:
  assumes "implement_change w v q p = y" "pk_status p = ChangePrepared" "pk_verdict p = None"
  shows "y = Inr p' \<Longrightarrow> pk_status p' \<in> {ChangePrepared, ChangeFailed, ChangeExecutorUnavailable} \<and> undecided p'"
  using assms by (auto simp: implement_change_def Let_def with_event_def undecided_def fail_packet_def is_successful_def
      split: option.splits sum.splits)

lemma sound_prefix: "sound_change q p as \<Longrightarrow> list_all (action_ok q) bs \<Longrightarrow> sound_change q p (bs @ as)"
  by (auto simp: sound_change_def)

lemma undecided_sound:
  "undecided p \<Longrightarrow> pk_status p \<noteq> ChangeChecksPassed \<Longrightarrow> list_all (action_ok q) as \<Longrightarrow> sound_change q p as"
  using undecided_cases[of p] by (auto simp: sound_change_def decided_packet_def)

lemma implement_sound:
  assumes run: "implement_and_check w mode v q p = (p', as)" and st: "pk_status p = ChangePrepared" "pk_verdict p = None"
  shows "sound_change q p' as \<and> (runs_checks mode \<longrightarrow> pk_verdict p' \<noteq> None)"
proof (cases "implement_change w v q p")
  case (Inl pe)
  then show ?thesis using run by (cases pe) (auto simp: implement_and_check_def sound_fail)
next
  case im: (Inr p1)
  note s1 = implement_result[OF im st refl]
  have stopped: "sound_change q p2 [] \<and> pk_verdict p2 \<noteq> None"
    if "undecided p2" "\<not> is_successful (pk_status p2)" for p2
    using that undecided_sound[of p2 q "[]"] by (cases "pk_status p2") (auto simp: undecided_def)
  show ?thesis
  proof (cases "pk_status p1 = ChangeExecutorUnavailable")
    case True
    then show ?thesis using run im s1 stopped[of p1] by (auto simp: implement_and_check_def)
  next
    case up: False
    show ?thesis
    proof (cases "inspect_into w 1 p1")
      case (Inl pe)
      then show ?thesis using run im up by (cases pe) (auto simp: implement_and_check_def sound_fail)
    next
      case i2: (Inr p2)
      note sel2 = inspect_sel(1)[OF i2]
      have u2: "undecided p2" using s1 sel2 by (simp add: undecided_def)
      show ?thesis
      proof (cases "reject_disallowed q p2")
        case (Some r)
        then show ?thesis using run im up i2 reject_cases(1)[OF Some] by (auto simp: implement_and_check_def sound_fail)
      next
        case n2: None
        show ?thesis
        proof (cases "pk_status p2 = ChangeFailed")
          case True
          then show ?thesis using run im up i2 n2 stopped[OF u2] by (auto simp: implement_and_check_def)
        next
          case False
          then have "pk_status p2 = ChangePrepared" "pk_verdict p2 = None"
            using s1 sel2 up u2 by (auto simp: undecided_def)
          moreover have "check_change w 2 mode q p2 = (p', as)"
            using run im up i2 n2 False by (simp add: implement_and_check_def)
          ultimately show ?thesis using check_sound by blast
        qed
      qed
    qed
  qed
qed

lemma prepared_sound:
  assumes run: "execute_prepared w mode v q p = (p', as)" and st: "pk_status p = ChangePrepared" "pk_verdict p = None"
  shows "sound_change q p' as \<and> (runs_checks mode \<longrightarrow> pk_verdict p' \<noteq> None)"
proof (cases "inspect_into w 0 p")
  case (Inl pe)
  then show ?thesis using run by (cases pe) (auto simp: execute_prepared_def sound_fail)
next
  case i: (Inr p0)
  have st0: "pk_status p0 = ChangePrepared" "pk_verdict p0 = None" using inspect_sel(1)[OF i] st by auto
  show ?thesis
  proof (cases "reject_disallowed q p0")
    case (Some r)
    then show ?thesis using run i reject_cases(1)[OF Some] by (auto simp: execute_prepared_def sound_fail)
  next
    case n0: None
    show ?thesis
    proof (cases "runs_implementer mode")
      case False
      then have "check_change w 1 mode q p0 = (p', as)" using run i n0 by (simp add: execute_prepared_def)
      from check_sound[OF this st0] show ?thesis by blast
    next
      case True
      obtain bs where c: "implement_and_check w mode v q p0 = (p', bs)" and as: "as = implement_action w q p0 @ bs"
        using run i n0 True by (auto simp: execute_prepared_def Let_def split: prod.splits)
      have "list_all (action_ok q) (implement_action w q p0)" by (simp add: implement_action_def)
      then show ?thesis using implement_sound[OF c st0] sound_prefix as by blast
    qed
  qed
qed

section \<open>Requests\<close>

lemma command_same: "acceptance_command argv = Inr a \<Longrightarrow> a = argv \<and> argv \<noteq> []"
  by (simp add: acceptance_command_def split: if_splits)

lemma map_res_same: "(\<And>x y. f x = Inr y \<Longrightarrow> y = x) \<Longrightarrow> map_res f xs = Inr ys \<Longrightarrow> ys = xs"
  by (induction xs arbitrary: ys) (auto split: sum.splits)

lemma request_commands:
  assumes "request_from_document w d = Inr q"
  shows "cq_commands q = ad_commands (cd_acceptance d)" "cq_commands q \<noteq> []"
    "argv \<in> set (cq_commands q) \<Longrightarrow> argv \<noteq> [] \<and> \<not> shell_name (hd argv)"
proof -
  from assms obtain cs us where cs: "map_res acceptance_command (ad_commands (cd_acceptance d)) = Inr cs"
    and us: "map_res assert_allowed cs = Inr us" and q: "cq_commands q = cs" "cs \<noteq> []"
    by (auto simp: request_from_document_def Let_def res_simps acceptance_policy_def split: if_splits prod.splits)
  show "cq_commands q = ad_commands (cd_acceptance d)"
    using map_res_same[OF _ cs] command_same q(1) by auto
  show "cq_commands q \<noteq> []" using q by simp
  assume "argv \<in> set (cq_commands q)"
  then show "argv \<noteq> [] \<and> \<not> shell_name (hd argv)"
    using map_res_set[OF cs, of argv] map_res_image[OF us, of argv] command_same q
    by (auto simp: assert_allowed_def split: if_splits)
qed

section \<open>A small change\<close>

definition small_change :: change_document where
  "small_change = \<lparr>cd_change_id = ''a'',
     cd_repository = \<lparr>rd_id = ''r'', rd_registered_root = None, rd_root = None, rd_base_ref = ''m'', rd_base_sha = None\<rparr>,
     cd_task = ''t'', cd_allowed_paths = [''s''],
     cd_acceptance = \<lparr>ad_commands = [[''c'']], ad_required_artifacts = []\<rparr>, cd_resources = [],
     cd_limits = \<lparr>ld_max_implementation_attempts = 1, ld_timeout_seconds = 1, ld_network = ''disabled''\<rparr>\<rparr>"

definition small_world :: change_world where
  "small_world = \<lparr>xw_target = (\<lambda>_ _. Inr (True, ''/r'')), xw_sha = (\<lambda>_ _. Inr ''0''), xw_resources = Inr,
     xw_root = Inr ''/w'', xw_create = (\<lambda>_ _ b p. Inr (b, p)),
     xw_inspect = (\<lambda>_. Inr \<lparr>ge_head = ''0'', ge_status = [], ge_diff = [], ge_stat = [], ge_changed = [''s'']\<rparr>),
     xw_commit = (\<lambda>_. Inr ''1''), xw_implement = Some (Inr (plain_result [])), xw_check = (\<lambda>_. Inr ()), xw_executor = True,
     xw_command = (\<lambda>_. Inr \<lparr>ce_argv = [''c''], ce_exit = 0, ce_stdout = [], ce_stderr = [], ce_timed_out = False\<rparr>),
     xw_artifact = (\<lambda>_. Inr ())\<rparr>"

definition small_request :: change_request where
  "small_request = \<lparr>cq_id = ''a'', cq_repository = ''r'', cq_root = ''/r'', cq_base_ref = ''m'', cq_base_sha = ''0'',
     cq_task = ''t'', cq_allowed = [''s''], cq_commands = [[''c'']], cq_artifacts = [], cq_resources = [],
     cq_attempts = 1, cq_timeout = 1\<rparr>"

lemma small_values:
  "change_id ''a'' = Inr ''a''" "repository_id ''r'' = Inr ''r''" "git_ref ''m'' = Inr ''m''" "change_task ''t'' = Inr ''t''"
  "allowed_path ''s'' = Inr ''s''" "acceptance_command [''c''] = Inr [''c'']" "assert_allowed [''c''] = Inr ()"
  by (simp_all add: change_id_def repository_id_def git_ref_def change_task_def allowed_path_def acceptance_command_def
      assert_allowed_def shell_name_def trim_printable ascii_alphanumeric_def no_whitespace trim_slashes_def path_parts_def
      lowercase_def lower_byte_def ascii_uppercase_def Let_def)

lemma small_request: "request_from_document small_world small_change = Inr small_request"
  by (simp add: request_from_document_def small_world_def small_change_def small_request_def small_values base_sha_of_def
      allowed_paths_def attempt_limit_def timeout_seconds_def network_policy_def repository_target_def acceptance_policy_def Let_def)

lemma small_paths: "source_paths [''s''] = [''s'']" "allows ''s'' ''s''"
  by (simp_all add: source_paths_def is_ephemeral_path_def allows_def trim_printable trim_slashes_def Let_def)

lemma small_prepare: "prepare_change small_world small_request = Inr (''rack/change-a'', ''/w/a/repo'')"
  by (simp add: prepare_change_def small_world_def small_request_def branch_name_def worktree_path_def)

definition small_evidence :: git_evidence where
  "small_evidence = \<lparr>ge_head = ''0'', ge_status = [], ge_diff = [], ge_stat = [], ge_changed = [''s'']\<rparr>"

definition small_command :: command_evidence where
  "small_command = \<lparr>ce_argv = [''c''], ce_exit = 0, ce_stdout = [], ce_stderr = [], ce_timed_out = False\<rparr>"

definition small_start :: review_packet where
  "small_start = with_event ''setup'' ''completed'' None ((packet_from_request small_request)
     \<lparr>pk_branch := ''rack/change-a'', pk_worktree := ''/w/a/repo'', pk_budget := Some 1\<rparr>)"

definition small_packet :: review_packet where
  "small_packet = fst (execute_prepared small_world ImplementAndVerify (Some ''w'') small_request small_start)"

lemma small_answers:
  "xw_implement small_world = Some (Inr (plain_result []))" "cq_allowed small_request = [''s'']" "cq_timeout small_request = 1"
  by (simp_all add: small_world_def small_request_def)

lemma small_steps:
  "inspect_into small_world n p = Inr (with_git_evidence small_evidence p)"
  "pk_changed p = [''s''] \<Longrightarrow> reject_disallowed small_request p = None"
  "implement_change small_world (Some v) small_request p = Inr (with_event ''agent_execution'' ''completed'' None
     (p\<lparr>pk_provenance := Some v, pk_output := Some [], pk_tool_calls := []\<rparr>))"
  "still_allowed small_world n = Inr ()"
  "run_check_commands small_world 0 (cq_commands small_request) = ([small_command], [[''c'']], None)"
  "assert_artifacts small_world small_request = Inr ()"
  "pk_changed p = [''s''] \<Longrightarrow> materialize small_world p = (Inr (p\<lparr>pk_head := ''1''\<rparr>), [CommitChange [''s'']])"
  by (simp_all add: inspect_into_def small_world_def small_evidence_def reject_disallowed_def disallowed_def small_paths
      small_request_def implement_change_def plain_result_def still_allowed_def small_command_def assert_artifacts_def
      materialize_def Let_def)

lemma small_checks:
  "pk_status p = ChangePrepared \<Longrightarrow> run_checks_of small_world small_request p =
     ((with_event ''acceptance'' ''completed'' None (p\<lparr>pk_commands := [small_command]\<rparr>))\<lparr>pk_status := ChangeChecksPassed\<rparr>,
      [RunCheck [''c''] 1])"
  by (simp add: run_checks_of_def small_steps checked_packet_def small_command_def succeeded_def Let_def)
    (simp add: small_world_def small_request_def)

lemma small_prepared:
  "execute_prepared small_world ImplementAndVerify (Some ''w'') small_request small_start =
     (small_packet, [ImplementChange ''/w/a/repo'' [''s''] 1, RunCheck [''c''] 1, CommitChange [''s'']])"
  "pk_head small_packet = ''1''" "pk_verdict small_packet = Some Approved" "pk_provenance small_packet = Some ''w''"
  by (simp_all add: small_packet_def execute_prepared_def small_steps small_checks small_start_def with_event_def
      with_git_evidence_def small_evidence_def packet_from_request_def implement_and_check_def check_change_def
      approve_change_def implement_action_def small_answers Let_def)

lemma small_run:
  "execute_change small_world (\<lambda>_. Inr ''p'') small_change ImplementAndVerify (Some ''w'') = (Inr (small_packet, ''p''),
     [ImplementChange ''/w/a/repo'' [''s''] 1, RunCheck [''c''] 1, CommitChange [''s'']])"
  using small_prepared(1) by (simp add: execute_change_def small_request small_prepare small_start_def small_answers Let_def)

lemma small_workspace:
  "execute_workspace small_world (\<lambda>_. Inr ''p'') (Inr False) (Inr \<lparr>ws_worker = ''w'', ws_provenance = Some ''w'', ws_decision = None\<rparr>)
     small_change = (Inr (workspace_result_of \<lparr>ws_worker = ''w'', ws_provenance = Some ''w'', ws_decision = None\<rparr> small_packet ''p''),
     [ImplementChange ''/w/a/repo'' [''s''] 1, RunCheck [''c''] 1, CommitChange [''s'']])"
  by (simp add: execute_workspace_def small_run)

section \<open>Properties\<close>

lemma execute_cases:
  assumes "execute_change w save d mode v = (y, as)"
  shows "(\<exists>e. y = Inl e \<and> as = []) \<or>
    (\<exists>q p. request_from_document w d = Inr q \<and> sound_change q p as \<and> (runs_checks mode \<longrightarrow> pk_verdict p \<noteq> None) \<and>
      res_bind (save p) (\<lambda>path. Inr (p, path)) = y)"
proof (cases "res_bind (request_from_document w d) (\<lambda>q. res_bind (prepare_change w q) (\<lambda>ws. Inr (q, ws)))")
  case (Inl e)
  then show ?thesis using assms by (auto simp: execute_change_def)
next
  case (Inr qw)
  obtain q branch worktree where qw: "qw = (q, branch, worktree)" by (cases qw) auto
  have q: "request_from_document w d = Inr q" using Inr qw by (auto simp: res_simps)
  define p0 where "p0 = with_event ''setup'' ''completed'' None ((packet_from_request q)
      \<lparr>pk_branch := branch, pk_worktree := worktree, pk_budget := Some (cq_timeout q)\<rparr>)"
  obtain p bs where p: "execute_prepared w mode v q p0 = (p, bs)" by fastforce
  have "pk_status p0 = ChangePrepared" "pk_verdict p0 = None"
    by (simp_all add: p0_def with_event_def packet_from_request_def)
  note s = prepared_sound[OF p this]
  have "res_bind (save p) (\<lambda>path. Inr (p, path)) = y \<and> bs = as"
    using assms by (simp add: execute_change_def Inr qw p0_def[symmetric] p Let_def)
  then show ?thesis using s q by blast
qed

text \<open>An action that the document of a change permits.\<close>

definition document_permits :: "change_world \<Rightarrow> change_document \<Rightarrow> change_action \<Rightarrow> bool" where
  "document_permits w d a \<longleftrightarrow>
     (case request_from_document w d of
        Inl e \<Rightarrow> False
      | Inr q \<Rightarrow>
          (case a of
             ImplementChange dir allowed t \<Rightarrow> allowed = cq_allowed q \<and> t = cq_timeout q
           | RunCheck argv t \<Rightarrow> argv \<in> set (ad_commands (cd_acceptance d)) \<and> \<not> shell_name (hd argv) \<and> t = cq_timeout q
           | CommitChange ps \<Rightarrow> ps \<noteq> [] \<and> paths_allowed q ps))"

text \<open>Whatever the implementer, the executor and git answer, a change does only what its document permits: it
  asks the implementer with the validated paths, runs the commands of the document, none of them a shell, and
  commits, if at all, changed paths that the document allows.\<close>

theorem change_actions_permitted: "list_all (document_permits w d) (snd (execute_change w save d mode v))"
proof -
  obtain y as where r: "execute_change w save d mode v = (y, as)" by fastforce
  from execute_cases[OF r] show ?thesis
  proof
    assume "\<exists>e. y = Inl e \<and> as = []"
    then show ?thesis by (auto simp: r)
  next
    assume "\<exists>q p. request_from_document w d = Inr q \<and> sound_change q p as \<and> (runs_checks mode \<longrightarrow> pk_verdict p \<noteq> None) \<and>
      res_bind (save p) (\<lambda>path. Inr (p, path)) = y"
    then obtain q p where q: "request_from_document w d = Inr q" and s: "list_all (action_ok q) as"
      by (auto simp: sound_change_def)
    have "action_ok q a \<Longrightarrow> document_permits w d a" for a
      using request_commands[OF q] by (cases a) (auto simp: document_permits_def q)
    then show ?thesis using s by (simp add: r list_all_iff)
  qed
qed

text \<open>An approved change passed: its status is ChecksPassed, it ran every acceptance command of the document,
  in order, each with success, and the last thing it did was to commit what the last inspection found changed,
  unless that was nothing; and every change that is to be verified ends with a verdict.\<close>

theorem approved_change_sound:
  assumes "execute_change w save d mode v = (Inr (p, path), as)"
  shows "decided_packet p \<and> (runs_checks mode \<longrightarrow> pk_verdict p \<noteq> None) \<and>
    (pk_verdict p = Some Approved \<longrightarrow> (\<exists>q before. request_from_document w d = Inr q \<and>
       list_all succeeded (pk_commands p) \<and> length (pk_commands p) = length (ad_commands (cd_acceptance d)) \<and>
       as = before @ map (\<lambda>argv. RunCheck argv (cq_timeout q)) (ad_commands (cd_acceptance d)) @
         (if source_paths (pk_changed p) = [] then [] else [CommitChange (source_paths (pk_changed p))])))"
proof -
  from execute_cases[OF assms] obtain q where q: "request_from_document w d = Inr q"
    and s: "sound_change q p as" "runs_checks mode \<longrightarrow> pk_verdict p \<noteq> None"
    by (auto simp: res_simps)
  then show ?thesis using request_commands(1)[OF q] by (auto simp: sound_change_def checks_of_def)
qed

theorem approved_change_sound_witness:
  "decided_packet small_packet \<and> pk_verdict small_packet = Some Approved \<and> list_all succeeded (pk_commands small_packet) \<and>
     length (pk_commands small_packet) = 1"
  using approved_change_sound[OF small_run] small_prepared(3) by (auto simp: small_change_def)

text \<open>A workspace request gives a revision only for an approved change, and when a worker was chosen by a decision
  only if that worker's harness is the one that ran.\<close>

theorem workspace_revision_sound:
  assumes "execute_workspace w save known selected d = (Inr z, as)" "wz_revision z = Some sha"
  shows "wz_verdict z = Some Approved \<and> wz_status z = ChangeChecksPassed \<and>
    (\<exists>s. selected = Inr s \<and> wz_worker z = ws_worker s \<and> (ws_decision s \<noteq> None \<longrightarrow> wz_provenance z = Some (ws_worker s)))"
proof -
  from assms(1) obtain s where k: "res_bind known (\<lambda>k. if k then Inl ''duplicate idempotent submission'' else selected) = Inr s"
    by (auto simp: execute_workspace_def split: sum.splits)
  then have s: "selected = Inr s" by (auto simp: res_simps split: if_splits)
  obtain y bs where x0: "execute_change w save d ImplementAndVerify (ws_provenance s) = (y, bs)" by fastforce
  with assms(1) k obtain p path where x: "execute_change w save d ImplementAndVerify (ws_provenance s) = (Inr (p, path), bs)"
    by (cases y) (auto simp: execute_workspace_def)
  have z: "\<exists>path dn. z = workspace_result_of s (p\<lparr>pk_decision := dn\<rparr>) path"
    and m: "ws_decision s \<noteq> None \<Longrightarrow> pk_provenance p = Some (ws_worker s)"
  proof -
    show "ws_decision s \<noteq> None \<Longrightarrow> pk_provenance p = Some (ws_worker s)"
      using assms(1) k x by (auto simp: execute_workspace_def Let_def res_simps split: if_splits)
    show "\<exists>path dn. z = workspace_result_of s (p\<lparr>pk_decision := dn\<rparr>) path"
    proof (cases "ws_decision s")
      case None
      then have "z = workspace_result_of s (p\<lparr>pk_decision := pk_decision p\<rparr>) path"
        using assms(1) k x by (auto simp: execute_workspace_def)
      then show ?thesis by blast
    next
      case (Some dn)
      then show ?thesis using assms(1) k x by (auto simp: execute_workspace_def Let_def res_simps split: if_splits)
    qed
  qed
  have "decided_packet p" using execute_cases[OF x] by (auto simp: res_simps sound_change_def)
  then show ?thesis using assms(2) s z m
    by (auto simp: workspace_result_of_def accepted_revision_def decided_packet_def split: if_splits)
qed

theorem workspace_revision_sound_witness:
  "wz_revision (workspace_result_of \<lparr>ws_worker = ''w'', ws_provenance = Some ''w'', ws_decision = None\<rparr> small_packet ''p'') = Some ''1'' \<and>
   wz_status (workspace_result_of \<lparr>ws_worker = ''w'', ws_provenance = Some ''w'', ws_decision = None\<rparr> small_packet ''p'') = ChangeChecksPassed"
proof -
  have "wz_revision (workspace_result_of \<lparr>ws_worker = ''w'', ws_provenance = Some ''w'', ws_decision = None\<rparr> small_packet ''p'') = Some ''1''"
    by (simp add: workspace_result_of_def accepted_revision_def small_prepared)
  with workspace_revision_sound[OF small_workspace this] show ?thesis by simp
qed

end
