(* ===== verification/Spec2Isabelle.thy ===== *)
theory Spec2Isabelle
  imports Composition Media_Safety Archive_Safety Campaign_Safety Campaign_Lease Change_Safety
begin

text \<open>The verification development of the rack-ai runtime.\<close>

end
